(* ===== verification/Py_Prelude.thy ===== *)
theory Py_Prelude
  imports Main "HOL-Library.AList" "HOL-Library.Monad_Syntax" "HOL-Library.Char_ord"
    "HOL-Library.List_Lexorder" "HOL-Library.Product_Lexorder"
    "HOL-Library.While_Combinator"
begin

text \<open>
  The vocabulary the component theories share: dynamically typed property values and
  Python truthiness, insertion-ordered dictionaries as association lists, the string
  operations the sources use, and traversals in the option monad.  In every theory
  \<^term>\<open>None\<close> as the result of a computation means that the Python call does not
  return a value: a loop that never ends, or a recursion deeper than the interpreter's
  limit.  Raised exceptions are values of sum types.
\<close>

named_theorems py_simps \<open>evaluation of the Python vocabulary\<close>
named_theorems opt_intro \<open>a monadic computation returns a value\<close>

subsection \<open>Property values and truthiness\<close>

text \<open>
  A value stored under a key of \<open>semantic_properties\<close> or \<open>type_information\<close>.  The
  clang worker sends strings only (\<open>map<string, string>\<close>), the fixtures also use the
  other JSON types.
\<close>

datatype pyval =
    PNone
  | PBool bool
  | PInt int
  | PStr string
  | PList "pyval list"
  | PDict "(string \<times> pyval) list"

fun truthy :: "pyval \<Rightarrow> bool" where
  "truthy PNone = False"
| "truthy (PBool b) = b"
| "truthy (PInt i) = (i \<noteq> 0)"
| "truthy (PStr s) = (s \<noteq> [])"
| "truthy (PList xs) = (xs \<noteq> [])"
| "truthy (PDict d) = (d \<noteq> [])"

text \<open>A JSON object read with \<open>.get(key)\<close>: an association list, first entry wins.\<close>

type_synonym props = "(string \<times> pyval) list"

definition prop_get :: "props \<Rightarrow> string \<Rightarrow> pyval" where
  "prop_get ps k = (case map_of ps k of None \<Rightarrow> PNone | Some v \<Rightarrow> v)"

definition prop_flag :: "props \<Rightarrow> string \<Rightarrow> bool" where
  "prop_flag ps k = truthy (prop_get ps k)"

text \<open>
  \<open>.get(key, default)\<close> for a key whose value is a string whenever it is present.
\<close>

definition prop_str :: "props \<Rightarrow> string \<Rightarrow> string \<Rightarrow> string" where
  "prop_str ps k d = (case map_of ps k of Some (PStr s) \<Rightarrow> s | _ \<Rightarrow> d)"

lemma prop_flag_absent: "map_of ps k = None \<Longrightarrow> \<not> prop_flag ps k"
  by (simp add: prop_flag_def prop_get_def)

lemma in_map_filter: "y \<in> set (List.map_filter f xs) \<longleftrightarrow> (\<exists>x \<in> set xs. f x = Some y)"
  by (induction xs) (auto simp: List.map_filter_simps split: option.splits)

text \<open>Choosing a position of a list: the first, or one of the rest.\<close>

lemma split_Cons_ex:
  "(\<exists>e1 a e2. x # xs = e1 @ a # e2 \<and> P e1 a e2) \<longleftrightarrow>
     P [] x xs \<or> (\<exists>e1 a e2. xs = e1 @ a # e2 \<and> P (x # e1) a e2)" (is "?l \<longleftrightarrow> ?r")
proof
  assume ?l
  then obtain e1 a e2 where e: "x # xs = e1 @ a # e2" "P e1 a e2" by blast
  then show ?r by (cases e1) auto
next
  assume ?r
  then show ?l by (metis append_Cons append_Nil)
qed

subsection \<open>Strings\<close>

definition starts_with :: "string \<Rightarrow> string \<Rightarrow> bool" where
  "starts_with s p \<longleftrightarrow> take (length p) s = p"

definition ends_with :: "string \<Rightarrow> string \<Rightarrow> bool" where
  "ends_with s p \<longleftrightarrow> length p \<le> length s \<and> drop (length s - length p) s = p"

lemma starts_with_append [simp]: "starts_with (p @ s) p"
  by (simp add: starts_with_def)

lemma ends_with_append [simp]: "ends_with (s @ p) p"
  by (simp add: ends_with_def)

lemma starts_with_iff: "starts_with s p \<longleftrightarrow> (\<exists>r. s = p @ r)"
  by (metis append_eq_conv_conj append_take_drop_id starts_with_def)

text \<open>Substring test, Python's \<open>needle in s\<close>.\<close>

fun contains_str :: "string \<Rightarrow> string \<Rightarrow> bool" where
  "contains_str needle [] = (needle = [])"
| "contains_str needle (c # s) = (starts_with (c # s) needle \<or> contains_str needle s)"

lemma contains_str_iff: "contains_str needle s \<longleftrightarrow> (\<exists>a b. s = a @ needle @ b)"
proof (induction s)
  case Nil
  then show ?case by simp
next
  case (Cons c s)
  have "(\<exists>a b. c # s = a @ needle @ b)
      \<longleftrightarrow> (\<exists>b. c # s = needle @ b) \<or> (\<exists>a b. s = a @ needle @ b)" (is "?l \<longleftrightarrow> ?r")
  proof
    assume ?l
    then obtain a b where ab: "c # s = a @ needle @ b" by blast
    show ?r
    proof (cases a)
      case Nil
      with ab show ?thesis by auto
    next
      case (Cons d a')
      with ab have "s = a' @ needle @ b" by simp
      then show ?thesis by blast
    qed
  next
    assume ?r
    then show ?l
    proof
      assume "\<exists>b. c # s = needle @ b"
      then show ?l by (metis append_Nil)
    next
      assume "\<exists>a b. s = a @ needle @ b"
      then show ?l by (metis append_Cons)
    qed
  qed
  then show ?case using Cons.IH by (simp add: starts_with_iff)
qed

text \<open>Quotes and the line break, which the string literals here cannot hold.\<close>

abbreviation sq :: string where "sq \<equiv> [CHR 0x27]"
abbreviation dq :: string where "dq \<equiv> [CHR 0x22]"
abbreviation nl :: string where "nl \<equiv> [CHR 0x0A]"

text \<open>Decimal rendering, as in an f-string.\<close>

definition digit_char :: "nat \<Rightarrow> char" where
  "digit_char d = char_of (48 + d :: nat)"

fun nat_str :: "nat \<Rightarrow> string" where
  "nat_str n = (if n < 10 then [digit_char n] else nat_str (n div 10) @ [digit_char (n mod 10)])"

declare nat_str.simps [simp del]

text \<open>Reading the digits back.\<close>

definition digits_value :: "string \<Rightarrow> nat" where
  "digits_value s = foldl (\<lambda>acc c. 10 * acc + (of_char c - 48)) 0 s"

lemma digits_value_nat_str: "digits_value (nat_str n) = n"
proof (induction n rule: nat_str.induct)
  case (1 n)
  have digit: "of_char (digit_char d) = 48 + d" if "d < 10" for d
    using that by (simp add: digit_char_def)
  show ?case
  proof (cases "n < 10")
    case True
    then show ?thesis by (subst nat_str.simps) (simp add: digits_value_def digit)
  next
    case False
    with 1 have "digits_value (nat_str (n div 10)) = n div 10" by simp
    with False show ?thesis by (subst nat_str.simps) (simp add: digits_value_def digit)
  qed
qed

lemma nat_str_inject [simp]: "nat_str m = nat_str n \<longleftrightarrow> m = n"
  by (metis digits_value_nat_str)

definition int_str :: "int \<Rightarrow> string" where
  "int_str i = (if i < 0 then ''-'' @ nat_str (nat (- i)) else nat_str (nat i))"

fun join_str :: "string \<Rightarrow> string list \<Rightarrow> string" where
  "join_str sep [] = []"
| "join_str sep [s] = s"
| "join_str sep (s # t # ss) = s @ sep @ join_str sep (t # ss)"

text \<open>
  \<open>repr\<close> and \<open>str\<close> of a property value.  A string inside a list is quoted; none holds a
  character that \<open>repr\<close> would escape.
\<close>

fun py_repr :: "pyval \<Rightarrow> string" where
  "py_repr PNone = ''None''"
| "py_repr (PBool b) = (if b then ''True'' else ''False'')"
| "py_repr (PInt i) = int_str i"
| "py_repr (PStr s) = sq @ s @ sq"
| "py_repr (PList xs) = ''['' @ join_str '', '' (map py_repr xs) @ '']''"
| "py_repr (PDict d) = ''{'' @ join_str '', '' (map (\<lambda>(k, v). sq @ k @ sq @ '': '' @ py_repr v) d) @ ''}''"

fun py_str :: "pyval \<Rightarrow> string" where
  "py_str (PStr s) = s"
| "py_str v = py_repr v"

subsection \<open>Dictionaries in insertion order\<close>

text \<open>
  A Python dict keeps the order in which keys were first inserted; assigning to a
  present key keeps its position.  \<^const>\<open>AList.update\<close> does exactly this.
\<close>

type_synonym ('k, 'v) dict = "('k \<times> 'v) list"

definition dict_keys :: "('k, 'v) dict \<Rightarrow> 'k list" where
  "dict_keys d = map fst d"

definition dict_set :: "'k \<Rightarrow> 'v \<Rightarrow> ('k, 'v) dict \<Rightarrow> ('k, 'v) dict" where
  "dict_set = AList.update"

definition dict_get :: "('k, 'v) dict \<Rightarrow> 'k \<Rightarrow> 'v option" where
  "dict_get = map_of"

definition dict_get_default :: "'v \<Rightarrow> ('k, 'v) dict \<Rightarrow> 'k \<Rightarrow> 'v" where
  "dict_get_default v d k = (case map_of d k of None \<Rightarrow> v | Some x \<Rightarrow> x)"

definition dict_setdefault :: "'k \<Rightarrow> 'v \<Rightarrow> ('k, 'v) dict \<Rightarrow> ('k, 'v) dict" where
  "dict_setdefault k v d = (if map_of d k = None then d @ [(k, v)] else d)"

definition dict_del :: "'k \<Rightarrow> ('k, 'v) dict \<Rightarrow> ('k, 'v) dict" where
  "dict_del = AList.delete"

text \<open>\<open>d.setdefault(k, []).append(x)\<close>\<close>

definition dict_push :: "'k \<Rightarrow> 'v \<Rightarrow> ('k, 'v list) dict \<Rightarrow> ('k, 'v list) dict" where
  "dict_push k x d = dict_set k (dict_get_default [] d k @ [x]) d"

lemma map_of_dict_set [simp]: "map_of (dict_set k v d) = (map_of d)(k \<mapsto> v)"
  by (simp add: dict_set_def update_conv')

lemma dict_set_subset: "set (dict_set k v d) \<subseteq> insert (k, v) (set d)"
  by (induction d) (auto simp: dict_set_def)

lemma map_of_in_set: "distinct (dict_keys d) \<Longrightarrow> map_of d k = Some v \<longleftrightarrow> (k, v) \<in> set d"
  by (simp add: dict_keys_def)

lemma dict_keys_set: "dict_keys (dict_set k v d)
    = (if k \<in> set (dict_keys d) then dict_keys d else dict_keys d @ [k])"
  by (simp add: dict_set_def dict_keys_def update_keys)

lemma set_dict_keys_set [simp]: "set (dict_keys (dict_set k v d)) = insert k (set (dict_keys d))"
  by (auto simp: dict_keys_set)

lemma dict_keys_Nil [simp]: "dict_keys [] = []"
  by (simp add: dict_keys_def)

lemma dict_keys_Cons [simp]: "dict_keys (p # d) = fst p # dict_keys d"
  by (simp add: dict_keys_def)

lemma dict_keys_append [simp]: "dict_keys (d @ e) = dict_keys d @ dict_keys e"
  by (simp add: dict_keys_def)

lemma distinct_dict_keys_set [simp]: "distinct (dict_keys d) \<Longrightarrow> distinct (dict_keys (dict_set k v d))"
  by (auto simp: dict_keys_set)

lemma map_of_None_dict_keys: "map_of d k = None \<longleftrightarrow> k \<notin> set (dict_keys d)"
  by (auto simp: dict_keys_def map_of_eq_None_iff)

lemma map_of_Some_dict_keys: "map_of d k = Some v \<Longrightarrow> k \<in> set (dict_keys d)"
  by (metis map_of_None_dict_keys option.distinct(1))

lemma dict_setdefault_keys: "dict_keys (dict_setdefault k v d)
    = (if k \<in> set (dict_keys d) then dict_keys d else dict_keys d @ [k])"
  by (auto simp: dict_setdefault_def map_of_None_dict_keys)

lemma map_of_dict_setdefault: "map_of (dict_setdefault k v d)
    = (if map_of d k = None then (map_of d)(k \<mapsto> v) else map_of d)"
  by (auto simp: dict_setdefault_def map_add_def fun_eq_iff split: option.splits)

lemma map_of_dict_del [simp]: "map_of (dict_del k d) = (map_of d)(k := None)"
  by (simp add: dict_del_def delete_conv')

lemma dict_keys_del [simp]: "dict_keys (dict_del k d) = removeAll k (dict_keys d)"
  by (simp add: dict_del_def dict_keys_def delete_keys)

lemma dict_del_filter: "dict_del k d = filter (\<lambda>p. fst p \<noteq> k) d"
  by (auto simp: dict_del_def AList.delete_eq intro!: filter_cong)

subsection \<open>Traversals in the option monad\<close>

text \<open>A list comprehension and a loop whose bodies may fail to return.\<close>

fun opt_map :: "('a \<Rightarrow> 'b option) \<Rightarrow> 'a list \<Rightarrow> 'b list option" where
  "opt_map f [] = Some []"
| "opt_map f (x # xs) = do { y \<leftarrow> f x; ys \<leftarrow> opt_map f xs; Some (y # ys) }"

fun opt_fold :: "('a \<Rightarrow> 's \<Rightarrow> 's option) \<Rightarrow> 'a list \<Rightarrow> 's \<Rightarrow> 's option" where
  "opt_fold f [] s = Some s"
| "opt_fold f (x # xs) s = do { s' \<leftarrow> f x s; opt_fold f xs s' }"

text \<open>\<open>any(...)\<close> and \<open>all(...)\<close> stop at the first deciding element.\<close>

fun opt_any :: "('a \<Rightarrow> bool option) \<Rightarrow> 'a list \<Rightarrow> bool option" where
  "opt_any p [] = Some False"
| "opt_any p (x # xs) = do { b \<leftarrow> p x; if b then Some True else opt_any p xs }"

fun opt_all :: "('a \<Rightarrow> bool option) \<Rightarrow> 'a list \<Rightarrow> bool option" where
  "opt_all p [] = Some True"
| "opt_all p (x # xs) = do { b \<leftarrow> p x; if b then opt_all p xs else Some False }"

definition opt_concat_map :: "('a \<Rightarrow> 'b list option) \<Rightarrow> 'a list \<Rightarrow> 'b list option" where
  "opt_concat_map f xs = map_option concat (opt_map f xs)"

lemma opt_map_cong [fundef_cong]:
  "xs = ys \<Longrightarrow> (\<And>x. x \<in> set ys \<Longrightarrow> f x = g x) \<Longrightarrow> opt_map f xs = opt_map g ys"
  by (induction xs arbitrary: ys) auto

lemma opt_fold_cong [fundef_cong]:
  "xs = ys \<Longrightarrow> s = t \<Longrightarrow> (\<And>x a. x \<in> set ys \<Longrightarrow> f x a = g x a) \<Longrightarrow> opt_fold f xs s = opt_fold g ys t"
proof (induction xs arbitrary: s t ys)
  case Nil
  then show ?case by auto
next
  case (Cons x xs)
  then have "f x s = g x t" by auto
  moreover have "opt_fold f xs = opt_fold g xs"
    using Cons by (intro ext) auto
  ultimately show ?case using Cons.prems(1) by auto
qed

lemma opt_map_Some_conv: "(\<forall>x \<in> set xs. f x = Some (g x)) \<Longrightarrow> opt_map f xs = Some (map g xs)"
  by (induction xs) auto

lemma opt_map_total [opt_intro]: "(\<And>x. x \<in> set xs \<Longrightarrow> \<exists>y. f x = Some y) \<Longrightarrow> \<exists>ys. opt_map f xs = Some ys"
  by (induction xs) force+

lemma opt_map_None: "opt_map f xs = None \<longleftrightarrow> (\<exists>x \<in> set xs. f x = None)"
  by (induction xs) (auto split: bind_splits)

lemma opt_map_length: "opt_map f xs = Some ys \<Longrightarrow> length ys = length xs"
  by (induction xs arbitrary: ys) (auto split: bind_splits)

lemma opt_map_SomeD: "opt_map f xs = Some ys \<Longrightarrow> list_all2 (\<lambda>x y. f x = Some y) xs ys"
  by (induction xs arbitrary: ys) (auto split: bind_splits)

lemma opt_concat_map_set:
  assumes "opt_concat_map f xs = Some ys"
  shows "y \<in> set ys \<longleftrightarrow> (\<exists>x \<in> set xs. \<exists>zs. f x = Some zs \<and> y \<in> set zs)"
proof -
  obtain zss where zss: "opt_map f xs = Some zss" "ys = concat zss"
    using assms by (auto simp: opt_concat_map_def)
  have "(\<exists>zs \<in> set zss. y \<in> set zs) \<longleftrightarrow> (\<exists>x \<in> set xs. \<exists>zs. f x = Some zs \<and> y \<in> set zs)"
    using opt_map_SomeD [OF zss(1)] by (induction rule: list_all2_induct) auto
  then show ?thesis by (simp add: zss(2))
qed

lemma bex_pair: "(\<exists>p \<in> A. P (fst p) (snd p)) \<longleftrightarrow> (\<exists>a b. (a, b) \<in> A \<and> P a b)"
  by force

lemma opt_concat_map_pairs:
  assumes "opt_concat_map (\<lambda>(a, b). do { z \<leftarrow> h a b; Some (k a b z) }) xs = Some ys"
  shows "y \<in> set ys \<longleftrightarrow> (\<exists>a b z. (a, b) \<in> set xs \<and> h a b = Some z \<and> y \<in> set (k a b z))"
proof -
  have "y \<in> set ys \<longleftrightarrow> (\<exists>p \<in> set xs. \<exists>z. h (fst p) (snd p) = Some z \<and> y \<in> set (k (fst p) (snd p) z))"
    unfolding opt_concat_map_set [OF assms] by (auto simp: case_prod_unfold bind_eq_Some_conv)
  then show ?thesis unfolding bex_pair [of "set xs" "\<lambda>a b. \<exists>z. h a b = Some z \<and> y \<in> set (k a b z)"] by simp
qed

lemma opt_fold_append: "opt_fold f (xs @ ys) s = opt_fold f xs s \<bind> opt_fold f ys"
  by (induction xs arbitrary: s) (auto split: bind_splits)

text \<open>A loop keeps an invariant its body keeps; it returns when its body does.\<close>

lemma opt_fold_inv:
  assumes "opt_fold f xs s = Some t" and "I s"
    and "\<And>x s s'. x \<in> set xs \<Longrightarrow> I s \<Longrightarrow> f x s = Some s' \<Longrightarrow> I s'"
  shows "I t"
  using assms
proof (induction xs arbitrary: s)
  case Nil
  then show ?case by simp
next
  case (Cons x xs)
  from Cons.prems(1) obtain s' where s': "f x s = Some s'" "opt_fold f xs s' = Some t"
    by (auto split: bind_splits)
  have "I s'" using Cons.prems(2,3) s'(1) by (meson list.set_intros(1))
  then show ?case using Cons.IH [OF s'(2)] Cons.prems(3) by (meson list.set_intros(2))
qed

lemma opt_fold_total [opt_intro]:
  "(\<And>x s. x \<in> set xs \<Longrightarrow> \<exists>s'. f x s = Some s') \<Longrightarrow> \<exists>t. opt_fold f xs s = Some t"
proof (induction xs arbitrary: s)
  case Nil
  then show ?case by simp
next
  case (Cons x xs)
  from Cons.prems obtain s' where "f x s = Some s'" by fastforce
  moreover have "\<exists>t. opt_fold f xs s' = Some t" using Cons by simp
  ultimately show ?case by simp
qed

lemma opt_any_Some_conv: "(\<forall>x \<in> set xs. p x = Some (q x)) \<Longrightarrow> opt_any p xs = Some (\<exists>x \<in> set xs. q x)"
  by (induction xs) auto

lemma opt_all_Some_conv: "(\<forall>x \<in> set xs. p x = Some (q x)) \<Longrightarrow> opt_all p xs = Some (\<forall>x \<in> set xs. q x)"
  by (induction xs) auto

subsection \<open>Loops that search for a fixed point\<close>

text \<open>
  \<open>changed = True; while changed: changed = False; <sweep>\<close>: the sweep returns the new
  state and whether it changed anything.  The loop is \<^term>\<open>None\<close> when it never ends.
\<close>

definition sweep_loop :: "('s \<Rightarrow> 's \<times> bool) \<Rightarrow> 's \<Rightarrow> 's option" where
  "sweep_loop sweep s =
     map_option fst (while_option (\<lambda>(s, changed). changed) (\<lambda>(s, changed). sweep s) (s, True))"

lemma sweep_loop_unfold:
  "sweep_loop sweep s = (case sweep s of (s', changed) \<Rightarrow> if changed then sweep_loop sweep s' else Some s')"
proof -
  let ?w = "while_option (\<lambda>(s, changed). changed) (\<lambda>(s, changed). sweep s)"
  obtain s' c where sw: "sweep s = (s', c)" by (cases "sweep s")
  have "?w (s, True) = ?w (s', c)" by (subst while_option_unfold) (simp add: sw)
  moreover have "?w (s', False) = Some (s', False)" by (subst while_option_unfold) simp
  ultimately show ?thesis by (cases c) (simp_all add: sweep_loop_def sw)
qed

text \<open>A sweep that reports a change strictly decreases a measure: the loop ends.\<close>

lemma sweep_loop_total:
  fixes m :: "'s \<Rightarrow> nat"
  assumes "I s"
    and "\<And>s s' c. I s \<Longrightarrow> sweep s = (s', c) \<Longrightarrow> I s'"
    and "\<And>s s'. I s \<Longrightarrow> sweep s = (s', True) \<Longrightarrow> m s' < m s"
  shows "\<exists>t. sweep_loop sweep s = Some t"
  using assms(1)
proof (induction "m s" arbitrary: s rule: less_induct)
  case less
  obtain s' c where sw: "sweep s = (s', c)" by (cases "sweep s")
  show ?case
  proof (cases c)
    case True
    have "I s'" by (rule assms(2) [OF less.prems sw])
    have "sweep s = (s', True)" using sw True by simp
    then have "m s' < m s" by (rule assms(3) [OF less.prems])
    from less.hyps [OF this \<open>I s'\<close>] obtain t where "sweep_loop sweep s' = Some t" by blast
    moreover have "sweep_loop sweep s = sweep_loop sweep s'"
      using sweep_loop_unfold [of sweep s] sw True by simp
    ultimately show ?thesis by simp
  next
    case False
    then show ?thesis using sweep_loop_unfold [of sweep s] sw by simp
  qed
qed

text \<open>
  A result comes from a last sweep that changed nothing: it started from a state that
  satisfies the loop invariant.
\<close>

lemma sweep_loop_result:
  assumes res: "sweep_loop sweep s = Some t" and "I s"
    and step: "\<And>s s' c. I s \<Longrightarrow> sweep s = (s', c) \<Longrightarrow> I s'"
  shows "I t \<and> (\<exists>u. I u \<and> sweep u = (t, False))"
proof -
  obtain b where w: "while_option (\<lambda>(s, changed). changed) (\<lambda>(s, changed). sweep s) (s, True) = Some (t, b)"
    using res by (auto simp: sweep_loop_def)
  let ?J = "\<lambda>(s, c). I s \<and> (c \<or> (\<exists>u. I u \<and> sweep u = (s, False)))"
  have "?J (t, b)"
  proof (rule while_option_rule [OF _ w, where P = ?J])
    show "?J (s, True)" using \<open>I s\<close> by simp
    fix p
    assume p: "?J p" "case p of (s, changed) \<Rightarrow> changed"
    obtain u where u: "p = (u, True)" using p(2) by (cases p) auto
    obtain u' c where sw: "sweep u = (u', c)" by (cases "sweep u")
    have "I u" using p(1) u by simp
    then show "?J (case p of (s, changed) \<Rightarrow> sweep s)"
      using step [OF \<open>I u\<close> sw] sw u by (cases c) auto
  qed
  moreover have "\<not> b" using while_option_stop [OF w] by simp
  ultimately show ?thesis by auto
qed

subsection \<open>Raised exceptions\<close>

datatype py_error = TypeError | ValueError | KeyError | IndexError | RuntimeError | AttributeError | OSError
  | ImportError | ParseError

text \<open>A value in an arithmetic comparison: booleans count as integers, the rest raises.\<close>

fun py_num :: "pyval \<Rightarrow> py_error + int" where
  "py_num (PInt i) = Inr i"
| "py_num (PBool b) = Inr (if b then 1 else 0)"
| "py_num _ = Inl TypeError"

text \<open>Iterating over a value: a dict gives its keys, a string its characters.\<close>

fun py_iter :: "pyval \<Rightarrow> py_error + pyval list" where
  "py_iter (PList xs) = Inr xs"
| "py_iter (PStr s) = Inr (map (\<lambda>c. PStr [c]) s)"
| "py_iter (PDict d) = Inr (map (PStr \<circ> fst) d)"
| "py_iter _ = Inl TypeError"

text \<open>
  The key a value is under which in a set or a dict: \<open>True\<close> and \<open>1\<close> are equal keys, lists
  and dicts are no keys.
\<close>

fun hash_key :: "pyval \<Rightarrow> py_error + pyval" where
  "hash_key (PBool b) = Inr (PInt (if b then 1 else 0))"
| "hash_key (PList xs) = Inl TypeError"
| "hash_key (PDict d) = Inl TypeError"
| "hash_key v = Inr v"

subsection \<open>First occurrences\<close>

text \<open>Keeping the first element for every value of a key.\<close>

fun keep_first :: "('a \<Rightarrow> 'k) \<Rightarrow> 'k set \<Rightarrow> 'a list \<Rightarrow> 'a list" where
  "keep_first f seen [] = []"
| "keep_first f seen (x # xs) =
     (if f x \<in> seen then keep_first f seen xs else x # keep_first f (insert (f x) seen) xs)"

lemma keep_first_append: "keep_first f S (xs @ ys) = keep_first f S xs @ keep_first f (S \<union> f ` set xs) ys"
  by (induction xs arbitrary: S) (auto simp: insert_absorb)

lemma keep_first_disjoint: "S \<inter> f ` set xs = {} \<Longrightarrow> keep_first f (S \<union> T) xs = keep_first f T xs"
  by (induction xs arbitrary: T) (simp_all flip: Un_insert_right)

lemma keep_first_image: "f ` set (keep_first f S xs) = f ` set xs - S"
proof (induction xs arbitrary: S)
  case (Cons x xs)
  show ?case
  proof (cases "f x \<in> S")
    case True
    then show ?thesis using Cons.IH [of S] by auto
  next
    case False
    then show ?thesis using Cons.IH [of "insert (f x) S"] by auto
  qed
qed simp

lemma keep_first_distinct: "distinct (map f (keep_first f S xs))"
proof (induction xs arbitrary: S)
  case (Cons x xs)
  have "f x \<notin> f ` set (keep_first f (insert (f x) S) xs)" unfolding keep_first_image by simp
  then show ?case using Cons.IH by simp
qed simp

lemma keep_first_length: "length (keep_first f S xs) \<le> length xs"
  by (induction xs arbitrary: S) (auto simp: le_SucI)

text \<open>Lists whose elements never share a key across lists are filtered one by one.\<close>

lemma keep_first_concat:
  assumes "\<And>r x. r \<in> set rs \<Longrightarrow> x \<in> set (h r) \<Longrightarrow> g x = k r" and "distinct (map k rs)"
    and "\<And>x y. x \<in> set (concat (map h rs)) \<Longrightarrow> y \<in> set (concat (map h rs)) \<Longrightarrow> f x = f y \<Longrightarrow> g x = g y"
  shows "keep_first f {} (concat (map h rs)) = concat (map (\<lambda>r. keep_first f {} (h r)) rs)"
  using assms
proof (induction rs)
  case (Cons r rs)
  have apart: "f x \<notin> f ` set (h r)" if x: "x \<in> set (concat (map h rs))" for x
  proof
    assume "f x \<in> f ` set (h r)"
    then obtain y where y: "y \<in> set (h r)" "f x = f y" by blast
    obtain q where q: "q \<in> set rs" "x \<in> set (h q)" using x by auto
    have "g x = g y" using Cons.prems(3) [of x y] y x by simp
    then have "k q = k r" using Cons.prems(1) [of q x] Cons.prems(1) [of r y] q y(1) by simp
    then show False using Cons.prems(2) q(1) by (metis distinct.simps(2) imageI list.set_map list.simps(9))
  qed
  have "f ` set (h r) \<inter> f ` set (concat (map h rs)) = {}"
  proof (rule Int_emptyI)
    fix z
    assume "z \<in> f ` set (h r)" and "z \<in> f ` set (concat (map h rs))"
    then obtain x where "x \<in> set (concat (map h rs))" "z = f x" by (elim imageE)
    with apart [OF this(1)] \<open>z \<in> f ` set (h r)\<close> show False by simp
  qed
  from keep_first_disjoint [OF this, of "{}"]
  have "keep_first f (f ` set (h r)) (concat (map h rs)) = keep_first f {} (concat (map h rs))" by simp
  moreover have "keep_first f {} (concat (map h rs)) = concat (map (\<lambda>r. keep_first f {} (h r)) rs)"
  proof (rule Cons.IH)
    show "g x = k q" if "q \<in> set rs" "x \<in> set (h q)" for q x using Cons.prems(1) [of q x] that by simp
    show "distinct (map k rs)" using Cons.prems(2) by simp
    show "g x = g y" if "x \<in> set (concat (map h rs))" "y \<in> set (concat (map h rs))" "f x = f y" for x y
      using Cons.prems(3) [OF _ _ that(3)] that(1,2) by simp
  qed
  ultimately show ?case by (simp add: keep_first_append)
next
  case Nil
  show ?case by simp
qed

end
