(* ===== verification/Ast_Graph.thy ===== *)
theory Ast_Graph
  imports Py_Prelude
begin

text \<open>
  The serialized AST of one translation unit (\<open>ast_graph.py\<close>): the node dictionaries the
  clang worker produces and the graph object every rule and analyzer reads them through.
  The lemmas say when the two loops of the class end, and what they return.
\<close>

subsection \<open>Nodes\<close>

text \<open>
  The keys of \<open>source_range\<close>; \<^term>\<open>None\<close> is an absent key.
\<close>

record src_range =
  sr_file_path :: "string option"
  sr_line_start :: "int option"
  sr_line_end :: "int option"
  sr_column_start :: "int option"
  sr_column_end :: "int option"

text \<open>
  A node dictionary.  Every node of a graph has a \<open>node_id\<close> (the constructor indexes by
  it).  An absent \<open>node_kind\<close> or \<open>parent_id\<close> is the empty string, which the code treats
  alike; the two keys of \<open>macro_origin\<close> are fields of their own; an absent or empty \<open>source_range\<close> is \<^term>\<open>None\<close>; an absent object is \<open>[]\<close>.
\<close>

record ast_node =
  node_id :: string
  node_kind :: string
  parent_id :: string
  children_ids :: "string list"
  source_range :: "src_range option"
  type_information :: props
  qualifiers :: "string list"
  essential_type :: "string option"
  expansion_chain :: "string list"
  macro_name :: string
  semantic_properties :: props

definition sem_str :: "ast_node \<Rightarrow> string \<Rightarrow> string" where
  "sem_str n k = prop_str (semantic_properties n) k []"

definition sem_flag :: "ast_node \<Rightarrow> string \<Rightarrow> bool" where
  "sem_flag n k = prop_flag (semantic_properties n) k"

definition ty_str :: "ast_node \<Rightarrow> string \<Rightarrow> string" where
  "ty_str n k = prop_str (type_information n) k []"

definition ty_flag :: "ast_node \<Rightarrow> string \<Rightarrow> bool" where
  "ty_flag n k = prop_flag (type_information n) k"

text \<open>\<open>node.get("essential_type", "unknown")\<close>\<close>

definition ess_type :: "ast_node \<Rightarrow> string" where
  "ess_type n = (case essential_type n of None \<Rightarrow> ''unknown'' | Some t \<Rightarrow> t)"

text \<open>\<open>node.get("source_range", {}).get(key, 0)\<close>\<close>

definition range_int :: "(src_range \<Rightarrow> int option) \<Rightarrow> ast_node \<Rightarrow> int" where
  "range_int f n = (case source_range n of None \<Rightarrow> 0
     | Some r \<Rightarrow> (case f r of None \<Rightarrow> 0 | Some i \<Rightarrow> i))"

abbreviation "line_start \<equiv> range_int sr_line_start"
abbreviation "line_end \<equiv> range_int sr_line_end"
abbreviation "column_start \<equiv> range_int sr_column_start"
abbreviation "column_end \<equiv> range_int sr_column_end"

text \<open>The source-order key every \<open>_linearize\<close> sorts by; Python's sort is stable.\<close>

definition linearize :: "ast_node list \<Rightarrow> ast_node list" where
  "linearize ns = sort_key (\<lambda>n. (line_start n, column_start n)) ns"

lemma set_linearize [simp]: "set (linearize ns) = set ns"
  by (simp add: linearize_def)

lemma sorted_linearize: "sorted (map (\<lambda>n. (line_start n, column_start n)) (linearize ns))"
  by (simp add: linearize_def)

lemma length_linearize [simp]: "length (linearize ns) = length ns"
  by (simp add: linearize_def)

lemma distinct_linearize [simp]: "distinct (linearize ns) = distinct ns"
  by (simp add: linearize_def)

subsection \<open>The graph\<close>

record ast_graph =
  nodes_map :: "(string, ast_node) dict"
  nodes_list :: "ast_node list"

text \<open>
  \<open>{node["node_id"]: node for node in nodes}\<close>: of two nodes with one id the later one
  is found, while \<open>_nodes_list\<close> keeps both.
\<close>

definition mk_graph :: "ast_node list \<Rightarrow> ast_graph" where
  "mk_graph nodes = \<lparr>nodes_map = fold (\<lambda>n. dict_set (node_id n) n) nodes [], nodes_list = nodes\<rparr>"

definition g_get :: "ast_graph \<Rightarrow> string \<Rightarrow> ast_node option" where
  "g_get g i = map_of (nodes_map g) i"

definition all_nodes :: "ast_graph \<Rightarrow> ast_node list" where
  "all_nodes g = nodes_list g"

definition nodes_by_kind :: "ast_graph \<Rightarrow> string \<Rightarrow> ast_node list" where
  "nodes_by_kind g k = filter (\<lambda>n. node_kind n = k) (nodes_list g)"

definition children :: "ast_graph \<Rightarrow> string \<Rightarrow> ast_node list" where
  "children g i = (case g_get g i of None \<Rightarrow> []
     | Some n \<Rightarrow> List.map_filter (g_get g) (children_ids n))"

text \<open>The \<open>while stack\<close> loop; the head of the list is the top of the Python stack.\<close>

partial_function (option) desc_loop ::
    "ast_graph \<Rightarrow> ast_node list \<Rightarrow> ast_node list \<Rightarrow> ast_node list option" where
  "desc_loop g stack collected =
     (case stack of [] \<Rightarrow> Some collected
      | cur # rest \<Rightarrow> desc_loop g (rev (children g (node_id cur)) @ rest) (collected @ [cur]))"

declare desc_loop.simps [code]

definition descendants :: "ast_graph \<Rightarrow> string \<Rightarrow> ast_node list option" where
  "descendants g i = desc_loop g (rev (children g i)) []"

text \<open>\<open>self._nodes.get(current_id, {}).get("parent_id", "")\<close>\<close>

definition parent_of :: "ast_graph \<Rightarrow> string \<Rightarrow> string" where
  "parent_of g i = (case g_get g i of None \<Rightarrow> [] | Some n \<Rightarrow> parent_id n)"

partial_function (option) path_loop ::
    "ast_graph \<Rightarrow> string \<Rightarrow> string list \<Rightarrow> string list option" where
  "path_loop g cur path =
     (if cur = [] then Some path else path_loop g (parent_of g cur) (path @ [cur]))"

declare path_loop.simps [code]

definition node_path :: "ast_graph \<Rightarrow> string \<Rightarrow> string list option" where
  "node_path g i = map_option rev (path_loop g i [])"

definition is_file_scope :: "ast_graph \<Rightarrow> string \<Rightarrow> bool" where
  "is_file_scope g i = (case g_get g i of None \<Rightarrow> False | Some n \<Rightarrow> parent_id n = [])"

text \<open>Plain types ordered by rank; an unknown spelling comes after all of them.\<close>

definition essential_type_order :: "string list" where
  "essential_type_order =
     [''boolean'', ''signed_char'', ''unsigned_char'', ''char'', ''signed_short'',
      ''unsigned_short'', ''signed_int'', ''unsigned_int'', ''signed_long'', ''unsigned_long'',
      ''signed_long_long'', ''unsigned_long_long'', ''float'', ''double'', ''long_double'',
      ''complex'', ''unknown'']"

fun list_index :: "'a list \<Rightarrow> 'a \<Rightarrow> nat option" where
  "list_index [] x = None"
| "list_index (y # ys) x = (if y = x then Some 0 else map_option Suc (list_index ys x))"

definition essential_type_rank :: "string \<Rightarrow> nat" where
  "essential_type_rank t = (case list_index essential_type_order t of
     Some k \<Rightarrow> k | None \<Rightarrow> length essential_type_order)"

definition source_snippet :: "string \<Rightarrow> ast_node \<Rightarrow> string" where
  "source_snippet file_path n = file_path @ '':'' @ int_str (line_start n)"

definition offending_text :: "ast_node \<Rightarrow> string" where
  "offending_text n =
     (let name = sem_str n ''name''; kind = node_kind n;
          essential = (case essential_type n of None \<Rightarrow> [] | Some t \<Rightarrow> t);
          type_spelling = ty_str n ''spelling''
      in if name \<noteq> [] then kind @ '' '' @ name
         else if type_spelling \<noteq> [] then kind @ '' ('' @ type_spelling @ '')''
         else kind @ '' ['' @ essential @ '']'')"

subsection \<open>Lookup\<close>

definition graph_ok :: "ast_graph \<Rightarrow> bool" where
  "graph_ok g \<longleftrightarrow> (\<forall>(i, n) \<in> set (nodes_map g). node_id n = i) \<and> distinct (dict_keys (nodes_map g))
     \<and> snd ` set (nodes_map g) \<subseteq> set (nodes_list g)"

lemma set_dict_set_subset: "set (dict_set k v d) \<subseteq> insert (k, v) (set d)"
  unfolding dict_set_def by (induction d) auto

lemma mk_graph_fold:
  assumes "\<And>p. p \<in> set d \<Longrightarrow> node_id (snd p) = fst p \<and> snd p \<in> A" and "distinct (dict_keys d)"
    and "set ns \<subseteq> A"
  shows "(\<forall>p \<in> set (fold (\<lambda>n. dict_set (node_id n) n) ns d). node_id (snd p) = fst p \<and> snd p \<in> A)
    \<and> distinct (dict_keys (fold (\<lambda>n. dict_set (node_id n) n) ns d))"
  using assms
proof (induction ns arbitrary: d)
  case Nil
  then show ?case by simp
next
  case (Cons x ns)
  let ?d = "dict_set (node_id x) x d"
  have "node_id (snd p) = fst p \<and> snd p \<in> A" if "p \<in> set ?d" for p
    using set_dict_set_subset [of "node_id x" x d] that Cons.prems(1) [of p] Cons.prems(3) by auto
  moreover have "distinct (dict_keys ?d)" using Cons.prems(2) by simp
  moreover have "set ns \<subseteq> A" using Cons.prems(3) by simp
  ultimately show ?case unfolding fold_simps by (rule Cons.IH)
qed

lemma graph_ok_mk_graph [simp]: "graph_ok (mk_graph nodes)"
proof -
  have "(\<forall>p \<in> set (nodes_map (mk_graph nodes)). node_id (snd p) = fst p \<and> snd p \<in> set nodes)
      \<and> distinct (dict_keys (nodes_map (mk_graph nodes)))"
    using mk_graph_fold [of "[]" "set nodes" nodes] by (simp add: mk_graph_def)
  moreover have "nodes_list (mk_graph nodes) = nodes" by (simp add: mk_graph_def)
  ultimately show ?thesis unfolding graph_ok_def by (simp add: case_prod_unfold image_subset_iff)
qed

lemma g_get_node_id: "graph_ok g \<Longrightarrow> g_get g i = Some n \<Longrightarrow> node_id n = i"
  by (auto simp: graph_ok_def g_get_def dest!: map_of_SomeD)

lemma g_get_in_nodes: "graph_ok g \<Longrightarrow> g_get g i = Some n \<Longrightarrow> n \<in> set (nodes_list g)"
  by (force simp: graph_ok_def g_get_def dest!: map_of_SomeD)

lemma find_append: "find P (xs @ ys) = (case find P xs of None \<Rightarrow> find P ys | Some x \<Rightarrow> Some x)"
  by (induction xs) auto

lemma map_of_mk_graph_fold:
  "map_of (fold (\<lambda>n. dict_set (node_id n) n) ns d) i
    = (case find (\<lambda>n. node_id n = i) (rev ns) of None \<Rightarrow> map_of d i | Some n \<Rightarrow> Some n)"
  by (induction ns arbitrary: d) (auto simp: find_append split: option.splits)

text \<open>The id index finds the last node with the id, and nothing else.\<close>

lemma g_get_mk_graph: "g_get (mk_graph nodes) i = find (\<lambda>n. node_id n = i) (rev nodes)"
  by (simp add: g_get_def mk_graph_def map_of_mk_graph_fold split: option.splits)

lemma set_children:
  "c \<in> set (children g i) \<longleftrightarrow>
    (\<exists>n j. g_get g i = Some n \<and> j \<in> set (children_ids n) \<and> g_get g j = Some c)"
proof (cases "g_get g i")
  case None
  then show ?thesis by (simp add: children_def)
next
  case (Some n)
  then show ?thesis by (auto simp: children_def in_map_filter)
qed

lemma children_get: "graph_ok g \<Longrightarrow> c \<in> set (children g i) \<Longrightarrow> g_get g (node_id c) = Some c"
  by (auto simp: set_children dest: g_get_node_id)

lemma children_unknown: "g_get g i = None \<Longrightarrow> children g i = []"
  by (simp add: children_def)

subsection \<open>The child relation and acyclic graphs\<close>

definition child_rel :: "ast_graph \<Rightarrow> (string \<times> string) set" where
  "child_rel g = {(i, j). \<exists>c \<in> set (children g i). node_id c = j}"

text \<open>
  A rank that decreases from a node to its children; a parsed AST has one (the height).
  The check ranges over the nodes of the list, so it evaluates.
\<close>

definition ranked :: "ast_graph \<Rightarrow> (string \<Rightarrow> nat) \<Rightarrow> bool" where
  "ranked g r \<longleftrightarrow> graph_ok g \<and>
     (\<forall>n \<in> set (nodes_list g). \<forall>c \<in> set (children g (node_id n)). r (node_id c) < r (node_id n))"

lemma ranked_ok [simp]: "ranked g r \<Longrightarrow> graph_ok g"
  by (simp add: ranked_def)

lemma ranked_child: "ranked g r \<Longrightarrow> c \<in> set (children g i) \<Longrightarrow> r (node_id c) < r i"
proof -
  assume r: "ranked g r" and c: "c \<in> set (children g i)"
  from c obtain n where n: "g_get g i = Some n" by (auto simp: set_children)
  have "node_id n = i" by (rule g_get_node_id [OF ranked_ok [OF r] n])
  moreover have "n \<in> set (nodes_list g)" by (rule g_get_in_nodes [OF ranked_ok [OF r] n])
  ultimately show ?thesis using r c by (auto simp: ranked_def)
qed

lemma ranked_child_rel: "ranked g r \<Longrightarrow> (i, j) \<in> child_rel g \<Longrightarrow> r j < r i"
  by (auto simp: child_rel_def dest: ranked_child)

lemma ranked_child_trancl: "(i, j) \<in> (child_rel g)\<^sup>+ \<Longrightarrow> ranked g r \<Longrightarrow> r j < r i"
  by (induction rule: trancl_induct) (auto dest: ranked_child_rel less_trans)

lemma child_rel_trancl: "(i, j) \<in> (child_rel g)\<^sup>+ \<longleftrightarrow>
    (\<exists>c \<in> set (children g i). (node_id c, j) \<in> (child_rel g)\<^sup>*)"
  by (subst trancl_unfold_left) (auto simp: child_rel_def relcomp_unfold)

subsection \<open>Descendants\<close>

text \<open>The order the stack loop visits a subtree in: a node, then its last child's subtree first.\<close>

fun subtree :: "nat \<Rightarrow> ast_graph \<Rightarrow> ast_node \<Rightarrow> ast_node list" where
  "subtree 0 g c = [c]"
| "subtree (Suc k) g c = c # concat (map (subtree k g) (rev (children g (node_id c))))"

lemma desc_loop_Nil [simp]: "desc_loop g [] acc = Some acc"
  by (subst desc_loop.simps) simp

lemma desc_loop_Cons:
  "desc_loop g (c # rest) acc = desc_loop g (rev (children g (node_id c)) @ rest) (acc @ [c])"
  by (subst desc_loop.simps) simp

lemma desc_loop_subtrees:
  assumes "\<And>c rest acc. c \<in> set cs \<Longrightarrow> desc_loop g (c # rest) acc = desc_loop g rest (acc @ f c)"
  shows "desc_loop g (cs @ rest) acc = desc_loop g rest (acc @ concat (map f cs))"
  using assms by (induction cs arbitrary: acc) auto

lemma desc_loop_subtree:
  "ranked g r \<Longrightarrow> r (node_id c) \<le> k \<Longrightarrow>
    desc_loop g (c # rest) acc = desc_loop g rest (acc @ subtree k g c)"
proof (induction k arbitrary: c rest acc)
  case 0
  have "children g (node_id c) = []"
  proof (rule ccontr)
    assume "children g (node_id c) \<noteq> []"
    then obtain d where "d \<in> set (children g (node_id c))" by (meson last_in_set)
    with ranked_child [OF 0(1) this] 0(2) show False by simp
  qed
  then show ?case by (simp add: desc_loop_Cons)
next
  case (Suc k)
  have "desc_loop g (d # rest') acc' = desc_loop g rest' (acc' @ subtree k g d)"
    if "d \<in> set (rev (children g (node_id c)))" for d rest' acc'
  proof -
    have "r (node_id d) \<le> k" using ranked_child [OF Suc.prems(1)] Suc.prems(2) that by force
    then show ?thesis by (rule Suc.IH [OF Suc.prems(1)])
  qed
  then have "desc_loop g (rev (children g (node_id c)) @ rest) (acc @ [c])
      = desc_loop g rest ((acc @ [c]) @ concat (map (subtree k g) (rev (children g (node_id c)))))"
    by (rule desc_loop_subtrees)
  then show ?case by (simp add: desc_loop_Cons)
qed

lemma descendants_ranked:
  assumes "ranked g r" and "r i \<le> Suc k"
  shows "descendants g i = Some (concat (map (subtree k g) (rev (children g i))))"
proof -
  have "desc_loop g (c # rest) acc = desc_loop g rest (acc @ subtree k g c)"
    if "c \<in> set (rev (children g i))" for c rest acc
    by (rule desc_loop_subtree [OF assms(1)]) (use ranked_child [OF assms(1)] assms(2) that in force)
  from desc_loop_subtrees [OF this, of "rev (children g i)" "[]"] show ?thesis
    by (simp add: descendants_def)
qed

lemma descendants_total [opt_intro]: "ranked g r \<Longrightarrow> \<exists>ds. descendants g i = Some ds"
  using descendants_ranked [of g r i "r i"] by auto

lemma set_subtree:
  assumes "ranked g r" and "r (node_id c) \<le> k" and "g_get g (node_id c) = Some c"
  shows "set (subtree k g c) = {n. g_get g (node_id n) = Some n \<and> (node_id c, node_id n) \<in> (child_rel g)\<^sup>*}"
    (is "_ = ?R k c")
  using assms(2,3)
proof (induction k arbitrary: c)
  case 0
  have "i = node_id c" if "(node_id c, i) \<in> (child_rel g)\<^sup>*" for i
    using that 0(1) ranked_child_trancl [OF _ assms(1), of "node_id c" i]
    by (auto simp: rtrancl_eq_or_trancl)
  then have "n = c" if "g_get g (node_id n) = Some n" "(node_id c, node_id n) \<in> (child_rel g)\<^sup>*" for n
    using that 0(2) by (metis option.inject)
  then show ?case using 0(2) by auto
next
  case (Suc k)
  have IH: "set (subtree k g d)
      = {n. g_get g (node_id n) = Some n \<and> (node_id d, node_id n) \<in> (child_rel g)\<^sup>*}"
    if "d \<in> set (children g (node_id c))" for d
    using Suc.IH [of d] that ranked_child [OF assms(1) that] Suc.prems children_get assms(1)
    by (simp add: ranked_def)
  have step: "(node_id c, i) \<in> (child_rel g)\<^sup>* \<longleftrightarrow>
      i = node_id c \<or> (\<exists>d \<in> set (children g (node_id c)). (node_id d, i) \<in> (child_rel g)\<^sup>*)" for i
    unfolding child_rel_trancl [symmetric] by (auto simp: rtrancl_eq_or_trancl)
  have "set (subtree (Suc k) g c) = insert c (\<Union>d \<in> set (children g (node_id c)). set (subtree k g d))"
    by simp
  also have "\<dots> = insert c (\<Union>d \<in> set (children g (node_id c)).
      {n. g_get g (node_id n) = Some n \<and> (node_id d, node_id n) \<in> (child_rel g)\<^sup>*})"
    using IH by simp
  also have "\<dots> = {n. g_get g (node_id n) = Some n \<and> (node_id c, node_id n) \<in> (child_rel g)\<^sup>*}"
    using Suc.prems(2) step by (intro set_eqI) (simp, metis option.inject)
  finally show ?case .
qed

text \<open>
  \<open>descendants\<close> returns exactly the nodes below the given one: those the index finds
  that a non-empty chain of child links reaches.
\<close>

lemma set_descendants:
  assumes "ranked g r" and "descendants g i = Some ds"
  shows "set ds = {n. g_get g (node_id n) = Some n \<and> (i, node_id n) \<in> (child_rel g)\<^sup>+}"
proof -
  have ok: "graph_ok g" using assms(1) by simp
  have ds: "ds = concat (map (subtree (r i) g) (rev (children g i)))"
    using descendants_ranked [OF assms(1), of i "r i"] assms(2) by simp
  have "set (subtree (r i) g c)
      = {n. g_get g (node_id n) = Some n \<and> (node_id c, node_id n) \<in> (child_rel g)\<^sup>*}"
    if "c \<in> set (children g i)" for c
    by (rule set_subtree [OF assms(1)]) (use ranked_child [OF assms(1) that] children_get [OF ok that] in auto)
  then show ?thesis by (auto simp: ds child_rel_trancl)
qed

subsection \<open>Node paths\<close>

text \<open>A depth that decreases along parent links: the path loop ends.\<close>

definition parent_ranked :: "ast_graph \<Rightarrow> (string \<Rightarrow> nat) \<Rightarrow> bool" where
  "parent_ranked g d \<longleftrightarrow> graph_ok g \<and>
     (\<forall>n \<in> set (nodes_list g). parent_id n \<noteq> [] \<longrightarrow> d (parent_id n) < d (node_id n))"

lemma parent_ranked_step: "parent_ranked g d \<Longrightarrow> parent_of g i \<noteq> [] \<Longrightarrow> d (parent_of g i) < d i"
  by (auto simp: parent_of_def parent_ranked_def split: option.splits dest: g_get_node_id g_get_in_nodes)

text \<open>A path from a root to a node: each entry is the parent of the next.\<close>

fun parent_chain :: "ast_graph \<Rightarrow> string list \<Rightarrow> bool" where
  "parent_chain g [] = True"
| "parent_chain g [i] = (parent_of g i = [])"
| "parent_chain g (i # j # p) = (parent_of g i = j \<and> parent_chain g (j # p))"

lemma path_loop_Nil [simp]: "path_loop g [] path = Some path"
  by (subst path_loop.simps) simp

lemma path_loop_step: "i \<noteq> [] \<Longrightarrow> path_loop g i path = path_loop g (parent_of g i) (path @ [i])"
  by (subst path_loop.simps) simp

lemma path_loop_ranked:
  assumes "parent_ranked g d"
  shows "\<exists>p. path_loop g i acc = Some (acc @ p) \<and> parent_chain g p
     \<and> (i = [] \<longrightarrow> p = []) \<and> (i \<noteq> [] \<longrightarrow> p \<noteq> [] \<and> hd p = i) \<and> [] \<notin> set p"
proof (induction "d i" arbitrary: i acc rule: less_induct)
  case less
  show ?case
  proof (cases "i = []")
    case True
    then show ?thesis by simp
  next
    case False
    show ?thesis
    proof (cases "parent_of g i = []")
      case True
      then show ?thesis using False by (simp add: path_loop_step)
    next
      case par: False
      from less [OF parent_ranked_step [OF assms par], of "acc @ [i]"] par obtain q where
        q: "path_loop g (parent_of g i) (acc @ [i]) = Some ((acc @ [i]) @ q)" "parent_chain g q"
        "q \<noteq> []" "hd q = parent_of g i" "[] \<notin> set q" by blast
      obtain j p where p: "q = j # p" using q(3) by (cases q) auto
      have "parent_chain g (i # q)" using q(2,4) p by simp
      moreover have "path_loop g i acc = Some (acc @ (i # q))"
        using path_loop_step [OF False] q(1) by simp
      ultimately show ?thesis using False q(5) by (intro exI [of _ "i # q"]) simp
    qed
  qed
qed

lemma node_path_ranked:
  assumes "parent_ranked g d" and "i \<noteq> []"
  shows "\<exists>p. node_path g i = Some p \<and> p \<noteq> [] \<and> last p = i \<and> parent_chain g (rev p) \<and> [] \<notin> set p"
proof -
  from path_loop_ranked [OF assms(1), of i "[]"] assms(2) obtain p where
    "path_loop g i [] = Some p" "parent_chain g p" "p \<noteq> []" "hd p = i" "[] \<notin> set p" by auto
  then show ?thesis by (intro exI [of _ "rev p"]) (auto simp: node_path_def last_rev)
qed

subsection \<open>Recursive walks over the tree\<close>

text \<open>
  A recursive Python function with body \<open>F\<close> under a recursion limit: \<open>F\<close> receives the
  function to call for itself, \<^term>\<open>None\<close> is the interpreter giving up.
\<close>

fun run_depth :: "nat \<Rightarrow> (('a \<Rightarrow> 'b option) \<Rightarrow> 'a \<Rightarrow> 'b option) \<Rightarrow> 'a \<Rightarrow> 'b option" where
  "run_depth 0 F x = None"
| "run_depth (Suc d) F x = F (run_depth d F) x"

text \<open>
  The interface of the recursive walkers: a body that calls itself on children only, and
  establishes \<open>P\<close> for the node when the calls did for the children.
\<close>

locale tree_walk =
  fixes g :: ast_graph and F :: "(ast_node \<Rightarrow> 'b option) \<Rightarrow> ast_node \<Rightarrow> 'b option"
    and P :: "ast_node \<Rightarrow> 'b \<Rightarrow> bool"
  assumes body_returns:
    "(\<And>c. c \<in> set (children g (node_id n)) \<Longrightarrow> \<exists>v. rec c = Some v \<and> P c v)
      \<Longrightarrow> \<exists>v. F rec n = Some v \<and> P n v"
begin

lemma enough_depth:
  assumes "ranked g r" and "r (node_id n) < d"
  shows "\<exists>v. run_depth d F n = Some v \<and> P n v"
  using assms(2)
proof (induction d arbitrary: n)
  case 0
  then show ?case by simp
next
  case (Suc d)
  have "\<exists>v. F (run_depth d F) n = Some v \<and> P n v"
  proof (rule body_returns)
    fix c
    assume "c \<in> set (children g (node_id n))"
    from ranked_child [OF assms(1) this] Suc.prems have "r (node_id c) < d" by simp
    then show "\<exists>v. run_depth d F c = Some v \<and> P c v" by (rule Suc.IH)
  qed
  then show ?case by simp
qed

end

text \<open>A walker that computes a function of the node is the special case of one value.\<close>

locale tree_walk_spec =
  fixes g :: ast_graph and F :: "(ast_node \<Rightarrow> 'b option) \<Rightarrow> ast_node \<Rightarrow> 'b option"
    and spec :: "ast_node \<Rightarrow> 'b"
  assumes body_spec:
    "(\<And>c. c \<in> set (children g (node_id n)) \<Longrightarrow> rec c = Some (spec c)) \<Longrightarrow> F rec n = Some (spec n)"

sublocale tree_walk_spec \<subseteq> tree_walk g F "\<lambda>n v. v = spec n"
  by unfold_locales (simp add: body_spec)

context tree_walk_spec
begin

lemma walk_eq_spec: "ranked g r \<Longrightarrow> r (node_id n) < d \<Longrightarrow> run_depth d F n = Some (spec n)"
  using enough_depth by blast

end

text \<open>The child relation on nodes, for specifications of the walkers.\<close>

definition child_nodes :: "ast_graph \<Rightarrow> (ast_node \<times> ast_node) set" where
  "child_nodes g = {(n, c). c \<in> set (children g (node_id n))}"

lemma child_nodes_reach:
  "(\<exists>m. (n, m) \<in> (child_nodes g)\<^sup>* \<and> Q m)
    \<longleftrightarrow> Q n \<or> (\<exists>c \<in> set (children g (node_id n)). \<exists>m. (c, m) \<in> (child_nodes g)\<^sup>* \<and> Q m)"
proof -
  have step: "(n, c) \<in> child_nodes g \<longleftrightarrow> c \<in> set (children g (node_id n))" for c
    by (simp add: child_nodes_def)
  show ?thesis (is "?l \<longleftrightarrow> ?r")
  proof
    assume ?l
    then obtain m where m: "(n, m) \<in> (child_nodes g)\<^sup>*" "Q m" by blast
    from m(1) show ?r by (cases rule: converse_rtranclE) (use m(2) step in blast)+
  next
    assume ?r
    then show ?l by (meson converse_rtrancl_into_rtrancl rtrancl.rtrancl_refl step)
  qed
qed

subsection \<open>Properties\<close>

text \<open>A bare node: an identifier, a kind, a parent and children.\<close>

definition bare_node :: "string \<Rightarrow> string \<Rightarrow> string \<Rightarrow> string list \<Rightarrow> ast_node" where
  "bare_node i k p cs = \<lparr>node_id = i, node_kind = k, parent_id = p, children_ids = cs,
     source_range = None, type_information = [], qualifiers = [], essential_type = None,
     expansion_chain = [], macro_name = [], semantic_properties = []\<rparr>"

lemma bare_node_simps [simp]:
  "node_id (bare_node i k p cs) = i" "node_kind (bare_node i k p cs) = k"
  "parent_id (bare_node i k p cs) = p" "children_ids (bare_node i k p cs) = cs"
  "source_range (bare_node i k p cs) = None" "type_information (bare_node i k p cs) = []"
  "qualifiers (bare_node i k p cs) = []" "essential_type (bare_node i k p cs) = None"
  "expansion_chain (bare_node i k p cs) = []" "macro_name (bare_node i k p cs) = []" "semantic_properties (bare_node i k p cs) = []"
  by (simp_all add: bare_node_def)

text \<open>A node with semantic properties and a source position.\<close>

definition ex_node :: "string \<Rightarrow> string \<Rightarrow> string \<Rightarrow> string list \<Rightarrow> props \<Rightarrow> int \<Rightarrow> int \<Rightarrow> ast_node" where
  "ex_node i k p cs props line col = (bare_node i k p cs)
     \<lparr>semantic_properties := props,
      source_range := Some \<lparr>sr_file_path = None, sr_line_start = Some line, sr_line_end = Some line,
        sr_column_start = Some col, sr_column_end = Some col\<rparr>\<rparr>"

lemma ex_node_simps [simp]:
  "node_id (ex_node i k p cs props l c) = i" "node_kind (ex_node i k p cs props l c) = k"
  "parent_id (ex_node i k p cs props l c) = p" "children_ids (ex_node i k p cs props l c) = cs"
  "semantic_properties (ex_node i k p cs props l c) = props"
  "line_start (ex_node i k p cs props l c) = l" "column_start (ex_node i k p cs props l c) = c"
  "type_information (ex_node i k p cs props l c) = []"
  by (simp_all add: ex_node_def range_int_def)

text \<open>A function with one compound body holding one statement, for the witnesses.\<close>

definition tiny_graph :: ast_graph where
  "tiny_graph = mk_graph
     [bare_node ''f'' ''FunctionDecl'' [] [''c''],
      bare_node ''c'' ''CompoundStmt'' ''f'' [''s''],
      bare_node ''s'' ''ReturnStmt'' ''c'' []]"

definition tiny_rank :: "string \<Rightarrow> nat" where
  "tiny_rank i = (if i = ''f'' then 2 else if i = ''c'' then 1 else 0)"

lemma tiny_graph_get:
  "g_get tiny_graph i = (if i = ''f'' then Some (bare_node ''f'' ''FunctionDecl'' [] [''c''])
     else if i = ''c'' then Some (bare_node ''c'' ''CompoundStmt'' ''f'' [''s''])
     else if i = ''s'' then Some (bare_node ''s'' ''ReturnStmt'' ''c'' []) else None)"
  by (simp add: tiny_graph_def g_get_mk_graph)

lemma tiny_graph_children:
  "children tiny_graph i = (if i = ''f'' then [bare_node ''c'' ''CompoundStmt'' ''f'' [''s'']]
     else if i = ''c'' then [bare_node ''s'' ''ReturnStmt'' ''c'' []] else [])"
  by (simp add: children_def tiny_graph_get List.map_filter_simps)

lemma nodes_list_mk_graph [simp]: "nodes_list (mk_graph nodes) = nodes"
  by (simp add: mk_graph_def)

lemma tiny_graph_ok: "graph_ok tiny_graph"
  by (simp add: tiny_graph_def)

lemma tiny_graph_nodes: "nodes_list tiny_graph =
    [bare_node ''f'' ''FunctionDecl'' [] [''c''], bare_node ''c'' ''CompoundStmt'' ''f'' [''s''],
     bare_node ''s'' ''ReturnStmt'' ''c'' []]"
  by (simp add: tiny_graph_def)

lemma tiny_graph_ranked: "ranked tiny_graph tiny_rank"
  unfolding ranked_def by (simp add: tiny_graph_ok tiny_graph_nodes tiny_graph_children tiny_rank_def)

text \<open>
  On an AST whose child links are acyclic (\<open>r\<close> decreases from parent to child), the
  stack loop of \<open>AstGraph.descendants\<close> ends, whatever the node asked for, and returns
  exactly the indexed nodes that a non-empty chain of child links reaches.
\<close>

theorem descendants_exact:
  assumes "ranked g r"
  shows "\<exists>ds. descendants g i = Some ds
    \<and> set ds = {n. g_get g (node_id n) = Some n \<and> (i, node_id n) \<in> (child_rel g)\<^sup>+}"
  using descendants_total [OF assms, of i] set_descendants [OF assms] by blast

theorem descendants_exact_witness:
  "\<exists>ds. descendants tiny_graph ''f'' = Some ds
    \<and> set ds = {n. g_get tiny_graph (node_id n) = Some n \<and> (''f'', node_id n) \<in> (child_rel tiny_graph)\<^sup>+}"
  by (rule descendants_exact [OF tiny_graph_ranked])

text \<open>
  When parent links are acyclic, the loop of \<open>AstGraph.node_path\<close> ends and returns
  the parent chain from a root to the node: the node comes last, every entry but the first is
  preceded by its parent, and the first has none.
\<close>

theorem node_path_chain:
  assumes "parent_ranked g d" and "i \<noteq> []"
  shows "\<exists>p. node_path g i = Some p \<and> p \<noteq> [] \<and> last p = i \<and> parent_chain g (rev p) \<and> [] \<notin> set p"
  using assms by (rule node_path_ranked)

definition tiny_depth :: "string \<Rightarrow> nat" where
  "tiny_depth i = (if i = ''f'' then 0 else if i = ''c'' then 1 else 2)"

lemma tiny_graph_parent_ranked: "parent_ranked tiny_graph tiny_depth"
  by (simp add: parent_ranked_def tiny_graph_ok tiny_graph_nodes tiny_depth_def)

theorem node_path_chain_witness:
  "\<exists>p. node_path tiny_graph ''s'' = Some p \<and> p \<noteq> [] \<and> last p = ''s''
     \<and> parent_chain tiny_graph (rev p) \<and> [] \<notin> set p"
  by (rule node_path_chain [OF tiny_graph_parent_ranked]) simp

end
