(* ===== verification/Worklist.thy ===== *)
theory Worklist
  imports Py_Prelude
begin

text \<open>
  The graph search the sources write in several places: take a node from a work list, skip it
  when it was visited, otherwise visit it and put its successors on the work list.  The locale
  states the loop by its two equations, whatever end of the list the successors go to and
  whatever else a visit records, and proves once that it ends, has visited exactly the nodes
  reachable from the initial ones, and keeps every invariant its visits keep.
\<close>

locale worklist =
  fixes loop :: "'s \<Rightarrow> 'a list \<Rightarrow> 'r option"
    and seen :: "'s \<Rightarrow> 'a set"
    and visit :: "'a \<Rightarrow> 's \<Rightarrow> 's"
    and out :: "'s \<Rightarrow> 'r"
    and succ :: "'a \<Rightarrow> 'a list"
    and push :: "'a list \<Rightarrow> 'a list \<Rightarrow> 'a list"
  assumes loop_Nil: "loop s [] = Some (out s)"
    and loop_Cons: "loop s (x # work) =
      (if x \<in> seen s then loop s work else loop (visit x s) (push (succ x) work))"
    and seen_visit: "seen (visit x s) = insert x (seen s)"
    and set_push: "set (push new work) = set new \<union> set work"
begin

definition steps :: "('a \<times> 'a) set" where
  "steps = {(a, b). b \<in> set (succ a)}"

text \<open>
  The loop invariant: everything visited or waiting is reachable, the successors of visited
  nodes are visited or waiting, and so are the initial nodes.
\<close>

lemma loop_result:
  assumes "finite P" and "\<And>a. set (succ a) \<subseteq> P"
    and inv: "\<And>x s. I s \<Longrightarrow> I (visit x s)"
    and "I s" and "set work \<subseteq> P"
    and "seen s \<union> set work \<subseteq> steps\<^sup>* `` start"
    and "steps `` seen s \<subseteq> seen s \<union> set work"
    and "start \<subseteq> seen s \<union> set work"
  shows "\<exists>t. loop s work = Some (out t) \<and> I t \<and> seen t = steps\<^sup>* `` start"
  using assms(4-)
proof (induction "(card (P - seen s), length work)" arbitrary: s work
    rule: wf_induct_rule [OF wf_lex_prod [OF wf_less wf_less]])
  case 1
  note IH = "1.hyps" and prems = "1.prems"
  show ?case
  proof (cases work)
    case Nil
    have "b \<in> seen s" if "(a, b) \<in> steps\<^sup>*" "a \<in> start" for a b
      using that prems(4,5) Nil by (induction rule: rtrancl_induct) auto
    with prems(1,3) Nil show ?thesis by (auto simp: loop_Nil)
  next
    case (Cons cur rest)
    show ?thesis
    proof (cases "cur \<in> seen s")
      case True
      have "\<exists>t. loop s rest = Some (out t) \<and> I t \<and> seen t = steps\<^sup>* `` start"
        by (rule IH) (use prems Cons True in auto)
      with Cons True show ?thesis by (simp add: loop_Cons)
    next
      case False
      let ?new = "push (succ cur) rest" and ?s = "visit cur s"
      have new: "set ?new = steps `` {cur} \<union> set rest" by (auto simp: set_push steps_def)
      have cur: "cur \<in> steps\<^sup>* `` start" "cur \<in> P" using prems(2,3) Cons by auto
      have "card (P - seen ?s) < card (P - seen s)"
        using cur(2) False assms(1) by (intro psubset_card_mono) (auto simp: seen_visit)
      then have "\<exists>t. loop ?s ?new = Some (out t) \<and> I t \<and> seen t = steps\<^sup>* `` start"
      proof (intro IH)
        show "I ?s" by (rule inv [OF prems(1)])
        show "set ?new \<subseteq> P" using prems(2) Cons assms(2) by (auto simp: set_push)
        show "seen ?s \<union> set ?new \<subseteq> steps\<^sup>* `` start"
          unfolding new seen_visit using prems(3) Cons cur(1) by (auto intro: rtrancl.rtrancl_into_rtrancl)
        show "steps `` seen ?s \<subseteq> seen ?s \<union> set ?new"
          unfolding new seen_visit using prems(4) Cons by auto
        show "start \<subseteq> seen ?s \<union> set ?new" unfolding new seen_visit using prems(5) Cons by auto
      qed auto
      with Cons False show ?thesis by (simp add: loop_Cons)
    qed
  qed
qed

lemma search_exact:
  assumes "finite P" and "\<And>a. set (succ a) \<subseteq> P" and "set work \<subseteq> P"
    and "seen s = {}" and "I s" and "\<And>x s. I s \<Longrightarrow> I (visit x s)"
  shows "\<exists>t. loop s work = Some (out t) \<and> I t \<and> seen t = steps\<^sup>* `` set work"
  by (rule loop_result [where P = P and I = I]) (use assms in auto)

end

end
