(* ===== verification/Cfg_Model.thy ===== *)
theory Cfg_Model
  imports Ast_Graph Worklist
begin

text \<open>
  The control-flow graph of one function as \<open>cfg_engine.py\<close> represents it
  (\<open>CFGEdge\<close>, \<open>BasicBlock\<close>, \<open>ControlFlowGraph\<close>) and its queries.  The main lemma says that
  the stack loop of \<open>reachable_blocks\<close> ends on every graph, a malformed one included, and
  returns the blocks an edge path from the entry leads to.
\<close>

subsection \<open>Blocks and edges\<close>

text \<open>
  Block identifiers: the two synthetic ones, and \<open>b<n>\<close> of the block factory.
  \<open>bid_str\<close> is the spelling the code uses as the dictionary key.
\<close>

datatype bid = Entry | Exit | B nat

fun bid_str :: "bid \<Rightarrow> string" where
  "bid_str Entry = ''__entry__''"
| "bid_str Exit = ''__exit__''"
| "bid_str (B n) = ''b'' @ nat_str n"

datatype edge_kind =
    Fallthrough | TrueBranch | FalseBranch | LoopBack | BreakEdge | ContinueEdge | GotoEdge
  | CaseEdge | DefaultEdge | SwitchFallthrough | ReturnEdge | ImplicitReturn | NoMatch

fun edge_kind_str :: "edge_kind \<Rightarrow> string" where
  "edge_kind_str Fallthrough = ''fallthrough''"
| "edge_kind_str TrueBranch = ''true''"
| "edge_kind_str FalseBranch = ''false''"
| "edge_kind_str LoopBack = ''loop_back''"
| "edge_kind_str BreakEdge = ''break''"
| "edge_kind_str ContinueEdge = ''continue''"
| "edge_kind_str GotoEdge = ''goto''"
| "edge_kind_str CaseEdge = ''case''"
| "edge_kind_str DefaultEdge = ''default''"
| "edge_kind_str SwitchFallthrough = ''switch_fallthrough''"
| "edge_kind_str ReturnEdge = ''return''"
| "edge_kind_str ImplicitReturn = ''implicit_return''"
| "edge_kind_str NoMatch = ''no_match''"

record cfg_edge =
  edge_source :: bid
  edge_target :: bid
  edge_kind :: edge_kind
  edge_label :: "string option"

definition cfg_edge_of :: "bid \<Rightarrow> bid \<Rightarrow> edge_kind \<Rightarrow> cfg_edge" where
  "cfg_edge_of s t k = \<lparr>edge_source = s, edge_target = t, edge_kind = k, edge_label = None\<rparr>"

lemma cfg_edge_of_simps [simp]:
  "edge_source (cfg_edge_of s t k) = s" "edge_target (cfg_edge_of s t k) = t"
  "edge_kind (cfg_edge_of s t k) = k" "edge_label (cfg_edge_of s t k) = None"
  by (simp_all add: cfg_edge_of_def)

datatype block_kind = NormalBlock | EntryBlock | ExitBlock | LoopHeader

fun block_kind_str :: "block_kind \<Rightarrow> string" where
  "block_kind_str NormalBlock = ''normal''"
| "block_kind_str EntryBlock = ''entry''"
| "block_kind_str ExitBlock = ''exit''"
| "block_kind_str LoopHeader = ''loop_header''"

record basic_block =
  block_id :: bid
  statements :: "ast_node list"
  block_kind :: block_kind

record cfg =
  function_node_id :: string
  blocks :: "(bid, basic_block) dict"
  edges :: "cfg_edge list"

definition successors :: "cfg \<Rightarrow> bid \<Rightarrow> cfg_edge list" where
  "successors c b = filter (\<lambda>e. edge_source e = b) (edges c)"

definition predecessors :: "cfg \<Rightarrow> bid \<Rightarrow> cfg_edge list" where
  "predecessors c b = filter (\<lambda>e. edge_target e = b) (edges c)"

subsection \<open>Queries\<close>

partial_function (option) reach_loop :: "cfg \<Rightarrow> bid set \<Rightarrow> bid list \<Rightarrow> bid set option" where
  "reach_loop c visited stack = (case stack of [] \<Rightarrow> Some visited
     | cur # rest \<Rightarrow>
         if cur \<in> visited then reach_loop c visited rest
         else reach_loop c (insert cur visited) (rev (map edge_target (successors c cur)) @ rest))"

declare reach_loop.simps [code]

definition reachable_blocks :: "cfg \<Rightarrow> bid set option" where
  "reachable_blocks c = reach_loop c {} [Entry]"

definition unreachable_blocks :: "cfg \<Rightarrow> basic_block list option" where
  "unreachable_blocks c = map_option (\<lambda>reach.
     map snd (filter (\<lambda>(b, blk). b \<notin> reach \<and> b \<notin> {Entry, Exit} \<and> statements blk \<noteq> []) (blocks c)))
     (reachable_blocks c)"

definition exit_edges :: "cfg \<Rightarrow> cfg_edge list" where
  "exit_edges c = predecessors c Exit"

definition has_single_exit_path :: "cfg \<Rightarrow> bool" where
  "has_single_exit_path c \<longleftrightarrow> length (exit_edges c) \<le> 1"

definition block_containing :: "cfg \<Rightarrow> string \<Rightarrow> basic_block option" where
  "block_containing c i =
     find (\<lambda>blk. list_ex (\<lambda>s. node_id s = i) (statements blk)) (map snd (blocks c))"

subsection \<open>Exports\<close>

record block_dict =
  bd_block_id :: string
  bd_kind :: string
  bd_statement_node_ids :: "string list"
  bd_statement_kinds :: "string list"
  bd_line_start :: "int option"
  bd_line_end :: "int option"

definition range_opt :: "(src_range \<Rightarrow> int option) \<Rightarrow> ast_node \<Rightarrow> int option" where
  "range_opt f n = Option.bind (source_range n) f"

definition block_to_dict :: "basic_block \<Rightarrow> block_dict" where
  "block_to_dict blk =
     \<lparr>bd_block_id = bid_str (block_id blk), bd_kind = block_kind_str (block_kind blk),
      bd_statement_node_ids = map node_id (statements blk),
      bd_statement_kinds = map node_kind (statements blk),
      bd_line_start = (if statements blk \<noteq> [] then range_opt sr_line_start (hd (statements blk)) else None),
      bd_line_end = (if statements blk \<noteq> [] then range_opt sr_line_end (last (statements blk)) else None)\<rparr>"

record edge_dict =
  ed_source :: string
  ed_target :: string
  ed_kind :: string
  ed_label :: "string option"

definition edge_to_dict :: "cfg_edge \<Rightarrow> edge_dict" where
  "edge_to_dict e =
     \<lparr>ed_source = bid_str (edge_source e), ed_target = bid_str (edge_target e),
      ed_kind = edge_kind_str (edge_kind e), ed_label = edge_label e\<rparr>"

record cfg_dict =
  cd_function_node_id :: string
  cd_entry_block_id :: string
  cd_exit_block_id :: string
  cd_blocks :: "block_dict list"
  cd_edges :: "edge_dict list"
  cd_unreachable_block_ids :: "string list"

definition cfg_to_dict :: "cfg \<Rightarrow> cfg_dict option" where
  "cfg_to_dict c = map_option (\<lambda>unreach.
     \<lparr>cd_function_node_id = function_node_id c, cd_entry_block_id = bid_str Entry,
      cd_exit_block_id = bid_str Exit, cd_blocks = map (block_to_dict \<circ> snd) (blocks c),
      cd_edges = map edge_to_dict (edges c),
      cd_unreachable_block_ids = map (bid_str \<circ> block_id) unreach\<rparr>)
     (unreachable_blocks c)"

text \<open>The Graphviz rendering; \<open>dot_quote\<close> is the double quote.\<close>

definition dot_quote :: string where
  "dot_quote = [CHR 0x22]"

definition dot_node_line :: "bid set \<Rightarrow> bid \<times> basic_block \<Rightarrow> string" where
  "dot_node_line unreach p = (case p of (b, blk) \<Rightarrow>
     (let body = join_str [CHR 0x5C, CHR ''n''] (map node_kind (statements blk));
          label = (if b \<in> {Entry, Exit} then bid_str b else if body \<noteq> [] then body else ''(empty)'');
          color = (if b \<in> unreach then ''red'' else ''black'')
      in ''  '' @ dot_quote @ bid_str b @ dot_quote @ '' [label='' @ dot_quote @ label @ dot_quote
           @ '', color='' @ color @ ''];''))"

definition dot_edge_line :: "cfg_edge \<Rightarrow> string" where
  "dot_edge_line e =
     (let style = (if edge_kind e \<in> {FalseBranch, BreakEdge, GotoEdge} then ''dashed'' else ''solid'');
          lbl = (case edge_label e of Some l \<Rightarrow> (if l \<noteq> [] then l else edge_kind_str (edge_kind e))
                 | None \<Rightarrow> edge_kind_str (edge_kind e))
      in ''  '' @ dot_quote @ bid_str (edge_source e) @ dot_quote @ '' -> '' @ dot_quote
           @ bid_str (edge_target e) @ dot_quote @ '' [label='' @ dot_quote @ lbl @ dot_quote
           @ '', style='' @ style @ ''];'')"

definition cfg_to_dot :: "cfg \<Rightarrow> string option" where
  "cfg_to_dot c = map_option (\<lambda>unreach.
     join_str [CHR 0x0A]
       ([''digraph CFG {'', ''  node [shape=box, fontname='' @ dot_quote @ ''monospace'' @ dot_quote @ ''];'']
        @ map (dot_node_line (block_id ` set unreach)) (blocks c)
        @ map dot_edge_line (edges c) @ [''}'']))
     (unreachable_blocks c)"

subsection \<open>Reachability\<close>

definition edge_rel :: "cfg \<Rightarrow> (bid \<times> bid) set" where
  "edge_rel c = (\<lambda>e. (edge_source e, edge_target e)) ` set (edges c)"

lemma edge_rel_succ: "(a, b) \<in> edge_rel c \<longleftrightarrow> b \<in> edge_target ` set (successors c a)"
  by (auto simp: edge_rel_def successors_def image_iff)

lemma reach_loop_simps:
  "reach_loop c visited [] = Some visited"
  "reach_loop c visited (cur # rest) =
     (if cur \<in> visited then reach_loop c visited rest
      else reach_loop c (insert cur visited) (rev (map edge_target (successors c cur)) @ rest))"
  by (subst reach_loop.simps, simp)+

definition cfg_points :: "cfg \<Rightarrow> bid set" where
  "cfg_points c = insert Entry (edge_target ` set (edges c))"

lemma finite_cfg_points [simp]: "finite (cfg_points c)"
  by (simp add: cfg_points_def)

lemma successors_points: "edge_target ` set (successors c b) \<subseteq> cfg_points c"
  by (auto simp: successors_def cfg_points_def)

interpretation cfg_search: worklist "reach_loop c" "\<lambda>visited. visited" insert "\<lambda>visited. visited"
    "\<lambda>b. map edge_target (successors c b)" "\<lambda>new work. rev new @ work" for c
  by unfold_locales (auto simp: reach_loop_simps)

lemma cfg_search_steps: "cfg_search.steps c = edge_rel c"
  by (auto simp: cfg_search.steps_def edge_rel_succ)

lemma reachable_blocks_eq: "reachable_blocks c = Some {b. (Entry, b) \<in> (edge_rel c)\<^sup>*}"
proof -
  have "\<exists>t. reach_loop c {} [Entry] = Some t \<and> True \<and> t = (cfg_search.steps c)\<^sup>* `` set [Entry]"
    by (rule cfg_search.search_exact [of "cfg_points c"])
      (use successors_points in \<open>auto simp: cfg_points_def\<close>)
  then show ?thesis by (simp add: reachable_blocks_def cfg_search_steps Image_singleton)
qed

definition reachable :: "cfg \<Rightarrow> bid \<Rightarrow> bool" where
  "reachable c b \<longleftrightarrow> (Entry, b) \<in> (edge_rel c)\<^sup>*"

lemma unreachable_blocks_eq: "unreachable_blocks c = Some
    (map snd (filter (\<lambda>(b, blk). \<not> reachable c b \<and> b \<notin> {Entry, Exit} \<and> statements blk \<noteq> []) (blocks c)))"
  by (simp add: unreachable_blocks_def reachable_blocks_eq reachable_def)

subsection \<open>Properties\<close>

text \<open>
  On every graph, a malformed or cyclic one included, the loop of
  \<open>ControlFlowGraph.reachable_blocks\<close> ends and returns exactly the identifiers that a path
  of edges from the entry reaches.
\<close>

theorem reachable_blocks_exact: "reachable_blocks c = Some {b. (Entry, b) \<in> (edge_rel c)\<^sup>*}"
  by (rule reachable_blocks_eq)

end
