(* ===== verification/Cfg_Build.thy ===== *)
theory Cfg_Build
  imports Cfg_Model "HOL-Library.Multiset"
begin

text \<open>
  \<open>CFGEngine\<close> of \<open>cfg_engine.py\<close>: the builder that turns the statements of a function
  body into basic blocks and edges, and the pass that prunes empty blocks.  One state
  record holds everything the recursive methods share by reference (the graph under
  construction, the block factory's counter, the labels, the pending gotos, the tails).
  A method that calls \<open>_build_block_sequence\<close> gets it as the argument \<open>rec\<close>;
  \<open>build_seq\<close> ties the knot under the interpreter's recursion limit.
\<close>

subsection \<open>Builder state\<close>

record builder =
  bcfg :: cfg
  bcounter :: nat
  blabels :: "(string, bid) dict"
  bpending :: "(bid \<times> string) list"
  btails :: "(bid, bid) dict"

type_synonym loop_stack = "(bid \<times> bid) list"
type_synonym seq_builder = "bid \<Rightarrow> loop_stack \<Rightarrow> ast_node list \<Rightarrow> builder \<Rightarrow> (bid \<times> builder) option"

definition new_block :: "block_kind \<Rightarrow> builder \<Rightarrow> bid \<times> builder" where
  "new_block k st =
     (let n = bcounter st + 1; c = bcfg st
      in (B n, st\<lparr>bcounter := n,
            bcfg := c\<lparr>blocks := dict_set (B n) \<lparr>block_id = B n, statements = [], block_kind = k\<rparr> (blocks c)\<rparr>\<rparr>))"

definition add_edge :: "bid \<Rightarrow> bid \<Rightarrow> edge_kind \<Rightarrow> builder \<Rightarrow> builder" where
  "add_edge s t k st = st\<lparr>bcfg := (bcfg st)\<lparr>edges := edges (bcfg st) @ [cfg_edge_of s t k]\<rparr>\<rparr>"

text \<open>\<open>current.statements.append(statement)\<close> on the block object in \<open>cfg.blocks\<close>.\<close>

definition add_stmt :: "bid \<Rightarrow> ast_node \<Rightarrow> builder \<Rightarrow> builder" where
  "add_stmt b s st = st\<lparr>bcfg := (bcfg st)\<lparr>blocks :=
     map (\<lambda>(i, blk). (i, if i = b then blk\<lparr>statements := statements blk @ [s]\<rparr> else blk)) (blocks (bcfg st))\<rparr>\<rparr>"

definition block_stmts :: "builder \<Rightarrow> bid \<Rightarrow> ast_node list" where
  "block_stmts st b = (case map_of (blocks (bcfg st)) b of None \<Rightarrow> [] | Some blk \<Rightarrow> statements blk)"

definition tail_of :: "builder \<Rightarrow> bid \<Rightarrow> bid" where
  "tail_of st b = dict_get_default b (btails st) b"

definition terminates :: "builder \<Rightarrow> bid \<Rightarrow> bool" where
  "terminates st b = list_ex (\<lambda>e. edge_kind e \<in> {ReturnEdge, BreakEdge, GotoEdge}) (successors (bcfg st) b)"

subsection \<open>Statements\<close>

definition as_sequence :: "ast_graph \<Rightarrow> ast_node \<Rightarrow> ast_node list" where
  "as_sequence g n = (if node_kind n = ''CompoundStmt'' then children g (node_id n) else [n])"

definition as_sequence_entry ::
    "seq_builder \<Rightarrow> ast_graph \<Rightarrow> bid \<Rightarrow> loop_stack \<Rightarrow> ast_node \<Rightarrow> builder \<Rightarrow> (bid \<times> builder) option" where
  "as_sequence_entry rec g exit ls n st =
     (if node_kind n = ''CompoundStmt'' then rec exit ls (children g (node_id n)) st
      else rec exit ls [n] st)"

text \<open>
  The three lines every branch and loop body is linked with: an edge from \<open>a\<close> into the
  nested sequence, and one from its tail to \<open>t\<close>.
\<close>

definition link_sequence ::
    "seq_builder \<Rightarrow> ast_graph \<Rightarrow> bid \<Rightarrow> loop_stack \<Rightarrow> bid \<Rightarrow> edge_kind \<Rightarrow> ast_node \<Rightarrow> bid \<Rightarrow> edge_kind
      \<Rightarrow> builder \<Rightarrow> builder option" where
  "link_sequence rec g exit ls a k n t k' st = do {
     (entry, st) \<leftarrow> as_sequence_entry rec g exit ls n st;
     let st = add_edge a entry k st;
     Some (add_edge (tail_of st entry) t k' st) }"

text \<open>One branch of \<open>_handle_if\<close>: \<open>k\<close> is the kind of the edge into it.\<close>

definition if_branch ::
    "seq_builder \<Rightarrow> ast_graph \<Rightarrow> bid \<Rightarrow> loop_stack \<Rightarrow> bid \<Rightarrow> bid \<Rightarrow> edge_kind \<Rightarrow> ast_node option
      \<Rightarrow> builder \<Rightarrow> builder option" where
  "if_branch rec g exit ls branch join k n st = (case n of
       None \<Rightarrow> Some (add_edge branch join k st)
     | Some n \<Rightarrow> link_sequence rec g exit ls branch k n join Fallthrough st)"

definition handle_if ::
    "seq_builder \<Rightarrow> ast_graph \<Rightarrow> bid \<Rightarrow> loop_stack \<Rightarrow> ast_node \<Rightarrow> bid \<Rightarrow> builder \<Rightarrow> (bid \<times> builder) option" where
  "handle_if rec g exit ls s cur st = do {
     let st = add_stmt cur s st;
     let cs = children g (node_id s);
     let (join, st) = new_block NormalBlock st;
     st \<leftarrow> if_branch rec g exit ls cur join TrueBranch (if length cs > 1 then Some (cs ! 1) else None) st;
     st \<leftarrow> if_branch rec g exit ls cur join FalseBranch (if length cs > 2 then Some (cs ! 2) else None) st;
     Some (join, st) }"

definition handle_loop ::
    "seq_builder \<Rightarrow> ast_graph \<Rightarrow> bid \<Rightarrow> loop_stack \<Rightarrow> ast_node \<Rightarrow> bid \<Rightarrow> builder \<Rightarrow> (bid \<times> builder) option" where
  "handle_loop rec g exit ls s cur st = do {
     let (header, st) = new_block LoopHeader st;
     let st = add_stmt header s st;
     let (after, st) = new_block NormalBlock st;
     let st = add_edge cur header Fallthrough st;
     let cs = children g (node_id s);
     let body = (if cs = [] then None else Some (if node_kind s = ''DoStmt'' then hd cs else last cs));
     let ls' = ls @ [(header, after)];
     st \<leftarrow> (case body of
         None \<Rightarrow> Some st
       | Some n \<Rightarrow> link_sequence rec g exit ls' header
           (if node_kind s = ''DoStmt'' then Fallthrough else TrueBranch) n header LoopBack st);
     Some (after, add_edge header after FalseBranch st) }"

text \<open>
  The grouping loop of \<open>_handle_switch\<close>: statements before the first label are dropped.
\<close>

fun case_groups :: "ast_node list \<Rightarrow> ast_node option \<Rightarrow> ast_node list \<Rightarrow> (ast_node \<times> ast_node list) list" where
  "case_groups [] cur grp = (case cur of None \<Rightarrow> [] | Some c \<Rightarrow> [(c, grp)])"
| "case_groups (s # ss) cur grp =
     (if node_kind s \<in> {''CaseStmt'', ''DefaultStmt''}
      then (case cur of None \<Rightarrow> [] | Some c \<Rightarrow> [(c, grp)]) @ case_groups ss (Some s) []
      else case_groups ss cur (grp @ [s]))"

definition link_prev :: "bid option \<Rightarrow> bid \<Rightarrow> edge_kind \<Rightarrow> builder \<Rightarrow> builder" where
  "link_prev prev t k st = (case prev of None \<Rightarrow> st
     | Some p \<Rightarrow> if terminates st p then st else add_edge p t k st)"

definition switch_group ::
    "seq_builder \<Rightarrow> bid \<Rightarrow> loop_stack \<Rightarrow> bid \<Rightarrow> ast_node \<times> ast_node list \<Rightarrow> bid option \<times> builder
      \<Rightarrow> (bid option \<times> builder) option" where
  "switch_group rec exit ls sw cg prev_st = (case (cg, prev_st) of ((c, grp), (prev, st)) \<Rightarrow> do {
     (entry, st) \<leftarrow> rec exit ls (c # grp) st;
     let st = add_edge sw entry (if node_kind c = ''DefaultStmt'' then DefaultEdge else CaseEdge) st;
     let st = link_prev prev entry SwitchFallthrough st;
     Some (Some (tail_of st entry), st) })"

definition handle_switch ::
    "seq_builder \<Rightarrow> ast_graph \<Rightarrow> bid \<Rightarrow> loop_stack \<Rightarrow> ast_node \<Rightarrow> bid \<Rightarrow> builder \<Rightarrow> (bid \<times> builder) option" where
  "handle_switch rec g exit ls s cur st = do {
     let st = add_stmt cur s st;
     let (after, st) = new_block NormalBlock st;
     let ls' = ls @ [(cur, after)];
     let bodies = filter (\<lambda>c. node_kind c = ''CompoundStmt'') (children g (node_id s));
     if bodies = [] then Some (after, add_edge cur after Fallthrough st)
     else do {
       let groups = case_groups (children g (node_id (hd bodies))) None [];
       (prev, st) \<leftarrow> opt_fold (switch_group rec exit ls' cur) groups (None, st);
       let st = link_prev prev after Fallthrough st;
       let st = (if list_ex (\<lambda>(c, _). node_kind c = ''DefaultStmt'') groups then st
                 else add_edge cur after NoMatch st);
       Some (after, st) } }"

subsection \<open>Sequences\<close>

definition loop_kinds :: "string list" where
  "loop_kinds = [''ForStmt'', ''WhileStmt'', ''DoStmt'']"

text \<open>\<open>statement.get("semantic_properties", {}).get("name", statement["node_id"])\<close>\<close>

definition label_name :: "ast_node \<Rightarrow> string" where
  "label_name s = prop_str (semantic_properties s) ''name'' (node_id s)"

definition handle_label :: "ast_node \<Rightarrow> bid \<Rightarrow> builder \<Rightarrow> bid \<times> builder" where
  "handle_label s cur st =
     (let (cur, st) = (if block_stmts st cur \<noteq> []
                       then let (next, st) = new_block NormalBlock st in (next, add_edge cur next Fallthrough st)
                       else (cur, st))
      in (cur, add_stmt cur s (st\<lparr>blabels := dict_set (label_name s) cur (blabels st)\<rparr>)))"

text \<open>A statement that ends its block: the jump's edge, then a fresh block.\<close>

definition handle_jump :: "bid \<Rightarrow> loop_stack \<Rightarrow> ast_node \<Rightarrow> bid \<Rightarrow> builder \<Rightarrow> bid \<times> builder" where
  "handle_jump exit ls s cur st =
     (let st = add_stmt cur s st;
          st = (if node_kind s = ''ReturnStmt'' then add_edge cur exit ReturnEdge st
                else if node_kind s = ''BreakStmt''
                then (if ls \<noteq> [] then add_edge cur (snd (last ls)) BreakEdge st else st)
                else if node_kind s = ''ContinueStmt''
                then (if ls \<noteq> [] then add_edge cur (fst (last ls)) ContinueEdge st else st)
                else st\<lparr>bpending := bpending st @ [(cur, sem_str s ''target_label'')]\<rparr>)
      in new_block NormalBlock st)"

text \<open>One iteration of the statement loop of \<open>_build_block_sequence\<close>.\<close>

definition build_stmt ::
    "seq_builder \<Rightarrow> ast_graph \<Rightarrow> bid \<Rightarrow> loop_stack \<Rightarrow> ast_node \<Rightarrow> bid \<times> builder \<Rightarrow> (bid \<times> builder) option" where
  "build_stmt rec g exit ls s cur_st = (case cur_st of (cur, st) \<Rightarrow>
     if node_kind s = ''LabelStmt'' then Some (handle_label s cur st)
     else if node_kind s = ''IfStmt'' then handle_if rec g exit ls s cur st
     else if node_kind s \<in> set loop_kinds then handle_loop rec g exit ls s cur st
     else if node_kind s = ''SwitchStmt'' then handle_switch rec g exit ls s cur st
     else if node_kind s = ''CompoundStmt'' then do {
       (nested, st) \<leftarrow> rec exit ls (children g (node_id s)) st;
       Some (new_block NormalBlock (add_edge cur nested Fallthrough st)) }
     else if node_kind s \<in> {''ReturnStmt'', ''BreakStmt'', ''ContinueStmt'', ''GotoStmt''}
     then Some (handle_jump exit ls s cur st)
     else Some (cur, add_stmt cur s st))"

definition build_block_sequence :: "seq_builder \<Rightarrow> ast_graph \<Rightarrow> seq_builder" where
  "build_block_sequence rec g exit ls stmts st = do {
     let (first, st) = new_block NormalBlock st;
     (cur, st) \<leftarrow> opt_fold (build_stmt rec g exit ls) stmts (first, st);
     Some (first, st\<lparr>btails := dict_setdefault first cur (btails st)\<rparr>) }"

primrec build_seq :: "nat \<Rightarrow> ast_graph \<Rightarrow> seq_builder" where
  "build_seq 0 g = (\<lambda>exit ls stmts st. None)"
| "build_seq (Suc d) g = build_block_sequence (build_seq d g) g"

subsection \<open>The whole function\<close>

definition non_statement_kinds :: "string list" where
  "non_statement_kinds = [''ParmVarDecl'', ''BuiltinType'', ''PointerType'', ''RecordType'', ''EnumDecl'']"

definition body_statements :: "ast_graph \<Rightarrow> ast_node \<Rightarrow> ast_node list" where
  "body_statements g f =
     (case find (\<lambda>c. node_kind c = ''CompoundStmt'') (children g (node_id f)) of
        Some c \<Rightarrow> children g (node_id c)
      | None \<Rightarrow> filter (\<lambda>c. node_kind c \<notin> set non_statement_kinds) (children g (node_id f)))"

definition empty_cfg :: "ast_node \<Rightarrow> cfg" where
  "empty_cfg f = \<lparr>function_node_id = node_id f,
     blocks = [(Entry, \<lparr>block_id = Entry, statements = [], block_kind = EntryBlock\<rparr>),
               (Exit, \<lparr>block_id = Exit, statements = [], block_kind = ExitBlock\<rparr>)],
     edges = []\<rparr>"

definition init_builder :: "ast_node \<Rightarrow> builder" where
  "init_builder f = \<lparr>bcfg = empty_cfg f, bcounter = 0, blabels = [], bpending = [], btails = []\<rparr>"

text \<open>The edge of a pending goto: to the label's block, to the exit when there is none.\<close>

definition goto_edge :: "builder \<Rightarrow> bid \<times> string \<Rightarrow> cfg_edge" where
  "goto_edge st p = (case p of (b, l) \<Rightarrow>
     \<lparr>edge_source = b, edge_target = dict_get_default Exit (blabels st) l,
      edge_kind = GotoEdge, edge_label = Some l\<rparr>)"

text \<open>The edges \<open>build\<close> adds after the body: entry, implicit return, gotos.\<close>

definition finish_edges :: "bid \<Rightarrow> builder \<Rightarrow> cfg" where
  "finish_edges entry st =
     (let st = add_edge Entry entry Fallthrough st;
          tail = tail_of st entry;
          st = (if successors (bcfg st) tail = [] \<and> predecessors (bcfg st) tail \<noteq> []
                then add_edge tail Exit ImplicitReturn st else st)
      in (bcfg st)\<lparr>edges := edges (bcfg st) @ map (goto_edge st) (bpending st)\<rparr>)"

definition build_raw :: "nat \<Rightarrow> ast_graph \<Rightarrow> ast_node \<Rightarrow> cfg option" where
  "build_raw d g f = do {
     (entry, st) \<leftarrow> build_seq d g Exit [] (body_statements g f) (init_builder f);
     Some (finish_edges entry st) }"

subsection \<open>Pruning\<close>

definition retarget :: "bid \<Rightarrow> bid \<Rightarrow> cfg_edge \<Rightarrow> cfg_edge" where
  "retarget b t e = (if edge_target e = b then e\<lparr>edge_target := t\<rparr> else e)"

text \<open>
  The body of the inner loop.  Dropping the edge object \<open>outgoing[0]\<close> is dropping the
  edges that leave the block, because it is the only one.
\<close>

definition prune_block :: "bid \<Rightarrow> cfg \<times> bool \<Rightarrow> cfg \<times> bool" where
  "prune_block b c_ch = (case c_ch of (c, ch) \<Rightarrow>
     if b \<in> {Entry, Exit} then (c, ch)
     else (case map_of (blocks c) b of
         None \<Rightarrow> (c, ch)
       | Some blk \<Rightarrow>
           if statements blk \<noteq> [] then (c, ch)
           else (case successors c b of
               [e] \<Rightarrow>
                 if edge_kind e \<noteq> Fallthrough \<or> edge_target e = b then (c, ch)
                 else (c\<lparr>edges := filter (\<lambda>e'. edge_source e' \<noteq> b) (map (retarget b (edge_target e)) (edges c)),
                        blocks := dict_del b (blocks c)\<rparr>, True)
             | _ \<Rightarrow> (c, ch))))"

definition prune_sweep :: "cfg \<Rightarrow> cfg \<times> bool" where
  "prune_sweep c = fold prune_block (dict_keys (blocks c)) (c, False)"

definition prune_empty_pass_through_blocks :: "cfg \<Rightarrow> cfg option" where
  "prune_empty_pass_through_blocks c = sweep_loop prune_sweep c"

text \<open>\<open>CFGEngine.build\<close>; \<open>d\<close> is the recursion limit.\<close>

definition build_cfg :: "nat \<Rightarrow> ast_graph \<Rightarrow> ast_node \<Rightarrow> cfg option" where
  "build_cfg d g f =
     (if body_statements g f = []
      then Some ((empty_cfg f)\<lparr>edges := [cfg_edge_of Entry Exit Fallthrough]\<rparr>)
      else do { c \<leftarrow> build_raw d g f; prune_empty_pass_through_blocks c })"

end
