(* ===== verification/Cfg_Build_Props.thy ===== *)
theory Cfg_Build_Props
  imports Cfg_Build
begin

text \<open>
  Correctness of the CFG builder: the invariant of its state, the contract of the
  recursive sequence builder (a locale, discharged for the model's builder by induction on
  the recursion limit), conservation of the walked statements, termination, and what
  pruning keeps.
\<close>

subsection \<open>The builder invariant\<close>

definition ids :: "builder \<Rightarrow> bid set" where
  "ids st = B ` {1..bcounter st}"

definition builder_ok :: "builder \<Rightarrow> bool" where
  "builder_ok st \<longleftrightarrow>
     dict_keys (blocks (bcfg st)) = Entry # Exit # map B [1..<Suc (bcounter st)]
   \<and> (\<forall>p \<in> set (blocks (bcfg st)). block_id (snd p) = fst p
        \<and> (fst p \<in> {Entry, Exit} \<longrightarrow> statements (snd p) = []))
   \<and> (\<forall>e \<in> set (edges (bcfg st)). edge_source e \<in> insert Entry (ids st) \<and> edge_target e \<in> insert Exit (ids st))
   \<and> snd ` set (blabels st) \<subseteq> ids st \<and> fst ` set (bpending st) \<subseteq> ids st
   \<and> fst ` set (btails st) \<subseteq> ids st \<and> snd ` set (btails st) \<subseteq> ids st"

text \<open>The statements placed in the blocks, as a multiset.\<close>

definition placed :: "cfg \<Rightarrow> ast_node multiset" where
  "placed c = (\<Sum>p \<leftarrow> blocks c. mset (statements (snd p)))"

text \<open>The builder moved on: new blocks and edges only, and the statements \<open>m\<close> placed.\<close>

definition advances :: "builder \<Rightarrow> ast_node multiset \<Rightarrow> builder \<Rightarrow> bool" where
  "advances st m st' \<longleftrightarrow> builder_ok st' \<and> ids st \<subseteq> ids st' \<and> placed (bcfg st') = placed (bcfg st) + m"

lemma advances_refl: "builder_ok st \<Longrightarrow> advances st {#} st"
  by (simp add: advances_def)

lemma advances_trans [trans]:
  "advances st m st' \<Longrightarrow> advances st' m' st'' \<Longrightarrow> advances st (m + m') st''"
  by (auto simp: advances_def)

lemma advances_ok: "advances st m st' \<Longrightarrow> builder_ok st'"
  by (simp add: advances_def)

lemma advances_ids: "advances st m st' \<Longrightarrow> b \<in> ids st \<Longrightarrow> b \<in> ids st'"
  by (auto simp: advances_def)

lemma Entry_Exit_ids [simp]: "Entry \<notin> ids st" "Exit \<notin> ids st"
  by (auto simp: ids_def)

lemma ids_keys: "builder_ok st \<Longrightarrow> set (dict_keys (blocks (bcfg st))) = {Entry, Exit} \<union> ids st"
  by (auto simp: builder_ok_def ids_def)

lemma distinct_block_keys: "builder_ok st \<Longrightarrow> distinct (dict_keys (blocks (bcfg st)))"
  by (auto simp: builder_ok_def distinct_map inj_on_def)

lemma dict_set_fresh: "k \<notin> set (dict_keys d) \<Longrightarrow> dict_set k v d = d @ [(k, v)]"
  unfolding dict_set_def by (induction d) auto

lemma new_block_advances:
  assumes "builder_ok st" and "new_block k st = (b, st')"
  shows "advances st {#} st' \<and> b \<in> ids st' \<and> b \<notin> ids st"
proof -
  let ?n = "Suc (bcounter st)" and ?blk = "\<lparr>block_id = B (Suc (bcounter st)), statements = [], block_kind = k\<rparr>"
  have b: "b = B ?n" and st': "st' = st\<lparr>bcounter := ?n,
      bcfg := (bcfg st)\<lparr>blocks := dict_set (B ?n) ?blk (blocks (bcfg st))\<rparr>\<rparr>"
    using assms(2) by (auto simp: new_block_def Let_def)
  have "B ?n \<notin> set (dict_keys (blocks (bcfg st)))"
    by (simp add: ids_keys [OF assms(1)] ids_def image_iff)
  then have blk: "blocks (bcfg st') = blocks (bcfg st) @ [(B ?n, ?blk)]"
    by (simp add: st' dict_set_fresh)
  have ids: "ids st' = insert (B ?n) (ids st)" by (auto simp: st' ids_def atLeastAtMostSuc_conv)
  have "builder_ok st'"
    using assms(1) unfolding builder_ok_def blk ids by (auto simp: st')
  then show ?thesis by (auto simp: advances_def blk placed_def ids b) (auto simp: ids_def)
qed

lemma add_edge_advances:
  assumes "builder_ok st" and "s \<in> insert Entry (ids st)" and "t \<in> insert Exit (ids st)"
  shows "advances st {#} (add_edge s t k st)"
proof -
  have ids: "ids (add_edge s t k st) = ids st" by (simp add: ids_def add_edge_def)
  show ?thesis using assms unfolding advances_def builder_ok_def ids
    by (auto simp: add_edge_def placed_def)
qed

lemma sum_list_update_stmts:
  assumes "distinct (dict_keys d)" and "b \<in> set (dict_keys d)"
  shows "(\<Sum>p \<leftarrow> map (\<lambda>(i, blk). (i, if i = b then blk\<lparr>statements := statements blk @ [s]\<rparr> else blk)) d.
      mset (statements (snd p))) = (\<Sum>p \<leftarrow> d. mset (statements (snd p))) + {#s#}"
  using assms
proof (induction d)
  case Nil
  then show ?case by simp
next
  case (Cons p d)
  obtain i blk where p: "p = (i, blk)" by (cases p)
  show ?case
  proof (cases "i = b")
    case True
    then have "b \<notin> fst ` set d" using Cons.prems(1) p by (auto simp: dict_keys_def)
    then have "map (\<lambda>(i, blk). (i, if i = b then blk\<lparr>statements := statements blk @ [s]\<rparr> else blk)) d = d"
      by (intro map_idI) force
    then show ?thesis using True p by simp
  next
    case False
    then show ?thesis using Cons p by simp
  qed
qed

lemma add_stmt_advances:
  assumes "builder_ok st" and "b \<in> ids st"
  shows "advances st {#s#} (add_stmt b s st)"
proof -
  have ids: "ids (add_stmt b s st) = ids st" by (simp add: ids_def add_stmt_def)
  have keys: "dict_keys (blocks (bcfg (add_stmt b s st))) = dict_keys (blocks (bcfg st))"
    by (simp add: add_stmt_def dict_keys_def case_prod_unfold comp_def)
  have "b \<in> set (dict_keys (blocks (bcfg st)))" using assms ids_keys by auto
  then have "placed (bcfg (add_stmt b s st)) = placed (bcfg st) + {#s#}"
    using sum_list_update_stmts [OF distinct_block_keys [OF assms(1)]]
    by (simp add: placed_def add_stmt_def)
  moreover have "b \<notin> {Entry, Exit}" using assms(2) by auto
  then have "builder_ok (add_stmt b s st)"
    using assms(1) unfolding builder_ok_def ids keys by (auto simp: add_stmt_def)
  ultimately show ?thesis by (simp add: advances_def ids)
qed

lemma ids_update [simp]: "ids (add_edge s t k st) = ids st" "ids (add_stmt b x st) = ids st"
  by (simp_all add: ids_def add_edge_def add_stmt_def)

text \<open>The same steps at the end of a run that started in \<open>st\<close>.\<close>

lemma advances_new_block:
  assumes "advances st m st1" and "new_block k st1 = (b, st2)"
  shows "advances st m st2" and "b \<in> ids st2" and "ids st1 \<subseteq> ids st2"
  using advances_trans [OF assms(1), of "{#}" st2] new_block_advances [OF advances_ok [OF assms(1)] assms(2)]
  by (auto simp: advances_def)

lemma advances_add_edge:
  assumes "advances st m st1" and "s \<in> insert Entry (ids st1)" and "t \<in> insert Exit (ids st1)"
  shows "advances st m (add_edge s t k st1)"
  using advances_trans [OF assms(1) add_edge_advances [OF advances_ok [OF assms(1)] assms(2,3)]] by simp

lemma advances_add_stmt:
  assumes "advances st m st1" and "b \<in> ids st1"
  shows "advances st (add_mset s m) (add_stmt b s st1)"
  using advances_trans [OF assms(1) add_stmt_advances [OF advances_ok [OF assms(1)] assms(2)]] by simp

lemma tail_of_ids: "builder_ok st \<Longrightarrow> b \<in> ids st \<Longrightarrow> tail_of st b \<in> ids st"
  by (auto simp: tail_of_def dict_get_default_def builder_ok_def dest!: map_of_SomeD split: option.splits)

text \<open>An edge into a sequence, and one from its tail onward.\<close>

lemma advances_detour:
  assumes "advances st m st1" and "entry \<in> ids st1" and "a \<in> ids st1" and "t \<in> ids st1"
  shows "advances st m (add_edge (tail_of (add_edge a entry k st1) entry) t k' (add_edge a entry k st1))"
proof -
  have a: "advances st m (add_edge a entry k st1)" using assms by (auto intro: advances_add_edge)
  have "tail_of (add_edge a entry k st1) entry \<in> ids st1"
    using tail_of_ids [OF advances_ok [OF a]] assms(2) by simp
  then show ?thesis using assms(4) by (auto intro!: advances_add_edge [OF a])
qed

lemma builder_ok_tails:
  "builder_ok st \<Longrightarrow> a \<in> ids st \<Longrightarrow> b \<in> ids st
    \<Longrightarrow> advances st {#} (st\<lparr>btails := dict_setdefault a b (btails st)\<rparr>)"
  by (auto simp: builder_ok_def ids_def advances_def dict_setdefault_def)

lemma builder_ok_labels:
  "builder_ok st \<Longrightarrow> b \<in> ids st \<Longrightarrow> advances st {#} (st\<lparr>blabels := dict_set l b (blabels st)\<rparr>)"
proof -
  assume st: "builder_ok st" and b: "b \<in> ids st"
  let ?st = "st\<lparr>blabels := dict_set l b (blabels st)\<rparr>"
  have ids: "ids ?st = ids st" by (simp add: ids_def)
  have "snd ` set (dict_set l b (blabels st)) \<subseteq> insert b (snd ` set (blabels st))"
    using set_dict_set_subset [of l b "blabels st"] by fastforce
  moreover have "snd ` set (blabels st) \<subseteq> ids st" using st by (simp add: builder_ok_def)
  ultimately have "snd ` set (dict_set l b (blabels st)) \<subseteq> ids st" using b by blast
  with st have "builder_ok ?st" unfolding builder_ok_def ids by simp
  then show "advances st {#} ?st" by (simp add: advances_def ids)
qed

lemma builder_ok_pending:
  "builder_ok st \<Longrightarrow> b \<in> ids st \<Longrightarrow> advances st {#} (st\<lparr>bpending := bpending st @ [(b, l)]\<rparr>)"
  by (auto simp: builder_ok_def ids_def advances_def)

subsection \<open>The contract of the sequence builder\<close>

text \<open>The statement lists the builder recurses into, and the statement it places itself.\<close>

definition sub_sequences :: "ast_graph \<Rightarrow> ast_node \<Rightarrow> ast_node list list" where
  "sub_sequences g s =
     (let cs = children g (node_id s) in
      if node_kind s = ''LabelStmt'' then []
      else if node_kind s = ''IfStmt'' then
        (if length cs > 1 then [as_sequence g (cs ! 1)] else [])
        @ (if length cs > 2 then [as_sequence g (cs ! 2)] else [])
      else if node_kind s \<in> set loop_kinds then
        (if cs = [] then [] else [as_sequence g (if node_kind s = ''DoStmt'' then hd cs else last cs)])
      else if node_kind s = ''SwitchStmt'' then
        (case filter (\<lambda>c. node_kind c = ''CompoundStmt'') cs of [] \<Rightarrow> []
         | body # _ \<Rightarrow> map (\<lambda>(c, grp). c # grp) (case_groups (children g (node_id body)) None []))
      else if node_kind s = ''CompoundStmt'' then [cs]
      else [])"

definition own_stmts :: "ast_node \<Rightarrow> ast_node multiset" where
  "own_stmts s = (if node_kind s = ''CompoundStmt'' then {#} else {#s#})"

definition stmt_walk :: "(ast_node list \<Rightarrow> ast_node multiset) \<Rightarrow> ast_graph \<Rightarrow> ast_node \<Rightarrow> ast_node multiset" where
  "stmt_walk walk g s = own_stmts s + (\<Sum>ss \<leftarrow> sub_sequences g s. walk ss)"

text \<open>Every statement of a list and of the lists nested in it, with multiplicity.\<close>

primrec flow_stmts :: "nat \<Rightarrow> ast_graph \<Rightarrow> ast_node list \<Rightarrow> ast_node multiset" where
  "flow_stmts 0 g ss = {#}"
| "flow_stmts (Suc d) g ss = (\<Sum>s \<leftarrow> ss. stmt_walk (flow_stmts d g) g s)"

definition targets_ok :: "builder \<Rightarrow> bid \<Rightarrow> loop_stack \<Rightarrow> bool" where
  "targets_ok st exit ls \<longleftrightarrow> exit \<in> insert Exit (ids st) \<and> (\<forall>(a, b) \<in> set ls. a \<in> ids st \<and> b \<in> ids st)"

lemma targets_ok_advances: "targets_ok st exit ls \<Longrightarrow> advances st m st' \<Longrightarrow> targets_ok st' exit ls"
  by (auto simp: targets_ok_def advances_def)

lemma targets_ok_snoc:
  "targets_ok st exit ls \<Longrightarrow> a \<in> ids st \<Longrightarrow> b \<in> ids st \<Longrightarrow> targets_ok st exit (ls @ [(a, b)])"
  by (auto simp: targets_ok_def)

text \<open>
  What a call builds: a state that satisfies the invariant, the walked statements placed,
  and the identifier of a block.
\<close>

definition builds :: "builder \<Rightarrow> ast_node multiset \<Rightarrow> (bid \<times> builder) option \<Rightarrow> bool" where
  "builds st m r \<longleftrightarrow> (\<forall>b st'. r = Some (b, st') \<longrightarrow> advances st m st' \<and> b \<in> ids st')"

locale seq_contract =
  fixes rec :: seq_builder and walk :: "ast_node list \<Rightarrow> ast_node multiset" and g :: ast_graph
  assumes rec_builds: "builder_ok st \<Longrightarrow> targets_ok st exit ls \<Longrightarrow> builds st (walk ss) (rec exit ls ss st)"
begin

lemma rec_advances:
  "rec exit ls ss st = Some (b, st') \<Longrightarrow> builder_ok st \<Longrightarrow> targets_ok st exit ls
    \<Longrightarrow> advances st (walk ss) st' \<and> b \<in> ids st'"
  using rec_builds [of st exit ls ss] by (simp add: builds_def)

lemma as_sequence_entry_rec: "as_sequence_entry rec g exit ls n st = rec exit ls (as_sequence g n) st"
  by (simp add: as_sequence_entry_def as_sequence_def)

lemma link_sequence_advances:
  assumes "link_sequence rec g exit ls a k n t k' st1 = Some st'" and st: "advances st m st1"
    and "targets_ok st1 exit ls" "a \<in> ids st1" "t \<in> ids st1"
  shows "advances st (m + walk (as_sequence g n)) st' \<and> ids st1 \<subseteq> ids st'"
proof -
  from assms(1) obtain entry st2 where
    2: "rec exit ls (as_sequence g n) st1 = Some (entry, st2)"
    and st': "st' = add_edge (tail_of (add_edge a entry k st2) entry) t k' (add_edge a entry k st2)"
    by (auto simp: link_sequence_def as_sequence_entry_rec Let_def split: bind_splits)
  from rec_advances [OF 2 advances_ok [OF st] assms(3)]
  have adv: "advances st1 (walk (as_sequence g n)) st2" and entry: "entry \<in> ids st2" by auto
  then have sub: "ids st1 \<subseteq> ids st2" by (simp add: advances_def)
  have "advances st (m + walk (as_sequence g n)) st'"
    unfolding st' by (rule advances_detour [OF advances_trans [OF st adv] entry]) (use sub assms(4,5) in auto)
  then show ?thesis using sub st' by simp
qed

lemma if_branch_advances:
  assumes "if_branch rec g exit ls branch join k n st1 = Some st'" and st: "advances st m st1"
    and "targets_ok st1 exit ls" "branch \<in> ids st1" "join \<in> ids st1"
  shows "advances st (m + (case n of None \<Rightarrow> {#} | Some n \<Rightarrow> walk (as_sequence g n))) st'
     \<and> ids st1 \<subseteq> ids st'"
  using assms link_sequence_advances
  by (auto simp: if_branch_def intro!: advances_add_edge split: option.splits)

lemma handle_if_advances:
  assumes "handle_if rec g exit ls s cur st = Some (b, st')" and s: "node_kind s = ''IfStmt''"
    and st: "builder_ok st" "targets_ok st exit ls" "cur \<in> ids st"
  shows "advances st (stmt_walk walk g s) st' \<and> b \<in> ids st'"
proof -
  let ?cs = "children g (node_id s)"
  let ?st1 = "add_stmt cur s st"
  let ?t = "if length ?cs > 1 then Some (?cs ! 1) else None"
  let ?e = "if length ?cs > 2 then Some (?cs ! 2) else None"
  obtain join st2 where nb: "new_block NormalBlock ?st1 = (join, st2)" by (cases "new_block NormalBlock ?st1")
  from assms(1) nb obtain st3 where
    3: "if_branch rec g exit ls cur join TrueBranch ?t st2 = Some st3"
    and 4: "if_branch rec g exit ls cur join FalseBranch ?e st3 = Some st'" and b: "b = join"
    by (auto simp: handle_if_def Let_def simp del: One_nat_def split: bind_splits)
  have a1: "advances st {#s#} ?st1" using advances_add_stmt [OF advances_refl] st by auto
  note a2 = advances_new_block [OF a1 nb]
  have t2: "targets_ok st2 exit ls" using targets_ok_advances [OF st(2) a2(1)] .
  have c2: "cur \<in> ids st2" using advances_ids [OF a2(1) st(3)] .
  note a3 = if_branch_advances [OF 3 a2(1) t2 c2 a2(2)]
  have t3: "targets_ok st3 exit ls" using targets_ok_advances [OF st(2)] a3 by blast
  have c3: "cur \<in> ids st3" "join \<in> ids st3" using a3 c2 a2(2) by auto
  note a4 = if_branch_advances [OF 4 conjunct1 [OF a3] t3 c3]
  have "stmt_walk walk g s = {#s#}
      + (case ?t of None \<Rightarrow> {#} | Some n \<Rightarrow> walk (as_sequence g n))
      + (case ?e of None \<Rightarrow> {#} | Some n \<Rightarrow> walk (as_sequence g n))"
    using s by (simp add: stmt_walk_def own_stmts_def sub_sequences_def Let_def)
  with a4 b c3 show ?thesis by auto
qed

lemma handle_loop_advances:
  assumes "handle_loop rec g exit ls s cur st = Some (b, st')" and s: "node_kind s \<in> set loop_kinds"
    and st: "builder_ok st" "targets_ok st exit ls" "cur \<in> ids st"
  shows "advances st (stmt_walk walk g s) st' \<and> b \<in> ids st'"
proof -
  let ?cs = "children g (node_id s)"
  define body where "body = (if ?cs = [] then None else Some (if node_kind s = ''DoStmt'' then hd ?cs else last ?cs))"
  define k where "k = (if node_kind s = ''DoStmt'' then Fallthrough else TrueBranch)"
  obtain header st1 where h: "new_block LoopHeader st = (header, st1)" by (cases "new_block LoopHeader st")
  let ?st2 = "add_stmt header s st1"
  obtain after st3 where af: "new_block NormalBlock ?st2 = (after, st3)" by (cases "new_block NormalBlock ?st2")
  let ?st4 = "add_edge cur header Fallthrough st3"
  from assms(1) [unfolded handle_loop_def Let_def, folded body_def k_def] h af obtain st5 where
    5: "(case body of None \<Rightarrow> Some ?st4
         | Some n \<Rightarrow> link_sequence rec g exit (ls @ [(header, after)]) header k n header LoopBack ?st4) = Some st5"
    and st': "st' = add_edge header after FalseBranch st5" and b: "b = after"
    by (auto simp: bind_eq_Some_conv)
  note a1 = advances_new_block [OF advances_refl [OF st(1)] h]
  have a2: "advances st {#s#} ?st2" using advances_add_stmt [OF a1(1,2)] by simp
  note a3 = advances_new_block [OF a2 af]
  have in3: "header \<in> ids st3" "after \<in> ids st3" "cur \<in> ids st3"
    using a1 a3 st(3) by auto
  have a4: "advances st {#s#} ?st4" using in3 by (auto intro!: advances_add_edge [OF a3(1)])
  have t4: "targets_ok ?st4 exit (ls @ [(header, after)])"
    using targets_ok_advances [OF st(2) a4] in3 by (auto intro: targets_ok_snoc)
  have a5: "advances st ({#s#} + (case body of None \<Rightarrow> {#} | Some n \<Rightarrow> walk (as_sequence g n))) st5"
    and sub5: "ids ?st4 \<subseteq> ids st5"
    using 5 a4 link_sequence_advances [OF _ a4 t4] in3 by (auto split: option.splits)
  have "stmt_walk walk g s = {#s#} + (case body of None \<Rightarrow> {#} | Some n \<Rightarrow> walk (as_sequence g n))"
    using s by (auto simp: stmt_walk_def own_stmts_def sub_sequences_def Let_def loop_kinds_def body_def)
  moreover have "header \<in> ids st5" "after \<in> ids st5" using sub5 in3 by auto
  ultimately show ?thesis using advances_add_edge [OF a5, of header after FalseBranch] st' b by auto
qed

lemma link_prev_advances:
  "advances st m st1 \<Longrightarrow> set_option prev \<subseteq> ids st1 \<Longrightarrow> t \<in> ids st1
    \<Longrightarrow> advances st m (link_prev prev t k st1) \<and> ids (link_prev prev t k st1) = ids st1"
  by (auto simp: link_prev_def intro!: advances_add_edge split: option.splits)

lemma switch_groups_advance:
  assumes "opt_fold (switch_group rec exit ls sw) groups (prev, st1) = Some (prev', st')"
    and "advances st m st1" "targets_ok st1 exit ls" "sw \<in> ids st1" "set_option prev \<subseteq> ids st1"
  shows "advances st (m + (\<Sum>(c, grp) \<leftarrow> groups. walk (c # grp))) st' \<and> ids st1 \<subseteq> ids st'
    \<and> set_option prev' \<subseteq> ids st'"
  using assms
proof (induction groups arbitrary: prev st1 m)
  case Nil
  then show ?case by simp
next
  case (Cons cg groups)
  obtain c grp where cg: "cg = (c, grp)" by (cases cg)
  let ?k = "if node_kind c = ''DefaultStmt'' then DefaultEdge else CaseEdge"
  from Cons.prems(1) cg obtain entry st2 where
    2: "rec exit ls (c # grp) st1 = Some (entry, st2)" by (auto simp: switch_group_def split: bind_splits)
  let ?st3 = "add_edge sw entry ?k st2" and ?link = "\<lambda>st. link_prev prev entry SwitchFallthrough st"
  have "switch_group rec exit ls sw cg (prev, st1) = Some (Some (tail_of (?link ?st3) entry), ?link ?st3)"
    using 2 by (simp add: switch_group_def Let_def cg split del: if_split)
  with Cons.prems(1) have rest:
    "opt_fold (switch_group rec exit ls sw) groups (Some (tail_of (?link ?st3) entry), ?link ?st3) = Some (prev', st')"
    by (simp split del: if_split)
  from rec_advances [OF 2 advances_ok [OF Cons.prems(2)] Cons.prems(3)]
  have a2: "advances st1 (walk (c # grp)) st2" and entry: "entry \<in> ids st2" by auto
  have sub: "ids st1 \<subseteq> ids st2" using a2 by (simp add: advances_def)
  have a3: "advances st (m + walk (c # grp)) ?st3"
    using sub Cons.prems(4) entry by (auto intro!: advances_add_edge [OF advances_trans [OF Cons.prems(2) a2]])
  have a4: "advances st (m + walk (c # grp)) (?link ?st3)" "ids (?link ?st3) = ids st2"
    using link_prev_advances [OF a3, of prev entry SwitchFallthrough] Cons.prems(5) sub entry by auto
  have "targets_ok (?link ?st3) exit ls"
    using Cons.prems(3) sub a4(2) by (auto simp: targets_ok_def)
  moreover have "tail_of (?link ?st3) entry \<in> ids (?link ?st3)"
    using tail_of_ids [OF advances_ok [OF a4(1)]] entry a4(2) by simp
  ultimately have "advances st (m + walk (c # grp) + (\<Sum>(c, grp) \<leftarrow> groups. walk (c # grp))) st'
      \<and> ids (?link ?st3) \<subseteq> ids st' \<and> set_option prev' \<subseteq> ids st'"
    using Cons.IH [OF rest a4(1)] Cons.prems(4) a4(2) sub by auto
  then show ?case using cg sub a4(2) by (auto simp: ac_simps)
qed

lemma handle_switch_advances:
  assumes "handle_switch rec g exit ls s cur st = Some (b, st')" and s: "node_kind s = ''SwitchStmt''"
    and st: "builder_ok st" "targets_ok st exit ls" "cur \<in> ids st"
  shows "advances st (stmt_walk walk g s) st' \<and> b \<in> ids st'"
proof -
  let ?st1 = "add_stmt cur s st"
  obtain after st2 where af: "new_block NormalBlock ?st1 = (after, st2)" by (cases "new_block NormalBlock ?st1")
  let ?bodies = "filter (\<lambda>c. node_kind c = ''CompoundStmt'') (children g (node_id s))"
  have a1: "advances st {#s#} ?st1" using advances_add_stmt [OF advances_refl] st by auto
  note a2 = advances_new_block [OF a1 af]
  have c2: "cur \<in> ids st2" using a2 st(3) by auto
  have t2: "targets_ok st2 exit (ls @ [(cur, after)])"
    using targets_ok_advances [OF st(2) a2(1)] c2 a2(2) by (rule targets_ok_snoc)
  have walk: "stmt_walk walk g s = {#s#} + (case ?bodies of [] \<Rightarrow> {#}
      | body # _ \<Rightarrow> (\<Sum>(c, grp) \<leftarrow> case_groups (children g (node_id body)) None []. walk (c # grp)))"
    using s by (auto simp: stmt_walk_def own_stmts_def sub_sequences_def Let_def loop_kinds_def
        comp_def case_prod_unfold split: list.split)
  show ?thesis
  proof (cases ?bodies)
    case Nil
    then have "st' = add_edge cur after Fallthrough st2" "b = after"
      using assms(1) af by (auto simp: handle_switch_def Let_def)
    then show ?thesis using Nil walk c2 a2(2) by (auto intro!: advances_add_edge [OF a2(1)])
  next
    case (Cons body rest)
    let ?groups = "case_groups (children g (node_id body)) None []"
    from assms(1) af Cons obtain prev st3 where
      3: "opt_fold (switch_group rec exit (ls @ [(cur, after)]) cur) ?groups (None, st2) = Some (prev, st3)"
      and st': "st' = (if list_ex (\<lambda>(c, _). node_kind c = ''DefaultStmt'') ?groups
          then link_prev prev after Fallthrough st3
          else add_edge cur after NoMatch (link_prev prev after Fallthrough st3))" and b: "b = after"
      by (auto simp: handle_switch_def Let_def split: bind_splits)
    let ?m = "{#s#} + (\<Sum>(c, grp) \<leftarrow> ?groups. walk (c # grp))"
    from switch_groups_advance [OF 3 a2(1) t2 c2] have a3: "advances st ?m st3" "ids st2 \<subseteq> ids st3"
      "set_option prev \<subseteq> ids st3" by auto
    from link_prev_advances [OF a3(1), of prev after Fallthrough] a3(2,3) a2(2)
    have a4: "advances st ?m (link_prev prev after Fallthrough st3)"
      "ids (link_prev prev after Fallthrough st3) = ids st3" by auto
    have "cur \<in> ids st3" "after \<in> ids st3" using a3(2) c2 a2(2) by auto
    then have "advances st ?m st'" "b \<in> ids st'"
      using a4 st' b advances_add_edge [OF a4(1), of cur after NoMatch] by auto
    then show ?thesis using walk Cons by simp
  qed
qed

lemma handle_label_advances:
  assumes "handle_label s cur st = (b, st')" and st: "builder_ok st" "cur \<in> ids st"
  shows "advances st {#s#} st' \<and> b \<in> ids st'"
proof -
  define p where "p = (if block_stmts st cur \<noteq> []
      then let (next, st) = new_block NormalBlock st in (next, add_edge cur next Fallthrough st) else (cur, st))"
  obtain b1 st1 where p1: "p = (b1, st1)" by (cases p)
  have a1: "advances st {#} st1 \<and> b1 \<in> ids st1"
  proof (cases "block_stmts st cur \<noteq> []")
    case True
    obtain nxt st0 where nb: "new_block NormalBlock st = (nxt, st0)" by (cases "new_block NormalBlock st")
    note a0 = advances_new_block [OF advances_refl [OF st(1)] nb]
    have "b1 = nxt" "st1 = add_edge cur nxt Fallthrough st0"
      using p1 True nb by (auto simp: p_def)
    then show ?thesis using a0 st(2) by (auto intro!: advances_add_edge [OF a0(1)])
  next
    case False
    then show ?thesis using p1 st by (auto simp: p_def advances_refl)
  qed
  let ?st2 = "st1\<lparr>blabels := dict_set (label_name s) b1 (blabels st1)\<rparr>"
  have a2: "advances st {#} ?st2" "ids ?st2 = ids st1"
    using a1 advances_trans [OF _ builder_ok_labels [OF advances_ok], of st "{#}" st1 st "{#}" b1]
    by (auto simp: ids_def)
  have "st' = add_stmt b1 s ?st2" "b = b1"
    using assms(1) p1 by (auto simp: handle_label_def p_def [symmetric])
  then show ?thesis using advances_add_stmt [OF a2(1), of b1 s] a1 a2(2) by auto
qed

lemma handle_jump_advances:
  assumes "handle_jump exit ls s cur st = (b, st')"
    and st: "builder_ok st" "targets_ok st exit ls" "cur \<in> ids st"
  shows "advances st {#s#} st' \<and> b \<in> ids st'"
proof -
  let ?st1 = "add_stmt cur s st"
  define st2 where "st2 = (if node_kind s = ''ReturnStmt'' then add_edge cur exit ReturnEdge ?st1
      else if node_kind s = ''BreakStmt'' then (if ls \<noteq> [] then add_edge cur (snd (last ls)) BreakEdge ?st1 else ?st1)
      else if node_kind s = ''ContinueStmt'' then (if ls \<noteq> [] then add_edge cur (fst (last ls)) ContinueEdge ?st1 else ?st1)
      else ?st1\<lparr>bpending := bpending ?st1 @ [(cur, sem_str s ''target_label'')]\<rparr>)"
  have a1: "advances st {#s#} ?st1" using advances_add_stmt [OF advances_refl] st by auto
  have last: "fst (last ls) \<in> ids st" "snd (last ls) \<in> ids st" if "ls \<noteq> []"
    using st(2) last_in_set [OF that] by (auto simp: targets_ok_def case_prod_unfold)
  have pend: "advances st {#s#} (?st1\<lparr>bpending := bpending ?st1 @ [(cur, l)]\<rparr>)" for l
    using advances_trans [OF a1 builder_ok_pending [OF advances_ok [OF a1]]] st(3) by simp
  have "advances st {#s#} st2"
    using st(2,3) last pend a1 unfolding st2_def
    by (auto simp: targets_ok_def intro!: advances_add_edge [OF a1])
  moreover have "new_block NormalBlock st2 = (b, st')"
    using assms(1) by (simp add: handle_jump_def Let_def st2_def)
  ultimately show ?thesis using advances_new_block by blast
qed

lemma build_stmt_advances:
  assumes "build_stmt rec g exit ls s (cur, st) = Some (b, st')"
    and st: "builder_ok st" "targets_ok st exit ls" "cur \<in> ids st"
  shows "advances st (stmt_walk walk g s) st' \<and> b \<in> ids st'"
proof -
  consider "node_kind s = ''LabelStmt''" | "node_kind s = ''IfStmt''" | "node_kind s \<in> set loop_kinds"
    | "node_kind s = ''SwitchStmt''" | "node_kind s = ''CompoundStmt''"
    | "node_kind s \<in> {''ReturnStmt'', ''BreakStmt'', ''ContinueStmt'', ''GotoStmt''}"
    | "node_kind s \<notin> {''LabelStmt'', ''IfStmt'', ''SwitchStmt'', ''CompoundStmt'',
          ''ReturnStmt'', ''BreakStmt'', ''ContinueStmt'', ''GotoStmt''} \<union> set loop_kinds"
    by auto
  then show ?thesis
  proof cases
    case 1
    then show ?thesis using handle_label_advances [of s cur st b st'] assms
      by (simp add: build_stmt_def stmt_walk_def own_stmts_def sub_sequences_def Let_def)
  next
    case 2
    then show ?thesis using handle_if_advances assms by (simp add: build_stmt_def)
  next
    case 3
    then show ?thesis using handle_loop_advances assms by (auto simp: build_stmt_def loop_kinds_def)
  next
    case 4
    then show ?thesis using handle_switch_advances assms by (auto simp: build_stmt_def loop_kinds_def)
  next
    case 5
    then obtain nested st1 where
      1: "rec exit ls (children g (node_id s)) st = Some (nested, st1)"
      and nb: "new_block NormalBlock (add_edge cur nested Fallthrough st1) = (b, st')"
      using assms(1) by (auto simp: build_stmt_def loop_kinds_def bind_eq_Some_conv)
    from rec_advances [OF 1 st(1,2)] have a1: "advances st (walk (children g (node_id s))) st1"
      and "nested \<in> ids st1" by auto
    then have "advances st (walk (children g (node_id s))) (add_edge cur nested Fallthrough st1)"
      using st(3) by (auto intro!: advances_add_edge [OF a1] dest: advances_ids)
    from advances_new_block [OF this nb] show ?thesis using 5
      by (simp add: stmt_walk_def own_stmts_def sub_sequences_def Let_def loop_kinds_def)
  next
    case 6
    then show ?thesis using handle_jump_advances [of exit ls s cur st b st'] assms
      by (auto simp: build_stmt_def stmt_walk_def own_stmts_def sub_sequences_def Let_def loop_kinds_def)
  next
    case 7
    then have "st' = add_stmt cur s st" "b = cur" using assms(1) by (auto simp: build_stmt_def)
    moreover have "stmt_walk walk g s = {#s#}"
      using 7 by (simp add: stmt_walk_def own_stmts_def sub_sequences_def Let_def)
    ultimately show ?thesis using advances_add_stmt [OF advances_refl [OF st(1)] st(3)] st(3) by simp
  qed
qed

lemma build_stmts_advance:
  assumes "opt_fold (build_stmt rec g exit ls) ss (cur, st1) = Some (b, st')"
    and "advances st m st1" "targets_ok st1 exit ls" "cur \<in> ids st1"
  shows "advances st (m + (\<Sum>s \<leftarrow> ss. stmt_walk walk g s)) st' \<and> ids st1 \<subseteq> ids st' \<and> b \<in> ids st'"
  using assms
proof (induction ss arbitrary: cur st1 m)
  case Nil
  then show ?case by simp
next
  case (Cons s ss)
  from Cons.prems(1) obtain cur2 st2 where
    2: "build_stmt rec g exit ls s (cur, st1) = Some (cur2, st2)"
    and rest: "opt_fold (build_stmt rec g exit ls) ss (cur2, st2) = Some (b, st')"
    by (auto simp: bind_eq_Some_conv)
  from build_stmt_advances [OF 2 advances_ok [OF Cons.prems(2)] Cons.prems(3,4)]
  have a2: "advances st1 (stmt_walk walk g s) st2" and "cur2 \<in> ids st2" by auto
  from Cons.IH [OF rest advances_trans [OF Cons.prems(2) a2] targets_ok_advances [OF Cons.prems(3) a2] this(2)]
  show ?case using a2 by (auto simp: advances_def ac_simps)
qed

lemma sequence_advances:
  assumes "build_block_sequence rec g exit ls ss st = Some (first, st')"
    and st: "builder_ok st" "targets_ok st exit ls"
  shows "advances st (\<Sum>s \<leftarrow> ss. stmt_walk walk g s) st' \<and> first \<in> ids st'"
proof -
  obtain first' st1 where nb: "new_block NormalBlock st = (first', st1)" by (cases "new_block NormalBlock st")
  from assms(1) nb obtain cur st2 where
    2: "opt_fold (build_stmt rec g exit ls) ss (first', st1) = Some (cur, st2)"
    and st': "st' = st2\<lparr>btails := dict_setdefault first' cur (btails st2)\<rparr>" and first: "first = first'"
    by (auto simp: build_block_sequence_def bind_eq_Some_conv)
  note a1 = advances_new_block [OF advances_refl [OF st(1)] nb]
  from build_stmts_advance [OF 2 a1(1) targets_ok_advances [OF st(2) a1(1)] a1(2)]
  have a2: "advances st (\<Sum>s \<leftarrow> ss. stmt_walk walk g s) st2" "first' \<in> ids st2" "cur \<in> ids st2"
    using a1(2) by auto
  from advances_trans [OF a2(1) builder_ok_tails [OF advances_ok [OF a2(1)] a2(2,3)]] a2(2)
  show ?thesis by (simp add: st' first ids_def)
qed

end

lemma seq_contract_step:
  assumes "seq_contract rec walk"
  shows "seq_contract (build_block_sequence rec g) (\<lambda>ss. \<Sum>s \<leftarrow> ss. stmt_walk walk g s)"
  by (rule seq_contract.intro) (simp add: builds_def seq_contract.sequence_advances [OF assms])

lemma seq_contract_build_seq: "seq_contract (build_seq d g) (flow_stmts d g)"
proof (induction d)
  case 0
  show ?case by (rule seq_contract.intro) (simp add: builds_def)
next
  case (Suc d)
  have "flow_stmts (Suc d) g = (\<lambda>ss. \<Sum>s \<leftarrow> ss. stmt_walk (flow_stmts d g) g s)" by (rule ext) simp
  then show ?case using seq_contract_step [OF Suc] by simp
qed

interpretation bs: seq_contract "build_seq d g" "flow_stmts d g" g for d g
  by (rule seq_contract_build_seq)

end
