(* ===== verification/Cfg_Prune.thy ===== *)
theory Cfg_Prune
  imports Cfg_Build_Props
begin

text \<open>
  From the builder's state to the graph \<open>build\<close> returns: the finished graph is closed and
  well-formed, pruning ends, keeps every statement and the reachability of the blocks it
  leaves, and removes every block it should.
\<close>

subsection \<open>Well-formed graphs\<close>

definition cfg_wf :: "cfg \<Rightarrow> bool" where
  "cfg_wf c \<longleftrightarrow> distinct (dict_keys (blocks c)) \<and> {Entry, Exit} \<subseteq> set (dict_keys (blocks c))
   \<and> (\<forall>p \<in> set (blocks c). block_id (snd p) = fst p \<and> (fst p \<in> {Entry, Exit} \<longrightarrow> statements (snd p) = []))
   \<and> (\<forall>e \<in> set (edges c). edge_source e \<in> set (dict_keys (blocks c)) - {Exit}
        \<and> edge_target e \<in> set (dict_keys (blocks c)) - {Entry})"

lemma cfg_wf_edge:
  "cfg_wf c \<Longrightarrow> e \<in> set (edges c) \<Longrightarrow>
    edge_source e \<in> set (dict_keys (blocks c)) \<and> edge_source e \<noteq> Exit
    \<and> edge_target e \<in> set (dict_keys (blocks c)) \<and> edge_target e \<noteq> Entry"
  by (auto simp: cfg_wf_def)

lemma cfg_wf_builder: "builder_ok st \<Longrightarrow> cfg_wf (bcfg st)"
  using ids_keys [of st] distinct_block_keys [of st] unfolding cfg_wf_def builder_ok_def by auto

lemma cfg_wf_add_edges:
  assumes "cfg_wf c" and "\<forall>e \<in> set es. edge_source e \<in> set (dict_keys (blocks c)) - {Exit}
      \<and> edge_target e \<in> set (dict_keys (blocks c)) - {Entry}"
  shows "cfg_wf (c\<lparr>edges := edges c @ es\<rparr>)"
  using assms by (auto simp: cfg_wf_def)

lemma init_builder_ok: "builder_ok (init_builder f)"
  by (simp add: builder_ok_def init_builder_def empty_cfg_def ids_def)

lemma goto_edge_target: "builder_ok st \<Longrightarrow> edge_target (goto_edge st p) \<in> insert Exit (ids st)"
  by (auto simp: goto_edge_def dict_get_default_def builder_ok_def dest!: map_of_SomeD
      split: prod.splits option.splits)

lemma finish_edges_ok:
  assumes "builder_ok st" and "entry \<in> ids st"
  shows "cfg_wf (finish_edges entry st) \<and> placed (finish_edges entry st) = placed (bcfg st)"
proof -
  let ?st1 = "add_edge Entry entry Fallthrough st"
  let ?tail = "tail_of ?st1 entry"
  define st2 where "st2 = (if successors (bcfg ?st1) ?tail = [] \<and> predecessors (bcfg ?st1) ?tail \<noteq> []
      then add_edge ?tail Exit ImplicitReturn ?st1 else ?st1)"
  have fin: "finish_edges entry st = (bcfg st2)\<lparr>edges := edges (bcfg st2) @ map (goto_edge st2) (bpending st2)\<rparr>"
    by (simp add: finish_edges_def Let_def st2_def)
  have a1: "advances st {#} ?st1" using assms by (auto intro!: advances_add_edge advances_refl)
  have "?tail \<in> ids ?st1" using tail_of_ids [OF advances_ok [OF a1]] assms(2) by simp
  then have a2: "advances st {#} st2"
    using a1 by (auto simp: st2_def intro!: advances_add_edge [OF a1])
  have ok2: "builder_ok st2" using advances_ok [OF a2] .
  have src: "edge_source (goto_edge st2 p) \<in> ids st2" if "p \<in> set (bpending st2)" for p
    using ok2 that by (cases p) (force simp: builder_ok_def goto_edge_def)
  have "\<forall>e \<in> set (map (goto_edge st2) (bpending st2)).
      edge_source e \<in> set (dict_keys (blocks (bcfg st2))) - {Exit}
      \<and> edge_target e \<in> set (dict_keys (blocks (bcfg st2))) - {Entry}"
  proof
    fix e
    assume "e \<in> set (map (goto_edge st2) (bpending st2))"
    then obtain p where p: "p \<in> set (bpending st2)" and e: "e = goto_edge st2 p" by auto
    have src: "edge_source e \<in> ids st2" using src p e by simp
    have tgt: "edge_target e \<in> insert Exit (ids st2)" using goto_edge_target [OF ok2] e by simp
    show "edge_source e \<in> set (dict_keys (blocks (bcfg st2))) - {Exit}
      \<and> edge_target e \<in> set (dict_keys (blocks (bcfg st2))) - {Entry}"
      unfolding ids_keys [OF ok2] using src tgt by auto
  qed
  from cfg_wf_add_edges [OF cfg_wf_builder [OF ok2] this] a2
  show ?thesis by (simp add: fin placed_def advances_def)
qed

lemma build_raw_ok:
  assumes "build_raw d g f = Some c"
  shows "cfg_wf c \<and> placed c = flow_stmts d g (body_statements g f)"
proof -
  from assms obtain entry st where
    1: "build_seq d g Exit [] (body_statements g f) (init_builder f) = Some (entry, st)"
    and c: "c = finish_edges entry st" by (auto simp: build_raw_def bind_eq_Some_conv)
  have "targets_ok (init_builder f) Exit []" by (simp add: targets_ok_def)
  from bs.rec_advances [OF 1 init_builder_ok this]
  have a: "advances (init_builder f) (flow_stmts d g (body_statements g f)) st" "entry \<in> ids st" by auto
  have "placed (bcfg (init_builder f)) = {#}" by (simp add: placed_def init_builder_def empty_cfg_def)
  with a(1) finish_edges_ok [OF advances_ok [OF a(1)] a(2)] show ?thesis by (simp add: c advances_def)
qed

subsection \<open>Pruning\<close>

text \<open>A block the pass removes.\<close>

definition prunable :: "cfg \<Rightarrow> bid \<Rightarrow> bool" where
  "prunable c b \<longleftrightarrow> b \<notin> {Entry, Exit} \<and> (\<exists>blk. map_of (blocks c) b = Some blk \<and> statements blk = [])
     \<and> (\<exists>e. successors c b = [e] \<and> edge_kind e = Fallthrough \<and> edge_target e \<noteq> b)"

definition prune_at :: "bid \<Rightarrow> cfg \<Rightarrow> cfg" where
  "prune_at b c = c\<lparr>edges := filter (\<lambda>e'. edge_source e' \<noteq> b)
       (map (retarget b (edge_target (hd (successors c b)))) (edges c)), blocks := dict_del b (blocks c)\<rparr>"

lemma prune_block_cases:
  "prune_block b (c, ch) = (if prunable c b then (prune_at b c, True) else (c, ch))"
  by (auto simp: prune_block_def prunable_def prune_at_def split: option.splits list.splits)

text \<open>What one or more removals keep.\<close>

definition prunes :: "cfg \<Rightarrow> cfg \<Rightarrow> bool" where
  "prunes c c' \<longleftrightarrow> cfg_wf c' \<and> placed c' = placed c \<and> function_node_id c' = function_node_id c
   \<and> (\<forall>b \<in> set (dict_keys (blocks c')). map_of (blocks c') b = map_of (blocks c) b
        \<and> (reachable c' b \<longleftrightarrow> reachable c b))
   \<and> (\<forall>b blk. map_of (blocks c) b = Some blk \<and> statements blk \<noteq> [] \<longrightarrow> b \<in> set (dict_keys (blocks c')))"

lemma prunes_refl: "cfg_wf c \<Longrightarrow> prunes c c"
  by (auto simp: prunes_def dest: map_of_Some_dict_keys)

lemma prunes_keys: "prunes c c' \<Longrightarrow> set (dict_keys (blocks c')) \<subseteq> set (dict_keys (blocks c))"
  by (auto simp: prunes_def) (metis map_of_None_dict_keys)

lemma prunes_trans:
  assumes 1: "prunes c c'" and 2: "prunes c' c''"
  shows "prunes c c''"
proof -
  have "map_of (blocks c'') b = map_of (blocks c) b \<and> (reachable c'' b \<longleftrightarrow> reachable c b)"
    if "b \<in> set (dict_keys (blocks c''))" for b
    using 1 2 that prunes_keys [OF 2] unfolding prunes_def by auto
  moreover have "b \<in> set (dict_keys (blocks c''))" if "map_of (blocks c) b = Some blk" "statements blk \<noteq> []" for b blk
  proof -
    have "b \<in> set (dict_keys (blocks c'))" using 1 that unfolding prunes_def by blast
    moreover from this have "map_of (blocks c') b = Some blk" using 1 that(1) unfolding prunes_def by simp
    ultimately show ?thesis using 2 that(2) unfolding prunes_def by blast
  qed
  ultimately show ?thesis using 1 2 unfolding prunes_def by auto
qed

lemma retarget_simps [simp]:
  "edge_source (retarget b t e) = edge_source e"
  "edge_target (retarget b t e) = (if edge_target e = b then t else edge_target e)"
  by (simp_all add: retarget_def)

lemma edge_rel_prune_at:
  assumes "successors c b = [e]" and "edge_target e = t"
  shows "edge_rel (prune_at b c) = (\<lambda>(u, v). (u, if v = b then t else v)) ` {(u, v) \<in> edge_rel c. u \<noteq> b}"
proof -
  have "edge_rel (prune_at b c)
      = (\<lambda>e. (edge_source e, if edge_target e = b then t else edge_target e)) ` {e \<in> set (edges c). edge_source e \<noteq> b}"
    using assms by (simp add: edge_rel_def prune_at_def filter_map comp_def image_image)
  also have "\<dots> = (\<lambda>(u, v). (u, if v = b then t else v)) ` ((\<lambda>e. (edge_source e, edge_target e)) ` {e \<in> set (edges c). edge_source e \<noteq> b})"
    by (simp add: image_image)
  also have "(\<lambda>e. (edge_source e, edge_target e)) ` {e \<in> set (edges c). edge_source e \<noteq> b} = {(u, v) \<in> edge_rel c. u \<noteq> b}"
    by (auto simp: edge_rel_def)
  finally show ?thesis .
qed

lemma reachable_prune_at:
  assumes "successors c b = [e]" and "edge_target e \<noteq> b" and "b \<noteq> Entry" and "x \<noteq> b"
  shows "reachable (prune_at b c) x \<longleftrightarrow> reachable c x"
proof -
  let ?t = "edge_target e" and ?E = "edge_rel c" and ?E' = "edge_rel (prune_at b c)"
  let ?h = "\<lambda>v. if v = b then ?t else v"
  have E': "?E' = (\<lambda>(u, v). (u, ?h v)) ` {(u, v) \<in> ?E. u \<noteq> b}"
    by (rule edge_rel_prune_at [OF assms(1) refl])
  have bt: "(b, v) \<in> ?E \<longleftrightarrow> v = ?t" for v
    using assms(1) by (simp add: edge_rel_succ)
  have "(?h u, ?h v) \<in> ?E'\<^sup>*" if "(u, v) \<in> ?E\<^sup>*" for u v
    using that
  proof (induction rule: rtrancl_induct)
    case base
    then show ?case by simp
  next
    case (step v w)
    have "(?h v, ?h w) \<in> ?E'\<^sup>*"
    proof (cases "v = b")
      case True
      then show ?thesis using step.hyps(2) assms(2) by (simp add: bt)
    next
      case False
      then have "(v, ?h w) \<in> ?E'" using step.hyps(2) unfolding E'
        by (intro image_eqI [where x = "(v, w)"]) auto
      then show ?thesis using False by simp
    qed
    with step.IH show ?case by (rule rtrancl_trans)
  qed
  from this [of Entry x] have "(Entry, x) \<in> ?E\<^sup>* \<Longrightarrow> (Entry, x) \<in> ?E'\<^sup>*" using assms(3,4) by simp
  moreover have "?E' \<subseteq> ?E\<^sup>+"
  proof
    fix p
    assume "p \<in> ?E'"
    then obtain u v where uv: "(u, v) \<in> ?E" and p: "p = (u, ?h v)" unfolding E' by auto
    have "(b, ?t) \<in> ?E" by (simp add: bt)
    then have "(u, ?t) \<in> ?E\<^sup>+" if "v = b"
      using uv that by (blast intro: trancl_into_trancl)
    then show "p \<in> ?E\<^sup>+" using uv p by auto
  qed
  then have "?E'\<^sup>* \<subseteq> ?E\<^sup>*" using rtrancl_mono [of ?E' "?E\<^sup>+"] by (simp add: trancl_rtrancl_absorb)
  ultimately show ?thesis unfolding reachable_def by blast
qed

lemma placed_dict_del:
  assumes "distinct (dict_keys d)" and "map_of d b = Some blk" and "statements blk = []"
  shows "(\<Sum>p \<leftarrow> dict_del b d. mset (statements (snd p))) = (\<Sum>p \<leftarrow> d. mset (statements (snd p)))"
  using assms
proof (induction d)
  case Nil
  then show ?case by simp
next
  case (Cons p d)
  show ?case
  proof (cases "fst p = b")
    case True
    then have "b \<notin> fst ` set d" using Cons.prems(1) by (auto simp: dict_keys_def)
    then have "filter (\<lambda>p. fst p \<noteq> b) d = d" by (intro filter_True) force
    then show ?thesis using True Cons.prems(2,3) by (auto simp: dict_del_filter split: if_splits)
  next
    case False
    then show ?thesis using Cons by (auto simp: dict_del_filter)
  qed
qed

lemma cfg_wf_prune_at:
  assumes "cfg_wf c" and "successors c b = [e]" and "edge_target e \<noteq> b" and "b \<notin> {Entry, Exit}"
  shows "cfg_wf (prune_at b c)"
proof -
  have "e \<in> set (edges c)"
    using arg_cong [OF assms(2), of set] by (auto simp: successors_def)
  from cfg_wf_edge [OF assms(1) this] have t: "edge_target e \<in> set (dict_keys (blocks c))" "edge_target e \<noteq> Entry"
    by auto
  have keys: "dict_keys (blocks (prune_at b c)) = removeAll b (dict_keys (blocks c))"
    by (simp add: prune_at_def)
  have edge: "\<exists>e0 \<in> set (edges c). edge_source e' = edge_source e0 \<and> edge_source e0 \<noteq> b
      \<and> edge_target e' = (if edge_target e0 = b then edge_target e else edge_target e0)"
    if "e' \<in> set (edges (prune_at b c))" for e'
    using that assms(2) by (auto simp: prune_at_def)
  have "edge_source e' \<in> set (removeAll b (dict_keys (blocks c))) - {Exit}
      \<and> edge_target e' \<in> set (removeAll b (dict_keys (blocks c))) - {Entry}"
    if "e' \<in> set (edges (prune_at b c))" for e'
  proof -
    from edge [OF that] obtain e0 where e0: "e0 \<in> set (edges c)" "edge_source e' = edge_source e0"
      "edge_source e0 \<noteq> b" "edge_target e' = (if edge_target e0 = b then edge_target e else edge_target e0)" by blast
    then show ?thesis using cfg_wf_edge [OF assms(1) e0(1)] t assms(3) by auto
  qed
  moreover have "set (blocks (prune_at b c)) \<subseteq> set (blocks c)"
    by (auto simp: prune_at_def dict_del_filter)
  ultimately show ?thesis using assms(1,4) unfolding cfg_wf_def keys by (auto simp: distinct_removeAll)
qed

lemma prunes_prune_at:
  assumes "cfg_wf c" and "prunable c b"
  shows "prunes c (prune_at b c)"
proof -
  from assms(2) obtain blk e where b: "b \<notin> {Entry, Exit}" "map_of (blocks c) b = Some blk" "statements blk = []"
    "successors c b = [e]" "edge_target e \<noteq> b" by (auto simp: prunable_def)
  have "placed (prune_at b c) = placed c"
    using placed_dict_del [OF _ b(2,3)] assms(1) by (simp add: placed_def prune_at_def cfg_wf_def)
  moreover have "map_of (blocks (prune_at b c)) x = map_of (blocks c) x \<and> (reachable (prune_at b c) x \<longleftrightarrow> reachable c x)"
    if "x \<in> set (dict_keys (blocks (prune_at b c)))" for x
  proof -
    from that have "x \<noteq> b" by (simp add: prune_at_def)
    then show ?thesis using reachable_prune_at [OF b(4,5)] b(1) by (simp add: prune_at_def)
  qed
  moreover have "function_node_id (prune_at b c) = function_node_id c" by (simp add: prune_at_def)
  moreover have "x \<in> set (dict_keys (blocks (prune_at b c)))"
    if "map_of (blocks c) x = Some blk'" "statements blk' \<noteq> []" for x blk'
    using that b(2,3) by (auto simp: prune_at_def dest: map_of_Some_dict_keys)
  ultimately show ?thesis using cfg_wf_prune_at [OF assms(1) b(4,5,1)] unfolding prunes_def by blast
qed

lemma prune_fold:
  "cfg_wf c \<Longrightarrow> fold prune_block bs (c, ch) = (c', ch') \<Longrightarrow> prunes c c'
    \<and> (\<not> ch' \<longrightarrow> c' = c \<and> (\<forall>b \<in> set bs. \<not> prunable c b))
    \<and> (ch' \<longrightarrow> ch \<or> length (blocks c') < length (blocks c)) \<and> length (blocks c') \<le> length (blocks c)
    \<and> (ch \<longrightarrow> ch')"
proof (induction bs arbitrary: c ch)
  case Nil
  then show ?case by (auto simp: prunes_refl)
next
  case (Cons b bs)
  show ?case
  proof (cases "prunable c b")
    case True
    then have 1: "prunes c (prune_at b c)" by (rule prunes_prune_at [OF Cons.prems(1)])
    have "b \<in> set (dict_keys (blocks c))" using True by (auto simp: prunable_def dest: map_of_Some_dict_keys)
    then have len: "length (blocks (prune_at b c)) < length (blocks c)"
      by (auto simp: prune_at_def dict_del_filter dict_keys_def intro!: length_filter_less)
    have "fold prune_block bs (prune_at b c, True) = (c', ch')"
      using Cons.prems(2) True by (simp add: prune_block_cases)
    moreover have "cfg_wf (prune_at b c)" using 1 by (simp add: prunes_def)
    ultimately have IH: "prunes (prune_at b c) c'" "length (blocks c') \<le> length (blocks (prune_at b c))" ch'
      using Cons.IH by blast+
    then show ?thesis using prunes_trans [OF 1 IH(1)] len by simp
  next
    case False
    then have "fold prune_block bs (c, ch) = (c', ch')" using Cons.prems(2) by (simp add: prune_block_cases)
    from Cons.IH [OF Cons.prems(1) this] False show ?thesis by auto
  qed
qed

lemma prune_total: "\<exists>c'. prune_empty_pass_through_blocks c = Some c'"
  if "cfg_wf c"
  unfolding prune_empty_pass_through_blocks_def
proof (rule sweep_loop_total [where I = cfg_wf and m = "\<lambda>c. length (blocks c)"])
  show "cfg_wf c" by (rule that)
  show "cfg_wf s'" if "cfg_wf s" "prune_sweep s = (s', ch)" for s s' ch
    using prune_fold [of s] that unfolding prune_sweep_def prunes_def by blast
  show "length (blocks s') < length (blocks s)" if "cfg_wf s" "prune_sweep s = (s', True)" for s s'
    using prune_fold [of s] that unfolding prune_sweep_def by blast
qed

lemma prune_result:
  assumes "cfg_wf c" and "prune_empty_pass_through_blocks c = Some c'"
  shows "prunes c c' \<and> (\<forall>b. \<not> prunable c' b)"
proof -
  have step: "prunes c s'" if "prunes c s" "prune_sweep s = (s', ch)" for s s' ch
  proof -
    have "prunes s s'" using prune_fold [of s] that unfolding prune_sweep_def prunes_def by blast
    with that(1) show ?thesis by (rule prunes_trans)
  qed
  from sweep_loop_result [of prune_sweep c c' "prunes c"] assms(2) prunes_refl [OF assms(1)] step
  obtain u where 1: "prunes c c'" and u: "prunes c u" "prune_sweep u = (c', False)"
    unfolding prune_empty_pass_through_blocks_def by blast
  have "c' = u \<and> (\<forall>b \<in> set (dict_keys (blocks u)). \<not> prunable u b)"
    using prune_fold [of u] u unfolding prune_sweep_def prunes_def by blast
  then have "\<not> prunable c' b" for b
    by (auto simp: prunable_def dest: map_of_Some_dict_keys)
  with 1 show ?thesis by blast
qed

subsection \<open>The recursion limit\<close>

lemma case_groups_set:
  "(c, grp') \<in> set (case_groups ss cur grp) \<Longrightarrow>
    set (c # grp') \<subseteq> set ss \<union> set_option cur \<union> set grp"
  by (induction ss cur grp arbitrary: c grp' rule: case_groups.induct)
    (auto split: option.splits if_splits)

lemma as_sequence_rank:
  assumes "ranked g r" and "n \<in> set (children g i)" and "x \<in> set (as_sequence g n)"
  shows "r (node_id x) < r i"
proof (cases "x = n")
  case True
  then show ?thesis using ranked_child [OF assms(1,2)] by simp
next
  case False
  then have "x \<in> set (children g (node_id n))"
    using assms(3) by (simp add: as_sequence_def split: if_splits)
  from ranked_child [OF assms(1) this] ranked_child [OF assms(1,2)] show ?thesis by simp
qed

lemma sub_sequences_cases:
  assumes "ss \<in> set (sub_sequences g s)"
  shows "(\<exists>n \<in> set (children g (node_id s)). ss = as_sequence g n)
    \<or> (\<exists>body \<in> set (children g (node_id s)). \<exists>c grp.
         (c, grp) \<in> set (case_groups (children g (node_id body)) None []) \<and> ss = c # grp)
    \<or> ss = children g (node_id s)"
proof (cases "node_kind s = ''SwitchStmt''")
  case True
  let ?bodies = "filter (\<lambda>c. node_kind c = ''CompoundStmt'') (children g (node_id s))"
  show ?thesis
  proof (cases ?bodies)
    case Nil
    then show ?thesis using True assms by (simp add: sub_sequences_def loop_kinds_def Let_def)
  next
    case (Cons body rest)
    have "body \<in> set ?bodies" unfolding Cons by simp
    then have "body \<in> set (children g (node_id s))" by simp
    moreover have "ss \<in> set (map (\<lambda>(c, grp). c # grp) (case_groups (children g (node_id body)) None []))"
      using True assms Cons by (simp add: sub_sequences_def loop_kinds_def Let_def)
    ultimately show ?thesis by auto
  qed
next
  case False
  then show ?thesis using assms by (auto simp: sub_sequences_def Let_def split: if_splits)
qed

lemma sub_sequences_rank:
  assumes "ranked g r" and "ss \<in> set (sub_sequences g s)" and "x \<in> set ss"
  shows "r (node_id x) < r (node_id s)"
proof -
  let ?cs = "children g (node_id s)"
  consider n where "n \<in> set ?cs" "ss = as_sequence g n"
    | body c grp where "body \<in> set ?cs" "(c, grp) \<in> set (case_groups (children g (node_id body)) None [])" "ss = c # grp"
    | "ss = ?cs"
    using sub_sequences_cases [OF assms(2)] by blast
  then show ?thesis
  proof cases
    case 1
    then show ?thesis using as_sequence_rank [OF assms(1)] assms(3) by blast
  next
    case 2
    then have "x \<in> set (children g (node_id body))" using case_groups_set [OF 2(2)] assms(3) by auto
    from ranked_child [OF assms(1) this] ranked_child [OF assms(1) 2(1)] show ?thesis by simp
  next
    case 3
    then show ?thesis using ranked_child [OF assms(1)] assms(3) by blast
  qed
qed

text \<open>A builder that returns on every list with property \<open>P\<close>.\<close>

definition returns_on :: "seq_builder \<Rightarrow> (ast_node list \<Rightarrow> bool) \<Rightarrow> bool" where
  "returns_on rec P \<longleftrightarrow> (\<forall>exit ls ss st. P ss \<longrightarrow> rec exit ls ss st \<noteq> None)"

lemma returns_onE: "returns_on rec P \<Longrightarrow> P ss \<Longrightarrow> \<exists>b st'. rec exit ls ss st = Some (b, st')"
  unfolding returns_on_def by (metis not_Some_eq surj_pair)

lemma link_sequence_returns [opt_intro]:
  "returns_on rec P \<Longrightarrow> P (as_sequence g n) \<Longrightarrow> \<exists>st'. link_sequence rec g exit ls a k n t k' st = Some st'"
  using returns_onE [of rec P "as_sequence g n" exit ls st]
  by (auto simp: link_sequence_def as_sequence_entry_def as_sequence_def Let_def split: if_splits)

lemma switch_groups_return:
  assumes "returns_on rec P" and "\<forall>(c, grp) \<in> set groups. P (c # grp)"
  shows "\<exists>prev st'. opt_fold (switch_group rec exit ls sw) groups (prev0, st) = Some (prev, st')"
proof -
  have "\<exists>s'. switch_group rec exit ls sw cg ps = Some s'" if "cg \<in> set groups" for cg ps
  proof -
    obtain c grp prev st where "cg = (c, grp)" "ps = (prev, st)" by (cases cg, cases ps)
    moreover from this that assms(2) have "P (c # grp)" by auto
    from returns_onE [OF assms(1) this, of exit ls st] obtain b st' where
      "rec exit ls (c # grp) st = Some (b, st')" by blast
    ultimately show ?thesis by (simp add: switch_group_def Let_def)
  qed
  from opt_fold_total [of groups "switch_group rec exit ls sw", OF this] show ?thesis by auto
qed

lemma build_stmt_returns:
  assumes "returns_on rec P" and "\<forall>ss \<in> set (sub_sequences g s). P ss"
  shows "\<exists>b st'. build_stmt rec g exit ls s (cur, st) = Some (b, st')"
proof -
  let ?cs = "children g (node_id s)"
  consider "node_kind s = ''LabelStmt''" | "node_kind s = ''IfStmt''" | "node_kind s \<in> set loop_kinds"
    | "node_kind s = ''SwitchStmt''" | "node_kind s = ''CompoundStmt''"
    | "node_kind s \<notin> {''LabelStmt'', ''IfStmt'', ''SwitchStmt'', ''CompoundStmt''} \<union> set loop_kinds"
    by auto
  then show ?thesis
  proof cases
    case 1
    then show ?thesis by (simp add: build_stmt_def)
  next
    case 2
    have br: "\<exists>st'. if_branch rec g exit ls cur join k
        (if i < length ?cs then Some (?cs ! i) else None) st = Some st'" if "i \<in> {1, 2}" for i join k st
      using assms(2) that 2 link_sequence_returns [OF assms(1)]
      by (auto simp: if_branch_def sub_sequences_def Let_def)
    obtain join st1 where nb: "new_block NormalBlock (add_stmt cur s st) = (join, st1)" by fastforce
    obtain st2 where st2: "if_branch rec g exit ls cur join TrueBranch
        (if 1 < length ?cs then Some (?cs ! 1) else None) st1 = Some st2" using br [of 1] by blast
    obtain st3 where st3: "if_branch rec g exit ls cur join FalseBranch
        (if 2 < length ?cs then Some (?cs ! 2) else None) st2 = Some st3" using br [of 2] by blast
    show ?thesis using 2 nb st2 st3
      by (simp add: build_stmt_def handle_if_def Let_def split del: if_split)
  next
    case 3
    have "P (as_sequence g (if node_kind s = ''DoStmt'' then hd ?cs else last ?cs))" if "?cs \<noteq> []"
      using assms(2) that 3 by (auto simp: sub_sequences_def Let_def loop_kinds_def)
    note lk = link_sequence_returns [OF assms(1) this]
    have "\<exists>b st'. handle_loop rec g exit ls s cur st = Some (b, st')"
    proof (cases "?cs = []")
      case True
      then show ?thesis by (auto simp: handle_loop_def Let_def split: prod.splits)
    next
      case False
      obtain h st1 where "new_block LoopHeader st = (h, st1)" by fastforce
      moreover obtain a st2 where "new_block NormalBlock (add_stmt h s st1) = (a, st2)" by fastforce
      ultimately show ?thesis using False
          lk [OF False, of exit "ls @ [(h, a)]" h
            "if node_kind s = ''DoStmt'' then Fallthrough else TrueBranch" h LoopBack "add_edge cur h Fallthrough st2"]
        by (auto simp: handle_loop_def Let_def split del: if_split)
    qed
    then show ?thesis using 3 by (auto simp: build_stmt_def loop_kinds_def)
  next
    case 4
    let ?bodies = "filter (\<lambda>c. node_kind c = ''CompoundStmt'') ?cs"
    have "\<exists>b st'. handle_switch rec g exit ls s cur st = Some (b, st')"
    proof (cases ?bodies)
      case Nil
      then show ?thesis by (auto simp: handle_switch_def Let_def split: prod.splits)
    next
      case (Cons body rest)
      let ?groups = "case_groups (children g (node_id body)) None []"
      have "\<forall>(c, grp) \<in> set ?groups. P (c # grp)"
        using assms(2) 4 Cons by (auto simp: sub_sequences_def Let_def loop_kinds_def)
      note sg = switch_groups_return [OF assms(1) this]
      obtain a st1 where "new_block NormalBlock (add_stmt cur s st) = (a, st1)" by fastforce
      then show ?thesis using Cons sg [of exit "ls @ [(cur, a)]" cur None st1]
        by (auto simp: handle_switch_def Let_def)
    qed
    then show ?thesis using 4 by (simp add: build_stmt_def loop_kinds_def)
  next
    case 5
    then have "P ?cs" using assms(2) by (simp add: sub_sequences_def Let_def loop_kinds_def)
    from returns_onE [OF assms(1) this, of exit ls st] obtain b st' where
      "rec exit ls ?cs st = Some (b, st')" by blast
    then show ?thesis using 5
      by (cases "new_block NormalBlock (add_edge cur b Fallthrough st')") (simp add: build_stmt_def loop_kinds_def)
  next
    case 6
    then show ?thesis by (cases "handle_jump exit ls s cur st") (auto simp: build_stmt_def)
  qed
qed

lemma sequence_returns:
  assumes "returns_on rec P" and "\<forall>s \<in> set ss. \<forall>ss' \<in> set (sub_sequences g s). P ss'"
  shows "\<exists>b st'. build_block_sequence rec g exit ls ss st = Some (b, st')"
proof -
  obtain first st1 where nb: "new_block NormalBlock st = (first, st1)" by fastforce
  have "\<exists>p'. build_stmt rec g exit ls s p = Some p'" if "s \<in> set ss" for s p
    using build_stmt_returns [OF assms(1), of g s exit ls "fst p" "snd p"] assms(2) that by auto
  from opt_fold_total [of ss "build_stmt rec g exit ls", OF this] obtain cur st2 where
    "opt_fold (build_stmt rec g exit ls) ss (first, st1) = Some (cur, st2)" by fastforce
  then show ?thesis using nb by (simp add: build_block_sequence_def)
qed

lemma build_seq_returns:
  assumes "ranked g r"
  shows "returns_on (build_seq (Suc d) g) (\<lambda>ss. \<forall>s \<in> set ss. r (node_id s) < d)"
proof (induction d)
  case 0
  have "returns_on (build_seq 0 g) (\<lambda>ss. False)" by (simp add: returns_on_def)
  from sequence_returns [OF this, of "[]" g] show ?case by (auto simp: returns_on_def)
next
  case (Suc d)
  have "\<exists>b st'. build_seq (Suc (Suc d)) g exit ls ss st = Some (b, st')"
    if "\<forall>s \<in> set ss. r (node_id s) < Suc d" for exit ls ss st
  proof -
    have "r (node_id x) < d" if "s \<in> set ss" "ss' \<in> set (sub_sequences g s)" "x \<in> set ss'" for s ss' x
      using sub_sequences_rank [OF assms that(2,3)] \<open>\<forall>s \<in> set ss. r (node_id s) < Suc d\<close> that(1) by fastforce
    then show ?thesis using sequence_returns [OF Suc] by simp
  qed
  then show ?case unfolding returns_on_def by (metis option.distinct(1))
qed

lemma body_statements_rank:
  assumes "ranked g r" and "s \<in> set (body_statements g f)"
  shows "r (node_id s) < r (node_id f)"
proof (cases "find (\<lambda>c. node_kind c = ''CompoundStmt'') (children g (node_id f))")
  case None
  then show ?thesis using assms ranked_child [OF assms(1)] by (simp add: body_statements_def)
next
  case (Some c)
  then have "c \<in> set (children g (node_id f))" by (auto simp: find_Some_iff)
  moreover have "s \<in> set (children g (node_id c))" using assms(2) Some by (simp add: body_statements_def)
  ultimately show ?thesis using ranked_child [OF assms(1)] by (meson less_trans)
qed

lemma build_raw_total:
  assumes "ranked g r" and "r (node_id f) < d"
  shows "\<exists>c. build_raw d g f = Some c"
proof -
  obtain d' where d: "d = Suc d'" using assms(2) by (cases d) auto
  have "\<forall>s \<in> set (body_statements g f). r (node_id s) < d'"
    using body_statements_rank [OF assms(1)] assms(2) d by fastforce
  from returns_onE [OF build_seq_returns [OF assms(1)] this, of Exit "[]" "init_builder f"]
  show ?thesis unfolding d build_raw_def by fastforce
qed

subsection \<open>The graph \<open>build\<close> returns\<close>

lemma build_cfg_cases:
  assumes "build_cfg d g f = Some c"
  obtains "body_statements g f = []" "c = (empty_cfg f)\<lparr>edges := [cfg_edge_of Entry Exit Fallthrough]\<rparr>"
  | raw where "body_statements g f \<noteq> []" "build_raw d g f = Some raw" "prune_empty_pass_through_blocks raw = Some c"
  using assms by (auto simp: build_cfg_def bind_eq_Some_conv split: if_splits)

lemma build_cfg_returns:
  assumes "ranked g r" and "r (node_id f) < d"
  shows "\<exists>c. build_cfg d g f = Some c"
proof -
  obtain raw where "build_raw d g f = Some raw" using build_raw_total [OF assms] by blast
  moreover obtain c where "prune_empty_pass_through_blocks raw = Some c"
    using prune_total build_raw_ok [OF calculation] by blast
  ultimately show ?thesis by (simp add: build_cfg_def)
qed

lemma build_cfg_ok:
  assumes "build_cfg d g f = Some c"
  shows "cfg_wf c" and "placed c = flow_stmts d g (body_statements g f)"
proof -
  have "cfg_wf c \<and> placed c = flow_stmts d g (body_statements g f)"
    using assms
  proof (cases rule: build_cfg_cases)
    case 1
    have "flow_stmts d g [] = {#}" by (cases d) simp_all
    with 1 show ?thesis by (simp add: cfg_wf_def empty_cfg_def placed_def)
  next
    case (2 raw)
    from build_raw_ok [OF 2(2)] prune_result [OF _ 2(3)] show ?thesis by (simp add: prunes_def)
  qed
  then show "cfg_wf c" and "placed c = flow_stmts d g (body_statements g f)" by auto
qed

subsection \<open>Properties\<close>

text \<open>
  C7: \<open>CFGEngine.build\<close> returns on every acyclic AST, given a recursion limit above the
  height of the function's tree; the graph it returns is well-formed: the block keys are
  distinct and name their blocks, the entry and the exit exist and hold no statements, no edge
  dangles, enters the entry or leaves the exit.
\<close>

theorem build_returns_wf:
  assumes "ranked g r" and "r (node_id f) < d"
  shows "\<exists>c. build_cfg d g f = Some c \<and> cfg_wf c"
  using build_cfg_returns [OF assms] build_cfg_ok(1) by blast

theorem build_returns_wf_witness:
  "\<exists>c. build_cfg 3 tiny_graph (bare_node ''f'' ''FunctionDecl'' [] [''c'']) = Some c \<and> cfg_wf c"
  by (rule build_returns_wf [OF tiny_graph_ranked]) (simp add: tiny_rank_def)


lemma tiny_build: "\<exists>c. build_cfg 3 tiny_graph (bare_node ''f'' ''FunctionDecl'' [] [''c'']) = Some c"
  by (rule build_cfg_returns [OF tiny_graph_ranked]) (simp add: tiny_rank_def)


text \<open>
  C16: \<open>_prune_empty_pass_through_blocks\<close> ends on every well-formed graph; it keeps
  well-formedness, all statements, the contents of the blocks it leaves and whether each of them
  is reachable, and no block that it should remove is left.
\<close>

theorem prune_keeps_reachability:
  assumes "cfg_wf c"
  shows "\<exists>c'. prune_empty_pass_through_blocks c = Some c' \<and> cfg_wf c' \<and> placed c' = placed c
    \<and> (\<forall>b \<in> set (dict_keys (blocks c')). map_of (blocks c') b = map_of (blocks c) b
         \<and> (reachable c' b \<longleftrightarrow> reachable c b))
    \<and> (\<forall>b. \<not> prunable c' b)"
  using prune_total [OF assms] prune_result [OF assms] unfolding prunes_def by blast

theorem prune_keeps_reachability_witness:
  "\<exists>c'. prune_empty_pass_through_blocks (bcfg (init_builder (bare_node ''f'' ''FunctionDecl'' [] []))) = Some c'
    \<and> cfg_wf c'"
  using prune_keeps_reachability [OF cfg_wf_builder [OF init_builder_ok]] by blast

end
