(* ===== verification/Cfg_Flow.thy ===== *)
theory Cfg_Flow
  imports Cfg_Prune
begin

text \<open>
  What a control-flow graph is for: an execution semantics of statement lists, with
  nondeterministic conditions, and the proof that every statement an execution visits lies in
  a block the graph reports reachable.  The contract of the sequence builder is extended by a
  frame condition and this soundness condition.
\<close>

subsection \<open>Executions of statement lists\<close>

text \<open>
  How an execution leaves a statement; \<open>Running\<close> stands for being stopped anywhere, so
  that executions that never end are covered by their prefixes.
\<close>

datatype outcome = Running | Falls | Breaks | Continues | Returns

definition control_kinds :: "string list" where
  "control_kinds = [''IfStmt'', ''SwitchStmt'', ''CompoundStmt'', ''ReturnStmt'', ''BreakStmt'',
     ''ContinueStmt'', ''GotoStmt''] @ loop_kinds"

definition loop_body :: "ast_graph \<Rightarrow> ast_node \<Rightarrow> ast_node list" where
  "loop_body g s = (let cs = children g (node_id s) in
     as_sequence g (if node_kind s = ''DoStmt'' then hd cs else last cs))"

definition switch_bodies :: "ast_graph \<Rightarrow> ast_node \<Rightarrow> ast_node list" where
  "switch_bodies g s = filter (\<lambda>c. node_kind c = ''CompoundStmt'') (children g (node_id s))"

definition switch_groups :: "ast_graph \<Rightarrow> ast_node \<Rightarrow> (ast_node \<times> ast_node list) list" where
  "switch_groups g s = case_groups (children g (node_id (hd (switch_bodies g s)))) None []"

text \<open>
  \<open>runs g ss tr oc\<close>: executing \<open>ss\<close> may visit the statements \<open>tr\<close> and end with
  \<open>oc\<close>.  A \<open>goto\<close> is followed no further, and what comes after a bare nested block is
  not executed (the builder does not link it).
\<close>

inductive runs :: "ast_graph \<Rightarrow> ast_node list \<Rightarrow> ast_node list \<Rightarrow> outcome \<Rightarrow> bool"
  and run_stmt :: "ast_graph \<Rightarrow> ast_node \<Rightarrow> ast_node list \<Rightarrow> outcome \<Rightarrow> bool"
  and run_loop :: "ast_graph \<Rightarrow> ast_node \<Rightarrow> ast_node list \<Rightarrow> outcome \<Rightarrow> bool"
  for g :: ast_graph where
  run_stop: "runs g ss [] Running"
| run_nil: "runs g [] [] Falls"
| run_step: "run_stmt g s tr Falls \<Longrightarrow> runs g ss tr' oc \<Longrightarrow> runs g (s # ss) (tr @ tr') oc"
| run_leave: "run_stmt g s tr oc \<Longrightarrow> oc \<noteq> Falls \<Longrightarrow> runs g (s # ss) tr oc"
| run_plain: "node_kind s \<notin> set control_kinds \<Longrightarrow> run_stmt g s [s] Falls"
| run_return: "node_kind s = ''ReturnStmt'' \<Longrightarrow> run_stmt g s [s] Returns"
| run_break: "node_kind s = ''BreakStmt'' \<Longrightarrow> run_stmt g s [s] Breaks"
| run_continue: "node_kind s = ''ContinueStmt'' \<Longrightarrow> run_stmt g s [s] Continues"
| run_goto: "node_kind s = ''GotoStmt'' \<Longrightarrow> run_stmt g s [s] Running"
| run_then: "node_kind s = ''IfStmt'' \<Longrightarrow> 1 < length (children g (node_id s)) \<Longrightarrow>
    runs g (as_sequence g (children g (node_id s) ! 1)) tr oc \<Longrightarrow> run_stmt g s (s # tr) oc"
| run_else: "node_kind s = ''IfStmt'' \<Longrightarrow> 2 < length (children g (node_id s)) \<Longrightarrow>
    runs g (as_sequence g (children g (node_id s) ! 2)) tr oc \<Longrightarrow> run_stmt g s (s # tr) oc"
| run_skip: "node_kind s = ''IfStmt'' \<Longrightarrow> length (children g (node_id s)) \<le> 2 \<Longrightarrow> run_stmt g s [s] Falls"
| run_loop: "node_kind s \<in> set loop_kinds \<Longrightarrow> run_loop g s tr oc \<Longrightarrow> run_stmt g s tr oc"
| run_loop_exit: "run_loop g s [s] Falls"
| run_loop_iter: "children g (node_id s) \<noteq> [] \<Longrightarrow> runs g (loop_body g s) tr oc \<Longrightarrow>
    oc \<in> {Falls, Continues} \<Longrightarrow> run_loop g s tr' oc' \<Longrightarrow> run_loop g s (s # tr @ tr') oc'"
| run_loop_break: "children g (node_id s) \<noteq> [] \<Longrightarrow> runs g (loop_body g s) tr Breaks \<Longrightarrow>
    run_loop g s (s # tr) Falls"
| run_loop_leave: "children g (node_id s) \<noteq> [] \<Longrightarrow> runs g (loop_body g s) tr oc \<Longrightarrow>
    oc \<in> {Returns, Running} \<Longrightarrow> run_loop g s (s # tr) oc"
| run_switch: "node_kind s = ''SwitchStmt'' \<Longrightarrow> switch_bodies g s \<noteq> [] \<Longrightarrow>
    switch_groups g s = before @ after \<Longrightarrow>
    runs g (concat (map (\<lambda>(c, grp). c # grp) after)) tr oc \<Longrightarrow> after \<noteq> [] \<Longrightarrow>
    run_stmt g s (s # tr) (if oc = Breaks then Falls else oc)"
| run_no_match: "node_kind s = ''SwitchStmt'' \<Longrightarrow>
    switch_bodies g s = [] \<or> \<not> list_ex (\<lambda>(c, _). node_kind c = ''DefaultStmt'') (switch_groups g s) \<Longrightarrow>
    run_stmt g s [s] Falls"
| run_block: "node_kind s = ''CompoundStmt'' \<Longrightarrow> runs g (children g (node_id s)) tr oc \<Longrightarrow>
    run_stmt g s tr (if oc = Falls then Running else oc)"

inductive_cases runs_NilE: "runs g [] tr oc"
inductive_cases runs_ConsE: "runs g (s # ss) tr oc"
inductive_cases run_stmtE: "run_stmt g s tr oc"

lemma runs_append:
  assumes "runs g (xs @ ys) tr oc"
  shows "(runs g xs tr oc \<and> oc \<noteq> Falls) \<or> (\<exists>t1 t2. tr = t1 @ t2 \<and> runs g xs t1 Falls \<and> runs g ys t2 oc)"
  using assms
proof (induction xs arbitrary: tr)
  case Nil
  then show ?case by (auto intro: run_nil)
next
  case (Cons x xs)
  from Cons.prems have "runs g (x # (xs @ ys)) tr oc" by simp
  then consider "tr = []" "oc = Running"
    | t t' where "tr = t @ t'" "run_stmt g x t Falls" "runs g (xs @ ys) t' oc"
    | "run_stmt g x tr oc" "oc \<noteq> Falls"
    by (rule runs_ConsE)
  then show ?case
  proof cases
    case 1
    then have "runs g (x # xs) tr oc \<and> oc \<noteq> Falls" using run_stop [of g "x # xs"] by simp
    then show ?thesis ..
  next
    case (2 t t')
    from Cons.IH [OF 2(3)] show ?thesis
    proof
      assume "runs g xs t' oc \<and> oc \<noteq> Falls"
      then show ?thesis using run_step [OF 2(2)] 2(1) by blast
    next
      assume "\<exists>t1 t2. t' = t1 @ t2 \<and> runs g xs t1 Falls \<and> runs g ys t2 oc"
      then obtain t1 t2 where "t' = t1 @ t2" "runs g xs t1 Falls" "runs g ys t2 oc" by blast
      then show ?thesis using run_step [OF 2(2)] 2(1) by (metis append.assoc)
    qed
  next
    case 3
    then show ?thesis using run_leave by blast
  qed
qed

subsection \<open>The frame of a builder step\<close>

text \<open>
  Blocks and edges are only added; new edges leave new blocks or those in \<open>K\<close>; the tails
  of old sequences stay.
\<close>

definition grows :: "bid set \<Rightarrow> builder \<Rightarrow> builder \<Rightarrow> bool" where
  "grows K st st' \<longleftrightarrow> ids st \<subseteq> ids st'
   \<and> (\<exists>new. edges (bcfg st') = edges (bcfg st) @ new
        \<and> (\<forall>e \<in> set new. edge_source e \<in> K \<or> edge_source e \<notin> ids st))
   \<and> (\<forall>b. set (block_stmts st b) \<subseteq> set (block_stmts st' b))
   \<and> (\<forall>b \<in> ids st. map_of (btails st') b = map_of (btails st) b)"

lemma grows_refl [simp]: "grows K st st"
  by (simp add: grows_def)

lemma grows_mono: "grows K st st' \<Longrightarrow> K \<subseteq> K' \<Longrightarrow> grows K' st st'"
  unfolding grows_def by blast

lemma grows_trans:
  assumes 1: "grows K st st1" and 2: "grows K' st1 st2" and "K' \<inter> ids st \<subseteq> K"
  shows "grows K st st2"
proof -
  from 1 obtain n1 where n1: "edges (bcfg st1) = edges (bcfg st) @ n1"
    "\<forall>e \<in> set n1. edge_source e \<in> K \<or> edge_source e \<notin> ids st" unfolding grows_def by blast
  from 2 obtain n2 where n2: "edges (bcfg st2) = edges (bcfg st1) @ n2"
    "\<forall>e \<in> set n2. edge_source e \<in> K' \<or> edge_source e \<notin> ids st1" unfolding grows_def by blast
  have sub: "ids st \<subseteq> ids st1" using 1 by (simp add: grows_def)
  have "\<forall>e \<in> set (n1 @ n2). edge_source e \<in> K \<or> edge_source e \<notin> ids st"
    using n1(2) n2(2) sub assms(3) by auto
  then have "\<exists>new. edges (bcfg st2) = edges (bcfg st) @ new
      \<and> (\<forall>e \<in> set new. edge_source e \<in> K \<or> edge_source e \<notin> ids st)"
    using n1(1) n2(1) by (intro exI [of _ "n1 @ n2"]) simp
  moreover have "map_of (btails st2) b = map_of (btails st) b" if "b \<in> ids st" for b
    using 1 2 sub that unfolding grows_def by auto
  moreover have "set (block_stmts st b) \<subseteq> set (block_stmts st2 b)" for b
    using 1 2 unfolding grows_def by blast
  moreover have "ids st \<subseteq> ids st2" using 1 2 unfolding grows_def by blast
  ultimately show ?thesis unfolding grows_def by blast
qed

lemma grows_stmts: "grows K st st' \<Longrightarrow> s \<in> set (block_stmts st b) \<Longrightarrow> s \<in> set (block_stmts st' b)"
  unfolding grows_def by blast

text \<open>No edge that ends a case group leaves the block.\<close>

definition quiet :: "builder \<Rightarrow> bid \<Rightarrow> bool" where
  "quiet st b \<longleftrightarrow> (\<forall>e \<in> set (edges (bcfg st)). edge_source e = b \<longrightarrow>
     edge_kind e \<notin> {ReturnEdge, BreakEdge, GotoEdge})"

lemma quiet_terminates: "quiet st b \<Longrightarrow> \<not> terminates st b"
  by (auto simp: quiet_def terminates_def successors_def list_ex_iff)

lemma quiet_grows: "grows K st st' \<Longrightarrow> quiet st b \<Longrightarrow> b \<in> ids st - K \<Longrightarrow> quiet st' b"
  unfolding grows_def quiet_def by auto

lemma block_stmts_new_block:
  assumes "builder_ok st" and "new_block k st = (b, st')"
  shows "block_stmts st' = block_stmts st"
proof -
  let ?n = "Suc (bcounter st)"
  have "B ?n \<notin> set (dict_keys (blocks (bcfg st)))"
    by (simp add: ids_keys [OF assms(1)] ids_def image_iff)
  then have "map_of (blocks (bcfg st)) (B ?n) = None" by (simp add: map_of_None_dict_keys)
  then show ?thesis using assms(2) by (auto simp: new_block_def Let_def block_stmts_def fun_eq_iff)
qed

lemma new_block_grows:
  assumes "builder_ok st" and "new_block k st = (b, st')"
  shows "grows {} st st' \<and> quiet st' b \<and> map_of (btails st') b = None"
proof -
  have b: "b \<notin> ids st" using new_block_advances [OF assms] by simp
  have same: "edges (bcfg st') = edges (bcfg st)" "btails st' = btails st"
    using assms(2) by (auto simp: new_block_def Let_def)
  have "\<forall>e \<in> set (edges (bcfg st)). edge_source e \<noteq> b"
    using assms b by (auto simp: builder_ok_def new_block_def Let_def)
  moreover have "b \<notin> fst ` set (btails st)" using assms(1) b by (auto simp: builder_ok_def)
  ultimately show ?thesis
    using same block_stmts_new_block [OF assms] new_block_advances [OF assms]
    by (auto simp: grows_def quiet_def advances_def map_of_eq_None_iff)
qed

lemma add_edge_edges [simp]: "edges (bcfg (add_edge s t k st)) = edges (bcfg st) @ [cfg_edge_of s t k]"
  by (simp add: add_edge_def)

lemma add_edge_tails [simp]: "btails (add_edge s t k st) = btails st" "tail_of (add_edge s t k st) b = tail_of st b"
  by (simp_all add: add_edge_def tail_of_def)

lemma add_edge_stmts [simp]: "block_stmts (add_edge s t k st) = block_stmts st"
  by (simp add: add_edge_def block_stmts_def fun_eq_iff)

lemma add_edge_grows: "s \<in> K \<or> s \<notin> ids st \<Longrightarrow> grows K st (add_edge s t k st)"
  by (auto simp: grows_def)

lemma quiet_add_edge: "quiet st b \<Longrightarrow> s = b \<longrightarrow> k \<notin> {ReturnEdge, BreakEdge, GotoEdge} \<Longrightarrow> quiet (add_edge s t k st) b"
  by (auto simp: quiet_def)

lemma block_stmts_add_stmt:
  assumes "builder_ok st" and "b \<in> ids st"
  shows "block_stmts (add_stmt b s st) i = (if i = b then block_stmts st b @ [s] else block_stmts st i)"
proof -
  have "map_of (map (\<lambda>(i, blk). (i, if i = b then f blk else blk)) d) i
      = (case map_of d i of None \<Rightarrow> None | Some blk \<Rightarrow> Some (if i = b then f blk else blk))" for f and d :: "(bid, basic_block) dict"
    by (induction d) auto
  moreover have "map_of (blocks (bcfg st)) b \<noteq> None"
    using assms ids_keys [OF assms(1)] by (auto simp: map_of_None_dict_keys)
  ultimately show ?thesis by (auto simp: block_stmts_def add_stmt_def split: option.splits)
qed

lemma add_stmt_edges [simp]: "edges (bcfg (add_stmt b s st)) = edges (bcfg st)" "btails (add_stmt b s st) = btails st"
  by (simp_all add: add_stmt_def)

lemma add_stmt_grows: "builder_ok st \<Longrightarrow> b \<in> ids st \<Longrightarrow> grows K st (add_stmt b s st)"
  by (auto simp: grows_def block_stmts_add_stmt)

lemma quiet_add_stmt [simp]: "quiet (add_stmt b s st) i = quiet st i"
  by (simp add: quiet_def)

subsection \<open>Soundness of a builder step\<close>

definition cfg_stmts :: "cfg \<Rightarrow> bid \<Rightarrow> ast_node list" where
  "cfg_stmts c b = (case map_of (blocks c) b of None \<Rightarrow> [] | Some blk \<Rightarrow> statements blk)"

text \<open>A graph that contains everything built so far.\<close>

definition extends :: "cfg \<Rightarrow> builder \<Rightarrow> bool" where
  "extends c st \<longleftrightarrow> set (edges (bcfg st)) \<subseteq> set (edges c)
     \<and> (\<forall>b. set (block_stmts st b) \<subseteq> set (cfg_stmts c b))"

definition covered :: "cfg \<Rightarrow> ast_node \<Rightarrow> bool" where
  "covered c s \<longleftrightarrow> (\<exists>b. reachable c b \<and> s \<in> set (cfg_stmts c b))"

text \<open>The visited statements are covered, and where the execution goes on is reachable.\<close>

definition flows :: "cfg \<Rightarrow> loop_stack \<Rightarrow> ast_node list \<Rightarrow> outcome \<Rightarrow> bid \<Rightarrow> bool" where
  "flows c ls tr oc tail \<longleftrightarrow> (\<forall>s \<in> set tr. covered c s) \<and> (oc = Falls \<longrightarrow> reachable c tail)
     \<and> (oc = Breaks \<and> ls \<noteq> [] \<longrightarrow> reachable c (snd (last ls)))"

definition seq_flows :: "ast_graph \<Rightarrow> loop_stack \<Rightarrow> ast_node list \<Rightarrow> bid \<Rightarrow> bid \<Rightarrow> builder \<Rightarrow> bool" where
  "seq_flows g ls ss first tail st \<longleftrightarrow> (\<forall>c tr oc. runs g ss tr oc \<longrightarrow> extends c st \<longrightarrow> reachable c first
     \<longrightarrow> flows c ls tr oc tail)"

definition stmt_flows :: "ast_graph \<Rightarrow> loop_stack \<Rightarrow> ast_node \<Rightarrow> bid \<Rightarrow> bid \<Rightarrow> builder \<Rightarrow> bool" where
  "stmt_flows g ls s cur cur' st \<longleftrightarrow> (\<forall>c tr oc. run_stmt g s tr oc \<longrightarrow> extends c st \<longrightarrow> reachable c cur
     \<longrightarrow> flows c ls tr oc cur')"

lemma extends_grows: "extends c st' \<Longrightarrow> grows K st st' \<Longrightarrow> extends c st"
  unfolding extends_def grows_def by (metis Un_subset_iff order_trans set_append)

lemma reachable_edge: "reachable c a \<Longrightarrow> extends c st \<Longrightarrow> cfg_edge_of a b k \<in> set (edges (bcfg st)) \<Longrightarrow> reachable c b"
  unfolding reachable_def extends_def edge_rel_def
  by (rule rtrancl_into_rtrancl) (force intro: image_eqI [where x = "cfg_edge_of a b k"])+

lemma covered_block: "reachable c b \<Longrightarrow> extends c st \<Longrightarrow> s \<in> set (block_stmts st b) \<Longrightarrow> covered c s"
  unfolding covered_def extends_def by blast

lemma flows_Running [simp]: "flows c ls [] Running t"
  by (simp add: flows_def)

lemma flows_append: "flows c ls t1 Falls m \<Longrightarrow> flows c ls t2 oc t \<Longrightarrow> flows c ls (t1 @ t2) oc t"
  by (auto simp: flows_def)

lemma flows_Cons: "covered c s \<Longrightarrow> flows c ls tr oc t \<Longrightarrow> flows c ls (s # tr) oc t"
  by (auto simp: flows_def)

text \<open>Executions of a loop, from the loop body's contract.\<close>

lemma run_loop_flows:
  assumes "run_loop g s tr oc" and "covered c s" and "reachable c after"
    and "\<And>tr oc. children g (node_id s) \<noteq> [] \<Longrightarrow> runs g (loop_body g s) tr oc \<Longrightarrow> flows c ls' tr oc header"
  shows "flows c ls tr oc after"
proof -
  have "(runs g ss0 tr0 oc0 \<longrightarrow> True) \<and> (run_stmt g s0 tr1 oc1 \<longrightarrow> True) \<and>
      (run_loop g s tr oc \<longrightarrow> covered c s \<longrightarrow>
        (\<forall>tr oc. children g (node_id s) \<noteq> [] \<longrightarrow> runs g (loop_body g s) tr oc \<longrightarrow> flows c ls' tr oc header)
        \<longrightarrow> flows c ls tr oc after)" for ss0 tr0 oc0 s0 tr1 oc1
  proof (induction rule: runs_run_stmt_run_loop.induct)
    case (run_loop_exit s)
    then show ?case using assms(3) by (simp add: flows_def)
  next
    case (run_loop_iter s tr oc tr' oc')
    show ?case
    proof (intro impI)
      assume cov: "covered c s"
        and body: "\<forall>tr oc. children g (node_id s) \<noteq> [] \<longrightarrow> runs g (loop_body g s) tr oc \<longrightarrow> flows c ls' tr oc header"
      have f1: "flows c ls' tr oc header" using body run_loop_iter by blast
      have f2: "flows c ls tr' oc' after" using run_loop_iter cov body by blast
      show "flows c ls (s # tr @ tr') oc' after"
        using cov f1 f2 unfolding flows_def by auto
    qed
  next
    case (run_loop_break s tr)
    then show ?case using assms(3) by (auto simp: flows_def)
  next
    case (run_loop_leave s tr oc)
    then show ?case by (auto simp: flows_def)
  qed simp_all
  with assms show ?thesis by blast
qed

locale flow_contract = seq_contract rec walk g
    for rec :: seq_builder and walk :: "ast_node list \<Rightarrow> ast_node multiset" and g :: ast_graph +
  assumes rec_flow: "rec exit ls ss st = Some (first, st') \<Longrightarrow> builder_ok st \<Longrightarrow> targets_ok st exit ls \<Longrightarrow>
    grows {} st st' \<and> first \<notin> ids st \<and> tail_of st' first \<notin> ids st \<and> quiet st' (tail_of st' first)
    \<and> seq_flows g ls ss first (tail_of st' first) st'"
begin

lemma link_sequence_flow:
  assumes "link_sequence rec g exit ls a k n t k' st1 = Some st'"
    and ok: "builder_ok st1" "targets_ok st1 exit ls" "a \<in> ids st1" "t \<in> ids st1"
    and k: "{k, k'} \<inter> {ReturnEdge, BreakEdge, GotoEdge} = {}"
  shows "grows {a} st1 st' \<and> (\<forall>b \<in> ids st1. quiet st1 b \<longrightarrow> quiet st' b)
    \<and> (\<forall>c tr oc. runs g (as_sequence g n) tr oc \<longrightarrow> extends c st' \<longrightarrow> reachable c a \<longrightarrow> flows c ls tr oc t)"
proof -
  from assms(1) obtain entry st2 where
    2: "rec exit ls (as_sequence g n) st1 = Some (entry, st2)"
    and st': "st' = add_edge (tail_of st2 entry) t k' (add_edge a entry k st2)"
    by (auto simp: link_sequence_def as_sequence_entry_rec Let_def split: bind_splits)
  from rec_flow [OF 2 ok(1,2)] have r: "grows {} st1 st2" "tail_of st2 entry \<notin> ids st1"
    "seq_flows g ls (as_sequence g n) entry (tail_of st2 entry) st2" by auto
  have "grows {a} st2 (add_edge a entry k st2)" by (rule add_edge_grows) simp
  then have "grows {a} st1 (add_edge a entry k st2)"
    using grows_trans [OF grows_mono [OF r(1), of "{a}"]] by simp
  moreover have "grows {tail_of st2 entry} (add_edge a entry k st2) st'"
    unfolding st' by (rule add_edge_grows) simp
  ultimately have g: "grows {a} st1 st'" by (rule grows_trans) (use r(2) in auto)
  have q: "quiet st' b" if "b \<in> ids st1" "quiet st1 b" for b
    using quiet_grows [OF r(1) that(2)] that(1) k unfolding st' by (auto intro!: quiet_add_edge)
  have "flows c ls tr oc t" if run: "runs g (as_sequence g n) tr oc" and ext: "extends c st'" and a: "reachable c a"
    for c tr oc
  proof -
    have e2: "extends c st2" using ext unfolding st' by (auto simp: extends_def)
    have "reachable c entry" using reachable_edge [OF a ext, of entry k] by (simp add: st')
    with r(3) run e2 have f: "flows c ls tr oc (tail_of st2 entry)" by (simp add: seq_flows_def)
    moreover have "reachable c t" if "reachable c (tail_of st2 entry)"
      using reachable_edge [OF that ext, of t k'] by (simp add: st')
    ultimately show ?thesis by (simp add: flows_def)
  qed
  with g q show ?thesis by blast
qed

lemma handle_if_flow:
  assumes "handle_if rec g exit ls s cur st = Some (b, st')" and s: "node_kind s = ''IfStmt''"
    and st: "builder_ok st" "targets_ok st exit ls" "cur \<in> ids st"
  shows "grows {cur} st st' \<and> b \<notin> ids st \<and> quiet st' b \<and> stmt_flows g ls s cur b st'"
proof -
  let ?cs = "children g (node_id s)"
  let ?st1 = "add_stmt cur s st"
  define t where "t = (if length ?cs > 1 then Some (?cs ! 1) else None)"
  define e where "e = (if length ?cs > 2 then Some (?cs ! 2) else None)"
  obtain join st2 where nb: "new_block NormalBlock ?st1 = (join, st2)" by fastforce
  from assms(1) [unfolded handle_if_def Let_def, folded t_def e_def] nb obtain st3 where
    3: "if_branch rec g exit ls cur join TrueBranch t st2 = Some st3"
    and 4: "if_branch rec g exit ls cur join FalseBranch e st3 = Some st'" and b: "b = join"
    by (auto simp: bind_eq_Some_conv)
  have a1: "advances st {#s#} ?st1" using advances_add_stmt [OF advances_refl] st by auto
  note a2 = advances_new_block [OF a1 nb]
  have t2: "targets_ok st2 exit ls" using targets_ok_advances [OF st(2) a2(1)] .
  have c2: "cur \<in> ids st2" using advances_ids [OF a2(1) st(3)] .
  note a3 = if_branch_advances [OF 3 a2(1) t2 c2 a2(2)]
  have t3: "targets_ok st3 exit ls" using targets_ok_advances [OF st(2)] a3 by blast
  have c3: "cur \<in> ids st3" "join \<in> ids st3" using a3 c2 a2(2) by auto
  have step: "grows {cur} stx sty \<and> (\<forall>b \<in> ids stx. quiet stx b \<longrightarrow> quiet sty b)
      \<and> (\<forall>c. extends c sty \<longrightarrow> reachable c cur \<longrightarrow> (n = None \<longrightarrow> reachable c join)
          \<and> (\<forall>n' tr oc. n = Some n' \<longrightarrow> runs g (as_sequence g n') tr oc \<longrightarrow> flows c ls tr oc join))"
    if "if_branch rec g exit ls cur join k n stx = Some sty" "builder_ok stx" "targets_ok stx exit ls"
      "cur \<in> ids stx" "join \<in> ids stx" "k \<in> {TrueBranch, FalseBranch}" for k n stx sty
  proof (cases n)
    case None
    then have sty: "sty = add_edge cur join k stx" using that(1) by (simp add: if_branch_def)
    have "reachable c join" if "extends c sty" "reachable c cur" for c
      using reachable_edge [OF that(2,1), of join k] by (simp add: sty)
    then show ?thesis using that(6) None by (auto simp: sty intro!: add_edge_grows quiet_add_edge)
  next
    case (Some n')
    then have "link_sequence rec g exit ls cur k n' join Fallthrough stx = Some sty"
      using that(1) by (simp add: if_branch_def)
    from link_sequence_flow [OF this that(2-5)] that(6) Some show ?thesis by auto
  qed
  note s3 = step [OF 3 advances_ok [OF a2(1)] t2 c2 a2(2) insertI1]
    and s4 = step [OF 4 advances_ok [OF conjunct1 [OF a3]] t3 c3 insertI2 [OF insertI1]]
  note n2 = new_block_grows [OF advances_ok [OF a1] nb]
  have g1: "grows {cur} st ?st1" using add_stmt_grows st(1,3) by simp
  have g2: "grows {cur} st st2" using grows_trans [OF g1 conjunct1 [OF n2]] by simp
  have g3: "grows {cur} st st3" by (rule grows_trans [OF g2 conjunct1 [OF s3]]) simp_all
  have g4: "grows {cur} st st'" by (rule grows_trans [OF g3 conjunct1 [OF s4]]) simp_all
  have join: "join \<notin> ids st" using new_block_advances [OF advances_ok [OF a1] nb] by simp
  have q: "quiet st' join" using s3 s4 n2 a2(2) c3 by simp
  have "stmt_flows g ls s cur join st'"
    unfolding stmt_flows_def
  proof (intro allI impI)
    fix c tr oc
    assume run: "run_stmt g s tr oc" and ext: "extends c st'" and cur: "reachable c cur"
    have e3: "extends c st3" by (rule extends_grows [OF ext conjunct1 [OF s4]])
    have "s \<in> set (block_stmts ?st1 cur)" using block_stmts_add_stmt st by simp
    then have "s \<in> set (block_stmts st' cur)"
      using grows_stmts [OF conjunct1 [OF n2]] grows_stmts [OF conjunct1 [OF s3]] grows_stmts [OF conjunct1 [OF s4]]
      by blast
    then have cov: "covered c s" by (rule covered_block [OF cur ext])
    from run show "flows c ls tr oc join"
    proof (cases rule: run_stmt.cases)
      case (run_then t1)
      then have "flows c ls t1 oc join" using s3 e3 cur by (auto simp: t_def)
      then show ?thesis using cov run_then by (simp add: flows_Cons)
    next
      case (run_else t1)
      then have "flows c ls t1 oc join" using s4 ext cur by (auto simp: e_def)
      then show ?thesis using cov run_else by (simp add: flows_Cons)
    next
      case run_skip
      then have "reachable c join" using s4 ext cur by (auto simp: e_def)
      then show ?thesis using cov run_skip by (simp add: flows_def)
    qed (use s in \<open>auto simp: control_kinds_def loop_kinds_def\<close>)
  qed
  with g4 join q b show ?thesis by simp
qed

lemma handle_loop_flow:
  assumes "handle_loop rec g exit ls s cur st = Some (b, st')" and s: "node_kind s \<in> set loop_kinds"
    and st: "builder_ok st" "targets_ok st exit ls" "cur \<in> ids st"
  shows "grows {cur} st st' \<and> b \<notin> ids st \<and> quiet st' b \<and> stmt_flows g ls s cur b st'"
proof -
  let ?cs = "children g (node_id s)"
  define body where "body = (if ?cs = [] then None else Some (if node_kind s = ''DoStmt'' then hd ?cs else last ?cs))"
  define k where "k = (if node_kind s = ''DoStmt'' then Fallthrough else TrueBranch)"
  obtain header st1 where h: "new_block LoopHeader st = (header, st1)" by fastforce
  let ?st2 = "add_stmt header s st1"
  obtain after st3 where af: "new_block NormalBlock ?st2 = (after, st3)" by fastforce
  let ?st4 = "add_edge cur header Fallthrough st3" and ?ls = "ls @ [(header, after)]"
  from assms(1) [unfolded handle_loop_def Let_def, folded body_def k_def] h af obtain st5 where
    5: "(case body of None \<Rightarrow> Some ?st4
         | Some n \<Rightarrow> link_sequence rec g exit ?ls header k n header LoopBack ?st4) = Some st5"
    and st': "st' = add_edge header after FalseBranch st5" and b: "b = after"
    by (auto simp: bind_eq_Some_conv)
  note a1 = advances_new_block [OF advances_refl [OF st(1)] h]
  have a2: "advances st {#s#} ?st2" using advances_add_stmt [OF a1(1,2)] by simp
  note a3 = advances_new_block [OF a2 af]
  have in3: "header \<in> ids st3" "after \<in> ids st3" "cur \<in> ids st3" using a1 a3 st(3) by auto
  have a4: "advances st {#s#} ?st4" using in3 by (auto intro!: advances_add_edge [OF a3(1)])
  have t4: "targets_ok ?st4 exit ?ls"
    using targets_ok_advances [OF st(2) a4] in3 by (auto intro: targets_ok_snoc)
  have fresh: "header \<notin> ids st" "after \<notin> ids st"
    using new_block_advances [OF st(1) h] new_block_advances [OF advances_ok [OF a2] af] a1(3) by auto
  note n1 = new_block_grows [OF st(1) h] and n3 = new_block_grows [OF advances_ok [OF a2] af]
  have k_ok: "{k, LoopBack} \<inter> {ReturnEdge, BreakEdge, GotoEdge} = {}" by (simp add: k_def)
  have s5: "grows {header} ?st4 st5 \<and> (\<forall>b \<in> ids ?st4. quiet ?st4 b \<longrightarrow> quiet st5 b)
      \<and> (\<forall>c tr oc. ?cs \<noteq> [] \<longrightarrow> runs g (loop_body g s) tr oc \<longrightarrow> extends c st5 \<longrightarrow> reachable c header
          \<longrightarrow> flows c ?ls tr oc header)"
  proof (cases body)
    case None
    then show ?thesis using 5 by (auto simp: body_def split: if_splits)
  next
    case (Some n)
    then have "link_sequence rec g exit ?ls header k n header LoopBack ?st4 = Some st5" using 5 by simp
    note lk = link_sequence_flow [OF this advances_ok [OF a4] t4 _ _ k_ok]
    have "?cs \<noteq> [] \<Longrightarrow> loop_body g s = as_sequence g n"
      using Some by (auto simp: loop_body_def body_def Let_def)
    with lk in3 show ?thesis by auto
  qed
  have g1: "grows {} st ?st2"
    by (rule grows_trans [OF conjunct1 [OF n1] add_stmt_grows [OF advances_ok [OF a1(1)] a1(2), of "{}"]]) simp
  have g3: "grows {cur} st st3"
    by (rule grows_mono [OF grows_trans [OF g1 conjunct1 [OF n3]]]) simp_all
  have g4: "grows {cur} st ?st4" by (rule grows_trans [OF g3 add_edge_grows [of cur "{cur}"]]) simp_all
  have g5: "grows {cur} st st5" by (rule grows_trans [OF g4 conjunct1 [OF s5]]) (use fresh in auto)
  have g6: "grows {cur} st st'" unfolding st'
    by (rule grows_trans [OF g5 add_edge_grows [of header "{header}"]]) (use fresh in auto)
  have "quiet ?st4 after" using n3 by (auto intro!: quiet_add_edge)
  then have q: "quiet st' after" using s5 in3 unfolding st' by (auto intro!: quiet_add_edge)
  have "stmt_flows g ls s cur after st'"
    unfolding stmt_flows_def
  proof (intro allI impI)
    fix c tr oc
    assume run: "run_stmt g s tr oc" and ext: "extends c st'" and cur: "reachable c cur"
    have e5: "extends c st5" using ext unfolding st' by (auto simp: extends_def)
    have e4: "extends c ?st4" by (rule extends_grows [OF e5 conjunct1 [OF s5]])
    have header: "reachable c header" using reachable_edge [OF cur e4, of header Fallthrough] by simp
    have after: "reachable c after" using reachable_edge [OF header ext, of after FalseBranch] by (simp add: st')
    have "s \<in> set (block_stmts ?st2 header)" using block_stmts_add_stmt [OF advances_ok [OF a1(1)] a1(2)] by simp
    then have "s \<in> set (block_stmts st3 header)" by (rule grows_stmts [OF conjunct1 [OF n3]])
    then have "s \<in> set (block_stmts ?st4 header)" by simp
    then have cov: "covered c s" by (rule covered_block [OF header e4])
    from run s have "run_loop g s tr oc"
      by (cases rule: run_stmt.cases) (auto simp: control_kinds_def loop_kinds_def)
    then show "flows c ls tr oc after"
      by (rule run_loop_flows [OF _ cov after]) (use s5 e5 header in blast)
  qed
  with g6 fresh q b show ?thesis by simp
qed

lemma link_prev_grows:
  "grows (set_option prev) st (link_prev prev t k st)
   \<and> (k \<notin> {ReturnEdge, BreakEdge, GotoEdge} \<longrightarrow> quiet st b \<longrightarrow> quiet (link_prev prev t k st) b)
   \<and> tail_of (link_prev prev t k st) = tail_of st"
  by (auto simp: link_prev_def intro!: add_edge_grows quiet_add_edge split: option.split)

lemma switch_groups_flow:
  assumes "opt_fold (switch_group rec exit ls sw) groups (prev, st1) = Some (prev', st')"
    and "builder_ok st1" "targets_ok st1 exit ls" "sw \<in> ids st1" "set_option prev \<subseteq> ids st1"
  shows "grows ({sw} \<union> set_option prev) st1 st' \<and> (\<forall>b \<in> ids st1. quiet st1 b \<longrightarrow> quiet st' b)
    \<and> (if groups = [] then prev' = prev else \<exists>p. prev' = Some p \<and> p \<notin> ids st1 \<and> quiet st' p
         \<and> (\<forall>c tr oc before after. groups = before @ after \<longrightarrow> after \<noteq> [] \<longrightarrow>
              runs g (concat (map (\<lambda>(c, grp). c # grp) after)) tr oc \<longrightarrow> extends c st' \<longrightarrow> reachable c sw \<longrightarrow>
              flows c ls tr oc p))"
  using assms
proof (induction groups arbitrary: prev st1)
  case Nil
  then show ?case by auto
next
  case (Cons cg groups)
  obtain cs grp where cg: "cg = (cs, grp)" by (cases cg)
  define k where "k = (if node_kind cs = ''DefaultStmt'' then DefaultEdge else CaseEdge)"
  from Cons.prems(1) cg obtain entry st2 where
    2: "rec exit ls (cs # grp) st1 = Some (entry, st2)" by (auto simp: switch_group_def split: bind_splits)
  define tail where "tail = tail_of st2 entry"
  let ?st3 = "add_edge sw entry k st2" and ?link = "\<lambda>st. link_prev prev entry SwitchFallthrough st"
  let ?st4 = "?link ?st3"
  have tail4: "tail_of ?st4 entry = tail" using link_prev_grows by (simp add: tail_def)
  have "switch_group rec exit ls sw cg (prev, st1) = Some (Some (tail_of ?st4 entry), ?st4)"
    using 2 by (simp add: switch_group_def Let_def cg k_def split del: if_split)
  with Cons.prems(1) tail4 have rest:
    "opt_fold (switch_group rec exit ls sw) groups (Some tail, ?st4) = Some (prev', st')"
    by (simp split del: if_split)
  from rec_advances [OF 2 Cons.prems(2,3)] have a2: "advances st1 (walk (cs # grp)) st2" and entry: "entry \<in> ids st2"
    by auto
  have sub: "ids st1 \<subseteq> ids st2" using a2 by (simp add: advances_def)
  have a3: "advances st1 (walk (cs # grp)) ?st3"
    using sub Cons.prems(4) entry by (auto intro!: advances_add_edge [OF a2])
  have a4: "advances st1 (walk (cs # grp)) ?st4" "ids ?st4 = ids st2"
    using link_prev_advances [OF a3, of prev entry SwitchFallthrough] Cons.prems(5) sub entry by auto
  have tail_in: "tail \<in> ids ?st4" using tail_of_ids [OF advances_ok [OF a4(1)]] entry a4(2) tail4 by metis
  have t4: "targets_ok ?st4 exit ls" using Cons.prems(3) sub a4(2) by (auto simp: targets_ok_def)
  have "sw \<in> ids ?st4" "set_option (Some tail) \<subseteq> ids ?st4" using Cons.prems(4) sub a4(2) tail_in by auto
  note IH = Cons.IH [OF rest advances_ok [OF a4(1)] t4 this]
  from rec_flow [OF 2 Cons.prems(2,3)] have r: "grows {} st1 st2" "tail \<notin> ids st1" "quiet st2 tail"
    "seq_flows g ls (cs # grp) entry tail st2" by (auto simp: tail_def)
  have kk: "k \<notin> {ReturnEdge, BreakEdge, GotoEdge}" by (simp add: k_def)
  have g3: "grows {sw} st1 ?st3"
    by (rule grows_trans [OF grows_mono [OF r(1)] add_edge_grows [of sw "{sw}"]]) simp_all
  have g4: "grows ({sw} \<union> set_option prev) st1 ?st4"
    by (rule grows_trans [OF grows_mono [OF g3] conjunct1 [OF link_prev_grows]]) auto
  have g5: "grows ({sw} \<union> set_option prev) st1 st'"
    by (rule grows_trans [OF g4 conjunct1 [OF IH]]) (use r(2) in auto)
  have q4: "quiet ?st4 b" if "quiet st2 b" for b
    using link_prev_grows [of prev ?st3 entry SwitchFallthrough b] quiet_add_edge [OF that, of sw k entry] kk by simp
  have q5: "quiet st' b" if "b \<in> ids st1" "quiet st1 b" for b
  proof -
    have "quiet st2 b" using quiet_grows [OF r(1) that(2)] that(1) by simp
    then show ?thesis using q4 IH that(1) sub a4(2) by blast
  qed
  define p where "p = (if groups = [] then tail else the prev')"
  have p: "prev' = Some p" "p \<notin> ids st1" "quiet st' p"
  proof -
    show "prev' = Some p" using IH by (auto simp: p_def split: if_splits)
    show "p \<notin> ids st1" using IH r(2) sub a4(2) by (auto simp: p_def split: if_splits)
    show "quiet st' p" using IH q4 [OF r(3)] tail_in by (auto simp: p_def split: if_splits)
  qed
  have later: "flows c ls tr oc p"
    if "groups = before @ after" "after \<noteq> []" "runs g (concat (map (\<lambda>(c, grp). c # grp) after)) tr oc"
      "extends c st'" "reachable c sw" for c tr oc before after
    using IH that p(1) by (auto split: if_splits)
  have whole: "flows c ls tr oc p"
    if run: "runs g (concat (map (\<lambda>(c, grp). c # grp) (cg # groups))) tr oc"
      and ext: "extends c st'" and sw: "reachable c sw" for c tr oc
  proof -
    have e4: "extends c ?st4" by (rule extends_grows [OF ext conjunct1 [OF IH]])
    have e3: "extends c ?st3" by (rule extends_grows [OF e4 conjunct1 [OF link_prev_grows]])
    have e2: "extends c st2" using e3 by (auto simp: extends_def)
    have entry: "reachable c entry" using reachable_edge [OF sw e3, of entry k] by simp
    have first: "flows c ls tr oc tail" if "runs g (cs # grp) tr oc" for tr oc
      using r(4) that e2 entry by (simp add: seq_flows_def)
    have "runs g ((cs # grp) @ concat (map (\<lambda>(c, grp). c # grp) groups)) tr oc" using run cg by simp
    from runs_append [OF this] show ?thesis
    proof
      assume "runs g (cs # grp) tr oc \<and> oc \<noteq> Falls"
      then show ?thesis using first by (auto simp: flows_def)
    next
      assume "\<exists>t1 t2. tr = t1 @ t2 \<and> runs g (cs # grp) t1 Falls
          \<and> runs g (concat (map (\<lambda>(c, grp). c # grp) groups)) t2 oc"
      then obtain t1 t2 where t: "tr = t1 @ t2" "runs g (cs # grp) t1 Falls"
        "runs g (concat (map (\<lambda>(c, grp). c # grp) groups)) t2 oc" by blast
      show ?thesis
      proof (cases "groups = []")
        case True
        then have "t2 = [] \<and> oc \<in> {Running, Falls}" using t(3) by (auto elim: runs_NilE)
        then show ?thesis using first [OF t(2)] t(1) True by (auto simp: p_def flows_def)
      next
        case False
        from later [of "[]", OF _ False t(3) ext sw] first [OF t(2)] t(1)
        show ?thesis by (auto simp: flows_def)
      qed
    qed
  qed
  have "flows c ls tr oc p"
    if "cg # groups = before @ after" "after \<noteq> []" "runs g (concat (map (\<lambda>(c, grp). c # grp) after)) tr oc"
      "extends c st'" "reachable c sw" for c tr oc before after
    using that whole later by (cases before) auto
  with g5 q5 p show ?case by auto
qed

lemma handle_switch_flow:
  assumes "handle_switch rec g exit ls s cur st = Some (b, st')" and s: "node_kind s = ''SwitchStmt''"
    and st: "builder_ok st" "targets_ok st exit ls" "cur \<in> ids st"
  shows "grows {cur} st st' \<and> b \<notin> ids st \<and> quiet st' b \<and> stmt_flows g ls s cur b st'"
proof -
  let ?st1 = "add_stmt cur s st"
  obtain after st2 where af: "new_block NormalBlock ?st1 = (after, st2)" by fastforce
  let ?ls = "ls @ [(cur, after)]"
  have a1: "advances st {#s#} ?st1" using advances_add_stmt [OF advances_refl] st by auto
  note a2 = advances_new_block [OF a1 af] and n2 = new_block_grows [OF advances_ok [OF a1] af]
  have c2: "cur \<in> ids st2" using a2 st(3) by auto
  have fresh: "after \<notin> ids st" using new_block_advances [OF advances_ok [OF a1] af] by simp
  have t2: "targets_ok st2 exit ?ls"
    using targets_ok_advances [OF st(2) a2(1)] c2 a2(2) by (rule targets_ok_snoc)
  have g1: "grows {cur} st ?st1" using add_stmt_grows st(1,3) by simp
  have g2: "grows {cur} st st2" by (rule grows_trans [OF g1 conjunct1 [OF n2]]) simp
  have "s \<in> set (block_stmts ?st1 cur)" using block_stmts_add_stmt st by simp
  then have s2: "s \<in> set (block_stmts st2 cur)" by (rule grows_stmts [OF conjunct1 [OF n2]])
  have bodies: "filter (\<lambda>c. node_kind c = ''CompoundStmt'') (children g (node_id s)) = switch_bodies g s"
    by (simp add: switch_bodies_def)
  show ?thesis
  proof (cases "switch_bodies g s = []")
    case True
    then have st': "st' = add_edge cur after Fallthrough st2" "b = after"
      using assms(1) af by (auto simp: handle_switch_def Let_def bodies)
    have "grows {cur} st st'" unfolding st' by (rule grows_trans [OF g2 add_edge_grows [of cur "{cur}"]]) simp_all
    moreover have "quiet st' after" unfolding st' using n2 by (auto intro!: quiet_add_edge)
    moreover have "stmt_flows g ls s cur after st'"
      unfolding stmt_flows_def
    proof (intro allI impI)
      fix c tr oc
      assume run: "run_stmt g s tr oc" and ext: "extends c st'" and cur: "reachable c cur"
      have "covered c s" using covered_block [OF cur ext] s2 by (simp add: st')
      moreover have "reachable c after" using reachable_edge [OF cur ext, of after Fallthrough] by (simp add: st')
      moreover have "tr = [s]" "oc = Falls"
        using run s True by (auto elim!: run_stmtE simp: control_kinds_def loop_kinds_def)
      ultimately show "flows c ls tr oc after" by (simp add: flows_def)
    qed
    ultimately show ?thesis using fresh st' by simp
  next
    case False
    let ?groups = "switch_groups g s"
    from assms(1) af False obtain prev st3 where
      3: "opt_fold (switch_group rec exit ?ls cur) ?groups (None, st2) = Some (prev, st3)"
      and st': "st' = (if list_ex (\<lambda>(c, _). node_kind c = ''DefaultStmt'') ?groups
          then link_prev prev after Fallthrough st3
          else add_edge cur after NoMatch (link_prev prev after Fallthrough st3))" and b: "b = after"
      by (auto simp: handle_switch_def Let_def bodies switch_groups_def bind_eq_Some_conv)
    have s3: "grows {cur} st2 st3" "\<forall>b \<in> ids st2. quiet st2 b \<longrightarrow> quiet st3 b"
      and gr: "if ?groups = [] then prev = None else \<exists>p. prev = Some p \<and> p \<notin> ids st2 \<and> quiet st3 p
         \<and> (\<forall>c tr oc before after. ?groups = before @ after \<longrightarrow> after \<noteq> [] \<longrightarrow>
              runs g (concat (map (\<lambda>(c, grp). c # grp) after)) tr oc \<longrightarrow> extends c st3 \<longrightarrow> reachable c cur \<longrightarrow>
              flows c ?ls tr oc p)"
      using switch_groups_flow [OF 3 advances_ok [OF a2(1)] t2 c2] by simp_all
    have pn: "set_option prev \<inter> ids st = {}" using gr a2(3) by (auto split: if_splits)
    let ?st4 = "link_prev prev after Fallthrough st3"
    have g4: "grows {cur} st ?st4"
      by (rule grows_trans [OF grows_trans [OF g2 s3(1)] conjunct1 [OF link_prev_grows]]) (use pn in auto)
    have g5: "grows {cur} st st'"
      unfolding st' using g4 grows_trans [OF g4 add_edge_grows [of cur "{cur}"]] by auto
    have "quiet st3 after" using s3(2) n2 a2(2) by blast
    then have q: "quiet st' after"
      using link_prev_grows [of prev st3 after Fallthrough after] unfolding st' by (auto intro: quiet_add_edge)
    have "stmt_flows g ls s cur after st'"
      unfolding stmt_flows_def
    proof (intro allI impI)
      fix c tr oc
      assume run: "run_stmt g s tr oc" and ext: "extends c st'" and cur: "reachable c cur"
      have e4: "extends c ?st4" using ext unfolding st' by (auto simp: extends_def split: if_splits)
      have e3: "extends c st3" by (rule extends_grows [OF e4 conjunct1 [OF link_prev_grows]])
      have "s \<in> set (block_stmts st3 cur)" by (rule grows_stmts [OF s3(1) s2])
      then have cov: "covered c s" by (rule covered_block [OF cur e3])
      have no_match: "reachable c after" if "\<not> list_ex (\<lambda>(c, _). node_kind c = ''DefaultStmt'') ?groups"
        using reachable_edge [OF cur ext, of after NoMatch] that by (simp add: st')
      have falls: "reachable c after" if "reachable c p" "prev = Some p" for p
      proof -
        have "quiet st3 p" using gr that(2) by (auto split: if_splits)
        then have "\<not> terminates st3 p" by (rule quiet_terminates)
        then show ?thesis using reachable_edge [OF that(1) e4, of after Fallthrough] that(2)
          by (simp add: link_prev_def)
      qed
      from run show "flows c ls tr oc after"
      proof (cases rule: run_stmt.cases)
        case (run_switch before after' t1 oc1)
        then have ne: "?groups \<noteq> []" by auto
        then obtain p where p: "prev = Some p" using gr by auto
        have "flows c ?ls t1 oc1 p" using gr ne p run_switch e3 cur by auto
        then show ?thesis using cov falls [OF _ p] run_switch by (auto simp: flows_def)
      next
        case run_no_match
        then show ?thesis using cov no_match False by (auto simp: flows_def)
      qed (use s in \<open>auto simp: control_kinds_def loop_kinds_def\<close>)
    qed
    with g5 fresh q b show ?thesis by simp
  qed
qed

lemma handle_label_flow:
  assumes "handle_label s cur st = (b, st')" and s: "node_kind s = ''LabelStmt''"
    and st: "builder_ok st" "cur \<in> ids st" "quiet st cur"
  shows "grows {cur} st st' \<and> (b = cur \<or> b \<notin> ids st) \<and> quiet st' b \<and> stmt_flows g ls s cur b st'"
proof -
  define p where "p = (if block_stmts st cur \<noteq> []
      then let (next, st) = new_block NormalBlock st in (next, add_edge cur next Fallthrough st) else (cur, st))"
  obtain b1 st1 where p1: "p = (b1, st1)" by (cases p)
  have a1: "grows {cur} st st1 \<and> b1 \<in> ids st1 \<and> builder_ok st1 \<and> (b1 = cur \<or> b1 \<notin> ids st) \<and> quiet st1 b1
      \<and> (\<forall>c. extends c st1 \<longrightarrow> reachable c cur \<longrightarrow> reachable c b1)"
  proof (cases "block_stmts st cur \<noteq> []")
    case True
    obtain nxt st0 where nb: "new_block NormalBlock st = (nxt, st0)" by fastforce
    note a0 = advances_new_block [OF advances_refl [OF st(1)] nb] and n0 = new_block_grows [OF st(1) nb]
    have eq: "b1 = nxt" "st1 = add_edge cur nxt Fallthrough st0"
      using p1 True nb by (auto simp: p_def)
    have "advances st {#} st1" using a0 st(2) unfolding eq by (auto intro!: advances_add_edge [OF a0(1)])
    moreover have "grows {cur} st st1"
      unfolding eq by (rule grows_trans [OF grows_mono [OF conjunct1 [OF n0]] add_edge_grows [of cur "{cur}"]]) simp_all
    moreover have "nxt \<notin> ids st" using new_block_advances [OF st(1) nb] by simp
    moreover have "reachable c b1" if "extends c st1" "reachable c cur" for c
      using reachable_edge [OF that(2,1), of b1 Fallthrough] by (simp add: eq)
    moreover have "quiet st1 b1" using n0 unfolding eq by (auto intro!: quiet_add_edge)
    ultimately show ?thesis using a0(2) eq by (auto dest: advances_ok)
  next
    case False
    then show ?thesis using p1 st by (auto simp: p_def)
  qed
  let ?st2 = "st1\<lparr>blabels := dict_set (label_name s) b1 (blabels st1)\<rparr>"
  have st': "st' = add_stmt b1 s ?st2" and b: "b = b1"
    using assms(1) p1 by (auto simp: handle_label_def p_def [symmetric])
  have ok2: "builder_ok ?st2" using builder_ok_labels a1 advances_ok by blast
  have ids2: "ids ?st2 = ids st1" by (simp add: ids_def)
  have g2: "grows {} st1 ?st2" by (simp add: grows_def ids_def block_stmts_def)
  have g3: "grows {} ?st2 st'" unfolding st' using add_stmt_grows [OF ok2] a1 ids2 by simp
  have g13: "grows {} st1 st'" by (rule grows_trans [OF g2 g3]) simp
  have g: "grows {cur} st st'" by (rule grows_trans [OF conjunct1 [OF a1] g13]) simp
  have "quiet ?st2 b1" using a1 by (simp add: quiet_def)
  then have q: "quiet st' b1" by (simp add: st')
  have "flows c ls tr oc b1" if run: "run_stmt g s tr oc" and ext: "extends c st'" and cur: "reachable c cur" for c tr oc
  proof -
    have "reachable c b1" using a1 extends_grows [OF ext g13] cur by blast
    moreover have "s \<in> set (block_stmts st' b1)" using block_stmts_add_stmt [OF ok2] a1 ids2 by (simp add: st')
    ultimately have "covered c s" using covered_block ext by blast
    moreover have "tr = [s]" "oc = Falls"
      using run s by (auto elim!: run_stmtE simp: control_kinds_def loop_kinds_def)
    ultimately show ?thesis using \<open>reachable c b1\<close> by (simp add: flows_def)
  qed
  with g q a1 b show ?thesis by (auto simp: stmt_flows_def)
qed

lemma handle_jump_flow:
  assumes "handle_jump exit ls s cur st = (b, st')"
    and s: "node_kind s \<in> {''ReturnStmt'', ''BreakStmt'', ''ContinueStmt'', ''GotoStmt''}"
    and st: "builder_ok st" "targets_ok st exit ls" "cur \<in> ids st"
  shows "grows {cur} st st' \<and> b \<notin> ids st \<and> quiet st' b \<and> stmt_flows g ls s cur b st'"
proof -
  let ?st1 = "add_stmt cur s st"
  define st2 where "st2 = (if node_kind s = ''ReturnStmt'' then add_edge cur exit ReturnEdge ?st1
      else if node_kind s = ''BreakStmt'' then (if ls \<noteq> [] then add_edge cur (snd (last ls)) BreakEdge ?st1 else ?st1)
      else if node_kind s = ''ContinueStmt'' then (if ls \<noteq> [] then add_edge cur (fst (last ls)) ContinueEdge ?st1 else ?st1)
      else ?st1\<lparr>bpending := bpending ?st1 @ [(cur, sem_str s ''target_label'')]\<rparr>)"
  have nb: "new_block NormalBlock st2 = (b, st')"
    using assms(1) by (simp add: handle_jump_def Let_def st2_def)
  have a1: "advances st {#s#} ?st1" using advances_add_stmt [OF advances_refl] st by auto
  have last: "fst (last ls) \<in> ids st" "snd (last ls) \<in> ids st" if "ls \<noteq> []"
    using st(2) last_in_set [OF that] by (auto simp: targets_ok_def case_prod_unfold)
  have pend: "advances st {#s#} (?st1\<lparr>bpending := bpending ?st1 @ [(cur, l)]\<rparr>)" for l
    using advances_trans [OF a1 builder_ok_pending [OF advances_ok [OF a1]]] st(3) by simp
  have a2: "advances st {#s#} st2"
    using st(2,3) last pend a1 unfolding st2_def
    by (auto simp: targets_ok_def intro!: advances_add_edge [OF a1])
  have ids2: "ids st2 = ids st" by (simp add: st2_def ids_def add_edge_def add_stmt_def)
  have "grows {cur} ?st1 st2"
    unfolding st2_def by (auto intro!: add_edge_grows simp: grows_def [of _ _ "_\<lparr>bpending := _\<rparr>"] ids_def block_stmts_def)
  then have g2: "grows {cur} st st2" using grows_trans [OF add_stmt_grows [OF st(1,3), of "{cur}"]] by simp
  note n3 = new_block_grows [OF advances_ok [OF a2] nb]
  have g3: "grows {cur} st st'" by (rule grows_trans [OF g2 conjunct1 [OF n3]]) simp
  have fresh: "b \<notin> ids st" using new_block_advances [OF advances_ok [OF a2] nb] ids2 by simp
  have "s \<in> set (block_stmts ?st1 cur)" using block_stmts_add_stmt st by simp
  then have s2: "s \<in> set (block_stmts st' cur)"
    using grows_stmts [OF \<open>grows {cur} ?st1 st2\<close>] grows_stmts [OF conjunct1 [OF n3]] by blast
  have "flows c ls tr oc b" if run: "run_stmt g s tr oc" and ext: "extends c st'" and cur: "reachable c cur" for c tr oc
  proof -
    have e2: "extends c st2" by (rule extends_grows [OF ext conjunct1 [OF n3]])
    have cov: "covered c s" by (rule covered_block [OF cur ext s2])
    have brk: "reachable c (snd (last ls))" if "node_kind s = ''BreakStmt''" "ls \<noteq> []"
      using reachable_edge [OF cur e2, of "snd (last ls)" BreakEdge] that by (simp add: st2_def)
    have "tr = [s] \<and> oc \<noteq> Falls \<and> (oc = Breaks \<longrightarrow> node_kind s = ''BreakStmt'')"
      using run s by (auto elim!: run_stmtE simp: control_kinds_def loop_kinds_def)
    then show ?thesis using cov brk by (auto simp: flows_def)
  qed
  with g3 fresh n3 show ?thesis by (auto simp: stmt_flows_def)
qed

lemma build_stmt_flow:
  assumes "build_stmt rec g exit ls s (cur, st) = Some (b, st')"
    and st: "builder_ok st" "targets_ok st exit ls" "cur \<in> ids st" "quiet st cur"
  shows "grows {cur} st st' \<and> (b = cur \<or> b \<notin> ids st) \<and> quiet st' b \<and> stmt_flows g ls s cur b st'"
proof -
  consider "node_kind s = ''LabelStmt''" | "node_kind s = ''IfStmt''" | "node_kind s \<in> set loop_kinds"
    | "node_kind s = ''SwitchStmt''" | "node_kind s = ''CompoundStmt''"
    | "node_kind s \<in> {''ReturnStmt'', ''BreakStmt'', ''ContinueStmt'', ''GotoStmt''}"
    | "node_kind s \<noteq> ''LabelStmt''" "node_kind s \<notin> set control_kinds"
    by (auto simp: control_kinds_def)
  then show ?thesis
  proof cases
    case 1
    then show ?thesis using handle_label_flow [of s cur st b st' ls] assms by (simp add: build_stmt_def)
  next
    case 2
    then show ?thesis using handle_if_flow assms by (simp add: build_stmt_def)
  next
    case 3
    then show ?thesis using handle_loop_flow assms by (auto simp: build_stmt_def loop_kinds_def)
  next
    case 4
    then show ?thesis using handle_switch_flow assms by (auto simp: build_stmt_def loop_kinds_def)
  next
    case 5
    let ?cs = "children g (node_id s)"
    from 5 obtain nested st1 where
      1: "rec exit ls ?cs st = Some (nested, st1)"
      and nb: "new_block NormalBlock (add_edge cur nested Fallthrough st1) = (b, st')"
      using assms(1) by (auto simp: build_stmt_def loop_kinds_def bind_eq_Some_conv)
    let ?st2 = "add_edge cur nested Fallthrough st1"
    from rec_advances [OF 1 st(1,2)] have a1: "advances st (walk ?cs) st1" and nested: "nested \<in> ids st1" by auto
    have a2: "advances st (walk ?cs) ?st2"
      using nested st(3) by (auto intro!: advances_add_edge [OF a1] dest: advances_ids [OF a1])
    from rec_flow [OF 1 st(1,2)] have r: "grows {} st st1" "seq_flows g ls ?cs nested (tail_of st1 nested) st1" by auto
    note n3 = new_block_grows [OF advances_ok [OF a2] nb]
    have g2: "grows {cur} st ?st2"
      by (rule grows_trans [OF grows_mono [OF r(1)] add_edge_grows [of cur "{cur}"]]) simp_all
    have g3: "grows {cur} st st'" by (rule grows_trans [OF g2 conjunct1 [OF n3]]) simp
    have "b \<notin> ids st" using new_block_advances [OF advances_ok [OF a2] nb] a1 by (auto simp: advances_def)
    moreover have "flows c ls tr oc b" if run: "run_stmt g s tr oc" and ext: "extends c st'" and cur: "reachable c cur"
      for c tr oc
    proof -
      have e2: "extends c ?st2" by (rule extends_grows [OF ext conjunct1 [OF n3]])
      have e1: "extends c st1" using e2 by (auto simp: extends_def)
      have "reachable c nested" using reachable_edge [OF cur e2, of nested Fallthrough] by simp
      with r(2) e1 have body: "runs g ?cs tr oc \<Longrightarrow> flows c ls tr oc (tail_of st1 nested)" for tr oc
        by (simp add: seq_flows_def)
      from run 5 obtain oc1 where "runs g ?cs tr oc1" "oc = (if oc1 = Falls then Running else oc1)"
        by (auto elim!: run_stmtE simp: control_kinds_def loop_kinds_def)
      with body [of tr oc1] show ?thesis by (auto simp: flows_def)
    qed
    ultimately show ?thesis using g3 n3 by (auto simp: stmt_flows_def)
  next
    case 6
    then show ?thesis using handle_jump_flow [of exit ls s cur st b st'] assms
      by (auto simp: build_stmt_def loop_kinds_def)
  next
    case 7
    then have eq: "st' = add_stmt cur s st" "b = cur" using assms(1) by (auto simp: build_stmt_def control_kinds_def)
    have "flows c ls tr oc cur" if run: "run_stmt g s tr oc" and ext: "extends c st'" and cur: "reachable c cur" for c tr oc
    proof -
      have "s \<in> set (block_stmts st' cur)" using block_stmts_add_stmt st by (simp add: eq)
      then have "covered c s" by (rule covered_block [OF cur ext])
      moreover have "tr = [s]" "oc = Falls"
        using run 7 by (auto elim!: run_stmtE simp: control_kinds_def)
      ultimately show ?thesis using cur by (simp add: flows_def)
    qed
    then show ?thesis using eq st add_stmt_grows by (simp add: stmt_flows_def)
  qed
qed

lemma build_stmts_flow:
  assumes "opt_fold (build_stmt rec g exit ls) ss (cur, st) = Some (b, st')"
    and "builder_ok st" "targets_ok st exit ls" "cur \<in> ids st" "quiet st cur"
  shows "grows {cur} st st' \<and> (b = cur \<or> b \<notin> ids st) \<and> quiet st' b \<and> seq_flows g ls ss cur b st'"
  using assms
proof (induction ss arbitrary: cur st)
  case Nil
  then show ?case by (auto simp: seq_flows_def flows_def elim: runs_NilE)
next
  case (Cons s ss)
  from Cons.prems(1) obtain cur2 st2 where
    2: "build_stmt rec g exit ls s (cur, st) = Some (cur2, st2)"
    and rest: "opt_fold (build_stmt rec g exit ls) ss (cur2, st2) = Some (b, st')"
    by (auto simp: bind_eq_Some_conv)
  from build_stmt_advances [OF 2 Cons.prems(2-4)]
  have a2: "advances st (stmt_walk walk g s) st2" and c2: "cur2 \<in> ids st2" by auto
  note f2 = build_stmt_flow [OF 2 Cons.prems(2-5)]
  have q2: "quiet st2 cur2" using f2 by blast
  note IH = Cons.IH [OF rest advances_ok [OF a2] targets_ok_advances [OF Cons.prems(3) a2] c2 q2]
  have g: "grows {cur} st st'" by (rule grows_trans [OF conjunct1 [OF f2] conjunct1 [OF IH]]) (use f2 in auto)
  have fresh: "b = cur \<or> b \<notin> ids st" using IH f2 a2 by (auto simp: advances_def)
  have "flows c ls tr oc b" if run: "runs g (s # ss) tr oc" and ext: "extends c st'" and cur: "reachable c cur" for c tr oc
  proof -
    have e2: "extends c st2" by (rule extends_grows [OF ext conjunct1 [OF IH]])
    have stmt: "flows c ls t o' cur2" if "run_stmt g s t o'" for t o'
      using f2 that e2 cur by (auto simp: stmt_flows_def)
    have more: "flows c ls t o' b" if "runs g ss t o'" "reachable c cur2" for t o'
      using IH that ext by (auto simp: seq_flows_def)
    from run show ?thesis
    proof (rule runs_ConsE)
      assume "tr = []" "oc = Running"
      then show ?thesis by simp
    next
      fix t t'
      assume t: "tr = t @ t'" "run_stmt g s t Falls" "runs g ss t' oc"
      from stmt [OF t(2)] more [OF t(3)] show ?thesis unfolding t(1) by (auto simp: flows_def)
    next
      assume "run_stmt g s tr oc" "oc \<noteq> Falls"
      then show ?thesis using stmt by (auto simp: flows_def)
    qed
  qed
  with g fresh IH show ?case by (auto simp: seq_flows_def)
qed

lemma sequence_flow:
  assumes "build_block_sequence rec g exit ls ss st = Some (first, st')"
    and st: "builder_ok st" "targets_ok st exit ls"
  shows "grows {} st st' \<and> first \<notin> ids st \<and> tail_of st' first \<notin> ids st \<and> quiet st' (tail_of st' first)
    \<and> seq_flows g ls ss first (tail_of st' first) st'"
proof -
  obtain first' st1 where nb: "new_block NormalBlock st = (first', st1)" by fastforce
  from assms(1) nb obtain cur st2 where
    2: "opt_fold (build_stmt rec g exit ls) ss (first', st1) = Some (cur, st2)"
    and st': "st' = st2\<lparr>btails := dict_setdefault first' cur (btails st2)\<rparr>" and first: "first = first'"
    by (auto simp: build_block_sequence_def bind_eq_Some_conv)
  note a1 = advances_new_block [OF advances_refl [OF st(1)] nb] and n1 = new_block_grows [OF st(1) nb]
  have fresh: "first' \<notin> ids st" using new_block_advances [OF st(1) nb] by simp
  have q1: "quiet st1 first'" using n1 by simp
  note f2 = build_stmts_flow [OF 2 advances_ok [OF a1(1)] targets_ok_advances [OF st(2) a1(1)] a1(2) q1]
  have "map_of (btails st2) first' = None" using f2 n1 a1(2) by (auto simp: grows_def)
  then have tail: "tail_of st' first' = cur"
    by (simp add: st' tail_of_def dict_get_default_def map_of_dict_setdefault)
  have "map_of (btails st') b = map_of (btails st2) b" if "b \<in> ids st" for b
    using that fresh by (auto simp: st' map_of_dict_setdefault)
  then have "grows {} st2 (st2\<lparr>btails := btails st2\<rparr>)" by simp
  have g2: "grows {} st st2" by (rule grows_trans [OF conjunct1 [OF n1] conjunct1 [OF f2]]) (use fresh in auto)
  have same: "bcfg st' = bcfg st2" "ids st' = ids st2" "block_stmts st' = block_stmts st2"
    by (simp_all add: st' ids_def block_stmts_def fun_eq_iff)
  have g: "grows {} st st'" using g2 \<open>\<And>b. b \<in> ids st \<Longrightarrow> map_of (btails st') b = _\<close>
    unfolding grows_def same by simp
  have "cur \<notin> ids st" using f2 fresh a1(3) by auto
  moreover have "quiet st' cur" using f2 by (simp add: quiet_def same)
  moreover have "seq_flows g ls ss first' cur st'"
    using f2 unfolding seq_flows_def extends_def same by blast
  ultimately show ?thesis using g fresh tail first by simp
qed

end

lemma flow_contract_step:
  assumes "flow_contract rec walk g"
  shows "flow_contract (build_block_sequence rec g) (\<lambda>ss. \<Sum>s \<leftarrow> ss. stmt_walk walk g s) g"
proof -
  have "seq_contract rec walk" using assms by (simp add: flow_contract_def)
  from seq_contract_step [OF this] flow_contract.sequence_flow [OF assms] show ?thesis
    by (intro flow_contract.intro flow_contract_axioms.intro) auto
qed

lemma flow_contract_build_seq: "flow_contract (build_seq d g) (flow_stmts d g) g"
proof (induction d)
  case 0
  show ?case
    by (intro flow_contract.intro flow_contract_axioms.intro seq_contract_build_seq) simp
next
  case (Suc d)
  have "flow_stmts (Suc d) g = (\<lambda>ss. \<Sum>s \<leftarrow> ss. stmt_walk (flow_stmts d g) g s)" by (rule ext) simp
  then show ?case using flow_contract_step [OF Suc] by simp
qed

interpretation bf: flow_contract "build_seq d g" "flow_stmts d g" g for d g
  by (rule flow_contract_build_seq)

subsection \<open>Soundness of the whole graph\<close>

lemma finish_edges_extends: "extends (finish_edges entry st) st"
  by (auto simp: extends_def finish_edges_def Let_def cfg_stmts_def block_stmts_def add_edge_def split: option.splits)

lemma finish_edges_entry: "reachable (finish_edges entry st) entry"
proof -
  have "cfg_edge_of Entry entry Fallthrough \<in> set (edges (finish_edges entry st))"
    by (auto simp: finish_edges_def Let_def)
  then have "(Entry, entry) \<in> edge_rel (finish_edges entry st)"
    unfolding edge_rel_def by (force intro: image_eqI [where x = "cfg_edge_of Entry entry Fallthrough"])
  then show ?thesis by (auto simp: reachable_def)
qed

lemma prunes_covered:
  assumes "prunes c c'" and "covered c s"
  shows "covered c' s"
proof -
  from assms(2) obtain b where rb: "reachable c b" "s \<in> set (cfg_stmts c b)" unfolding covered_def by blast
  then obtain blk where b: "reachable c b" "map_of (blocks c) b = Some blk" "s \<in> set (statements blk)"
    by (cases "map_of (blocks c) b") (simp_all add: cfg_stmts_def)
  then have "b \<in> set (dict_keys (blocks c'))" using assms(1) unfolding prunes_def by fastforce
  then have "map_of (blocks c') b = Some blk" "reachable c' b" using assms(1) b unfolding prunes_def by auto
  then show ?thesis using b(3) by (auto simp: covered_def cfg_stmts_def)
qed

lemma build_cfg_covers:
  assumes "build_cfg d g f = Some c" and "runs g (body_statements g f) tr oc" and "s \<in> set tr"
  shows "covered c s"
  using assms(1)
proof (cases rule: build_cfg_cases)
  case 1
  then have "tr = []" using assms(2) by (auto elim: runs_NilE)
  then show ?thesis using assms(3) by simp
next
  case (2 raw)
  from 2(2) obtain entry st where
    seq: "build_seq d g Exit [] (body_statements g f) (init_builder f) = Some (entry, st)"
    and raw: "raw = finish_edges entry st" by (auto simp: build_raw_def bind_eq_Some_conv)
  have "targets_ok (init_builder f) Exit []" by (simp add: targets_ok_def)
  from bf.rec_flow [OF seq init_builder_ok this]
  have "seq_flows g [] (body_statements g f) entry (tail_of st entry) st" by simp
  then have "flows raw [] tr oc (tail_of st entry)"
    using assms(2) finish_edges_extends finish_edges_entry by (simp add: seq_flows_def raw)
  then have "covered raw s" using assms(3) by (simp add: flows_def)
  moreover have "prunes raw c" using prune_result [OF _ 2(3)] build_raw_ok [OF 2(2)] by blast
  ultimately show ?thesis using prunes_covered by blast
qed

text \<open>A statement placed once lies in one block only.\<close>

lemma count_two:
  fixes f :: "'a \<Rightarrow> 'b multiset"
  assumes "p \<in> set xs" and "q \<in> set xs" and "p \<noteq> q" and "s \<in># f p" and "s \<in># f q"
  shows "2 \<le> count (\<Sum>x \<leftarrow> xs. f x) s"
proof -
  have one: "0 < count (\<Sum>x \<leftarrow> ys. f x) s" if "y \<in> set ys" "s \<in># f y" for y ys
    using that by (induction ys) (auto simp: count_greater_zero_iff)
  have pos: "0 < count (f p) s" "0 < count (f q) s" using assms(4,5) by (simp_all add: count_greater_zero_iff)
  show ?thesis
    using assms(1,2)
  proof (induction xs)
    case Nil
    then show ?case by simp
  next
    case (Cons x xs)
    have sum: "count (\<Sum>y \<leftarrow> x # xs. f y) s = count (f x) s + count (\<Sum>y \<leftarrow> xs. f y) s" by simp
    show ?case
    proof (cases "p \<in> set xs \<and> q \<in> set xs")
      case True
      then show ?thesis using Cons.IH by simp
    next
      case False
      then consider "x = p" "q \<in> set xs" | "x = q" "p \<in> set xs" using Cons.prems assms(3) by auto
      then show ?thesis
      proof cases
        case 1
        from one [OF 1(2) assms(5)] pos(1) sum show ?thesis unfolding 1(1) by linarith
      next
        case 2
        from one [OF 2(2) assms(4)] pos(2) sum show ?thesis unfolding 2(1) by linarith
      qed
    qed
  qed
qed

lemma placed_once:
  assumes wf: "cfg_wf c" and once: "count (placed c) s \<le> 1"
    and b: "map_of (blocks c) b = Some blk" "s \<in> set (statements blk)"
    and b': "(b', blk') \<in> set (blocks c)" "s \<in> set (statements blk')"
  shows "b' = b"
proof (rule ccontr)
  assume "b' \<noteq> b"
  then have "2 \<le> count (\<Sum>p \<leftarrow> blocks c. mset (statements (snd p))) s"
    using count_two [of "(b, blk)" "blocks c" "(b', blk')" s "\<lambda>p. mset (statements (snd p))"] b b'
    by (auto dest: map_of_SomeD)
  with once show False by (simp add: placed_def)
qed

subsection \<open>Properties\<close>

lemma executed_reported_reachable:
  assumes "build_cfg d g f = Some c" and "runs g (body_statements g f) tr oc" and "s \<in> set tr"
  shows "(\<exists>reach b blk. reachable_blocks c = Some reach \<and> b \<in> reach \<and> map_of (blocks c) b = Some blk
      \<and> s \<in> set (statements blk))
    \<and> (count (flow_stmts d g (body_statements g f)) s = 1 \<longrightarrow>
        (\<exists>bs. unreachable_blocks c = Some bs \<and> (\<forall>blk \<in> set bs. s \<notin> set (statements blk))))"
proof -
  from build_cfg_covers [OF assms] obtain b where rb: "reachable c b" "s \<in> set (cfg_stmts c b)"
    unfolding covered_def by blast
  then obtain blk where b: "map_of (blocks c) b = Some blk" "s \<in> set (statements blk)"
    by (cases "map_of (blocks c) b") (simp_all add: cfg_stmts_def)
  have "b' = b" if "count (flow_stmts d g (body_statements g f)) s = 1"
    "(b', blk') \<in> set (blocks c)" "s \<in> set (statements blk')" for b' blk'
    using placed_once [OF build_cfg_ok(1) [OF assms(1)] _ b that(2,3)] build_cfg_ok(2) [OF assms(1)] that(1) by simp
  then have "\<forall>p \<in> set (blocks c). \<not> reachable c (fst p) \<longrightarrow> s \<notin> set (statements (snd p))"
    if "count (flow_stmts d g (body_statements g f)) s = 1"
    using that rb(1) by fastforce
  then show ?thesis
    using rb b by (fastforce simp: unreachable_blocks_eq reachable_blocks_eq reachable_def)
qed



end
