(* ===== verification/Flow_Framework.thy ===== *)
theory Flow_Framework
  imports Py_Prelude
begin

text \<open>
  The round-robin solver the data-flow analyses share: sweep over the points in a fixed
  order, recompute each point's set in place from its equation, repeat until a sweep changes
  nothing.  The locale states what an analysis has to provide (monotone equations over a
  finite universe) and concludes that the loop ends with the least solution.
\<close>

definition flow_step :: "('i \<Rightarrow> ('i \<Rightarrow> 'a set) \<Rightarrow> 'a set) \<Rightarrow> 'i \<Rightarrow> ('i \<Rightarrow> 'a set) \<times> bool \<Rightarrow> ('i \<Rightarrow> 'a set) \<times> bool" where
  "flow_step eqn i s = (case s of (\<sigma>, changed) \<Rightarrow>
     let new = eqn i \<sigma> in if new \<noteq> \<sigma> i then (\<sigma>(i := new), True) else (\<sigma>, changed))"

lemma flow_step_simp:
  "flow_step eqn i (\<sigma>, ch) = (if eqn i \<sigma> = \<sigma> i then (\<sigma>, ch) else (\<sigma>(i := eqn i \<sigma>), True))"
  by (simp add: flow_step_def)

definition flow_sweep :: "('i \<Rightarrow> ('i \<Rightarrow> 'a set) \<Rightarrow> 'a set) \<Rightarrow> 'i list \<Rightarrow> ('i \<Rightarrow> 'a set) \<Rightarrow> ('i \<Rightarrow> 'a set) \<times> bool" where
  "flow_sweep eqn points \<sigma> = fold (flow_step eqn) points (\<sigma>, False)"

definition flow_solve :: "('i \<Rightarrow> ('i \<Rightarrow> 'a set) \<Rightarrow> 'a set) \<Rightarrow> 'i list \<Rightarrow> ('i \<Rightarrow> 'a set) option" where
  "flow_solve eqn points = sweep_loop (flow_sweep eqn points) (\<lambda>_. {})"

definition flow_solution :: "('i \<Rightarrow> ('i \<Rightarrow> 'a set) \<Rightarrow> 'a set) \<Rightarrow> 'i list \<Rightarrow> ('i \<Rightarrow> 'a set) \<Rightarrow> bool" where
  "flow_solution eqn points \<sigma> \<longleftrightarrow> (\<forall>i \<in> set points. \<sigma> i = eqn i \<sigma>) \<and> (\<forall>i. i \<notin> set points \<longrightarrow> \<sigma> i = {})"

text \<open>Below every assignment that the equations do not push further up.\<close>

definition flow_least :: "('i \<Rightarrow> ('i \<Rightarrow> 'a set) \<Rightarrow> 'a set) \<Rightarrow> 'i list \<Rightarrow> ('i \<Rightarrow> 'a set) \<Rightarrow> bool" where
  "flow_least eqn points \<sigma> \<longleftrightarrow>
     (\<forall>\<tau>. (\<forall>i \<in> set points. eqn i \<tau> \<subseteq> \<tau> i) \<longrightarrow> (\<forall>i. \<sigma> i \<subseteq> \<tau> i))"

locale flow_equations =
  fixes eqn :: "'i \<Rightarrow> ('i \<Rightarrow> 'a set) \<Rightarrow> 'a set" and points :: "'i list" and univ :: "'a set"
  assumes mono: "(\<And>i. \<sigma> i \<subseteq> \<tau> i) \<Longrightarrow> eqn i \<sigma> \<subseteq> eqn i \<tau>"
    and finite_univ: "finite univ"
    and bounded: "(\<And>i. \<sigma> i \<subseteq> univ) \<Longrightarrow> i \<in> set points \<Longrightarrow> eqn i \<sigma> \<subseteq> univ"
begin

definition rising :: "('i \<Rightarrow> 'a set) \<Rightarrow> bool" where
  "rising \<sigma> \<longleftrightarrow> (\<forall>i \<in> set points. \<sigma> i \<subseteq> eqn i \<sigma>) \<and> (\<forall>i. i \<notin> set points \<longrightarrow> \<sigma> i = {})
     \<and> (\<forall>i. \<sigma> i \<subseteq> univ) \<and> flow_least eqn points \<sigma>"

definition room :: "('i \<Rightarrow> 'a set) \<Rightarrow> nat" where
  "room \<sigma> = (\<Sum>i \<in> set points. card (univ - \<sigma> i))"

lemma rising_init: "rising (\<lambda>_. {})"
  by (simp add: rising_def flow_least_def)

lemma rising_update:
  assumes "rising \<sigma>" and "i \<in> set points"
  shows "rising (\<sigma>(i := eqn i \<sigma>))" and "\<sigma> j \<subseteq> (\<sigma>(i := eqn i \<sigma>)) j"
proof -
  let ?\<sigma> = "\<sigma>(i := eqn i \<sigma>)"
  show up: "\<sigma> j \<subseteq> ?\<sigma> j" for j using assms by (auto simp: rising_def)
  have "?\<sigma> j \<subseteq> eqn j ?\<sigma>" if "j \<in> set points" for j
  proof -
    have m: "eqn j \<sigma> \<subseteq> eqn j ?\<sigma>" by (rule mono [OF up])
    have "\<sigma> j \<subseteq> eqn j \<sigma>" using assms(1) that by (simp add: rising_def)
    with m show ?thesis by (cases "j = i") auto
  qed
  moreover have "?\<sigma> j \<subseteq> univ" for j
    using bounded [of \<sigma> i] assms by (auto simp: rising_def)
  moreover have "flow_least eqn points ?\<sigma>"
    unfolding flow_least_def
  proof (intro allI impI)
    fix \<tau> j
    assume \<tau>: "\<forall>i \<in> set points. eqn i \<tau> \<subseteq> \<tau> i"
    have "\<sigma> k \<subseteq> \<tau> k" for k using assms(1) \<tau> by (auto simp: rising_def flow_least_def)
    then have "eqn i \<sigma> \<subseteq> \<tau> i" using mono [of \<sigma> \<tau> i] \<tau> assms(2) by blast
    then show "?\<sigma> j \<subseteq> \<tau> j" using \<open>\<And>k. \<sigma> k \<subseteq> \<tau> k\<close> by simp
  qed
  ultimately show "rising ?\<sigma>" using assms by (auto simp: rising_def)
qed

lemma room_update:
  assumes "rising \<sigma>" and "i \<in> set points" and "eqn i \<sigma> \<noteq> \<sigma> i"
  shows "room (\<sigma>(i := eqn i \<sigma>)) < room \<sigma>"
  unfolding room_def
proof (rule sum_strict_mono_ex1)
  show "finite (set points)" by simp
  show "\<forall>j \<in> set points. card (univ - (\<sigma>(i := eqn i \<sigma>)) j) \<le> card (univ - \<sigma> j)"
    using rising_update(2) [OF assms(1,2)] finite_univ by (intro ballI card_mono Diff_mono) simp_all
  have "univ - eqn i \<sigma> \<subset> univ - \<sigma> i"
    using assms bounded [of \<sigma> i] by (auto simp: rising_def)
  then show "\<exists>j \<in> set points. card (univ - (\<sigma>(i := eqn i \<sigma>)) j) < card (univ - \<sigma> j)"
    using assms(2) finite_univ by (intro bexI [of _ i]) (simp_all add: psubset_card_mono)
qed

lemma flow_fold:
  assumes "rising \<sigma>" and "set is \<subseteq> set points" and "fold (flow_step eqn) is (\<sigma>, ch) = (\<tau>, ch')"
  shows "rising \<tau> \<and> room \<tau> \<le> room \<sigma> \<and> (ch' \<longrightarrow> ch \<or> room \<tau> < room \<sigma>)
    \<and> (\<not> ch' \<longrightarrow> \<tau> = \<sigma> \<and> (\<forall>i \<in> set is. eqn i \<sigma> = \<sigma> i)) \<and> (ch \<longrightarrow> ch')"
  using assms
proof (induction "is" arbitrary: \<sigma> ch)
  case Nil
  then show ?case by auto
next
  case (Cons i "is")
  show ?case
  proof (cases "eqn i \<sigma> = \<sigma> i")
    case True
    then have "fold (flow_step eqn) is (\<sigma>, ch) = (\<tau>, ch')"
      using Cons.prems(3) by (simp add: flow_step_simp)
    from Cons.IH [OF Cons.prems(1) _ this] Cons.prems(2) True show ?thesis by auto
  next
    case False
    then have step: "fold (flow_step eqn) is (\<sigma>(i := eqn i \<sigma>), True) = (\<tau>, ch')"
      using Cons.prems(3) by (simp add: flow_step_simp)
    have i: "i \<in> set points" using Cons.prems(2) by simp
    have "set is \<subseteq> set points" using Cons.prems(2) by simp
    from Cons.IH [OF rising_update(1) [OF Cons.prems(1) i] this step]
      room_update [OF Cons.prems(1) i False]
    show ?thesis by (metis le_less_trans less_imp_le_nat)
  qed
qed

lemma sweep_rising:
  "rising \<sigma> \<Longrightarrow> flow_sweep eqn points \<sigma> = (\<tau>, ch) \<Longrightarrow>
    rising \<tau> \<and> (ch \<longrightarrow> room \<tau> < room \<sigma>) \<and> (\<not> ch \<longrightarrow> \<tau> = \<sigma> \<and> (\<forall>i \<in> set points. eqn i \<sigma> = \<sigma> i))"
  using flow_fold [of \<sigma> points False \<tau> ch] by (simp add: flow_sweep_def)

lemma solve_total: "\<exists>\<sigma>. flow_solve eqn points = Some \<sigma>"
  unfolding flow_solve_def
  by (rule sweep_loop_total [where I = rising and m = room]) (use rising_init sweep_rising in blast)+

lemma solve_least:
  assumes "flow_solve eqn points = Some \<sigma>"
  shows "flow_solution eqn points \<sigma>" and "flow_least eqn points \<sigma>" and "\<And>i. \<sigma> i \<subseteq> univ"
proof -
  from sweep_loop_result [OF assms [unfolded flow_solve_def], of rising] rising_init sweep_rising
  obtain u where r: "rising \<sigma>" "rising u" "flow_sweep eqn points u = (\<sigma>, False)" by blast
  from sweep_rising [OF r(2,3)] have "\<sigma> = u" "\<forall>i \<in> set points. eqn i u = u i" by auto
  with r(1) show "flow_solution eqn points \<sigma>" "flow_least eqn points \<sigma>" "\<And>i. \<sigma> i \<subseteq> univ"
    by (auto simp: flow_solution_def rising_def)
qed

end

text \<open>Two loops whose sweeps correspond under a representation \<open>h\<close> of the states.\<close>

lemma sweep_loop_map:
  assumes "\<And>s. outer (h s) = (let (s', c) = inner s in (h s', c))"
  shows "sweep_loop outer (h s) = map_option h (sweep_loop inner s)"
proof -
  let ?f = "\<lambda>(s, c :: bool). (h s, c)"
  have "map_option ?f (while_option (\<lambda>(s, c). c) (\<lambda>(s, c). inner s) (s, True))
      = while_option (\<lambda>(s, c). c) (\<lambda>(s, c). outer s) (?f (s, True))"
    by (rule while_option_commute) (auto simp: assms split: prod.splits)
  then show ?thesis
    by (auto simp: sweep_loop_def option.map_comp comp_def case_prod_unfold dest: sym)
qed

end
