(* ===== verification/Dataflow.thy ===== *)
theory Dataflow
  imports Cfg_Model Flow_Framework
begin

text \<open>
  \<open>DataFlowEngineV2\<close> (\<open>dataflow_engine_v2.py\<close>): reads and writes of a block,
  reaching definitions, uninitialized reads, liveness, dead stores, taint propagation,
  null-check facts, lifetimes and modified parameters, over the graphs of
  \<open>cfg_engine.py\<close>.  The per-block sets are functions from block identifiers; a key the
  dictionary lacks is the empty set, as in \<open>.get(block_id, set())\<close>.  A computation is
  \<^term>\<open>None\<close> only when \<open>descendants\<close> or a fixed-point loop does not end.
\<close>

subsection \<open>Reads and writes\<close>

definition decl_ref_name :: "ast_node \<Rightarrow> string" where
  "decl_ref_name n = sem_str n ''name''"

text \<open>(is a write, is a read too)\<close>

definition is_write_target :: "ast_node \<Rightarrow> ast_graph \<Rightarrow> bool \<times> bool" where
  "is_write_target ref g = (case g_get g (parent_id ref) of None \<Rightarrow> (False, False)
     | Some parent \<Rightarrow>
         let opcode = sem_str parent ''opcode'';
             cs = children g (node_id parent);
             is_lhs = (cs \<noteq> [] \<and> node_id (hd cs) = node_id ref)
         in if node_kind parent = ''BinaryOperator'' \<and> opcode = ''='' \<and> is_lhs then (True, False)
            else if node_kind parent = ''BinaryOperator'' \<and> ends_with opcode ''=''
                 \<and> opcode \<notin> {''=='', ''!='', ''<='', ''>=''} \<and> is_lhs then (True, True)
            else if node_kind parent = ''UnaryOperator'' \<and> opcode \<in> {''++'', ''--''} then (True, True)
            else (False, False))"

definition with_descendants :: "ast_graph \<Rightarrow> ast_node \<Rightarrow> ast_node list option" where
  "with_descendants g n = map_option (Cons n) (descendants g (node_id n))"

definition statement_own_descendants :: "ast_node \<Rightarrow> ast_graph \<Rightarrow> ast_node list option" where
  "statement_own_descendants s g =
     (let kind = node_kind s; cs = children g (node_id s) in
      if kind = ''IfStmt'' then map_option (Cons s) (opt_concat_map (with_descendants g) (take 1 cs))
      else if kind \<in> {''WhileStmt'', ''ForStmt'', ''SwitchStmt''}
      then map_option (Cons s) (opt_concat_map (with_descendants g) (butlast cs))
      else if kind = ''DoStmt'' then map_option (Cons s) (opt_concat_map (with_descendants g) (drop 1 cs))
      else with_descendants g s)"

text \<open>One reference to a variable, an element of \<open>_block_events\<close>.\<close>

record access =
  acc_name :: string
  acc_write :: bool
  acc_read_too :: bool
  acc_node :: ast_node

definition access_of :: "ast_graph \<Rightarrow> ast_node \<Rightarrow> access" where
  "access_of g ref = (case is_write_target ref g of (w, r) \<Rightarrow>
     \<lparr>acc_name = decl_ref_name ref, acc_write = w, acc_read_too = r, acc_node = ref\<rparr>)"

definition block_events :: "basic_block \<Rightarrow> ast_graph \<Rightarrow> access list option" where
  "block_events blk g = do {
     nodes \<leftarrow> opt_concat_map (\<lambda>s. statement_own_descendants s g) (statements blk);
     let refs = linearize (filter (\<lambda>n. node_kind n = ''DeclRefExpr'') nodes);
     Some (map (access_of g) (filter (\<lambda>r. decl_ref_name r \<noteq> []) refs)) }"

definition reads_var :: "access \<Rightarrow> bool" where
  "reads_var a \<longleftrightarrow> \<not> acc_write a \<or> acc_read_too a"

text \<open>The loop of \<open>block_def_use\<close> over (writes, exposed reads, locally defined).\<close>

definition def_use_step ::
    "access \<Rightarrow> (string \<times> ast_node) list \<times> string set \<times> string set
      \<Rightarrow> (string \<times> ast_node) list \<times> string set \<times> string set" where
  "def_use_step a s = (case s of (writes, exposed, local) \<Rightarrow>
     let exposed = (if reads_var a \<and> acc_name a \<notin> local then insert (acc_name a) exposed else exposed)
     in if acc_write a then (writes @ [(acc_name a, acc_node a)], exposed, insert (acc_name a) local)
        else (writes, exposed, local))"

definition def_use :: "access list \<Rightarrow> (string \<times> ast_node) list \<times> string set" where
  "def_use evs = (case fold def_use_step evs ([], {}, {}) of (writes, exposed, _) \<Rightarrow> (writes, exposed))"

definition block_def_use :: "basic_block \<Rightarrow> ast_graph \<Rightarrow> ((string \<times> ast_node) list \<times> string set) option" where
  "block_def_use blk g = map_option def_use (block_events blk g)"

text \<open>\<open>block_def_use\<close> of every block, by block identifier.\<close>

definition cfg_def_use ::
    "cfg \<Rightarrow> ast_graph \<Rightarrow> (bid \<Rightarrow> (string \<times> ast_node) list \<times> string set) option" where
  "cfg_def_use c g = do {
     dus \<leftarrow> opt_map (\<lambda>(b, blk). map_option (Pair b) (block_def_use blk g)) (blocks c);
     Some (dict_get_default ([], {}) dus) }"

subsection \<open>Reaching definitions\<close>

record var_def =
  def_variable :: string
  def_site :: string
  def_block :: bid

definition UNINIT :: string where
  "UNINIT = ''<uninit>''"

definition uninitialized_local_decls :: "ast_node \<Rightarrow> ast_graph \<Rightarrow> ast_node list option" where
  "uninitialized_local_decls f g = map_option
     (filter (\<lambda>n. node_kind n = ''VarDecl'' \<and>
        list_all (\<lambda>c. node_kind c \<in> {''BuiltinType'', ''RecordType'', ''PointerType''}) (children g (node_id n))))
     (descendants g (node_id f))"

text \<open>The pseudo-definitions of the uninitialized locals whose declaration is in a block.\<close>

definition uninit_def :: "cfg \<Rightarrow> ast_node \<Rightarrow> var_def option" where
  "uninit_def c d = (case block_containing c (node_id d) of None \<Rightarrow> None
     | Some blk \<Rightarrow> if decl_ref_name d = [] then None
         else Some \<lparr>def_variable = decl_ref_name d, def_site = UNINIT, def_block = block_id blk\<rparr>)"

definition uninit_defs :: "ast_node \<Rightarrow> cfg \<Rightarrow> ast_graph \<Rightarrow> var_def list option" where
  "uninit_defs f c g = map_option (List.map_filter (uninit_def c)) (uninitialized_local_decls f g)"

definition gen_step :: "bid \<Rightarrow> string \<times> ast_node \<Rightarrow> var_def set \<Rightarrow> var_def set" where
  "gen_step b w gen = insert \<lparr>def_variable = fst w, def_site = node_id (snd w), def_block = b\<rparr>
     {d \<in> gen. def_variable d \<noteq> fst w}"

definition block_gen :: "var_def list \<Rightarrow> bid \<Rightarrow> (string \<times> ast_node) list \<Rightarrow> var_def set" where
  "block_gen uninit b writes = fold (gen_step b) writes (set (filter (\<lambda>d. def_block d = b) uninit))"

definition in_set :: "bid \<Rightarrow> cfg \<Rightarrow> (bid \<Rightarrow> 'a set) \<Rightarrow> 'a set" where
  "in_set b c out_sets = (\<Union>e \<in> set (predecessors c b). out_sets (edge_source e))"

definition reaching_eqn ::
    "cfg \<Rightarrow> (bid \<Rightarrow> var_def set) \<Rightarrow> (bid \<Rightarrow> string set) \<Rightarrow> bid \<Rightarrow> (bid \<Rightarrow> var_def set) \<Rightarrow> var_def set" where
  "reaching_eqn c gen kill b out_sets = gen b \<union> {d \<in> in_set b c out_sets. def_variable d \<notin> kill b}"

definition reaching_definitions :: "ast_node \<Rightarrow> cfg \<Rightarrow> ast_graph \<Rightarrow> (bid \<Rightarrow> var_def set) option" where
  "reaching_definitions f c g = do {
     uninit \<leftarrow> uninit_defs f c g;
     du \<leftarrow> cfg_def_use c g;
     flow_solve (reaching_eqn c (\<lambda>b. block_gen uninit b (fst (du b))) (\<lambda>b. fst ` set (fst (du b))))
       (dict_keys (blocks c)) }"

text \<open>The scan of one block in \<open>uninitialized_reads\<close>.\<close>

fun uninit_scan :: "string set \<Rightarrow> access list \<Rightarrow> ast_node list" where
  "uninit_scan reaching [] = []"
| "uninit_scan reaching (a # evs) =
     (if acc_name a \<notin> reaching then uninit_scan reaching evs
      else (if reads_var a then [acc_node a] else [])
        @ uninit_scan (if acc_write a then reaching - {acc_name a} else reaching) evs)"

definition uninitialized_reads :: "ast_node \<Rightarrow> cfg \<Rightarrow> ast_graph \<Rightarrow> ast_node list option" where
  "uninitialized_reads f c g = do {
     out_sets \<leftarrow> reaching_definitions f c g;
     uninit \<leftarrow> uninit_defs f c g;
     opt_concat_map (\<lambda>(b, blk). do {
         evs \<leftarrow> block_events blk g;
         Some (uninit_scan
           (def_variable ` {d \<in> in_set b c out_sets. def_site d = UNINIT}
            \<union> set (map def_variable (filter (\<lambda>d. def_block d = b) uninit))) evs) })
       (blocks c) }"

subsection \<open>Liveness\<close>

definition live_step ::
    "cfg \<Rightarrow> (bid \<Rightarrow> string set) \<Rightarrow> (bid \<Rightarrow> string set) \<Rightarrow> bid
      \<Rightarrow> ((bid \<Rightarrow> string set) \<times> (bid \<Rightarrow> string set)) \<times> bool
      \<Rightarrow> ((bid \<Rightarrow> string set) \<times> (bid \<Rightarrow> string set)) \<times> bool" where
  "live_step c use defs b s = (case s of ((live_in, live_out), changed) \<Rightarrow>
     let out_set = (\<Union>e \<in> set (successors c b). live_in (edge_target e));
         new_in = use b \<union> (out_set - defs b)
     in if new_in \<noteq> live_in b \<or> out_set \<noteq> live_out b
        then ((live_in(b := new_in), live_out(b := out_set)), True)
        else ((live_in, live_out), changed))"

definition live_sweep ::
    "cfg \<Rightarrow> (bid \<Rightarrow> string set) \<Rightarrow> (bid \<Rightarrow> string set) \<Rightarrow> bid list
      \<Rightarrow> (bid \<Rightarrow> string set) \<times> (bid \<Rightarrow> string set)
      \<Rightarrow> ((bid \<Rightarrow> string set) \<times> (bid \<Rightarrow> string set)) \<times> bool" where
  "live_sweep c use defs bids s = fold (live_step c use defs) bids (s, False)"

definition liveness :: "cfg \<Rightarrow> ast_graph \<Rightarrow> (bid \<Rightarrow> string set) option" where
  "liveness c g = do {
     du \<leftarrow> cfg_def_use c g;
     (live_in, live_out) \<leftarrow> sweep_loop
       (live_sweep c (\<lambda>b. snd (du b)) (\<lambda>b. fst ` set (fst (du b))) (dict_keys (blocks c)))
       (\<lambda>_. {}, \<lambda>_. {});
     Some live_out }"

text \<open>
  The backward scan of \<open>dead_stores\<close> over the reversed events; findings come out in the
  order the code appends them.
\<close>

fun dead_scan :: "string set \<Rightarrow> access list \<Rightarrow> ast_node list" where
  "dead_scan live [] = []"
| "dead_scan live (a # evs) =
     (let pure = acc_write a \<and> \<not> acc_read_too a;
          live' = (if pure then live - {acc_name a} else live);
          live'' = (if reads_var a then insert (acc_name a) live' else live')
      in (if pure \<and> acc_name a \<notin> live then [acc_node a] else []) @ dead_scan live'' evs)"

definition dead_stores :: "cfg \<Rightarrow> ast_graph \<Rightarrow> ast_node list option" where
  "dead_stores c g = do {
     live_out \<leftarrow> liveness c g;
     opt_concat_map (\<lambda>(b, blk). do {
         evs \<leftarrow> block_events blk g;
         Some (dead_scan (live_out b) (rev evs)) }) (blocks c) }"

subsection \<open>Taint propagation\<close>

definition default_taint_sources :: "string set" where
  "default_taint_sources =
     {''recv'', ''read'', ''scanf'', ''sscanf'', ''getenv'', ''HAL_UART_Receive'', ''gets''}"

definition default_taint_sinks :: "string set" where
  "default_taint_sinks =
     {''memcpy'', ''memmove'', ''strcpy'', ''strcat'', ''malloc'', ''system'', ''HAL_UART_Transmit''}"

record taint_finding =
  sink_call_node_id :: string
  sink_function_name :: string
  tainted_argument :: string
  source_description :: string

text \<open>
  What the scan of a block does at a node, in scan order: an assignment to \<open>lhs\<close> whose
  right side contains a source call or reads some variables, or a call.  The scan order does
  not depend on the tainted set.
\<close>

datatype taint_op =
    TAssign (ta_lhs: string) (ta_source: bool) (ta_reads: "string list")
  | TCall (tc_node: string) (tc_callee: string) (tc_args: "string list")

definition taint_ops_of_node :: "ast_graph \<Rightarrow> string set \<Rightarrow> ast_node \<Rightarrow> taint_op list option" where
  "taint_ops_of_node g sources n =
     (let cs = children g (node_id n) in
      if node_kind n = ''BinaryOperator'' \<and> sem_str n ''opcode'' = ''=''
      then (if length cs \<ge> 2 then do {
              rhs \<leftarrow> with_descendants g (cs ! 1);
              Some [TAssign (decl_ref_name (cs ! 0))
                     (list_ex (\<lambda>m. node_kind m = ''CallExpr'' \<and> sem_str m ''callee'' \<in> sources) rhs)
                     (map decl_ref_name (filter (\<lambda>m. node_kind m = ''DeclRefExpr'') rhs))] }
            else Some [])
      else if node_kind n = ''CallExpr''
      then Some [TCall (node_id n) (sem_str n ''callee'') (map decl_ref_name cs)]
      else Some [])"

definition block_taint_ops :: "ast_graph \<Rightarrow> string set \<Rightarrow> basic_block \<Rightarrow> taint_op list option" where
  "block_taint_ops g sources blk = do {
     nodes \<leftarrow> opt_concat_map (\<lambda>s. statement_own_descendants s g) (statements blk);
     opt_concat_map (taint_ops_of_node g sources) nodes }"

fun run_taint_op :: "taint_op \<Rightarrow> string set \<Rightarrow> string set" where
  "run_taint_op (TAssign lhs src reads) tainted =
     (if lhs = [] then tainted
      else if src \<or> (\<exists>v \<in> set reads. v \<in> tainted) then insert lhs tainted
      else tainted - {lhs})"
| "run_taint_op (TCall n callee args) tainted = tainted"

definition taint_message :: "string \<Rightarrow> string" where
  "taint_message arg = [CHR 0x27] @ arg @ [CHR 0x27]
     @ '' is tainted by a designated source on every path reaching this call''"

fun op_findings :: "string set \<Rightarrow> taint_op \<Rightarrow> string set \<Rightarrow> taint_finding list" where
  "op_findings sinks (TAssign lhs src reads) tainted = []"
| "op_findings sinks (TCall n callee args) tainted =
     (if callee \<in> sinks
      then map (\<lambda>arg. \<lparr>sink_call_node_id = n, sink_function_name = callee, tainted_argument = arg,
                      source_description = taint_message arg\<rparr>)
             (filter (\<lambda>arg. arg \<noteq> [] \<and> arg \<in> tainted) args)
      else [])"

text \<open>\<open>_taint_transfer\<close>: the set at the end of the block, and the findings on the way.\<close>

definition taint_transfer :: "taint_op list \<Rightarrow> string set \<Rightarrow> string set" where
  "taint_transfer ops incoming = fold run_taint_op ops incoming"

fun taint_findings :: "string set \<Rightarrow> taint_op list \<Rightarrow> string set \<Rightarrow> taint_finding list" where
  "taint_findings sinks [] tainted = []"
| "taint_findings sinks (op # ops) tainted =
     op_findings sinks op tainted @ taint_findings sinks ops (run_taint_op op tainted)"

definition taint_eqn :: "cfg \<Rightarrow> (bid \<Rightarrow> taint_op list) \<Rightarrow> bid \<Rightarrow> (bid \<Rightarrow> string set) \<Rightarrow> string set" where
  "taint_eqn c ops b out_sets = taint_transfer (ops b) (in_set b c out_sets)"

definition cfg_taint_ops :: "cfg \<Rightarrow> ast_graph \<Rightarrow> string set \<Rightarrow> (bid \<Rightarrow> taint_op list) option" where
  "cfg_taint_ops c g sources = do {
     opss \<leftarrow> opt_map (\<lambda>(b, blk). map_option (Pair b) (block_taint_ops g sources blk)) (blocks c);
     Some (dict_get_default [] opss) }"

definition propagate_taint ::
    "cfg \<Rightarrow> ast_graph \<Rightarrow> string set \<Rightarrow> string set \<Rightarrow> taint_finding list option" where
  "propagate_taint c g sources sinks = do {
     ops \<leftarrow> cfg_taint_ops c g sources;
     out_sets \<leftarrow> flow_solve (taint_eqn c ops) (dict_keys (blocks c));
     Some (concat (map (\<lambda>b. taint_findings sinks (ops b) (in_set b c out_sets)) (dict_keys (blocks c)))) }"

subsection \<open>Null-check facts\<close>

datatype null_state = IsNull | NonNull

record null_check_fact =
  ncf_block :: bid
  ncf_variable :: string
  ncf_state :: null_state

text \<open>\<open>str(node.get("semantic_properties", {}).get("value", ""))\<close>\<close>

definition value_str :: "ast_node \<Rightarrow> string" where
  "value_str n = (case map_of (semantic_properties n) ''value'' of None \<Rightarrow> [] | Some v \<Rightarrow> py_str v)"

definition parse_null_check :: "ast_node \<Rightarrow> ast_graph \<Rightarrow> (string \<times> bool) option" where
  "parse_null_check cond g =
     (let kind = node_kind cond; opcode = sem_str cond ''opcode''; cs = children g (node_id cond) in
      if kind = ''UnaryOperator'' \<and> opcode = ''!''
      then (if cs \<noteq> [] \<and> node_kind (hd cs) = ''DeclRefExpr'' then Some (decl_ref_name (hd cs), True) else None)
      else if kind = ''DeclRefExpr'' then Some (decl_ref_name cond, False)
      else if kind = ''BinaryOperator''
      then (if opcode \<notin> {''=='', ''!=''} \<or> length cs < 2 then None
            else let lhs = cs ! 0; rhs = cs ! 1;
                     var_side = (if node_kind lhs = ''DeclRefExpr'' then lhs else rhs);
                     other_side = (if node_kind lhs = ''DeclRefExpr'' then rhs else lhs)
                 in if node_kind var_side \<noteq> ''DeclRefExpr'' then None
                    else if node_kind other_side = ''IntegerLiteral''
                         \<and> value_str other_side \<in> {''0'', ''0x0'', ''NULL''}
                    then Some (decl_ref_name var_side, opcode = ''=='')
                    else None)
      else None)"

definition edge_null_fact :: "string \<Rightarrow> bool \<Rightarrow> cfg_edge \<Rightarrow> null_check_fact option" where
  "edge_null_fact v null_when_true e =
     (if edge_kind e = TrueBranch
      then Some \<lparr>ncf_block = edge_target e, ncf_variable = v, ncf_state = (if null_when_true then IsNull else NonNull)\<rparr>
      else if edge_kind e = FalseBranch
      then Some \<lparr>ncf_block = edge_target e, ncf_variable = v, ncf_state = (if null_when_true then NonNull else IsNull)\<rparr>
      else None)"

definition null_check_facts :: "cfg \<Rightarrow> ast_graph \<Rightarrow> null_check_fact list" where
  "null_check_facts c g = concat (map (\<lambda>(b, blk). concat (map (\<lambda>s.
       if node_kind s \<noteq> ''IfStmt'' then []
       else (case children g (node_id s) of [] \<Rightarrow> []
             | cond # _ \<Rightarrow> (case parse_null_check cond g of None \<Rightarrow> []
                 | Some (v, nwt) \<Rightarrow> List.map_filter (edge_null_fact v nwt) (successors c b))))
     (statements blk))) (blocks c))"

subsection \<open>Lifetimes and parameters\<close>

record lifetime_range =
  lt_variable :: string
  lt_decl_node_id :: string
  lt_scope_node_id :: string
  lt_first_line :: int
  lt_last_line :: int

definition lifetime_of :: "ast_graph \<Rightarrow> ast_node \<Rightarrow> lifetime_range option" where
  "lifetime_of g n =
     (if node_kind n \<noteq> ''VarDecl'' \<or> decl_ref_name n = [] then None
      else case g_get g (parent_id n) of None \<Rightarrow> None
      | Some scope \<Rightarrow>
          let ends = map line_end (filter (\<lambda>s. source_range s \<noteq> None) (children g (node_id scope)))
          in Some \<lparr>lt_variable = decl_ref_name n, lt_decl_node_id = node_id n,
               lt_scope_node_id = node_id scope, lt_first_line = line_start n,
               lt_last_line = (if ends \<noteq> [] then Max (set ends) else line_start n)\<rparr>)"

definition variable_lifetime_ranges :: "ast_node \<Rightarrow> ast_graph \<Rightarrow> lifetime_range list option" where
  "variable_lifetime_ranges f g = map_option (List.map_filter (lifetime_of g)) (descendants g (node_id f))"

definition escapes_lifetime :: "lifetime_range \<Rightarrow> ast_node \<Rightarrow> bool" where
  "escapes_lifetime lt use_node \<longleftrightarrow> line_start use_node > lt_last_line lt"

definition modified_parameters :: "ast_node \<Rightarrow> cfg \<Rightarrow> ast_graph \<Rightarrow> ast_node list option" where
  "modified_parameters f c g =
     (let params = set (filter (\<lambda>n. n \<noteq> []) (map decl_ref_name
            (filter (\<lambda>p. node_kind p = ''ParmVarDecl'') (children g (node_id f)))))
      in if params = {} then Some []
         else opt_concat_map (\<lambda>(b, blk). do {
             evs \<leftarrow> block_events blk g;
             Some (map acc_node (filter (\<lambda>a. acc_write a \<and> acc_name a \<in> params) evs)) }) (blocks c))"

end
