(* ===== verification/Dataflow_Props.thy ===== *)
theory Dataflow_Props
  imports Dataflow
begin

text \<open>
  Correctness of the data-flow engine: the solver locale interpreted on the model's
  equations, and for each analysis the paths that characterise its result.
\<close>

subsection \<open>The analyses return\<close>

lemma opt_concat_map_total [opt_intro]:
  "(\<And>x. x \<in> set xs \<Longrightarrow> \<exists>y. f x = Some y) \<Longrightarrow> \<exists>ys. opt_concat_map f xs = Some ys"
  using opt_map_total [of xs f] by (auto simp: opt_concat_map_def)

lemma with_descendants_total [opt_intro]: "ranked g r \<Longrightarrow> \<exists>ns. with_descendants g n = Some ns"
  using descendants_total [of g r "node_id n"] by (auto simp: with_descendants_def)

lemma statement_own_descendants_total [opt_intro]:
  assumes "ranked g r"
  shows "\<exists>ns. statement_own_descendants s g = Some ns"
proof -
  have "\<exists>ns. opt_concat_map (with_descendants g) cs = Some ns" for cs
    by (rule opt_concat_map_total) (rule with_descendants_total [OF assms])
  then have "opt_concat_map (with_descendants g) cs \<noteq> None" for cs by (metis option.distinct(1))
  moreover have "with_descendants g s \<noteq> None"
    using with_descendants_total [OF assms, of s] by auto
  ultimately have "statement_own_descendants s g \<noteq> None"
    by (simp add: statement_own_descendants_def Let_def)
  then show ?thesis by simp
qed

lemma block_events_total [opt_intro]:
  assumes "ranked g r"
  shows "\<exists>evs. block_events blk g = Some evs"
proof -
  have "\<exists>ns. opt_concat_map (\<lambda>s. statement_own_descendants s g) (statements blk) = Some ns"
    by (rule opt_concat_map_total) (rule statement_own_descendants_total [OF assms])
  then show ?thesis by (auto simp: block_events_def)
qed

lemma cfg_def_use_total [opt_intro]:
  assumes "ranked g r"
  shows "\<exists>du. cfg_def_use c g = Some du"
proof -
  have "\<exists>y. (case p of (b, blk) \<Rightarrow> map_option (Pair b) (block_def_use blk g)) = Some y" for p
    using block_events_total [OF assms, of "snd p"] by (auto simp: block_def_use_def split: prod.split)
  then have "\<exists>dus. opt_map (\<lambda>(b, blk). map_option (Pair b) (block_def_use blk g)) (blocks c) = Some dus"
    by (intro opt_map_total)
  then show ?thesis by (auto simp: cfg_def_use_def)
qed

lemma uninit_defs_total [opt_intro]: "ranked g r \<Longrightarrow> \<exists>ds. uninit_defs f c g = Some ds"
  using descendants_total [of g r "node_id f"] by (auto simp: uninit_defs_def uninitialized_local_decls_def)

subsection \<open>Reaching definitions\<close>

lemma in_set_mono: "(\<And>i. \<sigma> i \<subseteq> \<tau> i) \<Longrightarrow> in_set b c \<sigma> \<subseteq> in_set b c \<tau>"
  by (fastforce simp: in_set_def)

lemma in_set_edge: "x \<in> in_set b c \<sigma> \<longleftrightarrow> (\<exists>a. (a, b) \<in> edge_rel c \<and> x \<in> \<sigma> a)"
  by (auto simp: in_set_def predecessors_def edge_rel_def)

lemma in_set_bounded: "(\<And>i. \<sigma> i \<subseteq> U) \<Longrightarrow> in_set b c \<sigma> \<subseteq> U"
  by (auto simp: in_set_def)

lemma finite_block_gen [simp]: "finite (block_gen uninit b ws)"
proof -
  have "finite (fold (gen_step b) ws A)" if "finite A" for A
    using that by (induction ws arbitrary: A) (auto simp: gen_step_def)
  then show ?thesis by (simp add: block_gen_def)
qed

text \<open>A block generates its last write of each variable, and the declarations it does not overwrite.\<close>

lemma block_gen_exact:
  "d \<in> block_gen uninit b ws \<longleftrightarrow>
     (\<exists>ws1 w ws2. ws = ws1 @ w # ws2 \<and> fst w \<notin> fst ` set ws2
        \<and> d = \<lparr>def_variable = fst w, def_site = node_id (snd w), def_block = b\<rparr>)
   \<or> (d \<in> set uninit \<and> def_block d = b \<and> def_variable d \<notin> fst ` set ws)"
proof -
  have "d \<in> fold (gen_step b) ws A \<longleftrightarrow>
      (\<exists>ws1 w ws2. ws = ws1 @ w # ws2 \<and> fst w \<notin> fst ` set ws2
        \<and> d = \<lparr>def_variable = fst w, def_site = node_id (snd w), def_block = b\<rparr>)
      \<or> (d \<in> A \<and> def_variable d \<notin> fst ` set ws)" (is "_ \<longleftrightarrow> ?L ws \<or> ?R ws A") for A
  proof (induction ws arbitrary: A)
    case Nil
    then show ?case by simp
  next
    case (Cons w ws)
    let ?d = "\<lparr>def_variable = fst w, def_site = node_id (snd w), def_block = b\<rparr>"
    have "?L (w # ws) \<longleftrightarrow> (fst w \<notin> fst ` set ws \<and> d = ?d) \<or> ?L ws" by (rule split_Cons_ex)
    moreover have "?R ws (gen_step b w A) \<longleftrightarrow> (fst w \<notin> fst ` set ws \<and> d = ?d) \<or> ?R (w # ws) A"
      by (auto simp: gen_step_def image_iff Ball_def)
    ultimately show ?case using Cons.IH [of "gen_step b w A"] by simp blast
  qed
  then show ?thesis by (simp add: block_gen_def)
qed

interpretation reaching: flow_equations
  "reaching_eqn c (\<lambda>b. block_gen uninit b (ws b)) kill" bids "\<Union>b \<in> set bids. block_gen uninit b (ws b)"
  for c uninit ws kill bids
proof
  show "reaching_eqn c (\<lambda>b. block_gen uninit b (ws b)) kill i \<sigma>
      \<subseteq> reaching_eqn c (\<lambda>b. block_gen uninit b (ws b)) kill i \<tau>"
    if "\<And>i. \<sigma> i \<subseteq> \<tau> i" for \<sigma> \<tau> i
    using in_set_mono [of \<sigma> \<tau> i c, OF that] by (auto simp: reaching_eqn_def)
  show "finite (\<Union>b \<in> set bids. block_gen uninit b (ws b))" by simp
  show "reaching_eqn c (\<lambda>b. block_gen uninit b (ws b)) kill i \<sigma> \<subseteq> (\<Union>b \<in> set bids. block_gen uninit b (ws b))"
    if "\<And>i. \<sigma> i \<subseteq> (\<Union>b \<in> set bids. block_gen uninit b (ws b))" "i \<in> set bids" for \<sigma> i
    using in_set_bounded [of \<sigma> "\<Union>b \<in> set bids. block_gen uninit b (ws b)" i c] that
    by (auto simp: reaching_eqn_def)
qed

text \<open>A definition reaches the end of a block along a path that does not overwrite its variable.\<close>

inductive def_reaches ::
    "cfg \<Rightarrow> (bid \<Rightarrow> var_def set) \<Rightarrow> (bid \<Rightarrow> string set) \<Rightarrow> var_def \<Rightarrow> bid \<Rightarrow> bool"
  for c gen kill where
  reaches_gen: "b \<in> set (dict_keys (blocks c)) \<Longrightarrow> d \<in> gen b \<Longrightarrow> def_reaches c gen kill d b"
| reaches_step: "def_reaches c gen kill d a \<Longrightarrow> (a, b) \<in> edge_rel c \<Longrightarrow> b \<in> set (dict_keys (blocks c)) \<Longrightarrow>
    def_variable d \<notin> kill b \<Longrightarrow> def_reaches c gen kill d b"

lemma reaching_solution_exact:
  assumes sol: "flow_solution (reaching_eqn c gen kill) (dict_keys (blocks c)) out"
    and least: "flow_least (reaching_eqn c gen kill) (dict_keys (blocks c)) out"
  shows "out b = {d. def_reaches c gen kill d b}"
proof
  let ?\<tau> = "\<lambda>b. {d. def_reaches c gen kill d b}"
  have "reaching_eqn c gen kill b ?\<tau> \<subseteq> ?\<tau> b" if "b \<in> set (dict_keys (blocks c))" for b
    using that by (auto simp: reaching_eqn_def in_set_edge intro: def_reaches.intros)
  then show "out b \<subseteq> ?\<tau> b" using least [unfolded flow_least_def, rule_format, of ?\<tau> b] by blast
  show "?\<tau> b \<subseteq> out b"
  proof
    fix d
    assume "d \<in> ?\<tau> b"
    then have "def_reaches c gen kill d b" by simp
    then show "d \<in> out b"
    proof induction
      case (reaches_gen b d)
      then have "out b = reaching_eqn c gen kill b out" using sol by (simp add: flow_solution_def)
      then show ?case using reaches_gen by (simp add: reaching_eqn_def)
    next
      case (reaches_step d a b)
      then have "out b = reaching_eqn c gen kill b out" using sol by (simp add: flow_solution_def)
      moreover have "d \<in> in_set b c out" using reaches_step by (auto simp: in_set_edge)
      ultimately show ?case using reaches_step by (simp add: reaching_eqn_def)
    qed
  qed
qed

abbreviation rd_gen :: "var_def list \<Rightarrow> (bid \<Rightarrow> (string \<times> ast_node) list \<times> string set) \<Rightarrow> bid \<Rightarrow> var_def set" where
  "rd_gen uninit du \<equiv> (\<lambda>b. block_gen uninit b (fst (du b)))"

abbreviation rd_kill :: "(bid \<Rightarrow> (string \<times> ast_node) list \<times> string set) \<Rightarrow> bid \<Rightarrow> string set" where
  "rd_kill du \<equiv> (\<lambda>b. fst ` set (fst (du b)))"

lemma reaching_definitions_result:
  assumes "uninit_defs f c g = Some uninit" and "cfg_def_use c g = Some du"
  shows "\<exists>out. reaching_definitions f c g = Some out
    \<and> (\<forall>b. out b = {d. def_reaches c (rd_gen uninit du) (rd_kill du) d b})"
proof -
  obtain out where out: "flow_solve (reaching_eqn c (rd_gen uninit du) (rd_kill du)) (dict_keys (blocks c)) = Some out"
    using reaching.solve_total [of c uninit "\<lambda>b. fst (du b)" "rd_kill du"] by blast
  from reaching.solve_least [OF out] have "\<forall>b. out b = {d. def_reaches c (rd_gen uninit du) (rd_kill du) d b}"
    using reaching_solution_exact by blast
  then show ?thesis using assms out by (simp add: reaching_definitions_def)
qed

lemma uninit_scan_exact:
  "n \<in> set (uninit_scan R evs) \<longleftrightarrow>
    (\<exists>e1 a e2. evs = e1 @ a # e2 \<and> n = acc_node a \<and> reads_var a \<and> acc_name a \<in> R
       \<and> (\<forall>e \<in> set e1. acc_write e \<longrightarrow> acc_name e \<noteq> acc_name a))" (is "_ \<longleftrightarrow> ?P R evs")
proof (induction evs arbitrary: R)
  case Nil
  then show ?case by simp
next
  case (Cons x evs)
  let ?R = "if acc_write x then R - {acc_name x} else R"
  have "?P R (x # evs) \<longleftrightarrow> (n = acc_node x \<and> reads_var x \<and> acc_name x \<in> R) \<or> ?P ?R evs"
  proof -
    let ?Q = "\<lambda>(e1 :: access list) (a :: access) (e2 :: access list). n = acc_node a \<and> reads_var a \<and> acc_name a \<in> R
       \<and> (\<forall>e \<in> set e1. acc_write e \<longrightarrow> acc_name e \<noteq> acc_name a)"
    have "?P R (x # evs) \<longleftrightarrow> ?Q [] x evs \<or> (\<exists>e1 a e2. evs = e1 @ a # e2 \<and> ?Q (x # e1) a e2)"
      using split_Cons_ex [of x evs ?Q] by blast
    moreover have "?Q (x # e1) a e2 \<longleftrightarrow> n = acc_node a \<and> reads_var a \<and> acc_name a \<in> ?R
       \<and> (\<forall>e \<in> set e1. acc_write e \<longrightarrow> acc_name e \<noteq> acc_name a)" for e1 a e2 by auto
    ultimately show ?thesis by simp
  qed
  moreover have "n \<in> set (uninit_scan R (x # evs)) \<longleftrightarrow>
      (n = acc_node x \<and> reads_var x \<and> acc_name x \<in> R) \<or> n \<in> set (uninit_scan ?R evs)"
    by auto
  ultimately show ?case using Cons.IH [of ?R] by blast
qed

subsection \<open>Uninitialized reads\<close>

text \<open>The variables that may be uninitialized when a block is entered, or declared in it.\<close>

definition uninit_at ::
    "cfg \<Rightarrow> var_def list \<Rightarrow> (bid \<Rightarrow> (string \<times> ast_node) list \<times> string set) \<Rightarrow> string \<Rightarrow> bid \<Rightarrow> bool" where
  "uninit_at c uninit du v b \<longleftrightarrow>
     (\<exists>d \<in> set uninit. def_block d = b \<and> def_variable d = v)
   \<or> (\<exists>p d. (p, b) \<in> edge_rel c \<and> def_reaches c (rd_gen uninit du) (rd_kill du) d p
        \<and> def_site d = UNINIT \<and> def_variable d = v)"

lemma uninitialized_reads_result:
  assumes "ranked g r" and u: "uninit_defs f c g = Some uninit" and du: "cfg_def_use c g = Some du"
  shows "\<exists>rs. uninitialized_reads f c g = Some rs \<and> (\<forall>n. n \<in> set rs \<longleftrightarrow>
     (\<exists>b blk e1 a e2. (b, blk) \<in> set (blocks c) \<and> block_events blk g = Some (e1 @ a # e2)
        \<and> n = acc_node a \<and> reads_var a \<and> uninit_at c uninit du (acc_name a) b
        \<and> (\<forall>e \<in> set e1. acc_write e \<longrightarrow> acc_name e \<noteq> acc_name a)))"
proof -
  from reaching_definitions_result [OF u du] obtain out where
    out: "reaching_definitions f c g = Some out" "\<And>b. out b = {d. def_reaches c (rd_gen uninit du) (rd_kill du) d b}"
    by blast
  let ?R = "\<lambda>b. def_variable ` {d \<in> in_set b c out. def_site d = UNINIT}
      \<union> set (map def_variable (filter (\<lambda>d. def_block d = b) uninit))"
  let ?f = "\<lambda>(b, blk). do { evs \<leftarrow> block_events blk g; Some (uninit_scan (?R b) evs) }"
  have R: "v \<in> ?R b \<longleftrightarrow> uninit_at c uninit du v b" for v b
    by (auto simp: uninit_at_def in_set_edge out(2))
  have "\<exists>y. ?f p = Some y" for p
    using block_events_total [OF assms(1), of "snd p"] by (auto split: prod.split)
  then obtain rs where rs: "opt_concat_map ?f (blocks c) = Some rs"
    using opt_concat_map_total [of "blocks c" ?f] by blast
  have "n \<in> set rs \<longleftrightarrow> (\<exists>b blk e1 a e2. (b, blk) \<in> set (blocks c) \<and> block_events blk g = Some (e1 @ a # e2)
        \<and> n = acc_node a \<and> reads_var a \<and> uninit_at c uninit du (acc_name a) b
        \<and> (\<forall>e \<in> set e1. acc_write e \<longrightarrow> acc_name e \<noteq> acc_name a))" for n
  proof -
    have "n \<in> set rs \<longleftrightarrow> (\<exists>b blk evs. (b, blk) \<in> set (blocks c) \<and> block_events blk g = Some evs
        \<and> n \<in> set (uninit_scan (?R b) evs))"
      by (rule opt_concat_map_pairs [OF rs])
    also have "\<dots> \<longleftrightarrow> (\<exists>b blk e1 a e2. (b, blk) \<in> set (blocks c) \<and> block_events blk g = Some (e1 @ a # e2)
        \<and> n = acc_node a \<and> reads_var a \<and> acc_name a \<in> ?R b
        \<and> (\<forall>e \<in> set e1. acc_write e \<longrightarrow> acc_name e \<noteq> acc_name a))"
      unfolding uninit_scan_exact by blast
    finally show ?thesis unfolding R .
  qed
  moreover have "uninitialized_reads f c g = Some rs"
    using rs out(1) u by (simp add: uninitialized_reads_def)
  ultimately show ?thesis by blast
qed

text \<open>Paths of blocks.\<close>

fun cfg_path :: "cfg \<Rightarrow> bid list \<Rightarrow> bool" where
  "cfg_path c [] = False"
| "cfg_path c [b] = (b \<in> set (dict_keys (blocks c)))"
| "cfg_path c (a # b # p) = (a \<in> set (dict_keys (blocks c)) \<and> (a, b) \<in> edge_rel c \<and> cfg_path c (b # p))"

lemma def_reaches_path:
  "cfg_path c (p @ [b]) \<Longrightarrow> p \<noteq> [] \<Longrightarrow> def_reaches c gen kill d (hd p) \<Longrightarrow>
    \<forall>x \<in> set (tl p). def_variable d \<notin> kill x \<Longrightarrow> \<exists>a. (a, b) \<in> edge_rel c \<and> def_reaches c gen kill d a"
proof (induction p)
  case Nil
  then show ?case by simp
next
  case (Cons x p)
  show ?case
  proof (cases p)
    case Nil
    then show ?thesis using Cons.prems by auto
  next
    case (Cons y q)
    have path: "cfg_path c (p @ [b])" "(x, y) \<in> edge_rel c" using Cons.prems(1) Cons by auto
    then have "y \<in> set (dict_keys (blocks c))" using Cons by (cases q) auto
    then have "def_reaches c gen kill d (hd p)"
      using Cons.prems(3,4) path(2) Cons by (auto intro: reaches_step)
    then show ?thesis using Cons.IH path(1) Cons.prems(4) Cons by auto
  qed
qed

text \<open>A path from a declaring block to \<open>b\<close> whose blocks before \<open>b\<close> do not write \<open>v\<close>.\<close>

definition unwritten_path ::
    "cfg \<Rightarrow> var_def list \<Rightarrow> (bid \<Rightarrow> (string \<times> ast_node) list \<times> string set) \<Rightarrow> string \<Rightarrow> bid list \<Rightarrow> bid \<Rightarrow> bool" where
  "unwritten_path c uninit du v p b \<longleftrightarrow> cfg_path c (p @ [b])
     \<and> (\<exists>d \<in> set uninit. def_variable d = v \<and> def_block d = hd (p @ [b]))
     \<and> (\<forall>x \<in> set p. v \<notin> rd_kill du x)"

lemma uninit_defs_site: "uninit_defs f c g = Some uninit \<Longrightarrow> d \<in> set uninit \<Longrightarrow> def_site d = UNINIT"
proof -
  have "d \<in> set (List.map_filter h xs) \<Longrightarrow> \<exists>x \<in> set xs. h x = Some d" for h and xs :: "ast_node list"
    by (induction xs) (auto simp: List.map_filter_simps split: option.splits)
  then show "uninit_defs f c g = Some uninit \<Longrightarrow> d \<in> set uninit \<Longrightarrow> def_site d = UNINIT"
    by (fastforce simp: uninit_defs_def uninit_def_def split: option.splits if_splits)
qed

lemma unwritten_path_uninit_at:
  assumes "uninit_defs f c g = Some uninit" and "unwritten_path c uninit du v p b"
  shows "uninit_at c uninit du v b"
proof (cases p)
  case Nil
  then show ?thesis using assms(2) by (auto simp: unwritten_path_def uninit_at_def)
next
  case (Cons x q)
  from assms(2) Cons obtain d where d: "d \<in> set uninit" "def_variable d = v" "def_block d = x"
    and path: "cfg_path c (p @ [b])" and clear: "\<forall>y \<in> set p. v \<notin> rd_kill du y"
    unfolding unwritten_path_def by auto
  have "d \<in> rd_gen uninit du x"
    using d clear Cons unfolding block_gen_exact by simp
  moreover have "x \<in> set (dict_keys (blocks c))" using path Cons by (cases q) auto
  ultimately have "def_reaches c (rd_gen uninit du) (rd_kill du) d (hd p)"
    using Cons by (simp add: reaches_gen)
  from def_reaches_path [OF path _ this] Cons clear d(2) obtain a where
    "(a, b) \<in> edge_rel c" "def_reaches c (rd_gen uninit du) (rd_kill du) d a" by auto
  then show ?thesis using uninit_defs_site [OF assms(1) d(1)] d(2) unfolding uninit_at_def by blast
qed

lemma uninitialized_reads_path:
  assumes "ranked g r" and u: "uninit_defs f c g = Some uninit" and du: "cfg_def_use c g = Some du"
    and "(b, blk) \<in> set (blocks c)" and "block_events blk g = Some (e1 @ a # e2)" and "reads_var a"
    and "unwritten_path c uninit du (acc_name a) p b"
    and "\<forall>e \<in> set e1. acc_write e \<longrightarrow> acc_name e \<noteq> acc_name a"
  shows "\<exists>rs. uninitialized_reads f c g = Some rs \<and> acc_node a \<in> set rs"
  using uninitialized_reads_result [OF assms(1-3)] unwritten_path_uninit_at [OF u assms(7)] assms(4-6,8)
  by fast

subsection \<open>Liveness\<close>

text \<open>The two sets the code keeps per block, as points of one system of equations.\<close>

datatype live_point = LIn bid | LOut bid

fun live_eqn ::
    "cfg \<Rightarrow> (bid \<Rightarrow> string set) \<Rightarrow> (bid \<Rightarrow> string set) \<Rightarrow> live_point \<Rightarrow> (live_point \<Rightarrow> string set) \<Rightarrow> string set" where
  "live_eqn c use defs (LOut b) \<sigma> = (\<Union>e \<in> set (successors c b). \<sigma> (LIn (edge_target e)))"
| "live_eqn c use defs (LIn b) \<sigma> = use b \<union> (\<sigma> (LOut b) - defs b)"

definition live_points :: "bid list \<Rightarrow> live_point list" where
  "live_points bids = concat (map (\<lambda>b. [LOut b, LIn b]) bids)"

lemma set_live_points [simp]: "set (live_points bids) = LOut ` set bids \<union> LIn ` set bids"
  by (auto simp: live_points_def)

definition live_pair :: "(live_point \<Rightarrow> string set) \<Rightarrow> (bid \<Rightarrow> string set) \<times> (bid \<Rightarrow> string set)" where
  "live_pair \<sigma> = (\<lambda>b. \<sigma> (LIn b), \<lambda>b. \<sigma> (LOut b))"

lemma live_step_pair:
  "live_step c use defs b (live_pair \<sigma>, ch)
    = (let (\<sigma>', ch') = fold (flow_step (live_eqn c use defs)) [LOut b, LIn b] (\<sigma>, ch) in (live_pair \<sigma>', ch'))"
  by (auto simp: live_step_def live_pair_def flow_step_simp Let_def fun_eq_iff split: prod.splits)

lemma live_sweep_pair:
  "live_sweep c use defs bids (live_pair \<sigma>)
    = (let (\<sigma>', ch') = flow_sweep (live_eqn c use defs) (live_points bids) \<sigma> in (live_pair \<sigma>', ch'))"
proof -
  have "fold (live_step c use defs) bids (live_pair \<sigma>, ch)
      = (let (\<sigma>', ch') = fold (flow_step (live_eqn c use defs)) (live_points bids) (\<sigma>, ch) in (live_pair \<sigma>', ch'))"
    for \<sigma> ch
  proof (induction bids arbitrary: \<sigma> ch)
    case Nil
    then show ?case by (simp add: live_points_def)
  next
    case (Cons b bids)
    obtain \<sigma>1 ch1 where 1: "fold (flow_step (live_eqn c use defs)) [LOut b, LIn b] (\<sigma>, ch) = (\<sigma>1, ch1)"
      by fastforce
    then have "fold (flow_step (live_eqn c use defs)) (live_points (b # bids)) (\<sigma>, ch)
        = fold (flow_step (live_eqn c use defs)) (live_points bids) (\<sigma>1, ch1)"
      by (simp add: live_points_def)
    moreover have "live_step c use defs b (live_pair \<sigma>, ch) = (live_pair \<sigma>1, ch1)"
      using 1 by (simp add: live_step_pair)
    ultimately show ?case using Cons.IH by simp
  qed
  then show ?thesis by (simp add: live_sweep_def flow_sweep_def)
qed

lemma live_loop_pair:
  "sweep_loop (live_sweep c use defs bids) (\<lambda>_. {}, \<lambda>_. {})
    = map_option live_pair (flow_solve (live_eqn c use defs) (live_points bids))"
proof -
  have "live_pair (\<lambda>_. {}) = (\<lambda>_. {}, \<lambda>_. {})" by (simp add: live_pair_def)
  then show ?thesis
    unfolding flow_solve_def
    using sweep_loop_map [where h = live_pair and outer = "live_sweep c use defs bids"
        and inner = "flow_sweep (live_eqn c use defs) (live_points bids)" and s = "\<lambda>_. {}"]
    by (simp add: live_sweep_pair)
qed

lemma def_use_finite: "finite (snd (def_use evs))"
proof -
  have "finite (fst (snd (fold def_use_step evs s)))" if "finite (fst (snd s))" for s
    using that by (induction evs arbitrary: s) (auto simp: def_use_step_def Let_def split: prod.splits)
  then show ?thesis by (simp add: def_use_def case_prod_unfold)
qed

interpretation live: flow_equations
  "live_eqn c (\<lambda>b. snd (def_use (evs b))) defs" "live_points bids" "\<Union>b \<in> set bids. snd (def_use (evs b))"
  for c evs defs bids
proof
  show "live_eqn c (\<lambda>b. snd (def_use (evs b))) defs i \<sigma> \<subseteq> live_eqn c (\<lambda>b. snd (def_use (evs b))) defs i \<tau>"
    if "\<And>i. \<sigma> i \<subseteq> \<tau> i" for \<sigma> \<tau> i
    using that by (cases i) fastforce+
  show "finite (\<Union>b \<in> set bids. snd (def_use (evs b)))" by (simp add: def_use_finite)
  show "live_eqn c (\<lambda>b. snd (def_use (evs b))) defs i \<sigma> \<subseteq> (\<Union>b \<in> set bids. snd (def_use (evs b)))"
    if "\<And>i. \<sigma> i \<subseteq> (\<Union>b \<in> set bids. snd (def_use (evs b)))" "i \<in> set (live_points bids)" for \<sigma> i
    using that by (cases i) fastforce+
qed

text \<open>A variable is read before it is written on some path from a point.\<close>

inductive live_at ::
    "cfg \<Rightarrow> (bid \<Rightarrow> string set) \<Rightarrow> (bid \<Rightarrow> string set) \<Rightarrow> string \<Rightarrow> live_point \<Rightarrow> bool"
  for c use defs v where
  live_use: "b \<in> set (dict_keys (blocks c)) \<Longrightarrow> v \<in> use b \<Longrightarrow> live_at c use defs v (LIn b)"
| live_through: "b \<in> set (dict_keys (blocks c)) \<Longrightarrow> v \<notin> defs b \<Longrightarrow> live_at c use defs v (LOut b) \<Longrightarrow>
    live_at c use defs v (LIn b)"
| live_succ: "b \<in> set (dict_keys (blocks c)) \<Longrightarrow> (b, b') \<in> edge_rel c \<Longrightarrow> live_at c use defs v (LIn b') \<Longrightarrow>
    live_at c use defs v (LOut b)"

lemma live_solution_exact:
  assumes sol: "flow_solution (live_eqn c use defs) (live_points (dict_keys (blocks c))) \<sigma>"
    and least: "flow_least (live_eqn c use defs) (live_points (dict_keys (blocks c))) \<sigma>"
  shows "\<sigma> p = {v. live_at c use defs v p}"
proof
  let ?\<tau> = "\<lambda>p. {v. live_at c use defs v p}"
  have "live_eqn c use defs p ?\<tau> \<subseteq> ?\<tau> p" if "p \<in> set (live_points (dict_keys (blocks c)))" for p
  proof (cases p)
    case (LIn b)
    then show ?thesis using that by (auto intro: live_use live_through)
  next
    case (LOut b)
    have "(b, edge_target e) \<in> edge_rel c" if "e \<in> set (successors c b)" for e
      using that by (auto simp: edge_rel_succ)
    then show ?thesis using that LOut by (auto intro: live_succ)
  qed
  then show "\<sigma> p \<subseteq> ?\<tau> p" using least [unfolded flow_least_def, rule_format, of ?\<tau> p] by blast
  show "?\<tau> p \<subseteq> \<sigma> p"
  proof
    fix v
    assume "v \<in> ?\<tau> p"
    then have "live_at c use defs v p" by simp
    then show "v \<in> \<sigma> p"
    proof induction
      case (live_use b)
      then have "\<sigma> (LIn b) = live_eqn c use defs (LIn b) \<sigma>" using sol by (simp add: flow_solution_def)
      then show ?case using live_use by simp
    next
      case (live_through b)
      then have "\<sigma> (LIn b) = live_eqn c use defs (LIn b) \<sigma>" using sol by (simp add: flow_solution_def)
      then show ?case using live_through by simp
    next
      case (live_succ b b')
      then have "\<sigma> (LOut b) = live_eqn c use defs (LOut b) \<sigma>" using sol by (simp add: flow_solution_def)
      then show ?case using live_succ by (auto simp: edge_rel_def successors_def)
    qed
  qed
qed

text \<open>The def/use table comes from the events of the blocks.\<close>

lemma cfg_def_use_events:
  assumes "cfg_def_use c g = Some du"
  shows "\<exists>evs. du = (\<lambda>b. def_use (evs b))
    \<and> (distinct (dict_keys (blocks c)) \<longrightarrow> (\<forall>(b, blk) \<in> set (blocks c). block_events blk g = Some (evs b)))"
proof -
  from assms obtain dus where
    dus: "opt_map (\<lambda>(b, blk). map_option (Pair b) (block_def_use blk g)) (blocks c) = Some dus"
    and du: "du = dict_get_default ([], {}) dus" by (auto simp: cfg_def_use_def bind_eq_Some_conv)
  have "\<exists>es. dus = map (\<lambda>(b, e). (b, def_use e)) es
      \<and> list_all2 (\<lambda>(b, blk) (b', e). b = b' \<and> block_events blk g = Some e) (blocks c) es"
    using opt_map_SomeD [OF dus]
  proof (induction rule: list_all2_induct)
    case Nil
    then show ?case by simp
  next
    case (Cons p xs y ys)
    then obtain es where es: "ys = map (\<lambda>(b, e). (b, def_use e)) es"
      "list_all2 (\<lambda>(b, blk) (b', e). b = b' \<and> block_events blk g = Some e) xs es" by blast
    obtain e where "block_events (snd p) g = Some e" "y = (fst p, def_use e)"
      using Cons.hyps(1) by (auto simp: block_def_use_def case_prod_unfold)
    with es show ?case by (intro exI [of _ "(fst p, e) # es"]) (auto simp: case_prod_unfold)
  qed
  then obtain es where es: "dus = map (\<lambda>(b, e). (b, def_use e)) es"
    and all2: "list_all2 (\<lambda>(b, blk) (b', e). b = b' \<and> block_events blk g = Some e) (blocks c) es" by blast
  define evs where "evs = (\<lambda>b. case map_of es b of None \<Rightarrow> [] | Some e \<Rightarrow> e)"
  have "map_of dus b = map_option def_use (map_of es b)" for b
    unfolding es by (induction es) auto
  then have "du = (\<lambda>b. def_use (evs b))"
    by (auto simp: du dict_get_default_def evs_def fun_eq_iff def_use_def split: option.splits)
  moreover have "block_events blk g = Some (evs b)"
    if keys: "distinct (dict_keys (blocks c))" and mem: "(b, blk) \<in> set (blocks c)" for b blk
  proof -
    have "map fst es = dict_keys (blocks c)"
      using all2 unfolding dict_keys_def by (induction rule: list_all2_induct) auto
    then have dist: "distinct (map fst es)" using keys by simp
    have "\<exists>e. (b, e) \<in> set es \<and> block_events blk g = Some e"
      using all2 mem by (induction rule: list_all2_induct) auto
    then show ?thesis using dist by (auto simp: evs_def)
  qed
  ultimately show ?thesis by blast
qed

lemma liveness_result:
  assumes "cfg_def_use c g = Some du"
  shows "\<exists>lout. liveness c g = Some lout
    \<and> (\<forall>b. lout b = {v. live_at c (\<lambda>b. snd (du b)) (rd_kill du) v (LOut b)})"
proof -
  obtain evs where du: "du = (\<lambda>b. def_use (evs b))" using cfg_def_use_events [OF assms] by blast
  obtain \<sigma> where \<sigma>: "flow_solve (live_eqn c (\<lambda>b. snd (du b)) (rd_kill du)) (live_points (dict_keys (blocks c))) = Some \<sigma>"
    using live.solve_total [of c evs "rd_kill du"] unfolding du by blast
  have "\<sigma> p = {v. live_at c (\<lambda>b. snd (du b)) (rd_kill du) v p}" for p
    using live.solve_least [OF \<sigma> [unfolded du]] live_solution_exact unfolding du by blast
  then show ?thesis using assms \<sigma>
    by (simp add: liveness_def live_loop_pair live_pair_def)
qed

subsection \<open>Dead stores\<close>

text \<open>
  Whether the value a variable has before the events \<open>later\<close> is read: by the first of
  them that mentions it, or after the block.
\<close>

definition next_read :: "string \<Rightarrow> access list \<Rightarrow> string set \<Rightarrow> bool" where
  "next_read v later live = (case find (\<lambda>e. acc_name e = v) later of None \<Rightarrow> v \<in> live | Some e \<Rightarrow> reads_var e)"

definition dead_upd :: "access \<Rightarrow> string set \<Rightarrow> string set" where
  "dead_upd a live = (let live' = (if acc_write a \<and> \<not> acc_read_too a then live - {acc_name a} else live)
     in if reads_var a then insert (acc_name a) live' else live')"

lemma dead_scan_Cons:
  "dead_scan live (a # evs) =
     (if acc_write a \<and> \<not> acc_read_too a \<and> acc_name a \<notin> live then [acc_node a] else []) @ dead_scan (dead_upd a live) evs"
  by (simp add: dead_upd_def Let_def)

lemma dead_scan_append: "dead_scan live (xs @ ys) = dead_scan live xs @ dead_scan (fold dead_upd xs live) ys"
  by (induction xs arbitrary: live) (simp_all add: dead_scan_Cons del: dead_scan.simps(2))

lemma dead_upd_next_read: "v \<in> fold dead_upd (rev evs) live \<longleftrightarrow> next_read v evs live"
proof (induction evs)
  case Nil
  then show ?case by (simp add: next_read_def)
next
  case (Cons a evs)
  have "v \<in> fold dead_upd (rev (a # evs)) live \<longleftrightarrow> v \<in> dead_upd a (fold dead_upd (rev evs) live)" by simp
  also have "v \<in> dead_upd a S \<longleftrightarrow> (if acc_name a = v then reads_var a else v \<in> S)" for S
    by (auto simp: dead_upd_def Let_def reads_var_def)
  also note Cons.IH
  finally show ?case by (simp add: next_read_def)
qed

lemma dead_scan_exact:
  "n \<in> set (dead_scan live (rev evs)) \<longleftrightarrow>
    (\<exists>e1 a e2. evs = e1 @ a # e2 \<and> n = acc_node a \<and> acc_write a \<and> \<not> acc_read_too a
       \<and> \<not> next_read (acc_name a) e2 live)"
proof (induction evs)
  case Nil
  then show ?case by simp
next
  case (Cons x evs)
  let ?Q = "\<lambda>(e1 :: access list) (a :: access) e2. n = acc_node a \<and> acc_write a \<and> \<not> acc_read_too a
       \<and> \<not> next_read (acc_name a) e2 live"
  have "n \<in> set (dead_scan live (rev (x # evs))) \<longleftrightarrow> n \<in> set (dead_scan live (rev evs)) \<or> ?Q [] x evs"
    by (auto simp: dead_scan_append dead_scan_Cons dead_upd_next_read simp del: dead_scan.simps(2))
  then show ?case unfolding Cons.IH using split_Cons_ex [of x evs ?Q] by blast
qed

lemma dead_stores_result:
  assumes "ranked g r" and du: "cfg_def_use c g = Some du"
  shows "\<exists>ds. dead_stores c g = Some ds \<and> (\<forall>n. n \<in> set ds \<longleftrightarrow>
     (\<exists>b blk e1 a e2. (b, blk) \<in> set (blocks c) \<and> block_events blk g = Some (e1 @ a # e2)
        \<and> n = acc_node a \<and> acc_write a \<and> \<not> acc_read_too a
        \<and> \<not> next_read (acc_name a) e2 {v. live_at c (\<lambda>b. snd (du b)) (rd_kill du) v (LOut b)}))"
proof -
  from liveness_result [OF du] obtain lout where lout: "liveness c g = Some lout"
    "\<And>b. lout b = {v. live_at c (\<lambda>b. snd (du b)) (rd_kill du) v (LOut b)}" by blast
  let ?f = "\<lambda>(b, blk). do { evs \<leftarrow> block_events blk g; Some (dead_scan (lout b) (rev evs)) }"
  have "\<exists>y. ?f p = Some y" for p
    using block_events_total [OF assms(1), of "snd p"] by (auto split: prod.split)
  then obtain ds where ds: "opt_concat_map ?f (blocks c) = Some ds"
    using opt_concat_map_total [of "blocks c" ?f] by blast
  have "n \<in> set ds \<longleftrightarrow> (\<exists>b blk e1 a e2. (b, blk) \<in> set (blocks c) \<and> block_events blk g = Some (e1 @ a # e2)
        \<and> n = acc_node a \<and> acc_write a \<and> \<not> acc_read_too a \<and> \<not> next_read (acc_name a) e2 (lout b))" for n
  proof -
    have "n \<in> set ds \<longleftrightarrow> (\<exists>b blk evs. (b, blk) \<in> set (blocks c) \<and> block_events blk g = Some evs
        \<and> n \<in> set (dead_scan (lout b) (rev evs)))"
      by (rule opt_concat_map_pairs [OF ds])
    then show ?thesis unfolding dead_scan_exact by blast
  qed
  moreover have "dead_stores c g = Some ds" using ds lout(1) by (simp add: dead_stores_def)
  ultimately show ?thesis unfolding lout(2) by blast
qed

subsection \<open>Taint\<close>

lemma run_taint_op_Un: "run_taint_op op (X \<union> Y) = run_taint_op op X \<union> run_taint_op op Y"
  by (cases op) auto

lemma taint_transfer_Un: "taint_transfer ops (X \<union> Y) = taint_transfer ops X \<union> taint_transfer ops Y"
  unfolding taint_transfer_def
  by (induction ops arbitrary: X Y) (simp_all add: run_taint_op_Un)

text \<open>Tainted variables propagate independently of each other.\<close>

lemma taint_transfer_single:
  assumes "finite S"
  shows "v \<in> taint_transfer ops S \<longleftrightarrow> v \<in> taint_transfer ops {} \<or> (\<exists>u \<in> S. v \<in> taint_transfer ops {u})"
  using assms
proof (induction S)
  case empty
  then show ?case by simp
next
  case (insert u S)
  have "insert u S = {u} \<union> S" by simp
  then have "v \<in> taint_transfer ops (insert u S) \<longleftrightarrow> v \<in> taint_transfer ops {u} \<or> v \<in> taint_transfer ops S"
    by (metis UnE UnI1 UnI2 taint_transfer_Un)
  then show ?case using insert.IH by blast
qed

lemma taint_transfer_mono: "X \<subseteq> Y \<Longrightarrow> taint_transfer ops X \<subseteq> taint_transfer ops Y"
  by (metis Un_upper1 subset_Un_eq taint_transfer_Un)

text \<open>The variables a block's assignments mention on the left.\<close>

definition taint_targets :: "taint_op list \<Rightarrow> string set" where
  "taint_targets ops = ta_lhs ` {op \<in> set ops. \<exists>l s rs. op = TAssign l s rs}"

lemma taint_transfer_targets: "taint_transfer ops S \<subseteq> S \<union> taint_targets ops"
proof -
  have step: "run_taint_op op S \<subseteq> S \<union> taint_targets [op]" for op S
    by (cases op) (auto simp: taint_targets_def)
  have targets: "taint_targets (op # ops) = taint_targets [op] \<union> taint_targets ops" for op ops
    by (auto simp: taint_targets_def)
  show ?thesis
    unfolding taint_transfer_def
  proof (induction ops arbitrary: S)
    case Nil
    then show ?case by simp
  next
    case (Cons op ops)
    from Cons.IH [of "run_taint_op op S"] step [of op S] targets [of op ops]
    show ?case unfolding fold_simps by blast
  qed
qed

interpretation taint: flow_equations "taint_eqn c ops" bids "\<Union>b \<in> set bids. taint_targets (ops b)"
  for c ops bids
proof
  show "taint_eqn c ops i \<sigma> \<subseteq> taint_eqn c ops i \<tau>" if "\<And>i. \<sigma> i \<subseteq> \<tau> i" for \<sigma> \<tau> i
    unfolding taint_eqn_def by (rule taint_transfer_mono) (rule in_set_mono [OF that])
  show "finite (\<Union>b \<in> set bids. taint_targets (ops b))" by (auto simp: taint_targets_def)
  show "taint_eqn c ops i \<sigma> \<subseteq> (\<Union>b \<in> set bids. taint_targets (ops b))"
    if "\<And>i. \<sigma> i \<subseteq> (\<Union>b \<in> set bids. taint_targets (ops b))" "i \<in> set bids" for \<sigma> i
    using taint_transfer_targets [of "ops i" "in_set i c \<sigma>"]
      in_set_bounded [of \<sigma> "\<Union>b \<in> set bids. taint_targets (ops b)" i c] that
    unfolding taint_eqn_def by blast
qed

text \<open>Taint at the end of a block: generated in it, or carried into it along an edge.\<close>

inductive taint_reaches :: "cfg \<Rightarrow> (bid \<Rightarrow> taint_op list) \<Rightarrow> string \<Rightarrow> bid \<Rightarrow> bool" for c ops where
  taint_source: "b \<in> set (dict_keys (blocks c)) \<Longrightarrow> v \<in> taint_transfer (ops b) {} \<Longrightarrow> taint_reaches c ops v b"
| taint_carried: "taint_reaches c ops u a \<Longrightarrow> (a, b) \<in> edge_rel c \<Longrightarrow> b \<in> set (dict_keys (blocks c)) \<Longrightarrow>
    v \<in> taint_transfer (ops b) {u} \<Longrightarrow> taint_reaches c ops v b"

lemma taint_solution_exact:
  assumes sol: "flow_solution (taint_eqn c ops) (dict_keys (blocks c)) out"
    and least: "flow_least (taint_eqn c ops) (dict_keys (blocks c)) out"
    and fin: "finite U" "\<And>b. out b \<subseteq> U"
  shows "out b = {v. taint_reaches c ops v b}"
proof
  let ?\<tau> = "\<lambda>b. out b \<inter> {v. taint_reaches c ops v b}"
  have fin_in: "finite (in_set b c \<tau>)" if "\<And>b. \<tau> b \<subseteq> U" for b \<tau>
    using in_set_bounded [of \<tau> U b c] that fin(1) finite_subset by blast
  have "taint_eqn c ops b ?\<tau> \<subseteq> ?\<tau> b" if b: "b \<in> set (dict_keys (blocks c))" for b
  proof
    fix v
    assume v: "v \<in> taint_eqn c ops b ?\<tau>"
    have "taint_eqn c ops b ?\<tau> \<subseteq> taint_eqn c ops b out" by (rule taint.mono) simp
    then have "v \<in> out b" using v sol b by (auto simp: flow_solution_def)
    moreover have "finite (in_set b c ?\<tau>)" using fin_in [of ?\<tau>] fin(2) by blast
    then have "v \<in> taint_transfer (ops b) {} \<or> (\<exists>u \<in> in_set b c ?\<tau>. v \<in> taint_transfer (ops b) {u})"
      using v taint_transfer_single [of "in_set b c ?\<tau>" v "ops b"] unfolding taint_eqn_def by blast
    then have "taint_reaches c ops v b"
      using b by (auto simp: in_set_edge intro: taint_source taint_carried)
    ultimately show "v \<in> ?\<tau> b" by simp
  qed
  then show "out b \<subseteq> {v. taint_reaches c ops v b}"
    using least [unfolded flow_least_def, rule_format, of ?\<tau> b] by blast
  show "{v. taint_reaches c ops v b} \<subseteq> out b"
  proof
    fix v
    assume "v \<in> {v. taint_reaches c ops v b}"
    then have "taint_reaches c ops v b" by simp
    then show "v \<in> out b"
    proof induction
      case (taint_source b v)
      then have "out b = taint_eqn c ops b out" using sol by (simp add: flow_solution_def)
      then show ?case using taint_source taint_transfer_mono [of "{}" "in_set b c out" "ops b"]
        by (auto simp: taint_eqn_def)
    next
      case (taint_carried u a b v)
      then have "out b = taint_eqn c ops b out" using sol by (simp add: flow_solution_def)
      moreover have "{u} \<subseteq> in_set b c out" using taint_carried by (auto simp: in_set_edge)
      from taint_transfer_mono [OF this, of "ops b"] taint_carried have "v \<in> taint_eqn c ops b out"
        unfolding taint_eqn_def by blast
      ultimately show ?case by simp
    qed
  qed
qed

lemma taint_findings_exact:
  "fd \<in> set (taint_findings sinks ops S) \<longleftrightarrow>
    (\<exists>o1 op o2. ops = o1 @ op # o2 \<and> fd \<in> set (op_findings sinks op (taint_transfer o1 S)))"
proof (induction ops arbitrary: S)
  case Nil
  then show ?case by simp
next
  case (Cons x ops)
  let ?Q = "\<lambda>(o1 :: taint_op list) op (o2 :: taint_op list). fd \<in> set (op_findings sinks op (taint_transfer o1 S))"
  have tt: "taint_transfer (x # o1) S = taint_transfer o1 (run_taint_op x S)" for o1
    by (simp add: taint_transfer_def)
  have "(\<exists>o1 op o2. x # ops = o1 @ op # o2 \<and> ?Q o1 op o2) \<longleftrightarrow>
      ?Q [] x ops \<or> (\<exists>o1 op o2. ops = o1 @ op # o2 \<and> ?Q (x # o1) op o2)"
    by (rule split_Cons_ex)
  moreover have "?Q [] x ops \<longleftrightarrow> fd \<in> set (op_findings sinks x S)" by (simp add: taint_transfer_def)
  ultimately show ?case using Cons.IH [of "run_taint_op x S"] by (simp add: tt)
qed

lemma block_taint_ops_total [opt_intro]:
  assumes "ranked g r"
  shows "\<exists>ops. block_taint_ops g sources blk = Some ops"
proof -
  have "\<exists>ns. opt_concat_map (\<lambda>s. statement_own_descendants s g) (statements blk) = Some ns"
    by (rule opt_concat_map_total) (rule statement_own_descendants_total [OF assms])
  then obtain ns where ns: "opt_concat_map (\<lambda>s. statement_own_descendants s g) (statements blk) = Some ns" ..
  have "\<exists>ops. taint_ops_of_node g sources n = Some ops" for n
    using with_descendants_total [OF assms, of "children g (node_id n) ! 1"]
    by (auto simp: taint_ops_of_node_def Let_def)
  then have "\<exists>ops. opt_concat_map (taint_ops_of_node g sources) ns = Some ops"
    by (intro opt_concat_map_total)
  then show ?thesis by (auto simp: block_taint_ops_def ns)
qed

lemma cfg_taint_ops_total [opt_intro]:
  assumes "ranked g r"
  shows "\<exists>ops. cfg_taint_ops c g sources = Some ops"
proof -
  have "\<exists>y. (case p of (b, blk) \<Rightarrow> map_option (Pair b) (block_taint_ops g sources blk)) = Some y" for p
    using block_taint_ops_total [OF assms, of sources "snd p"] by (auto split: prod.split)
  then have "\<exists>opss. opt_map (\<lambda>(b, blk). map_option (Pair b) (block_taint_ops g sources blk)) (blocks c) = Some opss"
    by (intro opt_map_total)
  then show ?thesis by (auto simp: cfg_taint_ops_def)
qed

text \<open>A variable is tainted after the operations \<open>o1\<close> of a block, from within or from before it.\<close>

definition tainted_after :: "cfg \<Rightarrow> (bid \<Rightarrow> taint_op list) \<Rightarrow> bid \<Rightarrow> taint_op list \<Rightarrow> string \<Rightarrow> bool" where
  "tainted_after c ops b o1 v \<longleftrightarrow> v \<in> taint_transfer o1 {}
     \<or> (\<exists>a u. (a, b) \<in> edge_rel c \<and> taint_reaches c ops u a \<and> v \<in> taint_transfer o1 {u})"

text \<open>The finding a call to a sink makes for one of its arguments.\<close>

definition taint_report ::
    "cfg \<Rightarrow> (bid \<Rightarrow> taint_op list) \<Rightarrow> string set \<Rightarrow> bid \<Rightarrow> taint_op list \<Rightarrow> taint_op \<Rightarrow> taint_finding \<Rightarrow> bool" where
  "taint_report c ops sinks b o1 op fd \<longleftrightarrow>
     (\<exists>n callee args arg. op = TCall n callee args \<and> callee \<in> sinks \<and> arg \<in> set args \<and> arg \<noteq> []
        \<and> tainted_after c ops b o1 arg
        \<and> fd = \<lparr>sink_call_node_id = n, sink_function_name = callee, tainted_argument = arg,
                source_description = taint_message arg\<rparr>)"

lemma propagate_taint_result:
  assumes ops: "cfg_taint_ops c g sources = Some ops"
  shows "\<exists>fs. propagate_taint c g sources sinks = Some fs \<and> (\<forall>fd. fd \<in> set fs \<longleftrightarrow>
    (\<exists>b o1 op o2. b \<in> set (dict_keys (blocks c)) \<and> ops b = o1 @ op # o2
       \<and> taint_report c ops sinks b o1 op fd))"
proof -
  let ?U = "\<Union>b \<in> set (dict_keys (blocks c)). taint_targets (ops b)"
  obtain out where out: "flow_solve (taint_eqn c ops) (dict_keys (blocks c)) = Some out"
    using taint.solve_total by blast
  note least = taint.solve_least [OF out]
  have out_eq: "out b = {v. taint_reaches c ops v b}" for b
    by (rule taint_solution_exact [OF least(1,2) taint.finite_univ least(3)])
  have fin: "finite (in_set b c out)" for b
    using in_set_bounded [of out ?U b c] least(3) taint.finite_univ finite_subset by blast
  have after: "v \<in> taint_transfer o1 (in_set b c out) \<longleftrightarrow> tainted_after c ops b o1 v" for v o1 b
    unfolding taint_transfer_single [OF fin] tainted_after_def in_set_edge Bex_def out_eq by blast
  define fs where "fs = concat (map (\<lambda>b. taint_findings sinks (ops b) (in_set b c out)) (dict_keys (blocks c)))"
  have "fd \<in> set fs \<longleftrightarrow> (\<exists>b o1 op o2. b \<in> set (dict_keys (blocks c)) \<and> ops b = o1 @ op # o2
      \<and> fd \<in> set (op_findings sinks op (taint_transfer o1 (in_set b c out))))" for fd
    unfolding fs_def set_concat set_map image_image UN_iff taint_findings_exact by blast
  moreover have "fd \<in> set (op_findings sinks op (taint_transfer o1 (in_set b c out)))
      \<longleftrightarrow> taint_report c ops sinks b o1 op fd" for fd op o1 b
    by (cases op) (auto simp: after taint_report_def)
  ultimately have "fd \<in> set fs \<longleftrightarrow>
    (\<exists>b o1 op o2. b \<in> set (dict_keys (blocks c)) \<and> ops b = o1 @ op # o2
       \<and> taint_report c ops sinks b o1 op fd)" for fd by simp
  moreover have "propagate_taint c g sources sinks = Some fs"
    by (simp add: propagate_taint_def ops out fs_def)
  ultimately show ?thesis by blast
qed

subsection \<open>An example\<close>

text \<open>
  \<open>void f(void) { int x; x = x + 1; }\<close> with source positions, and its graph of one
  block.
\<close>

definition upd_f where "upd_f = ex_node ''f'' ''FunctionDecl'' [] [''c''] [(''name'', PStr ''f'')] 1 1"
definition upd_c where "upd_c = ex_node ''c'' ''CompoundStmt'' ''f'' [''d'', ''a''] [] 1 10"
definition upd_d where "upd_d = ex_node ''d'' ''VarDecl'' ''c'' [] [(''name'', PStr ''x'')] 2 3"
definition upd_a where "upd_a = ex_node ''a'' ''BinaryOperator'' ''c'' [''l'', ''p''] [(''opcode'', PStr ''='')] 3 3"
definition upd_l where "upd_l = ex_node ''l'' ''DeclRefExpr'' ''a'' [] [(''name'', PStr ''x'')] 3 3"
definition upd_p where "upd_p = ex_node ''p'' ''BinaryOperator'' ''a'' [''r'', ''k''] [(''opcode'', PStr ''+'')] 3 7"
definition upd_r where "upd_r = ex_node ''r'' ''DeclRefExpr'' ''p'' [] [(''name'', PStr ''x'')] 3 7"
definition upd_k where "upd_k = ex_node ''k'' ''IntegerLiteral'' ''p'' [] [(''value'', PStr ''1'')] 3 11"

lemmas upd_nodes = upd_f_def upd_c_def upd_d_def upd_a_def upd_l_def upd_p_def upd_r_def upd_k_def

lemma upd_ids [simp]:
  "node_id upd_f = ''f''" "node_id upd_c = ''c''" "node_id upd_d = ''d''" "node_id upd_a = ''a''"
  "node_id upd_l = ''l''" "node_id upd_p = ''p''" "node_id upd_r = ''r''" "node_id upd_k = ''k''"
  by (simp_all add: upd_nodes)

lemma upd_kinds [simp]:
  "node_kind upd_f = ''FunctionDecl''" "node_kind upd_c = ''CompoundStmt''" "node_kind upd_d = ''VarDecl''"
  "node_kind upd_a = ''BinaryOperator''" "node_kind upd_l = ''DeclRefExpr''" "node_kind upd_p = ''BinaryOperator''"
  "node_kind upd_r = ''DeclRefExpr''" "node_kind upd_k = ''IntegerLiteral''"
  by (simp_all add: upd_nodes)

lemma upd_children_ids [simp]:
  "children_ids upd_f = [''c'']" "children_ids upd_c = [''d'', ''a'']" "children_ids upd_d = []"
  "children_ids upd_a = [''l'', ''p'']" "children_ids upd_l = []" "children_ids upd_p = [''r'', ''k'']"
  "children_ids upd_r = []" "children_ids upd_k = []"
  by (simp_all add: upd_nodes)

definition upd_graph :: ast_graph where
  "upd_graph = mk_graph [upd_f, upd_c, upd_d, upd_a, upd_l, upd_p, upd_r, upd_k]"

definition upd_block :: basic_block where
  "upd_block = \<lparr>block_id = B 1, statements = [upd_d, upd_a], block_kind = NormalBlock\<rparr>"

definition upd_cfg :: cfg where
  "upd_cfg = \<lparr>function_node_id = ''f'',
     blocks = [(Entry, \<lparr>block_id = Entry, statements = [], block_kind = EntryBlock\<rparr>),
               (Exit, \<lparr>block_id = Exit, statements = [], block_kind = ExitBlock\<rparr>), (B 1, upd_block)],
     edges = [cfg_edge_of Entry (B 1) Fallthrough, cfg_edge_of (B 1) Exit ImplicitReturn]\<rparr>"

lemma upd_get:
  "g_get upd_graph i = (if i = ''f'' then Some upd_f else if i = ''c'' then Some upd_c
     else if i = ''d'' then Some upd_d else if i = ''a'' then Some upd_a else if i = ''l'' then Some upd_l
     else if i = ''p'' then Some upd_p else if i = ''r'' then Some upd_r else if i = ''k'' then Some upd_k else None)"
  by (simp add: upd_graph_def g_get_mk_graph)

lemma upd_children:
  "children upd_graph i = (if i = ''f'' then [upd_c] else if i = ''c'' then [upd_d, upd_a]
     else if i = ''a'' then [upd_l, upd_p] else if i = ''p'' then [upd_r, upd_k] else [])"
  by (simp add: children_def upd_get List.map_filter_simps)

definition upd_rank :: "string \<Rightarrow> nat" where
  "upd_rank i = (if i = ''f'' then 4 else if i = ''c'' then 3 else if i = ''a'' then 2 else if i = ''p'' then 1 else 0)"

lemma upd_ranked: "ranked upd_graph upd_rank"
proof -
  have "nodes_list upd_graph = [upd_f, upd_c, upd_d, upd_a, upd_l, upd_p, upd_r, upd_k]" "graph_ok upd_graph"
    by (simp_all add: upd_graph_def)
  then show ?thesis unfolding ranked_def by (simp add: upd_children upd_rank_def)
qed

lemma upd_descendants:
  "descendants upd_graph ''a'' = Some [upd_p, upd_k, upd_r, upd_l]" "descendants upd_graph ''d'' = Some []"
  by (simp_all add: descendants_def upd_children desc_loop_Cons)

text \<open>The write of \<open>x\<close> comes first, because its left-hand side is first in the source.\<close>

lemma upd_events: "block_events upd_block upd_graph = Some
    [\<lparr>acc_name = ''x'', acc_write = True, acc_read_too = False, acc_node = upd_l\<rparr>,
     \<lparr>acc_name = ''x'', acc_write = False, acc_read_too = False, acc_node = upd_r\<rparr>]"
proof -
  have a: "statement_own_descendants upd_a upd_graph = Some [upd_a, upd_p, upd_k, upd_r, upd_l]"
    by (simp add: statement_own_descendants_def with_descendants_def Let_def upd_descendants)
  have d: "statement_own_descendants upd_d upd_graph = Some [upd_d]"
    by (simp add: statement_own_descendants_def with_descendants_def Let_def upd_descendants)
  have pos: "line_start upd_l = 3" "column_start upd_l = 3" "line_start upd_r = 3" "column_start upd_r = 7"
    by (simp_all add: upd_l_def upd_r_def)
  have lin: "linearize [upd_r, upd_l] = [upd_l, upd_r]"
    by (simp add: linearize_def pos)
  have names: "decl_ref_name upd_l = ''x''" "decl_ref_name upd_r = ''x''"
    by (simp_all add: decl_ref_name_def sem_str_def prop_str_def upd_l_def upd_r_def)
  have par: "parent_id upd_l = ''a''" "parent_id upd_r = ''p''" by (simp_all add: upd_l_def upd_r_def)
  have op: "sem_str upd_a ''opcode'' = ''=''" "sem_str upd_p ''opcode'' = ''+''"
    by (simp_all add: sem_str_def prop_str_def upd_a_def upd_p_def)
  have acc: "is_write_target upd_l upd_graph = (True, False)" "is_write_target upd_r upd_graph = (False, False)"
    by (simp_all add: is_write_target_def upd_get upd_children Let_def par op ends_with_def)
  show ?thesis
    by (simp add: block_events_def opt_concat_map_def upd_block_def a d lin names acc access_of_def)
qed

lemma upd_other_events: "block_events \<lparr>block_id = b, statements = [], block_kind = k\<rparr> upd_graph = Some []"
  by (simp add: block_events_def opt_concat_map_def linearize_def)

lemma upd_reported: "uninitialized_reads upd_f upd_cfg upd_graph = Some []"
proof -
  obtain uninit du where ud: "uninit_defs upd_f upd_cfg upd_graph = Some uninit"
    "cfg_def_use upd_cfg upd_graph = Some du"
    using uninit_defs_total [OF upd_ranked] cfg_def_use_total [OF upd_ranked] by blast
  from uninitialized_reads_result [OF upd_ranked ud] obtain rs where
    rs: "uninitialized_reads upd_f upd_cfg upd_graph = Some rs"
    and mem: "\<forall>n. n \<in> set rs \<longleftrightarrow> (\<exists>b blk e1 a e2. (b, blk) \<in> set (blocks upd_cfg)
        \<and> block_events blk upd_graph = Some (e1 @ a # e2) \<and> n = acc_node a \<and> reads_var a
        \<and> uninit_at upd_cfg uninit du (acc_name a) b
        \<and> (\<forall>e \<in> set e1. acc_write e \<longrightarrow> acc_name e \<noteq> acc_name a))" by (elim exE conjE)
  have "False" if "n \<in> set rs" for n
  proof -
    from mem [rule_format, THEN iffD1, OF that] obtain b blk e1 a e2 where m: "(b, blk) \<in> set (blocks upd_cfg)"
      "block_events blk upd_graph = Some (e1 @ a # e2)" "reads_var a"
      "\<forall>e \<in> set e1. acc_write e \<longrightarrow> acc_name e \<noteq> acc_name a" by blast
    then have "blk = upd_block" by (auto simp: upd_cfg_def upd_other_events)
    with m(2) have ev: "e1 @ a # e2 = [\<lparr>acc_name = ''x'', acc_write = True, acc_read_too = False, acc_node = upd_l\<rparr>,
       \<lparr>acc_name = ''x'', acc_write = False, acc_read_too = False, acc_node = upd_r\<rparr>]" by (simp add: upd_events)
    then show False
      using m(3,4) by (auto simp: append_eq_Cons_conv reads_var_def)
  qed
  then show ?thesis using rs by (cases rs) auto
qed

subsection \<open>Properties\<close>









text \<open>
  In \<open>int x; x = x + 1;\<close> the uninitialized read of \<open>x\<close> is not reported: the
  events of a block are in source order, so the write on the left of the assignment comes before
  the read on its right.
\<close>

theorem self_assignment_read_missed:
  "block_events upd_block upd_graph = Some
     [\<lparr>acc_name = ''x'', acc_write = True, acc_read_too = False, acc_node = upd_l\<rparr>,
      \<lparr>acc_name = ''x'', acc_write = False, acc_read_too = False, acc_node = upd_r\<rparr>]
   \<and> uninitialized_reads upd_f upd_cfg upd_graph = Some []"
  using upd_events upd_reported by (rule conjI)

end
