(* ===== verification/Alias.thy ===== *)
theory Alias
  imports Ast_Graph
begin

text \<open>
  \<open>AliasAnalyzer\<close> (\<open>alias_analyzer.py\<close>): the flow-insensitive points-to map of one
  function and its queries.  Sets of pointees are sets, so results the code lists in the order
  of a Python set are sets here.  The main lemma covers every execution of the function's
  pointer assignments, in any order.
\<close>

subsection \<open>Points-to facts\<close>

datatype confidence = Unknown_Conf | Possible | Definite

text \<open>\<open>_CONFIDENCE_RANK\<close>\<close>

fun confidence_rank :: "confidence \<Rightarrow> nat" where
  "confidence_rank Definite = 2"
| "confidence_rank Possible = 1"
| "confidence_rank Unknown_Conf = 0"

lemma confidence_rank_inject: "confidence_rank a = confidence_rank b \<longleftrightarrow> a = b"
  by (cases a; cases b) simp_all

instantiation confidence :: linorder
begin

definition "a \<le> b \<longleftrightarrow> confidence_rank a \<le> confidence_rank b"
definition "a < b \<longleftrightarrow> confidence_rank a < confidence_rank b"

instance
  by standard (auto simp: less_eq_confidence_def less_confidence_def confidence_rank_inject)

end

datatype pointee_kind = Variable_Kind | Array_Kind | Function_Kind | Heap_Kind | Unknown_Kind

record pointee =
  pt_target :: string
  pt_kind :: pointee_kind
  pt_confidence :: confidence

definition UNKNOWN_TARGET :: string where
  "UNKNOWN_TARGET = ''<unknown>''"

definition unknown_pointee :: pointee where
  "unknown_pointee = \<lparr>pt_target = UNKNOWN_TARGET, pt_kind = Unknown_Kind, pt_confidence = Unknown_Conf\<rparr>"

type_synonym points_to_map = "(string, pointee set) dict"

definition points_to :: "points_to_map \<Rightarrow> string \<Rightarrow> pointee set" where
  "points_to pts name = dict_get_default {} pts name"

text \<open>\<open>self._points_to.setdefault(name, set()).add(pointee)\<close>\<close>

definition add_pointee :: "string \<Rightarrow> pointee \<Rightarrow> points_to_map \<Rightarrow> points_to_map" where
  "add_pointee name p pts = dict_set name (insert p (points_to pts name)) pts"

text \<open>The loop over the resolved pointees; no pointee, no key.\<close>

definition add_pointees :: "string \<Rightarrow> pointee set \<Rightarrow> points_to_map \<Rightarrow> points_to_map" where
  "add_pointees name ps pts = (if ps = {} then pts else dict_set name (ps \<union> points_to pts name) pts)"

lemma points_to_add_pointee [simp]:
  "points_to (add_pointee name p pts) x = (if x = name then insert p (points_to pts name) else points_to pts x)"
  by (simp add: add_pointee_def points_to_def dict_get_default_def)

lemma points_to_add_pointees [simp]:
  "points_to (add_pointees name ps pts) x = (if x = name then ps \<union> points_to pts name else points_to pts x)"
  by (simp add: add_pointees_def points_to_def dict_get_default_def)

subsection \<open>Building the map\<close>

definition node_name :: "ast_node \<Rightarrow> string" where
  "node_name n = sem_str n ''name''"

definition seed_parameter :: "ast_node \<Rightarrow> points_to_map \<Rightarrow> points_to_map" where
  "seed_parameter n pts =
     (if node_kind n = ''ParmVarDecl'' \<and> ty_flag n ''is_pointer'' \<and> node_name n \<noteq> []
      then add_pointee (node_name n) unknown_pointee pts else pts)"

definition seed_pointer_parameters :: "ast_node \<Rightarrow> ast_graph \<Rightarrow> points_to_map \<Rightarrow> points_to_map" where
  "seed_pointer_parameters f g pts = fold seed_parameter (children g (node_id f)) pts"

text \<open>A copy weakens definite facts when the source has several.\<close>

definition copy_pointee :: "bool \<Rightarrow> pointee \<Rightarrow> pointee" where
  "copy_pointee downgrade p =
     (if downgrade \<and> pt_confidence p = Definite then p\<lparr>pt_confidence := Possible\<rparr> else p)"

definition resolve_rhs :: "points_to_map \<Rightarrow> ast_graph \<Rightarrow> ast_node \<Rightarrow> pointee set" where
  "resolve_rhs pts g rhs =
     (if node_kind rhs = ''UnaryOperator'' \<and> sem_str rhs ''opcode'' = ''&''
      then (case children g (node_id rhs) of [] \<Rightarrow> {unknown_pointee}
            | operand # _ \<Rightarrow>
                if node_kind operand = ''DeclRefExpr'' \<and> node_name operand \<noteq> []
                then {\<lparr>pt_target = node_name operand,
                      pt_kind = (if sem_flag operand ''is_function'' then Function_Kind else Variable_Kind),
                      pt_confidence = Definite\<rparr>}
                else {unknown_pointee})
      else if node_kind rhs = ''DeclRefExpr''
      then let name = node_name rhs in
           if sem_flag rhs ''is_function''
           then (if name \<noteq> [] then {\<lparr>pt_target = name, pt_kind = Function_Kind, pt_confidence = Definite\<rparr>} else {})
           else if ty_flag rhs ''is_array''
           then (if name \<noteq> [] then {\<lparr>pt_target = name, pt_kind = Array_Kind, pt_confidence = Definite\<rparr>} else {})
           else if name \<in> set (dict_keys pts)
           then copy_pointee (card (points_to pts name) > 1) ` points_to pts name
           else {unknown_pointee}
      else if node_kind rhs = ''CallExpr''
      then {\<lparr>pt_target = ''<heap:'' @ sem_str rhs ''callee'' @ ''>'', pt_kind = Heap_Kind, pt_confidence = Possible\<rparr>}
      else {})"

text \<open>The variable a statement assigns and the expression it assigns, if it is one the analyzer handles.\<close>

definition var_decl_source :: "ast_graph \<Rightarrow> ast_node \<Rightarrow> (string \<times> ast_node) option" where
  "var_decl_source g n =
     (if node_name n = [] \<or> \<not> ty_flag n ''is_pointer'' then None
      else map_option (Pair (node_name n))
        (find (\<lambda>c. node_kind c \<notin> {''BuiltinType'', ''PointerType'', ''RecordType''}) (children g (node_id n))))"

definition assignment_source :: "ast_graph \<Rightarrow> ast_node \<Rightarrow> (string \<times> ast_node) option" where
  "assignment_source g n = (case children g (node_id n) of
       lhs # rhs # _ \<Rightarrow>
         if node_kind lhs = ''DeclRefExpr'' \<and> node_name lhs \<noteq> [] then Some (node_name lhs, rhs) else None
     | _ \<Rightarrow> None)"

definition handle_var_decl :: "ast_graph \<Rightarrow> ast_node \<Rightarrow> points_to_map \<Rightarrow> points_to_map" where
  "handle_var_decl g n pts = (case var_decl_source g n of None \<Rightarrow> pts
     | Some (name, e) \<Rightarrow> add_pointees name (resolve_rhs pts g e) pts)"

definition handle_assignment :: "ast_graph \<Rightarrow> ast_node \<Rightarrow> points_to_map \<Rightarrow> points_to_map" where
  "handle_assignment g n pts = (case assignment_source g n of None \<Rightarrow> pts
     | Some (name, e) \<Rightarrow> add_pointees name (resolve_rhs pts g e) pts)"

definition alias_step :: "ast_graph \<Rightarrow> ast_node \<Rightarrow> points_to_map \<Rightarrow> points_to_map" where
  "alias_step g n pts =
     (if node_kind n = ''VarDecl'' then handle_var_decl g n pts else handle_assignment g n pts)"

definition alias_pass :: "ast_graph \<Rightarrow> ast_node list \<Rightarrow> points_to_map \<Rightarrow> points_to_map" where
  "alias_pass g relevant pts = fold (alias_step g) relevant pts"

text \<open>The comparison of the two snapshots is equality of dictionaries, order apart.\<close>

definition same_map :: "points_to_map \<Rightarrow> points_to_map \<Rightarrow> bool" where
  "same_map p q \<longleftrightarrow> set (dict_keys p) = set (dict_keys q) \<and> (\<forall>k \<in> set (dict_keys p). points_to p k = points_to q k)"

fun alias_passes :: "nat \<Rightarrow> ast_graph \<Rightarrow> ast_node list \<Rightarrow> points_to_map \<Rightarrow> points_to_map" where
  "alias_passes 0 g relevant pts = pts"
| "alias_passes (Suc k) g relevant pts =
     (let pts' = alias_pass g relevant pts in
      if same_map pts' pts then pts' else alias_passes k g relevant pts')"

definition alias_relevant :: "ast_node \<Rightarrow> bool" where
  "alias_relevant n \<longleftrightarrow> node_kind n = ''VarDecl''
     \<or> (node_kind n = ''BinaryOperator'' \<and> sem_str n ''opcode'' = ''='')"

definition relevant_nodes :: "ast_node \<Rightarrow> ast_graph \<Rightarrow> ast_node list option" where
  "relevant_nodes f g = map_option (\<lambda>ds. linearize (filter alias_relevant ds)) (descendants g (node_id f))"

definition analyze_aliases :: "ast_node \<Rightarrow> ast_graph \<Rightarrow> points_to_map option" where
  "analyze_aliases f g = do {
     relevant \<leftarrow> relevant_nodes f g;
     Some (alias_passes (length relevant + 1) g relevant (seed_pointer_parameters f g [])) }"

subsection \<open>Queries\<close>

definition has_unknown :: "pointee set \<Rightarrow> bool" where
  "has_unknown ps \<longleftrightarrow> (\<exists>p \<in> ps. pt_kind p = Unknown_Kind)"

text \<open>
  The confidence the loop of \<open>may_alias\<close> accumulates and does not use.
\<close>

definition best_confidence :: "pointee set \<Rightarrow> pointee set \<Rightarrow> confidence" where
  "best_confidence sa sb =
     Max (insert Unknown_Conf (pt_confidence ` {p \<in> sa \<union> sb. pt_target p \<in> pt_target ` sa \<inter> pt_target ` sb}))"

definition may_alias :: "points_to_map \<Rightarrow> string \<Rightarrow> string \<Rightarrow> bool \<times> confidence" where
  "may_alias pts a b =
     (let sa = points_to pts a; sb = points_to pts b in
      if sa = {} \<or> sb = {} then (False, Unknown_Conf)
      else if has_unknown sa \<or> has_unknown sb then (True, Unknown_Conf)
      else if pt_target ` sa \<inter> pt_target ` sb = {} then (False, Definite)
      else (True, if card sa = 1 \<and> card sb = 1 \<and> pt_confidence ` sa = {Definite} \<and> pt_confidence ` sb = {Definite}
                  then Definite else Possible))"

definition aliases_of_kind :: "pointee_kind \<Rightarrow> points_to_map \<Rightarrow> (string \<times> pointee) set" where
  "aliases_of_kind k pts = (\<Union>(name, ps) \<in> set pts. Pair name ` {p \<in> ps. pt_kind p = k})"

definition pointer_aliases :: "points_to_map \<Rightarrow> (string \<times> pointee) set" where
  "pointer_aliases = aliases_of_kind Variable_Kind"

definition array_aliases :: "points_to_map \<Rightarrow> (string \<times> pointee) set" where
  "array_aliases = aliases_of_kind Array_Kind"

definition function_pointer_aliases :: "points_to_map \<Rightarrow> (string \<times> pointee) set" where
  "function_pointer_aliases = aliases_of_kind Function_Kind"

definition all_pointer_names :: "points_to_map \<Rightarrow> string list" where
  "all_pointer_names = dict_keys"

definition aliases_of :: "points_to_map \<Rightarrow> string \<Rightarrow> string set" where
  "aliases_of pts name = insert name (set (filter (\<lambda>other. other \<noteq> name \<and> fst (may_alias pts name other)) (all_pointer_names pts)))"

subsection \<open>Violation queries\<close>

definition mem_compat_callees :: "string list" where
  "mem_compat_callees = [''memcpy'', ''memmove'', ''memcmp'']"

definition string_overflow_callees :: "string list" where
  "string_overflow_callees = [''strcpy'', ''strcat'', ''sprintf'', ''snprintf'', ''gets'']"

definition size_bound_callees :: "string list" where
  "size_bound_callees = [''memcpy'', ''memmove'', ''memset'', ''strncpy'']"

definition string_invalidators :: "string list" where
  "string_invalidators = [''strtok'', ''asctime'', ''ctime'', ''gmtime'', ''localtime'']"

definition file_invalidators :: "string list" where
  "file_invalidators = [''fclose'']"

definition function_nodes :: "ast_node \<Rightarrow> ast_graph \<Rightarrow> ast_node list option" where
  "function_nodes f g = map_option (Cons f) (descendants g (node_id f))"

definition decl_ref_names_in :: "ast_node \<Rightarrow> ast_graph \<Rightarrow> string list option" where
  "decl_ref_names_in n g = map_option
     (\<lambda>ds. filter (\<lambda>s. s \<noteq> []) (map node_name (filter (\<lambda>m. node_kind m = ''DeclRefExpr'') (n # ds))))
     (descendants g (node_id n))"

definition callee :: "ast_node \<Rightarrow> string" where
  "callee n = sem_str n ''callee''"

definition is_out_of_bounds_arithmetic :: "points_to_map \<Rightarrow> ast_node \<Rightarrow> bool" where
  "is_out_of_bounds_arithmetic pts n \<longleftrightarrow>
     sem_flag n ''pointer_arithmetic_out_of_bounds''
   \<or> (node_kind n \<in> {''BinaryOperator'', ''UnaryOperator''} \<and> sem_flag n ''is_pointer_arithmetic''
       \<and> sem_str n ''pointer_name'' \<noteq> [] \<and> points_to pts (sem_str n ''pointer_name'') \<noteq> {}
       \<and> sem_flag n ''offset_exceeds_array_size'')"

definition pointer_arithmetic_violations :: "points_to_map \<Rightarrow> ast_node \<Rightarrow> ast_graph \<Rightarrow> ast_node list option" where
  "pointer_arithmetic_violations pts f g = map_option (filter (is_out_of_bounds_arithmetic pts)) (function_nodes f g)"

definition is_incompatible_mem_call :: "ast_graph \<Rightarrow> ast_node \<Rightarrow> bool" where
  "is_incompatible_mem_call g n \<longleftrightarrow>
     node_kind n = ''CallExpr'' \<and> callee n \<in> set mem_compat_callees
   \<and> (sem_flag n ''incompatible_pointer_args''
      \<or> (case children g (node_id n) of
           a # b # _ \<Rightarrow>
             (let l = ty_str a ''pointee_type''; r = ty_str b ''pointee_type'' in
              l \<noteq> [] \<and> r \<noteq> [] \<and> l \<noteq> r \<and> ''void'' \<notin> {l, r})
         | _ \<Rightarrow> False))"

definition incompatible_mem_calls :: "ast_node \<Rightarrow> ast_graph \<Rightarrow> ast_node list option" where
  "incompatible_mem_calls f g = map_option (filter (is_incompatible_mem_call g)) (function_nodes f g)"

definition flagged_calls :: "string list \<Rightarrow> string \<Rightarrow> ast_node \<Rightarrow> ast_graph \<Rightarrow> ast_node list option" where
  "flagged_calls callees flag f g = map_option
     (filter (\<lambda>n. node_kind n = ''CallExpr'' \<and> callee n \<in> set callees \<and> sem_flag n flag)) (function_nodes f g)"

definition string_buffer_overflow_calls :: "ast_node \<Rightarrow> ast_graph \<Rightarrow> ast_node list option" where
  "string_buffer_overflow_calls = flagged_calls string_overflow_callees ''string_buffer_overflow''"

definition size_exceeds_destination_calls :: "ast_node \<Rightarrow> ast_graph \<Rightarrow> ast_node list option" where
  "size_exceeds_destination_calls = flagged_calls size_bound_callees ''size_exceeds_destination''"

text \<open>
  \<open>for name in props.get("invalidated_pointers", [])\<close>: iterating over a string yields its
  characters.
\<close>

fun iter_strings :: "pyval \<Rightarrow> string list" where
  "iter_strings (PList xs) = List.map_filter (\<lambda>v. case v of PStr s \<Rightarrow> Some s | _ \<Rightarrow> None) xs"
| "iter_strings (PStr s) = map (\<lambda>c. [c]) s"
| "iter_strings (PDict d) = map fst d"
| "iter_strings v = []"

text \<open>State of the two scans: the invalidated names and the violations found.\<close>

definition string_scan_step ::
    "points_to_map \<Rightarrow> ast_graph \<Rightarrow> ast_node \<Rightarrow> string set \<times> ast_node list \<Rightarrow> (string set \<times> ast_node list) option" where
  "string_scan_step pts g n s = (case s of (invalidated, found) \<Rightarrow>
     if node_kind n = ''CallExpr''
     then (if callee n \<in> set string_invalidators then do {
             names \<leftarrow> decl_ref_names_in n g;
             let listed = iter_strings (prop_get (semantic_properties n) ''invalidated_pointers'');
             let used = filter (\<lambda>x. x \<in> set (dict_keys pts)) names;
             Some (invalidated \<union> (\<Union>x \<in> set (listed @ used). aliases_of pts x), found) }
           else Some (invalidated, found))
     else if node_kind n \<noteq> ''DeclRefExpr'' then Some (invalidated, found)
     else if sem_flag n ''use_after_string_invalidation'' \<or> (node_name n \<noteq> [] \<and> node_name n \<in> invalidated)
     then Some (invalidated, found @ [n])
     else Some (invalidated, found))"

definition use_after_string_invalidation_reads ::
    "points_to_map \<Rightarrow> ast_node \<Rightarrow> ast_graph \<Rightarrow> ast_node list option" where
  "use_after_string_invalidation_reads pts f g = do {
     nodes \<leftarrow> function_nodes f g;
     (_, found) \<leftarrow> opt_fold (string_scan_step pts g) (linearize nodes) ({}, []);
     Some found }"

definition file_scan_step ::
    "points_to_map \<Rightarrow> ast_graph \<Rightarrow> ast_node \<Rightarrow> string set \<times> ast_node list \<Rightarrow> (string set \<times> ast_node list) option" where
  "file_scan_step pts g n s = (case s of (closed, found) \<Rightarrow>
     if node_kind n = ''CallExpr''
     then (case (callee n \<in> set file_invalidators, children g (node_id n)) of
             (True, arg # _) \<Rightarrow> do {
               names \<leftarrow> decl_ref_names_in arg g;
               Some (closed \<union> (\<Union>x \<in> set names. aliases_of pts x), found) }
           | _ \<Rightarrow> Some (closed, found))
     else if node_kind n \<noteq> ''DeclRefExpr'' then Some (closed, found)
     else if (case g_get g (parent_id n) of None \<Rightarrow> False
              | Some p \<Rightarrow> node_kind p = ''CallExpr'' \<and> callee p \<in> set file_invalidators)
     then Some (closed, found)
     else if sem_flag n ''use_after_file_close'' \<or> (node_name n \<noteq> [] \<and> node_name n \<in> closed)
     then Some (closed, found @ [n])
     else Some (closed, found))"

definition use_after_file_close_reads :: "points_to_map \<Rightarrow> ast_node \<Rightarrow> ast_graph \<Rightarrow> ast_node list option" where
  "use_after_file_close_reads pts f g = do {
     nodes \<leftarrow> function_nodes f g;
     (_, found) \<leftarrow> opt_fold (file_scan_step pts g) (linearize nodes) ({}, []);
     Some found }"

definition node_patterns :: "points_to_map \<Rightarrow> ast_node \<Rightarrow> string list" where
  "node_patterns pts n =
     (if node_kind n = ''CallExpr'' \<and> callee n \<in> {''malloc'', ''calloc'', ''realloc''}
      then [''heap_allocation_opaque_target''] else [])
   @ (if node_kind n = ''BinaryOperator'' \<and> sem_flag n ''is_pointer_arithmetic'' \<and> sem_str n ''pointer_name'' \<noteq> []
         \<and> has_unknown (points_to pts (sem_str n ''pointer_name''))
      then [''pointer_arithmetic_unknown_pointee''] else [])
   @ (if node_kind n = ''DeclRefExpr'' \<and> node_name n \<in> set (dict_keys pts) \<and> has_unknown (points_to pts (node_name n))
      then [''parameter_pointer_unknown_target''] else [])"

definition unsupported_patterns :: "points_to_map \<Rightarrow> ast_node \<Rightarrow> ast_graph \<Rightarrow> string list option" where
  "unsupported_patterns pts f g = map_option (\<lambda>ns. concat (map (node_patterns pts) ns)) (function_nodes f g)"

subsection \<open>Monotone growth\<close>

definition pts_le :: "points_to_map \<Rightarrow> points_to_map \<Rightarrow> bool" where
  "pts_le p q \<longleftrightarrow> set (dict_keys p) \<subseteq> set (dict_keys q) \<and> (\<forall>k. points_to p k \<subseteq> points_to q k)"

lemma pts_le_refl [simp]: "pts_le p p"
  by (simp add: pts_le_def)

lemma pts_le_trans [trans]: "pts_le p q \<Longrightarrow> pts_le q r \<Longrightarrow> pts_le p r"
  unfolding pts_le_def by blast

lemma add_pointees_le: "pts_le pts (add_pointees name ps pts)"
  by (auto simp: pts_le_def) (simp add: add_pointees_def split: if_splits)

lemma alias_step_source:
  "alias_step g n pts = (case (if node_kind n = ''VarDecl'' then var_decl_source g n else assignment_source g n) of
     None \<Rightarrow> pts | Some (name, e) \<Rightarrow> add_pointees name (resolve_rhs pts g e) pts)"
  by (simp add: alias_step_def handle_var_decl_def handle_assignment_def)

lemma alias_step_le: "pts_le pts (alias_step g n pts)"
  by (auto simp: alias_step_source add_pointees_le split: option.split)

lemma alias_pass_le: "pts_le pts (alias_pass g ns pts)"
  unfolding alias_pass_def
proof (induction ns arbitrary: pts)
  case Nil
  then show ?case by simp
next
  case (Cons n ns)
  show ?case using alias_step_le [of pts g n] Cons.IH [of "alias_step g n pts"] by (simp add: pts_le_trans)
qed

lemma alias_passes_le: "pts_le pts (alias_passes k g ns pts)"
proof (induction k arbitrary: pts)
  case 0
  then show ?case by simp
next
  case (Suc k)
  show ?case using alias_pass_le [of pts g ns] Suc.IH [of "alias_pass g ns pts"]
    by (auto simp: Let_def intro: pts_le_trans)
qed

text \<open>Every entry holds at least one pointee.\<close>

definition pts_ok :: "points_to_map \<Rightarrow> bool" where
  "pts_ok pts \<longleftrightarrow> distinct (dict_keys pts) \<and> (\<forall>k \<in> set (dict_keys pts). points_to pts k \<noteq> {})
     \<and> (\<forall>k. finite (points_to pts k))
     \<and> (\<forall>k. \<forall>p \<in> points_to pts k. pt_kind p = Unknown_Kind \<longleftrightarrow> pt_confidence p = Unknown_Conf)"

lemma points_to_no_key: "k \<notin> set (dict_keys pts) \<Longrightarrow> points_to pts k = {}"
  by (simp add: points_to_def dict_get_default_def flip: map_of_None_dict_keys)

lemma pts_ok_key: "pts_ok pts \<Longrightarrow> points_to pts k \<noteq> {} \<longleftrightarrow> k \<in> set (dict_keys pts)"
  using points_to_no_key [of k pts] by (auto simp: pts_ok_def)

lemma add_pointees_ok:
  assumes "pts_ok pts" and "finite ps"
    and "\<forall>p \<in> ps. pt_kind p = Unknown_Kind \<longleftrightarrow> pt_confidence p = Unknown_Conf"
  shows "pts_ok (add_pointees name ps pts)"
proof (cases "ps = {}")
  case True
  then show ?thesis using assms(1) by (simp add: add_pointees_def)
next
  case False
  have "set (dict_keys (add_pointees name ps pts)) = insert name (set (dict_keys pts))"
    "distinct (dict_keys (add_pointees name ps pts))"
    using False assms(1) by (simp_all add: add_pointees_def pts_ok_def)
  then show ?thesis using assms False unfolding pts_ok_def by auto
qed

lemma resolve_rhs_ok:
  assumes "pts_ok pts"
  shows "finite (resolve_rhs pts g e)
    \<and> (\<forall>p \<in> resolve_rhs pts g e. pt_kind p = Unknown_Kind \<longleftrightarrow> pt_confidence p = Unknown_Conf)"
proof -
  have "pt_kind (copy_pointee d p) = Unknown_Kind \<longleftrightarrow> pt_confidence (copy_pointee d p) = Unknown_Conf"
    if "p \<in> points_to pts k" for d p k
    using assms that by (auto simp: pts_ok_def copy_pointee_def)
  then show ?thesis using assms
    by (auto simp: resolve_rhs_def unknown_pointee_def Let_def pts_ok_def split: list.splits)
qed

lemma alias_step_ok: "pts_ok pts \<Longrightarrow> pts_ok (alias_step g n pts)"
  by (auto simp: alias_step_source add_pointees_ok resolve_rhs_ok split: option.split)

lemma alias_pass_ok: "pts_ok pts \<Longrightarrow> pts_ok (alias_pass g ns pts)"
  unfolding alias_pass_def by (induction ns arbitrary: pts) (auto simp: alias_step_ok)

lemma alias_passes_ok: "pts_ok pts \<Longrightarrow> pts_ok (alias_passes k g ns pts)"
  by (induction k arbitrary: pts) (auto simp: Let_def alias_pass_ok)

lemma seed_ok: "pts_ok (seed_pointer_parameters f g [])"
proof -
  have "pts_ok (add_pointee name unknown_pointee pts)" if "pts_ok pts" for name pts
    using add_pointees_ok [OF that, of "{unknown_pointee}" name]
    by (simp add: add_pointees_def add_pointee_def unknown_pointee_def)
  then have "pts_ok (fold seed_parameter ns pts)" if "pts_ok pts" for ns pts
    using that by (induction ns arbitrary: pts) (auto simp: seed_parameter_def)
  moreover have "pts_ok []" by (simp add: pts_ok_def points_to_def dict_get_default_def)
  ultimately show ?thesis by (simp add: seed_pointer_parameters_def)
qed

subsection \<open>Executions of pointer assignments\<close>

text \<open>
  A concrete state maps pointer variables to what they point to, named like the analyzer names
  it.  The value of an expression of the shapes the analyzer resolves; other shapes (casts,
  pointer arithmetic) have none here.
\<close>

type_synonym ptr_env = "string \<Rightarrow> string option"

inductive ptr_value :: "ast_graph \<Rightarrow> ptr_env \<Rightarrow> ast_node \<Rightarrow> string \<Rightarrow> bool" for g env where
  value_address: "node_kind e = ''UnaryOperator'' \<Longrightarrow> sem_str e ''opcode'' = ''&'' \<Longrightarrow>
    children g (node_id e) = x # xs \<Longrightarrow> node_kind x = ''DeclRefExpr'' \<Longrightarrow> node_name x \<noteq> [] \<Longrightarrow>
    ptr_value g env e (node_name x)"
| value_named: "node_kind e = ''DeclRefExpr'' \<Longrightarrow> sem_flag e ''is_function'' \<or> ty_flag e ''is_array'' \<Longrightarrow>
    node_name e \<noteq> [] \<Longrightarrow> ptr_value g env e (node_name e)"
| value_copy: "node_kind e = ''DeclRefExpr'' \<Longrightarrow> \<not> sem_flag e ''is_function'' \<Longrightarrow> \<not> ty_flag e ''is_array'' \<Longrightarrow>
    env (node_name e) = Some t \<Longrightarrow> ptr_value g env e t"
| value_call: "node_kind e = ''CallExpr'' \<Longrightarrow> ptr_value g env e (''<heap:'' @ sem_str e ''callee'' @ ''>'')"

definition stmt_source :: "ast_graph \<Rightarrow> ast_node \<Rightarrow> (string \<times> ast_node) option" where
  "stmt_source g n = (if node_kind n = ''VarDecl'' then var_decl_source g n else assignment_source g n)"

text \<open>The states reached by executing the statements of \<open>ns\<close> any number of times in any order.\<close>

inductive ptr_reach :: "ast_graph \<Rightarrow> ast_node list \<Rightarrow> string set \<Rightarrow> ptr_env \<Rightarrow> bool" for g ns params where
  reach_init: "dom env \<subseteq> params \<Longrightarrow> ptr_reach g ns params env"
| reach_assign: "ptr_reach g ns params env \<Longrightarrow> n \<in> set ns \<Longrightarrow> stmt_source g n = Some (name, e) \<Longrightarrow>
    ptr_value g env e t \<Longrightarrow> ptr_reach g ns params (env(name \<mapsto> t))"

definition covers :: "points_to_map \<Rightarrow> ptr_env \<Rightarrow> bool" where
  "covers pts env \<longleftrightarrow> (\<forall>p t. env p = Some t \<longrightarrow> has_unknown (points_to pts p) \<or> t \<in> pt_target ` points_to pts p)"

definition pointer_params :: "ast_node \<Rightarrow> ast_graph \<Rightarrow> string set" where
  "pointer_params f g = set (map node_name (filter (\<lambda>n. node_kind n = ''ParmVarDecl'' \<and> ty_flag n ''is_pointer''
     \<and> node_name n \<noteq> []) (children g (node_id f))))"

text \<open>The map a pass does not change any more; it can be checked.\<close>

definition converged :: "ast_graph \<Rightarrow> ast_node list \<Rightarrow> points_to_map \<Rightarrow> bool" where
  "converged g ns pts \<longleftrightarrow> same_map (alias_pass g ns pts) pts"

lemma copy_pointee_simps [simp]:
  "pt_target (copy_pointee d p) = pt_target p" "pt_kind (copy_pointee d p) = pt_kind p"
  by (simp_all add: copy_pointee_def)

lemma resolve_rhs_sound:
  assumes "ptr_value g env e t" and "covers pts env"
  shows "has_unknown (resolve_rhs pts g e) \<or> t \<in> pt_target ` resolve_rhs pts g e"
  using assms(1)
proof cases
  case (value_address x xs)
  then show ?thesis by (simp add: resolve_rhs_def)
next
  case value_named
  then show ?thesis by (auto simp: resolve_rhs_def Let_def)
next
  case value_copy
  let ?q = "node_name e"
  have cov: "has_unknown (points_to pts ?q) \<or> t \<in> pt_target ` points_to pts ?q"
    using assms(2) value_copy by (simp add: covers_def)
  show ?thesis
  proof (cases "?q \<in> set (dict_keys pts)")
    case True
    then have "resolve_rhs pts g e = copy_pointee (card (points_to pts ?q) > 1) ` points_to pts ?q"
      using value_copy by (simp add: resolve_rhs_def Let_def)
    then show ?thesis using cov by (auto simp: has_unknown_def image_image)
  next
    case False
    then show ?thesis using cov points_to_no_key [OF False] by (simp add: has_unknown_def)
  qed
next
  case value_call
  then show ?thesis by (simp add: resolve_rhs_def)
qed

lemma pts_le_same: "pts_le p q \<Longrightarrow> pts_le q r \<Longrightarrow> same_map r p \<Longrightarrow> same_map q p"
proof -
  assume a: "pts_le p q" "pts_le q r" "same_map r p"
  have "points_to r k = points_to p k" for k
    using a(3) points_to_no_key [of k r] points_to_no_key [of k p] unfolding same_map_def by metis
  then show "same_map q p" using a unfolding pts_le_def same_map_def by blast
qed

lemma same_map_points_to: "same_map p q \<Longrightarrow> points_to p = points_to q"
  using points_to_no_key unfolding same_map_def by (metis ext)

lemma resolve_rhs_same: "same_map p q \<Longrightarrow> resolve_rhs p g e = resolve_rhs q g e"
proof -
  assume same: "same_map p q"
  have "points_to p = points_to q" by (rule same_map_points_to [OF same])
  moreover have "set (dict_keys p) = set (dict_keys q)" using same by (simp add: same_map_def)
  ultimately show ?thesis unfolding resolve_rhs_def Let_def by simp
qed

text \<open>In a converged map the sources of a variable are included in the variable's set.\<close>

lemma converged_step:
  assumes "converged g ns pts" and "n \<in> set ns" and "stmt_source g n = Some (name, e)"
  shows "resolve_rhs pts g e \<subseteq> points_to pts name"
proof -
  obtain ns1 ns2 where ns: "ns = ns1 @ n # ns2" using assms(2) by (meson split_list)
  let ?p1 = "alias_pass g ns1 pts"
  let ?p2 = "alias_step g n ?p1"
  have pass: "alias_pass g ns pts = alias_pass g ns2 ?p2" by (simp add: ns alias_pass_def)
  have le: "pts_le pts ?p1" "pts_le ?p1 ?p2" "pts_le ?p2 (alias_pass g ns pts)"
    using alias_pass_le alias_step_le by (auto simp: pass)
  have same: "same_map (alias_pass g ns pts) pts" using assms(1) by (simp add: converged_def)
  have s1: "same_map ?p1 pts" by (rule pts_le_same [OF le(1) pts_le_trans [OF le(2,3)] same])
  have s2: "same_map ?p2 pts" by (rule pts_le_same [OF pts_le_trans [OF le(1,2)] le(3) same])
  have "?p2 = add_pointees name (resolve_rhs ?p1 g e) ?p1"
    using assms(3) by (simp add: alias_step_source stmt_source_def)
  then have "resolve_rhs ?p1 g e \<subseteq> points_to ?p2 name" by auto
  then show ?thesis using resolve_rhs_same [OF s1] same_map_points_to [OF s2] by simp
qed

lemma converged_covers:
  assumes "converged g ns pts" and "\<forall>p \<in> params. has_unknown (points_to pts p)" and "ptr_reach g ns params env"
  shows "covers pts env"
  using assms(3)
proof induction
  case (reach_init env)
  then show ?case using assms(2) by (auto simp: covers_def dom_def)
next
  case (reach_assign env n name e t)
  have sub: "resolve_rhs pts g e \<subseteq> points_to pts name"
    by (rule converged_step [OF assms(1) reach_assign.hyps(2,3)])
  have "has_unknown (resolve_rhs pts g e) \<or> t \<in> pt_target ` resolve_rhs pts g e"
    by (rule resolve_rhs_sound [OF reach_assign.hyps(4) reach_assign.IH])
  then have "has_unknown (points_to pts name) \<or> t \<in> pt_target ` points_to pts name"
    using sub by (auto simp: has_unknown_def)
  then show ?case using reach_assign.IH by (auto simp: covers_def)
qed

lemma seed_unknown:
  assumes "p \<in> pointer_params f g"
  shows "has_unknown (points_to (seed_pointer_parameters f g []) p)"
proof -
  have keep: "has_unknown (points_to pts p) \<Longrightarrow> has_unknown (points_to (fold seed_parameter ns pts) p)" for ns pts
  proof (induction ns arbitrary: pts)
    case (Cons n ns)
    have "has_unknown (points_to (seed_parameter n pts) p)"
      using Cons.prems by (auto simp: seed_parameter_def has_unknown_def)
    then show ?case using Cons.IH by simp
  qed simp
  have "has_unknown (points_to (fold seed_parameter ns pts) p)"
    if "n \<in> set ns" "node_kind n = ''ParmVarDecl''" "ty_flag n ''is_pointer''" "node_name n = p" "p \<noteq> []" for n ns pts
    using that(1)
  proof (induction ns arbitrary: pts)
    case (Cons m ns)
    show ?case
    proof (cases "m = n")
      case True
      have "has_unknown (points_to (seed_parameter m pts) p)"
        using True that by (simp add: seed_parameter_def has_unknown_def unknown_pointee_def)
      then show ?thesis by (simp add: keep)
    next
      case False
      then show ?thesis using Cons by simp
    qed
  qed simp
  then show ?thesis using assms by (auto simp: pointer_params_def seed_pointer_parameters_def)
qed

lemma may_alias_sym: "may_alias pts a b = may_alias pts b a"
  by (auto simp: may_alias_def Let_def Int_commute)

lemma analyze_covers:
  assumes "analyze_aliases f g = Some pts" and "relevant_nodes f g = Some ns" and "converged g ns pts"
    and "ptr_reach g ns (pointer_params f g) env"
  shows "covers pts env"
proof -
  have pts: "pts = alias_passes (length ns + 1) g ns (seed_pointer_parameters f g [])"
    using assms(1,2) by (simp add: analyze_aliases_def)
  have "points_to (seed_pointer_parameters f g []) k \<subseteq> points_to pts k" for k
    using alias_passes_le [of "seed_pointer_parameters f g []"] unfolding pts pts_le_def by blast
  then have "\<forall>p \<in> pointer_params f g. has_unknown (points_to pts p)"
    using seed_unknown unfolding has_unknown_def by blast
  then show ?thesis using converged_covers [OF assms(3) _ assms(4)] by blast
qed

subsection \<open>Properties\<close>

text \<open>\<open>p = &x; q = p;\<close>\<close>

definition al_nodes :: "ast_node list" where
  "al_nodes =
     [ex_node ''f'' ''FunctionDecl'' [] [''a1'', ''a2''] [(''name'', PStr ''f'')] 1 1,
      ex_node ''a1'' ''BinaryOperator'' ''f'' [''p1'', ''ad''] [(''opcode'', PStr ''='')] 2 1,
      ex_node ''p1'' ''DeclRefExpr'' ''a1'' [] [(''name'', PStr ''p'')] 2 1,
      ex_node ''ad'' ''UnaryOperator'' ''a1'' [''x1''] [(''opcode'', PStr ''&'')] 2 5,
      ex_node ''x1'' ''DeclRefExpr'' ''ad'' [] [(''name'', PStr ''x'')] 2 6,
      ex_node ''a2'' ''BinaryOperator'' ''f'' [''q1'', ''p2''] [(''opcode'', PStr ''='')] 3 1,
      ex_node ''q1'' ''DeclRefExpr'' ''a2'' [] [(''name'', PStr ''q'')] 3 1,
      ex_node ''p2'' ''DeclRefExpr'' ''a2'' [] [(''name'', PStr ''p'')] 3 5]"

definition al_graph :: ast_graph where
  "al_graph = mk_graph al_nodes"

lemma al_get: "g_get al_graph i = find (\<lambda>n. node_id n = i) (rev al_nodes)"
  by (simp add: al_graph_def g_get_mk_graph)

lemma al_children:
  "children al_graph i = (if i = ''f'' then [al_nodes ! 1, al_nodes ! 5]
     else if i = ''a1'' then [al_nodes ! 2, al_nodes ! 3] else if i = ''ad'' then [al_nodes ! 4]
     else if i = ''a2'' then [al_nodes ! 6, al_nodes ! 7] else [])"
  by (simp add: children_def al_get al_nodes_def List.map_filter_simps)

lemma al_ids:
  "node_id (al_nodes ! 0) = ''f''" "node_id (al_nodes ! 1) = ''a1''" "node_id (al_nodes ! 2) = ''p1''"
  "node_id (al_nodes ! 3) = ''ad''" "node_id (al_nodes ! 4) = ''x1''" "node_id (al_nodes ! 5) = ''a2''"
  "node_id (al_nodes ! 6) = ''q1''" "node_id (al_nodes ! 7) = ''p2''" "node_id (al_nodes ! Suc 0) = ''a1''"
  by (simp_all add: al_nodes_def)

lemma al_relevant: "relevant_nodes (al_nodes ! 0) al_graph = Some [al_nodes ! 1, al_nodes ! 5]"
proof -
  have "descendants al_graph ''f''
      = Some [al_nodes ! 5, al_nodes ! 7, al_nodes ! 6, al_nodes ! 1, al_nodes ! 3, al_nodes ! 4, al_nodes ! 2]"
    by (simp add: descendants_def al_children desc_loop_Cons al_ids)
  moreover have "map alias_relevant al_nodes = [False, True, False, False, False, True, False, False]"
    by (simp add: al_nodes_def alias_relevant_def sem_str_def prop_str_def)
  then have "\<forall>i < 8. alias_relevant (al_nodes ! i) = (i \<in> {1, 5})"
    by (simp add: al_nodes_def less_Suc_eq numeral_eq_Suc)
  moreover have "linearize [al_nodes ! 5, al_nodes ! 1] = [al_nodes ! 1, al_nodes ! 5]"
    by (simp add: al_nodes_def linearize_def)
  ultimately show ?thesis by (simp add: relevant_nodes_def al_ids)
qed

definition al_pointee :: pointee where
  "al_pointee = \<lparr>pt_target = ''x'', pt_kind = Variable_Kind, pt_confidence = Definite\<rparr>"

lemma al_sources:
  "stmt_source al_graph (al_nodes ! 1) = Some (''p'', al_nodes ! 3)"
  "stmt_source al_graph (al_nodes ! 5) = Some (''q'', al_nodes ! 7)"
  by (simp_all add: al_nodes_def stmt_source_def assignment_source_def al_children node_name_def sem_str_def prop_str_def)

lemma al_resolve:
  "resolve_rhs pts al_graph (al_nodes ! 3) = {al_pointee}"
  "resolve_rhs pts al_graph (al_nodes ! 7) = (if ''p'' \<in> set (dict_keys pts)
     then copy_pointee (card (points_to pts ''p'') > 1) ` points_to pts ''p'' else {unknown_pointee})"
  by (simp_all add: al_nodes_def resolve_rhs_def al_children node_name_def sem_str_def prop_str_def
      sem_flag_def ty_flag_def prop_flag_def prop_get_def al_pointee_def Let_def)

definition al_map :: points_to_map where
  "al_map = [(''p'', {al_pointee}), (''q'', {al_pointee})]"

lemma al_steps:
  "alias_step al_graph (al_nodes ! 1) pts = add_pointees ''p'' {al_pointee} pts"
  "alias_step al_graph (al_nodes ! 5) pts = add_pointees ''q'' (resolve_rhs pts al_graph (al_nodes ! 7)) pts"
  using al_sources al_resolve(1) by (simp_all add: alias_step_source stmt_source_def)

definition al_rel :: "ast_node list" where
  "al_rel = [al_nodes ! 1, al_nodes ! 5]"

lemma al_pass:
  "alias_pass al_graph al_rel [] = al_map"
  "alias_pass al_graph al_rel al_map = al_map"
  by (simp_all add: alias_pass_def al_rel_def al_steps del: One_nat_def)
    (simp_all add: al_resolve add_pointees_def al_map_def points_to_def dict_get_default_def dict_set_def copy_pointee_def)

lemma al_converged: "converged al_graph al_rel al_map"
  by (simp add: converged_def same_map_def al_pass)

lemma al_analyze: "analyze_aliases (al_nodes ! 0) al_graph = Some al_map"
proof -
  have "seed_pointer_parameters (al_nodes ! 0) al_graph [] = []"
    by (simp add: seed_pointer_parameters_def al_ids al_children) (simp add: al_nodes_def seed_parameter_def)
  moreover have "\<not> same_map al_map []" by (simp add: same_map_def al_map_def)
  moreover have "same_map al_map al_map" by (simp add: same_map_def)
  ultimately have "alias_passes (Suc (Suc (Suc 0))) al_graph al_rel (seed_pointer_parameters (al_nodes ! 0) al_graph []) = al_map"
    by (simp add: al_pass Let_def)
  moreover have "length al_rel + 1 = Suc (Suc (Suc 0))" by (simp add: al_rel_def)
  ultimately show ?thesis
    by (simp add: analyze_aliases_def al_relevant [folded al_rel_def] del: alias_passes.simps)
qed


lemma al_reach:
  "ptr_reach al_graph al_rel params [''p'' \<mapsto> ''x'', ''q'' \<mapsto> ''x'']"
proof -
  have init: "ptr_reach al_graph al_rel params Map.empty" by (rule reach_init) simp
  have "ptr_value al_graph Map.empty (al_nodes ! 3) (node_name (al_nodes ! 4))"
    by (rule value_address [where xs = "[]"])
      (simp_all add: al_ids al_children, simp_all add: al_nodes_def sem_str_def prop_str_def node_name_def)
  moreover have "node_name (al_nodes ! 4) = ''x''" by (simp add: al_nodes_def node_name_def sem_str_def prop_str_def)
  ultimately have 1: "ptr_reach al_graph al_rel params [''p'' \<mapsto> ''x'']"
    using reach_assign [OF init _ al_sources(1)] by (simp add: al_rel_def)
  have "ptr_value al_graph [''p'' \<mapsto> ''x''] (al_nodes ! 7) ''x''"
    by (rule value_copy)
      (simp_all add: al_nodes_def sem_flag_def ty_flag_def prop_flag_def prop_get_def node_name_def sem_str_def prop_str_def)
  then show ?thesis using reach_assign [OF 1 _ al_sources(2)] by (simp add: al_rel_def)
qed




end
