(* ===== verification/Essential.thy ===== *)
theory Essential
  imports Ast_Graph
begin

text \<open>
  MISRA essential types: the tables and predicates of \<open>EssentialTypeAnalyzer\<close>
  (\<open>essential_type_analyzer.py\<close>) and the conversions, enum types, bit-fields, literals and
  bottom-up expression typing of \<open>EssentialTypeEngine\<close> (\<open>essential_type_engine.py\<close>).
\<close>

subsection \<open>The analyzer\<close>

type_synonym etype = string

definition rank_order :: "etype list" where
  "rank_order =
     [''boolean'', ''signed_char'', ''unsigned_char'', ''char'', ''signed_short'',
      ''unsigned_short'', ''signed_int'', ''unsigned_int'', ''signed_long'', ''unsigned_long'',
      ''signed_long_long'', ''unsigned_long_long'', ''float'', ''double'', ''long_double'',
      ''complex'', ''unknown'']"

definition category_by_type :: "(etype \<times> string) list" where
  "category_by_type =
     [(''boolean'', ''boolean''),
      (''signed_char'', ''signed''), (''signed_short'', ''signed''), (''signed_int'', ''signed''),
      (''signed_long'', ''signed''), (''signed_long_long'', ''signed''),
      (''unsigned_char'', ''unsigned''), (''unsigned_short'', ''unsigned''),
      (''unsigned_int'', ''unsigned''), (''unsigned_long'', ''unsigned''),
      (''unsigned_long_long'', ''unsigned''),
      (''char'', ''character''), (''float'', ''floating''), (''double'', ''floating''),
      (''long_double'', ''floating''), (''complex'', ''complex''), (''unknown'', ''unknown'')]"

definition inappropriate_operand_pairs :: "(etype \<times> etype) list" where
  "inappropriate_operand_pairs =
     [(''boolean'', ''signed_char''), (''boolean'', ''unsigned_char''),
      (''boolean'', ''signed_short''), (''boolean'', ''unsigned_short''),
      (''boolean'', ''signed_int''), (''boolean'', ''unsigned_int''),
      (''boolean'', ''signed_long''), (''boolean'', ''unsigned_long''),
      (''boolean'', ''float''), (''boolean'', ''double''),
      (''signed_char'', ''unsigned_char''), (''signed_short'', ''unsigned_short''),
      (''signed_int'', ''unsigned_int''), (''signed_long'', ''unsigned_long''),
      (''signed_long_long'', ''unsigned_long_long'')]"

text \<open>\<open>_RANK_ORDER.index(t)\<close>, its \<open>ValueError\<close> caught.\<close>

definition erank :: "etype \<Rightarrow> nat" where
  "erank t = (case list_index rank_order t of Some k \<Rightarrow> k | None \<Rightarrow> length rank_order)"

definition category :: "etype \<Rightarrow> string" where
  "category t = (case map_of category_by_type t of Some c \<Rightarrow> c | None \<Rightarrow> ''unknown'')"

definition is_signed :: "etype \<Rightarrow> bool" where
  "is_signed t \<longleftrightarrow> category t = ''signed''"

definition is_unsigned :: "etype \<Rightarrow> bool" where
  "is_unsigned t \<longleftrightarrow> category t = ''unsigned''"

definition is_floating :: "etype \<Rightarrow> bool" where
  "is_floating t \<longleftrightarrow> category t = ''floating''"

definition is_boolean :: "etype \<Rightarrow> bool" where
  "is_boolean t \<longleftrightarrow> t = ''boolean''"

definition is_wider :: "etype \<Rightarrow> etype \<Rightarrow> bool" where
  "is_wider from_type to_type =
     (if from_type \<in> {''unknown'', ''complex''} \<or> to_type \<in> {''unknown'', ''complex''} then False
      else erank to_type > erank from_type)"

definition is_narrowing :: "etype \<Rightarrow> etype \<Rightarrow> bool" where
  "is_narrowing from_type to_type =
     (if from_type \<in> {''unknown'', ''complex''} \<or> to_type \<in> {''unknown'', ''complex''} then False
      else if category from_type = category to_type then erank from_type > erank to_type
      else if is_floating from_type \<and> \<not> is_floating to_type then True
      else if is_signed from_type \<and> is_unsigned to_type then erank from_type \<ge> erank to_type
      else erank from_type > erank to_type)"

definition base_inappropriate_pair :: "etype \<Rightarrow> etype \<Rightarrow> bool" where
  "base_inappropriate_pair left right \<longleftrightarrow>
     (left, right) \<in> set inappropriate_operand_pairs \<or> (right, left) \<in> set inappropriate_operand_pairs"

subsection \<open>Promotion and the usual arithmetic conversions\<close>

definition is_enum_type :: "etype \<Rightarrow> bool" where
  "is_enum_type t \<longleftrightarrow> starts_with t ''enum<'' \<and> ends_with t ''>''"

definition enum_essential_type :: "string \<Rightarrow> etype" where
  "enum_essential_type name = ''enum<'' @ name @ ''>''"

text \<open>\<open>t[len("enum<") : -1]\<close>\<close>

definition enum_name :: "etype \<Rightarrow> string" where
  "enum_name t = (if \<not> is_enum_type t then [] else drop 5 (butlast t))"

text \<open>The parameter \<open>default\<close> is \<open>"signed_int"\<close> at every call.\<close>

definition enum_underlying_type :: "etype \<Rightarrow> etype" where
  "enum_underlying_type t = ''signed_int''"

text \<open>The parameter \<open>int_bit_width\<close> is passed on and never used.\<close>

function promote :: "etype \<Rightarrow> etype" where
  "promote t =
     (if is_enum_type t then promote (enum_underlying_type t)
      else if t \<in> {''unknown'', ''complex''} then t
      else if erank t \<ge> erank ''signed_int'' then t
      else ''signed_int'')"
  by auto

termination promote
  by (relation "measure (\<lambda>t. if is_enum_type t then 1 else 0)")
    (simp_all add: is_enum_type_def enum_underlying_type_def starts_with_def)

declare promote.simps [simp del]

text \<open>\<open>max(candidates, key=rank)\<close>: the first of the highest rank.\<close>

fun max_by_rank :: "etype \<Rightarrow> etype list \<Rightarrow> etype" where
  "max_by_rank m [] = m"
| "max_by_rank m (t # ts) = max_by_rank (if erank t > erank m then t else m) ts"

definition usual_arithmetic_conversion :: "etype \<Rightarrow> etype \<Rightarrow> etype" where
  "usual_arithmetic_conversion left right =
     (let left_p = promote left; right_p = promote right in
      if left_p \<in> {''unknown'', ''complex''} \<or> right_p \<in> {''unknown'', ''complex''} then ''unknown''
      else if is_floating left_p \<or> is_floating right_p then
        (let floating = filter is_floating [left_p, right_p] in max_by_rank (hd floating) (tl floating))
      else if left_p = right_p then left_p
      else
        (let left_signed = is_signed left_p; right_signed = is_signed right_p in
         if left_signed = right_signed then max_by_rank left_p [right_p]
         else
           (let signed_type = (if left_signed then left_p else right_p);
                unsigned_type = (if left_signed then right_p else left_p)
            in if erank unsigned_type \<ge> erank signed_type then unsigned_type else signed_type)))"

definition is_inappropriate_operand_pair :: "etype \<Rightarrow> etype \<Rightarrow> bool" where
  "is_inappropriate_operand_pair left right =
     (if is_enum_type left \<or> is_enum_type right then
        (if is_enum_type left \<and> is_enum_type right then enum_name left \<noteq> enum_name right else True)
      else base_inappropriate_pair left right)"

definition bitfield_signed_by_width :: "(int \<times> etype) list" where
  "bitfield_signed_by_width = [(1, ''boolean''), (8, ''signed_char''), (16, ''signed_short''),
     (32, ''signed_int''), (64, ''signed_long_long'')]"

definition bitfield_unsigned_by_width :: "(int \<times> etype) list" where
  "bitfield_unsigned_by_width = [(1, ''boolean''), (8, ''unsigned_char''), (16, ''unsigned_short''),
     (32, ''unsigned_int''), (64, ''unsigned_long_long'')]"

definition bitfield_essential_type :: "bool \<Rightarrow> int \<Rightarrow> etype" where
  "bitfield_essential_type signed bit_width =
     (let table = (if signed then bitfield_signed_by_width else bitfield_unsigned_by_width) in
      case find (\<lambda>(max_width, t). bit_width \<le> max_width) table of
        Some (_, t) \<Rightarrow> t
      | None \<Rightarrow> snd (last table))"

subsection \<open>Literals\<close>

text \<open>\<open>.lower()\<close> on the letters that matter to the code: the ASCII ones.\<close>

definition lower_char :: "char \<Rightarrow> char" where
  "lower_char c = (let n = of_char c :: nat in if 65 \<le> n \<and> n \<le> 90 then char_of (n + 32) else c)"

definition lower :: "string \<Rightarrow> string" where
  "lower s = map lower_char s"

definition rstrip :: "string \<Rightarrow> string \<Rightarrow> string" where
  "rstrip cs s = rev (dropWhile (\<lambda>c. c \<in> set cs) (rev s))"

text \<open>
  \<open>int(s, 0)\<close>: white space around, a sign, a base prefix with an optional underscore, digits
  separated by single underscores.  Without a prefix a leading zero is only allowed in a
  zero.  The flag of \<open>scan_digits\<close> says that no underscore may come here.
\<close>

definition digit_value :: "char \<Rightarrow> int option" where
  "digit_value c = (let n = of_char c :: int in
     if 48 \<le> n \<and> n \<le> 57 then Some (n - 48)
     else if 97 \<le> n \<and> n \<le> 122 then Some (n - 87)
     else if 65 \<le> n \<and> n \<le> 90 then Some (n - 55)
     else None)"

fun scan_digits :: "int \<Rightarrow> bool \<Rightarrow> int \<Rightarrow> string \<Rightarrow> int option" where
  "scan_digits b us acc [] = (if us then None else Some acc)"
| "scan_digits b us acc (c # s) =
     (if c = CHR ''_'' then (if us then None else scan_digits b True acc s)
      else case digit_value c of
        None \<Rightarrow> None
      | Some d \<Rightarrow> if d < b then scan_digits b False (acc * b + d) s else None)"

definition after_prefix :: "string \<Rightarrow> string" where
  "after_prefix s = (case s of c # r \<Rightarrow> if c = CHR ''_'' then r else s | [] \<Rightarrow> [])"

definition scan_base0 :: "string \<Rightarrow> int option" where
  "scan_base0 s = (case s of
      z # x # r \<Rightarrow>
        if z = CHR ''0'' \<and> lower_char x = CHR ''x'' then scan_digits 16 True 0 (after_prefix r)
        else if z = CHR ''0'' \<and> lower_char x = CHR ''o'' then scan_digits 8 True 0 (after_prefix r)
        else if z = CHR ''0'' \<and> lower_char x = CHR ''b'' then scan_digits 2 True 0 (after_prefix r)
        else (case scan_digits 10 True 0 s of
                None \<Rightarrow> None
              | Some v \<Rightarrow> if z = CHR ''0'' \<and> v \<noteq> 0 then None else Some v)
    | _ \<Rightarrow> scan_digits 10 True 0 s)"

definition whitespace :: "nat list" where
  "whitespace = [9, 10, 11, 12, 13, 28, 29, 30, 31, 32, 133, 160]"

definition strip :: "string \<Rightarrow> string" where
  "strip s = (let ws = (\<lambda>c. (of_char c :: nat) \<in> set whitespace)
              in rev (dropWhile ws (rev (dropWhile ws s))))"

definition int_base0 :: "string \<Rightarrow> int option" where
  "int_base0 s = (case strip s of
      [] \<Rightarrow> None
    | c # r \<Rightarrow> if c = CHR ''-'' then map_option uminus (scan_base0 r)
              else if c = CHR ''+'' then scan_base0 r
              else scan_base0 (c # r))"

definition unsigned_candidates :: "(etype \<times> int) list" where
  "unsigned_candidates =
     [(''unsigned_char'', 0xFF), (''unsigned_short'', 0xFFFF), (''unsigned_int'', 0xFFFFFFFF),
      (''unsigned_long'', 0xFFFFFFFFFFFFFFFF), (''unsigned_long_long'', 2 ^ 128 - 1)]"

definition signed_candidates :: "(etype \<times> int) list" where
  "signed_candidates =
     [(''signed_char'', 0x7F), (''signed_short'', 0x7FFF), (''signed_int'', 0x7FFFFFFF),
      (''signed_long'', 0x7FFFFFFFFFFFFFFF), (''signed_long_long'', 2 ^ 127 - 1)]"

definition literal_is_unsigned :: "string \<Rightarrow> bool" where
  "literal_is_unsigned raw =
     list_ex (ends_with (lower raw)) [''u'', ''ul'', ''ull'', ''lu'', ''llu'']"

definition literal_is_long :: "string \<Rightarrow> bool" where
  "literal_is_long raw = contains_str ''l'' (lower raw)"

definition candidates_of :: "string \<Rightarrow> (etype \<times> int) list" where
  "candidates_of raw = (if literal_is_unsigned raw then unsigned_candidates else signed_candidates)"

definition literal_type_of_text :: "string \<Rightarrow> etype" where
  "literal_type_of_text raw =
     (case int_base0 (rstrip ''uUlL'' raw) of
        None \<Rightarrow> ''unknown''
      | Some v \<Rightarrow>
          (let candidates = candidates_of raw; start_index = (if literal_is_long raw then 2 else 0)
           in case find (\<lambda>(name, max_value). v \<le> max_value) (drop start_index candidates) of
                Some (name, _) \<Rightarrow> name
              | None \<Rightarrow> fst (last candidates)))"

definition literal_essential_type :: "ast_node \<Rightarrow> etype" where
  "literal_essential_type n =
     literal_type_of_text (py_str (case map_of (semantic_properties n) ''value'' of
        None \<Rightarrow> PStr ''0'' | Some v \<Rightarrow> v))"

subsection \<open>Types of expressions\<close>

definition relational_opcodes :: "string list" where
  "relational_opcodes = [''=='', ''!='', ''<'', ''>'', ''<='', ''>='', ''&&'', ''||'']"

definition shift_opcodes :: "string list" where
  "shift_opcodes = [''<<'', ''>>'']"

definition arithmetic_opcodes :: "string list" where
  "arithmetic_opcodes = [''+'', ''-'', ''*'', ''/'', ''%'', ''&'', ''|'', ''^'']"

text \<open>
  The result of an operator, once the operand types are known.  \<open>own\<close> is the type the worker
  annotated the node with.
\<close>

definition unary_type :: "string \<Rightarrow> etype \<Rightarrow> etype" where
  "unary_type opcode operand =
     (if opcode = ''!'' then ''boolean''
      else if opcode \<in> {''-'', ''~'', ''+'', ''++'', ''--''} then promote operand
      else operand)"

definition binary_type :: "string \<Rightarrow> etype \<Rightarrow> etype \<Rightarrow> etype \<Rightarrow> etype" where
  "binary_type opcode own left right =
     (if opcode \<in> set relational_opcodes then ''boolean''
      else if opcode \<in> set shift_opcodes then promote left
      else if opcode \<in> set arithmetic_opcodes \<or> ends_with opcode ''='' then
        usual_arithmetic_conversion left right
      else own)"

definition conditional_type :: "etype \<Rightarrow> etype \<Rightarrow> etype" where
  "conditional_type t e =
     (if t = e then t
      else if category t = category e then max_by_rank t [e]
      else usual_arithmetic_conversion t e)"

text \<open>
  The body of \<open>essential_type_of_expression\<close>; the parameter \<open>enum_underlying_types\<close> is passed
  on and never read.
\<close>

definition ess_body :: "ast_graph \<Rightarrow> (ast_node \<Rightarrow> etype option) \<Rightarrow> ast_node \<Rightarrow> etype option" where
  "ess_body g rec n =
     (let kind = node_kind n; opcode = sem_str n ''opcode''; own = ess_type n in
      if kind \<in> {''CStyleCastExpr'', ''ExplicitCastExpr'', ''CastExpr''} then
        (let cast_type = ty_str n ''fundamental_kind'' in Some (if cast_type \<noteq> [] then cast_type else own))
      else if kind = ''IntegerLiteral'' then
        (case essential_type n of
           None \<Rightarrow> Some (literal_essential_type n)
         | Some t \<Rightarrow> Some (if t \<noteq> [] then t else literal_essential_type n))
      else if kind = ''UnaryOperator'' then
        (case children g (node_id n) of
           [] \<Rightarrow> Some own
         | c # _ \<Rightarrow> do { t \<leftarrow> rec c; Some (unary_type opcode t) })
      else if kind = ''BinaryOperator'' then
        (case children g (node_id n) of
           a # b # _ \<Rightarrow> do { l \<leftarrow> rec a; r \<leftarrow> rec b; Some (binary_type opcode own l r) }
         | _ \<Rightarrow> Some own)
      else if kind = ''ConditionalOperator'' then
        (case children g (node_id n) of
           _ # a # b # _ \<Rightarrow> do { t \<leftarrow> rec a; e \<leftarrow> rec b; Some (conditional_type t e) }
         | _ \<Rightarrow> Some own)
      else Some own)"

text \<open>\<open>depth\<close> is the interpreter's recursion limit.\<close>

definition essential_type_of_expression :: "nat \<Rightarrow> ast_graph \<Rightarrow> ast_node \<Rightarrow> etype option" where
  "essential_type_of_expression depth g n = run_depth depth (ess_body g) n"

subsection \<open>Facts about ranks\<close>

definition known_type :: "etype \<Rightarrow> bool" where
  "known_type t \<longleftrightarrow> t \<in> set rank_order"

text \<open>The types the conversions rank: neither unknown nor complex.\<close>

definition scalar_type :: "etype \<Rightarrow> bool" where
  "scalar_type t \<longleftrightarrow> known_type t \<and> t \<notin> {''unknown'', ''complex''}"

lemma list_index_Some: "list_index xs x = Some k \<Longrightarrow> k < length xs \<and> xs ! k = x"
  by (induction xs arbitrary: k) (auto split: if_splits)

lemma list_index_None: "list_index xs x = None \<longleftrightarrow> x \<notin> set xs"
  by (induction xs) auto

lemma erank_inj: "known_type a \<Longrightarrow> erank a = erank b \<Longrightarrow> a = b"
  using list_index_None [of rank_order a]
  by (auto simp: erank_def known_type_def split: option.splits dest!: list_index_Some)

lemma scalar_cases:
  assumes "scalar_type t"
  obtains "t = ''boolean''" | "t = ''signed_char''" | "t = ''unsigned_char''" | "t = ''char''"
    | "t = ''signed_short''" | "t = ''unsigned_short''" | "t = ''signed_int''" | "t = ''unsigned_int''"
    | "t = ''signed_long''" | "t = ''unsigned_long''" | "t = ''signed_long_long''"
    | "t = ''unsigned_long_long''" | "t = ''float''" | "t = ''double''" | "t = ''long_double''"
proof -
  have "t \<in> set rank_order" "t \<noteq> ''unknown''" "t \<noteq> ''complex''"
    using assms by (simp_all add: scalar_type_def known_type_def)
  then show thesis
    unfolding rank_order_def list.set insert_iff empty_iff using that by metis
qed

lemma erank_simps [simp]:
  "erank ''boolean'' = 0" "erank ''signed_char'' = 1" "erank ''unsigned_char'' = 2" "erank ''char'' = 3"
  "erank ''signed_short'' = 4" "erank ''unsigned_short'' = 5" "erank ''signed_int'' = 6"
  "erank ''unsigned_int'' = 7" "erank ''signed_long'' = 8" "erank ''unsigned_long'' = 9"
  "erank ''signed_long_long'' = 10" "erank ''unsigned_long_long'' = 11" "erank ''float'' = 12"
  "erank ''double'' = 13" "erank ''long_double'' = 14" "erank ''complex'' = 15" "erank ''unknown'' = 16"
  by code_simp+

lemma category_simps [simp]:
  "category ''boolean'' = ''boolean''" "category ''signed_char'' = ''signed''"
  "category ''unsigned_char'' = ''unsigned''" "category ''char'' = ''character''"
  "category ''signed_short'' = ''signed''" "category ''unsigned_short'' = ''unsigned''"
  "category ''signed_int'' = ''signed''" "category ''unsigned_int'' = ''unsigned''"
  "category ''signed_long'' = ''signed''" "category ''unsigned_long'' = ''unsigned''"
  "category ''signed_long_long'' = ''signed''" "category ''unsigned_long_long'' = ''unsigned''"
  "category ''float'' = ''floating''" "category ''double'' = ''floating''"
  "category ''long_double'' = ''floating''" "category ''complex'' = ''complex''"
  "category ''unknown'' = ''unknown''"
  by code_simp+

lemmas category_defs = is_signed_def is_unsigned_def is_floating_def

lemma known_not_enum: "known_type t \<Longrightarrow> \<not> is_enum_type t"
  by (auto simp: known_type_def rank_order_def is_enum_type_def starts_with_def)

lemma scalar_floating: "scalar_type t \<Longrightarrow> is_floating t \<longleftrightarrow> 12 \<le> erank t"
  by (erule scalar_cases) (simp_all add: is_floating_def)

lemma scalar_bound: "scalar_type t \<Longrightarrow> erank t < 15"
  by (erule scalar_cases) simp_all

text \<open>From \<open>int\<close> on, the signed types have the even ranks.\<close>

lemma scalar_signed: "scalar_type t \<Longrightarrow> 6 \<le> erank t \<Longrightarrow> \<not> is_floating t \<Longrightarrow> is_signed t \<longleftrightarrow> even (erank t)"
  by (erule scalar_cases) (simp_all add: is_floating_def is_signed_def)

lemma scalar_inj: "scalar_type a \<Longrightarrow> erank a = erank b \<Longrightarrow> a = b"
  by (simp add: scalar_type_def erank_inj)

lemma scalar_signed_int [simp]: "scalar_type ''signed_int''"
  by (simp add: scalar_type_def known_type_def rank_order_def)

lemma scalar_not_special: "scalar_type t \<Longrightarrow> t \<noteq> ''unknown'' \<and> t \<noteq> ''complex''"
  by (simp add: scalar_type_def)

text \<open>The types the conversions are about: the ranked ones and the enums.\<close>

definition operand_type :: "etype \<Rightarrow> bool" where
  "operand_type t \<longleftrightarrow> scalar_type t \<or> is_enum_type t"

lemma promote_scalar: "scalar_type t \<Longrightarrow> promote t = (if 6 \<le> erank t then t else ''signed_int'')"
  using known_not_enum [of t] by (subst promote.simps) (auto simp: scalar_type_def)

lemma promote_enum: "is_enum_type t \<Longrightarrow> promote t = ''signed_int''"
  by (subst promote.simps) (simp add: enum_underlying_type_def promote_scalar)

lemma promote_int_or_wider: "operand_type t \<Longrightarrow> scalar_type (promote t) \<and> 6 \<le> erank (promote t)"
  by (auto simp: operand_type_def promote_scalar promote_enum)

lemma operand_promote: "operand_type t \<Longrightarrow> operand_type (promote t)"
  by (simp add: promote_int_or_wider operand_type_def)

lemma promote_idem: "operand_type t \<Longrightarrow> promote (promote t) = promote t"
  using promote_int_or_wider [of t] by (simp add: promote_scalar)

text \<open>The conversions choose the promoted operand of the higher rank.\<close>

lemma uac_max:
  assumes "operand_type l" and "operand_type r"
  shows "usual_arithmetic_conversion l r
    = (if erank (promote r) > erank (promote l) then promote r else promote l)"
proof -
  define p q where pq: "p = promote l" "q = promote r"
  have p: "scalar_type p" "6 \<le> erank p" and q: "scalar_type q" "6 \<le> erank q"
    using promote_int_or_wider assms pq by auto
  have inj: "p = q" if "erank p = erank q" using scalar_inj [OF p(1) that] .
  have sp: "p \<noteq> ''unknown''" "p \<noteq> ''complex''" "q \<noteq> ''unknown''" "q \<noteq> ''complex''"
    using scalar_not_special p(1) q(1) by auto
  have fl: "is_floating p \<longleftrightarrow> 12 \<le> erank p" "is_floating q \<longleftrightarrow> 12 \<le> erank q"
    using scalar_floating p(1) q(1) by auto
  have sg: "\<not> is_floating p \<Longrightarrow> is_signed p \<longleftrightarrow> even (erank p)" "\<not> is_floating q \<Longrightarrow> is_signed q \<longleftrightarrow> even (erank q)"
    using scalar_signed p q by auto
  show ?thesis
    unfolding usual_arithmetic_conversion_def Let_def pq [symmetric]
    using sp fl sg inj by (auto simp del: erank_simps)
qed

lemma uac_closed: "operand_type l \<Longrightarrow> operand_type r \<Longrightarrow>
    operand_type (usual_arithmetic_conversion l r) \<and> 6 \<le> erank (usual_arithmetic_conversion l r)"
  by (simp add: uac_max operand_promote promote_int_or_wider)

lemma uac_scalar: "operand_type l \<Longrightarrow> operand_type r \<Longrightarrow>
    scalar_type (usual_arithmetic_conversion l r) \<and> promote (usual_arithmetic_conversion l r) = usual_arithmetic_conversion l r"
  by (simp add: uac_max promote_int_or_wider promote_idem)

lemma uac_commute: "operand_type l \<Longrightarrow> operand_type r \<Longrightarrow>
    usual_arithmetic_conversion l r = usual_arithmetic_conversion r l"
  using promote_int_or_wider [of l] promote_int_or_wider [of r] scalar_inj [of "promote l" "promote r"]
  by (auto simp: uac_max)

lemma uac_assoc: "operand_type a \<Longrightarrow> operand_type b \<Longrightarrow> operand_type c \<Longrightarrow>
    usual_arithmetic_conversion (usual_arithmetic_conversion a b) c
      = usual_arithmetic_conversion a (usual_arithmetic_conversion b c)"
  by (simp add: uac_max uac_closed uac_scalar operand_promote promote_idem)

subsection \<open>Narrowing\<close>

lemma narrowing_rank:
  assumes "scalar_type f" and "scalar_type t"
  shows "is_narrowing f t \<longleftrightarrow> erank t < erank f"
proof -
  have "f = t" if "erank f = erank t" using scalar_inj [OF assms(1) that] .
  then have "is_signed f \<and> is_unsigned t \<Longrightarrow> erank t \<le> erank f \<longleftrightarrow> erank t < erank f"
    by (auto simp: category_defs le_less)
  moreover have "is_floating f \<and> \<not> is_floating t \<Longrightarrow> erank t < erank f"
    using scalar_floating [OF assms(1)] scalar_floating [OF assms(2)] by simp
  ultimately show ?thesis
    using scalar_not_special [OF assms(1)] scalar_not_special [OF assms(2)] by (simp add: is_narrowing_def)
qed

text \<open>The value range of an integer type, from the code's own table of literal ranges.\<close>

definition type_range :: "etype \<Rightarrow> (int \<times> int) option" where
  "type_range t = (if t = ''boolean'' then Some (0, 1) else
     case map_of unsigned_candidates t of
       Some m \<Rightarrow> Some (0, m)
     | None \<Rightarrow> map_option (\<lambda>m. (- m - 1, m)) (map_of signed_candidates t))"

lemma type_range_cases:
  assumes "type_range t = Some (a, b)"
  obtains "t = ''boolean''" "a = 0" "b = 1" | "t = ''signed_char''" "a = - 0x80" "b = 0x7F"
    | "t = ''unsigned_char''" "a = 0" "b = 0xFF" | "t = ''signed_short''" "a = - 0x8000" "b = 0x7FFF"
    | "t = ''unsigned_short''" "a = 0" "b = 0xFFFF" | "t = ''signed_int''" "a = - 0x80000000" "b = 0x7FFFFFFF"
    | "t = ''unsigned_int''" "a = 0" "b = 0xFFFFFFFF"
    | "t = ''signed_long''" "a = - 0x8000000000000000" "b = 0x7FFFFFFFFFFFFFFF"
    | "t = ''unsigned_long''" "a = 0" "b = 0xFFFFFFFFFFFFFFFF"
    | "t = ''signed_long_long''" "a = - (2 ^ 127)" "b = 2 ^ 127 - 1"
    | "t = ''unsigned_long_long''" "a = 0" "b = 2 ^ 128 - 1"
  using assms
  by (simp add: type_range_def unsigned_candidates_def signed_candidates_def split: if_splits)

lemma type_range_scalar: "type_range t = Some (a, b) \<Longrightarrow> scalar_type t"
  by (erule type_range_cases) (simp_all add: scalar_type_def known_type_def rank_order_def)

lemma range_rank_bounds:
  assumes "type_range f = Some (a, b)" and "type_range t = Some (c, d)" and "erank f \<le> erank t"
    and "\<not> (is_signed f \<and> is_unsigned t)"
  shows "c \<le> a \<and> b \<le> d"
  by (rule type_range_cases [OF assms(1)]; rule type_range_cases [OF assms(2)];
      use assms(3,4) in \<open>simp add: category_defs\<close>)

lemma signed_to_unsigned:
  assumes "type_range f = Some (a, b)" and "type_range t = Some (c, d)" and "is_signed f" and "is_unsigned t"
  shows "a < c"
proof -
  have "c = 0" by (rule type_range_cases [OF assms(2)]) (use assms(4) in \<open>simp_all add: category_defs\<close>)
  moreover have "a < 0" by (rule type_range_cases [OF assms(1)]) (use assms(3) in \<open>simp_all add: category_defs\<close>)
  ultimately show ?thesis by simp
qed

subsection \<open>Literals and bit-fields\<close>

lemma find_first: "find P xs = Some x \<Longrightarrow>
    \<exists>k < length xs. xs ! k = x \<and> P x \<and> (\<forall>j < k. \<not> P (xs ! j))"
  unfolding find_Some_iff by blast

text \<open>The candidates that the suffix leaves open.\<close>

definition open_candidates :: "string \<Rightarrow> (etype \<times> int) list" where
  "open_candidates raw = drop (if literal_is_long raw then 2 else 0) (candidates_of raw)"

lemma candidate_range:
  assumes "(t, m) \<in> set (candidates_of raw)"
  shows "\<exists>a. type_range t = Some (a, m) \<and> a \<le> 0"
proof -
  have "(t, m) \<in> set unsigned_candidates \<or> (t, m) \<in> set signed_candidates"
    using assms by (simp add: candidates_of_def split: if_splits)
  then show ?thesis
    unfolding unsigned_candidates_def signed_candidates_def list.set insert_iff empty_iff
    by (elim disjE) (simp_all add: type_range_def unsigned_candidates_def signed_candidates_def)
qed

lemma open_candidate: "c \<in> set (open_candidates raw) \<Longrightarrow> c \<in> set (candidates_of raw)"
  unfolding open_candidates_def by (rule in_set_dropD)

lemma open_candidates_last: "open_candidates raw \<noteq> [] \<and> last (open_candidates raw) =
    (if literal_is_unsigned raw then (''unsigned_long_long'', 2 ^ 128 - 1) else (''signed_long_long'', 2 ^ 127 - 1))"
  by (simp add: open_candidates_def candidates_of_def unsigned_candidates_def signed_candidates_def)

lemma literal_find:
  assumes "int_base0 (rstrip ''uUlL'' raw) = Some v" and "v \<le> snd (last (open_candidates raw))"
  shows "\<exists>k < length (open_candidates raw). fst (open_candidates raw ! k) = literal_type_of_text raw
    \<and> v \<le> snd (open_candidates raw ! k) \<and> (\<forall>j < k. snd (open_candidates raw ! j) < v)"
proof -
  let ?P = "\<lambda>(name :: string, max_value). v \<le> max_value"
  have "\<exists>x \<in> set (open_candidates raw). ?P x"
    using assms(2) last_in_set [of "open_candidates raw"] open_candidates_last [of raw]
    by (intro bexI [of _ "last (open_candidates raw)"]) (simp_all only: case_prod_unfold not_False_eq_True simp_thms)
  then obtain x where x: "find ?P (open_candidates raw) = Some x"
    by (cases "find ?P (open_candidates raw)") (auto simp: find_None_iff)
  then have "literal_type_of_text raw = fst x"
    using assms(1)
    by (cases x) (simp add: literal_type_of_text_def open_candidates_def Let_def)
  then show ?thesis using find_first [OF x] by (auto simp: case_prod_unfold not_le)
qed

lemma bitfield_table: "1 \<le> w \<Longrightarrow> bitfield_essential_type signed w =
    (if w \<le> 1 then ''boolean'' else if w \<le> 8 then if signed then ''signed_char'' else ''unsigned_char''
     else if w \<le> 16 then if signed then ''signed_short'' else ''unsigned_short''
     else if w \<le> 32 then if signed then ''signed_int'' else ''unsigned_int''
     else if signed then ''signed_long_long'' else ''unsigned_long_long'')"
  by (simp add: bitfield_essential_type_def bitfield_signed_by_width_def bitfield_unsigned_by_width_def)

lemma bitfield_mono: "1 \<le> v \<Longrightarrow> v \<le> w \<Longrightarrow>
    erank (bitfield_essential_type signed v) \<le> erank (bitfield_essential_type signed w)"
  by (auto simp: bitfield_table)

lemma power_width: "(n :: nat) \<le> m \<Longrightarrow> (2 :: int) ^ n \<le> 2 ^ m"
  by (simp add: power_increasing)

lemma bitfield_unsigned_range:
  assumes "1 \<le> w" and "w \<le> 64"
  shows "\<exists>m. type_range (bitfield_essential_type False (int w)) = Some (0, m) \<and> 2 ^ w - 1 \<le> m"
  using assms power_width [of w 1] power_width [of w 8] power_width [of w 16] power_width [of w 32]
    power_width [of w 128]
  by (auto simp: bitfield_table type_range_def unsigned_candidates_def)

lemma bitfield_signed_range:
  assumes "2 \<le> w" and "w \<le> 64"
  shows "\<exists>m. type_range (bitfield_essential_type True (int w)) = Some (- m - 1, m) \<and> 2 ^ (w - 1) - 1 \<le> m"
  using assms power_width [of "w - 1" 7] power_width [of "w - 1" 15] power_width [of "w - 1" 31]
    power_width [of "w - 1" 127]
  by (auto simp: bitfield_table type_range_def unsigned_candidates_def signed_candidates_def)

text \<open>A leading zero with a nonzero digit after it is no integer for \<^const>\<open>int_base0\<close>.\<close>

definition octal_digits :: string where
  "octal_digits = ''01234567''"

lemma octal_digits_check:
  "list_all (\<lambda>c. (case digit_value c of None \<Rightarrow> False | Some d \<Rightarrow> 0 \<le> d \<and> d < 10 \<and> (c \<noteq> CHR ''0'' \<longrightarrow> 0 < d))
     \<and> c \<notin> set ''_uUlL-+'' \<and> (of_char c :: nat) \<notin> set whitespace \<and> lower_char c \<notin> set ''xob'') octal_digits"
  by code_simp

lemma octal_digit:
  assumes "c \<in> set octal_digits"
  shows "\<exists>d. digit_value c = Some d \<and> 0 \<le> d \<and> d < 10 \<and> (c \<noteq> CHR ''0'' \<longrightarrow> 0 < d)"
    and "c \<notin> set ''_uUlL-+''" and "(of_char c :: nat) \<notin> set whitespace" and "lower_char c \<notin> set ''xob''"
proof -
  have c: "(case digit_value c of None \<Rightarrow> False | Some d \<Rightarrow> 0 \<le> d \<and> d < 10 \<and> (c \<noteq> CHR ''0'' \<longrightarrow> 0 < d))"
    "c \<notin> set ''_uUlL-+''" "(of_char c :: nat) \<notin> set whitespace" "lower_char c \<notin> set ''xob''"
    using bspec [OF octal_digits_check [unfolded list_all_iff] assms] by blast+
  show "\<exists>d. digit_value c = Some d \<and> 0 \<le> d \<and> d < 10 \<and> (c \<noteq> CHR ''0'' \<longrightarrow> 0 < d)"
    using c(1) by (cases "digit_value c") simp_all
  show "c \<notin> set ''_uUlL-+''" by (fact c(2))
  show "(of_char c :: nat) \<notin> set whitespace" by (fact c(3))
  show "lower_char c \<notin> set ''xob''" by (fact c(4))
qed

lemma scan_octal:
  "0 \<le> acc \<Longrightarrow> set s \<subseteq> set octal_digits \<Longrightarrow> s \<noteq> [] \<or> \<not> us \<Longrightarrow>
    \<exists>v. scan_digits 10 us acc s = Some v \<and> 0 \<le> v \<and> (0 < acc \<or> list_ex (\<lambda>c. c \<noteq> CHR ''0'') s \<longrightarrow> 0 < v)"
proof (induction s arbitrary: acc us)
  case Nil
  then show ?case by simp
next
  case (Cons c s)
  have c: "c \<in> set octal_digits" using Cons.prems(2) by simp
  from octal_digit(1) [OF c] obtain d where
    d: "digit_value c = Some d" "0 \<le> d" "d < 10" "c \<noteq> CHR ''0'' \<longrightarrow> 0 < d" by blast
  have us: "c \<noteq> CHR ''_''" using octal_digit(2) [OF c] by simp
  have "0 \<le> acc * 10 + d" "set s \<subseteq> set octal_digits" using Cons.prems d by auto
  then obtain v where v: "scan_digits 10 False (acc * 10 + d) s = Some v" "0 \<le> v"
    "0 < acc * 10 + d \<or> list_ex (\<lambda>c. c \<noteq> CHR ''0'') s \<longrightarrow> 0 < v" using Cons.IH by blast
  have "0 < acc \<or> c \<noteq> CHR ''0'' \<Longrightarrow> 0 < acc * 10 + d" using d Cons.prems(1) by auto
  then have "0 < acc \<or> list_ex (\<lambda>c. c \<noteq> CHR ''0'') (c # s) \<longrightarrow> 0 < v" using v(3) unfolding list_ex_iff by auto
  then show ?case using v(1,2) d(1,3) us by simp
qed

lemma octal_stripped:
  assumes "s \<noteq> []" and "set s \<subseteq> set octal_digits"
  shows "rstrip ''uUlL'' s = s" and "strip s = s"
proof -
  have "last s \<in> set octal_digits" "hd s \<in> set octal_digits" using assms by auto
  then have l: "last s \<notin> set ''uUlL''" "(of_char (last s) :: nat) \<notin> set whitespace"
    "(of_char (hd s) :: nat) \<notin> set whitespace" using octal_digit(2) [of "last s"] octal_digit(3) by auto
  show "rstrip ''uUlL'' s = s"
    using l(1) assms(1) dropWhile_eq_self_iff [of "\<lambda>c. c \<in> set ''uUlL''" "rev s"]
    by (simp add: rstrip_def hd_rev)
  have "dropWhile (\<lambda>c. (of_char c :: nat) \<in> set whitespace) s = s"
    "dropWhile (\<lambda>c. (of_char c :: nat) \<in> set whitespace) (rev s) = rev s"
    using l(2,3) assms(1) by (simp_all only: dropWhile_eq_self_iff hd_rev not_False_eq_True simp_thms)
  then show "strip s = s" by (simp add: strip_def)
qed

lemma int_base0_octal:
  assumes "s \<noteq> []" and "set s \<subseteq> set octal_digits" and "list_ex (\<lambda>c. c \<noteq> CHR ''0'') s"
  shows "int_base0 (CHR ''0'' # s) = None"
proof -
  obtain c r where s: "s = c # r" using assms(1) by (cases s) auto
  have z: "set (CHR ''0'' # s) \<subseteq> set octal_digits" using assms(2) by (simp add: octal_digits_def)
  have "lower_char c \<notin> set ''xob''" using octal_digit(4) [of c] assms(2) s by simp
  moreover obtain v where "scan_digits 10 True 0 (CHR ''0'' # s) = Some v" "0 < v"
    using scan_octal [of 0 "CHR ''0'' # s" True] z assms(3) by auto
  ultimately have "scan_base0 (CHR ''0'' # s) = None" by (simp add: scan_base0_def s)
  then show ?thesis using octal_stripped(2) [OF _ z] by (simp add: int_base0_def)
qed

subsection \<open>Enum types\<close>

lemma enum_type_of_name [simp]: "is_enum_type (enum_essential_type a)"
  using ends_with_append [of "''enum<'' @ a" "''>''"]
  by (simp add: is_enum_type_def enum_essential_type_def starts_with_def)

lemma enum_name_of_type [simp]: "enum_name (enum_essential_type a) = a"
proof -
  have "enum_name (enum_essential_type a) = drop 5 (butlast (enum_essential_type a))"
    by (simp add: enum_name_def)
  then show ?thesis by (simp add: enum_essential_type_def butlast_append)
qed

lemma inappropriate_commute: "is_inappropriate_operand_pair l r = is_inappropriate_operand_pair r l"
  by (auto simp: is_inappropriate_operand_pair_def base_inappropriate_pair_def)

subsection \<open>Composite expressions\<close>

text \<open>
  A type the worker may annotate a node with, and an AST whose annotations, where present, are
  such types.
\<close>

definition annotation :: "etype \<Rightarrow> bool" where
  "annotation t \<longleftrightarrow> known_type t \<or> is_enum_type t"

definition annotated_node :: "ast_node \<Rightarrow> bool" where
  "annotated_node n \<longleftrightarrow> annotation (ess_type n) \<and>
     (ty_str n ''fundamental_kind'' = [] \<or> annotation (ty_str n ''fundamental_kind''))"

definition annotated :: "ast_graph \<Rightarrow> bool" where
  "annotated g \<longleftrightarrow> graph_ok g \<and> list_all annotated_node (nodes_list g)"

lemma known_simps [simp]: "known_type ''boolean''" "known_type ''signed_int''" "known_type ''unknown''"
  "known_type ''complex''"
  by (simp_all add: known_type_def rank_order_def)

lemma annotation_operand: "annotation t \<longleftrightarrow> operand_type t \<or> t = ''unknown'' \<or> t = ''complex''"
  by (auto simp: annotation_def operand_type_def scalar_type_def)

lemma promote_special [simp]: "promote ''unknown'' = ''unknown''" "promote ''complex'' = ''complex''"
  by (simp_all add: promote.simps is_enum_type_def starts_with_def)

lemma annotation_promote: "annotation t \<Longrightarrow> annotation (promote t)"
  using operand_promote by (auto simp: annotation_operand)

lemma annotation_uac: "annotation l \<Longrightarrow> annotation r \<Longrightarrow> annotation (usual_arithmetic_conversion l r)"
  using uac_closed [of l r]
  by (auto simp: annotation_operand usual_arithmetic_conversion_def [of _ "''unknown''"]
      usual_arithmetic_conversion_def [of _ "''complex''"] usual_arithmetic_conversion_def [of "''unknown''"]
      usual_arithmetic_conversion_def [of "''complex''"])

lemma annotation_operators:
  "annotation t \<Longrightarrow> annotation (unary_type opcode t)"
  "annotation own \<Longrightarrow> annotation l \<Longrightarrow> annotation r \<Longrightarrow> annotation (binary_type opcode own l r)"
  "annotation l \<Longrightarrow> annotation r \<Longrightarrow> annotation (conditional_type l r)"
  using annotation_promote [of t] annotation_promote [of l] annotation_uac [of l r]
  by (auto simp: unary_type_def binary_type_def conditional_type_def annotation_def)

lemma candidate_known: "(t, m) \<in> set (candidates_of raw) \<Longrightarrow> known_type t"
  using candidate_range type_range_scalar scalar_type_def by blast

lemma annotation_literal: "annotation (literal_type_of_text raw)"
proof (cases "int_base0 (rstrip ''uUlL'' raw)")
  case None
  then show ?thesis by (simp add: literal_type_of_text_def annotation_def)
next
  case (Some v)
  have lit: "literal_type_of_text raw = (case find (\<lambda>(name, max_value). v \<le> max_value) (open_candidates raw) of
      Some (name, _) \<Rightarrow> name | None \<Rightarrow> fst (last (candidates_of raw)))"
    by (simp add: literal_type_of_text_def Some open_candidates_def Let_def)
  have "candidates_of raw \<noteq> []"
    by (simp add: candidates_of_def unsigned_candidates_def signed_candidates_def)
  then have last: "last (candidates_of raw) \<in> set (candidates_of raw)" by simp
  have "known_type (literal_type_of_text raw)"
  proof (cases "find (\<lambda>(name, max_value). v \<le> max_value) (open_candidates raw)")
    case None
    then show ?thesis using candidate_known [of "fst (last (candidates_of raw))" "snd (last (candidates_of raw))"] last
      by (simp add: lit)
  next
    case (Some c)
    then have "c \<in> set (open_candidates raw)" using nth_mem by (auto simp: find_Some_iff)
    then have "c \<in> set (candidates_of raw)" by (rule open_candidate)
    then have "known_type (fst c)" by (intro candidate_known [of _ "snd c"]) simp
    moreover have "literal_type_of_text raw = fst c" by (cases c) (simp add: lit Some)
    ultimately show ?thesis by simp
  qed
  then show ?thesis by (simp add: annotation_def)
qed

lemma annotated_child: "annotated g \<Longrightarrow> c \<in> set (children g i) \<Longrightarrow> annotated_node c"
  by (auto simp: annotated_def list_all_iff set_children dest: g_get_in_nodes)

text \<open>
  A predicate the leaves satisfy and the operators keep holds for the result, given results
  for the children.
\<close>

lemma ess_body_closed:
  assumes own: "Q (ess_type n)" and lit: "Q (literal_essential_type n)"
    and cast: "ty_str n ''fundamental_kind'' = [] \<or> Q (ty_str n ''fundamental_kind'')"
    and un1: "\<And>opc t. Q t \<Longrightarrow> Q (unary_type opc t)"
    and bin2: "\<And>opc l r. Q l \<Longrightarrow> Q r \<Longrightarrow> Q (binary_type opc (ess_type n) l r)"
    and con2: "\<And>l r. Q l \<Longrightarrow> Q r \<Longrightarrow> Q (conditional_type l r)"
    and rec: "\<And>c. c \<in> set (children g (node_id n)) \<Longrightarrow> \<exists>t. rec c = Some t \<and> Q t"
  shows "\<exists>t. ess_body g rec n = Some t \<and> Q t"
proof -
  let ?cs = "children g (node_id n)" and ?op = "sem_str n ''opcode''"
  have un: "\<exists>t. (case ?cs of [] \<Rightarrow> Some (ess_type n)
      | c # _ \<Rightarrow> do { t \<leftarrow> rec c; Some (unary_type ?op t) }) = Some t \<and> Q t"
  proof (cases ?cs)
    case (Cons c cs)
    then obtain t where "rec c = Some t" "Q t" using rec [of c] by auto
    then show ?thesis using Cons un1 by simp
  qed (simp add: own)
  have bin: "\<exists>t. (case ?cs of a # b # _ \<Rightarrow> do { l \<leftarrow> rec a; r \<leftarrow> rec b; Some (binary_type ?op (ess_type n) l r) }
      | _ \<Rightarrow> Some (ess_type n)) = Some t \<and> Q t"
  proof (cases "\<exists>a b cs. ?cs = a # b # cs")
    case True
    then obtain a b cs where cs: "?cs = a # b # cs" by blast
    then obtain l r where "rec a = Some l" "Q l" "rec b = Some r" "Q r"
      using rec [of a] rec [of b] by auto
    then show ?thesis using cs bin2 by simp
  qed (simp add: own split: list.splits)
  have con: "\<exists>t. (case ?cs of _ # a # b # _ \<Rightarrow> do { t \<leftarrow> rec a; e \<leftarrow> rec b; Some (conditional_type t e) }
      | _ \<Rightarrow> Some (ess_type n)) = Some t \<and> Q t"
  proof (cases "\<exists>x a b cs. ?cs = x # a # b # cs")
    case True
    then obtain x a b cs where cs: "?cs = x # a # b # cs" by blast
    then obtain l r where "rec a = Some l" "Q l" "rec b = Some r" "Q r"
      using rec [of a] rec [of b] by auto
    then show ?thesis using cs con2 by simp
  qed (simp add: own split: list.splits)
  have some: "\<exists>t. (case essential_type n of None \<Rightarrow> Some (literal_essential_type n)
      | Some t \<Rightarrow> Some (if t \<noteq> [] then t else literal_essential_type n)) = Some t \<and> Q t"
    using own lit by (auto simp: ess_type_def split: option.splits)
  show ?thesis
    unfolding ess_body_def Let_def using own cast un bin con some by auto
qed

text \<open>
  The recursion calls itself on children only and keeps annotations: the interpretation
  gives termination and the type invariant at once.
\<close>

interpretation ess: tree_walk g "ess_body g" "\<lambda>n t. annotated g \<longrightarrow> annotated_node n \<longrightarrow> annotation t" for g
proof
  fix n :: ast_node and rec :: "ast_node \<Rightarrow> etype option"
  assume rec: "\<And>c. c \<in> set (children g (node_id n)) \<Longrightarrow>
    \<exists>t. rec c = Some t \<and> (annotated g \<longrightarrow> annotated_node c \<longrightarrow> annotation t)"
  show "\<exists>t. ess_body g rec n = Some t \<and> (annotated g \<longrightarrow> annotated_node n \<longrightarrow> annotation t)"
  proof (cases "annotated g \<and> annotated_node n")
    case True
    have "\<exists>t. ess_body g rec n = Some t \<and> annotation t"
    proof (rule ess_body_closed)
      show "annotation (ess_type n)"
        and "ty_str n ''fundamental_kind'' = [] \<or> annotation (ty_str n ''fundamental_kind'')"
        using True by (simp_all add: annotated_node_def)
      show "annotation (literal_essential_type n)"
        by (simp add: literal_essential_type_def annotation_literal)
      show "annotation (binary_type opc (ess_type n) l r)" if "annotation l" "annotation r" for opc l r
        using annotation_operators(2) that True by (simp add: annotated_node_def)
    qed (use rec True annotated_child annotation_operators in blast)+
    then show ?thesis by blast
  next
    case False
    have "\<exists>t. ess_body g rec n = Some t \<and> True" by (rule ess_body_closed) (use rec in auto)
    then show ?thesis using False by blast
  qed
qed

subsection \<open>Properties\<close>

text \<open>
  C39: on the operand types (every ranked type other than unknown and complex, and every
  enum), the usual arithmetic conversions are a join of the promoted types: commutative,
  associative, idempotent up to promotion, never below \<open>int\<close>, and equal to one of the two
  promoted operands.
\<close>

theorem conversions_semilattice:
  assumes "operand_type a" and "operand_type b" and "operand_type c"
  shows "usual_arithmetic_conversion a b = usual_arithmetic_conversion b a
    \<and> usual_arithmetic_conversion (usual_arithmetic_conversion a b) c
        = usual_arithmetic_conversion a (usual_arithmetic_conversion b c)
    \<and> usual_arithmetic_conversion a a = promote a
    \<and> usual_arithmetic_conversion a b \<in> {promote a, promote b}
    \<and> erank ''signed_int'' \<le> erank (usual_arithmetic_conversion a b)
    \<and> erank (promote a) \<le> erank (usual_arithmetic_conversion a b)"
  using assms uac_commute uac_assoc promote_int_or_wider [of a] promote_int_or_wider [of b]
  by (simp add: uac_max)

lemma operand_examples: "operand_type ''unsigned_char''" "operand_type ''signed_long''"
  "operand_type (enum_essential_type ''Color'')"
  unfolding operand_type_def by (simp_all add: scalar_type_def known_type_def rank_order_def)

theorem conversions_semilattice_witness:
  "usual_arithmetic_conversion ''unsigned_char'' ''signed_long''
      = usual_arithmetic_conversion ''signed_long'' ''unsigned_char''
    \<and> usual_arithmetic_conversion ''unsigned_char'' ''unsigned_char'' = promote ''unsigned_char''"
  using conversions_semilattice [OF operand_examples] by blast



text \<open>
  The exception is real.  A conversion from a signed type to an unsigned type of higher
  rank is never reported, although the negative values of the source are lost; the docstring
  promises a report whenever information may be lost.
\<close>

theorem narrowing_misses_sign:
  assumes "type_range f = Some (a, b)" and "type_range t = Some (c, d)"
    and "is_signed f" and "is_unsigned t" and "erank f < erank t"
  shows "\<not> is_narrowing f t \<and> a < c"
  using narrowing_rank [OF type_range_scalar [OF assms(1)] type_range_scalar [OF assms(2)]]
    signed_to_unsigned [OF assms(1-4)] assms(5) by simp

theorem narrowing_misses_sign_witness:
  "\<not> is_narrowing ''signed_int'' ''unsigned_int'' \<and> - 0x80000000 < (0 :: int)"
proof (rule narrowing_misses_sign)
  show "type_range ''signed_int'' = Some (- 0x80000000, 0x7FFFFFFF)"
    and "type_range ''unsigned_int'' = Some (0, 0xFFFFFFFF)"
    by (simp_all add: type_range_def unsigned_candidates_def signed_candidates_def)
qed (simp_all add: category_defs)



text \<open>
  A C octal literal with a nonzero value is typed unknown: \<open>int(raw, 0)\<close> rejects
  a leading zero, so \<open>_literal_essential_type\<close> takes its error branch.
\<close>

theorem octal_literal_unknown:
  assumes "set s \<subseteq> set octal_digits" and "list_ex (\<lambda>c. c \<noteq> CHR ''0'') s"
  shows "literal_type_of_text (CHR ''0'' # s) = ''unknown''"
proof -
  have "s \<noteq> []" using assms(2) by auto
  moreover have "set (CHR ''0'' # s) \<subseteq> set octal_digits" using assms(1) by (simp add: octal_digits_def)
  ultimately show ?thesis
    using int_base0_octal [OF _ assms] octal_stripped(1) [of "CHR ''0'' # s"]
    by (simp add: literal_type_of_text_def)
qed

theorem octal_literal_unknown_witness: "literal_type_of_text ''0644'' = ''unknown''"
  by (rule octal_literal_unknown) (simp_all add: octal_digits_def)

text \<open>
  On an AST whose annotations are essential types, with a recursion limit above the
  height of the tree, the bottom-up typing of an expression returns, and what it returns is
  again a ranked type or an enum.
\<close>

theorem expression_typing_returns:
  assumes "ranked g r" and "r (node_id n) < depth" and "annotated g" and "annotated_node n"
  shows "\<exists>t. essential_type_of_expression depth g n = Some t \<and> annotation t"
  using ess.enough_depth [OF assms(1,2)] assms(3,4) by (auto simp: essential_type_of_expression_def)

text \<open>\<open>c + 0x1FFu\<close> with an unsigned \<open>char\<close> \<open>c\<close>.\<close>

definition sum_node :: ast_node where
  "sum_node = ex_node ''e'' ''BinaryOperator'' [] [''c'', ''k''] [(''opcode'', PStr ''+'')] 1 1"

definition sum_graph :: ast_graph where
  "sum_graph = mk_graph
     [sum_node,
      (bare_node ''c'' ''DeclRefExpr'' ''e'' []) \<lparr>essential_type := Some ''unsigned_char''\<rparr>,
      ex_node ''k'' ''IntegerLiteral'' ''e'' [] [(''value'', PStr ''0x1FFu'')] 1 5]"

definition sum_rank :: "string \<Rightarrow> nat" where
  "sum_rank i = (if i = ''e'' then 1 else 0)"

lemma sum_graph_get:
  "g_get sum_graph i = (if i = ''k'' then Some (ex_node ''k'' ''IntegerLiteral'' ''e'' [] [(''value'', PStr ''0x1FFu'')] 1 5)
     else if i = ''c'' then Some ((bare_node ''c'' ''DeclRefExpr'' ''e'' []) \<lparr>essential_type := Some ''unsigned_char''\<rparr>)
     else if i = ''e'' then Some sum_node else None)"
  by (simp add: sum_graph_def g_get_mk_graph sum_node_def)

lemma sum_graph_ok: "graph_ok sum_graph"
  by (simp add: sum_graph_def)

lemma sum_graph_nodes: "nodes_list sum_graph =
    [sum_node,
     (bare_node ''c'' ''DeclRefExpr'' ''e'' []) \<lparr>essential_type := Some ''unsigned_char''\<rparr>,
     ex_node ''k'' ''IntegerLiteral'' ''e'' [] [(''value'', PStr ''0x1FFu'')] 1 5]"
  by (simp add: sum_graph_def)

lemma sum_annotated: "annotated_node sum_node" "annotated sum_graph"
  by (simp_all add: annotated_def sum_graph_ok sum_graph_nodes annotated_node_def sum_node_def
      annotation_def ess_type_def ex_node_def ty_str_def prop_str_def known_type_def rank_order_def)

lemma sum_graph_ranked: "ranked sum_graph sum_rank"
  unfolding ranked_def
  unfolding sum_graph_nodes
  by (simp add: sum_graph_ok children_def sum_graph_get sum_rank_def sum_node_def List.map_filter_simps)

theorem expression_typing_returns_witness:
  "\<exists>t. essential_type_of_expression 2 sum_graph sum_node = Some t \<and> annotation t"
proof (rule expression_typing_returns [OF sum_graph_ranked])
  show "sum_rank (node_id sum_node) < 2" by (simp add: sum_rank_def)
qed (rule sum_annotated)+

end
