(* ===== verification/Expressions.thy ===== *)
theory Expressions
  imports Essential
begin

text \<open>
  The queries about single expressions the rule packs share: \<open>ExpressionClassifier\<close>
  (\<open>expression_classifier.py\<close>), \<open>CastAnalyzer\<close> (\<open>cast_analyzer.py\<close>), \<open>PointerAnalyzer\<close>
  (\<open>pointer_analyzer.py\<close>) and \<open>QualifierAnalyzer\<close> (\<open>qualifier_analyzer.py\<close>).  The recursive
  ones are instances of \<^theory_text>\<open>tree_walk_spec\<close>.
\<close>

subsection \<open>Qualifiers\<close>

definition has_qualifier :: "ast_node \<Rightarrow> string \<Rightarrow> bool" where
  "has_qualifier n q \<longleftrightarrow> q \<in> set (qualifiers n)"

definition is_const :: "ast_node \<Rightarrow> bool" where
  "is_const n = has_qualifier n ''const''"

definition is_volatile :: "ast_node \<Rightarrow> bool" where
  "is_volatile n = has_qualifier n ''volatile''"

definition lost_qualifiers :: "ast_node \<Rightarrow> ast_node \<Rightarrow> string list" where
  "lost_qualifiers source target = filter (\<lambda>q. q \<notin> set (qualifiers target)) (qualifiers source)"

definition assignment_drops_qualifier :: "ast_node \<Rightarrow> ast_node \<Rightarrow> string list" where
  "assignment_drops_qualifier lhs rhs = lost_qualifiers rhs lhs"

subsection \<open>Casts\<close>

definition cast_node_kinds :: "string list" where
  "cast_node_kinds =
     [''CStyleCastExpr'', ''ImplicitCastExpr'', ''CXXStaticCastExpr'', ''CXXReinterpretCastExpr'']"

definition is_cast :: "ast_node \<Rightarrow> bool" where
  "is_cast n \<longleftrightarrow> node_kind n \<in> set cast_node_kinds"

definition is_explicit_cast :: "ast_node \<Rightarrow> bool" where
  "is_explicit_cast n \<longleftrightarrow> node_kind n = ''CStyleCastExpr''"

definition is_implicit_cast :: "ast_node \<Rightarrow> bool" where
  "is_implicit_cast n \<longleftrightarrow> node_kind n = ''ImplicitCastExpr''"

text \<open>\<open>list(v)\<close>: a string becomes the list of its characters, a number raises.\<close>

fun py_list :: "pyval \<Rightarrow> py_error + pyval list" where
  "py_list (PList xs) = Inr xs"
| "py_list (PStr s) = Inr (map (\<lambda>c. PStr [c]) s)"
| "py_list (PDict d) = Inr (map (PStr \<circ> fst) d)"
| "py_list _ = Inl TypeError"

definition removed_qualifiers :: "ast_node \<Rightarrow> py_error + pyval list" where
  "removed_qualifiers n =
     (if \<not> sem_flag n ''removes_qualifier'' then Inr []
      else case map_of (semantic_properties n) ''removed_qualifiers'' of
             None \<Rightarrow> Inr []
           | Some v \<Rightarrow> py_list v)"

definition narrows :: "ast_node \<Rightarrow> ast_node \<Rightarrow> bool" where
  "narrows n operand = is_narrowing (ess_type operand) (ess_type n)"

text \<open>\<open>pointee_type\<close> without a default: absent is \<open>None\<close>, which differs from \<open>""\<close>.\<close>

definition changes_pointer_type :: "ast_node \<Rightarrow> ast_node \<Rightarrow> bool" where
  "changes_pointer_type n operand =
     (if \<not> ty_flag n ''is_pointer'' \<or> \<not> ty_flag operand ''is_pointer'' then False
      else prop_get (type_information n) ''pointee_type''
             \<noteq> prop_get (type_information operand) ''pointee_type'')"

definition is_function_pointer_cast :: "ast_node \<Rightarrow> ast_node \<Rightarrow> bool" where
  "is_function_pointer_cast n operand =
     (let target = ty_str n ''spelling''; source = ty_str operand ''spelling''
      in contains_str ''('' target \<and> contains_str ''('' source \<and> target \<noteq> source)"

definition is_composite_expression :: "ast_node \<Rightarrow> bool" where
  "is_composite_expression n = sem_flag n ''is_composite_expression''"

definition void_pointees :: "string list" where
  "void_pointees = [''void'', ''const void'', '''']"

definition changes_object_pointer_type :: "ast_node \<Rightarrow> ast_node \<Rightarrow> bool" where
  "changes_object_pointer_type n operand =
     (if \<not> changes_pointer_type n operand then False
      else if ty_str n ''pointee_type'' \<in> set void_pointees
              \<or> ty_str operand ''pointee_type'' \<in> set void_pointees then False
      else if contains_str ''('' (ty_str n ''spelling'') \<or> contains_str ''('' (ty_str operand ''spelling'')
        then False
      else True)"

definition casts_pointer_to_non_integer_arithmetic :: "ast_node \<Rightarrow> ast_node \<Rightarrow> bool" where
  "casts_pointer_to_non_integer_arithmetic n operand =
     (if \<not> ty_flag operand ''is_pointer'' then False else is_floating (ess_type n))"

definition changes_to_wider_category :: "ast_node \<Rightarrow> ast_node \<Rightarrow> bool" where
  "changes_to_wider_category n operand =
     (let target = ess_type n; source = ess_type operand in
      if target = ''unknown'' \<or> source = ''unknown'' then False
      else if category target = category source then False
      else is_wider source target)"

subsection \<open>Pointers\<close>

definition is_pointer :: "ast_node \<Rightarrow> bool" where
  "is_pointer n = ty_flag n ''is_pointer''"

definition is_null_constant :: "ast_node \<Rightarrow> bool" where
  "is_null_constant n =
     (if node_kind n \<noteq> ''IntegerLiteral'' then False
      else py_str (case map_of (semantic_properties n) ''value'' of None \<Rightarrow> PStr ''0'' | Some v \<Rightarrow> v)
             \<in> {''0'', ''0x0'', ''NULL''})"

definition pointer_arithmetic_opcodes :: "string list" where
  "pointer_arithmetic_opcodes = [''+'', ''-'', ''+='', ''-='', ''++'', ''--'']"

definition is_pointer_arithmetic :: "ast_node \<Rightarrow> ast_node list \<Rightarrow> bool" where
  "is_pointer_arithmetic n operands =
     (if sem_str n ''opcode'' \<notin> set pointer_arithmetic_opcodes then False else list_ex is_pointer operands)"

definition is_two_pointer_subtraction :: "ast_node \<Rightarrow> ast_node list \<Rightarrow> bool" where
  "is_two_pointer_subtraction n operands =
     (case operands of
        a # b # _ \<Rightarrow> sem_str n ''opcode'' = ''-'' \<and> is_pointer a \<and> is_pointer b
      | _ \<Rightarrow> False)"

definition pointee_type :: "ast_node \<Rightarrow> string" where
  "pointee_type n = ty_str n ''pointee_type''"

definition is_file_pointer :: "ast_node \<Rightarrow> bool" where
  "is_file_pointer n =
     (if \<not> is_pointer n then False
      else if pointee_type n = ''FILE'' then True
      else contains_str ''FILE'' (ty_str n ''spelling'') \<and> contains_str ''*'' (ty_str n ''spelling''))"

definition is_incompatible_pointer_assignment :: "ast_node \<Rightarrow> ast_node \<Rightarrow> bool" where
  "is_incompatible_pointer_assignment lhs rhs =
     (let l = pointee_type lhs; r = pointee_type rhs in
      if \<not> is_pointer lhs \<or> \<not> is_pointer rhs then False
      else if l = [] \<or> r = [] then False
      else if l \<in> {''void'', ''const void''} \<or> r \<in> {''void'', ''const void''} then False
      else l \<noteq> r)"

text \<open>The two loops of \<open>returns_address_of_local\<close>: the first child found decides.\<close>

definition local_operand :: "ast_node list \<Rightarrow> string list \<Rightarrow> ast_node \<Rightarrow> string option" where
  "local_operand ds local_names n =
     map_option (\<lambda>c. sem_str c ''name'')
       (find (\<lambda>c. parent_id c = node_id n \<and> node_kind c = ''DeclRefExpr''
                  \<and> sem_str c ''name'' \<in> set local_names) ds)"

fun first_some :: "('a \<Rightarrow> 'b option) \<Rightarrow> 'a list \<Rightarrow> 'b option" where
  "first_some f [] = None"
| "first_some f (x # xs) = (case f x of Some y \<Rightarrow> Some y | None \<Rightarrow> first_some f xs)"

definition returns_address_of_local :: "ast_node list \<Rightarrow> string list \<Rightarrow> string option" where
  "returns_address_of_local ds local_names =
     first_some (\<lambda>n. if node_kind n \<noteq> ''UnaryOperator'' then None
                    else if sem_str n ''opcode'' \<noteq> ''&'' then None
                    else local_operand ds local_names n) ds"

subsection \<open>The expression classifier\<close>

definition literal_kinds :: "string list" where
  "literal_kinds = [''IntegerLiteral'', ''FloatingLiteral'', ''CharacterLiteral'', ''StringLiteral'']"

definition condition_parent_kinds :: "string list" where
  "condition_parent_kinds = [''IfStmt'', ''WhileStmt'', ''DoStmt'', ''ForStmt'']"

definition assignment_opcodes :: "string list" where
  "assignment_opcodes =
     [''='', ''+='', ''-='', ''*='', ''/='', ''%='', ''&='', ''|='', ''^='', ''<<='', ''>>='']"

definition inc_dec_opcodes :: "string list" where
  "inc_dec_opcodes = [''++'', ''--'']"

definition floating_essential_types :: "string list" where
  "floating_essential_types = [''float'', ''double'', ''long_double'']"

definition expression_parent_kinds :: "string list" where
  "expression_parent_kinds =
     [''BinaryOperator'', ''UnaryOperator'', ''CallExpr'', ''CStyleCastExpr'', ''ConditionalOperator'',
      ''ArraySubscriptExpr'', ''MemberExpr'', ''ParenExpr'', ''InitListExpr'', ''ImplicitCastExpr'']"

definition is_literal :: "ast_node \<Rightarrow> bool" where
  "is_literal n \<longleftrightarrow> node_kind n \<in> set literal_kinds"

definition constant_body :: "ast_graph \<Rightarrow> (ast_node \<Rightarrow> bool option) \<Rightarrow> ast_node \<Rightarrow> bool option" where
  "constant_body g rec n =
     (if is_literal n then Some True
      else if node_kind n \<in> {''BinaryOperator'', ''UnaryOperator'', ''ParenExpr''} then
        (if children g (node_id n) = [] then Some False else opt_all rec (children g (node_id n)))
      else Some False)"

definition is_constant_expression :: "nat \<Rightarrow> ast_graph \<Rightarrow> ast_node \<Rightarrow> bool option" where
  "is_constant_expression depth g n = run_depth depth (constant_body g) n"

text \<open>A call, an assignment or an increment: the node itself has a side effect.\<close>

definition effect_node :: "ast_node \<Rightarrow> bool" where
  "effect_node n \<longleftrightarrow> node_kind n = ''CallExpr''
     \<or> sem_str n ''opcode'' \<in> set assignment_opcodes \<or> sem_str n ''opcode'' \<in> set inc_dec_opcodes"

definition effects_body :: "ast_graph \<Rightarrow> (ast_node \<Rightarrow> bool option) \<Rightarrow> ast_node \<Rightarrow> bool option" where
  "effects_body g rec n = (if effect_node n then Some True else opt_any rec (children g (node_id n)))"

definition has_side_effects :: "nat \<Rightarrow> ast_graph \<Rightarrow> ast_node \<Rightarrow> bool option" where
  "has_side_effects depth g n = run_depth depth (effects_body g) n"

text \<open>\<open>DoStmt\<close> keeps its condition last, the other statements first.\<close>

definition condition_child :: "ast_graph \<Rightarrow> ast_node \<Rightarrow> ast_node option" where
  "condition_child g stmt =
     (case children g (node_id stmt) of
        [] \<Rightarrow> None
      | c # cs \<Rightarrow> Some (if node_kind stmt = ''DoStmt'' then last (c # cs) else c))"

definition is_condition_of_control_statement :: "ast_graph \<Rightarrow> ast_node \<Rightarrow> bool" where
  "is_condition_of_control_statement g n =
     (case g_get g (parent_id n) of
        None \<Rightarrow> False
      | Some p \<Rightarrow>
          if node_kind p \<notin> set condition_parent_kinds then False
          else (case condition_child g p of None \<Rightarrow> False | Some c \<Rightarrow> node_id c = node_id n))"

definition is_assignment_used_as_condition :: "ast_graph \<Rightarrow> ast_node \<Rightarrow> bool" where
  "is_assignment_used_as_condition g n =
     (if node_kind n \<noteq> ''BinaryOperator'' then False
      else if sem_str n ''opcode'' \<notin> set assignment_opcodes then False
      else is_condition_of_control_statement g n)"

definition uses_comma_operator :: "ast_node \<Rightarrow> bool" where
  "uses_comma_operator n \<longleftrightarrow> node_kind n = ''BinaryOperator'' \<and> sem_str n ''opcode'' = '',''"

definition is_essentially_boolean_context_mismatch :: "ast_graph \<Rightarrow> ast_node \<Rightarrow> bool" where
  "is_essentially_boolean_context_mismatch g n =
     (if \<not> is_condition_of_control_statement g n then False
      else ess_type n \<notin> {''boolean'', ''unknown''})"

definition is_increment_or_decrement :: "ast_node \<Rightarrow> bool" where
  "is_increment_or_decrement n \<longleftrightarrow>
     node_kind n = ''UnaryOperator'' \<and> sem_str n ''opcode'' \<in> set inc_dec_opcodes"

text \<open>The \<open>while True\<close> loop; \<^term>\<open>None\<close> when the parent links are cyclic.\<close>

partial_function (option) full_expression_root :: "ast_graph \<Rightarrow> ast_node \<Rightarrow> ast_node option" where
  "full_expression_root g cur =
     (case g_get g (parent_id cur) of
        None \<Rightarrow> Some cur
      | Some p \<Rightarrow>
          if node_kind p \<notin> set expression_parent_kinds then Some cur
          else full_expression_root g p)"

declare full_expression_root.simps [code]

text \<open>The nested function \<open>_walk\<close>, which skips the subtree of the increment itself.\<close>

definition other_effects_body ::
    "ast_graph \<Rightarrow> string \<Rightarrow> (ast_node \<Rightarrow> bool option) \<Rightarrow> ast_node \<Rightarrow> bool option" where
  "other_effects_body g skip rec n =
     (if node_id n = skip then Some False
      else if effect_node n then Some True
      else opt_any rec (children g (node_id n)))"

definition has_other_side_effects_in_full_expression ::
    "nat \<Rightarrow> ast_graph \<Rightarrow> ast_node \<Rightarrow> bool option" where
  "has_other_side_effects_in_full_expression depth g n =
     do { root \<leftarrow> full_expression_root g n;
          if node_id root = node_id n then Some False
          else run_depth depth (other_effects_body g (node_id n)) root }"

text \<open>\<open>amount < 0 or amount >= width\<close>, which raises on non-numbers.\<close>

definition shift_amount_out_of_range :: "ast_node \<Rightarrow> py_error + bool" where
  "shift_amount_out_of_range n =
     (let amount = prop_get (semantic_properties n) ''shift_amount'';
          width = prop_get (semantic_properties n) ''shift_width'' in
      if sem_str n ''opcode'' \<notin> set shift_opcodes then Inr False
      else if amount = PNone \<or> width = PNone then Inr False
      else case py_num amount of
             Inl e \<Rightarrow> Inl e
           | Inr a \<Rightarrow> if a < 0 then Inr True
                     else (case py_num width of Inl e \<Rightarrow> Inl e | Inr w \<Rightarrow> Inr (a \<ge> w)))"

definition wraps_on_constant_unsigned :: "ast_node \<Rightarrow> bool" where
  "wraps_on_constant_unsigned n =
     (if \<not> sem_flag n ''wraps_on_evaluation'' then False
      else if starts_with (ess_type n) ''unsigned'' then True
      else sem_flag n ''is_constant_unsigned'')"

definition loop_counter_is_floating :: "ast_graph \<Rightarrow> ast_node \<Rightarrow> bool" where
  "loop_counter_is_floating g n =
     (if sem_str n ''loop_counter_essential_type'' \<in> set floating_essential_types then True
      else list_ex (\<lambda>c. node_kind c = ''VarDecl'' \<and> ess_type c \<in> set floating_essential_types)
             (children g (node_id n)))"

definition switch_condition_is_boolean :: "ast_graph \<Rightarrow> ast_node \<Rightarrow> bool" where
  "switch_condition_is_boolean g n =
     (case children g (node_id n) of [] \<Rightarrow> False | c # _ \<Rightarrow> ess_type c = ''boolean'')"

definition has_undefined_behaviour :: "ast_node \<Rightarrow> bool" where
  "has_undefined_behaviour n = sem_flag n ''undefined_behaviour''"

definition has_unordered_evaluation :: "ast_node \<Rightarrow> bool" where
  "has_unordered_evaluation n = sem_flag n ''unordered_evaluation''"

definition controlling_expression_invariant :: "ast_graph \<Rightarrow> ast_node \<Rightarrow> bool" where
  "controlling_expression_invariant g n =
     (if sem_flag n ''controlling_expression_invariant'' then True
      else if node_kind n \<notin> set condition_parent_kinds then False
      else (case condition_child g n of None \<Rightarrow> False
            | Some c \<Rightarrow> sem_flag c ''controlling_expression_invariant''))"

definition is_discarded_non_void_call :: "ast_graph \<Rightarrow> ast_node \<Rightarrow> bool" where
  "is_discarded_non_void_call g n =
     (let ps = semantic_properties n; nonvoid = prop_get ps ''has_non_void_return'';
          ret = prop_get ps ''return_type'' in
      if ret = PStr ''void'' \<or> nonvoid = PBool False then False
      else if \<not> truthy nonvoid \<and> \<not> truthy ret then False
      else case g_get g (parent_id n) of
             None \<Rightarrow> False
           | Some p \<Rightarrow>
               if node_kind p = ''CStyleCastExpr'' \<and> sem_flag p ''cast_to_void'' then False
               else if node_kind p = ''BinaryOperator''
                       \<and> sem_str p ''opcode'' \<in> set assignment_opcodes then False
               else if node_kind p \<in> {''VarDecl'', ''ReturnStmt''} then False
               else node_kind p \<in> {''CompoundStmt'', ''ExprStmt''})"

subsection \<open>What the recursive queries compute\<close>

text \<open>Constant expressions: literals, and operators over at least one constant operand.\<close>

inductive constant_expr :: "ast_graph \<Rightarrow> ast_node \<Rightarrow> bool" for g where
  lit: "is_literal n \<Longrightarrow> constant_expr g n"
| opr: "node_kind n \<in> {''BinaryOperator'', ''UnaryOperator'', ''ParenExpr''} \<Longrightarrow>
    children g (node_id n) \<noteq> [] \<Longrightarrow> \<forall>c \<in> set (children g (node_id n)). constant_expr g c \<Longrightarrow>
    constant_expr g n"

inductive_simps constant_expr_iff: "constant_expr g n"

interpretation const_walk: tree_walk_spec g "constant_body g" "constant_expr g" for g
proof
  fix n :: ast_node and rec :: "ast_node \<Rightarrow> bool option"
  assume "\<And>c. c \<in> set (children g (node_id n)) \<Longrightarrow> rec c = Some (constant_expr g c)"
  then have "opt_all rec (children g (node_id n)) = Some (\<forall>c \<in> set (children g (node_id n)). constant_expr g c)"
    by (intro opt_all_Some_conv) blast
  then show "constant_body g rec n = Some (constant_expr g n)"
    by (auto simp: constant_body_def constant_expr_iff [of g n])
qed

interpretation effect_walk: tree_walk_spec g "effects_body g"
    "\<lambda>n. \<exists>m. (n, m) \<in> (child_nodes g)\<^sup>* \<and> effect_node m" for g
proof
  fix n :: ast_node and rec :: "ast_node \<Rightarrow> bool option"
  assume "\<And>c. c \<in> set (children g (node_id n)) \<Longrightarrow>
    rec c = Some (\<exists>m. (c, m) \<in> (child_nodes g)\<^sup>* \<and> effect_node m)"
  then have "opt_any rec (children g (node_id n))
      = Some (\<exists>c \<in> set (children g (node_id n)). \<exists>m. (c, m) \<in> (child_nodes g)\<^sup>* \<and> effect_node m)"
    by (intro opt_any_Some_conv) blast
  then show "effects_body g rec n = Some (\<exists>m. (n, m) \<in> (child_nodes g)\<^sup>* \<and> effect_node m)"
    unfolding child_nodes_reach [of n] by (simp add: effects_body_def)
qed

text \<open>The links below nodes other than the skipped one.\<close>

definition child_nodes_but :: "ast_graph \<Rightarrow> string \<Rightarrow> (ast_node \<times> ast_node) set" where
  "child_nodes_but g skip = {(n, c). node_id n \<noteq> skip \<and> c \<in> set (children g (node_id n))}"

lemma child_nodes_but_reach:
  "(\<exists>m. (n, m) \<in> (child_nodes_but g skip)\<^sup>* \<and> node_id m \<noteq> skip \<and> Q m)
    \<longleftrightarrow> node_id n \<noteq> skip \<and> (Q n \<or> (\<exists>c \<in> set (children g (node_id n)). \<exists>m.
          (c, m) \<in> (child_nodes_but g skip)\<^sup>* \<and> node_id m \<noteq> skip \<and> Q m))" (is "?l \<longleftrightarrow> ?r")
proof
  assume ?l
  then obtain m where m: "(n, m) \<in> (child_nodes_but g skip)\<^sup>*" "node_id m \<noteq> skip" "Q m" by blast
  from m(1) show ?r
    by (cases rule: converse_rtranclE) (use m in \<open>auto simp: child_nodes_but_def\<close>)
next
  assume ?r
  moreover have "(n, c) \<in> child_nodes_but g skip" if "node_id n \<noteq> skip" "c \<in> set (children g (node_id n))" for c
    using that by (simp add: child_nodes_but_def)
  ultimately show ?l by (meson converse_rtrancl_into_rtrancl rtrancl.rtrancl_refl)
qed

interpretation other_walk: tree_walk_spec g "other_effects_body g skip"
    "\<lambda>n. \<exists>m. (n, m) \<in> (child_nodes_but g skip)\<^sup>* \<and> node_id m \<noteq> skip \<and> effect_node m" for g skip
proof
  fix n :: ast_node and rec :: "ast_node \<Rightarrow> bool option"
  assume "\<And>c. c \<in> set (children g (node_id n)) \<Longrightarrow>
    rec c = Some (\<exists>m. (c, m) \<in> (child_nodes_but g skip)\<^sup>* \<and> node_id m \<noteq> skip \<and> effect_node m)"
  then have "opt_any rec (children g (node_id n)) = Some (\<exists>c \<in> set (children g (node_id n)).
      \<exists>m. (c, m) \<in> (child_nodes_but g skip)\<^sup>* \<and> node_id m \<noteq> skip \<and> effect_node m)"
    by (intro opt_any_Some_conv) blast
  then show "other_effects_body g skip rec n
      = Some (\<exists>m. (n, m) \<in> (child_nodes_but g skip)\<^sup>* \<and> node_id m \<noteq> skip \<and> effect_node m)"
    unfolding child_nodes_but_reach [of n] by (simp add: other_effects_body_def)
qed

subsection \<open>The root of a full expression\<close>

text \<open>The step of the loop: to a parent that is an expression.\<close>

definition expr_parent :: "ast_graph \<Rightarrow> (ast_node \<times> ast_node) set" where
  "expr_parent g = {(c, p). g_get g (parent_id c) = Some p \<and> node_kind p \<in> set expression_parent_kinds}"

lemma root_stop: "(\<nexists>p. (n, p) \<in> expr_parent g) \<Longrightarrow> full_expression_root g n = Some n"
  by (subst full_expression_root.simps) (auto simp: expr_parent_def split: option.splits)

lemma root_step: "(n, p) \<in> expr_parent g \<Longrightarrow> full_expression_root g n = full_expression_root g p"
  by (subst full_expression_root.simps) (simp add: expr_parent_def)

lemma root_extend:
  assumes "(n, q) \<in> expr_parent g" and "full_expression_root g q = Some m" and "(q, m) \<in> (expr_parent g)\<^sup>*"
  shows "full_expression_root g n = Some m \<and> (n, m) \<in> (expr_parent g)\<^sup>*"
  using root_step [OF assms(1)] assms(2) converse_rtrancl_into_rtrancl [OF assms(1,3)] by simp

lemma root_of_member:
  assumes "parent_ranked g d" and "g_get g [] = None" and "g_get g i = Some p"
  shows "\<exists>m. full_expression_root g p = Some m \<and> (p, m) \<in> (expr_parent g)\<^sup>* \<and> (\<nexists>q. (m, q) \<in> expr_parent g)"
  using assms(3)
proof (induction "d i" arbitrary: i p rule: less_induct)
  case less
  have ok: "graph_ok g" using assms(1) by (simp add: parent_ranked_def)
  show ?case
  proof (cases "\<exists>q. (p, q) \<in> expr_parent g")
    case True
    then obtain q where q: "(p, q) \<in> expr_parent g" by blast
    then have pq: "g_get g (parent_id p) = Some q" by (simp add: expr_parent_def)
    have "parent_of g i = parent_id p" using less.prems by (simp add: parent_of_def)
    moreover have "parent_id p \<noteq> []" using pq assms(2) by auto
    ultimately have "d (parent_id p) < d i" using parent_ranked_step [OF assms(1), of i] by simp
    from less.hyps [OF this pq] show ?thesis
      using root_extend [OF q] by blast
  next
    case False
    then show ?thesis using root_stop [of p g] by (intro exI [of _ p]) simp
  qed
qed

lemma root_total:
  assumes "parent_ranked g d" and "g_get g [] = None"
  shows "\<exists>m. full_expression_root g n = Some m \<and> (n, m) \<in> (expr_parent g)\<^sup>* \<and> (\<nexists>q. (m, q) \<in> expr_parent g)"
proof (cases "\<exists>q. (n, q) \<in> expr_parent g")
  case True
  then obtain q where q: "(n, q) \<in> expr_parent g" by blast
  then have "g_get g (parent_id n) = Some q" by (simp add: expr_parent_def)
  from root_of_member [OF assms this] show ?thesis
    using root_extend [OF q] by blast
next
  case False
  then show ?thesis using root_stop [of n g] by (intro exI [of _ n]) simp
qed

text \<open>
  What the caller of \<open>returns_address_of_local\<close> gets: the name of a local, and there is one
  exactly when some address-of in the list has a reference to a local as a child in it.
\<close>

lemma first_some_None: "first_some f xs = None \<longleftrightarrow> (\<forall>x \<in> set xs. f x = None)"
  by (induction xs) (auto split: option.splits)

lemma first_some_Some: "first_some f xs = Some y \<Longrightarrow> \<exists>x \<in> set xs. f x = Some y"
  by (induction xs) (auto split: option.splits)

lemma local_operand_Some: "local_operand ds ls n = Some v \<Longrightarrow>
    \<exists>c \<in> set ds. parent_id c = node_id n \<and> node_kind c = ''DeclRefExpr'' \<and> sem_str c ''name'' = v \<and> v \<in> set ls"
  by (auto simp: local_operand_def find_Some_iff)

lemma local_operand_None: "local_operand ds ls n = None \<longleftrightarrow>
    \<not> (\<exists>c \<in> set ds. parent_id c = node_id n \<and> node_kind c = ''DeclRefExpr'' \<and> sem_str c ''name'' \<in> set ls)"
  by (auto simp: local_operand_def find_None_iff)

subsection \<open>Properties\<close>

text \<open>
  On an acyclic AST, with a recursion limit above the height of the tree,
  \<open>has_side_effects\<close> returns, and says whether the subtree (the node included) contains a
  call, an assignment or an increment; \<open>is_constant_expression\<close> returns, and says whether
  the node is built from literals by operators.
\<close>

theorem subtree_queries_exact:
  assumes "ranked g r" and "r (node_id n) < depth"
  shows "has_side_effects depth g n = Some (\<exists>m. (n, m) \<in> (child_nodes g)\<^sup>* \<and> effect_node m)
    \<and> is_constant_expression depth g n = Some (constant_expr g n)"
  unfolding has_side_effects_def is_constant_expression_def
  using effect_walk.walk_eq_spec [OF assms] const_walk.walk_eq_spec [OF assms] by blast

theorem subtree_queries_exact_witness:
  "has_side_effects 2 sum_graph sum_node = Some (\<exists>m. (sum_node, m) \<in> (child_nodes sum_graph)\<^sup>* \<and> effect_node m)
    \<and> is_constant_expression 2 sum_graph sum_node = Some (constant_expr sum_graph sum_node)"
  by (rule subtree_queries_exact [OF sum_graph_ranked]) (simp add: sum_rank_def)

text \<open>
  Rule 13.3's query.  When parent links are acyclic, the root of the full expression is
  found: the ancestor reached through expression nodes only, whose own parent is none.  The
  query then says whether the tree below that root, the subtree of the increment left out,
  contains another side effect.
\<close>

theorem other_side_effects_exact:
  assumes "ranked g r" and "parent_ranked g d" and "g_get g [] = None"
    and "\<And>i. r i < depth"
  shows "\<exists>root. full_expression_root g n = Some root \<and> (n, root) \<in> (expr_parent g)\<^sup>*
    \<and> (\<nexists>q. (root, q) \<in> expr_parent g)
    \<and> has_other_side_effects_in_full_expression depth g n = Some (node_id root \<noteq> node_id n
        \<and> (\<exists>m. (root, m) \<in> (child_nodes_but g (node_id n))\<^sup>* \<and> node_id m \<noteq> node_id n \<and> effect_node m))"
proof -
  obtain root where "full_expression_root g n = Some root" "(n, root) \<in> (expr_parent g)\<^sup>*"
    "\<nexists>q. (root, q) \<in> expr_parent g"
    using root_total [OF assms(2,3), of n] by blast
  moreover have "run_depth depth (other_effects_body g (node_id n)) root
    = Some (\<exists>m. (root, m) \<in> (child_nodes_but g (node_id n))\<^sup>* \<and> node_id m \<noteq> node_id n \<and> effect_node m)"
    by (rule other_walk.walk_eq_spec [OF assms(1,4)])
  ultimately show ?thesis
    by (intro exI [of _ root]) (simp add: has_other_side_effects_in_full_expression_def)
qed

text \<open>\<open>a[i++] = f()\<close>: the increment at \<open>u\<close>, the call at \<open>f\<close>.\<close>

definition inc_graph :: ast_graph where
  "inc_graph = mk_graph
     [bare_node ''s'' ''CompoundStmt'' '''' [''e''],
      ex_node ''e'' ''BinaryOperator'' ''s'' [''u'', ''f''] [(''opcode'', PStr ''='')] 1 1,
      ex_node ''u'' ''UnaryOperator'' ''e'' [] [(''opcode'', PStr ''++'')] 1 3,
      bare_node ''f'' ''CallExpr'' ''e'' []]"

definition inc_rank :: "string \<Rightarrow> nat" where
  "inc_rank i = (if i = ''s'' then 2 else if i = ''e'' then 1 else 0)"

lemma inc_graph_get:
  "g_get inc_graph i =
     (if i = ''f'' then Some (bare_node ''f'' ''CallExpr'' ''e'' [])
      else if i = ''u'' then Some (ex_node ''u'' ''UnaryOperator'' ''e'' [] [(''opcode'', PStr ''++'')] 1 3)
      else if i = ''e'' then Some (ex_node ''e'' ''BinaryOperator'' ''s'' [''u'', ''f''] [(''opcode'', PStr ''='')] 1 1)
      else if i = ''s'' then Some (bare_node ''s'' ''CompoundStmt'' '''' [''e'']) else None)"
  by (simp add: inc_graph_def g_get_mk_graph)

lemma inc_graph_nodes: "nodes_list inc_graph =
    [bare_node ''s'' ''CompoundStmt'' '''' [''e''],
     ex_node ''e'' ''BinaryOperator'' ''s'' [''u'', ''f''] [(''opcode'', PStr ''='')] 1 1,
     ex_node ''u'' ''UnaryOperator'' ''e'' [] [(''opcode'', PStr ''++'')] 1 3,
     bare_node ''f'' ''CallExpr'' ''e'' []]"
  by (simp add: inc_graph_def)

lemma inc_graph_ok: "graph_ok inc_graph"
  by (simp add: inc_graph_def)

lemma inc_graph_ranked: "ranked inc_graph inc_rank"
  by (simp add: ranked_def inc_graph_ok inc_graph_nodes children_def inc_graph_get inc_rank_def
      List.map_filter_simps)

lemma inc_graph_parents: "parent_ranked inc_graph (\<lambda>i. 2 - inc_rank i)"
  by (simp add: parent_ranked_def inc_graph_ok inc_graph_nodes inc_rank_def)

theorem other_side_effects_exact_witness:
  "\<exists>root. full_expression_root inc_graph (bare_node ''f'' ''CallExpr'' ''e'' []) = Some root
    \<and> (bare_node ''f'' ''CallExpr'' ''e'' [], root) \<in> (expr_parent inc_graph)\<^sup>*
    \<and> (\<nexists>q. (root, q) \<in> expr_parent inc_graph)
    \<and> has_other_side_effects_in_full_expression 3 inc_graph (bare_node ''f'' ''CallExpr'' ''e'' [])
      = Some (node_id root \<noteq> node_id (bare_node ''f'' ''CallExpr'' ''e'' [])
        \<and> (\<exists>m. (root, m) \<in> (child_nodes_but inc_graph (node_id (bare_node ''f'' ''CallExpr'' ''e'' [])))\<^sup>*
          \<and> node_id m \<noteq> node_id (bare_node ''f'' ''CallExpr'' ''e'' []) \<and> effect_node m))"
  by (rule other_side_effects_exact [OF inc_graph_ranked inc_graph_parents])
    (simp_all add: inc_graph_get inc_rank_def)

text \<open>
  \<open>returns_address_of_local\<close> returns a name exactly when an address-of operator among
  the nodes has a reference to a local variable as a child among them, and the name is that of
  such a reference.
\<close>

theorem address_of_local_exact:
  "(returns_address_of_local ds ls = None \<longleftrightarrow>
      \<not> (\<exists>n \<in> set ds. \<exists>c \<in> set ds. node_kind n = ''UnaryOperator'' \<and> sem_str n ''opcode'' = ''&''
          \<and> parent_id c = node_id n \<and> node_kind c = ''DeclRefExpr'' \<and> sem_str c ''name'' \<in> set ls))
    \<and> (\<forall>v. returns_address_of_local ds ls = Some v \<longrightarrow> v \<in> set ls
        \<and> (\<exists>c \<in> set ds. node_kind c = ''DeclRefExpr'' \<and> sem_str c ''name'' = v))"
proof (intro conjI allI impI)
  fix v
  assume "returns_address_of_local ds ls = Some v"
  from first_some_Some [OF this [unfolded returns_address_of_local_def]] obtain n where
    "local_operand ds ls n = Some v" by (auto split: if_splits)
  from local_operand_Some [OF this] show "v \<in> set ls"
    and "\<exists>c \<in> set ds. node_kind c = ''DeclRefExpr'' \<and> sem_str c ''name'' = v" by blast+
qed (auto simp: returns_address_of_local_def first_some_None local_operand_None)

text \<open>\<open>return &x;\<close> with \<open>x\<close> local.\<close>

definition escaping_nodes :: "ast_node list" where
  "escaping_nodes = [ex_node ''a'' ''UnaryOperator'' ''r'' [''x''] [(''opcode'', PStr ''&'')] 1 8,
     ex_node ''x'' ''DeclRefExpr'' ''a'' [] [(''name'', PStr ''x'')] 1 9]"

lemma escaping_nodes_escape: "returns_address_of_local escaping_nodes [''x''] = Some ''x''"
  by code_simp

theorem address_of_local_exact_witness:
  "\<exists>c \<in> set escaping_nodes. node_kind c = ''DeclRefExpr'' \<and> sem_str c ''name'' = ''x''"
  using address_of_local_exact [of escaping_nodes "[''x'']"] escaping_nodes_escape by blast

end
