(* ===== verification/Structure.thy ===== *)
theory Structure
  imports Expressions
begin

text \<open>
  The tree-shaped approximations: \<open>CFGBuilder\<close> (\<open>cfg_builder.py\<close>), which reads exit points,
  unreachable statements, switch clauses and loop exits off the AST, and the first
  \<open>DataFlowEngine\<close> (\<open>dataflow_engine.py\<close>), which orders variable references by position.
\<close>

subsection \<open>Exit points and terminators\<close>

definition unconditional_terminators :: "string list" where
  "unconditional_terminators = [''ReturnStmt'', ''BreakStmt'', ''ContinueStmt'', ''GotoStmt'']"

definition loop_stmt_kinds :: "string list" where
  "loop_stmt_kinds = [''ForStmt'', ''WhileStmt'', ''DoStmt'']"

definition branch_kinds :: "string list" where
  "branch_kinds = [''IfStmt'', ''SwitchStmt'']"

definition descendants_of_kind :: "ast_graph \<Rightarrow> string \<Rightarrow> ast_node \<Rightarrow> ast_node list option" where
  "descendants_of_kind g k fn = map_option (filter (\<lambda>n. node_kind n = k)) (descendants g (node_id fn))"

definition exit_points :: "ast_graph \<Rightarrow> ast_node \<Rightarrow> ast_node list option" where
  "exit_points g fn = descendants_of_kind g ''ReturnStmt'' fn"

definition has_single_exit :: "ast_graph \<Rightarrow> ast_node \<Rightarrow> bool option" where
  "has_single_exit g fn = map_option (\<lambda>ps. length ps \<le> 1) (exit_points g fn)"

definition goto_targets :: "ast_graph \<Rightarrow> ast_node \<Rightarrow> ast_node list option" where
  "goto_targets g fn = descendants_of_kind g ''GotoStmt'' fn"

definition labels :: "ast_graph \<Rightarrow> ast_node \<Rightarrow> ast_node list option" where
  "labels g fn = descendants_of_kind g ''LabelStmt'' fn"

text \<open>
  The scan of one compound block: the flag is \<open>terminated\<close>.  A label clears it and is then
  looked at like a reachable statement.
\<close>

fun after_terminator :: "bool \<Rightarrow> ast_node list \<Rightarrow> ast_node list" where
  "after_terminator terminated [] = []"
| "after_terminator terminated (c # cs) =
     (if terminated \<and> node_kind c \<noteq> ''LabelStmt'' then c # after_terminator True cs
      else after_terminator (node_kind c \<in> set unconditional_terminators) cs)"

definition unreachable_statements :: "ast_graph \<Rightarrow> ast_node \<Rightarrow> ast_node list option" where
  "unreachable_statements g fn =
     map_option (\<lambda>ds. concat (map (\<lambda>b. if node_kind b \<noteq> ''CompoundStmt'' then []
                                       else after_terminator False (children g (node_id b))) (fn # ds)))
       (descendants g (node_id fn))"

text \<open>The loop over parent links; \<^term>\<open>None\<close> when they are cyclic.\<close>

partial_function (option) nesting_loop :: "ast_graph \<Rightarrow> string \<Rightarrow> nat \<Rightarrow> nat option" where
  "nesting_loop g current_id depth =
     (if current_id = [] then Some depth
      else case g_get g current_id of
             None \<Rightarrow> Some depth
           | Some p \<Rightarrow> nesting_loop g (parent_id p)
               (if node_kind p \<in> set loop_stmt_kinds \<union> set branch_kinds then depth + 1 else depth))"

declare nesting_loop.simps [code]

definition nesting_depth :: "ast_graph \<Rightarrow> ast_node \<Rightarrow> nat option" where
  "nesting_depth g n = nesting_loop g (parent_id n) 0"

subsection \<open>Switch statements\<close>

definition switch_body :: "ast_graph \<Rightarrow> ast_node \<Rightarrow> ast_node option" where
  "switch_body g sw = find (\<lambda>c. node_kind c = ''CompoundStmt'') (children g (node_id sw))"

definition switch_clause_kinds :: "string list" where
  "switch_clause_kinds = [''CaseStmt'', ''DefaultStmt'']"

definition switch_has_no_clauses :: "ast_graph \<Rightarrow> ast_node \<Rightarrow> bool" where
  "switch_has_no_clauses g sw =
     (case switch_body g sw of
        None \<Rightarrow> True
      | Some body \<Rightarrow> \<not> list_ex (\<lambda>c. node_kind c \<in> set switch_clause_kinds) (children g (node_id body)))"

definition switch_is_malformed :: "ast_graph \<Rightarrow> ast_node \<Rightarrow> bool" where
  "switch_is_malformed g sw =
     (if sem_flag sw ''switch_malformed'' then True
      else if switch_body g sw = None then True
      else switch_has_no_clauses g sw)"

text \<open>
  The loop over the statements of the body: \<open>pending\<close> is the open clause, \<open>saw\<close> whether a
  terminator came since it was opened.
\<close>

fun fallthrough_loop ::
    "ast_node option \<Rightarrow> bool \<Rightarrow> ast_node list \<Rightarrow> ast_node list \<Rightarrow> ast_node list" where
  "fallthrough_loop pending saw acc [] =
     (case pending of Some p \<Rightarrow> if \<not> saw then acc @ [p] else acc | None \<Rightarrow> acc)"
| "fallthrough_loop pending saw acc (s # ss) =
     (if node_kind s \<in> set switch_clause_kinds then
        fallthrough_loop (Some s) False
          (case pending of Some p \<Rightarrow> if \<not> saw then acc @ [p] else acc | None \<Rightarrow> acc) ss
      else if node_kind s \<in> set unconditional_terminators then fallthrough_loop pending True acc ss
      else fallthrough_loop pending saw acc ss)"

definition switch_blocks_without_terminator :: "ast_graph \<Rightarrow> ast_node \<Rightarrow> ast_node list" where
  "switch_blocks_without_terminator g sw =
     (case switch_body g sw of
        None \<Rightarrow> []
      | Some body \<Rightarrow> fallthrough_loop None True [] (children g (node_id body)))"

subsection \<open>Loop exits\<close>

text \<open>
  The nested function \<open>_walk\<close>: the terminators found below the children, in visiting order.
  \<open>is_root\<close> is \<open>is_loop_root\<close>: only below the loop itself are nested constructs entered.
\<close>

definition exits_body ::
    "ast_graph \<Rightarrow> bool \<Rightarrow> (ast_node \<Rightarrow> ast_node list option) \<Rightarrow> ast_node \<Rightarrow> ast_node list option" where
  "exits_body g is_root rec n =
     opt_concat_map (\<lambda>c. if node_kind c \<in> {''BreakStmt'', ''GotoStmt''} then Some [c]
                        else if \<not> is_root \<and> node_kind c \<in> insert ''SwitchStmt'' (set loop_stmt_kinds)
                        then Some []
                        else rec c)
       (children g (node_id n))"

fun loop_termination_statements :: "nat \<Rightarrow> ast_graph \<Rightarrow> ast_node \<Rightarrow> ast_node list option" where
  "loop_termination_statements 0 g loop = None"
| "loop_termination_statements (Suc depth) g loop =
     exits_body g True (run_depth depth (exits_body g False)) loop"

subsection \<open>Textual-order data flow\<close>

definition assigns_operand :: "ast_graph \<Rightarrow> ast_node \<Rightarrow> bool" where
  "assigns_operand g ref =
     (case g_get g (parent_id ref) of
        None \<Rightarrow> False
      | Some p \<Rightarrow>
          (let opcode = sem_str p ''opcode'' in
           if node_kind p = ''BinaryOperator'' \<and> ends_with opcode ''='' \<and> opcode \<noteq> ''=='' \<and> opcode \<noteq> ''!=''
           then (case children g (node_id p) of [] \<Rightarrow> False | c # _ \<Rightarrow> node_id c = node_id ref)
           else if node_kind p = ''UnaryOperator'' then opcode \<in> {''++'', ''--''}
           else False))"

definition local_variable_declarations :: "ast_graph \<Rightarrow> ast_node \<Rightarrow> ast_node list option" where
  "local_variable_declarations g fn = descendants_of_kind g ''VarDecl'' fn"

definition has_initializer :: "ast_graph \<Rightarrow> ast_node \<Rightarrow> bool" where
  "has_initializer g d =
     list_ex (\<lambda>c. node_kind c \<notin> {''BuiltinType'', ''RecordType'', ''PointerType''}) (children g (node_id d))"

definition references :: "ast_graph \<Rightarrow> ast_node \<Rightarrow> ast_node \<Rightarrow> ast_node list option" where
  "references g d fn =
     (let name = sem_str d ''name'' in
      if name = [] then Some []
      else map_option (\<lambda>ds. linearize (filter (\<lambda>n. node_kind n = ''DeclRefExpr'' \<and> sem_str n ''name'' = name) ds))
             (descendants g (node_id fn)))"

text \<open>The results of the next two are \<^term>\<open>Some None\<close> where Python returns \<open>None\<close>.\<close>

definition uninitialized_read :: "ast_graph \<Rightarrow> ast_node \<Rightarrow> ast_node \<Rightarrow> ast_node option option" where
  "uninitialized_read g d fn =
     (if has_initializer g d then Some None
      else map_option (\<lambda>rs. case rs of [] \<Rightarrow> None | r # _ \<Rightarrow> if assigns_operand g r then None else Some r)
             (references g d fn))"

definition dead_store :: "ast_graph \<Rightarrow> ast_node \<Rightarrow> ast_node \<Rightarrow> ast_node option option" where
  "dead_store g d fn =
     map_option (\<lambda>rs. if rs = [] then None else if assigns_operand g (last rs) then Some (last rs) else None)
       (references g d fn)"

subsection \<open>What the scans find\<close>

text \<open>The flag after a prefix of the block.\<close>

fun terminated_after :: "bool \<Rightarrow> ast_node list \<Rightarrow> bool" where
  "terminated_after b [] = b"
| "terminated_after b (c # cs) =
     terminated_after (b \<and> node_kind c \<noteq> ''LabelStmt'' \<or> node_kind c \<in> set unconditional_terminators) cs"

lemma label_no_terminator: "node_kind c \<in> set unconditional_terminators \<Longrightarrow> node_kind c \<noteq> ''LabelStmt''"
  by (auto simp: unconditional_terminators_def)

lemma terminated_after_iff:
  "terminated_after b cs \<longleftrightarrow> (b \<and> (\<forall>x \<in> set cs. node_kind x \<noteq> ''LabelStmt'')) \<or>
     (\<exists>p1 t p2. cs = p1 @ t # p2 \<and> node_kind t \<in> set unconditional_terminators
        \<and> (\<forall>x \<in> set p2. node_kind x \<noteq> ''LabelStmt''))"
proof (induction cs arbitrary: b)
  case Nil
  then show ?case by simp
next
  case (Cons c cs)
  show ?case
    unfolding split_Cons_ex [where P = "\<lambda>p1 t p2. node_kind t \<in> set unconditional_terminators
        \<and> (\<forall>x \<in> set p2. node_kind x \<noteq> ''LabelStmt'')"]
    using Cons.IH by auto
qed

lemma after_terminator_set:
  "c \<in> set (after_terminator b cs) \<longleftrightarrow>
     (\<exists>pre post. cs = pre @ c # post \<and> node_kind c \<noteq> ''LabelStmt'' \<and> terminated_after b pre)"
proof (induction b cs rule: after_terminator.induct)
  case (1 b)
  then show ?case by simp
next
  case (2 b x cs)
  have step: "(\<exists>pre post. x # cs = pre @ c # post \<and> node_kind c \<noteq> ''LabelStmt'' \<and> terminated_after b pre)
      \<longleftrightarrow> (x = c \<and> node_kind c \<noteq> ''LabelStmt'' \<and> b) \<or>
        (\<exists>pre post. cs = pre @ c # post \<and> node_kind c \<noteq> ''LabelStmt'' \<and> terminated_after b (x # pre))"
    (is "?l \<longleftrightarrow> ?r")
  proof
    assume ?l
    then obtain pre post where p: "x # cs = pre @ c # post" "node_kind c \<noteq> ''LabelStmt''" "terminated_after b pre"
      by blast
    then show ?r by (cases pre) auto
  next
    assume ?r
    then show ?l
    proof
      assume "x = c \<and> node_kind c \<noteq> ''LabelStmt'' \<and> b"
      then show ?l by (intro exI [of _ "[]"] exI [of _ cs]) simp
    next
      assume "\<exists>pre post. cs = pre @ c # post \<and> node_kind c \<noteq> ''LabelStmt'' \<and> terminated_after b (x # pre)"
      then obtain pre post where "cs = pre @ c # post" "node_kind c \<noteq> ''LabelStmt''" "terminated_after b (x # pre)"
        by blast
      then show ?l by (intro exI [of _ "x # pre"] exI [of _ post]) simp
    qed
  qed
  show ?case
  proof (cases "b \<and> node_kind x \<noteq> ''LabelStmt''")
    case True
    then show ?thesis unfolding step using 2(1) by auto
  next
    case False
    then show ?thesis unfolding step using 2(2) by auto
  qed
qed

lemma reported_after_jump:
  "c \<in> set (after_terminator False cs) \<longleftrightarrow>
      (\<exists>p1 t p2 post. cs = p1 @ t # p2 @ c # post \<and> node_kind t \<in> set unconditional_terminators
        \<and> (\<forall>x \<in> set (p2 @ [c]). node_kind x \<noteq> ''LabelStmt''))" (is "_ \<longleftrightarrow> ?r")
proof
  assume "c \<in> set (after_terminator False cs)"
  then obtain pre post p1 t p2 where p: "cs = pre @ c # post" "node_kind c \<noteq> ''LabelStmt''" "pre = p1 @ t # p2"
    "node_kind t \<in> set unconditional_terminators" "\<forall>x \<in> set p2. node_kind x \<noteq> ''LabelStmt''"
    unfolding after_terminator_set terminated_after_iff by blast
  then show ?r by (intro exI [of _ p1] exI [of _ t] exI [of _ p2] exI [of _ post]) simp
next
  assume ?r
  then obtain p1 t p2 post where p: "cs = p1 @ t # p2 @ c # post" "node_kind t \<in> set unconditional_terminators"
    "\<forall>x \<in> set (p2 @ [c]). node_kind x \<noteq> ''LabelStmt''" by blast
  have "terminated_after False (p1 @ t # p2)" unfolding terminated_after_iff using p(2,3) by auto
  then show "c \<in> set (after_terminator False cs)"
    unfolding after_terminator_set using p(1,3) by (intro exI [of _ "p1 @ t # p2"] exI [of _ post]) simp
qed

text \<open>
  The fall-through loop, clause by clause: a body is its leading statements and its clauses,
  each with the statements up to the next one.
\<close>

fun clauses_of :: "ast_node list \<Rightarrow> (ast_node \<times> ast_node list) list" where
  "clauses_of [] = []"
| "clauses_of (s # ss) =
     (if node_kind s \<in> set switch_clause_kinds
      then (s, takeWhile (\<lambda>x. node_kind x \<notin> set switch_clause_kinds) ss) # clauses_of ss
      else clauses_of ss)"

definition ends_clause :: "ast_node list \<Rightarrow> bool" where
  "ends_clause ss \<longleftrightarrow> list_ex (\<lambda>x. node_kind x \<in> set unconditional_terminators) ss"

lemma fallthrough_loop_clauses:
  "fallthrough_loop pending saw acc ss = acc
     @ (case pending of
          Some p \<Rightarrow> if saw \<or> ends_clause (takeWhile (\<lambda>x. node_kind x \<notin> set switch_clause_kinds) ss) then [] else [p]
        | None \<Rightarrow> [])
     @ map fst (filter (\<lambda>(c, body). \<not> ends_clause body) (clauses_of ss))"
  by (induction ss arbitrary: pending saw acc) (auto simp: ends_clause_def split: option.splits)

text \<open>References come in source order, and they are the references to the name.\<close>

lemma references_sorted:
  assumes "references g d fn = Some rs"
  shows "sorted (map (\<lambda>n. (line_start n, column_start n)) rs)"
  using assms by (auto simp: references_def Let_def sorted_linearize split: if_splits)

lemma references_set:
  assumes "references g d fn = Some rs" and "descendants g (node_id fn) = Some ds"
  shows "set rs = {n \<in> set ds. sem_str d ''name'' \<noteq> [] \<and> node_kind n = ''DeclRefExpr''
    \<and> sem_str n ''name'' = sem_str d ''name''}"
  using assms by (auto simp: references_def Let_def split: if_splits)

lemma references_total: "ranked g r \<Longrightarrow> \<exists>rs. references g d fn = Some rs"
  using descendants_total [of g r "node_id fn"] by (auto simp: references_def Let_def)

lemma sorted_key_hd: "sorted (map f xs) \<Longrightarrow> xs = y # ys \<Longrightarrow> x \<in> set xs \<Longrightarrow> f y \<le> f x"
  by auto

lemma sorted_key_last: "sorted (map f xs) \<Longrightarrow> xs \<noteq> [] \<Longrightarrow> x \<in> set xs \<Longrightarrow> f x \<le> f (last xs)"
  by (induction xs) auto

subsection \<open>Loop exits, specified\<close>

text \<open>The children a walk enters: not a terminator, and below the loop no nested construct.\<close>

definition enters :: "bool \<Rightarrow> ast_node \<Rightarrow> bool" where
  "enters is_root c \<longleftrightarrow> node_kind c \<notin> {''BreakStmt'', ''GotoStmt''} \<and>
     (is_root \<or> node_kind c \<notin> insert ''SwitchStmt'' (set loop_stmt_kinds))"

definition walk_rel :: "ast_graph \<Rightarrow> (ast_node \<times> ast_node) set" where
  "walk_rel g = {(n, c). c \<in> set (children g (node_id n)) \<and> enters False c}"

definition exit_child :: "ast_graph \<Rightarrow> ast_node \<Rightarrow> ast_node \<Rightarrow> bool" where
  "exit_child g n t \<longleftrightarrow> t \<in> set (children g (node_id n)) \<and> node_kind t \<in> {''BreakStmt'', ''GotoStmt''}"

lemma walk_reach:
  "(\<exists>m. (n, m) \<in> (walk_rel g)\<^sup>* \<and> exit_child g m t) \<longleftrightarrow> exit_child g n t \<or>
     (\<exists>c \<in> set (children g (node_id n)). enters False c \<and> (\<exists>m. (c, m) \<in> (walk_rel g)\<^sup>* \<and> exit_child g m t))"
  (is "?l \<longleftrightarrow> ?r")
proof
  assume ?l
  then obtain m where m: "(n, m) \<in> (walk_rel g)\<^sup>*" "exit_child g m t" by blast
  from m(1) show ?r
    by (cases rule: converse_rtranclE) (use m(2) in \<open>auto simp: walk_rel_def\<close>)
next
  assume ?r
  moreover have "(n, c) \<in> walk_rel g" if "c \<in> set (children g (node_id n))" "enters False c" for c
    using that by (simp add: walk_rel_def)
  ultimately show ?l by (meson converse_rtrancl_into_rtrancl rtrancl.rtrancl_refl)
qed

lemma exits_body_set:
  assumes "\<And>c. c \<in> set (children g (node_id n)) \<Longrightarrow> \<exists>ts. rec c = Some ts \<and> set ts = {t. Q c t}"
  shows "\<exists>ts. exits_body g is_root rec n = Some ts \<and>
    set ts = {t. exit_child g n t \<or> (\<exists>c \<in> set (children g (node_id n)). enters is_root c \<and> Q c t)}"
proof -
  define h where "h = (\<lambda>c. if node_kind c \<in> {''BreakStmt'', ''GotoStmt''} then Some [c]
      else if \<not> is_root \<and> node_kind c \<in> insert ''SwitchStmt'' (set loop_stmt_kinds) then Some [] else rec c)"
  have h: "\<exists>ts. h c = Some ts" if "c \<in> set (children g (node_id n))" for c
    using assms [OF that] by (auto simp: h_def)
  then obtain tss where "opt_map h (children g (node_id n)) = Some tss"
    using opt_map_total [of "children g (node_id n)" h] by blast
  then have body: "opt_concat_map h (children g (node_id n)) = Some (concat tss)" by (simp add: opt_concat_map_def)
  have "t \<in> set (concat tss) \<longleftrightarrow> exit_child g n t \<or> (\<exists>c \<in> set (children g (node_id n)). enters is_root c \<and> Q c t)" for t
  proof -
    have "(\<exists>ts. h c = Some ts \<and> t \<in> set ts) \<longleftrightarrow>
        (node_kind c \<in> {''BreakStmt'', ''GotoStmt''} \<and> t = c) \<or> (enters is_root c \<and> Q c t)"
      if c: "c \<in> set (children g (node_id n))" for c
    proof -
      obtain ts where ts: "rec c = Some ts" "set ts = {t. Q c t}" using assms [OF c] by blast
      show ?thesis
      proof (cases "node_kind c \<in> {''BreakStmt'', ''GotoStmt''}")
        case True
        then show ?thesis by (simp add: h_def enters_def)
      next
        case False
        then show ?thesis using ts by (cases "enters is_root c") (auto simp: h_def enters_def)
      qed
    qed
    then show ?thesis unfolding opt_concat_map_set [OF body] by (auto simp: exit_child_def)
  qed
  then show ?thesis using body unfolding exits_body_def h_def [symmetric] by auto
qed

interpretation exits_walk: tree_walk g "exits_body g False"
    "\<lambda>n ts. set ts = {t. \<exists>m. (n, m) \<in> (walk_rel g)\<^sup>* \<and> exit_child g m t}" for g
proof
  fix n :: ast_node and rec :: "ast_node \<Rightarrow> ast_node list option"
  assume rec: "\<And>c. c \<in> set (children g (node_id n)) \<Longrightarrow>
    \<exists>ts. rec c = Some ts \<and> set ts = {t. \<exists>m. (c, m) \<in> (walk_rel g)\<^sup>* \<and> exit_child g m t}"
  show "\<exists>ts. exits_body g False rec n = Some ts
      \<and> set ts = {t. \<exists>m. (n, m) \<in> (walk_rel g)\<^sup>* \<and> exit_child g m t}"
    unfolding walk_reach [of n] by (rule exits_body_set) (rule rec)
qed

subsection \<open>Properties\<close>

text \<open>
  \<open>switch_blocks_without_terminator\<close> returns, in order, exactly the clauses of the
  switch's compound body none of whose statements is a jump; without a compound body it
  returns none.
\<close>

theorem switch_fallthrough_exact:
  "switch_blocks_without_terminator g sw = (case switch_body g sw of
      None \<Rightarrow> []
    | Some body \<Rightarrow> map fst (filter (\<lambda>(c, ss). \<not> ends_clause ss) (clauses_of (children g (node_id body)))))"
  by (simp add: switch_blocks_without_terminator_def fallthrough_loop_clauses split: option.splits)

text \<open>
  On an acyclic AST, with a recursion limit above the height of the tree,
  \<open>loop_termination_statements\<close> returns, and it returns exactly the break and goto statements
  that are children of the loop or of a node reached from one of its children without entering
  a loop or switch nested deeper than that child.
\<close>

theorem loop_exits_exact:
  assumes "ranked g r" and "r (node_id n) < depth"
  shows "\<exists>ts. loop_termination_statements depth g n = Some ts \<and>
    set ts = {t. exit_child g n t \<or> (\<exists>c \<in> set (children g (node_id n)). enters True c \<and>
      (\<exists>m. (c, m) \<in> (walk_rel g)\<^sup>* \<and> exit_child g m t))}"
proof -
  obtain d where d: "depth = Suc d" using assms(2) by (cases depth) auto
  show ?thesis
    unfolding d loop_termination_statements.simps
  proof (rule exits_body_set)
    fix c
    assume "c \<in> set (children g (node_id n))"
    from ranked_child [OF assms(1) this] have "r (node_id c) < d" using assms(2) d by simp
    then show "\<exists>ts. run_depth d (exits_body g False) c = Some ts
        \<and> set ts = {t. \<exists>m. (c, m) \<in> (walk_rel g)\<^sup>* \<and> exit_child g m t}"
      by (rule exits_walk.enough_depth [OF assms(1)])
  qed
qed

theorem loop_exits_exact_witness:
  "\<exists>ts. loop_termination_statements 3 tiny_graph (bare_node ''f'' ''FunctionDecl'' [] [''c'']) = Some ts \<and>
    set ts = {t. exit_child tiny_graph (bare_node ''f'' ''FunctionDecl'' [] [''c'']) t \<or>
      (\<exists>c \<in> set (children tiny_graph (node_id (bare_node ''f'' ''FunctionDecl'' [] [''c'']))). enters True c \<and>
        (\<exists>m. (c, m) \<in> (walk_rel tiny_graph)\<^sup>* \<and> exit_child tiny_graph m t))}"
  by (rule loop_exits_exact [OF tiny_graph_ranked]) (simp add: tiny_rank_def)

text \<open>
  \<open>unreachable_statements\<close> ends on every acyclic AST and reports exactly the statements
  that, in a compound block at or below the function, follow a jump with no label after the
  jump up to and including the statement.
\<close>

theorem unreachable_statements_exact:
  assumes "ranked g r"
  shows "\<exists>us ds. unreachable_statements g fn = Some us \<and> descendants g (node_id fn) = Some ds \<and>
    (\<forall>c. c \<in> set us \<longleftrightarrow> (\<exists>b \<in> set (fn # ds). node_kind b = ''CompoundStmt'' \<and>
      (\<exists>p1 t p2 post. children g (node_id b) = p1 @ t # p2 @ c # post
        \<and> node_kind t \<in> set unconditional_terminators
        \<and> (\<forall>x \<in> set (p2 @ [c]). node_kind x \<noteq> ''LabelStmt''))))"
proof -
  obtain ds where ds: "descendants g (node_id fn) = Some ds" using descendants_total [OF assms] by blast
  let ?in = "\<lambda>b. if node_kind b \<noteq> ''CompoundStmt'' then [] else after_terminator False (children g (node_id b))"
  have "unreachable_statements g fn = Some (concat (map ?in (fn # ds)))"
    by (simp add: unreachable_statements_def ds)
  moreover have "c \<in> set (concat (map ?in (fn # ds))) \<longleftrightarrow> (\<exists>b \<in> set (fn # ds). node_kind b = ''CompoundStmt'' \<and>
      c \<in> set (after_terminator False (children g (node_id b))))" for c
    by auto
  ultimately show ?thesis using ds unfolding reported_after_jump by blast
qed

theorem unreachable_statements_exact_witness:
  "\<exists>us ds. unreachable_statements tiny_graph (bare_node ''f'' ''FunctionDecl'' [] [''c'']) = Some us
    \<and> descendants tiny_graph ''f'' = Some ds \<and>
    (\<forall>c. c \<in> set us \<longleftrightarrow> (\<exists>b \<in> set (bare_node ''f'' ''FunctionDecl'' [] [''c''] # ds). node_kind b = ''CompoundStmt'' \<and>
      (\<exists>p1 t p2 post. children tiny_graph (node_id b) = p1 @ t # p2 @ c # post
        \<and> node_kind t \<in> set unconditional_terminators
        \<and> (\<forall>x \<in> set (p2 @ [c]). node_kind x \<noteq> ''LabelStmt''))))"
  using unreachable_statements_exact [OF tiny_graph_ranked, of "bare_node ''f'' ''FunctionDecl'' [] [''c'']"]
  unfolding bare_node_simps .

end
