(* ===== verification/Symbols.thy ===== *)
theory Symbols
  imports Structure
begin

text \<open>
  Named declarations of one translation unit: \<open>SymbolIndex\<close> (\<open>symbol_index.py\<close>), and the
  search for names that collide in their first characters, which \<open>SymbolIndex\<close>,
  \<open>LinkageIndex\<close> and \<open>MacroAnalyzer\<close> each spell out.
\<close>

subsection \<open>Colliding prefixes\<close>

text \<open>The nested loops over \<open>i\<close> and \<open>unique[i + 1:]\<close>.\<close>

fun ordered_pairs :: "'a list \<Rightarrow> ('a \<times> 'a) list" where
  "ordered_pairs [] = []"
| "ordered_pairs (x # xs) = map (Pair x) xs @ ordered_pairs xs"

definition sorted_unique :: "string list \<Rightarrow> string list" where
  "sorted_unique xs = sort (remdups xs)"

definition truncated_groups :: "nat \<Rightarrow> string list \<Rightarrow> (string, string list) dict" where
  "truncated_groups k names = fold (\<lambda>n. dict_push (take k n) n) names []"

definition collisions_within :: "nat \<Rightarrow> string list \<Rightarrow> (string \<times> string) list" where
  "collisions_within k names =
     concat (map (\<lambda>(key, group). let unique = sorted_unique group in
                                  if length unique > 1 then ordered_pairs unique else [])
              (truncated_groups k names))"

lemma set_sorted_unique [simp]: "set (sorted_unique xs) = set xs"
  by (simp add: sorted_unique_def)

lemma strict_sorted_unique: "sorted_wrt (<) (sorted_unique xs)"
  by (simp add: sorted_unique_def strict_sorted_iff)

lemma ordered_pairs_sorted:
  "sorted_wrt (<) (xs :: string list) \<Longrightarrow>
    (a, b) \<in> set (ordered_pairs xs) \<longleftrightarrow> a \<in> set xs \<and> b \<in> set xs \<and> a < b"
  by (induction xs) auto

lemma ordered_pairs_short: "length xs \<le> 1 \<Longrightarrow> ordered_pairs xs = []"
  by (cases xs) auto

lemma map_of_dict_push: "map_of (dict_push k x d) =
    (map_of d)(k \<mapsto> (case map_of d k of None \<Rightarrow> [] | Some xs \<Rightarrow> xs) @ [x])"
  by (simp add: dict_push_def dict_get_default_def)

lemma dict_keys_push [simp]: "dict_keys (dict_push k x d)
    = (if k \<in> set (dict_keys d) then dict_keys d else dict_keys d @ [k])"
  by (simp add: dict_push_def dict_keys_set)

text \<open>Grouping by a key: the group of a key is the elements with it, in order.\<close>

definition group_by :: "('a \<Rightarrow> 'k) \<Rightarrow> 'a list \<Rightarrow> ('k, 'a list) dict" where
  "group_by f xs = fold (\<lambda>x. dict_push (f x) x) xs []"

lemma group_by_fold:
  assumes "distinct (dict_keys d)"
  shows "distinct (dict_keys (fold (\<lambda>x. dict_push (f x) x) xs d)) \<and>
    map_of (fold (\<lambda>x. dict_push (f x) x) xs d) k =
      (case map_of d k of
         None \<Rightarrow> if filter (\<lambda>x. f x = k) xs = [] then None else Some (filter (\<lambda>x. f x = k) xs)
       | Some ys \<Rightarrow> Some (ys @ filter (\<lambda>x. f x = k) xs))"
  using assms
proof (induction xs arbitrary: d)
  case Nil
  then show ?case by (simp split: option.splits)
next
  case (Cons x xs)
  have "distinct (dict_keys (dict_push (f x) x d))" using Cons.prems by (simp add: dict_push_def)
  from Cons.IH [OF this] show ?case by (simp add: map_of_dict_push split: option.splits)
qed

lemma distinct_group_by: "distinct (dict_keys (group_by f xs))"
  using group_by_fold [of "[]" f xs] by (simp add: group_by_def)

lemma map_of_group_by: "map_of (group_by f xs) k
    = (if filter (\<lambda>x. f x = k) xs = [] then None else Some (filter (\<lambda>x. f x = k) xs))"
  using group_by_fold [of "[]" f xs k] by (simp add: group_by_def)

lemma in_group_by: "(k, ys) \<in> set (group_by f xs) \<longleftrightarrow> ys = filter (\<lambda>x. f x = k) xs \<and> ys \<noteq> []"
proof -
  have "(k, ys) \<in> set (group_by f xs) \<longleftrightarrow> map_of (group_by f xs) k = Some ys"
    using distinct_group_by [of f xs] by (simp add: dict_keys_def)
  then show ?thesis by (auto simp: map_of_group_by)
qed

lemma truncated_groups_group_by: "truncated_groups k = group_by (take k)"
  by (simp add: truncated_groups_def group_by_def fun_eq_iff)

subsection \<open>The symbol index\<close>

definition decl_kinds :: "string list" where
  "decl_kinds = [''VarDecl'', ''FunctionDecl'', ''TypedefDecl'', ''EnumDecl'', ''RecordDecl'',
     ''ParmVarDecl'', ''FieldDecl'']"

definition tag_kinds :: "string list" where
  "tag_kinds = [''RecordDecl'', ''EnumDecl'']"

definition member_kinds :: "string list" where
  "member_kinds = [''FieldDecl'']"

definition namespace_of :: "ast_node \<Rightarrow> string" where
  "namespace_of n =
     (if node_kind n \<in> set tag_kinds then ''tag''
      else if node_kind n \<in> set member_kinds then ''member''
      else ''ordinary'')"

type_synonym symbol_index = "(string, ast_node list) dict"

definition decl_name :: "ast_node \<Rightarrow> string" where
  "decl_name n = sem_str n ''name''"

definition symbol_index_of :: "ast_graph \<Rightarrow> symbol_index" where
  "symbol_index_of g = fold
     (\<lambda>n idx. if node_kind n \<notin> set decl_kinds then idx
              else if decl_name n = [] then idx
              else dict_push (decl_name n) n idx) (all_nodes g) []"

definition symbol_names :: "symbol_index \<Rightarrow> string list" where
  "symbol_names idx = dict_keys idx"

definition declarations :: "symbol_index \<Rightarrow> string \<Rightarrow> ast_node list" where
  "declarations idx name = dict_get_default [] idx name"

definition storage_class :: "ast_node \<Rightarrow> string" where
  "storage_class n = prop_str (semantic_properties n) ''storage_class'' ''automatic''"

definition is_external_linkage :: "ast_graph \<Rightarrow> ast_node \<Rightarrow> bool" where
  "is_external_linkage g n = (if storage_class n = ''static'' then False else is_file_scope g (node_id n))"

definition is_internal_linkage :: "ast_graph \<Rightarrow> ast_node \<Rightarrow> bool" where
  "is_internal_linkage g n \<longleftrightarrow> storage_class n = ''static'' \<and> is_file_scope g (node_id n)"

definition duplicate_names_within :: "symbol_index \<Rightarrow> nat \<Rightarrow> (string \<times> string) list" where
  "duplicate_names_within idx k = collisions_within k (symbol_names idx)"

definition cross_namespace_collisions :: "symbol_index \<Rightarrow> (ast_node \<times> ast_node) list" where
  "cross_namespace_collisions idx =
     concat (map (\<lambda>(name, decls).
       if length decls < 2 then []
       else filter (\<lambda>(first, second). namespace_of first \<noteq> namespace_of second) (ordered_pairs decls)) idx)"

definition is_type_referenced :: "ast_graph \<Rightarrow> ast_node \<Rightarrow> string \<Rightarrow> bool" where
  "is_type_referenced g n name =
     list_ex (\<lambda>c. node_id c \<noteq> node_id n \<and>
        (prop_get (semantic_properties c) ''type_name'' = PStr name
         \<or> name \<noteq> [] \<and> contains_str name (ty_str c ''typedef_chain''))) (all_nodes g)"

definition is_referenced :: "ast_graph \<Rightarrow> ast_node \<Rightarrow> bool" where
  "is_referenced g n =
     (let name = decl_name n in
      if name = [] then True
      else if node_kind n \<in> {''TypedefDecl'', ''RecordDecl'', ''EnumDecl''} then is_type_referenced g n name
      else list_ex (\<lambda>c. node_id c \<noteq> node_id n \<and> prop_get (semantic_properties c) ''name'' = PStr name)
             (nodes_by_kind g ''DeclRefExpr''))"

definition incompatible_declaration_groups :: "symbol_index \<Rightarrow> (string \<times> ast_node list) list" where
  "incompatible_declaration_groups idx =
     filter (\<lambda>(name, decls). \<not> length decls < 2 \<and> list_ex (\<lambda>d. sem_flag d ''declaration_incompatible'') decls) idx"

text \<open>
  \<open>_order_by_enclosing_scope\<close>: \<^term>\<open>Some None\<close> where Python returns \<open>None\<close>; the paths come
  from the parent loop, which may not end.
\<close>

definition order_by_enclosing_scope ::
    "ast_graph \<Rightarrow> ast_node \<Rightarrow> ast_node \<Rightarrow> (ast_node \<times> ast_node) option option" where
  "order_by_enclosing_scope g first second =
     (let first_scope = parent_id first; second_scope = parent_id second in
      if first_scope = second_scope then Some None
      else if first_scope = [] \<and> second_scope \<noteq> [] then Some (Some (first, second))
      else if second_scope = [] \<and> first_scope \<noteq> [] then Some (Some (second, first))
      else do {
        second_path \<leftarrow> node_path g (node_id second);
        if first_scope \<noteq> [] \<and> first_scope \<in> set second_path then Some (Some (first, second))
        else do {
          first_path \<leftarrow> node_path g (node_id first);
          if second_scope \<noteq> [] \<and> second_scope \<in> set first_path then Some (Some (second, first))
          else Some None } })"

definition shadowing_pairs :: "ast_graph \<Rightarrow> symbol_index \<Rightarrow> (ast_node \<times> ast_node) list option" where
  "shadowing_pairs g idx =
     opt_concat_map (\<lambda>(name, decls).
       if length decls < 2 then Some []
       else opt_concat_map (\<lambda>(first, second).
              map_option (\<lambda>p. case p of None \<Rightarrow> [] | Some q \<Rightarrow> [q]) (order_by_enclosing_scope g first second))
            (ordered_pairs decls)) idx"

subsection \<open>Facts about the index\<close>

definition indexed_decl :: "ast_node \<Rightarrow> bool" where
  "indexed_decl n \<longleftrightarrow> node_kind n \<in> set decl_kinds \<and> decl_name n \<noteq> []"

lemma symbol_index_group_by: "symbol_index_of g = group_by decl_name (filter indexed_decl (all_nodes g))"
proof -
  have "fold (\<lambda>n idx. if node_kind n \<notin> set decl_kinds then idx else if decl_name n = [] then idx
          else dict_push (decl_name n) n idx) ns d
      = fold (\<lambda>x. dict_push (decl_name x) x) (filter indexed_decl ns) d" for ns d
    by (induction ns arbitrary: d) (auto simp: indexed_decl_def)
  then show ?thesis by (simp add: symbol_index_of_def group_by_def)
qed

lemma declarations_index:
  "declarations (symbol_index_of g) name = filter (\<lambda>n. decl_name n = name) (filter indexed_decl (all_nodes g))"
  by (simp add: declarations_def dict_get_default_def symbol_index_group_by map_of_group_by)

lemma in_collisions:
  "(a, b) \<in> set (collisions_within k names) \<longleftrightarrow>
     a \<in> set names \<and> b \<in> set names \<and> a < b \<and> take k a = take k b"
proof -
  have group: "(a, b) \<in> set (if length (sorted_unique ys) > 1 then ordered_pairs (sorted_unique ys) else [])
      \<longleftrightarrow> a \<in> set ys \<and> b \<in> set ys \<and> a < b" for ys
    using ordered_pairs_sorted [OF strict_sorted_unique, of a b ys] ordered_pairs_short [of "sorted_unique ys"]
    by (cases "length (sorted_unique ys) \<le> 1") auto
  have "(a, b) \<in> set (collisions_within k names) \<longleftrightarrow>
      (\<exists>key ys. (key, ys) \<in> set (group_by (take k) names) \<and> a \<in> set ys \<and> b \<in> set ys \<and> a < b)"
    unfolding collisions_within_def truncated_groups_group_by Let_def
    using group by (force simp: case_prod_unfold)
  also have "\<dots> \<longleftrightarrow> a \<in> set names \<and> b \<in> set names \<and> a < b \<and> take k a = take k b"
    unfolding in_group_by by (auto simp: filter_empty_conv)
  finally show ?thesis .
qed

subsection \<open>Properties\<close>

text \<open>
  The collision search that Rules 5.1, 5.2 and 5.4 use returns exactly the pairs of
  different names, in order, that agree on their first \<open>k\<close> characters.
\<close>

theorem collisions_exact:
  "(a, b) \<in> set (duplicate_names_within idx k) \<longleftrightarrow>
     a \<in> set (symbol_names idx) \<and> b \<in> set (symbol_names idx) \<and> a < b \<and> take k a = take k b"
  unfolding duplicate_names_within_def by (rule in_collisions)

end
