(* ===== verification/Linkage.thy ===== *)
theory Linkage
  imports Symbols
begin

text \<open>
  Facts across translation units: \<open>LinkageIndex\<close> (\<open>linkage_index.py\<close>), all of it but the
  search for recursion cycles, and \<open>LinkageAnalyzer\<close> (\<open>linkage_analyzer.py\<close>).
\<close>

subsection \<open>The index\<close>

record occurrence =
  oc_unit :: string
  oc_file :: string
  oc_storage :: string
  oc_has_body :: bool
  oc_spelling :: string
  oc_kind :: string

record linkage_data =
  ld_symbols :: "(string, occurrence list) dict"
  ld_call_graph :: "(string, string list) dict"

type_synonym unit_graph = "string \<times> string \<times> ast_graph"

definition has_body :: "ast_graph \<Rightarrow> ast_node \<Rightarrow> bool" where
  "has_body g n = list_ex (\<lambda>c. node_kind c = ''CompoundStmt'') (children g (node_id n))"

definition occurrence_of :: "unit_graph \<Rightarrow> string \<Rightarrow> ast_node \<Rightarrow> occurrence" where
  "occurrence_of u kind n = (case u of (tu, file, g) \<Rightarrow>
     \<lparr>oc_unit = tu, oc_file = file,
      oc_storage = prop_str (semantic_properties n) ''storage_class'' ''external'',
      oc_has_body = (kind = ''FunctionDecl'' \<and> has_body g n),
      oc_spelling = ty_str n ''spelling'', oc_kind = kind\<rparr>)"

text \<open>
  The three nested loops.  \<open>_DEFINITION_KINDS\<close> is a set, iterated in an order the code does
  not fix: \<open>kinds\<close> is that order, one of the two lists of its members.
\<close>

definition unit_symbols :: "string list \<Rightarrow> unit_graph \<Rightarrow> (string \<times> occurrence) list" where
  "unit_symbols kinds u = (case u of (tu, file, g) \<Rightarrow>
     concat (map (\<lambda>kind. map (\<lambda>n. (sem_str n ''name'', occurrence_of u kind n))
       (filter (\<lambda>n. sem_str n ''name'' \<noteq> [] \<and> is_file_scope g (node_id n)) (nodes_by_kind g kind))) kinds))"

definition build_symbols :: "string list \<Rightarrow> unit_graph list \<Rightarrow> (string, occurrence list) dict" where
  "build_symbols kinds units =
     fold (\<lambda>(name, oc). dict_push name oc) (concat (map (unit_symbols kinds) units)) []"

text \<open>Appending the callees a list does not contain yet.\<close>

definition append_new :: "string \<Rightarrow> string list \<Rightarrow> string list" where
  "append_new c cs = (if c \<in> set cs then cs else cs @ [c])"

definition callees_of :: "ast_graph \<Rightarrow> ast_node \<Rightarrow> string list option" where
  "callees_of g f = map_option
     (\<lambda>ds. fold (\<lambda>n cs. if node_kind n \<noteq> ''CallExpr'' then cs
                      else let callee = sem_str n ''callee'' in
                           if callee \<noteq> [] then append_new callee cs else cs) ds [])
     (descendants g (node_id f))"

definition call_step :: "ast_graph \<Rightarrow> ast_node \<Rightarrow> (string, string list) dict \<Rightarrow> (string, string list) dict option" where
  "call_step g f cg =
     (let name = sem_str f ''name'' in
      if name = [] then Some cg
      else if \<not> has_body g f then Some cg
      else do {
        callees \<leftarrow> callees_of g f;
        Some (if callees = [] then cg
              else dict_set name (fold append_new callees (dict_get_default [] cg name)) cg) })"

definition build_call_graph :: "unit_graph list \<Rightarrow> (string, string list) dict option" where
  "build_call_graph units =
     opt_fold (\<lambda>(tu, file, g) cg. opt_fold (call_step g) (nodes_by_kind g ''FunctionDecl'') cg) units []"

definition build_linkage :: "string list \<Rightarrow> unit_graph list \<Rightarrow> linkage_data option" where
  "build_linkage kinds units = do {
     cg \<leftarrow> build_call_graph units;
     Some \<lparr>ld_symbols = build_symbols kinds units, ld_call_graph = cg\<rparr> }"

definition empty_linkage :: linkage_data where
  "empty_linkage = \<lparr>ld_symbols = [], ld_call_graph = []\<rparr>"

subsection \<open>Queries\<close>

definition occurrences :: "linkage_data \<Rightarrow> string \<Rightarrow> occurrence list" where
  "occurrences d name = dict_get_default [] (ld_symbols d) name"

definition external_occurrences :: "linkage_data \<Rightarrow> string \<Rightarrow> occurrence list" where
  "external_occurrences d name = filter (\<lambda>oc. oc_storage oc \<noteq> ''static'') (occurrences d name)"

definition definitions_of :: "linkage_data \<Rightarrow> string \<Rightarrow> occurrence list" where
  "definitions_of d name = filter oc_has_body (external_occurrences d name)"

definition has_multiple_definitions :: "linkage_data \<Rightarrow> string \<Rightarrow> bool" where
  "has_multiple_definitions d name \<longleftrightarrow> length (remdups (map oc_unit (definitions_of d name))) > 1"

definition incompatible_type_spellings :: "linkage_data \<Rightarrow> string \<Rightarrow> (string \<times> string) list" where
  "incompatible_type_spellings d name =
     (let spellings = filter (\<lambda>s. s \<noteq> []) (map oc_spelling (external_occurrences d name)) in
      if length (remdups spellings) \<le> 1 then [] else ordered_pairs (sorted_unique spellings))"

definition linkage_names :: "linkage_data \<Rightarrow> string list" where
  "linkage_names d = dict_keys (ld_symbols d)"

definition single_translation_unit :: "linkage_data \<Rightarrow> string \<Rightarrow> string option" where
  "single_translation_unit d name =
     (case remdups (map oc_unit (occurrences d name)) of [tu] \<Rightarrow> Some tu | _ \<Rightarrow> None)"

definition internal_linkage_occurrences :: "linkage_data \<Rightarrow> string \<Rightarrow> occurrence list" where
  "internal_linkage_occurrences d name = filter (\<lambda>oc. oc_storage oc = ''static'') (occurrences d name)"

text \<open>The two set-valued queries list the elements without repetition.\<close>

definition internal_linkage_translation_units :: "linkage_data \<Rightarrow> string \<Rightarrow> string list" where
  "internal_linkage_translation_units d name = remdups (map oc_unit (internal_linkage_occurrences d name))"

definition non_defining_external_translation_units :: "linkage_data \<Rightarrow> string \<Rightarrow> string list" where
  "non_defining_external_translation_units d name =
     remdups (map oc_unit (filter (\<lambda>oc. \<not> oc_has_body oc) (external_occurrences d name)))"

definition linkage_duplicate_names :: "linkage_data \<Rightarrow> nat \<Rightarrow> (string \<times> string) list" where
  "linkage_duplicate_names d k = collisions_within k (linkage_names d)"

subsection \<open>The linkage analyzer\<close>

datatype odr_reason = LinkageMismatch | DuplicateDefinition | IncompatibleDeclaration "(string \<times> string) list"

record odr_violation =
  odr_name :: string
  odr_reason :: odr_reason
  odr_evidence :: "occurrence list"

definition visibility :: "linkage_data \<Rightarrow> string \<Rightarrow> string" where
  "visibility d name =
     (let occs = occurrences d name; classes = map oc_storage occs;
          has_static = ''static'' \<in> set classes; has_non_static = list_ex (\<lambda>c. c \<noteq> ''static'') classes in
      if occs = [] then ''unknown''
      else if has_static \<and> has_non_static then ''mixed''
      else if has_static then ''internal'' else ''external'')"

definition storage_duration :: "linkage_data \<Rightarrow> string \<Rightarrow> string" where
  "storage_duration d name = (if occurrences d name \<noteq> [] then ''static'' else ''unknown'')"

definition linkage_mismatch :: "linkage_data \<Rightarrow> string \<Rightarrow> odr_violation option" where
  "linkage_mismatch d name =
     (if visibility d name \<noteq> ''mixed'' then None
      else Some \<lparr>odr_name = name, odr_reason = LinkageMismatch, odr_evidence = occurrences d name\<rparr>)"

definition duplicate_definitions :: "linkage_data \<Rightarrow> string \<Rightarrow> odr_violation option" where
  "duplicate_definitions d name =
     (if \<not> has_multiple_definitions d name then None
      else Some \<lparr>odr_name = name, odr_reason = DuplicateDefinition, odr_evidence = definitions_of d name\<rparr>)"

definition incompatible_declarations :: "linkage_data \<Rightarrow> string \<Rightarrow> odr_violation option" where
  "incompatible_declarations d name =
     (let mismatches = incompatible_type_spellings d name in
      if mismatches = [] then None
      else Some \<lparr>odr_name = name, odr_reason = IncompatibleDeclaration mismatches,
                 odr_evidence = external_occurrences d name\<rparr>)"

definition odr_violations :: "linkage_data \<Rightarrow> odr_violation list" where
  "odr_violations d = concat (map (\<lambda>name.
     List.map_filter (\<lambda>check. check d name) [linkage_mismatch, duplicate_definitions, incompatible_declarations])
     (linkage_names d))"

definition undefined_external_references :: "linkage_data \<Rightarrow> string list" where
  "undefined_external_references d =
     filter (\<lambda>name. external_occurrences d name \<noteq> [] \<and> definitions_of d name = []) (linkage_names d)"

subsection \<open>What the index holds\<close>

lemma build_symbols_group:
  "build_symbols kinds units = map (\<lambda>(k, ps). (k, map snd ps)) (group_by fst (concat (map (unit_symbols kinds) units)))"
proof -
  have push: "dict_push k (snd p) (map (\<lambda>(k, ps). (k, map snd ps)) d) = map (\<lambda>(k, ps). (k, map snd ps)) (dict_push k p d)"
    for k and p :: "string \<times> occurrence" and d :: "(string, (string \<times> occurrence) list) dict"
  proof -
    have m: "map_of (map (\<lambda>(k, ps). (k, map snd ps)) d) k = map_option (map snd) (map_of d k)"
      by (induction d) auto
    have u: "AList.update k (map snd v) (map (\<lambda>(k, ps). (k, map snd ps)) e) = map (\<lambda>(k, ps). (k, map snd ps)) (AList.update k v e)"
      for v and e :: "(string, (string \<times> occurrence) list) dict" by (induction e) auto
    show ?thesis
      using u [of "dict_get_default [] d k @ [p]" d]
      by (cases "map_of d k") (simp_all add: dict_push_def dict_get_default_def dict_set_def m)
  qed
  have "fold (\<lambda>(name, oc). dict_push name oc) xs (map (\<lambda>(k, ps). (k, map snd ps)) d)
      = map (\<lambda>(k, ps). (k, map snd ps)) (fold (\<lambda>p. dict_push (fst p) p) xs d)"
    for xs :: "(string \<times> occurrence) list" and d
    by (induction xs arbitrary: d) (simp_all add: case_prod_unfold push [unfolded case_prod_unfold])
  from this [of _ "[]"] show ?thesis by (simp add: build_symbols_def group_by_def)
qed

lemma occurrences_build:
  "occurrences \<lparr>ld_symbols = build_symbols kinds units, ld_call_graph = cg\<rparr> name =
     map snd (filter (\<lambda>p. fst p = name) (concat (map (unit_symbols kinds) units)))"
proof -
  have m: "map_of (map (\<lambda>(k, ps). (k, map snd ps)) d) k = map_option (map snd) (map_of d k)"
    for d :: "(string, (string \<times> occurrence) list) dict" and k by (induction d) auto
  show ?thesis
    by (simp add: occurrences_def dict_get_default_def build_symbols_group m map_of_group_by)
qed

lemma set_unit_symbols: "(name, oc) \<in> set (unit_symbols kinds (tu, file, g)) \<longleftrightarrow>
   (\<exists>n kind. kind \<in> set kinds \<and> n \<in> set (all_nodes g) \<and> node_kind n = kind \<and> sem_str n ''name'' = name
      \<and> name \<noteq> [] \<and> is_file_scope g (node_id n) \<and> oc = occurrence_of (tu, file, g) kind n)"
  by (auto simp: unit_symbols_def nodes_by_kind_def all_nodes_def)

lemma occurrences_exact:
  "oc \<in> set (occurrences \<lparr>ld_symbols = build_symbols kinds units, ld_call_graph = cg\<rparr> name) \<longleftrightarrow>
     (\<exists>tu file g n. (tu, file, g) \<in> set units \<and> node_kind n \<in> set kinds \<and> n \<in> set (all_nodes g)
        \<and> sem_str n ''name'' = name \<and> name \<noteq> [] \<and> is_file_scope g (node_id n)
        \<and> oc = occurrence_of (tu, file, g) (node_kind n) n)"
proof -
  have "oc \<in> set (occurrences \<lparr>ld_symbols = build_symbols kinds units, ld_call_graph = cg\<rparr> name) \<longleftrightarrow>
      (\<exists>u \<in> set units. (name, oc) \<in> set (unit_symbols kinds u))"
    unfolding occurrences_build by force
  also have "\<dots> \<longleftrightarrow> (\<exists>tu file g. (tu, file, g) \<in> set units \<and> (name, oc) \<in> set (unit_symbols kinds (tu, file, g)))"
    by auto
  finally show ?thesis unfolding set_unit_symbols by blast
qed

lemma visibility_cases:
  "visibility d name = ''mixed'' \<longleftrightarrow> (\<exists>a \<in> set (occurrences d name). oc_storage a = ''static'')
      \<and> (\<exists>b \<in> set (occurrences d name). oc_storage b \<noteq> ''static'')"
  "visibility d name = ''unknown'' \<longleftrightarrow> occurrences d name = []"
proof -
  let ?occ = "occurrences d name"
  have s: "''static'' \<in> set (map oc_storage ?occ) \<longleftrightarrow> (\<exists>a \<in> set ?occ. oc_storage a = ''static'')" by force
  show "visibility d name = ''mixed'' \<longleftrightarrow> (\<exists>a \<in> set ?occ. oc_storage a = ''static'') \<and> (\<exists>b \<in> set ?occ. oc_storage b \<noteq> ''static'')"
    unfolding visibility_def Let_def list_ex_iff s by (cases "?occ = []") simp_all
  show "visibility d name = ''unknown'' \<longleftrightarrow> ?occ = []"
    unfolding visibility_def Let_def by simp
qed

lemma multiple_definitions_iff:
  "has_multiple_definitions d name \<longleftrightarrow>
    (\<exists>a \<in> set (definitions_of d name). \<exists>b \<in> set (definitions_of d name). oc_unit a \<noteq> oc_unit b)"
proof -
  have "length (remdups xs) > 1 \<longleftrightarrow> (\<exists>a \<in> set xs. \<exists>b \<in> set xs. a \<noteq> b)" for xs :: "string list"
  proof -
    have "length (remdups xs) \<le> 1 \<longleftrightarrow> (\<forall>a \<in> set xs. \<forall>b \<in> set xs. a = b)"
      unfolding length_remdups_card_conv using card_le_Suc0_iff_eq [of "set xs"] by simp
    then show ?thesis by (meson leD leI)
  qed
  from this [of "map oc_unit (definitions_of d name)"] show ?thesis by (simp add: has_multiple_definitions_def)
qed

lemma incompatible_spellings_iff:
  "(a, b) \<in> set (incompatible_type_spellings d name) \<longleftrightarrow>
    a \<in> oc_spelling ` set (external_occurrences d name) \<and> b \<in> oc_spelling ` set (external_occurrences d name)
    \<and> a \<noteq> [] \<and> b \<noteq> [] \<and> a < b"
proof -
  let ?s = "filter (\<lambda>s. s \<noteq> []) (map oc_spelling (external_occurrences d name))"
  have short: "length (remdups ?s) \<le> 1 \<Longrightarrow> ordered_pairs (sorted_unique ?s) = []"
    by (rule ordered_pairs_short) (simp add: sorted_unique_def)
  have "(a, b) \<in> set (incompatible_type_spellings d name) \<longleftrightarrow> (a, b) \<in> set (ordered_pairs (sorted_unique ?s))"
    using short by (auto simp: incompatible_type_spellings_def Let_def)
  then show ?thesis unfolding ordered_pairs_sorted [OF strict_sorted_unique] by auto
qed

lemma odr_violations_set:
  "v \<in> set (odr_violations d) \<longleftrightarrow> (\<exists>name \<in> set (linkage_names d).
     linkage_mismatch d name = Some v \<or> duplicate_definitions d name = Some v \<or> incompatible_declarations d name = Some v)"
  unfolding odr_violations_def set_concat set_map image_image UN_iff in_map_filter by auto

end
