(* ===== verification/Macros.thy ===== *)
theory Macros
  imports Symbols
begin

text \<open>
  The preprocessor tables of a translation unit and the queries on them:
  \<open>MacroAnalyzer\<close> (\<open>macro_analyzer.py\<close>).
\<close>

text \<open>The lists of the table; an absent key is the empty list, as the accessors return.\<close>

record macro_table =
  mt_definitions :: "props list"
  mt_expansions :: "props list"
  mt_includes :: "props list"
  mt_branches :: "props list"
  mt_directives :: "props list"
  mt_undefs :: "props list"

definition empty_macro_table :: macro_table where
  "empty_macro_table = \<lparr>mt_definitions = [], mt_expansions = [], mt_includes = [], mt_branches = [],
     mt_directives = [], mt_undefs = []\<rparr>"

definition function_like_macros :: "macro_table \<Rightarrow> props list" where
  "function_like_macros t = filter (\<lambda>m. prop_flag m ''is_function_like'') (mt_definitions t)"

definition object_like_macros :: "macro_table \<Rightarrow> props list" where
  "object_like_macros t = filter (\<lambda>m. \<not> prop_flag m ''is_function_like'') (mt_definitions t)"

text \<open>\<open>^_[A-Z_]\<close> matches at the start.\<close>

definition is_reserved_identifier :: "string \<Rightarrow> bool" where
  "is_reserved_identifier name \<longleftrightarrow>
     (case name of u # c # _ \<Rightarrow> u = CHR ''_'' \<and> (c = CHR ''_'' \<or> 65 \<le> (of_char c :: nat) \<and> (of_char c :: nat) \<le> 90)
      | _ \<Rightarrow> False) \<or> starts_with name ''__''"

definition operator_chars :: string where
  "operator_chars = ''+-*/%&|^<>''"

definition has_unparenthesized_operator_body :: "props \<Rightarrow> bool" where
  "has_unparenthesized_operator_body m =
     (let value = strip (prop_str m ''value'' []) in
      if value = [] \<or> \<not> list_ex (\<lambda>c. c \<in> set operator_chars) value then False
      else if starts_with value ''('' \<and> ends_with value '')'' then False
      else True)"

definition expansions_of :: "macro_table \<Rightarrow> string \<Rightarrow> props list" where
  "expansions_of t name = filter (\<lambda>e. prop_get e ''name'' = PStr name) (mt_expansions t)"

definition is_directive :: "string list \<Rightarrow> props \<Rightarrow> bool" where
  "is_directive ds b \<longleftrightarrow> (\<exists>d \<in> set ds. prop_get b ''directive'' = PStr d)"

definition unbalanced_conditional_group :: "macro_table \<Rightarrow> bool" where
  "unbalanced_conditional_group t \<longleftrightarrow>
     length (filter (is_directive [''if'', ''ifdef'', ''ifndef'']) (mt_branches t))
       \<noteq> length (filter (is_directive [''endif'']) (mt_branches t))"

definition duplicate_macro_names_within :: "macro_table \<Rightarrow> nat \<Rightarrow> (string \<times> string) list" where
  "duplicate_macro_names_within t k =
     collisions_within k (filter (\<lambda>n. n \<noteq> []) (map (\<lambda>m. prop_str m ''name'' []) (mt_definitions t)))"

definition macro_is_unused :: "macro_table \<Rightarrow> props \<Rightarrow> bool" where
  "macro_is_unused t m \<longleftrightarrow> expansions_of t (prop_str m ''name'' []) = []"

definition non_standard_includes :: "macro_table \<Rightarrow> props list" where
  "non_standard_includes t =
     filter (\<lambda>d. \<not> prop_flag d ''is_system'' \<and> \<not> prop_flag d ''resolved_path'') (mt_includes t)"

definition dquote :: string where
  "dquote = [CHR 0x22]"

text \<open>\<open>stripped[1:-1]\<close> of a one-character string is empty, as here.\<close>

definition normalize_header_name :: "string \<Rightarrow> string" where
  "normalize_header_name name =
     (let stripped = strip name in
      if starts_with stripped ''<'' \<and> ends_with stripped ''>'' then tl (butlast stripped)
      else if starts_with stripped dquote \<and> ends_with stripped dquote then tl (butlast stripped)
      else stripped)"

text \<open>\<open>directive.get("header") or directive.get("included_file", "")\<close>\<close>

definition header_of :: "props \<Rightarrow> string" where
  "header_of d = (if prop_str d ''header'' [] \<noteq> [] then prop_str d ''header'' [] else prop_str d ''included_file'' [])"

definition header_matches :: "props \<Rightarrow> string list \<Rightarrow> bool" where
  "header_matches d forbidden \<longleftrightarrow> normalize_header_name (header_of d) \<in> set forbidden"

definition includes_matching :: "macro_table \<Rightarrow> string list \<Rightarrow> props list" where
  "includes_matching t forbidden = filter (\<lambda>d. header_matches d forbidden) (mt_includes t)"

definition include_has_invalid_header_chars :: "props \<Rightarrow> bool" where
  "include_has_invalid_header_chars d =
     (if prop_flag d ''invalid_header_chars'' then True
      else list_ex (\<lambda>m. contains_str m (header_of d)) [dquote, [CHR 0x5C], ''/*'', ''//''])"

definition include_has_invalid_syntax :: "props \<Rightarrow> bool" where
  "include_has_invalid_syntax d = prop_flag d ''invalid_syntax''"

definition include_preceded_by_non_preprocessor :: "props \<Rightarrow> bool" where
  "include_preceded_by_non_preprocessor d = prop_flag d ''preceded_by_non_preprocessor''"

definition macro_has_invalid_preprocessor_tokens :: "props \<Rightarrow> bool" where
  "macro_has_invalid_preprocessor_tokens m = prop_flag m ''invalid_preprocessor_tokens''"

definition macro_stringify_param_unparenthesized_operator :: "props \<Rightarrow> bool" where
  "macro_stringify_param_unparenthesized_operator m = prop_flag m ''stringify_param_unparenthesized_operator''"

definition macro_param_mixed_stringify_and_paste :: "props \<Rightarrow> bool" where
  "macro_param_mixed_stringify_and_paste m = prop_flag m ''param_mixed_stringify_and_paste''"

definition conditional_non_boolean_controlling_expression :: "props \<Rightarrow> bool" where
  "conditional_non_boolean_controlling_expression b \<longleftrightarrow>
     is_directive [''if'', ''elif''] b \<and> prop_flag b ''non_boolean_controlling_expression''"

definition conditional_undefined_identifiers :: "props \<Rightarrow> py_error + pyval list" where
  "conditional_undefined_identifiers b =
     (if \<not> is_directive [''if'', ''elif''] b then Inr []
      else case map_of b ''undefined_identifiers'' of None \<Rightarrow> Inr [] | Some v \<Rightarrow> py_list v)"

definition directive_has_invalid_form :: "props \<Rightarrow> bool" where
  "directive_has_invalid_form d = prop_flag d ''invalid_form''"

definition macros_using_token_operators :: "macro_table \<Rightarrow> props list" where
  "macros_using_token_operators t =
     filter (\<lambda>m. prop_flag m ''uses_stringify'' \<or> prop_flag m ''uses_token_paste'') (mt_definitions t)"

subsection \<open>Header names\<close>

lemma dropWhile_id: "xs \<noteq> [] \<Longrightarrow> \<not> P (hd xs) \<Longrightarrow> dropWhile P xs = xs"
  by (cases xs) auto

lemma strip_id:
  assumes "s \<noteq> []" and "(of_char (hd s) :: nat) \<notin> set whitespace" and "(of_char (last s) :: nat) \<notin> set whitespace"
  shows "strip s = s"
  using assms dropWhile_id [of s] dropWhile_id [of "rev s"] by (simp add: strip_def hd_rev)

lemma normalize_delimited:
  "normalize_header_name (''<'' @ s @ ''>'') = s"
  "normalize_header_name (dquote @ s @ dquote) = s"
proof -
  have "strip (''<'' @ s @ ''>'') = ''<'' @ s @ ''>''" by (rule strip_id) (simp_all add: whitespace_def)
  then show "normalize_header_name (''<'' @ s @ ''>'') = s"
    using ends_with_append [of "''<'' @ s" "''>''"]
    by (simp add: normalize_header_name_def starts_with_def butlast_append)
  have "strip (dquote @ s @ dquote) = dquote @ s @ dquote"
    by (rule strip_id) (simp_all add: whitespace_def dquote_def)
  then show "normalize_header_name (dquote @ s @ dquote) = s"
    using ends_with_append [of "dquote @ s" "dquote"]
    by (simp add: normalize_header_name_def starts_with_def butlast_append dquote_def)
qed

text \<open>
  Balance counts openings and closings only, so it accepts groups that close before they
  open; a group that nests properly is always accepted.
\<close>

lemma duplicate_macros_iff:
  "(a, b) \<in> set (duplicate_macro_names_within t k) \<longleftrightarrow>
     a \<in> (\<lambda>m. prop_str m ''name'' []) ` set (mt_definitions t) - {[]}
     \<and> b \<in> (\<lambda>m. prop_str m ''name'' []) ` set (mt_definitions t) - {[]} \<and> a < b \<and> take k a = take k b"
  unfolding duplicate_macro_names_within_def in_collisions by auto

end
