(* ===== verification/Rule_Base.thy ===== *)
theory Rule_Base
  imports Complex_Main Linkage Macros
begin

text \<open>
  What a rule is: its metadata and results (\<open>rule_result.py\<close>, \<open>enums.py\<close>, \<open>taxonomy.py\<close>),
  the context it runs in (\<open>rule_context.py\<close>), the base class that turns a finding into a
  result (\<open>rule_base.py\<close>), and the confidence and fingerprint of a result
  (\<open>confidence.py\<close>, \<open>fingerprint.py\<close>).  Python floats are read as the rational numbers
  their decimal literals denote.
\<close>

subsection \<open>Metadata\<close>

datatype rule_category = MANDATORY | REQUIRED | ADVISORY

datatype rule_severity = CRITICAL | MAJOR | MINOR | INFO

datatype rule_standard = MISRA_C_2012 | MISRA_C_2023

datatype impl_category =
    A_AST_ONLY | B_TYPE_SYSTEM | C_CONTROL_FLOW | D_DATA_FLOW
  | E_CROSS_TRANSLATION_UNIT | F_PREPROCESSOR | G_CONFIGURATION_BUILD

datatype rule_pack =
    ESSENTIAL_TYPES | DECLARATIONS | POINTERS | CONTROL_FLOW | PREPROCESSOR | EXPRESSIONS
  | INITIALIZATION | STORAGE_DURATION | LINKAGE | CONVERSIONS | STANDARD_LIBRARY

fun rule_category_str :: "rule_category \<Rightarrow> string" where
  "rule_category_str MANDATORY = ''mandatory''"
| "rule_category_str REQUIRED = ''required''"
| "rule_category_str ADVISORY = ''advisory''"

fun rule_severity_str :: "rule_severity \<Rightarrow> string" where
  "rule_severity_str CRITICAL = ''critical''"
| "rule_severity_str MAJOR = ''major''"
| "rule_severity_str MINOR = ''minor''"
| "rule_severity_str INFO = ''info''"

fun rule_standard_str :: "rule_standard \<Rightarrow> string" where
  "rule_standard_str MISRA_C_2012 = ''misra_c_2012''"
| "rule_standard_str MISRA_C_2023 = ''misra_c_2023''"

fun impl_category_str :: "impl_category \<Rightarrow> string" where
  "impl_category_str A_AST_ONLY = ''A_ast_only''"
| "impl_category_str B_TYPE_SYSTEM = ''B_type_system''"
| "impl_category_str C_CONTROL_FLOW = ''C_control_flow''"
| "impl_category_str D_DATA_FLOW = ''D_data_flow''"
| "impl_category_str E_CROSS_TRANSLATION_UNIT = ''E_cross_translation_unit''"
| "impl_category_str F_PREPROCESSOR = ''F_preprocessor''"
| "impl_category_str G_CONFIGURATION_BUILD = ''G_configuration_build''"

text \<open>\<open>CATEGORY_EXECUTION_ORDER\<close>\<close>

fun category_execution_order :: "impl_category \<Rightarrow> nat" where
  "category_execution_order A_AST_ONLY = 0"
| "category_execution_order F_PREPROCESSOR = 0"
| "category_execution_order B_TYPE_SYSTEM = 1"
| "category_execution_order C_CONTROL_FLOW = 2"
| "category_execution_order D_DATA_FLOW = 3"
| "category_execution_order E_CROSS_TRANSLATION_UNIT = 4"
| "category_execution_order G_CONFIGURATION_BUILD = 4"

fun rule_pack_str :: "rule_pack \<Rightarrow> string" where
  "rule_pack_str ESSENTIAL_TYPES = ''essential_types''"
| "rule_pack_str DECLARATIONS = ''declarations''"
| "rule_pack_str POINTERS = ''pointers''"
| "rule_pack_str CONTROL_FLOW = ''control_flow''"
| "rule_pack_str PREPROCESSOR = ''preprocessor''"
| "rule_pack_str EXPRESSIONS = ''expressions''"
| "rule_pack_str INITIALIZATION = ''initialization''"
| "rule_pack_str STORAGE_DURATION = ''storage_duration''"
| "rule_pack_str LINKAGE = ''linkage''"
| "rule_pack_str CONVERSIONS = ''conversions''"
| "rule_pack_str STANDARD_LIBRARY = ''standard_library''"

fun rule_pack_primary_analyzer :: "rule_pack \<Rightarrow> string" where
  "rule_pack_primary_analyzer ESSENTIAL_TYPES = ''EssentialTypeAnalyzer''"
| "rule_pack_primary_analyzer DECLARATIONS = ''SymbolIndex''"
| "rule_pack_primary_analyzer POINTERS = ''PointerAnalyzer''"
| "rule_pack_primary_analyzer CONTROL_FLOW = ''CFGBuilder''"
| "rule_pack_primary_analyzer PREPROCESSOR = ''MacroAnalyzer''"
| "rule_pack_primary_analyzer EXPRESSIONS = ''ExpressionClassifier''"
| "rule_pack_primary_analyzer INITIALIZATION = ''DataFlowEngine''"
| "rule_pack_primary_analyzer STORAGE_DURATION = ''SymbolIndex''"
| "rule_pack_primary_analyzer LINKAGE = ''LinkageIndex''"
| "rule_pack_primary_analyzer CONVERSIONS = ''CastAnalyzer''"
| "rule_pack_primary_analyzer STANDARD_LIBRARY = ''ASTQuery''"

text \<open>
  The fields of \<open>RuleMetadata\<close>; \<open>plugin_version\<close> and \<open>rule_dependencies\<close> keep their
  defaults in every rule but stay fields.
\<close>

record rule_metadata =
  md_rule_id :: string
  md_rule_number :: string
  md_standard :: rule_standard
  md_category :: rule_category
  md_severity :: rule_severity
  md_title :: string
  md_description :: string
  md_rationale :: string
  md_tags :: "string list"
  md_references :: "string list"
  md_plugin_module :: string
  md_plugin_version :: string
  md_requires_ast_nodes :: "string list"
  md_implementation_category :: impl_category
  md_rule_pack :: "rule_pack option"
  md_requires_type_info :: bool
  md_requires_cfg :: bool
  md_requires_dataflow :: bool
  md_requires_linkage :: bool
  md_requires_macro_expansion :: bool
  md_rule_dependencies :: "string list"

subsection \<open>Results\<close>

text \<open>A two-digit decimal literal: \<open>0.85\<close> is \<^term>\<open>dec2 85\<close>.\<close>

definition dec2 :: "int \<Rightarrow> rat" where
  "dec2 n = of_int n / 100"

lemma dec2_bounds: "0 \<le> n \<Longrightarrow> n \<le> 100 \<Longrightarrow> 0 \<le> dec2 n \<and> dec2 n \<le> 1"
  by (simp add: dec2_def)

record suggested_fix =
  sf_original_code :: string
  sf_suggested_code :: string
  sf_rationale :: string
  sf_confidence_score :: rat

record rule_result =
  rr_rule_id :: string
  rr_file_path :: string
  rr_line_start :: int
  rr_line_end :: int
  rr_column_start :: int
  rr_column_end :: int
  rr_offending_expression :: string
  rr_explanation :: string
  rr_risk_description :: string
  rr_source_snippet :: string
  rr_ast_node_id :: string
  rr_ast_node_path :: "string list"
  rr_macro_expansion_chain :: "string list"
  rr_confidence_score :: rat
  rr_suggested_fix :: "suggested_fix option"
  rr_confidence_factors :: "(string, rat) dict"

subsection \<open>The rule context\<close>

record project_configuration =
  pc_enabled_rules :: "string list"
  pc_severity_overrides :: "(string, string) dict"
  pc_standard_version :: string

definition default_project_configuration :: project_configuration where
  "default_project_configuration =
     \<lparr>pc_enabled_rules = [], pc_severity_overrides = [], pc_standard_version = ''misra_c_2012''\<rparr>"

record previous_violation =
  pv_fingerprint :: string
  pv_rule_id :: string
  pv_file_path :: string
  pv_status :: string

text \<open>
  \<open>RuleContext\<close> without its \<open>analysis_cache\<close>: the cache only memoises calls of the analyzers,
  which the model makes directly.
\<close>

record rule_context =
  rc_translation_unit_id :: string
  rc_file_path :: string
  rc_ast_nodes :: "ast_node list"
  rc_primary_file :: string
  rc_type_system :: "(string, props) dict"
  rc_typedef_chains :: "(string, string) dict"
  rc_macro_table :: macro_table
  rc_include_graph :: "(string, string list) dict"
  rc_project_config :: project_configuration
  rc_previous_violations :: "previous_violation list"
  rc_toolchain_profile :: props
  rc_diagnostics :: "props list"
  rc_cross_tu_linkage :: linkage_data

text \<open>The parts of a serialized artifact the constructor reads; a node always has an id.\<close>

record ast_artifact =
  ar_nodes :: "ast_node list"
  ar_preprocessor :: macro_table
  ar_file_path :: string
  ar_diagnostics :: "props list"

definition type_system_of :: "ast_node list \<Rightarrow> (string, props) dict" where
  "type_system_of nodes = fold (\<lambda>n. dict_set (node_id n) (type_information n)) nodes []"

definition typedef_chains_of :: "ast_node list \<Rightarrow> (string, string) dict" where
  "typedef_chains_of nodes =
     fold (\<lambda>n d. if ty_flag n ''typedef_chain'' then dict_set (node_id n) (ty_str n ''typedef_chain'') d else d) nodes []"

definition from_ast_artifact ::
    "ast_artifact \<Rightarrow> string \<Rightarrow> (string, string list) dict \<Rightarrow> project_configuration option \<Rightarrow>
     previous_violation list \<Rightarrow> props \<Rightarrow> linkage_data option \<Rightarrow> rule_context" where
  "from_ast_artifact artifact tu include_graph config previous toolchain linkage =
     \<lparr>rc_translation_unit_id = tu,
      rc_file_path = ar_file_path artifact,
      rc_ast_nodes = ar_nodes artifact,
      rc_primary_file = ar_file_path artifact,
      rc_type_system = type_system_of (ar_nodes artifact),
      rc_typedef_chains = typedef_chains_of (ar_nodes artifact),
      rc_macro_table = ar_preprocessor artifact,
      rc_include_graph = include_graph,
      rc_project_config = (case config of None \<Rightarrow> default_project_configuration | Some c \<Rightarrow> c),
      rc_previous_violations = previous,
      rc_toolchain_profile = toolchain,
      rc_diagnostics = ar_diagnostics artifact,
      rc_cross_tu_linkage = (case linkage of None \<Rightarrow> empty_linkage | Some l \<Rightarrow> l)\<rparr>"

subsection \<open>From findings to results\<close>

text \<open>The keyword arguments a rule passes to \<open>make_result\<close>.\<close>

record finding =
  fd_explanation :: string
  fd_risk_description :: string
  fd_confidence_factors :: "(string, rat) dict"
  fd_confidence_score :: rat
  fd_suggested_fix :: "suggested_fix option"

text \<open>Every rule lists the same five factors in the same order.\<close>

definition factors :: "int \<Rightarrow> int \<Rightarrow> int \<Rightarrow> int \<Rightarrow> int \<Rightarrow> (string, rat) dict" where
  "factors a b c d e =
     [(''ast_match_specificity'', dec2 a), (''type_information_complete'', dec2 b),
      (''macro_clarity'', dec2 c), (''historical_false_positive_rate'', dec2 d),
      (''fix_generator_certainty'', dec2 e)]"

definition range_file :: "rule_context \<Rightarrow> ast_node \<Rightarrow> string" where
  "range_file ctx n = (case source_range n of
      None \<Rightarrow> rc_file_path ctx
    | Some r \<Rightarrow> (case sr_file_path r of None \<Rightarrow> rc_file_path ctx | Some p \<Rightarrow> p))"

definition make_result ::
    "rule_metadata \<Rightarrow> rule_context \<Rightarrow> ast_graph \<Rightarrow> ast_node \<Rightarrow> finding \<Rightarrow> rule_result option" where
  "make_result md ctx g n f = do {
     path \<leftarrow> node_path g (node_id n);
     Some \<lparr>rr_rule_id = md_rule_id md, rr_file_path = range_file ctx n,
       rr_line_start = line_start n, rr_line_end = line_end n,
       rr_column_start = column_start n, rr_column_end = column_end n,
       rr_offending_expression = offending_text n,
       rr_explanation = fd_explanation f, rr_risk_description = fd_risk_description f,
       rr_source_snippet = source_snippet (rc_file_path ctx) n,
       rr_ast_node_id = node_id n, rr_ast_node_path = path,
       rr_macro_expansion_chain = expansion_chain n,
       rr_confidence_score = fd_confidence_score f,
       rr_suggested_fix = fd_suggested_fix f,
       rr_confidence_factors = fd_confidence_factors f\<rparr> }"

text \<open>
  A rule on the preprocessor tables builds its results itself, from the range of an entry (an
  absent range is empty) and the text it reports.
\<close>

record directive_finding =
  df_range :: props
  df_offending :: string
  df_finding :: finding

definition range_of :: "props \<Rightarrow> props" where
  "range_of m = (case prop_get m ''range'' of PDict d \<Rightarrow> d | _ \<Rightarrow> [])"

definition prop_int :: "props \<Rightarrow> string \<Rightarrow> int" where
  "prop_int ps k = (case map_of ps k of Some (PInt i) \<Rightarrow> i | _ \<Rightarrow> 0)"

definition directive_result :: "rule_metadata \<Rightarrow> rule_context \<Rightarrow> directive_finding \<Rightarrow> rule_result" where
  "directive_result md ctx d =
     (let r = df_range d; f = df_finding d in
      \<lparr>rr_rule_id = md_rule_id md, rr_file_path = prop_str r ''file_path'' (rc_file_path ctx),
       rr_line_start = prop_int r ''line_start'', rr_line_end = prop_int r ''line_end'',
       rr_column_start = prop_int r ''column_start'', rr_column_end = prop_int r ''column_end'',
       rr_offending_expression = df_offending d,
       rr_explanation = fd_explanation f, rr_risk_description = fd_risk_description f,
       rr_source_snippet = rc_file_path ctx @ '':'' @ int_str (prop_int r ''line_start''),
       rr_ast_node_id = [], rr_ast_node_path = [], rr_macro_expansion_chain = [],
       rr_confidence_score = fd_confidence_score f, rr_suggested_fix = fd_suggested_fix f,
       rr_confidence_factors = fd_confidence_factors f\<rparr>)"

text \<open>
  A plugin: its metadata, the findings on the preprocessor tables, and the nodes its \<open>detect\<close>
  passes to \<open>make_result\<close> with the arguments it passes, in order; a rule that reports both
  reports the tables first.  The first argument of the nodes is the recursion limit;
  \<^term>\<open>Inl\<close> is a raised exception.
\<close>

record rule_plugin =
  rp_metadata :: rule_metadata
  rp_directives :: "rule_context \<Rightarrow> py_error + directive_finding list"
  rp_findings :: "nat \<Rightarrow> rule_context \<Rightarrow> ast_graph \<Rightarrow> (py_error + (ast_node \<times> finding) list) option"

definition rule_id :: "rule_plugin \<Rightarrow> string" where
  "rule_id r = md_rule_id (rp_metadata r)"

definition rule_detect :: "nat \<Rightarrow> rule_plugin \<Rightarrow> rule_context \<Rightarrow> (py_error + rule_result list) option" where
  "rule_detect depth r ctx =
     (case rp_directives r ctx of
        Inl e \<Rightarrow> Some (Inl e)
      | Inr ds \<Rightarrow> (let g = mk_graph (rc_ast_nodes ctx) in do {
          found \<leftarrow> rp_findings r depth ctx g;
          (case found of
             Inl e \<Rightarrow> Some (Inl e)
           | Inr fs \<Rightarrow> map_option (\<lambda>rs. Inr (map (directive_result (rp_metadata r) ctx) ds @ rs))
               (opt_map (\<lambda>(n, f). make_result (rp_metadata r) ctx g n f) fs)) }))"

text \<open>A rule that neither loops nor raises, one that does not raise, and one that may.\<close>

definition scan_rule :: "rule_metadata \<Rightarrow> (rule_context \<Rightarrow> ast_graph \<Rightarrow> (ast_node \<times> finding) list) \<Rightarrow> rule_plugin" where
  "scan_rule md f = \<lparr>rp_metadata = md, rp_directives = \<lambda>ctx. Inr [], rp_findings = \<lambda>d ctx g. Some (Inr (f ctx g))\<rparr>"

definition loop_rule ::
    "rule_metadata \<Rightarrow> (nat \<Rightarrow> rule_context \<Rightarrow> ast_graph \<Rightarrow> (ast_node \<times> finding) list option) \<Rightarrow> rule_plugin" where
  "loop_rule md f = \<lparr>rp_metadata = md, rp_directives = \<lambda>ctx. Inr [], rp_findings = \<lambda>d ctx g. map_option Inr (f d ctx g)\<rparr>"

definition raising_rule ::
    "rule_metadata \<Rightarrow> (ast_graph \<Rightarrow> py_error + (ast_node \<times> finding) list) \<Rightarrow> rule_plugin" where
  "raising_rule md f = \<lparr>rp_metadata = md, rp_directives = \<lambda>ctx. Inr [], rp_findings = \<lambda>d ctx g. Some (f g)\<rparr>"

definition directive_rule ::
    "rule_metadata \<Rightarrow> (rule_context \<Rightarrow> py_error + directive_finding list) \<Rightarrow> rule_plugin" where
  "directive_rule md f = \<lparr>rp_metadata = md, rp_directives = f, rp_findings = \<lambda>d ctx g. Some (Inr [])\<rparr>"

subsection \<open>The shapes of \<open>detect\<close>\<close>

text \<open>
  \<open>for node in nodes: if not sel(node): continue; results.append(make_result(node, ...))\<close>, and
  its variant whose test may not return.
\<close>

definition report_where :: "(ast_node \<Rightarrow> bool) \<Rightarrow> (ast_node \<Rightarrow> finding) \<Rightarrow> ast_node list \<Rightarrow> (ast_node \<times> finding) list" where
  "report_where sel f nodes = map (\<lambda>n. (n, f n)) (filter sel nodes)"

definition report_where_opt ::
    "(ast_node \<Rightarrow> bool option) \<Rightarrow> (ast_node \<Rightarrow> finding) \<Rightarrow> ast_node list \<Rightarrow> (ast_node \<times> finding) list option" where
  "report_where_opt sel f nodes =
     opt_concat_map (\<lambda>n. map_option (\<lambda>b. if b then [(n, f n)] else []) (sel n)) nodes"

definition nodes_by_kinds :: "ast_graph \<Rightarrow> string list \<Rightarrow> ast_node list" where
  "nodes_by_kinds g ks = concat (map (nodes_by_kind g) ks)"

text \<open>\<open>value is True or value == "true"\<close>\<close>

definition meta_true :: "pyval \<Rightarrow> bool" where
  "meta_true v \<longleftrightarrow> v = PBool True \<or> v = PStr ''true''"

definition sem_meta_true :: "ast_node \<Rightarrow> string \<Rightarrow> bool" where
  "sem_meta_true n k = meta_true (prop_get (semantic_properties n) k)"

text \<open>\<open>.get("name", default)\<close>\<close>

definition sem_name :: "ast_node \<Rightarrow> string \<Rightarrow> string" where
  "sem_name n d = prop_str (semantic_properties n) ''name'' d"

text \<open>A loop whose body may raise, in the sum monad.\<close>

fun sum_concat_map :: "('a \<Rightarrow> 'e + 'b list) \<Rightarrow> 'a list \<Rightarrow> 'e + 'b list" where
  "sum_concat_map f [] = Inr []"
| "sum_concat_map f (x # xs) =
     (case f x of
        Inl e \<Rightarrow> Inl e
      | Inr ys \<Rightarrow> (case sum_concat_map f xs of Inl e \<Rightarrow> Inl e | Inr zs \<Rightarrow> Inr (ys @ zs)))"

text \<open>The first child, and the first two: \<open>children[0]\<close>, \<open>children[1]\<close> behind a length test.\<close>

definition first_child :: "ast_graph \<Rightarrow> ast_node \<Rightarrow> ast_node option" where
  "first_child g n = (case children g (node_id n) of [] \<Rightarrow> None | c # _ \<Rightarrow> Some c)"

definition first_two :: "ast_graph \<Rightarrow> ast_node \<Rightarrow> (ast_node \<times> ast_node) option" where
  "first_two g n = (case children g (node_id n) of a # b # _ \<Rightarrow> Some (a, b) | _ \<Rightarrow> None)"

text \<open>A loop body that reports its node at most once, with a finding computed on the way.\<close>

definition report_some :: "(ast_node \<Rightarrow> finding option) \<Rightarrow> ast_node list \<Rightarrow> (ast_node \<times> finding) list" where
  "report_some f nodes = List.map_filter (\<lambda>n. map_option (Pair n) (f n)) nodes"

lemma report_some_nodes [simp]: "set (map fst (report_some f nodes)) = {n \<in> set nodes. f n \<noteq> None}"
proof -
  have "n \<in> fst ` set (report_some f nodes) \<longleftrightarrow> n \<in> set nodes \<and> f n \<noteq> None" for n
    unfolding report_some_def image_iff Bex_def in_map_filter by force
  then show ?thesis by auto
qed

lemma set_nodes_by_kind [simp]: "n \<in> set (nodes_by_kind g k) \<longleftrightarrow> n \<in> set (all_nodes g) \<and> node_kind n = k"
  by (simp add: nodes_by_kind_def all_nodes_def)

lemma set_nodes_by_kinds [simp]:
  "n \<in> set (nodes_by_kinds g ks) \<longleftrightarrow> n \<in> set (all_nodes g) \<and> node_kind n \<in> set ks"
  by (auto simp: nodes_by_kinds_def)

lemma report_where_nodes [simp]: "set (map fst (report_where sel f nodes)) = {n \<in> set nodes. sel n}"
  by (auto simp: report_where_def)

lemma report_where_opt_Some:
  assumes "\<And>n. n \<in> set nodes \<Longrightarrow> sel n = Some (P n)"
  shows "report_where_opt sel f nodes = Some (report_where P f nodes)"
proof -
  have "opt_map (\<lambda>n. map_option (\<lambda>b. if b then [(n, f n)] else []) (sel n)) nodes
      = Some (map (\<lambda>n. if P n then [(n, f n)] else []) nodes)"
    by (rule opt_map_Some_conv) (simp add: assms)
  moreover have "concat (map (\<lambda>n. if P n then [(n, f n)] else []) ns) = report_where P f ns" for ns
    by (induction ns) (auto simp: report_where_def)
  ultimately show ?thesis by (simp add: report_where_opt_def opt_concat_map_def)
qed

lemma make_result_Some:
  assumes "make_result md ctx g n f = Some r"
  shows "rr_rule_id r = md_rule_id md" and "rr_ast_node_id r = node_id n"
    and "rr_explanation r = fd_explanation f" and "rr_confidence_score r = fd_confidence_score f"
    and "node_path g (node_id n) = Some (rr_ast_node_path r)"
  using assms by (auto simp: make_result_def split: bind_splits)

lemma make_result_total:
  assumes "parent_ranked g d" and "node_id n \<noteq> []"
  shows "\<exists>r. make_result md ctx g n f = Some r"
  using node_path_ranked [OF assms] by (auto simp: make_result_def)

text \<open>
  When the parent links are acyclic and the nodes have ids, \<open>detect\<close> returns whenever the
  scan for findings does, one result per finding, in order.
\<close>

lemma rule_detect_results:
  assumes "parent_ranked (mk_graph (rc_ast_nodes ctx)) d"
    and "rp_directives r ctx = Inr ds" and "rp_findings r depth ctx (mk_graph (rc_ast_nodes ctx)) = Some (Inr fs)"
    and "\<And>n f. (n, f) \<in> set fs \<Longrightarrow> node_id n \<noteq> []"
  shows "\<exists>rs. rule_detect depth r ctx = Some (Inr (map (directive_result (rp_metadata r) ctx) ds @ rs))
    \<and> map rr_ast_node_id rs = map (node_id \<circ> fst) fs
    \<and> (\<forall>x \<in> set rs. rr_rule_id x = md_rule_id (rp_metadata r))
    \<and> map rr_confidence_score rs = map (fd_confidence_score \<circ> snd) fs"
proof -
  let ?g = "mk_graph (rc_ast_nodes ctx)"
  let ?mk = "\<lambda>(n, f). make_result (rp_metadata r) ctx ?g n f"
  have "\<exists>y. ?mk x = Some y" if "x \<in> set fs" for x
    using make_result_total [OF assms(1)] assms(4) that by (cases x) auto
  then obtain rs where rs: "opt_map ?mk fs = Some rs" using opt_map_total [of fs ?mk] by blast
  have all: "list_all2 (\<lambda>x y. ?mk x = Some y) fs rs" by (rule opt_map_SomeD [OF rs])
  have "map rr_ast_node_id rs = map (node_id \<circ> fst) fs
      \<and> (\<forall>x \<in> set rs. rr_rule_id x = md_rule_id (rp_metadata r))
      \<and> map rr_confidence_score rs = map (fd_confidence_score \<circ> snd) fs"
    using all by (induction rule: list_all2_induct) (auto dest: make_result_Some)
  moreover have "rule_detect depth r ctx = Some (Inr (map (directive_result (rp_metadata r) ctx) ds @ rs))"
    using rs assms(2,3) by (simp add: rule_detect_def)
  ultimately show ?thesis by blast
qed

end
