(* ===== verification/Pack_Control.thy ===== *)
theory Pack_Control
  imports Rule_Base Cfg_Build
begin

text \<open>
  The control-flow pack (\<open>rule_pack_control_flow.py\<close>) and Rule 15.5 (\<open>rule_15_5.py\<close>).  Of each
  rule: its metadata, the arguments of \<open>make_result\<close> (\<open>..._finding\<close>) and the loop of
  \<open>detect\<close> (\<open>..._findings\<close>); \<open>examples\<close> is documentation and left out.
\<close>

subsection \<open>Rule 2.1: unreachable code\<close>

definition rule_2_1_metadata :: rule_metadata where
  "rule_2_1_metadata = \<lparr>
     md_rule_id = ''misra-c2012-rule-2-1'',
     md_rule_number = ''2.1'',
     md_standard = MISRA_C_2012,
     md_category = REQUIRED,
     md_severity = MAJOR,
     md_title = ''A project shall not contain unreachable code'',
     md_description = ''Every statement in a function shall be reachable from its entry point.'',
     md_rationale = ''Unreachable code cannot be exercised by testing and often signals a logic error (e.g. a misplaced return, or both branches of an if always returning).'',
     md_tags = [''control-flow'', ''cfg'', ''unreachable''],
     md_references = [''MISRA C:2012 Rule 2.1''],
     md_plugin_module = ''misra_platform_rules.standards.misra_c_2012.rules.rule_pack_control_flow'',
     md_plugin_version = ''0.1.0'',
     md_requires_ast_nodes = [''FunctionDecl''],
     md_implementation_category = C_CONTROL_FLOW,
     md_rule_pack = Some CONTROL_FLOW,
     md_requires_type_info = False,
     md_requires_cfg = True,
     md_requires_dataflow = False,
     md_requires_linkage = False,
     md_requires_macro_expansion = False,
     md_rule_dependencies = []\<rparr>"

definition rule_2_1_finding :: "finding" where
  "rule_2_1_finding = \<lparr>
     fd_explanation = ''This code is unreachable: no path from the function'' @ sq @ ''s entry point can reach it.'',
     fd_risk_description = ''Unreachable code cannot be exercised by testing and usually indicates a logic defect (e.g. code after an unconditional return, or after both branches of an if/else already returned).'',
     fd_confidence_factors = factors 85 85 80 20 20,
     fd_confidence_score = dec2 78,
     fd_suggested_fix = None\<rparr>"

text \<open>\<open>unreachable_blocks\<close> only returns blocks with statements.\<close>

definition rule_2_1_findings :: "nat \<Rightarrow> ast_graph \<Rightarrow> (ast_node \<times> finding) list option" where
  "rule_2_1_findings depth g =
     opt_concat_map (\<lambda>fn. do {
        c \<leftarrow> build_cfg depth g fn;
        bs \<leftarrow> unreachable_blocks c;
        Some (map (\<lambda>b. (hd (statements b), rule_2_1_finding)) bs) })
      (nodes_by_kind g ''FunctionDecl'')"

subsection \<open>Rule 15.1: goto\<close>

definition rule_15_1_metadata :: rule_metadata where
  "rule_15_1_metadata = \<lparr>
     md_rule_id = ''misra-c2012-rule-15-1'',
     md_rule_number = ''15.1'',
     md_standard = MISRA_C_2012,
     md_category = ADVISORY,
     md_severity = MINOR,
     md_title = ''The goto statement should not be used'',
     md_description = ''The goto statement should not be used.'',
     md_rationale = ''goto obscures control flow and complicates static analysis and review.'',
     md_tags = [''control-flow''],
     md_references = [''MISRA C:2012 Rule 15.1''],
     md_plugin_module = ''misra_platform_rules.standards.misra_c_2012.rules.rule_pack_control_flow'',
     md_plugin_version = ''0.1.0'',
     md_requires_ast_nodes = [''GotoStmt''],
     md_implementation_category = A_AST_ONLY,
     md_rule_pack = Some CONTROL_FLOW,
     md_requires_type_info = False,
     md_requires_cfg = False,
     md_requires_dataflow = False,
     md_requires_linkage = False,
     md_requires_macro_expansion = False,
     md_rule_dependencies = []\<rparr>"

definition rule_15_1_finding :: "ast_node \<Rightarrow> finding" where
  "rule_15_1_finding n = \<lparr>
     fd_explanation = ''A goto statement is used.'',
     fd_risk_description = ''goto-based control flow is harder to verify and maintain.'',
     fd_confidence_factors = factors 100 100 95 5 30,
     fd_confidence_score = dec2 90,
     fd_suggested_fix = Some \<lparr>sf_original_code = offending_text n,
       sf_suggested_code = ''restructure control flow using loops/conditionals'',
       sf_rationale = ''Replace goto with structured control flow where feasible.'',
       sf_confidence_score = dec2 30\<rparr>\<rparr>"

definition rule_15_1_findings :: "ast_graph \<Rightarrow> (ast_node \<times> finding) list" where
  "rule_15_1_findings g = map (\<lambda>n. (n, rule_15_1_finding n)) (nodes_by_kind g ''GotoStmt'')"

subsection \<open>Rule 15.6: compound bodies\<close>

definition rule_15_6_metadata :: rule_metadata where
  "rule_15_6_metadata = \<lparr>
     md_rule_id = ''misra-c2012-rule-15-6'',
     md_rule_number = ''15.6'',
     md_standard = MISRA_C_2012,
     md_category = REQUIRED,
     md_severity = MAJOR,
     md_title = ''The body of an iteration or selection statement shall be a compound statement'',
     md_description = ''Bodies of if/else/while/for/do statements shall be enclosed in braces.'',
     md_rationale = ''Brace-less bodies are a classic source of dangling-statement defects.'',
     md_tags = [''control-flow'', ''style''],
     md_references = [''MISRA C:2012 Rule 15.6''],
     md_plugin_module = ''misra_platform_rules.standards.misra_c_2012.rules.rule_pack_control_flow'',
     md_plugin_version = ''0.1.0'',
     md_requires_ast_nodes = [''IfStmt'', ''WhileStmt'', ''ForStmt'', ''DoStmt''],
     md_implementation_category = A_AST_ONLY,
     md_rule_pack = Some CONTROL_FLOW,
     md_requires_type_info = False,
     md_requires_cfg = False,
     md_requires_dataflow = False,
     md_requires_linkage = False,
     md_requires_macro_expansion = False,
     md_rule_dependencies = []\<rparr>"

definition rule_15_6_finding :: "string \<Rightarrow> ast_node \<Rightarrow> finding" where
  "rule_15_6_finding kind n = \<lparr>
     fd_explanation = kind @ '' body is a single statement, not a compound statement.'',
     fd_risk_description = ''Adding a second statement later without braces silently changes control flow.'',
     fd_confidence_factors = factors 90 90 90 10 75,
     fd_confidence_score = dec2 85,
     fd_suggested_fix = Some \<lparr>sf_original_code = offending_text n,
       sf_suggested_code = ''wrap the body in { }'',
       sf_rationale = ''Braces make the statement'' @ sq @ ''s scope unambiguous.'',
       sf_confidence_score = dec2 75\<rparr>\<rparr>"

definition if_body_findings :: "ast_graph \<Rightarrow> ast_node \<Rightarrow> (ast_node \<times> finding) list" where
  "if_body_findings g n =
     (case children g (node_id n) of
        _ # then_branch # rest \<Rightarrow>
          (if node_kind then_branch \<noteq> ''CompoundStmt'' then [(n, rule_15_6_finding ''IfStmt (then)'' n)] else [])
          @ (case rest of
               else_branch # _ \<Rightarrow>
                 if node_kind else_branch \<notin> {''CompoundStmt'', ''IfStmt''}
                 then [(n, rule_15_6_finding ''IfStmt (else)'' n)] else []
             | [] \<Rightarrow> [])
      | _ \<Rightarrow> [])"

definition rule_15_6_findings :: "ast_graph \<Rightarrow> (ast_node \<times> finding) list" where
  "rule_15_6_findings g =
     concat (map (if_body_findings g) (nodes_by_kind g ''IfStmt''))
     @ concat (map (\<lambda>kind. report_where
           (\<lambda>n. children g (node_id n) \<noteq> [] \<and> node_kind (last (children g (node_id n))) \<noteq> ''CompoundStmt'')
           (rule_15_6_finding kind) (nodes_by_kind g kind)) [''WhileStmt'', ''ForStmt''])
     @ report_where
         (\<lambda>n. children g (node_id n) \<noteq> [] \<and> node_kind (hd (children g (node_id n))) \<noteq> ''CompoundStmt'')
         (rule_15_6_finding ''DoStmt'') (nodes_by_kind g ''DoStmt'')"

subsection \<open>Rule 16.3: switch clauses end in a jump\<close>

definition rule_16_3_metadata :: rule_metadata where
  "rule_16_3_metadata = \<lparr>
     md_rule_id = ''misra-c2012-rule-16-3'',
     md_rule_number = ''16.3'',
     md_standard = MISRA_C_2012,
     md_category = REQUIRED,
     md_severity = MAJOR,
     md_title = ''An unconditional break shall terminate every switch clause'',
     md_description = ''Every switch clause shall end in an unconditional break, return, continue, or goto.'',
     md_rationale = ''Fallthrough between switch clauses is rarely intentional and hard to review.'',
     md_tags = [''control-flow'', ''switch''],
     md_references = [''MISRA C:2012 Rule 16.3''],
     md_plugin_module = ''misra_platform_rules.standards.misra_c_2012.rules.rule_pack_control_flow'',
     md_plugin_version = ''0.1.0'',
     md_requires_ast_nodes = [''SwitchStmt'', ''CaseStmt''],
     md_implementation_category = C_CONTROL_FLOW,
     md_rule_pack = Some CONTROL_FLOW,
     md_requires_type_info = False,
     md_requires_cfg = True,
     md_requires_dataflow = False,
     md_requires_linkage = False,
     md_requires_macro_expansion = False,
     md_rule_dependencies = []\<rparr>"

definition rule_16_3_finding :: "ast_node \<Rightarrow> finding" where
  "rule_16_3_finding n = \<lparr>
     fd_explanation = ''Switch clause falls through to the next clause without a break.'',
     fd_risk_description = ''Unintended fallthrough is a common source of switch-statement defects.'',
     fd_confidence_factors = factors 85 90 90 15 60,
     fd_confidence_score = dec2 80,
     fd_suggested_fix = Some \<lparr>sf_original_code = offending_text n,
       sf_suggested_code = ''add an explicit break at the end of this clause'',
       sf_rationale = ''Terminate every switch clause unconditionally.'',
       sf_confidence_score = dec2 60\<rparr>\<rparr>"

definition rule_16_3_findings :: "ast_graph \<Rightarrow> (ast_node \<times> finding) list" where
  "rule_16_3_findings g =
     concat (map (\<lambda>sw. map (\<lambda>c. (c, rule_16_3_finding c)) (switch_blocks_without_terminator g sw))
       (nodes_by_kind g ''SwitchStmt''))"

subsection \<open>Rule 16.4: a default clause\<close>

definition rule_16_4_metadata :: rule_metadata where
  "rule_16_4_metadata = \<lparr>
     md_rule_id = ''misra-c2012-rule-16-4'',
     md_rule_number = ''16.4'',
     md_standard = MISRA_C_2012,
     md_category = REQUIRED,
     md_severity = MAJOR,
     md_title = ''Every switch statement shall have a default label'',
     md_description = ''Every switch statement shall contain a default clause.'',
     md_rationale = ''An explicit default clause documents that unhandled cases were considered.'',
     md_tags = [''control-flow'', ''switch''],
     md_references = [''MISRA C:2012 Rule 16.4''],
     md_plugin_module = ''misra_platform_rules.standards.misra_c_2012.rules.rule_pack_control_flow'',
     md_plugin_version = ''0.1.0'',
     md_requires_ast_nodes = [''SwitchStmt''],
     md_implementation_category = A_AST_ONLY,
     md_rule_pack = Some CONTROL_FLOW,
     md_requires_type_info = False,
     md_requires_cfg = False,
     md_requires_dataflow = False,
     md_requires_linkage = False,
     md_requires_macro_expansion = False,
     md_rule_dependencies = []\<rparr>"

definition rule_16_4_finding :: "ast_node \<Rightarrow> finding" where
  "rule_16_4_finding n = \<lparr>
     fd_explanation = ''Switch statement has no default clause.'',
     fd_risk_description = ''Unhandled cases fail silently without a default clause.'',
     fd_confidence_factors = factors 95 90 95 10 60,
     fd_confidence_score = dec2 87,
     fd_suggested_fix = Some \<lparr>sf_original_code = offending_text n,
       sf_suggested_code = ''add a default: clause'',
       sf_rationale = ''Handle (or explicitly reject) every unlisted case value.'',
       sf_confidence_score = dec2 60\<rparr>\<rparr>"

definition rule_16_4_findings :: "ast_graph \<Rightarrow> (ast_node \<times> finding) list option" where
  "rule_16_4_findings g =
     report_where_opt
       (\<lambda>n. map_option (\<lambda>ds. \<not> list_ex (\<lambda>d. node_kind d = ''DefaultStmt'') ds) (descendants g (node_id n)))
       rule_16_4_finding (nodes_by_kind g ''SwitchStmt'')"

subsection \<open>Rule 16.6: at least two clauses\<close>

definition rule_16_6_metadata :: rule_metadata where
  "rule_16_6_metadata = \<lparr>
     md_rule_id = ''misra-c2012-rule-16-6'',
     md_rule_number = ''16.6'',
     md_standard = MISRA_C_2012,
     md_category = REQUIRED,
     md_severity = MAJOR,
     md_title = ''Every switch statement shall have at least two switch clauses'',
     md_description = ''Every switch statement shall have at least two switch-labeled clauses.'',
     md_rationale = ''A switch with fewer than two clauses should be an if statement.'',
     md_tags = [''control-flow'', ''switch''],
     md_references = [''MISRA C:2012 Rule 16.6''],
     md_plugin_module = ''misra_platform_rules.standards.misra_c_2012.rules.rule_pack_control_flow'',
     md_plugin_version = ''0.1.0'',
     md_requires_ast_nodes = [''SwitchStmt''],
     md_implementation_category = A_AST_ONLY,
     md_rule_pack = Some CONTROL_FLOW,
     md_requires_type_info = False,
     md_requires_cfg = False,
     md_requires_dataflow = False,
     md_requires_linkage = False,
     md_requires_macro_expansion = False,
     md_rule_dependencies = []\<rparr>"

definition rule_16_6_finding :: "string \<Rightarrow> ast_node \<Rightarrow> finding" where
  "rule_16_6_finding clause_count n = \<lparr>
     fd_explanation = ''Switch statement has only '' @ clause_count @ '' clause(s).'',
     fd_risk_description = ''A switch with fewer than two clauses is better expressed as an if.'',
     fd_confidence_factors = factors 90 90 95 10 40,
     fd_confidence_score = dec2 82,
     fd_suggested_fix = Some \<lparr>sf_original_code = offending_text n,
       sf_suggested_code = ''replace the switch with an if statement, or add more clauses'',
       sf_rationale = ''Use switch only when it meaningfully improves readability over if.'',
       sf_confidence_score = dec2 40\<rparr>\<rparr>"

definition rule_16_6_findings :: "ast_graph \<Rightarrow> (ast_node \<times> finding) list option" where
  "rule_16_6_findings g =
     opt_concat_map (\<lambda>n. map_option (\<lambda>ds.
         let clause_count = length (filter (\<lambda>d. node_kind d \<in> {''CaseStmt'', ''DefaultStmt''}) ds)
         in if clause_count \<ge> 2 then [] else [(n, rule_16_6_finding (nat_str clause_count) n)])
       (descendants g (node_id n)))
     (nodes_by_kind g ''SwitchStmt'')"

subsection \<open>Rule 16.2: labels are direct clauses\<close>

definition rule_16_2_metadata :: rule_metadata where
  "rule_16_2_metadata = \<lparr>
     md_rule_id = ''misra-c2012-rule-16-2'',
     md_rule_number = ''16.2'',
     md_standard = MISRA_C_2012,
     md_category = REQUIRED,
     md_severity = MAJOR,
     md_title = ''A switch label shall only be used within the compound statement of a switch'',
     md_description = ''A case/default label shall be a direct clause of its switch'' @ sq @ ''s own compound statement.'',
     md_rationale = ''A label nested inside an extra block inside a switch is legal C but easily misread.'',
     md_tags = [''control-flow'', ''switch''],
     md_references = [''MISRA C:2012 Rule 16.2''],
     md_plugin_module = ''misra_platform_rules.standards.misra_c_2012.rules.rule_pack_control_flow'',
     md_plugin_version = ''0.1.0'',
     md_requires_ast_nodes = [''CaseStmt'', ''DefaultStmt'', ''SwitchStmt''],
     md_implementation_category = A_AST_ONLY,
     md_rule_pack = Some CONTROL_FLOW,
     md_requires_type_info = False,
     md_requires_cfg = False,
     md_requires_dataflow = False,
     md_requires_linkage = False,
     md_requires_macro_expansion = False,
     md_rule_dependencies = []\<rparr>"

definition rule_16_2_finding :: "ast_node \<Rightarrow> finding" where
  "rule_16_2_finding n = \<lparr>
     fd_explanation = ''This switch label is not a direct clause of its switch'' @ sq @ ''s compound statement.'',
     fd_risk_description = ''A label nested inside an extra block is legal C but hides the switch'' @ sq @ ''s real structure.'',
     fd_confidence_factors = factors 92 90 90 10 35,
     fd_confidence_score = dec2 85,
     fd_suggested_fix = Some \<lparr>sf_original_code = offending_text n,
       sf_suggested_code = ''move the label to be a direct clause of the switch'' @ sq @ ''s body'',
       sf_rationale = ''Avoid nesting switch labels inside extra blocks.'',
       sf_confidence_score = dec2 35\<rparr>\<rparr>"

definition rule_16_2_findings :: "ast_graph \<Rightarrow> (ast_node \<times> finding) list" where
  "rule_16_2_findings g =
     report_where (\<lambda>n. node_kind n \<in> {''CaseStmt'', ''DefaultStmt''} \<and>
         \<not> (case g_get g (parent_id n) of
              None \<Rightarrow> False
            | Some parent \<Rightarrow>
                (case g_get g (parent_id parent) of
                   None \<Rightarrow> False
                 | Some grandparent \<Rightarrow> node_kind parent = ''CompoundStmt'' \<and> node_kind grandparent = ''SwitchStmt'')))
       rule_16_2_finding (all_nodes g)"

subsection \<open>Rule 16.5: position of the default clause\<close>

definition rule_16_5_metadata :: rule_metadata where
  "rule_16_5_metadata = \<lparr>
     md_rule_id = ''misra-c2012-rule-16-5'',
     md_rule_number = ''16.5'',
     md_standard = MISRA_C_2012,
     md_category = REQUIRED,
     md_severity = MAJOR,
     md_title = ''A default label shall appear either as the first or as the last switch label'',
     md_description = ''If a switch statement has a default clause, it shall be the first or last clause listed.'',
     md_rationale = ''A default clause buried in the middle is easy to overlook when scanning the cases.'',
     md_tags = [''control-flow'', ''switch''],
     md_references = [''MISRA C:2012 Rule 16.5''],
     md_plugin_module = ''misra_platform_rules.standards.misra_c_2012.rules.rule_pack_control_flow'',
     md_plugin_version = ''0.1.0'',
     md_requires_ast_nodes = [''SwitchStmt'', ''DefaultStmt''],
     md_implementation_category = A_AST_ONLY,
     md_rule_pack = Some CONTROL_FLOW,
     md_requires_type_info = False,
     md_requires_cfg = False,
     md_requires_dataflow = False,
     md_requires_linkage = False,
     md_requires_macro_expansion = False,
     md_rule_dependencies = []\<rparr>"

definition rule_16_5_finding :: "string \<Rightarrow> string \<Rightarrow> finding" where
  "rule_16_5_finding position_txt count_txt = \<lparr>
     fd_explanation = ''The default clause is clause '' @ position_txt @ '' of '' @ count_txt @ '', neither first nor last.'',
     fd_risk_description = ''A default clause buried among case clauses is easy to miss during review.'',
     fd_confidence_factors = factors 95 90 95 5 50,
     fd_confidence_score = dec2 88,
     fd_suggested_fix = Some \<lparr>sf_original_code = ''default:'',
       sf_suggested_code = ''move the default clause to be first or last'',
       sf_rationale = ''Place default where reviewers expect to find it.'',
       sf_confidence_score = dec2 50\<rparr>\<rparr>"

definition switch_clauses :: "ast_graph \<Rightarrow> ast_node \<Rightarrow> ast_node list" where
  "switch_clauses g body = filter (\<lambda>c. node_kind c \<in> {''CaseStmt'', ''DefaultStmt''}) (children g (node_id body))"

definition default_position :: "ast_node list \<Rightarrow> nat option" where
  "default_position clauses = list_index (map node_kind clauses) ''DefaultStmt''"

definition rule_16_5_findings :: "ast_graph \<Rightarrow> (ast_node \<times> finding) list" where
  "rule_16_5_findings g =
     concat (map (\<lambda>sw. case switch_body g sw of
         None \<Rightarrow> []
       | Some body \<Rightarrow>
           (let clauses = switch_clauses g body in
            case default_position clauses of
              None \<Rightarrow> []
            | Some position \<Rightarrow>
                if position \<in> {0, length clauses - 1} then []
                else [(clauses ! position,
                       rule_16_5_finding (nat_str (position + 1)) (nat_str (length clauses)))]))
       (nodes_by_kind g ''SwitchStmt''))"

subsection \<open>Rule 17.4: every path returns a value\<close>

definition rule_17_4_metadata :: rule_metadata where
  "rule_17_4_metadata = \<lparr>
     md_rule_id = ''misra-c2012-rule-17-4'',
     md_rule_number = ''17.4'',
     md_standard = MISRA_C_2012,
     md_category = MANDATORY,
     md_severity = CRITICAL,
     md_title = ''All exit paths from a function with non-void return type shall have an explicit return value'',
     md_description = ''Every path from a non-void function'' @ sq @ ''s entry to its exit shall pass through a return statement that yields a value.'',
     md_rationale = ''Falling off the end of a non-void function, or a bare '' @ sq @ ''return;'' @ sq @ '', produces an unspecified value.'',
     md_tags = [''control-flow'', ''cfg'', ''functions''],
     md_references = [''MISRA C:2012 Rule 17.4''],
     md_plugin_module = ''misra_platform_rules.standards.misra_c_2012.rules.rule_pack_control_flow'',
     md_plugin_version = ''0.1.0'',
     md_requires_ast_nodes = [''FunctionDecl'', ''ReturnStmt''],
     md_implementation_category = C_CONTROL_FLOW,
     md_rule_pack = Some CONTROL_FLOW,
     md_requires_type_info = False,
     md_requires_cfg = True,
     md_requires_dataflow = False,
     md_requires_linkage = False,
     md_requires_macro_expansion = False,
     md_rule_dependencies = []\<rparr>"

definition rule_17_4_finding :: "string \<Rightarrow> string \<Rightarrow> finding" where
  "rule_17_4_finding name return_type = \<lparr>
     fd_explanation = ''Function '' @ sq @ name @ sq @ '' (essential type '' @ sq @ return_type @ sq @ '') has a path reaching its exit without an explicit return value.'',
     fd_risk_description = ''A missing return value on some path yields an unspecified result to the caller.'',
     fd_confidence_factors = factors 85 85 85 15 30,
     fd_confidence_score = dec2 80,
     fd_suggested_fix = None\<rparr>"

text \<open>The loop over the exit edges, left at the first offending one.\<close>

fun exit_offender :: "ast_graph \<Rightarrow> ast_node \<Rightarrow> cfg \<Rightarrow> cfg_edge list \<Rightarrow> ast_node option" where
  "exit_offender g fn c [] = None"
| "exit_offender g fn c (e # es) =
     (let stmts = (case map_of (blocks c) (edge_source e) of None \<Rightarrow> [] | Some b \<Rightarrow> statements b) in
      if edge_kind e \<noteq> ReturnEdge then Some (if stmts \<noteq> [] then last stmts else fn)
      else if stmts = [] then Some fn
      else if children g (node_id (last stmts)) = [] then Some (last stmts)
      else exit_offender g fn c es)"

definition rule_17_4_findings :: "nat \<Rightarrow> ast_graph \<Rightarrow> (ast_node \<times> finding) list option" where
  "rule_17_4_findings depth g =
     opt_concat_map (\<lambda>fn.
        if \<not> has_body g fn then Some []
        else if ess_type fn \<in> {''unknown'', ''void''} then Some []
        else do {
          c \<leftarrow> build_cfg depth g fn;
          Some (case exit_offender g fn c (exit_edges c) of
                  None \<Rightarrow> []
                | Some offending \<Rightarrow> [(offending, rule_17_4_finding (sem_name fn ''<anonymous>'') (ess_type fn))]) })
      (nodes_by_kind g ''FunctionDecl'')"

subsection \<open>Rule 15.4: one exit per loop\<close>

definition rule_15_4_metadata :: rule_metadata where
  "rule_15_4_metadata = \<lparr>
     md_rule_id = ''misra-c2012-rule-15-4'',
     md_rule_number = ''15.4'',
     md_standard = MISRA_C_2012,
     md_category = ADVISORY,
     md_severity = MINOR,
     md_title = ''There should be no more than one break or goto statement used to terminate any given loop'',
     md_description = ''A single loop should be terminated by at most one break/goto statement.'',
     md_rationale = ''Multiple exit statements for one loop make its termination condition harder to verify.'',
     md_tags = [''control-flow'', ''loops''],
     md_references = [''MISRA C:2012 Rule 15.4''],
     md_plugin_module = ''misra_platform_rules.standards.misra_c_2012.rules.rule_pack_control_flow'',
     md_plugin_version = ''0.1.0'',
     md_requires_ast_nodes = [''ForStmt'', ''WhileStmt'', ''DoStmt'', ''BreakStmt'', ''GotoStmt''],
     md_implementation_category = C_CONTROL_FLOW,
     md_rule_pack = Some CONTROL_FLOW,
     md_requires_type_info = False,
     md_requires_cfg = True,
     md_requires_dataflow = False,
     md_requires_linkage = False,
     md_requires_macro_expansion = False,
     md_rule_dependencies = []\<rparr>"

definition rule_15_4_finding :: "string \<Rightarrow> finding" where
  "rule_15_4_finding count_txt = \<lparr>
     fd_explanation = ''This loop is terminated by '' @ count_txt @ '' separate break/goto statements.'',
     fd_risk_description = ''Multiple loop-exit points make the loop'' @ sq @ ''s termination logic harder to verify.'',
     fd_confidence_factors = factors 80 80 85 20 30,
     fd_confidence_score = dec2 72,
     fd_suggested_fix = None\<rparr>"

definition rule_15_4_findings :: "nat \<Rightarrow> ast_graph \<Rightarrow> (ast_node \<times> finding) list option" where
  "rule_15_4_findings depth g =
     opt_concat_map (\<lambda>loop. map_option (\<lambda>terminators.
         if length terminators \<le> 1 then []
         else map (\<lambda>t. (t, rule_15_4_finding (nat_str (length terminators)))) (tl terminators))
       (loop_termination_statements depth g loop))
     (nodes_by_kinds g [''ForStmt'', ''WhileStmt'', ''DoStmt''])"

subsection \<open>Rules 15.2 and 15.3: goto targets\<close>

text \<open>The loop of \<open>_enclosing_scope_chain\<close>; \<^term>\<open>None\<close> on cyclic parent links.\<close>

partial_function (option) scope_chain_loop :: "ast_graph \<Rightarrow> string \<Rightarrow> string list \<Rightarrow> string list option" where
  "scope_chain_loop g cur chain =
     (if cur = [] then Some chain
      else case g_get g cur of
             None \<Rightarrow> Some (chain @ [cur])
           | Some p \<Rightarrow> scope_chain_loop g (parent_id p) (chain @ [cur]))"

declare scope_chain_loop.simps [code]

definition enclosing_scope_chain :: "ast_graph \<Rightarrow> ast_node \<Rightarrow> string list option" where
  "enclosing_scope_chain g n = scope_chain_loop g (parent_id n) []"

text \<open>Of two labels with one name the dict comprehension keeps the later.\<close>

definition labels_by_name :: "ast_node list \<Rightarrow> (string, ast_node) dict" where
  "labels_by_name ds =
     fold (\<lambda>l. dict_set (sem_str l ''name'') l) (filter (\<lambda>d. node_kind d = ''LabelStmt'') ds) []"

definition goto_label_pairs_crossing_scope ::
    "ast_graph \<Rightarrow> ast_node \<Rightarrow> (ast_node \<times> ast_node) list option" where
  "goto_label_pairs_crossing_scope g fn = do {
     ds \<leftarrow> descendants g (node_id fn);
     opt_concat_map (\<lambda>goto.
        if node_kind goto \<noteq> ''GotoStmt'' then Some []
        else case map_of (labels_by_name ds) (sem_str goto ''target_label'') of
               None \<Rightarrow> Some []
             | Some label \<Rightarrow> do {
                 chain \<leftarrow> enclosing_scope_chain g goto;
                 Some (if parent_id label \<notin> set (parent_id goto # chain) then [(goto, label)] else []) }) ds }"

definition rule_15_2_metadata :: rule_metadata where
  "rule_15_2_metadata = \<lparr>
     md_rule_id = ''misra-c2012-rule-15-2'',
     md_rule_number = ''15.2'',
     md_standard = MISRA_C_2012,
     md_category = REQUIRED,
     md_severity = MAJOR,
     md_title = ''A goto statement shall jump to a label in the same or an enclosing block'',
     md_description = ''A goto shall not jump into a block it is not already lexically inside of.'',
     md_rationale = ''Jumping into a nested block skips that block'' @ sq @ ''s own initialization, which is unsound.'',
     md_tags = [''control-flow'', ''goto''],
     md_references = [''MISRA C:2012 Rule 15.2''],
     md_plugin_module = ''misra_platform_rules.standards.misra_c_2012.rules.rule_pack_control_flow'',
     md_plugin_version = ''0.1.0'',
     md_requires_ast_nodes = [''FunctionDecl'', ''GotoStmt'', ''LabelStmt''],
     md_implementation_category = C_CONTROL_FLOW,
     md_rule_pack = Some CONTROL_FLOW,
     md_requires_type_info = False,
     md_requires_cfg = False,
     md_requires_dataflow = False,
     md_requires_linkage = False,
     md_requires_macro_expansion = False,
     md_rule_dependencies = []\<rparr>"

definition rule_15_2_finding :: "string \<Rightarrow> finding" where
  "rule_15_2_finding target_name = \<lparr>
     fd_explanation = sq @ ''goto '' @ target_name @ sq @ '' jumps into a block that does not enclose it.'',
     fd_risk_description = ''Jumping into a nested block skips that block'' @ sq @ ''s own initialization, which is unsound.'',
     fd_confidence_factors = factors 85 75 90 10 20,
     fd_confidence_score = dec2 82,
     fd_suggested_fix = None\<rparr>"

definition rule_15_2_findings :: "ast_graph \<Rightarrow> (ast_node \<times> finding) list option" where
  "rule_15_2_findings g =
     opt_concat_map (\<lambda>fn. map_option
         (map (\<lambda>(goto, label). (goto, rule_15_2_finding (sem_str goto ''target_label''))))
         (goto_label_pairs_crossing_scope g fn))
       (nodes_by_kind g ''FunctionDecl'')"

definition rule_15_3_metadata :: rule_metadata where
  "rule_15_3_metadata = \<lparr>
     md_rule_id = ''misra-c2012-rule-15-3'',
     md_rule_number = ''15.3'',
     md_standard = MISRA_C_2012,
     md_category = REQUIRED,
     md_severity = MAJOR,
     md_title = ''Any label referenced by a goto statement shall be declared in the same or an enclosing block'',
     md_description = ''A label'' @ sq @ ''s scope must already enclose every goto that targets it.'',
     md_rationale = ''A label placed in a block the goto cannot see forces the jump to skip that block'' @ sq @ ''s initialization, which is unsound.'',
     md_tags = [''control-flow'', ''goto'', ''labels''],
     md_references = [''MISRA C:2012 Rule 15.3''],
     md_plugin_module = ''misra_platform_rules.standards.misra_c_2012.rules.rule_pack_control_flow'',
     md_plugin_version = ''0.1.0'',
     md_requires_ast_nodes = [''FunctionDecl'', ''GotoStmt'', ''LabelStmt''],
     md_implementation_category = C_CONTROL_FLOW,
     md_rule_pack = Some CONTROL_FLOW,
     md_requires_type_info = False,
     md_requires_cfg = False,
     md_requires_dataflow = False,
     md_requires_linkage = False,
     md_requires_macro_expansion = False,
     md_rule_dependencies = []\<rparr>"

definition rule_15_3_finding :: "string \<Rightarrow> finding" where
  "rule_15_3_finding lname = \<lparr>
     fd_explanation = ''Label '' @ sq @ lname @ sq @ '' is declared in a block that does not enclose one of the goto statements referencing it.'',
     fd_risk_description = ''A goto targeting this label would skip this block'' @ sq @ ''s own initialization, which is unsound.'',
     fd_confidence_factors = factors 85 75 90 10 20,
     fd_confidence_score = dec2 82,
     fd_suggested_fix = None\<rparr>"

definition rule_15_3_findings :: "ast_graph \<Rightarrow> (ast_node \<times> finding) list option" where
  "rule_15_3_findings g =
     opt_concat_map (\<lambda>fn. map_option
         (map (\<lambda>(goto, label). (label, rule_15_3_finding (sem_str label ''name''))))
         (goto_label_pairs_crossing_scope g fn))
       (nodes_by_kind g ''FunctionDecl'')"

subsection \<open>Rule 15.7: else-if chains end in else\<close>

definition rule_15_7_metadata :: rule_metadata where
  "rule_15_7_metadata = \<lparr>
     md_rule_id = ''misra-c2012-rule-15-7'',
     md_rule_number = ''15.7'',
     md_standard = MISRA_C_2012,
     md_category = REQUIRED,
     md_severity = MAJOR,
     md_title = ''An if-else-if construct shall be terminated with an else clause'',
     md_description = ''Every if / else-if chain shall end with a final else clause.'',
     md_rationale = ''A missing final else silently drops the case where none of the conditions hold.'',
     md_tags = [''control-flow'', ''if''],
     md_references = [''MISRA C:2012 Rule 15.7''],
     md_plugin_module = ''misra_platform_rules.standards.misra_c_2012.rules.rule_pack_control_flow'',
     md_plugin_version = ''0.1.0'',
     md_requires_ast_nodes = [''IfStmt''],
     md_implementation_category = A_AST_ONLY,
     md_rule_pack = Some CONTROL_FLOW,
     md_requires_type_info = False,
     md_requires_cfg = False,
     md_requires_dataflow = False,
     md_requires_linkage = False,
     md_requires_macro_expansion = False,
     md_rule_dependencies = []\<rparr>"

definition rule_15_7_finding :: "finding" where
  "rule_15_7_finding = \<lparr>
     fd_explanation = ''This if-else-if chain has no final else clause.'',
     fd_risk_description = ''A missing final else silently drops the case where none of the conditions hold.'',
     fd_confidence_factors = factors 85 80 90 15 50,
     fd_confidence_score = dec2 78,
     fd_suggested_fix = Some \<lparr>sf_original_code = ''if (...) { ... } else if (...) { ... }'',
       sf_suggested_code = ''if (...) { ... } else if (...) { ... } else { /* handle the remaining case */ }'',
       sf_rationale = ''Add a final else to handle every remaining case explicitly.'',
       sf_confidence_score = dec2 50\<rparr>\<rparr>"

definition is_else_branch :: "ast_graph \<Rightarrow> ast_node \<Rightarrow> ast_node \<Rightarrow> bool" where
  "is_else_branch g n parent \<longleftrightarrow>
     length (children g (node_id parent)) \<ge> 3 \<and> node_id (last (children g (node_id parent))) = node_id n"

text \<open>The walk down the chain: \<^term>\<open>Some None\<close> where Python returns \<open>None\<close>.\<close>

partial_function (option) final_else_if_loop :: "ast_graph \<Rightarrow> ast_node \<Rightarrow> bool \<Rightarrow> ast_node option option" where
  "final_else_if_loop g current found_chain =
     (let cs = children g (node_id current) in
      if length cs < 3 then Some (if found_chain then Some current else None)
      else if node_kind (last cs) \<noteq> ''IfStmt'' then Some (if found_chain then Some current else None)
      else final_else_if_loop g (last cs) True)"

declare final_else_if_loop.simps [code]

definition final_else_if :: "ast_graph \<Rightarrow> ast_node \<Rightarrow> ast_node option option" where
  "final_else_if g n = final_else_if_loop g n False"

definition has_final_else :: "ast_graph \<Rightarrow> ast_node \<Rightarrow> bool" where
  "has_final_else g n \<longleftrightarrow>
     \<not> length (children g (node_id n)) < 3 \<and> node_kind (last (children g (node_id n))) \<noteq> ''IfStmt''"

definition rule_15_7_findings :: "ast_graph \<Rightarrow> (ast_node \<times> finding) list option" where
  "rule_15_7_findings g =
     opt_concat_map (\<lambda>n.
        if (case g_get g (parent_id n) of None \<Rightarrow> False
            | Some p \<Rightarrow> node_kind p = ''IfStmt'' \<and> is_else_branch g n p) then Some []
        else map_option (\<lambda>chain_end. case chain_end of
               None \<Rightarrow> []
             | Some e \<Rightarrow> if has_final_else g e then [] else [(e, rule_15_7_finding)])
           (final_else_if g n))
      (nodes_by_kind g ''IfStmt'')"

subsection \<open>Rule 14.2: well-formed for loops\<close>

definition rule_14_2_metadata :: rule_metadata where
  "rule_14_2_metadata = \<lparr>
     md_rule_id = ''misra-c2012-rule-14-2'',
     md_rule_number = ''14.2'',
     md_standard = MISRA_C_2012,
     md_category = REQUIRED,
     md_severity = MAJOR,
     md_title = ''A for loop shall be well-formed'',
     md_description = ''A for statement shall declare an initialization, a condition, and an increment expression.'',
     md_rationale = ''Omitting one of the three for-loop clauses hides the loop'' @ sq @ ''s control structure in the body, making it harder to verify termination.'',
     md_tags = [''control-flow'', ''loops'', ''for''],
     md_references = [''MISRA C:2012 Rule 14.2''],
     md_plugin_module = ''misra_platform_rules.standards.misra_c_2012.rules.rule_pack_control_flow'',
     md_plugin_version = ''0.1.0'',
     md_requires_ast_nodes = [''ForStmt''],
     md_implementation_category = C_CONTROL_FLOW,
     md_rule_pack = Some CONTROL_FLOW,
     md_requires_type_info = False,
     md_requires_cfg = False,
     md_requires_dataflow = False,
     md_requires_linkage = False,
     md_requires_macro_expansion = False,
     md_rule_dependencies = []\<rparr>"

definition rule_14_2_finding :: "finding" where
  "rule_14_2_finding = \<lparr>
     fd_explanation = ''This for loop is missing its initialization, condition, or increment expression.'',
     fd_risk_description = ''Omitting one of the three for-loop clauses hides the loop'' @ sq @ ''s control structure in the body, making it harder to verify termination.'',
     fd_confidence_factors = factors 85 75 90 15 30,
     fd_confidence_score = dec2 75,
     fd_suggested_fix = Some \<lparr>sf_original_code = ''for (...; ...) { ... }'',
       sf_suggested_code = ''for (init; condition; increment) { ... }'',
       sf_rationale = ''Give every for loop an explicit init, condition, and increment clause.'',
       sf_confidence_score = dec2 30\<rparr>\<rparr>"

definition expected_clauses :: nat where
  "expected_clauses = 4"

definition rule_14_2_findings :: "ast_graph \<Rightarrow> (ast_node \<times> finding) list" where
  "rule_14_2_findings g =
     report_where (\<lambda>n. \<not> length (children g (node_id n)) \<ge> expected_clauses) (\<lambda>n. rule_14_2_finding)
       (nodes_by_kind g ''ForStmt'')"

subsection \<open>Rule 2.6: unused labels\<close>

definition rule_2_6_metadata :: rule_metadata where
  "rule_2_6_metadata = \<lparr>
     md_rule_id = ''misra-c2012-rule-2-6'',
     md_rule_number = ''2.6'',
     md_standard = MISRA_C_2012,
     md_category = ADVISORY,
     md_severity = MINOR,
     md_title = ''A function should not contain unused label declarations'',
     md_description = ''Every label in a function should be referenced by a goto statement.'',
     md_rationale = ''Unused labels are dead code that misleads readers about control flow.'',
     md_tags = [''control-flow'', ''goto'', ''labels''],
     md_references = [''MISRA C:2012 Rule 2.6''],
     md_plugin_module = ''misra_platform_rules.standards.misra_c_2012.rules.rule_pack_control_flow'',
     md_plugin_version = ''0.1.0'',
     md_requires_ast_nodes = [''FunctionDecl'', ''LabelStmt'', ''GotoStmt''],
     md_implementation_category = A_AST_ONLY,
     md_rule_pack = Some CONTROL_FLOW,
     md_requires_type_info = False,
     md_requires_cfg = False,
     md_requires_dataflow = False,
     md_requires_linkage = False,
     md_requires_macro_expansion = False,
     md_rule_dependencies = []\<rparr>"

definition rule_2_6_finding :: "string \<Rightarrow> ast_node \<Rightarrow> finding" where
  "rule_2_6_finding name n = \<lparr>
     fd_explanation = ''Label '' @ sq @ name @ sq @ '' is declared but never referenced by a goto.'',
     fd_risk_description = ''Unused labels are dead control-flow surface.'',
     fd_confidence_factors = factors 95 90 90 5 50,
     fd_confidence_score = dec2 88,
     fd_suggested_fix = Some \<lparr>sf_original_code = offending_text n,
       sf_suggested_code = ''remove the unused label'',
       sf_rationale = ''Delete labels that no goto references.'',
       sf_confidence_score = dec2 50\<rparr>\<rparr>"

definition rule_2_6_findings :: "ast_graph \<Rightarrow> (ast_node \<times> finding) list option" where
  "rule_2_6_findings g =
     opt_concat_map (\<lambda>fn. do {
        gotos \<leftarrow> goto_targets g fn;
        ls \<leftarrow> labels g fn;
        (let targeted = map (\<lambda>x. sem_str x ''target_label'') gotos in
         Some (report_where (\<lambda>l. \<not> (sem_str l ''name'' = [] \<or> sem_str l ''name'' \<in> set targeted))
           (\<lambda>l. rule_2_6_finding (sem_str l ''name'') l) ls)) })
      (nodes_by_kind g ''FunctionDecl'')"

subsection \<open>Rules 14.1, 16.7, 16.1 and 14.3: queries of the classifiers\<close>

definition rule_14_1_metadata :: rule_metadata where
  "rule_14_1_metadata = \<lparr>
     md_rule_id = ''misra-c2012-rule-14-1'',
     md_rule_number = ''14.1'',
     md_standard = MISRA_C_2012,
     md_category = REQUIRED,
     md_severity = MAJOR,
     md_title = ''A loop counter shall not have essentially floating type'',
     md_description = ''A for-loop counter variable shall not have essentially floating type.'',
     md_rationale = ''Floating loop counters accumulate rounding error and make termination unpredictable.'',
     md_tags = [''control-flow'', ''loops'', ''essential-types''],
     md_references = [''MISRA C:2012 Rule 14.1''],
     md_plugin_module = ''misra_platform_rules.standards.misra_c_2012.rules.rule_pack_control_flow'',
     md_plugin_version = ''0.1.0'',
     md_requires_ast_nodes = [''ForStmt''],
     md_implementation_category = B_TYPE_SYSTEM,
     md_rule_pack = Some CONTROL_FLOW,
     md_requires_type_info = True,
     md_requires_cfg = False,
     md_requires_dataflow = False,
     md_requires_linkage = False,
     md_requires_macro_expansion = False,
     md_rule_dependencies = []\<rparr>"

definition rule_14_1_finding :: "ast_node \<Rightarrow> finding" where
  "rule_14_1_finding n = \<lparr>
     fd_explanation = ''Loop counter has essentially floating type.'',
     fd_risk_description = ''Floating loop counters make termination analysis unreliable.'',
     fd_confidence_factors = factors 88 85 90 10 45,
     fd_confidence_score = dec2 85,
     fd_suggested_fix = Some \<lparr>sf_original_code = offending_text n,
       sf_suggested_code = ''use an integer loop counter'',
       sf_rationale = ''Loop counters shall have integer essential type.'',
       sf_confidence_score = dec2 45\<rparr>\<rparr>"

definition rule_14_1_findings :: "ast_graph \<Rightarrow> (ast_node \<times> finding) list" where
  "rule_14_1_findings g =
     report_where (loop_counter_is_floating g) rule_14_1_finding (nodes_by_kind g ''ForStmt'')"

definition rule_16_7_metadata :: rule_metadata where
  "rule_16_7_metadata = \<lparr>
     md_rule_id = ''misra-c2012-rule-16-7'',
     md_rule_number = ''16.7'',
     md_standard = MISRA_C_2012,
     md_category = REQUIRED,
     md_severity = MAJOR,
     md_title = ''A switch-expression shall not have essentially Boolean type'',
     md_description = ''The controlling expression of a switch statement shall not have essentially Boolean type.'',
     md_rationale = ''Boolean switch expressions usually indicate a design error (if/else is clearer).'',
     md_tags = [''control-flow'', ''switch'', ''essential-types''],
     md_references = [''MISRA C:2012 Rule 16.7''],
     md_plugin_module = ''misra_platform_rules.standards.misra_c_2012.rules.rule_pack_control_flow'',
     md_plugin_version = ''0.1.0'',
     md_requires_ast_nodes = [''SwitchStmt''],
     md_implementation_category = B_TYPE_SYSTEM,
     md_rule_pack = Some CONTROL_FLOW,
     md_requires_type_info = True,
     md_requires_cfg = False,
     md_requires_dataflow = False,
     md_requires_linkage = False,
     md_requires_macro_expansion = False,
     md_rule_dependencies = []\<rparr>"

definition rule_16_7_finding :: "ast_node \<Rightarrow> finding" where
  "rule_16_7_finding n = \<lparr>
     fd_explanation = ''Switch controlling expression has essentially Boolean type.'',
     fd_risk_description = ''Boolean switch expressions are usually better expressed as if/else.'',
     fd_confidence_factors = factors 90 85 90 10 50,
     fd_confidence_score = dec2 85,
     fd_suggested_fix = Some \<lparr>sf_original_code = offending_text n,
       sf_suggested_code = ''replace the switch with an if/else on the Boolean expression'',
       sf_rationale = ''Use if/else for essentially Boolean conditions.'',
       sf_confidence_score = dec2 50\<rparr>\<rparr>"

definition rule_16_7_findings :: "ast_graph \<Rightarrow> (ast_node \<times> finding) list" where
  "rule_16_7_findings g =
     report_where (switch_condition_is_boolean g) rule_16_7_finding (nodes_by_kind g ''SwitchStmt'')"

definition rule_16_1_metadata :: rule_metadata where
  "rule_16_1_metadata = \<lparr>
     md_rule_id = ''misra-c2012-rule-16-1'',
     md_rule_number = ''16.1'',
     md_standard = MISRA_C_2012,
     md_category = REQUIRED,
     md_severity = MAJOR,
     md_title = ''All switch statements shall be well-formed'',
     md_description = ''Every switch statement shall have a compound-statement body with at least one switch clause.'',
     md_rationale = ''A malformed switch hides control-flow structure and is easy to misread during review.'',
     md_tags = [''control-flow'', ''switch'', ''cfg''],
     md_references = [''MISRA C:2012 Rule 16.1''],
     md_plugin_module = ''misra_platform_rules.standards.misra_c_2012.rules.rule_pack_control_flow'',
     md_plugin_version = ''0.1.0'',
     md_requires_ast_nodes = [''SwitchStmt''],
     md_implementation_category = C_CONTROL_FLOW,
     md_rule_pack = Some CONTROL_FLOW,
     md_requires_type_info = False,
     md_requires_cfg = True,
     md_requires_dataflow = False,
     md_requires_linkage = False,
     md_requires_macro_expansion = False,
     md_rule_dependencies = []\<rparr>"

definition rule_16_1_finding :: "ast_node \<Rightarrow> finding" where
  "rule_16_1_finding n = \<lparr>
     fd_explanation = ''Switch statement is not well-formed.'',
     fd_risk_description = ''A switch without a proper compound body or clauses is hard to verify.'',
     fd_confidence_factors = factors 90 85 90 10 50,
     fd_confidence_score = dec2 85,
     fd_suggested_fix = Some \<lparr>sf_original_code = offending_text n,
       sf_suggested_code = ''wrap the switch body in { } and add at least one case/default clause'',
       sf_rationale = ''Give every switch a compound statement body with switch clauses.'',
       sf_confidence_score = dec2 50\<rparr>\<rparr>"

definition rule_16_1_findings :: "ast_graph \<Rightarrow> (ast_node \<times> finding) list" where
  "rule_16_1_findings g =
     report_where (switch_is_malformed g) rule_16_1_finding (nodes_by_kind g ''SwitchStmt'')"

definition rule_14_3_metadata :: rule_metadata where
  "rule_14_3_metadata = \<lparr>
     md_rule_id = ''misra-c2012-rule-14-3'',
     md_rule_number = ''14.3'',
     md_standard = MISRA_C_2012,
     md_category = REQUIRED,
     md_severity = MAJOR,
     md_title = ''Controlling expressions shall not be invariant'',
     md_description = ''The controlling expression of an if/iteration statement shall not be invariant.'',
     md_rationale = ''An invariant controlling expression makes the branch or loop dead or unconditional.'',
     md_tags = [''control-flow'', ''dataflow''],
     md_references = [''MISRA C:2012 Rule 14.3''],
     md_plugin_module = ''misra_platform_rules.standards.misra_c_2012.rules.rule_pack_control_flow'',
     md_plugin_version = ''0.1.0'',
     md_requires_ast_nodes = [''IfStmt'', ''WhileStmt'', ''ForStmt''],
     md_implementation_category = D_DATA_FLOW,
     md_rule_pack = Some CONTROL_FLOW,
     md_requires_type_info = False,
     md_requires_cfg = True,
     md_requires_dataflow = False,
     md_requires_linkage = False,
     md_requires_macro_expansion = False,
     md_rule_dependencies = []\<rparr>"

definition rule_14_3_finding :: "finding" where
  "rule_14_3_finding = \<lparr>
     fd_explanation = ''Controlling expression is invariant on every execution.'',
     fd_risk_description = ''Invariant conditions hide unreachable or unconditional control flow.'',
     fd_confidence_factors = factors 85 80 85 15 35,
     fd_confidence_score = dec2 78,
     fd_suggested_fix = None\<rparr>"

definition rule_14_3_findings :: "ast_graph \<Rightarrow> (ast_node \<times> finding) list" where
  "rule_14_3_findings g =
     report_where (controlling_expression_invariant g) (\<lambda>n. rule_14_3_finding)
       (nodes_by_kinds g [''IfStmt'', ''WhileStmt'', ''ForStmt''])"


subsection \<open>Rule 15.5: a single exit\<close>

definition rule_15_5_metadata :: rule_metadata where
  "rule_15_5_metadata = \<lparr>
     md_rule_id = ''misra-c2012-rule-15-5'',
     md_rule_number = ''15.5'',
     md_standard = MISRA_C_2012,
     md_category = ADVISORY,
     md_severity = MINOR,
     md_title = ''A function should have a single point of exit at the end'',
     md_description = ''Functions should contain a single return at the end of the function body.'',
     md_rationale = ''Multiple exit points complicate control-flow reasoning and testing.'',
     md_tags = [''control-flow'', ''functions''],
     md_references = [''MISRA C:2012 Rule 15.5''],
     md_plugin_module = ''misra_platform_rules.standards.misra_c_2012.rules.rule_15_5'',
     md_plugin_version = ''0.1.0'',
     md_requires_ast_nodes = [''FunctionDecl'', ''ReturnStmt''],
     md_implementation_category = A_AST_ONLY,
     md_rule_pack = None,
     md_requires_type_info = False,
     md_requires_cfg = False,
     md_requires_dataflow = False,
     md_requires_linkage = False,
     md_requires_macro_expansion = False,
     md_rule_dependencies = []\<rparr>"

definition rule_15_5_finding :: "string \<Rightarrow> string \<Rightarrow> finding" where
  "rule_15_5_finding name count_txt = \<lparr>
     fd_explanation = ''Function '' @ sq @ name @ sq @ '' has '' @ count_txt @ '' return statements; a single exit point is recommended.'',
     fd_risk_description = ''Multiple exits increase cyclomatic complexity and review burden.'',
     fd_confidence_factors = factors 98 95 98 25 50,
     fd_confidence_score = dec2 84,
     fd_suggested_fix = Some \<lparr>sf_original_code = ''function '' @ name,
       sf_suggested_code = ''refactor to single return at end of function'',
       sf_rationale = ''Consolidate exit logic to improve maintainability.'',
       sf_confidence_score = dec2 50\<rparr>\<rparr>"

definition rule_15_5_findings :: "ast_graph \<Rightarrow> (ast_node \<times> finding) list option" where
  "rule_15_5_findings g =
     opt_concat_map (\<lambda>n.
        case find (\<lambda>c. node_kind c = ''CompoundStmt'') (children g (node_id n)) of
          None \<Rightarrow> Some []
        | Some body \<Rightarrow> map_option (\<lambda>ds.
              let return_stmts = filter (\<lambda>d. node_kind d = ''ReturnStmt'') ds in
              if length return_stmts \<le> 1 then []
              else [(n, rule_15_5_finding (sem_name n ''<anonymous>'') (nat_str (length return_stmts)))])
            (descendants g (node_id body)))
      (nodes_by_kind g ''FunctionDecl'')"

subsection \<open>The pack\<close>

definition rule_15_5_plugin :: rule_plugin where
  "rule_15_5_plugin = loop_rule rule_15_5_metadata (\<lambda>d ctx g. rule_15_5_findings g)"

definition control_flow_pack :: "rule_plugin list" where
  "control_flow_pack =
     [loop_rule rule_2_1_metadata (\<lambda>d ctx g. rule_2_1_findings d g),
      scan_rule rule_15_1_metadata (\<lambda>ctx g. rule_15_1_findings g),
      scan_rule rule_15_6_metadata (\<lambda>ctx g. rule_15_6_findings g),
      scan_rule rule_16_3_metadata (\<lambda>ctx g. rule_16_3_findings g),
      loop_rule rule_16_4_metadata (\<lambda>d ctx g. rule_16_4_findings g),
      loop_rule rule_16_6_metadata (\<lambda>d ctx g. rule_16_6_findings g),
      scan_rule rule_16_2_metadata (\<lambda>ctx g. rule_16_2_findings g),
      scan_rule rule_16_5_metadata (\<lambda>ctx g. rule_16_5_findings g),
      loop_rule rule_17_4_metadata (\<lambda>d ctx g. rule_17_4_findings d g),
      loop_rule rule_15_4_metadata (\<lambda>d ctx g. rule_15_4_findings d g),
      loop_rule rule_15_2_metadata (\<lambda>d ctx g. rule_15_2_findings g),
      loop_rule rule_15_3_metadata (\<lambda>d ctx g. rule_15_3_findings g),
      loop_rule rule_15_7_metadata (\<lambda>d ctx g. rule_15_7_findings g),
      scan_rule rule_14_2_metadata (\<lambda>ctx g. rule_14_2_findings g),
      loop_rule rule_2_6_metadata (\<lambda>d ctx g. rule_2_6_findings g),
      scan_rule rule_14_1_metadata (\<lambda>ctx g. rule_14_1_findings g),
      scan_rule rule_16_7_metadata (\<lambda>ctx g. rule_16_7_findings g),
      scan_rule rule_16_1_metadata (\<lambda>ctx g. rule_16_1_findings g),
      scan_rule rule_14_3_metadata (\<lambda>ctx g. rule_14_3_findings g)]"

end
