(* ===== verification/Pack_Types.thy ===== *)
theory Pack_Types
  imports Rule_Base Dataflow Cfg_Build Alias
begin

text \<open>
  The essential-type pack (\<open>rule_pack_essential_types.py\<close>), the conversions pack
  (\<open>rule_pack_conversions.py\<close>), the initialization pack (\<open>rule_pack_initialization.py\<close>), the
  storage-duration pack (\<open>rule_pack_storage_duration.py\<close>) and Rules 10.1, 10.3 and 11.8
  (\<open>rule_10_1.py\<close>, \<open>rule_10_3.py\<close>, \<open>rule_11_8.py\<close>), in the shape of Pack\_Control.
\<close>


subsection \<open>Rules 10.1 and 10.3\<close>

definition inappropriate_pairs :: "(etype \<times> etype) list" where
  "inappropriate_pairs =
     [(''boolean'', ''signed_char''), (''boolean'', ''unsigned_char''),
      (''boolean'', ''signed_short''), (''boolean'', ''unsigned_short''),
      (''boolean'', ''signed_int''), (''boolean'', ''unsigned_int''),
      (''boolean'', ''signed_long''), (''boolean'', ''unsigned_long''),
      (''boolean'', ''float''), (''boolean'', ''double''),
      (''signed_char'', ''unsigned_char''), (''signed_short'', ''unsigned_short''),
      (''signed_int'', ''unsigned_int''), (''signed_long'', ''unsigned_long''),
      (''signed_long_long'', ''unsigned_long_long'')]"

definition rule_10_1_metadata :: rule_metadata where
  "rule_10_1_metadata = \<lparr>
     md_rule_id = ''misra-c2012-rule-10-1'',
     md_rule_number = ''10.1'',
     md_standard = MISRA_C_2012,
     md_category = REQUIRED,
     md_severity = MAJOR,
     md_title = ''Operands shall not be of an inappropriate essential type'',
     md_description = ''Operands of operators shall not use essential types in inappropriate combinations.'',
     md_rationale = ''Essential type category mismatches are a common source of embedded defects.'',
     md_tags = [''essential-types'', ''operators''],
     md_references = [''MISRA C:2012 Rule 10.1''],
     md_plugin_module = ''misra_platform_rules.standards.misra_c_2012.rules.rule_10_1'',
     md_plugin_version = ''0.1.0'',
     md_requires_ast_nodes = [''BinaryOperator''],
     md_implementation_category = A_AST_ONLY,
     md_rule_pack = None,
     md_requires_type_info = False,
     md_requires_cfg = False,
     md_requires_dataflow = False,
     md_requires_linkage = False,
     md_requires_macro_expansion = False,
     md_rule_dependencies = []\<rparr>"

definition rule_10_1_finding :: "string \<Rightarrow> string \<Rightarrow> ast_node \<Rightarrow> finding" where
  "rule_10_1_finding left_type right_type n = \<lparr>
     fd_explanation = ''Binary operation combines essential types '' @ sq @ left_type @ sq @ '' and '' @ sq @ right_type @ sq @ '' in an inappropriate category pairing.'',
     fd_risk_description = ''Implicit conversions between essential categories may change value semantics.'',
     fd_confidence_factors = factors 90 85 95 15 70,
     fd_confidence_score = dec2 88,
     fd_suggested_fix = Some \<lparr>sf_original_code = offending_text n,
       sf_suggested_code = ''cast operands to a common essential type category'',
       sf_rationale = ''Normalize operand essential types before evaluation.'',
       sf_confidence_score = dec2 70\<rparr>\<rparr>"

definition rule_10_1_findings :: "ast_graph \<Rightarrow> (ast_node \<times> finding) list" where
  "rule_10_1_findings g =
     report_some (\<lambda>n. case first_two g n of
         None \<Rightarrow> None
       | Some (a, b) \<Rightarrow>
           (let left_type = ess_type a; right_type = ess_type b in
            if left_type = ''unknown'' \<or> right_type = ''unknown'' then None
            else if (left_type, right_type) \<notin> set inappropriate_pairs
                    \<and> (right_type, left_type) \<notin> set inappropriate_pairs then None
            else Some (rule_10_1_finding left_type right_type n)))
       (nodes_by_kind g ''BinaryOperator'')"


definition rule_10_3_metadata :: rule_metadata where
  "rule_10_3_metadata = \<lparr>
     md_rule_id = ''misra-c2012-rule-10-3'',
     md_rule_number = ''10.3'',
     md_standard = MISRA_C_2012,
     md_category = REQUIRED,
     md_severity = MAJOR,
     md_title = ''Value shall not be assigned to an object with a narrower essential type'',
     md_description = ''The value of an expression shall not be assigned to an object with a narrower essential type.'',
     md_rationale = ''Narrowing assignments can silently truncate values in embedded systems.'',
     md_tags = [''essential-types'', ''assignment''],
     md_references = [''MISRA C:2012 Rule 10.3''],
     md_plugin_module = ''misra_platform_rules.standards.misra_c_2012.rules.rule_10_3'',
     md_plugin_version = ''0.1.0'',
     md_requires_ast_nodes = [''BinaryOperator'', ''VarDecl''],
     md_implementation_category = A_AST_ONLY,
     md_rule_pack = None,
     md_requires_type_info = False,
     md_requires_cfg = False,
     md_requires_dataflow = False,
     md_requires_linkage = False,
     md_requires_macro_expansion = False,
     md_rule_dependencies = []\<rparr>"

definition rule_10_3_finding_a :: "string \<Rightarrow> string \<Rightarrow> ast_node \<Rightarrow> finding" where
  "rule_10_3_finding_a rhs_type lhs_type n = \<lparr>
     fd_explanation = ''Assignment from essential type '' @ sq @ rhs_type @ sq @ '' to narrower essential type '' @ sq @ lhs_type @ sq @ ''.'',
     fd_risk_description = ''Value truncation or wrap-around may occur without diagnostic.'',
     fd_confidence_factors = factors 92 88 90 10 75,
     fd_confidence_score = dec2 90,
     fd_suggested_fix = Some \<lparr>sf_original_code = offending_text n,
       sf_suggested_code = ''cast expression to '' @ lhs_type @ '' explicitly'',
       sf_rationale = ''Use an explicit cast to document intentional narrowing.'',
       sf_confidence_score = dec2 75\<rparr>\<rparr>"

definition rule_10_3_finding_b :: "string \<Rightarrow> string \<Rightarrow> ast_node \<Rightarrow> finding" where
  "rule_10_3_finding_b rhs_type lhs_type n = \<lparr>
     fd_explanation = ''Initializer of essential type '' @ sq @ rhs_type @ sq @ '' assigned to narrower essential type '' @ sq @ lhs_type @ sq @ ''.'',
     fd_risk_description = ''Initializer narrowing may truncate constant values.'',
     fd_confidence_factors = factors 88 85 90 12 70,
     fd_confidence_score = dec2 86,
     fd_suggested_fix = Some \<lparr>sf_original_code = offending_text n,
       sf_suggested_code = ''cast initializer to '' @ lhs_type,
       sf_rationale = ''Document intentional narrowing at initialization.'',
       sf_confidence_score = dec2 70\<rparr>\<rparr>"

definition init_children :: "ast_graph \<Rightarrow> ast_node \<Rightarrow> ast_node list" where
  "init_children g n =
     filter (\<lambda>c. node_kind c \<notin> {''BuiltinType'', ''RecordType'', ''PointerType''}) (children g (node_id n))"

definition rule_10_3_findings :: "ast_graph \<Rightarrow> (ast_node \<times> finding) list" where
  "rule_10_3_findings g =
     report_some (\<lambda>n.
         if sem_str n ''opcode'' \<noteq> ''='' then None
         else case first_two g n of
           None \<Rightarrow> None
         | Some (a, b) \<Rightarrow>
             (let lhs_type = ess_type a; rhs_type = ess_type b in
              if lhs_type = ''unknown'' \<or> rhs_type = ''unknown'' then None
              else if essential_type_rank rhs_type > essential_type_rank lhs_type
                then Some (rule_10_3_finding_a rhs_type lhs_type n)
              else None))
       (nodes_by_kind g ''BinaryOperator'')
     @ report_some (\<lambda>n. case init_children g n of
           [] \<Rightarrow> None
         | c # _ \<Rightarrow>
             (let lhs_type = ess_type n; rhs_type = ess_type c in
              if lhs_type = ''unknown'' \<or> rhs_type = ''unknown'' then None
              else if essential_type_rank rhs_type > essential_type_rank lhs_type
                then Some (rule_10_3_finding_b rhs_type lhs_type n)
              else None))
       (nodes_by_kind g ''VarDecl'')"


subsection \<open>Rule 11.8\<close>

definition rule_11_8_metadata :: rule_metadata where
  "rule_11_8_metadata = \<lparr>
     md_rule_id = ''misra-c2012-rule-11-8'',
     md_rule_number = ''11.8'',
     md_standard = MISRA_C_2012,
     md_category = REQUIRED,
     md_severity = MAJOR,
     md_title = ''Pointer cast shall not remove const or volatile qualification'',
     md_description = ''A cast shall not remove any const or volatile qualification from the type addressed by a pointer.'',
     md_rationale = ''Removing qualifiers enables modification of read-only or volatile data.'',
     md_tags = [''pointers'', ''casts'', ''qualifiers''],
     md_references = [''MISRA C:2012 Rule 11.8''],
     md_plugin_module = ''misra_platform_rules.standards.misra_c_2012.rules.rule_11_8'',
     md_plugin_version = ''0.1.0'',
     md_requires_ast_nodes = [''CStyleCastExpr'', ''ImplicitCastExpr''],
     md_implementation_category = A_AST_ONLY,
     md_rule_pack = None,
     md_requires_type_info = False,
     md_requires_cfg = False,
     md_requires_dataflow = False,
     md_requires_linkage = False,
     md_requires_macro_expansion = False,
     md_rule_dependencies = []\<rparr>"

definition rule_11_8_finding :: "string \<Rightarrow> ast_node \<Rightarrow> finding" where
  "rule_11_8_finding removed_txt n = \<lparr>
     fd_explanation = ''Cast removes qualifier(s) '' @ removed_txt @ '' from the addressed type.'',
     fd_risk_description = ''Qualified data may be modified through an unqualified pointer.'',
     fd_confidence_factors = factors 95 90 92 8 65,
     fd_confidence_score = dec2 91,
     fd_suggested_fix = Some \<lparr>sf_original_code = offending_text n,
       sf_suggested_code = ''preserve const/volatile in target pointer type'',
       sf_rationale = ''Avoid casts that strip type qualifiers from pointed-to types.'',
       sf_confidence_score = dec2 65\<rparr>\<rparr>"

definition rule_11_8_findings :: "ast_graph \<Rightarrow> (ast_node \<times> finding) list" where
  "rule_11_8_findings g =
     report_some (\<lambda>n.
         if \<not> sem_flag n ''removes_qualifier'' then None
         else if \<not> sem_flag n ''removed_qualifiers'' then None
         else Some (rule_11_8_finding (py_str (prop_get (semantic_properties n) ''removed_qualifiers'')) n))
       (nodes_by_kinds g [''CStyleCastExpr'', ''ImplicitCastExpr''])"


subsection \<open>Rules 10.2, 6.1 and 6.2\<close>

definition rule_10_2_metadata :: rule_metadata where
  "rule_10_2_metadata = \<lparr>
     md_rule_id = ''misra-c2012-rule-10-2'',
     md_rule_number = ''10.2'',
     md_standard = MISRA_C_2012,
     md_category = REQUIRED,
     md_severity = MAJOR,
     md_title = ''Character-typed expressions shall not be used inappropriately in +/-'',
     md_description = ''Expressions of essentially character type shall not be used inappropriately in addition and subtraction operations.'',
     md_rationale = ''Mixing character and non-character essential types in arithmetic hides intent and risks locale/encoding-dependent behaviour.'',
     md_tags = [''essential-types'', ''character-arithmetic''],
     md_references = [''MISRA C:2012 Rule 10.2''],
     md_plugin_module = ''misra_platform_rules.standards.misra_c_2012.rules.rule_pack_essential_types'',
     md_plugin_version = ''0.1.0'',
     md_requires_ast_nodes = [''BinaryOperator''],
     md_implementation_category = B_TYPE_SYSTEM,
     md_rule_pack = Some ESSENTIAL_TYPES,
     md_requires_type_info = True,
     md_requires_cfg = False,
     md_requires_dataflow = False,
     md_requires_linkage = False,
     md_requires_macro_expansion = False,
     md_rule_dependencies = []\<rparr>"

definition rule_10_2_finding :: "string \<Rightarrow> string \<Rightarrow> ast_node \<Rightarrow> finding" where
  "rule_10_2_finding other_type opcode n = \<lparr>
     fd_explanation = ''Character-typed operand combined with essential type '' @ sq @ other_type @ sq @ '' via '' @ sq @ opcode @ sq @ ''.'',
     fd_risk_description = ''Character arithmetic mixed with non-character types is often unintended.'',
     fd_confidence_factors = factors 85 85 92 20 55,
     fd_confidence_score = dec2 80,
     fd_suggested_fix = Some \<lparr>sf_original_code = offending_text n,
       sf_suggested_code = ''cast the character operand explicitly before the arithmetic operation'',
       sf_rationale = ''Make the intended numeric interpretation of the character explicit.'',
       sf_confidence_score = dec2 55\<rparr>\<rparr>"

definition rule_10_2_findings :: "ast_graph \<Rightarrow> (ast_node \<times> finding) list" where
  "rule_10_2_findings g =
     report_some (\<lambda>n.
         let opcode = sem_str n ''opcode'' in
         if opcode \<notin> {''+'', ''-''} then None
         else case first_two g n of
           None \<Rightarrow> None
         | Some (a, b) \<Rightarrow>
             (let left_type = ess_type a; right_type = ess_type b;
                  is_char_pair = (left_type = ''char'' \<and> right_type = ''char'');
                  involves_char = (left_type = ''char'' \<or> right_type = ''char'') in
              if \<not> involves_char \<or> is_char_pair then None
              else Some (rule_10_2_finding (if left_type = ''char'' then right_type else left_type) opcode n)))
       (nodes_by_kind g ''BinaryOperator'')"

definition rule_6_1_metadata :: rule_metadata where
  "rule_6_1_metadata = \<lparr>
     md_rule_id = ''misra-c2012-rule-6-1'',
     md_rule_number = ''6.1'',
     md_standard = MISRA_C_2012,
     md_category = REQUIRED,
     md_severity = MAJOR,
     md_title = ''Bit-fields shall only be declared as explicit unsigned or signed int'',
     md_description = ''A bit-field shall have type signed int or unsigned int only.'',
     md_rationale = ''Other bit-field base types have implementation-defined behaviour.'',
     md_tags = [''essential-types'', ''bit-fields''],
     md_references = [''MISRA C:2012 Rule 6.1''],
     md_plugin_module = ''misra_platform_rules.standards.misra_c_2012.rules.rule_pack_essential_types'',
     md_plugin_version = ''0.1.0'',
     md_requires_ast_nodes = [''FieldDecl''],
     md_implementation_category = B_TYPE_SYSTEM,
     md_rule_pack = Some ESSENTIAL_TYPES,
     md_requires_type_info = True,
     md_requires_cfg = False,
     md_requires_dataflow = False,
     md_requires_linkage = False,
     md_requires_macro_expansion = False,
     md_rule_dependencies = []\<rparr>"

definition rule_6_1_finding :: "string \<Rightarrow> string \<Rightarrow> ast_node \<Rightarrow> finding" where
  "rule_6_1_finding name detail n = \<lparr>
     fd_explanation = ''Bit-field '' @ sq @ name @ sq @ '' has '' @ detail @ ''.'',
     fd_risk_description = ''Only signed int and unsigned int bit-fields are permitted.'',
     fd_confidence_factors = factors 92 88 95 8 55,
     fd_confidence_score = dec2 88,
     fd_suggested_fix = Some \<lparr>sf_original_code = offending_text n,
       sf_suggested_code = ''declare '' @ sq @ name @ sq @ '' as a signed int or unsigned int bit-field'',
       sf_rationale = ''Restrict bit-fields to explicit signed/unsigned int types.'',
       sf_confidence_score = dec2 55\<rparr>\<rparr>"

definition rule_6_1_findings :: "ast_graph \<Rightarrow> (ast_node \<times> finding) list" where
  "rule_6_1_findings g =
     report_some (\<lambda>n.
         let name = sem_name n ''<field>''; category = sem_str n ''bit_field_type_category'' in
         if sem_meta_true n ''invalid_bit_field_type'' then Some (rule_6_1_finding name ''invalid bit-field base type'' n)
         else if \<not> sem_meta_true n ''is_bit_field'' then None
         else if category \<in> {''signed_int'', ''unsigned_int''} then None
         else Some (rule_6_1_finding name
                (''bit-field base category '' @ sq @ category @ sq @ '' is not signed/unsigned int'') n))
       (nodes_by_kind g ''FieldDecl'')"

text \<open>\<open>width != 1 and width != "1"\<close>; \<open>True == 1\<close> in Python.\<close>

definition is_width_one :: "pyval \<Rightarrow> bool" where
  "is_width_one v \<longleftrightarrow> v = PInt 1 \<or> v = PBool True \<or> v = PStr ''1''"

definition rule_6_2_metadata :: rule_metadata where
  "rule_6_2_metadata = \<lparr>
     md_rule_id = ''misra-c2012-rule-6-2'',
     md_rule_number = ''6.2'',
     md_standard = MISRA_C_2012,
     md_category = REQUIRED,
     md_severity = MAJOR,
     md_title = ''Single-bit named bit-fields shall not be of a signed type'',
     md_description = ''A named bit-field of width 1 shall not have signed type.'',
     md_rationale = ''Single-bit signed bit-fields have implementation-defined representation.'',
     md_tags = [''essential-types'', ''bit-fields''],
     md_references = [''MISRA C:2012 Rule 6.2''],
     md_plugin_module = ''misra_platform_rules.standards.misra_c_2012.rules.rule_pack_essential_types'',
     md_plugin_version = ''0.1.0'',
     md_requires_ast_nodes = [''FieldDecl''],
     md_implementation_category = B_TYPE_SYSTEM,
     md_rule_pack = Some ESSENTIAL_TYPES,
     md_requires_type_info = True,
     md_requires_cfg = False,
     md_requires_dataflow = False,
     md_requires_linkage = False,
     md_requires_macro_expansion = False,
     md_rule_dependencies = []\<rparr>"

definition rule_6_2_finding :: "string \<Rightarrow> ast_node \<Rightarrow> finding" where
  "rule_6_2_finding name n = \<lparr>
     fd_explanation = ''Single-bit bit-field '' @ sq @ name @ sq @ '' is declared with signed type.'',
     fd_risk_description = ''Single-bit signed bit-fields are implementation-defined.'',
     fd_confidence_factors = factors 95 90 95 5 60,
     fd_confidence_score = dec2 90,
     fd_suggested_fix = Some \<lparr>sf_original_code = offending_text n,
       sf_suggested_code = ''declare '' @ sq @ name @ sq @ '' as unsigned int : 1'',
       sf_rationale = ''Use unsigned int for single-bit bit-fields.'',
       sf_confidence_score = dec2 60\<rparr>\<rparr>"

definition rule_6_2_findings :: "ast_graph \<Rightarrow> (ast_node \<times> finding) list" where
  "rule_6_2_findings g =
     report_where (\<lambda>n. is_width_one (prop_get (semantic_properties n) ''bit_field_width'')
         \<and> sem_meta_true n ''bit_field_is_signed'')
       (\<lambda>n. rule_6_2_finding (sem_name n ''<field>'') n) (nodes_by_kind g ''FieldDecl'')"


subsection \<open>The conversions pack\<close>

definition conversion_opcodes :: "string list" where
  "conversion_opcodes = [''+'', ''-'', ''*'', ''/'', ''%'']"

definition rule_10_4_metadata :: rule_metadata where
  "rule_10_4_metadata = \<lparr>
     md_rule_id = ''misra-c2012-rule-10-4'',
     md_rule_number = ''10.4'',
     md_standard = MISRA_C_2012,
     md_category = REQUIRED,
     md_severity = MAJOR,
     md_title = ''Operands of an arithmetic operator shall have the same essential type category'',
     md_description = ''Both operands of an operator in which the usual arithmetic conversions are performed shall have the same essential type category.'',
     md_rationale = ''Cross-category arithmetic conversions can silently change value semantics.'',
     md_tags = [''essential-types'', ''conversions''],
     md_references = [''MISRA C:2012 Rule 10.4''],
     md_plugin_module = ''misra_platform_rules.standards.misra_c_2012.rules.rule_pack_conversions'',
     md_plugin_version = ''0.1.0'',
     md_requires_ast_nodes = [''BinaryOperator''],
     md_implementation_category = B_TYPE_SYSTEM,
     md_rule_pack = Some CONVERSIONS,
     md_requires_type_info = True,
     md_requires_cfg = False,
     md_requires_dataflow = False,
     md_requires_linkage = False,
     md_requires_macro_expansion = False,
     md_rule_dependencies = []\<rparr>"

definition rule_10_4_finding :: "string \<Rightarrow> string \<Rightarrow> string \<Rightarrow> ast_node \<Rightarrow> finding" where
  "rule_10_4_finding opcode left_category right_category n = \<lparr>
     fd_explanation = ''Operator '' @ sq @ opcode @ sq @ '' combines essential type categories '' @ sq @ left_category @ sq @ '' and '' @ sq @ right_category @ sq @ ''.'',
     fd_risk_description = ''Usual arithmetic conversions across categories can lose sign/precision.'',
     fd_confidence_factors = factors 88 85 90 15 60,
     fd_confidence_score = dec2 83,
     fd_suggested_fix = Some \<lparr>sf_original_code = offending_text n,
       sf_suggested_code = ''cast one operand to match the other'' @ sq @ ''s essential type category'',
       sf_rationale = ''Make the intended common essential type explicit.'',
       sf_confidence_score = dec2 60\<rparr>\<rparr>"

definition rule_10_4_findings :: "ast_graph \<Rightarrow> (ast_node \<times> finding) list" where
  "rule_10_4_findings g =
     report_some (\<lambda>n.
         if sem_str n ''opcode'' \<notin> set conversion_opcodes then None
         else case first_two g n of
           None \<Rightarrow> None
         | Some (a, b) \<Rightarrow>
             (let left = ess_type a; right = ess_type b in
              if left = ''unknown'' \<or> right = ''unknown'' then None
              else if category left = category right then None
              else Some (rule_10_4_finding (sem_str n ''opcode'') (category left) (category right) n)))
       (nodes_by_kind g ''BinaryOperator'')"

definition rule_10_5_metadata :: rule_metadata where
  "rule_10_5_metadata = \<lparr>
     md_rule_id = ''misra-c2012-rule-10-5'',
     md_rule_number = ''10.5'',
     md_standard = MISRA_C_2012,
     md_category = ADVISORY,
     md_severity = MINOR,
     md_title = ''A cast should not change the essential type category of an expression'',
     md_description = ''A cast should not be used to change the essential type category of an expression.'',
     md_rationale = ''Category-changing casts often mask a design error rather than express intent.'',
     md_tags = [''essential-types'', ''casts''],
     md_references = [''MISRA C:2012 Rule 10.5''],
     md_plugin_module = ''misra_platform_rules.standards.misra_c_2012.rules.rule_pack_conversions'',
     md_plugin_version = ''0.1.0'',
     md_requires_ast_nodes = [''CStyleCastExpr''],
     md_implementation_category = B_TYPE_SYSTEM,
     md_rule_pack = Some CONVERSIONS,
     md_requires_type_info = True,
     md_requires_cfg = False,
     md_requires_dataflow = False,
     md_requires_linkage = False,
     md_requires_macro_expansion = False,
     md_rule_dependencies = []\<rparr>"

definition rule_10_5_finding :: "string \<Rightarrow> string \<Rightarrow> ast_node \<Rightarrow> finding" where
  "rule_10_5_finding source_category target_category n = \<lparr>
     fd_explanation = ''Cast changes essential type category from '' @ sq @ source_category @ sq @ '' to '' @ sq @ target_category @ sq @ ''.'',
     fd_risk_description = ''Category-changing casts frequently indicate an underlying design issue.'',
     fd_confidence_factors = factors 80 80 88 25 40,
     fd_confidence_score = dec2 72,
     fd_suggested_fix = Some \<lparr>sf_original_code = offending_text n,
       sf_suggested_code = ''reconsider whether a category-changing cast is truly intended'',
       sf_rationale = ''Review the design rationale for crossing essential type categories.'',
       sf_confidence_score = dec2 40\<rparr>\<rparr>"

definition rule_10_5_findings :: "ast_graph \<Rightarrow> (ast_node \<times> finding) list" where
  "rule_10_5_findings g =
     report_some (\<lambda>n.
         if \<not> is_explicit_cast n then None
         else case first_child g n of
           None \<Rightarrow> None
         | Some operand \<Rightarrow>
             (let target = ess_type n; source = ess_type operand in
              if target = ''unknown'' \<or> source = ''unknown'' then None
              else if category target = category source then None
              else Some (rule_10_5_finding (category source) (category target) n)))
       (nodes_by_kind g ''CStyleCastExpr'')"

definition rule_10_7_metadata :: rule_metadata where
  "rule_10_7_metadata = \<lparr>
     md_rule_id = ''misra-c2012-rule-10-7'',
     md_rule_number = ''10.7'',
     md_standard = MISRA_C_2012,
     md_category = REQUIRED,
     md_severity = MAJOR,
     md_title = ''A composite expression'' @ sq @ ''s cast essential type shall match the other operand'' @ sq @ ''s category'',
     md_description = ''If a composite expression is used as one operand of an operator, and the other operand has a different essential type category, an explicit cast on the composite operand shall not introduce a further category mismatch.'',
     md_rationale = ''Casting one side of a mixed-category operation to a third category compounds ambiguity.'',
     md_tags = [''essential-types'', ''conversions'', ''composite-expressions''],
     md_references = [''MISRA C:2012 Rule 10.7''],
     md_plugin_module = ''misra_platform_rules.standards.misra_c_2012.rules.rule_pack_conversions'',
     md_plugin_version = ''0.1.0'',
     md_requires_ast_nodes = [''BinaryOperator'', ''CStyleCastExpr''],
     md_implementation_category = B_TYPE_SYSTEM,
     md_rule_pack = Some CONVERSIONS,
     md_requires_type_info = True,
     md_requires_cfg = False,
     md_requires_dataflow = False,
     md_requires_linkage = False,
     md_requires_macro_expansion = False,
     md_rule_dependencies = []\<rparr>"

definition rule_10_7_finding :: "string \<Rightarrow> string \<Rightarrow> ast_node \<Rightarrow> finding" where
  "rule_10_7_finding cast_category other_category n = \<lparr>
     fd_explanation = ''Composite expression cast to essential category '' @ sq @ cast_category @ sq @ '' is combined with an operand of category '' @ sq @ other_category @ sq @ ''.'',
     fd_risk_description = ''Nested category mismatches on composite expressions are error-prone.'',
     fd_confidence_factors = factors 78 75 85 25 40,
     fd_confidence_score = dec2 70,
     fd_suggested_fix = Some \<lparr>sf_original_code = offending_text n,
       sf_suggested_code = ''align the composite expression'' @ sq @ ''s cast target with the other operand'' @ sq @ ''s category'',
       sf_rationale = ''Reduce ambiguity in mixed-category composite expressions.'',
       sf_confidence_score = dec2 40\<rparr>\<rparr>"

definition composite_cast_finding :: "ast_graph \<Rightarrow> ast_node \<Rightarrow> ast_node \<times> ast_node \<Rightarrow> (ast_node \<times> finding) list" where
  "composite_cast_finding g n sides = (case sides of (cast_side, other_side) \<Rightarrow>
     if \<not> is_cast cast_side then []
     else case first_child g cast_side of
       None \<Rightarrow> []
     | Some operand \<Rightarrow>
         if node_kind operand \<notin> {''BinaryOperator'', ''UnaryOperator''} then []
         else (let cast_target = ess_type cast_side; other_type = ess_type other_side in
               if cast_target = ''unknown'' \<or> other_type = ''unknown'' then []
               else if category cast_target = category other_type then []
               else [(n, rule_10_7_finding (category cast_target) (category other_type) n)]))"

definition rule_10_7_findings :: "ast_graph \<Rightarrow> (ast_node \<times> finding) list" where
  "rule_10_7_findings g =
     concat (map (\<lambda>n. case first_two g n of
         None \<Rightarrow> []
       | Some (a, b) \<Rightarrow> composite_cast_finding g n (a, b) @ composite_cast_finding g n (b, a))
       (nodes_by_kind g ''BinaryOperator''))"

definition rule_7_4_metadata :: rule_metadata where
  "rule_7_4_metadata = \<lparr>
     md_rule_id = ''misra-c2012-rule-7-4'',
     md_rule_number = ''7.4'',
     md_standard = MISRA_C_2012,
     md_category = REQUIRED,
     md_severity = MAJOR,
     md_title = ''A string literal shall not be assigned to an object unless the object'' @ sq @ ''s type is pointer to const-qualified char'',
     md_description = ''A string literal shall only be assigned/initialized to a pointer-to-const-qualified-char object.'',
     md_rationale = ''String literals have a read-only, indeterminate storage duration; writing through them is undefined behaviour.'',
     md_tags = [''conversions'', ''qualifiers'', ''strings''],
     md_references = [''MISRA C:2012 Rule 7.4''],
     md_plugin_module = ''misra_platform_rules.standards.misra_c_2012.rules.rule_pack_conversions'',
     md_plugin_version = ''0.1.0'',
     md_requires_ast_nodes = [''VarDecl'', ''StringLiteral''],
     md_implementation_category = B_TYPE_SYSTEM,
     md_rule_pack = Some CONVERSIONS,
     md_requires_type_info = True,
     md_requires_cfg = False,
     md_requires_dataflow = False,
     md_requires_linkage = False,
     md_requires_macro_expansion = False,
     md_rule_dependencies = []\<rparr>"

definition rule_7_4_finding :: "string \<Rightarrow> finding" where
  "rule_7_4_finding name = \<lparr>
     fd_explanation = ''String literal assigned to '' @ sq @ name @ sq @ '', which is not pointer-to-const-qualified char.'',
     fd_risk_description = ''Writing through a pointer to a string literal is undefined behaviour.'',
     fd_confidence_factors = factors 90 85 90 10 70,
     fd_confidence_score = dec2 85,
     fd_suggested_fix = Some \<lparr>sf_original_code = ''char *'' @ name @ '' = ...;'',
       sf_suggested_code = ''const char *'' @ name @ '' = ...;'',
       sf_rationale = ''Qualify the pointer as const when it points to a string literal.'',
       sf_confidence_score = dec2 70\<rparr>\<rparr>"

definition rule_7_4_findings :: "ast_graph \<Rightarrow> (ast_node \<times> finding) list" where
  "rule_7_4_findings g =
     report_some (\<lambda>n. case init_children g n of
         [] \<Rightarrow> None
       | c # _ \<Rightarrow>
           if node_kind c \<noteq> ''StringLiteral'' then None
           else if is_const n then None
           else Some (rule_7_4_finding (sem_name n ''<unnamed>'')))
       (nodes_by_kind g ''VarDecl'')"

definition rule_11_1_metadata :: rule_metadata where
  "rule_11_1_metadata = \<lparr>
     md_rule_id = ''misra-c2012-rule-11-1'',
     md_rule_number = ''11.1'',
     md_standard = MISRA_C_2012,
     md_category = REQUIRED,
     md_severity = MAJOR,
     md_title = ''Conversions shall not be performed between a pointer to a function and any other type'',
     md_description = ''A cast shall not convert a function pointer to a non-function-pointer type, or vice versa, or to an incompatible function pointer type.'',
     md_rationale = ''Function-pointer conversions are not portable and can produce a pointer that is unsafe to call.'',
     md_tags = [''conversions'', ''pointers'', ''functions''],
     md_references = [''MISRA C:2012 Rule 11.1''],
     md_plugin_module = ''misra_platform_rules.standards.misra_c_2012.rules.rule_pack_conversions'',
     md_plugin_version = ''0.1.0'',
     md_requires_ast_nodes = [''CStyleCastExpr''],
     md_implementation_category = B_TYPE_SYSTEM,
     md_rule_pack = Some CONVERSIONS,
     md_requires_type_info = True,
     md_requires_cfg = False,
     md_requires_dataflow = False,
     md_requires_linkage = False,
     md_requires_macro_expansion = False,
     md_rule_dependencies = []\<rparr>"

definition rule_11_1_finding :: "finding" where
  "rule_11_1_finding = \<lparr>
     fd_explanation = ''Cast converts between a function pointer and an incompatible type.'',
     fd_risk_description = ''Calling through a function pointer converted from an incompatible type is undefined behaviour.'',
     fd_confidence_factors = factors 85 80 88 15 25,
     fd_confidence_score = dec2 78,
     fd_suggested_fix = None\<rparr>"

definition rule_11_1_findings :: "ast_graph \<Rightarrow> (ast_node \<times> finding) list" where
  "rule_11_1_findings g =
     report_some (\<lambda>n. case first_child g n of
         None \<Rightarrow> None
       | Some operand \<Rightarrow>
           (let target_is_function_pointer = contains_str ''('' (ty_str n ''spelling'');
                source_is_function_pointer = contains_str ''('' (ty_str operand ''spelling'');
                violates = (is_function_pointer_cast n operand \<or>
                  target_is_function_pointer \<noteq> source_is_function_pointer
                  \<and> (target_is_function_pointer \<or> source_is_function_pointer)) in
            if \<not> violates then None else Some rule_11_1_finding))
       (nodes_by_kind g ''CStyleCastExpr'')"

definition rule_11_6_metadata :: rule_metadata where
  "rule_11_6_metadata = \<lparr>
     md_rule_id = ''misra-c2012-rule-11-6'',
     md_rule_number = ''11.6'',
     md_standard = MISRA_C_2012,
     md_category = REQUIRED,
     md_severity = MAJOR,
     md_title = ''A cast shall not be performed between pointer to void and an arithmetic type'',
     md_description = ''A cast shall not convert pointer-to-void into an arithmetic type, or vice versa.'',
     md_rationale = ''void*/arithmetic conversions discard the type information the compiler could otherwise check.'',
     md_tags = [''conversions'', ''pointers''],
     md_references = [''MISRA C:2012 Rule 11.6''],
     md_plugin_module = ''misra_platform_rules.standards.misra_c_2012.rules.rule_pack_conversions'',
     md_plugin_version = ''0.1.0'',
     md_requires_ast_nodes = [''CStyleCastExpr''],
     md_implementation_category = B_TYPE_SYSTEM,
     md_rule_pack = Some CONVERSIONS,
     md_requires_type_info = True,
     md_requires_cfg = False,
     md_requires_dataflow = False,
     md_requires_linkage = False,
     md_requires_macro_expansion = False,
     md_rule_dependencies = []\<rparr>"

definition rule_11_6_finding :: "finding" where
  "rule_11_6_finding = \<lparr>
     fd_explanation = ''Cast converts between pointer-to-void and an arithmetic type.'',
     fd_risk_description = ''void*/arithmetic conversions bypass type checking on the value'' @ sq @ ''s true representation.'',
     fd_confidence_factors = factors 85 82 88 15 30,
     fd_confidence_score = dec2 78,
     fd_suggested_fix = None\<rparr>"

definition is_void_pointer :: "ast_node \<Rightarrow> bool" where
  "is_void_pointer n \<longleftrightarrow> is_pointer n \<and> pointee_type n \<in> {''void'', ''const void''}"

definition is_arithmetic_value :: "ast_node \<Rightarrow> bool" where
  "is_arithmetic_value n \<longleftrightarrow> \<not> is_pointer n \<and> ess_type n \<notin> {''unknown'', ''void''}"

definition rule_11_6_findings :: "ast_graph \<Rightarrow> (ast_node \<times> finding) list" where
  "rule_11_6_findings g =
     report_some (\<lambda>n. case first_child g n of
         None \<Rightarrow> None
       | Some operand \<Rightarrow>
           if \<not> (is_void_pointer n \<and> is_arithmetic_value operand \<or> is_void_pointer operand \<and> is_arithmetic_value n)
           then None else Some rule_11_6_finding)
       (nodes_by_kind g ''CStyleCastExpr'')"

definition rule_10_6_metadata :: rule_metadata where
  "rule_10_6_metadata = \<lparr>
     md_rule_id = ''misra-c2012-rule-10-6'',
     md_rule_number = ''10.6'',
     md_standard = MISRA_C_2012,
     md_category = REQUIRED,
     md_severity = MAJOR,
     md_title = ''A composite expression shall not be assigned to a wider essential type'',
     md_description = ''The value of a composite expression shall not be assigned to an object with a wider essential type.'',
     md_rationale = ''Widening a composite expression'' @ sq @ ''s result can hide intermediate truncation.'',
     md_tags = [''essential-types'', ''conversions'', ''composite-expressions''],
     md_references = [''MISRA C:2012 Rule 10.6''],
     md_plugin_module = ''misra_platform_rules.standards.misra_c_2012.rules.rule_pack_conversions'',
     md_plugin_version = ''0.1.0'',
     md_requires_ast_nodes = [''BinaryOperator''],
     md_implementation_category = B_TYPE_SYSTEM,
     md_rule_pack = Some CONVERSIONS,
     md_requires_type_info = True,
     md_requires_cfg = False,
     md_requires_dataflow = False,
     md_requires_linkage = False,
     md_requires_macro_expansion = False,
     md_rule_dependencies = []\<rparr>"

definition rule_10_6_finding :: "string \<Rightarrow> string \<Rightarrow> ast_node \<Rightarrow> finding" where
  "rule_10_6_finding rhs_type lhs_type n = \<lparr>
     fd_explanation = ''Composite expression of essential type '' @ sq @ rhs_type @ sq @ '' assigned to wider essential type '' @ sq @ lhs_type @ sq @ ''.'',
     fd_risk_description = ''Widening a composite expression can hide intermediate truncation.'',
     fd_confidence_factors = factors 88 85 90 12 50,
     fd_confidence_score = dec2 85,
     fd_suggested_fix = Some \<lparr>sf_original_code = offending_text n,
       sf_suggested_code = ''assign to a temporary of the composite expression'' @ sq @ ''s essential type first'',
       sf_rationale = ''Avoid widening the result of a composite expression directly.'',
       sf_confidence_score = dec2 50\<rparr>\<rparr>"

text \<open>The arguments of \<open>is_wider\<close> in the order the code has them: from the target to the source.\<close>

definition rule_10_6_findings :: "ast_graph \<Rightarrow> (ast_node \<times> finding) list" where
  "rule_10_6_findings g =
     report_some (\<lambda>n.
         if sem_str n ''opcode'' \<noteq> ''='' then None
         else case first_two g n of
           None \<Rightarrow> None
         | Some (lhs, rhs) \<Rightarrow>
             if \<not> is_composite_expression rhs then None
             else (let lhs_type = ess_type lhs; rhs_type = ess_type rhs in
                   if lhs_type = ''unknown'' \<or> rhs_type = ''unknown'' then None
                   else if \<not> is_wider lhs_type rhs_type then None
                   else Some (rule_10_6_finding rhs_type lhs_type n)))
       (nodes_by_kind g ''BinaryOperator'')"

definition rule_10_8_metadata :: rule_metadata where
  "rule_10_8_metadata = \<lparr>
     md_rule_id = ''misra-c2012-rule-10-8'',
     md_rule_number = ''10.8'',
     md_standard = MISRA_C_2012,
     md_category = REQUIRED,
     md_severity = MAJOR,
     md_title = ''A composite expression cast to a wider category shall not be used as an operand'',
     md_description = ''A composite expression shall not be cast to a different, wider essential type category before being used as an operand.'',
     md_rationale = ''Category-widening casts on composite expressions compound conversion ambiguity.'',
     md_tags = [''essential-types'', ''conversions'', ''composite-expressions'', ''casts''],
     md_references = [''MISRA C:2012 Rule 10.8''],
     md_plugin_module = ''misra_platform_rules.standards.misra_c_2012.rules.rule_pack_conversions'',
     md_plugin_version = ''0.1.0'',
     md_requires_ast_nodes = [''CStyleCastExpr''],
     md_implementation_category = B_TYPE_SYSTEM,
     md_rule_pack = Some CONVERSIONS,
     md_requires_type_info = True,
     md_requires_cfg = False,
     md_requires_dataflow = False,
     md_requires_linkage = False,
     md_requires_macro_expansion = False,
     md_rule_dependencies = []\<rparr>"

definition rule_10_8_finding :: "ast_node \<Rightarrow> finding" where
  "rule_10_8_finding n = \<lparr>
     fd_explanation = ''A composite expression is cast to a wider essential type category before use.'',
     fd_risk_description = ''Category-widening casts on composite expressions are error-prone.'',
     fd_confidence_factors = factors 85 82 88 15 40,
     fd_confidence_score = dec2 82,
     fd_suggested_fix = Some \<lparr>sf_original_code = offending_text n,
       sf_suggested_code = ''evaluate the composite expression without widening its category'',
       sf_rationale = ''Keep composite-expression essential types consistent with operands.'',
       sf_confidence_score = dec2 40\<rparr>\<rparr>"

definition rule_10_8_findings :: "ast_graph \<Rightarrow> (ast_node \<times> finding) list" where
  "rule_10_8_findings g =
     report_some (\<lambda>n. case first_child g n of
         None \<Rightarrow> None
       | Some operand \<Rightarrow>
           if \<not> is_composite_expression operand then None
           else if \<not> changes_to_wider_category n operand then None
           else (case g_get g (parent_id n) of
                   None \<Rightarrow> None
                 | Some p \<Rightarrow>
                     if node_kind p \<notin> {''BinaryOperator'', ''UnaryOperator'', ''CallExpr'', ''ArraySubscriptExpr''}
                     then None else Some (rule_10_8_finding n)))
       (nodes_by_kind g ''CStyleCastExpr'')"


subsection \<open>The initialization pack\<close>

definition rule_9_1_metadata :: rule_metadata where
  "rule_9_1_metadata = \<lparr>
     md_rule_id = ''misra-c2012-rule-9-1'',
     md_rule_number = ''9.1'',
     md_standard = MISRA_C_2012,
     md_category = MANDATORY,
     md_severity = CRITICAL,
     md_title = ''Automatic objects shall be initialized before use'',
     md_description = ''An object with automatic storage duration shall not be read before it is initialized.'',
     md_rationale = ''Reading an uninitialized automatic object is undefined behaviour.'',
     md_tags = [''initialization'', ''dataflow''],
     md_references = [''MISRA C:2012 Rule 9.1''],
     md_plugin_module = ''misra_platform_rules.standards.misra_c_2012.rules.rule_pack_initialization'',
     md_plugin_version = ''0.1.0'',
     md_requires_ast_nodes = [''FunctionDecl'', ''VarDecl'', ''DeclRefExpr''],
     md_implementation_category = D_DATA_FLOW,
     md_rule_pack = Some INITIALIZATION,
     md_requires_type_info = False,
     md_requires_cfg = True,
     md_requires_dataflow = True,
     md_requires_linkage = False,
     md_requires_macro_expansion = False,
     md_rule_dependencies = []\<rparr>"

definition rule_9_1_finding :: "string \<Rightarrow> ast_node \<Rightarrow> finding" where
  "rule_9_1_finding name n = \<lparr>
     fd_explanation = sq @ name @ sq @ '' is read before it is initialized on at least one reachable path.'',
     fd_risk_description = ''Reading an uninitialized automatic variable is undefined behaviour.'',
     fd_confidence_factors = factors 80 75 85 25 50,
     fd_confidence_score = dec2 72,
     fd_suggested_fix = Some \<lparr>sf_original_code = offending_text n,
       sf_suggested_code = ''initialize '' @ sq @ name @ sq @ '' at its declaration'',
       sf_rationale = ''Give the variable a well-defined value before first use.'',
       sf_confidence_score = dec2 50\<rparr>\<rparr>"

definition rule_9_1_findings :: "nat \<Rightarrow> ast_graph \<Rightarrow> (ast_node \<times> finding) list option" where
  "rule_9_1_findings depth g =
     opt_concat_map (\<lambda>fn. do {
        c \<leftarrow> build_cfg depth g fn;
        pts \<leftarrow> analyze_aliases fn g;
        reads \<leftarrow> uninitialized_reads fn c g;
        Some (map (\<lambda>r. (r, rule_9_1_finding (sem_name r ''<var>'') r)) reads) })
      (nodes_by_kind g ''FunctionDecl'')"

definition rule_2_2_metadata :: rule_metadata where
  "rule_2_2_metadata = \<lparr>
     md_rule_id = ''misra-c2012-rule-2-2'',
     md_rule_number = ''2.2'',
     md_standard = MISRA_C_2012,
     md_category = REQUIRED,
     md_severity = MINOR,
     md_title = ''There shall be no dead code'',
     md_description = ''A value computed and stored shall be used at least once afterwards.'',
     md_rationale = ''Dead stores indicate a logic error or leftover debugging code.'',
     md_tags = [''dataflow'', ''unused-code''],
     md_references = [''MISRA C:2012 Rule 2.2''],
     md_plugin_module = ''misra_platform_rules.standards.misra_c_2012.rules.rule_pack_initialization'',
     md_plugin_version = ''0.1.0'',
     md_requires_ast_nodes = [''FunctionDecl'', ''VarDecl'', ''DeclRefExpr''],
     md_implementation_category = D_DATA_FLOW,
     md_rule_pack = Some INITIALIZATION,
     md_requires_type_info = False,
     md_requires_cfg = False,
     md_requires_dataflow = True,
     md_requires_linkage = False,
     md_requires_macro_expansion = False,
     md_rule_dependencies = []\<rparr>"

definition rule_2_2_finding :: "string \<Rightarrow> finding" where
  "rule_2_2_finding name = \<lparr>
     fd_explanation = ''Value stored into '' @ sq @ name @ sq @ '' here is never subsequently read.'',
     fd_risk_description = ''Dead stores often indicate a missing use or a stale code path.'',
     fd_confidence_factors = factors 70 65 80 30 30,
     fd_confidence_score = dec2 62,
     fd_suggested_fix = None\<rparr>"

definition dead_store_findings :: "ast_graph \<Rightarrow> ast_node \<Rightarrow> ast_node \<Rightarrow> (ast_node \<times> finding) list option" where
  "dead_store_findings g fn d = do {
     rs \<leftarrow> references g d fn;
     if length rs < 2 then Some []
     else do {
       dead \<leftarrow> dead_store g d fn;
       Some (case dead of None \<Rightarrow> [] | Some x \<Rightarrow> [(x, rule_2_2_finding (sem_name d ''<var>''))]) } }"

definition rule_2_2_findings :: "ast_graph \<Rightarrow> (ast_node \<times> finding) list option" where
  "rule_2_2_findings g =
     opt_concat_map (\<lambda>fn. do {
        decls \<leftarrow> local_variable_declarations g fn;
        opt_concat_map (dead_store_findings g fn) decls })
      (nodes_by_kind g ''FunctionDecl'')"

text \<open>
  \<open>_initializer_indices\<close>: \<open>index + 1\<close> raises on a designator that is no number (the worker
  sends strings).
\<close>

fun initializer_indices :: "int \<Rightarrow> ast_node list \<Rightarrow> py_error + (int \<times> ast_node) list" where
  "initializer_indices next_index [] = Inr []"
| "initializer_indices next_index (c # cs) =
     (let designator = prop_get (semantic_properties c) ''designator_index'' in
      case (if designator \<noteq> PNone then py_num designator else Inr next_index) of
        Inl e \<Rightarrow> Inl e
      | Inr i \<Rightarrow> (case initializer_indices (i + 1) cs of Inl e \<Rightarrow> Inl e | Inr rest \<Rightarrow> Inr ((i, c) # rest)))"

text \<open>The elements whose index was seen before.\<close>

fun repeated_indices :: "int list \<Rightarrow> (int \<times> ast_node) list \<Rightarrow> (int \<times> ast_node) list" where
  "repeated_indices seen [] = []"
| "repeated_indices seen ((i, c) # rest) =
     (if i \<notin> set seen then repeated_indices (i # seen) rest else (i, c) # repeated_indices seen rest)"

definition rule_9_3_metadata :: rule_metadata where
  "rule_9_3_metadata = \<lparr>
     md_rule_id = ''misra-c2012-rule-9-3'',
     md_rule_number = ''9.3'',
     md_standard = MISRA_C_2012,
     md_category = REQUIRED,
     md_severity = MAJOR,
     md_title = ''Array elements shall not be initialized more than once'',
     md_description = ''No array index shall be targeted by more than one initializer in the same initializer list.'',
     md_rationale = ''A repeated index means the earlier initializer'' @ sq @ ''s value is silently discarded, which is almost always a mistake.'',
     md_tags = [''initialization'', ''arrays''],
     md_references = [''MISRA C:2012 Rule 9.3''],
     md_plugin_module = ''misra_platform_rules.standards.misra_c_2012.rules.rule_pack_initialization'',
     md_plugin_version = ''0.1.0'',
     md_requires_ast_nodes = [''InitListExpr''],
     md_implementation_category = A_AST_ONLY,
     md_rule_pack = Some INITIALIZATION,
     md_requires_type_info = False,
     md_requires_cfg = False,
     md_requires_dataflow = False,
     md_requires_linkage = False,
     md_requires_macro_expansion = False,
     md_rule_dependencies = []\<rparr>"

definition rule_9_3_finding :: "string \<Rightarrow> finding" where
  "rule_9_3_finding index_txt = \<lparr>
     fd_explanation = ''Array element ['' @ index_txt @ ''] is initialized more than once in this initializer list.'',
     fd_risk_description = ''The earlier initializer'' @ sq @ ''s value is silently discarded, which is almost always a mistake.'',
     fd_confidence_factors = factors 90 80 90 10 40,
     fd_confidence_score = dec2 85,
     fd_suggested_fix = Some \<lparr>sf_original_code = ''['' @ index_txt @ ''] = ...'',
       sf_suggested_code = ''remove the duplicate initializer for index '' @ index_txt,
       sf_rationale = ''Each array index should be initialized exactly once.'',
       sf_confidence_score = dec2 40\<rparr>\<rparr>"

definition rule_9_3_findings :: "ast_graph \<Rightarrow> py_error + (ast_node \<times> finding) list" where
  "rule_9_3_findings g =
     sum_concat_map (\<lambda>il.
        if \<not> sem_flag il ''is_array_initializer'' then Inr []
        else case initializer_indices 0 (children g (node_id il)) of
               Inl e \<Rightarrow> Inl e
             | Inr resolved \<Rightarrow>
                 Inr (map (\<lambda>(i, c). (c, rule_9_3_finding (int_str i))) (repeated_indices [] resolved)))
      (nodes_by_kind g ''InitListExpr'')"

definition has_designator :: "ast_node \<Rightarrow> bool" where
  "has_designator c \<longleftrightarrow> prop_get (semantic_properties c) ''designator_index'' \<noteq> PNone"

definition rule_9_5_metadata :: rule_metadata where
  "rule_9_5_metadata = \<lparr>
     md_rule_id = ''misra-c2012-rule-9-5'',
     md_rule_number = ''9.5'',
     md_standard = MISRA_C_2012,
     md_category = ADVISORY,
     md_severity = MINOR,
     md_title = ''Designated initializers should not be mixed with non-designated for the same array'',
     md_description = ''An array initializer list should use either all designated or all positional initializers, not a mix of both.'',
     md_rationale = ''Mixing designated and positional initializers in one list makes the resulting index of every element hard to read at a glance.'',
     md_tags = [''initialization'', ''arrays''],
     md_references = [''MISRA C:2012 Rule 9.5''],
     md_plugin_module = ''misra_platform_rules.standards.misra_c_2012.rules.rule_pack_initialization'',
     md_plugin_version = ''0.1.0'',
     md_requires_ast_nodes = [''InitListExpr''],
     md_implementation_category = A_AST_ONLY,
     md_rule_pack = Some INITIALIZATION,
     md_requires_type_info = False,
     md_requires_cfg = False,
     md_requires_dataflow = False,
     md_requires_linkage = False,
     md_requires_macro_expansion = False,
     md_rule_dependencies = []\<rparr>"

definition rule_9_5_finding :: "string \<Rightarrow> string \<Rightarrow> finding" where
  "rule_9_5_finding designated_txt positional_txt = \<lparr>
     fd_explanation = ''This array initializer list mixes '' @ designated_txt @ '' designated and '' @ positional_txt @ '' non-designated initializer(s).'',
     fd_risk_description = ''Mixing designated and positional initializers makes the resulting index of every element hard to read at a glance.'',
     fd_confidence_factors = factors 85 75 90 15 30,
     fd_confidence_score = dec2 70,
     fd_suggested_fix = Some \<lparr>sf_original_code = ''{ [0] = 1, 2, 3 }'',
       sf_suggested_code = ''use either all designated ({ [0] = 1, [1] = 2, [2] = 3 }) or all positional ({ 1, 2, 3 }) initializers'',
       sf_rationale = ''Do not mix designated and positional initializers in one list.'',
       sf_confidence_score = dec2 30\<rparr>\<rparr>"

definition rule_9_5_findings :: "ast_graph \<Rightarrow> (ast_node \<times> finding) list" where
  "rule_9_5_findings g =
     report_some (\<lambda>il.
         if \<not> sem_flag il ''is_array_initializer'' then None
         else (let cs = children g (node_id il); designated = filter has_designator cs;
                   positional = filter (\<lambda>c. \<not> has_designator c) cs in
               if designated = [] \<or> positional = [] then None
               else Some (rule_9_5_finding (nat_str (length designated)) (nat_str (length positional)))))
       (nodes_by_kind g ''InitListExpr'')"

definition rule_9_2_metadata :: rule_metadata where
  "rule_9_2_metadata = \<lparr>
     md_rule_id = ''misra-c2012-rule-9-2'',
     md_rule_number = ''9.2'',
     md_standard = MISRA_C_2012,
     md_category = REQUIRED,
     md_severity = MAJOR,
     md_title = ''Initializers for aggregates/unions shall be fully bracketed'',
     md_description = ''Aggregate and union initializers shall use explicit braces for every nesting level.'',
     md_rationale = ''Partially bracketed initializers are easy to misread and can initialize the wrong members.'',
     md_tags = [''initialization'', ''aggregates''],
     md_references = [''MISRA C:2012 Rule 9.2''],
     md_plugin_module = ''misra_platform_rules.standards.misra_c_2012.rules.rule_pack_initialization'',
     md_plugin_version = ''0.1.0'',
     md_requires_ast_nodes = [''InitListExpr''],
     md_implementation_category = A_AST_ONLY,
     md_rule_pack = Some INITIALIZATION,
     md_requires_type_info = False,
     md_requires_cfg = False,
     md_requires_dataflow = False,
     md_requires_linkage = False,
     md_requires_macro_expansion = False,
     md_rule_dependencies = []\<rparr>"

definition rule_9_2_finding :: "ast_node \<Rightarrow> finding" where
  "rule_9_2_finding n = \<lparr>
     fd_explanation = ''An aggregate or union initializer is not fully bracketed.'',
     fd_risk_description = ''Missing braces can initialize unintended sub-objects.'',
     fd_confidence_factors = factors 88 80 90 12 45,
     fd_confidence_score = dec2 82,
     fd_suggested_fix = Some \<lparr>sf_original_code = offending_text n,
       sf_suggested_code = ''add explicit braces at every aggregate nesting level'',
       sf_rationale = ''Use fully bracketed initializer lists.'',
       sf_confidence_score = dec2 45\<rparr>\<rparr>"

definition rule_9_2_findings :: "ast_graph \<Rightarrow> (ast_node \<times> finding) list" where
  "rule_9_2_findings g =
     report_where (\<lambda>n. let bracketed = prop_get (semantic_properties n) ''is_fully_bracketed''
                       in \<not> (bracketed = PNone \<or> bracketed = PBool True \<or> bracketed = PStr ''true''))
       rule_9_2_finding (nodes_by_kind g ''InitListExpr'')"

definition rule_9_4_metadata :: rule_metadata where
  "rule_9_4_metadata = \<lparr>
     md_rule_id = ''misra-c2012-rule-9-4'',
     md_rule_number = ''9.4'',
     md_standard = MISRA_C_2012,
     md_category = REQUIRED,
     md_severity = MAJOR,
     md_title = ''An element of an object shall not be initialized more than once'',
     md_description = ''No sub-object shall be targeted by more than one designator in an initializer list.'',
     md_rationale = ''Duplicate designators silently discard earlier initializers.'',
     md_tags = [''initialization'', ''designators''],
     md_references = [''MISRA C:2012 Rule 9.4''],
     md_plugin_module = ''misra_platform_rules.standards.misra_c_2012.rules.rule_pack_initialization'',
     md_plugin_version = ''0.1.0'',
     md_requires_ast_nodes = [''InitListExpr''],
     md_implementation_category = A_AST_ONLY,
     md_rule_pack = Some INITIALIZATION,
     md_requires_type_info = False,
     md_requires_cfg = False,
     md_requires_dataflow = False,
     md_requires_linkage = False,
     md_requires_macro_expansion = False,
     md_rule_dependencies = []\<rparr>"

definition rule_9_4_finding :: "ast_node \<Rightarrow> finding" where
  "rule_9_4_finding n = \<lparr>
     fd_explanation = ''An initializer list repeats the same designator.'',
     fd_risk_description = ''The earlier initializer for that sub-object is silently discarded.'',
     fd_confidence_factors = factors 92 85 90 8 45,
     fd_confidence_score = dec2 88,
     fd_suggested_fix = Some \<lparr>sf_original_code = offending_text n,
       sf_suggested_code = ''remove the duplicate designator'',
       sf_rationale = ''Each sub-object should be initialized at most once.'',
       sf_confidence_score = dec2 45\<rparr>\<rparr>"

definition rule_9_4_findings :: "ast_graph \<Rightarrow> (ast_node \<times> finding) list" where
  "rule_9_4_findings g =
     report_where (\<lambda>n. sem_flag n ''duplicate_designator'') rule_9_4_finding (nodes_by_kind g ''InitListExpr'')"


subsection \<open>The storage-duration pack\<close>

text \<open>
  \<open>_enclosing_function_id\<close>; the inner \<^term>\<open>None\<close> is Python's, the outer one a parent loop that
  does not end.
\<close>

partial_function (option) enclosing_function_loop :: "ast_graph \<Rightarrow> string \<Rightarrow> string option option" where
  "enclosing_function_loop g cur =
     (if cur = [] then Some None
      else case g_get g cur of
             None \<Rightarrow> Some None
           | Some p \<Rightarrow> if node_kind p = ''FunctionDecl'' then Some (Some (node_id p))
                      else enclosing_function_loop g (parent_id p))"

declare enclosing_function_loop.simps [code]

definition enclosing_function_id :: "ast_graph \<Rightarrow> ast_node \<Rightarrow> string option option" where
  "enclosing_function_id g n = enclosing_function_loop g (parent_id n)"

definition rule_8_9_metadata :: rule_metadata where
  "rule_8_9_metadata = \<lparr>
     md_rule_id = ''misra-c2012-rule-8-9'',
     md_rule_number = ''8.9'',
     md_standard = MISRA_C_2012,
     md_category = ADVISORY,
     md_severity = MINOR,
     md_title = ''An object should be defined at block scope if used in one function only'',
     md_description = ''A file-scope object referenced from only one function should be moved to block scope.'',
     md_rationale = ''File-scope objects used by a single function needlessly widen their visibility/lifetime.'',
     md_tags = [''storage-duration'', ''scope''],
     md_references = [''MISRA C:2012 Rule 8.9''],
     md_plugin_module = ''misra_platform_rules.standards.misra_c_2012.rules.rule_pack_storage_duration'',
     md_plugin_version = ''0.1.0'',
     md_requires_ast_nodes = [''VarDecl'', ''DeclRefExpr''],
     md_implementation_category = D_DATA_FLOW,
     md_rule_pack = Some STORAGE_DURATION,
     md_requires_type_info = False,
     md_requires_cfg = False,
     md_requires_dataflow = True,
     md_requires_linkage = False,
     md_requires_macro_expansion = False,
     md_rule_dependencies = []\<rparr>"

definition rule_8_9_finding :: "string \<Rightarrow> ast_node \<Rightarrow> finding" where
  "rule_8_9_finding name n = \<lparr>
     fd_explanation = ''File-scope object '' @ sq @ name @ sq @ '' is referenced from a single function only.'',
     fd_risk_description = ''Unnecessary file scope widens the object'' @ sq @ ''s visibility and lifetime.'',
     fd_confidence_factors = factors 75 70 85 25 40,
     fd_confidence_score = dec2 68,
     fd_suggested_fix = Some \<lparr>sf_original_code = offending_text n,
       sf_suggested_code = ''move the definition of '' @ sq @ name @ sq @ '' inside the function that uses it'',
       sf_rationale = ''Prefer the narrowest scope that satisfies the usage.'',
       sf_confidence_score = dec2 40\<rparr>\<rparr>"

definition rule_8_9_findings :: "ast_graph \<Rightarrow> (ast_node \<times> finding) list option" where
  "rule_8_9_findings g =
     opt_concat_map (\<lambda>v.
        let name = sem_str v ''name'';
            refs = filter (\<lambda>n. node_kind n = ''DeclRefExpr'' \<and> prop_get (semantic_properties n) ''name'' = PStr name)
                     (all_nodes g) in
        if \<not> is_file_scope g (node_id v) then Some []
        else if sem_str v ''storage_class'' = ''extern'' then Some []
        else if name = [] then Some []
        else if refs = [] then Some []
        else map_option (\<lambda>fns.
               if length (remdups (List.map_filter id fns)) \<noteq> 1 then []
               else [(v, rule_8_9_finding name v)])
             (opt_map (enclosing_function_id g) refs))
      (nodes_by_kind g ''VarDecl'')"

definition automatic_locals :: "ast_node list \<Rightarrow> string list" where
  "automatic_locals ds = filter (\<lambda>s. s \<noteq> []) (map (\<lambda>n. sem_str n ''name'')
     (filter (\<lambda>n. node_kind n = ''VarDecl'' \<and> storage_class n = ''automatic'') ds))"

definition rule_18_6_metadata :: rule_metadata where
  "rule_18_6_metadata = \<lparr>
     md_rule_id = ''misra-c2012-rule-18-6'',
     md_rule_number = ''18.6'',
     md_standard = MISRA_C_2012,
     md_category = REQUIRED,
     md_severity = CRITICAL,
     md_title = ''The address of an automatic object shall not escape its lifetime'',
     md_description = ''A function shall not return the address of one of its own automatic (local) objects.'',
     md_rationale = ''The returned pointer is dangling as soon as the function returns.'',
     md_tags = [''storage-duration'', ''pointers''],
     md_references = [''MISRA C:2012 Rule 18.6''],
     md_plugin_module = ''misra_platform_rules.standards.misra_c_2012.rules.rule_pack_storage_duration'',
     md_plugin_version = ''0.1.0'',
     md_requires_ast_nodes = [''FunctionDecl'', ''ReturnStmt'', ''VarDecl''],
     md_implementation_category = D_DATA_FLOW,
     md_rule_pack = Some STORAGE_DURATION,
     md_requires_type_info = False,
     md_requires_cfg = False,
     md_requires_dataflow = True,
     md_requires_linkage = False,
     md_requires_macro_expansion = False,
     md_rule_dependencies = []\<rparr>"

definition rule_18_6_finding :: "string \<Rightarrow> ast_node \<Rightarrow> finding" where
  "rule_18_6_finding escaped n = \<lparr>
     fd_explanation = ''Function returns the address of automatic local variable '' @ sq @ escaped @ sq @ ''.'',
     fd_risk_description = ''The returned pointer dangles as soon as the function returns.'',
     fd_confidence_factors = factors 92 85 90 8 30,
     fd_confidence_score = dec2 88,
     fd_suggested_fix = Some \<lparr>sf_original_code = offending_text n,
       sf_suggested_code = ''allocate '' @ sq @ escaped @ sq @ '' with static/heap/caller-provided storage instead'',
       sf_rationale = ''The pointee must outlive the returning function.'',
       sf_confidence_score = dec2 30\<rparr>\<rparr>"

definition rule_18_6_findings :: "ast_graph \<Rightarrow> (ast_node \<times> finding) list option" where
  "rule_18_6_findings g =
     opt_concat_map (\<lambda>fn. do {
        ds \<leftarrow> descendants g (node_id fn);
        (let local_names = automatic_locals ds in
         if local_names = [] then Some []
         else opt_concat_map (\<lambda>ret. map_option (\<lambda>rds.
                case returns_address_of_local rds local_names of
                  None \<Rightarrow> []
                | Some escaped \<Rightarrow> [(ret, rule_18_6_finding escaped ret)])
              (descendants g (node_id ret)))
            (filter (\<lambda>d. node_kind d = ''ReturnStmt'') ds)) })
      (nodes_by_kind g ''FunctionDecl'')"

subsection \<open>The packs\<close>

definition rule_10_1_plugin :: rule_plugin where
  "rule_10_1_plugin = scan_rule rule_10_1_metadata (\<lambda>ctx g. rule_10_1_findings g)"

definition rule_10_3_plugin :: rule_plugin where
  "rule_10_3_plugin = scan_rule rule_10_3_metadata (\<lambda>ctx g. rule_10_3_findings g)"

definition rule_11_8_plugin :: rule_plugin where
  "rule_11_8_plugin = scan_rule rule_11_8_metadata (\<lambda>ctx g. rule_11_8_findings g)"

definition essential_types_pack :: "rule_plugin list" where
  "essential_types_pack =
     [scan_rule rule_10_2_metadata (\<lambda>ctx g. rule_10_2_findings g),
      scan_rule rule_6_1_metadata (\<lambda>ctx g. rule_6_1_findings g),
      scan_rule rule_6_2_metadata (\<lambda>ctx g. rule_6_2_findings g)]"

definition conversions_pack :: "rule_plugin list" where
  "conversions_pack =
     [scan_rule rule_10_4_metadata (\<lambda>ctx g. rule_10_4_findings g),
      scan_rule rule_10_5_metadata (\<lambda>ctx g. rule_10_5_findings g),
      scan_rule rule_10_7_metadata (\<lambda>ctx g. rule_10_7_findings g),
      scan_rule rule_7_4_metadata (\<lambda>ctx g. rule_7_4_findings g),
      scan_rule rule_11_1_metadata (\<lambda>ctx g. rule_11_1_findings g),
      scan_rule rule_11_6_metadata (\<lambda>ctx g. rule_11_6_findings g),
      scan_rule rule_10_6_metadata (\<lambda>ctx g. rule_10_6_findings g),
      scan_rule rule_10_8_metadata (\<lambda>ctx g. rule_10_8_findings g)]"

definition initialization_pack :: "rule_plugin list" where
  "initialization_pack =
     [loop_rule rule_9_1_metadata (\<lambda>d ctx g. rule_9_1_findings d g),
      loop_rule rule_2_2_metadata (\<lambda>d ctx g. rule_2_2_findings g),
      raising_rule rule_9_3_metadata rule_9_3_findings,
      scan_rule rule_9_5_metadata (\<lambda>ctx g. rule_9_5_findings g),
      scan_rule rule_9_2_metadata (\<lambda>ctx g. rule_9_2_findings g),
      scan_rule rule_9_4_metadata (\<lambda>ctx g. rule_9_4_findings g)]"

definition storage_duration_pack :: "rule_plugin list" where
  "storage_duration_pack =
     [loop_rule rule_8_9_metadata (\<lambda>d ctx g. rule_8_9_findings g),
      loop_rule rule_18_6_metadata (\<lambda>d ctx g. rule_18_6_findings g)]"

end
