(* ===== verification/Pack_Expr.thy ===== *)
theory Pack_Expr
  imports Rule_Base Alias
begin

text \<open>
  The expressions pack (\<open>rule_pack_expressions.py\<close>) and the pointers pack
  (\<open>rule_pack_pointers.py\<close>), in the shape of Pack\_Control.
\<close>


subsection \<open>Side effects and order of evaluation\<close>

definition logical_opcodes :: "string list" where
  "logical_opcodes = [''&&'', ''||'']"

definition rule_12_3_metadata :: rule_metadata where
  "rule_12_3_metadata = \<lparr>
     md_rule_id = ''misra-c2012-rule-12-3'',
     md_rule_number = ''12.3'',
     md_standard = MISRA_C_2012,
     md_category = ADVISORY,
     md_severity = MINOR,
     md_title = ''The comma operator should not be used'',
     md_description = ''The comma operator should not be used.'',
     md_rationale = ''Comma-operator expressions bury a statement'' @ sq @ ''s side effects inside an expression.'',
     md_tags = [''expressions''],
     md_references = [''MISRA C:2012 Rule 12.3''],
     md_plugin_module = ''misra_platform_rules.standards.misra_c_2012.rules.rule_pack_expressions'',
     md_plugin_version = ''0.1.0'',
     md_requires_ast_nodes = [''BinaryOperator''],
     md_implementation_category = A_AST_ONLY,
     md_rule_pack = Some EXPRESSIONS,
     md_requires_type_info = False,
     md_requires_cfg = False,
     md_requires_dataflow = False,
     md_requires_linkage = False,
     md_requires_macro_expansion = False,
     md_rule_dependencies = []\<rparr>"

definition rule_12_3_finding :: "ast_node \<Rightarrow> finding" where
  "rule_12_3_finding n = \<lparr>
     fd_explanation = ''The comma operator is used to sequence expressions.'',
     fd_risk_description = ''Comma-operator side effects are easy to overlook during review.'',
     fd_confidence_factors = factors 95 90 95 10 55,
     fd_confidence_score = dec2 85,
     fd_suggested_fix = Some \<lparr>sf_original_code = offending_text n,
       sf_suggested_code = ''split into separate statements'',
       sf_rationale = ''Make each side effect an explicit, separate statement.'',
       sf_confidence_score = dec2 55\<rparr>\<rparr>"

definition rule_12_3_findings :: "ast_graph \<Rightarrow> (ast_node \<times> finding) list" where
  "rule_12_3_findings g = report_where uses_comma_operator rule_12_3_finding (nodes_by_kind g ''BinaryOperator'')"

definition rule_13_4_metadata :: rule_metadata where
  "rule_13_4_metadata = \<lparr>
     md_rule_id = ''misra-c2012-rule-13-4'',
     md_rule_number = ''13.4'',
     md_standard = MISRA_C_2012,
     md_category = ADVISORY,
     md_severity = MINOR,
     md_title = ''The result of an assignment operator should not be used'',
     md_description = ''The result of an assignment expression should not itself be used as a value.'',
     md_rationale = ''Using an assignment'' @ sq @ ''s result mixes side effect and evaluation, hurting readability.'',
     md_tags = [''expressions'', ''side-effects''],
     md_references = [''MISRA C:2012 Rule 13.4''],
     md_plugin_module = ''misra_platform_rules.standards.misra_c_2012.rules.rule_pack_expressions'',
     md_plugin_version = ''0.1.0'',
     md_requires_ast_nodes = [''BinaryOperator''],
     md_implementation_category = A_AST_ONLY,
     md_rule_pack = Some EXPRESSIONS,
     md_requires_type_info = False,
     md_requires_cfg = False,
     md_requires_dataflow = False,
     md_requires_linkage = False,
     md_requires_macro_expansion = False,
     md_rule_dependencies = []\<rparr>"

definition rule_13_4_finding :: "string \<Rightarrow> string \<Rightarrow> ast_node \<Rightarrow> finding" where
  "rule_13_4_finding opcode parent_kind n = \<lparr>
     fd_explanation = ''The result of assignment ('' @ sq @ opcode @ sq @ '') is used inside a '' @ sq @ parent_kind @ sq @ ''.'',
     fd_risk_description = ''Assignment-as-value obscures whether the code intended comparison or assignment.'',
     fd_confidence_factors = factors 85 85 90 20 45,
     fd_confidence_score = dec2 78,
     fd_suggested_fix = Some \<lparr>sf_original_code = offending_text n,
       sf_suggested_code = ''perform the assignment as its own statement before use'',
       sf_rationale = ''Separate the side effect from the value it produces.'',
       sf_confidence_score = dec2 45\<rparr>\<rparr>"

definition rule_13_4_findings :: "ast_graph \<Rightarrow> (ast_node \<times> finding) list" where
  "rule_13_4_findings g =
     report_some (\<lambda>n.
         let opcode = sem_str n ''opcode'' in
         if opcode \<notin> set assignment_opcodes then None
         else case g_get g (parent_id n) of
           None \<Rightarrow> None
         | Some p \<Rightarrow> if node_kind p = ''CompoundStmt'' then None
                    else Some (rule_13_4_finding opcode (node_kind p) n))
       (nodes_by_kind g ''BinaryOperator'')"

definition rule_13_5_metadata :: rule_metadata where
  "rule_13_5_metadata = \<lparr>
     md_rule_id = ''misra-c2012-rule-13-5'',
     md_rule_number = ''13.5'',
     md_standard = MISRA_C_2012,
     md_category = REQUIRED,
     md_severity = MAJOR,
     md_title = ''The right-hand operand of && or || shall not contain persistent side effects'',
     md_description = ''Because short-circuit evaluation may skip it, the RHS of && / || shall have no side effects.'',
     md_rationale = ''Short-circuit evaluation means the RHS'' @ sq @ ''s side effect may or may not run.'',
     md_tags = [''expressions'', ''side-effects''],
     md_references = [''MISRA C:2012 Rule 13.5''],
     md_plugin_module = ''misra_platform_rules.standards.misra_c_2012.rules.rule_pack_expressions'',
     md_plugin_version = ''0.1.0'',
     md_requires_ast_nodes = [''BinaryOperator''],
     md_implementation_category = A_AST_ONLY,
     md_rule_pack = Some EXPRESSIONS,
     md_requires_type_info = False,
     md_requires_cfg = False,
     md_requires_dataflow = False,
     md_requires_linkage = False,
     md_requires_macro_expansion = False,
     md_rule_dependencies = []\<rparr>"

definition rule_13_5_finding :: "string \<Rightarrow> ast_node \<Rightarrow> finding" where
  "rule_13_5_finding opcode n = \<lparr>
     fd_explanation = ''Right-hand operand of '' @ sq @ opcode @ sq @ '' has a persistent side effect.'',
     fd_risk_description = ''Short-circuiting may silently skip the side effect at runtime.'',
     fd_confidence_factors = factors 85 85 90 15 40,
     fd_confidence_score = dec2 80,
     fd_suggested_fix = Some \<lparr>sf_original_code = offending_text n,
       sf_suggested_code = ''move the side-effecting expression to its own statement before the condition'',
       sf_rationale = ''Do not rely on short-circuit evaluation to run a side effect.'',
       sf_confidence_score = dec2 40\<rparr>\<rparr>"

definition rule_13_5_findings :: "nat \<Rightarrow> ast_graph \<Rightarrow> (ast_node \<times> finding) list option" where
  "rule_13_5_findings depth g =
     report_where_opt (\<lambda>n.
         if sem_str n ''opcode'' \<notin> set logical_opcodes then Some False
         else case first_two g n of None \<Rightarrow> Some False | Some (lhs, rhs) \<Rightarrow> has_side_effects depth g rhs)
       (\<lambda>n. rule_13_5_finding (sem_str n ''opcode'') n) (nodes_by_kind g ''BinaryOperator'')"

definition rule_14_4_metadata :: rule_metadata where
  "rule_14_4_metadata = \<lparr>
     md_rule_id = ''misra-c2012-rule-14-4'',
     md_rule_number = ''14.4'',
     md_standard = MISRA_C_2012,
     md_category = REQUIRED,
     md_severity = MAJOR,
     md_title = ''The controlling expression of an if/iteration statement shall be essentially Boolean'',
     md_description = ''The controlling expression of if/while/for/do shall have essentially Boolean type.'',
     md_rationale = ''Non-Boolean controlling expressions (e.g. bare pointers/integers) hide the true test.'',
     md_tags = [''expressions'', ''control-flow'', ''essential-types''],
     md_references = [''MISRA C:2012 Rule 14.4''],
     md_plugin_module = ''misra_platform_rules.standards.misra_c_2012.rules.rule_pack_expressions'',
     md_plugin_version = ''0.1.0'',
     md_requires_ast_nodes = [''IfStmt'', ''WhileStmt'', ''ForStmt'', ''DoStmt''],
     md_implementation_category = B_TYPE_SYSTEM,
     md_rule_pack = Some EXPRESSIONS,
     md_requires_type_info = True,
     md_requires_cfg = False,
     md_requires_dataflow = False,
     md_requires_linkage = False,
     md_requires_macro_expansion = False,
     md_rule_dependencies = []\<rparr>"

definition rule_14_4_finding :: "string \<Rightarrow> ast_node \<Rightarrow> finding" where
  "rule_14_4_finding ess n = \<lparr>
     fd_explanation = ''Controlling expression has essential type '' @ sq @ ess @ sq @ '', not boolean.'',
     fd_risk_description = ''Implicit truthiness tests hide the actual condition being checked.'',
     fd_confidence_factors = factors 80 80 85 25 50,
     fd_confidence_score = dec2 75,
     fd_suggested_fix = Some \<lparr>sf_original_code = offending_text n,
       sf_suggested_code = ''compare explicitly, e.g. (x != 0) instead of (x)'',
       sf_rationale = ''Make the Boolean test explicit rather than relying on implicit conversion.'',
       sf_confidence_score = dec2 50\<rparr>\<rparr>"

definition rule_14_4_findings :: "ast_graph \<Rightarrow> (ast_node \<times> finding) list" where
  "rule_14_4_findings g =
     report_where (is_essentially_boolean_context_mismatch g) (\<lambda>n. rule_14_4_finding (ess_type n) n) (all_nodes g)"

definition rule_13_1_metadata :: rule_metadata where
  "rule_13_1_metadata = \<lparr>
     md_rule_id = ''misra-c2012-rule-13-1'',
     md_rule_number = ''13.1'',
     md_standard = MISRA_C_2012,
     md_category = REQUIRED,
     md_severity = MAJOR,
     md_title = ''Initializer lists shall not contain persistent side effects'',
     md_description = ''No element of an initializer list shall itself have a persistent side effect.'',
     md_rationale = ''Initializer evaluation order is unspecified, so side effects there are unpredictable.'',
     md_tags = [''expressions'', ''initialization'', ''side-effects''],
     md_references = [''MISRA C:2012 Rule 13.1''],
     md_plugin_module = ''misra_platform_rules.standards.misra_c_2012.rules.rule_pack_expressions'',
     md_plugin_version = ''0.1.0'',
     md_requires_ast_nodes = [''InitListExpr''],
     md_implementation_category = A_AST_ONLY,
     md_rule_pack = Some EXPRESSIONS,
     md_requires_type_info = False,
     md_requires_cfg = False,
     md_requires_dataflow = False,
     md_requires_linkage = False,
     md_requires_macro_expansion = False,
     md_rule_dependencies = []\<rparr>"

definition rule_13_1_finding :: "ast_node \<Rightarrow> finding" where
  "rule_13_1_finding n = \<lparr>
     fd_explanation = ''An initializer-list element has a persistent side effect.'',
     fd_risk_description = ''Initializer evaluation order is unspecified by the standard.'',
     fd_confidence_factors = factors 88 85 90 12 40,
     fd_confidence_score = dec2 80,
     fd_suggested_fix = Some \<lparr>sf_original_code = offending_text n,
       sf_suggested_code = ''compute the side-effecting value before the initializer list'',
       sf_rationale = ''Move side effects out of an initializer list into their own statement.'',
       sf_confidence_score = dec2 40\<rparr>\<rparr>"

definition rule_13_1_findings :: "nat \<Rightarrow> ast_graph \<Rightarrow> (ast_node \<times> finding) list option" where
  "rule_13_1_findings depth g =
     opt_concat_map (\<lambda>n. report_where_opt (has_side_effects depth g) rule_13_1_finding (children g (node_id n)))
       (nodes_by_kind g ''InitListExpr'')"

definition rule_13_6_metadata :: rule_metadata where
  "rule_13_6_metadata = \<lparr>
     md_rule_id = ''misra-c2012-rule-13-6'',
     md_rule_number = ''13.6'',
     md_standard = MISRA_C_2012,
     md_category = MANDATORY,
     md_severity = CRITICAL,
     md_title = ''The operand of the sizeof operator shall not contain a persistent side effect'',
     md_description = ''The operand of sizeof shall not have a persistent side effect.'',
     md_rationale = ''sizeof'' @ sq @ ''s operand is not evaluated (except VLAs), so any side effect never actually runs.'',
     md_tags = [''expressions'', ''side-effects'', ''sizeof''],
     md_references = [''MISRA C:2012 Rule 13.6''],
     md_plugin_module = ''misra_platform_rules.standards.misra_c_2012.rules.rule_pack_expressions'',
     md_plugin_version = ''0.1.0'',
     md_requires_ast_nodes = [''UnaryOperator''],
     md_implementation_category = A_AST_ONLY,
     md_rule_pack = Some EXPRESSIONS,
     md_requires_type_info = False,
     md_requires_cfg = False,
     md_requires_dataflow = False,
     md_requires_linkage = False,
     md_requires_macro_expansion = False,
     md_rule_dependencies = []\<rparr>"

definition rule_13_6_finding :: "ast_node \<Rightarrow> finding" where
  "rule_13_6_finding n = \<lparr>
     fd_explanation = ''The operand of '' @ sq @ ''sizeof'' @ sq @ '' has a persistent side effect that will never run.'',
     fd_risk_description = ''sizeof'' @ sq @ ''s operand is not evaluated, so the intended side effect silently never happens.'',
     fd_confidence_factors = factors 92 90 90 8 50,
     fd_confidence_score = dec2 88,
     fd_suggested_fix = Some \<lparr>sf_original_code = offending_text n,
       sf_suggested_code = ''use a type name or a side-effect-free expression inside sizeof'',
       sf_rationale = ''Do not rely on sizeof to evaluate its operand.'',
       sf_confidence_score = dec2 50\<rparr>\<rparr>"

definition rule_13_6_findings :: "nat \<Rightarrow> ast_graph \<Rightarrow> (ast_node \<times> finding) list option" where
  "rule_13_6_findings depth g =
     report_where_opt (\<lambda>n.
         if sem_str n ''opcode'' \<noteq> ''sizeof'' then Some False
         else case first_child g n of None \<Rightarrow> Some False | Some operand \<Rightarrow> has_side_effects depth g operand)
       rule_13_6_finding (nodes_by_kind g ''UnaryOperator'')"

definition rule_13_3_metadata :: rule_metadata where
  "rule_13_3_metadata = \<lparr>
     md_rule_id = ''misra-c2012-rule-13-3'',
     md_rule_number = ''13.3'',
     md_standard = MISRA_C_2012,
     md_category = ADVISORY,
     md_severity = MINOR,
     md_title = ''A full expression containing ++/-- should have no other potential side effect'',
     md_description = ''A full expression that contains an increment or decrement should not also have other side effects.'',
     md_rationale = ''Mixing ++/-- with other side effects in one expression obscures evaluation order.'',
     md_tags = [''expressions'', ''side-effects''],
     md_references = [''MISRA C:2012 Rule 13.3''],
     md_plugin_module = ''misra_platform_rules.standards.misra_c_2012.rules.rule_pack_expressions'',
     md_plugin_version = ''0.1.0'',
     md_requires_ast_nodes = [''UnaryOperator''],
     md_implementation_category = A_AST_ONLY,
     md_rule_pack = Some EXPRESSIONS,
     md_requires_type_info = False,
     md_requires_cfg = False,
     md_requires_dataflow = False,
     md_requires_linkage = False,
     md_requires_macro_expansion = False,
     md_rule_dependencies = []\<rparr>"

definition rule_13_3_finding :: "ast_node \<Rightarrow> finding" where
  "rule_13_3_finding n = \<lparr>
     fd_explanation = ''A full expression containing ++/-- also has another side effect.'',
     fd_risk_description = ''Multiple side effects in one expression are hard to reason about.'',
     fd_confidence_factors = factors 85 80 85 15 40,
     fd_confidence_score = dec2 78,
     fd_suggested_fix = Some \<lparr>sf_original_code = offending_text n,
       sf_suggested_code = ''split the increment/decrement into its own statement'',
       sf_rationale = ''Keep ++/-- as the only side effect in its full expression.'',
       sf_confidence_score = dec2 40\<rparr>\<rparr>"

definition rule_13_3_findings :: "nat \<Rightarrow> ast_graph \<Rightarrow> (ast_node \<times> finding) list option" where
  "rule_13_3_findings depth g =
     report_where_opt (\<lambda>n.
         if \<not> is_increment_or_decrement n then Some False
         else has_other_side_effects_in_full_expression depth g n)
       rule_13_3_finding (nodes_by_kind g ''UnaryOperator'')"

definition rule_17_7_metadata :: rule_metadata where
  "rule_17_7_metadata = \<lparr>
     md_rule_id = ''misra-c2012-rule-17-7'',
     md_rule_number = ''17.7'',
     md_standard = MISRA_C_2012,
     md_category = REQUIRED,
     md_severity = MAJOR,
     md_title = ''The value returned by a non-void function shall be used or cast to void'',
     md_description = ''A call to a function with non-void return type shall not discard its result.'',
     md_rationale = ''Ignoring a return value often means an error indication was dropped on the floor.'',
     md_tags = [''expressions'', ''functions''],
     md_references = [''MISRA C:2012 Rule 17.7''],
     md_plugin_module = ''misra_platform_rules.standards.misra_c_2012.rules.rule_pack_expressions'',
     md_plugin_version = ''0.1.0'',
     md_requires_ast_nodes = [''CallExpr''],
     md_implementation_category = A_AST_ONLY,
     md_rule_pack = Some EXPRESSIONS,
     md_requires_type_info = False,
     md_requires_cfg = False,
     md_requires_dataflow = False,
     md_requires_linkage = False,
     md_requires_macro_expansion = False,
     md_rule_dependencies = []\<rparr>"

definition rule_17_7_finding :: "string \<Rightarrow> ast_node \<Rightarrow> finding" where
  "rule_17_7_finding callee_name n = \<lparr>
     fd_explanation = ''The return value of '' @ sq @ callee_name @ sq @ '' is discarded.'',
     fd_risk_description = ''Ignoring a non-void return may drop an error indication.'',
     fd_confidence_factors = factors 90 85 90 10 45,
     fd_confidence_score = dec2 85,
     fd_suggested_fix = Some \<lparr>sf_original_code = offending_text n,
       sf_suggested_code = ''assign the result, test it, or (void)cast explicitly'',
       sf_rationale = ''Make intentional discards explicit with a (void) cast.'',
       sf_confidence_score = dec2 45\<rparr>\<rparr>"

definition rule_17_7_findings :: "ast_graph \<Rightarrow> (ast_node \<times> finding) list" where
  "rule_17_7_findings g =
     report_where (is_discarded_non_void_call g) (\<lambda>n. rule_17_7_finding (sem_str n ''callee'') n)
       (nodes_by_kind g ''CallExpr'')"

subsection \<open>Constant expressions and literals\<close>

definition rule_12_2_metadata :: rule_metadata where
  "rule_12_2_metadata = \<lparr>
     md_rule_id = ''misra-c2012-rule-12-2'',
     md_rule_number = ''12.2'',
     md_standard = MISRA_C_2012,
     md_category = REQUIRED,
     md_severity = MAJOR,
     md_title = ''The right-hand operand of a shift operator shall lie in the range zero to one less than the width'',
     md_description = ''The right-hand operand of << or >> shall be in [0, width-1].'',
     md_rationale = ''Shifting by an out-of-range amount is undefined behaviour.'',
     md_tags = [''expressions'', ''shifts'', ''essential-types''],
     md_references = [''MISRA C:2012 Rule 12.2''],
     md_plugin_module = ''misra_platform_rules.standards.misra_c_2012.rules.rule_pack_expressions'',
     md_plugin_version = ''0.1.0'',
     md_requires_ast_nodes = [''BinaryOperator''],
     md_implementation_category = B_TYPE_SYSTEM,
     md_rule_pack = Some EXPRESSIONS,
     md_requires_type_info = True,
     md_requires_cfg = False,
     md_requires_dataflow = False,
     md_requires_linkage = False,
     md_requires_macro_expansion = False,
     md_rule_dependencies = []\<rparr>"

definition rule_12_2_finding :: "string \<Rightarrow> string \<Rightarrow> string \<Rightarrow> ast_node \<Rightarrow> finding" where
  "rule_12_2_finding amount_txt opcode bound_txt n = \<lparr>
     fd_explanation = ''Shift amount '' @ amount_txt @ '' for '' @ sq @ opcode @ sq @ '' is outside [0, '' @ bound_txt @ ''].'',
     fd_risk_description = ''Out-of-range shift amounts are undefined behaviour.'',
     fd_confidence_factors = factors 92 88 90 8 50,
     fd_confidence_score = dec2 88,
     fd_suggested_fix = Some \<lparr>sf_original_code = offending_text n,
       sf_suggested_code = ''constrain the shift amount to [0, width-1]'',
       sf_rationale = ''Keep shift amounts within the representable bit width.'',
       sf_confidence_score = dec2 50\<rparr>\<rparr>"

text \<open>Both the test and \<open>shift_width - 1\<close> in the message raise on strings.\<close>

definition rule_12_2_findings :: "ast_graph \<Rightarrow> py_error + (ast_node \<times> finding) list" where
  "rule_12_2_findings g =
     sum_concat_map (\<lambda>n. case shift_amount_out_of_range n of
         Inl e \<Rightarrow> Inl e
       | Inr outside \<Rightarrow>
           if \<not> outside then Inr []
           else (case py_num (prop_get (semantic_properties n) ''shift_width'') of
                   Inl e \<Rightarrow> Inl e
                 | Inr width \<Rightarrow>
                     Inr [(n, rule_12_2_finding (py_str (prop_get (semantic_properties n) ''shift_amount''))
                            (sem_str n ''opcode'') (int_str (width - 1)) n)]))
       (nodes_by_kind g ''BinaryOperator'')"

definition rule_12_4_metadata :: rule_metadata where
  "rule_12_4_metadata = \<lparr>
     md_rule_id = ''misra-c2012-rule-12-4'',
     md_rule_number = ''12.4'',
     md_standard = MISRA_C_2012,
     md_category = ADVISORY,
     md_severity = MINOR,
     md_title = ''Evaluation of constant unsigned integer expressions should not lead to wrap-around'',
     md_description = ''A constant unsigned integer expression should not wrap on evaluation.'',
     md_rationale = ''Wrap-around in constant expressions can hide an incorrect literal value.'',
     md_tags = [''expressions'', ''essential-types'', ''constants''],
     md_references = [''MISRA C:2012 Rule 12.4''],
     md_plugin_module = ''misra_platform_rules.standards.misra_c_2012.rules.rule_pack_expressions'',
     md_plugin_version = ''0.1.0'',
     md_requires_ast_nodes = [''BinaryOperator''],
     md_implementation_category = B_TYPE_SYSTEM,
     md_rule_pack = Some EXPRESSIONS,
     md_requires_type_info = True,
     md_requires_cfg = False,
     md_requires_dataflow = False,
     md_requires_linkage = False,
     md_requires_macro_expansion = False,
     md_rule_dependencies = []\<rparr>"

definition rule_12_4_finding :: "ast_node \<Rightarrow> finding" where
  "rule_12_4_finding n = \<lparr>
     fd_explanation = ''Constant unsigned integer expression wraps on evaluation.'',
     fd_risk_description = ''Wrap-around may indicate an incorrect constant value.'',
     fd_confidence_factors = factors 85 80 88 20 35,
     fd_confidence_score = dec2 75,
     fd_suggested_fix = Some \<lparr>sf_original_code = offending_text n,
       sf_suggested_code = ''use a wider essential type or a different literal'',
       sf_rationale = ''Avoid wrap-around in constant unsigned expressions.'',
       sf_confidence_score = dec2 35\<rparr>\<rparr>"

definition rule_12_4_findings :: "ast_graph \<Rightarrow> (ast_node \<times> finding) list" where
  "rule_12_4_findings g =
     report_where wraps_on_constant_unsigned rule_12_4_finding (nodes_by_kind g ''BinaryOperator'')"

definition rule_1_3_metadata :: rule_metadata where
  "rule_1_3_metadata = \<lparr>
     md_rule_id = ''misra-c2012-rule-1-3'',
     md_rule_number = ''1.3'',
     md_standard = MISRA_C_2012,
     md_category = REQUIRED,
     md_severity = CRITICAL,
     md_title = ''There shall be no occurrence of undefined or critical unspecified behaviour'',
     md_description = ''The program shall not rely on undefined or critical unspecified behaviour.'',
     md_rationale = ''Undefined behaviour makes program behaviour unpredictable and untestable.'',
     md_tags = [''expressions'', ''undefined-behaviour''],
     md_references = [''MISRA C:2012 Rule 1.3''],
     md_plugin_module = ''misra_platform_rules.standards.misra_c_2012.rules.rule_pack_expressions'',
     md_plugin_version = ''0.1.0'',
     md_requires_ast_nodes = [''BinaryOperator'', ''UnaryOperator'', ''CallExpr''],
     md_implementation_category = D_DATA_FLOW,
     md_rule_pack = Some EXPRESSIONS,
     md_requires_type_info = False,
     md_requires_cfg = False,
     md_requires_dataflow = False,
     md_requires_linkage = False,
     md_requires_macro_expansion = False,
     md_rule_dependencies = []\<rparr>"

definition rule_1_3_finding :: "finding" where
  "rule_1_3_finding = \<lparr>
     fd_explanation = ''This construct has undefined or critical unspecified behaviour.'',
     fd_risk_description = ''Undefined behaviour cannot be relied upon in safety-critical code.'',
     fd_confidence_factors = factors 90 85 85 10 30,
     fd_confidence_score = dec2 85,
     fd_suggested_fix = None\<rparr>"

definition rule_1_3_findings :: "ast_graph \<Rightarrow> (ast_node \<times> finding) list" where
  "rule_1_3_findings g = report_where has_undefined_behaviour (\<lambda>n. rule_1_3_finding) (all_nodes g)"

definition rule_13_2_metadata :: rule_metadata where
  "rule_13_2_metadata = \<lparr>
     md_rule_id = ''misra-c2012-rule-13-2'',
     md_rule_number = ''13.2'',
     md_standard = MISRA_C_2012,
     md_category = REQUIRED,
     md_severity = MAJOR,
     md_title = ''The value of an expression shall be the same under any permitted evaluation order'',
     md_description = ''An expression shall not depend on unordered evaluation of its sub-expressions.'',
     md_rationale = ''Unspecified evaluation order can yield different results on different executions.'',
     md_tags = [''expressions'', ''evaluation-order''],
     md_references = [''MISRA C:2012 Rule 13.2''],
     md_plugin_module = ''misra_platform_rules.standards.misra_c_2012.rules.rule_pack_expressions'',
     md_plugin_version = ''0.1.0'',
     md_requires_ast_nodes = [''BinaryOperator''],
     md_implementation_category = D_DATA_FLOW,
     md_rule_pack = Some EXPRESSIONS,
     md_requires_type_info = False,
     md_requires_cfg = False,
     md_requires_dataflow = False,
     md_requires_linkage = False,
     md_requires_macro_expansion = False,
     md_rule_dependencies = []\<rparr>"

definition rule_13_2_finding :: "ast_node \<Rightarrow> finding" where
  "rule_13_2_finding n = \<lparr>
     fd_explanation = ''Expression value depends on unspecified evaluation order.'',
     fd_risk_description = ''Permitted evaluation orders may yield different results.'',
     fd_confidence_factors = factors 88 80 85 12 40,
     fd_confidence_score = dec2 82,
     fd_suggested_fix = Some \<lparr>sf_original_code = offending_text n,
       sf_suggested_code = ''split into separate statements with a single side effect each'',
       sf_rationale = ''Do not rely on evaluation order between sub-expressions.'',
       sf_confidence_score = dec2 40\<rparr>\<rparr>"

definition rule_13_2_findings :: "ast_graph \<Rightarrow> (ast_node \<times> finding) list" where
  "rule_13_2_findings g =
     report_where has_unordered_evaluation rule_13_2_finding (nodes_by_kind g ''BinaryOperator'')"

definition rule_4_1_metadata :: rule_metadata where
  "rule_4_1_metadata = \<lparr>
     md_rule_id = ''misra-c2012-rule-4-1'',
     md_rule_number = ''4.1'',
     md_standard = MISRA_C_2012,
     md_category = REQUIRED,
     md_severity = MAJOR,
     md_title = ''Octal and hexadecimal escape sequences shall be terminated'',
     md_description = ''Every octal or hexadecimal escape sequence in a character or string literal shall be terminated.'',
     md_rationale = ''An unterminated escape sequence is undefined behaviour and may parse incorrectly.'',
     md_tags = [''expressions'', ''literals''],
     md_references = [''MISRA C:2012 Rule 4.1''],
     md_plugin_module = ''misra_platform_rules.standards.misra_c_2012.rules.rule_pack_expressions'',
     md_plugin_version = ''0.1.0'',
     md_requires_ast_nodes = [''CharacterLiteral'', ''StringLiteral''],
     md_implementation_category = A_AST_ONLY,
     md_rule_pack = Some EXPRESSIONS,
     md_requires_type_info = False,
     md_requires_cfg = False,
     md_requires_dataflow = False,
     md_requires_linkage = False,
     md_requires_macro_expansion = False,
     md_rule_dependencies = []\<rparr>"

definition rule_4_1_finding :: "ast_node \<Rightarrow> finding" where
  "rule_4_1_finding n = \<lparr>
     fd_explanation = ''A character or string literal contains an unterminated escape sequence.'',
     fd_risk_description = ''Unterminated escapes are undefined behaviour.'',
     fd_confidence_factors = factors 95 90 95 5 50,
     fd_confidence_score = dec2 90,
     fd_suggested_fix = Some \<lparr>sf_original_code = offending_text n,
       sf_suggested_code = ''terminate every octal/hex escape sequence'',
       sf_rationale = ''Escape sequences must be syntactically complete.'',
       sf_confidence_score = dec2 50\<rparr>\<rparr>"

definition rule_4_1_findings :: "ast_graph \<Rightarrow> (ast_node \<times> finding) list" where
  "rule_4_1_findings g =
     report_where (\<lambda>n.
         let terminated = prop_get (semantic_properties n) ''escape_sequence_terminated''
         in \<not> (\<not> sem_meta_true n ''unterminated_escape'' \<and> (terminated = PNone \<or> meta_true terminated)))
       rule_4_1_finding (nodes_by_kinds g [''CharacterLiteral'', ''StringLiteral''])"

definition rule_7_1_metadata :: rule_metadata where
  "rule_7_1_metadata = \<lparr>
     md_rule_id = ''misra-c2012-rule-7-1'',
     md_rule_number = ''7.1'',
     md_standard = MISRA_C_2012,
     md_category = REQUIRED,
     md_severity = MAJOR,
     md_title = ''Octal constants (other than zero) shall not be used'',
     md_description = ''An integer constant shall not use octal notation except for zero.'',
     md_rationale = ''Octal literals are easily misread because a leading zero looks like decimal zero padding.'',
     md_tags = [''expressions'', ''literals'', ''constants''],
     md_references = [''MISRA C:2012 Rule 7.1''],
     md_plugin_module = ''misra_platform_rules.standards.misra_c_2012.rules.rule_pack_expressions'',
     md_plugin_version = ''0.1.0'',
     md_requires_ast_nodes = [''IntegerLiteral''],
     md_implementation_category = A_AST_ONLY,
     md_rule_pack = Some EXPRESSIONS,
     md_requires_type_info = False,
     md_requires_cfg = False,
     md_requires_dataflow = False,
     md_requires_linkage = False,
     md_requires_macro_expansion = False,
     md_rule_dependencies = []\<rparr>"

definition rule_7_1_finding :: "ast_node \<Rightarrow> finding" where
  "rule_7_1_finding n = \<lparr>
     fd_explanation = ''A non-zero octal integer constant is used.'',
     fd_risk_description = ''Octal notation is error-prone and should be avoided.'',
     fd_confidence_factors = factors 95 90 95 5 60,
     fd_confidence_score = dec2 90,
     fd_suggested_fix = Some \<lparr>sf_original_code = offending_text n,
       sf_suggested_code = ''rewrite the constant in decimal or hexadecimal'',
       sf_rationale = ''Use decimal or hex instead of octal notation.'',
       sf_confidence_score = dec2 60\<rparr>\<rparr>"

definition rule_7_1_findings :: "ast_graph \<Rightarrow> (ast_node \<times> finding) list" where
  "rule_7_1_findings g =
     report_where (\<lambda>n. \<not> (prop_get (semantic_properties n) ''literal_base'' \<noteq> PStr ''octal''
         \<and> \<not> sem_meta_true n ''octal_nonzero_constant''))
       rule_7_1_finding (nodes_by_kind g ''IntegerLiteral'')"

definition rule_7_2_metadata :: rule_metadata where
  "rule_7_2_metadata = \<lparr>
     md_rule_id = ''misra-c2012-rule-7-2'',
     md_rule_number = ''7.2'',
     md_standard = MISRA_C_2012,
     md_category = REQUIRED,
     md_severity = MAJOR,
     md_title = ''A '' @ sq @ ''u'' @ sq @ '' or '' @ sq @ ''U'' @ sq @ '' suffix shall be applied to unsigned integer constants'',
     md_description = ''An integer constant with unsigned essential type shall include a u/U suffix.'',
     md_rationale = ''Missing unsigned suffixes rely on implicit conversion rules that are easy to get wrong.'',
     md_tags = [''expressions'', ''literals'', ''essential-types''],
     md_references = [''MISRA C:2012 Rule 7.2''],
     md_plugin_module = ''misra_platform_rules.standards.misra_c_2012.rules.rule_pack_expressions'',
     md_plugin_version = ''0.1.0'',
     md_requires_ast_nodes = [''IntegerLiteral''],
     md_implementation_category = B_TYPE_SYSTEM,
     md_rule_pack = Some EXPRESSIONS,
     md_requires_type_info = True,
     md_requires_cfg = False,
     md_requires_dataflow = False,
     md_requires_linkage = False,
     md_requires_macro_expansion = False,
     md_rule_dependencies = []\<rparr>"

definition rule_7_2_finding :: "string \<Rightarrow> ast_node \<Rightarrow> finding" where
  "rule_7_2_finding essential n = \<lparr>
     fd_explanation = ''Unsigned integer constant lacks a u/U suffix (essential type '' @ sq @ essential @ sq @ '').'',
     fd_risk_description = ''Implicit typing of unsigned constants can cause unexpected conversions.'',
     fd_confidence_factors = factors 92 88 95 8 70,
     fd_confidence_score = dec2 88,
     fd_suggested_fix = Some \<lparr>sf_original_code = offending_text n,
       sf_suggested_code = ''append a u or U suffix to the literal'',
       sf_rationale = ''Unsigned constants should spell out their unsignedness explicitly.'',
       sf_confidence_score = dec2 70\<rparr>\<rparr>"

definition rule_7_2_findings :: "ast_graph \<Rightarrow> (ast_node \<times> finding) list" where
  "rule_7_2_findings g =
     report_where (\<lambda>n. sem_meta_true n ''missing_u_suffix'' \<and> starts_with (ess_type n) ''unsigned'')
       (\<lambda>n. rule_7_2_finding (ess_type n) n) (nodes_by_kind g ''IntegerLiteral'')"

definition rule_7_3_metadata :: rule_metadata where
  "rule_7_3_metadata = \<lparr>
     md_rule_id = ''misra-c2012-rule-7-3'',
     md_rule_number = ''7.3'',
     md_standard = MISRA_C_2012,
     md_category = REQUIRED,
     md_severity = MAJOR,
     md_title = ''The lowercase '' @ sq @ ''l'' @ sq @ '' suffix shall not be used'',
     md_description = ''The lowercase letter '' @ sq @ ''l'' @ sq @ '' shall not be used in an integer constant suffix.'',
     md_rationale = ''Lowercase '' @ sq @ ''l'' @ sq @ '' is easily confused with the digit '' @ sq @ ''1'' @ sq @ ''.'',
     md_tags = [''expressions'', ''literals'', ''constants''],
     md_references = [''MISRA C:2012 Rule 7.3''],
     md_plugin_module = ''misra_platform_rules.standards.misra_c_2012.rules.rule_pack_expressions'',
     md_plugin_version = ''0.1.0'',
     md_requires_ast_nodes = [''IntegerLiteral''],
     md_implementation_category = A_AST_ONLY,
     md_rule_pack = Some EXPRESSIONS,
     md_requires_type_info = False,
     md_requires_cfg = False,
     md_requires_dataflow = False,
     md_requires_linkage = False,
     md_requires_macro_expansion = False,
     md_rule_dependencies = []\<rparr>"

definition rule_7_3_finding :: "ast_node \<Rightarrow> finding" where
  "rule_7_3_finding n = \<lparr>
     fd_explanation = ''An integer constant uses the lowercase '' @ sq @ ''l'' @ sq @ '' suffix.'',
     fd_risk_description = ''Lowercase '' @ sq @ ''l'' @ sq @ '' is visually indistinguishable from '' @ sq @ ''1'' @ sq @ '' in many fonts.'',
     fd_confidence_factors = factors 97 90 95 3 80,
     fd_confidence_score = dec2 92,
     fd_suggested_fix = Some \<lparr>sf_original_code = offending_text n,
       sf_suggested_code = ''use uppercase '' @ sq @ ''L'' @ sq @ '' instead of lowercase '' @ sq @ ''l'' @ sq,
       sf_rationale = ''Always use '' @ sq @ ''L'' @ sq @ '' for long integer suffixes.'',
       sf_confidence_score = dec2 80\<rparr>\<rparr>"

definition rule_7_3_findings :: "ast_graph \<Rightarrow> (ast_node \<times> finding) list" where
  "rule_7_3_findings g =
     report_where (\<lambda>n. sem_meta_true n ''uses_lowercase_l_suffix'') rule_7_3_finding (nodes_by_kind g ''IntegerLiteral'')"

definition rule_12_1_metadata :: rule_metadata where
  "rule_12_1_metadata = \<lparr>
     md_rule_id = ''misra-c2012-rule-12-1'',
     md_rule_number = ''12.1'',
     md_standard = MISRA_C_2012,
     md_category = ADVISORY,
     md_severity = MINOR,
     md_title = ''The precedence of operators within expressions should be made explicit'',
     md_description = ''Parentheses should be used where operator precedence is not immediately obvious.'',
     md_rationale = ''Implicit precedence is a common source of review mistakes.'',
     md_tags = [''expressions'', ''precedence''],
     md_references = [''MISRA C:2012 Rule 12.1''],
     md_plugin_module = ''misra_platform_rules.standards.misra_c_2012.rules.rule_pack_expressions'',
     md_plugin_version = ''0.1.0'',
     md_requires_ast_nodes = [''BinaryOperator''],
     md_implementation_category = A_AST_ONLY,
     md_rule_pack = Some EXPRESSIONS,
     md_requires_type_info = False,
     md_requires_cfg = False,
     md_requires_dataflow = False,
     md_requires_linkage = False,
     md_requires_macro_expansion = False,
     md_rule_dependencies = []\<rparr>"

definition rule_12_1_finding :: "string \<Rightarrow> ast_node \<Rightarrow> finding" where
  "rule_12_1_finding opcode n = \<lparr>
     fd_explanation = ''Operator precedence in this '' @ sq @ opcode @ sq @ '' expression should be made explicit.'',
     fd_risk_description = ''Unclear precedence can hide the author'' @ sq @ ''s intended evaluation order.'',
     fd_confidence_factors = factors 80 75 85 25 45,
     fd_confidence_score = dec2 72,
     fd_suggested_fix = Some \<lparr>sf_original_code = offending_text n,
       sf_suggested_code = ''add parentheses to clarify operator precedence'',
       sf_rationale = ''Make non-obvious precedence explicit with parentheses.'',
       sf_confidence_score = dec2 45\<rparr>\<rparr>"

definition rule_12_1_findings :: "ast_graph \<Rightarrow> (ast_node \<times> finding) list" where
  "rule_12_1_findings g =
     report_where (\<lambda>n. sem_meta_true n ''needs_explicit_parentheses'')
       (\<lambda>n. rule_12_1_finding (sem_str n ''opcode'') n) (nodes_by_kind g ''BinaryOperator'')"

definition rule_12_5_metadata :: rule_metadata where
  "rule_12_5_metadata = \<lparr>
     md_rule_id = ''misra-c2012-rule-12-5'',
     md_rule_number = ''12.5'',
     md_standard = MISRA_C_2012,
     md_category = MANDATORY,
     md_severity = CRITICAL,
     md_title = ''The sizeof operator shall not be applied to a function parameter declared as an array'',
     md_description = ''sizeof shall not be applied to a decayed array function parameter.'',
     md_rationale = ''sizeof on a decayed array parameter yields pointer size, not array size.'',
     md_tags = [''expressions'', ''sizeof'', ''arrays''],
     md_references = [''MISRA C:2012 Rule 12.5''],
     md_plugin_module = ''misra_platform_rules.standards.misra_c_2012.rules.rule_pack_expressions'',
     md_plugin_version = ''0.1.0'',
     md_requires_ast_nodes = [''UnaryOperator''],
     md_implementation_category = B_TYPE_SYSTEM,
     md_rule_pack = Some EXPRESSIONS,
     md_requires_type_info = True,
     md_requires_cfg = False,
     md_requires_dataflow = False,
     md_requires_linkage = False,
     md_requires_macro_expansion = False,
     md_rule_dependencies = []\<rparr>"

definition rule_12_5_finding :: "ast_node \<Rightarrow> finding" where
  "rule_12_5_finding n = \<lparr>
     fd_explanation = ''sizeof is applied to a decayed array function parameter.'',
     fd_risk_description = ''The result is the pointer size, not the declared array extent.'',
     fd_confidence_factors = factors 95 90 95 5 50,
     fd_confidence_score = dec2 90,
     fd_suggested_fix = Some \<lparr>sf_original_code = offending_text n,
       sf_suggested_code = ''pass the array length as a separate parameter instead of using sizeof'',
       sf_rationale = ''Do not use sizeof on a decayed array parameter.'',
       sf_confidence_score = dec2 50\<rparr>\<rparr>"

definition rule_12_5_findings :: "ast_graph \<Rightarrow> (ast_node \<times> finding) list" where
  "rule_12_5_findings g =
     report_where (\<lambda>n. sem_str n ''opcode'' = ''sizeof'' \<and> sem_meta_true n ''sizeof_operand_is_decayed_array'')
       rule_12_5_finding (nodes_by_kind g ''UnaryOperator'')"


subsection \<open>Pointer casts\<close>

definition rule_11_4_metadata :: rule_metadata where
  "rule_11_4_metadata = \<lparr>
     md_rule_id = ''misra-c2012-rule-11-4'',
     md_rule_number = ''11.4'',
     md_standard = MISRA_C_2012,
     md_category = ADVISORY,
     md_severity = MINOR,
     md_title = ''A conversion should not be performed between a pointer and an integer type'',
     md_description = ''A cast should not convert a pointer type to an integer type, or vice versa.'',
     md_rationale = ''Pointer/integer casts are non-portable and hide the true type of an address.'',
     md_tags = [''pointers'', ''casts''],
     md_references = [''MISRA C:2012 Rule 11.4''],
     md_plugin_module = ''misra_platform_rules.standards.misra_c_2012.rules.rule_pack_pointers'',
     md_plugin_version = ''0.1.0'',
     md_requires_ast_nodes = [''CStyleCastExpr''],
     md_implementation_category = B_TYPE_SYSTEM,
     md_rule_pack = Some POINTERS,
     md_requires_type_info = True,
     md_requires_cfg = False,
     md_requires_dataflow = False,
     md_requires_linkage = False,
     md_requires_macro_expansion = False,
     md_rule_dependencies = []\<rparr>"

definition rule_11_4_finding :: "ast_node \<Rightarrow> finding" where
  "rule_11_4_finding n = \<lparr>
     fd_explanation = ''Cast converts between a pointer type and an integer type.'',
     fd_risk_description = ''Pointer/integer representation is platform-dependent and unsafe to assume.'',
     fd_confidence_factors = factors 90 88 90 15 35,
     fd_confidence_score = dec2 75,
     fd_suggested_fix = Some \<lparr>sf_original_code = offending_text n,
       sf_suggested_code = ''avoid converting between pointer and integer types'',
       sf_rationale = ''Use uintptr_t only where a documented platform contract requires it.'',
       sf_confidence_score = dec2 35\<rparr>\<rparr>"

definition rule_11_4_findings :: "ast_graph \<Rightarrow> (ast_node \<times> finding) list" where
  "rule_11_4_findings g =
     report_some (\<lambda>n. case first_child g n of
         None \<Rightarrow> None
       | Some operand \<Rightarrow>
           if \<not> (is_pointer n \<and> ty_flag operand ''is_integer'' \<or> is_pointer operand \<and> ty_flag n ''is_integer'')
           then None else Some (rule_11_4_finding n))
       (nodes_by_kind g ''CStyleCastExpr'')"

definition rule_11_5_metadata :: rule_metadata where
  "rule_11_5_metadata = \<lparr>
     md_rule_id = ''misra-c2012-rule-11-5'',
     md_rule_number = ''11.5'',
     md_standard = MISRA_C_2012,
     md_category = ADVISORY,
     md_severity = MINOR,
     md_title = ''A conversion from pointer-to-void into pointer-to-object should not be performed'',
     md_description = ''A conversion should not be performed from a pointer to void into a pointer to an object type.'',
     md_rationale = ''void* conversions bypass type checking that would otherwise catch object-type mismatches.'',
     md_tags = [''pointers'', ''casts''],
     md_references = [''MISRA C:2012 Rule 11.5''],
     md_plugin_module = ''misra_platform_rules.standards.misra_c_2012.rules.rule_pack_pointers'',
     md_plugin_version = ''0.1.0'',
     md_requires_ast_nodes = [''CStyleCastExpr''],
     md_implementation_category = B_TYPE_SYSTEM,
     md_rule_pack = Some POINTERS,
     md_requires_type_info = True,
     md_requires_cfg = False,
     md_requires_dataflow = False,
     md_requires_linkage = False,
     md_requires_macro_expansion = False,
     md_rule_dependencies = []\<rparr>"

definition rule_11_5_finding :: "string \<Rightarrow> ast_node \<Rightarrow> finding" where
  "rule_11_5_finding target_pointee n = \<lparr>
     fd_explanation = ''Cast converts a void pointer into pointer-to-'' @ sq @ target_pointee @ sq @ ''.'',
     fd_risk_description = ''The compiler cannot verify the object actually has the target type.'',
     fd_confidence_factors = factors 88 85 90 20 30,
     fd_confidence_score = dec2 72,
     fd_suggested_fix = Some \<lparr>sf_original_code = offending_text n,
       sf_suggested_code = ''pass/store a correctly-typed pointer instead of converting through void*'',
       sf_rationale = ''Avoid implicit trust in a void* payload'' @ sq @ ''s real type.'',
       sf_confidence_score = dec2 30\<rparr>\<rparr>"

definition rule_11_5_findings :: "ast_graph \<Rightarrow> (ast_node \<times> finding) list" where
  "rule_11_5_findings g =
     report_some (\<lambda>n. case first_child g n of
         None \<Rightarrow> None
       | Some operand \<Rightarrow>
           if \<not> is_pointer n \<or> \<not> is_pointer operand then None
           else if pointee_type operand \<notin> {''void'', ''const void''} then None
           else if pointee_type n \<in> {''void'', ''const void'', ''''} then None
           else Some (rule_11_5_finding (pointee_type n) n))
       (nodes_by_kind g ''CStyleCastExpr'')"

definition rule_11_9_metadata :: rule_metadata where
  "rule_11_9_metadata = \<lparr>
     md_rule_id = ''misra-c2012-rule-11-9'',
     md_rule_number = ''11.9'',
     md_standard = MISRA_C_2012,
     md_category = REQUIRED,
     md_severity = MAJOR,
     md_title = ''NULL shall be the only integer constant used to represent a null pointer'',
     md_description = ''The macro NULL shall be the only integer null-pointer-constant used.'',
     md_rationale = ''Bare 0 casts obscure the null-pointer intent and cannot be searched for consistently.'',
     md_tags = [''pointers'', ''null-pointer''],
     md_references = [''MISRA C:2012 Rule 11.9''],
     md_plugin_module = ''misra_platform_rules.standards.misra_c_2012.rules.rule_pack_pointers'',
     md_plugin_version = ''0.1.0'',
     md_requires_ast_nodes = [''CStyleCastExpr'', ''IntegerLiteral''],
     md_implementation_category = A_AST_ONLY,
     md_rule_pack = Some POINTERS,
     md_requires_type_info = False,
     md_requires_cfg = False,
     md_requires_dataflow = False,
     md_requires_linkage = False,
     md_requires_macro_expansion = False,
     md_rule_dependencies = []\<rparr>"

definition rule_11_9_finding :: "ast_node \<Rightarrow> finding" where
  "rule_11_9_finding n = \<lparr>
     fd_explanation = ''A bare integer 0 (not the NULL macro) is cast to a pointer type.'',
     fd_risk_description = ''Inconsistent null-pointer spellings hide intent and complicate review.'',
     fd_confidence_factors = factors 90 85 70 10 80,
     fd_confidence_score = dec2 85,
     fd_suggested_fix = Some \<lparr>sf_original_code = offending_text n,
       sf_suggested_code = ''NULL'',
       sf_rationale = ''Use the NULL macro to spell the null-pointer constant.'',
       sf_confidence_score = dec2 80\<rparr>\<rparr>"

definition rule_11_9_findings :: "ast_graph \<Rightarrow> (ast_node \<times> finding) list" where
  "rule_11_9_findings g =
     report_some (\<lambda>n.
         if \<not> is_pointer n then None
         else case first_child g n of
           None \<Rightarrow> None
         | Some operand \<Rightarrow>
             if \<not> is_null_constant operand then None
             else if macro_name operand = ''NULL'' then None
             else Some (rule_11_9_finding n))
       (nodes_by_kind g ''CStyleCastExpr'')"

definition rule_11_3_metadata :: rule_metadata where
  "rule_11_3_metadata = \<lparr>
     md_rule_id = ''misra-c2012-rule-11-3'',
     md_rule_number = ''11.3'',
     md_standard = MISRA_C_2012,
     md_category = REQUIRED,
     md_severity = MAJOR,
     md_title = ''A cast shall not convert a pointer to an object type to a pointer to a different object type'',
     md_description = ''A cast shall not convert a pointer to one object type into a pointer to a different object type.'',
     md_rationale = ''Object-pointer casts bypass the type system and can produce misaligned access.'',
     md_tags = [''pointers'', ''casts''],
     md_references = [''MISRA C:2012 Rule 11.3''],
     md_plugin_module = ''misra_platform_rules.standards.misra_c_2012.rules.rule_pack_pointers'',
     md_plugin_version = ''0.1.0'',
     md_requires_ast_nodes = [''CStyleCastExpr''],
     md_implementation_category = B_TYPE_SYSTEM,
     md_rule_pack = Some POINTERS,
     md_requires_type_info = True,
     md_requires_cfg = False,
     md_requires_dataflow = False,
     md_requires_linkage = False,
     md_requires_macro_expansion = False,
     md_rule_dependencies = []\<rparr>"

definition rule_11_3_finding :: "string \<Rightarrow> string \<Rightarrow> finding" where
  "rule_11_3_finding source_pointee target_pointee = \<lparr>
     fd_explanation = ''Cast converts pointer-to-'' @ sq @ source_pointee @ sq @ '' into pointer-to-'' @ sq @ target_pointee @ sq @ ''.'',
     fd_risk_description = ''Object-pointer casts can produce misaligned or invalid access.'',
     fd_confidence_factors = factors 90 88 90 10 25,
     fd_confidence_score = dec2 86,
     fd_suggested_fix = None\<rparr>"

definition rule_11_3_findings :: "ast_graph \<Rightarrow> (ast_node \<times> finding) list" where
  "rule_11_3_findings g =
     report_some (\<lambda>n. case first_child g n of
         None \<Rightarrow> None
       | Some operand \<Rightarrow>
           if \<not> changes_object_pointer_type n operand then None
           else Some (rule_11_3_finding (pointee_type operand) (pointee_type n)))
       (nodes_by_kind g ''CStyleCastExpr'')"

definition rule_11_7_metadata :: rule_metadata where
  "rule_11_7_metadata = \<lparr>
     md_rule_id = ''misra-c2012-rule-11-7'',
     md_rule_number = ''11.7'',
     md_standard = MISRA_C_2012,
     md_category = REQUIRED,
     md_severity = MAJOR,
     md_title = ''A cast shall not convert a pointer type to a non-integer arithmetic type'',
     md_description = ''A cast shall not convert a pointer type into a floating-point arithmetic type.'',
     md_rationale = ''Pointer-to-float casts are non-portable and hide the true representation.'',
     md_tags = [''pointers'', ''casts''],
     md_references = [''MISRA C:2012 Rule 11.7''],
     md_plugin_module = ''misra_platform_rules.standards.misra_c_2012.rules.rule_pack_pointers'',
     md_plugin_version = ''0.1.0'',
     md_requires_ast_nodes = [''CStyleCastExpr''],
     md_implementation_category = B_TYPE_SYSTEM,
     md_rule_pack = Some POINTERS,
     md_requires_type_info = True,
     md_requires_cfg = False,
     md_requires_dataflow = False,
     md_requires_linkage = False,
     md_requires_macro_expansion = False,
     md_rule_dependencies = []\<rparr>"

definition rule_11_7_finding :: "string \<Rightarrow> finding" where
  "rule_11_7_finding target_type = \<lparr>
     fd_explanation = ''Pointer cast to non-integer arithmetic essential type '' @ sq @ target_type @ sq @ ''.'',
     fd_risk_description = ''Pointer-to-floating conversions are non-portable and unsafe.'',
     fd_confidence_factors = factors 90 85 88 10 20,
     fd_confidence_score = dec2 85,
     fd_suggested_fix = None\<rparr>"

definition rule_11_7_findings :: "ast_graph \<Rightarrow> (ast_node \<times> finding) list" where
  "rule_11_7_findings g =
     report_some (\<lambda>n. case first_child g n of
         None \<Rightarrow> None
       | Some operand \<Rightarrow>
           if \<not> casts_pointer_to_non_integer_arithmetic n operand then None
           else Some (rule_11_7_finding (ess_type n)))
       (nodes_by_kind g ''CStyleCastExpr'')"

definition rule_11_2_metadata :: rule_metadata where
  "rule_11_2_metadata = \<lparr>
     md_rule_id = ''misra-c2012-rule-11-2'',
     md_rule_number = ''11.2'',
     md_standard = MISRA_C_2012,
     md_category = REQUIRED,
     md_severity = MAJOR,
     md_title = ''Conversions shall not be performed between a pointer to an incomplete type and any other type'',
     md_description = ''A cast shall not convert to or from a pointer to an incomplete type.'',
     md_rationale = ''Incomplete-type pointer conversions bypass essential type checking.'',
     md_tags = [''pointers'', ''casts'', ''incomplete-types''],
     md_references = [''MISRA C:2012 Rule 11.2''],
     md_plugin_module = ''misra_platform_rules.standards.misra_c_2012.rules.rule_pack_pointers'',
     md_plugin_version = ''0.1.0'',
     md_requires_ast_nodes = [''CStyleCastExpr''],
     md_implementation_category = B_TYPE_SYSTEM,
     md_rule_pack = Some POINTERS,
     md_requires_type_info = True,
     md_requires_cfg = False,
     md_requires_dataflow = False,
     md_requires_linkage = False,
     md_requires_macro_expansion = False,
     md_rule_dependencies = []\<rparr>"

definition rule_11_2_finding :: "ast_node \<Rightarrow> finding" where
  "rule_11_2_finding n = \<lparr>
     fd_explanation = ''Cast converts to or from a pointer to an incomplete type.'',
     fd_risk_description = ''Incomplete-type conversions are unsafe and non-portable.'',
     fd_confidence_factors = factors 92 88 90 10 35,
     fd_confidence_score = dec2 85,
     fd_suggested_fix = Some \<lparr>sf_original_code = offending_text n,
       sf_suggested_code = ''complete the type before converting the pointer'',
       sf_rationale = ''Avoid casts involving incomplete object types.'',
       sf_confidence_score = dec2 35\<rparr>\<rparr>"

definition rule_11_2_findings :: "ast_graph \<Rightarrow> (ast_node \<times> finding) list" where
  "rule_11_2_findings g =
     report_where (\<lambda>n. sem_meta_true n ''converts_to_incomplete'' \<or> sem_meta_true n ''converts_from_incomplete'')
       rule_11_2_finding (nodes_by_kind g ''CStyleCastExpr'')"

subsection \<open>Pointer arithmetic and comparison\<close>

definition rule_18_2_metadata :: rule_metadata where
  "rule_18_2_metadata = \<lparr>
     md_rule_id = ''misra-c2012-rule-18-2'',
     md_rule_number = ''18.2'',
     md_standard = MISRA_C_2012,
     md_category = REQUIRED,
     md_severity = MAJOR,
     md_title = ''Subtraction between pointers shall only be applied to elements of the same array'',
     md_description = ''Subtraction shall not be applied to two pointers that do not point into the same array.'',
     md_rationale = ''Subtracting pointers into different objects is undefined behaviour.'',
     md_tags = [''pointers'', ''arrays''],
     md_references = [''MISRA C:2012 Rule 18.2''],
     md_plugin_module = ''misra_platform_rules.standards.misra_c_2012.rules.rule_pack_pointers'',
     md_plugin_version = ''0.1.0'',
     md_requires_ast_nodes = [''BinaryOperator''],
     md_implementation_category = B_TYPE_SYSTEM,
     md_rule_pack = Some POINTERS,
     md_requires_type_info = True,
     md_requires_cfg = False,
     md_requires_dataflow = False,
     md_requires_linkage = False,
     md_requires_macro_expansion = False,
     md_rule_dependencies = []\<rparr>"

definition rule_18_2_finding :: "string \<Rightarrow> string \<Rightarrow> finding" where
  "rule_18_2_finding left_pointee right_pointee = \<lparr>
     fd_explanation = ''Pointer subtraction between incompatible pointee types '' @ sq @ left_pointee @ sq @ '' and '' @ sq @ right_pointee @ sq @ ''.'',
     fd_risk_description = ''Pointers into different arrays/objects cannot be validly subtracted.'',
     fd_confidence_factors = factors 92 88 90 10 30,
     fd_confidence_score = dec2 86,
     fd_suggested_fix = None\<rparr>"

definition rule_18_2_findings :: "ast_graph \<Rightarrow> (ast_node \<times> finding) list" where
  "rule_18_2_findings g =
     report_some (\<lambda>n. case first_two g n of
         None \<Rightarrow> None
       | Some (a, b) \<Rightarrow>
           (let left_pointee = pointee_type a; right_pointee = pointee_type b in
            if \<not> is_two_pointer_subtraction n (children g (node_id n)) then None
            else if left_pointee = [] \<or> right_pointee = [] \<or> left_pointee = right_pointee then None
            else Some (rule_18_2_finding left_pointee right_pointee)))
       (nodes_by_kind g ''BinaryOperator'')"

definition pointer_relational_opcodes :: "string list" where
  "pointer_relational_opcodes = [''<'', ''>'', ''<='', ''>='']"

definition rule_18_3_metadata :: rule_metadata where
  "rule_18_3_metadata = \<lparr>
     md_rule_id = ''misra-c2012-rule-18-3'',
     md_rule_number = ''18.3'',
     md_standard = MISRA_C_2012,
     md_category = REQUIRED,
     md_severity = MAJOR,
     md_title = ''Relational operators shall only be applied to pointers into the same object'',
     md_description = ''<, >, <=, >= shall not compare pointers that do not point into the same array/object.'',
     md_rationale = ''Relational comparison of pointers into different objects is undefined behaviour.'',
     md_tags = [''pointers'', ''arrays''],
     md_references = [''MISRA C:2012 Rule 18.3''],
     md_plugin_module = ''misra_platform_rules.standards.misra_c_2012.rules.rule_pack_pointers'',
     md_plugin_version = ''0.1.0'',
     md_requires_ast_nodes = [''BinaryOperator''],
     md_implementation_category = B_TYPE_SYSTEM,
     md_rule_pack = Some POINTERS,
     md_requires_type_info = True,
     md_requires_cfg = False,
     md_requires_dataflow = False,
     md_requires_linkage = False,
     md_requires_macro_expansion = False,
     md_rule_dependencies = []\<rparr>"

definition rule_18_3_finding :: "string \<Rightarrow> string \<Rightarrow> string \<Rightarrow> finding" where
  "rule_18_3_finding opcode left_pointee right_pointee = \<lparr>
     fd_explanation = ''Relational operator '' @ sq @ opcode @ sq @ '' compares pointers with incompatible pointee types '' @ sq @ left_pointee @ sq @ '' and '' @ sq @ right_pointee @ sq @ ''.'',
     fd_risk_description = ''Comparing pointers into different objects with <, >, <=, >= is undefined behaviour.'',
     fd_confidence_factors = factors 90 85 90 12 25,
     fd_confidence_score = dec2 83,
     fd_suggested_fix = None\<rparr>"

definition rule_18_3_findings :: "ast_graph \<Rightarrow> (ast_node \<times> finding) list" where
  "rule_18_3_findings g =
     report_some (\<lambda>n.
         if sem_str n ''opcode'' \<notin> set pointer_relational_opcodes then None
         else case first_two g n of
           None \<Rightarrow> None
         | Some (a, b) \<Rightarrow>
             (let left_pointee = pointee_type a; right_pointee = pointee_type b in
              if \<not> (is_pointer a \<and> is_pointer b) then None
              else if left_pointee = [] \<or> right_pointee = [] \<or> left_pointee = right_pointee then None
              else Some (rule_18_3_finding (sem_str n ''opcode'') left_pointee right_pointee)))
       (nodes_by_kind g ''BinaryOperator'')"

definition rule_18_4_metadata :: rule_metadata where
  "rule_18_4_metadata = \<lparr>
     md_rule_id = ''misra-c2012-rule-18-4'',
     md_rule_number = ''18.4'',
     md_standard = MISRA_C_2012,
     md_category = ADVISORY,
     md_severity = MINOR,
     md_title = ''The +, -, += and -= operators should not be applied to an expression of pointer type'',
     md_description = ''Pointer arithmetic via +, -, += or -= should be avoided in favour of array indexing.'',
     md_rationale = ''Direct pointer arithmetic is harder to bound-check by inspection than array indexing.'',
     md_tags = [''pointers'', ''arithmetic''],
     md_references = [''MISRA C:2012 Rule 18.4''],
     md_plugin_module = ''misra_platform_rules.standards.misra_c_2012.rules.rule_pack_pointers'',
     md_plugin_version = ''0.1.0'',
     md_requires_ast_nodes = [''BinaryOperator''],
     md_implementation_category = B_TYPE_SYSTEM,
     md_rule_pack = Some POINTERS,
     md_requires_type_info = True,
     md_requires_cfg = False,
     md_requires_dataflow = False,
     md_requires_linkage = False,
     md_requires_macro_expansion = False,
     md_rule_dependencies = []\<rparr>"

definition rule_18_4_finding :: "string \<Rightarrow> ast_node \<Rightarrow> finding" where
  "rule_18_4_finding opcode n = \<lparr>
     fd_explanation = ''Pointer arithmetic performed using the '' @ sq @ opcode @ sq @ '' operator.'',
     fd_risk_description = ''Pointer arithmetic is harder to bound-check by inspection than array indexing.'',
     fd_confidence_factors = factors 85 85 90 20 40,
     fd_confidence_score = dec2 70,
     fd_suggested_fix = Some \<lparr>sf_original_code = offending_text n,
       sf_suggested_code = ''index the array instead of performing pointer arithmetic directly'',
       sf_rationale = ''Array indexing documents bounds more clearly than raw pointer arithmetic.'',
       sf_confidence_score = dec2 40\<rparr>\<rparr>"

definition rule_18_4_findings :: "ast_graph \<Rightarrow> (ast_node \<times> finding) list" where
  "rule_18_4_findings g =
     report_where (\<lambda>n. is_pointer_arithmetic n (children g (node_id n)))
       (\<lambda>n. rule_18_4_finding (sem_str n ''opcode'') n) (nodes_by_kind g ''BinaryOperator'')"

subsection \<open>Aliasing\<close>

fun confidence_str :: "confidence \<Rightarrow> string" where
  "confidence_str Definite = ''definite''"
| "confidence_str Possible = ''possible''"
| "confidence_str Unknown_Conf = ''unknown''"

definition overlap_sensitive_callees :: "string list" where
  "overlap_sensitive_callees = [''memcpy'', ''strcpy'', ''strcat'']"

definition rule_19_1_metadata :: rule_metadata where
  "rule_19_1_metadata = \<lparr>
     md_rule_id = ''misra-c2012-rule-19-1'',
     md_rule_number = ''19.1'',
     md_standard = MISRA_C_2012,
     md_category = MANDATORY,
     md_severity = CRITICAL,
     md_title = ''An object shall not be copied to an overlapping object'',
     md_description = ''memcpy (and similar copies) shall not be used on source/destination pointers that may alias.'',
     md_rationale = ''memcpy'' @ sq @ ''s behaviour on overlapping regions is undefined; memmove exists precisely for that case.'',
     md_tags = [''pointers'', ''aliasing'', ''memory''],
     md_references = [''MISRA C:2012 Rule 19.1''],
     md_plugin_module = ''misra_platform_rules.standards.misra_c_2012.rules.rule_pack_pointers'',
     md_plugin_version = ''0.1.0'',
     md_requires_ast_nodes = [''CallExpr'', ''FunctionDecl''],
     md_implementation_category = D_DATA_FLOW,
     md_rule_pack = Some POINTERS,
     md_requires_type_info = False,
     md_requires_cfg = False,
     md_requires_dataflow = True,
     md_requires_linkage = False,
     md_requires_macro_expansion = False,
     md_rule_dependencies = []\<rparr>"

definition rule_19_1_finding :: "string \<Rightarrow> string \<Rightarrow> string \<Rightarrow> string \<Rightarrow> rat \<Rightarrow> finding" where
  "rule_19_1_finding callee_name dest_name source_name confidence score = \<lparr>
     fd_explanation = sq @ callee_name @ ''('' @ dest_name @ '', '' @ source_name @ '', ...)'' @ sq @ '' may copy between overlapping objects ('' @ confidence @ '' alias).'',
     fd_risk_description = callee_name @ sq @ ''s behaviour on overlapping source/destination is undefined.'',
     fd_confidence_factors = factors 85 70 85 20 50,
     fd_confidence_score = score,
     fd_suggested_fix = Some \<lparr>sf_original_code = callee_name @ ''('' @ dest_name @ '', '' @ source_name @ '', n)'',
       sf_suggested_code = ''memmove('' @ dest_name @ '', '' @ source_name @ '', n)'',
       sf_rationale = ''Use memmove when source and destination may overlap.'',
       sf_confidence_score = dec2 50\<rparr>\<rparr>"

definition overlap_finding :: "ast_graph \<Rightarrow> points_to_map \<Rightarrow> ast_node \<Rightarrow> finding option" where
  "overlap_finding g pts call_node =
     (let callee = sem_str call_node ''callee'' in
      if node_kind call_node \<noteq> ''CallExpr'' then None
      else if callee \<notin> set overlap_sensitive_callees then None
      else case first_two g call_node of
        None \<Rightarrow> None
      | Some (dest, source) \<Rightarrow>
          (let dest_name = sem_str dest ''name''; source_name = sem_str source ''name''; alias = may_alias pts dest_name source_name in
           if node_kind dest \<noteq> ''DeclRefExpr'' \<or> node_kind source \<noteq> ''DeclRefExpr'' then None
           else if dest_name = [] \<or> source_name = [] \<or> dest_name = source_name then None
           else if \<not> fst alias then None
           else Some (rule_19_1_finding callee dest_name source_name (confidence_str (snd alias))
                  (if snd alias = Definite then dec2 90 else dec2 65))))"

definition rule_19_1_findings :: "ast_graph \<Rightarrow> (ast_node \<times> finding) list option" where
  "rule_19_1_findings g =
     opt_concat_map (\<lambda>fn.
        if \<not> has_body g fn then Some []
        else do {
          pts \<leftarrow> analyze_aliases fn g;
          ds \<leftarrow> descendants g (node_id fn);
          Some (report_some (overlap_finding g pts) ds) })
      (nodes_by_kind g ''FunctionDecl'')"

definition rule_18_1_metadata :: rule_metadata where
  "rule_18_1_metadata = \<lparr>
     md_rule_id = ''misra-c2012-rule-18-1'',
     md_rule_number = ''18.1'',
     md_standard = MISRA_C_2012,
     md_category = REQUIRED,
     md_severity = MAJOR,
     md_title = ''Pointer arithmetic shall only address elements of the same array'',
     md_description = ''Pointer arithmetic shall only be applied to pointers that address elements of an array.'',
     md_rationale = ''Pointer arithmetic outside an array'' @ sq @ ''s bounds is undefined behaviour.'',
     md_tags = [''pointers'', ''aliasing'', ''pointer-arithmetic''],
     md_references = [''MISRA C:2012 Rule 18.1''],
     md_plugin_module = ''misra_platform_rules.standards.misra_c_2012.rules.rule_pack_pointers'',
     md_plugin_version = ''0.1.0'',
     md_requires_ast_nodes = [''FunctionDecl'', ''BinaryOperator''],
     md_implementation_category = D_DATA_FLOW,
     md_rule_pack = Some POINTERS,
     md_requires_type_info = False,
     md_requires_cfg = False,
     md_requires_dataflow = True,
     md_requires_linkage = False,
     md_requires_macro_expansion = False,
     md_rule_dependencies = []\<rparr>"

definition rule_18_1_finding :: "ast_node \<Rightarrow> finding" where
  "rule_18_1_finding n = \<lparr>
     fd_explanation = ''Pointer arithmetic may address outside the bounds of an array.'',
     fd_risk_description = ''Out-of-bounds pointer arithmetic is undefined behaviour.'',
     fd_confidence_factors = factors 85 75 85 20 40,
     fd_confidence_score = dec2 78,
     fd_suggested_fix = Some \<lparr>sf_original_code = offending_text n,
       sf_suggested_code = ''use array indexing with a verified bound'',
       sf_rationale = ''Index the array instead of advancing a pointer past its end.'',
       sf_confidence_score = dec2 40\<rparr>\<rparr>"

definition rule_18_1_findings :: "ast_graph \<Rightarrow> (ast_node \<times> finding) list option" where
  "rule_18_1_findings g =
     opt_concat_map (\<lambda>fn.
        if \<not> has_body g fn then Some []
        else do {
          pts \<leftarrow> analyze_aliases fn g;
          ns \<leftarrow> pointer_arithmetic_violations pts fn g;
          Some (map (\<lambda>n. (n, rule_18_1_finding n)) ns) })
      (nodes_by_kind g ''FunctionDecl'')"

subsection \<open>Pointer nesting\<close>

definition rule_18_5_metadata :: rule_metadata where
  "rule_18_5_metadata = \<lparr>
     md_rule_id = ''misra-c2012-rule-18-5'',
     md_rule_number = ''18.5'',
     md_standard = MISRA_C_2012,
     md_category = ADVISORY,
     md_severity = MINOR,
     md_title = ''Declarations should contain no more than two levels of pointer nesting'',
     md_description = ''A declaration should use at most two levels of pointer indirection.'',
     md_rationale = ''Deep pointer nesting obscures ownership and aliasing relationships.'',
     md_tags = [''pointers'', ''declarations''],
     md_references = [''MISRA C:2012 Rule 18.5''],
     md_plugin_module = ''misra_platform_rules.standards.misra_c_2012.rules.rule_pack_pointers'',
     md_plugin_version = ''0.1.0'',
     md_requires_ast_nodes = [''VarDecl'', ''ParmVarDecl''],
     md_implementation_category = B_TYPE_SYSTEM,
     md_rule_pack = Some POINTERS,
     md_requires_type_info = True,
     md_requires_cfg = False,
     md_requires_dataflow = False,
     md_requires_linkage = False,
     md_requires_macro_expansion = False,
     md_rule_dependencies = []\<rparr>"

definition rule_18_5_finding :: "string \<Rightarrow> string \<Rightarrow> ast_node \<Rightarrow> finding" where
  "rule_18_5_finding name depth_txt n = \<lparr>
     fd_explanation = sq @ name @ sq @ '' declares '' @ depth_txt @ '' levels of pointer nesting.'',
     fd_risk_description = ''More than two pointer levels are hard to review and reason about.'',
     fd_confidence_factors = factors 90 88 90 15 30,
     fd_confidence_score = dec2 82,
     fd_suggested_fix = Some \<lparr>sf_original_code = offending_text n,
       sf_suggested_code = ''reduce pointer nesting with a struct or typedef wrapper'',
       sf_rationale = ''Keep pointer indirection to at most two levels.'',
       sf_confidence_score = dec2 30\<rparr>\<rparr>"

text \<open>\<open>depth <= 2\<close> raises on a string, which is what the worker sends.\<close>

definition rule_18_5_findings :: "ast_graph \<Rightarrow> py_error + (ast_node \<times> finding) list" where
  "rule_18_5_findings g =
     sum_concat_map (\<lambda>n.
         let depth = (case map_of (type_information n) ''pointer_nesting_depth'' of None \<Rightarrow> PInt 0 | Some v \<Rightarrow> v) in
         case py_num depth of
           Inl e \<Rightarrow> Inl e
         | Inr d \<Rightarrow> if d \<le> 2 then Inr []
                   else Inr [(n, rule_18_5_finding (sem_name n ''<decl>'') (py_str depth) n)])
       (nodes_by_kinds g [''VarDecl'', ''ParmVarDecl''])"

subsection \<open>The packs\<close>

definition expressions_pack :: "rule_plugin list" where
  "expressions_pack =
     [scan_rule rule_12_3_metadata (\<lambda>ctx g. rule_12_3_findings g),
      scan_rule rule_13_4_metadata (\<lambda>ctx g. rule_13_4_findings g),
      loop_rule rule_13_5_metadata (\<lambda>d ctx g. rule_13_5_findings d g),
      scan_rule rule_14_4_metadata (\<lambda>ctx g. rule_14_4_findings g),
      loop_rule rule_13_1_metadata (\<lambda>d ctx g. rule_13_1_findings d g),
      loop_rule rule_13_6_metadata (\<lambda>d ctx g. rule_13_6_findings d g),
      loop_rule rule_13_3_metadata (\<lambda>d ctx g. rule_13_3_findings d g),
      scan_rule rule_17_7_metadata (\<lambda>ctx g. rule_17_7_findings g),
      raising_rule rule_12_2_metadata rule_12_2_findings,
      scan_rule rule_12_4_metadata (\<lambda>ctx g. rule_12_4_findings g),
      scan_rule rule_1_3_metadata (\<lambda>ctx g. rule_1_3_findings g),
      scan_rule rule_13_2_metadata (\<lambda>ctx g. rule_13_2_findings g),
      scan_rule rule_4_1_metadata (\<lambda>ctx g. rule_4_1_findings g),
      scan_rule rule_7_1_metadata (\<lambda>ctx g. rule_7_1_findings g),
      scan_rule rule_7_2_metadata (\<lambda>ctx g. rule_7_2_findings g),
      scan_rule rule_7_3_metadata (\<lambda>ctx g. rule_7_3_findings g),
      scan_rule rule_12_1_metadata (\<lambda>ctx g. rule_12_1_findings g),
      scan_rule rule_12_5_metadata (\<lambda>ctx g. rule_12_5_findings g)]"

definition pointers_pack :: "rule_plugin list" where
  "pointers_pack =
     [scan_rule rule_11_4_metadata (\<lambda>ctx g. rule_11_4_findings g),
      scan_rule rule_11_5_metadata (\<lambda>ctx g. rule_11_5_findings g),
      scan_rule rule_11_9_metadata (\<lambda>ctx g. rule_11_9_findings g),
      scan_rule rule_18_2_metadata (\<lambda>ctx g. rule_18_2_findings g),
      scan_rule rule_18_3_metadata (\<lambda>ctx g. rule_18_3_findings g),
      scan_rule rule_18_4_metadata (\<lambda>ctx g. rule_18_4_findings g),
      loop_rule rule_19_1_metadata (\<lambda>d ctx g. rule_19_1_findings g),
      scan_rule rule_11_3_metadata (\<lambda>ctx g. rule_11_3_findings g),
      scan_rule rule_11_7_metadata (\<lambda>ctx g. rule_11_7_findings g),
      loop_rule rule_18_1_metadata (\<lambda>d ctx g. rule_18_1_findings g),
      scan_rule rule_11_2_metadata (\<lambda>ctx g. rule_11_2_findings g),
      raising_rule rule_18_5_metadata rule_18_5_findings]"

end
