(* ===== verification/Call_Cycles.thy ===== *)
theory Call_Cycles
  imports Linkage
begin

text \<open>
  \<open>LinkageIndex.functions_in_recursion_cycles\<close> (\<open>linkage_index.py\<close>): Tarjan's algorithm on the
  call graph, and its correctness.  The dictionaries \<open>indices\<close> and \<open>lowlink\<close> are maps, the
  Python stack is a list with its top at the head; \<open>depth\<close> is the recursion limit.
\<close>

subsection \<open>The algorithm\<close>

record tarjan =
  tj_index :: nat
  tj_indices :: "string \<Rightarrow> nat option"
  tj_lowlink :: "string \<Rightarrow> nat option"
  tj_on_stack :: "string set"
  tj_stack :: "string list"
  tj_cycles :: "string list list"

definition init_tarjan :: tarjan where
  "init_tarjan = \<lparr>tj_index = 0, tj_indices = Map.empty, tj_lowlink = Map.empty,
     tj_on_stack = {}, tj_stack = [], tj_cycles = []\<rparr>"

definition callees_in :: "(string, string list) dict \<Rightarrow> string \<Rightarrow> string list" where
  "callees_in cg v = dict_get_default [] cg v"

definition enter_node :: "string \<Rightarrow> tarjan \<Rightarrow> tarjan" where
  "enter_node v s = s
     \<lparr>tj_indices := (tj_indices s)(v \<mapsto> tj_index s),
      tj_lowlink := (tj_lowlink s)(v \<mapsto> tj_index s),
      tj_index := tj_index s + 1,
      tj_stack := v # tj_stack s,
      tj_on_stack := insert v (tj_on_stack s)\<rparr>"

text \<open>\<open>lowlink[v] = min(lowlink[v], n)\<close>\<close>

definition lower_link :: "string \<Rightarrow> nat \<Rightarrow> tarjan \<Rightarrow> tarjan" where
  "lower_link v n s = s\<lparr>tj_lowlink := (tj_lowlink s)(v \<mapsto> min (the (tj_lowlink s v)) n)\<rparr>"

definition visit_callee ::
    "(string \<Rightarrow> tarjan \<Rightarrow> tarjan option) \<Rightarrow> string \<Rightarrow> string \<Rightarrow> tarjan \<Rightarrow> tarjan option" where
  "visit_callee rec v w s =
     (if tj_indices s w = None then do { s' \<leftarrow> rec w s; Some (lower_link v (the (tj_lowlink s' w)) s') }
      else if w \<in> tj_on_stack s then Some (lower_link v (the (tj_indices s w)) s)
      else Some s)"

text \<open>The popping loop: the component and the rest of the stack.  It never pops an empty stack.\<close>

fun pop_component :: "string \<Rightarrow> string list \<Rightarrow> string list \<times> string list" where
  "pop_component v [] = ([], [])"
| "pop_component v (w # ws) =
     (if w = v then ([w], ws) else (case pop_component v ws of (members, rest) \<Rightarrow> (w # members, rest)))"

definition close_node :: "(string, string list) dict \<Rightarrow> string \<Rightarrow> tarjan \<Rightarrow> tarjan" where
  "close_node cg v s =
     (if tj_lowlink s v = tj_indices s v then
        (case pop_component v (tj_stack s) of (members, rest) \<Rightarrow> s
           \<lparr>tj_stack := rest, tj_on_stack := tj_on_stack s - set members,
            tj_cycles := (if length (remdups members) > 1
                             \<or> length (remdups members) = 1 \<and> v \<in> set (callees_in cg v)
                          then tj_cycles s @ [members] else tj_cycles s)\<rparr>)
      else s)"

fun strongconnect :: "nat \<Rightarrow> (string, string list) dict \<Rightarrow> string \<Rightarrow> tarjan \<Rightarrow> tarjan option" where
  "strongconnect 0 cg v s = None"
| "strongconnect (Suc depth) cg v s = do {
     s' \<leftarrow> opt_fold (visit_callee (strongconnect depth cg) v) (callees_in cg v) (enter_node v s);
     Some (close_node cg v s') }"

definition connect_all :: "nat \<Rightarrow> (string, string list) dict \<Rightarrow> string list \<Rightarrow> tarjan \<Rightarrow> tarjan option" where
  "connect_all depth cg names s =
     opt_fold (\<lambda>name s. if tj_indices s name = None then strongconnect depth cg name s else Some s) names s"

definition functions_in_recursion_cycles :: "nat \<Rightarrow> (string, string list) dict \<Rightarrow> string list option" where
  "functions_in_recursion_cycles depth cg =
     (if cg = [] then Some []
      else do {
        s \<leftarrow> connect_all depth cg (dict_keys cg) init_tarjan;
        Some (sorted_unique (concat (tj_cycles s))) })"

subsection \<open>The invariant\<close>

definition call_rel :: "(string, string list) dict \<Rightarrow> (string \<times> string) set" where
  "call_rel cg = {(v, w). w \<in> set (callees_in cg v)}"

abbreviation idx :: "tarjan \<Rightarrow> string \<Rightarrow> nat" where
  "idx s v \<equiv> the (tj_indices s v)"

abbreviation low :: "tarjan \<Rightarrow> string \<Rightarrow> nat" where
  "low s v \<equiv> the (tj_lowlink s v)"

abbreviation visited :: "tarjan \<Rightarrow> string set" where
  "visited s \<equiv> dom (tj_indices s)"

abbreviation popped :: "tarjan \<Rightarrow> string set" where
  "popped s \<equiv> visited s - set (tj_stack s)"

text \<open>
  \<open>gray\<close> is the set of nodes whose call is still running.  Stack positions follow the visiting
  order; a finished node's callees are visited; what was popped is closed under calls; a gray
  node reaches everything above it on the stack, and every stack node reaches a gray node at or
  below it; the cycles found are the popped nodes that reach themselves.
\<close>

definition stack_inv :: "string set \<Rightarrow> tarjan \<Rightarrow> bool" where
  "stack_inv gray s \<longleftrightarrow> distinct (tj_stack s) \<and> tj_on_stack s = set (tj_stack s)
     \<and> set (tj_stack s) \<subseteq> visited s \<and> gray \<subseteq> set (tj_stack s)
     \<and> sorted_wrt (\<lambda>x y. idx s y < idx s x) (tj_stack s)
     \<and> (\<forall>v \<in> visited s. idx s v < tj_index s)"

definition edge_inv :: "(string \<times> string) set \<Rightarrow> string set \<Rightarrow> tarjan \<Rightarrow> bool" where
  "edge_inv E gray s \<longleftrightarrow> (\<forall>x \<in> visited s - gray. \<forall>y. (x, y) \<in> E \<longrightarrow> y \<in> visited s)
     \<and> (\<forall>x \<in> popped s. \<forall>y. (x, y) \<in> E \<longrightarrow> y \<in> popped s)"

definition reach_inv :: "(string \<times> string) set \<Rightarrow> string set \<Rightarrow> tarjan \<Rightarrow> bool" where
  "reach_inv E gray s \<longleftrightarrow>
     (\<forall>x \<in> gray. \<forall>y \<in> set (tj_stack s). idx s x \<le> idx s y \<longrightarrow> (x, y) \<in> E\<^sup>*)
     \<and> (\<forall>y \<in> set (tj_stack s). \<exists>x \<in> gray. idx s x \<le> idx s y \<and> (y, x) \<in> E\<^sup>*)"

definition cycle_inv :: "(string \<times> string) set \<Rightarrow> tarjan \<Rightarrow> bool" where
  "cycle_inv E s \<longleftrightarrow> set (concat (tj_cycles s)) = {x \<in> popped s. (x, x) \<in> E\<^sup>+}"

definition tarjan_inv :: "(string \<times> string) set \<Rightarrow> string set \<Rightarrow> tarjan \<Rightarrow> bool" where
  "tarjan_inv E gray s \<longleftrightarrow> stack_inv gray s \<and> edge_inv E gray s \<and> reach_inv E gray s \<and> cycle_inv E s"

text \<open>Nothing visited is forgotten: numbers and links of visited nodes stay.\<close>

definition extends :: "tarjan \<Rightarrow> tarjan \<Rightarrow> bool" where
  "extends s s' \<longleftrightarrow> visited s \<subseteq> visited s' \<and>
     (\<forall>v \<in> visited s. tj_indices s' v = tj_indices s v \<and> tj_lowlink s' v = tj_lowlink s v)"

text \<open>
  The link of \<open>v\<close> against the stack below it (\<open>base\<close>), for the nodes \<open>ys\<close> and the edges that
  have been looked at.
\<close>

definition link_ok :: "(string \<times> string) set \<Rightarrow> (string \<times> string) set \<Rightarrow> string list \<Rightarrow> string \<Rightarrow> tarjan \<Rightarrow> bool" where
  "link_ok E seen base v s \<longleftrightarrow> low s v \<le> idx s v
     \<and> (low s v < idx s v \<longrightarrow> (\<exists>x \<in> set base. idx s x = low s v \<and> (v, x) \<in> E\<^sup>*))
     \<and> (\<forall>y z. (y, z) \<in> seen \<longrightarrow> z \<in> set base \<longrightarrow> low s v \<le> idx s z)"

definition connected :: "(string \<times> string) set \<Rightarrow> string set \<Rightarrow> string \<Rightarrow> tarjan \<Rightarrow> tarjan \<Rightarrow> bool" where
  "connected E gray v s s' \<longleftrightarrow> tarjan_inv E gray s' \<and> extends s s' \<and> tj_indices s' v = Some (tj_index s)
     \<and> (\<exists>t. tj_stack s' = t @ tj_stack s \<and> set t \<inter> visited s = {}
          \<and> link_ok E (E \<inter> set t \<times> UNIV) (tj_stack s) v s')"

text \<open>The state of the loop over the callees of \<open>v\<close>, which was entered in state \<open>s\<close>.\<close>

definition scanning ::
    "(string \<times> string) set \<Rightarrow> string set \<Rightarrow> string \<Rightarrow> tarjan \<Rightarrow> string set \<Rightarrow> tarjan \<Rightarrow> bool" where
  "scanning E gray v s don s' \<longleftrightarrow> tarjan_inv E (insert v gray) s' \<and> extends s s' \<and> don \<subseteq> visited s'
     \<and> tj_indices s' v = Some (tj_index s) \<and> tj_lowlink s' v \<noteq> None
     \<and> (\<exists>t. tj_stack s' = t @ v # tj_stack s \<and> set t \<inter> visited s = {}
          \<and> link_ok E (E \<inter> set t \<times> UNIV \<union> {v} \<times> don) (tj_stack s) v s')"

lemma extends_refl [simp]: "extends s s"
  by (simp add: extends_def)

lemma extends_trans: "extends s s' \<Longrightarrow> extends s' s'' \<Longrightarrow> extends s s''"
  unfolding extends_def by (metis subset_iff)


lemma inv_lower_link [simp]: "tarjan_inv E gray (lower_link v n s) = tarjan_inv E gray s"
  by (simp add: tarjan_inv_def stack_inv_def edge_inv_def reach_inv_def cycle_inv_def lower_link_def)

lemma lower_link_simps [simp]:
  "tj_indices (lower_link v n s) = tj_indices s" "tj_stack (lower_link v n s) = tj_stack s"
  "tj_lowlink (lower_link v n s) v = Some (min (low s v) n)"
  "w \<noteq> v \<Longrightarrow> tj_lowlink (lower_link v n s) w = tj_lowlink s w"
  by (simp_all add: lower_link_def)

lemma extends_lower_link: "extends s s' \<Longrightarrow> v \<notin> visited s \<Longrightarrow> extends s (lower_link v n s')"
  unfolding extends_def by (metis lower_link_simps(1,4))

lemma stack_invD:
  assumes "stack_inv gray s"
  shows "distinct (tj_stack s)" "tj_on_stack s = set (tj_stack s)" "set (tj_stack s) \<subseteq> visited s"
    "gray \<subseteq> set (tj_stack s)" "sorted_wrt (\<lambda>x y. idx s y < idx s x) (tj_stack s)"
    "v \<in> visited s \<Longrightarrow> idx s v < tj_index s"
  using assms by (auto simp: stack_inv_def)

subsection \<open>Entering a node\<close>

lemma enter_simps [simp]:
  "tj_stack (enter_node v s) = v # tj_stack s" "tj_index (enter_node v s) = tj_index s + 1"
  "tj_indices (enter_node v s) = (tj_indices s)(v \<mapsto> tj_index s)"
  "tj_lowlink (enter_node v s) = (tj_lowlink s)(v \<mapsto> tj_index s)"
  "tj_on_stack (enter_node v s) = insert v (tj_on_stack s)" "tj_cycles (enter_node v s) = tj_cycles s"
  by (simp_all add: enter_node_def)

lemma enter_stack:
  assumes "stack_inv gray s" and "v \<notin> visited s"
  shows "stack_inv (insert v gray) (enter_node v s)"
proof -
  note st = stack_invD [OF assms(1)]
  have v: "v \<notin> set (tj_stack s)" using st(3) assms(2) by blast
  have i: "idx (enter_node v s) x = idx s x" if "x \<in> visited s" for x
    using that assms(2) by auto
  have "sorted_wrt (\<lambda>x y. idx (enter_node v s) y < idx (enter_node v s) x) (tj_stack s)"
    by (rule sorted_wrt_mono_rel [OF _ st(5)]) (use v in auto)
  moreover have "idx (enter_node v s) x < idx (enter_node v s) v" if "x \<in> set (tj_stack s)" for x
    using st(3,6) that v i [of x] by auto
  ultimately show ?thesis
    using st v assms(2) by (auto simp: stack_inv_def less_SucI)
qed

lemma enter_reach:
  assumes "stack_inv gray s" and "reach_inv E gray s" and "v \<notin> visited s" and "\<forall>x \<in> gray. (x, v) \<in> E\<^sup>*"
  shows "reach_inv E (insert v gray) (enter_node v s)"
proof -
  note st = stack_invD [OF assms(1)]
  have v: "v \<notin> set (tj_stack s)" using st(3) assms(3) by blast
  have old: "x \<noteq> v" "idx (enter_node v s) x = idx s x" "idx (enter_node v s) x < idx (enter_node v s) v"
    if "x \<in> set (tj_stack s)" for x
  proof -
    have "x \<noteq> v" "x \<in> visited s" using that v st(3) by auto
    then show "x \<noteq> v" "idx (enter_node v s) x = idx s x" "idx (enter_node v s) x < idx (enter_node v s) v"
      using st(6) [of x] by auto
  qed
  have g: "x \<in> set (tj_stack s)" if "x \<in> gray" for x using st(4) that by blast
  have A: "(x, y) \<in> E\<^sup>*" if "x \<in> insert v gray" "y \<in> insert v (set (tj_stack s))"
    "idx (enter_node v s) x \<le> idx (enter_node v s) y" for x y
  proof (cases "y = v")
    case True
    then show ?thesis using that(1) assms(4) by auto
  next
    case False
    then have y: "y \<in> set (tj_stack s)" using that(2) by simp
    then have "x \<noteq> v" using that(3) old(3) [OF y] by auto
    then have "x \<in> gray" using that(1) by simp
    then show ?thesis
      using assms(2) y that(3) old(2) [OF y] old(2) [OF g] unfolding reach_inv_def by metis
  qed
  have B: "\<exists>x \<in> insert v gray. idx (enter_node v s) x \<le> idx (enter_node v s) y \<and> (y, x) \<in> E\<^sup>*"
    if "y \<in> insert v (set (tj_stack s))" for y
  proof (cases "y = v")
    case False
    then have y: "y \<in> set (tj_stack s)" using that by simp
    then obtain x where "x \<in> gray" "idx s x \<le> idx s y" "(y, x) \<in> E\<^sup>*"
      using assms(2) unfolding reach_inv_def by blast
    then show ?thesis using old(2) [OF y] old(2) [OF g] by (metis insertI2)
  qed auto
  show ?thesis unfolding reach_inv_def using A B by simp
qed

lemma enter_scanning:
  assumes "tarjan_inv E gray s" and "v \<notin> visited s" and "\<forall>x \<in> gray. (x, v) \<in> E\<^sup>*"
  shows "scanning E gray v s {} (enter_node v s)"
proof -
  have st: "stack_inv gray s" and ed: "edge_inv E gray s" and re: "reach_inv E gray s" and cy: "cycle_inv E s"
    using assms(1) by (simp_all add: tarjan_inv_def)
  have v: "v \<notin> set (tj_stack s)" using stack_invD(3) [OF st] assms(2) by blast
  have p: "popped (enter_node v s) = popped s" using v assms(2) by auto
  have vis: "visited (enter_node v s) = insert v (visited s)" by simp
  have "edge_inv E (insert v gray) (enter_node v s)"
    using ed unfolding edge_inv_def p unfolding vis by blast
  moreover have "cycle_inv E (enter_node v s)"
    using cy unfolding cycle_inv_def p by simp
  moreover have "extends s (enter_node v s)" using assms(2) by (auto simp: extends_def)
  ultimately have inv: "tarjan_inv E (insert v gray) (enter_node v s)" "extends s (enter_node v s)"
    using enter_stack [OF st assms(2)] enter_reach [OF st re assms(2,3)] by (simp_all add: tarjan_inv_def)
  have "link_ok E (E \<inter> set [] \<times> UNIV \<union> {v} \<times> {}) (tj_stack s) v (enter_node v s)"
    by (simp add: link_ok_def)
  then show ?thesis unfolding scanning_def using inv by (intro conjI exI [of _ "[]"]) simp_all
qed

subsection \<open>Looking at a callee\<close>

lemma scanningD:
  assumes "scanning E gray v s don s'"
  shows "tarjan_inv E (insert v gray) s'" "extends s s'" "don \<subseteq> visited s'" "v \<in> visited s'"
    "tj_lowlink s' v \<noteq> None" "tj_indices s' v = Some (tj_index s)"
  using assms by (auto simp: scanning_def)

lemma link_lower:
  assumes "link_ok E seen base v s" and "n < idx s v \<longrightarrow> (\<exists>x \<in> set base. idx s x = n \<and> (v, x) \<in> E\<^sup>*)"
    and "\<forall>y z. (y, z) \<in> added \<longrightarrow> z \<in> set base \<longrightarrow> n \<le> idx s z"
  shows "link_ok E (seen \<union> added) base v (lower_link v n s)"
proof -
  have l: "low (lower_link v n s) v = min (low s v) n" by simp
  have "min (low s v) n < idx s v \<longrightarrow> (\<exists>x \<in> set base. idx s x = min (low s v) n \<and> (v, x) \<in> E\<^sup>*)"
    using assms(1,2) unfolding link_ok_def by (cases "low s v \<le> n") (simp_all add: min_def)
  moreover have "min (low s v) n \<le> idx s v" using assms(1) by (simp add: link_ok_def min.coboundedI1)
  moreover have "min (low s v) n \<le> idx s z" if "(y, z) \<in> seen \<union> added" "z \<in> set base" for y z
    using that assms(1,3) unfolding link_ok_def by (metis Un_iff min.coboundedI1 min.coboundedI2)
  ultimately show ?thesis unfolding link_ok_def l by simp
qed

lemma link_seen_mono: "link_ok E seen base v s \<Longrightarrow> (\<And>y z. (y, z) \<in> seen' \<Longrightarrow> z \<in> set base \<Longrightarrow> (y, z) \<in> seen)
    \<Longrightarrow> link_ok E seen' base v s"
  unfolding link_ok_def by blast

lemma scan_popped:
  assumes "scanning E gray v s don s'" and "w \<in> visited s'" and "w \<notin> set (tj_stack s')"
  shows "scanning E gray v s (insert w don) s'"
proof -
  obtain t where t: "tj_stack s' = t @ v # tj_stack s" "set t \<inter> visited s = {}"
    "link_ok E (E \<inter> set t \<times> UNIV \<union> {v} \<times> don) (tj_stack s) v s'"
    using assms(1) by (auto simp: scanning_def)
  have "link_ok E (E \<inter> set t \<times> UNIV \<union> {v} \<times> insert w don) (tj_stack s) v s'"
    by (rule link_seen_mono [OF t(3)]) (use assms(3) t(1) in auto)
  then show ?thesis using assms t scanningD [OF assms(1)] unfolding scanning_def by auto
qed

lemma stack_below:
  assumes "stack_inv gray s" and "tj_stack s = t @ v # base" and "x \<in> set (tj_stack s)" and "idx s x < idx s v"
  shows "x \<in> set base"
proof -
  have "idx s v < idx s y" if "y \<in> set t" for y
    using stack_invD(5) [OF assms(1)] that unfolding assms(2) by (auto simp: sorted_wrt_append)
  then show ?thesis using assms(2-4) by fastforce
qed

lemma scan_on_stack:
  assumes "scanning E gray v s don s'" and "v \<notin> visited s" and "w \<in> set (tj_stack s')" and "(v, w) \<in> E"
  shows "scanning E gray v s (insert w don) (lower_link v (idx s' w) s')"
proof -
  note sc = scanningD [OF assms(1)]
  obtain t where t: "tj_stack s' = t @ v # tj_stack s" "set t \<inter> visited s = {}"
    "link_ok E (E \<inter> set t \<times> UNIV \<union> {v} \<times> don) (tj_stack s) v s'"
    using assms(1) by (auto simp: scanning_def)
  have st: "stack_inv (insert v gray) s'" using sc(1) by (simp add: tarjan_inv_def)
  have "link_ok E ((E \<inter> set t \<times> UNIV \<union> {v} \<times> don) \<union> {(v, w)}) (tj_stack s) v (lower_link v (idx s' w) s')"
  proof (rule link_lower [OF t(3)])
    show "idx s' w < idx s' v \<longrightarrow> (\<exists>x \<in> set (tj_stack s). idx s' x = idx s' w \<and> (v, x) \<in> E\<^sup>*)"
      using stack_below [OF st t(1) assms(3)] assms(4) by blast
  qed simp
  moreover have "(E \<inter> set t \<times> UNIV \<union> {v} \<times> don) \<union> {(v, w)} = E \<inter> set t \<times> UNIV \<union> {v} \<times> insert w don"
    by blast
  moreover have "w \<in> visited s'" using stack_invD(3) [OF st] assms(3) by blast
  ultimately show ?thesis
    using t(1,2) sc extends_lower_link [OF sc(2) assms(2)] unfolding scanning_def by simp
qed

lemma scan_called:
  assumes "scanning E gray v s don s'" and "v \<notin> visited s" and "(v, w) \<in> E"
    and c: "connected E (insert v gray) w s' s''"
  shows "scanning E gray v s (insert w don) (lower_link v (low s'' w) s'')"
proof -
  note sc = scanningD [OF assms(1)]
  obtain t where t: "tj_stack s' = t @ v # tj_stack s" "set t \<inter> visited s = {}"
    "link_ok E (E \<inter> set t \<times> UNIV \<union> {v} \<times> don) (tj_stack s) v s'"
    using assms(1) by (auto simp: scanning_def)
  obtain u where u: "tj_stack s'' = u @ tj_stack s'" "set u \<inter> visited s' = {}"
    "link_ok E (E \<inter> set u \<times> UNIV) (tj_stack s') w s''"
    using c by (auto simp: connected_def)
  have inv: "tarjan_inv E (insert v gray) s''" and ext: "extends s' s''" and w: "tj_indices s'' w = Some (tj_index s')"
    using c by (auto simp: connected_def)
  have st: "stack_inv (insert v gray) s''" using inv by (simp add: tarjan_inv_def)
  have vis: "visited s \<subseteq> visited s'" "visited s' \<subseteq> visited s''"
    using sc(2) ext by (simp_all add: extends_def)
  have stk: "tj_stack s'' = (u @ t) @ v # tj_stack s" using u(1) t(1) by simp
  have same: "tj_indices s'' x = tj_indices s' x" if "x \<in> visited s'" for x
    using ext that by (simp add: extends_def)
  have st1: "stack_inv (insert v gray) s'" using sc(1) by (simp add: tarjan_inv_def)
  have base: "idx s'' x = idx s' x" if "x \<in> set (tj_stack s)" for x
  proof -
    have "x \<in> visited s'" using that stack_invD(3) [OF st1] t(1) by auto
    then show ?thesis using same by simp
  qed
  have kept: "tj_lowlink s'' v = tj_lowlink s' v" "tj_indices s'' v = tj_indices s' v"
    using ext sc(4) by (simp_all add: extends_def)
  have later: "idx s'' v < idx s'' w"
    using stack_invD(6) [OF st1 sc(4)] w kept(2) by simp
  have old: "link_ok E (E \<inter> set t \<times> UNIV \<union> {v} \<times> don) (tj_stack s) v s''"
    using t(3) base unfolding link_ok_def kept by metis
  have "link_ok E ((E \<inter> set t \<times> UNIV \<union> {v} \<times> don) \<union> E \<inter> set u \<times> UNIV) (tj_stack s) v (lower_link v (low s'' w) s'')"
  proof (rule link_lower [OF old])
    show "low s'' w < idx s'' v \<longrightarrow> (\<exists>x \<in> set (tj_stack s). idx s'' x = low s'' w \<and> (v, x) \<in> E\<^sup>*)"
    proof
      assume less: "low s'' w < idx s'' v"
      then obtain x where x: "x \<in> set (tj_stack s')" "idx s'' x = low s'' w" "(w, x) \<in> E\<^sup>*"
        using u(3) later unfolding link_ok_def by auto
      then have "x \<in> set (tj_stack s)"
        using stack_below [OF st stk] less u(1) by simp
      then show "\<exists>x \<in> set (tj_stack s). idx s'' x = low s'' w \<and> (v, x) \<in> E\<^sup>*"
        using x assms(3) by (meson converse_rtrancl_into_rtrancl)
    qed
    show "\<forall>y z. (y, z) \<in> E \<inter> set u \<times> UNIV \<longrightarrow> z \<in> set (tj_stack s) \<longrightarrow> low s'' w \<le> idx s'' z"
      using u(3) t(1) by (auto simp: link_ok_def)
  qed
  moreover have "w \<notin> set (tj_stack s)"
  proof
    assume "w \<in> set (tj_stack s)"
    then have "w \<in> visited s'" using stack_invD(3) [OF st1] t(1) by auto
    then show False using stack_invD(6) [OF st1] same w by fastforce
  qed
  ultimately have "link_ok E (E \<inter> set (u @ t) \<times> UNIV \<union> {v} \<times> insert w don) (tj_stack s) v (lower_link v (low s'' w) s'')"
    by (elim link_seen_mono) auto
  moreover have "set (u @ t) \<inter> visited s = {}" unfolding set_append using t(2) u(2) vis(1) by blast
  moreover have "insert w don \<subseteq> visited s''" using sc(3) vis(2) w by blast
  ultimately show ?thesis
    using stk inv sc(6) extends_lower_link [OF extends_trans [OF sc(2) ext] assms(2)] kept(2)
    unfolding scanning_def by (intro conjI exI [of _ "u @ t"]) simp_all
qed

subsection \<open>Closing a node\<close>

lemma pop_component_split:
  "v \<notin> set t \<Longrightarrow> pop_component v (t @ v # ws) = (t @ [v], ws)"
  by (induction t) auto

text \<open>The state of \<open>v\<close>'s call once all its callees were looked at.\<close>

definition closing ::
    "(string \<times> string) set \<Rightarrow> string set \<Rightarrow> string \<Rightarrow> tarjan \<Rightarrow> string list \<Rightarrow> tarjan \<Rightarrow> bool" where
  "closing E gray v s t s' \<longleftrightarrow> tarjan_inv E gray s \<and> v \<notin> visited s
     \<and> tarjan_inv E (insert v gray) s' \<and> extends s s' \<and> E `` {v} \<subseteq> visited s'
     \<and> tj_indices s' v = Some (tj_index s) \<and> tj_lowlink s' v \<noteq> None
     \<and> tj_stack s' = t @ v # tj_stack s \<and> set t \<inter> visited s = {}
     \<and> link_ok E (E \<inter> set t \<times> UNIV \<union> {v} \<times> (E `` {v})) (tj_stack s) v s'"

lemma closingD:
  assumes "closing E gray v s t s'"
  shows "tarjan_inv E gray s" "v \<notin> visited s" "stack_inv (insert v gray) s'" "edge_inv E (insert v gray) s'"
    "reach_inv E (insert v gray) s'" "cycle_inv E s'" "extends s s'" "E `` {v} \<subseteq> visited s'" "v \<in> visited s'"
    "tj_indices s' v = Some (tj_index s)" "tj_lowlink s' v \<noteq> None" "tj_stack s' = t @ v # tj_stack s"
    "set t \<inter> visited s = {}" "link_ok E (E \<inter> set t \<times> UNIV \<union> {v} \<times> (E `` {v})) (tj_stack s) v s'"
  using assms unfolding closing_def tarjan_inv_def by (blast | simp add: domI)+

lemma closing_stack:
  assumes "closing E gray v s t s'"
  shows "v \<notin> set t" "v \<notin> set (tj_stack s)" "set t \<inter> set (tj_stack s) = {}" "distinct t"
    "gray \<subseteq> set (tj_stack s)" "y \<in> set t \<Longrightarrow> idx s' v < idx s' y"
    "x \<in> set (tj_stack s) \<Longrightarrow> idx s' x < idx s' v"
  using stack_invD(1,5) [OF closingD(3) [OF assms]] closingD(1) [OF assms]
  by (simp_all add: closingD(12) [OF assms] sorted_wrt_append tarjan_inv_def stack_inv_def)

lemma closing_out:
  assumes "closing E gray v s t s'" and "x \<in> visited s' - gray" and "(x, y) \<in> E"
  shows "y \<in> visited s'"
  using closingD(4,8) [OF assms(1)] assms(2,3) unfolding edge_inv_def by blast

lemma closing_reaches:
  assumes c: "closing E gray v s t s'" and "y \<in> set (tj_stack s')"
  obtains u where "u \<in> insert v gray" "idx s' u \<le> idx s' y" "(y, u) \<in> E\<^sup>*"
  using closingD(5) [OF c] assms(2) unfolding reach_inv_def by blast

lemma close_open:
  assumes c: "closing E gray v s t s'" and ne: "tj_lowlink s' v \<noteq> tj_indices s' v"
  shows "connected E gray v s s'"
proof -
  note D = closingD [OF c] and S = closing_stack [OF c]
  have "low s' v < idx s' v"
    using ne D(10,11,14) unfolding link_ok_def by (metis le_neq_implies_less option.collapse option.sel)
  then obtain x where x: "x \<in> set (tj_stack s)" "(v, x) \<in> E\<^sup>*"
    using D(14) unfolding link_ok_def by blast
  have "x \<in> set (tj_stack s')" using x(1) D(12) by simp
  then obtain z where z: "z \<in> insert v gray" "idx s' z \<le> idx s' x" "(x, z) \<in> E\<^sup>*"
    by (rule closing_reaches [OF c])
  have zg: "z \<in> gray" using z(1,2) S(7) [OF x(1)] by (metis insertE leD)
  have "\<exists>x \<in> gray. idx s' x \<le> idx s' y \<and> (y, x) \<in> E\<^sup>*" if y: "y \<in> set (tj_stack s')" for y
  proof -
    obtain u where u: "u \<in> insert v gray" "idx s' u \<le> idx s' y" "(y, u) \<in> E\<^sup>*"
      by (rule closing_reaches [OF c y])
    show ?thesis
    proof (cases "u = v")
      case True
      have "(y, z) \<in> E\<^sup>*" using u(3) True x(2) z(3) by (meson rtrancl_trans)
      moreover have "idx s' z \<le> idx s' y" using z(2) S(7) [OF x(1)] u(2) True by simp
      ultimately show ?thesis using zg by blast
    next
      case False
      then show ?thesis using u by blast
    qed
  qed
  then have "reach_inv E gray s'" using D(5) unfolding reach_inv_def by blast
  moreover have "edge_inv E gray s'" using D(4) closing_out [OF c] unfolding edge_inv_def by blast
  moreover have "stack_inv gray s'" using D(3) unfolding stack_inv_def by blast
  ultimately have inv: "tarjan_inv E gray s'" using D(6) by (simp add: tarjan_inv_def)
  have "E \<inter> set (t @ [v]) \<times> UNIV = E \<inter> set t \<times> UNIV \<union> {v} \<times> (E `` {v})" by auto
  then have link: "link_ok E (E \<inter> set (t @ [v]) \<times> UNIV) (tj_stack s) v s'" using D(14) by simp
  have fresh: "set (t @ [v]) \<inter> visited s = {}"
    unfolding set_append list.set using D(2,13) by blast
  have "tj_stack s' = (t @ [v]) @ tj_stack s" using D(12) by simp
  with inv link fresh D(7,10) show ?thesis unfolding connected_def by blast
qed

lemma closed_below:
  assumes c: "closing E gray v s t s'" and eq: "tj_lowlink s' v = tj_indices s' v"
    and x: "x \<in> visited s' - set (tj_stack s)" and e: "(x, y) \<in> E"
  shows "y \<in> visited s' - set (tj_stack s)"
proof (cases "x \<in> set (tj_stack s')")
  case False
  then have "y \<in> popped s'" using closingD(4) [OF c] x e unfolding edge_inv_def by blast
  then show ?thesis unfolding closingD(12) [OF c] by simp
next
  case True
  then have xt: "x \<in> set t \<or> x = v" using x unfolding closingD(12) [OF c] by auto
  have "x \<notin> gray" using closing_stack(5) [OF c] x by blast
  then have "y \<in> visited s'" using closing_out [OF c] x e by blast
  moreover have "y \<notin> set (tj_stack s)"
  proof
    assume y: "y \<in> set (tj_stack s)"
    have "(x, y) \<in> E \<inter> set t \<times> UNIV \<union> {v} \<times> (E `` {v})" using xt e by blast
    then have "low s' v \<le> idx s' y" using closingD(14) [OF c] y unfolding link_ok_def by blast
    then show False using closing_stack(7) [OF c y] eq by simp
  qed
  ultimately show ?thesis by blast
qed

lemma closed_below_star:
  assumes c: "closing E gray v s t s'" and eq: "tj_lowlink s' v = tj_indices s' v"
    and "(x, y) \<in> E\<^sup>*" and "x \<in> visited s' - set (tj_stack s)"
  shows "y \<in> visited s' - set (tj_stack s)"
  using assms(3,4) by (induction rule: rtrancl_induct) (use closed_below [OF c eq] in blast)+

lemma popped_closed:
  assumes "edge_inv E gray s" and "(x, y) \<in> E\<^sup>*" and "x \<in> popped s"
  shows "y \<in> popped s"
  using assms(2,3) by (induction rule: rtrancl_induct) (use assms(1) in \<open>unfold edge_inv_def, blast+\<close>)

lemma members_connected:
  assumes c: "closing E gray v s t s'" and eq: "tj_lowlink s' v = tj_indices s' v" and y: "y \<in> set t"
  shows "(v, y) \<in> E\<^sup>+" "(y, v) \<in> E\<^sup>+"
proof -
  note S = closing_stack [OF c]
  have ne: "y \<noteq> v" using S(1) y by blast
  have ys: "y \<in> set (tj_stack s')" using y unfolding closingD(12) [OF c] by simp
  then have yv: "y \<in> visited s' - set (tj_stack s)"
    using stack_invD(3) [OF closingD(3) [OF c]] S(3) y by blast
  have "(v, y) \<in> E\<^sup>*"
    using closingD(5) [OF c] ys S(6) [OF y] unfolding reach_inv_def by (metis insertI1 less_imp_le)
  then show "(v, y) \<in> E\<^sup>+" using ne by (metis rtranclD)
  obtain x where x: "x \<in> insert v gray" "(y, x) \<in> E\<^sup>*" by (rule closing_reaches [OF c ys])
  then have "x = v" using closed_below_star [OF c eq x(2) yv] S(5) by blast
  then show "(y, v) \<in> E\<^sup>+" using x(2) ne by (metis rtranclD)
qed

lemma self_cycle:
  assumes c: "closing E gray v s [] s'" and eq: "tj_lowlink s' v = tj_indices s' v" and "(v, v) \<in> E\<^sup>+"
  shows "(v, v) \<in> E"
proof (rule ccontr)
  assume "(v, v) \<notin> E"
  then obtain y where y: "(v, y) \<in> E" "(y, v) \<in> E\<^sup>*" "y \<noteq> v" using assms(3) by (metis tranclD)
  have v: "v \<in> visited s' - set (tj_stack s)" using closingD(9) [OF c] closing_stack(2) [OF c] by blast
  have "y \<in> popped s'" using closed_below [OF c eq v y(1)] y(3) unfolding closingD(12) [OF c] by simp
  then have "v \<in> popped s'" by (rule popped_closed [OF closingD(4) [OF c] y(2)])
  then show False unfolding closingD(12) [OF c] by simp
qed

text \<open>The state after the pops: the component is exactly what lay above the old stack.\<close>

definition after_pop :: "(string, string list) dict \<Rightarrow> string \<Rightarrow> string list \<Rightarrow> tarjan \<Rightarrow> tarjan \<Rightarrow> tarjan" where
  "after_pop cg v t s s' = s'
     \<lparr>tj_stack := tj_stack s, tj_on_stack := tj_on_stack s' - set (t @ [v]),
      tj_cycles := (if t \<noteq> [] \<or> v \<in> set (callees_in cg v) then tj_cycles s' @ [t @ [v]] else tj_cycles s')\<rparr>"

lemma close_node_pop:
  assumes c: "closing E gray v s t s'" and eq: "tj_lowlink s' v = tj_indices s' v"
  shows "close_node cg v s' = after_pop cg v t s s'"
proof -
  note S = closing_stack [OF c]
  have "pop_component v (tj_stack s') = (t @ [v], tj_stack s)"
    using S(1) by (simp add: closingD(12) [OF c] pop_component_split)
  moreover have "distinct (t @ [v])" using S(1,4) by simp
  then have "remdups (t @ [v]) = t @ [v]" by (rule distinct_remdups_id)
  ultimately show ?thesis using eq by (cases t) (simp_all add: close_node_def after_pop_def)
qed

lemma after_pop_simps [simp]:
  "tj_stack (after_pop cg v t s s') = tj_stack s" "tj_index (after_pop cg v t s s') = tj_index s'"
  "tj_indices (after_pop cg v t s s') = tj_indices s'" "tj_lowlink (after_pop cg v t s s') = tj_lowlink s'"
  "tj_on_stack (after_pop cg v t s s') = tj_on_stack s' - set (t @ [v])"
  by (simp_all add: after_pop_def)

lemma after_pop_cycles:
  assumes c: "closing (call_rel cg) gray v s t s'" and eq: "tj_lowlink s' v = tj_indices s' v"
  shows "cycle_inv (call_rel cg) (after_pop cg v t s s')"
proof -
  note S = closing_stack [OF c] and D = closingD [OF c]
  have vis: "set t \<subseteq> visited s'" using stack_invD(3) [OF D(3)] unfolding D(12) by simp
  have p: "popped (after_pop cg v t s s') = popped s' \<union> set (t @ [v])"
    using vis D(9) S(1,2,3) unfolding after_pop_simps D(12) set_append list.set by blast
  have self: "(x, x) \<in> (call_rel cg)\<^sup>+ \<longleftrightarrow> t \<noteq> [] \<or> v \<in> set (callees_in cg v)" if x: "x \<in> set (t @ [v])" for x
  proof (cases "t = []")
    case True
    then have "x = v" using x by simp
    moreover have "(v, v) \<in> (call_rel cg)\<^sup>+ \<Longrightarrow> (v, v) \<in> call_rel cg"
      using self_cycle [OF c [unfolded True] eq] .
    ultimately show ?thesis using True by (auto simp: call_rel_def)
  next
    case False
    then obtain y where y: "y \<in> set t" by (cases t) auto
    have "(x, x) \<in> (call_rel cg)\<^sup>+"
    proof (cases "x = v")
      case True
      then show ?thesis using members_connected [OF c eq y] by (meson trancl_trans)
    next
      case False
      then have "x \<in> set t" using x by simp
      then show ?thesis using members_connected [OF c eq] by (meson trancl_trans)
    qed
    then show ?thesis using False by simp
  qed
  have old: "set (concat (tj_cycles s')) = {x \<in> popped s'. (x, x) \<in> (call_rel cg)\<^sup>+}"
    using D(6) unfolding cycle_inv_def .
  have "set (concat (tj_cycles (after_pop cg v t s s')))
      = set (concat (tj_cycles s')) \<union> (if t \<noteq> [] \<or> v \<in> set (callees_in cg v) then set (t @ [v]) else {})"
    by (auto simp: after_pop_def)
  also have "\<dots> = {x \<in> popped s' \<union> set (t @ [v]). (x, x) \<in> (call_rel cg)\<^sup>+}"
    unfolding old using self by auto
  finally show ?thesis unfolding cycle_inv_def p .
qed

lemma close_popped:
  assumes c: "closing (call_rel cg) gray v s t s'" and eq: "tj_lowlink s' v = tj_indices s' v"
  shows "connected (call_rel cg) gray v s (after_pop cg v t s s')"
proof -
  note S = closing_stack [OF c] and D = closingD [OF c]
  note st = stack_invD [OF D(3)]
  have "tj_on_stack s' - set (t @ [v]) = set (tj_stack s)"
    using S(1,2,3) unfolding st(2) D(12) by auto
  moreover have "distinct (tj_stack s)" "set (tj_stack s) \<subseteq> visited s'"
      "sorted_wrt (\<lambda>x y. idx s' y < idx s' x) (tj_stack s)"
    using st(1,3,5) unfolding D(12) by (simp_all add: sorted_wrt_append)
  ultimately have stk: "stack_inv gray (after_pop cg v t s s')"
    using S(5) st(6) unfolding stack_inv_def after_pop_simps by blast
  have "edge_inv (call_rel cg) gray (after_pop cg v t s s')"
    using closing_out [OF c] closed_below [OF c eq] unfolding edge_inv_def after_pop_simps by blast
  moreover have "reach_inv (call_rel cg) gray (after_pop cg v t s s')"
  proof -
    have "\<exists>x \<in> gray. idx s' x \<le> idx s' y \<and> (y, x) \<in> (call_rel cg)\<^sup>*" if y: "y \<in> set (tj_stack s)" for y
    proof -
      have "y \<in> set (tj_stack s')" using y D(12) by simp
      then obtain u where u: "u \<in> insert v gray" "idx s' u \<le> idx s' y" "(y, u) \<in> (call_rel cg)\<^sup>*"
        by (rule closing_reaches [OF c])
      then have "u \<in> gray" using S(7) [OF y] by (metis insertE leD)
      then show ?thesis using u by blast
    qed
    moreover have "set (tj_stack s) \<subseteq> set (tj_stack s')" unfolding D(12) by auto
    ultimately show ?thesis using D(5) unfolding reach_inv_def after_pop_simps by blast
  qed
  ultimately have inv: "tarjan_inv (call_rel cg) gray (after_pop cg v t s s')"
    using stk after_pop_cycles [OF c eq] by (simp add: tarjan_inv_def)
  have link: "link_ok (call_rel cg) (call_rel cg \<inter> set [] \<times> UNIV) (tj_stack s) v (after_pop cg v t s s')"
    using eq by (simp add: link_ok_def)
  have ext: "extends s (after_pop cg v t s s')" using D(7) unfolding extends_def after_pop_simps .
  show ?thesis unfolding connected_def
    using inv link ext D(10) by (intro conjI exI [of _ "[]"]) simp_all
qed

lemma close_connected:
  assumes c: "closing (call_rel cg) gray v s t s'"
  shows "connected (call_rel cg) gray v s (close_node cg v s')"
proof (cases "tj_lowlink s' v = tj_indices s' v")
  case True
  then show ?thesis using close_popped [OF c True] close_node_pop [OF c True] by simp
next
  case False
  then show ?thesis using close_open [OF c False] by (simp add: close_node_def)
qed

lemma scanning_closing:
  assumes "tarjan_inv E gray s" and "v \<notin> visited s" and "scanning E gray v s (E `` {v}) s'"
  obtains t where "closing E gray v s t s'"
  using assms unfolding scanning_def closing_def by blast

subsection \<open>The recursion\<close>

lemma visit_scanning:
  assumes sc: "scanning E gray v s don s'" and v: "v \<notin> visited s" and e: "(v, w) \<in> E"
    and rec: "w \<notin> visited s' \<Longrightarrow> \<exists>s''. rec w s' = Some s'' \<and> connected E (insert v gray) w s' s''"
  shows "\<exists>s''. visit_callee rec v w s' = Some s'' \<and> scanning E gray v s (insert w don) s'' \<and> visited s' \<subseteq> visited s''"
proof (cases "w \<in> visited s'")
  case False
  then obtain s'' where s'': "rec w s' = Some s''" "connected E (insert v gray) w s' s''"
    using rec by blast
  have "visited s' \<subseteq> visited s''" using s''(2) unfolding connected_def extends_def by blast
  moreover have "visit_callee rec v w s' = Some (lower_link v (low s'' w) s'')"
    using False s''(1) by (simp add: visit_callee_def domIff)
  ultimately show ?thesis using scan_called [OF sc v e s''(2)] by simp
next
  case True
  then obtain i where i: "tj_indices s' w = Some i" by blast
  have on: "tj_on_stack s' = set (tj_stack s')"
    using scanningD(1) [OF sc] by (simp add: tarjan_inv_def stack_inv_def)
  show ?thesis
  proof (cases "w \<in> set (tj_stack s')")
    case True
    then have "visit_callee rec v w s' = Some (lower_link v (idx s' w) s')"
      using i on by (simp add: visit_callee_def)
    then show ?thesis using scan_on_stack [OF sc v True e] by simp
  next
    case False
    then have "visit_callee rec v w s' = Some s'" using i on by (simp add: visit_callee_def)
    then show ?thesis using scan_popped [OF sc True False] by blast
  qed
qed

lemma loop_scanning:
  assumes v: "v \<notin> visited s"
    and e: "\<And>w. w \<in> set ws \<Longrightarrow> (v, w) \<in> E"
    and rec: "\<And>w s'. w \<in> set ws \<Longrightarrow> w \<notin> visited s' \<Longrightarrow> tarjan_inv E (insert v gray) s' \<Longrightarrow> visited s1 \<subseteq> visited s'
      \<Longrightarrow> \<exists>s''. rec w s' = Some s'' \<and> connected E (insert v gray) w s' s''"
    and sc: "scanning E gray v s don s1'" and grow: "visited s1 \<subseteq> visited s1'"
  shows "\<exists>s2. opt_fold (visit_callee rec v) ws s1' = Some s2 \<and> scanning E gray v s (don \<union> set ws) s2"
  using e rec sc grow
proof (induction ws arbitrary: don s1')
  case Nil
  then show ?case by simp
next
  case (Cons w ws)
  have "\<exists>s''. rec w s1' = Some s'' \<and> connected E (insert v gray) w s1' s''" if "w \<notin> visited s1'"
    using Cons.prems(2) [OF _ that scanningD(1) [OF Cons.prems(3)] Cons.prems(4)] by simp
  then obtain s'' where s'': "visit_callee rec v w s1' = Some s''" "scanning E gray v s (insert w don) s''"
      "visited s1' \<subseteq> visited s''"
    using visit_scanning [OF Cons.prems(3) v, of w rec] Cons.prems(1) by auto
  have "\<exists>s2. opt_fold (visit_callee rec v) ws s'' = Some s2 \<and> scanning E gray v s (insert w don \<union> set ws) s2"
    using Cons.prems(4) s''(3) by (intro Cons.IH [OF _ _ s''(2)] Cons.prems(1,2)) auto
  then show ?case using s''(1) by simp
qed

lemma strongconnect_connected:
  assumes U: "finite U" "call_rel cg `` U \<subseteq> U"
  shows "tarjan_inv (call_rel cg) gray s \<Longrightarrow> v \<in> U \<Longrightarrow> v \<notin> visited s \<Longrightarrow> \<forall>x \<in> gray. (x, v) \<in> (call_rel cg)\<^sup>*
    \<Longrightarrow> card (U - visited s) \<le> depth
    \<Longrightarrow> \<exists>s'. strongconnect depth cg v s = Some s' \<and> connected (call_rel cg) gray v s s'"
proof (induction depth arbitrary: gray s v)
  case 0
  then have "U - visited s = {}" using U(1) by (metis card_eq_0_iff finite_Diff le_zero_eq)
  then show ?case using "0.prems"(2,3) by blast
next
  case (Suc depth)
  let ?E = "call_rel cg" and ?s1 = "enter_node v s"
  have sc: "scanning ?E gray v s {} ?s1" by (rule enter_scanning [OF Suc.prems(1,3,4)])
  have vis: "visited ?s1 = insert v (visited s)" by simp
  have "card (U - visited ?s1) < card (U - visited s)"
    unfolding vis using U(1) Suc.prems(2,3) by (intro psubset_card_mono) blast+
  then have small: "card (U - visited s') \<le> depth" if "visited ?s1 \<subseteq> visited s'" for s'
  proof -
    have "card (U - visited s') \<le> card (U - visited ?s1)"
      using U(1) that by (intro card_mono) blast+
    also have "\<dots> < card (U - visited s)" by fact
    finally show ?thesis using Suc.prems(5) by linarith
  qed
  have callee: "(v, w) \<in> ?E \<longleftrightarrow> w \<in> set (callees_in cg v)" for w by (simp add: call_rel_def)
  have "\<exists>s'. opt_fold (visit_callee (strongconnect depth cg) v) (callees_in cg v) ?s1 = Some s'
      \<and> scanning ?E gray v s ({} \<union> set (callees_in cg v)) s'"
  proof (rule loop_scanning [OF Suc.prems(3) _ _ sc order_refl])
    fix w s'
    assume w: "w \<in> set (callees_in cg v)" "w \<notin> visited s'" and inv: "tarjan_inv ?E (insert v gray) s'"
      and grow: "visited ?s1 \<subseteq> visited s'"
    have e: "(v, w) \<in> ?E" using w(1) callee by blast
    have "w \<in> U" using U(2) Suc.prems(2) e by blast
    moreover have "\<forall>x \<in> insert v gray. (x, w) \<in> ?E\<^sup>*"
      using Suc.prems(4) e by (auto intro: rtrancl_into_rtrancl)
    ultimately show "\<exists>s''. strongconnect depth cg w s' = Some s'' \<and> connected ?E (insert v gray) w s' s''"
      using Suc.IH [OF inv _ w(2)] small [OF grow] by blast
  qed (simp add: callee)
  then obtain s' where s': "opt_fold (visit_callee (strongconnect depth cg) v) (callees_in cg v) ?s1 = Some s'"
      "scanning ?E gray v s (?E `` {v}) s'"
    by (auto simp: Image_def callee)
  obtain t where "closing ?E gray v s t s'"
    by (rule scanning_closing [OF Suc.prems(1,3) s'(2)])
  then show ?case using close_connected s'(1) by simp
qed

lemma connect_all_inv:
  assumes U: "finite U" "call_rel cg `` U \<subseteq> U" and d: "card U \<le> depth"
  shows "set names \<subseteq> U \<Longrightarrow> tarjan_inv (call_rel cg) {} s \<Longrightarrow>
    \<exists>s'. connect_all depth cg names s = Some s' \<and> tarjan_inv (call_rel cg) {} s' \<and> set names \<union> visited s \<subseteq> visited s'"
proof (induction names arbitrary: s)
  case Nil
  then show ?case by (simp add: connect_all_def)
next
  case (Cons name names)
  have "\<exists>s'. (if tj_indices s name = None then strongconnect depth cg name s else Some s) = Some s'
      \<and> tarjan_inv (call_rel cg) {} s' \<and> insert name (visited s) \<subseteq> visited s'"
  proof (cases "name \<in> visited s")
    case True
    then show ?thesis using Cons.prems(2) by (auto simp: domIff)
  next
    case False
    have "card (U - visited s) \<le> depth" using d U(1) by (meson Diff_subset card_mono le_trans)
    then obtain s' where s': "strongconnect depth cg name s = Some s'" "connected (call_rel cg) {} name s s'"
      using strongconnect_connected [OF U Cons.prems(2) _ False] Cons.prems(1) by auto
    then have "insert name (visited s) \<subseteq> visited s'" "tarjan_inv (call_rel cg) {} s'"
      unfolding connected_def extends_def by blast+
    then show ?thesis using s'(1) False by (simp add: domIff)
  qed
  then obtain s' where s': "(if tj_indices s name = None then strongconnect depth cg name s else Some s) = Some s'"
      "tarjan_inv (call_rel cg) {} s'" "insert name (visited s) \<subseteq> visited s'"
    by blast
  obtain s2 where s2: "connect_all depth cg names s' = Some s2" "tarjan_inv (call_rel cg) {} s2"
      "set names \<union> visited s' \<subseteq> visited s2"
    using Cons.IH [OF _ s'(2)] Cons.prems(1) by auto
  have "connect_all depth cg (name # names) s = Some s2"
    using s'(1) s2(1) by (simp add: connect_all_def)
  moreover have "set (name # names) \<union> visited s \<subseteq> visited s2" unfolding list.set using s'(3) s2(3) by blast
  ultimately show ?case using s2(2) by blast
qed

subsection \<open>Correctness\<close>

definition call_graph_names :: "(string, string list) dict \<Rightarrow> string list" where
  "call_graph_names cg = dict_keys cg @ concat (map snd cg)"

lemma callees_in_names: "set (callees_in cg v) \<subseteq> set (call_graph_names cg)"
proof (cases "map_of cg v")
  case (Some ws)
  then have "(v, ws) \<in> set cg" by (rule map_of_SomeD)
  then show ?thesis using Some by (force simp: callees_in_def dict_get_default_def call_graph_names_def)
qed (simp add: callees_in_def dict_get_default_def)

lemma callees_in_key: "(v, w) \<in> call_rel cg \<Longrightarrow> v \<in> set (dict_keys cg)"
  by (auto simp: call_rel_def callees_in_def dict_get_default_def map_of_None_dict_keys split: option.splits)
    (metis map_of_None_dict_keys option.distinct(1))

lemma recursion_cycles:
  assumes "card (set (call_graph_names cg)) \<le> depth"
  shows "\<exists>names. functions_in_recursion_cycles depth cg = Some names
    \<and> sorted_wrt (<) names \<and> set names = {f. (f, f) \<in> (call_rel cg)\<^sup>+}"
proof (cases "cg = []")
  case True
  then have "call_rel cg = {}" by (simp add: call_rel_def callees_in_def dict_get_default_def)
  then show ?thesis using True by (simp add: functions_in_recursion_cycles_def)
next
  case False
  let ?U = "set (call_graph_names cg)"
  have "call_rel cg `` ?U \<subseteq> ?U" using callees_in_names by (auto simp: call_rel_def)
  moreover have "set (dict_keys cg) \<subseteq> ?U" by (simp add: call_graph_names_def)
  moreover have "tarjan_inv (call_rel cg) {} init_tarjan"
    by (simp add: tarjan_inv_def stack_inv_def edge_inv_def reach_inv_def cycle_inv_def init_tarjan_def)
  ultimately obtain s where s: "connect_all depth cg (dict_keys cg) init_tarjan = Some s"
      "tarjan_inv (call_rel cg) {} s" "set (dict_keys cg) \<subseteq> visited s"
    using connect_all_inv [OF finite_set _ assms] by blast
  have "tj_stack s = []"
    using s(2) by (cases "tj_stack s") (auto simp: tarjan_inv_def reach_inv_def)
  then have "set (concat (tj_cycles s)) = {f \<in> visited s. (f, f) \<in> (call_rel cg)\<^sup>+}"
    using s(2) by (simp add: tarjan_inv_def cycle_inv_def)
  also have "\<dots> = {f. (f, f) \<in> (call_rel cg)\<^sup>+}"
    using callees_in_key s(3) by (blast dest: tranclD)
  finally have "set (sorted_unique (concat (tj_cycles s))) = {f. (f, f) \<in> (call_rel cg)\<^sup>+}"
    unfolding set_sorted_unique .
  moreover have "functions_in_recursion_cycles depth cg = Some (sorted_unique (concat (tj_cycles s)))"
    using False s(1) by (simp add: functions_in_recursion_cycles_def)
  ultimately show ?thesis using strict_sorted_unique by blast
qed

text \<open>
  C6: with a recursion limit of at least the number of function names, the search returns, in
  sorted order and without repetitions, exactly the functions that call themselves directly or
  through other functions.
\<close>

theorem recursion_cycles_exact:
  assumes "card (set (call_graph_names cg)) \<le> depth"
  shows "\<exists>names. functions_in_recursion_cycles depth cg = Some names
    \<and> sorted_wrt (<) names \<and> set names = {f. (f, f) \<in> (call_rel cg)\<^sup>+}"
  by (rule recursion_cycles [OF assms])

text \<open>\<open>f\<close> and \<open>g\<close> call each other, \<open>h\<close> calls \<open>f\<close>, \<open>k\<close> calls itself.\<close>

definition mutual_calls :: "(string, string list) dict" where
  "mutual_calls = [(''f'', [''g'', ''p'']), (''g'', [''f'']), (''h'', [''f'']), (''k'', [''k''])]"

lemma mutual_calls_found: "functions_in_recursion_cycles 5 mutual_calls = Some [''f'', ''g'', ''k'']"
  by code_simp

theorem recursion_cycles_exact_witness:
  "{''f'', ''g'', ''k''} = {f. (f, f) \<in> (call_rel mutual_calls)\<^sup>+}"
proof -
  have "card (set (call_graph_names mutual_calls)) \<le> 5" by code_simp
  from recursion_cycles_exact [OF this] mutual_calls_found show ?thesis by auto
qed

end
