(* ===== verification/Planner.thy ===== *)
theory Planner
  imports Rule_Base "HOL-Library.Multiset"
begin

text \<open>
  \<open>resolve_execution_groups\<close> (\<open>execution_planner.py\<close>): the memoised recursion over the declared
  rule dependencies, the cycle check, and the grouping into waves.  \<open>depth\<close> is the recursion
  limit.  A metadata record holds one of the seven categories, so the \<open>ValueError\<close> branch of the
  category lookup has no counterpart.
\<close>

subsection \<open>The recursion\<close>

datatype planner_error = CyclicRuleDependency string

type_synonym resolve_state = "(string, nat) dict \<times> string set"

text \<open>A loop whose body may raise, or not return.\<close>

fun try_fold :: "('a \<Rightarrow> 's \<Rightarrow> ('e + 's) option) \<Rightarrow> 'a list \<Rightarrow> 's \<Rightarrow> ('e + 's) option" where
  "try_fold f [] s = Some (Inr s)"
| "try_fold f (x # xs) s = do {
     r \<leftarrow> f x s;
     (case r of Inl e \<Rightarrow> Some (Inl e) | Inr s' \<Rightarrow> try_fold f xs s') }"

text \<open>Of two rules with one id the later counts.\<close>

definition rules_by_id :: "rule_plugin list \<Rightarrow> (string, rule_plugin) dict" where
  "rules_by_id rules = fold (\<lambda>r. dict_set (rule_id r) r) rules []"

definition category_tiers :: "rule_plugin list \<Rightarrow> (string, nat) dict" where
  "category_tiers rules =
     fold (\<lambda>r. dict_set (rule_id r) (category_execution_order (md_implementation_category (rp_metadata r)))) rules []"

definition present_dependencies :: "(string, rule_plugin) dict \<Rightarrow> string \<Rightarrow> string list" where
  "present_dependencies by_id rid = (case map_of by_id rid of
      None \<Rightarrow> []
    | Some r \<Rightarrow> filter (\<lambda>d. map_of by_id d \<noteq> None) (md_rule_dependencies (rp_metadata r)))"

text \<open>One turn of the loop over the dependencies, which has the tier so far and the shared state.\<close>

definition deps_step ::
    "(string \<Rightarrow> resolve_state \<Rightarrow> ('e + nat \<times> resolve_state) option) \<Rightarrow> string \<Rightarrow> nat \<times> resolve_state
      \<Rightarrow> ('e + nat \<times> resolve_state) option" where
  "deps_step f d = (\<lambda>(tier, s). do {
     r \<leftarrow> f d s;
     Some (case r of Inl e \<Rightarrow> Inl e | Inr (t, s') \<Rightarrow> Inr (max tier (t + 1), s')) })"

fun resolve ::
    "nat \<Rightarrow> (string, rule_plugin) dict \<Rightarrow> (string, nat) dict \<Rightarrow> string \<Rightarrow> resolve_state
      \<Rightarrow> (planner_error + nat \<times> resolve_state) option" where
  "resolve 0 by_id tiers rid s = None"
| "resolve (Suc depth) by_id tiers rid s =
     (case map_of (fst s) rid of
        Some t \<Rightarrow> Some (Inr (t, s))
      | None \<Rightarrow>
          if rid \<in> snd s then Some (Inl (CyclicRuleDependency rid))
          else do {
            r \<leftarrow> try_fold (deps_step (resolve depth by_id tiers)) (present_dependencies by_id rid)
                   (dict_get_default 0 tiers rid, (fst s, insert rid (snd s)));
            Some (case r of
                Inl e \<Rightarrow> Inl e
              | Inr (tier, (resolved, visiting)) \<Rightarrow>
                  Inr (tier, (dict_set rid tier resolved, visiting - {rid}))) })"

definition resolve_rule ::
    "nat \<Rightarrow> rule_plugin list \<Rightarrow> rule_plugin \<Rightarrow> (string, nat) dict \<Rightarrow> (planner_error + (string, nat) dict) option" where
  "resolve_rule depth rules r resolved = do {
     x \<leftarrow> resolve depth (rules_by_id rules) (category_tiers rules) (rule_id r) (resolved, {});
     Some (case x of Inl e \<Rightarrow> Inl e | Inr (t, s) \<Rightarrow> Inr (fst s)) }"

definition resolve_all ::
    "nat \<Rightarrow> rule_plugin list \<Rightarrow> (planner_error + (string, nat) dict) option" where
  "resolve_all depth rules = try_fold (resolve_rule depth rules) rules []"

definition groups_by_tier :: "(string, nat) dict \<Rightarrow> rule_plugin list \<Rightarrow> rule_plugin list list" where
  "groups_by_tier resolved rules =
     (let groups = group_by (\<lambda>r. dict_get_default 0 resolved (rule_id r)) rules
      in map (\<lambda>tier. dict_get_default [] groups tier) (sort (dict_keys groups)))"

definition resolve_execution_groups ::
    "nat \<Rightarrow> rule_plugin list \<Rightarrow> (planner_error + rule_plugin list list) option" where
  "resolve_execution_groups depth rules = do {
     r \<leftarrow> resolve_all depth rules;
     Some (case r of Inl e \<Rightarrow> Inl e | Inr resolved \<Rightarrow> Inr (groups_by_tier resolved rules)) }"

subsection \<open>The dependency relation\<close>

definition depends :: "rule_plugin list \<Rightarrow> (string \<times> string) set" where
  "depends rules = {(r, d). d \<in> set (present_dependencies (rules_by_id rules) r)}"

lemma rules_by_id_keys: "map_of (fold (\<lambda>r. dict_set (rule_id r) r) rules d) k \<noteq> None
    \<longleftrightarrow> map_of d k \<noteq> None \<or> k \<in> rule_id ` set rules"
  by (induction rules arbitrary: d) auto

lemma map_of_rules_by_id: "map_of (rules_by_id rules) k \<noteq> None \<longleftrightarrow> k \<in> rule_id ` set rules"
  unfolding rules_by_id_def rules_by_id_keys by simp

lemma depends_ids: "(r, d) \<in> depends rules \<Longrightarrow> r \<in> rule_id ` set rules \<and> d \<in> rule_id ` set rules"
  unfolding depends_def present_dependencies_def using map_of_rules_by_id
  by (auto split: option.splits) (metis option.distinct(1))+

lemma fold_dict_set_last:
  "map_of (fold (\<lambda>x. dict_set (f x) (g x)) xs d) k =
     (case find (\<lambda>x. f x = k) (rev xs) of None \<Rightarrow> map_of d k | Some x \<Rightarrow> Some (g x))"
  by (induction xs arbitrary: d) (auto simp: find_append split: option.splits)

text \<open>
  A set of tiers is right: at or above the rule's category, above every dependency's tier, and
  no higher than one of the two forces it to be.
\<close>

definition tiers_ok ::
    "(string \<times> string) set \<Rightarrow> (string \<Rightarrow> nat) \<Rightarrow> (string, nat) dict \<Rightarrow> bool" where
  "tiers_ok D base resolved \<longleftrightarrow> (\<forall>k t. map_of resolved k = Some t \<longrightarrow>
     base k \<le> t \<and> (\<forall>d. (k, d) \<in> D \<longrightarrow> (\<exists>u. map_of resolved d = Some u \<and> u < t))
     \<and> (t = base k \<or> (\<exists>d u. (k, d) \<in> D \<and> map_of resolved d = Some u \<and> t = u + 1)))"

definition state_ok :: "(string \<times> string) set \<Rightarrow> (string \<Rightarrow> nat) \<Rightarrow> resolve_state \<Rightarrow> bool" where
  "state_ok D base s \<longleftrightarrow> tiers_ok D base (fst s) \<and> snd s \<inter> dom (map_of (fst s)) = {}"

definition extended :: "resolve_state \<Rightarrow> resolve_state \<Rightarrow> bool" where
  "extended s s' \<longleftrightarrow> map_of (fst s) \<subseteq>\<^sub>m map_of (fst s') \<and> snd s' = snd s"

lemma extended_refl [simp]: "extended s s"
  by (simp add: extended_def)

lemma extended_trans: "extended s s' \<Longrightarrow> extended s' s'' \<Longrightarrow> extended s s''"
  unfolding extended_def by (auto intro: map_le_trans)

lemma extended_get: "extended s s' \<Longrightarrow> map_of (fst s) k = Some t \<Longrightarrow> map_of (fst s') k = Some t"
  unfolding extended_def map_le_def by (metis domI)

text \<open>The loop over the dependencies, given that the recursive calls are right.\<close>

lemma try_fold_inv:
  assumes "try_fold f xs s = Some (Inr s')" and "I s"
    and "\<And>x s s'. x \<in> set xs \<Longrightarrow> I s \<Longrightarrow> f x s = Some (Inr s') \<Longrightarrow> I s'"
  shows "I s'"
  using assms
proof (induction xs arbitrary: s)
  case (Cons x xs)
  obtain s1 where s1: "f x s = Some (Inr s1)" "try_fold f xs s1 = Some (Inr s')"
    using Cons.prems(1) by (auto split: bind_splits sum.splits)
  have "I s1" using Cons.prems(3) [OF _ Cons.prems(2) s1(1)] by simp
  then show ?case using Cons.IH [OF s1(2)] Cons.prems(3) by (meson list.set_intros(2))
qed simp

lemma try_fold_each:
  assumes "try_fold f xs s = Some (Inr s')" and "I s"
    and "\<And>x s s'. x \<in> set xs \<Longrightarrow> I s \<Longrightarrow> f x s = Some (Inr s') \<Longrightarrow> I s'"
    and "\<And>x s s'. x \<in> set xs \<Longrightarrow> I s \<Longrightarrow> f x s = Some (Inr s') \<Longrightarrow> Q x s'"
    and "\<And>x y s s'. x \<in> set xs \<Longrightarrow> I s \<Longrightarrow> f x s = Some (Inr s') \<Longrightarrow> Q y s \<Longrightarrow> Q y s'"
  shows "\<forall>x \<in> set xs. Q x s'"
  using assms
proof (induction xs arbitrary: s)
  case (Cons x xs)
  obtain s1 where s1: "f x s = Some (Inr s1)" "try_fold f xs s1 = Some (Inr s')"
    using Cons.prems(1) by (auto split: bind_splits sum.splits)
  have now: "I s1" "Q x s1" using Cons.prems(3,4) [OF _ Cons.prems(2) s1(1)] by simp_all
  have inv: "\<And>y s s'. y \<in> set xs \<Longrightarrow> I s \<Longrightarrow> f y s = Some (Inr s') \<Longrightarrow> I s'"
    and keep: "\<And>y z s s'. y \<in> set xs \<Longrightarrow> I s \<Longrightarrow> f y s = Some (Inr s') \<Longrightarrow> Q z s \<Longrightarrow> Q z s'"
    and each: "\<And>y s s'. y \<in> set xs \<Longrightarrow> I s \<Longrightarrow> f y s = Some (Inr s') \<Longrightarrow> Q y s'"
    using Cons.prems(3-5) by (meson list.set_intros(2))+
  have "I s' \<and> Q x s'"
    by (rule try_fold_inv [OF s1(2), where I = "\<lambda>s. I s \<and> Q x s"]) (use now inv keep in blast)+
  then show ?case using Cons.IH [OF s1(2) now(1) inv each keep] by simp
qed simp

lemma try_fold_error:
  assumes "try_fold f xs s = Some (Inl e)" and "I s"
    and "\<And>x s s'. x \<in> set xs \<Longrightarrow> I s \<Longrightarrow> f x s = Some (Inr s') \<Longrightarrow> I s'"
  shows "\<exists>x \<in> set xs. \<exists>s. I s \<and> f x s = Some (Inl e)"
  using assms
proof (induction xs arbitrary: s)
  case (Cons x xs)
  show ?case
  proof (cases "f x s = Some (Inl e)")
    case False
    then obtain s1 where s1: "f x s = Some (Inr s1)" "try_fold f xs s1 = Some (Inl e)"
      using Cons.prems(1) by (auto split: bind_splits sum.splits)
    have "I s1" using Cons.prems(3) [OF _ Cons.prems(2) s1(1)] by simp
    then show ?thesis using Cons.IH [OF s1(2)] Cons.prems(3) by (meson list.set_intros(2))
  qed (use Cons.prems(2) in auto)
qed simp

lemma try_fold_total:
  assumes "I s" and "\<And>x s. x \<in> set xs \<Longrightarrow> I s \<Longrightarrow> f x s \<noteq> None"
    and "\<And>x s s'. x \<in> set xs \<Longrightarrow> I s \<Longrightarrow> f x s = Some (Inr s') \<Longrightarrow> I s'"
  shows "try_fold f xs s \<noteq> None"
  using assms
proof (induction xs arbitrary: s)
  case (Cons x xs)
  obtain r where r: "f x s = Some r" using Cons.prems(1,2) by fastforce
  show ?case
  proof (cases r)
    case (Inr s1)
    then have "f x s = Some (Inr s1)" using r by simp
    then have "I s1" by (rule Cons.prems(3) [OF list.set_intros(1) Cons.prems(1)])
    have "try_fold f xs s1 \<noteq> None"
    proof (rule Cons.IH [OF \<open>I s1\<close>])
      show "f y s \<noteq> None" if "y \<in> set xs" "I s" for y s using that Cons.prems(2) by simp
      show "I s'" if "y \<in> set xs" "I s" "f y s = Some (Inr s')" for y s s'
        using Cons.prems(3) [OF _ that(2,3)] that(1) by simp
    qed
    then show ?thesis using r Inr by simp
  qed (simp add: r)
qed simp

lemma deps_step_Inr: "deps_step f d (tier, s) = Some (Inr x)
    \<longleftrightarrow> (\<exists>t s'. f d s = Some (Inr (t, s')) \<and> x = (max tier (t + 1), s'))"
  by (auto simp: deps_step_def split: bind_splits sum.splits)

lemma deps_step_visiting:
  assumes "\<And>s t s'. f d s = Some (Inr (t, s')) \<Longrightarrow> snd s' = snd s"
    and "deps_step f d x = Some (Inr y)" and "snd (snd x) = vis"
  shows "snd (snd y) = vis"
proof -
  obtain tier s where x: "x = (tier, s)" by (cases x)
  then obtain t s' where s': "f d s = Some (Inr (t, s'))" "y = (max tier (t + 1), s')"
    using assms(2) by (auto simp: deps_step_Inr)
  show ?thesis using assms(1) [OF s'(1)] assms(3) x s'(2) by simp
qed

lemma deps_step_Inl: "deps_step f d (tier, s) = Some (Inl e) \<longleftrightarrow> f d s = Some (Inl e)"
  by (auto simp: deps_step_def split: bind_splits sum.splits)

lemma try_fold_Cons_Inr: "try_fold f (x # xs) s = Some (Inr y)
    \<longleftrightarrow> (\<exists>s'. f x s = Some (Inr s') \<and> try_fold f xs s' = Some (Inr y))"
  by (auto split: bind_splits sum.splits)

lemma deps_loop_ok:
  assumes rec: "\<And>d s t s'. d \<in> set ds \<Longrightarrow> state_ok D base s \<Longrightarrow> f d s = Some (Inr (t, s')) \<Longrightarrow>
      state_ok D base s' \<and> extended s s' \<and> map_of (fst s') d = Some t"
  shows "try_fold (deps_step f) ds (tier, s) = Some (Inr (tier', s')) \<Longrightarrow> state_ok D base s \<Longrightarrow>
     state_ok D base s' \<and> extended s s' \<and> tier \<le> tier'
     \<and> (\<forall>d \<in> set ds. \<exists>u. map_of (fst s') d = Some u \<and> u < tier')
     \<and> (tier' = tier \<or> (\<exists>d \<in> set ds. \<exists>u. map_of (fst s') d = Some u \<and> tier' = u + 1))"
  using rec
proof (induction ds arbitrary: tier s)
  case Nil
  then show ?case by simp
next
  case (Cons d ds)
  obtain t s1 where f: "f d s = Some (Inr (t, s1))"
      "try_fold (deps_step f) ds (max tier (t + 1), s1) = Some (Inr (tier', s'))"
    using Cons.prems(1) unfolding try_fold_Cons_Inr deps_step_Inr by blast
  have s1: "state_ok D base s1" "extended s s1" "map_of (fst s1) d = Some t"
    using Cons.prems(3) [OF _ Cons.prems(2) f(1)] by simp_all
  have ih: "state_ok D base s' \<and> extended s1 s' \<and> max tier (t + 1) \<le> tier'
     \<and> (\<forall>d \<in> set ds. \<exists>u. map_of (fst s') d = Some u \<and> u < tier')
     \<and> (tier' = max tier (t + 1) \<or> (\<exists>d \<in> set ds. \<exists>u. map_of (fst s') d = Some u \<and> tier' = u + 1))"
    by (rule Cons.IH [OF f(2) s1(1)]) (rule Cons.prems(3), simp_all)
  then have d: "map_of (fst s') d = Some t" using extended_get s1(3) by blast
  then have "tier' = tier \<or> (\<exists>d \<in> set (d # ds). \<exists>u. map_of (fst s') d = Some u \<and> tier' = u + 1)"
    using ih by (cases "tier \<le> t + 1") (auto simp: max_def)
  then show ?case using ih d extended_trans [OF s1(2)] by auto
qed

lemma resolve_ok:
  assumes base: "base = dict_get_default 0 tiers"
    and D: "\<And>r d. (r, d) \<in> D \<longleftrightarrow> d \<in> set (present_dependencies by_id r)"
  shows "resolve depth by_id tiers rid s = Some (Inr (t, s')) \<Longrightarrow> state_ok D base s \<Longrightarrow>
    state_ok D base s' \<and> extended s s' \<and> map_of (fst s') rid = Some t"
proof (induction depth arbitrary: rid s t s')
  case 0
  then show ?case by simp
next
  case (Suc depth)
  show ?case
  proof (cases "map_of (fst s) rid")
    case (Some u)
    then show ?thesis using Suc.prems by simp
  next
    case None
    have fresh: "rid \<notin> snd s" using Suc.prems(1) None by (auto split: if_splits)
    let ?s1 = "(fst s, insert rid (snd s))"
    obtain tier s2 where loop: "try_fold (deps_step (resolve depth by_id tiers)) (present_dependencies by_id rid)
        (base rid, ?s1) = Some (Inr (tier, s2))"
      and res: "t = tier" "s' = (dict_set rid tier (fst s2), snd s2 - {rid})"
      using Suc.prems(1) None fresh by (auto simp: base split: bind_splits sum.splits)
    have s1: "state_ok D base ?s1" using Suc.prems(2) None by (auto simp: state_ok_def)
    have s2: "state_ok D base s2 \<and> extended ?s1 s2 \<and> base rid \<le> tier
       \<and> (\<forall>d \<in> set (present_dependencies by_id rid). \<exists>u. map_of (fst s2) d = Some u \<and> u < tier)
       \<and> (tier = base rid \<or> (\<exists>d \<in> set (present_dependencies by_id rid). \<exists>u. map_of (fst s2) d = Some u \<and> tier = u + 1))"
      by (rule deps_loop_ok [OF _ loop s1]) (rule Suc.IH)
    have vis: "snd s2 = insert rid (snd s)" using s2 by (simp add: extended_def)
    then have new: "map_of (fst s2) rid = None" using s2 by (auto simp: state_ok_def domIff)
    have self: "(rid, rid) \<notin> D"
      using s2 D new by (metis option.distinct(1))
    have "tiers_ok D base (fst s')"
      unfolding tiers_ok_def
    proof (intro allI impI)
      fix k u
      assume k: "map_of (fst s') k = Some u"
      show "base k \<le> u \<and> (\<forall>d. (k, d) \<in> D \<longrightarrow> (\<exists>w. map_of (fst s') d = Some w \<and> w < u))
          \<and> (u = base k \<or> (\<exists>d w. (k, d) \<in> D \<and> map_of (fst s') d = Some w \<and> u = w + 1))"
      proof (cases "k = rid")
        case True
        have eq: "map_of (fst s') d = map_of (fst s2) d" if "(k, d) \<in> D" for d
          using that self True by (auto simp: res)
        have "u = tier" using k True by (simp add: res)
        moreover have "base k \<le> tier" "\<forall>d. (k, d) \<in> D \<longrightarrow> (\<exists>w. map_of (fst s2) d = Some w \<and> w < tier)"
            "tier = base k \<or> (\<exists>d w. (k, d) \<in> D \<and> map_of (fst s2) d = Some w \<and> tier = w + 1)"
          using s2 D True by blast+
        ultimately show ?thesis using eq by metis
      next
        case False
        then have k2: "map_of (fst s2) k = Some u" using k by (simp add: res)
        have eq: "map_of (fst s') d = map_of (fst s2) d" if "map_of (fst s2) d = Some w" for d w
          using that new by (auto simp: res)
        have "base k \<le> u" "\<forall>d. (k, d) \<in> D \<longrightarrow> (\<exists>w. map_of (fst s2) d = Some w \<and> w < u)"
            "u = base k \<or> (\<exists>d w. (k, d) \<in> D \<and> map_of (fst s2) d = Some w \<and> u = w + 1)"
          using s2 k2 unfolding state_ok_def tiers_ok_def by blast+
        then show ?thesis using eq by metis
      qed
    qed
    moreover have "snd s' \<inter> dom (map_of (fst s')) = {}"
      using s2 vis by (auto simp: res state_ok_def)
    moreover have "extended s s'"
      using s2 vis fresh None unfolding extended_def res by (auto simp: map_le_def)
    ultimately show ?thesis by (simp add: state_ok_def res)
  qed
qed

text \<open>An error names a rule on a cycle.\<close>

lemma resolve_visiting: "resolve depth by_id tiers rid s = Some (Inr (t, s')) \<Longrightarrow> snd s' = snd s"
proof (induction depth arbitrary: rid s t s')
  case (Suc depth)
  show ?case
  proof (cases "map_of (fst s) rid")
    case None
    have fresh: "rid \<notin> snd s" using Suc.prems None by (auto split: if_splits)
    let ?s1 = "(fst s, insert rid (snd s))"
    obtain tier s2 where loop: "try_fold (deps_step (resolve depth by_id tiers)) (present_dependencies by_id rid)
        (dict_get_default 0 tiers rid, ?s1) = Some (Inr (tier, s2))" "s' = (dict_set rid tier (fst s2), snd s2 - {rid})"
      using Suc.prems None fresh by (auto split: bind_splits sum.splits)
    have "snd (snd (tier, s2)) = insert rid (snd s)"
      by (rule try_fold_inv [OF loop(1), where I = "\<lambda>x. snd (snd x) = insert rid (snd s)"])
        (simp_all add: deps_step_visiting [OF Suc.IH])
    then show ?thesis using loop(2) fresh by auto
  qed (use Suc.prems in simp)
qed simp

lemma resolve_error:
  assumes D: "\<And>r d. (r, d) \<in> D \<longleftrightarrow> d \<in> set (present_dependencies by_id r)"
  shows "resolve depth by_id tiers rid s = Some (Inl e) \<Longrightarrow> \<forall>v \<in> snd s. (v, rid) \<in> D\<^sup>+
    \<Longrightarrow> \<exists>r. e = CyclicRuleDependency r \<and> (r, r) \<in> D\<^sup>+"
proof (induction depth arbitrary: rid s)
  case (Suc depth)
  have None: "map_of (fst s) rid = None" using Suc.prems(1) by (cases "map_of (fst s) rid") simp_all
  show ?case
  proof (cases "rid \<in> snd s")
    case True
    then show ?thesis using Suc.prems None by auto
  next
    case False
    let ?s1 = "(fst s, insert rid (snd s))"
    have loop: "try_fold (deps_step (resolve depth by_id tiers)) (present_dependencies by_id rid)
        (dict_get_default 0 tiers rid, ?s1) = Some (Inl e)"
      using Suc.prems(1) None False by (auto split: bind_splits sum.splits)
    have "\<exists>d \<in> set (present_dependencies by_id rid). \<exists>x. snd (snd x) = insert rid (snd s)
        \<and> deps_step (resolve depth by_id tiers) d x = Some (Inl e)"
      by (rule try_fold_error [OF loop]) (simp, rule deps_step_visiting [OF resolve_visiting])
    then obtain d x where d: "d \<in> set (present_dependencies by_id rid)" "snd (snd x) = insert rid (snd s)"
        "deps_step (resolve depth by_id tiers) d x = Some (Inl e)"
      by blast
    have "resolve depth by_id tiers d (snd x) = Some (Inl e)"
      using d(3) by (cases x) (simp add: deps_step_Inl)
    moreover have "(rid, d) \<in> D" using d(1) D by simp
    then have "\<forall>v \<in> snd (snd x). (v, d) \<in> D\<^sup>+"
      unfolding d(2) using Suc.prems(2) by (metis insertE trancl.r_into_trancl trancl.trancl_into_trancl)
    ultimately show ?thesis by (rule Suc.IH)
  qed
qed simp

text \<open>Each nested call adds a rule to \<open>visiting\<close>: the recursion is no deeper than the rules are many.\<close>

lemma resolve_returns:
  assumes ids: "finite ids" "\<And>r. set (present_dependencies by_id r) \<subseteq> ids"
  shows "rid \<in> ids \<Longrightarrow> card (ids - snd s) < depth \<Longrightarrow> resolve depth by_id tiers rid s \<noteq> None"
proof (induction depth arbitrary: rid s)
  case (Suc depth)
  show ?case
  proof (cases "map_of (fst s) rid = None \<and> rid \<notin> snd s")
    case True
    let ?s1 = "(fst s, insert rid (snd s))"
    have "card (ids - insert rid (snd s)) < card (ids - snd s)"
      using ids(1) Suc.prems(1) True by (intro psubset_card_mono) auto
    then have small: "card (ids - insert rid (snd s)) < depth" using Suc.prems(2) by linarith
    have "try_fold (deps_step (resolve depth by_id tiers)) (present_dependencies by_id rid)
        (dict_get_default 0 tiers rid, ?s1) \<noteq> None"
    proof (rule try_fold_total [where I = "\<lambda>x. snd (snd x) = insert rid (snd s)"])
      fix d and x :: "nat \<times> resolve_state"
      assume d: "d \<in> set (present_dependencies by_id rid)" and x: "snd (snd x) = insert rid (snd s)"
      have "d \<in> ids" using d ids(2) by blast
      then have "resolve depth by_id tiers d (snd x) \<noteq> None" using small by (intro Suc.IH) (simp_all add: x)
      then obtain r where "resolve depth by_id tiers d (snd x) = Some r" by blast
      then show "deps_step (resolve depth by_id tiers) d x \<noteq> None"
        by (cases x) (simp add: deps_step_def)
    next
      fix d and x y :: "nat \<times> resolve_state"
      assume x: "snd (snd x) = insert rid (snd s)" and y: "deps_step (resolve depth by_id tiers) d x = Some (Inr y)"
      show "snd (snd y) = insert rid (snd s)" by (rule deps_step_visiting [OF resolve_visiting y x])
    qed simp
    then obtain r where "try_fold (deps_step (resolve depth by_id tiers)) (present_dependencies by_id rid)
        (dict_get_default 0 tiers rid, ?s1) = Some r" by blast
    then show ?thesis using True by simp
  next
    case False
    then show ?thesis by (cases "map_of (fst s) rid") auto
  qed
qed simp

subsection \<open>The groups\<close>

definition category_of :: "rule_plugin list \<Rightarrow> string \<Rightarrow> nat" where
  "category_of rules = dict_get_default 0 (category_tiers rules)"

lemma depends_iff: "(r, d) \<in> depends rules \<longleftrightarrow> d \<in> set (present_dependencies (rules_by_id rules) r)"
  by (simp add: depends_def)

lemma tiers_acyclic:
  assumes "tiers_ok D base resolved" and "\<And>k d. (k, d) \<in> D \<Longrightarrow> map_of resolved k \<noteq> None"
  shows "acyclic D"
proof -
  have "the (map_of resolved d) < the (map_of resolved k)" if e: "(k, d) \<in> D" for k d
  proof -
    obtain t where t: "map_of resolved k = Some t" using assms(2) [OF e] by blast
    then obtain u where "map_of resolved d = Some u" "u < t" using assms(1) e unfolding tiers_ok_def by blast
    then show ?thesis using t by simp
  qed
  then have "D\<inverse> \<subseteq> measure (\<lambda>k. the (map_of resolved k))" by auto
  then have "acyclic (D\<inverse>)" by (rule wf_acyclic [OF wf_subset [OF wf_measure]])
  then show ?thesis by (simp add: acyclic_converse)
qed

lemma resolve_rule_Inr: "resolve_rule depth rules r res = Some (Inr res') \<longleftrightarrow>
    (\<exists>t s. resolve depth (rules_by_id rules) (category_tiers rules) (rule_id r) (res, {}) = Some (Inr (t, s)) \<and> res' = fst s)"
  by (auto simp: resolve_rule_def split: bind_splits sum.splits)

lemma resolve_rule_Inl: "resolve_rule depth rules r res = Some (Inl e) \<longleftrightarrow>
    resolve depth (rules_by_id rules) (category_tiers rules) (rule_id r) (res, {}) = Some (Inl e)"
  by (auto simp: resolve_rule_def split: bind_splits sum.splits)

lemma resolve_rule_ok:
  assumes "tiers_ok (depends rules) (category_of rules) res" and "resolve_rule depth rules r res = Some (Inr res')"
  shows "tiers_ok (depends rules) (category_of rules) res' \<and> map_of res \<subseteq>\<^sub>m map_of res' \<and> rule_id r \<in> dom (map_of res')"
proof -
  obtain t s where s: "resolve depth (rules_by_id rules) (category_tiers rules) (rule_id r) (res, {}) = Some (Inr (t, s))"
      "res' = fst s"
    using assms(2) unfolding resolve_rule_Inr by blast
  show ?thesis
    using resolve_ok [OF category_of_def depends_iff s(1)] assms(1) s(2) by (auto simp: state_ok_def extended_def)
qed

lemma resolve_rule_returns:
  assumes "card (rule_id ` set rules) < depth" and "r \<in> set rules"
  shows "resolve_rule depth rules r res \<noteq> None"
proof -
  have "resolve depth (rules_by_id rules) (category_tiers rules) (rule_id r) (res, {}) \<noteq> None"
  proof (rule resolve_returns [where ids = "rule_id ` set rules"])
    show "set (present_dependencies (rules_by_id rules) r) \<subseteq> rule_id ` set rules" for r
      using depends_ids [of r _ rules] by (auto simp: depends_iff)
  qed (use assms in simp_all)
  then obtain x where "resolve depth (rules_by_id rules) (category_tiers rules) (rule_id r) (res, {}) = Some x" by blast
  then show ?thesis by (simp add: resolve_rule_def)
qed

lemma resolve_all_cases:
  assumes depth: "card (rule_id ` set rules) < depth"
  obtains (ok) resolved where "resolve_all depth rules = Some (Inr resolved)"
      "tiers_ok (depends rules) (category_of rules) resolved" "rule_id ` set rules \<subseteq> dom (map_of resolved)"
    | (cyclic) r where "resolve_all depth rules = Some (Inl (CyclicRuleDependency r))" "(r, r) \<in> (depends rules)\<^sup>+"
proof -
  let ?D = "depends rules" and ?base = "category_of rules"
  have "resolve_all depth rules \<noteq> None"
    unfolding resolve_all_def
    by (rule try_fold_total [where I = "\<lambda>_. True"]) (use resolve_rule_returns [OF depth] in simp_all)
  then obtain x where x: "resolve_all depth rules = Some x" by blast
  show ?thesis
  proof (cases x)
    case (Inl e)
    then have "\<exists>r \<in> set rules. \<exists>res. True \<and> resolve_rule depth rules r res = Some (Inl e)"
      using x unfolding resolve_all_def by (intro try_fold_error [where I = "\<lambda>_. True"]) simp_all
    then obtain r res where "resolve depth (rules_by_id rules) (category_tiers rules) (rule_id r) (res, {}) = Some (Inl e)"
      unfolding resolve_rule_Inl by blast
    then have "\<exists>r. e = CyclicRuleDependency r \<and> (r, r) \<in> ?D\<^sup>+"
      by (rule resolve_error [OF depends_iff]) simp
    then show ?thesis using cyclic x Inl by blast
  next
    case (Inr resolved)
    have loop: "try_fold (resolve_rule depth rules) rules [] = Some (Inr resolved)" using x Inr by (simp add: resolve_all_def)
    have init: "tiers_ok ?D ?base []" by (simp add: tiers_ok_def)
    have "tiers_ok ?D ?base resolved"
      by (rule try_fold_inv [OF loop, where I = "tiers_ok ?D ?base"]) (use init resolve_rule_ok in blast)+
    moreover have "\<forall>r \<in> set rules. rule_id r \<in> dom (map_of resolved)"
    proof (rule try_fold_each [OF loop, where I = "tiers_ok ?D ?base"])
      show "rule_id y \<in> dom (map_of s')" if "tiers_ok ?D ?base s" "resolve_rule depth rules x s = Some (Inr s')"
        "rule_id y \<in> dom (map_of s)" for x y s s'
        using resolve_rule_ok [OF that(1,2)] that(3) map_le_implies_dom_le by blast
    qed (use init resolve_rule_ok in blast)+
    ultimately show ?thesis using ok x Inr by blast
  qed
qed

text \<open>The list of groups for given tiers: one group per tier, in order, each in the order of the rules.\<close>

lemma groups_by_tier_map:
  "groups_by_tier resolved rules =
     map (\<lambda>t. filter (\<lambda>r. dict_get_default 0 resolved (rule_id r) = t) rules)
       (sort (remdups (map (\<lambda>r. dict_get_default 0 resolved (rule_id r)) rules)))" (is "_ = map ?g (sort ?ts)")
proof -
  let ?tier = "\<lambda>r. dict_get_default 0 resolved (rule_id r)"
  let ?gs = "group_by ?tier rules"
  have "k \<in> set (dict_keys ?gs) \<longleftrightarrow> k \<in> ?tier ` set rules" for k
  proof -
    have "k \<in> set (dict_keys ?gs) \<longleftrightarrow> map_of ?gs k \<noteq> None" by (simp add: map_of_None_dict_keys)
    then show ?thesis by (auto simp: map_of_group_by filter_empty_conv)
  qed
  then have keys: "set (dict_keys ?gs) = ?tier ` set rules" by blast
  have "sort (dict_keys ?gs) = sort ?ts"
    by (rule sorted_distinct_set_unique) (use keys distinct_group_by in auto)
  moreover have "dict_get_default [] ?gs t = ?g t" for t
    by (auto simp: dict_get_default_def map_of_group_by)
  ultimately show ?thesis unfolding groups_by_tier_def Let_def by (simp cong: map_cong)
qed

lemma mset_filter_partition:
  "distinct ts \<Longrightarrow> mset (concat (map (\<lambda>t. filter (\<lambda>x. f x = t) xs) ts)) = filter_mset (\<lambda>x. f x \<in> set ts) (mset xs)"
proof (induction ts)
  case (Cons t ts)
  have "filter_mset (\<lambda>x. f x = t) M + filter_mset (\<lambda>x. f x \<in> set ts) M
      = filter_mset (\<lambda>x. f x \<in> set (t # ts)) M" for M
    by (rule multiset_eqI) (use Cons.prems in auto)
  then show ?case using Cons by (simp add: mset_filter)
qed simp

lemma groups_cover:
  "mset (concat (groups_by_tier resolved rules)) = mset rules" "[] \<notin> set (groups_by_tier resolved rules)"
proof -
  let ?tier = "\<lambda>r. dict_get_default 0 resolved (rule_id r)"
  have "distinct (sort (remdups (map ?tier rules)))" by simp
  then have "mset (concat (groups_by_tier resolved rules)) = filter_mset (\<lambda>r. ?tier r \<in> ?tier ` set rules) (mset rules)"
    unfolding groups_by_tier_map by (subst mset_filter_partition) simp_all
  also have "\<dots> = mset rules" by (simp add: filter_mset_eq_conv)
  finally show "mset (concat (groups_by_tier resolved rules)) = mset rules" .
  show "[] \<notin> set (groups_by_tier resolved rules)"
    unfolding groups_by_tier_map by (auto simp: filter_empty_conv eq_commute [of "[]"])
qed

lemma group_position:
  assumes "i < length (groups_by_tier resolved rules)" and "r \<in> set (groups_by_tier resolved rules ! i)"
    and "j < length (groups_by_tier resolved rules)" and "q \<in> set (groups_by_tier resolved rules ! j)"
  shows "i < j \<longleftrightarrow> dict_get_default 0 resolved (rule_id r) < dict_get_default 0 resolved (rule_id q)"
    "r \<in> set rules" "q \<in> set rules"
proof -
  let ?tier = "\<lambda>r. dict_get_default 0 resolved (rule_id r)"
  let ?ts = "sort (remdups (map ?tier rules))"
  have ij: "i < length ?ts" "j < length ?ts" using assms(1,3) unfolding groups_by_tier_map by simp_all
  have t: "?tier r = ?ts ! i" "r \<in> set rules" "?tier q = ?ts ! j" "q \<in> set rules"
    using assms(2,4) ij unfolding groups_by_tier_map by simp_all
  have "sorted_wrt (<) ?ts" by (simp add: strict_sorted_iff)
  then have "a < b \<Longrightarrow> b < length ?ts \<Longrightarrow> ?ts ! a < ?ts ! b" for a b by (rule sorted_wrt_nth_less)
  then show "i < j \<longleftrightarrow> ?tier r < ?tier q" unfolding t(1,3) using ij by (metis linorder_neqE_nat not_less_iff_gr_or_eq)
  show "r \<in> set rules" "q \<in> set rules" by (rule t)+
qed


text \<open>Three rules, one of which needs the other two, and two that need each other.\<close>

definition plan_rule :: "string \<Rightarrow> impl_category \<Rightarrow> string list \<Rightarrow> rule_plugin" where
  "plan_rule rid cat deps = scan_rule
     \<lparr>md_rule_id = rid, md_rule_number = [], md_standard = MISRA_C_2012, md_category = REQUIRED,
      md_severity = MAJOR, md_title = [], md_description = [], md_rationale = [], md_tags = [],
      md_references = [], md_plugin_module = [], md_plugin_version = ''0.1.0'', md_requires_ast_nodes = [],
      md_implementation_category = cat, md_rule_pack = None, md_requires_type_info = False,
      md_requires_cfg = False, md_requires_dataflow = False, md_requires_linkage = False,
      md_requires_macro_expansion = False, md_rule_dependencies = deps\<rparr> (\<lambda>ctx g. [])"

definition planned_rules :: "rule_plugin list" where
  "planned_rules = [plan_rule ''c'' A_AST_ONLY [''b'', ''a''], plan_rule ''b'' D_DATA_FLOW [],
     plan_rule ''a'' A_AST_ONLY []]"

definition cyclic_rules :: "rule_plugin list" where
  "cyclic_rules = [plan_rule ''a'' A_AST_ONLY [''b''], plan_rule ''b'' A_AST_ONLY [''a'']]"

lemma planned_rules_groups:
  "map_option (map_sum id (map (map rule_id))) (resolve_execution_groups 4 planned_rules)
     = Some (Inr [[''a''], [''b''], [''c'']])"
  by code_simp

lemma cyclic_rules_error: "map_option (map_sum id (map (map rule_id))) (resolve_execution_groups 3 cyclic_rules)
     = Some (Inl (CyclicRuleDependency ''a''))"
  by code_simp


end
