(* ===== verification/Json.thy ===== *)
theory Json
  imports Py_Prelude
begin

text \<open>
  \<open>json.dumps(value, sort_keys=True, separators=(",", ":"))\<close> for strings, lists and objects, the
  values the rule engine serializes, and the fact that it never writes two different values as
  the same text.
\<close>

datatype json = JStr string | JArr "json list" | JObj "(string \<times> json) list"

subsection \<open>Encodings that end themselves\<close>

text \<open>
  A code whose words are recognisable at the front of any text.  A sequence of its words, closed
  by a character no word starts with, is recognisable as well.
\<close>

locale self_delimiting =
  fixes enc :: "'a \<Rightarrow> string"
  assumes unique: "enc x @ xs = enc y @ ys \<Longrightarrow> x = y \<and> xs = ys"
begin

lemma enc_eq_iff: "enc x = enc y \<longleftrightarrow> x = y"
  using unique [of x "[]" y "[]"] by auto

lemma sequence_unique:
  assumes "\<And>x r. hd (enc x @ r) \<noteq> c"
  shows "concat (map enc us) @ c # xs = concat (map enc vs) @ c # ys \<Longrightarrow> us = vs \<and> xs = ys"
proof (induction us arbitrary: vs)
  case Nil
  show ?case
  proof (cases vs)
    case (Cons v vs')
    have "c # xs = enc v @ concat (map enc vs') @ c # ys" using Nil Cons by simp
    then have "hd (enc v @ concat (map enc vs') @ c # ys) = c" by (metis list.sel(1))
    then show ?thesis using assms by blast
  qed (use Nil in simp)
next
  case (Cons u us)
  show ?case
  proof (cases vs)
    case Nil
    have "hd (enc u @ concat (map enc us) @ c # xs) = c" using Cons.prems Nil by simp
    then show ?thesis using assms by blast
  next
    case (Cons v vs')
    have "enc u @ concat (map enc us) @ c # xs = enc v @ concat (map enc vs') @ c # ys"
      using Cons.prems Cons by simp
    from unique [OF this] show ?thesis using Cons.IH Cons by blast
  qed
qed

end

subsection \<open>Strings\<close>

text \<open>\<open>ensure_ascii\<close> leaves the printable ASCII characters and escapes the rest.\<close>

definition hex_digit :: "nat \<Rightarrow> char" where
  "hex_digit n = (if n < 10 then char_of (48 + n) else char_of (87 + n))"

definition backslash :: char where
  "backslash = CHR 0x5C"

definition short_escapes :: "(char \<times> char) list" where
  "short_escapes = [(CHR 0x22, CHR 0x22), (CHR 0x5C, CHR 0x5C), (CHR 0x0A, CHR ''n''), (CHR 0x0D, CHR ''r''),
     (CHR 0x09, CHR ''t''), (CHR 0x0C, CHR ''f''), (CHR 0x08, CHR ''b'')]"

definition escape_char :: "char \<Rightarrow> string" where
  "escape_char c = (case map_of short_escapes c of
      Some e \<Rightarrow> [backslash, e]
    | None \<Rightarrow>
        (let n = of_char c :: nat in
         if 32 \<le> n \<and> n \<le> 126 then [c]
         else [backslash, CHR ''u'', CHR ''0'', CHR ''0'', hex_digit (n div 16), hex_digit (n mod 16)]))"

definition quote :: "string \<Rightarrow> string" where
  "quote s = dq @ concat (map escape_char s) @ dq"

text \<open>Reading one escaped character back.\<close>

definition hex_value :: "char \<Rightarrow> nat" where
  "hex_value c = (if of_char c < (58 :: nat) then of_char c - 48 else of_char c - 87)"

definition unescape :: "string \<Rightarrow> char \<times> string" where
  "unescape s =
     (if hd s \<noteq> backslash then (hd s, tl s)
      else if s ! 1 = CHR ''u'' then (char_of (16 * hex_value (s ! 4) + hex_value (s ! 5)), drop 6 s)
      else (the (map_of (map (\<lambda>(c, e). (e, c)) short_escapes) (s ! 1)), drop 2 s))"

lemma hex_value_digit: "n < 16 \<Longrightarrow> hex_value (hex_digit n) = n"
  by (simp add: hex_value_def hex_digit_def)

lemma short_escapes_back:
  "map_of short_escapes c = Some e \<Longrightarrow> e \<noteq> CHR ''u'' \<and> map_of (map (\<lambda>(c, e). (e, c)) short_escapes) e = Some c"
  by (auto simp: short_escapes_def split: if_splits)

lemma unescape_escape: "unescape (escape_char c @ rest) = (c, rest)"
proof (cases "map_of short_escapes c")
  case (Some e)
  then show ?thesis using short_escapes_back [OF Some] by (simp add: escape_char_def unescape_def)
next
  case None
  have ne: "c \<noteq> backslash" using None by (auto simp: short_escapes_def backslash_def)
  have "of_char c < (256 :: nat)" by (metis mod_less_divisor of_char_mod_256 zero_less_numeral)
  then have "hex_value (hex_digit ((of_char c :: nat) div 16)) = of_char c div 16"
      "hex_value (hex_digit ((of_char c :: nat) mod 16)) = of_char c mod 16"
    by (auto intro!: hex_value_digit less_mult_imp_div_less)
  then show ?thesis
    using None ne by (simp add: escape_char_def unescape_def Let_def)
qed

interpretation chars: self_delimiting escape_char
  by unfold_locales (metis unescape_escape prod.inject)

lemma escape_char_not_quote: "hd (escape_char c @ xs) \<noteq> CHR 0x22"
proof (cases "map_of short_escapes c")
  case (Some e)
  then show ?thesis by (simp add: escape_char_def backslash_def)
next
  case None
  then have "c \<noteq> CHR 0x22" by (auto simp: short_escapes_def)
  then show ?thesis using None by (simp add: escape_char_def backslash_def Let_def)
qed

lemma quote_append: "quote s @ xs = CHR 0x22 # concat (map escape_char s) @ CHR 0x22 # xs"
  by (simp add: quote_def)

interpretation strings: self_delimiting quote
proof unfold_locales
  fix x y :: string and xs ys
  assume "quote x @ xs = quote y @ ys"
  then have "concat (map escape_char x) @ CHR 0x22 # xs = concat (map escape_char y) @ CHR 0x22 # ys"
    unfolding quote_append by (rule list.inject [THEN iffD1, THEN conjunct2])
  then show "x = y \<and> xs = ys" by (rule chars.sequence_unique [OF escape_char_not_quote])
qed

subsection \<open>Values\<close>

text \<open>What follows the first element of a bracketed list: the others and the closing bracket.\<close>

fun enclosed :: "char \<Rightarrow> string list \<Rightarrow> string" where
  "enclosed c [] = [c]"
| "enclosed c (x # xs) = '','' @ x @ enclosed c xs"

definition bracket :: "char \<Rightarrow> char \<Rightarrow> string list \<Rightarrow> string" where
  "bracket l r xs = l # (case xs of [] \<Rightarrow> [r] | x # xs \<Rightarrow> x @ enclosed r xs)"

fun render :: "json \<Rightarrow> string" where
  "render (JStr s) = quote s"
| "render (JArr vs) = bracket CHR ''['' CHR '']'' (map render vs)"
| "render (JObj kvs) = bracket CHR ''{'' CHR ''}'' (map (\<lambda>(k, v). quote k @ '':'' @ render v) kvs)"

fun sort_keys :: "json \<Rightarrow> json" where
  "sort_keys (JStr s) = JStr s"
| "sort_keys (JArr vs) = JArr (map sort_keys vs)"
| "sort_keys (JObj kvs) = JObj (sort_key fst (map (\<lambda>(k, v). (k, sort_keys v)) kvs))"

definition dumps :: "json \<Rightarrow> string" where
  "dumps v = render (sort_keys v)"

text \<open>A value announces its kind with its first character.\<close>

lemma render_head:
  "\<exists>s. render v = CHR 0x22 # s \<or> render v = CHR ''['' # s \<or> render v = CHR ''{'' # s"
  by (cases v) (simp_all add: quote_def bracket_def)

lemma enclosed_inj:
  assumes "\<And>x y xs ys. x \<in> set us \<Longrightarrow> f x @ xs = f y @ ys \<Longrightarrow> x = y \<and> xs = ys" and "c \<noteq> CHR '',''"
  shows "enclosed c (map f us) @ xs = enclosed c (map f vs) @ ys \<Longrightarrow> us = vs \<and> xs = ys"
  using assms(1)
proof (induction us arbitrary: vs)
  case Nil
  then show ?case using assms(2) by (cases vs) auto
next
  case (Cons u us)
  show ?case
  proof (cases vs)
    case Nil
    then show ?thesis using Cons.prems(1) assms(2) by simp
  next
    case (Cons v vs')
    have "f u @ enclosed c (map f us) @ xs = f v @ enclosed c (map f vs') @ ys"
      using Cons.prems(1) Cons by simp
    then have "u = v" "enclosed c (map f us) @ xs = enclosed c (map f vs') @ ys"
      using Cons.prems(2) [of u] by auto
    then show ?thesis using Cons.IH [of vs'] Cons.prems(2) Cons by auto
  qed
qed

lemma bracket_inj:
  assumes inj: "\<And>x y xs ys. x \<in> set us \<Longrightarrow> f x @ xs = f y @ ys \<Longrightarrow> x = y \<and> xs = ys"
    and c: "c \<noteq> CHR '',''" and head: "\<And>x. f x \<noteq> [] \<and> hd (f x) \<noteq> c"
    and eq: "bracket l c (map f us) @ xs = bracket l c (map f vs) @ ys"
  shows "us = vs \<and> xs = ys"
proof (cases us)
  case Nil
  then show ?thesis
    using eq head by (cases vs) (auto simp: bracket_def, metis hd_append list.sel(1))
next
  case (Cons u us')
  show ?thesis
  proof (cases vs)
    case Nil
    have "f u @ enclosed c (map f us') @ xs = c # ys" using eq Cons Nil by (simp add: bracket_def)
    then show ?thesis using head [of u] by (metis hd_append list.sel(1))
  next
    case (Cons v vs')
    have "f u @ enclosed c (map f us') @ xs = f v @ enclosed c (map f vs') @ ys"
      using eq Cons \<open>us = u # us'\<close> by (simp add: bracket_def)
    then have "u = v" "enclosed c (map f us') @ xs = enclosed c (map f vs') @ ys"
      using inj [of u] \<open>us = u # us'\<close> by auto
    then show ?thesis
      using enclosed_inj [of us' f c xs vs' ys] inj c Cons \<open>us = u # us'\<close> by auto
  qed
qed

lemma render_inj: "render v @ xs = render w @ ys \<Longrightarrow> v = w \<and> xs = ys"
proof (induction v arbitrary: w xs ys rule: render.induct)
  case (1 s)
  then obtain t where w: "w = JStr t" by (cases w) (auto simp: quote_def bracket_def)
  then have "quote s @ xs = quote t @ ys" using 1 by simp
  from strings.unique [OF this] show ?case using w by simp
next
  case (2 vs)
  then obtain ws where w: "w = JArr ws" by (cases w) (auto simp: quote_def bracket_def)
  have "vs = ws \<and> xs = ys"
  proof (rule bracket_inj [where f = render])
    show "render x \<noteq> [] \<and> hd (render x) \<noteq> CHR '']''" for x using render_head [of x] by auto
    show "bracket CHR ''['' CHR '']'' (map render vs) @ xs = bracket CHR ''['' CHR '']'' (map render ws) @ ys"
      using "2.prems" w by simp
  qed (use "2.IH" in auto)
  then show ?case using w by simp
next
  case (3 kvs)
  then obtain ws where w: "w = JObj ws" by (cases w) (auto simp: quote_def bracket_def)
  let ?f = "\<lambda>(k, v). quote k @ '':'' @ render v"
  have "kvs = ws \<and> xs = ys"
  proof (rule bracket_inj [where f = ?f])
    show "?f x \<noteq> [] \<and> hd (?f x) \<noteq> CHR ''}''" for x by (cases x) (simp add: quote_def)
    show "bracket CHR ''{'' CHR ''}'' (map ?f kvs) @ xs = bracket CHR ''{'' CHR ''}'' (map ?f ws) @ ys"
      using "3.prems" w by simp
    fix x y xs ys
    assume x: "x \<in> set kvs" and eq: "?f x @ xs = ?f y @ ys"
    obtain k v k' v' where p: "x = (k, v)" "y = (k', v')" by (cases x, cases y) auto
    have "quote k @ '':'' @ render v @ xs = quote k' @ '':'' @ render v' @ ys" using eq p by simp
    from strings.unique [OF this] have k: "k = k'" "render v @ xs = render v' @ ys" by simp_all
    show "x = y \<and> xs = ys" using "3.IH" [OF x p(1) [symmetric] k(2)] k(1) p by simp
  qed simp
  then show ?case using w by simp
qed

interpretation jsons: self_delimiting render
  by unfold_locales (rule render_inj)

lemma dumps_eq_iff: "dumps v = dumps w \<longleftrightarrow> sort_keys v = sort_keys w"
  by (simp add: dumps_def jsons.enc_eq_iff)

end
