(* ===== verification/Results.thy ===== *)
theory Results
  imports Json Rule_Base
begin

text \<open>
  What the engine computes from a rule's result: the confidence score (\<open>confidence.py\<close>) and the
  fingerprint under which results are deduplicated and tracked (\<open>fingerprint.py\<close>).
  \<open>hashlib.sha256(..).hexdigest()\<close> is the parameter \<open>sha\<close>.
\<close>

subsection \<open>Confidence\<close>

definition confidence_weights :: "(string \<times> rat) list" where
  "confidence_weights =
     [(''ast_match_specificity'', dec2 30), (''type_information_complete'', dec2 25),
      (''macro_clarity'', dec2 15), (''historical_false_positive_rate'', dec2 15),
      (''fix_generator_certainty'', dec2 15)]"

text \<open>The running pair \<open>total\<close>, \<open>weight_sum\<close>.\<close>

definition weigh_factor :: "(string, rat) dict \<Rightarrow> string \<times> rat \<Rightarrow> rat \<times> rat \<Rightarrow> rat \<times> rat" where
  "weigh_factor fs kw acc = (case map_of fs (fst kw) of
      None \<Rightarrow> acc
    | Some x \<Rightarrow> (fst acc + x * snd kw, snd acc + snd kw))"

definition weighted_factors :: "(string, rat) dict \<Rightarrow> rat \<times> rat" where
  "weighted_factors fs = fold (weigh_factor fs) confidence_weights (0, 0)"

definition score_confidence :: "rule_result \<Rightarrow> rat" where
  "score_confidence r =
     (case weighted_factors (rr_confidence_factors r) of (tot, weight_sum) \<Rightarrow>
        if weight_sum = 0 then rr_confidence_score r
        else min 1 (max 0 (tot / weight_sum)))"

text \<open>The total lies between the weight sum times the least and times the greatest factor.\<close>

lemma weigh_factors_between:
  assumes "\<forall>k x. map_of fs k = Some x \<longrightarrow> lo \<le> x \<and> x \<le> hi" and "\<forall>(k, w) \<in> set ws. 0 < w"
    and "lo * snd acc \<le> fst acc" "fst acc \<le> hi * snd acc" "0 \<le> snd acc"
  shows "lo * snd (fold (weigh_factor fs) ws acc) \<le> fst (fold (weigh_factor fs) ws acc)
    \<and> fst (fold (weigh_factor fs) ws acc) \<le> hi * snd (fold (weigh_factor fs) ws acc)
    \<and> snd acc \<le> snd (fold (weigh_factor fs) ws acc)"
  using assms(2-5)
proof (induction ws arbitrary: acc)
  case Nil
  then show ?case by simp
next
  case (Cons kw ws)
  let ?acc = "weigh_factor fs kw acc"
  have w: "0 < snd kw" using Cons.prems(1) by auto
  have step: "lo * snd ?acc \<le> fst ?acc \<and> fst ?acc \<le> hi * snd ?acc \<and> snd acc \<le> snd ?acc"
  proof (cases "map_of fs (fst kw)")
    case None
    then show ?thesis using Cons.prems by (simp add: weigh_factor_def)
  next
    case (Some x)
    have "lo * snd kw \<le> x * snd kw" "x * snd kw \<le> hi * snd kw"
      using assms(1) Some w by (simp_all add: mult_right_mono)
    then show ?thesis using Some Cons.prems w by (simp add: weigh_factor_def distrib_left add_mono)
  qed
  then have "lo * snd ?acc \<le> fst ?acc" "fst ?acc \<le> hi * snd ?acc" "0 \<le> snd ?acc" "snd acc \<le> snd ?acc"
    using Cons.prems(4) by auto
  with Cons.IH [of ?acc] Cons.prems(1) show ?case by auto
qed

lemma weighted_factors_between:
  assumes "\<forall>k x. map_of fs k = Some x \<longrightarrow> lo \<le> x \<and> x \<le> hi"
    and "weighted_factors fs = (tot, weight_sum)" and "weight_sum \<noteq> 0"
  shows "lo \<le> tot / weight_sum \<and> tot / weight_sum \<le> hi"
proof -
  have pos: "\<forall>(k, w) \<in> set confidence_weights. 0 < w" by (simp add: confidence_weights_def dec2_def)
  have "lo * weight_sum \<le> tot \<and> tot \<le> hi * weight_sum \<and> 0 \<le> weight_sum"
    using weigh_factors_between [OF assms(1) pos, where acc = "(0, 0)"] assms(2) by (simp add: weighted_factors_def)
  then show ?thesis using assms(3) by (simp add: pos_le_divide_eq pos_divide_le_eq less_le)
qed

lemma weigh_factors_absent:
  "\<forall>kw \<in> set ws. map_of fs (fst kw) = None \<Longrightarrow> fold (weigh_factor fs) ws acc = acc"
  by (induction ws arbitrary: acc) (simp_all add: weigh_factor_def)

subsection \<open>Fingerprints\<close>

definition build_ast_node_path :: "string list \<Rightarrow> string" where
  "build_ast_node_path path = (case path of [] \<Rightarrow> [] | p # ps \<Rightarrow> p @ concat (map (\<lambda>q. ''/'' @ q) ps))"

definition json_strings :: "string list \<Rightarrow> json" where
  "json_strings xs = JArr (map JStr xs)"

definition build_semantic_context :: "rule_result \<Rightarrow> json" where
  "build_semantic_context r = JObj
     [(''ast_node_id'', JStr (rr_ast_node_id r)),
      (''ast_node_path'', json_strings (rr_ast_node_path r)),
      (''offending_expression'', JStr (rr_offending_expression r)),
      (''macro_chain'', json_strings (rr_macro_expansion_chain r))]"

definition fingerprint_payload :: "rule_result \<Rightarrow> json" where
  "fingerprint_payload r = JObj
     [(''rule_id'', JStr (rr_rule_id r)),
      (''file_path'', JStr (rr_file_path r)),
      (''ast_node_path'', json_strings (rr_ast_node_path r)),
      (''offending_expression'', JStr (rr_offending_expression r)),
      (''semantic_context'', build_semantic_context r)]"

definition generate_fingerprint :: "(string \<Rightarrow> string) \<Rightarrow> rule_result \<Rightarrow> string" where
  "generate_fingerprint sha r = sha (dumps (fingerprint_payload r))"

text \<open>The fields a fingerprint depends on.\<close>

definition result_identity :: "rule_result \<Rightarrow> string \<times> string \<times> string list \<times> string \<times> string \<times> string list" where
  "result_identity r = (rr_rule_id r, rr_file_path r, rr_ast_node_path r, rr_offending_expression r,
     rr_ast_node_id r, rr_macro_expansion_chain r)"

lemma json_strings_inj [simp]: "sort_keys (json_strings xs) = json_strings xs" "json_strings xs = json_strings ys \<longleftrightarrow> xs = ys"
  by (auto simp: json_strings_def inj_map_eq_map inj_on_def)

lemma sorted_context:
  "sort_keys (build_semantic_context r) = JObj
     [(''ast_node_id'', JStr (rr_ast_node_id r)),
      (''ast_node_path'', json_strings (rr_ast_node_path r)),
      (''macro_chain'', json_strings (rr_macro_expansion_chain r)),
      (''offending_expression'', JStr (rr_offending_expression r))]"
  by (simp add: build_semantic_context_def)

lemma sorted_payload:
  "sort_keys (fingerprint_payload r) = JObj
     [(''ast_node_path'', json_strings (rr_ast_node_path r)),
      (''file_path'', JStr (rr_file_path r)),
      (''offending_expression'', JStr (rr_offending_expression r)),
      (''rule_id'', JStr (rr_rule_id r)),
      (''semantic_context'', sort_keys (build_semantic_context r))]"
  by (simp add: fingerprint_payload_def)

lemma payload_eq_iff:
  "dumps (fingerprint_payload r) = dumps (fingerprint_payload q) \<longleftrightarrow> result_identity r = result_identity q"
  unfolding dumps_eq_iff sorted_payload sorted_context by (auto simp: result_identity_def)


text \<open>A result whose five factors are given in hundredths, as every rule gives them.\<close>

definition scored_result :: "int \<Rightarrow> int \<Rightarrow> int \<Rightarrow> int \<Rightarrow> int \<Rightarrow> rule_result" where
  "scored_result a b c d e = \<lparr>rr_rule_id = ''misra-c2012-rule-2-1'', rr_file_path = ''m.c'',
     rr_line_start = 4, rr_line_end = 4, rr_column_start = 1, rr_column_end = 9,
     rr_offending_expression = ''x = 1'', rr_explanation = [], rr_risk_description = [], rr_source_snippet = [],
     rr_ast_node_id = ''n7'', rr_ast_node_path = [''n1'', ''n7''], rr_macro_expansion_chain = [],
     rr_confidence_score = dec2 50, rr_suggested_fix = None, rr_confidence_factors = factors a b c d e\<rparr>"

text \<open>
  The confidence score of a result is a weighted mean of its factors: it lies between any
  two bounds of the factors within 0 and 1, and it is in that range even when the factors are
  not, if the score the rule gave is; without a weighted factor that score is kept.
\<close>

theorem score_confidence_bounds:
  assumes "0 \<le> rr_confidence_score r" and "rr_confidence_score r \<le> 1"
  shows "0 \<le> score_confidence r \<and> score_confidence r \<le> 1
    \<and> ((\<forall>kw \<in> set confidence_weights. map_of (rr_confidence_factors r) (fst kw) = None)
         \<longrightarrow> score_confidence r = rr_confidence_score r)
    \<and> (\<forall>lo hi. 0 \<le> lo \<longrightarrow> hi \<le> 1 \<longrightarrow> (\<forall>k x. map_of (rr_confidence_factors r) k = Some x \<longrightarrow> lo \<le> x \<and> x \<le> hi)
         \<longrightarrow> snd (weighted_factors (rr_confidence_factors r)) \<noteq> 0
         \<longrightarrow> lo \<le> score_confidence r \<and> score_confidence r \<le> hi)"
proof -
  obtain t w where tw: "weighted_factors (rr_confidence_factors r) = (t, w)" by fastforce
  have score: "score_confidence r = (if w = 0 then rr_confidence_score r else min 1 (max 0 (t / w)))"
    by (simp add: score_confidence_def tw)
  have "score_confidence r = rr_confidence_score r"
    if "\<forall>kw \<in> set confidence_weights. map_of (rr_confidence_factors r) (fst kw) = None"
    using weigh_factors_absent [OF that, of "(0, 0)"] by (simp add: score_confidence_def weighted_factors_def)
  moreover have "lo \<le> score_confidence r \<and> score_confidence r \<le> hi"
    if "0 \<le> lo" "hi \<le> 1" "\<forall>k x. map_of (rr_confidence_factors r) k = Some x \<longrightarrow> lo \<le> x \<and> x \<le> hi" "w \<noteq> 0" for lo hi
  proof -
    have "lo \<le> t / w" "t / w \<le> hi" using weighted_factors_between [OF that(3) tw that(4)] by simp_all
    moreover have "score_confidence r = t / w" using calculation that(1,2,4) by (simp add: score)
    ultimately show ?thesis by simp
  qed
  ultimately show ?thesis using assms tw by (auto simp: score)
qed

theorem score_confidence_bounds_witness:
  "dec2 60 \<le> score_confidence (scored_result 90 80 70 60 65) \<and> score_confidence (scored_result 90 80 70 60 65) \<le> dec2 90"
proof -
  let ?r = "scored_result 90 80 70 60 65"
  have given: "0 \<le> rr_confidence_score ?r" "rr_confidence_score ?r \<le> 1"
    by (simp_all add: scored_result_def dec2_def)
  have "\<forall>k x. map_of (rr_confidence_factors ?r) k = Some x \<longrightarrow> dec2 60 \<le> x \<and> x \<le> dec2 90"
    by (simp add: scored_result_def factors_def dec2_def)
  moreover have "snd (weighted_factors (rr_confidence_factors ?r)) \<noteq> 0"
    by (simp add: scored_result_def factors_def weighted_factors_def confidence_weights_def weigh_factor_def dec2_def)
  moreover have "0 \<le> dec2 60" "dec2 90 \<le> 1" by (simp_all add: dec2_def)
  ultimately show ?thesis using score_confidence_bounds [OF given] by blast
qed

text \<open>
  The factor named \<open>historical_false_positive_rate\<close> counts in favour of a result: of two
  results that differ in nothing but that rate, the one with the higher false-positive rate
  gets the higher confidence.
\<close>

theorem confidence_rises_with_false_positives:
  assumes "0 \<le> a" "a \<le> 100" "0 \<le> b" "b \<le> 100" "0 \<le> c" "c \<le> 100" "0 \<le> e" "e \<le> 100"
    and "0 \<le> d" and "d < d'" and "d' \<le> 100"
  shows "score_confidence (scored_result a b c d e) < score_confidence (scored_result a b c d' e)"
proof -
  have "score_confidence (scored_result a b c d e) =
      of_int (30 * a + 25 * b + 15 * c + 15 * d + 15 * e) / 10000" if "0 \<le> d" "d \<le> 100" for d
  proof -
    have "0 \<le> 30 * a + 25 * b + 15 * c + 15 * d + 15 * e" "30 * a + 25 * b + 15 * c + 15 * d + 15 * e \<le> 10000"
      using assms(1-8) that by simp_all
    then have "of_int 0 \<le> (of_int (30 * a + 25 * b + 15 * c + 15 * d + 15 * e) :: rat)"
        "(of_int (30 * a + 25 * b + 15 * c + 15 * d + 15 * e) :: rat) \<le> of_int 10000"
      by (simp_all only: of_int_le_iff)
    then show ?thesis
      by (simp add: score_confidence_def weighted_factors_def confidence_weights_def weigh_factor_def
          scored_result_def factors_def dec2_def min_def max_def field_simps)
  qed
  from this [of d] this [of d'] show ?thesis using assms(9-11) by (simp add: divide_strict_right_mono)
qed

theorem confidence_rises_with_false_positives_witness:
  "score_confidence (scored_result 90 80 95 5 70) < score_confidence (scored_result 90 80 95 40 70)"
  by (rule confidence_rises_with_false_positives) simp_all

text \<open>
  C22: two results have the same fingerprint exactly when they agree on the rule, the file, the
  node and its path, the offending text and the macro chain, as long as the digest does not
  collide on the two serializations; neither position, explanation nor confidence matters.
\<close>

theorem fingerprint_identity:
  assumes "inj_on sha {dumps (fingerprint_payload r), dumps (fingerprint_payload q)}"
  shows "generate_fingerprint sha r = generate_fingerprint sha q \<longleftrightarrow> result_identity r = result_identity q"
  using inj_onD [OF assms] payload_eq_iff [of r q] by (auto simp: generate_fingerprint_def)

theorem fingerprint_identity_witness:
  "generate_fingerprint rev (scored_result 90 80 95 5 70)
     = generate_fingerprint rev ((scored_result 10 10 10 10 10)\<lparr>rr_line_start := 9, rr_explanation := ''moved''\<rparr>)
   \<and> generate_fingerprint rev (scored_result 90 80 95 5 70)
     \<noteq> generate_fingerprint rev ((scored_result 90 80 95 5 70)\<lparr>rr_ast_node_id := ''n8''\<rparr>)"
proof -
  have "generate_fingerprint rev r = generate_fingerprint rev q \<longleftrightarrow> result_identity r = result_identity q" for r q
    by (rule fingerprint_identity) (simp add: inj_on_def)
  then show ?thesis by (simp add: result_identity_def scored_result_def)
qed

end
