(* ===== verification/Engine.thy ===== *)
theory Engine
  imports Planner Results
begin

text \<open>
  \<open>RuleExecutionEngine\<close> (\<open>engine.py\<close>): running the rules of a wave on a thread pool, retrying,
  isolating failures, scoring and deduplicating.  What the run does not determine is a
  parameter: \<open>complete\<close>, the order in which \<open>as_completed\<close> hands back a wave; \<open>elapsed\<close>, the
  time a rule took; \<open>format_exc\<close>, the text of a traceback.  A rule whose \<open>detect\<close> never returns
  keeps the whole execution from returning.  \<open>cache_stats\<close> is left out of the report.
\<close>

subsection \<open>One rule\<close>

record engine_config =
  ec_max_workers :: int
  ec_rule_timeout_seconds :: rat
  ec_max_retries :: int

record rule_execution_metrics =
  me_rule_id :: string
  me_duration_ms :: rat
  me_violation_count :: nat
  me_success :: bool
  me_error_message :: "string option"

record execution_report =
  ep_violations :: "rule_result list"
  ep_fingerprints :: "string list"
  ep_metrics :: "rule_execution_metrics list"
  ep_deduplicated_count :: nat

record run_environment =
  rn_sha :: "string \<Rightarrow> string"
  rn_complete :: "rule_plugin list \<Rightarrow> rule_plugin list"
  rn_elapsed :: "rule_plugin \<Rightarrow> rat"
  rn_format_exc :: "py_error \<Rightarrow> string"

text \<open>
  \<open>while attempts <= max_retries\<close>.  The result of an attempt may depend on its number; after the
  last failed one the loop ends with the last error.
\<close>

function attempt_loop ::
    "(nat \<Rightarrow> (py_error + 'a) option) \<Rightarrow> int \<Rightarrow> nat \<Rightarrow> py_error option \<Rightarrow> (py_error option + 'a) option" where
  "attempt_loop detect max_retries attempts last_error =
     (if int attempts \<le> max_retries then
        (case detect attempts of
           None \<Rightarrow> None
         | Some (Inr found) \<Rightarrow> Some (Inr found)
         | Some (Inl e) \<Rightarrow> attempt_loop detect max_retries (attempts + 1) (Some e))
      else Some (Inl last_error))"
  by auto
termination
  by (relation "measure (\<lambda>(d, m, a, e). nat (m + 1 - int a))") auto

declare attempt_loop.simps [simp del]

definition score_result :: "rule_result \<Rightarrow> rule_result" where
  "score_result v = v\<lparr>rr_confidence_score := score_confidence v\<rparr>"

definition rule_attempts ::
    "nat \<Rightarrow> engine_config \<Rightarrow> rule_context \<Rightarrow> rule_plugin \<Rightarrow> (py_error option + rule_result list) option" where
  "rule_attempts depth cfg ctx r =
     map_option (map_sum id (map score_result))
       (attempt_loop (\<lambda>_. rule_detect depth r ctx) (ec_max_retries cfg) 0 None)"

definition execute_rule_safe ::
    "nat \<Rightarrow> run_environment \<Rightarrow> engine_config \<Rightarrow> rule_context \<Rightarrow> rule_plugin
      \<Rightarrow> (rule_execution_metrics \<times> rule_result list) option" where
  "execute_rule_safe depth rn cfg ctx r = map_option
     (\<lambda>outcome. case outcome of
          Inr violations \<Rightarrow>
            (\<lparr>me_rule_id = rule_id r, me_duration_ms = rn_elapsed rn r, me_violation_count = length violations,
              me_success = True, me_error_message = None\<rparr>, violations)
        | Inl last_error \<Rightarrow>
            (\<lparr>me_rule_id = rule_id r, me_duration_ms = rn_elapsed rn r, me_violation_count = 0,
              me_success = False,
              me_error_message = Some (case last_error of
                  None \<Rightarrow> ''unknown rule failure''
                | Some e \<Rightarrow> if rn_format_exc rn e = [] then ''unknown rule failure'' else rn_format_exc rn e)\<rparr>, []))
     (rule_attempts depth cfg ctx r)"

subsection \<open>Deduplication\<close>

definition dedup_step ::
    "(string \<Rightarrow> string) \<Rightarrow> rule_result \<Rightarrow> string set \<times> rule_result list \<times> nat \<Rightarrow> string set \<times> rule_result list \<times> nat" where
  "dedup_step sha v = (\<lambda>(seen, uniq, removed).
     let fingerprint = generate_fingerprint sha v in
     if fingerprint \<in> seen then (seen, uniq, removed + 1)
     else (insert fingerprint seen, uniq @ [v], removed))"

definition deduplicate :: "(string \<Rightarrow> string) \<Rightarrow> rule_result list \<Rightarrow> rule_result list \<times> nat" where
  "deduplicate sha violations = snd (fold (dedup_step sha) violations ({}, [], 0))"

subsection \<open>A run\<close>

datatype engine_error = PlanningFailed planner_error | NoWorkers

definition plan_waves :: "nat \<Rightarrow> bool \<Rightarrow> rule_plugin list \<Rightarrow> (planner_error + rule_plugin list list) option" where
  "plan_waves depth grouped rules = (if grouped then resolve_execution_groups depth rules else Some (Inr [rules]))"

definition report_of :: "(string \<Rightarrow> string) \<Rightarrow> (rule_execution_metrics \<times> rule_result list) list \<Rightarrow> execution_report" where
  "report_of sha runs =
     (case deduplicate sha (concat (map snd runs)) of (uniq, removed) \<Rightarrow>
        \<lparr>ep_violations = uniq, ep_fingerprints = map (generate_fingerprint sha) uniq,
         ep_metrics = map fst runs, ep_deduplicated_count = removed\<rparr>)"

definition execute ::
    "nat \<Rightarrow> run_environment \<Rightarrow> engine_config \<Rightarrow> rule_context \<Rightarrow> rule_plugin list \<Rightarrow> bool
      \<Rightarrow> (engine_error + execution_report) option" where
  "execute depth rn cfg ctx rules grouped = do {
     waves \<leftarrow> plan_waves depth grouped rules;
     (case waves of
        Inl e \<Rightarrow> Some (Inl (PlanningFailed e))
      | Inr waves \<Rightarrow>
          if waves \<noteq> [] \<and> ec_max_workers cfg \<le> 0 then Some (Inl NoWorkers)
          else do {
            runs \<leftarrow> opt_map (execute_rule_safe depth rn cfg ctx) (concat (map (rn_complete rn) waves));
            Some (Inr (report_of (rn_sha rn) runs)) }) }"

subsection \<open>The loops\<close>

lemma dedup_fold:
  "fold (dedup_step sha) vs (seen, uniq, removed) =
     (seen \<union> generate_fingerprint sha ` set vs, uniq @ keep_first (generate_fingerprint sha) seen vs,
      removed + (length vs - length (keep_first (generate_fingerprint sha) seen vs)))"
proof (induction vs arbitrary: seen uniq removed)
  case (Cons v vs)
  then show ?case
    using keep_first_length [of "generate_fingerprint sha" seen vs]
    by (auto simp: dedup_step_def Let_def Suc_diff_le)
qed simp

lemma deduplicate_spec:
  "deduplicate sha vs = (keep_first (generate_fingerprint sha) {} vs,
     length vs - length (keep_first (generate_fingerprint sha) {} vs))"
  by (simp add: deduplicate_def dedup_fold)

subsection \<open>Attempts\<close>

definition first_success :: "(nat \<Rightarrow> (py_error + 'a) option) \<Rightarrow> nat \<Rightarrow> nat option" where
  "first_success detect n = find (\<lambda>k. \<exists>x. detect k = Some (Inr x)) [0..<n]"

lemma attempt_loop_spec:
  assumes "\<And>k. int k \<le> max_retries \<Longrightarrow> detect k \<noteq> None"
  shows "attempt_loop detect max_retries a err =
     (case find (\<lambda>k. \<exists>x. detect k = Some (Inr x)) [a..<nat (max_retries + 1)] of
        Some k \<Rightarrow> map_option (\<lambda>x. Inr (projr x)) (detect k)
      | None \<Rightarrow> Some (Inl (if int a \<le> max_retries then map_option projl (detect (nat max_retries)) else err)))"
proof (induction "nat (max_retries + 1 - int a)" arbitrary: a err)
  case 0
  then show ?case by (subst attempt_loop.simps) simp
next
  case (Suc n)
  then have le: "int a \<le> max_retries" by simp
  then have range: "[a..<nat (max_retries + 1)] = a # [a + 1..<nat (max_retries + 1)]" by (simp add: upt_conv_Cons)
  obtain x where x: "detect a = Some x" using assms [OF le] by blast
  show ?case
  proof (cases x)
    case (Inr y)
    then show ?thesis using x le range by (subst attempt_loop.simps) simp
  next
    case (Inl e)
    have "attempt_loop detect max_retries a err = attempt_loop detect max_retries (a + 1) (Some e)"
      using x Inl le by (subst attempt_loop.simps) simp
    also have "\<dots> = (case find (\<lambda>k. \<exists>x. detect k = Some (Inr x)) [a + 1..<nat (max_retries + 1)] of
        Some k \<Rightarrow> map_option (\<lambda>x. Inr (projr x)) (detect k)
      | None \<Rightarrow> Some (Inl (if int (a + 1) \<le> max_retries then map_option projl (detect (nat max_retries)) else Some e)))"
      using Suc by (intro Suc.hyps(1)) simp
    also have "(if int (a + 1) \<le> max_retries then map_option projl (detect (nat max_retries)) else Some e)
        = map_option projl (detect (nat max_retries))"
    proof (cases "int (a + 1) \<le> max_retries")
      case False
      then have "nat max_retries = a" using le by simp
      then show ?thesis using x Inl by simp
    qed simp
    finally show ?thesis using le x Inl range by simp
  qed
qed

lemma attempt_loop_const:
  "attempt_loop (\<lambda>_. d) max_retries 0 None =
     (if max_retries < 0 then Some (Inl None)
      else (case d of None \<Rightarrow> None | Some (Inr x) \<Rightarrow> Some (Inr x) | Some (Inl e) \<Rightarrow> Some (Inl (Some e))))"
proof (cases "max_retries < 0")
  case True
  then show ?thesis by (subst attempt_loop.simps) simp
next
  case False
  then have range: "[0..<nat (max_retries + 1)] = 0 # [1..<nat (max_retries + 1)]" by (simp add: upt_conv_Cons)
  have none: "find (\<lambda>k. P) xs = None" if "\<not> P" for P and xs :: "nat list" using that by (induction xs) simp_all
  show ?thesis
  proof (cases d)
    case None
    then show ?thesis using False by (subst attempt_loop.simps) simp
  next
    case (Some x)
    then show ?thesis
      using False attempt_loop_spec [of max_retries "\<lambda>_. d" 0 None] range none
      by (cases x) simp_all
  qed
qed

subsection \<open>What a rule contributes\<close>

definition found_by :: "nat \<Rightarrow> engine_config \<Rightarrow> rule_context \<Rightarrow> rule_plugin \<Rightarrow> rule_result list" where
  "found_by depth cfg ctx r = (case rule_attempts depth cfg ctx r of Some (Inr vs) \<Rightarrow> vs | _ \<Rightarrow> [])"

definition metrics_of ::
    "nat \<Rightarrow> run_environment \<Rightarrow> engine_config \<Rightarrow> rule_context \<Rightarrow> rule_plugin \<Rightarrow> rule_execution_metrics" where
  "metrics_of depth rn cfg ctx r = fst (the (execute_rule_safe depth rn cfg ctx r))"

lemma execute_rule_safe_Some:
  assumes "rule_attempts depth cfg ctx r \<noteq> None"
  shows "execute_rule_safe depth rn cfg ctx r = Some (metrics_of depth rn cfg ctx r, found_by depth cfg ctx r)"
proof -
  obtain x where "rule_attempts depth cfg ctx r = Some x" using assms by blast
  then show ?thesis by (cases x) (simp_all add: execute_rule_safe_def metrics_of_def found_by_def)
qed

lemma execute_rule_safe_None: "execute_rule_safe depth rn cfg ctx r = None \<longleftrightarrow> rule_attempts depth cfg ctx r = None"
  by (simp add: execute_rule_safe_def)

lemma rule_detect_ids:
  assumes "rule_detect depth r ctx = Some (Inr rs)"
  shows "\<forall>x \<in> set rs. rr_rule_id x = rule_id r"
proof -
  obtain ds fs ns where rs: "rs = map (directive_result (rp_metadata r) ctx) ds @ ns"
    and fs: "opt_map (\<lambda>(n, f). make_result (rp_metadata r) ctx (mk_graph (rc_ast_nodes ctx)) n f) fs = Some ns"
    using assms by (auto simp: rule_detect_def Let_def split: bind_splits sum.splits)
  have "\<forall>x \<in> set ns. rr_rule_id x = rule_id r"
    using opt_map_SomeD [OF fs] by (induction rule: list_all2_induct) (auto dest: make_result_Some(1) simp: rule_id_def)
  then show ?thesis by (auto simp: rs rule_id_def directive_result_def Let_def)
qed

lemma found_by_ids: "x \<in> set (found_by depth cfg ctx r) \<Longrightarrow> rr_rule_id x = rule_id r"
  by (auto simp: found_by_def rule_attempts_def attempt_loop_const score_result_def
      dest!: rule_detect_ids split: option.splits sum.splits if_splits)

lemma plan_waves_cover: "plan_waves depth grouped rules = Some (Inr waves) \<Longrightarrow> mset (concat waves) = mset rules"
  using groups_cover(1) by (auto simp: plan_waves_def resolve_execution_groups_def split: if_splits bind_splits sum.splits)

lemma complete_cover:
  assumes "\<And>w. mset (ord w) = mset w"
  shows "mset (concat (map ord waves)) = mset (concat waves)"
  using assms by (induction waves) simp_all

lemma mset_concat_map_cong: "mset xs = mset ys \<Longrightarrow> mset (concat (map h xs)) = mset (concat (map h ys))"
  by (simp add: mset_concat sum_mset_sum_list [symmetric] flip: mset_map) (metis mset_map multiset.map_comp)

lemma execute_runs:
  assumes "plan_waves depth grouped rules = Some (Inr waves)" and "0 < ec_max_workers cfg"
    and "\<And>w. mset (rn_complete rn w) = mset w" and "\<And>r. r \<in> set rules \<Longrightarrow> rule_attempts depth cfg ctx r \<noteq> None"
  obtains cs where "mset cs = mset rules"
    "execute depth rn cfg ctx rules grouped = Some (Inr (report_of (rn_sha rn)
       (map (\<lambda>r. (metrics_of depth rn cfg ctx r, found_by depth cfg ctx r)) cs)))"
proof -
  let ?cs = "concat (map (rn_complete rn) waves)"
  have m: "mset ?cs = mset rules"
    using complete_cover [of "rn_complete rn" waves] assms(3) plan_waves_cover [OF assms(1)] by simp
  then have "set ?cs = set rules" by (metis set_mset_mset)
  then have "opt_map (execute_rule_safe depth rn cfg ctx) ?cs
      = Some (map (\<lambda>r. (metrics_of depth rn cfg ctx r, found_by depth cfg ctx r)) ?cs)"
    using assms(4) by (intro opt_map_Some_conv) (simp add: execute_rule_safe_Some)
  then have "execute depth rn cfg ctx rules grouped = Some (Inr (report_of (rn_sha rn)
       (map (\<lambda>r. (metrics_of depth rn cfg ctx r, found_by depth cfg ctx r)) ?cs)))"
    using assms(1,2) by (simp add: execute_def)
  then show ?thesis using that m by blast
qed

text \<open>Two results a digest without collisions identifies come from the same rule.\<close>

lemma fingerprint_rule:
  assumes "inj_on sha (dumps ` fingerprint_payload ` A)" and "x \<in> A" "y \<in> A"
    and "generate_fingerprint sha x = generate_fingerprint sha y"
  shows "rr_rule_id x = rr_rule_id y"
proof -
  have "dumps (fingerprint_payload x) = dumps (fingerprint_payload y)"
    using assms by (auto simp: generate_fingerprint_def dest: inj_onD)
  then show ?thesis by (simp add: payload_eq_iff result_identity_def)
qed

lemma report_of_spec:
  "ep_violations (report_of sha (map (\<lambda>r. (m r, h r)) cs)) = keep_first (generate_fingerprint sha) {} (concat (map h cs))"
  "ep_fingerprints (report_of sha (map (\<lambda>r. (m r, h r)) cs))
     = map (generate_fingerprint sha) (keep_first (generate_fingerprint sha) {} (concat (map h cs)))"
  "ep_metrics (report_of sha (map (\<lambda>r. (m r, h r)) cs)) = map m cs"
  "ep_deduplicated_count (report_of sha (map (\<lambda>r. (m r, h r)) cs))
     = length (concat (map h cs)) - length (keep_first (generate_fingerprint sha) {} (concat (map h cs)))"
  by (simp_all add: report_of_def deduplicate_spec comp_def)



text \<open>
  The time limit of the engine is not enforced: when one rule does not return, the
  execution does not return either, whatever limit is configured.
\<close>

theorem timeout_not_enforced:
  assumes "r \<in> set rules" and "rule_detect depth r ctx = None"
    and "0 < ec_max_workers cfg" and "0 \<le> ec_max_retries cfg" and "\<And>w. mset (rn_complete rn w) = mset w"
  shows "execute depth rn (cfg\<lparr>ec_rule_timeout_seconds := limit\<rparr>) ctx rules False = None"
proof -
  let ?cfg = "cfg\<lparr>ec_rule_timeout_seconds := limit\<rparr>"
  have "execute_rule_safe depth rn ?cfg ctx r = None"
    using assms(2,4) by (simp add: execute_rule_safe_None rule_attempts_def attempt_loop_const)
  moreover have "r \<in> set (rn_complete rn rules)" using assms(1,5) by (metis set_mset_mset)
  ultimately have "opt_map (execute_rule_safe depth rn ?cfg ctx) (rn_complete rn rules) = None"
    unfolding opt_map_None by blast
  then show ?thesis using assms(3) by (simp add: execute_def plan_waves_def)
qed

text \<open>
  C20: retries.  If every attempt returns or raises, the loop ends with the result of the first
  successful attempt among the first \<open>max_retries + 1\<close>; without one it ends with the error of the
  last attempt, and with no error at all when no attempt is allowed.
\<close>

theorem retries_exact:
  assumes "\<And>k. int k \<le> max_retries \<Longrightarrow> detect k \<noteq> None"
  shows "attempt_loop detect max_retries 0 None =
     (case first_success detect (nat (max_retries + 1)) of
        Some k \<Rightarrow> map_option (\<lambda>x. Inr (projr x)) (detect k)
      | None \<Rightarrow> Some (Inl (if 0 \<le> max_retries then map_option projl (detect (nat max_retries)) else None)))"
proof -
  have "attempt_loop detect max_retries 0 None =
     (case find (\<lambda>k. \<exists>x. detect k = Some (Inr x)) [0..<nat (max_retries + 1)] of
        Some k \<Rightarrow> map_option (\<lambda>x. Inr (projr x)) (detect k)
      | None \<Rightarrow> Some (Inl (if int 0 \<le> max_retries then map_option projl (detect (nat max_retries)) else None)))"
    by (rule attempt_loop_spec) (rule assms)
  then show ?thesis by (simp only: first_success_def of_nat_0)
qed

subsection \<open>An example run\<close>

text \<open>A rule that reports every goto, one that raises, one that never returns.\<close>

definition goto_finding :: finding where
  "goto_finding = \<lparr>fd_explanation = ''goto used'', fd_risk_description = [],
     fd_confidence_factors = factors 90 80 70 10 60, fd_confidence_score = dec2 90, fd_suggested_fix = None\<rparr>"

definition goto_rule :: rule_plugin where
  "goto_rule = scan_rule (rp_metadata (plan_rule ''goto'' A_AST_ONLY []))
     (\<lambda>ctx g. map (\<lambda>n. (n, goto_finding)) (nodes_by_kind g ''GotoStmt''))"

definition broken_rule :: rule_plugin where
  "broken_rule = raising_rule (rp_metadata (plan_rule ''broken'' A_AST_ONLY [])) (\<lambda>g. Inl TypeError)"

definition endless_rule :: rule_plugin where
  "endless_rule = loop_rule (rp_metadata (plan_rule ''endless'' A_AST_ONLY [])) (\<lambda>d ctx g. None)"

definition goto_context :: rule_context where
  "goto_context = from_ast_artifact
     \<lparr>ar_nodes = [bare_node ''s'' ''CompoundStmt'' '''' [''a''], ex_node ''a'' ''GotoStmt'' ''s'' [] [] 2 3],
      ar_preprocessor = empty_macro_table, ar_file_path = ''m.c'', ar_diagnostics = []\<rparr>
     ''tu1'' [] None [] [] None"

definition example_config :: engine_config where
  "example_config = \<lparr>ec_max_workers = 4, ec_rule_timeout_seconds = 5, ec_max_retries = 1\<rparr>"

definition example_env :: run_environment where
  "example_env = \<lparr>rn_sha = rev, rn_complete = rev, rn_elapsed = (\<lambda>r. 1), rn_format_exc = (\<lambda>e. ''Traceback'')\<rparr>"

lemma example_attempts:
  assumes "r \<in> set [goto_rule, broken_rule]"
  shows "rule_attempts 5 example_config goto_context r \<noteq> None"
proof -
  have "rule_detect 5 goto_rule goto_context \<noteq> None" by code_simp
  moreover have "rule_detect 5 broken_rule goto_context \<noteq> None" by code_simp
  ultimately show ?thesis
    using assms by (auto simp: rule_attempts_def attempt_loop_const example_config_def split: option.splits sum.splits)
qed

lemma example_env_permutes: "mset (rn_complete example_env w) = mset w"
  by (simp add: example_env_def)



theorem timeout_not_enforced_witness:
  "execute 5 example_env (example_config\<lparr>ec_rule_timeout_seconds := 1\<rparr>) goto_context [goto_rule, endless_rule] False = None"
proof (rule timeout_not_enforced)
  show "rule_detect 5 endless_rule goto_context = None"
    by (simp add: rule_detect_def endless_rule_def loop_rule_def)
qed (simp_all add: example_config_def example_env_def)

theorem retries_exact_witness:
  "attempt_loop (\<lambda>k. Some (if k = 0 then Inl RuntimeError else Inr ''ok'')) 1 0 None = Some (Inr ''ok'')"
proof -
  have "first_success (\<lambda>k. Some (if k = 0 then Inl RuntimeError else Inr ''ok'')) 2 = Some 1"
    by (simp add: first_success_def upt_conv_Cons)
  then show ?thesis
    using retries_exact [of 1 "\<lambda>k. Some (if k = 0 then Inl RuntimeError else Inr ''ok'')"] by simp
qed

end
