(* ===== verification/Analysis_Cache.thy ===== *)
theory Analysis_Cache
  imports Cfg_Prune Alias Linkage
begin

text \<open>
  \<open>AnalysisCache\<close> (\<open>analysis_cache.py\<close>): the memo tables one translation unit's rules share, with
  their hit and build counters.  A \<open>DataFlowEngineV2\<close> object is the alias analyzer it was built
  with; \<open>'r\<close> is the type of the results the rules memoise through \<open>dataflow_result\<close>.
\<close>

subsection \<open>State\<close>

record 'r analysis_cache =
  ac_cfg :: "(string, cfg) dict"
  ac_alias :: "(string, points_to_map) dict"
  ac_dataflow_engine :: "(string, points_to_map) dict"
  ac_dataflow_results :: "(string \<times> string, 'r) dict"
  ac_symbol_index :: "symbol_index option"
  ac_linkage_index :: "linkage_data option"
  ac_linkage_analyzer :: "linkage_data option"
  ac_hits :: nat
  ac_misses :: nat
  ac_hits_by_analyzer :: "(string, nat) dict"
  ac_misses_by_analyzer :: "(string, nat) dict"
  ac_miss_reasons :: "(string, nat) dict"
  ac_cfg_builds :: "(string, nat) dict"
  ac_alias_builds :: "(string, nat) dict"
  ac_dataflow_builds :: "(string, nat) dict"
  ac_symbol_index_builds :: nat
  ac_linkage_index_builds :: nat
  ac_linkage_analyzer_builds :: nat

definition new_cache :: "'r analysis_cache" where
  "new_cache = \<lparr>ac_cfg = [], ac_alias = [], ac_dataflow_engine = [], ac_dataflow_results = [],
     ac_symbol_index = None, ac_linkage_index = None, ac_linkage_analyzer = None, ac_hits = 0, ac_misses = 0,
     ac_hits_by_analyzer = [], ac_misses_by_analyzer = [], ac_miss_reasons = [], ac_cfg_builds = [],
     ac_alias_builds = [], ac_dataflow_builds = [], ac_symbol_index_builds = 0,
     ac_linkage_index_builds = 0, ac_linkage_analyzer_builds = 0\<rparr>"

text \<open>\<open>d[k] += 1\<close> on a \<open>defaultdict(int)\<close>\<close>

definition bump :: "'k \<Rightarrow> ('k, nat) dict \<Rightarrow> ('k, nat) dict" where
  "bump k d = dict_set k (dict_get_default 0 d k + 1) d"

definition record_hit :: "string \<Rightarrow> 'r analysis_cache \<Rightarrow> 'r analysis_cache" where
  "record_hit analyzer c = c
     \<lparr>ac_hits := ac_hits c + 1, ac_hits_by_analyzer := bump analyzer (ac_hits_by_analyzer c)\<rparr>"

definition record_miss :: "string \<Rightarrow> 'r analysis_cache \<Rightarrow> 'r analysis_cache" where
  "record_miss analyzer c = c
     \<lparr>ac_misses := ac_misses c + 1, ac_misses_by_analyzer := bump analyzer (ac_misses_by_analyzer c),
      ac_miss_reasons := bump (analyzer @ '':first_access_for_semantic_unit'') (ac_miss_reasons c)\<rparr>"

subsection \<open>Lookups\<close>

definition cached_cfg :: "nat \<Rightarrow> ast_graph \<Rightarrow> ast_node \<Rightarrow> 'r analysis_cache \<Rightarrow> (cfg \<times> 'r analysis_cache) option" where
  "cached_cfg depth g f c = (case map_of (ac_cfg c) (node_id f) of
      Some v \<Rightarrow> Some (v, record_hit ''cfg'' c)
    | None \<Rightarrow> do {
        v \<leftarrow> build_cfg depth g f;
        let c = record_miss ''cfg'' c;
        Some (v, c\<lparr>ac_cfg := dict_set (node_id f) v (ac_cfg c),
                   ac_cfg_builds := bump (node_id f) (ac_cfg_builds c)\<rparr>) })"

definition cached_aliases :: "ast_graph \<Rightarrow> ast_node \<Rightarrow> 'r analysis_cache \<Rightarrow> (points_to_map \<times> 'r analysis_cache) option" where
  "cached_aliases g f c = (case map_of (ac_alias c) (node_id f) of
      Some v \<Rightarrow> Some (v, record_hit ''alias'' c)
    | None \<Rightarrow> do {
        v \<leftarrow> analyze_aliases f g;
        let c = record_miss ''alias'' c;
        Some (v, c\<lparr>ac_alias := dict_set (node_id f) v (ac_alias c),
                   ac_alias_builds := bump (node_id f) (ac_alias_builds c)\<rparr>) })"

definition cached_dataflow_engine ::
    "ast_graph \<Rightarrow> ast_node \<Rightarrow> 'r analysis_cache \<Rightarrow> (points_to_map \<times> 'r analysis_cache) option" where
  "cached_dataflow_engine g f c = (case map_of (ac_dataflow_engine c) (node_id f) of
      Some v \<Rightarrow> Some (v, record_hit ''dataflow_engine'' c)
    | None \<Rightarrow> do {
        (v, c) \<leftarrow> cached_aliases g f (record_miss ''dataflow_engine'' c);
        Some (v, c\<lparr>ac_dataflow_engine := dict_set (node_id f) v (ac_dataflow_engine c),
                   ac_dataflow_builds := bump (node_id f) (ac_dataflow_builds c)\<rparr>) })"

definition cached_dataflow_result ::
    "(ast_node \<Rightarrow> string \<Rightarrow> 'r option) \<Rightarrow> ast_node \<Rightarrow> string \<Rightarrow> 'r analysis_cache \<Rightarrow> ('r \<times> 'r analysis_cache) option" where
  "cached_dataflow_result compute f analysis c = (case map_of (ac_dataflow_results c) (node_id f, analysis) of
      Some v \<Rightarrow> Some (v, record_hit ''dataflow_result'' c)
    | None \<Rightarrow> do {
        v \<leftarrow> compute f analysis;
        let c = record_miss ''dataflow_result'' c;
        Some (v, c\<lparr>ac_dataflow_results := dict_set (node_id f, analysis) v (ac_dataflow_results c)\<rparr>) })"

definition cached_symbols :: "ast_graph \<Rightarrow> 'r analysis_cache \<Rightarrow> symbol_index \<times> 'r analysis_cache" where
  "cached_symbols g c = (case ac_symbol_index c of
      Some v \<Rightarrow> (v, record_hit ''symbol_index'' c)
    | None \<Rightarrow>
        (let v = symbol_index_of g; c = record_miss ''symbol_index'' c
         in (v, c\<lparr>ac_symbol_index := Some v, ac_symbol_index_builds := ac_symbol_index_builds c + 1\<rparr>)))"

definition cached_linkage_index :: "linkage_data \<Rightarrow> 'r analysis_cache \<Rightarrow> linkage_data \<times> 'r analysis_cache" where
  "cached_linkage_index cross c = (case ac_linkage_index c of
      Some v \<Rightarrow> (v, record_hit ''linkage_index'' c)
    | None \<Rightarrow>
        (let c = record_miss ''linkage_index'' c
         in (cross, c\<lparr>ac_linkage_index := Some cross, ac_linkage_index_builds := ac_linkage_index_builds c + 1\<rparr>)))"

definition cached_linkage_analyzer :: "linkage_data \<Rightarrow> 'r analysis_cache \<Rightarrow> linkage_data \<times> 'r analysis_cache" where
  "cached_linkage_analyzer index c = (case ac_linkage_analyzer c of
      Some v \<Rightarrow> (v, record_hit ''linkage_analyzer'' c)
    | None \<Rightarrow>
        (let c = record_miss ''linkage_analyzer'' c
         in (index, c\<lparr>ac_linkage_analyzer := Some index,
                      ac_linkage_analyzer_builds := ac_linkage_analyzer_builds c + 1\<rparr>)))"

subsection \<open>The requests of the rules\<close>

text \<open>The accessors of \<open>BaseRulePlugin\<close> that go through the cache.\<close>

datatype cache_request = Cfg_Of ast_node | Aliases_Of ast_node | Dataflow_Of ast_node
  | Result_Of ast_node string | Symbols | Linkage_Index | Linkage_Checks

datatype 'r cache_answer = Cfg_Answer cfg | Alias_Answer points_to_map | Dataflow_Answer points_to_map
  | Result_Answer 'r | Symbols_Answer symbol_index | Linkage_Answer linkage_data | Checks_Answer linkage_data

record 'r analysis_env =
  av_depth :: nat
  av_graph :: ast_graph
  av_query :: "ast_node \<Rightarrow> string \<Rightarrow> 'r option"
  av_linkage :: linkage_data

text \<open>With the cache, and computed anew.\<close>

fun serve :: "'r analysis_env \<Rightarrow> cache_request \<Rightarrow> 'r analysis_cache \<Rightarrow> ('r cache_answer \<times> 'r analysis_cache) option" where
  "serve v (Cfg_Of f) c = map_option (map_prod Cfg_Answer id) (cached_cfg (av_depth v) (av_graph v) f c)"
| "serve v (Aliases_Of f) c = map_option (map_prod Alias_Answer id) (cached_aliases (av_graph v) f c)"
| "serve v (Dataflow_Of f) c = map_option (map_prod Dataflow_Answer id) (cached_dataflow_engine (av_graph v) f c)"
| "serve v (Result_Of f a) c = map_option (map_prod Result_Answer id) (cached_dataflow_result (av_query v) f a c)"
| "serve v Symbols c = Some (map_prod Symbols_Answer id (cached_symbols (av_graph v) c))"
| "serve v Linkage_Index c = Some (map_prod Linkage_Answer id (cached_linkage_index (av_linkage v) c))"
| "serve v Linkage_Checks c =
     (case cached_linkage_index (av_linkage v) c of (index, c) \<Rightarrow>
        Some (map_prod Checks_Answer id (cached_linkage_analyzer index c)))"

fun compute_answer :: "'r analysis_env \<Rightarrow> cache_request \<Rightarrow> 'r cache_answer option" where
  "compute_answer v (Cfg_Of f) = map_option Cfg_Answer (build_cfg (av_depth v) (av_graph v) f)"
| "compute_answer v (Aliases_Of f) = map_option Alias_Answer (analyze_aliases f (av_graph v))"
| "compute_answer v (Dataflow_Of f) = map_option Dataflow_Answer (analyze_aliases f (av_graph v))"
| "compute_answer v (Result_Of f a) = map_option Result_Answer (av_query v f a)"
| "compute_answer v Symbols = Some (Symbols_Answer (symbol_index_of (av_graph v)))"
| "compute_answer v Linkage_Index = Some (Linkage_Answer (av_linkage v))"
| "compute_answer v Linkage_Checks = Some (Checks_Answer (av_linkage v))"

text \<open>A sequence of lookups, each on the cache the last one left.\<close>

fun in_sequence :: "('q \<Rightarrow> 'c \<Rightarrow> ('a \<times> 'c) option) \<Rightarrow> 'q list \<Rightarrow> 'c \<Rightarrow> ('a list \<times> 'c) option" where
  "in_sequence f [] c = Some ([], c)"
| "in_sequence f (q # qs) c = do {
     (a, c) \<leftarrow> f q c;
     (as, c) \<leftarrow> in_sequence f qs c;
     Some (a # as, c) }"

subsection \<open>The contract of a cache\<close>

text \<open>
  A lookup answers what a computation would answer, and does not return when the computation
  does not; it keeps the cache in order.
\<close>

locale transparent_cache =
  fixes ok :: "'c \<Rightarrow> bool" and valid :: "'q \<Rightarrow> bool"
    and compute :: "'q \<Rightarrow> 'a option" and find_or_compute :: "'q \<Rightarrow> 'c \<Rightarrow> ('a \<times> 'c) option"
  assumes transparent: "ok c \<Longrightarrow> valid q \<Longrightarrow>
    (case compute q of
       None \<Rightarrow> find_or_compute q c = None
     | Some a \<Rightarrow> \<exists>c'. find_or_compute q c = Some (a, c') \<and> ok c')"
begin

lemma answer: "ok c \<Longrightarrow> valid q \<Longrightarrow> map_option fst (find_or_compute q c) = compute q"
  using transparent [of c q] by (cases "compute q") auto

lemma keeps: "ok c \<Longrightarrow> valid q \<Longrightarrow> find_or_compute q c = Some (a, c') \<Longrightarrow> ok c' \<and> compute q = Some a"
  using transparent [of c q] by (cases "compute q") auto

lemma sequence: "ok c \<Longrightarrow> \<forall>q \<in> set qs. valid q \<Longrightarrow>
    (case opt_map compute qs of
       None \<Rightarrow> in_sequence find_or_compute qs c = None
     | Some as \<Rightarrow> \<exists>c'. in_sequence find_or_compute qs c = Some (as, c') \<and> ok c')"
proof (induction qs arbitrary: c)
  case (Cons q qs)
  show ?case
  proof (cases "compute q")
    case None
    then show ?thesis using transparent [of c q] Cons.prems by simp
  next
    case (Some a)
    then obtain c1 where c1: "find_or_compute q c = Some (a, c1)" "ok c1"
      using transparent [of c q] Cons.prems by auto
    show ?thesis
      using Cons.IH [OF c1(2)] Cons.prems(2) Some c1(1) by (cases "opt_map compute qs") auto
  qed
qed simp

end

subsection \<open>The tables are right\<close>

definition table_right ::
    "(string \<Rightarrow> ast_node option) \<Rightarrow> (ast_node \<Rightarrow> 'v option) \<Rightarrow> (string, 'v) dict \<Rightarrow> bool" where
  "table_right node_of compute d \<longleftrightarrow>
     (\<forall>k x. map_of d k = Some x \<longrightarrow> (\<exists>f. node_of k = Some f \<and> compute f = Some x))"

definition cache_ok :: "'r analysis_env \<Rightarrow> 'r analysis_cache \<Rightarrow> bool" where
  "cache_ok v c \<longleftrightarrow> table_right (g_get (av_graph v)) (build_cfg (av_depth v) (av_graph v)) (ac_cfg c)
     \<and> table_right (g_get (av_graph v)) (\<lambda>f. analyze_aliases f (av_graph v)) (ac_alias c)
     \<and> table_right (g_get (av_graph v)) (\<lambda>f. analyze_aliases f (av_graph v)) (ac_dataflow_engine c)
     \<and> (\<forall>k a x. map_of (ac_dataflow_results c) (k, a) = Some x \<longrightarrow>
          (\<exists>f. g_get (av_graph v) k = Some f \<and> av_query v f a = Some x))
     \<and> ac_symbol_index c \<in> {None, Some (symbol_index_of (av_graph v))}
     \<and> ac_linkage_index c \<in> {None, Some (av_linkage v)}
     \<and> ac_linkage_analyzer c \<in> {None, Some (av_linkage v)}"

text \<open>A rule asks about nodes of the graph.\<close>

definition node_in :: "ast_graph \<Rightarrow> ast_node \<Rightarrow> bool" where
  "node_in g f \<longleftrightarrow> g_get g (node_id f) = Some f"

fun valid_request :: "'r analysis_env \<Rightarrow> cache_request \<Rightarrow> bool" where
  "valid_request v (Cfg_Of f) = node_in (av_graph v) f"
| "valid_request v (Aliases_Of f) = node_in (av_graph v) f"
| "valid_request v (Dataflow_Of f) = node_in (av_graph v) f"
| "valid_request v (Result_Of f a) = node_in (av_graph v) f"
| "valid_request v q = True"

lemma table_right_get:
  "table_right node_of compute d \<Longrightarrow> map_of d (node_id f) = Some x \<Longrightarrow> node_of (node_id f) = Some f \<Longrightarrow> compute f = Some x"
  unfolding table_right_def by fastforce

lemma table_right_set:
  "table_right node_of compute d \<Longrightarrow> node_of (node_id f) = Some f \<Longrightarrow> compute f = Some x
    \<Longrightarrow> table_right node_of compute (dict_set (node_id f) x d)"
  unfolding table_right_def by simp

lemma recorded [simp]:
  "ac_cfg (record_hit a c) = ac_cfg c" "ac_cfg (record_miss a c) = ac_cfg c"
  "ac_alias (record_hit a c) = ac_alias c" "ac_alias (record_miss a c) = ac_alias c"
  "ac_dataflow_engine (record_hit a c) = ac_dataflow_engine c" "ac_dataflow_engine (record_miss a c) = ac_dataflow_engine c"
  "ac_dataflow_results (record_hit a c) = ac_dataflow_results c" "ac_dataflow_results (record_miss a c) = ac_dataflow_results c"
  "ac_symbol_index (record_hit a c) = ac_symbol_index c" "ac_symbol_index (record_miss a c) = ac_symbol_index c"
  "ac_linkage_index (record_hit a c) = ac_linkage_index c" "ac_linkage_index (record_miss a c) = ac_linkage_index c"
  "ac_linkage_analyzer (record_hit a c) = ac_linkage_analyzer c" "ac_linkage_analyzer (record_miss a c) = ac_linkage_analyzer c"
  "ac_cfg_builds (record_hit a c) = ac_cfg_builds c" "ac_cfg_builds (record_miss a c) = ac_cfg_builds c"
  "ac_alias_builds (record_hit a c) = ac_alias_builds c" "ac_alias_builds (record_miss a c) = ac_alias_builds c"
  "ac_dataflow_builds (record_hit a c) = ac_dataflow_builds c" "ac_dataflow_builds (record_miss a c) = ac_dataflow_builds c"
  "ac_symbol_index_builds (record_hit a c) = ac_symbol_index_builds c" "ac_symbol_index_builds (record_miss a c) = ac_symbol_index_builds c"
  "ac_linkage_index_builds (record_hit a c) = ac_linkage_index_builds c" "ac_linkage_index_builds (record_miss a c) = ac_linkage_index_builds c"
  "ac_linkage_analyzer_builds (record_hit a c) = ac_linkage_analyzer_builds c"
  "ac_linkage_analyzer_builds (record_miss a c) = ac_linkage_analyzer_builds c"
  "ac_hits (record_hit a c) = ac_hits c + 1" "ac_hits (record_miss a c) = ac_hits c"
  "ac_misses (record_hit a c) = ac_misses c" "ac_misses (record_miss a c) = ac_misses c + 1"
  by (simp_all add: record_hit_def record_miss_def)

lemma cache_ok_recorded [simp]: "cache_ok v (record_hit a c) = cache_ok v c" "cache_ok v (record_miss a c) = cache_ok v c"
  by (simp_all add: cache_ok_def)

lemma cache_okD:
  assumes "cache_ok v c"
  shows "table_right (g_get (av_graph v)) (build_cfg (av_depth v) (av_graph v)) (ac_cfg c)"
    "table_right (g_get (av_graph v)) (\<lambda>f. analyze_aliases f (av_graph v)) (ac_alias c)"
    "table_right (g_get (av_graph v)) (\<lambda>f. analyze_aliases f (av_graph v)) (ac_dataflow_engine c)"
  using assms by (simp_all add: cache_ok_def)

interpretation cfgs: transparent_cache "cache_ok v" "node_in (av_graph v)" "build_cfg (av_depth v) (av_graph v)"
  "cached_cfg (av_depth v) (av_graph v)" for v
proof unfold_locales
  fix c f
  assume ok: "cache_ok v c" and f: "node_in (av_graph v) f"
  show "case build_cfg (av_depth v) (av_graph v) f of
       None \<Rightarrow> cached_cfg (av_depth v) (av_graph v) f c = None
     | Some a \<Rightarrow> \<exists>c'. cached_cfg (av_depth v) (av_graph v) f c = Some (a, c') \<and> cache_ok v c'"
  proof (cases "map_of (ac_cfg c) (node_id f)")
    case (Some x)
    then show ?thesis
      using table_right_get [OF cache_okD(1) [OF ok] Some] f ok by (simp add: cached_cfg_def node_in_def)
  next
    case None
    have "cache_ok v ((record_miss ''cfg'' c)\<lparr>ac_cfg := dict_set (node_id f) x (ac_cfg c), ac_cfg_builds := b\<rparr>)"
      if "build_cfg (av_depth v) (av_graph v) f = Some x" for x b
      using ok table_right_set [OF cache_okD(1) [OF ok] f [unfolded node_in_def] that] by (simp add: cache_ok_def)
    then show ?thesis
      using None by (cases "build_cfg (av_depth v) (av_graph v) f") (simp_all add: cached_cfg_def Let_def)
  qed
qed

interpretation points: transparent_cache "cache_ok v" "node_in (av_graph v)" "\<lambda>f. analyze_aliases f (av_graph v)"
  "cached_aliases (av_graph v)" for v
proof unfold_locales
  fix c f
  assume ok: "cache_ok v c" and f: "node_in (av_graph v) f"
  show "case analyze_aliases f (av_graph v) of
       None \<Rightarrow> cached_aliases (av_graph v) f c = None
     | Some a \<Rightarrow> \<exists>c'. cached_aliases (av_graph v) f c = Some (a, c') \<and> cache_ok v c'"
  proof (cases "map_of (ac_alias c) (node_id f)")
    case (Some x)
    then show ?thesis
      using table_right_get [OF cache_okD(2) [OF ok] Some] f ok by (simp add: cached_aliases_def node_in_def)
  next
    case None
    have "cache_ok v ((record_miss ''alias'' c)\<lparr>ac_alias := dict_set (node_id f) x (ac_alias c), ac_alias_builds := b\<rparr>)"
      if "analyze_aliases f (av_graph v) = Some x" for x b
      using ok table_right_set [OF cache_okD(2) [OF ok] f [unfolded node_in_def] that] by (simp add: cache_ok_def)
    then show ?thesis
      using None by (cases "analyze_aliases f (av_graph v)") (simp_all add: cached_aliases_def Let_def)
  qed
qed

interpretation engines: transparent_cache "cache_ok v" "node_in (av_graph v)" "\<lambda>f. analyze_aliases f (av_graph v)"
  "cached_dataflow_engine (av_graph v)" for v
proof unfold_locales
  fix c f
  assume ok: "cache_ok v c" and f: "node_in (av_graph v) f"
  show "case analyze_aliases f (av_graph v) of
       None \<Rightarrow> cached_dataflow_engine (av_graph v) f c = None
     | Some a \<Rightarrow> \<exists>c'. cached_dataflow_engine (av_graph v) f c = Some (a, c') \<and> cache_ok v c'"
  proof (cases "map_of (ac_dataflow_engine c) (node_id f)")
    case (Some x)
    then show ?thesis
      using table_right_get [OF cache_okD(3) [OF ok] Some] f ok by (simp add: cached_dataflow_engine_def node_in_def)
  next
    case None
    have miss: "cache_ok v (record_miss ''dataflow_engine'' c)" using ok by simp
    have store: "cache_ok v (c'\<lparr>ac_dataflow_engine := dict_set (node_id f) x (ac_dataflow_engine c'), ac_dataflow_builds := b\<rparr>)"
      if "cache_ok v c'" "analyze_aliases f (av_graph v) = Some x" for c' x b
      using that(1) table_right_set [OF cache_okD(3) [OF that(1)] f [unfolded node_in_def] that(2)] by (simp add: cache_ok_def)
    show ?thesis
      using points.transparent [OF miss f] None store
      by (cases "analyze_aliases f (av_graph v)") (auto simp: cached_dataflow_engine_def)
  qed
qed

interpretation results: transparent_cache "cache_ok v" "\<lambda>(f, a :: string). node_in (av_graph v) f" "\<lambda>(f, a). av_query v f a"
  "\<lambda>(f, a). cached_dataflow_result (av_query v) f a" for v
proof unfold_locales
  fix c and q :: "ast_node \<times> string"
  assume ok: "cache_ok v c" and valid: "case q of (f, a) \<Rightarrow> node_in (av_graph v) f"
  obtain f and a :: string where q: "q = (f, a)" by fastforce
  have f: "g_get (av_graph v) (node_id f) = Some f" using valid q by (simp add: node_in_def)
  have right: "av_query v f a = Some x" if "map_of (ac_dataflow_results c) (node_id f, a) = Some x" for x
    using ok that f unfolding cache_ok_def by fastforce
  have store: "cache_ok v ((record_miss ''dataflow_result'' c)
      \<lparr>ac_dataflow_results := dict_set (node_id f, a) x (ac_dataflow_results c)\<rparr>)" if "av_query v f a = Some x" for x
    using ok that f by (auto simp: cache_ok_def)
  show "case (case q of (f, a) \<Rightarrow> av_query v f a) of
       None \<Rightarrow> (case q of (f, a) \<Rightarrow> cached_dataflow_result (av_query v) f a) c = None
     | Some x \<Rightarrow> \<exists>c'. (case q of (f, a) \<Rightarrow> cached_dataflow_result (av_query v) f a) c = Some (x, c') \<and> cache_ok v c'"
  proof (cases "map_of (ac_dataflow_results c) (node_id f, a)")
    case (Some x)
    then show ?thesis using right [OF Some] ok q by (simp add: cached_dataflow_result_def)
  next
    case None
    then show ?thesis
      using store q by (cases "av_query v f a") (simp_all add: cached_dataflow_result_def Let_def)
  qed
qed

lemma cached_symbols_ok: "cache_ok v c \<Longrightarrow> \<exists>c'. cached_symbols (av_graph v) c = (symbol_index_of (av_graph v), c') \<and> cache_ok v c'"
  by (cases "ac_symbol_index c") (auto simp: cached_symbols_def cache_ok_def Let_def)

lemma cached_linkage_index_ok: "cache_ok v c \<Longrightarrow> \<exists>c'. cached_linkage_index (av_linkage v) c = (av_linkage v, c') \<and> cache_ok v c'"
  by (cases "ac_linkage_index c") (auto simp: cached_linkage_index_def cache_ok_def Let_def)

lemma cached_linkage_analyzer_ok:
  "cache_ok v c \<Longrightarrow> \<exists>c'. cached_linkage_analyzer (av_linkage v) c = (av_linkage v, c') \<and> cache_ok v c'"
  by (cases "ac_linkage_analyzer c") (auto simp: cached_linkage_analyzer_def cache_ok_def Let_def)

interpretation requests: transparent_cache "cache_ok v" "valid_request v" "compute_answer v" "serve v" for v
proof unfold_locales
  fix c q
  assume ok: "cache_ok v c" and valid: "valid_request v q"
  show "case compute_answer v q of
      None \<Rightarrow> serve v q c = None
    | Some a \<Rightarrow> \<exists>c'. serve v q c = Some (a, c') \<and> cache_ok v c'"
  proof (cases q)
    case (Cfg_Of f)
    then show ?thesis using cfgs.transparent [OF ok, of f] valid
      by (cases "build_cfg (av_depth v) (av_graph v) f") auto
  next
    case (Aliases_Of f)
    then show ?thesis using points.transparent [OF ok, of f] valid
      by (cases "analyze_aliases f (av_graph v)") auto
  next
    case (Dataflow_Of f)
    then show ?thesis using engines.transparent [OF ok, of f] valid
      by (cases "analyze_aliases f (av_graph v)") auto
  next
    case (Result_Of f a)
    then show ?thesis using results.transparent [OF ok, of "(f, a)"] valid
      by (cases "av_query v f a") auto
  next
    case Symbols
    then show ?thesis using cached_symbols_ok [OF ok] by auto
  next
    case Linkage_Index
    then show ?thesis using cached_linkage_index_ok [OF ok] by auto
  next
    case Linkage_Checks
    obtain c1 where c1: "cached_linkage_index (av_linkage v) c = (av_linkage v, c1)" "cache_ok v c1"
      using cached_linkage_index_ok [OF ok] by blast
    show ?thesis using Linkage_Checks c1(1) cached_linkage_analyzer_ok [OF c1(2)] by auto
  qed
qed

lemma new_cache_ok [simp]: "cache_ok v new_cache"
  by (simp add: cache_ok_def new_cache_def table_right_def)

text \<open>C21: Every sequence of lookups on a fresh cache answers exactly what computing each request
  anew would answer, and returns exactly when all those computations do: sharing analyses between
  rules is invisible to them.\<close>

theorem cache_transparent:
  assumes "\<forall>q \<in> set qs. valid_request v q"
  shows "map_option fst (in_sequence (serve v) qs new_cache) = opt_map (compute_answer v) qs"
  using requests.sequence [OF new_cache_ok assms] by (cases "opt_map (compute_answer v) qs") auto

definition alias_env :: "nat analysis_env" where
  "alias_env = \<lparr>av_depth = 3, av_graph = al_graph, av_query = (\<lambda>f a. Some 0), av_linkage = empty_linkage\<rparr>"

theorem cache_transparent_witness:
  "map_option fst (in_sequence (serve alias_env)
      [Aliases_Of (al_nodes ! 0), Linkage_Checks, Dataflow_Of (al_nodes ! 0), Result_Of (al_nodes ! 0) ''reads''] new_cache)
    = Some [Alias_Answer al_map, Checks_Answer empty_linkage, Dataflow_Answer al_map, Result_Answer 0]"
proof -
  have "node_in al_graph (al_nodes ! 0)" by (simp add: node_in_def) code_simp
  then show ?thesis
    using cache_transparent [of "[Aliases_Of (al_nodes ! 0), Linkage_Checks, Dataflow_Of (al_nodes ! 0), Result_Of (al_nodes ! 0) ''reads'']" alias_env]
    by (simp add: alias_env_def al_analyze)
qed

subsection \<open>The counters\<close>

definition count_of :: "(string, nat) dict \<Rightarrow> string \<Rightarrow> nat" where
  "count_of d k = dict_get_default 0 d k"

definition built_once :: "(string, 'v) dict \<Rightarrow> (string, nat) dict \<Rightarrow> bool" where
  "built_once table counts \<longleftrightarrow> (\<forall>k. count_of counts k = (if map_of table k = None then 0 else 1))"

text \<open>
  The builds of every analysis match its table, and the misses count the entries of all tables
  and the \<open>n\<close> entries that are being built.
\<close>

definition pending_ok :: "nat \<Rightarrow> 'r analysis_cache \<Rightarrow> bool" where
  "pending_ok n c \<longleftrightarrow> built_once (ac_cfg c) (ac_cfg_builds c)
     \<and> built_once (ac_alias c) (ac_alias_builds c)
     \<and> built_once (ac_dataflow_engine c) (ac_dataflow_builds c)
     \<and> ac_symbol_index_builds c = of_bool (ac_symbol_index c \<noteq> None)
     \<and> ac_linkage_index_builds c = of_bool (ac_linkage_index c \<noteq> None)
     \<and> ac_linkage_analyzer_builds c = of_bool (ac_linkage_analyzer c \<noteq> None)
     \<and> ac_misses c = n + length (ac_cfg c) + length (ac_alias c) + length (ac_dataflow_engine c)
         + length (ac_dataflow_results c) + ac_symbol_index_builds c + ac_linkage_index_builds c
         + ac_linkage_analyzer_builds c"

definition counters_ok :: "'r analysis_cache \<Rightarrow> bool" where
  "counters_ok c \<longleftrightarrow> pending_ok 0 c"

lemma count_of_bump [simp]: "count_of (bump k d) j = (if j = k then count_of d j + 1 else count_of d j)"
  by (simp add: count_of_def bump_def dict_get_default_def)

lemma built_once_set:
  "built_once d b \<Longrightarrow> map_of d k = None \<Longrightarrow> built_once (dict_set k v d) (bump k b)"
  by (simp add: built_once_def)

lemma length_dict_set_new: "map_of d k = None \<Longrightarrow> length (dict_set k v d) = length d + 1"
proof (induction d)
  case (Cons kv d)
  then show ?case by (cases kv) (auto simp: dict_set_def split: if_splits)
qed (simp add: dict_set_def)

lemma pending_ok_hit [simp]: "pending_ok n (record_hit a c) = pending_ok n c"
  by (simp add: pending_ok_def)

lemma pending_ok_miss [simp]: "pending_ok (Suc n) (record_miss a c) = pending_ok n c"
  by (simp add: pending_ok_def)

lemma counters_ok_new [simp]: "counters_ok new_cache"
  by (simp add: counters_ok_def pending_ok_def new_cache_def built_once_def count_of_def dict_get_default_def)

text \<open>Storing the entry that was being built.\<close>

lemma pending_ok_store_cfg: "pending_ok (Suc n) c \<Longrightarrow> map_of (ac_cfg c) k = None
    \<Longrightarrow> pending_ok n (c\<lparr>ac_cfg := dict_set k x (ac_cfg c), ac_cfg_builds := bump k (ac_cfg_builds c)\<rparr>)"
  by (simp add: pending_ok_def built_once_set length_dict_set_new)

lemma pending_ok_store_alias: "pending_ok (Suc n) c \<Longrightarrow> map_of (ac_alias c) k = None
    \<Longrightarrow> pending_ok n (c\<lparr>ac_alias := dict_set k x (ac_alias c), ac_alias_builds := bump k (ac_alias_builds c)\<rparr>)"
  by (simp add: pending_ok_def built_once_set length_dict_set_new)

lemma pending_ok_store_engine: "pending_ok (Suc n) c \<Longrightarrow> map_of (ac_dataflow_engine c) k = None
    \<Longrightarrow> pending_ok n (c\<lparr>ac_dataflow_engine := dict_set k x (ac_dataflow_engine c),
          ac_dataflow_builds := bump k (ac_dataflow_builds c)\<rparr>)"
  by (simp add: pending_ok_def built_once_set length_dict_set_new)

lemma pending_ok_store_result: "pending_ok (Suc n) c \<Longrightarrow> map_of (ac_dataflow_results c) k = None
    \<Longrightarrow> pending_ok n (c\<lparr>ac_dataflow_results := dict_set k x (ac_dataflow_results c)\<rparr>)"
  by (simp add: pending_ok_def length_dict_set_new)

lemma pending_ok_aliases: "pending_ok n c \<Longrightarrow> cached_aliases g f c = Some (v, c')
    \<Longrightarrow> pending_ok n c' \<and> ac_dataflow_engine c' = ac_dataflow_engine c"
  using pending_ok_store_alias [of n "record_miss ''alias'' c"]
  by (cases "map_of (ac_alias c) (node_id f)"; cases "analyze_aliases f g") (auto simp: cached_aliases_def Let_def)

lemma counters_ok_cfg: "counters_ok c \<Longrightarrow> cached_cfg n g f c = Some (v, c') \<Longrightarrow> counters_ok c'"
  using pending_ok_store_cfg [of 0 "record_miss ''cfg'' c"]
  by (cases "map_of (ac_cfg c) (node_id f)"; cases "build_cfg n g f") (auto simp: cached_cfg_def counters_ok_def Let_def)

lemma counters_ok_aliases: "counters_ok c \<Longrightarrow> cached_aliases g f c = Some (v, c') \<Longrightarrow> counters_ok c'"
  unfolding counters_ok_def by (blast dest: pending_ok_aliases)

text \<open>Only a miss of \<open>dataflow_engine\<close> runs another lookup before it stores its entry.\<close>

lemma counters_ok_dataflow_engine:
  assumes ok: "counters_ok c" and run: "cached_dataflow_engine g f c = Some (v, c')"
  shows "counters_ok c'"
proof (cases "map_of (ac_dataflow_engine c) (node_id f)")
  case (Some x)
  then show ?thesis using ok run by (auto simp: cached_dataflow_engine_def counters_ok_def)
next
  case None
  then obtain c1 where c1: "cached_aliases g f (record_miss ''dataflow_engine'' c) = Some (v, c1)"
    and c': "c' = c1\<lparr>ac_dataflow_engine := dict_set (node_id f) v (ac_dataflow_engine c1),
      ac_dataflow_builds := bump (node_id f) (ac_dataflow_builds c1)\<rparr>"
    using run by (auto simp: cached_dataflow_engine_def bind_eq_Some_conv)
  have "pending_ok (Suc 0) c1 \<and> ac_dataflow_engine c1 = ac_dataflow_engine c"
    using pending_ok_aliases [OF _ c1, of "Suc 0"] ok by (simp add: counters_ok_def)
  then show ?thesis using pending_ok_store_engine [of 0 c1] None by (simp add: c' counters_ok_def)
qed

lemma counters_ok_result: "counters_ok c \<Longrightarrow> cached_dataflow_result q f a c = Some (v, c') \<Longrightarrow> counters_ok c'"
  using pending_ok_store_result [of 0 "record_miss ''dataflow_result'' c"]
  by (cases "map_of (ac_dataflow_results c) (node_id f, a)"; cases "q f a")
    (auto simp: cached_dataflow_result_def counters_ok_def Let_def)

lemma counters_ok_symbols: "counters_ok c \<Longrightarrow> cached_symbols g c = (v, c') \<Longrightarrow> counters_ok c'"
  by (auto simp: cached_symbols_def counters_ok_def pending_ok_def Let_def split: option.splits)

lemma counters_ok_linkage_index: "counters_ok c \<Longrightarrow> cached_linkage_index l c = (v, c') \<Longrightarrow> counters_ok c'"
  by (auto simp: cached_linkage_index_def counters_ok_def pending_ok_def Let_def split: option.splits)

lemma counters_ok_linkage_analyzer: "counters_ok c \<Longrightarrow> cached_linkage_analyzer l c = (v, c') \<Longrightarrow> counters_ok c'"
  by (auto simp: cached_linkage_analyzer_def counters_ok_def pending_ok_def Let_def split: option.splits)

lemmas counters_ok_lookup = counters_ok_cfg counters_ok_aliases counters_ok_dataflow_engine counters_ok_result
  counters_ok_symbols counters_ok_linkage_index counters_ok_linkage_analyzer

lemma counters_ok_serve: "counters_ok c \<Longrightarrow> serve v q c = Some (a, c') \<Longrightarrow> counters_ok c'"
  by (cases q) (auto simp: map_prod_def dest: counters_ok_lookup split: prod.splits)

lemma in_sequence_invariant:
  assumes "\<And>q c a c'. P c \<Longrightarrow> f q c = Some (a, c') \<Longrightarrow> P c'"
  shows "P c \<Longrightarrow> in_sequence f qs c = Some (as, c') \<Longrightarrow> P c'"
proof (induction qs arbitrary: c as)
  case (Cons q qs)
  then obtain a c1 as1 where "f q c = Some (a, c1)" "in_sequence f qs c1 = Some (as1, c')"
    by (auto simp: bind_eq_Some_conv)
  then show ?case using Cons assms by blast
qed simp

text \<open>One lookup after another, the cache builds each analysis at most once: the counter of
  every function is one when its entry exists and zero otherwise, the three singletons are built at
  most once, and the misses count exactly the entries of all the tables.\<close>

theorem cache_builds_once:
  assumes "in_sequence (serve v) qs new_cache = Some (as, c)"
  shows "counters_ok c"
  by (rule in_sequence_invariant [of counters_ok, OF _ counters_ok_new assms]) (rule counters_ok_serve)

theorem cache_builds_once_witness:
  "\<exists>as c. in_sequence (serve alias_env) [Aliases_Of (al_nodes ! 0), Dataflow_Of (al_nodes ! 0)] new_cache = Some (as, c)
     \<and> count_of (ac_alias_builds c) ''f'' = 1"
proof -
  have id: "node_id (al_nodes ! 0) = ''f''" by code_simp
  obtain as c where run: "in_sequence (serve alias_env) [Aliases_Of (al_nodes ! 0), Dataflow_Of (al_nodes ! 0)] new_cache
      = Some (as, c)" and "map_of (ac_alias c) ''f'' \<noteq> None"
    by (simp add: alias_env_def cached_aliases_def cached_dataflow_engine_def al_analyze new_cache_def id)
  moreover have "counters_ok c" by (rule cache_builds_once [OF run])
  ultimately have "count_of (ac_alias_builds c) ''f'' = 1" by (simp add: counters_ok_def pending_ok_def built_once_def)
  then show ?thesis using run by blast
qed

subsection \<open>Two threads on one cache\<close>

text \<open>
  The engine runs the rules of a translation unit in a thread pool, and they share one cache without
  a lock.  A lookup of \<open>cfg\<close> reads the table, builds the graph on a miss, and stores it; other threads
  may run between these steps.  \<open>slot_builds\<close> lists the builds in the order they were started.
\<close>

datatype lookup_phase = Asking ast_node | Missed ast_node | Built ast_node cfg | Answered ast_node cfg

record cfg_slots =
  slot_table :: "(string, cfg) dict"
  slot_builds :: "string list"
  slot_threads :: "lookup_phase list"

text \<open>Thread \<open>t\<close> runs up to its next access to the cache; a build that does not return stays where it is.\<close>

fun lookup_step :: "(ast_node \<Rightarrow> cfg option) \<Rightarrow> nat \<Rightarrow> lookup_phase \<Rightarrow> cfg_slots \<Rightarrow> cfg_slots" where
  "lookup_step build t (Asking f) s = (case map_of (slot_table s) (node_id f) of
      Some v \<Rightarrow> s\<lparr>slot_threads := (slot_threads s)[t := Answered f v]\<rparr>
    | None \<Rightarrow> s\<lparr>slot_threads := (slot_threads s)[t := Missed f], slot_builds := slot_builds s @ [node_id f]\<rparr>)"
| "lookup_step build t (Missed f) s = (case build f of
      Some v \<Rightarrow> s\<lparr>slot_threads := (slot_threads s)[t := Built f v]\<rparr>
    | None \<Rightarrow> s)"
| "lookup_step build t (Built f v) s =
     s\<lparr>slot_table := dict_set (node_id f) v (slot_table s), slot_threads := (slot_threads s)[t := Answered f v]\<rparr>"
| "lookup_step build t (Answered f v) s = s"

fun run_lookups :: "(ast_node \<Rightarrow> cfg option) \<Rightarrow> nat list \<Rightarrow> cfg_slots \<Rightarrow> cfg_slots" where
  "run_lookups build [] s = s"
| "run_lookups build (t # ts) s = run_lookups build ts
     (if t < length (slot_threads s) then lookup_step build t (slot_threads s ! t) s else s)"

definition start_lookups :: "ast_node list \<Rightarrow> cfg_slots" where
  "start_lookups fs = \<lparr>slot_table = [], slot_builds = [], slot_threads = map Asking fs\<rparr>"

definition phase_ok :: "(ast_node \<Rightarrow> cfg option) \<Rightarrow> ast_node \<Rightarrow> lookup_phase \<Rightarrow> bool" where
  "phase_ok build f p \<longleftrightarrow> p = Asking f \<or> p = Missed f
     \<or> (\<exists>v. build f = Some v \<and> (p = Built f v \<or> p = Answered f v))"

definition slots_ok :: "ast_graph \<Rightarrow> (ast_node \<Rightarrow> cfg option) \<Rightarrow> ast_node list \<Rightarrow> cfg_slots \<Rightarrow> bool" where
  "slots_ok g build fs s \<longleftrightarrow> table_right (g_get g) build (slot_table s)
     \<and> list_all2 (phase_ok build) fs (slot_threads s)"

lemma slots_ok_step:
  assumes ok: "slots_ok g build fs s" and fs: "\<forall>f \<in> set fs. node_in g f" and t: "t < length (slot_threads s)"
  shows "slots_ok g build fs (lookup_step build t (slot_threads s ! t) s)"
proof -
  have phases: "list_all2 (phase_ok build) fs (slot_threads s)" and table: "table_right (g_get g) build (slot_table s)"
    using ok by (simp_all add: slots_ok_def)
  define f where "f = fs ! t"
  have phase: "phase_ok build f (slot_threads s ! t)"
    using phases t by (simp add: f_def list_all2_conv_all_nth)
  have f: "g_get g (node_id f) = Some f"
    using fs phases t by (simp add: f_def node_in_def list_all2_lengthD)
  have upd: "list_all2 (phase_ok build) fs ((slot_threads s)[t := p])" if "phase_ok build f p" for p
    using phases that t by (simp add: f_def list_all2_conv_all_nth nth_list_update)
  note table_facts = table_right_get [OF table _ f] table_right_set [OF table f]
  show ?thesis
    using phase unfolding phase_ok_def [of build f "slot_threads s ! t"]
    by (auto simp: slots_ok_def table phases table_facts intro!: upd split: option.splits)
      (auto simp: phase_ok_def table_facts)
qed

lemma slots_ok_run:
  "slots_ok g build fs s \<Longrightarrow> \<forall>f \<in> set fs. node_in g f \<Longrightarrow> slots_ok g build fs (run_lookups build ts s)"
  by (induction ts arbitrary: s) (simp_all add: slots_ok_step)

lemma slots_ok_start: "slots_ok g build fs (start_lookups fs)"
  by (auto simp: slots_ok_def start_lookups_def table_right_def phase_ok_def list_all2_conv_all_nth)

text \<open>Whatever the interleaving of the threads' lookups, every thread that gets a graph gets the
  one \<open>build\<close> computes for the function it asked about.\<close>

theorem shared_lookups_right:
  assumes "\<forall>f \<in> set fs. node_in g f" "t < length fs"
    and "slot_threads (run_lookups (build_cfg n g) ts (start_lookups fs)) ! t = Answered f v"
  shows "f = fs ! t \<and> build_cfg n g f = Some v"
proof -
  have "list_all2 (phase_ok (build_cfg n g)) fs (slot_threads (run_lookups (build_cfg n g) ts (start_lookups fs)))"
    using slots_ok_run [OF slots_ok_start assms(1)] by (simp add: slots_ok_def)
  then have "phase_ok (build_cfg n g) (fs ! t) (Answered f v)"
    using assms(2,3) by (metis list_all2_nthD)
  then show ?thesis by (auto simp: phase_ok_def)
qed

lemma tiny_f: "node_in tiny_graph (bare_node ''f'' ''FunctionDecl'' [] [''c''])"
  by (simp add: node_in_def) code_simp

theorem shared_lookups_right_witness:
  "\<exists>v. slot_threads (run_lookups (build_cfg 3 tiny_graph) [0, 1, 1, 1, 0, 0]
      (start_lookups [bare_node ''f'' ''FunctionDecl'' [] [''c''], bare_node ''f'' ''FunctionDecl'' [] [''c'']])) ! 0
      = Answered (bare_node ''f'' ''FunctionDecl'' [] [''c'']) v
    \<and> build_cfg 3 tiny_graph (bare_node ''f'' ''FunctionDecl'' [] [''c'']) = Some v"
proof -
  let ?f = "bare_node ''f'' ''FunctionDecl'' [] [''c'']"
  obtain v where v: "build_cfg 3 tiny_graph ?f = Some v" using tiny_build by blast
  have run: "slot_threads (run_lookups (build_cfg 3 tiny_graph) [0, 1, 1, 1, 0, 0] (start_lookups [?f, ?f])) ! 0 = Answered ?f v"
    using v by (simp add: start_lookups_def)
  moreover have "build_cfg 3 tiny_graph ?f = Some v"
    using shared_lookups_right [of "[?f, ?f]" tiny_graph 0 3 "[0, 1, 1, 1, 0, 0]" ?f v] tiny_f run by simp
  ultimately show ?thesis by blast
qed

text \<open>Two threads that ask for the same function's graph may both miss, and then the graph is
  built twice: the sharing is exact only without concurrency.\<close>

theorem cfg_built_twice:
  assumes "build_cfg n g f = Some v"
  shows "run_lookups (build_cfg n g) [0, 1, 0, 0, 1, 1] (start_lookups [f, f])
    = \<lparr>slot_table = [(node_id f, v)], slot_builds = [node_id f, node_id f],
       slot_threads = [Answered f v, Answered f v]\<rparr>"
  using assms by (simp add: start_lookups_def dict_set_def)

theorem cfg_built_twice_witness:
  "\<exists>v. run_lookups (build_cfg 3 tiny_graph) [0, 1, 0, 0, 1, 1]
      (start_lookups [bare_node ''f'' ''FunctionDecl'' [] [''c''], bare_node ''f'' ''FunctionDecl'' [] [''c'']])
    = \<lparr>slot_table = [(''f'', v)], slot_builds = [''f'', ''f''],
       slot_threads = [Answered (bare_node ''f'' ''FunctionDecl'' [] [''c'']) v,
                       Answered (bare_node ''f'' ''FunctionDecl'' [] [''c'']) v]\<rparr>"
proof -
  obtain v where "build_cfg 3 tiny_graph (bare_node ''f'' ''FunctionDecl'' [] [''c'']) = Some v"
    using tiny_build by blast
  from cfg_built_twice [OF this] show ?thesis by (intro exI) (simp only: bare_node_simps)
qed

end
