(* ===== verification/Pack_Decl.thy ===== *)
theory Pack_Decl
  imports Rule_Base Dataflow Cfg_Build Alias
begin

text \<open>
  The declarations pack (\<open>rule_pack_declarations.py\<close>), in the shape of Pack\_Control.
\<close>

subsection \<open>Vocabulary of the pack\<close>

definition parameters_of :: "ast_graph \<Rightarrow> ast_node \<Rightarrow> ast_node list" where
  "parameters_of g fn = filter (\<lambda>c. node_kind c = ''ParmVarDecl'') (children g (node_id fn))"

text \<open>A pair of declarations, whatever its order, is reported once.\<close>

definition pair_key :: "ast_node \<times> ast_node \<Rightarrow> string set" where
  "pair_key p = {node_id (fst p), node_id (snd p)}"

text \<open>A named node with the other declarations of its name.\<close>

definition other_declarations :: "symbol_index \<Rightarrow> ast_node list \<Rightarrow> (ast_node \<times> ast_node) list" where
  "other_declarations idx nodes =
     concat (map (\<lambda>n. map (Pair n) (filter (\<lambda>m. node_id m \<noteq> node_id n) (declarations idx (decl_name n))))
       (filter (\<lambda>n. decl_name n \<noteq> []) nodes))"

text \<open>\<open>int(value)\<close> of a string or number; \<^term>\<open>None\<close> for the exceptions the caller catches.\<close>

definition int_base10 :: "string \<Rightarrow> int option" where
  "int_base10 s = (case strip s of
      [] \<Rightarrow> None
    | c # r \<Rightarrow> if c = CHR ''-'' then map_option uminus (scan_digits 10 True 0 r)
              else if c = CHR ''+'' then scan_digits 10 True 0 r
              else scan_digits 10 True 0 (c # r))"

fun py_int :: "pyval \<Rightarrow> int option" where
  "py_int (PInt i) = Some i"
| "py_int (PBool b) = Some (if b then 1 else 0)"
| "py_int (PStr s) = int_base10 s"
| "py_int v = None"


subsection \<open>Rules 8.2, 8.6 and 8.14\<close>

definition rule_8_2_metadata :: rule_metadata where
  "rule_8_2_metadata = \<lparr>
     md_rule_id = ''misra-c2012-rule-8-2'',
     md_rule_number = ''8.2'',
     md_standard = MISRA_C_2012,
     md_category = REQUIRED,
     md_severity = MAJOR,
     md_title = ''Function types shall be in prototype form with named parameters'',
     md_description = ''Every function parameter shall have a name in its declaration.'',
     md_rationale = ''Unnamed parameters in a prototype hide intent and hinder review.'',
     md_tags = [''declarations'', ''functions''],
     md_references = [''MISRA C:2012 Rule 8.2''],
     md_plugin_module = ''misra_platform_rules.standards.misra_c_2012.rules.rule_pack_declarations'',
     md_plugin_version = ''0.1.0'',
     md_requires_ast_nodes = [''FunctionDecl'', ''ParmVarDecl''],
     md_implementation_category = A_AST_ONLY,
     md_rule_pack = Some DECLARATIONS,
     md_requires_type_info = False,
     md_requires_cfg = False,
     md_requires_dataflow = False,
     md_requires_linkage = False,
     md_requires_macro_expansion = False,
     md_rule_dependencies = []\<rparr>"

definition rule_8_2_finding :: "string \<Rightarrow> string \<Rightarrow> ast_node \<Rightarrow> finding" where
  "rule_8_2_finding name number n = \<lparr>
     fd_explanation = ''Function '' @ sq @ name @ sq @ '' declares '' @ number @ '' parameter(s) without a name.'',
     fd_risk_description = ''Unnamed parameters make the interface harder to review and document.'',
     fd_confidence_factors = factors 90 85 95 10 50,
     fd_confidence_score = dec2 85,
     fd_suggested_fix = Some \<lparr>sf_original_code = offending_text n,
       sf_suggested_code = ''give every parameter of '' @ sq @ name @ sq @ '' an explicit name'',
       sf_rationale = ''Named parameters document intent and enable static analysis.'',
       sf_confidence_score = dec2 50\<rparr>\<rparr>"

definition rule_8_2_findings :: "ast_graph \<Rightarrow> (ast_node \<times> finding) list" where
  "rule_8_2_findings g =
     report_some (\<lambda>n. let unnamed = filter (\<lambda>p. \<not> sem_flag p ''name'') (parameters_of g n) in
         if unnamed = [] then None
         else Some (rule_8_2_finding (sem_name n ''<anonymous>'') (nat_str (length unnamed)) n))
       (nodes_by_kind g ''FunctionDecl'')"

definition rule_8_6_metadata :: rule_metadata where
  "rule_8_6_metadata = \<lparr>
     md_rule_id = ''misra-c2012-rule-8-6'',
     md_rule_number = ''8.6'',
     md_standard = MISRA_C_2012,
     md_category = REQUIRED,
     md_severity = CRITICAL,
     md_title = ''An identifier with external linkage shall have exactly one definition'',
     md_description = ''An object or function with external linkage shall have a single definition across the whole program.'',
     md_rationale = ''Multiple definitions of an externally-linked symbol violate the one-definition rule.'',
     md_tags = [''linkage'', ''declarations'', ''cross-tu''],
     md_references = [''MISRA C:2012 Rule 8.6''],
     md_plugin_module = ''misra_platform_rules.standards.misra_c_2012.rules.rule_pack_declarations'',
     md_plugin_version = ''0.1.0'',
     md_requires_ast_nodes = [''FunctionDecl'', ''VarDecl''],
     md_implementation_category = E_CROSS_TRANSLATION_UNIT,
     md_rule_pack = Some DECLARATIONS,
     md_requires_type_info = False,
     md_requires_cfg = False,
     md_requires_dataflow = False,
     md_requires_linkage = True,
     md_requires_macro_expansion = False,
     md_rule_dependencies = []\<rparr>"

definition rule_8_6_finding :: "string \<Rightarrow> finding" where
  "rule_8_6_finding name = \<lparr>
     fd_explanation = ''External identifier '' @ sq @ name @ sq @ '' has a definition in more than one translation unit.'',
     fd_risk_description = ''One-definition-rule violations cause undefined linker behaviour.'',
     fd_confidence_factors = factors 90 80 90 10 30,
     fd_confidence_score = dec2 85,
     fd_suggested_fix = None\<rparr>"

definition rule_8_6_findings :: "linkage_data \<Rightarrow> ast_graph \<Rightarrow> (ast_node \<times> finding) list" where
  "rule_8_6_findings d g =
     map (\<lambda>n. (n, rule_8_6_finding (decl_name n)))
       (keep_first decl_name {} (filter (\<lambda>n. decl_name n \<noteq> [] \<and> is_file_scope g (node_id n)
            \<and> ld_symbols d \<noteq> [] \<and> has_multiple_definitions d (decl_name n))
          (nodes_by_kinds g [''FunctionDecl'', ''VarDecl''])))"

definition rule_8_14_metadata :: rule_metadata where
  "rule_8_14_metadata = \<lparr>
     md_rule_id = ''misra-c2012-rule-8-14'',
     md_rule_number = ''8.14'',
     md_standard = MISRA_C_2012,
     md_category = REQUIRED,
     md_severity = MAJOR,
     md_title = ''The restrict qualifier shall not be used'',
     md_description = ''The restrict type qualifier shall not be used.'',
     md_rationale = ''restrict-qualified aliasing assumptions are easy to violate undetected.'',
     md_tags = [''declarations'', ''qualifiers''],
     md_references = [''MISRA C:2012 Rule 8.14''],
     md_plugin_module = ''misra_platform_rules.standards.misra_c_2012.rules.rule_pack_declarations'',
     md_plugin_version = ''0.1.0'',
     md_requires_ast_nodes = [''ParmVarDecl'', ''VarDecl''],
     md_implementation_category = A_AST_ONLY,
     md_rule_pack = Some DECLARATIONS,
     md_requires_type_info = False,
     md_requires_cfg = False,
     md_requires_dataflow = False,
     md_requires_linkage = False,
     md_requires_macro_expansion = False,
     md_rule_dependencies = []\<rparr>"

definition rule_8_14_finding :: "string \<Rightarrow> ast_node \<Rightarrow> finding" where
  "rule_8_14_finding name n = \<lparr>
     fd_explanation = sq @ name @ sq @ '' is declared with the restrict qualifier.'',
     fd_risk_description = ''restrict aliasing violations are undefined behaviour and hard to detect.'',
     fd_confidence_factors = factors 97 95 98 2 70,
     fd_confidence_score = dec2 95,
     fd_suggested_fix = Some \<lparr>sf_original_code = offending_text n,
       sf_suggested_code = ''remove the restrict qualifier from '' @ sq @ name @ sq,
       sf_rationale = ''Avoid the restrict qualifier entirely.'',
       sf_confidence_score = dec2 70\<rparr>\<rparr>"

definition rule_8_14_findings :: "ast_graph \<Rightarrow> (ast_node \<times> finding) list" where
  "rule_8_14_findings g =
     report_where (\<lambda>n. has_qualifier n ''restrict'') (\<lambda>n. rule_8_14_finding (sem_name n ''<unnamed>'') n) (all_nodes g)"

subsection \<open>Rules 5.2, 5.3 and 2.7\<close>

definition rule_5_2_metadata :: rule_metadata where
  "rule_5_2_metadata = \<lparr>
     md_rule_id = ''misra-c2012-rule-5-2'',
     md_rule_number = ''5.2'',
     md_standard = MISRA_C_2012,
     md_category = REQUIRED,
     md_severity = MAJOR,
     md_title = ''Identifiers declared in the same scope shall be distinct'',
     md_description = ''An identifier shall not collide with another identifier declared in a different namespace (tag, member, or ordinary) if that ambiguity could confuse a reader.'',
     md_rationale = ''Reusing a spelling across namespaces (e.g. a tag and a variable) confuses readers even though the compiler accepts it.'',
     md_tags = [''declarations'', ''identifiers''],
     md_references = [''MISRA C:2012 Rule 5.2''],
     md_plugin_module = ''misra_platform_rules.standards.misra_c_2012.rules.rule_pack_declarations'',
     md_plugin_version = ''0.1.0'',
     md_requires_ast_nodes = [''VarDecl'', ''RecordDecl'', ''EnumDecl'', ''TypedefDecl''],
     md_implementation_category = A_AST_ONLY,
     md_rule_pack = Some DECLARATIONS,
     md_requires_type_info = False,
     md_requires_cfg = False,
     md_requires_dataflow = False,
     md_requires_linkage = False,
     md_requires_macro_expansion = False,
     md_rule_dependencies = []\<rparr>"

definition rule_5_2_finding :: "string \<Rightarrow> string \<Rightarrow> string \<Rightarrow> finding" where
  "rule_5_2_finding name first_kind second_kind = \<lparr>
     fd_explanation = sq @ name @ sq @ '' is declared as a '' @ first_kind @ '' and also as a '' @ second_kind @ '', colliding across identifier namespaces.'',
     fd_risk_description = ''Cross-namespace name reuse is confusing even though it compiles.'',
     fd_confidence_factors = factors 85 80 90 15 40,
     fd_confidence_score = dec2 75,
     fd_suggested_fix = Some \<lparr>sf_original_code = name,
       sf_suggested_code = ''rename one of the two declarations of '' @ sq @ name @ sq,
       sf_rationale = ''Give every declaration a distinct spelling regardless of namespace.'',
       sf_confidence_score = dec2 40\<rparr>\<rparr>"

definition rule_5_2_findings :: "ast_graph \<Rightarrow> (ast_node \<times> finding) list" where
  "rule_5_2_findings g =
     map (\<lambda>(a, b). (b, rule_5_2_finding (decl_name a) (node_kind a) (node_kind b)))
       (keep_first pair_key {} (cross_namespace_collisions (symbol_index_of g)))"

definition rule_5_3_metadata :: rule_metadata where
  "rule_5_3_metadata = \<lparr>
     md_rule_id = ''misra-c2012-rule-5-3'',
     md_rule_number = ''5.3'',
     md_standard = MISRA_C_2012,
     md_category = REQUIRED,
     md_severity = MAJOR,
     md_title = ''An identifier declared in an inner scope shall not hide an outer one'',
     md_description = ''An identifier in an inner scope shall not have the same spelling as one in an enclosing scope.'',
     md_rationale = ''Shadowing makes it easy to accidentally reference the wrong variable.'',
     md_tags = [''declarations'', ''identifiers'', ''scope''],
     md_references = [''MISRA C:2012 Rule 5.3''],
     md_plugin_module = ''misra_platform_rules.standards.misra_c_2012.rules.rule_pack_declarations'',
     md_plugin_version = ''0.1.0'',
     md_requires_ast_nodes = [''VarDecl'', ''ParmVarDecl''],
     md_implementation_category = A_AST_ONLY,
     md_rule_pack = Some DECLARATIONS,
     md_requires_type_info = False,
     md_requires_cfg = False,
     md_requires_dataflow = False,
     md_requires_linkage = False,
     md_requires_macro_expansion = False,
     md_rule_dependencies = []\<rparr>"

definition rule_5_3_finding :: "string \<Rightarrow> finding" where
  "rule_5_3_finding name = \<lparr>
     fd_explanation = sq @ name @ sq @ '' hides an identifier of the same name declared in an enclosing scope.'',
     fd_risk_description = ''A reader (or the author) may mistake the inner declaration for the outer one.'',
     fd_confidence_factors = factors 90 85 90 10 55,
     fd_confidence_score = dec2 82,
     fd_suggested_fix = Some \<lparr>sf_original_code = name,
       sf_suggested_code = ''rename the inner '' @ sq @ name @ sq @ '' to a distinct identifier'',
       sf_rationale = ''Avoid shadowing an outer-scope declaration.'',
       sf_confidence_score = dec2 55\<rparr>\<rparr>"

definition rule_5_3_findings :: "ast_graph \<Rightarrow> (ast_node \<times> finding) list option" where
  "rule_5_3_findings g = map_option
     (\<lambda>pairs. map (\<lambda>(a, b). (b, rule_5_3_finding (decl_name b)))
        (filter (\<lambda>(a, b). node_kind a \<in> {''VarDecl'', ''ParmVarDecl'', ''FunctionDecl''}
                       \<and> node_kind b \<in> {''VarDecl'', ''ParmVarDecl''}) pairs))
     (shadowing_pairs g (symbol_index_of g))"

definition rule_2_7_metadata :: rule_metadata where
  "rule_2_7_metadata = \<lparr>
     md_rule_id = ''misra-c2012-rule-2-7'',
     md_rule_number = ''2.7'',
     md_standard = MISRA_C_2012,
     md_category = ADVISORY,
     md_severity = MINOR,
     md_title = ''There should be no unused parameters in functions'',
     md_description = ''Every function parameter should be referenced somewhere in the function body.'',
     md_rationale = ''Unused parameters often signal an incomplete implementation or a stale interface.'',
     md_tags = [''declarations'', ''functions'', ''unused''],
     md_references = [''MISRA C:2012 Rule 2.7''],
     md_plugin_module = ''misra_platform_rules.standards.misra_c_2012.rules.rule_pack_declarations'',
     md_plugin_version = ''0.1.0'',
     md_requires_ast_nodes = [''FunctionDecl'', ''ParmVarDecl''],
     md_implementation_category = A_AST_ONLY,
     md_rule_pack = Some DECLARATIONS,
     md_requires_type_info = False,
     md_requires_cfg = False,
     md_requires_dataflow = False,
     md_requires_linkage = False,
     md_requires_macro_expansion = False,
     md_rule_dependencies = []\<rparr>"

definition rule_2_7_finding :: "string \<Rightarrow> string \<Rightarrow> finding" where
  "rule_2_7_finding name function_name = \<lparr>
     fd_explanation = ''Parameter '' @ sq @ name @ sq @ '' of function '' @ sq @ function_name @ sq @ '' is never used.'',
     fd_risk_description = ''An unused parameter may indicate dead logic or a forgotten implementation.'',
     fd_confidence_factors = factors 85 85 90 20 30,
     fd_confidence_score = dec2 75,
     fd_suggested_fix = Some \<lparr>sf_original_code = name,
       sf_suggested_code = ''(void)'' @ name @ ''; /* or remove the parameter if truly unneeded */'',
       sf_rationale = ''Reference the parameter explicitly, or remove it from the signature.'',
       sf_confidence_score = dec2 30\<rparr>\<rparr>"

definition rule_2_7_findings :: "ast_graph \<Rightarrow> (ast_node \<times> finding) list" where
  "rule_2_7_findings g =
     concat (map (\<lambda>fn. if \<not> has_body g fn then []
         else report_where (\<lambda>p. decl_name p \<noteq> [] \<and> \<not> is_referenced g p)
                (\<lambda>p. rule_2_7_finding (decl_name p) (sem_name fn ''<anonymous>'')) (parameters_of g fn))
       (nodes_by_kind g ''FunctionDecl''))"

subsection \<open>Rules 2.3 and 2.4: unused types\<close>

definition rule_2_3_metadata :: rule_metadata where
  "rule_2_3_metadata = \<lparr>
     md_rule_id = ''misra-c2012-rule-2-3'',
     md_rule_number = ''2.3'',
     md_standard = MISRA_C_2012,
     md_category = ADVISORY,
     md_severity = MINOR,
     md_title = ''A project should not contain unused type declarations'',
     md_description = ''Every typedef name declared should be used as a type somewhere in the project.'',
     md_rationale = ''An unused typedef is dead declarative clutter that hinders review.'',
     md_tags = [''declarations'', ''unused'', ''typedef''],
     md_references = [''MISRA C:2012 Rule 2.3''],
     md_plugin_module = ''misra_platform_rules.standards.misra_c_2012.rules.rule_pack_declarations'',
     md_plugin_version = ''0.1.0'',
     md_requires_ast_nodes = [''TypedefDecl''],
     md_implementation_category = A_AST_ONLY,
     md_rule_pack = Some DECLARATIONS,
     md_requires_type_info = False,
     md_requires_cfg = False,
     md_requires_dataflow = False,
     md_requires_linkage = False,
     md_requires_macro_expansion = False,
     md_rule_dependencies = []\<rparr>"

definition rule_2_3_finding :: "string \<Rightarrow> finding" where
  "rule_2_3_finding name = \<lparr>
     fd_explanation = ''Typedef '' @ sq @ name @ sq @ '' is declared but never used as a type.'',
     fd_risk_description = ''Unused typedefs are dead declarative clutter that hinders review.'',
     fd_confidence_factors = factors 80 75 90 25 30,
     fd_confidence_score = dec2 70,
     fd_suggested_fix = Some \<lparr>sf_original_code = name,
       sf_suggested_code = ''remove the unused typedef '' @ sq @ name @ sq,
       sf_rationale = ''Delete typedefs that no declaration actually uses.'',
       sf_confidence_score = dec2 30\<rparr>\<rparr>"

definition rule_2_3_findings :: "ast_graph \<Rightarrow> (ast_node \<times> finding) list" where
  "rule_2_3_findings g =
     report_where (\<lambda>n. decl_name n \<noteq> [] \<and> \<not> is_referenced g n)
       (\<lambda>n. rule_2_3_finding (decl_name n)) (nodes_by_kind g ''TypedefDecl'')"

definition rule_2_4_metadata :: rule_metadata where
  "rule_2_4_metadata = \<lparr>
     md_rule_id = ''misra-c2012-rule-2-4'',
     md_rule_number = ''2.4'',
     md_standard = MISRA_C_2012,
     md_category = ADVISORY,
     md_severity = MINOR,
     md_title = ''A project should not contain unused tag declarations'',
     md_description = ''Every struct/union/enum tag declared should be used as a type somewhere.'',
     md_rationale = ''An unused tag declaration is dead declarative clutter that hinders review.'',
     md_tags = [''declarations'', ''unused'', ''tags''],
     md_references = [''MISRA C:2012 Rule 2.4''],
     md_plugin_module = ''misra_platform_rules.standards.misra_c_2012.rules.rule_pack_declarations'',
     md_plugin_version = ''0.1.0'',
     md_requires_ast_nodes = [''RecordDecl'', ''EnumDecl''],
     md_implementation_category = A_AST_ONLY,
     md_rule_pack = Some DECLARATIONS,
     md_requires_type_info = False,
     md_requires_cfg = False,
     md_requires_dataflow = False,
     md_requires_linkage = False,
     md_requires_macro_expansion = False,
     md_rule_dependencies = []\<rparr>"

definition rule_2_4_finding :: "string \<Rightarrow> string \<Rightarrow> finding" where
  "rule_2_4_finding tag_word name = \<lparr>
     fd_explanation = ''Tag '' @ sq @ tag_word @ '' '' @ name @ sq @ '' is declared but never used as a type.'',
     fd_risk_description = ''Unused tag declarations are dead declarative clutter that hinders review.'',
     fd_confidence_factors = factors 80 75 90 25 30,
     fd_confidence_score = dec2 70,
     fd_suggested_fix = Some \<lparr>sf_original_code = name,
       sf_suggested_code = ''remove the unused tag '' @ sq @ tag_word @ '' '' @ name @ sq,
       sf_rationale = ''Delete tags that no declaration actually uses.'',
       sf_confidence_score = dec2 30\<rparr>\<rparr>"

definition tag_word :: "ast_node \<Rightarrow> string" where
  "tag_word n = (if sem_str n ''record_kind'' = ''union'' then ''union''
     else if node_kind n = ''RecordDecl'' then ''struct'' else ''enum'')"

definition rule_2_4_findings :: "ast_graph \<Rightarrow> (ast_node \<times> finding) list" where
  "rule_2_4_findings g =
     report_where (\<lambda>n. decl_name n \<noteq> [] \<and> \<not> is_referenced g n)
       (\<lambda>n. rule_2_4_finding (tag_word n) (decl_name n)) (nodes_by_kinds g [''RecordDecl'', ''EnumDecl''])"

subsection \<open>Rules 5.5, 5.6 and 5.7: names used twice\<close>

definition rule_5_5_metadata :: rule_metadata where
  "rule_5_5_metadata = \<lparr>
     md_rule_id = ''misra-c2012-rule-5-5'',
     md_rule_number = ''5.5'',
     md_standard = MISRA_C_2012,
     md_category = REQUIRED,
     md_severity = MAJOR,
     md_title = ''Identifiers shall be distinct from macro names'',
     md_description = ''No declared identifier shall have the same spelling as a #define'' @ sq @ ''d macro name.'',
     md_rationale = ''Reusing a macro'' @ sq @ ''s spelling as an identifier is confusing at every use site.'',
     md_tags = [''declarations'', ''identifiers'', ''macros''],
     md_references = [''MISRA C:2012 Rule 5.5''],
     md_plugin_module = ''misra_platform_rules.standards.misra_c_2012.rules.rule_pack_declarations'',
     md_plugin_version = ''0.1.0'',
     md_requires_ast_nodes = [''VarDecl'', ''FunctionDecl'', ''TypedefDecl''],
     md_implementation_category = F_PREPROCESSOR,
     md_rule_pack = Some DECLARATIONS,
     md_requires_type_info = False,
     md_requires_cfg = False,
     md_requires_dataflow = False,
     md_requires_linkage = False,
     md_requires_macro_expansion = False,
     md_rule_dependencies = []\<rparr>"

definition rule_5_5_finding :: "string \<Rightarrow> finding" where
  "rule_5_5_finding name = \<lparr>
     fd_explanation = sq @ name @ sq @ '' is declared as an identifier and also #define'' @ sq @ ''d as a macro.'',
     fd_risk_description = ''Readers cannot tell from a use site whether the macro or the declaration is in effect.'',
     fd_confidence_factors = factors 90 85 60 10 40,
     fd_confidence_score = dec2 80,
     fd_suggested_fix = Some \<lparr>sf_original_code = name,
       sf_suggested_code = ''rename either the macro or the declaration of '' @ sq @ name @ sq,
       sf_rationale = ''Give the macro and the identifier distinct spellings.'',
       sf_confidence_score = dec2 40\<rparr>\<rparr>"

definition rule_5_5_findings :: "macro_table \<Rightarrow> ast_graph \<Rightarrow> (ast_node \<times> finding) list" where
  "rule_5_5_findings t g =
     (let idx = symbol_index_of g; macro_names = (\<lambda>m. prop_str m ''name'' []) ` set (mt_definitions t) - {[]} in
      concat (map (\<lambda>name. map (\<lambda>n. (n, rule_5_5_finding name)) (declarations idx name))
        (filter (\<lambda>name. name \<in> macro_names) (symbol_names idx))))"

definition rule_5_6_metadata :: rule_metadata where
  "rule_5_6_metadata = \<lparr>
     md_rule_id = ''misra-c2012-rule-5-6'',
     md_rule_number = ''5.6'',
     md_standard = MISRA_C_2012,
     md_category = REQUIRED,
     md_severity = MAJOR,
     md_title = ''A typedef name shall be a unique identifier'',
     md_description = ''A typedef name shall not be reused for any other declaration.'',
     md_rationale = ''Reusing a typedef'' @ sq @ ''s spelling for something else defeats its documentation value.'',
     md_tags = [''declarations'', ''identifiers'', ''typedef''],
     md_references = [''MISRA C:2012 Rule 5.6''],
     md_plugin_module = ''misra_platform_rules.standards.misra_c_2012.rules.rule_pack_declarations'',
     md_plugin_version = ''0.1.0'',
     md_requires_ast_nodes = [''TypedefDecl''],
     md_implementation_category = A_AST_ONLY,
     md_rule_pack = Some DECLARATIONS,
     md_requires_type_info = False,
     md_requires_cfg = False,
     md_requires_dataflow = False,
     md_requires_linkage = False,
     md_requires_macro_expansion = False,
     md_rule_dependencies = []\<rparr>"

definition rule_5_6_finding :: "string \<Rightarrow> string \<Rightarrow> finding" where
  "rule_5_6_finding name other_kind = \<lparr>
     fd_explanation = ''Typedef name '' @ sq @ name @ sq @ '' collides with another declaration of the same spelling ('' @ other_kind @ '').'',
     fd_risk_description = ''A non-unique typedef name can be silently shadowed or misread.'',
     fd_confidence_factors = factors 85 80 90 15 40,
     fd_confidence_score = dec2 75,
     fd_suggested_fix = Some \<lparr>sf_original_code = name,
       sf_suggested_code = ''rename the typedef '' @ sq @ name @ sq @ '' to a unique spelling'',
       sf_rationale = ''Typedef names must not collide with any other declaration.'',
       sf_confidence_score = dec2 40\<rparr>\<rparr>"

definition rule_5_6_findings :: "ast_graph \<Rightarrow> (ast_node \<times> finding) list" where
  "rule_5_6_findings g =
     map (\<lambda>(n, m). (n, rule_5_6_finding (decl_name n) (node_kind m)))
       (keep_first pair_key {} (other_declarations (symbol_index_of g) (nodes_by_kind g ''TypedefDecl'')))"

definition rule_5_7_metadata :: rule_metadata where
  "rule_5_7_metadata = \<lparr>
     md_rule_id = ''misra-c2012-rule-5-7'',
     md_rule_number = ''5.7'',
     md_standard = MISRA_C_2012,
     md_category = REQUIRED,
     md_severity = MAJOR,
     md_title = ''A tag name shall be a unique identifier'',
     md_description = ''A struct/union/enum tag name shall not be reused for any other declaration.'',
     md_rationale = ''Reusing a tag'' @ sq @ ''s spelling for something else defeats its documentation value.'',
     md_tags = [''declarations'', ''identifiers'', ''tags''],
     md_references = [''MISRA C:2012 Rule 5.7''],
     md_plugin_module = ''misra_platform_rules.standards.misra_c_2012.rules.rule_pack_declarations'',
     md_plugin_version = ''0.1.0'',
     md_requires_ast_nodes = [''RecordDecl'', ''EnumDecl''],
     md_implementation_category = A_AST_ONLY,
     md_rule_pack = Some DECLARATIONS,
     md_requires_type_info = False,
     md_requires_cfg = False,
     md_requires_dataflow = False,
     md_requires_linkage = False,
     md_requires_macro_expansion = False,
     md_rule_dependencies = []\<rparr>"

definition rule_5_7_finding :: "string \<Rightarrow> string \<Rightarrow> finding" where
  "rule_5_7_finding name other_kind = \<lparr>
     fd_explanation = ''Tag name '' @ sq @ name @ sq @ '' collides with another declaration of the same spelling ('' @ other_kind @ '').'',
     fd_risk_description = ''A non-unique tag name can be silently shadowed or misread.'',
     fd_confidence_factors = factors 85 80 90 15 40,
     fd_confidence_score = dec2 75,
     fd_suggested_fix = Some \<lparr>sf_original_code = name,
       sf_suggested_code = ''rename the tag '' @ sq @ name @ sq @ '' to a unique spelling'',
       sf_rationale = ''Tag names must not collide with any other declaration.'',
       sf_confidence_score = dec2 40\<rparr>\<rparr>"

definition rule_5_7_findings :: "ast_graph \<Rightarrow> (ast_node \<times> finding) list" where
  "rule_5_7_findings g =
     map (\<lambda>(n, m). (n, rule_5_7_finding (decl_name n) (node_kind m)))
       (keep_first pair_key {}
         (other_declarations (symbol_index_of g) (nodes_by_kinds g [''RecordDecl'', ''EnumDecl''])))"

subsection \<open>Rules 8.1, 17.3, 17.6, 18.7 and 19.2\<close>

definition rule_8_1_metadata :: rule_metadata where
  "rule_8_1_metadata = \<lparr>
     md_rule_id = ''misra-c2012-rule-8-1'',
     md_rule_number = ''8.1'',
     md_standard = MISRA_C_2012,
     md_category = REQUIRED,
     md_severity = MAJOR,
     md_title = ''Types shall be explicitly specified'',
     md_description = ''Every declaration shall explicitly state its type; implicit int is not permitted.'',
     md_rationale = ''Implicit typing hides the author'' @ sq @ ''s intent and is easy to get wrong.'',
     md_tags = [''declarations'', ''types''],
     md_references = [''MISRA C:2012 Rule 8.1''],
     md_plugin_module = ''misra_platform_rules.standards.misra_c_2012.rules.rule_pack_declarations'',
     md_plugin_version = ''0.1.0'',
     md_requires_ast_nodes = [''VarDecl'', ''FunctionDecl'', ''ParmVarDecl''],
     md_implementation_category = A_AST_ONLY,
     md_rule_pack = Some DECLARATIONS,
     md_requires_type_info = False,
     md_requires_cfg = False,
     md_requires_dataflow = False,
     md_requires_linkage = False,
     md_requires_macro_expansion = False,
     md_rule_dependencies = []\<rparr>"

definition rule_8_1_finding :: "string \<Rightarrow> finding" where
  "rule_8_1_finding name = \<lparr>
     fd_explanation = sq @ name @ sq @ '' is declared without an explicit type (implicit int).'',
     fd_risk_description = ''Implicit typing hides the author'' @ sq @ ''s intent and is easy to get wrong.'',
     fd_confidence_factors = factors 95 70 95 5 60,
     fd_confidence_score = dec2 90,
     fd_suggested_fix = Some \<lparr>sf_original_code = name,
       sf_suggested_code = ''give '' @ sq @ name @ sq @ '' an explicit type'',
       sf_rationale = ''Every declaration should spell out its type.'',
       sf_confidence_score = dec2 60\<rparr>\<rparr>"

definition rule_8_1_findings :: "ast_graph \<Rightarrow> (ast_node \<times> finding) list" where
  "rule_8_1_findings g =
     report_where (\<lambda>n. sem_flag n ''implicit_type'') (\<lambda>n. rule_8_1_finding (sem_name n ''<unnamed>''))
       (nodes_by_kinds g [''VarDecl'', ''FunctionDecl'', ''ParmVarDecl''])"

definition rule_17_3_metadata :: rule_metadata where
  "rule_17_3_metadata = \<lparr>
     md_rule_id = ''misra-c2012-rule-17-3'',
     md_rule_number = ''17.3'',
     md_standard = MISRA_C_2012,
     md_category = MANDATORY,
     md_severity = CRITICAL,
     md_title = ''A function shall not be declared implicitly'',
     md_description = ''Every function call shall be preceded by a visible declaration/prototype.'',
     md_rationale = ''Implicitly-declared functions default to an assumed signature, which is unsound.'',
     md_tags = [''declarations'', ''functions''],
     md_references = [''MISRA C:2012 Rule 17.3''],
     md_plugin_module = ''misra_platform_rules.standards.misra_c_2012.rules.rule_pack_declarations'',
     md_plugin_version = ''0.1.0'',
     md_requires_ast_nodes = [''CallExpr''],
     md_implementation_category = A_AST_ONLY,
     md_rule_pack = Some DECLARATIONS,
     md_requires_type_info = False,
     md_requires_cfg = False,
     md_requires_dataflow = False,
     md_requires_linkage = False,
     md_requires_macro_expansion = False,
     md_rule_dependencies = []\<rparr>"

definition rule_17_3_finding :: "string \<Rightarrow> finding" where
  "rule_17_3_finding called = \<lparr>
     fd_explanation = sq @ called @ sq @ '' is called with no visible declaration, so it is implicitly declared.'',
     fd_risk_description = ''An implicitly-declared function defaults to an assumed signature, which is unsound.'',
     fd_confidence_factors = factors 95 70 95 5 50,
     fd_confidence_score = dec2 90,
     fd_suggested_fix = Some \<lparr>sf_original_code = called @ ''(...)'',
       sf_suggested_code = ''add a prototype for '' @ sq @ called @ sq @ '' before this call'',
       sf_rationale = ''Every called function must have a visible declaration.'',
       sf_confidence_score = dec2 50\<rparr>\<rparr>"

definition callee_text :: "ast_node \<Rightarrow> string" where
  "callee_text n = prop_str (semantic_properties n) ''callee'' ''<callee>''"

definition rule_17_3_findings :: "ast_graph \<Rightarrow> (ast_node \<times> finding) list" where
  "rule_17_3_findings g =
     report_where (\<lambda>n. sem_flag n ''implicit_declaration'') (\<lambda>n. rule_17_3_finding (callee_text n))
       (nodes_by_kind g ''CallExpr'')"

definition rule_17_6_metadata :: rule_metadata where
  "rule_17_6_metadata = \<lparr>
     md_rule_id = ''misra-c2012-rule-17-6'',
     md_rule_number = ''17.6'',
     md_standard = MISRA_C_2012,
     md_category = MANDATORY,
     md_severity = CRITICAL,
     md_title = ''The declaration of an array parameter shall not contain the static keyword'',
     md_description = ''An array-typed function parameter shall not be declared with the static keyword.'',
     md_rationale = ''A `static` array-size hint constrains callers in a way that is easy to violate undetected.'',
     md_tags = [''declarations'', ''functions'', ''arrays''],
     md_references = [''MISRA C:2012 Rule 17.6''],
     md_plugin_module = ''misra_platform_rules.standards.misra_c_2012.rules.rule_pack_declarations'',
     md_plugin_version = ''0.1.0'',
     md_requires_ast_nodes = [''ParmVarDecl''],
     md_implementation_category = A_AST_ONLY,
     md_rule_pack = Some DECLARATIONS,
     md_requires_type_info = False,
     md_requires_cfg = False,
     md_requires_dataflow = False,
     md_requires_linkage = False,
     md_requires_macro_expansion = False,
     md_rule_dependencies = []\<rparr>"

definition rule_17_6_finding :: "string \<Rightarrow> finding" where
  "rule_17_6_finding name = \<lparr>
     fd_explanation = ''Array parameter '' @ sq @ name @ sq @ '' is declared with the static keyword.'',
     fd_risk_description = ''A static array-size hint constrains callers in a way that is easy to violate undetected.'',
     fd_confidence_factors = factors 95 85 95 5 70,
     fd_confidence_score = dec2 90,
     fd_suggested_fix = Some \<lparr>sf_original_code = ''static '' @ name @ ''[]'',
       sf_suggested_code = ''remove the static keyword from '' @ sq @ name @ sq,
       sf_rationale = ''Do not use the static array-parameter form.'',
       sf_confidence_score = dec2 70\<rparr>\<rparr>"

definition rule_17_6_findings :: "ast_graph \<Rightarrow> (ast_node \<times> finding) list" where
  "rule_17_6_findings g =
     report_where (\<lambda>n. sem_flag n ''is_array'' \<and> sem_flag n ''array_static'')
       (\<lambda>n. rule_17_6_finding (sem_name n ''<param>'')) (nodes_by_kind g ''ParmVarDecl'')"

definition rule_18_7_metadata :: rule_metadata where
  "rule_18_7_metadata = \<lparr>
     md_rule_id = ''misra-c2012-rule-18-7'',
     md_rule_number = ''18.7'',
     md_standard = MISRA_C_2012,
     md_category = REQUIRED,
     md_severity = MAJOR,
     md_title = ''Flexible array members shall not be declared'',
     md_description = ''A struct'' @ sq @ ''s last member shall not be an incomplete flexible array member.'',
     md_rationale = ''Flexible array members make an object'' @ sq @ ''s size implicit and easy to get wrong.'',
     md_tags = [''declarations'', ''arrays'', ''structs''],
     md_references = [''MISRA C:2012 Rule 18.7''],
     md_plugin_module = ''misra_platform_rules.standards.misra_c_2012.rules.rule_pack_declarations'',
     md_plugin_version = ''0.1.0'',
     md_requires_ast_nodes = [''FieldDecl'', ''RecordDecl''],
     md_implementation_category = A_AST_ONLY,
     md_rule_pack = Some DECLARATIONS,
     md_requires_type_info = False,
     md_requires_cfg = False,
     md_requires_dataflow = False,
     md_requires_linkage = False,
     md_requires_macro_expansion = False,
     md_rule_dependencies = []\<rparr>"

definition rule_18_7_finding :: "string \<Rightarrow> string \<Rightarrow> finding" where
  "rule_18_7_finding field_name record_name = \<lparr>
     fd_explanation = sq @ field_name @ sq @ '' in '' @ sq @ ''struct '' @ record_name @ sq @ '' is a flexible array member.'',
     fd_risk_description = ''Flexible array members make an object'' @ sq @ ''s size implicit and easy to get wrong.'',
     fd_confidence_factors = factors 95 85 95 5 40,
     fd_confidence_score = dec2 90,
     fd_suggested_fix = Some \<lparr>sf_original_code = field_name @ ''[]'',
       sf_suggested_code = ''use a separately-allocated buffer with an explicit length field'',
       sf_rationale = ''Avoid flexible array members entirely.'',
       sf_confidence_score = dec2 40\<rparr>\<rparr>"

definition rule_18_7_findings :: "ast_graph \<Rightarrow> (ast_node \<times> finding) list" where
  "rule_18_7_findings g =
     report_where (\<lambda>n. sem_flag n ''is_flexible_array_member'')
       (\<lambda>n. rule_18_7_finding (sem_name n ''<field>'')
          (case g_get g (parent_id n) of None \<Rightarrow> ''<anonymous>'' | Some r \<Rightarrow> sem_name r ''<anonymous>''))
       (nodes_by_kind g ''FieldDecl'')"

definition rule_19_2_metadata :: rule_metadata where
  "rule_19_2_metadata = \<lparr>
     md_rule_id = ''misra-c2012-rule-19-2'',
     md_rule_number = ''19.2'',
     md_standard = MISRA_C_2012,
     md_category = ADVISORY,
     md_severity = MINOR,
     md_title = ''The union keyword should not be used'',
     md_description = ''A union type should not be declared.'',
     md_rationale = ''Unions permit reading an object through a member other than the one last written, an unsafe type-punning idiom.'',
     md_tags = [''declarations'', ''unions''],
     md_references = [''MISRA C:2012 Rule 19.2''],
     md_plugin_module = ''misra_platform_rules.standards.misra_c_2012.rules.rule_pack_declarations'',
     md_plugin_version = ''0.1.0'',
     md_requires_ast_nodes = [''RecordDecl''],
     md_implementation_category = A_AST_ONLY,
     md_rule_pack = Some DECLARATIONS,
     md_requires_type_info = False,
     md_requires_cfg = False,
     md_requires_dataflow = False,
     md_requires_linkage = False,
     md_requires_macro_expansion = False,
     md_rule_dependencies = []\<rparr>"

definition rule_19_2_finding :: "string \<Rightarrow> finding" where
  "rule_19_2_finding name = \<lparr>
     fd_explanation = sq @ ''union '' @ name @ sq @ '' is declared.'',
     fd_risk_description = ''Unions permit reading an object through a member other than the one last written, an unsafe type-punning idiom.'',
     fd_confidence_factors = factors 97 90 97 3 20,
     fd_confidence_score = dec2 90,
     fd_suggested_fix = Some \<lparr>sf_original_code = ''union '' @ name,
       sf_suggested_code = ''replace '' @ sq @ ''union '' @ name @ sq @ '' with a struct, or a documented toolchain-specific alternative'',
       sf_rationale = ''Avoid the union keyword entirely.'',
       sf_confidence_score = dec2 20\<rparr>\<rparr>"

definition rule_19_2_findings :: "ast_graph \<Rightarrow> (ast_node \<times> finding) list" where
  "rule_19_2_findings g =
     report_where (\<lambda>n. sem_str n ''record_kind'' = ''union'')
       (\<lambda>n. rule_19_2_finding (sem_name n ''<anonymous>'')) (nodes_by_kind g ''RecordDecl'')"

subsection \<open>Rules 8.3, 17.8 and 8.13\<close>

definition rule_8_3_metadata :: rule_metadata where
  "rule_8_3_metadata = \<lparr>
     md_rule_id = ''misra-c2012-rule-8-3'',
     md_rule_number = ''8.3'',
     md_standard = MISRA_C_2012,
     md_category = REQUIRED,
     md_severity = MAJOR,
     md_title = ''All declarations of an object or function shall use the same names and type qualifiers'',
     md_description = ''All declarations of an object or function shall use the same names and type qualifiers.'',
     md_rationale = ''Incompatible declarations of the same identifier cause undefined linker behaviour.'',
     md_tags = [''declarations'', ''linkage'', ''qualifiers''],
     md_references = [''MISRA C:2012 Rule 8.3''],
     md_plugin_module = ''misra_platform_rules.standards.misra_c_2012.rules.rule_pack_declarations'',
     md_plugin_version = ''0.1.0'',
     md_requires_ast_nodes = [''VarDecl'', ''FunctionDecl'', ''ParmVarDecl''],
     md_implementation_category = B_TYPE_SYSTEM,
     md_rule_pack = Some DECLARATIONS,
     md_requires_type_info = True,
     md_requires_cfg = False,
     md_requires_dataflow = False,
     md_requires_linkage = False,
     md_requires_macro_expansion = False,
     md_rule_dependencies = []\<rparr>"

definition rule_8_3_finding :: "string \<Rightarrow> ast_node \<Rightarrow> finding" where
  "rule_8_3_finding name n = \<lparr>
     fd_explanation = ''Declaration of '' @ sq @ name @ sq @ '' is incompatible with another declaration of the same identifier.'',
     fd_risk_description = ''Incompatible declarations violate the one-declaration rule.'',
     fd_confidence_factors = factors 90 85 90 10 40,
     fd_confidence_score = dec2 85,
     fd_suggested_fix = Some \<lparr>sf_original_code = offending_text n,
       sf_suggested_code = ''align all declarations of '' @ sq @ name @ sq @ '' to the same type and qualifiers'',
       sf_rationale = ''Every declaration of an identifier must be compatible.'',
       sf_confidence_score = dec2 40\<rparr>\<rparr>"

definition rule_8_3_findings :: "ast_graph \<Rightarrow> (ast_node \<times> finding) list" where
  "rule_8_3_findings g =
     map (\<lambda>(name, n). (n, rule_8_3_finding name n))
       (keep_first (node_id \<circ> snd) {}
         (concat (map (\<lambda>(name, decls). map (Pair name) (filter (\<lambda>n. sem_flag n ''declaration_incompatible'') decls))
           (incompatible_declaration_groups (symbol_index_of g)))))"

definition rule_17_8_metadata :: rule_metadata where
  "rule_17_8_metadata = \<lparr>
     md_rule_id = ''misra-c2012-rule-17-8'',
     md_rule_number = ''17.8'',
     md_standard = MISRA_C_2012,
     md_category = ADVISORY,
     md_severity = MINOR,
     md_title = ''A function parameter should not be modified'',
     md_description = ''A function parameter shall not be modified within the function body.'',
     md_rationale = ''Modifying a parameter obscures whether the caller'' @ sq @ ''s object is affected.'',
     md_tags = [''declarations'', ''dataflow'', ''parameters''],
     md_references = [''MISRA C:2012 Rule 17.8''],
     md_plugin_module = ''misra_platform_rules.standards.misra_c_2012.rules.rule_pack_declarations'',
     md_plugin_version = ''0.1.0'',
     md_requires_ast_nodes = [''FunctionDecl'', ''ParmVarDecl''],
     md_implementation_category = D_DATA_FLOW,
     md_rule_pack = Some DECLARATIONS,
     md_requires_type_info = False,
     md_requires_cfg = True,
     md_requires_dataflow = False,
     md_requires_linkage = False,
     md_requires_macro_expansion = False,
     md_rule_dependencies = []\<rparr>"

definition rule_17_8_finding :: "string \<Rightarrow> ast_node \<Rightarrow> finding" where
  "rule_17_8_finding param_name n = \<lparr>
     fd_explanation = ''Function parameter '' @ sq @ param_name @ sq @ '' is modified.'',
     fd_risk_description = ''Modifying a parameter can confuse callers about side effects.'',
     fd_confidence_factors = factors 85 80 85 15 45,
     fd_confidence_score = dec2 78,
     fd_suggested_fix = Some \<lparr>sf_original_code = offending_text n,
       sf_suggested_code = ''use a local copy instead of modifying '' @ sq @ param_name @ sq,
       sf_rationale = ''Copy the parameter to a local variable before mutation.'',
       sf_confidence_score = dec2 45\<rparr>\<rparr>"

definition rule_17_8_findings :: "nat \<Rightarrow> ast_graph \<Rightarrow> (ast_node \<times> finding) list option" where
  "rule_17_8_findings depth g =
     opt_concat_map (\<lambda>fn. if \<not> has_body g fn then Some []
       else do {
         c \<leftarrow> build_cfg depth g fn;
         pts \<leftarrow> analyze_aliases fn g;
         refs \<leftarrow> modified_parameters fn c g;
         Some (map (\<lambda>r. (r, rule_17_8_finding (sem_name r ''<param>'') r)) refs) })
      (nodes_by_kind g ''FunctionDecl'')"

definition rule_8_13_metadata :: rule_metadata where
  "rule_8_13_metadata = \<lparr>
     md_rule_id = ''misra-c2012-rule-8-13'',
     md_rule_number = ''8.13'',
     md_standard = MISRA_C_2012,
     md_category = ADVISORY,
     md_severity = MINOR,
     md_title = ''A pointer should point to a const-qualified type where possible'',
     md_description = ''A pointer parameter or variable should use const when the pointee is never modified.'',
     md_rationale = ''Const-qualified pointers document read-only intent and catch accidental writes.'',
     md_tags = [''declarations'', ''pointers'', ''const''],
     md_references = [''MISRA C:2012 Rule 8.13''],
     md_plugin_module = ''misra_platform_rules.standards.misra_c_2012.rules.rule_pack_declarations'',
     md_plugin_version = ''0.1.0'',
     md_requires_ast_nodes = [''VarDecl'', ''ParmVarDecl''],
     md_implementation_category = D_DATA_FLOW,
     md_rule_pack = Some DECLARATIONS,
     md_requires_type_info = False,
     md_requires_cfg = False,
     md_requires_dataflow = False,
     md_requires_linkage = False,
     md_requires_macro_expansion = False,
     md_rule_dependencies = []\<rparr>"

definition rule_8_13_finding :: "string \<Rightarrow> ast_node \<Rightarrow> finding" where
  "rule_8_13_finding name n = \<lparr>
     fd_explanation = ''Pointer '' @ sq @ name @ sq @ '' could be declared with a const-qualified pointee type.'',
     fd_risk_description = ''A non-const pointer invites accidental modification of read-only data.'',
     fd_confidence_factors = factors 80 75 85 20 55,
     fd_confidence_score = dec2 72,
     fd_suggested_fix = Some \<lparr>sf_original_code = offending_text n,
       sf_suggested_code = ''declare '' @ sq @ name @ sq @ '' as a pointer to const'',
       sf_rationale = ''Use const when the pointee is never modified through this pointer.'',
       sf_confidence_score = dec2 55\<rparr>\<rparr>"

definition rule_8_13_findings :: "ast_graph \<Rightarrow> (ast_node \<times> finding) list" where
  "rule_8_13_findings g =
     report_where (\<lambda>n. ty_flag n ''is_pointer'' \<and> \<not> has_qualifier n ''const'' \<and> sem_flag n ''pointer_should_be_const'')
       (\<lambda>n. rule_8_13_finding (sem_name n ''<pointer>'') n) (nodes_by_kinds g [''VarDecl'', ''ParmVarDecl''])"

subsection \<open>Rules 8.11 and 8.12\<close>

definition rule_8_11_metadata :: rule_metadata where
  "rule_8_11_metadata = \<lparr>
     md_rule_id = ''misra-c2012-rule-8-11'',
     md_rule_number = ''8.11'',
     md_standard = MISRA_C_2012,
     md_category = ADVISORY,
     md_severity = MINOR,
     md_title = ''An array with external linkage should be declared with an explicit size'',
     md_description = ''An array with external linkage should declare its size explicitly.'',
     md_rationale = ''Unsized extern arrays make bounds reasoning impossible at link time.'',
     md_tags = [''declarations'', ''arrays'', ''linkage''],
     md_references = [''MISRA C:2012 Rule 8.11''],
     md_plugin_module = ''misra_platform_rules.standards.misra_c_2012.rules.rule_pack_declarations'',
     md_plugin_version = ''0.1.0'',
     md_requires_ast_nodes = [''VarDecl''],
     md_implementation_category = B_TYPE_SYSTEM,
     md_rule_pack = Some DECLARATIONS,
     md_requires_type_info = True,
     md_requires_cfg = False,
     md_requires_dataflow = False,
     md_requires_linkage = False,
     md_requires_macro_expansion = False,
     md_rule_dependencies = []\<rparr>"

definition rule_8_11_finding :: "string \<Rightarrow> ast_node \<Rightarrow> finding" where
  "rule_8_11_finding name n = \<lparr>
     fd_explanation = ''Externally-linked array '' @ sq @ name @ sq @ '' lacks an explicit size.'',
     fd_risk_description = ''Unsized extern arrays hide the intended bound from other translation units.'',
     fd_confidence_factors = factors 90 85 90 10 50,
     fd_confidence_score = dec2 85,
     fd_suggested_fix = Some \<lparr>sf_original_code = offending_text n,
       sf_suggested_code = ''give extern array '' @ sq @ name @ sq @ '' an explicit bound'',
       sf_rationale = ''Declare the array size at its external definition/declaration.'',
       sf_confidence_score = dec2 50\<rparr>\<rparr>"

definition rule_8_11_findings :: "ast_graph \<Rightarrow> (ast_node \<times> finding) list" where
  "rule_8_11_findings g =
     report_where (\<lambda>n. sem_str n ''linkage'' = ''external'' \<and> ty_flag n ''is_array'' \<and> sem_meta_true n ''missing_array_size'')
       (\<lambda>n. rule_8_11_finding (sem_name n ''<array>'') n) (nodes_by_kind g ''VarDecl'')"

definition rule_8_12_metadata :: rule_metadata where
  "rule_8_12_metadata = \<lparr>
     md_rule_id = ''misra-c2012-rule-8-12'',
     md_rule_number = ''8.12'',
     md_standard = MISRA_C_2012,
     md_category = REQUIRED,
     md_severity = MAJOR,
     md_title = ''Within an enumerator list the value of an implicit enumerator shall be unique'',
     md_description = ''Implicit enumerator values shall not collide within the same enum.'',
     md_rationale = ''Duplicate implicit enumerator values are almost always a maintenance mistake.'',
     md_tags = [''declarations'', ''enumerations''],
     md_references = [''MISRA C:2012 Rule 8.12''],
     md_plugin_module = ''misra_platform_rules.standards.misra_c_2012.rules.rule_pack_declarations'',
     md_plugin_version = ''0.1.0'',
     md_requires_ast_nodes = [''EnumConstantDecl''],
     md_implementation_category = B_TYPE_SYSTEM,
     md_rule_pack = Some DECLARATIONS,
     md_requires_type_info = False,
     md_requires_cfg = False,
     md_requires_dataflow = False,
     md_requires_linkage = False,
     md_requires_macro_expansion = False,
     md_rule_dependencies = []\<rparr>"

definition rule_8_12_finding :: "string \<Rightarrow> finding" where
  "rule_8_12_finding name = \<lparr>
     fd_explanation = ''Implicit enumerator '' @ sq @ name @ sq @ '' duplicates another implicit value in the same enum.'',
     fd_risk_description = ''Duplicate implicit enumerator values are confusing and often unintended.'',
     fd_confidence_factors = factors 90 85 90 10 45,
     fd_confidence_score = dec2 85,
     fd_suggested_fix = Some \<lparr>sf_original_code = name,
       sf_suggested_code = ''assign '' @ sq @ name @ sq @ '' an explicit unique enumerator value'',
       sf_rationale = ''Give every enumerator an explicit, unique value.'',
       sf_confidence_score = dec2 45\<rparr>\<rparr>"

text \<open>
  The state of the second loop: the ids reported, the first implicit enumerator of each value in
  each enum, and the nodes reported so far.
\<close>

type_synonym enum_state = "string set \<times> ((string \<times> int), ast_node) dict \<times> ast_node list"

definition report_enumerator :: "ast_node \<Rightarrow> enum_state \<Rightarrow> enum_state" where
  "report_enumerator n = (\<lambda>(reported, firsts, found).
     if node_id n \<in> reported then (reported, firsts, found)
     else (insert (node_id n) reported, firsts, found @ [n]))"

definition enumerator_value :: "ast_node \<Rightarrow> int option" where
  "enumerator_value n = (case map_of (semantic_properties n) ''enumerator_value'' of
      None \<Rightarrow> Some (- 1) | Some v \<Rightarrow> py_int v)"

definition enumerator_step :: "ast_node \<Rightarrow> enum_state \<Rightarrow> enum_state" where
  "enumerator_step n = (\<lambda>(reported, firsts, found).
     if node_id n \<in> reported \<or> \<not> sem_meta_true n ''is_implicit_enumerator'' then (reported, firsts, found)
     else case enumerator_value n of
         None \<Rightarrow> (reported, firsts, found)
       | Some v \<Rightarrow>
           (case map_of firsts (parent_id n, v) of
              None \<Rightarrow> (reported, dict_set (parent_id n, v) n firsts, found)
            | Some m \<Rightarrow> report_enumerator n (report_enumerator m (reported, firsts, found))))"

definition duplicate_enumerators :: "ast_graph \<Rightarrow> ast_node list" where
  "duplicate_enumerators g =
     (let enums = nodes_by_kind g ''EnumConstantDecl'';
          marked = filter (\<lambda>n. sem_meta_true n ''duplicate_implicit_enumerator'') enums;
          s = fold report_enumerator marked ({}, [], [])
      in snd (snd (fold enumerator_step enums s)))"

definition rule_8_12_findings :: "ast_graph \<Rightarrow> (ast_node \<times> finding) list" where
  "rule_8_12_findings g =
     map (\<lambda>n. (n, rule_8_12_finding (sem_name n ''<enumerator>''))) (duplicate_enumerators g)"

subsection \<open>Rules 17.5 and 18.8\<close>

definition rule_17_5_metadata :: rule_metadata where
  "rule_17_5_metadata = \<lparr>
     md_rule_id = ''misra-c2012-rule-17-5'',
     md_rule_number = ''17.5'',
     md_standard = MISRA_C_2012,
     md_category = ADVISORY,
     md_severity = MINOR,
     md_title = ''The function argument corresponding to an array parameter shall have an appropriate type'',
     md_description = ''A call argument passed to an array parameter should match the declared array shape.'',
     md_rationale = ''Array parameter decay makes mismatched argument shapes easy to miss.'',
     md_tags = [''declarations'', ''functions'', ''arrays''],
     md_references = [''MISRA C:2012 Rule 17.5''],
     md_plugin_module = ''misra_platform_rules.standards.misra_c_2012.rules.rule_pack_declarations'',
     md_plugin_version = ''0.1.0'',
     md_requires_ast_nodes = [''CallExpr''],
     md_implementation_category = B_TYPE_SYSTEM,
     md_rule_pack = Some DECLARATIONS,
     md_requires_type_info = True,
     md_requires_cfg = False,
     md_requires_dataflow = False,
     md_requires_linkage = False,
     md_requires_macro_expansion = False,
     md_rule_dependencies = []\<rparr>"

definition rule_17_5_finding :: "string \<Rightarrow> ast_node \<Rightarrow> finding" where
  "rule_17_5_finding called n = \<lparr>
     fd_explanation = ''Call to '' @ sq @ called @ sq @ '' passes an argument whose shape does not match the array parameter.'',
     fd_risk_description = ''Mismatched array argument shapes can hide size/bounds errors.'',
     fd_confidence_factors = factors 85 80 85 20 40,
     fd_confidence_score = dec2 78,
     fd_suggested_fix = Some \<lparr>sf_original_code = offending_text n,
       sf_suggested_code = ''pass an argument matching the declared array parameter type'',
       sf_rationale = ''Align call-site argument types with the prototype array parameter.'',
       sf_confidence_score = dec2 40\<rparr>\<rparr>"

definition rule_17_5_findings :: "ast_graph \<Rightarrow> (ast_node \<times> finding) list" where
  "rule_17_5_findings g =
     report_where (\<lambda>n. sem_meta_true n ''call_argument_shape_mismatch'') (\<lambda>n. rule_17_5_finding (callee_text n) n)
       (nodes_by_kind g ''CallExpr'')"

definition rule_18_8_metadata :: rule_metadata where
  "rule_18_8_metadata = \<lparr>
     md_rule_id = ''misra-c2012-rule-18-8'',
     md_rule_number = ''18.8'',
     md_standard = MISRA_C_2012,
     md_category = REQUIRED,
     md_severity = MAJOR,
     md_title = ''Variable-length array types shall not be used'',
     md_description = ''A variable-length array type shall not be declared.'',
     md_rationale = ''VLAs have undefined behaviour on overflow and complicate stack analysis.'',
     md_tags = [''declarations'', ''arrays''],
     md_references = [''MISRA C:2012 Rule 18.8''],
     md_plugin_module = ''misra_platform_rules.standards.misra_c_2012.rules.rule_pack_declarations'',
     md_plugin_version = ''0.1.0'',
     md_requires_ast_nodes = [''VarDecl''],
     md_implementation_category = B_TYPE_SYSTEM,
     md_rule_pack = Some DECLARATIONS,
     md_requires_type_info = True,
     md_requires_cfg = False,
     md_requires_dataflow = False,
     md_requires_linkage = False,
     md_requires_macro_expansion = False,
     md_rule_dependencies = []\<rparr>"

definition rule_18_8_finding :: "string \<Rightarrow> ast_node \<Rightarrow> finding" where
  "rule_18_8_finding name n = \<lparr>
     fd_explanation = sq @ name @ sq @ '' is declared as a variable-length array.'',
     fd_risk_description = ''VLAs are not permitted in this safety profile.'',
     fd_confidence_factors = factors 97 92 95 3 50,
     fd_confidence_score = dec2 92,
     fd_suggested_fix = Some \<lparr>sf_original_code = offending_text n,
       sf_suggested_code = ''use a fixed-size array or separately allocated buffer'',
       sf_rationale = ''Avoid variable-length array types entirely.'',
       sf_confidence_score = dec2 50\<rparr>\<rparr>"

definition rule_18_8_findings :: "ast_graph \<Rightarrow> (ast_node \<times> finding) list" where
  "rule_18_8_findings g =
     report_where (\<lambda>n. ty_flag n ''is_variable_length_array'') (\<lambda>n. rule_18_8_finding (sem_name n ''<array>'') n)
       (nodes_by_kind g ''VarDecl'')"

subsection \<open>The pack\<close>

definition declarations_pack :: "rule_plugin list" where
  "declarations_pack =
     [scan_rule rule_8_2_metadata (\<lambda>ctx. rule_8_2_findings),
      scan_rule rule_8_6_metadata (\<lambda>ctx. rule_8_6_findings (rc_cross_tu_linkage ctx)),
      scan_rule rule_8_14_metadata (\<lambda>ctx. rule_8_14_findings),
      scan_rule rule_5_2_metadata (\<lambda>ctx. rule_5_2_findings),
      loop_rule rule_5_3_metadata (\<lambda>d ctx. rule_5_3_findings),
      scan_rule rule_2_7_metadata (\<lambda>ctx. rule_2_7_findings),
      scan_rule rule_2_3_metadata (\<lambda>ctx. rule_2_3_findings),
      scan_rule rule_2_4_metadata (\<lambda>ctx. rule_2_4_findings),
      scan_rule rule_5_5_metadata (\<lambda>ctx. rule_5_5_findings (rc_macro_table ctx)),
      scan_rule rule_5_6_metadata (\<lambda>ctx. rule_5_6_findings),
      scan_rule rule_5_7_metadata (\<lambda>ctx. rule_5_7_findings),
      scan_rule rule_8_1_metadata (\<lambda>ctx. rule_8_1_findings),
      scan_rule rule_17_3_metadata (\<lambda>ctx. rule_17_3_findings),
      scan_rule rule_17_6_metadata (\<lambda>ctx. rule_17_6_findings),
      scan_rule rule_18_7_metadata (\<lambda>ctx. rule_18_7_findings),
      scan_rule rule_19_2_metadata (\<lambda>ctx. rule_19_2_findings),
      scan_rule rule_8_3_metadata (\<lambda>ctx. rule_8_3_findings),
      loop_rule rule_17_8_metadata (\<lambda>d ctx. rule_17_8_findings d),
      scan_rule rule_8_13_metadata (\<lambda>ctx. rule_8_13_findings),
      scan_rule rule_8_11_metadata (\<lambda>ctx. rule_8_11_findings),
      scan_rule rule_8_12_metadata (\<lambda>ctx. rule_8_12_findings),
      scan_rule rule_17_5_metadata (\<lambda>ctx. rule_17_5_findings),
      scan_rule rule_18_8_metadata (\<lambda>ctx. rule_18_8_findings)]"

end
