(* ===== verification/Pack_Linkage.thy ===== *)
theory Pack_Linkage
  imports Rule_Base Call_Cycles
begin

text \<open>
  The linkage pack (\<open>rule_pack_linkage.py\<close>) and Rule 8.4 (\<open>rule_8_4.py\<close>): the rules that read
  the symbols of all translation units.  The shape is that of Pack\_Control.
\<close>

subsection \<open>Local declarations\<close>

text \<open>The first function or variable of this translation unit with one of the names.\<close>

definition local_declaration :: "ast_graph \<Rightarrow> (ast_node \<Rightarrow> bool) \<Rightarrow> string list \<Rightarrow> ast_node option" where
  "local_declaration g sel names =
     find (\<lambda>n. node_kind n \<in> {''FunctionDecl'', ''VarDecl''}
        \<and> prop_get (semantic_properties n) ''name'' \<in> PStr ` set names \<and> sel n) (all_nodes g)"

text \<open>A loop over the external names that reports the local declaration of a name.\<close>

definition report_names ::
    "ast_graph \<Rightarrow> (ast_node \<Rightarrow> bool) \<Rightarrow> (string \<Rightarrow> bool) \<Rightarrow> (string \<Rightarrow> finding) \<Rightarrow> linkage_data
      \<Rightarrow> (ast_node \<times> finding) list" where
  "report_names g sel test f d =
     (if ld_symbols d = [] then []
      else List.map_filter (\<lambda>name. if test name
             then map_option (\<lambda>n. (n, f name)) (local_declaration g sel [name]) else None)
           (linkage_names d))"


subsection \<open>Rules 5.1, 5.8 and 5.9: unique identifiers\<close>

definition significant_chars :: nat where
  "significant_chars = 31"

definition rule_5_1_metadata :: rule_metadata where
  "rule_5_1_metadata = \<lparr>
     md_rule_id = ''misra-c2012-rule-5-1'',
     md_rule_number = ''5.1'',
     md_standard = MISRA_C_2012,
     md_category = REQUIRED,
     md_severity = MAJOR,
     md_title = ''External identifiers shall be distinct'',
     md_description = ''External identifiers shall be distinct within the first 31 significant characters, across the whole program.'',
     md_rationale = ''Some toolchains truncate long external names, silently merging distinct symbols.'',
     md_tags = [''linkage'', ''identifiers'', ''cross-tu''],
     md_references = [''MISRA C:2012 Rule 5.1''],
     md_plugin_module = ''misra_platform_rules.standards.misra_c_2012.rules.rule_pack_linkage'',
     md_plugin_version = ''0.1.0'',
     md_requires_ast_nodes = [''FunctionDecl'', ''VarDecl''],
     md_implementation_category = E_CROSS_TRANSLATION_UNIT,
     md_rule_pack = Some LINKAGE,
     md_requires_type_info = False,
     md_requires_cfg = False,
     md_requires_dataflow = False,
     md_requires_linkage = True,
     md_requires_macro_expansion = False,
     md_rule_dependencies = []\<rparr>"

definition rule_5_1_finding :: "string \<Rightarrow> string \<Rightarrow> string \<Rightarrow> finding" where
  "rule_5_1_finding first second chars = \<lparr>
     fd_explanation = ''External identifiers '' @ sq @ first @ sq @ '' and '' @ sq @ second @ sq @ '' collide within the first '' @ chars @ '' characters.'',
     fd_risk_description = ''Truncating toolchains may link the wrong symbol without warning.'',
     fd_confidence_factors = factors 85 70 90 15 40,
     fd_confidence_score = dec2 78,
     fd_suggested_fix = Some \<lparr>sf_original_code = first @ '' / '' @ second,
       sf_suggested_code = ''rename one identifier so both are distinct within significant length'',
       sf_rationale = ''Avoid relying on toolchain-specific significant-character limits.'',
       sf_confidence_score = dec2 40\<rparr>\<rparr>"

definition rule_5_1_findings :: "linkage_data \<Rightarrow> ast_graph \<Rightarrow> (ast_node \<times> finding) list" where
  "rule_5_1_findings d g =
     (if ld_symbols d = [] then []
      else map (\<lambda>(a, b, n). (n, rule_5_1_finding a b (nat_str significant_chars)))
        (keep_first (\<lambda>(a, b, n). {a, b}) {}
          (List.map_filter (\<lambda>(a, b). map_option (\<lambda>n. (a, b, n)) (local_declaration g (\<lambda>n. True) [a, b]))
            (linkage_duplicate_names d significant_chars))))"

definition rule_5_8_metadata :: rule_metadata where
  "rule_5_8_metadata = \<lparr>
     md_rule_id = ''misra-c2012-rule-5-8'',
     md_rule_number = ''5.8'',
     md_standard = MISRA_C_2012,
     md_category = REQUIRED,
     md_severity = MAJOR,
     md_title = ''Identifiers that define objects/functions with external linkage shall be unique'',
     md_description = ''Two distinct external-linkage entities shall not share the exact same identifier.'',
     md_rationale = ''Reusing an external name for two distinct entities is a one-definition-rule risk.'',
     md_tags = [''linkage'', ''identifiers'', ''cross-tu''],
     md_references = [''MISRA C:2012 Rule 5.8''],
     md_plugin_module = ''misra_platform_rules.standards.misra_c_2012.rules.rule_pack_linkage'',
     md_plugin_version = ''0.1.0'',
     md_requires_ast_nodes = [''FunctionDecl'', ''VarDecl''],
     md_implementation_category = E_CROSS_TRANSLATION_UNIT,
     md_rule_pack = Some LINKAGE,
     md_requires_type_info = False,
     md_requires_cfg = False,
     md_requires_dataflow = False,
     md_requires_linkage = True,
     md_requires_macro_expansion = False,
     md_rule_dependencies = []\<rparr>"

definition rule_5_8_finding :: "string \<Rightarrow> finding" where
  "rule_5_8_finding name = \<lparr>
     fd_explanation = ''External identifier '' @ sq @ name @ sq @ '' defines more than one distinct entity across the project.'',
     fd_risk_description = ''Sharing an external name across unrelated definitions risks a one-definition-rule violation.'',
     fd_confidence_factors = factors 88 75 90 15 30,
     fd_confidence_score = dec2 80,
     fd_suggested_fix = None\<rparr>"

definition rule_5_8_findings :: "linkage_data \<Rightarrow> ast_graph \<Rightarrow> (ast_node \<times> finding) list" where
  "rule_5_8_findings d g =
     report_names g (\<lambda>n. True) (has_multiple_definitions d) rule_5_8_finding d"

definition rule_5_9_metadata :: rule_metadata where
  "rule_5_9_metadata = \<lparr>
     md_rule_id = ''misra-c2012-rule-5-9'',
     md_rule_number = ''5.9'',
     md_standard = MISRA_C_2012,
     md_category = ADVISORY,
     md_severity = MINOR,
     md_title = ''Identifiers that define objects/functions with internal linkage should be unique'',
     md_description = ''A static (internal-linkage) identifier should not reuse a name used elsewhere in the project.'',
     md_rationale = ''Reusing a static identifier'' @ sq @ ''s name across files is confusing during whole-program review.'',
     md_tags = [''linkage'', ''identifiers'', ''cross-tu''],
     md_references = [''MISRA C:2012 Rule 5.9''],
     md_plugin_module = ''misra_platform_rules.standards.misra_c_2012.rules.rule_pack_linkage'',
     md_plugin_version = ''0.1.0'',
     md_requires_ast_nodes = [''FunctionDecl'', ''VarDecl''],
     md_implementation_category = E_CROSS_TRANSLATION_UNIT,
     md_rule_pack = Some LINKAGE,
     md_requires_type_info = False,
     md_requires_cfg = False,
     md_requires_dataflow = False,
     md_requires_linkage = True,
     md_requires_macro_expansion = False,
     md_rule_dependencies = []\<rparr>"

definition rule_5_9_finding :: "string \<Rightarrow> string \<Rightarrow> finding" where
  "rule_5_9_finding name number = \<lparr>
     fd_explanation = ''Internal-linkage identifier '' @ sq @ name @ sq @ '' is reused in '' @ number @ '' files.'',
     fd_risk_description = ''Reusing a static identifier'' @ sq @ ''s name across files hinders whole-program review.'',
     fd_confidence_factors = factors 75 70 85 25 35,
     fd_confidence_score = dec2 65,
     fd_suggested_fix = Some \<lparr>sf_original_code = name,
       sf_suggested_code = ''give each file'' @ sq @ ''s static '' @ sq @ name @ sq @ '' a distinct, more specific name'',
       sf_rationale = ''Avoid reusing a static identifier'' @ sq @ ''s spelling across unrelated files.'',
       sf_confidence_score = dec2 35\<rparr>\<rparr>"

definition rule_5_9_findings :: "rule_context \<Rightarrow> ast_graph \<Rightarrow> (ast_node \<times> finding) list" where
  "rule_5_9_findings ctx g =
     (let d = rc_cross_tu_linkage ctx; tus = internal_linkage_translation_units d in
      report_names g (\<lambda>n. prop_get (semantic_properties n) ''storage_class'' = PStr ''static'')
        (\<lambda>name. length (tus name) > 1 \<and> rc_translation_unit_id ctx \<in> set (tus name))
        (\<lambda>name. rule_5_9_finding name (nat_str (length (tus name)))) d)"

subsection \<open>Rules 8.5, 8.7, 8.8 and 8.10: declarations with linkage\<close>

definition rule_8_5_metadata :: rule_metadata where
  "rule_8_5_metadata = \<lparr>
     md_rule_id = ''misra-c2012-rule-8-5'',
     md_rule_number = ''8.5'',
     md_standard = MISRA_C_2012,
     md_category = REQUIRED,
     md_severity = MAJOR,
     md_title = ''An external object or function shall be declared once in one and only one file'',
     md_description = ''A non-defining declaration of an external object/function shall not be re-typed in more than one file.'',
     md_rationale = ''Repeating a prototype in several files instead of a shared header risks silent drift.'',
     md_tags = [''linkage'', ''declarations'', ''cross-tu''],
     md_references = [''MISRA C:2012 Rule 8.5''],
     md_plugin_module = ''misra_platform_rules.standards.misra_c_2012.rules.rule_pack_linkage'',
     md_plugin_version = ''0.1.0'',
     md_requires_ast_nodes = [''FunctionDecl'', ''VarDecl''],
     md_implementation_category = E_CROSS_TRANSLATION_UNIT,
     md_rule_pack = Some LINKAGE,
     md_requires_type_info = False,
     md_requires_cfg = False,
     md_requires_dataflow = False,
     md_requires_linkage = True,
     md_requires_macro_expansion = False,
     md_rule_dependencies = []\<rparr>"

definition rule_8_5_finding :: "string \<Rightarrow> string \<Rightarrow> finding" where
  "rule_8_5_finding name number = \<lparr>
     fd_explanation = sq @ name @ sq @ '' has a non-defining declaration repeated in '' @ number @ '' different files instead of one shared header.'',
     fd_risk_description = ''Duplicated hand-written prototypes can silently drift out of sync.'',
     fd_confidence_factors = factors 75 70 75 30 50,
     fd_confidence_score = dec2 65,
     fd_suggested_fix = Some \<lparr>sf_original_code = ''declaration of '' @ name,
       sf_suggested_code = ''declare '' @ sq @ name @ sq @ '' once in a shared header and #include it everywhere'',
       sf_rationale = ''Centralize the declaration instead of repeating it per file.'',
       sf_confidence_score = dec2 50\<rparr>\<rparr>"

definition rule_8_5_findings :: "rule_context \<Rightarrow> ast_graph \<Rightarrow> (ast_node \<times> finding) list" where
  "rule_8_5_findings ctx g =
     (let d = rc_cross_tu_linkage ctx; tus = non_defining_external_translation_units d in
      report_names g (\<lambda>n. True)
        (\<lambda>name. length (tus name) > 1 \<and> rc_translation_unit_id ctx \<in> set (tus name))
        (\<lambda>name. rule_8_5_finding name (nat_str (length (tus name)))) d)"

definition rule_8_7_metadata :: rule_metadata where
  "rule_8_7_metadata = \<lparr>
     md_rule_id = ''misra-c2012-rule-8-7'',
     md_rule_number = ''8.7'',
     md_standard = MISRA_C_2012,
     md_category = ADVISORY,
     md_severity = MINOR,
     md_title = ''Functions/objects used in only one translation unit should have internal linkage'',
     md_description = ''An externally-linked symbol referenced from a single translation unit should be static.'',
     md_rationale = ''Unnecessary external linkage widens a symbol'' @ sq @ ''s visibility across the whole program.'',
     md_tags = [''linkage'', ''cross-tu''],
     md_references = [''MISRA C:2012 Rule 8.7''],
     md_plugin_module = ''misra_platform_rules.standards.misra_c_2012.rules.rule_pack_linkage'',
     md_plugin_version = ''0.1.0'',
     md_requires_ast_nodes = [''FunctionDecl'', ''VarDecl''],
     md_implementation_category = E_CROSS_TRANSLATION_UNIT,
     md_rule_pack = Some LINKAGE,
     md_requires_type_info = False,
     md_requires_cfg = False,
     md_requires_dataflow = False,
     md_requires_linkage = True,
     md_requires_macro_expansion = False,
     md_rule_dependencies = []\<rparr>"

definition rule_8_7_finding :: "string \<Rightarrow> finding" where
  "rule_8_7_finding name = \<lparr>
     fd_explanation = sq @ name @ sq @ '' has external linkage but is only used in this translation unit.'',
     fd_risk_description = ''Needless external linkage increases the whole-program symbol surface.'',
     fd_confidence_factors = factors 75 70 85 25 55,
     fd_confidence_score = dec2 68,
     fd_suggested_fix = Some \<lparr>sf_original_code = name,
       sf_suggested_code = ''static '' @ name,
       sf_rationale = ''Give the symbol internal linkage since no other TU references it.'',
       sf_confidence_score = dec2 55\<rparr>\<rparr>"

definition linkage_class :: "ast_node \<Rightarrow> string" where
  "linkage_class n = prop_str (semantic_properties n) ''storage_class'' ''external''"

definition rule_8_7_findings :: "rule_context \<Rightarrow> ast_graph \<Rightarrow> (ast_node \<times> finding) list" where
  "rule_8_7_findings ctx g =
     (let d = rc_cross_tu_linkage ctx in
      if ld_symbols d = [] then []
      else report_where (\<lambda>n. is_file_scope g (node_id n) \<and> decl_name n \<noteq> [] \<and> linkage_class n \<noteq> ''static''
             \<and> single_translation_unit d (decl_name n) = Some (rc_translation_unit_id ctx))
           (\<lambda>n. rule_8_7_finding (decl_name n)) (nodes_by_kinds g [''FunctionDecl'', ''VarDecl'']))"

definition rule_8_8_metadata :: rule_metadata where
  "rule_8_8_metadata = \<lparr>
     md_rule_id = ''misra-c2012-rule-8-8'',
     md_rule_number = ''8.8'',
     md_standard = MISRA_C_2012,
     md_category = REQUIRED,
     md_severity = MAJOR,
     md_title = ''The static storage class specifier shall be used consistently'',
     md_description = ''Every declaration of an internal-linkage identifier shall repeat the static specifier.'',
     md_rationale = ''Omitting static on a later declaration of an already-internal-linkage identifier is confusing.'',
     md_tags = [''linkage'', ''declarations''],
     md_references = [''MISRA C:2012 Rule 8.8''],
     md_plugin_module = ''misra_platform_rules.standards.misra_c_2012.rules.rule_pack_linkage'',
     md_plugin_version = ''0.1.0'',
     md_requires_ast_nodes = [''FunctionDecl'', ''VarDecl''],
     md_implementation_category = A_AST_ONLY,
     md_rule_pack = Some LINKAGE,
     md_requires_type_info = False,
     md_requires_cfg = False,
     md_requires_dataflow = False,
     md_requires_linkage = False,
     md_requires_macro_expansion = False,
     md_rule_dependencies = []\<rparr>"

definition rule_8_8_finding :: "string \<Rightarrow> finding" where
  "rule_8_8_finding name = \<lparr>
     fd_explanation = sq @ name @ sq @ '' is declared '' @ sq @ ''static'' @ sq @ '' elsewhere but not consistently on every declaration.'',
     fd_risk_description = ''An inconsistent static specifier obscures the identifier'' @ sq @ ''s true (internal) linkage.'',
     fd_confidence_factors = factors 85 80 85 15 60,
     fd_confidence_score = dec2 78,
     fd_suggested_fix = Some \<lparr>sf_original_code = name,
       sf_suggested_code = ''static '' @ name,
       sf_rationale = ''Repeat '' @ sq @ ''static'' @ sq @ '' on every declaration of an internal-linkage identifier.'',
       sf_confidence_score = dec2 60\<rparr>\<rparr>"

text \<open>The first declaration that is not static, when the storage classes differ.\<close>

definition inconsistent_declaration :: "ast_node list \<Rightarrow> ast_node option" where
  "inconsistent_declaration decls =
     (if length decls < 2 then None
      else if ''static'' \<notin> storage_class ` set decls \<or> card (storage_class ` set decls) \<le> 1 then None
      else find (\<lambda>d. storage_class d \<noteq> ''static'') decls)"

definition rule_8_8_findings :: "ast_graph \<Rightarrow> (ast_node \<times> finding) list" where
  "rule_8_8_findings g =
     (let idx = symbol_index_of g in
      List.map_filter (\<lambda>name. map_option (\<lambda>d. (d, rule_8_8_finding name))
          (inconsistent_declaration
            (filter (\<lambda>d. node_kind d \<in> {''FunctionDecl'', ''VarDecl''}) (declarations idx name))))
        (symbol_names idx))"

definition rule_8_10_metadata :: rule_metadata where
  "rule_8_10_metadata = \<lparr>
     md_rule_id = ''misra-c2012-rule-8-10'',
     md_rule_number = ''8.10'',
     md_standard = MISRA_C_2012,
     md_category = REQUIRED,
     md_severity = MAJOR,
     md_title = ''An inline function shall be declared with internal linkage'',
     md_description = ''A function declared inline shall also be declared static.'',
     md_rationale = ''An external-linkage inline function can be inconsistently inlined/defined across TUs.'',
     md_tags = [''linkage'', ''functions''],
     md_references = [''MISRA C:2012 Rule 8.10''],
     md_plugin_module = ''misra_platform_rules.standards.misra_c_2012.rules.rule_pack_linkage'',
     md_plugin_version = ''0.1.0'',
     md_requires_ast_nodes = [''FunctionDecl''],
     md_implementation_category = A_AST_ONLY,
     md_rule_pack = Some LINKAGE,
     md_requires_type_info = False,
     md_requires_cfg = False,
     md_requires_dataflow = False,
     md_requires_linkage = False,
     md_requires_macro_expansion = False,
     md_rule_dependencies = []\<rparr>"

definition rule_8_10_finding :: "string \<Rightarrow> finding" where
  "rule_8_10_finding name = \<lparr>
     fd_explanation = ''Inline function '' @ sq @ name @ sq @ '' does not have internal (static) linkage.'',
     fd_risk_description = ''Inconsistent inline definitions across TUs are undefined behaviour.'',
     fd_confidence_factors = factors 90 85 90 10 75,
     fd_confidence_score = dec2 85,
     fd_suggested_fix = Some \<lparr>sf_original_code = ''inline '' @ name,
       sf_suggested_code = ''static inline '' @ name,
       sf_rationale = ''Add the static keyword to inline function declarations.'',
       sf_confidence_score = dec2 75\<rparr>\<rparr>"

definition rule_8_10_findings :: "ast_graph \<Rightarrow> (ast_node \<times> finding) list" where
  "rule_8_10_findings g =
     report_where (\<lambda>n. sem_flag n ''is_inline'' \<and> linkage_class n \<noteq> ''static'')
       (\<lambda>n. rule_8_10_finding (sem_name n ''<anonymous>'')) (nodes_by_kind g ''FunctionDecl'')"

subsection \<open>Rule 17.2: recursion\<close>

definition rule_17_2_metadata :: rule_metadata where
  "rule_17_2_metadata = \<lparr>
     md_rule_id = ''misra-c2012-rule-17-2'',
     md_rule_number = ''17.2'',
     md_standard = MISRA_C_2012,
     md_category = REQUIRED,
     md_severity = MAJOR,
     md_title = ''Functions shall not call themselves, directly or indirectly'',
     md_description = ''Recursion (direct or indirect) shall not be used.'',
     md_rationale = ''Recursion makes stack-depth analysis and worst-case timing unpredictable.'',
     md_tags = [''linkage'', ''functions'', ''recursion'', ''cross-tu''],
     md_references = [''MISRA C:2012 Rule 17.2''],
     md_plugin_module = ''misra_platform_rules.standards.misra_c_2012.rules.rule_pack_linkage'',
     md_plugin_version = ''0.1.0'',
     md_requires_ast_nodes = [''FunctionDecl''],
     md_implementation_category = E_CROSS_TRANSLATION_UNIT,
     md_rule_pack = Some LINKAGE,
     md_requires_type_info = False,
     md_requires_cfg = False,
     md_requires_dataflow = False,
     md_requires_linkage = True,
     md_requires_macro_expansion = False,
     md_rule_dependencies = []\<rparr>"

definition rule_17_2_finding :: "string \<Rightarrow> finding" where
  "rule_17_2_finding name = \<lparr>
     fd_explanation = ''Function '' @ sq @ name @ sq @ '' participates in a recursion cycle.'',
     fd_risk_description = ''Recursion makes stack-depth and timing analysis unpredictable.'',
     fd_confidence_factors = factors 85 75 85 10 25,
     fd_confidence_score = dec2 80,
     fd_suggested_fix = Some \<lparr>sf_original_code = name,
       sf_suggested_code = ''replace recursive '' @ sq @ name @ sq @ '' with an iterative implementation'',
       sf_rationale = ''Eliminate direct and indirect recursion.'',
       sf_confidence_score = dec2 25\<rparr>\<rparr>"

definition rule_17_2_findings :: "nat \<Rightarrow> linkage_data \<Rightarrow> ast_graph \<Rightarrow> (ast_node \<times> finding) list option" where
  "rule_17_2_findings depth d g = do {
     in_cycles \<leftarrow> functions_in_recursion_cycles depth (ld_call_graph d);
     Some (if in_cycles = [] then []
           else report_where (\<lambda>n. decl_name n \<noteq> [] \<and> decl_name n \<in> set in_cycles)
                  (\<lambda>n. rule_17_2_finding (decl_name n)) (nodes_by_kind g ''FunctionDecl'')) }"


subsection \<open>Rule 8.4: a visible prior declaration\<close>

definition rule_8_4_metadata :: rule_metadata where
  "rule_8_4_metadata = \<lparr>
     md_rule_id = ''misra-c2012-rule-8-4'',
     md_rule_number = ''8.4'',
     md_standard = MISRA_C_2012,
     md_category = REQUIRED,
     md_severity = MAJOR,
     md_title = ''Compatible declaration visible when an entity with external linkage is defined'',
     md_description = ''If an object or function with external linkage is defined, a compatible declaration shall be visible.'',
     md_rationale = ''External linkage definitions without a visible compatible declaration can lead to incompatible type assumptions across translation units.'',
     md_tags = [''linkage'', ''declarations'', ''cross-tu''],
     md_references = [''MISRA C:2012 Rule 8.4''],
     md_plugin_module = ''misra_platform_rules.standards.misra_c_2012.rules.rule_8_4'',
     md_plugin_version = ''0.1.0'',
     md_requires_ast_nodes = [''FunctionDecl'', ''VarDecl''],
     md_implementation_category = E_CROSS_TRANSLATION_UNIT,
     md_rule_pack = Some LINKAGE,
     md_requires_type_info = False,
     md_requires_cfg = False,
     md_requires_dataflow = False,
     md_requires_linkage = True,
     md_requires_macro_expansion = False,
     md_rule_dependencies = []\<rparr>"

definition rule_8_4_finding_a :: "string \<Rightarrow> finding" where
  "rule_8_4_finding_a name = \<lparr>
     fd_explanation = ''External linkage definition of '' @ sq @ name @ sq @ '' has no prior compatible declaration in this translation unit.'',
     fd_risk_description = ''Cross-TU type mismatches may remain undetected until link time.'',
     fd_confidence_factors = factors 85 70 90 20 60,
     fd_confidence_score = dec2 82,
     fd_suggested_fix = Some \<lparr>sf_original_code = ''definition of '' @ name,
       sf_suggested_code = ''extern declaration for '' @ name @ '' before definition'',
       sf_rationale = ''Provide a visible compatible declaration before the definition.'',
       sf_confidence_score = dec2 60\<rparr>\<rparr>"

definition rule_8_4_finding_b :: "string \<Rightarrow> finding" where
  "rule_8_4_finding_b name = \<lparr>
     fd_explanation = sq @ name @ sq @ '' has external linkage but incompatible declared types across translation units.'',
     fd_risk_description = ''Incompatible cross-TU declarations are undefined behaviour at link time.'',
     fd_confidence_factors = factors 85 75 90 15 30,
     fd_confidence_score = dec2 80,
     fd_suggested_fix = None\<rparr>"

definition named_declarations :: "ast_graph \<Rightarrow> (string, ast_node list) dict" where
  "named_declarations g =
     group_by decl_name (filter (\<lambda>n. decl_name n \<noteq> []) (nodes_by_kinds g [''FunctionDecl'', ''VarDecl'']))"

definition undeclared_definition :: "ast_graph \<Rightarrow> ast_node list \<Rightarrow> bool" where
  "undeclared_definition g nodes \<longleftrightarrow>
     is_file_scope g (node_id (last nodes)) \<and> linkage_class (last nodes) \<noteq> ''static''
     \<and> length nodes = 1 \<and> has_body g (last nodes)"

definition undeclared_findings :: "ast_graph \<Rightarrow> (ast_node \<times> finding) list" where
  "undeclared_findings g =
     List.map_filter (\<lambda>(name, nodes). if undeclared_definition g nodes
         then Some (hd nodes, rule_8_4_finding_a name) else None) (named_declarations g)"

text \<open>The second loop skips a declaration whose text the first has reported.\<close>

definition incompatible_findings ::
    "linkage_data \<Rightarrow> ast_graph \<Rightarrow> string set \<Rightarrow> (ast_node \<times> finding) list" where
  "incompatible_findings d g flagged =
     (if ld_symbols d = [] then []
      else List.map_filter (\<lambda>name.
         if incompatible_type_spellings d name = [] then None
         else case map_of (named_declarations g) name of
             None \<Rightarrow> None
           | Some nodes \<Rightarrow> let n = last nodes in
               if node_kind n @ '' '' @ name \<in> flagged then None else Some (n, rule_8_4_finding_b name))
       (linkage_names d))"

definition rule_8_4_findings :: "linkage_data \<Rightarrow> ast_graph \<Rightarrow> (ast_node \<times> finding) list" where
  "rule_8_4_findings d g =
     (let found = undeclared_findings g
      in found @ incompatible_findings d g (set (map (offending_text \<circ> fst) found)))"

subsection \<open>The pack\<close>

definition rule_8_4_plugin :: rule_plugin where
  "rule_8_4_plugin = scan_rule rule_8_4_metadata (\<lambda>ctx. rule_8_4_findings (rc_cross_tu_linkage ctx))"

definition linkage_pack :: "rule_plugin list" where
  "linkage_pack =
     [scan_rule rule_5_1_metadata (\<lambda>ctx. rule_5_1_findings (rc_cross_tu_linkage ctx)),
      scan_rule rule_8_7_metadata rule_8_7_findings,
      scan_rule rule_8_10_metadata (\<lambda>ctx. rule_8_10_findings),
      scan_rule rule_5_8_metadata (\<lambda>ctx. rule_5_8_findings (rc_cross_tu_linkage ctx)),
      scan_rule rule_5_9_metadata rule_5_9_findings,
      scan_rule rule_8_5_metadata rule_8_5_findings,
      scan_rule rule_8_8_metadata (\<lambda>ctx. rule_8_8_findings),
      loop_rule rule_17_2_metadata (\<lambda>d ctx. rule_17_2_findings d (rc_cross_tu_linkage ctx))]"

end
