(* ===== verification/Pack_Preprocessor.thy ===== *)
theory Pack_Preprocessor
  imports Rule_Base
begin

text \<open>
  The preprocessor pack (\<open>rule_pack_preprocessor.py\<close>).  All rules but Rule 21.2 report entries of
  the preprocessor tables: their findings carry the range and the text of the entry.
\<close>

subsection \<open>Vocabulary of the pack\<close>

text \<open>An entry with its \<open>range\<close>, the text to report and the finding.\<close>

definition directive_at :: "props \<Rightarrow> string \<Rightarrow> finding \<Rightarrow> directive_finding" where
  "directive_at m offending f = \<lparr>df_range = range_of m, df_offending = offending, df_finding = f\<rparr>"

definition report_entries ::
    "(props \<Rightarrow> bool) \<Rightarrow> (props \<Rightarrow> string) \<Rightarrow> (props \<Rightarrow> finding) \<Rightarrow> props list \<Rightarrow> directive_finding list" where
  "report_entries sel offending f ms = map (\<lambda>m. directive_at m (offending m) (f m)) (filter sel ms)"

definition macro_name_of :: "props \<Rightarrow> string" where
  "macro_name_of m = prop_str m ''name'' []"

definition define_text :: "props \<Rightarrow> string" where
  "define_text m = ''#define '' @ macro_name_of m"

definition include_text :: "props \<Rightarrow> string" where
  "include_text m = ''#include '' @ header_of m"

definition condition_text :: "props \<Rightarrow> string" where
  "condition_text b = ''#'' @ prop_str b ''directive'' ''if'' @ '' '' @ prop_str b ''condition'' []"

text \<open>The factors and the score of \<open>_preprocessor_result\<close>.\<close>

definition preprocessor_finding :: "string \<Rightarrow> string \<Rightarrow> finding" where
  "preprocessor_finding explanation risk =
     \<lparr>fd_explanation = explanation, fd_risk_description = risk,
      fd_confidence_factors = factors 85 60 90 10 40, fd_confidence_score = dec2 85, fd_suggested_fix = None\<rparr>"


definition c_keywords :: "string list" where
  "c_keywords =
     [''auto'', ''break'', ''case'', ''char'', ''const'', ''continue'', ''default'', ''do'',
      ''double'', ''else'', ''enum'', ''extern'', ''float'', ''for'', ''goto'', ''if'',
      ''inline'', ''int'', ''long'', ''register'', ''restrict'', ''return'', ''short'',
      ''signed'', ''sizeof'', ''static'', ''struct'', ''switch'', ''typedef'', ''union'',
      ''unsigned'', ''void'', ''volatile'', ''while'', ''_Bool'', ''_Complex'', ''_Imaginary'']"

subsection \<open>Rules 20.4, 20.7 and 20.14\<close>

definition rule_20_4_metadata :: rule_metadata where
  "rule_20_4_metadata = \<lparr>
     md_rule_id = ''misra-c2012-rule-20-4'',
     md_rule_number = ''20.4'',
     md_standard = MISRA_C_2012,
     md_category = REQUIRED,
     md_severity = MAJOR,
     md_title = ''A macro shall not be defined with the same name as a keyword'',
     md_description = ''A macro shall not be #defined using a name that is a C language keyword.'',
     md_rationale = ''Redefining a keyword via a macro is deeply confusing and toolchain-dependent.'',
     md_tags = [''preprocessor'', ''macros''],
     md_references = [''MISRA C:2012 Rule 20.4''],
     md_plugin_module = ''misra_platform_rules.standards.misra_c_2012.rules.rule_pack_preprocessor'',
     md_plugin_version = ''0.1.0'',
     md_requires_ast_nodes = [],
     md_implementation_category = F_PREPROCESSOR,
     md_rule_pack = Some PREPROCESSOR,
     md_requires_type_info = False,
     md_requires_cfg = False,
     md_requires_dataflow = False,
     md_requires_linkage = False,
     md_requires_macro_expansion = True,
     md_rule_dependencies = []\<rparr>"

definition rule_20_4_finding :: "string \<Rightarrow> finding" where
  "rule_20_4_finding name = \<lparr>
     fd_explanation = ''Macro '' @ sq @ name @ sq @ '' shares its name with a C language keyword.'',
     fd_risk_description = ''Keyword-shadowing macros produce confusing, toolchain-dependent behaviour.'',
     fd_confidence_factors = factors 90 50 95 5 70,
     fd_confidence_score = dec2 90,
     fd_suggested_fix = Some \<lparr>sf_original_code = ''#define '' @ name @ '' ...'',
       sf_suggested_code = ''rename the macro away from the keyword '' @ sq @ name @ sq,
       sf_rationale = ''Never shadow a language keyword with a macro.'',
       sf_confidence_score = dec2 70\<rparr>\<rparr>"

definition rule_20_4_findings :: "macro_table \<Rightarrow> directive_finding list" where
  "rule_20_4_findings t =
     report_entries (\<lambda>m. macro_name_of m \<in> set c_keywords) define_text
       (\<lambda>m. rule_20_4_finding (macro_name_of m)) (mt_definitions t)"

definition rule_20_7_metadata :: rule_metadata where
  "rule_20_7_metadata = \<lparr>
     md_rule_id = ''misra-c2012-rule-20-7'',
     md_rule_number = ''20.7'',
     md_standard = MISRA_C_2012,
     md_category = REQUIRED,
     md_severity = MAJOR,
     md_title = ''Expressions resulting from macro parameter substitution shall be parenthesized'',
     md_description = ''A function-like macro body containing an operator shall wrap its expansion in parentheses.'',
     md_rationale = ''Unparenthesized macro bodies are vulnerable to operator-precedence bugs at call sites.'',
     md_tags = [''preprocessor'', ''macros''],
     md_references = [''MISRA C:2012 Rule 20.7''],
     md_plugin_module = ''misra_platform_rules.standards.misra_c_2012.rules.rule_pack_preprocessor'',
     md_plugin_version = ''0.1.0'',
     md_requires_ast_nodes = [],
     md_implementation_category = F_PREPROCESSOR,
     md_rule_pack = Some PREPROCESSOR,
     md_requires_type_info = False,
     md_requires_cfg = False,
     md_requires_dataflow = False,
     md_requires_linkage = False,
     md_requires_macro_expansion = True,
     md_rule_dependencies = []\<rparr>"

definition rule_20_7_finding :: "string \<Rightarrow> string \<Rightarrow> finding" where
  "rule_20_7_finding name body = \<lparr>
     fd_explanation = ''Function-like macro '' @ sq @ name @ sq @ '' has an unparenthesized operator in its body.'',
     fd_risk_description = ''Operator precedence at the call site may change the intended meaning.'',
     fd_confidence_factors = factors 60 40 60 30 50,
     fd_confidence_score = dec2 65,
     fd_suggested_fix = Some \<lparr>sf_original_code = body,
       sf_suggested_code = ''('' @ body @ '')'',
       sf_rationale = ''Wrap the entire macro body in parentheses.'',
       sf_confidence_score = dec2 50\<rparr>\<rparr>"

definition rule_20_7_findings :: "macro_table \<Rightarrow> directive_finding list" where
  "rule_20_7_findings t =
     report_entries has_unparenthesized_operator_body
       (\<lambda>m. define_text m @ ''(...) '' @ prop_str m ''value'' [])
       (\<lambda>m. rule_20_7_finding (macro_name_of m) (prop_str m ''value'' [])) (function_like_macros t)"

definition rule_20_14_metadata :: rule_metadata where
  "rule_20_14_metadata = \<lparr>
     md_rule_id = ''misra-c2012-rule-20-14'',
     md_rule_number = ''20.14'',
     md_standard = MISRA_C_2012,
     md_category = REQUIRED,
     md_severity = MAJOR,
     md_title = ''#if/#ifdef/#ifndef and matching #endif shall reside in the same file'',
     md_description = ''All conditional-compilation groups shall be opened and closed within one file.'',
     md_rationale = ''Splitting a conditional group across files makes inclusion order load-bearing and fragile.'',
     md_tags = [''preprocessor'', ''conditional-compilation''],
     md_references = [''MISRA C:2012 Rule 20.14''],
     md_plugin_module = ''misra_platform_rules.standards.misra_c_2012.rules.rule_pack_preprocessor'',
     md_plugin_version = ''0.1.0'',
     md_requires_ast_nodes = [],
     md_implementation_category = F_PREPROCESSOR,
     md_rule_pack = Some PREPROCESSOR,
     md_requires_type_info = False,
     md_requires_cfg = False,
     md_requires_dataflow = False,
     md_requires_linkage = False,
     md_requires_macro_expansion = True,
     md_rule_dependencies = []\<rparr>"

definition rule_20_14_finding :: "finding" where
  "rule_20_14_finding = \<lparr>
     fd_explanation = ''This file contains an unbalanced set of conditional-compilation directives.'',
     fd_risk_description = ''An unmatched #if/#endif pair can silently exclude or include large code regions.'',
     fd_confidence_factors = factors 70 50 70 20 30,
     fd_confidence_score = dec2 75,
     fd_suggested_fix = None\<rparr>"

definition rule_20_14_findings :: "macro_table \<Rightarrow> directive_finding list" where
  "rule_20_14_findings t =
     (if \<not> unbalanced_conditional_group t then []
      else [directive_at (case mt_branches t of [] \<Rightarrow> [] | b # _ \<Rightarrow> b)
              ''#if/#ifdef/#ifndef .. #endif'' rule_20_14_finding])"

subsection \<open>Rules 21.1, 2.5, 5.4 and 21.2\<close>

definition rule_21_1_metadata :: rule_metadata where
  "rule_21_1_metadata = \<lparr>
     md_rule_id = ''misra-c2012-rule-21-1'',
     md_rule_number = ''21.1'',
     md_standard = MISRA_C_2012,
     md_category = REQUIRED,
     md_severity = CRITICAL,
     md_title = ''#define and #undef shall not be used on a reserved identifier or reserved macro name'',
     md_description = ''Macros shall not be defined using identifiers reserved by the C standard library.'',
     md_rationale = ''Redefining reserved identifiers is undefined behaviour and can silently break the runtime.'',
     md_tags = [''preprocessor'', ''reserved-identifiers''],
     md_references = [''MISRA C:2012 Rule 21.1''],
     md_plugin_module = ''misra_platform_rules.standards.misra_c_2012.rules.rule_pack_preprocessor'',
     md_plugin_version = ''0.1.0'',
     md_requires_ast_nodes = [],
     md_implementation_category = F_PREPROCESSOR,
     md_rule_pack = Some PREPROCESSOR,
     md_requires_type_info = False,
     md_requires_cfg = False,
     md_requires_dataflow = False,
     md_requires_linkage = False,
     md_requires_macro_expansion = True,
     md_rule_dependencies = []\<rparr>"

definition rule_21_1_finding :: "string \<Rightarrow> finding" where
  "rule_21_1_finding name = \<lparr>
     fd_explanation = ''Macro name '' @ sq @ name @ sq @ '' is reserved by the C standard library.'',
     fd_risk_description = ''Redefining a reserved identifier is undefined behaviour.'',
     fd_confidence_factors = factors 95 60 95 5 60,
     fd_confidence_score = dec2 92,
     fd_suggested_fix = Some \<lparr>sf_original_code = ''#define '' @ name @ '' ...'',
       sf_suggested_code = ''rename to a non-reserved identifier (avoid leading underscore + uppercase)'',
       sf_rationale = ''Reserve the leading-underscore namespace for the C library/implementation.'',
       sf_confidence_score = dec2 60\<rparr>\<rparr>"

definition rule_21_1_findings :: "macro_table \<Rightarrow> directive_finding list" where
  "rule_21_1_findings t =
     report_entries (\<lambda>m. macro_name_of m \<noteq> [] \<and> is_reserved_identifier (macro_name_of m)) define_text
       (\<lambda>m. rule_21_1_finding (macro_name_of m)) (mt_definitions t)"

definition rule_2_5_metadata :: rule_metadata where
  "rule_2_5_metadata = \<lparr>
     md_rule_id = ''misra-c2012-rule-2-5'',
     md_rule_number = ''2.5'',
     md_standard = MISRA_C_2012,
     md_category = ADVISORY,
     md_severity = MINOR,
     md_title = ''A project should not contain unused macro declarations'',
     md_description = ''Every #defined macro should be expanded somewhere in the project.'',
     md_rationale = ''Unused macros are dead configuration surface that misleads future maintainers.'',
     md_tags = [''preprocessor'', ''macros'', ''unused''],
     md_references = [''MISRA C:2012 Rule 2.5''],
     md_plugin_module = ''misra_platform_rules.standards.misra_c_2012.rules.rule_pack_preprocessor'',
     md_plugin_version = ''0.1.0'',
     md_requires_ast_nodes = [],
     md_implementation_category = F_PREPROCESSOR,
     md_rule_pack = Some PREPROCESSOR,
     md_requires_type_info = False,
     md_requires_cfg = False,
     md_requires_dataflow = False,
     md_requires_linkage = False,
     md_requires_macro_expansion = True,
     md_rule_dependencies = []\<rparr>"

definition rule_2_5_finding :: "string \<Rightarrow> finding" where
  "rule_2_5_finding name = \<lparr>
     fd_explanation = ''Macro '' @ sq @ name @ sq @ '' is defined but never expanded anywhere in this translation unit.'',
     fd_risk_description = ''Unused macros are dead configuration surface that misleads maintainers.'',
     fd_confidence_factors = factors 60 40 65 35 40,
     fd_confidence_score = dec2 60,
     fd_suggested_fix = Some \<lparr>sf_original_code = ''#define '' @ name @ '' ...'',
       sf_suggested_code = ''remove the unused macro, or expand it where intended'',
       sf_rationale = ''Delete dead macro declarations once they are no longer expanded.'',
       sf_confidence_score = dec2 40\<rparr>\<rparr>"

definition rule_2_5_findings :: "macro_table \<Rightarrow> directive_finding list" where
  "rule_2_5_findings t =
     report_entries (macro_is_unused t) define_text (\<lambda>m. rule_2_5_finding (macro_name_of m)) (mt_definitions t)"

definition macro_significant_chars :: nat where
  "macro_significant_chars = 31"

definition rule_5_4_metadata :: rule_metadata where
  "rule_5_4_metadata = \<lparr>
     md_rule_id = ''misra-c2012-rule-5-4'',
     md_rule_number = ''5.4'',
     md_standard = MISRA_C_2012,
     md_category = REQUIRED,
     md_severity = MAJOR,
     md_title = ''Macro identifiers shall be distinct'',
     md_description = ''Macro identifiers shall be distinct within the first 31 significant characters.'',
     md_rationale = ''Truncating preprocessors may silently merge two intended-distinct macro names.'',
     md_tags = [''preprocessor'', ''macros'', ''identifiers''],
     md_references = [''MISRA C:2012 Rule 5.4''],
     md_plugin_module = ''misra_platform_rules.standards.misra_c_2012.rules.rule_pack_preprocessor'',
     md_plugin_version = ''0.1.0'',
     md_requires_ast_nodes = [],
     md_implementation_category = F_PREPROCESSOR,
     md_rule_pack = Some PREPROCESSOR,
     md_requires_type_info = False,
     md_requires_cfg = False,
     md_requires_dataflow = False,
     md_requires_linkage = False,
     md_requires_macro_expansion = True,
     md_rule_dependencies = []\<rparr>"

definition rule_5_4_finding :: "string \<Rightarrow> string \<Rightarrow> string \<Rightarrow> finding" where
  "rule_5_4_finding first second chars = \<lparr>
     fd_explanation = ''Macro identifiers '' @ sq @ first @ sq @ '' and '' @ sq @ second @ sq @ '' collide within the first '' @ chars @ '' characters.'',
     fd_risk_description = ''A truncating preprocessor may treat these two macros as the same identifier.'',
     fd_confidence_factors = factors 85 70 90 15 40,
     fd_confidence_score = dec2 78,
     fd_suggested_fix = Some \<lparr>sf_original_code = first @ '' / '' @ second,
       sf_suggested_code = ''rename one macro so both are distinct within significant length'',
       sf_rationale = ''Avoid relying on toolchain-specific significant-character limits.'',
       sf_confidence_score = dec2 40\<rparr>\<rparr>"

text \<open>Of two macros with one name the later is found; an empty entry counts as absent.\<close>

definition macros_by_name :: "macro_table \<Rightarrow> (string, props) dict" where
  "macros_by_name t = fold (\<lambda>m. dict_set (macro_name_of m) m) (mt_definitions t) []"

definition colliding_macro :: "macro_table \<Rightarrow> string \<Rightarrow> string \<Rightarrow> props option" where
  "colliding_macro t first_name second_name =
     (case map_of (macros_by_name t) second_name of
        Some m \<Rightarrow> if m \<noteq> [] then Some m else map_of (macros_by_name t) first_name
      | None \<Rightarrow> map_of (macros_by_name t) first_name)"

definition rule_5_4_findings :: "macro_table \<Rightarrow> directive_finding list" where
  "rule_5_4_findings t =
     List.map_filter (\<lambda>(a, b). map_option (\<lambda>m. directive_at m (''#define '' @ a @ '' / #define '' @ b)
            (rule_5_4_finding a b (nat_str macro_significant_chars))) (colliding_macro t a b))
       (keep_first (\<lambda>(a, b). {a, b}) {} (duplicate_macro_names_within t macro_significant_chars))"

definition rule_21_2_metadata :: rule_metadata where
  "rule_21_2_metadata = \<lparr>
     md_rule_id = ''misra-c2012-rule-21-2'',
     md_rule_number = ''21.2'',
     md_standard = MISRA_C_2012,
     md_category = REQUIRED,
     md_severity = MAJOR,
     md_title = ''A reserved identifier shall not be declared'',
     md_description = ''No declared identifier (object, function, typedef, tag) shall use a name reserved by the C standard library.'',
     md_rationale = ''Declaring a reserved identifier is undefined behaviour and can silently clash with the runtime.'',
     md_tags = [''preprocessor'', ''reserved-identifiers'', ''declarations''],
     md_references = [''MISRA C:2012 Rule 21.2''],
     md_plugin_module = ''misra_platform_rules.standards.misra_c_2012.rules.rule_pack_preprocessor'',
     md_plugin_version = ''0.1.0'',
     md_requires_ast_nodes = [''VarDecl'', ''FunctionDecl'', ''TypedefDecl'', ''RecordDecl'', ''EnumDecl''],
     md_implementation_category = A_AST_ONLY,
     md_rule_pack = Some PREPROCESSOR,
     md_requires_type_info = False,
     md_requires_cfg = False,
     md_requires_dataflow = False,
     md_requires_linkage = False,
     md_requires_macro_expansion = False,
     md_rule_dependencies = []\<rparr>"

definition rule_21_2_finding :: "string \<Rightarrow> finding" where
  "rule_21_2_finding name = \<lparr>
     fd_explanation = ''Declared identifier '' @ sq @ name @ sq @ '' is reserved by the C standard library.'',
     fd_risk_description = ''Declaring a reserved identifier is undefined behaviour.'',
     fd_confidence_factors = factors 95 80 95 5 60,
     fd_confidence_score = dec2 90,
     fd_suggested_fix = Some \<lparr>sf_original_code = name,
       sf_suggested_code = ''rename to a non-reserved identifier (avoid leading underscore + uppercase)'',
       sf_rationale = ''Reserve the leading-underscore namespace for the C library/implementation.'',
       sf_confidence_score = dec2 60\<rparr>\<rparr>"

definition rule_21_2_findings :: "ast_graph \<Rightarrow> (ast_node \<times> finding) list" where
  "rule_21_2_findings g =
     (let idx = symbol_index_of g in
      concat (map (\<lambda>name. map (\<lambda>n. (n, rule_21_2_finding name)) (declarations idx name))
        (filter is_reserved_identifier (symbol_names idx))))"

subsection \<open>Rules 20.1, 20.2 and 20.3: includes\<close>

definition rule_20_1_metadata :: rule_metadata where
  "rule_20_1_metadata = \<lparr>
     md_rule_id = ''misra-c2012-rule-20-1'',
     md_rule_number = ''20.1'',
     md_standard = MISRA_C_2012,
     md_category = ADVISORY,
     md_severity = MINOR,
     md_title = ''#include directives should only be preceded by preprocessor directives or comments'',
     md_description = ''#include shall not follow non-preprocessor source lines.'',
     md_rationale = ''Code before an #include can be silently excluded when the header is reincluded.'',
     md_tags = [''preprocessor'', ''includes''],
     md_references = [''MISRA C:2012 Rule 20.1''],
     md_plugin_module = ''misra_platform_rules.standards.misra_c_2012.rules.rule_pack_preprocessor'',
     md_plugin_version = ''0.1.0'',
     md_requires_ast_nodes = [],
     md_implementation_category = F_PREPROCESSOR,
     md_rule_pack = Some PREPROCESSOR,
     md_requires_type_info = False,
     md_requires_cfg = False,
     md_requires_dataflow = False,
     md_requires_linkage = False,
     md_requires_macro_expansion = True,
     md_rule_dependencies = []\<rparr>"

definition rule_20_1_finding :: "finding" where
  "rule_20_1_finding = preprocessor_finding
     (''#include is preceded by non-preprocessor source.'')
     (''Leading code can be excluded when the header is reincluded.'')"

definition rule_20_1_findings :: "macro_table \<Rightarrow> directive_finding list" where
  "rule_20_1_findings t =
     report_entries include_preceded_by_non_preprocessor include_text (\<lambda>m. rule_20_1_finding) (mt_includes t)"

definition rule_20_2_metadata :: rule_metadata where
  "rule_20_2_metadata = \<lparr>
     md_rule_id = ''misra-c2012-rule-20-2'',
     md_rule_number = ''20.2'',
     md_standard = MISRA_C_2012,
     md_category = REQUIRED,
     md_severity = MAJOR,
     md_title = ''Header names shall not contain '' @ sq @ '', '' @ [CHR 0x5C] @ '', or comment sequences'',
     md_description = ''A header name in #include shall not contain forbidden characters or comment starters.'',
     md_rationale = ''Malformed header names produce implementation-defined behaviour.'',
     md_tags = [''preprocessor'', ''includes''],
     md_references = [''MISRA C:2012 Rule 20.2''],
     md_plugin_module = ''misra_platform_rules.standards.misra_c_2012.rules.rule_pack_preprocessor'',
     md_plugin_version = ''0.1.0'',
     md_requires_ast_nodes = [],
     md_implementation_category = F_PREPROCESSOR,
     md_rule_pack = Some PREPROCESSOR,
     md_requires_type_info = False,
     md_requires_cfg = False,
     md_requires_dataflow = False,
     md_requires_linkage = False,
     md_requires_macro_expansion = True,
     md_rule_dependencies = []\<rparr>"

definition rule_20_2_finding :: "string \<Rightarrow> finding" where
  "rule_20_2_finding header = preprocessor_finding
     (''Header name '' @ sq @ header @ sq @ '' contains forbidden characters.'')
     (''Malformed header names are undefined behaviour.'')"

definition rule_20_2_findings :: "macro_table \<Rightarrow> directive_finding list" where
  "rule_20_2_findings t =
     report_entries include_has_invalid_header_chars include_text (\<lambda>m. rule_20_2_finding (header_of m)) (mt_includes t)"

definition rule_20_3_metadata :: rule_metadata where
  "rule_20_3_metadata = \<lparr>
     md_rule_id = ''misra-c2012-rule-20-3'',
     md_rule_number = ''20.3'',
     md_standard = MISRA_C_2012,
     md_category = REQUIRED,
     md_severity = MAJOR,
     md_title = ''#include directives shall use the correct syntax'',
     md_description = ''#include shall use the <h> or '' @ dq @ ''h'' @ dq @ '' form only.'',
     md_rationale = ''Malformed #include syntax is a hard preprocessing error.'',
     md_tags = [''preprocessor'', ''includes''],
     md_references = [''MISRA C:2012 Rule 20.3''],
     md_plugin_module = ''misra_platform_rules.standards.misra_c_2012.rules.rule_pack_preprocessor'',
     md_plugin_version = ''0.1.0'',
     md_requires_ast_nodes = [],
     md_implementation_category = F_PREPROCESSOR,
     md_rule_pack = Some PREPROCESSOR,
     md_requires_type_info = False,
     md_requires_cfg = False,
     md_requires_dataflow = False,
     md_requires_linkage = False,
     md_requires_macro_expansion = True,
     md_rule_dependencies = []\<rparr>"

definition rule_20_3_finding :: "finding" where
  "rule_20_3_finding = preprocessor_finding
     (''#include uses invalid syntax.'')
     (''Malformed #include directives fail preprocessing.'')"

definition rule_20_3_findings :: "macro_table \<Rightarrow> directive_finding list" where
  "rule_20_3_findings t =
     report_entries include_has_invalid_syntax include_text (\<lambda>m. rule_20_3_finding) (mt_includes t)"

subsection \<open>Rules 20.6, 20.8 and 20.9\<close>

definition rule_20_6_metadata :: rule_metadata where
  "rule_20_6_metadata = \<lparr>
     md_rule_id = ''misra-c2012-rule-20-6'',
     md_rule_number = ''20.6'',
     md_standard = MISRA_C_2012,
     md_category = REQUIRED,
     md_severity = MAJOR,
     md_title = ''Tokens introduced by # or ## shall be valid preprocessing tokens'',
     md_description = ''Macro stringification/pasting shall produce valid preprocessing tokens.'',
     md_rationale = ''Invalid pasted tokens break preprocessing in toolchain-specific ways.'',
     md_tags = [''preprocessor'', ''macros''],
     md_references = [''MISRA C:2012 Rule 20.6''],
     md_plugin_module = ''misra_platform_rules.standards.misra_c_2012.rules.rule_pack_preprocessor'',
     md_plugin_version = ''0.1.0'',
     md_requires_ast_nodes = [],
     md_implementation_category = F_PREPROCESSOR,
     md_rule_pack = Some PREPROCESSOR,
     md_requires_type_info = False,
     md_requires_cfg = False,
     md_requires_dataflow = False,
     md_requires_linkage = False,
     md_requires_macro_expansion = True,
     md_rule_dependencies = []\<rparr>"

definition rule_20_6_finding :: "string \<Rightarrow> finding" where
  "rule_20_6_finding name = preprocessor_finding
     (''Macro '' @ sq @ name @ sq @ '' pastes/stringifies invalid preprocessing tokens.'')
     (''Invalid pasted tokens are undefined behaviour.'')"

definition rule_20_6_findings :: "macro_table \<Rightarrow> directive_finding list" where
  "rule_20_6_findings t =
     report_entries macro_has_invalid_preprocessor_tokens define_text
       (\<lambda>m. rule_20_6_finding (macro_name_of m)) (mt_definitions t)"

definition rule_20_8_metadata :: rule_metadata where
  "rule_20_8_metadata = \<lparr>
     md_rule_id = ''misra-c2012-rule-20-8'',
     md_rule_number = ''20.8'',
     md_standard = MISRA_C_2012,
     md_category = REQUIRED,
     md_severity = MAJOR,
     md_title = ''The controlling expression of #if/#elif shall evaluate to 0 or 1'',
     md_description = ''A #if/#elif controlling expression shall be essentially Boolean.'',
     md_rationale = ''Non-Boolean controlling expressions rely on implementation-defined truth rules.'',
     md_tags = [''preprocessor'', ''conditional-compilation''],
     md_references = [''MISRA C:2012 Rule 20.8''],
     md_plugin_module = ''misra_platform_rules.standards.misra_c_2012.rules.rule_pack_preprocessor'',
     md_plugin_version = ''0.1.0'',
     md_requires_ast_nodes = [],
     md_implementation_category = F_PREPROCESSOR,
     md_rule_pack = Some PREPROCESSOR,
     md_requires_type_info = False,
     md_requires_cfg = False,
     md_requires_dataflow = False,
     md_requires_linkage = False,
     md_requires_macro_expansion = True,
     md_rule_dependencies = []\<rparr>"

definition rule_20_8_finding :: "finding" where
  "rule_20_8_finding = preprocessor_finding
     (''The controlling expression is not restricted to 0 or 1.'')
     (''Non-Boolean #if expressions are implementation-defined.'')"

definition rule_20_8_findings :: "macro_table \<Rightarrow> directive_finding list" where
  "rule_20_8_findings t =
     report_entries conditional_non_boolean_controlling_expression condition_text
       (\<lambda>m. rule_20_8_finding) (mt_branches t)"

definition rule_20_9_metadata :: rule_metadata where
  "rule_20_9_metadata = \<lparr>
     md_rule_id = ''misra-c2012-rule-20-9'',
     md_rule_number = ''20.9'',
     md_standard = MISRA_C_2012,
     md_category = REQUIRED,
     md_severity = MAJOR,
     md_title = ''All identifiers in a #if/#elif expression shall be #defined'',
     md_description = ''Every identifier in a #if/#elif expression shall be defined before evaluation.'',
     md_rationale = ''Undefined identifiers in #if expressions evaluate to 0, hiding configuration mistakes.'',
     md_tags = [''preprocessor'', ''conditional-compilation''],
     md_references = [''MISRA C:2012 Rule 20.9''],
     md_plugin_module = ''misra_platform_rules.standards.misra_c_2012.rules.rule_pack_preprocessor'',
     md_plugin_version = ''0.1.0'',
     md_requires_ast_nodes = [],
     md_implementation_category = F_PREPROCESSOR,
     md_rule_pack = Some PREPROCESSOR,
     md_requires_type_info = False,
     md_requires_cfg = False,
     md_requires_dataflow = False,
     md_requires_linkage = False,
     md_requires_macro_expansion = True,
     md_rule_dependencies = []\<rparr>"

definition rule_20_9_finding :: "string \<Rightarrow> finding" where
  "rule_20_9_finding names = preprocessor_finding
     (''#if/#elif expression uses undefined identifier(s): '' @ names @ ''.'')
     (''Undefined identifiers silently evaluate to 0 in #if expressions.'')"

text \<open>\<open>", ".join(undefined)\<close> raises on an element that is no string.\<close>

fun join_names :: "pyval list \<Rightarrow> py_error + string" where
  "join_names [] = Inr []"
| "join_names [PStr s] = Inr s"
| "join_names (PStr s # v # vs) =
     (case join_names (v # vs) of Inl e \<Rightarrow> Inl e | Inr r \<Rightarrow> Inr (s @ '', '' @ r))"
| "join_names (v # vs) = Inl TypeError"

definition rule_20_9_findings :: "macro_table \<Rightarrow> py_error + directive_finding list" where
  "rule_20_9_findings t =
     sum_concat_map (\<lambda>b. case conditional_undefined_identifiers b of
         Inl e \<Rightarrow> Inl e
       | Inr [] \<Rightarrow> Inr []
       | Inr names \<Rightarrow> map_sum id (\<lambda>s. [directive_at b (condition_text b) (rule_20_9_finding s)]) (join_names names))
     (mt_branches t)"

subsection \<open>Rules 20.11, 20.12 and 20.13\<close>

definition rule_20_11_metadata :: rule_metadata where
  "rule_20_11_metadata = \<lparr>
     md_rule_id = ''misra-c2012-rule-20-11'',
     md_rule_number = ''20.11'',
     md_standard = MISRA_C_2012,
     md_category = REQUIRED,
     md_severity = MAJOR,
     md_title = ''A macro parameter used with # shall not be followed by ##'',
     md_description = ''A stringified macro parameter shall not be followed by an unparenthesized operator.'',
     md_rationale = ''Stringification adjacent to operators produces fragile expansions.'',
     md_tags = [''preprocessor'', ''macros''],
     md_references = [''MISRA C:2012 Rule 20.11''],
     md_plugin_module = ''misra_platform_rules.standards.misra_c_2012.rules.rule_pack_preprocessor'',
     md_plugin_version = ''0.1.0'',
     md_requires_ast_nodes = [],
     md_implementation_category = F_PREPROCESSOR,
     md_rule_pack = Some PREPROCESSOR,
     md_requires_type_info = False,
     md_requires_cfg = False,
     md_requires_dataflow = False,
     md_requires_linkage = False,
     md_requires_macro_expansion = True,
     md_rule_dependencies = []\<rparr>"

definition rule_20_11_finding :: "string \<Rightarrow> finding" where
  "rule_20_11_finding name = preprocessor_finding
     (''Macro '' @ sq @ name @ sq @ '' stringifies a parameter next to an unparenthesized operator.'')
     (''Stringification next to operators is fragile and hard to review.'')"

definition rule_20_11_findings :: "macro_table \<Rightarrow> directive_finding list" where
  "rule_20_11_findings t =
     report_entries macro_stringify_param_unparenthesized_operator define_text
       (\<lambda>m. rule_20_11_finding (macro_name_of m)) (mt_definitions t)"

definition rule_20_12_metadata :: rule_metadata where
  "rule_20_12_metadata = \<lparr>
     md_rule_id = ''misra-c2012-rule-20-12'',
     md_rule_number = ''20.12'',
     md_standard = MISRA_C_2012,
     md_category = REQUIRED,
     md_severity = MAJOR,
     md_title = ''A macro parameter used with # shall not also be used with ##'',
     md_description = ''A macro parameter shall not be both stringified and token-pasted.'',
     md_rationale = ''Mixing # and ## on the same parameter is undefined behaviour.'',
     md_tags = [''preprocessor'', ''macros''],
     md_references = [''MISRA C:2012 Rule 20.12''],
     md_plugin_module = ''misra_platform_rules.standards.misra_c_2012.rules.rule_pack_preprocessor'',
     md_plugin_version = ''0.1.0'',
     md_requires_ast_nodes = [],
     md_implementation_category = F_PREPROCESSOR,
     md_rule_pack = Some PREPROCESSOR,
     md_requires_type_info = False,
     md_requires_cfg = False,
     md_requires_dataflow = False,
     md_requires_linkage = False,
     md_requires_macro_expansion = True,
     md_rule_dependencies = []\<rparr>"

definition rule_20_12_finding :: "string \<Rightarrow> finding" where
  "rule_20_12_finding name = preprocessor_finding
     (''Macro '' @ sq @ name @ sq @ '' uses # and ## on the same parameter.'')
     (''Mixing stringification and token pasting is undefined behaviour.'')"

definition rule_20_12_findings :: "macro_table \<Rightarrow> directive_finding list" where
  "rule_20_12_findings t =
     report_entries macro_param_mixed_stringify_and_paste define_text
       (\<lambda>m. rule_20_12_finding (macro_name_of m)) (mt_definitions t)"

definition rule_20_13_metadata :: rule_metadata where
  "rule_20_13_metadata = \<lparr>
     md_rule_id = ''misra-c2012-rule-20-13'',
     md_rule_number = ''20.13'',
     md_standard = MISRA_C_2012,
     md_category = REQUIRED,
     md_severity = MAJOR,
     md_title = ''A line with a # directive shall have one of the permitted forms'',
     md_description = ''Preprocessor directives shall match one of the permitted #directive forms.'',
     md_rationale = ''Malformed # lines are preprocessing errors or silently ignored.'',
     md_tags = [''preprocessor'', ''directives''],
     md_references = [''MISRA C:2012 Rule 20.13''],
     md_plugin_module = ''misra_platform_rules.standards.misra_c_2012.rules.rule_pack_preprocessor'',
     md_plugin_version = ''0.1.0'',
     md_requires_ast_nodes = [],
     md_implementation_category = F_PREPROCESSOR,
     md_rule_pack = Some PREPROCESSOR,
     md_requires_type_info = False,
     md_requires_cfg = False,
     md_requires_dataflow = False,
     md_requires_linkage = False,
     md_requires_macro_expansion = True,
     md_rule_dependencies = []\<rparr>"

definition rule_20_13_finding :: "finding" where
  "rule_20_13_finding = preprocessor_finding
     (''Preprocessor directive does not match a permitted form.'')
     (''Malformed # directives break preprocessing.'')"

definition rule_20_13_findings :: "macro_table \<Rightarrow> directive_finding list" where
  "rule_20_13_findings t =
     report_entries directive_has_invalid_form (\<lambda>m. prop_str m ''text'' (prop_str m ''directive'' ''#''))
       (\<lambda>m. rule_20_13_finding) (mt_directives t)"

subsection \<open>Rules 20.5 and 20.10\<close>

definition rule_20_5_metadata :: rule_metadata where
  "rule_20_5_metadata = \<lparr>
     md_rule_id = ''misra-c2012-rule-20-5'',
     md_rule_number = ''20.5'',
     md_standard = MISRA_C_2012,
     md_category = ADVISORY,
     md_severity = MINOR,
     md_title = ''#undef should not be used'',
     md_description = ''The #undef directive should not be used.'',
     md_rationale = ''#undef makes macro visibility order-dependent and hard to audit.'',
     md_tags = [''preprocessor'', ''macros''],
     md_references = [''MISRA C:2012 Rule 20.5''],
     md_plugin_module = ''misra_platform_rules.standards.misra_c_2012.rules.rule_pack_preprocessor'',
     md_plugin_version = ''0.1.0'',
     md_requires_ast_nodes = [],
     md_implementation_category = F_PREPROCESSOR,
     md_rule_pack = Some PREPROCESSOR,
     md_requires_type_info = False,
     md_requires_cfg = False,
     md_requires_dataflow = False,
     md_requires_linkage = False,
     md_requires_macro_expansion = True,
     md_rule_dependencies = []\<rparr>"

definition rule_20_5_finding :: "string \<Rightarrow> finding" where
  "rule_20_5_finding name = preprocessor_finding
     (''#undef is used on macro '' @ sq @ name @ sq @ ''.'')
     (''#undef makes macro visibility fragile and order-dependent.'')"

definition rule_20_5_findings :: "macro_table \<Rightarrow> directive_finding list" where
  "rule_20_5_findings t =
     report_entries (\<lambda>m. True) (\<lambda>m. ''#undef '' @ prop_str m ''name'' ''<macro>'')
       (\<lambda>m. rule_20_5_finding (prop_str m ''name'' ''<macro>'')) (mt_undefs t)"

definition rule_20_10_metadata :: rule_metadata where
  "rule_20_10_metadata = \<lparr>
     md_rule_id = ''misra-c2012-rule-20-10'',
     md_rule_number = ''20.10'',
     md_standard = MISRA_C_2012,
     md_category = ADVISORY,
     md_severity = MINOR,
     md_title = ''The # and ## preprocessor operators should not be used'',
     md_description = ''The stringification (#) and token-pasting (##) operators should not be used.'',
     md_rationale = ''# and ## produce fragile expansions that are difficult to review.'',
     md_tags = [''preprocessor'', ''macros''],
     md_references = [''MISRA C:2012 Rule 20.10''],
     md_plugin_module = ''misra_platform_rules.standards.misra_c_2012.rules.rule_pack_preprocessor'',
     md_plugin_version = ''0.1.0'',
     md_requires_ast_nodes = [],
     md_implementation_category = F_PREPROCESSOR,
     md_rule_pack = Some PREPROCESSOR,
     md_requires_type_info = False,
     md_requires_cfg = False,
     md_requires_dataflow = False,
     md_requires_linkage = False,
     md_requires_macro_expansion = True,
     md_rule_dependencies = []\<rparr>"

definition rule_20_10_finding :: "string \<Rightarrow> string \<Rightarrow> finding" where
  "rule_20_10_finding name op_text = preprocessor_finding
     (''Macro '' @ sq @ name @ sq @ '' uses the '' @ op_text @ '' preprocessor operator(s).'')
     (''Stringification and token pasting are fragile and hard to review.'')"

definition operators_text :: "props \<Rightarrow> string" where
  "operators_text m = join_str '' and ''
     ((if prop_flag m ''uses_stringify'' then [''#''] else []) @
      (if prop_flag m ''uses_token_paste'' then [''##''] else []))"

definition rule_20_10_findings :: "macro_table \<Rightarrow> directive_finding list" where
  "rule_20_10_findings t =
     map (\<lambda>m. let name = prop_str m ''name'' ''<macro>''; op_text = operators_text m in
            directive_at m (''#define '' @ name @ '' ... '' @ op_text @ '' ...'') (rule_20_10_finding name op_text))
       (macros_using_token_operators t)"

subsection \<open>The pack\<close>

text \<open>A rule on the tables that does not raise.\<close>

definition table_rule :: "rule_metadata \<Rightarrow> (macro_table \<Rightarrow> directive_finding list) \<Rightarrow> rule_plugin" where
  "table_rule md f = directive_rule md (\<lambda>ctx. Inr (f (rc_macro_table ctx)))"

definition preprocessor_pack :: "rule_plugin list" where
  "preprocessor_pack =
     [table_rule rule_20_4_metadata rule_20_4_findings,
      table_rule rule_20_7_metadata rule_20_7_findings,
      table_rule rule_20_14_metadata rule_20_14_findings,
      table_rule rule_21_1_metadata rule_21_1_findings,
      table_rule rule_2_5_metadata rule_2_5_findings,
      table_rule rule_5_4_metadata rule_5_4_findings,
      scan_rule rule_21_2_metadata (\<lambda>ctx. rule_21_2_findings),
      table_rule rule_20_1_metadata rule_20_1_findings,
      table_rule rule_20_2_metadata rule_20_2_findings,
      table_rule rule_20_3_metadata rule_20_3_findings,
      table_rule rule_20_6_metadata rule_20_6_findings,
      table_rule rule_20_8_metadata rule_20_8_findings,
      directive_rule rule_20_9_metadata (\<lambda>ctx. rule_20_9_findings (rc_macro_table ctx)),
      table_rule rule_20_11_metadata rule_20_11_findings,
      table_rule rule_20_12_metadata rule_20_12_findings,
      table_rule rule_20_13_metadata rule_20_13_findings,
      table_rule rule_20_5_metadata rule_20_5_findings,
      table_rule rule_20_10_metadata rule_20_10_findings]"

end
