(* ===== verification/Pack_Library.thy ===== *)
theory Pack_Library
  imports Rule_Base Alias Expressions
begin

text \<open>
  The standard-library pack (\<open>rule_pack_standard_library.py\<close>): bans of headers and functions,
  checks the worker annotates on calls, and queries of the alias analysis.
\<close>

subsection \<open>The shared loops\<close>

definition forbidden_call_finding :: "string \<Rightarrow> string \<Rightarrow> ast_node \<Rightarrow> finding" where
  "forbidden_call_finding explanation risk n =
     \<lparr>fd_explanation = explanation, fd_risk_description = risk,
      fd_confidence_factors = factors 95 85 90 5 40, fd_confidence_score = dec2 90,
      fd_suggested_fix = Some \<lparr>sf_original_code = offending_text n,
        sf_suggested_code = ''replace with a project-approved alternative'',
        sf_rationale = ''Avoid banned standard-library facilities in safety-critical code.'',
        sf_confidence_score = dec2 40\<rparr>\<rparr>"

definition forbidden_call_results ::
    "string list \<Rightarrow> (string \<Rightarrow> ast_node \<Rightarrow> finding) \<Rightarrow> ast_graph \<Rightarrow> (ast_node \<times> finding) list" where
  "forbidden_call_results forbidden f g =
     report_where (\<lambda>n. sem_str n ''callee'' \<in> set forbidden) (\<lambda>n. f (sem_str n ''callee'') n)
       (nodes_by_kind g ''CallExpr'')"

definition forbidden_header_finding :: "string \<Rightarrow> string \<Rightarrow> string \<Rightarrow> finding" where
  "forbidden_header_finding explanation risk header =
     \<lparr>fd_explanation = explanation, fd_risk_description = risk,
      fd_confidence_factors = factors 95 70 95 5 50, fd_confidence_score = dec2 92,
      fd_suggested_fix = Some \<lparr>sf_original_code = ''#include '' @ header,
        sf_suggested_code = ''remove the include and use a project-approved alternative'',
        sf_rationale = ''Banned standard-library headers shall not be included.'',
        sf_confidence_score = dec2 50\<rparr>\<rparr>"

definition forbidden_header_results ::
    "string list \<Rightarrow> (string \<Rightarrow> finding) \<Rightarrow> macro_table \<Rightarrow> directive_finding list" where
  "forbidden_header_results forbidden f t =
     map (\<lambda>m. \<lparr>df_range = range_of m, df_offending = ''#include '' @ header_of m, df_finding = f (header_of m)\<rparr>)
       (includes_matching t forbidden)"

definition alias_finding :: "string \<Rightarrow> string \<Rightarrow> suggested_fix option \<Rightarrow> finding" where
  "alias_finding explanation risk fix =
     \<lparr>fd_explanation = explanation, fd_risk_description = risk,
      fd_confidence_factors = factors 85 75 85 20 45, fd_confidence_score = dec2 80, fd_suggested_fix = fix\<rparr>"

text \<open>The query runs on an analyzer whose points-to map is built first.\<close>

definition alias_function_violations ::
    "(points_to_map \<Rightarrow> ast_node \<Rightarrow> ast_graph \<Rightarrow> ast_node list option) \<Rightarrow> finding \<Rightarrow> ast_graph \<Rightarrow> (ast_node \<times> finding) list option" where
  "alias_function_violations query f g =
     opt_concat_map (\<lambda>fn. if \<not> has_body g fn then Some []
       else do {
         pts \<leftarrow> analyze_aliases fn g;
         found \<leftarrow> query pts fn g;
         Some (map (\<lambda>n. (n, f)) found) })
      (nodes_by_kind g ''FunctionDecl'')"


definition stdio_calls :: "string list" where
  "stdio_calls =
     [''clearerr'', ''fclose'', ''feof'', ''ferror'', ''fflush'', ''fgetc'', ''fgetpos'',
      ''fgets'', ''fopen'', ''fprintf'', ''fputc'', ''fputs'', ''fread'', ''freopen'',
      ''fscanf'', ''fseek'', ''fsetpos'', ''ftell'', ''fwrite'', ''getc'', ''getchar'', ''gets'',
      ''perror'', ''printf'', ''putc'', ''putchar'', ''puts'', ''remove'', ''rename'',
      ''rewind'', ''scanf'', ''setbuf'', ''setvbuf'', ''snprintf'', ''sprintf'', ''sscanf'',
      ''tmpfile'', ''tmpnam'', ''ungetc'', ''vfprintf'', ''vfscanf'', ''vprintf'', ''vscanf'',
      ''vsnprintf'', ''vsprintf'', ''vsscanf'']"

definition ato_calls :: "string list" where
  "ato_calls =
     [''atof'', ''atoi'', ''atol'', ''atoll'']"

definition abort_exit_calls :: "string list" where
  "abort_exit_calls =
     [''abort'', ''exit'', ''getenv'', ''system'']"

definition malloc_calls :: "string list" where
  "malloc_calls =
     [''malloc'', ''calloc'', ''realloc'', ''free'']"

definition bsearch_qsort_calls :: "string list" where
  "bsearch_qsort_calls =
     [''bsearch'', ''qsort'']"

definition stdarg_calls :: "string list" where
  "stdarg_calls =
     [''va_start'', ''va_arg'', ''va_end'', ''va_copy'']"

subsection \<open>Banned headers and functions: Rules 17.1, 21.3 to 21.12 and 21.21\<close>

definition rule_17_1_metadata :: rule_metadata where
  "rule_17_1_metadata = \<lparr>
     md_rule_id = ''misra-c2012-rule-17-1'',
     md_rule_number = ''17.1'',
     md_standard = MISRA_C_2012,
     md_category = REQUIRED,
     md_severity = CRITICAL,
     md_title = ''The features of <stdarg.h> shall not be used'',
     md_description = ''The variable-argument facilities of <stdarg.h> shall not be used.'',
     md_rationale = ''Variadic functions are difficult to verify and can violate type safety.'',
     md_tags = [''standard-library'', ''stdarg'', ''preprocessor''],
     md_references = [''MISRA C:2012 Rule 17.1''],
     md_plugin_module = ''misra_platform_rules.standards.misra_c_2012.rules.rule_pack_standard_library'',
     md_plugin_version = ''0.1.0'',
     md_requires_ast_nodes = [''CallExpr''],
     md_implementation_category = F_PREPROCESSOR,
     md_rule_pack = Some PREPROCESSOR,
     md_requires_type_info = False,
     md_requires_cfg = False,
     md_requires_dataflow = False,
     md_requires_linkage = False,
     md_requires_macro_expansion = True,
     md_rule_dependencies = []\<rparr>"

definition rule_17_1_header_finding :: "string \<Rightarrow> finding" where
  "rule_17_1_header_finding header = forbidden_header_finding
     (''Header '' @ sq @ header @ sq @ '' provides <stdarg.h> facilities that are banned.'')
     (''Variadic argument handling is difficult to verify in safety-critical code.'') header"

definition rule_17_1_call_finding :: "string \<Rightarrow> ast_node \<Rightarrow> finding" where
  "rule_17_1_call_finding called = forbidden_call_finding
     (''Call to variadic helper '' @ sq @ called @ sq @ '' is banned.'')
     (''stdarg.h facilities shall not be used.'')"

definition rule_17_1_headers :: "macro_table \<Rightarrow> directive_finding list" where
  "rule_17_1_headers t = forbidden_header_results [''stdarg.h''] rule_17_1_header_finding t"

definition rule_17_1_findings :: "ast_graph \<Rightarrow> (ast_node \<times> finding) list" where
  "rule_17_1_findings g = forbidden_call_results stdarg_calls rule_17_1_call_finding g"

definition rule_21_3_metadata :: rule_metadata where
  "rule_21_3_metadata = \<lparr>
     md_rule_id = ''misra-c2012-rule-21-3'',
     md_rule_number = ''21.3'',
     md_standard = MISRA_C_2012,
     md_category = REQUIRED,
     md_severity = CRITICAL,
     md_title = ''The memory allocation/deallocation functions of <stdlib.h> shall not be used'',
     md_description = ''malloc, calloc, realloc, and free shall not be used.'',
     md_rationale = ''Dynamic memory allocation introduces unpredictable failure modes.'',
     md_tags = [''standard-library'', ''stdlib'', ''memory''],
     md_references = [''MISRA C:2012 Rule 21.3''],
     md_plugin_module = ''misra_platform_rules.standards.misra_c_2012.rules.rule_pack_standard_library'',
     md_plugin_version = ''0.1.0'',
     md_requires_ast_nodes = [''CallExpr''],
     md_implementation_category = A_AST_ONLY,
     md_rule_pack = Some STANDARD_LIBRARY,
     md_requires_type_info = False,
     md_requires_cfg = False,
     md_requires_dataflow = False,
     md_requires_linkage = False,
     md_requires_macro_expansion = False,
     md_rule_dependencies = []\<rparr>"

definition rule_21_3_call_finding :: "string \<Rightarrow> ast_node \<Rightarrow> finding" where
  "rule_21_3_call_finding called = forbidden_call_finding
     (''Call to dynamic-memory function '' @ sq @ called @ sq @ '' is banned.'')
     (''Dynamic allocation is not permitted in this safety profile.'')"

definition rule_21_3_findings :: "ast_graph \<Rightarrow> (ast_node \<times> finding) list" where
  "rule_21_3_findings g = forbidden_call_results malloc_calls rule_21_3_call_finding g"

definition rule_21_4_metadata :: rule_metadata where
  "rule_21_4_metadata = \<lparr>
     md_rule_id = ''misra-c2012-rule-21-4'',
     md_rule_number = ''21.4'',
     md_standard = MISRA_C_2012,
     md_category = REQUIRED,
     md_severity = CRITICAL,
     md_title = ''The features of <setjmp.h> shall not be used'',
     md_description = ''The setjmp/longjmp facilities shall not be used.'',
     md_rationale = ''Non-local jumps break structured control flow and complicate verification.'',
     md_tags = [''standard-library'', ''setjmp'', ''preprocessor''],
     md_references = [''MISRA C:2012 Rule 21.4''],
     md_plugin_module = ''misra_platform_rules.standards.misra_c_2012.rules.rule_pack_standard_library'',
     md_plugin_version = ''0.1.0'',
     md_requires_ast_nodes = [],
     md_implementation_category = F_PREPROCESSOR,
     md_rule_pack = Some PREPROCESSOR,
     md_requires_type_info = False,
     md_requires_cfg = False,
     md_requires_dataflow = False,
     md_requires_linkage = False,
     md_requires_macro_expansion = True,
     md_rule_dependencies = []\<rparr>"

definition rule_21_4_header_finding :: "string \<Rightarrow> finding" where
  "rule_21_4_header_finding header = forbidden_header_finding
     (''Header '' @ sq @ header @ sq @ '' provides <setjmp.h> facilities that are banned.'')
     (''setjmp/longjmp shall not be used.'') header"

definition rule_21_4_findings :: "macro_table \<Rightarrow> directive_finding list" where
  "rule_21_4_findings t = forbidden_header_results [''setjmp.h''] rule_21_4_header_finding t"

definition rule_21_5_metadata :: rule_metadata where
  "rule_21_5_metadata = \<lparr>
     md_rule_id = ''misra-c2012-rule-21-5'',
     md_rule_number = ''21.5'',
     md_standard = MISRA_C_2012,
     md_category = REQUIRED,
     md_severity = CRITICAL,
     md_title = ''The features of <signal.h> shall not be used'',
     md_description = ''Signal-handling facilities shall not be used.'',
     md_rationale = ''Asynchronous signal handlers introduce unpredictable control flow.'',
     md_tags = [''standard-library'', ''signal'', ''preprocessor''],
     md_references = [''MISRA C:2012 Rule 21.5''],
     md_plugin_module = ''misra_platform_rules.standards.misra_c_2012.rules.rule_pack_standard_library'',
     md_plugin_version = ''0.1.0'',
     md_requires_ast_nodes = [],
     md_implementation_category = F_PREPROCESSOR,
     md_rule_pack = Some PREPROCESSOR,
     md_requires_type_info = False,
     md_requires_cfg = False,
     md_requires_dataflow = False,
     md_requires_linkage = False,
     md_requires_macro_expansion = True,
     md_rule_dependencies = []\<rparr>"

definition rule_21_5_header_finding :: "string \<Rightarrow> finding" where
  "rule_21_5_header_finding header = forbidden_header_finding
     (''Header '' @ sq @ header @ sq @ '' provides <signal.h> facilities that are banned.'')
     (''Signal handling shall not be used.'') header"

definition rule_21_5_findings :: "macro_table \<Rightarrow> directive_finding list" where
  "rule_21_5_findings t = forbidden_header_results [''signal.h''] rule_21_5_header_finding t"

definition rule_21_6_metadata :: rule_metadata where
  "rule_21_6_metadata = \<lparr>
     md_rule_id = ''misra-c2012-rule-21-6'',
     md_rule_number = ''21.6'',
     md_standard = MISRA_C_2012,
     md_category = REQUIRED,
     md_severity = MAJOR,
     md_title = ''The Standard Library input/output functions should not be used'',
     md_description = ''stdio-style input/output functions should not be used.'',
     md_rationale = ''stdio introduces host-environment dependencies and unpredictable blocking.'',
     md_tags = [''standard-library'', ''stdio''],
     md_references = [''MISRA C:2012 Rule 21.6''],
     md_plugin_module = ''misra_platform_rules.standards.misra_c_2012.rules.rule_pack_standard_library'',
     md_plugin_version = ''0.1.0'',
     md_requires_ast_nodes = [''CallExpr''],
     md_implementation_category = A_AST_ONLY,
     md_rule_pack = Some STANDARD_LIBRARY,
     md_requires_type_info = False,
     md_requires_cfg = False,
     md_requires_dataflow = False,
     md_requires_linkage = False,
     md_requires_macro_expansion = False,
     md_rule_dependencies = []\<rparr>"

definition rule_21_6_call_finding :: "string \<Rightarrow> ast_node \<Rightarrow> finding" where
  "rule_21_6_call_finding called = forbidden_call_finding
     (''Call to stdio function '' @ sq @ called @ sq @ '' is banned.'')
     (''Standard-library I/O should not be used in this safety profile.'')"

definition rule_21_6_findings :: "ast_graph \<Rightarrow> (ast_node \<times> finding) list" where
  "rule_21_6_findings g = forbidden_call_results stdio_calls rule_21_6_call_finding g"

definition rule_21_7_metadata :: rule_metadata where
  "rule_21_7_metadata = \<lparr>
     md_rule_id = ''misra-c2012-rule-21-7'',
     md_rule_number = ''21.7'',
     md_standard = MISRA_C_2012,
     md_category = REQUIRED,
     md_severity = MAJOR,
     md_title = ''The atof, atoi, atol and atoll functions shall not be used'',
     md_description = ''The ato* string-to-number conversion functions shall not be used.'',
     md_rationale = ''These functions provide no error reporting and have undefined overflow behaviour.'',
     md_tags = [''standard-library'', ''stdlib''],
     md_references = [''MISRA C:2012 Rule 21.7''],
     md_plugin_module = ''misra_platform_rules.standards.misra_c_2012.rules.rule_pack_standard_library'',
     md_plugin_version = ''0.1.0'',
     md_requires_ast_nodes = [''CallExpr''],
     md_implementation_category = A_AST_ONLY,
     md_rule_pack = Some STANDARD_LIBRARY,
     md_requires_type_info = False,
     md_requires_cfg = False,
     md_requires_dataflow = False,
     md_requires_linkage = False,
     md_requires_macro_expansion = False,
     md_rule_dependencies = []\<rparr>"

definition rule_21_7_call_finding :: "string \<Rightarrow> ast_node \<Rightarrow> finding" where
  "rule_21_7_call_finding called = forbidden_call_finding
     (''Call to banned conversion function '' @ sq @ called @ sq @ ''.'')
     (''ato* functions provide no reliable error indication.'')"

definition rule_21_7_findings :: "ast_graph \<Rightarrow> (ast_node \<times> finding) list" where
  "rule_21_7_findings g = forbidden_call_results ato_calls rule_21_7_call_finding g"

definition rule_21_8_metadata :: rule_metadata where
  "rule_21_8_metadata = \<lparr>
     md_rule_id = ''misra-c2012-rule-21-8'',
     md_rule_number = ''21.8'',
     md_standard = MISRA_C_2012,
     md_category = REQUIRED,
     md_severity = CRITICAL,
     md_title = ''The library functions abort, exit, getenv and system shall not be used'',
     md_description = ''abort, exit, getenv, and system shall not be used.'',
     md_rationale = ''These functions terminate or interact with the host environment unpredictably.'',
     md_tags = [''standard-library'', ''stdlib''],
     md_references = [''MISRA C:2012 Rule 21.8''],
     md_plugin_module = ''misra_platform_rules.standards.misra_c_2012.rules.rule_pack_standard_library'',
     md_plugin_version = ''0.1.0'',
     md_requires_ast_nodes = [''CallExpr''],
     md_implementation_category = A_AST_ONLY,
     md_rule_pack = Some STANDARD_LIBRARY,
     md_requires_type_info = False,
     md_requires_cfg = False,
     md_requires_dataflow = False,
     md_requires_linkage = False,
     md_requires_macro_expansion = False,
     md_rule_dependencies = []\<rparr>"

definition rule_21_8_call_finding :: "string \<Rightarrow> ast_node \<Rightarrow> finding" where
  "rule_21_8_call_finding called = forbidden_call_finding
     (''Call to banned environment/termination function '' @ sq @ called @ sq @ ''.'')
     (''Process termination and host-environment calls are not permitted.'')"

definition rule_21_8_findings :: "ast_graph \<Rightarrow> (ast_node \<times> finding) list" where
  "rule_21_8_findings g = forbidden_call_results abort_exit_calls rule_21_8_call_finding g"

definition rule_21_9_metadata :: rule_metadata where
  "rule_21_9_metadata = \<lparr>
     md_rule_id = ''misra-c2012-rule-21-9'',
     md_rule_number = ''21.9'',
     md_standard = MISRA_C_2012,
     md_category = ADVISORY,
     md_severity = MINOR,
     md_title = ''The library functions bsearch and qsort should not be used'',
     md_description = ''bsearch and qsort should not be used.'',
     md_rationale = ''Comparator callbacks and runtime sorting complicate verification.'',
     md_tags = [''standard-library'', ''stdlib''],
     md_references = [''MISRA C:2012 Rule 21.9''],
     md_plugin_module = ''misra_platform_rules.standards.misra_c_2012.rules.rule_pack_standard_library'',
     md_plugin_version = ''0.1.0'',
     md_requires_ast_nodes = [''CallExpr''],
     md_implementation_category = A_AST_ONLY,
     md_rule_pack = Some STANDARD_LIBRARY,
     md_requires_type_info = False,
     md_requires_cfg = False,
     md_requires_dataflow = False,
     md_requires_linkage = False,
     md_requires_macro_expansion = False,
     md_rule_dependencies = []\<rparr>"

definition rule_21_9_call_finding :: "string \<Rightarrow> ast_node \<Rightarrow> finding" where
  "rule_21_9_call_finding called = forbidden_call_finding
     (''Call to banned sorting/search function '' @ sq @ called @ sq @ ''.'')
     (''bsearch/qsort introduce callback-based control flow.'')"

definition rule_21_9_findings :: "ast_graph \<Rightarrow> (ast_node \<times> finding) list" where
  "rule_21_9_findings g = forbidden_call_results bsearch_qsort_calls rule_21_9_call_finding g"

definition rule_21_10_metadata :: rule_metadata where
  "rule_21_10_metadata = \<lparr>
     md_rule_id = ''misra-c2012-rule-21-10'',
     md_rule_number = ''21.10'',
     md_standard = MISRA_C_2012,
     md_category = REQUIRED,
     md_severity = MAJOR,
     md_title = ''The features of <time.h> should not be used'',
     md_description = ''time.h facilities should not be used.'',
     md_rationale = ''Wall-clock time is host-dependent and non-deterministic.'',
     md_tags = [''standard-library'', ''time'', ''preprocessor''],
     md_references = [''MISRA C:2012 Rule 21.10''],
     md_plugin_module = ''misra_platform_rules.standards.misra_c_2012.rules.rule_pack_standard_library'',
     md_plugin_version = ''0.1.0'',
     md_requires_ast_nodes = [],
     md_implementation_category = F_PREPROCESSOR,
     md_rule_pack = Some PREPROCESSOR,
     md_requires_type_info = False,
     md_requires_cfg = False,
     md_requires_dataflow = False,
     md_requires_linkage = False,
     md_requires_macro_expansion = True,
     md_rule_dependencies = []\<rparr>"

definition rule_21_10_header_finding :: "string \<Rightarrow> finding" where
  "rule_21_10_header_finding header = forbidden_header_finding
     (''Header '' @ sq @ header @ sq @ '' provides <time.h> facilities that are banned.'')
     (''time.h should not be used in this safety profile.'') header"

definition rule_21_10_findings :: "macro_table \<Rightarrow> directive_finding list" where
  "rule_21_10_findings t = forbidden_header_results [''time.h''] rule_21_10_header_finding t"

definition rule_21_11_metadata :: rule_metadata where
  "rule_21_11_metadata = \<lparr>
     md_rule_id = ''misra-c2012-rule-21-11'',
     md_rule_number = ''21.11'',
     md_standard = MISRA_C_2012,
     md_category = ADVISORY,
     md_severity = MINOR,
     md_title = ''The features of <tgmath.h> should not be used'',
     md_description = ''Type-generic math facilities should not be used.'',
     md_rationale = ''tgmath.h relies on compiler magic and obscures essential types.'',
     md_tags = [''standard-library'', ''tgmath'', ''preprocessor''],
     md_references = [''MISRA C:2012 Rule 21.11''],
     md_plugin_module = ''misra_platform_rules.standards.misra_c_2012.rules.rule_pack_standard_library'',
     md_plugin_version = ''0.1.0'',
     md_requires_ast_nodes = [],
     md_implementation_category = F_PREPROCESSOR,
     md_rule_pack = Some PREPROCESSOR,
     md_requires_type_info = False,
     md_requires_cfg = False,
     md_requires_dataflow = False,
     md_requires_linkage = False,
     md_requires_macro_expansion = True,
     md_rule_dependencies = []\<rparr>"

definition rule_21_11_header_finding :: "string \<Rightarrow> finding" where
  "rule_21_11_header_finding header = forbidden_header_finding
     (''Header '' @ sq @ header @ sq @ '' provides <tgmath.h> facilities that are banned.'')
     (''Type-generic math should not be used.'') header"

definition rule_21_11_findings :: "macro_table \<Rightarrow> directive_finding list" where
  "rule_21_11_findings t = forbidden_header_results [''tgmath.h''] rule_21_11_header_finding t"

definition rule_21_12_metadata :: rule_metadata where
  "rule_21_12_metadata = \<lparr>
     md_rule_id = ''misra-c2012-rule-21-12'',
     md_rule_number = ''21.12'',
     md_standard = MISRA_C_2012,
     md_category = ADVISORY,
     md_severity = MINOR,
     md_title = ''The exception-handling features of <fenv.h> should not be used'',
     md_description = ''Floating-point environment control from <fenv.h> should not be used.'',
     md_rationale = ''FENV manipulation is platform-specific and hard to verify.'',
     md_tags = [''standard-library'', ''fenv'', ''preprocessor''],
     md_references = [''MISRA C:2012 Rule 21.12''],
     md_plugin_module = ''misra_platform_rules.standards.misra_c_2012.rules.rule_pack_standard_library'',
     md_plugin_version = ''0.1.0'',
     md_requires_ast_nodes = [],
     md_implementation_category = F_PREPROCESSOR,
     md_rule_pack = Some PREPROCESSOR,
     md_requires_type_info = False,
     md_requires_cfg = False,
     md_requires_dataflow = False,
     md_requires_linkage = False,
     md_requires_macro_expansion = True,
     md_rule_dependencies = []\<rparr>"

definition rule_21_12_header_finding :: "string \<Rightarrow> finding" where
  "rule_21_12_header_finding header = forbidden_header_finding
     (''Header '' @ sq @ header @ sq @ '' provides <fenv.h> facilities that are banned.'')
     (''Floating-point environment control should not be used.'') header"

definition rule_21_12_findings :: "macro_table \<Rightarrow> directive_finding list" where
  "rule_21_12_findings t = forbidden_header_results [''fenv.h''] rule_21_12_header_finding t"

definition rule_21_21_metadata :: rule_metadata where
  "rule_21_21_metadata = \<lparr>
     md_rule_id = ''misra-c2012-rule-21-21'',
     md_rule_number = ''21.21'',
     md_standard = MISRA_C_2012,
     md_category = REQUIRED,
     md_severity = CRITICAL,
     md_title = ''The system function of <stdlib.h> shall not be used'',
     md_description = ''The system() function shall not be used.'',
     md_rationale = ''system() invokes a host shell and is inherently non-deterministic.'',
     md_tags = [''standard-library'', ''stdlib''],
     md_references = [''MISRA C:2012 Rule 21.21''],
     md_plugin_module = ''misra_platform_rules.standards.misra_c_2012.rules.rule_pack_standard_library'',
     md_plugin_version = ''0.1.0'',
     md_requires_ast_nodes = [''CallExpr''],
     md_implementation_category = A_AST_ONLY,
     md_rule_pack = Some STANDARD_LIBRARY,
     md_requires_type_info = False,
     md_requires_cfg = False,
     md_requires_dataflow = False,
     md_requires_linkage = False,
     md_requires_macro_expansion = False,
     md_rule_dependencies = []\<rparr>"

definition rule_21_21_call_finding :: "string \<Rightarrow> ast_node \<Rightarrow> finding" where
  "rule_21_21_call_finding called = forbidden_call_finding
     (''Call to banned function '' @ sq @ called @ sq @ ''.'')
     (''system() shall not be used.'')"

definition rule_21_21_findings :: "ast_graph \<Rightarrow> (ast_node \<times> finding) list" where
  "rule_21_21_findings g = forbidden_call_results [''system''] rule_21_21_call_finding g"

subsection \<open>Rules 22.8, 21.14, 21.16 and 21.19\<close>

definition rule_22_8_metadata :: rule_metadata where
  "rule_22_8_metadata = \<lparr>
     md_rule_id = ''misra-c2012-rule-22-8'',
     md_rule_number = ''22.8'',
     md_standard = MISRA_C_2012,
     md_category = REQUIRED,
     md_severity = MAJOR,
     md_title = ''The value of errno shall be set to zero before calling an errno-setting function'',
     md_description = ''errno shall be cleared before calling a function that may set it.'',
     md_rationale = ''A stale errno value can be mistaken for a new error.'',
     md_tags = [''standard-library'', ''errno''],
     md_references = [''MISRA C:2012 Rule 22.8''],
     md_plugin_module = ''misra_platform_rules.standards.misra_c_2012.rules.rule_pack_standard_library'',
     md_plugin_version = ''0.1.0'',
     md_requires_ast_nodes = [''CallExpr''],
     md_implementation_category = A_AST_ONLY,
     md_rule_pack = Some STANDARD_LIBRARY,
     md_requires_type_info = False,
     md_requires_cfg = False,
     md_requires_dataflow = False,
     md_requires_linkage = False,
     md_requires_macro_expansion = False,
     md_rule_dependencies = []\<rparr>"

definition rule_22_8_finding :: "string \<Rightarrow> ast_node \<Rightarrow> finding" where
  "rule_22_8_finding called n = \<lparr>
     fd_explanation = ''errno was not cleared before calling '' @ sq @ called @ sq @ ''.'',
     fd_risk_description = ''A stale errno may be misread as belonging to this call.'',
     fd_confidence_factors = factors 90 80 85 10 50,
     fd_confidence_score = dec2 85,
     fd_suggested_fix = Some \<lparr>sf_original_code = offending_text n,
       sf_suggested_code = ''errno = 0; /* then call */'',
       sf_rationale = ''Clear errno immediately before an errno-setting library call.'',
       sf_confidence_score = dec2 50\<rparr>\<rparr>"

definition rule_22_8_findings :: "ast_graph \<Rightarrow> (ast_node \<times> finding) list" where
  "rule_22_8_findings g =
     report_where (\<lambda>n. sem_flag n ''requires_errno_clear'' \<and> \<not> sem_flag n ''errno_cleared'') (\<lambda>n. rule_22_8_finding (sem_str n ''callee'') n)
       (nodes_by_kind g ''CallExpr'')"

definition rule_21_14_metadata :: rule_metadata where
  "rule_21_14_metadata = \<lparr>
     md_rule_id = ''misra-c2012-rule-21-14'',
     md_rule_number = ''21.14'',
     md_standard = MISRA_C_2012,
     md_category = REQUIRED,
     md_severity = MAJOR,
     md_title = ''The Standard Library function memcmp shall not be used to compare null terminated strings'',
     md_description = ''memcmp shall not be used to compare null-terminated strings.'',
     md_rationale = ''memcmp does not stop at the null terminator and may read past the string end.'',
     md_tags = [''standard-library'', ''strings'', ''memcmp''],
     md_references = [''MISRA C:2012 Rule 21.14''],
     md_plugin_module = ''misra_platform_rules.standards.misra_c_2012.rules.rule_pack_standard_library'',
     md_plugin_version = ''0.1.0'',
     md_requires_ast_nodes = [''CallExpr''],
     md_implementation_category = B_TYPE_SYSTEM,
     md_rule_pack = Some STANDARD_LIBRARY,
     md_requires_type_info = True,
     md_requires_cfg = False,
     md_requires_dataflow = False,
     md_requires_linkage = False,
     md_requires_macro_expansion = False,
     md_rule_dependencies = []\<rparr>"

definition rule_21_14_finding :: "ast_node \<Rightarrow> finding" where
  "rule_21_14_finding n = \<lparr>
     fd_explanation = ''memcmp is used to compare null-terminated strings.'',
     fd_risk_description = ''memcmp may read past the null terminator.'',
     fd_confidence_factors = factors 90 85 90 10 50,
     fd_confidence_score = dec2 85,
     fd_suggested_fix = Some \<lparr>sf_original_code = offending_text n,
       sf_suggested_code = ''use strcmp instead of memcmp for null-terminated strings'',
       sf_rationale = ''strcmp respects the null terminator.'',
       sf_confidence_score = dec2 50\<rparr>\<rparr>"

definition rule_21_14_findings :: "ast_graph \<Rightarrow> (ast_node \<times> finding) list" where
  "rule_21_14_findings g =
     report_where (\<lambda>n. sem_str n ''callee'' = ''memcmp'' \<and> sem_flag n ''compares_null_terminated_strings'') (\<lambda>n. rule_21_14_finding n)
       (nodes_by_kind g ''CallExpr'')"

definition rule_21_16_metadata :: rule_metadata where
  "rule_21_16_metadata = \<lparr>
     md_rule_id = ''misra-c2012-rule-21-16'',
     md_rule_number = ''21.16'',
     md_standard = MISRA_C_2012,
     md_category = ADVISORY,
     md_severity = MINOR,
     md_title = ''Pointer arguments to memcmp should point to essentially signed, unsigned or char type'',
     md_description = ''Pointer arguments to memcmp should point to a pointer, essentially signed char, unsigned char, or void type.'',
     md_rationale = ''memcmp on non-byte object types can compare padding bytes unpredictably.'',
     md_tags = [''standard-library'', ''memcmp'', ''pointers''],
     md_references = [''MISRA C:2012 Rule 21.16''],
     md_plugin_module = ''misra_platform_rules.standards.misra_c_2012.rules.rule_pack_standard_library'',
     md_plugin_version = ''0.1.0'',
     md_requires_ast_nodes = [''CallExpr''],
     md_implementation_category = B_TYPE_SYSTEM,
     md_rule_pack = Some STANDARD_LIBRARY,
     md_requires_type_info = True,
     md_requires_cfg = False,
     md_requires_dataflow = False,
     md_requires_linkage = False,
     md_requires_macro_expansion = False,
     md_rule_dependencies = []\<rparr>"

definition rule_21_16_finding :: "ast_node \<Rightarrow> finding" where
  "rule_21_16_finding n = \<lparr>
     fd_explanation = ''memcmp argument has an inappropriate pointer essential type.'',
     fd_risk_description = ''memcmp on non-byte types may compare padding bytes.'',
     fd_confidence_factors = factors 88 82 88 15 35,
     fd_confidence_score = dec2 78,
     fd_suggested_fix = Some \<lparr>sf_original_code = offending_text n,
       sf_suggested_code = ''cast to uint8_t * or use a byte-oriented comparison'',
       sf_rationale = ''memcmp arguments should be byte pointers.'',
       sf_confidence_score = dec2 35\<rparr>\<rparr>"

definition rule_21_16_findings :: "ast_graph \<Rightarrow> (ast_node \<times> finding) list" where
  "rule_21_16_findings g =
     concat (map (\<lambda>c. report_where (\<lambda>n. sem_flag n ''invalid_pointer_argument'') rule_21_16_finding (children g (node_id c)))
       (filter (\<lambda>n. sem_str n ''callee'' = ''memcmp'') (nodes_by_kind g ''CallExpr'')))"

definition rule_21_19_metadata :: rule_metadata where
  "rule_21_19_metadata = \<lparr>
     md_rule_id = ''misra-c2012-rule-21-19'',
     md_rule_number = ''21.19'',
     md_standard = MISRA_C_2012,
     md_category = MANDATORY,
     md_severity = CRITICAL,
     md_title = ''Pointers returned by certain Standard Library functions shall only be used as if pointing to const-qualified type'',
     md_description = ''Pointers returned by locale/string library functions shall be treated as pointer-to-const-qualified type.'',
     md_rationale = ''Library-returned pointers may point to read-only storage.'',
     md_tags = [''standard-library'', ''pointers'', ''qualifiers''],
     md_references = [''MISRA C:2012 Rule 21.19''],
     md_plugin_module = ''misra_platform_rules.standards.misra_c_2012.rules.rule_pack_standard_library'',
     md_plugin_version = ''0.1.0'',
     md_requires_ast_nodes = [''DeclRefExpr'', ''UnaryOperator''],
     md_implementation_category = B_TYPE_SYSTEM,
     md_rule_pack = Some STANDARD_LIBRARY,
     md_requires_type_info = True,
     md_requires_cfg = False,
     md_requires_dataflow = False,
     md_requires_linkage = False,
     md_requires_macro_expansion = False,
     md_rule_dependencies = []\<rparr>"

definition rule_21_19_finding :: "ast_node \<Rightarrow> finding" where
  "rule_21_19_finding n = \<lparr>
     fd_explanation = ''Library-returned pointer is used without const qualification.'',
     fd_risk_description = ''Writing through a library-returned pointer may be undefined behaviour.'',
     fd_confidence_factors = factors 90 85 88 10 50,
     fd_confidence_score = dec2 85,
     fd_suggested_fix = Some \<lparr>sf_original_code = offending_text n,
       sf_suggested_code = ''declare the pointer as const-qualified'',
       sf_rationale = ''Treat library-returned pointers as read-only.'',
       sf_confidence_score = dec2 50\<rparr>\<rparr>"

definition rule_21_19_findings :: "ast_graph \<Rightarrow> (ast_node \<times> finding) list" where
  "rule_21_19_findings g =
     report_where (\<lambda>n. sem_flag n ''returned_pointer_missing_const'') (\<lambda>n. rule_21_19_finding n)
       (nodes_by_kinds g [''DeclRefExpr'', ''UnaryOperator''])"

subsection \<open>Rules 22.5, 22.7, 22.1, 22.2 and 22.3\<close>

definition rule_22_5_metadata :: rule_metadata where
  "rule_22_5_metadata = \<lparr>
     md_rule_id = ''misra-c2012-rule-22-5'',
     md_rule_number = ''22.5'',
     md_standard = MISRA_C_2012,
     md_category = MANDATORY,
     md_severity = CRITICAL,
     md_title = ''A pointer to a FILE object shall not be dereferenced'',
     md_description = ''The object addressed by a pointer to FILE shall not be accessed directly.'',
     md_rationale = ''FILE objects are opaque; direct dereference is undefined behaviour.'',
     md_tags = [''standard-library'', ''stdio'', ''pointers''],
     md_references = [''MISRA C:2012 Rule 22.5''],
     md_plugin_module = ''misra_platform_rules.standards.misra_c_2012.rules.rule_pack_standard_library'',
     md_plugin_version = ''0.1.0'',
     md_requires_ast_nodes = [''UnaryOperator''],
     md_implementation_category = B_TYPE_SYSTEM,
     md_rule_pack = Some STANDARD_LIBRARY,
     md_requires_type_info = True,
     md_requires_cfg = False,
     md_requires_dataflow = False,
     md_requires_linkage = False,
     md_requires_macro_expansion = False,
     md_rule_dependencies = []\<rparr>"

definition rule_22_5_finding :: "ast_node \<Rightarrow> finding" where
  "rule_22_5_finding n = \<lparr>
     fd_explanation = ''A FILE pointer is dereferenced directly.'',
     fd_risk_description = ''FILE objects are opaque and shall not be accessed directly.'',
     fd_confidence_factors = factors 92 88 90 5 60,
     fd_confidence_score = dec2 90,
     fd_suggested_fix = Some \<lparr>sf_original_code = offending_text n,
       sf_suggested_code = ''use stdio functions instead of dereferencing FILE*'',
       sf_rationale = ''Never dereference a FILE pointer.'',
       sf_confidence_score = dec2 60\<rparr>\<rparr>"

definition rule_22_5_findings :: "ast_graph \<Rightarrow> (ast_node \<times> finding) list" where
  "rule_22_5_findings g =
     report_where (\<lambda>n. sem_str n ''opcode'' = ''*''
         \<and> (case first_child g n of None \<Rightarrow> False | Some c \<Rightarrow> is_file_pointer c))
       rule_22_5_finding (nodes_by_kind g ''UnaryOperator'')"

definition rule_22_7_metadata :: rule_metadata where
  "rule_22_7_metadata = \<lparr>
     md_rule_id = ''misra-c2012-rule-22-7'',
     md_rule_number = ''22.7'',
     md_standard = MISRA_C_2012,
     md_category = REQUIRED,
     md_severity = MAJOR,
     md_title = ''The macro EOF shall only be compared with the unmodified return value of certain library functions'',
     md_description = ''EOF shall only be compared with the unmodified return value of a stream input function.'',
     md_rationale = ''Modifying the return value before comparing with EOF can miss end-of-file.'',
     md_tags = [''standard-library'', ''stdio'', ''eof''],
     md_references = [''MISRA C:2012 Rule 22.7''],
     md_plugin_module = ''misra_platform_rules.standards.misra_c_2012.rules.rule_pack_standard_library'',
     md_plugin_version = ''0.1.0'',
     md_requires_ast_nodes = [''BinaryOperator''],
     md_implementation_category = B_TYPE_SYSTEM,
     md_rule_pack = Some STANDARD_LIBRARY,
     md_requires_type_info = True,
     md_requires_cfg = False,
     md_requires_dataflow = False,
     md_requires_linkage = False,
     md_requires_macro_expansion = False,
     md_rule_dependencies = []\<rparr>"

definition rule_22_7_finding :: "ast_node \<Rightarrow> finding" where
  "rule_22_7_finding n = \<lparr>
     fd_explanation = ''EOF is compared with a modified stream-input return value.'',
     fd_risk_description = ''Modified return values may not equal EOF even at end-of-file.'',
     fd_confidence_factors = factors 90 85 88 10 50,
     fd_confidence_score = dec2 85,
     fd_suggested_fix = Some \<lparr>sf_original_code = offending_text n,
       sf_suggested_code = ''compare EOF with the unmodified return value'',
       sf_rationale = ''Do not transform the stream-input result before EOF comparison.'',
       sf_confidence_score = dec2 50\<rparr>\<rparr>"

definition rule_22_7_findings :: "ast_graph \<Rightarrow> (ast_node \<times> finding) list" where
  "rule_22_7_findings g =
     report_where (\<lambda>n. sem_flag n ''eof_operand_modified'') (\<lambda>n. rule_22_7_finding n)
       (nodes_by_kind g ''BinaryOperator'')"

definition rule_22_1_metadata :: rule_metadata where
  "rule_22_1_metadata = \<lparr>
     md_rule_id = ''misra-c2012-rule-22-1'',
     md_rule_number = ''22.1'',
     md_standard = MISRA_C_2012,
     md_category = REQUIRED,
     md_severity = MAJOR,
     md_title = ''All resources obtained dynamically shall be explicitly released'',
     md_description = ''Every dynamically obtained resource shall be explicitly deallocated.'',
     md_rationale = ''Leaked dynamic resources exhaust memory and handles over time.'',
     md_tags = [''standard-library'', ''resources'', ''malloc''],
     md_references = [''MISRA C:2012 Rule 22.1''],
     md_plugin_module = ''misra_platform_rules.standards.misra_c_2012.rules.rule_pack_standard_library'',
     md_plugin_version = ''0.1.0'',
     md_requires_ast_nodes = [''CallExpr'', ''FunctionDecl''],
     md_implementation_category = D_DATA_FLOW,
     md_rule_pack = Some STANDARD_LIBRARY,
     md_requires_type_info = False,
     md_requires_cfg = False,
     md_requires_dataflow = False,
     md_requires_linkage = False,
     md_requires_macro_expansion = False,
     md_rule_dependencies = []\<rparr>"

definition rule_22_1_finding :: "ast_node \<Rightarrow> finding" where
  "rule_22_1_finding n = \<lparr>
     fd_explanation = ''A dynamically obtained resource is not explicitly released.'',
     fd_risk_description = ''Resource leaks accumulate and can exhaust system memory.'',
     fd_confidence_factors = factors 85 75 85 15 40,
     fd_confidence_score = dec2 78,
     fd_suggested_fix = Some \<lparr>sf_original_code = offending_text n,
       sf_suggested_code = ''add an explicit free/close for every dynamic allocation'',
       sf_rationale = ''Pair every dynamic resource acquisition with an explicit release.'',
       sf_confidence_score = dec2 40\<rparr>\<rparr>"

definition rule_22_1_findings :: "ast_graph \<Rightarrow> (ast_node \<times> finding) list" where
  "rule_22_1_findings g =
     report_where (\<lambda>n. sem_flag n ''dynamic_resource_leak'') (\<lambda>n. rule_22_1_finding n)
       (nodes_by_kinds g [''CallExpr'', ''FunctionDecl''])"

definition rule_22_2_metadata :: rule_metadata where
  "rule_22_2_metadata = \<lparr>
     md_rule_id = ''misra-c2012-rule-22-2'',
     md_rule_number = ''22.2'',
     md_standard = MISRA_C_2012,
     md_category = MANDATORY,
     md_severity = CRITICAL,
     md_title = ''A resource obtained shall not be released more than once'',
     md_description = ''A dynamically obtained resource shall not be freed or closed more than once.'',
     md_rationale = ''Double release is undefined behaviour and corrupts heap bookkeeping.'',
     md_tags = [''standard-library'', ''resources'', ''free''],
     md_references = [''MISRA C:2012 Rule 22.2''],
     md_plugin_module = ''misra_platform_rules.standards.misra_c_2012.rules.rule_pack_standard_library'',
     md_plugin_version = ''0.1.0'',
     md_requires_ast_nodes = [''CallExpr''],
     md_implementation_category = D_DATA_FLOW,
     md_rule_pack = Some STANDARD_LIBRARY,
     md_requires_type_info = False,
     md_requires_cfg = False,
     md_requires_dataflow = False,
     md_requires_linkage = False,
     md_requires_macro_expansion = False,
     md_rule_dependencies = []\<rparr>"

definition rule_22_2_finding :: "string \<Rightarrow> ast_node \<Rightarrow> finding" where
  "rule_22_2_finding called n = \<lparr>
     fd_explanation = sq @ called @ sq @ '' releases a resource that was already released.'',
     fd_risk_description = ''Double release corrupts heap state and is undefined behaviour.'',
     fd_confidence_factors = factors 90 80 85 10 45,
     fd_confidence_score = dec2 85,
     fd_suggested_fix = Some \<lparr>sf_original_code = offending_text n,
       sf_suggested_code = ''release the resource exactly once and null the pointer afterward'',
       sf_rationale = ''Never call free/close on an already-released resource.'',
       sf_confidence_score = dec2 45\<rparr>\<rparr>"

definition rule_22_2_findings :: "ast_graph \<Rightarrow> (ast_node \<times> finding) list" where
  "rule_22_2_findings g =
     report_where (\<lambda>n. sem_flag n ''double_release'') (\<lambda>n. rule_22_2_finding (sem_str n ''callee'') n)
       (nodes_by_kind g ''CallExpr'')"

definition rule_22_3_metadata :: rule_metadata where
  "rule_22_3_metadata = \<lparr>
     md_rule_id = ''misra-c2012-rule-22-3'',
     md_rule_number = ''22.3'',
     md_standard = MISRA_C_2012,
     md_category = ADVISORY,
     md_severity = MINOR,
     md_title = ''The same file/stream should not be open for read and write at the same time in different streams'',
     md_description = ''A file shall not be opened for read and write through different streams concurrently.'',
     md_rationale = ''Concurrent read/write streams on one file invite data races and corruption.'',
     md_tags = [''standard-library'', ''stdio'', ''streams''],
     md_references = [''MISRA C:2012 Rule 22.3''],
     md_plugin_module = ''misra_platform_rules.standards.misra_c_2012.rules.rule_pack_standard_library'',
     md_plugin_version = ''0.1.0'',
     md_requires_ast_nodes = [''CallExpr''],
     md_implementation_category = D_DATA_FLOW,
     md_rule_pack = Some STANDARD_LIBRARY,
     md_requires_type_info = False,
     md_requires_cfg = False,
     md_requires_dataflow = False,
     md_requires_linkage = False,
     md_requires_macro_expansion = False,
     md_rule_dependencies = []\<rparr>"

definition rule_22_3_finding :: "string \<Rightarrow> ast_node \<Rightarrow> finding" where
  "rule_22_3_finding called n = \<lparr>
     fd_explanation = sq @ called @ sq @ '' opens concurrent read/write access to the same file.'',
     fd_risk_description = ''Concurrent streams on one file can corrupt buffered I/O state.'',
     fd_confidence_factors = factors 85 75 85 15 35,
     fd_confidence_score = dec2 75,
     fd_suggested_fix = Some \<lparr>sf_original_code = offending_text n,
       sf_suggested_code = ''use a single stream or serialize access to the file'',
       sf_rationale = ''Avoid opening the same file for read and write simultaneously.'',
       sf_confidence_score = dec2 35\<rparr>\<rparr>"

definition rule_22_3_findings :: "ast_graph \<Rightarrow> (ast_node \<times> finding) list" where
  "rule_22_3_findings g =
     report_where (\<lambda>n. sem_flag n ''concurrent_stream_access'') (\<lambda>n. rule_22_3_finding (sem_str n ''callee'') n)
       (nodes_by_kind g ''CallExpr'')"

subsection \<open>Rules 22.9 and 22.10\<close>

definition rule_22_9_metadata :: rule_metadata where
  "rule_22_9_metadata = \<lparr>
     md_rule_id = ''misra-c2012-rule-22-9'',
     md_rule_number = ''22.9'',
     md_standard = MISRA_C_2012,
     md_category = REQUIRED,
     md_severity = MAJOR,
     md_title = ''The value of errno shall be tested against zero after calling an errno-setting function'',
     md_description = ''errno shall be tested after every call to a function that may set it.'',
     md_rationale = ''Failing to test errno after an errno-setting call drops error information.'',
     md_tags = [''standard-library'', ''errno''],
     md_references = [''MISRA C:2012 Rule 22.9''],
     md_plugin_module = ''misra_platform_rules.standards.misra_c_2012.rules.rule_pack_standard_library'',
     md_plugin_version = ''0.1.0'',
     md_requires_ast_nodes = [''CallExpr'', ''CompoundStmt''],
     md_implementation_category = D_DATA_FLOW,
     md_rule_pack = Some STANDARD_LIBRARY,
     md_requires_type_info = False,
     md_requires_cfg = False,
     md_requires_dataflow = False,
     md_requires_linkage = False,
     md_requires_macro_expansion = False,
     md_rule_dependencies = []\<rparr>"

definition rule_22_9_finding :: "ast_node \<Rightarrow> finding" where
  "rule_22_9_finding n = \<lparr>
     fd_explanation = ''errno was not tested after an errno-setting library call.'',
     fd_risk_description = ''Untested errno may leave an error condition undetected.'',
     fd_confidence_factors = factors 88 80 85 12 50,
     fd_confidence_score = dec2 82,
     fd_suggested_fix = Some \<lparr>sf_original_code = offending_text n,
       sf_suggested_code = ''if (errno != 0) { /* handle error */ }'',
       sf_rationale = ''Test errno against zero after every errno-setting call.'',
       sf_confidence_score = dec2 50\<rparr>\<rparr>"

definition rule_22_9_findings :: "ast_graph \<Rightarrow> (ast_node \<times> finding) list" where
  "rule_22_9_findings g =
     report_where (\<lambda>n. node_kind n \<in> {''CompoundStmt'', ''IfStmt'', ''WhileStmt'', ''ForStmt'', ''DoStmt''}
         \<and> sem_flag n ''errno_not_tested'') rule_22_9_finding (all_nodes g)"

definition rule_22_10_metadata :: rule_metadata where
  "rule_22_10_metadata = \<lparr>
     md_rule_id = ''misra-c2012-rule-22-10'',
     md_rule_number = ''22.10'',
     md_standard = MISRA_C_2012,
     md_category = REQUIRED,
     md_severity = MAJOR,
     md_title = ''The value of errno shall only be tested when the function return value indicates failure'',
     md_description = ''errno shall only be inspected when the preceding library call indicates failure.'',
     md_rationale = ''errno is only meaningful when the return value shows the call failed.'',
     md_tags = [''standard-library'', ''errno''],
     md_references = [''MISRA C:2012 Rule 22.10''],
     md_plugin_module = ''misra_platform_rules.standards.misra_c_2012.rules.rule_pack_standard_library'',
     md_plugin_version = ''0.1.0'',
     md_requires_ast_nodes = [''BinaryOperator'', ''IfStmt''],
     md_implementation_category = D_DATA_FLOW,
     md_rule_pack = Some STANDARD_LIBRARY,
     md_requires_type_info = False,
     md_requires_cfg = False,
     md_requires_dataflow = False,
     md_requires_linkage = False,
     md_requires_macro_expansion = False,
     md_rule_dependencies = []\<rparr>"

definition rule_22_10_finding :: "ast_node \<Rightarrow> finding" where
  "rule_22_10_finding n = \<lparr>
     fd_explanation = ''errno is tested without first checking that the library call failed.'',
     fd_risk_description = ''errno may contain a stale value when the call succeeded.'',
     fd_confidence_factors = factors 88 80 85 12 50,
     fd_confidence_score = dec2 82,
     fd_suggested_fix = Some \<lparr>sf_original_code = offending_text n,
       sf_suggested_code = ''check the return value for failure before testing errno'',
       sf_rationale = ''Only inspect errno when the function return indicates an error.'',
       sf_confidence_score = dec2 50\<rparr>\<rparr>"

definition rule_22_10_findings :: "ast_graph \<Rightarrow> (ast_node \<times> finding) list" where
  "rule_22_10_findings g =
     report_where (\<lambda>n. sem_flag n ''errno_tested_without_failure_check'') (\<lambda>n. rule_22_10_finding n)
       (nodes_by_kinds g [''BinaryOperator'', ''IfStmt''])"

subsection \<open>Rules over the alias analysis: 21.15, 21.17, 21.18, 21.20 and 22.6\<close>

definition rule_21_15_metadata :: rule_metadata where
  "rule_21_15_metadata = \<lparr>
     md_rule_id = ''misra-c2012-rule-21-15'',
     md_rule_number = ''21.15'',
     md_standard = MISRA_C_2012,
     md_category = REQUIRED,
     md_severity = MAJOR,
     md_title = ''Pointer arguments to memcpy/memmove/memcmp shall be pointers to compatible types'',
     md_description = ''Pointer arguments to memcpy, memmove, and memcmp shall point to compatible types.'',
     md_rationale = ''Incompatible pointer types make the effective element size ambiguous.'',
     md_tags = [''standard-library'', ''aliasing'', ''memory''],
     md_references = [''MISRA C:2012 Rule 21.15''],
     md_plugin_module = ''misra_platform_rules.standards.misra_c_2012.rules.rule_pack_standard_library'',
     md_plugin_version = ''0.1.0'',
     md_requires_ast_nodes = [''CallExpr'', ''FunctionDecl''],
     md_implementation_category = D_DATA_FLOW,
     md_rule_pack = Some STANDARD_LIBRARY,
     md_requires_type_info = False,
     md_requires_cfg = False,
     md_requires_dataflow = True,
     md_requires_linkage = False,
     md_requires_macro_expansion = False,
     md_rule_dependencies = []\<rparr>"

definition rule_21_15_finding :: finding where
  "rule_21_15_finding = alias_finding
     (''memcpy/memmove/memcmp is called with incompatible pointer argument types.'')
     (''Incompatible pointer types make the memory operation'' @ sq @ ''s element size ambiguous.'')
     (Some \<lparr>sf_original_code = ''memcpy(...)'',
       sf_suggested_code = ''ensure both pointer arguments reference compatible object types'',
       sf_rationale = ''Use pointers to the same or compatible element types.'',
       sf_confidence_score = dec2 45\<rparr>)"

definition rule_21_15_findings :: "ast_graph \<Rightarrow> (ast_node \<times> finding) list option" where
  "rule_21_15_findings g = alias_function_violations (\<lambda>pts. incompatible_mem_calls) rule_21_15_finding g"

definition rule_21_17_metadata :: rule_metadata where
  "rule_21_17_metadata = \<lparr>
     md_rule_id = ''misra-c2012-rule-21-17'',
     md_rule_number = ''21.17'',
     md_standard = MISRA_C_2012,
     md_category = MANDATORY,
     md_severity = CRITICAL,
     md_title = ''String handling functions shall not cause overflow or underflow of the destination buffer'',
     md_description = ''String-handling library functions shall not write past the destination buffer.'',
     md_rationale = ''Buffer overflow from string functions is a common safety defect.'',
     md_tags = [''standard-library'', ''aliasing'', ''strings''],
     md_references = [''MISRA C:2012 Rule 21.17''],
     md_plugin_module = ''misra_platform_rules.standards.misra_c_2012.rules.rule_pack_standard_library'',
     md_plugin_version = ''0.1.0'',
     md_requires_ast_nodes = [''CallExpr'', ''FunctionDecl''],
     md_implementation_category = D_DATA_FLOW,
     md_rule_pack = Some STANDARD_LIBRARY,
     md_requires_type_info = False,
     md_requires_cfg = False,
     md_requires_dataflow = True,
     md_requires_linkage = False,
     md_requires_macro_expansion = False,
     md_rule_dependencies = []\<rparr>"

definition rule_21_17_finding :: finding where
  "rule_21_17_finding = alias_finding
     (''A string-handling function may overflow the destination buffer.'')
     (''Writing past the end of a string buffer is undefined behaviour.'')
     None"

definition rule_21_17_findings :: "ast_graph \<Rightarrow> (ast_node \<times> finding) list option" where
  "rule_21_17_findings g = alias_function_violations (\<lambda>pts. string_buffer_overflow_calls) rule_21_17_finding g"

definition rule_21_18_metadata :: rule_metadata where
  "rule_21_18_metadata = \<lparr>
     md_rule_id = ''misra-c2012-rule-21-18'',
     md_rule_number = ''21.18'',
     md_standard = MISRA_C_2012,
     md_category = MANDATORY,
     md_severity = CRITICAL,
     md_title = ''The size_t argument passed to a memory/string function shall not exceed the destination size'',
     md_description = ''The size argument to a memory function shall not exceed the destination object size.'',
     md_rationale = ''Copying more bytes than the destination can hold corrupts adjacent storage.'',
     md_tags = [''standard-library'', ''aliasing'', ''memory''],
     md_references = [''MISRA C:2012 Rule 21.18''],
     md_plugin_module = ''misra_platform_rules.standards.misra_c_2012.rules.rule_pack_standard_library'',
     md_plugin_version = ''0.1.0'',
     md_requires_ast_nodes = [''CallExpr'', ''FunctionDecl''],
     md_implementation_category = D_DATA_FLOW,
     md_rule_pack = Some STANDARD_LIBRARY,
     md_requires_type_info = False,
     md_requires_cfg = False,
     md_requires_dataflow = True,
     md_requires_linkage = False,
     md_requires_macro_expansion = False,
     md_rule_dependencies = []\<rparr>"

definition rule_21_18_finding :: finding where
  "rule_21_18_finding = alias_finding
     (''A memory function size argument exceeds the destination object size.'')
     (''Writing beyond the destination object corrupts adjacent storage.'')
     None"

definition rule_21_18_findings :: "ast_graph \<Rightarrow> (ast_node \<times> finding) list option" where
  "rule_21_18_findings g = alias_function_violations (\<lambda>pts. size_exceeds_destination_calls) rule_21_18_finding g"

definition rule_21_20_metadata :: rule_metadata where
  "rule_21_20_metadata = \<lparr>
     md_rule_id = ''misra-c2012-rule-21-20'',
     md_rule_number = ''21.20'',
     md_standard = MISRA_C_2012,
     md_category = MANDATORY,
     md_severity = CRITICAL,
     md_title = ''A pointer to a string returned by a library function shall not be used after a subsequent call'',
     md_description = ''Pointers to strings returned by certain library functions are invalidated by later calls.'',
     md_rationale = ''Reusing an invalidated string pointer reads undefined storage.'',
     md_tags = [''standard-library'', ''aliasing'', ''strings''],
     md_references = [''MISRA C:2012 Rule 21.20''],
     md_plugin_module = ''misra_platform_rules.standards.misra_c_2012.rules.rule_pack_standard_library'',
     md_plugin_version = ''0.1.0'',
     md_requires_ast_nodes = [''CallExpr'', ''DeclRefExpr'', ''FunctionDecl''],
     md_implementation_category = D_DATA_FLOW,
     md_rule_pack = Some STANDARD_LIBRARY,
     md_requires_type_info = False,
     md_requires_cfg = False,
     md_requires_dataflow = True,
     md_requires_linkage = False,
     md_requires_macro_expansion = False,
     md_rule_dependencies = []\<rparr>"

definition rule_21_20_finding :: finding where
  "rule_21_20_finding = alias_finding
     (''A string pointer is used after a subsequent library call invalidated it.'')
     (''Using an invalidated string pointer is undefined behaviour.'')
     None"

definition rule_21_20_findings :: "ast_graph \<Rightarrow> (ast_node \<times> finding) list option" where
  "rule_21_20_findings g = alias_function_violations use_after_string_invalidation_reads rule_21_20_finding g"

definition rule_22_6_metadata :: rule_metadata where
  "rule_22_6_metadata = \<lparr>
     md_rule_id = ''misra-c2012-rule-22-6'',
     md_rule_number = ''22.6'',
     md_standard = MISRA_C_2012,
     md_category = MANDATORY,
     md_severity = CRITICAL,
     md_title = ''The value of a pointer to a FILE shall not be used after the stream is closed'',
     md_description = ''A FILE pointer shall not be dereferenced or passed to I/O functions after fclose.'',
     md_rationale = ''Using a closed stream pointer is undefined behaviour.'',
     md_tags = [''standard-library'', ''aliasing'', ''stdio''],
     md_references = [''MISRA C:2012 Rule 22.6''],
     md_plugin_module = ''misra_platform_rules.standards.misra_c_2012.rules.rule_pack_standard_library'',
     md_plugin_version = ''0.1.0'',
     md_requires_ast_nodes = [''CallExpr'', ''DeclRefExpr'', ''FunctionDecl''],
     md_implementation_category = D_DATA_FLOW,
     md_rule_pack = Some STANDARD_LIBRARY,
     md_requires_type_info = False,
     md_requires_cfg = False,
     md_requires_dataflow = True,
     md_requires_linkage = False,
     md_requires_macro_expansion = False,
     md_rule_dependencies = []\<rparr>"

definition rule_22_6_finding :: finding where
  "rule_22_6_finding = alias_finding
     (''A FILE pointer is used after the stream was closed.'')
     (''Using a FILE pointer after fclose is undefined behaviour.'')
     None"

definition rule_22_6_findings :: "ast_graph \<Rightarrow> (ast_node \<times> finding) list option" where
  "rule_22_6_findings g = alias_function_violations use_after_file_close_reads rule_22_6_finding g"

subsection \<open>Rules 21.13 and 22.4\<close>

definition rule_21_13_metadata :: rule_metadata where
  "rule_21_13_metadata = \<lparr>
     md_rule_id = ''misra-c2012-rule-21-13'',
     md_rule_number = ''21.13'',
     md_standard = MISRA_C_2012,
     md_category = MANDATORY,
     md_severity = CRITICAL,
     md_title = ''Any value passed to a <ctype.h> function shall be representable as unsigned char or EOF'',
     md_description = ''Arguments to ctype.h functions shall be in [0, UCHAR_MAX] or EOF.'',
     md_rationale = ''Passing a signed char with negative value to ctype functions is undefined behaviour.'',
     md_tags = [''standard-library'', ''ctype''],
     md_references = [''MISRA C:2012 Rule 21.13''],
     md_plugin_module = ''misra_platform_rules.standards.misra_c_2012.rules.rule_pack_standard_library'',
     md_plugin_version = ''0.1.0'',
     md_requires_ast_nodes = [''CallExpr''],
     md_implementation_category = B_TYPE_SYSTEM,
     md_rule_pack = Some STANDARD_LIBRARY,
     md_requires_type_info = True,
     md_requires_cfg = False,
     md_requires_dataflow = False,
     md_requires_linkage = False,
     md_requires_macro_expansion = False,
     md_rule_dependencies = []\<rparr>"

definition rule_21_13_finding :: "string \<Rightarrow> ast_node \<Rightarrow> finding" where
  "rule_21_13_finding called n = \<lparr>
     fd_explanation = ''Argument to ctype function '' @ sq @ called @ sq @ '' may be a negative char value.'',
     fd_risk_description = ''ctype.h functions require unsigned char or EOF values.'',
     fd_confidence_factors = factors 90 85 90 10 50,
     fd_confidence_score = dec2 85,
     fd_suggested_fix = Some \<lparr>sf_original_code = offending_text n,
       sf_suggested_code = ''cast the argument to unsigned char before the ctype call'',
       sf_rationale = ''Ensure ctype arguments are representable as unsigned char or EOF.'',
       sf_confidence_score = dec2 50\<rparr>\<rparr>"

definition ctype_calls :: "string list" where
  "ctype_calls =
     [''isalnum'', ''isalpha'', ''isblank'', ''iscntrl'', ''isdigit'', ''isgraph'', ''islower'',
      ''isprint'', ''ispunct'', ''isspace'', ''isupper'', ''isxdigit'', ''tolower'', ''toupper'']"

definition rule_21_13_findings :: "ast_graph \<Rightarrow> (ast_node \<times> finding) list" where
  "rule_21_13_findings g =
     report_where (\<lambda>n. sem_str n ''callee'' \<in> set ctype_calls \<and> sem_flag n ''argument_may_be_negative_char'') (\<lambda>n. rule_21_13_finding (sem_str n ''callee'') n)
       (nodes_by_kind g ''CallExpr'')"

definition rule_22_4_metadata :: rule_metadata where
  "rule_22_4_metadata = \<lparr>
     md_rule_id = ''misra-c2012-rule-22-4'',
     md_rule_number = ''22.4'',
     md_standard = MISRA_C_2012,
     md_category = MANDATORY,
     md_severity = CRITICAL,
     md_title = ''There shall be no attempt to write to a stream opened as read-only'',
     md_description = ''A stream opened for reading shall not be written to.'',
     md_rationale = ''Writing to a read-only stream is undefined behaviour.'',
     md_tags = [''standard-library'', ''stdio'', ''streams''],
     md_references = [''MISRA C:2012 Rule 22.4''],
     md_plugin_module = ''misra_platform_rules.standards.misra_c_2012.rules.rule_pack_standard_library'',
     md_plugin_version = ''0.1.0'',
     md_requires_ast_nodes = [''CallExpr''],
     md_implementation_category = B_TYPE_SYSTEM,
     md_rule_pack = Some STANDARD_LIBRARY,
     md_requires_type_info = True,
     md_requires_cfg = False,
     md_requires_dataflow = False,
     md_requires_linkage = False,
     md_requires_macro_expansion = False,
     md_rule_dependencies = []\<rparr>"

definition rule_22_4_finding :: "string \<Rightarrow> ast_node \<Rightarrow> finding" where
  "rule_22_4_finding called n = \<lparr>
     fd_explanation = ''Call to '' @ sq @ called @ sq @ '' writes to a stream opened read-only.'',
     fd_risk_description = ''Writing to a read-only stream is undefined behaviour.'',
     fd_confidence_factors = factors 92 85 90 8 45,
     fd_confidence_score = dec2 88,
     fd_suggested_fix = Some \<lparr>sf_original_code = offending_text n,
       sf_suggested_code = ''open the stream with a write-capable mode or use a separate output stream'',
       sf_rationale = ''Only write to streams opened for writing.'',
       sf_confidence_score = dec2 45\<rparr>\<rparr>"

definition rule_22_4_findings :: "ast_graph \<Rightarrow> (ast_node \<times> finding) list" where
  "rule_22_4_findings g =
     report_where (\<lambda>n. sem_flag n ''writes_to_readonly_stream'') (\<lambda>n. rule_22_4_finding (prop_str (semantic_properties n) ''callee'' ''<call>'') n)
       (nodes_by_kind g ''CallExpr'')"

subsection \<open>The pack\<close>

definition standard_library_pack :: "rule_plugin list" where
  "standard_library_pack =
     [(directive_rule rule_17_1_metadata (\<lambda>ctx. Inr (rule_17_1_headers (rc_macro_table ctx))))
        \<lparr>rp_findings := \<lambda>d ctx g. Some (Inr (rule_17_1_findings g))\<rparr>,
      scan_rule rule_21_3_metadata (\<lambda>ctx. rule_21_3_findings),
      directive_rule rule_21_4_metadata (\<lambda>ctx. Inr (rule_21_4_findings (rc_macro_table ctx))),
      directive_rule rule_21_5_metadata (\<lambda>ctx. Inr (rule_21_5_findings (rc_macro_table ctx))),
      scan_rule rule_21_6_metadata (\<lambda>ctx. rule_21_6_findings),
      scan_rule rule_21_7_metadata (\<lambda>ctx. rule_21_7_findings),
      scan_rule rule_21_8_metadata (\<lambda>ctx. rule_21_8_findings),
      scan_rule rule_21_9_metadata (\<lambda>ctx. rule_21_9_findings),
      directive_rule rule_21_10_metadata (\<lambda>ctx. Inr (rule_21_10_findings (rc_macro_table ctx))),
      directive_rule rule_21_11_metadata (\<lambda>ctx. Inr (rule_21_11_findings (rc_macro_table ctx))),
      directive_rule rule_21_12_metadata (\<lambda>ctx. Inr (rule_21_12_findings (rc_macro_table ctx))),
      scan_rule rule_21_21_metadata (\<lambda>ctx. rule_21_21_findings),
      scan_rule rule_22_8_metadata (\<lambda>ctx. rule_22_8_findings),
      scan_rule rule_21_14_metadata (\<lambda>ctx. rule_21_14_findings),
      scan_rule rule_21_16_metadata (\<lambda>ctx. rule_21_16_findings),
      scan_rule rule_21_19_metadata (\<lambda>ctx. rule_21_19_findings),
      scan_rule rule_22_5_metadata (\<lambda>ctx. rule_22_5_findings),
      scan_rule rule_22_7_metadata (\<lambda>ctx. rule_22_7_findings),
      scan_rule rule_22_1_metadata (\<lambda>ctx. rule_22_1_findings),
      scan_rule rule_22_2_metadata (\<lambda>ctx. rule_22_2_findings),
      scan_rule rule_22_3_metadata (\<lambda>ctx. rule_22_3_findings),
      scan_rule rule_22_9_metadata (\<lambda>ctx. rule_22_9_findings),
      scan_rule rule_22_10_metadata (\<lambda>ctx. rule_22_10_findings),
      loop_rule rule_21_15_metadata (\<lambda>d ctx. rule_21_15_findings),
      loop_rule rule_21_17_metadata (\<lambda>d ctx. rule_21_17_findings),
      loop_rule rule_21_18_metadata (\<lambda>d ctx. rule_21_18_findings),
      loop_rule rule_21_20_metadata (\<lambda>d ctx. rule_21_20_findings),
      loop_rule rule_22_6_metadata (\<lambda>d ctx. rule_22_6_findings),
      scan_rule rule_21_13_metadata (\<lambda>ctx. rule_21_13_findings),
      scan_rule rule_22_4_metadata (\<lambda>ctx. rule_22_4_findings)]"

end
