(* ===== verification/Files.thy ===== *)
theory Files
  imports Py_Prelude
begin

text \<open>
  Paths and files as the registry, the incremental index and the compilation database use them
  (\<open>pathlib.Path\<close>).
\<close>

text \<open>
  A path is the list of its parts, the root \<open>/\<close> a part of its own; a file system gives for
  a path nothing, a directory or a file's bytes.  Text is read one character per byte.
\<close>

type_synonym path = "string list"

datatype fs_entry = Directory | File string

type_synonym file_system = "path \<Rightarrow> fs_entry option"

text \<open>
  \<open>Path(s)\<close> on POSIX: empty parts and single dots vanish; exactly two leading slashes are a
  root of their own.
\<close>

definition roots :: "string set" where
  "roots = {''/'', ''//''}"

primrec split_on :: "char \<Rightarrow> string \<Rightarrow> string list" where
  "split_on sep [] = [[]]"
| "split_on sep (c # s) =
     (if c = sep then [] # split_on sep s
      else (case split_on sep s of [] \<Rightarrow> [[c]] | part # rest \<Rightarrow> (c # part) # rest))"

lemma split_on_nonempty [simp]: "split_on sep s \<noteq> []"
  by (induction s) (auto split: list.splits)

lemma split_on_none: "sep \<notin> set s \<Longrightarrow> split_on sep s = [s]"
  by (induction s) auto

lemma split_on_append: "sep \<notin> set x \<Longrightarrow> split_on sep (x @ sep # s) = x # split_on sep s"
  by (induction x) auto

lemma split_on_join:
  "xs \<noteq> [] \<Longrightarrow> list_all (\<lambda>x. sep \<notin> set x) xs \<Longrightarrow> split_on sep (join_str [sep] xs) = xs"
proof (induction xs rule: induct_list012)
  case (2 x)
  then show ?case using split_on_none [of sep x] by simp
next
  case (3 x y zs)
  then have "split_on sep (join_str [sep] (y # zs)) = y # zs" by simp
  then show ?case using 3(4) split_on_append [of sep x] by simp
qed simp

lemma join_str_inject:
  "join_str [sep] xs = join_str [sep] ys \<Longrightarrow> xs \<noteq> [] \<Longrightarrow> ys \<noteq> [] \<Longrightarrow>
   list_all (\<lambda>x. sep \<notin> set x) xs \<Longrightarrow> list_all (\<lambda>x. sep \<notin> set x) ys \<Longrightarrow> xs = ys"
  by (metis split_on_join)

definition path_root :: "string \<Rightarrow> path" where
  "path_root s = (if \<not> starts_with s ''/'' then []
     else if starts_with s ''//'' \<and> \<not> starts_with s ''///'' then [''//''] else [''/''])"

definition py_path :: "string \<Rightarrow> path" where
  "py_path s = path_root s @ filter (\<lambda>part. part \<noteq> [] \<and> part \<noteq> ''.'') (split_on (CHR ''/'') s)"

definition path_str :: "path \<Rightarrow> string" where
  "path_str p = (case p of [] \<Rightarrow> ''.''
     | root # rest \<Rightarrow> if root \<in> roots then root @ join_str ''/'' rest else join_str ''/'' p)"

definition is_absolute :: "path \<Rightarrow> bool" where
  "is_absolute p = (case p of [] \<Rightarrow> False | root # rest \<Rightarrow> root \<in> roots)"

text \<open>Reading back a printed path.\<close>

definition plain_part :: "string \<Rightarrow> bool" where
  "plain_part s \<longleftrightarrow> s \<noteq> [] \<and> s \<noteq> ''.'' \<and> CHR ''/'' \<notin> set s"

definition plain_path :: "path \<Rightarrow> bool" where
  "plain_path p \<longleftrightarrow> (case p of [] \<Rightarrow> True
     | root # rest \<Rightarrow> (root \<in> roots \<or> plain_part root) \<and> list_all plain_part rest)"

lemma py_path_parts:
  assumes "list_all plain_part ps"
  shows "filter (\<lambda>part. part \<noteq> [] \<and> part \<noteq> ''.'') (split_on (CHR ''/'') (join_str ''/'' ps)) = ps"
proof (cases "ps = []")
  case False
  then have "split_on (CHR ''/'') (join_str ''/'' ps) = ps"
    using assms by (intro split_on_join) (auto simp: plain_part_def elim: list.pred_mono_strong)
  then show ?thesis
    using assms by (auto simp: list_all_iff plain_part_def filter_id_conv)
qed simp

lemma join_parts_start:
  "list_all plain_part ps \<Longrightarrow> \<not> starts_with (join_str ''/'' ps) ''/''"
proof (cases ps)
  case (Cons a rest)
  assume "list_all plain_part ps"
  then have "a \<noteq> []" "hd a \<noteq> CHR ''/''"
    using Cons by (auto simp: plain_part_def neq_Nil_conv)
  then show ?thesis
    using Cons by (cases rest; cases a) (auto simp: starts_with_def)
qed (simp add: starts_with_def)

lemma py_path_str: "plain_path p \<Longrightarrow> py_path (path_str p) = p"
proof (cases p)
  case Nil
  then show ?thesis by (simp add: path_str_def py_path_def path_root_def starts_with_def)
next
  case (Cons root rest)
  assume p: "plain_path p"
  show ?thesis
  proof (cases "root \<in> roots")
    case True
    have "list_all plain_part rest"
      using p Cons by (simp add: plain_path_def)
    then show ?thesis
      using True Cons py_path_parts [of rest] join_parts_start [of rest]
      by (auto simp: roots_def path_str_def py_path_def path_root_def starts_with_def)
  next
    case False
    then have "list_all plain_part p"
      using p Cons by (simp add: plain_path_def)
    then show ?thesis
      using False Cons py_path_parts [of p] join_parts_start [of p]
      by (simp add: path_str_def py_path_def path_root_def)
  qed
qed

text \<open>\<open>p / q\<close>\<close>

definition path_join :: "path \<Rightarrow> path \<Rightarrow> path" where
  "path_join p q = (if is_absolute q then q else p @ q)"

definition relative_to :: "path \<Rightarrow> path \<Rightarrow> py_error + path" where
  "relative_to p root =
     (if take (length root) p = root then Inr (drop (length root) p) else Inl ValueError)"

definition path_exists :: "file_system \<Rightarrow> path \<Rightarrow> bool" where
  "path_exists fs p \<longleftrightarrow> fs p \<noteq> None"

definition read_file :: "file_system \<Rightarrow> path \<Rightarrow> py_error + string" where
  "read_file fs p = (case fs p of Some (File bytes) \<Rightarrow> Inr bytes | _ \<Rightarrow> Inl OSError)"

end
