(* ===== verification/Registry.thy ===== *)
theory Registry
  imports Rule_Base Files
begin

text \<open>
  The rule registry (\<open>registry.py\<close>): reading the manifest of a standard, importing and
  registering its rules, and the queries the engine and the backend make.  A YAML document is
  a property value; \<open>yaml.safe_load\<close>, the modules Python can import and the matches of a glob
  pattern are the environment's.
\<close>

subsection \<open>Loading\<close>

record registry =
  rg_plugins :: "(string, rule_plugin) dict"
  rg_metadata :: "(string, rule_metadata) dict"
  rg_manifest_versions :: "(pyval, pyval) dict"

definition empty_registry :: registry where
  "empty_registry = \<lparr>rg_plugins = [], rg_metadata = [], rg_manifest_versions = []\<rparr>"

text \<open>\<open>RuleRegistryError\<close> with its message, or an exception of the code that is called.\<close>

datatype registry_error = RuleRegistryError string | Raised py_error

text \<open>
  A module gives for a class name the outcome of calling the class: a plugin, or the exception
  its constructor raises.
\<close>

type_synonym py_module = "(string, py_error + rule_plugin) dict"

record registry_env =
  re_files :: file_system
  re_safe_load :: "string \<Rightarrow> py_error + pyval"
  re_modules :: "string \<Rightarrow> py_module option"
  re_glob :: "path \<Rightarrow> path list"

definition import_plugin :: "registry_env \<Rightarrow> pyval \<Rightarrow> pyval \<Rightarrow> py_error + rule_plugin" where
  "import_plugin env module_path class_name = (case module_path of
     PStr m \<Rightarrow> (case re_modules env m of
        None \<Rightarrow> Inl ImportError
      | Some exported \<Rightarrow> (case class_name of
           PStr c \<Rightarrow> (case map_of exported c of None \<Rightarrow> Inl AttributeError | Some made \<Rightarrow> made)
         | _ \<Rightarrow> Inl TypeError))
   | _ \<Rightarrow> Inl AttributeError)"

text \<open>\<open>key in d\<close> for a dict whose keys are strings.\<close>

definition key_in :: "pyval \<Rightarrow> (string, 'v) dict \<Rightarrow> bool" where
  "key_in v d = (case v of PStr s \<Rightarrow> s \<in> set (dict_keys d) | _ \<Rightarrow> False)"

fun check_dependencies :: "registry \<Rightarrow> pyval \<Rightarrow> pyval list \<Rightarrow> registry_error option" where
  "check_dependencies reg rid [] = None"
| "check_dependencies reg rid (dep # deps) = (case hash_key dep of
     Inl e \<Rightarrow> Some (Raised e)
   | Inr k \<Rightarrow>
       if key_in k (rg_plugins reg) then check_dependencies reg rid deps
       else Some (RuleRegistryError (''Unresolved rule dependency '' @ py_str dep @ '' for '' @ py_str rid)))"

definition register_plugin :: "registry_env \<Rightarrow> pyval \<Rightarrow> pyval \<Rightarrow> pyval \<Rightarrow> registry \<Rightarrow> registry_error + registry" where
  "register_plugin env rid module_path class_name reg =
     (case import_plugin env module_path class_name of
        Inl e \<Rightarrow> Inl (Raised e)
      | Inr plugin \<Rightarrow>
          (let metadata = rp_metadata plugin in
           if PStr (md_rule_id metadata) \<noteq> rid then
             Inl (RuleRegistryError (''Metadata rule_id '' @ md_rule_id metadata
               @ '' does not match manifest '' @ py_str rid))
           else Inr (reg\<lparr>rg_plugins := dict_set (md_rule_id metadata) plugin (rg_plugins reg),
                         rg_metadata := dict_set (md_rule_id metadata) metadata (rg_metadata reg)\<rparr>)))"

definition register_manifest_entry ::
    "registry_env \<Rightarrow> pyval \<Rightarrow> pyval set \<Rightarrow> registry \<Rightarrow> registry_error + pyval set \<times> registry" where
  "register_manifest_entry env entry seen reg = (case entry of
     PDict e \<Rightarrow>
       (let rid = prop_get e ''rule_id''; module_path = prop_get e ''module'';
            class_name = prop_get e ''class_name'';
            dependencies = (case map_of e ''dependencies'' of None \<Rightarrow> PList [] | Some v \<Rightarrow> v)
        in if \<not> truthy rid \<or> \<not> truthy module_path \<or> \<not> truthy class_name then
             Inl (RuleRegistryError ''Manifest entry missing rule_id, module, or class_name'')
           else case hash_key rid of
             Inl err \<Rightarrow> Inl (Raised err)
           | Inr key \<Rightarrow>
             if key \<in> seen then Inl (RuleRegistryError (''Duplicate rule in manifest: '' @ py_str rid))
             else if key_in key (rg_plugins reg) then
               Inl (RuleRegistryError (''Duplicate rule registration: '' @ py_str rid))
             else case py_iter dependencies of
               Inl err \<Rightarrow> Inl (Raised err)
             | Inr deps \<Rightarrow> (case check_dependencies reg rid deps of
                 Some err \<Rightarrow> Inl err
               | None \<Rightarrow> map_sum id (\<lambda>reg'. (insert key seen, reg'))
                   (register_plugin env rid module_path class_name reg)))
   | _ \<Rightarrow> Inl (Raised AttributeError))"

text \<open>An error leaves the rules registered before it in the registry.\<close>

fun register_entries ::
    "registry_env \<Rightarrow> pyval list \<Rightarrow> pyval set \<Rightarrow> registry \<Rightarrow> registry_error option \<times> registry" where
  "register_entries env [] seen reg = (None, reg)"
| "register_entries env (entry # entries) seen reg =
     (case register_manifest_entry env entry seen reg of
        Inl err \<Rightarrow> (Some err, reg)
      | Inr (seen', reg') \<Rightarrow> register_entries env entries seen' reg')"

definition version_conflict :: "registry \<Rightarrow> pyval \<Rightarrow> pyval \<Rightarrow> pyval \<Rightarrow> registry_error option" where
  "version_conflict reg standard key new_version =
     (case map_of (rg_manifest_versions reg) key of
        Some existing \<Rightarrow>
          if new_version \<noteq> existing then
            Some (RuleRegistryError (''Version mismatch for '' @ py_str standard @ '': existing ''
              @ py_str existing @ '', attempted '' @ py_str new_version))
          else None
      | None \<Rightarrow> None)"

text \<open>\<open>extends and extends not in self._manifest_versions\<close>\<close>

definition check_extends :: "registry \<Rightarrow> pyval \<Rightarrow> registry_error option" where
  "check_extends reg extends =
     (if \<not> truthy extends then None
      else case hash_key extends of
        Inl err \<Rightarrow> Some (Raised err)
      | Inr key \<Rightarrow>
          if key \<in> set (dict_keys (rg_manifest_versions reg)) then None
          else Some (RuleRegistryError (''Dependency standard not loaded: '' @ py_str extends)))"

definition load_manifest ::
    "registry_env \<Rightarrow> path \<Rightarrow> props \<Rightarrow> registry \<Rightarrow> registry_error option \<times> registry" where
  "load_manifest env manifest_path m reg =
     (let standard = prop_get m ''standard'';
          version = (case map_of m ''version'' of None \<Rightarrow> PStr ''0.0.0'' | Some v \<Rightarrow> v);
          rules = (case map_of m ''rules'' of None \<Rightarrow> PList [] | Some v \<Rightarrow> v)
      in if \<not> truthy standard then
           (Some (RuleRegistryError (''Manifest missing standard: '' @ path_str manifest_path)), reg)
         else case check_extends reg (prop_get m ''extends'') of
           Some err \<Rightarrow> (Some err, reg)
         | None \<Rightarrow> (case hash_key standard of
             Inl err \<Rightarrow> (Some (Raised err), reg)
           | Inr key \<Rightarrow> (case version_conflict reg standard key version of
               Some err \<Rightarrow> (Some err, reg)
             | None \<Rightarrow> (case py_iter rules of
                 Inl err \<Rightarrow> (Some (Raised err), reg)
               | Inr entries \<Rightarrow> (case register_entries env entries {} reg of
                   (Some err, reg') \<Rightarrow> (Some err, reg')
                 | (None, reg') \<Rightarrow>
                     (None, reg'\<lparr>rg_manifest_versions := dict_set key version (rg_manifest_versions reg')\<rparr>))))))"

definition load_standard :: "registry_env \<Rightarrow> path \<Rightarrow> registry \<Rightarrow> registry_error option \<times> registry" where
  "load_standard env manifest_path reg =
     (if \<not> path_exists (re_files env) manifest_path then
        (Some (RuleRegistryError (''Manifest not found: '' @ path_str manifest_path)), reg)
      else case read_file (re_files env) manifest_path of
        Inl err \<Rightarrow> (Some (Raised err), reg)
      | Inr content \<Rightarrow> (case re_safe_load env content of
          Inl err \<Rightarrow> (Some (Raised err), reg)
        | Inr (PDict m) \<Rightarrow> load_manifest env manifest_path m reg
        | Inr _ \<Rightarrow> (Some (RuleRegistryError (''Invalid manifest format: '' @ path_str manifest_path)), reg)))"

fun load_standards :: "registry_env \<Rightarrow> path list \<Rightarrow> registry \<Rightarrow> registry_error option \<times> registry" where
  "load_standards env [] reg = (None, reg)"
| "load_standards env (p # ps) reg = (case load_standard env p reg of
     (Some err, reg') \<Rightarrow> (Some err, reg')
   | (None, reg') \<Rightarrow> load_standards env ps reg')"

definition discover :: "registry_env \<Rightarrow> path \<Rightarrow> registry \<Rightarrow> registry_error option \<times> registry" where
  "discover env standards_root reg =
     (if \<not> path_exists (re_files env) standards_root then
        (Some (RuleRegistryError (''Standards root not found: '' @ path_str standards_root)), reg)
      else let manifests = sort (re_glob env standards_root) in
        if manifests = [] then
          (Some (RuleRegistryError (''No manifests found under '' @ path_str standards_root)), reg)
        else load_standards env manifests reg)"

definition create_default_registry :: "registry_env \<Rightarrow> path \<Rightarrow> registry_error + registry" where
  "create_default_registry env standards_root = (case discover env standards_root empty_registry of
     (None, reg) \<Rightarrow> Inr reg
   | (Some err, _) \<Rightarrow> Inl err)"

subsection \<open>Queries\<close>

definition get_plugin :: "registry \<Rightarrow> string \<Rightarrow> registry_error + rule_plugin" where
  "get_plugin reg rid = (case map_of (rg_plugins reg) rid of
     None \<Rightarrow> Inl (RuleRegistryError (''Rule not registered: '' @ rid))
   | Some plugin \<Rightarrow> Inr plugin)"

definition list_metadata :: "registry \<Rightarrow> rule_metadata list" where
  "list_metadata reg = map snd (rg_metadata reg)"

definition get_metadata :: "registry \<Rightarrow> string \<Rightarrow> registry_error + rule_metadata" where
  "get_metadata reg rid = (case map_of (rg_metadata reg) rid of
     None \<Rightarrow> Inl (RuleRegistryError (''Rule metadata not found: '' @ rid))
   | Some metadata \<Rightarrow> Inr metadata)"

definition list_rule_ids :: "registry \<Rightarrow> string list" where
  "list_rule_ids reg = sort (dict_keys (rg_plugins reg))"

definition select_rules :: "registry \<Rightarrow> string list option \<Rightarrow> rule_plugin list" where
  "select_rules reg enabled_rules = (case enabled_rules of
     None \<Rightarrow> map snd (rg_plugins reg)
   | Some [] \<Rightarrow> map snd (rg_plugins reg)
   | Some ids \<Rightarrow> List.map_filter (map_of (rg_plugins reg)) ids)"

subsection \<open>The invariant\<close>

text \<open>Every rule is registered once, under its own id, with its own metadata.\<close>

definition registry_ok :: "registry \<Rightarrow> bool" where
  "registry_ok reg \<longleftrightarrow> distinct (dict_keys (rg_plugins reg))
     \<and> (\<forall>(rid, plugin) \<in> set (rg_plugins reg). rule_id plugin = rid)
     \<and> rg_metadata reg = map (map_prod id rp_metadata) (rg_plugins reg)"

text \<open>\<open>extends_by reg added reg'\<close>: the plugins \<open>added\<close> were registered after those of \<open>reg\<close>.\<close>

definition extends_by :: "registry \<Rightarrow> rule_plugin list \<Rightarrow> registry \<Rightarrow> bool" where
  "extends_by reg added reg' \<longleftrightarrow>
     rg_plugins reg' = rg_plugins reg @ map (\<lambda>p. (rule_id p, p)) added"

lemma extends_by_refl [simp]: "extends_by reg [] reg"
  by (simp add: extends_by_def)

lemma extends_by_keys: "extends_by reg added reg' \<Longrightarrow>
    dict_keys (rg_plugins reg') = dict_keys (rg_plugins reg) @ map rule_id added"
  by (simp add: extends_by_def dict_keys_def comp_def)

lemma extends_by_trans: "extends_by r a r' \<Longrightarrow> extends_by r' b r'' \<Longrightarrow> extends_by r (a @ b) r''"
  by (simp add: extends_by_def)

lemma empty_registry_ok [simp]: "registry_ok empty_registry"
  by (simp add: registry_ok_def empty_registry_def)

lemma dict_set_new: "k \<notin> set (dict_keys d) \<Longrightarrow> dict_set k v d = d @ [(k, v)]"
  unfolding dict_set_def dict_keys_def by (induction d) auto

lemma register_entry_Inr:
  assumes "register_manifest_entry env entry seen reg = Inr (seen', reg')"
  obtains e plugin where "entry = PDict e" "prop_get e ''rule_id'' = PStr (rule_id plugin)"
    "import_plugin env (prop_get e ''module'') (prop_get e ''class_name'') = Inr plugin"
    "rule_id plugin \<notin> set (dict_keys (rg_plugins reg))" "PStr (rule_id plugin) \<notin> seen"
    "seen' = insert (PStr (rule_id plugin)) seen"
    "reg' = reg\<lparr>rg_plugins := dict_set (rule_id plugin) plugin (rg_plugins reg),
                rg_metadata := dict_set (rule_id plugin) (rp_metadata plugin) (rg_metadata reg)\<rparr>"
proof -
  obtain e where e: "entry = PDict e"
    using assms by (cases entry) (auto simp: register_manifest_entry_def)
  let ?rid = "prop_get e ''rule_id''"
  obtain key where key: "hash_key ?rid = Inr key" "key \<notin> seen" "\<not> key_in key (rg_plugins reg)"
    using assms e by (auto simp: register_manifest_entry_def Let_def split: if_splits sum.splits)
  obtain reg1 where reg1: "register_plugin env ?rid (prop_get e ''module'') (prop_get e ''class_name'') reg = Inr reg1"
      "reg' = reg1" "seen' = insert key seen"
    using assms e key by (auto simp: register_manifest_entry_def Let_def map_sum_def split: if_splits sum.splits option.splits)
  obtain plugin where p: "import_plugin env (prop_get e ''module'') (prop_get e ''class_name'') = Inr plugin"
      "PStr (rule_id plugin) = ?rid"
      "reg1 = reg\<lparr>rg_plugins := dict_set (rule_id plugin) plugin (rg_plugins reg),
                rg_metadata := dict_set (rule_id plugin) (rp_metadata plugin) (rg_metadata reg)\<rparr>"
    using reg1(1) by (auto simp: register_plugin_def rule_id_def Let_def split: if_splits sum.splits)
  have rid: "?rid = PStr (rule_id plugin)" using p(2) by simp
  then have "key = PStr (rule_id plugin)" using key(1) by simp
  with e key p(1,3) reg1(2,3) rid show ?thesis by (intro that [of e plugin]) (simp_all add: key_in_def)
qed

lemma register_entry_ok:
  assumes "register_manifest_entry env entry seen reg = Inr (seen', reg')" and "registry_ok reg"
  shows "registry_ok reg' \<and> rg_manifest_versions reg' = rg_manifest_versions reg \<and> (\<exists>plugin. extends_by reg [plugin] reg')"
proof -
  obtain e plugin where "rule_id plugin \<notin> set (dict_keys (rg_plugins reg))" and
    reg': "reg' = reg\<lparr>rg_plugins := dict_set (rule_id plugin) plugin (rg_plugins reg),
                rg_metadata := dict_set (rule_id plugin) (rp_metadata plugin) (rg_metadata reg)\<rparr>"
    by (rule register_entry_Inr [OF assms(1)])
  moreover from this assms(2) have "rule_id plugin \<notin> set (dict_keys (rg_metadata reg))"
    by (auto simp: registry_ok_def dict_keys_def image_iff)
  ultimately show ?thesis using assms(2)
    by (auto simp: dict_set_new registry_ok_def extends_by_def)
qed

lemma register_entries_ok:
  "register_entries env entries seen reg = (err, reg') \<Longrightarrow> registry_ok reg \<Longrightarrow>
     registry_ok reg' \<and> rg_manifest_versions reg' = rg_manifest_versions reg \<and> (\<exists>added. extends_by reg added reg')"
proof (induction entries arbitrary: seen reg)
  case Nil
  then show ?case by (auto intro: exI [of _ "[]"])
next
  case (Cons entry entries)
  show ?case
  proof (cases "register_manifest_entry env entry seen reg")
    case (Inl e)
    then show ?thesis using Cons.prems by (auto intro: exI [of _ "[]"])
  next
    case (Inr p)
    obtain seen1 reg1 where p: "p = (seen1, reg1)" by (cases p)
    have step: "register_manifest_entry env entry seen reg = Inr (seen1, reg1)" using Inr p by simp
    from register_entry_ok [OF this Cons.prems(2)] Cons.IH [of seen1 reg1] Cons.prems(1) step
    show ?thesis by (auto dest: extends_by_trans)
  qed
qed

lemma load_standard_ok:
  assumes "load_standard env p reg = (err, reg')" and "registry_ok reg"
  shows "registry_ok reg' \<and> (\<exists>added. extends_by reg added reg')"
proof -
  have same: "registry_ok reg \<and> (\<exists>added. extends_by reg added reg)"
    using assms(2) extends_by_refl by blast
  have version: "registry_ok (r\<lparr>rg_manifest_versions := v\<rparr>) = registry_ok r"
    "extends_by reg added (r\<lparr>rg_manifest_versions := v\<rparr>) = extends_by reg added r" for r v added
    by (simp_all add: registry_ok_def extends_by_def)
  have "registry_ok reg' \<and> (\<exists>added. extends_by reg added reg')" if "load_manifest env p m reg = (err, reg')" for m
    using that same register_entries_ok [OF _ assms(2)]
    by (fastforce simp: load_manifest_def Let_def version split: if_splits option.splits sum.splits prod.splits)
  then show ?thesis
    using assms(1) same by (auto simp: load_standard_def split: if_splits sum.splits pyval.splits)
qed

lemma load_standards_ok:
  "load_standards env ps reg = (err, reg') \<Longrightarrow> registry_ok reg \<Longrightarrow> registry_ok reg' \<and> (\<exists>added. extends_by reg added reg')"
proof (induction ps arbitrary: reg)
  case Nil
  then show ?case by (auto intro: exI [of _ "[]"])
next
  case (Cons p ps)
  obtain e reg1 where step: "load_standard env p reg = (e, reg1)" by (cases "load_standard env p reg")
  then have one: "registry_ok reg1" "\<exists>added. extends_by reg added reg1"
    using load_standard_ok Cons.prems(2) by blast+
  show ?case
  proof (cases e)
    case None
    then show ?thesis using Cons.IH [of reg1] Cons.prems(1) one step by (auto dest: extends_by_trans)
  qed (use Cons.prems(1) one step in simp)
qed

lemma discover_ok:
  assumes "registry_ok reg" and "discover env standards_root reg = (err, reg')"
  shows "registry_ok reg' \<and> (\<exists>added. extends_by reg added reg')"
proof (cases "path_exists (re_files env) standards_root \<and> re_glob env standards_root \<noteq> []")
  case True
  then have "sort (re_glob env standards_root) \<noteq> []" by (metis set_empty set_sort)
  then have "load_standards env (sort (re_glob env standards_root)) reg = (err, reg')"
    using assms(2) True by (simp add: discover_def Let_def)
  then show ?thesis using assms(1) by (rule load_standards_ok)
next
  case False
  then have "reg' = reg" using assms(2) by (auto simp: discover_def Let_def split: if_splits)
  then show ?thesis using assms(1) extends_by_refl by blast
qed

text \<open>
  C25: Loading standards keeps the registry consistent whatever it finds: each registered rule
  stays, rules are only added behind, each under the id its own metadata states and with that
  metadata, also when a manifest is rejected half way.
\<close>

theorem discover_keeps_registry:
  assumes "registry_ok reg" and "discover env standards_root reg = (err, reg')"
  shows "registry_ok reg' \<and> (\<exists>added. extends_by reg added reg')"
  by (rule discover_ok [OF assms])

subsection \<open>What a load accepts\<close>

text \<open>An entry the registry can take: its class gives a plugin with the entry's id.\<close>

definition entry_gives :: "registry_env \<Rightarrow> pyval \<Rightarrow> rule_plugin \<Rightarrow> bool" where
  "entry_gives env entry plugin \<longleftrightarrow> (\<exists>e. entry = PDict e \<and> prop_get e ''rule_id'' = PStr (rule_id plugin)
     \<and> import_plugin env (prop_get e ''module'') (prop_get e ''class_name'') = Inr plugin)"

lemma register_entries_gives:
  "register_entries env entries seen reg = (None, reg') \<Longrightarrow>
     \<exists>added. list_all2 (entry_gives env) entries added \<and> extends_by reg added reg'"
proof (induction entries arbitrary: seen reg)
  case Nil
  then show ?case by simp
next
  case (Cons entry entries)
  obtain seen1 reg1 where step: "register_manifest_entry env entry seen reg = Inr (seen1, reg1)"
    "register_entries env entries seen1 reg1 = (None, reg')"
    using Cons.prems by (auto split: sum.splits)
  obtain e plugin where e: "entry = PDict e" "prop_get e ''rule_id'' = PStr (rule_id plugin)"
    "import_plugin env (prop_get e ''module'') (prop_get e ''class_name'') = Inr plugin"
    "rule_id plugin \<notin> set (dict_keys (rg_plugins reg))"
    "reg1 = reg\<lparr>rg_plugins := dict_set (rule_id plugin) plugin (rg_plugins reg),
                rg_metadata := dict_set (rule_id plugin) (rp_metadata plugin) (rg_metadata reg)\<rparr>"
    by (rule register_entry_Inr [OF step(1)])
  then have "entry_gives env entry plugin" "extends_by reg [plugin] reg1"
    by (auto simp: entry_gives_def extends_by_def dict_set_new)
  moreover obtain added where "list_all2 (entry_gives env) entries added" "extends_by reg1 added reg'"
    using Cons.IH [OF step(2)] by blast
  ultimately show ?case using extends_by_trans by (intro exI [of _ "plugin # added"]) fastforce
qed

text \<open>Entries without dependencies that give distinct, new plugins are all registered.\<close>

definition plain_entry :: "registry_env \<Rightarrow> pyval \<Rightarrow> rule_plugin \<Rightarrow> bool" where
  "plain_entry env entry plugin \<longleftrightarrow> entry_gives env entry plugin \<and> rule_id plugin \<noteq> []
     \<and> (\<forall>e. entry = PDict e \<longrightarrow> truthy (prop_get e ''module'') \<and> truthy (prop_get e ''class_name'')
          \<and> map_of e ''dependencies'' = Some (PList []))"

lemma register_plain_entry:
  assumes "plain_entry env entry plugin" and "PStr (rule_id plugin) \<notin> seen"
    and "rule_id plugin \<notin> set (dict_keys (rg_plugins reg))"
  shows "register_manifest_entry env entry seen reg = Inr (insert (PStr (rule_id plugin)) seen,
     reg\<lparr>rg_plugins := dict_set (rule_id plugin) plugin (rg_plugins reg),
         rg_metadata := dict_set (rule_id plugin) (rp_metadata plugin) (rg_metadata reg)\<rparr>)"
  using assms by (auto simp: plain_entry_def entry_gives_def register_manifest_entry_def Let_def key_in_def
      register_plugin_def rule_id_def)

lemma register_plain_entries:
  assumes "list_all2 (plain_entry env) entries added" and "registry_ok reg"
    and "distinct (map rule_id added)" and "\<forall>p \<in> set added. PStr (rule_id p) \<notin> seen"
    and "\<forall>p \<in> set added. rule_id p \<notin> set (dict_keys (rg_plugins reg))"
  shows "\<exists>reg'. register_entries env entries seen reg = (None, reg') \<and> extends_by reg added reg'"
  using assms
proof (induction entries added arbitrary: seen reg rule: list_all2_induct)
  case Nil
  then show ?case by simp
next
  case (Cons entry entries plugin added)
  note new = Cons.prems(4)
  define reg1 where "reg1 = reg\<lparr>rg_plugins := dict_set (rule_id plugin) plugin (rg_plugins reg),
         rg_metadata := dict_set (rule_id plugin) (rp_metadata plugin) (rg_metadata reg)\<rparr>"
  let ?seen = "insert (PStr (rule_id plugin)) seen"
  have step: "register_manifest_entry env entry seen reg = Inr (?seen, reg1)"
    unfolding reg1_def by (rule register_plain_entry) (use Cons in auto)
  then have ok: "registry_ok reg1" using register_entry_ok Cons.prems(1) by blast
  have one: "extends_by reg [plugin] reg1" using Cons.prems by (simp add: extends_by_def reg1_def dict_set_new)
  have apart: "\<forall>p \<in> set added. rule_id p \<noteq> rule_id plugin"
    using Cons.prems(2) by (metis distinct.simps(2) image_eqI list.set_map list.simps(9))
  have "\<exists>reg'. register_entries env entries ?seen reg1 = (None, reg') \<and> extends_by reg1 added reg'"
  proof (rule Cons.IH)
    show "\<forall>p \<in> set added. rule_id p \<notin> set (dict_keys (rg_plugins reg1))"
      using Cons.prems(4) apart by (simp add: extends_by_keys [OF one])
    show "\<forall>p \<in> set added. PStr (rule_id p) \<notin> ?seen" using Cons.prems(3) apart by simp
  qed (use Cons.prems ok in auto)
  then show ?case using step one extends_by_trans by fastforce
qed

text \<open>
  A manifest that loads has registered exactly its entries, in their order: behind the
  rules that were there, one plugin per entry, of the entry's class and with the entry's id.
\<close>

theorem load_registers_entries:
  assumes "load_manifest env p m reg = (None, reg')" and "map_of m ''rules'' = Some (PList entries)"
  shows "\<exists>added. list_all2 (entry_gives env) entries added \<and> extends_by reg added reg'"
proof -
  obtain reg1 where "register_entries env entries {} reg = (None, reg1)" "rg_plugins reg' = rg_plugins reg1"
    using assms by (auto simp: load_manifest_def Let_def split: if_splits option.splits sum.splits prod.splits)
  then show ?thesis using register_entries_gives by (fastforce simp: extends_by_def)
qed

lemma load_manifest_duplicate:
  assumes "registry_ok reg" and "map_of m ''rules'' = Some (PList entries)" and "PDict e \<in> set entries"
    and "prop_get e ''rule_id'' = PStr rid" and "rid \<in> set (dict_keys (rg_plugins reg))"
  shows "fst (load_manifest env p m reg) \<noteq> None"
proof
  assume "fst (load_manifest env p m reg) = None"
  then obtain reg1 where reg1: "register_entries env entries {} reg = (None, reg1)"
    using assms(2) by (auto simp: load_manifest_def Let_def split: if_splits option.splits sum.splits prod.splits)
  then obtain added where added: "list_all2 (entry_gives env) entries added" "extends_by reg added reg1"
    using register_entries_gives by blast
  have "\<exists>plugin \<in> set added. rule_id plugin = rid"
    using added(1) assms(3,4) by (induction rule: list_all2_induct) (auto simp: entry_gives_def)
  moreover have "registry_ok reg1" using register_entries_ok [OF reg1 assms(1)] by simp
  ultimately show False using extends_by_keys [OF added(2)] assms(5) by (auto simp: registry_ok_def)
qed

text \<open>
  A load that fails after it registered a rule cannot be repaired: no later load of a
  manifest that lists the rule succeeds on this registry, whatever was corrected.
\<close>

theorem failed_load_blocks_retry:
  assumes "registry_ok reg" and "load_standard env p reg = (Some err, reg')" and "extends_by reg (plugin # added) reg'"
    and "map_of m ''rules'' = Some (PList entries)" and "PDict e \<in> set entries"
    and "prop_get e ''rule_id'' = PStr (rule_id plugin)"
  shows "fst (load_manifest env' p' m reg') \<noteq> None"
proof (rule load_manifest_duplicate [OF _ assms(4-6)])
  show "registry_ok reg'" using load_standard_ok [OF assms(2,1)] by simp
  show "rule_id plugin \<in> set (dict_keys (rg_plugins reg'))" using assms(3) by (simp add: extends_by_def)
qed

text \<open>
  The version check lets a standard be loaded again in the same version, yet such a load is
  always rejected as a duplicate registration when the manifest lists any rule.
\<close>

theorem reload_rejected:
  assumes "registry_ok reg" and "load_manifest env p m reg = (None, reg')"
    and "map_of m ''rules'' = Some (PList (entry # entries))"
  shows "\<exists>rid. load_manifest env p m reg' = (Some (RuleRegistryError (''Duplicate rule registration: '' @ rid)), reg')"
proof -
  let ?standard = "prop_get m ''standard''"
  let ?version = "case map_of m ''version'' of None \<Rightarrow> PStr ''0.0.0'' | Some v \<Rightarrow> v"
  obtain key reg1 where key: "truthy ?standard" "hash_key ?standard = Inr key"
    and ext: "check_extends reg (prop_get m ''extends'') = None"
    and entries: "register_entries env (entry # entries) {} reg = (None, reg1)"
    and reg': "reg' = reg1\<lparr>rg_manifest_versions := dict_set key ?version (rg_manifest_versions reg1)\<rparr>"
    using assms(2,3) by (auto simp: load_manifest_def Let_def split: if_splits option.splits sum.splits prod.splits)
  obtain plugin added where entry: "entry_gives env entry plugin" "extends_by reg (plugin # added) reg1"
    using register_entries_gives [OF entries] by (auto simp: list_all2_Cons1)
  have "rg_manifest_versions reg1 = rg_manifest_versions reg"
    using register_entries_ok [OF entries assms(1)] by simp
  then have "check_extends reg' (prop_get m ''extends'') = None"
    using ext by (auto simp: check_extends_def reg' dict_keys_set split: if_splits sum.splits)
  moreover have "version_conflict reg' ?standard key ?version = None"
    by (simp add: version_conflict_def reg')
  moreover have "rule_id plugin \<in> set (dict_keys (rg_plugins reg'))" using entry(2) by (simp add: extends_by_def reg')
  then have "register_manifest_entry env entry {} reg'
      = Inl (RuleRegistryError (''Duplicate rule registration: '' @ rule_id plugin))"
    using entry(1) entries
    by (auto simp: entry_gives_def register_manifest_entry_def Let_def key_in_def split: if_splits sum.splits)
  ultimately show ?thesis using key assms(3) by (auto simp: load_manifest_def Let_def)
qed

end
