(* ===== verification/Catalogue.thy ===== *)
theory Catalogue
  imports Registry Pack_Control Pack_Types Pack_Expr Pack_Decl Pack_Linkage Pack_Preprocessor Pack_Library
begin

text \<open>
  The rule catalogue: which class of which module is which rule plugin
  (\<open>standards/misra_c_2012/rules\<close>), and the manifests of the two standards
  (\<open>standards/misra_c_2012/manifest.yaml\<close>, \<open>standards/misra_c_2023/manifest.yaml\<close>) as the values
  the YAML parser gives for them.  The result is that \<open>create_default_registry\<close> registers
  every modelled rule.
\<close>

subsection \<open>Modules and manifests\<close>

text \<open>A module's short name, its rule classes, and the plugins they make, in the same order.\<close>

definition module_classes :: "(string \<times> string list \<times> rule_plugin list) list" where
  "module_classes = [
     (''rule_8_4'', [
         ''Rule8_4''], [rule_8_4_plugin]),
     (''rule_10_1'', [
         ''Rule10_1''], [rule_10_1_plugin]),
     (''rule_10_3'', [
         ''Rule10_3''], [rule_10_3_plugin]),
     (''rule_11_8'', [
         ''Rule11_8''], [rule_11_8_plugin]),
     (''rule_15_5'', [
         ''Rule15_5''], [rule_15_5_plugin]),
     (''rule_pack_essential_types'', [
         ''Rule10_2'', ''Rule6_1'', ''Rule6_2''], essential_types_pack),
     (''rule_pack_conversions'', [
         ''Rule10_4'', ''Rule10_5'', ''Rule10_7'', ''Rule7_4'', ''Rule11_1'', ''Rule11_6'',
         ''Rule10_6'', ''Rule10_8''], conversions_pack),
     (''rule_pack_initialization'', [
         ''Rule9_1'', ''Rule2_2'', ''Rule9_3'', ''Rule9_5'', ''Rule9_2'', ''Rule9_4''], initialization_pack),
     (''rule_pack_storage_duration'', [
         ''Rule8_9'', ''Rule18_6''], storage_duration_pack),
     (''rule_pack_control_flow'', [
         ''Rule2_1'', ''Rule15_1'', ''Rule15_6'', ''Rule16_3'', ''Rule16_4'', ''Rule16_6'',
         ''Rule16_2'', ''Rule16_5'', ''Rule17_4'', ''Rule15_4'', ''Rule15_2'', ''Rule15_3'',
         ''Rule15_7'', ''Rule14_2'', ''Rule2_6'', ''Rule14_1'', ''Rule16_7'', ''Rule16_1'',
         ''Rule14_3''], control_flow_pack),
     (''rule_pack_expressions'', [
         ''Rule12_3'', ''Rule13_4'', ''Rule13_5'', ''Rule14_4'', ''Rule13_1'', ''Rule13_6'',
         ''Rule13_3'', ''Rule17_7'', ''Rule12_2'', ''Rule12_4'', ''Rule1_3'', ''Rule13_2'',
         ''Rule4_1'', ''Rule7_1'', ''Rule7_2'', ''Rule7_3'', ''Rule12_1'', ''Rule12_5''], expressions_pack),
     (''rule_pack_pointers'', [
         ''Rule11_4'', ''Rule11_5'', ''Rule11_9'', ''Rule18_2'', ''Rule18_3'', ''Rule18_4'',
         ''Rule19_1'', ''Rule11_3'', ''Rule11_7'', ''Rule18_1'', ''Rule11_2'', ''Rule18_5''], pointers_pack),
     (''rule_pack_declarations'', [
         ''Rule8_2'', ''Rule8_6'', ''Rule8_14'', ''Rule5_2'', ''Rule5_3'', ''Rule2_7'',
         ''Rule2_3'', ''Rule2_4'', ''Rule5_5'', ''Rule5_6'', ''Rule5_7'', ''Rule8_1'',
         ''Rule17_3'', ''Rule17_6'', ''Rule18_7'', ''Rule19_2'', ''Rule8_3'', ''Rule17_8'',
         ''Rule8_13'', ''Rule8_11'', ''Rule8_12'', ''Rule17_5'', ''Rule18_8''], declarations_pack),
     (''rule_pack_linkage'', [
         ''Rule5_1'', ''Rule8_7'', ''Rule8_10'', ''Rule5_8'', ''Rule5_9'', ''Rule8_5'',
         ''Rule8_8'', ''Rule17_2''], linkage_pack),
     (''rule_pack_preprocessor'', [
         ''Rule20_4'', ''Rule20_7'', ''Rule20_14'', ''Rule21_1'', ''Rule2_5'', ''Rule5_4'',
         ''Rule21_2'', ''Rule20_1'', ''Rule20_2'', ''Rule20_3'', ''Rule20_6'', ''Rule20_8'',
         ''Rule20_9'', ''Rule20_11'', ''Rule20_12'', ''Rule20_13'', ''Rule20_5'', ''Rule20_10''], preprocessor_pack),
     (''rule_pack_standard_library'', [
         ''Rule17_1'', ''Rule21_3'', ''Rule21_4'', ''Rule21_5'', ''Rule21_6'', ''Rule21_7'',
         ''Rule21_8'', ''Rule21_9'', ''Rule21_10'', ''Rule21_11'', ''Rule21_12'', ''Rule21_21'',
         ''Rule22_8'', ''Rule21_14'', ''Rule21_16'', ''Rule21_19'', ''Rule22_5'', ''Rule22_7'',
         ''Rule22_1'', ''Rule22_2'', ''Rule22_3'', ''Rule22_9'', ''Rule22_10'', ''Rule21_15'',
         ''Rule21_17'', ''Rule21_18'', ''Rule21_20'', ''Rule22_6'', ''Rule21_13'', ''Rule22_4''], standard_library_pack)]"

text \<open>All rules.\<close>

definition catalogue_plugins :: "rule_plugin list" where
  "catalogue_plugins = concat (map (snd \<circ> snd) module_classes)"

text \<open>The same table with the rule numbers, as they appear in rule identifiers.\<close>

definition module_rule_ids :: "(string \<times> string list \<times> string list) list" where
  "module_rule_ids = [
     (''rule_8_4'', [
         ''Rule8_4''], [
         ''8-4'']),
     (''rule_10_1'', [
         ''Rule10_1''], [
         ''10-1'']),
     (''rule_10_3'', [
         ''Rule10_3''], [
         ''10-3'']),
     (''rule_11_8'', [
         ''Rule11_8''], [
         ''11-8'']),
     (''rule_15_5'', [
         ''Rule15_5''], [
         ''15-5'']),
     (''rule_pack_essential_types'', [
         ''Rule10_2'', ''Rule6_1'', ''Rule6_2''], [
         ''10-2'', ''6-1'', ''6-2'']),
     (''rule_pack_conversions'', [
         ''Rule10_4'', ''Rule10_5'', ''Rule10_7'', ''Rule7_4'', ''Rule11_1'', ''Rule11_6'',
         ''Rule10_6'', ''Rule10_8''], [
         ''10-4'', ''10-5'', ''10-7'', ''7-4'', ''11-1'', ''11-6'', ''10-6'', ''10-8'']),
     (''rule_pack_initialization'', [
         ''Rule9_1'', ''Rule2_2'', ''Rule9_3'', ''Rule9_5'', ''Rule9_2'', ''Rule9_4''], [
         ''9-1'', ''2-2'', ''9-3'', ''9-5'', ''9-2'', ''9-4'']),
     (''rule_pack_storage_duration'', [
         ''Rule8_9'', ''Rule18_6''], [
         ''8-9'', ''18-6'']),
     (''rule_pack_control_flow'', [
         ''Rule2_1'', ''Rule15_1'', ''Rule15_6'', ''Rule16_3'', ''Rule16_4'', ''Rule16_6'',
         ''Rule16_2'', ''Rule16_5'', ''Rule17_4'', ''Rule15_4'', ''Rule15_2'', ''Rule15_3'',
         ''Rule15_7'', ''Rule14_2'', ''Rule2_6'', ''Rule14_1'', ''Rule16_7'', ''Rule16_1'',
         ''Rule14_3''], [
         ''2-1'', ''15-1'', ''15-6'', ''16-3'', ''16-4'', ''16-6'', ''16-2'', ''16-5'', ''17-4'',
         ''15-4'', ''15-2'', ''15-3'', ''15-7'', ''14-2'', ''2-6'', ''14-1'', ''16-7'', ''16-1'',
         ''14-3'']),
     (''rule_pack_expressions'', [
         ''Rule12_3'', ''Rule13_4'', ''Rule13_5'', ''Rule14_4'', ''Rule13_1'', ''Rule13_6'',
         ''Rule13_3'', ''Rule17_7'', ''Rule12_2'', ''Rule12_4'', ''Rule1_3'', ''Rule13_2'',
         ''Rule4_1'', ''Rule7_1'', ''Rule7_2'', ''Rule7_3'', ''Rule12_1'', ''Rule12_5''], [
         ''12-3'', ''13-4'', ''13-5'', ''14-4'', ''13-1'', ''13-6'', ''13-3'', ''17-7'', ''12-2'',
         ''12-4'', ''1-3'', ''13-2'', ''4-1'', ''7-1'', ''7-2'', ''7-3'', ''12-1'', ''12-5'']),
     (''rule_pack_pointers'', [
         ''Rule11_4'', ''Rule11_5'', ''Rule11_9'', ''Rule18_2'', ''Rule18_3'', ''Rule18_4'',
         ''Rule19_1'', ''Rule11_3'', ''Rule11_7'', ''Rule18_1'', ''Rule11_2'', ''Rule18_5''], [
         ''11-4'', ''11-5'', ''11-9'', ''18-2'', ''18-3'', ''18-4'', ''19-1'', ''11-3'', ''11-7'',
         ''18-1'', ''11-2'', ''18-5'']),
     (''rule_pack_declarations'', [
         ''Rule8_2'', ''Rule8_6'', ''Rule8_14'', ''Rule5_2'', ''Rule5_3'', ''Rule2_7'',
         ''Rule2_3'', ''Rule2_4'', ''Rule5_5'', ''Rule5_6'', ''Rule5_7'', ''Rule8_1'',
         ''Rule17_3'', ''Rule17_6'', ''Rule18_7'', ''Rule19_2'', ''Rule8_3'', ''Rule17_8'',
         ''Rule8_13'', ''Rule8_11'', ''Rule8_12'', ''Rule17_5'', ''Rule18_8''], [
         ''8-2'', ''8-6'', ''8-14'', ''5-2'', ''5-3'', ''2-7'', ''2-3'', ''2-4'', ''5-5'', ''5-6'',
         ''5-7'', ''8-1'', ''17-3'', ''17-6'', ''18-7'', ''19-2'', ''8-3'', ''17-8'', ''8-13'',
         ''8-11'', ''8-12'', ''17-5'', ''18-8'']),
     (''rule_pack_linkage'', [
         ''Rule5_1'', ''Rule8_7'', ''Rule8_10'', ''Rule5_8'', ''Rule5_9'', ''Rule8_5'',
         ''Rule8_8'', ''Rule17_2''], [
         ''5-1'', ''8-7'', ''8-10'', ''5-8'', ''5-9'', ''8-5'', ''8-8'', ''17-2'']),
     (''rule_pack_preprocessor'', [
         ''Rule20_4'', ''Rule20_7'', ''Rule20_14'', ''Rule21_1'', ''Rule2_5'', ''Rule5_4'',
         ''Rule21_2'', ''Rule20_1'', ''Rule20_2'', ''Rule20_3'', ''Rule20_6'', ''Rule20_8'',
         ''Rule20_9'', ''Rule20_11'', ''Rule20_12'', ''Rule20_13'', ''Rule20_5'', ''Rule20_10''], [
         ''20-4'', ''20-7'', ''20-14'', ''21-1'', ''2-5'', ''5-4'', ''21-2'', ''20-1'', ''20-2'',
         ''20-3'', ''20-6'', ''20-8'', ''20-9'', ''20-11'', ''20-12'', ''20-13'', ''20-5'',
         ''20-10'']),
     (''rule_pack_standard_library'', [
         ''Rule17_1'', ''Rule21_3'', ''Rule21_4'', ''Rule21_5'', ''Rule21_6'', ''Rule21_7'',
         ''Rule21_8'', ''Rule21_9'', ''Rule21_10'', ''Rule21_11'', ''Rule21_12'', ''Rule21_21'',
         ''Rule22_8'', ''Rule21_14'', ''Rule21_16'', ''Rule21_19'', ''Rule22_5'', ''Rule22_7'',
         ''Rule22_1'', ''Rule22_2'', ''Rule22_3'', ''Rule22_9'', ''Rule22_10'', ''Rule21_15'',
         ''Rule21_17'', ''Rule21_18'', ''Rule21_20'', ''Rule22_6'', ''Rule21_13'', ''Rule22_4''], [
         ''17-1'', ''21-3'', ''21-4'', ''21-5'', ''21-6'', ''21-7'', ''21-8'', ''21-9'', ''21-10'',
         ''21-11'', ''21-12'', ''21-21'', ''22-8'', ''21-14'', ''21-16'', ''21-19'', ''22-5'',
         ''22-7'', ''22-1'', ''22-2'', ''22-3'', ''22-9'', ''22-10'', ''21-15'', ''21-17'',
         ''21-18'', ''21-20'', ''22-6'', ''21-13'', ''22-4''])]"

definition rules_package :: string where
  "rules_package = ''misra_platform_rules.standards.misra_c_2012.rules.''"

definition rule_modules :: "string \<Rightarrow> py_module option" where
  "rule_modules name =
     (if starts_with name rules_package then
        map_option (\<lambda>(classes, plugins). zip classes (map Inr plugins))
          (map_of module_classes (drop (length rules_package) name))
      else None)"

text \<open>The entries of the manifest: number, module and class.\<close>

definition manifest_rules :: "(string \<times> string \<times> string) list" where
  "manifest_rules = [
     (''8-4'', ''rule_8_4'', ''Rule8_4''), (''10-1'', ''rule_10_1'', ''Rule10_1''),
     (''10-3'', ''rule_10_3'', ''Rule10_3''), (''11-8'', ''rule_11_8'', ''Rule11_8''),
     (''15-5'', ''rule_15_5'', ''Rule15_5''),
     (''10-2'', ''rule_pack_essential_types'', ''Rule10_2''),
     (''10-4'', ''rule_pack_conversions'', ''Rule10_4''),
     (''10-5'', ''rule_pack_conversions'', ''Rule10_5''),
     (''10-7'', ''rule_pack_conversions'', ''Rule10_7''),
     (''8-2'', ''rule_pack_declarations'', ''Rule8_2''),
     (''8-6'', ''rule_pack_declarations'', ''Rule8_6''),
     (''8-14'', ''rule_pack_declarations'', ''Rule8_14''),
     (''11-4'', ''rule_pack_pointers'', ''Rule11_4''),
     (''11-5'', ''rule_pack_pointers'', ''Rule11_5''),
     (''11-9'', ''rule_pack_pointers'', ''Rule11_9''),
     (''18-2'', ''rule_pack_pointers'', ''Rule18_2''),
     (''2-1'', ''rule_pack_control_flow'', ''Rule2_1''),
     (''15-1'', ''rule_pack_control_flow'', ''Rule15_1''),
     (''15-6'', ''rule_pack_control_flow'', ''Rule15_6''),
     (''16-3'', ''rule_pack_control_flow'', ''Rule16_3''),
     (''16-4'', ''rule_pack_control_flow'', ''Rule16_4''),
     (''16-6'', ''rule_pack_control_flow'', ''Rule16_6''),
     (''20-4'', ''rule_pack_preprocessor'', ''Rule20_4''),
     (''20-7'', ''rule_pack_preprocessor'', ''Rule20_7''),
     (''20-14'', ''rule_pack_preprocessor'', ''Rule20_14''),
     (''21-1'', ''rule_pack_preprocessor'', ''Rule21_1''),
     (''12-3'', ''rule_pack_expressions'', ''Rule12_3''),
     (''13-4'', ''rule_pack_expressions'', ''Rule13_4''),
     (''13-5'', ''rule_pack_expressions'', ''Rule13_5''),
     (''14-4'', ''rule_pack_expressions'', ''Rule14_4''),
     (''9-1'', ''rule_pack_initialization'', ''Rule9_1''),
     (''2-2'', ''rule_pack_initialization'', ''Rule2_2''),
     (''8-9'', ''rule_pack_storage_duration'', ''Rule8_9''),
     (''18-6'', ''rule_pack_storage_duration'', ''Rule18_6''),
     (''5-1'', ''rule_pack_linkage'', ''Rule5_1''), (''8-7'', ''rule_pack_linkage'', ''Rule8_7''),
     (''8-10'', ''rule_pack_linkage'', ''Rule8_10''),
     (''5-2'', ''rule_pack_declarations'', ''Rule5_2''),
     (''5-3'', ''rule_pack_declarations'', ''Rule5_3''),
     (''2-7'', ''rule_pack_declarations'', ''Rule2_7''),
     (''13-1'', ''rule_pack_expressions'', ''Rule13_1''),
     (''13-6'', ''rule_pack_expressions'', ''Rule13_6''),
     (''16-2'', ''rule_pack_control_flow'', ''Rule16_2''),
     (''16-5'', ''rule_pack_control_flow'', ''Rule16_5''),
     (''17-4'', ''rule_pack_control_flow'', ''Rule17_4''),
     (''15-4'', ''rule_pack_control_flow'', ''Rule15_4''),
     (''5-8'', ''rule_pack_linkage'', ''Rule5_8''), (''5-9'', ''rule_pack_linkage'', ''Rule5_9''),
     (''8-5'', ''rule_pack_linkage'', ''Rule8_5''), (''8-8'', ''rule_pack_linkage'', ''Rule8_8''),
     (''2-5'', ''rule_pack_preprocessor'', ''Rule2_5''),
     (''5-4'', ''rule_pack_preprocessor'', ''Rule5_4''),
     (''21-2'', ''rule_pack_preprocessor'', ''Rule21_2''),
     (''7-4'', ''rule_pack_conversions'', ''Rule7_4''),
     (''11-1'', ''rule_pack_conversions'', ''Rule11_1''),
     (''11-6'', ''rule_pack_conversions'', ''Rule11_6''),
     (''18-3'', ''rule_pack_pointers'', ''Rule18_3''),
     (''18-4'', ''rule_pack_pointers'', ''Rule18_4''),
     (''19-1'', ''rule_pack_pointers'', ''Rule19_1''),
     (''2-3'', ''rule_pack_declarations'', ''Rule2_3''),
     (''2-4'', ''rule_pack_declarations'', ''Rule2_4''),
     (''5-5'', ''rule_pack_declarations'', ''Rule5_5''),
     (''5-6'', ''rule_pack_declarations'', ''Rule5_6''),
     (''5-7'', ''rule_pack_declarations'', ''Rule5_7''),
     (''8-1'', ''rule_pack_declarations'', ''Rule8_1''),
     (''17-3'', ''rule_pack_declarations'', ''Rule17_3''),
     (''17-6'', ''rule_pack_declarations'', ''Rule17_6''),
     (''18-7'', ''rule_pack_declarations'', ''Rule18_7''),
     (''19-2'', ''rule_pack_declarations'', ''Rule19_2''),
     (''15-2'', ''rule_pack_control_flow'', ''Rule15_2''),
     (''15-3'', ''rule_pack_control_flow'', ''Rule15_3''),
     (''15-7'', ''rule_pack_control_flow'', ''Rule15_7''),
     (''14-2'', ''rule_pack_control_flow'', ''Rule14_2''),
     (''9-3'', ''rule_pack_initialization'', ''Rule9_3''),
     (''9-5'', ''rule_pack_initialization'', ''Rule9_5''),
     (''13-3'', ''rule_pack_expressions'', ''Rule13_3''),
     (''17-7'', ''rule_pack_expressions'', ''Rule17_7''),
     (''2-6'', ''rule_pack_control_flow'', ''Rule2_6''),
     (''20-1'', ''rule_pack_preprocessor'', ''Rule20_1''),
     (''20-2'', ''rule_pack_preprocessor'', ''Rule20_2''),
     (''20-3'', ''rule_pack_preprocessor'', ''Rule20_3''),
     (''20-6'', ''rule_pack_preprocessor'', ''Rule20_6''),
     (''20-8'', ''rule_pack_preprocessor'', ''Rule20_8''),
     (''20-9'', ''rule_pack_preprocessor'', ''Rule20_9''),
     (''20-11'', ''rule_pack_preprocessor'', ''Rule20_11''),
     (''20-12'', ''rule_pack_preprocessor'', ''Rule20_12''),
     (''20-13'', ''rule_pack_preprocessor'', ''Rule20_13''),
     (''17-1'', ''rule_pack_standard_library'', ''Rule17_1''),
     (''21-3'', ''rule_pack_standard_library'', ''Rule21_3''),
     (''21-4'', ''rule_pack_standard_library'', ''Rule21_4''),
     (''21-5'', ''rule_pack_standard_library'', ''Rule21_5''),
     (''21-6'', ''rule_pack_standard_library'', ''Rule21_6''),
     (''21-7'', ''rule_pack_standard_library'', ''Rule21_7''),
     (''21-8'', ''rule_pack_standard_library'', ''Rule21_8''),
     (''21-9'', ''rule_pack_standard_library'', ''Rule21_9''),
     (''21-10'', ''rule_pack_standard_library'', ''Rule21_10''),
     (''21-11'', ''rule_pack_standard_library'', ''Rule21_11''),
     (''21-12'', ''rule_pack_standard_library'', ''Rule21_12''),
     (''21-21'', ''rule_pack_standard_library'', ''Rule21_21''),
     (''22-8'', ''rule_pack_standard_library'', ''Rule22_8''),
     (''8-3'', ''rule_pack_declarations'', ''Rule8_3''),
     (''10-6'', ''rule_pack_conversions'', ''Rule10_6''),
     (''10-8'', ''rule_pack_conversions'', ''Rule10_8''),
     (''11-3'', ''rule_pack_pointers'', ''Rule11_3''),
     (''11-7'', ''rule_pack_pointers'', ''Rule11_7''),
     (''12-2'', ''rule_pack_expressions'', ''Rule12_2''),
     (''12-4'', ''rule_pack_expressions'', ''Rule12_4''),
     (''14-1'', ''rule_pack_control_flow'', ''Rule14_1''),
     (''16-7'', ''rule_pack_control_flow'', ''Rule16_7''),
     (''21-14'', ''rule_pack_standard_library'', ''Rule21_14''),
     (''21-16'', ''rule_pack_standard_library'', ''Rule21_16''),
     (''21-19'', ''rule_pack_standard_library'', ''Rule21_19''),
     (''22-5'', ''rule_pack_standard_library'', ''Rule22_5''),
     (''22-7'', ''rule_pack_standard_library'', ''Rule22_7''),
     (''16-1'', ''rule_pack_control_flow'', ''Rule16_1''),
     (''14-3'', ''rule_pack_control_flow'', ''Rule14_3''),
     (''1-3'', ''rule_pack_expressions'', ''Rule1_3''),
     (''13-2'', ''rule_pack_expressions'', ''Rule13_2''),
     (''17-8'', ''rule_pack_declarations'', ''Rule17_8''),
     (''8-13'', ''rule_pack_declarations'', ''Rule8_13''),
     (''22-1'', ''rule_pack_standard_library'', ''Rule22_1''),
     (''22-2'', ''rule_pack_standard_library'', ''Rule22_2''),
     (''22-3'', ''rule_pack_standard_library'', ''Rule22_3''),
     (''22-9'', ''rule_pack_standard_library'', ''Rule22_9''),
     (''22-10'', ''rule_pack_standard_library'', ''Rule22_10''),
     (''17-2'', ''rule_pack_linkage'', ''Rule17_2''),
     (''18-1'', ''rule_pack_pointers'', ''Rule18_1''),
     (''21-15'', ''rule_pack_standard_library'', ''Rule21_15''),
     (''21-17'', ''rule_pack_standard_library'', ''Rule21_17''),
     (''21-18'', ''rule_pack_standard_library'', ''Rule21_18''),
     (''21-20'', ''rule_pack_standard_library'', ''Rule21_20''),
     (''22-6'', ''rule_pack_standard_library'', ''Rule22_6''),
     (''4-1'', ''rule_pack_expressions'', ''Rule4_1''),
     (''7-1'', ''rule_pack_expressions'', ''Rule7_1''),
     (''7-2'', ''rule_pack_expressions'', ''Rule7_2''),
     (''7-3'', ''rule_pack_expressions'', ''Rule7_3''),
     (''12-1'', ''rule_pack_expressions'', ''Rule12_1''),
     (''12-5'', ''rule_pack_expressions'', ''Rule12_5''),
     (''6-1'', ''rule_pack_essential_types'', ''Rule6_1''),
     (''6-2'', ''rule_pack_essential_types'', ''Rule6_2''),
     (''8-11'', ''rule_pack_declarations'', ''Rule8_11''),
     (''8-12'', ''rule_pack_declarations'', ''Rule8_12''),
     (''17-5'', ''rule_pack_declarations'', ''Rule17_5''),
     (''18-8'', ''rule_pack_declarations'', ''Rule18_8''),
     (''9-2'', ''rule_pack_initialization'', ''Rule9_2''),
     (''9-4'', ''rule_pack_initialization'', ''Rule9_4''),
     (''11-2'', ''rule_pack_pointers'', ''Rule11_2''),
     (''18-5'', ''rule_pack_pointers'', ''Rule18_5''),
     (''20-5'', ''rule_pack_preprocessor'', ''Rule20_5''),
     (''20-10'', ''rule_pack_preprocessor'', ''Rule20_10''),
     (''21-13'', ''rule_pack_standard_library'', ''Rule21_13''),
     (''22-4'', ''rule_pack_standard_library'', ''Rule22_4'')]"

definition manifest_rule_id :: "string \<Rightarrow> string" where
  "manifest_rule_id n = ''misra-c2012-rule-'' @ n"

definition manifest_entry :: "string \<times> string \<times> string \<Rightarrow> pyval" where
  "manifest_entry row = (case row of (n, m, c) \<Rightarrow> PDict
     [(''rule_id'', PStr (manifest_rule_id n)), (''module'', PStr (rules_package @ m)),
      (''class_name'', PStr c), (''dependencies'', PList [])])"

definition manifest_2012 :: props where
  "manifest_2012 = [(''standard'', PStr ''misra_c_2012''), (''version'', PStr ''0.1.0''), (''extends'', PNone),
     (''rules'', PList (map manifest_entry manifest_rules))]"

definition manifest_2023 :: props where
  "manifest_2023 = [(''standard'', PStr ''misra_c_2023''), (''version'', PStr ''0.1.0''),
     (''extends'', PStr ''misra_c_2012''), (''rules'', PList [])]"

subsection \<open>The plugins have the identifiers of the manifest\<close>

lemmas plugin_defs = rule_id_def scan_rule_def loop_rule_def raising_rule_def directive_rule_def table_rule_def

lemma rule_8_4_plugin_ids: "map rule_id [rule_8_4_plugin] = map manifest_rule_id
    [''8-4'']"
  by (simp add: rule_8_4_plugin_def manifest_rule_id_def plugin_defs
    rule_8_4_metadata_def)

lemma rule_10_1_plugin_ids: "map rule_id [rule_10_1_plugin] = map manifest_rule_id
    [''10-1'']"
  by (simp add: rule_10_1_plugin_def manifest_rule_id_def plugin_defs
    rule_10_1_metadata_def)

lemma rule_10_3_plugin_ids: "map rule_id [rule_10_3_plugin] = map manifest_rule_id
    [''10-3'']"
  by (simp add: rule_10_3_plugin_def manifest_rule_id_def plugin_defs
    rule_10_3_metadata_def)

lemma rule_11_8_plugin_ids: "map rule_id [rule_11_8_plugin] = map manifest_rule_id
    [''11-8'']"
  by (simp add: rule_11_8_plugin_def manifest_rule_id_def plugin_defs
    rule_11_8_metadata_def)

lemma rule_15_5_plugin_ids: "map rule_id [rule_15_5_plugin] = map manifest_rule_id
    [''15-5'']"
  by (simp add: rule_15_5_plugin_def manifest_rule_id_def plugin_defs
    rule_15_5_metadata_def)

lemma essential_types_pack_ids: "map rule_id essential_types_pack = map manifest_rule_id
    [''10-2'', ''6-1'', ''6-2'']"
  by (simp add: essential_types_pack_def manifest_rule_id_def plugin_defs
    rule_10_2_metadata_def rule_6_1_metadata_def rule_6_2_metadata_def)

lemma conversions_pack_ids: "map rule_id conversions_pack = map manifest_rule_id
    [''10-4'', ''10-5'', ''10-7'', ''7-4'', ''11-1'', ''11-6'', ''10-6'', ''10-8'']"
  by (simp add: conversions_pack_def manifest_rule_id_def plugin_defs
    rule_10_4_metadata_def rule_10_5_metadata_def rule_10_7_metadata_def rule_7_4_metadata_def
    rule_11_1_metadata_def rule_11_6_metadata_def rule_10_6_metadata_def rule_10_8_metadata_def)

lemma initialization_pack_ids: "map rule_id initialization_pack = map manifest_rule_id
    [''9-1'', ''2-2'', ''9-3'', ''9-5'', ''9-2'', ''9-4'']"
  by (simp add: initialization_pack_def manifest_rule_id_def plugin_defs
    rule_9_1_metadata_def rule_2_2_metadata_def rule_9_3_metadata_def rule_9_5_metadata_def
    rule_9_2_metadata_def rule_9_4_metadata_def)

lemma storage_duration_pack_ids: "map rule_id storage_duration_pack = map manifest_rule_id
    [''8-9'', ''18-6'']"
  by (simp add: storage_duration_pack_def manifest_rule_id_def plugin_defs
    rule_8_9_metadata_def rule_18_6_metadata_def)

lemma control_flow_pack_ids: "map rule_id control_flow_pack = map manifest_rule_id
    [''2-1'', ''15-1'', ''15-6'', ''16-3'', ''16-4'', ''16-6'', ''16-2'', ''16-5'', ''17-4'',
     ''15-4'', ''15-2'', ''15-3'', ''15-7'', ''14-2'', ''2-6'', ''14-1'', ''16-7'',
     ''16-1'', ''14-3'']"
  by (simp add: control_flow_pack_def manifest_rule_id_def plugin_defs
    rule_2_1_metadata_def rule_15_1_metadata_def rule_15_6_metadata_def rule_16_3_metadata_def
    rule_16_4_metadata_def rule_16_6_metadata_def rule_16_2_metadata_def rule_16_5_metadata_def
    rule_17_4_metadata_def rule_15_4_metadata_def rule_15_2_metadata_def rule_15_3_metadata_def
    rule_15_7_metadata_def rule_14_2_metadata_def rule_2_6_metadata_def rule_14_1_metadata_def
    rule_16_7_metadata_def rule_16_1_metadata_def rule_14_3_metadata_def)

lemma expressions_pack_ids: "map rule_id expressions_pack = map manifest_rule_id
    [''12-3'', ''13-4'', ''13-5'', ''14-4'', ''13-1'', ''13-6'', ''13-3'', ''17-7'', ''12-2'',
     ''12-4'', ''1-3'', ''13-2'', ''4-1'', ''7-1'', ''7-2'', ''7-3'', ''12-1'', ''12-5'']"
  by (simp add: expressions_pack_def manifest_rule_id_def plugin_defs
    rule_12_3_metadata_def rule_13_4_metadata_def rule_13_5_metadata_def rule_14_4_metadata_def
    rule_13_1_metadata_def rule_13_6_metadata_def rule_13_3_metadata_def rule_17_7_metadata_def
    rule_12_2_metadata_def rule_12_4_metadata_def rule_1_3_metadata_def rule_13_2_metadata_def
    rule_4_1_metadata_def rule_7_1_metadata_def rule_7_2_metadata_def rule_7_3_metadata_def
    rule_12_1_metadata_def rule_12_5_metadata_def)

lemma pointers_pack_ids: "map rule_id pointers_pack = map manifest_rule_id
    [''11-4'', ''11-5'', ''11-9'', ''18-2'', ''18-3'', ''18-4'', ''19-1'', ''11-3'', ''11-7'',
     ''18-1'', ''11-2'', ''18-5'']"
  by (simp add: pointers_pack_def manifest_rule_id_def plugin_defs
    rule_11_4_metadata_def rule_11_5_metadata_def rule_11_9_metadata_def rule_18_2_metadata_def
    rule_18_3_metadata_def rule_18_4_metadata_def rule_19_1_metadata_def rule_11_3_metadata_def
    rule_11_7_metadata_def rule_18_1_metadata_def rule_11_2_metadata_def rule_18_5_metadata_def)

lemma declarations_pack_ids: "map rule_id declarations_pack = map manifest_rule_id
    [''8-2'', ''8-6'', ''8-14'', ''5-2'', ''5-3'', ''2-7'', ''2-3'', ''2-4'', ''5-5'', ''5-6'',
     ''5-7'', ''8-1'', ''17-3'', ''17-6'', ''18-7'', ''19-2'', ''8-3'', ''17-8'', ''8-13'',
     ''8-11'', ''8-12'', ''17-5'', ''18-8'']"
  by (simp add: declarations_pack_def manifest_rule_id_def plugin_defs
    rule_8_2_metadata_def rule_8_6_metadata_def rule_8_14_metadata_def rule_5_2_metadata_def
    rule_5_3_metadata_def rule_2_7_metadata_def rule_2_3_metadata_def rule_2_4_metadata_def
    rule_5_5_metadata_def rule_5_6_metadata_def rule_5_7_metadata_def rule_8_1_metadata_def
    rule_17_3_metadata_def rule_17_6_metadata_def rule_18_7_metadata_def rule_19_2_metadata_def
    rule_8_3_metadata_def rule_17_8_metadata_def rule_8_13_metadata_def rule_8_11_metadata_def
    rule_8_12_metadata_def rule_17_5_metadata_def rule_18_8_metadata_def)

lemma linkage_pack_ids: "map rule_id linkage_pack = map manifest_rule_id
    [''5-1'', ''8-7'', ''8-10'', ''5-8'', ''5-9'', ''8-5'', ''8-8'', ''17-2'']"
  by (simp add: linkage_pack_def manifest_rule_id_def plugin_defs
    rule_5_1_metadata_def rule_8_7_metadata_def rule_8_10_metadata_def rule_5_8_metadata_def
    rule_5_9_metadata_def rule_8_5_metadata_def rule_8_8_metadata_def rule_17_2_metadata_def)

lemma preprocessor_pack_ids: "map rule_id preprocessor_pack = map manifest_rule_id
    [''20-4'', ''20-7'', ''20-14'', ''21-1'', ''2-5'', ''5-4'', ''21-2'', ''20-1'', ''20-2'',
     ''20-3'', ''20-6'', ''20-8'', ''20-9'', ''20-11'', ''20-12'', ''20-13'', ''20-5'',
     ''20-10'']"
  by (simp add: preprocessor_pack_def manifest_rule_id_def plugin_defs
    rule_20_4_metadata_def rule_20_7_metadata_def rule_20_14_metadata_def rule_21_1_metadata_def
    rule_2_5_metadata_def rule_5_4_metadata_def rule_21_2_metadata_def rule_20_1_metadata_def
    rule_20_2_metadata_def rule_20_3_metadata_def rule_20_6_metadata_def rule_20_8_metadata_def
    rule_20_9_metadata_def rule_20_11_metadata_def rule_20_12_metadata_def rule_20_13_metadata_def
    rule_20_5_metadata_def rule_20_10_metadata_def)

lemma standard_library_pack_ids: "map rule_id standard_library_pack = map manifest_rule_id
    [''17-1'', ''21-3'', ''21-4'', ''21-5'', ''21-6'', ''21-7'', ''21-8'', ''21-9'', ''21-10'',
     ''21-11'', ''21-12'', ''21-21'', ''22-8'', ''21-14'', ''21-16'', ''21-19'', ''22-5'',
     ''22-7'', ''22-1'', ''22-2'', ''22-3'', ''22-9'', ''22-10'', ''21-15'', ''21-17'',
     ''21-18'', ''21-20'', ''22-6'', ''21-13'', ''22-4'']"
  by (simp add: standard_library_pack_def manifest_rule_id_def plugin_defs
    rule_17_1_metadata_def rule_21_3_metadata_def rule_21_4_metadata_def rule_21_5_metadata_def
    rule_21_6_metadata_def rule_21_7_metadata_def rule_21_8_metadata_def rule_21_9_metadata_def
    rule_21_10_metadata_def rule_21_11_metadata_def rule_21_12_metadata_def rule_21_21_metadata_def
    rule_22_8_metadata_def rule_21_14_metadata_def rule_21_16_metadata_def rule_21_19_metadata_def
    rule_22_5_metadata_def rule_22_7_metadata_def rule_22_1_metadata_def rule_22_2_metadata_def
    rule_22_3_metadata_def rule_22_9_metadata_def rule_22_10_metadata_def rule_21_15_metadata_def
    rule_21_17_metadata_def rule_21_18_metadata_def rule_21_20_metadata_def rule_22_6_metadata_def
    rule_21_13_metadata_def rule_22_4_metadata_def)

lemma module_tables: "list_all2 (\<lambda>(m, classes, plugins) (m', classes', ids).
    m = m' \<and> classes = classes' \<and> length classes = length ids \<and> map rule_id plugins = map manifest_rule_id ids)
  module_classes module_rule_ids"
  unfolding module_classes_def module_rule_ids_def
  by (simp only: list_all2_Cons list_all2_Nil prod.case simp_thms
    rule_8_4_plugin_ids
    rule_10_1_plugin_ids
    rule_10_3_plugin_ids
    rule_11_8_plugin_ids
    rule_15_5_plugin_ids
    essential_types_pack_ids
    conversions_pack_ids
    initialization_pack_ids
    storage_duration_pack_ids
    control_flow_pack_ids
    expressions_pack_ids
    pointers_pack_ids
    declarations_pack_ids
    linkage_pack_ids
    preprocessor_pack_ids
    standard_library_pack_ids)
    simp

lemma manifest_rows_known:
  "list_all (\<lambda>(n, m, c). case map_of module_rule_ids m of
      Some (classes, ids) \<Rightarrow> map_of (zip classes ids) c = Some n
    | None \<Rightarrow> False) manifest_rules"
  by code_simp

lemma manifest_numbers_distinct: "distinct (map fst manifest_rules)"
  by code_simp

lemma manifest_names: "list_all (\<lambda>(n, m, c). m \<noteq> [] \<and> c \<noteq> []) manifest_rules"
  by code_simp

subsection \<open>The default registry\<close>

text \<open>Equal shapes of two tables: a lookup in one answers a lookup in the other.\<close>

lemma map_of_all2:
  assumes "list_all2 (\<lambda>(k, v) (k', v'). k = k' \<and> R v v') xs ys" and "map_of ys k = Some v'"
  shows "\<exists>v. map_of xs k = Some v \<and> R v v'"
  using assms by (induction rule: list_all2_induct) (auto split: if_splits)

lemma map_of_zip_ids:
  assumes "map_of (zip classes ids) c = Some n" and "map rule_id plugins = map manifest_rule_id ids"
  shows "\<exists>p. map_of (zip classes (map Inr plugins)) c = Some (Inr p :: py_error + rule_plugin)
    \<and> rule_id p = manifest_rule_id n \<and> p \<in> set plugins"
  using assms
proof (induction classes arbitrary: ids plugins)
  case (Cons k classes)
  then show ?case by (cases ids; cases plugins) (auto split: if_splits)
qed simp

lemma manifest_row_plugin:
  assumes "(n, m, c) \<in> set manifest_rules" and "re_modules env = rule_modules"
  shows "\<exists>p. plain_entry env (manifest_entry (n, m, c)) p \<and> rule_id p = manifest_rule_id n \<and> p \<in> set catalogue_plugins"
proof -
  obtain classes ids where row: "map_of module_rule_ids m = Some (classes, ids)" "map_of (zip classes ids) c = Some n"
    using assms(1) manifest_rows_known by (auto simp: list_all_iff split: option.splits)
  have "list_all2 (\<lambda>(m, v) (m', v'). m = m' \<and>
      (case (v, v') of ((classes, plugins), (classes', ids)) \<Rightarrow> classes = classes' \<and>
        map rule_id plugins = map manifest_rule_id ids)) module_classes module_rule_ids"
    by (rule list_all2_mono [OF module_tables]) auto
  from map_of_all2 [OF this row(1)] obtain plugins where
    plugins: "map_of module_classes m = Some (classes, plugins)" "map rule_id plugins = map manifest_rule_id ids"
    by auto
  obtain p where p: "map_of (zip classes (map Inr plugins)) c = Some (Inr p :: py_error + rule_plugin)" "rule_id p = manifest_rule_id n"
      "p \<in> set plugins"
    using map_of_zip_ids [OF row(2) plugins(2)] by blast
  have "p \<in> set catalogue_plugins"
    using bexI [OF _ map_of_SomeD [OF plugins(1)], of "\<lambda>e. p \<in> set (snd (snd e))"] p(3)
    by (simp add: catalogue_plugins_def)
  moreover  have "rule_modules (rules_package @ m) = Some (zip classes (map Inr plugins))"
    using plugins(1) by (simp add: rule_modules_def)
  moreover have "m \<noteq> []" "c \<noteq> []" using assms(1) manifest_names by (auto simp: list_all_iff)
  ultimately show ?thesis using p assms(2)
    by (intro exI [of _ p]) (simp add: plain_entry_def entry_gives_def manifest_entry_def prop_get_def
        import_plugin_def manifest_rule_id_def)
qed

lemma manifest_plugins:
  assumes "re_modules env = rule_modules" and "set rows \<subseteq> set manifest_rules"
  shows "\<exists>added. list_all2 (plain_entry env) (map manifest_entry rows) added
    \<and> map rule_id added = map (manifest_rule_id \<circ> fst) rows \<and> set added \<subseteq> set catalogue_plugins"
  using assms(2)
proof (induction rows)
  case Nil
  then show ?case by simp
next
  case (Cons row rows)
  obtain n m c where row: "row = (n, m, c)" by (cases row)
  obtain p where "plain_entry env (manifest_entry row) p" "rule_id p = manifest_rule_id n"
      "p \<in> set catalogue_plugins"
    using manifest_row_plugin [OF _ assms(1), of n m c] Cons.prems row by auto
  moreover obtain added where "list_all2 (plain_entry env) (map manifest_entry rows) added"
      "map rule_id added = map (manifest_rule_id \<circ> fst) rows" "set added \<subseteq> set catalogue_plugins"
    using Cons by auto
  ultimately show ?case using row by (intro exI [of _ "p # added"]) simp
qed

text \<open>
  An installation: the two manifests under the standards directory, and a parser that reads
  them as above.
\<close>

definition installed_at :: "registry_env \<Rightarrow> path \<Rightarrow> bool" where
  "installed_at env base \<longleftrightarrow> path_exists (re_files env) base
     \<and> mset (re_glob env base) = {#base @ [''misra_c_2012'', ''manifest.yaml''], base @ [''misra_c_2023'', ''manifest.yaml'']#}
     \<and> re_modules env = rule_modules
     \<and> (\<exists>text. re_files env (base @ [''misra_c_2012'', ''manifest.yaml'']) = Some (File text)
          \<and> re_safe_load env text = Inr (PDict manifest_2012))
     \<and> (\<exists>text. re_files env (base @ [''misra_c_2023'', ''manifest.yaml'']) = Some (File text)
          \<and> re_safe_load env text = Inr (PDict manifest_2023))"

lemma append_less: "a < b \<Longrightarrow> r @ a < r @ (b :: 'a :: linorder list)"
  by (induction r) simp_all

lemma installed_order:
  assumes "installed_at env base"
  shows "sort (re_glob env base) = [base @ [''misra_c_2012'', ''manifest.yaml''], base @ [''misra_c_2023'', ''manifest.yaml'']]"
proof (rule properties_for_sort)
  have "[''misra_c_2012'', ''manifest.yaml''] < [''misra_c_2023'', ''manifest.yaml'']" by simp
  then have "base @ [''misra_c_2012'', ''manifest.yaml''] < base @ [''misra_c_2023'', ''manifest.yaml'']"
    by (rule append_less)
  then show "sorted [base @ [''misra_c_2012'', ''manifest.yaml''], base @ [''misra_c_2023'', ''manifest.yaml'']]" by simp
qed (use assms in \<open>simp add: installed_at_def\<close>)

lemma load_2012:
  assumes "installed_at env base"
  shows "\<exists>reg added. load_standard env (base @ [''misra_c_2012'', ''manifest.yaml'']) empty_registry = (None, reg)
    \<and> extends_by empty_registry added reg \<and> map rule_id added = map (manifest_rule_id \<circ> fst) manifest_rules
    \<and> set added \<subseteq> set catalogue_plugins
    \<and> PStr ''misra_c_2012'' \<in> set (dict_keys (rg_manifest_versions reg))
    \<and> PStr ''misra_c_2023'' \<notin> set (dict_keys (rg_manifest_versions reg))"
proof -
  obtain added where added: "list_all2 (plain_entry env) (map manifest_entry manifest_rules) added"
    "map rule_id added = map (manifest_rule_id \<circ> fst) manifest_rules" "set added \<subseteq> set catalogue_plugins"
    using manifest_plugins [of env manifest_rules] assms by (auto simp: installed_at_def)
  have "inj manifest_rule_id" by (simp add: inj_def manifest_rule_id_def)
  then have "distinct (map rule_id added)"
    using manifest_numbers_distinct by (simp add: added(2) distinct_map inj_on_subset comp_inj_on)
  from register_plain_entries [OF added(1) empty_registry_ok this, of "{}"] obtain reg where
    reg: "register_entries env (map manifest_entry manifest_rules) {} empty_registry = (None, reg)"
      "extends_by empty_registry added reg"
    by (auto simp: empty_registry_def)
  then have "rg_manifest_versions reg = []"
    using register_entries_ok [OF reg(1) empty_registry_ok] by (simp add: empty_registry_def)
  then show ?thesis using assms reg added(2,3)
    by (auto simp: installed_at_def load_standard_def path_exists_def read_file_def load_manifest_def Let_def
        manifest_2012_def prop_get_def check_extends_def version_conflict_def empty_registry_def extends_by_def
        dict_keys_set)
qed

lemma default_registry:
  assumes "installed_at env base"
  shows "\<exists>reg. create_default_registry env base = Inr reg
    \<and> dict_keys (rg_plugins reg) = map (manifest_rule_id \<circ> fst) manifest_rules
    \<and> registry_ok reg \<and> length (select_rules reg None) = 152 \<and> set (select_rules reg None) \<subseteq> set catalogue_plugins"
proof -
  obtain reg added where reg: "load_standard env (base @ [''misra_c_2012'', ''manifest.yaml'']) empty_registry = (None, reg)"
      "extends_by empty_registry added reg" "map rule_id added = map (manifest_rule_id \<circ> fst) manifest_rules"
      "set added \<subseteq> set catalogue_plugins"
      "PStr ''misra_c_2012'' \<in> set (dict_keys (rg_manifest_versions reg))"
      "PStr ''misra_c_2023'' \<notin> set (dict_keys (rg_manifest_versions reg))"
    using load_2012 [OF assms] by blast
  have keys: "dict_keys (rg_plugins reg) = map (manifest_rule_id \<circ> fst) manifest_rules"
    using extends_by_keys [OF reg(2)] reg(3) by (simp add: empty_registry_def)
  obtain reg' where reg': "load_standard env (base @ [''misra_c_2023'', ''manifest.yaml'']) reg = (None, reg')"
      "rg_plugins reg' = rg_plugins reg"
    using assms reg(5,6)
    by (auto simp: installed_at_def load_standard_def path_exists_def read_file_def load_manifest_def Let_def
        manifest_2023_def prop_get_def check_extends_def version_conflict_def map_of_None_dict_keys [THEN iffD2])
  have "discover env base empty_registry = (None, reg')"
    using assms reg(1) reg'(1) by (simp add: discover_def installed_order Let_def) (simp add: installed_at_def)
  moreover have "registry_ok reg'"
    using load_standards_ok [of env _ empty_registry None reg'] reg(1) reg'(1)
      load_standard_ok [OF reg'(1)] load_standard_ok [OF reg(1)] by simp
  moreover have "length manifest_rules = 152" by code_simp
  then have "length (rg_plugins reg) = 152" using keys by (metis dict_keys_def length_map)
  moreover have "set (select_rules reg' None) \<subseteq> set catalogue_plugins"
    using reg(2,4) reg'(2) by (auto simp: select_rules_def extends_by_def empty_registry_def)
  ultimately show ?thesis using keys reg'(2)
    by (simp add: create_default_registry_def select_rules_def)
qed

text \<open>
  C24: The default registry loads on an installation: every one of the 152 manifest entries finds
  its class, every class states the identifier of its entry, and the registry holds exactly
  these rules, in the order of the manifest and each once.
\<close>

theorem default_registry_loads:
  assumes "installed_at env base"
  shows "\<exists>reg. create_default_registry env base = Inr reg
    \<and> dict_keys (rg_plugins reg) = map (manifest_rule_id \<circ> fst) manifest_rules
    \<and> registry_ok reg \<and> length (select_rules reg None) = 152"
  using default_registry [OF assms] by blast

definition example_install :: registry_env where
  "example_install = \<lparr>
     re_files = (\<lambda>p. if p = [''s''] then Some Directory
       else if p = [''s'', ''misra_c_2012'', ''manifest.yaml''] then Some (File ''2012'')
       else if p = [''s'', ''misra_c_2023'', ''manifest.yaml''] then Some (File ''2023'') else None),
     re_safe_load = (\<lambda>text. if text = ''2012'' then Inr (PDict manifest_2012) else Inr (PDict manifest_2023)),
     re_modules = rule_modules,
     re_glob = (\<lambda>base. [base @ [''misra_c_2023'', ''manifest.yaml''], base @ [''misra_c_2012'', ''manifest.yaml'']])\<rparr>"

theorem default_registry_loads_witness:
  "\<exists>reg. create_default_registry example_install [''s''] = Inr reg
    \<and> dict_keys (rg_plugins reg) = map (manifest_rule_id \<circ> fst) manifest_rules
    \<and> registry_ok reg \<and> length (select_rules reg None) = 152"
  by (rule default_registry_loads) (simp add: installed_at_def example_install_def path_exists_def)

end
