(* ===== verification/Incremental.thy ===== *)
theory Incremental
  imports Worklist Files
begin

text \<open>
  The incremental index of the backend
  (\<open>integrations/clang_bridge/incremental_index.py\<close>): hashing files in chunks, indexing a
  project's source files, comparing the index with the hashes of the previous run, and the
  search from the changed files back through the include edges to the translation units that
  must be analyzed again.
\<close>

subsection \<open>Hashing\<close>

text \<open>
  \<open>sha256\<close>, the hexadecimal digest of a byte string, and \<open>resolve\<close>, which follows symbolic
  links, are parameters.
\<close>

definition chunk_size :: nat where
  "chunk_size = 1024 * 1024"

text \<open>\<open>iter(lambda: handle.read(n), b"")\<close>: the chunks up to the first empty one.\<close>

function read_chunks :: "nat \<Rightarrow> string \<Rightarrow> string list" where
  "read_chunks n bytes =
     (let chunk = take n bytes in if chunk = [] then [] else chunk # read_chunks n (drop n bytes))"
  by pat_completeness auto
termination by (relation "measure (length \<circ> snd)") auto

declare read_chunks.simps [simp del]

definition hash_file :: "(string \<Rightarrow> string) \<Rightarrow> file_system \<Rightarrow> path \<Rightarrow> py_error + string" where
  "hash_file sha256 fs p = (case fs p of
     Some (File bytes) \<Rightarrow>
       Inr (sha256 (foldl (\<lambda>fed chunk. fed @ chunk) [] (read_chunks chunk_size bytes)))
   | _ \<Rightarrow> Inl OSError)"

subsection \<open>The index\<close>

record file_index_node =
  fi_relative_path :: string
  fi_absolute_path :: string
  fi_content_hash :: string
  fi_include_edges :: "string list"

type_synonym file_index = "(string, file_index_node) dict"

definition index_file ::
  "(string \<Rightarrow> string) \<Rightarrow> (path \<Rightarrow> path) \<Rightarrow> file_system \<Rightarrow> path \<Rightarrow> path \<Rightarrow> file_index \<Rightarrow> py_error + file_index" where
  "index_file sha256 resolve fs root p index =
     (if fs p = None then Inr index
      else case relative_to p root of
        Inl e \<Rightarrow> Inl e
      | Inr rel \<Rightarrow> (case hash_file sha256 fs p of
          Inl e \<Rightarrow> Inl e
        | Inr h \<Rightarrow> Inr (dict_set (path_str rel)
            \<lparr>fi_relative_path = path_str rel, fi_absolute_path = path_str (resolve p),
             fi_content_hash = h, fi_include_edges = []\<rparr> index)))"

fun index_files ::
  "(string \<Rightarrow> string) \<Rightarrow> (path \<Rightarrow> path) \<Rightarrow> file_system \<Rightarrow> path \<Rightarrow> path list \<Rightarrow> file_index \<Rightarrow> py_error + file_index" where
  "index_files sha256 resolve fs root [] index = Inr index"
| "index_files sha256 resolve fs root (p # ps) index =
     (case index_file sha256 resolve fs root p index of
        Inl e \<Rightarrow> Inl e
      | Inr index' \<Rightarrow> index_files sha256 resolve fs root ps index')"

definition build_file_index ::
  "(string \<Rightarrow> string) \<Rightarrow> (path \<Rightarrow> path) \<Rightarrow> file_system \<Rightarrow> path \<Rightarrow> path list \<Rightarrow> py_error + file_index" where
  "build_file_index sha256 resolve fs root source_files = index_files sha256 resolve fs root source_files []"

definition compute_changed_files :: "(string, string) dict \<Rightarrow> file_index \<Rightarrow> string list" where
  "compute_changed_files previous_hashes current_index =
     map fst (filter (\<lambda>(rel, current). case dict_get previous_hashes rel of
         None \<Rightarrow> True | Some h \<Rightarrow> h \<noteq> fi_content_hash current) current_index)
     @ filter (\<lambda>rel. rel \<notin> set (dict_keys current_index)) (dict_keys previous_hashes)"

subsection \<open>The translation units a change reaches\<close>

text \<open>\<open>reverse_graph.setdefault(include, set()).add(source)\<close>: a set without its order.\<close>

definition add_includer :: "string \<Rightarrow> string \<Rightarrow> (string, string set) dict \<Rightarrow> (string, string set) dict" where
  "add_includer source inc d = dict_set inc (insert source (dict_get_default {} d inc)) d"

definition reverse_graph :: "(string, string list) dict \<Rightarrow> (string, string set) dict" where
  "reverse_graph include_graph =
     fold (\<lambda>(source, incs) d. fold (add_includer source) incs d) include_graph []"

text \<open>
  The queue loop: \<open>affected\<close> and \<open>visited\<close> grow, \<open>order\<close> is the order in which the
  interpreter iterates over a set of strings.
\<close>

partial_function (option) affected_loop ::
  "(string set \<Rightarrow> string list) \<Rightarrow> (string, string set) dict \<Rightarrow> string list \<Rightarrow>
   string set \<Rightarrow> string set \<Rightarrow> string list \<Rightarrow> string set option" where
  "affected_loop order rev_graph tus affected visited queue = (case queue of
     [] \<Rightarrow> Some affected
   | current # rest \<Rightarrow>
       if current \<in> visited then affected_loop order rev_graph tus affected visited rest
       else affected_loop order rev_graph tus
              (if current \<in> set tus then insert current affected else affected)
              (insert current visited) (rest @ order (dict_get_default {} rev_graph current)))"

declare affected_loop.simps [code]

definition compute_affected_translation_units ::
  "(string set \<Rightarrow> string list) \<Rightarrow> string list \<Rightarrow> (string, string list) dict \<Rightarrow> string list \<Rightarrow> string list option" where
  "compute_affected_translation_units order changed_files include_graph translation_unit_files =
     map_option sorted_list_of_set
       (affected_loop order (reverse_graph include_graph) translation_unit_files {} {} changed_files)"

subsection \<open>Chunks, the index and the changed files\<close>

lemma concat_read_chunks: "0 < n \<Longrightarrow> concat (read_chunks n bytes) = bytes"
proof (induction n bytes rule: read_chunks.induct)
  case (1 n bytes)
  show ?case
  proof (cases "bytes = []")
    case True
    then show ?thesis by (subst read_chunks.simps) simp
  next
    case False
    with 1 show ?thesis by (subst read_chunks.simps) (simp add: Let_def)
  qed
qed

lemma foldl_feed: "foldl (\<lambda>fed chunk. fed @ chunk) acc cs = acc @ concat cs"
  by (induction cs arbitrary: acc) auto

lemma hash_file_eq: "hash_file sha256 fs p = (case fs p of Some (File bytes) \<Rightarrow> Inr (sha256 bytes) | _ \<Rightarrow> Inl OSError)"
  by (auto simp: hash_file_def foldl_feed concat_read_chunks chunk_size_def split: option.splits fs_entry.splits)

lemma compute_changed_files_set:
  assumes "distinct (dict_keys current_index)"
  shows "rel \<in> set (compute_changed_files previous_hashes current_index) \<longleftrightarrow>
     map_of previous_hashes rel \<noteq> map_option fi_content_hash (map_of current_index rel)"
proof (cases "map_of current_index rel")
  case None
  then have "rel \<notin> fst ` set current_index" by (simp add: map_of_eq_None_iff)
  moreover from this have "rel \<in> fst ` set previous_hashes \<longleftrightarrow> map_of previous_hashes rel \<noteq> None"
    by (simp add: map_of_eq_None_iff)
  ultimately show ?thesis using None by (auto simp: compute_changed_files_def dict_keys_def rev_image_eqI)
next
  case (Some nd)
  then have "rel \<in> set (dict_keys current_index)" by (rule map_of_Some_dict_keys)
  moreover have "(rel, c) \<in> set current_index \<longleftrightarrow> c = nd" for c
    using Some assms by (auto simp flip: map_of_in_set)
  ultimately show ?thesis using Some
    by (auto simp: compute_changed_files_def dict_get_def image_iff split: option.splits)
qed

text \<open>No entry of a built index holds an include edge, and its keys are distinct.\<close>

definition index_ok :: "file_index \<Rightarrow> bool" where
  "index_ok index \<longleftrightarrow> distinct (dict_keys index) \<and> (\<forall>p \<in> set index. fi_include_edges (snd p) = [])"

lemma index_ok_set: "index_ok index \<Longrightarrow> fi_include_edges nd = [] \<Longrightarrow> index_ok (dict_set rel nd index)"
  using dict_set_subset [of rel nd index] by (auto simp: index_ok_def)

lemma index_files_ok:
  "index_ok index \<Longrightarrow> index_files sha256 resolve fs root ps index = Inr index' \<Longrightarrow> index_ok index'"
proof (induction ps arbitrary: index)
  case (Cons p ps)
  obtain i where i: "index_file sha256 resolve fs root p index = Inr i"
    "index_files sha256 resolve fs root ps i = Inr index'"
    using Cons.prems(2) by (auto split: sum.splits)
  have "index_ok i" using i(1) Cons.prems(1)
    by (auto simp: index_file_def intro!: index_ok_set split: if_splits sum.splits)
  then show ?case using i(2) by (rule Cons.IH)
qed simp

lemma build_file_index_ok: "build_file_index sha256 resolve fs root ps = Inr index \<Longrightarrow> index_ok index"
  by (rule index_files_ok [where index = "[]"]) (simp_all add: index_ok_def build_file_index_def)

subsection \<open>The search\<close>

lemma affected_loop_simps:
  "affected_loop order rg tus affected visited [] = Some affected"
  "affected_loop order rg tus affected visited (current # rest) =
     (if current \<in> visited then affected_loop order rg tus affected visited rest
      else affected_loop order rg tus (if current \<in> set tus then insert current affected else affected)
             (insert current visited) (rest @ order (dict_get_default {} rg current)))"
  by (subst affected_loop.simps, simp)+

interpretation unit_search: worklist "\<lambda>(affected, visited). affected_loop order rg tus affected visited" snd
    "\<lambda>cur (affected, visited). (if cur \<in> set tus then insert cur affected else affected, insert cur visited)"
    fst "\<lambda>cur. order (dict_get_default {} rg cur)" "\<lambda>new work. work @ new" for order rg tus
  by unfold_locales (auto simp: affected_loop_simps)

text \<open>\<open>includes_rel graph\<close>: the pairs of a file and a file that includes it.\<close>

definition includes_rel :: "(string, string list) dict \<Rightarrow> (string \<times> string) set" where
  "includes_rel graph = {(inc, source). \<exists>incs. (source, incs) \<in> set graph \<and> inc \<in> set incs}"

lemma fold_add_includer: "dict_get_default {} (fold (add_includer source) incs d) x =
    dict_get_default {} d x \<union> (if x \<in> set incs then {source} else {})"
  by (induction incs arbitrary: d) (auto simp: add_includer_def dict_get_default_def)

lemma reverse_graph_get: "dict_get_default {} (reverse_graph graph) x = {s. (x, s) \<in> includes_rel graph}"
proof -
  have "dict_get_default {} (fold (\<lambda>(source, incs) d. fold (add_includer source) incs d) graph d) x
      = dict_get_default {} d x \<union> {s. (x, s) \<in> includes_rel graph}" for d
    by (induction graph arbitrary: d) (auto simp: includes_rel_def fold_add_includer split: if_splits)
  then show ?thesis by (simp add: reverse_graph_def dict_get_default_def)
qed

definition iterates_sets :: "(string set \<Rightarrow> string list) \<Rightarrow> bool" where
  "iterates_sets order \<longleftrightarrow> (\<forall>S. finite S \<longrightarrow> set (order S) = S)"

lemma finite_includes: "finite (includes_rel graph)"
proof -
  have "includes_rel graph = (\<Union>(s, incs) \<in> set graph. (\<lambda>i. (i, s)) ` set incs)"
    by (auto simp: includes_rel_def)
  then show ?thesis by (simp add: case_prod_unfold)
qed

lemma unit_search_steps:
  assumes "iterates_sets order"
  shows "unit_search.steps order (reverse_graph graph) = includes_rel graph"
proof -
  have "finite {s. (x, s) \<in> includes_rel graph}" for x
    by (rule finite_subset [OF _ finite_imageI [OF finite_includes [of graph], of snd]]) force
  then show ?thesis using assms unfolding unit_search.steps_def unfolding reverse_graph_get
    by (auto simp: iterates_sets_def)
qed

lemma affected_units:
  assumes "iterates_sets order"
  shows "\<exists>units. compute_affected_translation_units order changed graph tus = Some units
    \<and> sorted units \<and> distinct units
    \<and> set units = {u \<in> set tus. \<exists>f \<in> set changed. (f, u) \<in> (includes_rel graph)\<^sup>*}"
proof -
  let ?succ = "\<lambda>cur. order (dict_get_default {} (reverse_graph graph) cur)"
  let ?P = "set changed \<union> Range (includes_rel graph)"
  let ?I = "\<lambda>(affected, visited). affected = visited \<inter> set tus"
  have steps: "set (?succ a) = includes_rel graph `` {a}" for a
    using unit_search_steps [OF assms, of graph] by (auto simp: unit_search.steps_def)
  have "\<exists>t. (case ({}, {}) of (affected, visited) \<Rightarrow>
        affected_loop order (reverse_graph graph) tus affected visited) changed = Some (fst t)
      \<and> ?I t \<and> snd t = (unit_search.steps order (reverse_graph graph))\<^sup>* `` set changed"
  proof (rule unit_search.search_exact [of ?P order "reverse_graph graph" changed "({}, {})" ?I tus])
    show "finite ?P" using finite_includes by (auto simp: Range_snd)
    show "set (?succ a) \<subseteq> ?P" for a unfolding steps by auto
  qed (auto split: if_splits)
  then show ?thesis
    by (auto simp: compute_affected_translation_units_def unit_search_steps [OF assms] finite_subset [of _ "set tus"])
qed

text \<open>
  C33: The affected translation units are, in sorted order and once each, exactly the
  translation units from which a changed file is reached by following includes, the changed
  units among them; the search ends on every include graph, a cyclic one included, whatever
  the order in which sets are iterated.
\<close>

theorem affected_units_exact:
  assumes "iterates_sets order"
  shows "\<exists>units. compute_affected_translation_units order changed graph tus = Some units
    \<and> sorted units \<and> distinct units
    \<and> set units = {u \<in> set tus. \<exists>f \<in> set changed. (f, u) \<in> (includes_rel graph)\<^sup>*}"
  by (rule affected_units [OF assms])

text \<open>A translation unit that includes a header which includes a changed header.\<close>

theorem affected_units_exact_witness:
  "\<exists>units. compute_affected_translation_units sorted_list_of_set [''cfg.h'']
      [(''main.c'', [''util.h'']), (''util.h'', [''cfg.h'']), (''other.c'', [])] [''main.c'', ''other.c''] = Some units
    \<and> set units = {u \<in> {''main.c'', ''other.c''}. \<exists>f \<in> {''cfg.h''}.
         (f, u) \<in> (includes_rel [(''main.c'', [''util.h'']), (''util.h'', [''cfg.h'']), (''other.c'', [])])\<^sup>*}"
  using affected_units_exact [of sorted_list_of_set "[''cfg.h'']"
      "[(''main.c'', [''util.h'']), (''util.h'', [''cfg.h'']), (''other.c'', [])]" "[''main.c'', ''other.c'']"]
  by (auto simp: iterates_sets_def)

subsection \<open>A changed header\<close>

text \<open>The include graph the orchestrator passes: the edges of the current index.\<close>

definition index_include_graph :: "file_index \<Rightarrow> (string, string list) dict" where
  "index_include_graph index = map (\<lambda>(rel, nd). (fi_relative_path nd, fi_include_edges nd)) index"

lemma no_includes_rel: "index_ok index \<Longrightarrow> includes_rel (index_include_graph index) = {}"
  by (fastforce simp: includes_rel_def index_include_graph_def index_ok_def)

text \<open>
  On the include graph of a built index, whose entries hold no include edges, only the
  changed translation units themselves are affected: a translation unit that includes a
  changed header is not analyzed again.
\<close>

theorem header_change_missed:
  assumes "iterates_sets order" and "build_file_index sha256 resolve fs root files = Inr index"
  shows "compute_affected_translation_units order changed (index_include_graph index) tus
    = Some (sorted_list_of_set (set tus \<inter> set changed))"
proof -
  obtain units where "compute_affected_translation_units order changed (index_include_graph index) tus = Some units"
    "sorted units" "distinct units" "set units = set tus \<inter> set changed"
    using affected_units [OF assms(1), of changed "index_include_graph index" tus]
      no_includes_rel [OF build_file_index_ok [OF assms(2)]] by auto
  then show ?thesis by (metis sorted_list_of_set.idem_if_sorted_distinct)
qed

text \<open>
  A project of a translation unit and the header it includes, both indexed; the header's hash
  differs from the recorded one.
\<close>

definition two_files :: file_system where
  "two_files p = (if p = [''/'', ''p'', ''main.c''] then Some (File ''main'')
     else if p = [''/'', ''p'', ''cfg.h''] then Some (File ''new'') else None)"

theorem header_change_missed_witness:
  "\<exists>index. build_file_index (\<lambda>bytes. bytes) (\<lambda>p. p) two_files [''/'', ''p'']
        [[''/'', ''p'', ''main.c''], [''/'', ''p'', ''cfg.h'']] = Inr index
    \<and> compute_changed_files [(''main.c'', ''main''), (''cfg.h'', ''old'')] index = [''cfg.h'']
    \<and> compute_affected_translation_units sorted_list_of_set [''cfg.h''] (index_include_graph index) [''main.c''] = Some []"
proof -
  let ?files = "[[''/'', ''p'', ''main.c''], [''/'', ''p'', ''cfg.h'']]"
  obtain index where index:
    "build_file_index (\<lambda>bytes. bytes) (\<lambda>p. p) two_files [''/'', ''p''] ?files = Inr index"
    "compute_changed_files [(''main.c'', ''main''), (''cfg.h'', ''old'')] index = [''cfg.h'']"
    by (simp add: build_file_index_def index_file_def two_files_def relative_to_def hash_file_eq path_str_def roots_def
        dict_set_def compute_changed_files_def dict_get_def dict_keys_def)
  have "iterates_sets sorted_list_of_set" by (simp add: iterates_sets_def)
  from header_change_missed [OF this index(1)] index show ?thesis by (intro exI [of _ index]) simp
qed

end
