(* ===== verification/Worker_Pool.thy ===== *)
theory Worker_Pool
  imports Engine
begin

text \<open>
  The project level of the execution hierarchy (\<open>worker_pool.py\<close>): one job per translation
  unit on a thread pool, their reports collected as they complete, progress counted, and the
  cancellation event.  What a run does not determine is a parameter: \<open>complete\<close>, the order in
  which \<open>as_completed\<close> hands back the jobs; whether the event is set when a job starts and when
  the \<open>i\<close>-th job is handed back; the clock.  \<open>cache_stats\<close> is left out of the reports.
\<close>

subsection \<open>Jobs and reports\<close>

record translation_unit_job =
  tj_translation_unit_id :: string
  tj_context :: rule_context
  tj_rules :: "rule_plugin list"

record worker_progress =
  wp_translation_units_total :: nat
  wp_translation_units_completed :: nat
  wp_rules_executed :: nat
  wp_violations_found :: nat
  wp_cancelled :: bool

record project_execution_report =
  px_translation_unit_reports :: "(string, execution_report) dict"
  px_progress :: worker_progress
  px_total_duration_ms :: rat

text \<open>\<open>WorkerPool\<close>: the engine's configuration and the event, which nothing clears.\<close>

record worker_pool =
  wl_tu_workers :: int
  wl_engine :: engine_config
  wl_cancel_event :: bool

record pool_environment =
  pe_run :: run_environment
  pe_complete :: "translation_unit_job list \<Rightarrow> translation_unit_job list"
  pe_set_at_start :: "translation_unit_job \<Rightarrow> bool"
  pe_set_at_completion :: "nat \<Rightarrow> bool"
  pe_elapsed_ms :: rat

definition mk_worker_pool :: "int \<Rightarrow> int \<Rightarrow> rat \<Rightarrow> worker_pool" where
  "mk_worker_pool tu_workers rule_workers rule_timeout_seconds =
     \<lparr>wl_tu_workers = tu_workers,
      wl_engine = \<lparr>ec_max_workers = rule_workers, ec_rule_timeout_seconds = rule_timeout_seconds, ec_max_retries = 1\<rparr>,
      wl_cancel_event = False\<rparr>"

definition cancel_pool :: "worker_pool \<Rightarrow> worker_pool" where
  "cancel_pool pool = pool\<lparr>wl_cancel_event := True\<rparr>"

definition empty_report :: execution_report where
  "empty_report = \<lparr>ep_violations = [], ep_fingerprints = [], ep_metrics = [], ep_deduplicated_count = 0\<rparr>"

definition execute_translation_unit ::
    "nat \<Rightarrow> pool_environment \<Rightarrow> worker_pool \<Rightarrow> translation_unit_job \<Rightarrow> (engine_error + execution_report) option" where
  "execute_translation_unit depth env pool job =
     (if wl_cancel_event pool \<or> pe_set_at_start env job then Some (Inr empty_report)
      else execute depth (pe_run env) (wl_engine pool) (tj_context job) (tj_rules job) False)"

subsection \<open>Running a project\<close>

definition start_progress :: "nat \<Rightarrow> worker_progress" where
  "start_progress n = \<lparr>wp_translation_units_total = n, wp_translation_units_completed = 0,
     wp_rules_executed = 0, wp_violations_found = 0, wp_cancelled = False\<rparr>"

text \<open>One completed future: the report is stored, the counters grow, \<open>on_progress\<close> is called.\<close>

definition note_completion ::
    "translation_unit_job \<Rightarrow> execution_report \<Rightarrow> project_execution_report \<Rightarrow> project_execution_report" where
  "note_completion job tu_report report =
     (let progress = px_progress report in report
        \<lparr>px_translation_unit_reports :=
           dict_set (tj_translation_unit_id job) tu_report (px_translation_unit_reports report),
         px_progress := progress
           \<lparr>wp_translation_units_completed := wp_translation_units_completed progress + 1,
            wp_rules_executed := wp_rules_executed progress + length (ep_metrics tu_report),
            wp_violations_found := wp_violations_found progress + length (ep_violations tu_report)\<rparr>\<rparr>)"

text \<open>
  The loop over the completed futures with their outcomes; \<open>i\<close> counts the iterations and
  \<open>calls\<close> collects what \<open>on_progress\<close> sees.
\<close>

fun collect ::
    "(nat \<Rightarrow> bool) \<Rightarrow> nat \<Rightarrow> (translation_unit_job \<times> (engine_error + execution_report)) list \<Rightarrow>
     project_execution_report \<Rightarrow> worker_progress list \<Rightarrow>
     engine_error + project_execution_report \<times> worker_progress list" where
  "collect cancelled i [] report calls = Inr (report, calls)"
| "collect cancelled i ((job, outcome) # rest) report calls =
     (if cancelled i then Inr (report\<lparr>px_progress := (px_progress report)\<lparr>wp_cancelled := True\<rparr>\<rparr>, calls)
      else case outcome of
        Inl err \<Rightarrow> Inl err
      | Inr tu_report \<Rightarrow>
          (let report' = note_completion job tu_report report
           in collect cancelled (i + 1) rest report' (calls @ [px_progress report'])))"

text \<open>
  Leaving the \<open>with\<close> block waits for every job, also after a break or an exception: a job that
  does not return keeps the call from returning.
\<close>

definition execute_project ::
    "nat \<Rightarrow> pool_environment \<Rightarrow> worker_pool \<Rightarrow> translation_unit_job list \<Rightarrow>
     ((engine_error + project_execution_report \<times> worker_progress list)) option" where
  "execute_project depth env pool jobs =
     (if wl_tu_workers pool \<le> 0 then Some (Inl NoWorkers)
      else do {
        outcomes \<leftarrow> opt_map (\<lambda>job. map_option (Pair job) (execute_translation_unit depth env pool job))
                      (pe_complete env jobs);
        Some (map_sum id (\<lambda>(report, calls). (report\<lparr>px_total_duration_ms := pe_elapsed_ms env\<rparr>, calls))
          (collect (\<lambda>i. wl_cancel_event pool \<or> pe_set_at_completion env i) 0 outcomes
             \<lparr>px_translation_unit_reports = [], px_progress = start_progress (length jobs), px_total_duration_ms = 0\<rparr> [])) })"

definition build_translation_unit_job ::
    "ast_artifact \<Rightarrow> string \<Rightarrow> rule_plugin list \<Rightarrow> (string, string list) dict \<Rightarrow> props \<Rightarrow>
     previous_violation list \<Rightarrow> linkage_data option \<Rightarrow> translation_unit_job" where
  "build_translation_unit_job artifact tu_id rules include_graph toolchain_profile previous cross_tu_linkage =
     \<lparr>tj_translation_unit_id = tu_id,
      tj_context = from_ast_artifact artifact tu_id include_graph None previous toolchain_profile cross_tu_linkage,
      tj_rules = rules\<rparr>"

subsection \<open>What a project run reports\<close>

definition runs_of :: "(translation_unit_job \<times> execution_report) list \<Rightarrow> project_execution_report \<Rightarrow> project_execution_report" where
  "runs_of runs report = fold (\<lambda>(job, tu_report). note_completion job tu_report) runs report"

lemma collect_all:
  assumes "\<And>i. \<not> cancelled i"
  shows "\<exists>calls'. collect cancelled i (map (\<lambda>(job, r). (job, Inr r)) runs) report calls = Inr (runs_of runs report, calls @ calls')
    \<and> length calls' = length runs"
proof (induction runs arbitrary: i report calls)
  case (Cons jr runs)
  obtain job r where jr: "jr = (job, r)" by (cases jr)
  from Cons [of "i + 1" "note_completion job r report" "calls @ [px_progress (note_completion job r report)]"]
  show ?case using assms by (auto simp: jr runs_of_def Let_def)
qed (simp add: runs_of_def)

lemma runs_of_progress:
  "wp_translation_units_completed (px_progress (runs_of runs report))
     = wp_translation_units_completed (px_progress report) + length runs"
  "wp_rules_executed (px_progress (runs_of runs report))
     = wp_rules_executed (px_progress report) + sum_list (map (length \<circ> ep_metrics \<circ> snd) runs)"
  "wp_violations_found (px_progress (runs_of runs report))
     = wp_violations_found (px_progress report) + sum_list (map (length \<circ> ep_violations \<circ> snd) runs)"
  "wp_translation_units_total (px_progress (runs_of runs report)) = wp_translation_units_total (px_progress report)"
  "wp_cancelled (px_progress (runs_of runs report)) = wp_cancelled (px_progress report)"
  by (induction runs arbitrary: report) (auto simp: runs_of_def note_completion_def Let_def)

lemma runs_of_reports:
  assumes "distinct (map (tj_translation_unit_id \<circ> fst) runs)"
  shows "map_of (px_translation_unit_reports (runs_of runs report)) =
    map_of (px_translation_unit_reports report) ++ map_of (map (\<lambda>(job, r). (tj_translation_unit_id job, r)) runs)"
  using assms
proof (induction runs arbitrary: report)
  case (Cons jr runs)
  obtain job r where jr: "jr = (job, r)" by (cases jr)
  have step: "px_translation_unit_reports (note_completion job r report)
      = dict_set (tj_translation_unit_id job) r (px_translation_unit_reports report)"
    by (simp add: note_completion_def Let_def)
  have "tj_translation_unit_id job \<notin> dom (map_of (map (\<lambda>(job, r). (tj_translation_unit_id job, r)) runs))"
    using Cons.prems by (auto simp: jr dom_map_of_conv_image_fst image_iff)
  then have new: "map_of (map (\<lambda>(job, r). (tj_translation_unit_id job, r)) runs) (tj_translation_unit_id job) = None"
    by blast
  have "runs_of (jr # runs) report = runs_of runs (note_completion job r report)"
    by (simp add: runs_of_def jr)
  then show ?case using Cons.IH [of "note_completion job r report"] Cons.prems new
    by (auto simp: jr step fun_eq_iff map_add_def split: option.splits)
qed (simp add: runs_of_def)

lemma runs_of_distinct:
  "distinct (dict_keys (px_translation_unit_reports report)) \<Longrightarrow>
     distinct (dict_keys (px_translation_unit_reports (runs_of runs report)))"
  by (induction runs arbitrary: report) (auto simp: runs_of_def note_completion_def Let_def)

lemma execute_returns:
  assumes "0 < ec_max_workers cfg" and "\<And>w. mset (rn_complete rn w) = mset w"
    and "\<And>r. r \<in> set rules \<Longrightarrow> rule_attempts depth cfg ctx r \<noteq> None"
  shows "\<exists>rep. execute depth rn cfg ctx rules False = Some (Inr rep)"
proof -
  obtain cs where "mset cs = mset rules" "execute depth rn cfg ctx rules False = Some (Inr (report_of (rn_sha rn)
       (map (\<lambda>r. (metrics_of depth rn cfg ctx r, found_by depth cfg ctx r)) cs)))"
    by (rule execute_runs [where depth = depth and grouped = False and rules = rules and waves = "[rules]" and cfg = cfg
          and rn = rn and ctx = ctx]) (use assms in \<open>auto simp: plan_waves_def\<close>)
  then show ?thesis by blast
qed

definition job_report :: "nat \<Rightarrow> pool_environment \<Rightarrow> worker_pool \<Rightarrow> translation_unit_job \<Rightarrow> execution_report" where
  "job_report depth env pool job =
     projr (the (execute depth (pe_run env) (wl_engine pool) (tj_context job) (tj_rules job) False))"

lemma execute_translation_unit_job:
  assumes "\<not> wl_cancel_event pool" and "\<not> pe_set_at_start env job" and "0 < ec_max_workers (wl_engine pool)"
    and "\<And>w. mset (rn_complete (pe_run env) w) = mset w"
    and "\<And>r. r \<in> set (tj_rules job) \<Longrightarrow> rule_attempts depth (wl_engine pool) (tj_context job) r \<noteq> None"
  shows "execute_translation_unit depth env pool job = Some (Inr (job_report depth env pool job))"
proof -
  obtain rep where "execute depth (pe_run env) (wl_engine pool) (tj_context job) (tj_rules job) False = Some (Inr rep)"
    using execute_returns [OF assms(3,4) assms(5)] by blast
  then show ?thesis using assms(1,2) by (simp add: execute_translation_unit_def job_report_def)
qed

lemma project_report:
  assumes "0 < wl_tu_workers pool" and "0 < ec_max_workers (wl_engine pool)" and "\<not> wl_cancel_event pool"
    and "\<And>job. \<not> pe_set_at_start env job" and "\<And>i. \<not> pe_set_at_completion env i"
    and "\<And>w. mset (rn_complete (pe_run env) w) = mset w" and "\<And>js. mset (pe_complete env js) = mset js"
    and "distinct (map tj_translation_unit_id jobs)"
    and "\<And>job r. job \<in> set jobs \<Longrightarrow> r \<in> set (tj_rules job) \<Longrightarrow>
        rule_attempts depth (wl_engine pool) (tj_context job) r \<noteq> None"
  shows "\<exists>report calls. execute_project depth env pool jobs = Some (Inr (report, calls))
    \<and> length calls = length jobs
    \<and> distinct (dict_keys (px_translation_unit_reports report))
    \<and> map_of (px_translation_unit_reports report)
        = map_of (map (\<lambda>job. (tj_translation_unit_id job, job_report depth env pool job)) jobs)
    \<and> px_progress report =
        \<lparr>wp_translation_units_total = length jobs, wp_translation_units_completed = length jobs,
         wp_rules_executed = sum_list (map (length \<circ> ep_metrics \<circ> job_report depth env pool) jobs),
         wp_violations_found = sum_list (map (length \<circ> ep_violations \<circ> job_report depth env pool) jobs),
         wp_cancelled = False\<rparr>"
proof -
  let ?rep = "job_report depth env pool" and ?cs = "pe_complete env jobs"
  let ?start = "\<lparr>px_translation_unit_reports = [], px_progress = start_progress (length jobs), px_total_duration_ms = 0\<rparr>"
  let ?runs = "map (\<lambda>job. (job, ?rep job)) ?cs"
  have cs: "mset ?cs = mset jobs" "set ?cs = set jobs" using assms(7) mset_eq_setD by blast+
  have "execute_translation_unit depth env pool job = Some (Inr (?rep job))" if "job \<in> set jobs" for job
    by (rule execute_translation_unit_job) (use assms that in auto)
  then have "opt_map (\<lambda>job. map_option (Pair job) (execute_translation_unit depth env pool job)) ?cs
      = Some (map (\<lambda>job. (job, Inr (?rep job))) ?cs)"
    using cs(2) by (intro opt_map_Some_conv) auto
  moreover obtain calls where calls: "collect (\<lambda>i. wl_cancel_event pool \<or> pe_set_at_completion env i) 0
        (map (\<lambda>job. (job, Inr (?rep job))) ?cs) ?start [] = Inr (runs_of ?runs ?start, calls)" "length calls = length ?cs"
    using collect_all [of "\<lambda>i. wl_cancel_event pool \<or> pe_set_at_completion env i" 0 ?runs ?start "[]"] assms(3,5)
    by (auto simp: comp_def)
  ultimately have "execute_project depth env pool jobs
      = Some (Inr ((runs_of ?runs ?start)\<lparr>px_total_duration_ms := pe_elapsed_ms env\<rparr>, calls))"
    using assms(1) by (simp add: execute_project_def)
  moreover have ids: "distinct (map tj_translation_unit_id ?cs)"
    using assms(8) cs(1) by (metis mset_eq_imp_distinct_iff mset_map)
  have "map_of (px_translation_unit_reports (runs_of ?runs ?start))
      = map_of (map (\<lambda>job. (tj_translation_unit_id job, ?rep job)) ?cs)"
    using runs_of_reports [of ?runs ?start] ids by (simp add: comp_def)
  moreover have "map_of (map (\<lambda>job. (tj_translation_unit_id job, ?rep job)) ?cs)
      = map_of (map (\<lambda>job. (tj_translation_unit_id job, ?rep job)) jobs)"
    using ids assms(8) cs(2) by (subst map_of_inject_set) (simp_all add: comp_def)
  moreover have "sum_list (map f ?cs) = sum_list (map f jobs)" for f :: "translation_unit_job \<Rightarrow> nat"
    by (metis cs(1) mset_map sum_mset_sum_list)
  moreover have "length ?cs = length jobs" using cs(1) by (rule mset_eq_length)
  ultimately show ?thesis
    using runs_of_progress [of ?runs ?start] runs_of_distinct [of ?start ?runs] calls(2) by (auto simp: start_progress_def comp_def intro!: worker_progress.equality)
qed


text \<open>
  Cancelling a pool is permanent: after \<open>cancel\<close>, every later project run, of any jobs,
  executes no rule, reports no translation unit and is marked as cancelled.
\<close>

theorem cancel_is_permanent:
  assumes "0 < wl_tu_workers pool" and "jobs \<noteq> []" and "\<And>js. mset (pe_complete env js) = mset js"
  shows "\<exists>report. execute_project depth env (cancel_pool pool) jobs = Some (Inr (report, []))
    \<and> px_translation_unit_reports report = [] \<and> wp_cancelled (px_progress report)
    \<and> wp_rules_executed (px_progress report) = 0"
proof -
  obtain job rest where cs: "pe_complete env jobs = job # rest"
    using assms(2,3) by (metis list.exhaust mset_zero_iff_right)
  have "opt_map (\<lambda>job. map_option (Pair job) (execute_translation_unit depth env (cancel_pool pool) job)) (job # rest)
      = Some (map (\<lambda>job. (job, Inr empty_report)) (job # rest))"
    by (rule opt_map_Some_conv) (simp add: execute_translation_unit_def cancel_pool_def)
  then show ?thesis using assms(1)
    by (simp add: execute_project_def cs start_progress_def) (simp add: cancel_pool_def)
qed

subsection \<open>An example project\<close>

definition example_pool :: worker_pool where
  "example_pool = mk_worker_pool 2 4 5"

definition example_pool_env :: pool_environment where
  "example_pool_env = \<lparr>pe_run = example_env, pe_complete = rev, pe_set_at_start = (\<lambda>job. False),
     pe_set_at_completion = (\<lambda>i. False), pe_elapsed_ms = 7\<rparr>"

definition example_jobs :: "translation_unit_job list" where
  "example_jobs = map (\<lambda>tu. \<lparr>tj_translation_unit_id = tu, tj_context = goto_context, tj_rules = [goto_rule, broken_rule]\<rparr>)
     [''tu1'', ''tu2'']"

lemma example_pool_engine: "wl_engine example_pool = example_config"
  by (simp add: example_pool_def mk_worker_pool_def example_config_def)


theorem cancel_is_permanent_witness:
  "\<exists>report. execute_project 5 example_pool_env (cancel_pool example_pool) example_jobs = Some (Inr (report, []))
    \<and> px_translation_unit_reports report = [] \<and> wp_cancelled (px_progress report)
    \<and> wp_rules_executed (px_progress report) = 0"
  by (rule cancel_is_permanent)
    (simp_all add: example_pool_env_def example_jobs_def example_pool_def mk_worker_pool_def)

end
