(* ===== verification/Dispatcher.thy ===== *)
theory Dispatcher
  imports Worker_Pool Registry
begin

text \<open>
  \<open>RuleDispatcher\<close> (\<open>services/rule_dispatcher.py\<close>): running the registered rules on the parsed
  translation units of a run, and turning the project report into the violations, metrics and
  statistics that are stored.
\<close>

subsection \<open>The confidence distribution\<close>

definition confidence_buckets :: "(string \<times> rat \<times> rat) list" where
  "confidence_buckets =
     [(''0.0-0.2'', 0, dec2 20), (''0.2-0.4'', dec2 20, dec2 40), (''0.4-0.6'', dec2 40, dec2 60),
      (''0.6-0.8'', dec2 60, dec2 80), (''0.8-1.0'', dec2 80, 10001 / 10000)]"

definition bucket_of :: "rat \<Rightarrow> string option" where
  "bucket_of score = map_option fst (find (\<lambda>(label, low, high). low \<le> score \<and> score < high) confidence_buckets)"

definition count_bucket :: "rat \<Rightarrow> (string, nat) dict \<Rightarrow> (string, nat) dict" where
  "count_bucket score distribution = (case bucket_of score of
     None \<Rightarrow> distribution
   | Some b \<Rightarrow> dict_set b (dict_get_default 0 distribution b + 1) distribution)"

definition confidence_distribution :: "rat list \<Rightarrow> (string, nat) dict" where
  "confidence_distribution scores =
     fold count_bucket scores (map (\<lambda>(label, low, high). (label, 0)) confidence_buckets)"

subsection \<open>Results\<close>

record dispatched_violation =
  dv_translation_unit_id :: "string option"
  dv_rule_id :: string
  dv_fingerprint :: string
  dv_file_path :: string
  dv_line_start :: int
  dv_line_end :: int
  dv_column_start :: int
  dv_column_end :: int
  dv_severity :: string
  dv_confidence_score :: rat
  dv_category :: string
  dv_offending_expression :: string
  dv_explanation :: string
  dv_risk_description :: string
  dv_source_snippet :: string
  dv_ast_node_reference :: string
  dv_macro_expansion_chain :: "string list"
  dv_suggested_fix :: "suggested_fix option"
  dv_confidence_factors :: "(string, rat) dict"

record dispatched_metric =
  dm_translation_unit_id :: "string option"
  dm_rule_id :: string
  dm_duration_ms :: rat
  dm_violation_count :: nat
  dm_success :: bool
  dm_error_message :: "string option"

record rule_timing =
  rt_total_ms :: rat
  rt_avg_ms :: rat
  rt_max_ms :: rat
  rt_invocations :: nat

record per_rule_metric =
  pr_rule_id :: string
  pr_duration_ms :: rat
  pr_violation_count :: nat
  pr_success :: bool

record metrics_json =
  mj_per_rule :: "per_rule_metric list"
  mj_rule_timing_summary :: "(string, rule_timing) dict"
  mj_confidence_distribution :: "(string, nat) dict"
  mj_false_positive_candidates :: nat

record run_statistics =
  rs_rules_executed :: nat
  rs_violations_total :: nat
  rs_violations_deduplicated :: nat
  rs_execution_duration_ms :: rat
  rs_translation_units_analyzed :: nat
  rs_metrics_json :: metrics_json

record dispatch_results =
  dr_violations :: "dispatched_violation list"
  dr_metrics :: "dispatched_metric list"
  dr_statistics :: run_statistics

datatype dispatch_error = RegistryFailed registry_error | EngineFailed engine_error | DispatchRaised py_error

definition dispatch_violation ::
    "(string \<Rightarrow> string) \<Rightarrow> registry \<Rightarrow> string \<Rightarrow> rule_result \<Rightarrow> dispatch_error + dispatched_violation" where
  "dispatch_violation sha reg tu_id v = (case get_metadata reg (rr_rule_id v) of
     Inl err \<Rightarrow> Inl (RegistryFailed err)
   | Inr metadata \<Rightarrow> Inr
       \<lparr>dv_translation_unit_id = Some tu_id, dv_rule_id = rr_rule_id v,
        dv_fingerprint = generate_fingerprint sha v, dv_file_path = rr_file_path v,
        dv_line_start = rr_line_start v, dv_line_end = rr_line_end v,
        dv_column_start = rr_column_start v, dv_column_end = rr_column_end v,
        dv_severity = rule_severity_str (md_severity metadata),
        dv_confidence_score = rr_confidence_score v,
        dv_category = rule_category_str (md_category metadata),
        dv_offending_expression = rr_offending_expression v, dv_explanation = rr_explanation v,
        dv_risk_description = rr_risk_description v, dv_source_snippet = rr_source_snippet v,
        dv_ast_node_reference = rr_ast_node_id v, dv_macro_expansion_chain = rr_macro_expansion_chain v,
        dv_suggested_fix = rr_suggested_fix v, dv_confidence_factors = rr_confidence_factors v\<rparr>)"

definition dispatch_metric :: "string \<Rightarrow> rule_execution_metrics \<Rightarrow> dispatched_metric" where
  "dispatch_metric tu_id m =
     \<lparr>dm_translation_unit_id = Some tu_id, dm_rule_id = me_rule_id m, dm_duration_ms = me_duration_ms m,
      dm_violation_count = me_violation_count m, dm_success = me_success m, dm_error_message = me_error_message m\<rparr>"

text \<open>A comprehension whose body may raise: the first exception ends it.\<close>

fun try_map :: "('a \<Rightarrow> 'e + 'b) \<Rightarrow> 'a list \<Rightarrow> 'e + 'b list" where
  "try_map f [] = Inr []"
| "try_map f (x # xs) = (case f x of Inl e \<Rightarrow> Inl e | Inr y \<Rightarrow> map_sum id (Cons y) (try_map f xs))"

text \<open>
  \<open>metric.rule_id\<close> where \<open>metric\<close> is an element of \<open>all_metrics\<close>: these are dicts, and a dict
  has no attribute of that name.
\<close>

definition dict_attribute :: "dispatched_metric \<Rightarrow> string \<Rightarrow> dispatch_error + 'a" where
  "dict_attribute metric attr = Inl (DispatchRaised AttributeError)"

definition per_rule_entry :: "dispatched_metric \<Rightarrow> dispatch_error + per_rule_metric" where
  "per_rule_entry metric = (case dict_attribute metric ''rule_id'' of
     Inl e \<Rightarrow> Inl e
   | Inr rid \<Rightarrow> (case dict_attribute metric ''duration_ms'' of
       Inl e \<Rightarrow> Inl e
     | Inr duration \<Rightarrow> (case dict_attribute metric ''violation_count'' of
         Inl e \<Rightarrow> Inl e
       | Inr found \<Rightarrow> (case dict_attribute metric ''success'' of
           Inl e \<Rightarrow> Inl e
         | Inr success \<Rightarrow> Inr \<lparr>pr_rule_id = rid, pr_duration_ms = duration,
             pr_violation_count = found, pr_success = success\<rparr>))))"

definition rule_timings :: "dispatched_metric list \<Rightarrow> (string, rat list) dict" where
  "rule_timings metrics = fold (\<lambda>m. dict_push (dm_rule_id m) (dm_duration_ms m)) metrics []"

definition timing_summary :: "rat list \<Rightarrow> rule_timing" where
  "timing_summary durations =
     \<lparr>rt_total_ms = sum_list durations, rt_avg_ms = sum_list durations / of_nat (length durations),
      rt_max_ms = Max (set durations), rt_invocations = length durations\<rparr>"

definition false_positive_candidates :: "rat list \<Rightarrow> nat" where
  "false_positive_candidates scores = length (filter (\<lambda>score. score < dec2 60) scores)"

subsection \<open>Dispatching\<close>

text \<open>
  The two loops over the report of one translation unit, then the concatenation over all units
  in the order of the report's dictionary.
\<close>

definition unit_violations ::
    "(string \<Rightarrow> string) \<Rightarrow> registry \<Rightarrow> string \<times> execution_report \<Rightarrow> dispatch_error + dispatched_violation list" where
  "unit_violations sha reg u = (case u of (tu_id, rep) \<Rightarrow> try_map (dispatch_violation sha reg tu_id) (ep_violations rep))"

definition unit_metrics :: "string \<times> execution_report \<Rightarrow> dispatched_metric list" where
  "unit_metrics u = (case u of (tu_id, rep) \<Rightarrow> map (dispatch_metric tu_id) (ep_metrics rep))"

definition dispatch_statistics ::
    "rule_plugin list \<Rightarrow> ast_artifact list \<Rightarrow> project_execution_report \<Rightarrow> dispatched_violation list \<Rightarrow>
     dispatched_metric list \<Rightarrow> dispatch_error + run_statistics" where
  "dispatch_statistics rules artifacts report violations metrics =
     (let scores = map dv_confidence_score violations in
      case try_map per_rule_entry metrics of
        Inl e \<Rightarrow> Inl e
      | Inr per_rule \<Rightarrow> Inr
         \<lparr>rs_rules_executed = length rules * length artifacts,
          rs_violations_total = length violations,
          rs_violations_deduplicated =
            sum_list (map (ep_deduplicated_count \<circ> snd) (px_translation_unit_reports report)),
          rs_execution_duration_ms = px_total_duration_ms report,
          rs_translation_units_analyzed = length artifacts,
          rs_metrics_json =
           \<lparr>mj_per_rule = per_rule,
            mj_rule_timing_summary = map (map_prod id timing_summary) (rule_timings metrics),
            mj_confidence_distribution = confidence_distribution scores,
            mj_false_positive_candidates = false_positive_candidates scores\<rparr>\<rparr>)"

definition collect_results ::
    "(string \<Rightarrow> string) \<Rightarrow> registry \<Rightarrow> rule_plugin list \<Rightarrow> ast_artifact list \<Rightarrow> project_execution_report \<Rightarrow>
     dispatch_error + dispatch_results" where
  "collect_results sha reg rules artifacts report =
     (case try_map (unit_violations sha reg) (px_translation_unit_reports report) of
        Inl e \<Rightarrow> Inl e
      | Inr vss \<Rightarrow>
          (let violations = concat vss; metrics = concat (map unit_metrics (px_translation_unit_reports report))
           in map_sum id (\<lambda>stats. \<lparr>dr_violations = violations, dr_metrics = metrics, dr_statistics = stats\<rparr>)
                (dispatch_statistics rules artifacts report violations metrics)))"

text \<open>\<open>zip(artifacts, translation_unit_ids, strict=True)\<close>\<close>

definition zip_strict :: "'a list \<Rightarrow> 'b list \<Rightarrow> py_error + ('a \<times> 'b) list" where
  "zip_strict xs ys = (if length xs = length ys then Inr (zip xs ys) else Inl ValueError)"

definition dispatch_jobs ::
    "rule_plugin list \<Rightarrow> props \<Rightarrow> (string, string list) dict \<Rightarrow> previous_violation list \<Rightarrow> linkage_data \<Rightarrow>
     (ast_artifact \<times> string) list \<Rightarrow> translation_unit_job list" where
  "dispatch_jobs rules toolchain include_graph previous linkage pairs =
     map (\<lambda>(artifact, tu_id). build_translation_unit_job artifact tu_id rules include_graph toolchain previous (Some linkage)) pairs"

definition execute_for_translation_units ::
    "nat \<Rightarrow> string list \<Rightarrow> pool_environment \<Rightarrow> registry \<Rightarrow> worker_pool \<Rightarrow> ast_artifact list \<Rightarrow> string list \<Rightarrow> props \<Rightarrow>
     (string, string list) dict \<Rightarrow> previous_violation list \<Rightarrow> string list option \<Rightarrow>
     (dispatch_error + dispatch_results) option" where
  "execute_for_translation_units depth kinds env reg pool artifacts translation_unit_ids toolchain
       include_graph previous enabled_rules =
     (let rules = select_rules reg enabled_rules in
      case zip_strict artifacts translation_unit_ids of
        Inl e \<Rightarrow> Some (Inl (DispatchRaised e))
      | Inr pairs \<Rightarrow> do {
          linkage \<leftarrow> build_linkage kinds (map (\<lambda>(a, tu). (tu, ar_file_path a, mk_graph (ar_nodes a))) pairs);
          outcome \<leftarrow> execute_project depth env pool (dispatch_jobs rules toolchain include_graph previous linkage pairs);
          Some (case outcome of
             Inl e \<Rightarrow> Inl (EngineFailed e)
           | Inr (report, calls) \<Rightarrow> collect_results (rn_sha (pe_run env)) reg rules artifacts report) })"

subsection \<open>Every reported rule is registered\<close>

lemma try_map_Inr: "(\<And>x. x \<in> set xs \<Longrightarrow> \<exists>y. f x = Inr y) \<Longrightarrow> \<exists>ys. try_map f xs = Inr ys"
  by (induction xs) force+

lemma keep_first_subset: "set (keep_first f S xs) \<subseteq> set xs"
  by (induction xs arbitrary: S) auto

lemma job_report_rules:
  assumes "0 < ec_max_workers (wl_engine pool)" and "\<And>w. mset (rn_complete (pe_run env) w) = mset w"
    and "\<And>r. r \<in> set (tj_rules job) \<Longrightarrow> rule_attempts depth (wl_engine pool) (tj_context job) r \<noteq> None"
  shows "\<forall>v \<in> set (ep_violations (job_report depth env pool job)). rr_rule_id v \<in> rule_id ` set (tj_rules job)"
    and "length (ep_metrics (job_report depth env pool job)) = length (tj_rules job)"
proof -
  let ?m = "metrics_of depth (pe_run env) (wl_engine pool) (tj_context job)"
  let ?h = "found_by depth (wl_engine pool) (tj_context job)"
  obtain cs where cs: "mset cs = mset (tj_rules job)"
    "execute depth (pe_run env) (wl_engine pool) (tj_context job) (tj_rules job) False
       = Some (Inr (report_of (rn_sha (pe_run env)) (map (\<lambda>r. (?m r, ?h r)) cs)))"
    by (rule execute_runs [where depth = depth and grouped = False and rules = "tj_rules job" and waves = "[tj_rules job]"
          and cfg = "wl_engine pool" and rn = "pe_run env" and ctx = "tj_context job"]) (use assms in \<open>auto simp: plan_waves_def\<close>)
  have rep: "job_report depth env pool job = report_of (rn_sha (pe_run env)) (map (\<lambda>r. (?m r, ?h r)) cs)"
    using cs(2) by (simp add: job_report_def)
  have "set cs = set (tj_rules job)" using cs(1) by (rule mset_eq_setD)
  then show "\<forall>v \<in> set (ep_violations (job_report depth env pool job)). rr_rule_id v \<in> rule_id ` set (tj_rules job)"
    using keep_first_subset found_by_ids unfolding rep report_of_spec by fastforce
  show "length (ep_metrics (job_report depth env pool job)) = length (tj_rules job)"
    using mset_eq_length [OF cs(1)] by (simp add: rep report_of_spec)
qed

lemma select_rules_registered:
  assumes "registry_ok reg" and "r \<in> set (select_rules reg enabled)"
  shows "\<exists>metadata. get_metadata reg (rule_id r) = Inr metadata"
proof -
  obtain k where "(k, r) \<in> set (rg_plugins reg)"
    using assms(2) by (force simp: select_rules_def in_map_filter dest: map_of_SomeD split: option.splits list.splits)
  then have "rule_id r \<in> set (dict_keys (rg_metadata reg))"
    using assms(1) by (force simp: registry_ok_def dict_keys_def)
  then have "map_of (rg_metadata reg) (rule_id r) \<noteq> None" by (simp add: map_of_None_dict_keys)
  then show ?thesis by (auto simp: get_metadata_def)
qed

subsection \<open>A dispatch with rules fails\<close>

lemma dispatch_statistics_raises:
  "metrics \<noteq> [] \<Longrightarrow> dispatch_statistics rules artifacts report violations metrics = Inl (DispatchRaised AttributeError)"
  by (cases metrics) (simp_all add: dispatch_statistics_def per_rule_entry_def dict_attribute_def Let_def)

lemma dispatch_raises:
  assumes "registry_ok reg" and "select_rules reg enabled \<noteq> []"
    and "artifacts \<noteq> []" and "length artifacts = length tu_ids" and "distinct tu_ids"
    and "build_linkage kinds (map (\<lambda>(a, tu). (tu, ar_file_path a, mk_graph (ar_nodes a))) (zip artifacts tu_ids)) = Some linkage"
    and "0 < wl_tu_workers pool" and "0 < ec_max_workers (wl_engine pool)" and "\<not> wl_cancel_event pool"
    and "\<And>job. \<not> pe_set_at_start env job" and "\<And>i. \<not> pe_set_at_completion env i"
    and "\<And>w. mset (rn_complete (pe_run env) w) = mset w" and "\<And>js. mset (pe_complete env js) = mset js"
    and "\<And>job r. job \<in> set (dispatch_jobs (select_rules reg enabled) toolchain include_graph previous linkage (zip artifacts tu_ids)) \<Longrightarrow>
      r \<in> set (select_rules reg enabled) \<Longrightarrow> rule_attempts depth (wl_engine pool) (tj_context job) r \<noteq> None"
  shows "execute_for_translation_units depth kinds env reg pool artifacts tu_ids toolchain include_graph previous enabled
    = Some (Inl (DispatchRaised AttributeError))"
proof -
  let ?rules = "select_rules reg enabled"
  let ?jobs = "dispatch_jobs ?rules toolchain include_graph previous linkage (zip artifacts tu_ids)"
  have rules: "tj_rules job = ?rules" if "job \<in> set ?jobs" for job
    using that by (auto simp: dispatch_jobs_def build_translation_unit_job_def)
  have ids: "map tj_translation_unit_id ?jobs = tu_ids"
    using assms(4) by (auto simp: dispatch_jobs_def build_translation_unit_job_def comp_def case_prod_unfold)
  obtain report calls where run: "execute_project depth env pool ?jobs = Some (Inr (report, calls))"
    and dist: "distinct (dict_keys (px_translation_unit_reports report))"
    and units: "map_of (px_translation_unit_reports report)
        = map_of (map (\<lambda>job. (tj_translation_unit_id job, job_report depth env pool job)) ?jobs)"
  proof -
    have "rule_attempts depth (wl_engine pool) (tj_context job) r \<noteq> None"
      if "job \<in> set ?jobs" "r \<in> set (tj_rules job)" for job r
      using that rules assms(14) by metis
    then show ?thesis
      using project_report [of pool env ?jobs depth, OF assms(7-13)] assms(5) ids that by force
  qed
  have rep: "\<forall>v \<in> set (ep_violations rep). \<exists>m. get_metadata reg (rr_rule_id v) = Inr m" "ep_metrics rep \<noteq> []"
    if m: "map_of (px_translation_unit_reports report) tu = Some rep" for tu rep
  proof -
    obtain job where job: "job \<in> set ?jobs" "rep = job_report depth env pool job"
    proof -
      have "map_of (map (\<lambda>job. (tj_translation_unit_id job, job_report depth env pool job)) ?jobs) tu = Some rep"
        using m by (simp only: units)
      from map_of_SomeD [OF this] show ?thesis by (auto intro: that)
    qed
    from job_report_rules [of pool env job depth] show "\<forall>v \<in> set (ep_violations rep). \<exists>m. get_metadata reg (rr_rule_id v) = Inr m"
      "ep_metrics rep \<noteq> []"
      using assms(2,8,12) assms(14) [OF job(1)] rules [OF job(1)] select_rules_registered [OF assms(1)]
      by (fastforce simp: job(2))+
  qed
  have entry: "map_of (px_translation_unit_reports report) tu = Some rep" if "(tu, rep) \<in> set (px_translation_unit_reports report)"
    for tu rep
    using that dist by (simp add: map_of_in_set)
  have "\<exists>vss. try_map (unit_violations (rn_sha (pe_run env)) reg) (px_translation_unit_reports report) = Inr vss"
    (is "\<exists>vss. ?try = Inr vss")
    using rep(1) entry by (force intro!: try_map_Inr simp: unit_violations_def dispatch_violation_def)
  then obtain vss where vss: "?try = Inr vss" by blast
  have metrics: "concat (map unit_metrics (px_translation_unit_reports report)) \<noteq> []"
  proof -
    obtain job where "job \<in> set ?jobs" using assms(3,4) by (cases artifacts; cases tu_ids) (auto simp: dispatch_jobs_def)
    then have "dom (map_of (px_translation_unit_reports report)) \<noteq> {}" by (force simp: units dom_map_of_conv_image_fst)
    then obtain tu r where "map_of (px_translation_unit_reports report) tu = Some r" by blast
    with rep(2) [OF this] show ?thesis by (force simp: unit_metrics_def dest: map_of_SomeD)
  qed
  have "collect_results (rn_sha (pe_run env)) reg ?rules artifacts report = Inl (DispatchRaised AttributeError)"
    unfolding collect_results_def vss Let_def dispatch_statistics_raises [OF metrics] by simp
  then show ?thesis using assms(4,6) run
    by (simp add: execute_for_translation_units_def zip_strict_def Let_def)
qed

text \<open>
  Whenever at least one rule is selected and at least one translation unit was parsed, the
  dispatch ends with an attribute error after all rules have run: nothing of what they found is
  returned, and so nothing is stored.
\<close>

theorem dispatch_always_raises:
  assumes "registry_ok reg" and "select_rules reg enabled \<noteq> []"
    and "artifacts \<noteq> []" and "length artifacts = length tu_ids" and "distinct tu_ids"
    and "build_linkage kinds (map (\<lambda>(a, tu). (tu, ar_file_path a, mk_graph (ar_nodes a))) (zip artifacts tu_ids)) = Some linkage"
    and "0 < wl_tu_workers pool" and "0 < ec_max_workers (wl_engine pool)" and "\<not> wl_cancel_event pool"
    and "\<And>job. \<not> pe_set_at_start env job" and "\<And>i. \<not> pe_set_at_completion env i"
    and "\<And>w. mset (rn_complete (pe_run env) w) = mset w" and "\<And>js. mset (pe_complete env js) = mset js"
    and "\<And>job r. job \<in> set (dispatch_jobs (select_rules reg enabled) toolchain include_graph previous linkage (zip artifacts tu_ids)) \<Longrightarrow>
      r \<in> set (select_rules reg enabled) \<Longrightarrow> rule_attempts depth (wl_engine pool) (tj_context job) r \<noteq> None"
  shows "execute_for_translation_units depth kinds env reg pool artifacts tu_ids toolchain include_graph previous enabled
    = Some (Inl (DispatchRaised AttributeError))"
  by (rule dispatch_raises [OF assms])

text \<open>A parsed unit with a goto, and a registry of one rule.\<close>

definition goto_artifact :: ast_artifact where
  "goto_artifact =
     \<lparr>ar_nodes = [bare_node ''s'' ''CompoundStmt'' '''' [''a''], ex_node ''a'' ''GotoStmt'' ''s'' [] [] 2 3],
      ar_preprocessor = empty_macro_table, ar_file_path = ''m.c'', ar_diagnostics = []\<rparr>"

definition broken_registry :: registry where
  "broken_registry = \<lparr>rg_plugins = [(''broken'', broken_rule)], rg_metadata = [(''broken'', rp_metadata broken_rule)],
     rg_manifest_versions = []\<rparr>"

theorem dispatch_always_raises_witness:
  "execute_for_translation_units 5 [''VarDecl'', ''FunctionDecl''] example_pool_env broken_registry example_pool
     [goto_artifact] [''tu1''] [] [] [] None = Some (Inl (DispatchRaised AttributeError))"
proof (rule dispatch_always_raises)
  have id: "rule_id broken_rule = ''broken''" by code_simp
  then show "registry_ok broken_registry" by (simp add: registry_ok_def broken_registry_def)
  show "rule_attempts 5 (wl_engine example_pool) (tj_context job) r \<noteq> None"
    if "r \<in> set (select_rules broken_registry None)" for job r
    using that by (simp add: select_rules_def broken_registry_def broken_rule_def raising_rule_def rule_attempts_def
        rule_detect_def attempt_loop_const Let_def)
  show "build_linkage [''VarDecl'', ''FunctionDecl''] (map (\<lambda>(a, tu). (tu, ar_file_path a, mk_graph (ar_nodes a)))
      (zip [goto_artifact] [''tu1''])) = Some empty_linkage"
    by code_simp
qed (simp_all add: select_rules_def broken_registry_def example_pool_engine example_config_def example_pool_env_def
    example_env_permutes example_pool_def mk_worker_pool_def)

subsection \<open>The distribution\<close>

text \<open>A bucket counts the scores of its interval.\<close>

lemma fold_count_bucket:
  "dict_get_default 0 (fold count_bucket scores d) b
     = dict_get_default 0 d b + length (filter (\<lambda>s. bucket_of s = Some b) scores)"
  by (induction scores arbitrary: d) (auto simp: count_bucket_def dict_get_default_def split: option.splits)

lemma find_in_set: "find P xs = Some x \<Longrightarrow> x \<in> set xs"
  by (induction xs) (auto split: if_splits)

lemma fold_count_bucket_keys:
  "set (map fst confidence_buckets) \<subseteq> set (dict_keys d) \<Longrightarrow> dict_keys (fold count_bucket scores d) = dict_keys d"
proof (induction scores arbitrary: d)
  case (Cons s scores)
  have "b \<in> set (map fst confidence_buckets)" if "bucket_of s = Some b" for b
    using that find_in_set by (force simp: bucket_of_def)
  then have "dict_keys (count_bucket s d) = dict_keys d"
    using Cons.prems by (auto simp: count_bucket_def dict_keys_set split: option.splits)
  then show ?case using Cons by simp
qed simp

lemma bucket_of_unit_interval:
  assumes "0 \<le> s" and "s \<le> 1"
  shows "bucket_of s = Some (if s < dec2 20 then ''0.0-0.2'' else if s < dec2 40 then ''0.2-0.4''
    else if s < dec2 60 then ''0.4-0.6'' else if s < dec2 80 then ''0.6-0.8'' else ''0.8-1.0'')"
  using assms by (auto simp: bucket_of_def confidence_buckets_def intro!: exI [of _ "10001 / 10000"])

text \<open>
  The confidence distribution has the five buckets in their order, each counting the scores
  of its half-open interval, the last one including 1; scores between 0 and 1 are all counted,
  each once.
\<close>

theorem confidence_distribution_exact:
  assumes "\<forall>s \<in> set scores. 0 \<le> s \<and> s \<le> 1"
  shows "dict_keys (confidence_distribution scores) = map fst confidence_buckets
    \<and> (\<forall>b. dict_get_default 0 (confidence_distribution scores) b = length (filter (\<lambda>s. bucket_of s = Some b) scores))
    \<and> sum_list (map snd (confidence_distribution scores)) = length scores"
proof -
  let ?d = "confidence_distribution scores" and ?f = "\<lambda>b. length (filter (\<lambda>s. bucket_of s = Some b) scores)"
  have keys: "dict_keys ?d = map fst confidence_buckets"
    unfolding confidence_distribution_def
    by (subst fold_count_bucket_keys) (auto simp: dict_keys_def confidence_buckets_def)
  have counts: "dict_get_default 0 ?d b = ?f b" for b
    unfolding confidence_distribution_def fold_count_bucket
    by (simp add: confidence_buckets_def dict_get_default_def)
  have dist: "distinct (dict_keys ?d)" unfolding keys by (simp add: confidence_buckets_def)
  have "map snd ?d = map ?f (dict_keys ?d)"
  proof (rule nth_equalityI)
    fix i
    assume "i < length (map snd ?d)"
    then have "i < length ?d" by simp
    then have "map_of ?d (fst (?d ! i)) = Some (snd (?d ! i))"
      using dist by (simp add: dict_keys_def)
    then show "map snd ?d ! i = map ?f (dict_keys ?d) ! i"
      using counts [of "fst (?d ! i)"] \<open>i < length ?d\<close> by (simp add: dict_get_default_def dict_keys_def)
  qed (simp add: dict_keys_def)
  moreover have "sum_list (map ?f (map fst confidence_buckets)) = length scores"
    using assms
  proof (induction scores)
    case (Cons s scores)
    then show ?case by (auto simp: bucket_of_unit_interval confidence_buckets_def)
  qed (simp add: confidence_buckets_def)
  ultimately show ?thesis using keys counts by simp
qed

theorem confidence_distribution_exact_witness:
  "sum_list (map snd (confidence_distribution [0, dec2 20, 1])) = 3
    \<and> dict_get_default 0 (confidence_distribution [0, dec2 20, 1]) ''0.2-0.4'' = 1"
proof -
  have "\<forall>s \<in> set [0, dec2 20, 1]. 0 \<le> s \<and> s \<le> (1 :: rat)" by (simp add: dec2_def)
  from confidence_distribution_exact [OF this] show ?thesis
    by (simp add: bucket_of_unit_interval dec2_def)
qed

end
