(* ===== verification/Violation_Store.thy ===== *)
theory Violation_Store
  imports Dispatcher
begin

text \<open>
  The stored violations (\<open>domain/models/violations.py\<close>) and \<open>ViolationRepository\<close>
  (\<open>repositories/violation_repo.py\<close>).  The session is created with \<open>autoflush=False\<close>: a query
  sees the flushed rows, a row that was added is pending until \<open>flush\<close>, and \<open>flush\<close> fails when
  it would break a unique constraint.  Identifiers are numbered in the order of creation;
  \<open>now\<close> is the clock.
\<close>

subsection \<open>Tables\<close>

datatype violation_status =
    OPEN | ACCEPTED | REJECTED | EDITED | SKIPPED | FALSE_POSITIVE | SUPPRESSED | RESOLVED

fun violation_status_str :: "violation_status \<Rightarrow> string" where
  "violation_status_str OPEN = ''open''"
| "violation_status_str ACCEPTED = ''accepted''"
| "violation_status_str REJECTED = ''rejected''"
| "violation_status_str EDITED = ''edited''"
| "violation_status_str SKIPPED = ''skipped''"
| "violation_status_str FALSE_POSITIVE = ''false_positive''"
| "violation_status_str SUPPRESSED = ''suppressed''"
| "violation_status_str RESOLVED = ''resolved''"

record violation_record =
  vr_id :: nat
  vr_analysis_run_id :: string
  vr_translation_unit_id :: "string option"
  vr_project_id :: string
  vr_rule_id :: string
  vr_fingerprint :: string
  vr_file_path :: string
  vr_line_start :: int
  vr_line_end :: int
  vr_column_start :: int
  vr_column_end :: int
  vr_severity :: string
  vr_confidence_score :: rat
  vr_category :: string
  vr_offending_expression :: string
  vr_explanation :: string
  vr_risk_description :: string
  vr_source_snippet :: string
  vr_ast_node_reference :: string
  vr_macro_expansion_chain :: "string list"
  vr_suggested_fix :: "suggested_fix option"
  vr_confidence_factors :: "(string, rat) dict"
  vr_status :: violation_status
  vr_assigned_reviewer_id :: "string option"
  vr_assigned_reviewer_name :: "string option"
  vr_first_seen_at :: int
  vr_last_seen_at :: int

record metric_record =
  mr_analysis_run_id :: string
  mr_translation_unit_id :: "string option"
  mr_metric :: dispatched_metric

record violation_store =
  vs_rows :: "violation_record list"
  vs_metrics :: "metric_record list"
  vs_statistics :: "(string \<times> run_statistics) list"
  vs_next_id :: nat

definition empty_store :: violation_store where
  "empty_store = \<lparr>vs_rows = [], vs_metrics = [], vs_statistics = [], vs_next_id = 0\<rparr>"

datatype store_error = MultipleResultsFound | IntegrityError

subsection \<open>Upserting the violations of a translation unit\<close>

definition same_violation :: "string \<Rightarrow> string \<Rightarrow> violation_record \<Rightarrow> bool" where
  "same_violation project fingerprint r \<longleftrightarrow> vr_project_id r = project \<and> vr_fingerprint r = fingerprint"

definition refresh_record ::
    "string \<Rightarrow> string option \<Rightarrow> int \<Rightarrow> dispatched_violation \<Rightarrow> violation_record \<Rightarrow> violation_record" where
  "refresh_record run tu now p r = r
     \<lparr>vr_analysis_run_id := run, vr_translation_unit_id := tu,
      vr_line_start := dv_line_start p, vr_line_end := dv_line_end p,
      vr_column_start := dv_column_start p, vr_column_end := dv_column_end p,
      vr_confidence_score := dv_confidence_score p, vr_last_seen_at := now\<rparr>"

definition new_record ::
    "string \<Rightarrow> string \<Rightarrow> string option \<Rightarrow> int \<Rightarrow> nat \<Rightarrow> dispatched_violation \<Rightarrow> violation_record" where
  "new_record run project tu now i p =
     \<lparr>vr_id = i, vr_analysis_run_id = run, vr_translation_unit_id = tu, vr_project_id = project,
      vr_rule_id = dv_rule_id p, vr_fingerprint = dv_fingerprint p, vr_file_path = dv_file_path p,
      vr_line_start = dv_line_start p, vr_line_end = dv_line_end p,
      vr_column_start = dv_column_start p, vr_column_end = dv_column_end p,
      vr_severity = dv_severity p, vr_confidence_score = dv_confidence_score p,
      vr_category = dv_category p, vr_offending_expression = dv_offending_expression p,
      vr_explanation = dv_explanation p, vr_risk_description = dv_risk_description p,
      vr_source_snippet = dv_source_snippet p, vr_ast_node_reference = dv_ast_node_reference p,
      vr_macro_expansion_chain = dv_macro_expansion_chain p, vr_suggested_fix = dv_suggested_fix p,
      vr_confidence_factors = dv_confidence_factors p, vr_status = OPEN,
      vr_assigned_reviewer_id = None, vr_assigned_reviewer_name = None,
      vr_first_seen_at = now, vr_last_seen_at = now\<rparr>"

text \<open>
  The loop: \<open>rows\<close> are the flushed rows with their modifications, \<open>pending\<close> the added ones,
  \<open>saved\<close> the identifiers of the returned records.
\<close>

fun upsert_loop ::
    "string \<Rightarrow> string \<Rightarrow> string option \<Rightarrow> int \<Rightarrow> dispatched_violation list \<Rightarrow>
     violation_record list \<Rightarrow> violation_record list \<Rightarrow> nat \<Rightarrow> nat list \<Rightarrow>
     store_error + violation_record list \<times> violation_record list \<times> nat \<times> nat list" where
  "upsert_loop run project tu now [] rows pending next_id saved = Inr (rows, pending, next_id, saved)"
| "upsert_loop run project tu now (p # ps) rows pending next_id saved =
     (case filter (same_violation project (dv_fingerprint p)) rows of
        [] \<Rightarrow> upsert_loop run project tu now ps rows (pending @ [new_record run project tu now next_id p])
               (next_id + 1) (saved @ [next_id])
      | [r] \<Rightarrow> upsert_loop run project tu now ps
               (map (\<lambda>x. if vr_id x = vr_id r then refresh_record run tu now p x else x) rows) pending
               next_id (saved @ [vr_id r])
      | _ \<Rightarrow> Inl MultipleResultsFound)"

text \<open>\<open>UniqueConstraint("analysis_run_id", "fingerprint")\<close>\<close>

definition run_key :: "violation_record \<Rightarrow> string \<times> string" where
  "run_key r = (vr_analysis_run_id r, vr_fingerprint r)"

definition flush_rows :: "violation_record list \<Rightarrow> violation_record list \<Rightarrow> store_error + violation_record list" where
  "flush_rows rows pending =
     (if distinct (map run_key (rows @ pending)) then Inr (rows @ pending) else Inl IntegrityError)"

definition upsert_violations ::
    "string \<Rightarrow> string \<Rightarrow> string option \<Rightarrow> int \<Rightarrow> dispatched_violation list \<Rightarrow> violation_store \<Rightarrow>
     store_error + violation_store \<times> nat list" where
  "upsert_violations run project tu now violations st =
     (case upsert_loop run project tu now violations (vs_rows st) [] (vs_next_id st) [] of
        Inl e \<Rightarrow> Inl e
      | Inr (rows, pending, next_id, saved) \<Rightarrow>
          map_sum id (\<lambda>rows'. (st\<lparr>vs_rows := rows', vs_next_id := next_id\<rparr>, saved)) (flush_rows rows pending))"

subsection \<open>Queries and metrics\<close>

definition list_by_run :: "string \<Rightarrow> violation_store \<Rightarrow> violation_record list" where
  "list_by_run run st = sort_key (\<lambda>r. (vr_file_path r, vr_line_start r))
     (filter (\<lambda>r. vr_analysis_run_id r = run) (vs_rows st))"

definition list_by_project :: "string \<Rightarrow> violation_store \<Rightarrow> violation_record list" where
  "list_by_project project st = sort_key (\<lambda>r. - vr_last_seen_at r)
     (filter (\<lambda>r. vr_project_id r = project) (vs_rows st))"

definition get_previous_fingerprints :: "string \<Rightarrow> violation_store \<Rightarrow> (string \<times> string \<times> string) list" where
  "get_previous_fingerprints project st = remdups
     (map (\<lambda>r. (vr_fingerprint r, vr_rule_id r, vr_file_path r)) (filter (\<lambda>r. vr_project_id r = project) (vs_rows st)))"

definition save_execution_metrics ::
    "string \<Rightarrow> string option \<Rightarrow> dispatched_metric list \<Rightarrow> violation_store \<Rightarrow> violation_store" where
  "save_execution_metrics run tu metrics st = st\<lparr>vs_metrics := vs_metrics st @
     map (\<lambda>m. \<lparr>mr_analysis_run_id = run, mr_translation_unit_id = tu, mr_metric = m\<rparr>) metrics\<rparr>"

text \<open>The statistics of a run are unique; the constraint is checked at the next flush.\<close>

definition save_run_statistics :: "string \<Rightarrow> run_statistics \<Rightarrow> violation_store \<Rightarrow> violation_store" where
  "save_run_statistics run stats st = st\<lparr>vs_statistics := vs_statistics st @ [(run, stats)]\<rparr>"

subsection \<open>Persisting a dispatch\<close>

definition group_by_unit :: "('a \<Rightarrow> string option) \<Rightarrow> 'a list \<Rightarrow> (string option, 'a list) dict" where
  "group_by_unit f xs = fold (\<lambda>x. dict_push (f x) x) xs []"

fun upsert_units ::
    "string \<Rightarrow> string \<Rightarrow> int \<Rightarrow> (string option, dispatched_violation list) dict \<Rightarrow> violation_store \<Rightarrow>
     store_error + violation_store" where
  "upsert_units run project now [] st = Inr st"
| "upsert_units run project now ((tu, vs) # units) st = (case upsert_violations run project tu now vs st of
     Inl e \<Rightarrow> Inl e
   | Inr (st', saved) \<Rightarrow> upsert_units run project now units st')"

definition persist_results ::
    "string \<Rightarrow> string \<Rightarrow> int \<Rightarrow> dispatch_results \<Rightarrow> violation_store \<Rightarrow> store_error + violation_store" where
  "persist_results run project now results st =
     map_sum id
       (\<lambda>st'. save_run_statistics run (dr_statistics results)
          (fold (\<lambda>(tu, ms). save_execution_metrics run tu ms)
             (group_by_unit dm_translation_unit_id (dr_metrics results)) st'))
       (upsert_units run project now (group_by_unit dv_translation_unit_id (dr_violations results)) st)"

subsection \<open>The invariant\<close>

definition project_key :: "violation_record \<Rightarrow> string \<times> string" where
  "project_key r = (vr_project_id r, vr_fingerprint r)"

definition runs_apart :: "violation_record list \<Rightarrow> bool" where
  "runs_apart rows \<longleftrightarrow> (\<forall>r \<in> set rows. \<forall>s \<in> set rows.
     vr_analysis_run_id r = vr_analysis_run_id s \<longrightarrow> vr_project_id r = vr_project_id s)"

lemma runs_apartD: "runs_apart rows \<Longrightarrow> r \<in> set rows \<Longrightarrow> s \<in> set rows \<Longrightarrow>
    vr_analysis_run_id r = vr_analysis_run_id s \<Longrightarrow> vr_project_id r = vr_project_id s"
  unfolding runs_apart_def by blast

text \<open>
  Rows have their own identifiers, below the next one; a project has one row per fingerprint;
  the rows of a run belong to one project.
\<close>

definition store_ok :: "violation_store \<Rightarrow> bool" where
  "store_ok st \<longleftrightarrow> distinct (map vr_id (vs_rows st)) \<and> (\<forall>r \<in> set (vs_rows st). vr_id r < vs_next_id st)
     \<and> distinct (map project_key (vs_rows st)) \<and> runs_apart (vs_rows st)"

definition run_in_project :: "string \<Rightarrow> string \<Rightarrow> violation_store \<Rightarrow> bool" where
  "run_in_project run project st \<longleftrightarrow>
     (\<forall>r \<in> set (vs_rows st). vr_analysis_run_id r = run \<longrightarrow> vr_project_id r = project)"

text \<open>What the loop makes of a row: the refreshments of the payloads with its fingerprint.\<close>

definition refresh_row ::
    "string \<Rightarrow> string \<Rightarrow> string option \<Rightarrow> int \<Rightarrow> dispatched_violation \<Rightarrow> violation_record \<Rightarrow> violation_record" where
  "refresh_row run project tu now p r =
     (if same_violation project (dv_fingerprint p) r then refresh_record run tu now p r else r)"

definition refreshed ::
    "string \<Rightarrow> string \<Rightarrow> string option \<Rightarrow> int \<Rightarrow> dispatched_violation list \<Rightarrow> violation_record \<Rightarrow> violation_record" where
  "refreshed run project tu now ps r = fold (refresh_row run project tu now) ps r"

definition unknown_violations ::
    "string \<Rightarrow> violation_record list \<Rightarrow> dispatched_violation list \<Rightarrow> dispatched_violation list" where
  "unknown_violations project rows ps = filter (\<lambda>p. \<forall>r \<in> set rows. \<not> same_violation project (dv_fingerprint p) r) ps"

lemma refresh_record_keeps [simp]:
  "vr_id (refresh_record run tu now p r) = vr_id r"
  "vr_project_id (refresh_record run tu now p r) = vr_project_id r"
  "vr_fingerprint (refresh_record run tu now p r) = vr_fingerprint r"
  "vr_status (refresh_record run tu now p r) = vr_status r"
  "vr_assigned_reviewer_id (refresh_record run tu now p r) = vr_assigned_reviewer_id r"
  "vr_first_seen_at (refresh_record run tu now p r) = vr_first_seen_at r"
  by (simp_all add: refresh_record_def)

lemma refreshed_keeps [simp]:
  "vr_id (refreshed run project tu now ps r) = vr_id r"
  "vr_project_id (refreshed run project tu now ps r) = vr_project_id r"
  "vr_fingerprint (refreshed run project tu now ps r) = vr_fingerprint r"
  "vr_status (refreshed run project tu now ps r) = vr_status r"
  "vr_assigned_reviewer_id (refreshed run project tu now ps r) = vr_assigned_reviewer_id r"
  "vr_first_seen_at (refreshed run project tu now ps r) = vr_first_seen_at r"
  by (induction ps arbitrary: r) (simp_all add: refreshed_def refresh_row_def)

lemma same_violation_refresh [simp]:
  "same_violation q f (refresh_row run project tu now p r) = same_violation q f r"
  by (simp add: refresh_row_def same_violation_def)

lemma refreshed_other:
  "\<forall>p \<in> set ps. \<not> same_violation project (dv_fingerprint p) r \<Longrightarrow> refreshed run project tu now ps r = r"
  by (induction ps) (simp_all add: refreshed_def refresh_row_def)

lemma new_record_keys [simp]:
  "vr_id (new_record run project tu now i p) = i"
  "project_key (new_record run project tu now i p) = (project, dv_fingerprint p)"
  "vr_project_id (new_record run project tu now i p) = project"
  "vr_fingerprint (new_record run project tu now i p) = dv_fingerprint p"
  "vr_analysis_run_id (new_record run project tu now i p) = run"
  "vr_status (new_record run project tu now i p) = OPEN"
  by (simp_all add: new_record_def project_key_def)

text \<open>A fingerprint matches at most one row of a project.\<close>

lemma matching_row:
  assumes "distinct (map vr_id rows)" and "distinct (map project_key rows)"
  shows "filter (same_violation project f) rows = [] \<and> (\<forall>x \<in> set rows. \<not> same_violation project f x)
    \<or> (\<exists>r. filter (same_violation project f) rows = [r] \<and> (\<forall>x \<in> set rows. vr_id x = vr_id r \<longleftrightarrow> same_violation project f x))"
proof (cases "filter (same_violation project f) rows")
  case Nil
  then show ?thesis by (simp add: filter_empty_conv)
next
  case (Cons r rs)
  have in_filter: "x \<in> set (r # rs) \<longleftrightarrow> x \<in> set rows \<and> same_violation project f x" for x
    by (simp flip: Cons)
  from in_filter [of r] have r: "r \<in> set rows" "same_violation project f r" by simp_all
  have same: "x = r" if "x \<in> set rows" "same_violation project f x" for x
    using that r assms(2) by (auto simp: distinct_map inj_on_def project_key_def same_violation_def)
  have "distinct rows" using assms(1) by (simp add: distinct_map)
  then have "distinct (r # rs)" using distinct_filter [of rows "same_violation project f"] Cons by simp
  then have "rs = []" using same in_filter by (cases rs) auto
  moreover have "vr_id x = vr_id r \<longleftrightarrow> same_violation project f x" if "x \<in> set rows" for x
  proof -
    have "inj_on vr_id (set rows)" using assms(1) by (simp add: distinct_map)
    then have "vr_id x = vr_id r \<longleftrightarrow> x = r" using that r(1) by (auto dest: inj_onD)
    then show ?thesis using same [OF that] r(2) by blast
  qed
  ultimately show ?thesis using Cons by simp
qed

lemma upsert_loop_spec:
  assumes "distinct (map vr_id rows)" and "distinct (map project_key rows)"
  shows "\<exists>ids. upsert_loop run project tu now ps rows pending n saved =
    Inr (map (refreshed run project tu now ps) rows,
         pending @ map2 (new_record run project tu now) [n..<n + length (unknown_violations project rows ps)]
                     (unknown_violations project rows ps),
         n + length (unknown_violations project rows ps), saved @ ids) \<and> length ids = length ps"
  using assms
proof (induction ps arbitrary: rows pending n saved)
  case Nil
  have "refreshed run project tu now [] = (\<lambda>r. r)" by (simp add: refreshed_def fun_eq_iff)
  then show ?case by (simp add: unknown_violations_def)
next
  case (Cons p ps)
  let ?f = "dv_fingerprint p"
  have key: "project_key (refresh_row run project tu now p x) = project_key x"
    "vr_id (refresh_row run project tu now p x) = vr_id x" for x
    by (simp_all add: refresh_row_def project_key_def)
  have step: "refreshed run project tu now (p # ps) x = refreshed run project tu now ps (refresh_row run project tu now p x)" for x
    by (simp add: refreshed_def)
  consider (new) "filter (same_violation project ?f) rows = []" "\<forall>x \<in> set rows. \<not> same_violation project ?f x"
    | (known) r where "filter (same_violation project ?f) rows = [r]"
        "\<forall>x \<in> set rows. vr_id x = vr_id r \<longleftrightarrow> same_violation project ?f x"
    using matching_row [OF Cons.prems] by blast
  then show ?case
  proof cases
    case new
    let ?u = "unknown_violations project rows ps"
    have u: "unknown_violations project rows (p # ps) = p # ?u" using new(2) by (simp add: unknown_violations_def)
    have same: "map (refreshed run project tu now (p # ps)) rows = map (refreshed run project tu now ps) rows"
      using new(2) by (auto simp: step refresh_row_def)
    have up: "[n..<Suc (n + length ?u)] = n # [Suc n..<Suc (n + length ?u)]" by (simp add: upt_conv_Cons del: upt_Suc)
    obtain ids where "upsert_loop run project tu now ps rows (pending @ [new_record run project tu now n p]) (Suc n) (saved @ [n]) =
        Inr (map (refreshed run project tu now ps) rows,
          (pending @ [new_record run project tu now n p]) @ map2 (new_record run project tu now) [Suc n..<Suc n + length ?u] ?u,
          Suc n + length ?u, (saved @ [n]) @ ids)" "length ids = length ps"
      using Cons.IH [OF Cons.prems, of "pending @ [new_record run project tu now n p]" "Suc n" "saved @ [n]"] by blast
    then show ?thesis using new(1) by (intro exI [of _ "n # ids"]) (simp add: u same up del: upt_Suc)
  next
    case known
    let ?rows = "map (refresh_row run project tu now p) rows"
    have rows: "map (\<lambda>x. if vr_id x = vr_id r then refresh_record run tu now p x else x) rows = ?rows"
      using known(2) by (auto simp: refresh_row_def)
    have "\<not> (\<forall>x \<in> set rows. \<not> same_violation project ?f x)"
      using known(1) by (metis filter_False list.distinct(1))
    then have u: "unknown_violations project rows (p # ps) = unknown_violations project ?rows ps"
      by (simp add: unknown_violations_def)
    have same: "map (refreshed run project tu now (p # ps)) rows = map (refreshed run project tu now ps) ?rows"
      by (simp add: step)
    have "distinct (map vr_id ?rows)" "distinct (map project_key ?rows)"
      using Cons.prems by (simp_all add: comp_def key)
    from Cons.IH [OF this, of pending n "saved @ [vr_id r]"] show ?thesis
      using known(1) by (fastforce simp: rows u same intro: exI [of _ "vr_id r # _"])
  qed
qed

lemma unknown_keys:
  assumes "distinct (map dv_fingerprint ps)"
  shows "distinct (map project_key (map2 (new_record run project tu now) [n..<n + length (unknown_violations project rows ps)]
      (unknown_violations project rows ps)))"
    and "project_key ` set (map2 (new_record run project tu now) [n..<n + length (unknown_violations project rows ps)]
      (unknown_violations project rows ps)) = (\<lambda>p. (project, dv_fingerprint p)) ` set (unknown_violations project rows ps)"
proof -
  have *: "map project_key (map2 (new_record run project tu now) [n..<n + length us] us)
      = map (\<lambda>p. (project, dv_fingerprint p)) us" for us
    by (rule nth_equalityI) simp_all
  have "distinct (map dv_fingerprint (unknown_violations project rows ps))"
    using assms by (simp add: unknown_violations_def distinct_map_filter)
  then show "distinct (map project_key (map2 (new_record run project tu now) [n..<n + length (unknown_violations project rows ps)]
      (unknown_violations project rows ps)))"
    unfolding * by (auto simp: distinct_map inj_on_def)
  show "project_key ` set (map2 (new_record run project tu now) [n..<n + length (unknown_violations project rows ps)]
      (unknown_violations project rows ps)) = (\<lambda>p. (project, dv_fingerprint p)) ` set (unknown_violations project rows ps)"
    using * [of "unknown_violations project rows ps"] by (metis image_set)
qed

lemma run_keys_distinct:
  assumes "distinct (map project_key rows)" and "runs_apart rows"
  shows "distinct (map run_key rows)"
proof -
  have "inj_on run_key (set rows)"
  proof (rule inj_onI)
    fix r s
    assume rs: "r \<in> set rows" "s \<in> set rows" "run_key r = run_key s"
    then have "project_key r = project_key s"
      using runs_apartD [OF assms(2) rs(1,2)] by (simp add: run_key_def project_key_def)
    then show "r = s" using assms(1) rs(1,2) by (auto simp: distinct_map dest: inj_onD)
  qed
  then show ?thesis using assms(1) by (simp add: distinct_map)
qed

lemma refreshed_run: "vr_analysis_run_id (refreshed run project tu now ps r) \<in> {vr_analysis_run_id r, run}
    \<and> (vr_analysis_run_id (refreshed run project tu now ps r) \<noteq> vr_analysis_run_id r \<longrightarrow> vr_project_id r = project)"
proof (induction ps arbitrary: r)
  case (Cons p ps)
  have "refreshed run project tu now (p # ps) r = refreshed run project tu now ps (refresh_row run project tu now p r)"
    by (simp add: refreshed_def)
  then show ?case using Cons [of "refresh_row run project tu now p r"]
    by (auto simp: refresh_row_def same_violation_def refresh_record_def)
qed (simp add: refreshed_def)

lemma upsert_spec:
  assumes "store_ok st" and "run_in_project run project st" and "distinct (map dv_fingerprint ps)"
  defines "news \<equiv> unknown_violations project (vs_rows st) ps"
  shows "\<exists>st' ids. upsert_violations run project tu now ps st = Inr (st', ids) \<and> length ids = length ps
    \<and> vs_rows st' = map (refreshed run project tu now ps) (vs_rows st)
        @ map2 (new_record run project tu now) [vs_next_id st..<vs_next_id st + length news] news
    \<and> store_ok st' \<and> run_in_project run project st'"
proof -
  let ?rows = "map (refreshed run project tu now ps) (vs_rows st)"
  let ?new = "map2 (new_record run project tu now) [vs_next_id st..<vs_next_id st + length news] news"
  have ok: "distinct (map vr_id (vs_rows st))" "\<forall>r \<in> set (vs_rows st). vr_id r < vs_next_id st"
    "distinct (map project_key (vs_rows st))" "runs_apart (vs_rows st)"
    using assms(1) by (simp_all add: store_ok_def)
  obtain ids where loop: "upsert_loop run project tu now ps (vs_rows st) [] (vs_next_id st) [] =
      Inr (?rows, ?new, vs_next_id st + length news, ids)" "length ids = length ps"
    using upsert_loop_spec [OF ok(1,3), of run project tu now ps "[]" "vs_next_id st" "[]"] by (auto simp: news_def)
  have news: "r \<in> set ?new \<Longrightarrow> vr_analysis_run_id r = run \<and> vr_project_id r = project" for r
    by (auto simp: set_zip)
  have projects: "vr_project_id r = project" if "r \<in> set (?rows @ ?new)" "vr_analysis_run_id r = run" for r
  proof (cases "r \<in> set ?new")
    case False
    then obtain r0 where "r0 \<in> set (vs_rows st)" "r = refreshed run project tu now ps r0" using \<open>r \<in> set (?rows @ ?new)\<close> by auto
    then show ?thesis using refreshed_run [of run project tu now ps r0] assms(2) \<open>vr_analysis_run_id r = run\<close>
      by (auto simp: run_in_project_def)
  qed (use news in blast)
  have runs: "runs_apart (?rows @ ?new)" unfolding runs_apart_def
  proof (intro ballI impI)
    fix r s
    assume rs: "r \<in> set (?rows @ ?new)" "s \<in> set (?rows @ ?new)" "vr_analysis_run_id r = vr_analysis_run_id s"
    show "vr_project_id r = vr_project_id s"
    proof (cases "vr_analysis_run_id r = run")
      case True
      then show ?thesis using projects [OF rs(1)] projects [OF rs(2)] rs(3) by simp
    next
      case False
      then obtain r0 s0 where "r0 \<in> set (vs_rows st)" "r = refreshed run project tu now ps r0"
          "s0 \<in> set (vs_rows st)" "s = refreshed run project tu now ps s0"
        using rs news [of r] news [of s] by auto
      then show ?thesis using False rs(3) runs_apartD [OF ok(4), of r0 s0]
          refreshed_run [of run project tu now ps r0] refreshed_run [of run project tu now ps s0]
        by simp
    qed
  qed
  have "map project_key ?rows = map project_key (vs_rows st)" by (simp add: project_key_def)
  moreover have "project_key ` set (vs_rows st) \<inter> project_key ` set ?new = {}"
    unfolding news_def unknown_keys(2) [OF assms(3)]
    by (auto simp: unknown_violations_def project_key_def same_violation_def)
  ultimately have keys: "distinct (map project_key (?rows @ ?new))"
    using ok(3) unknown_keys(1) [OF assms(3), of run project tu now "vs_next_id st" "vs_rows st"]
    by (metis distinct_append image_set map_append news_def)
  have "map vr_id ?new = [vs_next_id st..<vs_next_id st + length news]" by (rule nth_equalityI) simp_all
  moreover have "map vr_id ?rows = map vr_id (vs_rows st)" by (simp add: comp_def)
  ultimately have mid: "map vr_id (?rows @ ?new) = map vr_id (vs_rows st) @ [vs_next_id st..<vs_next_id st + length news]"
    by (simp only: map_append)
  have ids: "distinct (map vr_id (?rows @ ?new))" unfolding mid using ok(1,2) by auto
  have "\<forall>i \<in> set (map vr_id (?rows @ ?new)). i < vs_next_id st + length news" unfolding mid using ok(2) by auto
  then have bound: "vr_id r < vs_next_id st + length news" if "r \<in> set (?rows @ ?new)" for r
    using that by (simp only: set_map) blast
  have "upsert_violations run project tu now ps st
      = Inr (st\<lparr>vs_rows := ?rows @ ?new, vs_next_id := vs_next_id st + length news\<rparr>, ids)"
    by (simp only: upsert_violations_def flush_rows_def loop(1) run_keys_distinct [OF keys runs]
        sum.case prod.case if_True map_sum.simps)
  then show ?thesis
    using loop(2) keys runs ids projects bound by (simp add: store_ok_def run_in_project_def del: set_append set_map)
qed

lemma upsert_fingerprints:
  assumes "vs_rows st' = map (refreshed run project tu now ps) (vs_rows st)
      @ map2 (new_record run project tu now) [n..<n + length (unknown_violations project (vs_rows st) ps)]
          (unknown_violations project (vs_rows st) ps)"
    and "distinct (map dv_fingerprint ps)"
  shows "project_key ` set (vs_rows st') = project_key ` set (vs_rows st) \<union> (\<lambda>p. (project, dv_fingerprint p)) ` set ps"
proof -
  have "project_key ` refreshed run project tu now ps ` set (vs_rows st) = project_key ` set (vs_rows st)"
    by (simp add: image_image project_key_def)
  then have "project_key ` set (vs_rows st') = project_key ` set (vs_rows st)
      \<union> (\<lambda>p. (project, dv_fingerprint p)) ` set (unknown_violations project (vs_rows st) ps)"
    unfolding assms(1) set_append image_Un unknown_keys(2) [OF assms(2)] by simp
  moreover have "(\<lambda>p. (project, dv_fingerprint p)) ` set ps \<subseteq> project_key ` set (vs_rows st)
      \<union> (\<lambda>p. (project, dv_fingerprint p)) ` set (unknown_violations project (vs_rows st) ps)"
  proof (rule image_subsetI)
    fix p
    assume "p \<in> set ps"
    then consider "p \<in> set (unknown_violations project (vs_rows st) ps)"
      | r where "r \<in> set (vs_rows st)" "same_violation project (dv_fingerprint p) r"
      by (auto simp: unknown_violations_def)
    then show "(project, dv_fingerprint p) \<in> project_key ` set (vs_rows st)
      \<union> (\<lambda>p. (project, dv_fingerprint p)) ` set (unknown_violations project (vs_rows st) ps)"
      by cases (auto simp: same_violation_def project_key_def)
  qed
  moreover have "set (unknown_violations project (vs_rows st) ps) \<subseteq> set ps" by (simp add: unknown_violations_def)
  ultimately show ?thesis by (auto dest: image_mono)
qed

text \<open>
  C29: Storing the violations of a translation unit, none reported twice, succeeds and keeps the
  store consistent: one row per project and fingerprint.  The project then has exactly the old
  and the reported fingerprints, and every earlier row is still there with the status, the
  reviewer and the first sighting it had: analyzing again undoes no review.
\<close>

theorem reanalysis_keeps_reviews:
  assumes "store_ok st" and "run_in_project run project st" and "distinct (map dv_fingerprint ps)"
  shows "\<exists>st' ids. upsert_violations run project tu now ps st = Inr (st', ids) \<and> store_ok st'
    \<and> project_key ` set (vs_rows st') = project_key ` set (vs_rows st) \<union> (\<lambda>p. (project, dv_fingerprint p)) ` set ps
    \<and> (\<forall>r \<in> set (vs_rows st). \<exists>r' \<in> set (vs_rows st'). vr_id r' = vr_id r \<and> project_key r' = project_key r
         \<and> vr_status r' = vr_status r \<and> vr_assigned_reviewer_id r' = vr_assigned_reviewer_id r
         \<and> vr_first_seen_at r' = vr_first_seen_at r)"
proof -
  obtain st' ids where st': "upsert_violations run project tu now ps st = Inr (st', ids)" "store_ok st'"
    "vs_rows st' = map (refreshed run project tu now ps) (vs_rows st)
      @ map2 (new_record run project tu now) [vs_next_id st..<vs_next_id st + length (unknown_violations project (vs_rows st) ps)]
          (unknown_violations project (vs_rows st) ps)"
    using upsert_spec [OF assms] by blast
  have "\<exists>r' \<in> set (vs_rows st'). vr_id r' = vr_id r \<and> project_key r' = project_key r
         \<and> vr_status r' = vr_status r \<and> vr_assigned_reviewer_id r' = vr_assigned_reviewer_id r
         \<and> vr_first_seen_at r' = vr_first_seen_at r" if "r \<in> set (vs_rows st)" for r
    using that by (intro bexI [of _ "refreshed run project tu now ps r"]) (simp_all add: st'(3) project_key_def)
  then show ?thesis using st'(1,2) upsert_fingerprints [OF st'(3) assms(3)] by blast
qed

lemma refreshed_match:
  "distinct (map dv_fingerprint ps) \<Longrightarrow> p \<in> set ps \<Longrightarrow> same_violation project (dv_fingerprint p) r \<Longrightarrow>
     refreshed run project tu now ps r = refresh_record run tu now p r"
proof (induction ps arbitrary: r)
  case (Cons q ps)
  have step: "refreshed run project tu now (q # ps) r = refreshed run project tu now ps (refresh_row run project tu now q r)"
    by (simp add: refreshed_def)
  show ?case
  proof (cases "p = q")
    case True
    then have "\<forall>p' \<in> set ps. \<not> same_violation project (dv_fingerprint p') (refresh_row run project tu now q r)"
      using Cons.prems(1,3) by simp (metis image_eqI same_violation_def)
    then show ?thesis using True Cons.prems(3) by (simp add: step refreshed_other refresh_row_def)
  next
    case False
    then have "p \<in> set ps" "dv_fingerprint q \<noteq> dv_fingerprint p" using Cons.prems(1,2) by auto
    then show ?thesis using Cons.IH [of r] Cons.prems by (simp add: step refresh_row_def same_violation_def)
  qed
qed simp

text \<open>
  Storing is idempotent: storing the same violations of a unit again, in the same run and
  at the same time, changes nothing.
\<close>

theorem upsert_idempotent:
  assumes "store_ok st" and "run_in_project run project st" and "distinct (map dv_fingerprint ps)"
    and "upsert_violations run project tu now ps st = Inr (st', ids)"
  shows "\<exists>ids'. upsert_violations run project tu now ps st' = Inr (st', ids')"
proof -
  let ?us = "unknown_violations project (vs_rows st) ps"
  let ?new = "map2 (new_record run project tu now) [vs_next_id st..<vs_next_id st + length ?us] ?us"
  have st': "store_ok st'" "run_in_project run project st'"
    "vs_rows st' = map (refreshed run project tu now ps) (vs_rows st) @ ?new"
    using upsert_spec [OF assms(1-3), of tu now] assms(4) by auto
  have "project_key ` set (vs_rows st') = project_key ` set (vs_rows st) \<union> (\<lambda>p. (project, dv_fingerprint p)) ` set ps"
    by (rule upsert_fingerprints [OF st'(3) assms(3)])
  then have "(project, dv_fingerprint p) \<in> project_key ` set (vs_rows st')" if "p \<in> set ps" for p
    using that by blast
  then have "\<exists>r \<in> set (vs_rows st'). same_violation project (dv_fingerprint p) r" if "p \<in> set ps" for p
    using that by (auto simp: same_violation_def project_key_def image_iff) metis
  then have unknown: "unknown_violations project (vs_rows st') ps = []"
    by (simp add: unknown_violations_def filter_empty_conv)
  have again: "refreshed run project tu now ps r = r" if "r \<in> set (vs_rows st')" for r
  proof (cases "\<exists>p \<in> set ps. same_violation project (dv_fingerprint p) r")
    case True
    then obtain p where p: "p \<in> set ps" "same_violation project (dv_fingerprint p) r" by blast
    have "r \<in> set (map (refreshed run project tu now ps) (vs_rows st)) \<or> r \<in> set ?new"
      using that by (simp only: st'(3) set_append Un_iff)
    then consider r0 where "r0 \<in> set (vs_rows st)" "r = refreshed run project tu now ps r0"
      | i q where "q \<in> set ?us" "r = new_record run project tu now i q"
      by (auto dest: set_zip_rightD)
    then have "refresh_record run tu now p r = r"
    proof cases
      case 1
      then have "r = refresh_record run tu now p r0"
        using p by (simp add: refreshed_match [OF assms(3) p(1)] same_violation_def)
      then show ?thesis by (simp add: refresh_record_def)
    next
      case 2
      then have "q = p" using p assms(3) by (auto simp: same_violation_def unknown_violations_def distinct_map dest: inj_onD)
      then show ?thesis using 2 by (simp add: refresh_record_def new_record_def)
    qed
    then show ?thesis using refreshed_match [OF assms(3) p] by simp
  qed (simp add: refreshed_other)
  have rows: "map (refreshed run project tu now ps) (vs_rows st') = vs_rows st'" by (simp add: again map_idI)
  have keys: "distinct (map vr_id (vs_rows st'))" "distinct (map project_key (vs_rows st'))" "runs_apart (vs_rows st')"
    using st'(1) by (simp_all add: store_ok_def)
  obtain ids' where "upsert_loop run project tu now ps (vs_rows st') [] (vs_next_id st') []
      = Inr (vs_rows st', [], vs_next_id st', ids')"
    using upsert_loop_spec [OF keys(1,2), of run project tu now ps "[]" "vs_next_id st'" "[]"] unknown rows by auto
  then show ?thesis using run_keys_distinct [OF keys(2,3)] by (simp add: upsert_violations_def flush_rows_def)
qed

text \<open>
  Two violations with one new fingerprint in a single batch make the flush fail: the query
  for the second does not see the row added for the first, so both are inserted and the unique
  constraint of the run rejects them.
\<close>

theorem duplicate_in_batch_fails:
  assumes "store_ok st" and "ps = xs @ p # ys @ q # zs" and "dv_fingerprint p = dv_fingerprint q"
    and "\<forall>r \<in> set (vs_rows st). \<not> same_violation project (dv_fingerprint p) r"
  shows "upsert_violations run project tu now ps st = Inl IntegrityError"
proof -
  let ?us = "unknown_violations project (vs_rows st) ps"
  let ?new = "map2 (new_record run project tu now) [vs_next_id st..<vs_next_id st + length ?us] ?us"
  have "distinct (map vr_id (vs_rows st))" "distinct (map project_key (vs_rows st))"
    using assms(1) by (simp_all add: store_ok_def)
  from upsert_loop_spec [OF this, of run project tu now ps "[]" "vs_next_id st" "[]"] obtain ids where
    loop: "upsert_loop run project tu now ps (vs_rows st) [] (vs_next_id st) [] =
      Inr (map (refreshed run project tu now ps) (vs_rows st), ?new, vs_next_id st + length ?us, ids)" by auto
  have "map run_key ?new = map (\<lambda>p. (run, dv_fingerprint p)) ?us"
    by (rule nth_equalityI) (simp_all add: run_key_def)
  moreover have "\<not> distinct (map (\<lambda>p. (run, dv_fingerprint p)) ?us)"
    using assms(3,4) by (simp add: assms(2) unknown_violations_def)
  ultimately have "\<not> distinct (map run_key (map (refreshed run project tu now ps) (vs_rows st) @ ?new))"
    by (simp only: map_append distinct_append) simp
  then show ?thesis by (simp only: upsert_violations_def flush_rows_def loop sum.case prod.case if_False map_sum.simps id_apply)
qed

text \<open>
  A violation that a new analysis of its project no longer reports keeps its row as it is,
  its status included; storing makes no row resolved.
\<close>

theorem vanished_violation_unchanged:
  assumes "store_ok st" and "run_in_project run project st" and "distinct (map dv_fingerprint ps)"
    and "upsert_violations run project tu now ps st = Inr (st', ids)"
  shows "(\<forall>r \<in> set (vs_rows st). vr_fingerprint r \<notin> dv_fingerprint ` set ps \<longrightarrow> r \<in> set (vs_rows st'))
    \<and> ((\<forall>r \<in> set (vs_rows st). vr_status r \<noteq> RESOLVED) \<longrightarrow> (\<forall>r \<in> set (vs_rows st'). vr_status r \<noteq> RESOLVED))"
proof -
  let ?us = "unknown_violations project (vs_rows st) ps"
  have rows: "vs_rows st' = map (refreshed run project tu now ps) (vs_rows st)
      @ map2 (new_record run project tu now) [vs_next_id st..<vs_next_id st + length ?us] ?us"
    using upsert_spec [OF assms(1-3), of tu now] assms(4) by auto
  have "refreshed run project tu now ps r = r" if "vr_fingerprint r \<notin> dv_fingerprint ` set ps" for r
    by (rule refreshed_other) (use that in \<open>auto simp: same_violation_def\<close>)
  then have "r \<in> set (vs_rows st')" if "r \<in> set (vs_rows st)" "vr_fingerprint r \<notin> dv_fingerprint ` set ps" for r
    using that by (force simp: rows)
  moreover have "\<forall>r \<in> set (vs_rows st'). vr_status r \<in> insert OPEN (vr_status ` set (vs_rows st))"
    by (auto simp: rows)
  ultimately show ?thesis by auto
qed

subsection \<open>Persisting keeps the invariant\<close>

lemma group_by_unit_push:
  "map_of (fold (\<lambda>x. dict_push (f x) x) xs d) k =
     (if k \<in> f ` set xs \<or> map_of d k \<noteq> None then Some (dict_get_default [] d k @ filter (\<lambda>x. f x = k) xs) else None)"
proof (induction xs arbitrary: d)
  case (Cons x xs)
  then show ?case by (auto simp: dict_push_def dict_get_default_def)
qed (auto simp: dict_get_default_def)

lemma group_by_unit_get: "map_of (group_by_unit f xs) k = Some ys \<Longrightarrow> ys = filter (\<lambda>x. f x = k) xs"
  unfolding group_by_unit_def group_by_unit_push by (simp add: dict_get_default_def split: if_splits)

lemma group_by_unit_distinct: "distinct (dict_keys (group_by_unit f xs))"
proof -
  have "distinct (dict_keys d) \<Longrightarrow> distinct (dict_keys (fold (\<lambda>x. dict_push (f x) x) xs d))" for d
    by (induction xs arbitrary: d) (auto simp: dict_push_def)
  from this [of "[]"] show ?thesis by (simp add: group_by_unit_def)
qed

lemma upsert_units_ok:
  assumes "store_ok st" and "run_in_project run project st"
    and "\<forall>(tu, vs) \<in> set units. distinct (map dv_fingerprint vs)"
  shows "\<exists>st'. upsert_units run project now units st = Inr st' \<and> store_ok st' \<and> run_in_project run project st'"
  using assms
proof (induction units arbitrary: st)
  case (Cons u units)
  obtain tu vs where u: "u = (tu, vs)" by (cases u)
  have "distinct (map dv_fingerprint vs)" using Cons.prems(3) u by simp
  from upsert_spec [OF Cons.prems(1,2) this, of tu now] obtain st1 ids where
    st1: "upsert_violations run project tu now vs st = Inr (st1, ids)" "store_ok st1" "run_in_project run project st1"
    by blast
  show ?case using Cons.IH [OF st1(2,3)] Cons.prems(3) by (simp add: u st1(1))
qed simp

text \<open>
  Results in which no translation unit reports a fingerprint twice are stored without an
  error, and the store stays consistent.
\<close>

theorem persist_results_ok:
  assumes "store_ok st" and "run_in_project run project st"
    and "\<And>tu. distinct (map dv_fingerprint (filter (\<lambda>v. dv_translation_unit_id v = tu) (dr_violations results)))"
  shows "\<exists>st'. persist_results run project now results st = Inr st' \<and> store_ok st'"
proof -
  let ?units = "group_by_unit dv_translation_unit_id (dr_violations results)"
  have "distinct (map dv_fingerprint vs)" if "(tu, vs) \<in> set ?units" for tu vs
    using that assms(3) group_by_unit_get [of dv_translation_unit_id "dr_violations results" tu vs]
      map_of_in_set [OF group_by_unit_distinct] by metis
  then obtain st1 where st1: "upsert_units run project now ?units st = Inr st1" "store_ok st1"
    using upsert_units_ok [OF assms(1,2), of ?units now] by blast
  have keep: "store_ok (fold (\<lambda>(tu, ms). save_execution_metrics run tu ms) ms s) = store_ok s" for ms s
    by (induction ms arbitrary: s) (auto simp: save_execution_metrics_def store_ok_def)
  have "store_ok (save_run_statistics run stats s) = store_ok s" for stats s
    by (simp add: save_run_statistics_def store_ok_def)
  then show ?thesis using st1 keep by (simp add: persist_results_def)
qed

subsection \<open>An example\<close>

definition example_violation :: "string \<Rightarrow> int \<Rightarrow> dispatched_violation" where
  "example_violation fp line =
     \<lparr>dv_translation_unit_id = Some ''tu1'', dv_rule_id = ''goto'', dv_fingerprint = fp, dv_file_path = ''m.c'',
      dv_line_start = line, dv_line_end = line, dv_column_start = 1, dv_column_end = 5,
      dv_severity = ''major'', dv_confidence_score = dec2 90, dv_category = ''required'',
      dv_offending_expression = ''goto'', dv_explanation = ''goto used'', dv_risk_description = [],
      dv_source_snippet = [], dv_ast_node_reference = ''a'', dv_macro_expansion_chain = [],
      dv_suggested_fix = None, dv_confidence_factors = []\<rparr>"

text \<open>A store with two violations of an earlier run, the first one accepted by a reviewer.\<close>

definition reviewed_store :: violation_store where
  "reviewed_store = empty_store
     \<lparr>vs_rows := [(new_record ''run1'' ''p'' None 10 0 (example_violation ''f'' 3))\<lparr>vr_status := ACCEPTED\<rparr>,
                   new_record ''run1'' ''p'' None 10 1 (example_violation ''g'' 8)], vs_next_id := 2\<rparr>"

lemma reviewed_store_ok: "store_ok reviewed_store" "run_in_project ''run2'' ''p'' reviewed_store"
  by (auto simp: store_ok_def reviewed_store_def runs_apart_def run_in_project_def project_key_def
      example_violation_def new_record_def)

lemma example_fingerprints:
  "distinct (map dv_fingerprint [example_violation ''f'' 5, example_violation ''h'' 9])"
  by (simp add: example_violation_def)

theorem reanalysis_keeps_reviews_witness:
  "\<exists>st' ids. upsert_violations ''run2'' ''p'' None 20 [example_violation ''f'' 5, example_violation ''h'' 9] reviewed_store
      = Inr (st', ids) \<and> store_ok st' \<and> (\<exists>r \<in> set (vs_rows st'). vr_id r = 0 \<and> vr_status r = ACCEPTED)"
proof -
  from reanalysis_keeps_reviews [OF reviewed_store_ok example_fingerprints, of None 20] obtain st' ids where
    st': "upsert_violations ''run2'' ''p'' None 20 [example_violation ''f'' 5, example_violation ''h'' 9] reviewed_store
      = Inr (st', ids)" "store_ok st'"
    and kept: "\<forall>r \<in> set (vs_rows reviewed_store). \<exists>r' \<in> set (vs_rows st'). vr_id r' = vr_id r \<and> project_key r' = project_key r
         \<and> vr_status r' = vr_status r \<and> vr_assigned_reviewer_id r' = vr_assigned_reviewer_id r
         \<and> vr_first_seen_at r' = vr_first_seen_at r"
    by (elim exE conjE)
  have "(new_record ''run1'' ''p'' None 10 0 (example_violation ''f'' 3))\<lparr>vr_status := ACCEPTED\<rparr> \<in> set (vs_rows reviewed_store)"
    by (simp add: reviewed_store_def)
  then obtain r' where "r' \<in> set (vs_rows st')" "vr_id r' = 0" "vr_status r' = ACCEPTED"
    using bspec [OF kept] by fastforce
  then have "\<exists>r \<in> set (vs_rows st'). vr_id r = 0 \<and> vr_status r = ACCEPTED" by blast
  then show ?thesis using st' by blast
qed

theorem upsert_idempotent_witness:
  "\<exists>st' ids ids'. upsert_violations ''run2'' ''p'' None 20 [example_violation ''f'' 5, example_violation ''h'' 9] reviewed_store
      = Inr (st', ids)
    \<and> upsert_violations ''run2'' ''p'' None 20 [example_violation ''f'' 5, example_violation ''h'' 9] st' = Inr (st', ids')"
proof -
  obtain st' ids where "upsert_violations ''run2'' ''p'' None 20 [example_violation ''f'' 5, example_violation ''h'' 9] reviewed_store
      = Inr (st', ids)"
    using upsert_spec [OF reviewed_store_ok example_fingerprints] by blast
  with upsert_idempotent [OF reviewed_store_ok example_fingerprints this] show ?thesis by blast
qed

theorem duplicate_in_batch_fails_witness:
  "upsert_violations ''run2'' ''p'' None 20 [example_violation ''h'' 5, example_violation ''h'' 9] reviewed_store = Inl IntegrityError"
  by (rule duplicate_in_batch_fails [OF reviewed_store_ok(1), where xs = "[]" and ys = "[]" and zs = "[]"
      and p = "example_violation ''h'' 5" and q = "example_violation ''h'' 9"])
    (simp_all add: reviewed_store_def same_violation_def example_violation_def new_record_def)

theorem vanished_violation_unchanged_witness:
  "\<exists>st' ids. upsert_violations ''run2'' ''p'' None 20 [example_violation ''f'' 5, example_violation ''h'' 9] reviewed_store
      = Inr (st', ids) \<and> new_record ''run1'' ''p'' None 10 1 (example_violation ''g'' 8) \<in> set (vs_rows st')"
proof -
  obtain st' ids where st': "upsert_violations ''run2'' ''p'' None 20 [example_violation ''f'' 5, example_violation ''h'' 9] reviewed_store
      = Inr (st', ids)"
    using upsert_spec [OF reviewed_store_ok example_fingerprints] by blast
  have "new_record ''run1'' ''p'' None 10 1 (example_violation ''g'' 8) \<in> set (vs_rows reviewed_store)"
    "vr_fingerprint (new_record ''run1'' ''p'' None 10 1 (example_violation ''g'' 8))
       \<notin> dv_fingerprint ` set [example_violation ''f'' 5, example_violation ''h'' 9]"
    by (simp_all add: reviewed_store_def example_violation_def)
  with vanished_violation_unchanged [OF reviewed_store_ok example_fingerprints st'] st' show ?thesis by blast
qed

definition example_results :: dispatch_results where
  "example_results = \<lparr>dr_violations = [example_violation ''f'' 5, example_violation ''h'' 9], dr_metrics = [],
     dr_statistics = \<lparr>rs_rules_executed = 1, rs_violations_total = 2, rs_violations_deduplicated = 0,
       rs_execution_duration_ms = 1, rs_translation_units_analyzed = 1,
       rs_metrics_json = \<lparr>mj_per_rule = [], mj_rule_timing_summary = [],
         mj_confidence_distribution = confidence_distribution [dec2 90, dec2 90], mj_false_positive_candidates = 0\<rparr>\<rparr>\<rparr>"

theorem persist_results_ok_witness:
  "\<exists>st'. persist_results ''run2'' ''p'' 20 example_results reviewed_store = Inr st' \<and> store_ok st'"
  by (rule persist_results_ok [OF reviewed_store_ok]) (simp add: example_results_def example_violation_def)

end
