(* ===== verification/Patches.thy ===== *)
theory Patches
  imports Files
begin

text \<open>
  Read-only access to source files (\<open>services/source_file_service.py\<close>) and the generation of
  patches for export (\<open>services/patch_engine.py\<close>).  \<open>Path.resolve\<close>, which depends on the
  working directory and on symbolic links, is a parameter, and so is the matching algorithm of
  \<open>difflib\<close>; the format of a unified diff is written out.
\<close>

subsection \<open>Lines\<close>

text \<open>\<open>str.splitlines\<close>: a carriage return with a line feed is one break.\<close>

definition line_break :: "char \<Rightarrow> bool" where
  "line_break c \<longleftrightarrow> (of_char c :: nat) \<in> set [10, 11, 12, 13, 28, 29, 30, 133]"

fun split_from :: "string \<Rightarrow> string \<Rightarrow> string list" where
  "split_from acc [] = (if acc = [] then [] else [rev acc])"
| "split_from acc (c # s) =
     (if c = CHR 0x0D then
        (case s of
           [] \<Rightarrow> [rev acc]
         | d # t \<Rightarrow> if d = CHR 0x0A then rev acc # split_from [] t else rev acc # split_from [] s)
      else if line_break c then rev acc # split_from [] s
      else split_from (c # acc) s)"

definition splitlines :: "string \<Rightarrow> string list" where
  "splitlines s = split_from [] s"

text \<open>\<open>xs[i:j]\<close>: a negative bound counts from the end, bounds are clipped.\<close>

definition slice_bound :: "int \<Rightarrow> nat \<Rightarrow> nat" where
  "slice_bound i n = nat (if i < 0 then max 0 (i + int n) else min i (int n))"

definition py_slice :: "'a list \<Rightarrow> int \<Rightarrow> int \<Rightarrow> 'a list" where
  "py_slice xs i j = drop (slice_bound i (length xs)) (take (slice_bound j (length xs)) xs)"

subsection \<open>Source files\<close>

record source_env =
  se_resolve :: "string \<Rightarrow> py_error + path"
  se_files :: file_system

record source_window =
  sw_file_path :: string
  sw_start_line :: int
  sw_end_line :: int
  sw_lines :: "string list"
  sw_highlight_start :: int
  sw_highlight_end :: int
  sw_available :: bool

text \<open>\<open>root != target and root not in target.parents\<close>, for resolved paths.\<close>

definition inside :: "path \<Rightarrow> path \<Rightarrow> bool" where
  "inside base target \<longleftrightarrow> take (length base) target = base"

definition is_file :: "file_system \<Rightarrow> path \<Rightarrow> bool" where
  "is_file fs p = (case fs p of Some (File bytes) \<Rightarrow> True | _ \<Rightarrow> False)"

text \<open>Only an \<open>OSError\<close> is caught.\<close>

definition resolve_source :: "source_env \<Rightarrow> string \<Rightarrow> string \<Rightarrow> py_error + path option" where
  "resolve_source env project_root file_path =
     (case se_resolve env project_root of
        Inl e \<Rightarrow> if e = OSError then Inr None else Inl e
      | Inr base \<Rightarrow> (case se_resolve env file_path of
          Inl e \<Rightarrow> if e = OSError then Inr None else Inl e
        | Inr target \<Rightarrow>
            if \<not> inside base target then Inr None
            else if \<not> path_exists (se_files env) target \<or> \<not> is_file (se_files env) target then Inr None
            else Inr (Some target)))"

definition read_lines :: "source_env \<Rightarrow> string \<Rightarrow> string \<Rightarrow> py_error + string list option" where
  "read_lines env project_root file_path =
     (case resolve_source env project_root file_path of
        Inl e \<Rightarrow> Inl e
      | Inr None \<Rightarrow> Inr None
      | Inr (Some target) \<Rightarrow> (case read_file (se_files env) target of
          Inl e \<Rightarrow> if e = OSError then Inr None else Inl e
        | Inr text \<Rightarrow> Inr (Some (splitlines text))))"

definition read_window ::
    "source_env \<Rightarrow> string \<Rightarrow> string \<Rightarrow> int \<Rightarrow> int \<Rightarrow> int \<Rightarrow> py_error + source_window" where
  "read_window env project_root file_path l1 l2 around =
     (case read_lines env project_root file_path of
        Inl e \<Rightarrow> Inl e
      | Inr None \<Rightarrow> Inr
          \<lparr>sw_file_path = file_path, sw_start_line = max (l1 - around) 1, sw_end_line = l2 + around, sw_lines = [],
           sw_highlight_start = l1, sw_highlight_end = l2, sw_available = False\<rparr>
      | Inr (Some ls) \<Rightarrow>
          (let window_start = max (l1 - around) 1; window_end = min (l2 + around) (int (length ls)) in Inr
          \<lparr>sw_file_path = file_path, sw_start_line = window_start, sw_end_line = window_end,
           sw_lines = py_slice ls (window_start - 1) window_end,
           sw_highlight_start = l1, sw_highlight_end = l2, sw_available = True\<rparr>))"

definition read_line_range ::
    "source_env \<Rightarrow> string \<Rightarrow> string \<Rightarrow> int \<Rightarrow> int \<Rightarrow> py_error + string list option" where
  "read_line_range env project_root file_path l1 l2 =
     (case read_lines env project_root file_path of
        Inl e \<Rightarrow> Inl e
      | Inr None \<Rightarrow> Inr None
      | Inr (Some ls) \<Rightarrow>
          if l1 < 1 \<or> int (length ls) < l2 \<or> l2 < l1 then Inr None
          else Inr (Some (py_slice ls (l1 - 1) l2)))"

subsection \<open>Unified diffs\<close>

datatype op_tag = OpEqual | OpReplace | OpDelete | OpInsert

text \<open>An opcode \<open>(tag, i1, i2, j1, j2)\<close> turns \<open>a[i1:i2]\<close> into \<open>b[j1:j2]\<close>.\<close>

type_synonym opcode = "op_tag \<times> nat \<times> nat \<times> nat \<times> nat"

type_synonym line_matcher = "string list \<Rightarrow> string list \<Rightarrow> opcode list list"

definition sublist_of :: "'a list \<Rightarrow> nat \<Rightarrow> nat \<Rightarrow> 'a list" where
  "sublist_of xs i j = drop i (take j xs)"

definition format_range_unified :: "nat \<Rightarrow> nat \<Rightarrow> string" where
  "format_range_unified start stop =
     (let beginning = start + 1; len = stop - start in
      if len = 1 then nat_str beginning
      else nat_str (if len = 0 then beginning - 1 else beginning) @ '','' @ nat_str len)"

definition opcode_lines :: "string list \<Rightarrow> string list \<Rightarrow> opcode \<Rightarrow> string list" where
  "opcode_lines a b opc = (case opc of (tag, i1, i2, j1, j2) \<Rightarrow>
     if tag = OpEqual then map (\<lambda>l. '' '' @ l) (sublist_of a i1 i2)
     else (if tag \<in> {OpReplace, OpDelete} then map (\<lambda>l. ''-'' @ l) (sublist_of a i1 i2) else [])
        @ (if tag \<in> {OpReplace, OpInsert} then map (\<lambda>l. ''+'' @ l) (sublist_of b j1 j2) else []))"

definition group_lines :: "string list \<Rightarrow> string list \<Rightarrow> opcode list \<Rightarrow> string list" where
  "group_lines a b ops =
     (case (hd ops, last ops) of ((t, i1, i2, j1, j2), (t', i1', i2', j1', j2')) \<Rightarrow>
        (''@@ -'' @ format_range_unified i1 i2' @ '' +'' @ format_range_unified j1 j2' @ '' @@'')
        # concat (map (opcode_lines a b) ops))"

text \<open>
  \<open>difflib.unified_diff(a, b, fromfile, tofile, lineterm="", n=0)\<close>; \<open>grouped\<close> are the grouped
  opcodes of its sequence matcher, without context.
\<close>

definition difflib_unified_diff ::
    "line_matcher \<Rightarrow> string list \<Rightarrow> string list \<Rightarrow> string \<Rightarrow> string \<Rightarrow> string list" where
  "difflib_unified_diff grouped a b fromfile tofile =
     (case grouped a b of
        [] \<Rightarrow> []
      | groups \<Rightarrow> (''--- '' @ fromfile) # (''+++ '' @ tofile) # concat (map (group_lines a b) groups))"

subsection \<open>The patch engine\<close>

record generated_patch =
  gp_unified_diff :: string
  gp_git_patch :: string
  gp_source_available :: bool

text \<open>\<open>_relative_path\<close>: a \<open>ValueError\<close> or an \<open>OSError\<close> gives the path as it is.\<close>

definition relative_path :: "source_env \<Rightarrow> string \<Rightarrow> string \<Rightarrow> py_error + string" where
  "relative_path env project_root file_path =
     (let caught = (\<lambda>e. if e \<in> {ValueError, OSError} then Inr file_path else Inl e) in
      case se_resolve env file_path of
        Inl e \<Rightarrow> caught e
      | Inr target \<Rightarrow> (case se_resolve env project_root of
          Inl e \<Rightarrow> caught e
        | Inr base \<Rightarrow> (case relative_to target base of
            Inl e \<Rightarrow> caught e
          | Inr rel \<Rightarrow> Inr (path_str rel))))"

definition unified_diff :: "line_matcher \<Rightarrow> string \<Rightarrow> string list \<Rightarrow> string list \<Rightarrow> int \<Rightarrow> string" where
  "unified_diff grouped rel original_lines new_lines start_line =
     join_str nl (difflib_unified_diff grouped (map (\<lambda>l. l @ nl) original_lines) (map (\<lambda>l. l @ nl) new_lines)
       (''a/'' @ rel) (''b/'' @ rel))"

definition to_git_patch :: "string \<Rightarrow> string \<Rightarrow> string" where
  "to_git_patch rel unified =
     (let header = ''diff --git a/'' @ rel @ '' b/'' @ rel @ nl @ ''index 0000000..0000000 100644'' @ nl;
          body_lines = filter (\<lambda>l. \<not> starts_with l ''---'' \<and> \<not> starts_with l ''+++'') (splitlines unified)
      in header @ ''--- a/'' @ rel @ nl @ ''+++ b/'' @ rel @ nl @ join_str nl body_lines @ nl)"

definition generate_patch ::
    "source_env \<Rightarrow> line_matcher \<Rightarrow> string \<Rightarrow> string \<Rightarrow> int \<Rightarrow> int \<Rightarrow> string \<Rightarrow> string \<Rightarrow> py_error + generated_patch" where
  "generate_patch env grouped project_root file_path l1 l2 fix_text offending =
     (case read_line_range env project_root file_path l1 l2 of
        Inl e \<Rightarrow> Inl e
      | Inr original_lines \<Rightarrow> (case relative_path env project_root file_path of
          Inl e \<Rightarrow> Inl e
        | Inr rel \<Rightarrow>
            (let fix_lines = (if splitlines fix_text = [] then [fix_text] else splitlines fix_text);
                 unified = (case original_lines of
                    Some ls \<Rightarrow> unified_diff grouped rel ls fix_lines l1
                  | None \<Rightarrow> unified_diff grouped rel [offending] fix_lines l1)
             in Inr \<lparr>gp_unified_diff = unified, gp_git_patch = to_git_patch rel unified,
                     gp_source_available = (original_lines \<noteq> None)\<rparr>)))"

subsection \<open>Splitting lines\<close>

definition no_break :: "string \<Rightarrow> bool" where
  "no_break s \<longleftrightarrow> (\<forall>c \<in> set s. \<not> line_break c)"

lemma break_chars [simp]: "line_break (CHR 0x0A)" "line_break (CHR 0x0D)"
  by (simp_all add: line_break_def)

lemma no_break_simps [simp]:
  "no_break []" "no_break (c # s) \<longleftrightarrow> \<not> line_break c \<and> no_break s" "no_break (s @ t) \<longleftrightarrow> no_break s \<and> no_break t"
  by (auto simp: no_break_def)

lemma split_from_line: "no_break l \<Longrightarrow> split_from acc (l @ CHR 0x0A # s) = (rev acc @ l) # split_from [] s"
proof (induction l arbitrary: acc)
  case (Cons c l)
  then have "c \<noteq> CHR 0x0D" by auto
  then show ?case using Cons by simp
qed simp

lemma splitlines_line: "no_break l \<Longrightarrow> splitlines (l @ CHR 0x0A # s) = l # splitlines s"
  by (simp add: splitlines_def split_from_line)

lemma splitlines_last: "no_break l \<Longrightarrow> splitlines (l @ nl) = [l]"
  using splitlines_line [of l "[]"] by (simp add: splitlines_def [of "[]"])

lemma split_from_one: "no_break l \<Longrightarrow> split_from acc l = (if rev acc @ l = [] then [] else [rev acc @ l])"
proof (induction l arbitrary: acc)
  case (Cons c l)
  then have "c \<noteq> CHR 0x0D" by auto
  then show ?case using Cons by simp
qed simp

lemma splitlines_one: "no_break l \<Longrightarrow> l \<noteq> [] \<Longrightarrow> splitlines l = [l]"
  by (simp add: splitlines_def split_from_one)

text \<open>Joining the lines of a list with line feeds and splitting gives the list back.\<close>

lemma splitlines_join: "list_all no_break ls \<Longrightarrow> splitlines (join_str nl ls @ nl) = (if ls = [] then [''''] else ls)"
  by (induction nl ls rule: join_str.induct) (simp_all add: splitlines_last splitlines_line splitlines_last [of "[]", simplified] splitlines_def [of "[]"])

text \<open>No line of a text holds a line break.\<close>

lemma split_from_no_break: "no_break acc \<Longrightarrow> l \<in> set (split_from acc s) \<Longrightarrow> no_break l"
proof (induction acc s rule: split_from.induct)
  case (1 acc)
  then show ?case by (auto simp: no_break_def split: if_splits)
next
  case (2 acc c s)
  have acc: "no_break (rev acc)" using "2.prems"(1) by (simp add: no_break_def)
  consider (cr_end) "c = CHR 0x0D" "s = []" | (crlf) t where "c = CHR 0x0D" "s = CHR 0x0A # t"
    | (cr) "c = CHR 0x0D" "s \<noteq> []" "hd s \<noteq> CHR 0x0A" | (brk) "c \<noteq> CHR 0x0D" "line_break c"
    | (other) "c \<noteq> CHR 0x0D" "\<not> line_break c"
    by (cases s) auto
  then show ?case
  proof cases
    case cr_end
    then show ?thesis using "2.prems"(2) acc by simp
  next
    case crlf
    then show ?thesis using "2.prems"(2) "2.IH"(1) acc by auto
  next
    case cr
    then show ?thesis using "2.prems"(2) "2.IH"(2) acc by (auto simp: neq_Nil_conv)
  next
    case brk
    then show ?thesis using "2.prems"(2) "2.IH"(3) acc by auto
  next
    case other
    then show ?thesis using "2.prems" "2.IH"(4) by auto
  qed
qed

lemma splitlines_no_break: "l \<in> set (splitlines s) \<Longrightarrow> no_break l"
  unfolding splitlines_def by (rule split_from_no_break [of "[]"]) simp_all

subsection \<open>What is read\<close>

text \<open>
  C36: Source text is only read inside the project: whenever lines are returned, the resolved
  file lies under the resolved project root and the lines are those of that file.
\<close>

theorem reads_inside_project:
  assumes "read_lines env project_root file_path = Inr (Some ls)"
  shows "\<exists>base target bytes. se_resolve env project_root = Inr base \<and> se_resolve env file_path = Inr target
    \<and> (\<exists>rest. target = base @ rest) \<and> se_files env target = Some (File bytes) \<and> ls = splitlines bytes"
proof -
  obtain target where target: "resolve_source env project_root file_path = Inr (Some target)"
    using assms by (auto simp: read_lines_def split: sum.splits option.splits)
  then obtain base where base: "se_resolve env project_root = Inr base" "se_resolve env file_path = Inr target"
      "inside base target" "is_file (se_files env) target"
    by (auto simp: resolve_source_def split: sum.splits if_splits)
  then obtain bytes where "se_files env target = Some (File bytes)"
    by (auto simp: is_file_def split: option.splits fs_entry.splits)
  moreover from this have "ls = splitlines bytes"
    using assms target by (simp add: read_lines_def read_file_def)
  moreover have "target = base @ drop (length base) target"
    using base(3) by (metis append_take_drop_id inside_def)
  ultimately show ?thesis using base by blast
qed

lemma py_slice_nonneg: "0 \<le> i \<Longrightarrow> 0 \<le> j \<Longrightarrow> py_slice xs i j = drop (nat i) (take (nat j) xs)"
  by (auto simp: py_slice_def slice_bound_def min_def nat_le_iff)

lemma slice_window:
  assumes "1 \<le> s" "s \<le> e" "e \<le> int (length ls)"
  shows "int (length (py_slice ls (s - 1) e)) = e - s + 1"
    and "k < length (py_slice ls (s - 1) e) \<Longrightarrow> py_slice ls (s - 1) e ! k = ls ! (nat s - 1 + k)"
proof -
  have lines: "py_slice ls (s - 1) e = drop (nat (s - 1)) (take (nat e) ls)"
    by (rule py_slice_nonneg) (use assms in auto)
  show "int (length (py_slice ls (s - 1) e)) = e - s + 1" unfolding lines using assms by simp
  show "k < length (py_slice ls (s - 1) e) \<Longrightarrow> py_slice ls (s - 1) e ! k = ls ! (nat s - 1 + k)"
    unfolding lines using assms by (simp add: nat_diff_distrib)
qed

text \<open>
  For a highlighted range within the file, the window shows the lines from its start to its
  end, at most \<open>context\<close> lines more on either side, and contains the range.
\<close>

theorem window_exact:
  assumes "read_lines env project_root file_path = Inr (Some ls)"
    and "1 \<le> l1" "l1 \<le> l2" "l2 \<le> int (length ls)" "0 \<le> around"
  shows "\<exists>w. read_window env project_root file_path l1 l2 around = Inr w \<and> sw_available w
    \<and> 1 \<le> sw_start_line w \<and> sw_start_line w \<le> l1 \<and> l1 - around \<le> sw_start_line w
    \<and> l2 \<le> sw_end_line w \<and> sw_end_line w \<le> l2 + around \<and> sw_end_line w \<le> int (length ls)
    \<and> int (length (sw_lines w)) = sw_end_line w - sw_start_line w + 1
    \<and> (\<forall>k < length (sw_lines w). sw_lines w ! k = ls ! (nat (sw_start_line w) - 1 + k))"
proof -
  let ?s = "max (l1 - around) 1" and ?e = "min (l2 + around) (int (length ls))"
  have bounds: "1 \<le> ?s" "?s \<le> l1" "l1 - around \<le> ?s" "l2 \<le> ?e" "?e \<le> l2 + around" "?e \<le> int (length ls)" "?s \<le> ?e"
    using assms(2-5) by auto
  note window = slice_window [OF bounds(1,7,6)]
  show ?thesis
    using assms(1) bounds window by (simp add: read_window_def Let_def)
qed

lemma read_line_range_one:
  assumes "read_lines env project_root file_path = Inr (Some ls)" and "1 \<le> n" "n \<le> int (length ls)"
  shows "read_line_range env project_root file_path n n = Inr (Some [ls ! (nat n - 1)])"
proof -
  have "py_slice ls (n - 1) n = drop (nat (n - 1)) (take (nat n) ls)"
    by (rule py_slice_nonneg) (use assms in auto)
  also have "nat n = Suc (nat (n - 1))" using assms(2) by simp
  finally have "py_slice ls (n - 1) n = [ls ! nat (n - 1)]"
    using assms(2,3) by (simp add: take_Suc_conv_app_nth)
  then show ?thesis using assms by (simp add: read_line_range_def nat_diff_distrib)
qed

subsection \<open>A patch of one line\<close>

text \<open>The sequence matcher on two different single lines.\<close>

definition replaces_one :: "line_matcher \<Rightarrow> bool" where
  "replaces_one grouped \<longleftrightarrow> (\<forall>x y. x \<noteq> y \<longrightarrow> grouped [x] [y] = [[(OpReplace, 0, 1, 0, 1)]])"

lemma unified_diff_one:
  assumes "replaces_one grouped" and "x \<noteq> y"
  shows "unified_diff grouped rel [x] [y] start =
    join_str nl [''--- a/'' @ rel, ''+++ b/'' @ rel, ''@@ -1 +1 @@'', ''-'' @ x, [], ''+'' @ y] @ nl"
proof -
  have "grouped [x @ nl] [y @ nl] = [[(OpReplace, 0, 1, 0, 1)]]"
    using assms by (simp add: replaces_one_def)
  moreover have "nat_str 1 = ''1''" by code_simp
  ultimately show ?thesis
    by (simp add: unified_diff_def difflib_unified_diff_def group_lines_def opcode_lines_def sublist_of_def
        format_range_unified_def)
qed

lemma join_str_Cons: "ls \<noteq> [] \<Longrightarrow> join_str sep (l # ls) = l @ sep @ join_str sep ls"
  by (cases ls) simp_all

lemma starts_with_Cons: "starts_with (c # s) (d # p) \<longleftrightarrow> c = d \<and> starts_with s p"
  by (auto simp: starts_with_def)

lemma starts_with_Nil [simp]: "starts_with s []" "starts_with [] (c # p) = False"
  by (auto simp: starts_with_def)

text \<open>
  C37: The exact patch for replacing line \<open>n\<close> of a readable file, \<open>x\<close>, by one line \<open>y\<close>.  Its hunk
  says line 1 whatever \<open>n\<close> is, it holds an empty line between the removed and the added one, and
  in the git patch the removed line is missing when it starts with two minus signs, the added
  one when it starts with two plus signs.
\<close>

theorem one_line_patch:
  assumes "replaces_one grouped" and "read_lines env project_root file_path = Inr (Some ls)"
    and "relative_path env project_root file_path = Inr rel" and "no_break rel"
    and "1 \<le> n" "n \<le> int (length ls)" and "x = ls ! (nat n - 1)" and "x \<noteq> y" and "no_break y" and "y \<noteq> []"
  shows "generate_patch env grouped project_root file_path n n y offending = Inr
    \<lparr>gp_unified_diff = join_str nl [''--- a/'' @ rel, ''+++ b/'' @ rel, ''@@ -1 +1 @@'', ''-'' @ x, [], ''+'' @ y] @ nl,
     gp_git_patch = join_str nl ([''diff --git a/'' @ rel @ '' b/'' @ rel, ''index 0000000..0000000 100644'',
         ''--- a/'' @ rel, ''+++ b/'' @ rel, ''@@ -1 +1 @@'']
       @ (if starts_with x ''--'' then [] else [''-'' @ x]) @ [[]] @ (if starts_with y ''++'' then [] else [''+'' @ y])) @ nl,
     gp_source_available = True\<rparr>"
proof -
  let ?u = "[''--- a/'' @ rel, ''+++ b/'' @ rel, ''@@ -1 +1 @@'', ''-'' @ x, [], ''+'' @ y]"
  obtain target bytes where "ls = splitlines bytes"
    using assms(2) by (auto simp: read_lines_def split: sum.splits option.splits if_splits)
  moreover have "x \<in> set ls" using assms(5-7) by auto
  ultimately have "no_break x" using splitlines_no_break by blast
  moreover have "\<not> line_break (CHR ''-'')" "\<not> line_break (CHR ''+'')" "\<not> line_break (CHR '' '')" "\<not> line_break (CHR ''a'')"
    "\<not> line_break (CHR ''b'')" "\<not> line_break (CHR ''/'')" "\<not> line_break (CHR ''@'')" "\<not> line_break (CHR ''1'')"
    by (simp_all add: line_break_def)
  ultimately have "list_all no_break ?u" using assms(4,9) by simp
  from splitlines_join [OF this] have split: "splitlines (join_str nl ?u @ nl) = ?u"
    by (simp only: list.distinct if_False)
  have "read_line_range env project_root file_path n n = Inr (Some [x])"
    using read_line_range_one [OF assms(2,5,6)] by (simp add: assms(7))
  then have "generate_patch env grouped project_root file_path n n y offending = Inr
    \<lparr>gp_unified_diff = join_str nl ?u @ nl, gp_git_patch = to_git_patch rel (join_str nl ?u @ nl), gp_source_available = True\<rparr>"
    using assms(3,9,10) unified_diff_one [OF assms(1,8)] by (simp add: generate_patch_def splitlines_one Let_def)
  moreover have "filter (\<lambda>l. \<not> starts_with l ''---'' \<and> \<not> starts_with l ''+++'') ?u =
      ''@@ -1 +1 @@'' # (if starts_with x ''--'' then [] else [''-'' @ x]) @ [[]] @ (if starts_with y ''++'' then [] else [''+'' @ y])"
    by (simp add: starts_with_Cons)
  ultimately show ?thesis
    by (simp only: to_git_patch_def split Let_def) (simp add: join_str_Cons)
qed

text \<open>A file of two lines, the second of which is to be replaced by an increment.\<close>

definition example_sources :: source_env where
  "example_sources = \<lparr>se_resolve = (\<lambda>s. if s = ''/p'' then Inr [''/'', ''p''] else Inr [''/'', ''p'', ''m.c'']),
     se_files = (\<lambda>p. if p = [''/'', ''p'', ''m.c''] then Some (File (''int i;'' @ nl @ ''i = i + 1;'' @ nl)) else None)\<rparr>"

definition one_line_matcher :: line_matcher where
  "one_line_matcher a b = (if a = b then [] else [[(OpReplace, 0, 1, 0, 1)]])"

lemma example_lines: "read_lines example_sources ''/p'' ''/p/m.c'' = Inr (Some [''int i;'', ''i = i + 1;''])"
  by code_simp

theorem reads_inside_project_witness:
  "\<exists>base target bytes. se_resolve example_sources ''/p'' = Inr base \<and> se_resolve example_sources ''/p/m.c'' = Inr target
    \<and> (\<exists>rest. target = base @ rest) \<and> se_files example_sources target = Some (File bytes)
    \<and> [''int i;'', ''i = i + 1;''] = splitlines bytes"
  by (rule reads_inside_project [OF example_lines])

theorem window_exact_witness:
  "\<exists>w. read_window example_sources ''/p'' ''/p/m.c'' 2 2 25 = Inr w \<and> sw_available w
    \<and> 1 \<le> sw_start_line w \<and> sw_start_line w \<le> 2 \<and> 2 \<le> sw_end_line w"
  using window_exact [OF example_lines, of 2 2 25] by fastforce

theorem one_line_patch_witness:
  "\<exists>patch. generate_patch example_sources one_line_matcher ''/p'' ''/p/m.c'' 2 2 ''++i;'' ''i = i + 1'' = Inr patch
    \<and> gp_git_patch patch = join_str nl [''diff --git a/m.c b/m.c'', ''index 0000000..0000000 100644'',
         ''--- a/m.c'', ''+++ b/m.c'', ''@@ -1 +1 @@'', ''-i = i + 1;'', []] @ nl"
proof -
  have "replaces_one one_line_matcher" by (simp add: replaces_one_def one_line_matcher_def)
  moreover have "relative_path example_sources ''/p'' ''/p/m.c'' = Inr ''m.c''" by code_simp
  moreover have "no_break ''m.c''" "no_break ''++i;''" by (simp_all add: line_break_def)
  ultimately show ?thesis
    using one_line_patch [of one_line_matcher example_sources "''/p''" "''/p/m.c''" "[''int i;'', ''i = i + 1;'']" "''m.c''" 2
        "''i = i + 1;''" "''++i;''" "''i = i + 1''"] example_lines
    by (simp add: starts_with_Cons)
qed

end
