(* ===== verification/Rounding.thy ===== *)
theory Rounding
  imports Rule_Base
begin

text \<open>
  Python's \<open>round\<close> and fixed-point formatting on exact rationals, shared by the review, conformance
  and compliance components.
\<close>

text \<open>\<open>round\<close> rounds a half to the even neighbour.\<close>

definition round_half_even :: "rat \<Rightarrow> int" where
  "round_half_even x = (let f = \<lfloor>x\<rfloor>; d = x - of_int f in
     if d < 1 / 2 then f else if 1 / 2 < d then f + 1 else if even f then f else f + 1)"

definition round_digits :: "nat \<Rightarrow> rat \<Rightarrow> rat" where
  "round_digits n x = of_int (round_half_even (x * 10 ^ n)) / 10 ^ n"

text \<open>\<open>f"{x:.2f}"\<close> of a number that is not negative.\<close>

definition fixed_two :: "rat \<Rightarrow> string" where
  "fixed_two x = (let h = round_half_even (x * 100); frac = int_str (h mod 100) in
     int_str (h div 100) @ ''.'' @ (if h mod 100 < 10 then ''0'' @ frac else frac))"

lemma round_half_even_bounds:
  "of_int a \<le> x \<Longrightarrow> a \<le> round_half_even x" "x \<le> of_int b \<Longrightarrow> round_half_even x \<le> b"
proof -
  show "a \<le> round_half_even x" if "of_int a \<le> x"
  proof -
    have "a \<le> \<lfloor>x\<rfloor>" using that by (simp add: le_floor_iff)
    then show ?thesis by (auto simp: round_half_even_def Let_def)
  qed
  show "round_half_even x \<le> b" if "x \<le> of_int b"
  proof (cases "x = of_int b")
    case True
    then show ?thesis by (simp add: round_half_even_def)
  next
    case False
    then have "\<lfloor>x\<rfloor> < b" using that by (simp add: floor_less_iff)
    then show ?thesis by (auto simp: round_half_even_def Let_def)
  qed
qed

lemma round_digits_bounds:
  "of_int a / 100 \<le> x \<Longrightarrow> of_int a / 100 \<le> round_digits 2 x" "x \<le> of_int b / 100 \<Longrightarrow> round_digits 2 x \<le> of_int b / 100"
  using round_half_even_bounds(1) [of a "x * 100"] round_half_even_bounds(2) [of "x * 100" b]
  by (simp_all add: round_digits_def divide_le_eq le_divide_eq)

end
