(* ===== verification/Review.thy ===== *)
theory Review
  imports Violation_Store Patches Rounding
begin

text \<open>
  The human review of violations: actions and statuses (\<open>domain/enums/review_action.py\<close>), the
  append-only tables (\<open>domain/models/review.py\<close>), \<open>ReviewRepository\<close>
  (\<open>repositories/review_repo.py\<close>), \<open>ReviewService\<close> (\<open>services/review_service.py\<close>) and
  \<open>BulkReviewService\<close> (\<open>services/bulk_review_service.py\<close>).  An exception rolls the session back, so
  an operation gives an error or the new tables.  Rows are numbered in the order of creation,
  which is also the order of their \<open>created_at\<close>.
\<close>

subsection \<open>Actions\<close>

datatype review_action = ACCEPT | REJECT | EDIT | SKIP | MARK_FALSE_POSITIVE | SUPPRESS

fun review_action_str :: "review_action \<Rightarrow> string" where
  "review_action_str ACCEPT = ''accept''"
| "review_action_str REJECT = ''reject''"
| "review_action_str EDIT = ''edit''"
| "review_action_str SKIP = ''skip''"
| "review_action_str MARK_FALSE_POSITIVE = ''false_positive''"
| "review_action_str SUPPRESS = ''suppress''"

fun action_to_status :: "review_action \<Rightarrow> violation_status" where
  "action_to_status ACCEPT = ACCEPTED"
| "action_to_status REJECT = REJECTED"
| "action_to_status EDIT = EDITED"
| "action_to_status SKIP = SKIPPED"
| "action_to_status MARK_FALSE_POSITIVE = FALSE_POSITIVE"
| "action_to_status SUPPRESS = SUPPRESSED"

definition actions_requiring_justification :: "review_action set" where
  "actions_requiring_justification = {ACCEPT, SUPPRESS, MARK_FALSE_POSITIVE}"

definition actions_generating_patches :: "review_action set" where
  "actions_generating_patches = {ACCEPT, EDIT}"

definition min_justification_length :: nat where
  "min_justification_length = 20"

subsection \<open>Tables\<close>

record violation_review =
  rw_id :: nat
  rw_violation_id :: nat
  rw_action :: review_action
  rw_previous_status :: violation_status
  rw_new_status :: violation_status
  rw_reviewer_id :: string
  rw_reviewer_name :: "string option"
  rw_justification :: "string option"
  rw_notes :: "string option"
  rw_edited_fix :: "props option"

record audit_entry =
  au_id :: nat
  au_entity_type :: string
  au_entity_id :: string
  au_action :: string
  au_actor_id :: string
  au_actor_name :: "string option"
  au_old_state :: "props option"
  au_new_state :: "props option"
  au_justification :: "string option"
  au_notes :: "string option"

datatype patch_status = GENERATED | EXPORTED

record patch_record =
  pa_id :: nat
  pa_violation_id :: nat
  pa_review_id :: nat
  pa_file_path :: string
  pa_unified_diff :: string
  pa_git_patch :: string
  pa_source_available :: bool
  pa_confidence_score :: rat
  pa_status :: patch_status
  pa_created_by :: string
  pa_exported_at :: "int option"
  pa_exported_by :: "string option"

record review_db =
  db_projects :: "(string, string) dict"
  db_violations :: "violation_record list"
  db_reviews :: "violation_review list"
  db_audit :: "audit_entry list"
  db_patches :: "patch_record list"
  db_next :: nat

definition get_violation :: "nat \<Rightarrow> review_db \<Rightarrow> violation_record option" where
  "get_violation i db = find (\<lambda>v. vr_id v = i) (db_violations db)"

definition get_project_root :: "string \<Rightarrow> review_db \<Rightarrow> string" where
  "get_project_root project db = dict_get_default [] (db_projects db) project"

text \<open>Inserting a row takes the next number.\<close>

definition add_review :: "violation_review \<Rightarrow> review_db \<Rightarrow> review_db" where
  "add_review r db = db\<lparr>db_reviews := db_reviews db @ [r\<lparr>rw_id := db_next db\<rparr>], db_next := db_next db + 1\<rparr>"

definition add_audit_entry :: "audit_entry \<Rightarrow> review_db \<Rightarrow> review_db" where
  "add_audit_entry e db = db\<lparr>db_audit := db_audit db @ [e\<lparr>au_id := db_next db\<rparr>], db_next := db_next db + 1\<rparr>"

definition add_patch :: "patch_record \<Rightarrow> review_db \<Rightarrow> review_db" where
  "add_patch p db = db\<lparr>db_patches := db_patches db @ [p\<lparr>pa_id := db_next db\<rparr>], db_next := db_next db + 1\<rparr>"

definition update_violation :: "nat \<Rightarrow> (violation_record \<Rightarrow> violation_record) \<Rightarrow> review_db \<Rightarrow> review_db" where
  "update_violation i f db = db\<lparr>db_violations := map (\<lambda>v. if vr_id v = i then f v else v) (db_violations db)\<rparr>"

definition mark_patch_exported :: "nat \<Rightarrow> string \<Rightarrow> int \<Rightarrow> review_db \<Rightarrow> review_db" where
  "mark_patch_exported i exported_by now db = db\<lparr>db_patches :=
     map (\<lambda>p. if pa_id p = i then p\<lparr>pa_status := EXPORTED, pa_exported_at := Some now, pa_exported_by := Some exported_by\<rparr>
              else p) (db_patches db)\<rparr>"

definition list_reviews :: "nat \<Rightarrow> review_db \<Rightarrow> violation_review list" where
  "list_reviews i db = filter (\<lambda>r. rw_violation_id r = i) (db_reviews db)"

definition list_patches :: "nat \<Rightarrow> review_db \<Rightarrow> patch_record list" where
  "list_patches i db = rev (filter (\<lambda>p. pa_violation_id p = i) (db_patches db))"

definition get_patch :: "nat \<Rightarrow> review_db \<Rightarrow> patch_record option" where
  "get_patch i db = find (\<lambda>p. pa_id p = i) (db_patches db)"

text \<open>Ordered by violation, the newest first within a violation.\<close>

definition list_patches_by_ids :: "nat list \<Rightarrow> review_db \<Rightarrow> patch_record list" where
  "list_patches_by_ids ids db = sort_key pa_violation_id
     (rev (filter (\<lambda>p. pa_violation_id p \<in> set ids) (db_patches db)))"

subsection \<open>Submitting a review\<close>

datatype review_error = ReviewValidationError string | PatchRaised py_error

record review_outcome =
  ro_review :: violation_review
  ro_audit_entry :: audit_entry
  ro_patch :: "patch_record option"

definition validate_justification :: "review_action \<Rightarrow> string option \<Rightarrow> review_error option" where
  "validate_justification action justification =
     (if action \<notin> actions_requiring_justification then None
      else case justification of
        Some j \<Rightarrow>
          if j = [] \<or> length (strip j) < min_justification_length then
            Some (ReviewValidationError (''Action '' @ sq @ review_action_str action @ sq
              @ '' requires a justification of at least '' @ nat_str min_justification_length @ '' characters.''))
          else None
      | None \<Rightarrow>
          Some (ReviewValidationError (''Action '' @ sq @ review_action_str action @ sq
            @ '' requires a justification of at least '' @ nat_str min_justification_length @ '' characters.'')))"

definition resolve_fix_text ::
    "review_action \<Rightarrow> violation_record \<Rightarrow> props option \<Rightarrow> review_error + string option" where
  "resolve_fix_text action v edited_fix =
     (if action = EDIT then
        (case edited_fix of
           None \<Rightarrow> Inl (ReviewValidationError (''Edit action requires '' @ sq @ ''edited_fix.suggested_code'' @ sq @ ''.''))
         | Some fix \<Rightarrow>
             if fix = [] \<or> \<not> prop_flag fix ''suggested_code'' then
               Inl (ReviewValidationError (''Edit action requires '' @ sq @ ''edited_fix.suggested_code'' @ sq @ ''.''))
             else Inr (Some (py_str (prop_get fix ''suggested_code''))))
      else if action = ACCEPT then Inr (map_option sf_suggested_code (vr_suggested_fix v))
      else Inr None)"

text \<open>The request: what the engineer enters.\<close>

record review_request =
  rq_action :: review_action
  rq_reviewer_id :: string
  rq_reviewer_name :: "string option"
  rq_justification :: "string option"
  rq_notes :: "string option"
  rq_edited_fix :: "props option"

definition status_state :: "violation_status \<Rightarrow> props" where
  "status_state s = [(''status'', PStr (violation_status_str s))]"

definition review_audit :: "review_request \<Rightarrow> violation_record \<Rightarrow> nat \<Rightarrow> audit_entry" where
  "review_audit rq v review_id =
     \<lparr>au_id = 0, au_entity_type = ''violation'', au_entity_id = nat_str (vr_id v),
      au_action = ''review.'' @ review_action_str (rq_action rq),
      au_actor_id = rq_reviewer_id rq, au_actor_name = rq_reviewer_name rq,
      au_old_state = Some (status_state (vr_status v)),
      au_new_state = Some (status_state (action_to_status (rq_action rq)) @ [(''review_id'', PStr (nat_str review_id))]),
      au_justification = rq_justification rq, au_notes = rq_notes rq\<rparr>"

definition patch_audit :: "review_request \<Rightarrow> violation_record \<Rightarrow> nat \<Rightarrow> nat \<Rightarrow> audit_entry" where
  "patch_audit rq v review_id patch_id =
     \<lparr>au_id = 0, au_entity_type = ''patch'', au_entity_id = nat_str patch_id, au_action = ''patch.generated'',
      au_actor_id = rq_reviewer_id rq, au_actor_name = rq_reviewer_name rq, au_old_state = None,
      au_new_state = Some [(''violation_id'', PStr (nat_str (vr_id v))), (''review_id'', PStr (nat_str review_id))],
      au_justification = None,
      au_notes = Some ''Patch generated for export. No automatic apply operation exists.''\<rparr>"

definition new_review :: "review_request \<Rightarrow> violation_record \<Rightarrow> violation_review" where
  "new_review rq v =
     \<lparr>rw_id = 0, rw_violation_id = vr_id v, rw_action = rq_action rq, rw_previous_status = vr_status v,
      rw_new_status = action_to_status (rq_action rq), rw_reviewer_id = rq_reviewer_id rq,
      rw_reviewer_name = rq_reviewer_name rq, rw_justification = rq_justification rq, rw_notes = rq_notes rq,
      rw_edited_fix = (if rq_action rq = EDIT then rq_edited_fix rq else None)\<rparr>"

definition new_patch :: "review_request \<Rightarrow> violation_record \<Rightarrow> nat \<Rightarrow> generated_patch \<Rightarrow> patch_record" where
  "new_patch rq v review_id g =
     \<lparr>pa_id = 0, pa_violation_id = vr_id v, pa_review_id = review_id, pa_file_path = vr_file_path v,
      pa_unified_diff = gp_unified_diff g, pa_git_patch = gp_git_patch g,
      pa_source_available = gp_source_available g, pa_confidence_score = vr_confidence_score v,
      pa_status = GENERATED, pa_created_by = rq_reviewer_id rq, pa_exported_at = None, pa_exported_by = None\<rparr>"

text \<open>The review row, the new status and the audit entry of a valid request.\<close>

definition record_review :: "review_request \<Rightarrow> violation_record \<Rightarrow> review_db \<Rightarrow> review_db" where
  "record_review rq v db =
     add_audit_entry (review_audit rq v (db_next db))
       (update_violation (vr_id v) (\<lambda>x. x\<lparr>vr_status := action_to_status (rq_action rq)\<rparr>)
         (add_review (new_review rq v) db))"

definition submit_review ::
    "source_env \<Rightarrow> line_matcher \<Rightarrow> violation_record \<Rightarrow> string \<Rightarrow> review_request \<Rightarrow> review_db \<Rightarrow>
     review_error + review_outcome \<times> review_db" where
  "submit_review env grouped v project_root rq db =
     (case validate_justification (rq_action rq) (rq_justification rq) of
        Some e \<Rightarrow> Inl e
      | None \<Rightarrow> (case resolve_fix_text (rq_action rq) v (rq_edited_fix rq) of
          Inl e \<Rightarrow> Inl e
        | Inr fix_text \<Rightarrow>
            (let review_id = db_next db; db1 = record_review rq v db;
                 review = (new_review rq v)\<lparr>rw_id := review_id\<rparr>;
                 audit = (review_audit rq v review_id)\<lparr>au_id := review_id + 1\<rparr>;
                 outcome = \<lparr>ro_review = review, ro_audit_entry = audit, ro_patch = None\<rparr>
             in case fix_text of
               None \<Rightarrow> Inr (outcome, db1)
             | Some code \<Rightarrow>
                 if rq_action rq \<notin> actions_generating_patches \<or> code = [] then Inr (outcome, db1)
                 else (case generate_patch env grouped project_root (vr_file_path v) (vr_line_start v) (vr_line_end v)
                              code (vr_offending_expression v) of
                   Inl e \<Rightarrow> Inl (PatchRaised e)
                 | Inr g \<Rightarrow>
                     (let p = new_patch rq v review_id g; patch_id = db_next db1
                      in Inr (outcome\<lparr>ro_patch := Some (p\<lparr>pa_id := patch_id\<rparr>)\<rparr>,
                              add_audit_entry (patch_audit rq v review_id patch_id) (add_patch p db1)))))))"

subsection \<open>Assigning reviewers\<close>

definition opt_str :: "string option \<Rightarrow> pyval" where
  "opt_str x = (case x of None \<Rightarrow> PNone | Some s \<Rightarrow> PStr s)"

definition reviewer_state :: "string option \<Rightarrow> string option \<Rightarrow> props" where
  "reviewer_state i n = [(''assigned_reviewer_id'', opt_str i), (''assigned_reviewer_name'', opt_str n)]"

definition assign_audit :: "violation_record \<Rightarrow> string \<Rightarrow> string option \<Rightarrow> string \<Rightarrow> audit_entry" where
  "assign_audit v reviewer_id reviewer_name assigned_by =
     \<lparr>au_id = 0, au_entity_type = ''violation'', au_entity_id = nat_str (vr_id v), au_action = ''assign_reviewer'',
      au_actor_id = assigned_by, au_actor_name = None,
      au_old_state = Some (reviewer_state (vr_assigned_reviewer_id v) (vr_assigned_reviewer_name v)),
      au_new_state = Some (reviewer_state (Some reviewer_id) reviewer_name),
      au_justification = None, au_notes = None\<rparr>"

definition assign_reviewer ::
    "violation_record \<Rightarrow> string \<Rightarrow> string option \<Rightarrow> string \<Rightarrow> review_db \<Rightarrow> review_db" where
  "assign_reviewer v reviewer_id reviewer_name assigned_by db =
     add_audit_entry (assign_audit v reviewer_id reviewer_name assigned_by)
       (update_violation (vr_id v)
         (\<lambda>x. x\<lparr>vr_assigned_reviewer_id := Some reviewer_id, vr_assigned_reviewer_name := reviewer_name\<rparr>) db)"

subsection \<open>Bulk operations\<close>

text \<open>\<open>uid\<close> is the identifier \<open>uuid.uuid4()\<close> makes for the operation.\<close>

definition id_list :: "nat list \<Rightarrow> pyval" where
  "id_list ids = PList (map (PStr \<circ> nat_str) ids)"

definition bulk_audit ::
    "string \<Rightarrow> string \<Rightarrow> string \<Rightarrow> string option \<Rightarrow> props \<Rightarrow> string option \<Rightarrow> audit_entry" where
  "bulk_audit entity_id action actor_id actor_name new_state notes =
     \<lparr>au_id = 0, au_entity_type = ''bulk_operation'', au_entity_id = entity_id, au_action = action,
      au_actor_id = actor_id, au_actor_name = actor_name, au_old_state = None, au_new_state = Some new_state,
      au_justification = None, au_notes = notes\<rparr>"

record bulk_skip_result =
  bs_outcomes :: "review_outcome list"
  bs_skipped :: "nat list"
  bs_not_found :: "nat list"

definition skip_request :: "string \<Rightarrow> string option \<Rightarrow> string option \<Rightarrow> review_request" where
  "skip_request reviewer_id reviewer_name notes =
     \<lparr>rq_action = SKIP, rq_reviewer_id = reviewer_id, rq_reviewer_name = reviewer_name,
      rq_justification = None, rq_notes = notes, rq_edited_fix = None\<rparr>"

fun bulk_skip_loop ::
    "source_env \<Rightarrow> line_matcher \<Rightarrow> review_request \<Rightarrow> nat list \<Rightarrow> bulk_skip_result \<Rightarrow> review_db \<Rightarrow>
     review_error + bulk_skip_result \<times> review_db" where
  "bulk_skip_loop env grouped rq [] res db = Inr (res, db)"
| "bulk_skip_loop env grouped rq (i # ids) res db = (case get_violation i db of
     None \<Rightarrow> bulk_skip_loop env grouped rq ids (res\<lparr>bs_not_found := bs_not_found res @ [i]\<rparr>) db
   | Some v \<Rightarrow> (case submit_review env grouped v (get_project_root (vr_project_id v) db) rq db of
       Inl e \<Rightarrow> Inl e
     | Inr (outcome, db') \<Rightarrow> bulk_skip_loop env grouped rq ids
         (res\<lparr>bs_outcomes := bs_outcomes res @ [outcome], bs_skipped := bs_skipped res @ [i]\<rparr>) db'))"

definition bulk_skip ::
    "source_env \<Rightarrow> line_matcher \<Rightarrow> string \<Rightarrow> nat list \<Rightarrow> string \<Rightarrow> string option \<Rightarrow> string option \<Rightarrow> review_db \<Rightarrow>
     review_error + bulk_skip_result \<times> review_db" where
  "bulk_skip env grouped uid ids reviewer_id reviewer_name notes db =
     (case bulk_skip_loop env grouped (skip_request reviewer_id reviewer_name notes) ids
             \<lparr>bs_outcomes = [], bs_skipped = [], bs_not_found = []\<rparr> db of
        Inl e \<Rightarrow> Inl e
      | Inr (res, db') \<Rightarrow> Inr (res, add_audit_entry
          (bulk_audit (''bulk-skip-'' @ uid) ''bulk_skip'' reviewer_id reviewer_name
             [(''violation_ids'', id_list (bs_skipped res))] notes) db'))"

record bulk_assign_result =
  ba_assigned :: "nat list"
  ba_not_found :: "nat list"

fun bulk_assign_loop ::
    "string \<Rightarrow> string option \<Rightarrow> string \<Rightarrow> nat list \<Rightarrow> bulk_assign_result \<Rightarrow> review_db \<Rightarrow> bulk_assign_result \<times> review_db" where
  "bulk_assign_loop reviewer_id reviewer_name assigned_by [] res db = (res, db)"
| "bulk_assign_loop reviewer_id reviewer_name assigned_by (i # ids) res db = (case get_violation i db of
     None \<Rightarrow> bulk_assign_loop reviewer_id reviewer_name assigned_by ids (res\<lparr>ba_not_found := ba_not_found res @ [i]\<rparr>) db
   | Some v \<Rightarrow> bulk_assign_loop reviewer_id reviewer_name assigned_by ids (res\<lparr>ba_assigned := ba_assigned res @ [i]\<rparr>)
       (assign_reviewer v reviewer_id reviewer_name assigned_by db))"

definition bulk_assign_reviewer ::
    "string \<Rightarrow> nat list \<Rightarrow> string \<Rightarrow> string option \<Rightarrow> string \<Rightarrow> review_db \<Rightarrow> bulk_assign_result \<times> review_db" where
  "bulk_assign_reviewer uid ids reviewer_id reviewer_name assigned_by db =
     (case bulk_assign_loop reviewer_id reviewer_name assigned_by ids \<lparr>ba_assigned = [], ba_not_found = []\<rparr> db of
        (res, db') \<Rightarrow> (res, add_audit_entry
          (bulk_audit (''bulk-assign-'' @ uid) ''bulk_assign_reviewer'' assigned_by None
             [(''violation_ids'', id_list (ba_assigned res)), (''reviewer_id'', PStr reviewer_id),
              (''reviewer_name'', opt_str reviewer_name)] None) db'))"

record bulk_export_result =
  be_combined_patch :: string
  be_exported :: "nat list"
  be_skipped :: "nat list"

definition approved :: "nat \<Rightarrow> review_db \<Rightarrow> bool" where
  "approved i db = (case get_violation i db of
     None \<Rightarrow> False | Some v \<Rightarrow> vr_status v \<in> {ACCEPTED, EDITED})"

text \<open>The first patch listed for each violation, that is its newest one.\<close>

definition latest_patches :: "patch_record list \<Rightarrow> (nat, patch_record) dict" where
  "latest_patches ps = fold (\<lambda>p. dict_setdefault (pa_violation_id p) p) ps []"

fun export_loop ::
    "string \<Rightarrow> int \<Rightarrow> (nat, patch_record) dict \<Rightarrow> nat list \<Rightarrow> bulk_export_result \<Rightarrow> string list \<Rightarrow> review_db \<Rightarrow>
     bulk_export_result \<times> string list \<times> review_db" where
  "export_loop exported_by now latest [] res bodies db = (res, bodies, db)"
| "export_loop exported_by now latest (i # ids) res bodies db = (case dict_get latest i of
     None \<Rightarrow> export_loop exported_by now latest ids (res\<lparr>be_skipped := be_skipped res @ [i]\<rparr>) bodies db
   | Some p \<Rightarrow> export_loop exported_by now latest ids (res\<lparr>be_exported := be_exported res @ [pa_id p]\<rparr>)
       (bodies @ [pa_git_patch p]) (mark_patch_exported (pa_id p) exported_by now db))"

definition bulk_export_approved_patches ::
    "string \<Rightarrow> int \<Rightarrow> nat list \<Rightarrow> string \<Rightarrow> review_db \<Rightarrow> bulk_export_result \<times> review_db" where
  "bulk_export_approved_patches uid now ids exported_by db =
     (let eligible = filter (\<lambda>i. approved i db) ids;
          skipped = filter (\<lambda>i. \<not> approved i db) ids;
          latest = latest_patches (list_patches_by_ids eligible db)
      in case export_loop exported_by now latest eligible
               \<lparr>be_combined_patch = [], be_exported = [], be_skipped = skipped\<rparr> [] db of
        (res, bodies, db') \<Rightarrow> (res\<lparr>be_combined_patch := join_str nl bodies\<rparr>,
          add_audit_entry (bulk_audit (''bulk-export-'' @ uid) ''bulk_export_patches'' exported_by None
            [(''patch_ids'', id_list (be_exported res))] (Some ''Export only. No patches were applied automatically.'')) db'))"

text \<open>The handler of a single export (\<open>export_patch\<close> of \<open>api/v1/reviews.py\<close>): None is 404.\<close>

definition export_patch :: "nat \<Rightarrow> nat \<Rightarrow> string \<Rightarrow> bool \<Rightarrow> int \<Rightarrow> review_db \<Rightarrow> (string \<times> review_db) option" where
  "export_patch violation_id patch_id exported_by git now db = (case get_patch patch_id db of
     None \<Rightarrow> None
   | Some p \<Rightarrow>
       if pa_violation_id p \<noteq> violation_id then None
       else Some (if git then pa_git_patch p else pa_unified_diff p, mark_patch_exported patch_id exported_by now db))"

subsection \<open>The impact estimate\<close>

text \<open>\<open>str.title\<close> on the letters of the ASCII alphabet.\<close>

definition upper_char :: "char \<Rightarrow> char" where
  "upper_char c = (let n = of_char c :: nat in if 97 \<le> n \<and> n \<le> 122 then char_of (n - 32) else c)"

definition is_letter :: "char \<Rightarrow> bool" where
  "is_letter c = (let n = of_char (lower_char c) :: nat in 97 \<le> n \<and> n \<le> 122)"

fun title_from :: "bool \<Rightarrow> string \<Rightarrow> string" where
  "title_from inside_word [] = []"
| "title_from inside_word (c # s) =
     (if inside_word then lower_char c else upper_char c) # title_from (is_letter c) s"

definition severity_weight :: "string \<Rightarrow> rat" where
  "severity_weight s = dict_get_default (dec2 50)
     [(''critical'', 1), (''major'', dec2 75), (''minor'', dec2 40), (''info'', dec2 15)] s"

definition category_weight :: "string \<Rightarrow> rat" where
  "category_weight c = dict_get_default (dec2 50)
     [(''mandatory'', 1), (''required'', dec2 70), (''advisory'', dec2 40)] c"

record impact_estimate =
  ie_level :: string
  ie_score :: rat
  ie_summary :: string

definition impact_score :: "violation_record \<Rightarrow> rat" where
  "impact_score v = round_digits 2 (severity_weight (vr_severity v) * dec2 60
     + category_weight (vr_category v) * dec2 25 + vr_confidence_score v * dec2 15)"

definition impact_level :: "rat \<Rightarrow> string" where
  "impact_level score = (if dec2 75 \<le> score then ''high'' else if dec2 45 \<le> score then ''medium'' else ''low'')"

definition estimate_impact :: "violation_record \<Rightarrow> impact_estimate" where
  "estimate_impact v =
     \<lparr>ie_level = impact_level (impact_score v), ie_score = impact_score v,
      ie_summary = title_from False (vr_severity v) @ '' severity, '' @ vr_category v @ '' rule, ''
        @ int_str (round_half_even (vr_confidence_score v * 100)) @ ''% detection confidence.''\<rparr>"

subsection \<open>Handlers and steps\<close>

text \<open>The handler of a submitted review (\<open>submit_review\<close> of \<open>api/v1/reviews.py\<close>).\<close>

datatype http_error = NotFound string | Unprocessable string | ServerError py_error

definition post_review ::
    "source_env \<Rightarrow> line_matcher \<Rightarrow> nat \<Rightarrow> review_request \<Rightarrow> review_db \<Rightarrow> http_error + review_outcome \<times> review_db" where
  "post_review env grouped violation_id rq db = (case get_violation violation_id db of
     None \<Rightarrow> Inl (NotFound ''Violation not found'')
   | Some v \<Rightarrow> (case map_of (db_projects db) (vr_project_id v) of
       None \<Rightarrow> Inl (NotFound ''Project not found'')
     | Some base \<Rightarrow> (case submit_review env grouped v base rq db of
         Inl (ReviewValidationError m) \<Rightarrow> Inl (Unprocessable m)
       | Inl (PatchRaised e) \<Rightarrow> Inl (ServerError e)
       | Inr r \<Rightarrow> Inr r)))"

text \<open>One committed request of any kind.\<close>

inductive review_step :: "source_env \<Rightarrow> line_matcher \<Rightarrow> review_db \<Rightarrow> review_db \<Rightarrow> bool" for env grouped where
  reviewed: "post_review env grouped i rq db = Inr (outcome, db') \<Longrightarrow> review_step env grouped db db'"
| skipped: "bulk_skip env grouped uid ids reviewer_id reviewer_name notes db = Inr (res, db') \<Longrightarrow> review_step env grouped db db'"
| assigned: "bulk_assign_reviewer uid ids reviewer_id reviewer_name assigned_by db = (res', db') \<Longrightarrow> review_step env grouped db db'"
| exported: "bulk_export_approved_patches uid now ids exported_by db = (res'', db') \<Longrightarrow> review_step env grouped db db'"
| exported_one: "export_patch i pid exported_by git now db = Some (body, db') \<Longrightarrow> review_step env grouped db db'"

text \<open>What every request is made of.\<close>

inductive primitive_step :: "review_db \<Rightarrow> review_db \<Rightarrow> bool" where
  p_review: "get_violation i db = Some v \<Longrightarrow> validate_justification (rq_action rq) (rq_justification rq) = None \<Longrightarrow>
     primitive_step db (record_review rq v db)"
| p_assign: "get_violation i db = Some v \<Longrightarrow> primitive_step db (assign_reviewer v reviewer_id reviewer_name assigned_by db)"
| p_audit: "au_entity_type e \<noteq> ''violation'' \<Longrightarrow> primitive_step db (add_audit_entry e db)"
| p_patch: "primitive_step db (add_patch p db)"
| p_export: "primitive_step db (mark_patch_exported i exported_by now db)"

lemma submit_primitive:
  assumes "get_violation i db = Some v" and "submit_review env grouped v base rq db = Inr (outcome, db')"
  shows "primitive_step\<^sup>*\<^sup>* db db'"
proof -
  let ?db1 = "record_review rq v db"
  have "validate_justification (rq_action rq) (rq_justification rq) = None"
    using assms(2) by (auto simp: submit_review_def split: option.splits)
  then have rec: "primitive_step\<^sup>*\<^sup>* db ?db1" using p_review [OF assms(1)] by blast
  have "primitive_step\<^sup>*\<^sup>* ?db1 (add_audit_entry (patch_audit rq v rid pid) (add_patch p ?db1))" for rid pid p
  proof -
    have "primitive_step (add_patch p ?db1) (add_audit_entry (patch_audit rq v rid pid) (add_patch p ?db1))"
      by (rule p_audit) (simp add: patch_audit_def)
    with p_patch [of ?db1 p] show ?thesis by (meson converse_rtranclp_into_rtranclp r_into_rtranclp)
  qed
  then have patched: "primitive_step\<^sup>*\<^sup>* db (add_audit_entry (patch_audit rq v rid pid) (add_patch p ?db1))" for rid pid p
    using rec by (meson rtranclp_trans)
  have "db' = ?db1 \<or> (\<exists>rid pid p. db' = add_audit_entry (patch_audit rq v rid pid) (add_patch p ?db1))"
    using assms(2) by (auto simp: submit_review_def Let_def split: option.splits sum.splits if_splits)
  then show ?thesis using rec patched by blast
qed

lemma skip_loop_primitive:
  "bulk_skip_loop env grouped rq ids res db = Inr (res', db') \<Longrightarrow> primitive_step\<^sup>*\<^sup>* db db'"
proof (induction ids arbitrary: res db)
  case (Cons i ids)
  show ?case
  proof (cases "get_violation i db")
    case None
    then show ?thesis using Cons by auto
  next
    case (Some v)
    then obtain outcome db1 where sub: "submit_review env grouped v (get_project_root (vr_project_id v) db) rq db = Inr (outcome, db1)"
      using Cons.prems by (auto split: sum.splits)
    from submit_primitive [OF Some sub] Cons.IH Cons.prems Some sub show ?thesis by (auto intro: rtranclp_trans)
  qed
qed simp

lemma assign_loop_primitive:
  "bulk_assign_loop reviewer_id reviewer_name assigned_by ids res db = (res', db') \<Longrightarrow> primitive_step\<^sup>*\<^sup>* db db'"
proof (induction ids arbitrary: res db)
  case (Cons i ids)
  show ?case
  proof (cases "get_violation i db")
    case None
    then show ?thesis using Cons by auto
  next
    case (Some v)
    have "primitive_step\<^sup>*\<^sup>* (assign_reviewer v reviewer_id reviewer_name assigned_by db) db'"
      using Cons Some by auto
    with p_assign [OF Some] show ?thesis by (meson converse_rtranclp_into_rtranclp)
  qed
qed simp

lemma export_loop_primitive:
  "export_loop exported_by now latest ids res bodies db = (res', bodies', db') \<Longrightarrow> primitive_step\<^sup>*\<^sup>* db db'"
proof (induction ids arbitrary: res bodies db)
  case (Cons i ids)
  show ?case
  proof (cases "dict_get latest i")
    case None
    then show ?thesis using Cons by auto
  next
    case (Some p)
    have "primitive_step\<^sup>*\<^sup>* (mark_patch_exported (pa_id p) exported_by now db) db'" using Cons Some by auto
    with p_export show ?thesis by (meson converse_rtranclp_into_rtranclp)
  qed
qed simp

lemma bulk_audit_step: "primitive_step\<^sup>*\<^sup>* db db' \<Longrightarrow>
    primitive_step\<^sup>*\<^sup>* db (add_audit_entry (bulk_audit uid action actor name st notes) db')"
  by (rule rtranclp.rtrancl_into_rtrancl, assumption, rule p_audit) (simp add: bulk_audit_def)

text \<open>Every request is a sequence of primitive steps.\<close>

lemma review_step_primitive:
  assumes "review_step env grouped db db'"
  shows "primitive_step\<^sup>*\<^sup>* db db'"
  using assms
proof cases
  case (reviewed i rq outcome)
  then obtain v base where "get_violation i db = Some v" "submit_review env grouped v base rq db = Inr (outcome, db')"
    by (auto simp: post_review_def split: option.splits sum.splits review_error.splits)
  then show ?thesis by (rule submit_primitive)
next
  case skipped
  then show ?thesis using bulk_audit_step skip_loop_primitive
    by (fastforce simp: bulk_skip_def split: sum.splits prod.splits)
next
  case assigned
  then show ?thesis using bulk_audit_step assign_loop_primitive
    by (fastforce simp: bulk_assign_reviewer_def split: prod.splits)
next
  case exported
  then show ?thesis using bulk_audit_step export_loop_primitive
    by (fastforce simp: bulk_export_approved_patches_def Let_def split: prod.splits)
next
  case exported_one
  then show ?thesis using p_export by (auto simp: export_patch_def split: option.splits if_splits)
qed

lemma review_steps_primitive: "(review_step env grouped)\<^sup>*\<^sup>* db db' \<Longrightarrow> primitive_step\<^sup>*\<^sup>* db db'"
  by (induction rule: rtranclp_induct) (auto dest: review_step_primitive intro: rtranclp_trans)

subsection \<open>Journals\<close>

text \<open>
  A system keeps a journal when every step only appends entries to a log, and replaying them
  on a view of the old state gives the view of the new one.
\<close>

locale journal =
  fixes step :: "'s \<Rightarrow> 's \<Rightarrow> bool"
    and log :: "'s \<Rightarrow> 'e list"
    and view :: "'s \<Rightarrow> 'v"
    and replay :: "'e \<Rightarrow> 'v \<Rightarrow> 'v"
  assumes step_journal: "step s t \<Longrightarrow> \<exists>new. log t = log s @ new \<and> view t = fold replay new (view s)"
begin

lemma steps_journal: "step\<^sup>*\<^sup>* s t \<Longrightarrow> \<exists>new. log t = log s @ new \<and> view t = fold replay new (view s)"
proof (induction rule: rtranclp_induct)
  case base
  show ?case by (intro exI [of _ "[]"]) simp
next
  case (step t u)
  from step.IH obtain new where "log t = log s @ new" "view t = fold replay new (view s)" by blast
  moreover from step_journal [OF step.hyps(2)] obtain new' where
    "log u = log t @ new'" "view u = fold replay new' (view t)" by blast
  ultimately show ?case by (intro exI [of _ "new @ new'"]) simp
qed

end

text \<open>
  The review rows record the statuses.
\<close>

definition status_view :: "review_db \<Rightarrow> (nat \<times> violation_status) list" where
  "status_view db = map (\<lambda>v. (vr_id v, vr_status v)) (db_violations db)"

definition replay_review :: "violation_review \<Rightarrow> (nat \<times> violation_status) list \<Rightarrow> (nat \<times> violation_status) list" where
  "replay_review r = map (\<lambda>(i, s). if i = rw_violation_id r then (i, rw_new_status r) else (i, s))"

lemma review_journal:
  assumes "primitive_step db db'"
  shows "\<exists>new. db_reviews db' = db_reviews db @ new \<and> status_view db' = fold replay_review new (status_view db)"
  using assms
proof cases
  case (p_review i v rq)
  let ?r = "(new_review rq v)\<lparr>rw_id := db_next db\<rparr>"
  have "db_reviews db' = db_reviews db @ [?r]"
    by (simp add: p_review(1) record_review_def add_audit_entry_def update_violation_def add_review_def)
  moreover have "status_view db' = replay_review ?r (status_view db)"
    by (auto simp: p_review(1) record_review_def add_audit_entry_def update_violation_def add_review_def status_view_def
        replay_review_def new_review_def)
  ultimately show ?thesis by (intro exI [of _ "[?r]"]) simp
next
  case p_assign
  then show ?thesis
    by (intro exI [of _ "[]"]) (auto simp: assign_reviewer_def add_audit_entry_def update_violation_def status_view_def)
next
  case p_audit
  then show ?thesis by (intro exI [of _ "[]"]) (simp add: add_audit_entry_def status_view_def)
next
  case p_patch
  then show ?thesis by (intro exI [of _ "[]"]) (simp add: add_patch_def status_view_def)
next
  case p_export
  then show ?thesis by (intro exI [of _ "[]"]) (simp add: mark_patch_exported_def status_view_def)
qed

interpretation reviews: journal primitive_step db_reviews status_view replay_review
  by unfold_locales (rule review_journal)

text \<open>
  The audit entries record the statuses and the assigned reviewers; an entry names a
  violation by the text of its number.
\<close>

definition audit_view :: "review_db \<Rightarrow> (string \<times> string \<times> string option \<times> string option) list" where
  "audit_view db = map (\<lambda>v. (nat_str (vr_id v), violation_status_str (vr_status v),
     vr_assigned_reviewer_id v, vr_assigned_reviewer_name v)) (db_violations db)"

definition state_field :: "props \<Rightarrow> string \<Rightarrow> string option \<Rightarrow> string option" where
  "state_field st k old = (case map_of st k of None \<Rightarrow> old | Some (PStr s) \<Rightarrow> Some s | Some _ \<Rightarrow> None)"

definition replay_audit ::
    "audit_entry \<Rightarrow> (string \<times> string \<times> string option \<times> string option) list \<Rightarrow>
     (string \<times> string \<times> string option \<times> string option) list" where
  "replay_audit e = map (\<lambda>(i, s, r, n).
     if au_entity_type e = ''violation'' \<and> au_entity_id e = i then
       (case au_new_state e of
          None \<Rightarrow> (i, s, r, n)
        | Some st \<Rightarrow> (i, the (state_field st ''status'' (Some s)), state_field st ''assigned_reviewer_id'' r,
            state_field st ''assigned_reviewer_name'' n))
     else (i, s, r, n))"

lemma replay_other [simp]: "au_entity_type e \<noteq> ''violation'' \<Longrightarrow> replay_audit e vs = vs"
  by (simp add: replay_audit_def case_prod_unfold)

lemma audit_journal:
  assumes "primitive_step db db'"
  shows "\<exists>new. db_audit db' = db_audit db @ new \<and> audit_view db' = fold replay_audit new (audit_view db)"
  using assms
proof cases
  case (p_review i v rq)
  let ?e = "(review_audit rq v (db_next db))\<lparr>au_id := db_next db + 1\<rparr>"
  have "db_audit db' = db_audit db @ [?e]"
    by (simp add: p_review(1) record_review_def add_audit_entry_def update_violation_def add_review_def)
  moreover have "audit_view db' = replay_audit ?e (audit_view db)"
    by (auto simp: p_review(1) record_review_def add_audit_entry_def update_violation_def add_review_def audit_view_def
        replay_audit_def review_audit_def status_state_def state_field_def)
  ultimately show ?thesis by (intro exI [of _ "[?e]"]) simp
next
  case (p_assign i v reviewer_id reviewer_name assigned_by)
  let ?e = "(assign_audit v reviewer_id reviewer_name assigned_by)\<lparr>au_id := db_next db\<rparr>"
  have "db_audit db' = db_audit db @ [?e]"
    by (simp add: p_assign(1) assign_reviewer_def add_audit_entry_def update_violation_def)
  moreover have "audit_view db' = replay_audit ?e (audit_view db)"
    by (auto simp: p_assign(1) assign_reviewer_def add_audit_entry_def update_violation_def audit_view_def
        replay_audit_def assign_audit_def reviewer_state_def state_field_def opt_str_def split: option.splits)
  ultimately show ?thesis by (intro exI [of _ "[?e]"]) simp
next
  case (p_audit e)
  then show ?thesis by (intro exI [of _ "[e\<lparr>au_id := db_next db\<rparr>]"]) (simp add: add_audit_entry_def audit_view_def)
next
  case p_patch
  then show ?thesis by (intro exI [of _ "[]"]) (simp add: add_patch_def audit_view_def)
next
  case p_export
  then show ?thesis by (intro exI [of _ "[]"]) (simp add: mark_patch_exported_def audit_view_def)
qed

interpretation audit: journal primitive_step db_audit audit_view replay_audit
  by unfold_locales (rule audit_journal)


subsection \<open>Validation\<close>

definition justified :: "string option \<Rightarrow> bool" where
  "justified justification \<longleftrightarrow> (\<exists>j. justification = Some j \<and> min_justification_length \<le> length (strip j))"

lemma strip_length: "length (strip s) \<le> length s"
  unfolding strip_def Let_def length_rev
  by (rule le_trans [OF length_dropWhile_le]) (simp add: length_dropWhile_le)

lemma validate_None: "validate_justification action justification = None
    \<longleftrightarrow> action \<notin> actions_requiring_justification \<or> justified justification"
proof -
  have "j \<noteq> []" if "min_justification_length \<le> length (strip j)" for j
    using that strip_length [of j] by (auto simp: min_justification_length_def)
  then show ?thesis by (auto simp: validate_justification_def justified_def split: option.splits)
qed

lemma primitive_justified:
  "primitive_step\<^sup>*\<^sup>* db db' \<Longrightarrow> r \<in> set (db_reviews db') \<Longrightarrow>
     r \<in> set (db_reviews db) \<or> rw_action r \<notin> actions_requiring_justification \<or> justified (rw_justification r)"
proof (induction arbitrary: r rule: rtranclp_induct)
  case base
  then show ?case by simp
next
  case (step t u)
  show ?case
    using step.hyps(2)
  proof cases
    case (p_review i v rq)
    then have "db_reviews u = db_reviews t @ [(new_review rq v)\<lparr>rw_id := db_next t\<rparr>]"
      by (simp add: record_review_def add_audit_entry_def update_violation_def add_review_def)
    moreover have "rw_action (new_review rq v) \<notin> actions_requiring_justification \<or> justified (rw_justification (new_review rq v))"
      using p_review(3) by (simp add: validate_None new_review_def)
    ultimately show ?thesis using step.IH [of r] step.prems by auto
  qed (use step in \<open>auto simp: assign_reviewer_def add_audit_entry_def update_violation_def add_patch_def mark_patch_exported_def\<close>)
qed

text \<open>
  C27: Every request to accept, to suppress or to mark a false positive that was carried out has
  its reason on record: whatever requests are served, each new review row of these actions
  holds a justification of at least 20 characters besides surrounding white space.
\<close>

theorem decisions_are_justified:
  assumes "(review_step env grouped)\<^sup>*\<^sup>* db db'" and "r \<in> set (db_reviews db')" and "r \<notin> set (db_reviews db)"
    and "rw_action r \<in> {ACCEPT, SUPPRESS, MARK_FALSE_POSITIVE}"
  shows "\<exists>j. rw_justification r = Some j \<and> 20 \<le> length (strip j)"
  using primitive_justified [OF review_steps_primitive [OF assms(1)] assms(2)] assms(3,4)
  by (auto simp: actions_requiring_justification_def justified_def min_justification_length_def)

definition invalid_request :: "review_request \<Rightarrow> bool" where
  "invalid_request rq \<longleftrightarrow>
     rq_action rq \<in> {ACCEPT, SUPPRESS, MARK_FALSE_POSITIVE}
       \<and> \<not> (\<exists>j. rq_justification rq = Some j \<and> 20 \<le> length (strip j))
     \<or> rq_action rq = EDIT \<and> \<not> (\<exists>edited. rq_edited_fix rq = Some edited \<and> prop_flag edited ''suggested_code'')"

text \<open>
  A submitted review is rejected exactly when it needs a justification and has none of 20
  characters, or is an edit without code; any other request of an existing violation of an
  existing project whose patch can be generated is carried out.
\<close>

theorem review_validation_exact:
  assumes "get_violation i db = Some v" and "map_of (db_projects db) (vr_project_id v) = Some base"
    and "\<And>code. \<exists>g. generate_patch env grouped base (vr_file_path v) (vr_line_start v) (vr_line_end v) code
        (vr_offending_expression v) = Inr g"
  shows "if invalid_request rq then \<exists>m. post_review env grouped i rq db = Inl (Unprocessable m)
    else \<exists>outcome db'. post_review env grouped i rq db = Inr (outcome, db')"
proof -
  let ?submit = "submit_review env grouped v base rq db"
  have post: "post_review env grouped i rq db = (case ?submit of
         Inl (ReviewValidationError m) \<Rightarrow> Inl (Unprocessable m) | Inl (PatchRaised e) \<Rightarrow> Inl (ServerError e) | Inr r \<Rightarrow> Inr r)"
    using assms(1,2) by (simp add: post_review_def)
  have justification: "validate_justification (rq_action rq) (rq_justification rq) = None
      \<longleftrightarrow> rq_action rq \<notin> {ACCEPT, SUPPRESS, MARK_FALSE_POSITIVE}
        \<or> (\<exists>j. rq_justification rq = Some j \<and> 20 \<le> length (strip j))"
    by (simp add: validate_None actions_requiring_justification_def justified_def min_justification_length_def)
  have "prop_flag [] k = False" for k by (simp add: prop_flag_absent)
  then have code: "(\<exists>m. resolve_fix_text (rq_action rq) v (rq_edited_fix rq) = Inl (ReviewValidationError m))
      \<longleftrightarrow> rq_action rq = EDIT \<and> \<not> (\<exists>fix. rq_edited_fix rq = Some fix \<and> prop_flag fix ''suggested_code'')"
    "\<not> (\<exists>m. resolve_fix_text (rq_action rq) v (rq_edited_fix rq) = Inl (ReviewValidationError m)) \<Longrightarrow>
       \<exists>text. resolve_fix_text (rq_action rq) v (rq_edited_fix rq) = Inr text"
    by (auto simp: resolve_fix_text_def split: option.splits)
  show ?thesis
  proof (cases "validate_justification (rq_action rq) (rq_justification rq)")
    case (Some e)
    then obtain m where "e = ReviewValidationError m"
      by (auto simp: validate_justification_def split: if_splits option.splits)
    then have "\<exists>m. post_review env grouped i rq db = Inl (Unprocessable m)"
      using Some by (simp add: post submit_review_def)
    moreover have "invalid_request rq" using Some justification by (auto simp: invalid_request_def)
    ultimately show ?thesis by simp
  next
    case None
    show ?thesis
    proof (cases "\<exists>m. resolve_fix_text (rq_action rq) v (rq_edited_fix rq) = Inl (ReviewValidationError m)")
      case True
      then have "\<exists>m. post_review env grouped i rq db = Inl (Unprocessable m)"
        using None by (auto simp: post submit_review_def)
      moreover have "invalid_request rq" using True code(1) by (auto simp: invalid_request_def)
      ultimately show ?thesis by simp
    next
      case False
      then obtain ft where ft: "resolve_fix_text (rq_action rq) v (rq_edited_fix rq) = Inr ft" using code(2) by blast
      have "\<exists>r. ?submit = Inr r"
      proof (cases ft)
        case None
        then show ?thesis
          using \<open>validate_justification (rq_action rq) (rq_justification rq) = None\<close> ft
          by (simp add: submit_review_def Let_def)
      next
        case (Some c)
        obtain g where "generate_patch env grouped base (vr_file_path v) (vr_line_start v) (vr_line_end v) c
            (vr_offending_expression v) = Inr g"
          using assms(3) by blast
        with Some None ft show ?thesis by (auto simp: submit_review_def Let_def)
      qed
      then have "\<exists>outcome db'. post_review env grouped i rq db = Inr (outcome, db')" by (auto simp: post)
      moreover have "\<not> invalid_request rq" using None justification False code(1) by (auto simp: invalid_request_def)
      ultimately show ?thesis by simp
    qed
  qed
qed

subsection \<open>Bulk operations decide nothing\<close>

text \<open>Each violation keeps its status or is skipped.\<close>

definition only_skips :: "review_db \<Rightarrow> review_db \<Rightarrow> bool" where
  "only_skips db db' \<longleftrightarrow> list_all2 (\<lambda>v v'. vr_id v' = vr_id v \<and> vr_status v' \<in> {vr_status v, SKIPPED})
     (db_violations db) (db_violations db')"

lemma only_skips_refl: "db_violations db' = db_violations db \<Longrightarrow> only_skips db db'"
  by (simp add: only_skips_def list_all2_refl)

lemma only_skips_trans: "only_skips db db' \<Longrightarrow> only_skips db' db'' \<Longrightarrow> only_skips db db''"
  unfolding only_skips_def list_all2_conv_all_nth by force

lemma only_skips_update:
  "(\<And>v. vr_id (f v) = vr_id v \<and> vr_status (f v) \<in> {vr_status v, SKIPPED}) \<Longrightarrow> only_skips db (update_violation i f db)"
  by (simp add: only_skips_def update_violation_def list_all2_conv_all_nth)

lemma skip_loop_only_skips:
  assumes "rq_action rq = SKIP"
  shows "\<exists>res' db'. bulk_skip_loop env grouped rq ids res db = Inr (res', db') \<and> only_skips db db'
    \<and> length (bs_skipped res') + length (bs_not_found res') = length (bs_skipped res) + length (bs_not_found res) + length ids"
proof (induction ids arbitrary: res db)
  case Nil
  then show ?case by (simp add: only_skips_refl)
next
  case (Cons i ids)
  show ?case
  proof (cases "get_violation i db")
    case None
    then show ?thesis using Cons [of "res\<lparr>bs_not_found := bs_not_found res @ [i]\<rparr>" db] by auto
  next
    case (Some v)
    let ?db = "record_review rq v db"
    have "validate_justification (rq_action rq) (rq_justification rq) = None"
      using assms by (simp add: validate_None actions_requiring_justification_def)
    then have "\<exists>outcome. \<forall>base. submit_review env grouped v base rq db = Inr (outcome, ?db)"
      using assms by (simp add: submit_review_def resolve_fix_text_def Let_def)
    then obtain outcome where sub: "submit_review env grouped v base rq db = Inr (outcome, ?db)" for base by blast
    have "only_skips db ?db"
      using assms only_skips_update [of "\<lambda>x. x\<lparr>vr_status := SKIPPED\<rparr>" "add_review (new_review rq v) db" "vr_id v"]
      by (simp add: record_review_def only_skips_def add_audit_entry_def add_review_def)
    then show ?thesis
      using Cons [of "res\<lparr>bs_outcomes := bs_outcomes res @ [outcome], bs_skipped := bs_skipped res @ [i]\<rparr>" ?db] Some sub
        only_skips_trans by fastforce
  qed
qed

lemma assign_loop_only_skips: "only_skips db (snd (bulk_assign_loop rid rname assigner ids res db))"
proof (induction ids arbitrary: res db)
  case Nil
  then show ?case by (simp add: only_skips_refl)
next
  case (Cons i ids)
  show ?case
  proof (cases "get_violation i db")
    case (Some v)
    have "only_skips db (assign_reviewer v rid rname assigner db)"
      using only_skips_update [of "\<lambda>x. x\<lparr>vr_assigned_reviewer_id := Some rid, vr_assigned_reviewer_name := rname\<rparr>" db "vr_id v"]
      by (simp add: assign_reviewer_def only_skips_def add_audit_entry_def)
    then show ?thesis using Cons Some only_skips_trans by fastforce
  qed (use Cons in simp)
qed

lemma export_loop_keeps: "export_loop eby now latest ids res bodies db = (res', bodies', db') \<Longrightarrow>
    db_violations db' = db_violations db"
  by (induction ids arbitrary: res bodies db) (auto simp: mark_patch_exported_def split: option.splits)

text \<open>
  No bulk operation decides a violation: skipping, assigning and exporting in bulk leave
  every violation with the status it had or as skipped, so none of them accepts, edits,
  rejects or suppresses anything.  A bulk skip always succeeds and accounts for every given
  violation as skipped or as not found.
\<close>

theorem bulk_operations_decide_nothing:
  shows "(\<exists>res db'. bulk_skip env grouped uid ids rid rname notes db = Inr (res, db') \<and> only_skips db db'
      \<and> length (bs_skipped res) + length (bs_not_found res) = length ids)
    \<and> only_skips db (snd (bulk_assign_reviewer uid ids rid rname assigner db))
    \<and> only_skips db (snd (bulk_export_approved_patches uid now ids eby db))"
proof (intro conjI)
  have audit: "only_skips db' (add_audit_entry e db')" for e db' by (rule only_skips_refl) (simp add: add_audit_entry_def)
  obtain res db' where "bulk_skip_loop env grouped (skip_request rid rname notes) ids
      \<lparr>bs_outcomes = [], bs_skipped = [], bs_not_found = []\<rparr> db = Inr (res, db')" "only_skips db db'"
      "length (bs_skipped res) + length (bs_not_found res) = length ids"
    using skip_loop_only_skips [of "skip_request rid rname notes" env grouped ids
        "\<lparr>bs_outcomes = [], bs_skipped = [], bs_not_found = []\<rparr>" db] by (auto simp: skip_request_def)
  then show "\<exists>res db'. bulk_skip env grouped uid ids rid rname notes db = Inr (res, db') \<and> only_skips db db'
      \<and> length (bs_skipped res) + length (bs_not_found res) = length ids"
    using only_skips_trans [OF _ audit] by (simp add: bulk_skip_def)
  show "only_skips db (snd (bulk_assign_reviewer uid ids rid rname assigner db))"
    unfolding bulk_assign_reviewer_def case_prod_unfold snd_conv
    by (rule only_skips_trans [OF assign_loop_only_skips audit])
  show "only_skips db (snd (bulk_export_approved_patches uid now ids eby db))"
    using export_loop_keeps [where eby = eby and now = now]
    by (intro only_skips_refl) (auto simp: bulk_export_approved_patches_def Let_def add_audit_entry_def split: prod.splits)
qed

subsection \<open>Exports\<close>

lemma latest_patches_get: "map_of (fold (\<lambda>p. dict_setdefault (pa_violation_id p) p) ps d) i =
    (case map_of d i of Some p \<Rightarrow> Some p | None \<Rightarrow> find (\<lambda>p. pa_violation_id p = i) ps)"
  by (induction ps arbitrary: d) (auto simp: map_of_dict_setdefault split: option.splits)

lemma export_loop_spec:
  "fst (export_loop eby now latest ids res bodies db) = res
      \<lparr>be_exported := be_exported res @ map pa_id (List.map_filter (map_of latest) ids),
       be_skipped := be_skipped res @ filter (\<lambda>i. map_of latest i = None) ids\<rparr>"
  by (induction ids arbitrary: res bodies db)
    (auto simp: List.map_filter_simps dict_get_def split: option.splits)


text \<open>
  Exporting one patch is neither checked nor recorded: for every patch that exists, of a
  violation with any status, the export succeeds, marks the patch row as exported and writes no
  audit entry.
\<close>

theorem single_export_unaudited:
  assumes "get_patch pid db = Some p"
  shows "\<exists>body db'. export_patch (pa_violation_id p) pid eby git now db = Some (body, db')
    \<and> db_audit db' = db_audit db
    \<and> (\<exists>p' \<in> set (db_patches db'). pa_id p' = pid \<and> pa_status p' = EXPORTED \<and> pa_exported_by p' = Some eby)"
proof -
  have p: "p \<in> set (db_patches db)" "pa_id p = pid"
    using assms find_in_set [of "\<lambda>p. pa_id p = pid"] by (auto simp: get_patch_def find_Some_iff)
  then have "\<exists>p' \<in> set (db_patches (mark_patch_exported pid eby now db)). pa_id p' = pid \<and> pa_status p' = EXPORTED
      \<and> pa_exported_by p' = Some eby"
    by (intro bexI [of _ "p\<lparr>pa_status := EXPORTED, pa_exported_at := Some now, pa_exported_by := Some eby\<rparr>"])
      (auto simp: mark_patch_exported_def intro!: rev_image_eqI)
  then show ?thesis using assms by (simp add: export_patch_def mark_patch_exported_def)
qed

subsection \<open>Bounds of the impact estimate\<close>

lemma weights_bounds: "dec2 15 \<le> severity_weight s \<and> severity_weight s \<le> 1" "dec2 40 \<le> category_weight c \<and> category_weight c \<le> 1"
  by (auto simp: severity_weight_def category_weight_def dict_get_default_def dec2_def)

text \<open>
  For a confidence between 0 and 1 the impact score lies between 0.19 and 1, a critical
  violation of a mandatory rule is always rated high, and an info violation of an advisory rule
  always low.
\<close>

theorem impact_bounds:
  assumes "0 \<le> vr_confidence_score v" and "vr_confidence_score v \<le> 1"
  shows "dec2 19 \<le> ie_score (estimate_impact v) \<and> ie_score (estimate_impact v) \<le> 1
    \<and> (vr_severity v = ''critical'' \<and> vr_category v = ''mandatory'' \<longrightarrow> ie_level (estimate_impact v) = ''high'')
    \<and> (vr_severity v = ''info'' \<and> vr_category v = ''advisory'' \<longrightarrow> ie_level (estimate_impact v) = ''low'')"
proof -
  let ?x = "severity_weight (vr_severity v) * dec2 60 + category_weight (vr_category v) * dec2 25 + vr_confidence_score v * dec2 15"
  have score: "ie_score (estimate_impact v) = round_digits 2 ?x" by (simp add: estimate_impact_def impact_score_def)
  have "dec2 19 \<le> ?x" "?x \<le> 1"
    using weights_bounds(1) [of "vr_severity v"] weights_bounds(2) [of "vr_category v"] assms by (auto simp: dec2_def)
  then have "dec2 19 \<le> round_digits 2 ?x" "round_digits 2 ?x \<le> 1"
    using round_digits_bounds(1) [of 19 ?x] round_digits_bounds(2) [of ?x 100] by (simp_all add: dec2_def)
  moreover have "ie_level (estimate_impact v) = ''high''" if "vr_severity v = ''critical''" "vr_category v = ''mandatory''"
  proof -
    have "dec2 85 \<le> ?x" using that assms(1) by (simp add: severity_weight_def category_weight_def dict_get_default_def dec2_def)
    then have "dec2 85 \<le> round_digits 2 ?x" using round_digits_bounds(1) [of 85 ?x] by (simp add: dec2_def)
    then show ?thesis by (simp add: estimate_impact_def impact_score_def impact_level_def dec2_def)
  qed
  moreover have "ie_level (estimate_impact v) = ''low''" if "vr_severity v = ''info''" "vr_category v = ''advisory''"
  proof -
    have "?x \<le> dec2 34" using that assms(2) by (simp add: severity_weight_def category_weight_def dict_get_default_def dec2_def)
    then have "round_digits 2 ?x \<le> dec2 34" using round_digits_bounds(2) [of ?x 34] by (simp add: dec2_def)
    then show ?thesis by (simp add: estimate_impact_def impact_score_def impact_level_def dec2_def)
  qed
  ultimately show ?thesis by (simp add: score)
qed

subsection \<open>An example\<close>

definition goto_violation :: violation_record where
  "goto_violation = new_record ''run1'' ''p'' None 10 0 (example_violation ''f'' 2)"

definition example_db :: review_db where
  "example_db = \<lparr>db_projects = [(''p'', ''/p'')], db_violations = [goto_violation], db_reviews = [], db_audit = [],
     db_patches = [\<lparr>pa_id = 7, pa_violation_id = 0, pa_review_id = 5, pa_file_path = ''m.c'', pa_unified_diff = [],
       pa_git_patch = ''patch'', pa_source_available = True, pa_confidence_score = dec2 90, pa_status = GENERATED,
       pa_created_by = ''ann'', pa_exported_at = None, pa_exported_by = None\<rparr>], db_next = 8\<rparr>"

definition accept_request :: review_request where
  "accept_request = \<lparr>rq_action = ACCEPT, rq_reviewer_id = ''ann'', rq_reviewer_name = None,
     rq_justification = Some ''The goto leaves two nested loops.'', rq_notes = None, rq_edited_fix = None\<rparr>"

lemma example_post:
  "\<exists>outcome db'. post_review example_sources one_line_matcher 0 accept_request example_db = Inr (outcome, db')
    \<and> (\<exists>r \<in> set (db_reviews db'). rw_action r = ACCEPT) \<and> approved 0 db'"
proof -
  have "case post_review example_sources one_line_matcher 0 accept_request example_db of Inl e \<Rightarrow> False
    | Inr (outcome, db') \<Rightarrow> (\<exists>r \<in> set (db_reviews db'). rw_action r = ACCEPT) \<and> approved 0 db'"
    by code_simp
  then show ?thesis by (auto split: sum.splits)
qed


theorem decisions_are_justified_witness:
  "\<exists>db' r. (review_step example_sources one_line_matcher)\<^sup>*\<^sup>* example_db db' \<and> r \<in> set (db_reviews db')
    \<and> rw_action r = ACCEPT \<and> (\<exists>j. rw_justification r = Some j \<and> 20 \<le> length (strip j))"
proof -
  obtain outcome db' r where post: "post_review example_sources one_line_matcher 0 accept_request example_db = Inr (outcome, db')"
      "r \<in> set (db_reviews db')" "rw_action r = ACCEPT"
    using example_post by blast
  then have "(review_step example_sources one_line_matcher)\<^sup>*\<^sup>* example_db db'" by (blast intro: reviewed)
  moreover have "r \<notin> set (db_reviews example_db)" by (simp add: example_db_def)
  ultimately show ?thesis using decisions_are_justified [OF _ post(2)] post(2,3) by blast
qed

theorem review_validation_exact_witness:
  "\<exists>m. post_review example_sources one_line_matcher 0 (accept_request\<lparr>rq_justification := Some ''ok''\<rparr>) example_db
     = Inl (Unprocessable m)"
proof -
  have "\<exists>g. generate_patch example_sources one_line_matcher ''/p'' (vr_file_path goto_violation)
      (vr_line_start goto_violation) (vr_line_end goto_violation) code (vr_offending_expression goto_violation) = Inr g" for code
  proof -
    have "read_line_range example_sources ''/p'' (vr_file_path goto_violation) (vr_line_start goto_violation)
        (vr_line_end goto_violation) = Inr (Some [''i = i + 1;''])" by code_simp
    moreover have "relative_path example_sources ''/p'' (vr_file_path goto_violation) = Inr ''m.c''" by code_simp
    ultimately show ?thesis by (simp add: generate_patch_def Let_def)
  qed
  moreover have "get_violation 0 example_db = Some goto_violation"
    by (simp add: get_violation_def example_db_def goto_violation_def)
  moreover have "map_of (db_projects example_db) (vr_project_id goto_violation) = Some ''/p''"
    by (simp add: example_db_def goto_violation_def)
  moreover have "invalid_request (accept_request\<lparr>rq_justification := Some ''ok''\<rparr>)"
    by (simp add: invalid_request_def accept_request_def strip_def whitespace_def Let_def)
  ultimately show ?thesis
    using review_validation_exact [of 0 example_db goto_violation "''/p''" example_sources one_line_matcher
        "accept_request\<lparr>rq_justification := Some ''ok''\<rparr>"] by simp
qed


theorem single_export_unaudited_witness:
  "\<exists>body db'. export_patch 0 7 ''bob'' True 5 example_db = Some (body, db') \<and> db_audit db' = db_audit example_db
    \<and> get_violation 0 example_db = Some goto_violation \<and> vr_status goto_violation = OPEN"
proof -
  obtain p where p: "get_patch 7 example_db = Some p" "pa_violation_id p = 0"
    by (simp add: get_patch_def example_db_def)
  have "get_violation 0 example_db = Some goto_violation" "vr_status goto_violation = OPEN"
    by (simp_all add: get_violation_def example_db_def goto_violation_def)
  with single_export_unaudited [OF p(1), of "''bob''" True 5] p(2) show ?thesis by auto
qed

theorem impact_bounds_witness:
  "dec2 19 \<le> ie_score (estimate_impact goto_violation) \<and> ie_score (estimate_impact goto_violation) \<le> 1"
proof -
  have "0 \<le> vr_confidence_score goto_violation" "vr_confidence_score goto_violation \<le> 1"
    by (simp_all add: goto_violation_def new_record_def example_violation_def dec2_def)
  from impact_bounds [OF this] show ?thesis by blast
qed

end
