(* ===== verification/Compile_Db.thy ===== *)
theory Compile_Db
  imports Files
begin

text \<open>
  The compilation database (\<open>integrations/clang_bridge/compile_commands.py\<close>,
  \<open>compile_db_parser.py\<close>): entries, response files, and the loader with its diagnostics and its
  removal of duplicates.  The JSON parser (with the message of its error), SHA-256 and the
  resolution of symbolic links are parameters.
\<close>

subsection \<open>Entries\<close>

record compile_command_entry =
  cc_file :: string
  cc_directory :: string
  cc_arguments :: "string list"
  cc_output :: "string option"

record compile_commands_validation =
  cv_is_valid :: bool
  cv_source :: string
  cv_entries :: "compile_command_entry list"
  cv_diagnostics :: "string list"
  cv_duplicate_count :: nat

record compile_env =
  ce_files :: file_system
  ce_resolve :: "path \<Rightarrow> path"
  ce_sha256 :: "string \<Rightarrow> string"
  ce_json_loads :: "string \<Rightarrow> string + pyval"

definition absolute_file :: "compile_env \<Rightarrow> compile_command_entry \<Rightarrow> string" where
  "absolute_file env e = (let file_path = py_path (cc_file e) in
     if is_absolute file_path then path_str (ce_resolve env file_path)
     else path_str (ce_resolve env (path_join (py_path (cc_directory e)) file_path)))"

definition entry_payload :: "compile_env \<Rightarrow> compile_command_entry \<Rightarrow> string" where
  "entry_payload env e = join_str ''|'' (cc_directory e # absolute_file env e # cc_arguments e)"

definition entry_fingerprint :: "compile_env \<Rightarrow> compile_command_entry \<Rightarrow> string" where
  "entry_fingerprint env e = ce_sha256 env (entry_payload env e)"

subsection \<open>Splitting a command line\<close>

text \<open>
  \<open>shlex.split(s, posix=False)\<close>: blanks separate tokens; a token that starts with a quote
  runs to the next such quote, both kept, and ends there; elsewhere quotes are ordinary.
\<close>

definition shlex_blank :: "char \<Rightarrow> bool" where
  "shlex_blank c \<longleftrightarrow> c \<in> {CHR '' '', char_of (9 :: nat), char_of (10 :: nat), char_of (13 :: nat)}"

definition shlex_quote :: "char \<Rightarrow> bool" where
  "shlex_quote c \<longleftrightarrow> c \<in> {char_of (39 :: nat), char_of (34 :: nat)}"

function shlex_split :: "string \<Rightarrow> py_error + string list" where
  "shlex_split [] = Inr []"
| "shlex_split (c # s) =
     (if shlex_blank c then shlex_split s
      else if shlex_quote c then
        (case dropWhile (\<lambda>d. d \<noteq> c) s of
           [] \<Rightarrow> Inl ValueError
         | d # rest \<Rightarrow> map_sum id (Cons (c # takeWhile (\<lambda>d. d \<noteq> c) s @ [d])) (shlex_split rest))
      else map_sum id (Cons (c # takeWhile (Not \<circ> shlex_blank) s))
             (shlex_split (dropWhile (Not \<circ> shlex_blank) s)))"
  by pat_completeness auto
termination
proof (relation "measure length", goal_cases)
  case (3 c s d rest)
  then show ?case using length_dropWhile_le [of "\<lambda>d. d \<noteq> c" s] by auto
next
  case (4 c s)
  then show ?case using length_dropWhile_le [of "Not \<circ> shlex_blank" s] by auto
qed auto

declare shlex_split.simps(2) [simp del]

subsection \<open>Response files\<close>

text \<open>The argument of \<open>^@(.+)$\<close>: a dot matches no newline, \<open>$\<close> also matches before a last one.\<close>

definition without_last_newline :: "string \<Rightarrow> string" where
  "without_last_newline s = (if s \<noteq> [] \<and> last s = char_of (10 :: nat) then butlast s else s)"

definition response_file_name :: "string \<Rightarrow> string option" where
  "response_file_name argument = (case without_last_newline argument of
     [] \<Rightarrow> None
   | c # name \<Rightarrow>
       if c = CHR ''@'' \<and> name \<noteq> [] \<and> char_of (10 :: nat) \<notin> set name then Some name else None)"

definition expand_response_file :: "compile_env \<Rightarrow> string \<Rightarrow> path \<Rightarrow> py_error + string list" where
  "expand_response_file env argument base_directory = (case response_file_name argument of
     None \<Rightarrow> Inr [argument]
   | Some name \<Rightarrow>
       (let response_path = path_join base_directory (py_path name) in
        if \<not> path_exists (ce_files env) response_path then Inr [argument]
        else (case read_file (ce_files env) response_path of
          Inl e \<Rightarrow> Inl e
        | Inr content \<Rightarrow> shlex_split content)))"

fun normalize_arguments :: "compile_env \<Rightarrow> string list \<Rightarrow> path \<Rightarrow> py_error + string list" where
  "normalize_arguments env [] directory = Inr []"
| "normalize_arguments env (argument # raw) directory =
     (case expand_response_file env argument directory of
        Inl e \<Rightarrow> Inl e
      | Inr args \<Rightarrow> map_sum id ((@) args) (normalize_arguments env raw directory))"

subsection \<open>The loader\<close>

definition raw_arguments :: "props \<Rightarrow> py_error + string list option" where
  "raw_arguments raw = (case map_of raw ''arguments'' of
     Some (PList values) \<Rightarrow> Inr (Some (map py_str values))
   | _ \<Rightarrow> (case map_of raw ''command'' of
       Some (PStr command) \<Rightarrow> map_sum id Some (shlex_split command)
     | _ \<Rightarrow> Inr None))"

text \<open>\<open>Path(directory)\<close> raises for a value that is no string.\<close>

definition parse_entry :: "compile_env \<Rightarrow> props \<Rightarrow> py_error + compile_command_entry option" where
  "parse_entry env raw =
     (let directory = prop_get raw ''directory''; file_name = prop_get raw ''file'' in
      if \<not> truthy directory \<or> \<not> truthy file_name then Inr None
      else (case directory of
        PStr dir \<Rightarrow> (case raw_arguments raw of
            Inl e \<Rightarrow> Inl e
          | Inr None \<Rightarrow> Inr None
          | Inr (Some args) \<Rightarrow> map_sum id
              (\<lambda>normalized. Some \<lparr>cc_file = py_str file_name, cc_directory = path_str (py_path dir),
                 cc_arguments = normalized,
                 cc_output = (if prop_flag raw ''output'' then Some (py_str (prop_get raw ''output'')) else None)\<rparr>)
              (normalize_arguments env args (py_path dir)))
      | _ \<Rightarrow> Inl TypeError))"

record load_state =
  ls_entries :: "compile_command_entry list"
  ls_seen :: "string set"
  ls_duplicates :: nat
  ls_diagnostics :: "string list"

definition diagnose :: "string \<Rightarrow> load_state \<Rightarrow> load_state" where
  "diagnose message st = st\<lparr>ls_diagnostics := ls_diagnostics st @ [message]\<rparr>"

definition add_entry :: "compile_env \<Rightarrow> compile_command_entry \<Rightarrow> load_state \<Rightarrow> load_state" where
  "add_entry env parsed st =
     (let file = py_path (absolute_file env parsed);
          st = (if path_exists (ce_files env) file then st
                else diagnose (''Source file not found: '' @ path_str file) st);
          fingerprint = entry_fingerprint env parsed
      in if fingerprint \<in> ls_seen st then st\<lparr>ls_duplicates := ls_duplicates st + 1\<rparr>
         else st\<lparr>ls_entries := ls_entries st @ [parsed], ls_seen := insert fingerprint (ls_seen st)\<rparr>)"

fun load_entries :: "compile_env \<Rightarrow> nat \<Rightarrow> pyval list \<Rightarrow> load_state \<Rightarrow> py_error + load_state" where
  "load_entries env index [] st = Inr st"
| "load_entries env index (raw # rest) st = (case raw of
     PDict entry \<Rightarrow> (case parse_entry env entry of
         Inl e \<Rightarrow> Inl e
       | Inr None \<Rightarrow> load_entries env (index + 1) rest
           (diagnose (''Entry '' @ nat_str index @ '' is missing required fields'') st)
       | Inr (Some parsed) \<Rightarrow> load_entries env (index + 1) rest (add_entry env parsed st))
   | _ \<Rightarrow> load_entries env (index + 1) rest
       (diagnose (''Entry '' @ nat_str index @ '' is not an object'') st))"

definition rejected :: "path \<Rightarrow> string \<Rightarrow> compile_commands_validation" where
  "rejected p message = \<lparr>cv_is_valid = False, cv_source = path_str p, cv_entries = [],
     cv_diagnostics = [message], cv_duplicate_count = 0\<rparr>"

definition validation_of :: "path \<Rightarrow> load_state \<Rightarrow> compile_commands_validation" where
  "validation_of p st =
     \<lparr>cv_is_valid = 0 < length (ls_entries st), cv_source = path_str p, cv_entries = ls_entries st,
      cv_diagnostics = ls_diagnostics st
        @ (if ls_entries st = [] then [''No valid translation units found''] else []),
      cv_duplicate_count = ls_duplicates st\<rparr>"

definition load_compile_commands :: "compile_env \<Rightarrow> path \<Rightarrow> py_error + compile_commands_validation" where
  "load_compile_commands env p =
     (if \<not> path_exists (ce_files env) p then
        Inr (rejected p (''compile_commands.json not found: '' @ path_str p))
      else (case read_file (ce_files env) p of
        Inl e \<Rightarrow> Inl e
      | Inr text \<Rightarrow> (case ce_json_loads env text of
          Inl message \<Rightarrow> Inr (rejected p (''Invalid JSON: '' @ message))
        | Inr (PList payload) \<Rightarrow> map_sum id (validation_of p)
            (load_entries env 0 payload \<lparr>ls_entries = [], ls_seen = {}, ls_duplicates = 0, ls_diagnostics = []\<rparr>)
        | Inr _ \<Rightarrow> Inr (rejected p ''compile_commands.json must contain a JSON array''))))"

fun dedup_loop :: "compile_env \<Rightarrow> string set \<Rightarrow> compile_command_entry list \<Rightarrow> compile_command_entry list \<Rightarrow>
    compile_command_entry list" where
  "dedup_loop env seen uniq [] = uniq"
| "dedup_loop env seen uniq (e # es) =
     (if entry_fingerprint env e \<in> seen then dedup_loop env seen uniq es
      else dedup_loop env (insert (entry_fingerprint env e) seen) (uniq @ [e]) es)"

definition deduplicate_entries :: "compile_env \<Rightarrow> compile_command_entry list \<Rightarrow> compile_command_entry list" where
  "deduplicate_entries env es = dedup_loop env {} [] es"

subsection \<open>What the loader keeps\<close>

definition parsed_entry :: "compile_env \<Rightarrow> pyval \<Rightarrow> py_error + compile_command_entry option" where
  "parsed_entry env raw = (case raw of PDict entry \<Rightarrow> parse_entry env entry | _ \<Rightarrow> Inr None)"

definition parsed_entries :: "compile_env \<Rightarrow> pyval list \<Rightarrow> compile_command_entry list" where
  "parsed_entries env payload = List.map_filter
     (\<lambda>raw. case parsed_entry env raw of Inl e \<Rightarrow> None | Inr parsed \<Rightarrow> parsed) payload"

definition some_entry_raises :: "compile_env \<Rightarrow> pyval list \<Rightarrow> bool" where
  "some_entry_raises env payload \<longleftrightarrow> list_ex (\<lambda>raw. isl (parsed_entry env raw)) payload"

lemma parsed_entries_simps [simp]:
  "parsed_entries env [] = []"
  "parsed_entries env (raw # rest) =
     (case parsed_entry env raw of Inr (Some e) \<Rightarrow> e # parsed_entries env rest | _ \<Rightarrow> parsed_entries env rest)"
  by (simp_all add: parsed_entries_def List.map_filter_simps split: sum.splits option.splits)

lemma some_entry_raises_simps [simp]:
  "\<not> some_entry_raises env []"
  "some_entry_raises env (raw # rest) \<longleftrightarrow> isl (parsed_entry env raw) \<or> some_entry_raises env rest"
  by (simp_all add: some_entry_raises_def)

lemma add_entry_effect:
  "ls_entries (add_entry env e st) = ls_entries st @ keep_first (entry_fingerprint env) (ls_seen st) [e]"
  "ls_seen (add_entry env e st) = insert (entry_fingerprint env e) (ls_seen st)"
  "ls_duplicates (add_entry env e st)
     = ls_duplicates st + (if entry_fingerprint env e \<in> ls_seen st then 1 else 0)"
  by (auto simp: add_entry_def diagnose_def Let_def insert_absorb)

lemma diagnose_effect [simp]:
  "ls_entries (diagnose m st) = ls_entries st" "ls_seen (diagnose m st) = ls_seen st"
  "ls_duplicates (diagnose m st) = ls_duplicates st"
  by (simp_all add: diagnose_def)

lemma load_entries_effect:
  "\<not> some_entry_raises env payload \<Longrightarrow> \<exists>st'. load_entries env i payload st = Inr st' \<and>
     ls_entries st' = ls_entries st @ keep_first (entry_fingerprint env) (ls_seen st) (parsed_entries env payload) \<and>
     length (ls_entries st') + ls_duplicates st'
       = length (ls_entries st) + ls_duplicates st + length (parsed_entries env payload)"
proof (induction payload arbitrary: i st)
  case (Cons raw rest)
  show ?case
  proof (cases raw)
    case (PDict entry)
    then obtain r where r: "parse_entry env entry = Inr r"
      using Cons.prems by (cases "parse_entry env entry") (auto simp: parsed_entry_def)
    show ?thesis
    proof (cases r)
      case None
      then show ?thesis
        using Cons.IH [of "i + 1" "diagnose (''Entry '' @ nat_str i @ '' is missing required fields'') st"]
          Cons.prems PDict r by (simp add: parsed_entry_def)
    next
      case (Some e)
      then show ?thesis
        using Cons.IH [of "i + 1" "add_entry env e st"] Cons.prems PDict r
        by (auto simp: parsed_entry_def add_entry_effect insert_absorb)
    qed
  qed (use Cons.IH [of "i + 1" "diagnose (''Entry '' @ nat_str i @ '' is not an object'') st"] Cons.prems
       in \<open>simp_all add: parsed_entry_def\<close>)
qed simp

lemma load_entries_raises:
  "some_entry_raises env payload \<Longrightarrow> isl (load_entries env i payload st)"
proof (induction payload arbitrary: i st)
  case (Cons raw rest)
  then show ?case
    by (auto simp: parsed_entry_def split: pyval.splits sum.splits option.splits)
qed simp

lemma dedup_loop_eq: "dedup_loop env seen uniq es = uniq @ keep_first (entry_fingerprint env) seen es"
  by (induction env seen uniq es rule: dedup_loop.induct) auto

lemma deduplicate_entries_eq: "deduplicate_entries env es = keep_first (entry_fingerprint env) {} es"
  by (simp add: deduplicate_entries_def dedup_loop_eq)

text \<open>
  C34: A compilation database that is a JSON array loads unless parsing one of its entries raises, and
  then keeps, of the entries with the required fields and in their order, the first of each
  fingerprint, as \<open>deduplicate_entries\<close> does; the others are counted as duplicates, and the
  database is valid exactly if an entry has the required fields.
\<close>

theorem loader_exact:
  assumes db: "ce_files env p = Some (File bytes)" "ce_json_loads env bytes = Inr (PList payload)"
  shows "case load_compile_commands env p of
       Inl e \<Rightarrow> some_entry_raises env payload
     | Inr v \<Rightarrow> \<not> some_entry_raises env payload
         \<and> cv_entries v = deduplicate_entries env (parsed_entries env payload)
         \<and> distinct (map (entry_fingerprint env) (cv_entries v))
         \<and> cv_duplicate_count v = length (parsed_entries env payload) - length (cv_entries v)
         \<and> cv_is_valid v = (parsed_entries env payload \<noteq> [])"
proof (cases "some_entry_raises env payload")
  case True
  obtain e where "load_entries env 0 payload
      \<lparr>ls_entries = [], ls_seen = {}, ls_duplicates = 0, ls_diagnostics = []\<rparr> = Inl e"
    using load_entries_raises [OF True] by (auto simp: isl_def)
  then show ?thesis
    using True by (simp add: load_compile_commands_def path_exists_def read_file_def db)
next
  case False
  have "keep_first (entry_fingerprint env) {} (parsed_entries env payload) = [] \<longleftrightarrow> parsed_entries env payload = []"
    using keep_first_image [of "entry_fingerprint env" "{}" "parsed_entries env payload"] by fastforce
  then show ?thesis
    using load_entries_effect [OF False, of 0 "\<lparr>ls_entries = [], ls_seen = {}, ls_duplicates = 0, ls_diagnostics = []\<rparr>"]
      False keep_first_distinct [of "entry_fingerprint env" "{}"]
    by (auto simp: load_compile_commands_def path_exists_def read_file_def db validation_of_def
        deduplicate_entries_eq)
qed

text \<open>A database of three entries: one complete, one without a file, the first one again.\<close>

definition example_entry :: pyval where
  "example_entry = PDict [(''directory'', PStr ''/p''), (''file'', PStr ''a.c''),
     (''arguments'', PList [PStr ''cc'', PStr ''-DX=1'']), (''output'', PStr ''a.o'')]"

definition example_database :: compile_env where
  "example_database =
     \<lparr>ce_files = (\<lambda>p. if p = [''/'', ''p'', ''db''] then Some (File ''json'') else None), ce_resolve = id,
      ce_sha256 = id,
      ce_json_loads = (\<lambda>s. Inr (PList [example_entry, PDict [(''directory'', PStr ''/p'')], example_entry]))\<rparr>"

theorem loader_exact_witness:
  "case load_compile_commands example_database [''/'', ''p'', ''db''] of
       Inl e \<Rightarrow> some_entry_raises example_database
         [example_entry, PDict [(''directory'', PStr ''/p'')], example_entry]
     | Inr v \<Rightarrow> \<not> some_entry_raises example_database
           [example_entry, PDict [(''directory'', PStr ''/p'')], example_entry]
         \<and> cv_entries v = deduplicate_entries example_database (parsed_entries example_database
             [example_entry, PDict [(''directory'', PStr ''/p'')], example_entry])
         \<and> distinct (map (entry_fingerprint example_database) (cv_entries v))
         \<and> cv_duplicate_count v = length (parsed_entries example_database
             [example_entry, PDict [(''directory'', PStr ''/p'')], example_entry]) - length (cv_entries v)
         \<and> cv_is_valid v = (parsed_entries example_database
             [example_entry, PDict [(''directory'', PStr ''/p'')], example_entry] \<noteq> [])"
  by (rule loader_exact [where p = "[''/'', ''p'', ''db'']" and bytes = "''json''"])
     (simp_all add: example_database_def)

subsection \<open>Fingerprints of entries\<close>

definition no_bar :: "compile_env \<Rightarrow> compile_command_entry \<Rightarrow> bool" where
  "no_bar env e \<longleftrightarrow> list_all (\<lambda>part. CHR ''|'' \<notin> set part) (cc_directory e # absolute_file env e # cc_arguments e)"

lemma bar_collision:
  "entry_fingerprint env (d\<lparr>cc_arguments := xs @ (a @ ''|'' @ b) # ys\<rparr>)
     = entry_fingerprint env (d\<lparr>cc_arguments := xs @ a # b # ys\<rparr>)"
proof -
  have join: "join_str s (us @ (a @ s @ b) # ys) = join_str s (us @ a # b # ys)" for s us
    by (induction us rule: induct_list012) (cases ys; simp)+
  have same_file: "absolute_file env (d\<lparr>cc_arguments := zs\<rparr>) = absolute_file env d" for zs
    by (simp add: absolute_file_def Let_def)
  show ?thesis
    using join [of "''|''" "cc_directory d # absolute_file env d # xs"]
    by (simp add: entry_fingerprint_def entry_payload_def same_file)
qed

lemma entry_payload_exact:
  assumes "no_bar env e" "no_bar env e'"
  shows "entry_payload env e = entry_payload env e' \<longleftrightarrow>
      cc_directory e = cc_directory e' \<and> absolute_file env e = absolute_file env e' \<and> cc_arguments e = cc_arguments e'"
proof -
  have "entry_payload env e = entry_payload env e' \<longleftrightarrow>
      cc_directory e # absolute_file env e # cc_arguments e = cc_directory e' # absolute_file env e' # cc_arguments e'"
    using assms join_str_inject [of "CHR ''|''" "cc_directory e # absolute_file env e # cc_arguments e"
        "cc_directory e' # absolute_file env e' # cc_arguments e'"]
    unfolding no_bar_def entry_payload_def by (metis list.distinct(1))
  then show ?thesis by simp
qed

text \<open>
  C35: Entries without a vertical bar have the same fingerprint exactly if they compile the same file
  in the same directory with the same arguments, SHA-256 not colliding on them.  A bar breaks this: an
  argument \<open>a|b\<close> and the two arguments \<open>a\<close>, \<open>b\<close> give equal fingerprints, so the loader drops
  the second entry as a duplicate.
\<close>

theorem entry_fingerprint_exact:
  assumes "inj_on (ce_sha256 env) {entry_payload env e, entry_payload env e'}" "no_bar env e" "no_bar env e'"
  shows "(entry_fingerprint env e = entry_fingerprint env e' \<longleftrightarrow>
      cc_directory e = cc_directory e' \<and> absolute_file env e = absolute_file env e' \<and> cc_arguments e = cc_arguments e')
    \<and> entry_fingerprint env (e\<lparr>cc_arguments := xs @ (a @ ''|'' @ b) # ys\<rparr>)
      = entry_fingerprint env (e\<lparr>cc_arguments := xs @ a # b # ys\<rparr>)"
proof -
  have "entry_fingerprint env e = entry_fingerprint env e' \<longleftrightarrow> entry_payload env e = entry_payload env e'"
    unfolding entry_fingerprint_def by (rule inj_on_eq_iff [OF assms(1)]) simp_all
  then show ?thesis using bar_collision entry_payload_exact [OF assms(2,3)] by (simp add: entry_fingerprint_def)
qed

definition example_command :: compile_command_entry where
  "example_command = \<lparr>cc_file = ''a.c'', cc_directory = ''/p'', cc_arguments = [''cc''], cc_output = None\<rparr>"

theorem entry_fingerprint_exact_witness:
  "(entry_fingerprint example_database example_command
      = entry_fingerprint example_database (example_command\<lparr>cc_directory := ''/q''\<rparr>) \<longleftrightarrow>
      cc_directory example_command = cc_directory (example_command\<lparr>cc_directory := ''/q''\<rparr>)
      \<and> absolute_file example_database example_command
        = absolute_file example_database (example_command\<lparr>cc_directory := ''/q''\<rparr>)
      \<and> cc_arguments example_command = cc_arguments (example_command\<lparr>cc_directory := ''/q''\<rparr>))
    \<and> entry_fingerprint example_database (example_command\<lparr>cc_arguments := [''cc''] @ (''-Da'' @ ''|'' @ ''b'') # []\<rparr>)
      = entry_fingerprint example_database (example_command\<lparr>cc_arguments := [''cc''] @ ''-Da'' # ''b'' # []\<rparr>)"
  by (rule entry_fingerprint_exact)
    (simp_all add: example_database_def example_command_def no_bar_def absolute_file_def is_absolute_def path_join_def
      py_path_def path_root_def starts_with_def path_str_def roots_def)

subsection \<open>Command lines\<close>

definition plain_word :: "string \<Rightarrow> bool" where
  "plain_word w \<longleftrightarrow> w \<noteq> [] \<and> \<not> shlex_quote (hd w) \<and> list_all (Not \<circ> shlex_blank) w"

lemma shlex_split_word:
  assumes "plain_word w"
  shows "shlex_split (w @ '' '' @ s) = map_sum id (Cons w) (shlex_split s)" and "shlex_split w = Inr [w]"
proof -
  obtain c v where w: "w = c # v" "\<not> shlex_quote c" "\<not> shlex_blank c" "\<forall>d \<in> set v. \<not> shlex_blank d"
    using assms by (cases w) (auto simp: plain_word_def list_all_iff)
  have blank: "shlex_blank (CHR '' '')" by (simp add: shlex_blank_def)
  have words: "takeWhile (Not \<circ> shlex_blank) (v @ '' '' @ s) = v" "dropWhile (Not \<circ> shlex_blank) (v @ '' '' @ s) = '' '' @ s"
    using w(4) blank by (induction v) auto
  have "shlex_split ('' '' @ s) = shlex_split s"
    using blank by (simp add: shlex_split.simps(2))
  then show "shlex_split (w @ '' '' @ s) = map_sum id (Cons w) (shlex_split s)"
    using w(1-3) words by (simp add: shlex_split.simps(2))
  have word: "takeWhile (Not \<circ> shlex_blank) v = v" "dropWhile (Not \<circ> shlex_blank) v = []"
    using w(4) by (induction v) auto
  show "shlex_split w = Inr [w]"
    using w(1-3) by (simp add: shlex_split.simps(2) word)
qed

text \<open>
  A command line of plain words is split into them again.  Quotes, however, stay part of a
  token, and inside a word they do not protect a blank: \<open>-DN="a b"\<close> becomes two arguments.
\<close>

lemma shlex_split_words:
  "list_all plain_word ws \<Longrightarrow> shlex_split (join_str '' '' ws) = Inr ws"
  by (induction ws rule: induct_list012) (use shlex_split_word in auto)

lemma quoted_define_split:
  "shlex_split (''cc -DN='' @ [char_of (34 :: nat)] @ ''a b'' @ [char_of (34 :: nat)])
     = Inr [''cc'', ''-DN='' @ [char_of (34 :: nat)] @ ''a'', ''b'' @ [char_of (34 :: nat)]]"
  by code_simp

text \<open>
  A project without a path to its database uses \<open>Path("")\<close>, the working directory, which exists:
  reading it raises instead of giving the diagnostic that the database was not found.
\<close>

lemma missing_database_path:
  "ce_files env [] = Some Directory \<Longrightarrow> load_compile_commands env (py_path '''') = Inl OSError"
  by (simp add: load_compile_commands_def py_path_def path_root_def starts_with_def path_exists_def read_file_def)

text \<open>A valid database has an entry.\<close>

lemma valid_has_entries:
  "load_compile_commands env p = Inr v \<Longrightarrow> cv_is_valid v \<Longrightarrow> cv_entries v \<noteq> []"
proof -
  have image: "map_sum id f x = Inr y \<longleftrightarrow> (\<exists>z. x = Inr z \<and> y = f z)" for f :: "load_state \<Rightarrow> compile_commands_validation"
    and x :: "py_error + load_state" and y
    by (cases x) auto
  show "load_compile_commands env p = Inr v \<Longrightarrow> cv_is_valid v \<Longrightarrow> cv_entries v \<noteq> []"
    by (auto simp: load_compile_commands_def rejected_def validation_of_def image split: if_splits sum.splits pyval.splits)
qed

end
