(* ===== verification/Effects.thy ===== *)
theory Effects
  imports Py_Prelude
begin

text \<open>
  Imperative code that changes a state and may raise: an action maps a state to an outcome
  (an exception or a value) together with the state it leaves, which survives an exception;
  \<^term>\<open>None\<close> stands for a call that does not return.  A triple states what holds after a
  normal return and what holds after an exception, and that the action returns at all.
\<close>

type_synonym ('s, 'e, 'a) act = "'s \<Rightarrow> (('e + 'a) \<times> 's) option"

definition act_return :: "'a \<Rightarrow> ('s, 'e, 'a) act" where
  "act_return x s = Some (Inr x, s)"

definition act_raise :: "'e \<Rightarrow> ('s, 'e, 'a) act" where
  "act_raise e s = Some (Inl e, s)"

definition act_bind :: "('s, 'e, 'a) act \<Rightarrow> ('a \<Rightarrow> ('s, 'e, 'b) act) \<Rightarrow> ('s, 'e, 'b) act" where
  "act_bind m f s = (case m s of
     None \<Rightarrow> None
   | Some (Inl e, s') \<Rightarrow> Some (Inl e, s')
   | Some (Inr x, s') \<Rightarrow> f x s')"

definition act_catch :: "('s, 'e, 'a) act \<Rightarrow> ('e \<Rightarrow> ('s, 'e, 'a) act) \<Rightarrow> ('s, 'e, 'a) act" where
  "act_catch m h s = (case m s of
     None \<Rightarrow> None
   | Some (Inl e, s') \<Rightarrow> h e s'
   | Some (Inr x, s') \<Rightarrow> Some (Inr x, s'))"

definition act_get :: "('s \<Rightarrow> 'a) \<Rightarrow> ('s, 'e, 'a) act" where
  "act_get f s = Some (Inr (f s), s)"

definition act_modify :: "('s \<Rightarrow> 's) \<Rightarrow> ('s, 'e, unit) act" where
  "act_modify f s = Some (Inr (), f s)"

text \<open>The value of a computation without effects that may raise, or may not return.\<close>

definition act_lift :: "'e + 'a \<Rightarrow> ('s, 'e, 'a) act" where
  "act_lift r s = Some (r, s)"

definition act_await :: "'a option \<Rightarrow> ('s, 'e, 'a) act" where
  "act_await r s = map_option (\<lambda>x. (Inr x, s)) r"

text \<open>Statements one after the other, and a loop over a list.\<close>

fun act_seq :: "('s, 'e, unit) act list \<Rightarrow> ('s, 'e, unit) act" where
  "act_seq [] = act_return ()"
| "act_seq (m # ms) = act_bind m (\<lambda>_. act_seq ms)"

fun act_fold :: "('x \<Rightarrow> 'a \<Rightarrow> ('s, 'e, 'a) act) \<Rightarrow> 'x list \<Rightarrow> 'a \<Rightarrow> ('s, 'e, 'a) act" where
  "act_fold f [] a = act_return a"
| "act_fold f (x # xs) a = act_bind (f x a) (act_fold f xs)"

subsection \<open>Triples\<close>

definition triple ::
    "('s \<Rightarrow> bool) \<Rightarrow> ('s, 'e, 'a) act \<Rightarrow> ('a \<Rightarrow> 's \<Rightarrow> bool) \<Rightarrow> ('e \<Rightarrow> 's \<Rightarrow> bool) \<Rightarrow> bool" where
  "triple P m Q E \<longleftrightarrow> (\<forall>s. P s \<longrightarrow> (case m s of
     None \<Rightarrow> False
   | Some (Inl e, s') \<Rightarrow> E e s'
   | Some (Inr x, s') \<Rightarrow> Q x s'))"

lemma tripleI:
  "(\<And>s. P s \<Longrightarrow> (\<exists>e s'. m s = Some (Inl e, s') \<and> E e s') \<or> (\<exists>x s'. m s = Some (Inr x, s') \<and> Q x s')) \<Longrightarrow> triple P m Q E"
  by (fastforce simp: triple_def)

lemma tripleE:
  assumes "triple P m Q E" "P s"
  obtains (raised) e s' where "m s = Some (Inl e, s')" "E e s'"
    | (returned) x s' where "m s = Some (Inr x, s')" "Q x s'"
proof -
  have *: "case m s of None \<Rightarrow> False | Some (Inl e, s') \<Rightarrow> E e s' | Some (Inr x, s') \<Rightarrow> Q x s'"
    using assms unfolding triple_def by blast
  show ?thesis
  proof (cases "m s")
    case (Some r)
    obtain o_r s' where r: "r = (o_r, s')" by (cases r)
    then show ?thesis using * Some raised returned by (cases o_r) auto
  qed (use * in simp)
qed

lemma triple_return: "(\<And>s. P s \<Longrightarrow> Q x s) \<Longrightarrow> triple P (act_return x) Q E"
  by (simp add: triple_def act_return_def)

lemma triple_raise: "(\<And>s. P s \<Longrightarrow> E e s) \<Longrightarrow> triple P (act_raise e) Q E"
  by (simp add: triple_def act_raise_def)

lemma triple_get: "(\<And>s. P s \<Longrightarrow> Q (f s) s) \<Longrightarrow> triple P (act_get f) Q E"
  by (simp add: triple_def act_get_def)

lemma triple_modify: "(\<And>s. P s \<Longrightarrow> Q () (f s)) \<Longrightarrow> triple P (act_modify f) Q E"
  by (simp add: triple_def act_modify_def)

lemma triple_lift: "(\<And>s. P s \<Longrightarrow> (case r of Inl e \<Rightarrow> E e s | Inr x \<Rightarrow> Q x s)) \<Longrightarrow> triple P (act_lift r) Q E"
  by (simp add: triple_def act_lift_def split: sum.splits)

lemma triple_await: "r \<noteq> None \<Longrightarrow> (\<And>s x. P s \<Longrightarrow> r = Some x \<Longrightarrow> Q x s) \<Longrightarrow> triple P (act_await r) Q E"
  by (auto simp: triple_def act_await_def)

lemma triple_bind:
  assumes m: "triple P m R E" and f: "\<And>x. triple (R x) (f x) Q E"
  shows "triple P (act_bind m f) Q E"
proof (rule tripleI)
  fix s assume s: "P s"
  show "(\<exists>e s'. act_bind m f s = Some (Inl e, s') \<and> E e s') \<or> (\<exists>x s'. act_bind m f s = Some (Inr x, s') \<and> Q x s')"
    using m s
  proof (cases rule: tripleE)
    case (returned x s')
    show ?thesis
      using f [of x] returned(2)
      by (cases rule: tripleE) (simp_all add: act_bind_def returned(1))
  qed (simp add: act_bind_def)
qed

lemma triple_catch:
  assumes m: "triple P m Q R" and h: "\<And>e. triple (R e) (h e) Q E"
  shows "triple P (act_catch m h) Q E"
proof (rule tripleI)
  fix s assume s: "P s"
  show "(\<exists>e s'. act_catch m h s = Some (Inl e, s') \<and> E e s') \<or> (\<exists>x s'. act_catch m h s = Some (Inr x, s') \<and> Q x s')"
    using m s
  proof (cases rule: tripleE)
    case (raised e s')
    show ?thesis
      using h [of e] raised(2)
      by (cases rule: tripleE) (simp_all add: act_catch_def raised(1))
  qed (simp add: act_catch_def)
qed

lemma triple_seq_Nil: "(\<And>s. P s \<Longrightarrow> Q () s) \<Longrightarrow> triple P (act_seq []) Q E"
  by (simp add: triple_return)

lemma triple_seq_Cons:
  "triple P m (\<lambda>_. R) E \<Longrightarrow> triple R (act_seq ms) Q E \<Longrightarrow> triple P (act_seq (m # ms)) Q E"
  by (simp add: triple_bind)

lemma triple_weaken:
  "triple P m Q E \<Longrightarrow> (\<And>s. P' s \<Longrightarrow> P s) \<Longrightarrow> (\<And>x s. Q x s \<Longrightarrow> Q' x s) \<Longrightarrow> (\<And>e s. E e s \<Longrightarrow> E' e s) \<Longrightarrow>
   triple P' m Q' E'"
  unfolding triple_def by (fastforce split: option.splits sum.splits)

text \<open>A loop whose body keeps an invariant that may depend on the elements still to come.\<close>

lemma triple_fold:
  assumes "\<And>x xs a. triple (I (x # xs) a) (f x a) (I xs) E"
  shows "triple (I xs a) (act_fold f xs a) (I []) E"
proof (induction xs arbitrary: a)
  case Nil
  then show ?case by (simp add: triple_return)
next
  case (Cons x xs)
  show ?case unfolding act_fold.simps by (rule triple_bind [OF assms Cons.IH])
qed

lemma triple_if:
  "(c \<Longrightarrow> triple P m Q E) \<Longrightarrow> (\<not> c \<Longrightarrow> triple P n Q E) \<Longrightarrow> triple P (if c then m else n) Q E"
  by simp

subsection \<open>Actions that keep an invariant\<close>

definition keeps :: "('s \<Rightarrow> bool) \<Rightarrow> ('s, 'e, 'a) act \<Rightarrow> bool" where
  "keeps I m \<longleftrightarrow> triple I m (\<lambda>x. I) (\<lambda>e. I)"

named_theorems keeps_intros \<open>actions that keep an invariant\<close>

lemma keeps_triple: "keeps I m \<Longrightarrow> triple I m (\<lambda>x. I) (\<lambda>e. I)"
  by (simp add: keeps_def)

lemma keepsI:
  "(\<And>s. I s \<Longrightarrow> \<exists>r s'. m s = Some (r, s') \<and> I s') \<Longrightarrow> keeps I m"
  unfolding keeps_def triple_def by (fastforce split: sum.splits)

lemma keeps_return [keeps_intros]: "keeps I (act_return x)"
  by (simp add: keeps_def triple_return)

lemma keeps_raise [keeps_intros]: "keeps I (act_raise e)"
  by (simp add: keeps_def triple_raise)

lemma keeps_get [keeps_intros]: "keeps I (act_get f)"
  by (simp add: keeps_def triple_get)

lemma keeps_lift [keeps_intros]: "keeps I (act_lift r)"
  by (simp add: keeps_def triple_lift split: sum.splits)

lemma keeps_await: "r \<noteq> None \<Longrightarrow> keeps I (act_await r)"
  by (simp add: keeps_def triple_await)

lemma keeps_bind [keeps_intros]: "keeps I m \<Longrightarrow> (\<And>x. keeps I (f x)) \<Longrightarrow> keeps I (act_bind m f)"
  unfolding keeps_def by (rule triple_bind)

lemma keeps_if [keeps_intros]: "(c \<Longrightarrow> keeps I m) \<Longrightarrow> (\<not> c \<Longrightarrow> keeps I n) \<Longrightarrow> keeps I (if c then m else n)"
  by simp

lemma keeps_seq: "list_all (keeps I) ms \<Longrightarrow> keeps I (act_seq ms)"
  by (induction ms) (simp_all add: keeps_intros)

lemma keeps_fold [keeps_intros]: "(\<And>x a. keeps I (f x a)) \<Longrightarrow> keeps I (act_fold f xs a)"
  by (induction xs arbitrary: a) (simp_all add: keeps_intros)

text \<open>Binding a value of which more than the invariant is known.\<close>

lemma triple_value_bind:
  assumes "triple P m (\<lambda>x s. I s \<and> V x) E" "\<And>x. V x \<Longrightarrow> triple I (f x) Q E"
  shows "triple P (act_bind m f) Q E"
proof (rule triple_bind [OF assms(1)])
  show "triple (\<lambda>s. I s \<and> V x) (f x) Q E" for x
    using assms(2) [of x] by (cases "V x") (auto simp: triple_def)
qed

lemma triple_conj_value:
  "keeps I m \<Longrightarrow> (\<And>s x s'. m s = Some (Inr x, s') \<Longrightarrow> V x) \<Longrightarrow> triple I m (\<lambda>x s. I s \<and> V x) (\<lambda>e. I)"
  unfolding keeps_def triple_def by (fastforce split: option.splits sum.splits)

lemma triple_pure: "(c \<Longrightarrow> triple P m Q E) \<Longrightarrow> triple (\<lambda>s. P s \<and> c) m Q E"
  by (cases c) (auto simp: triple_def)

lemma triple_both:
  "triple P m Q E \<Longrightarrow> triple P' m Q' E' \<Longrightarrow>
   triple (\<lambda>s. P s \<and> P' s) m (\<lambda>x s. Q x s \<and> Q' x s) (\<lambda>e s. E e s \<and> E' e s)"
  unfolding triple_def by (fastforce split: option.splits sum.splits)

lemma act_bind_return [simp]: "act_bind (act_return x) f = f x"
  by (simp add: act_bind_def act_return_def fun_eq_iff)

end
