(* ===== verification/Orchestrator.thy ===== *)
theory Orchestrator
  imports Effects Compile_Db Incremental Violation_Store
begin

text \<open>
  An analysis run (\<open>services/analysis_orchestrator.py\<close>) with its tables
  (\<open>domain/models/analysis.py\<close>), the artifact storage (\<open>integrations/storage/local.py\<close>) and the
  toolchain profiles (\<open>services/toolchain_profile_service.py\<close>).

  The session keeps the tables as the run has changed them beside the committed ones; a commit
  flushes and copies.  A flush that fails leaves the session unusable until a rollback: every
  later commit raises.  Effects are numbered as they happen; which of them fail, and what the
  worker answers, is given by the environment as functions of that number.
\<close>

subsection \<open>Tables\<close>

datatype analysis_status = QUEUED | RUNNING | RUN_COMPLETED | RUN_FAILED | CANCELLED

datatype analysis_run_type = FULL | INCREMENTAL

datatype translation_unit_status = PENDING | PARSING | UNIT_COMPLETED | UNIT_FAILED | UNIT_SKIPPED

fun translation_unit_status_str :: "translation_unit_status \<Rightarrow> string" where
  "translation_unit_status_str PENDING = ''pending''"
| "translation_unit_status_str PARSING = ''parsing''"
| "translation_unit_status_str UNIT_COMPLETED = ''completed''"
| "translation_unit_status_str UNIT_FAILED = ''failed''"
| "translation_unit_status_str UNIT_SKIPPED = ''skipped''"

record project =
  pj_root_path :: string
  pj_toolchain_profile_id :: string
  pj_compile_commands_path :: "string option"

record run_manifest =
  rm_compile_commands :: string
  rm_toolchain_profile_id :: string
  rm_validation_diagnostics :: "string list"
  rm_duplicates_removed :: nat

record analysis_run =
  ru_status :: analysis_status
  ru_files_total :: nat
  ru_files_parsed :: nat
  ru_files_failed :: nat
  ru_error_message :: "string option"
  ru_manifest :: "run_manifest option"
  ru_started_at :: "int option"
  ru_completed_at :: "int option"

record file_index_entry =
  fe_project_id :: string
  fe_relative_path :: string
  fe_absolute_path :: string
  fe_content_hash :: string
  fe_include_edges :: "string list"

record translation_unit_record =
  tr_id :: nat
  tr_analysis_run_id :: string
  tr_file_path :: string
  tr_working_directory :: string
  tr_compile_flags :: "string list"
  tr_status :: translation_unit_status
  tr_translation_unit_hash :: "string option"
  tr_ast_cache_path :: "string option"
  tr_node_count :: nat
  tr_parse_duration_ms :: int
  tr_diagnostics :: "props list option"
  tr_preprocessor :: "macro_table option"
  tr_error_message :: "string option"

text \<open>A JSON column holds what it is given; a Python set has no JSON form.\<close>

datatype json_column = JsonList "string list" | PySet "string set"

record incremental_manifest =
  im_analysis_run_id :: string
  im_changed_files :: json_column
  im_affected_translation_units :: json_column
  im_cache_hits :: nat
  im_cache_misses :: nat

record tables =
  tb_run :: analysis_run
  tb_units :: "translation_unit_record list"
  tb_index :: "file_index_entry list"
  tb_manifests :: "incremental_manifest list"
  tb_violations :: violation_store

definition json_serializable :: "json_column \<Rightarrow> bool" where
  "json_serializable c = (case c of JsonList xs \<Rightarrow> True | PySet S \<Rightarrow> False)"

definition flushable :: "tables \<Rightarrow> bool" where
  "flushable t = list_all (\<lambda>m. json_serializable (im_changed_files m)
     \<and> json_serializable (im_affected_translation_units m)) (tb_manifests t)"

subsection \<open>The worker's answer and the stored artifact\<close>

record parse_result =
  pt_success :: bool
  pt_status_message :: string
  pt_translation_unit_hash :: string
  pt_parse_duration_ms :: int
  pt_nodes :: "ast_node list"
  pt_diagnostics :: "props list"
  pt_preprocessor :: macro_table

record parse_request =
  pq_file_path :: string
  pq_working_directory :: string
  pq_compile_flags :: "string list"
  pq_toolchain_profile_id :: string
  pq_target_triple :: string

record stored_artifact =
  sa_translation_unit_id :: string
  sa_translation_unit_hash :: string
  sa_artifact :: ast_artifact

subsection \<open>Events, errors, state and environment\<close>

datatype event =
    AnalysisStarted string
  | AnalysisFailed string
  | UnitStarted string string
  | UnitParsed string string string nat int
  | RulesStarted nat
  | RulesCompleted nat rat
  | ViolationDetected string string int rat string
  | AnalysisCompleted nat nat nat

datatype run_error =
    RunRaised py_error
  | FlushFailed
  | NotSerializable
  | PendingRollback
  | PublishFailed
  | ParseFailed string
  | WriteFailed
  | CloseFailed
  | RegistryRaised registry_error
  | RulesRaised dispatch_error
  | StoreRaised store_error

record run_state =
  st_work :: tables
  st_db :: tables
  st_unusable :: bool
  st_events :: "event list"
  st_artifacts :: "(path, stored_artifact) dict"
  st_effects :: nat

record run_env =
  oe_compile :: compile_env
  oe_profile_dir :: path
  oe_storage_root :: path
  oe_rules_enabled :: bool
  oe_registry :: registry_env
  oe_standards_root :: path
  oe_tu_workers :: int
  oe_rule_workers :: int
  oe_rule_timeout :: rat
  oe_pool :: pool_environment
  oe_depth :: nat
  oe_kinds :: "string list"
  oe_order :: "string set \<Rightarrow> string list"
  oe_clock :: "nat \<Rightarrow> int"
  oe_publish_fails :: "nat \<Rightarrow> bool"
  oe_flush_fails :: "nat \<Rightarrow> bool"
  oe_write_fails :: "nat \<Rightarrow> bool"
  oe_close_fails :: "nat \<Rightarrow> bool"
  oe_parse :: "nat \<Rightarrow> parse_request \<Rightarrow> run_error + parse_result"
  oe_str :: "run_error \<Rightarrow> string"

type_synonym 'a run_act = "(run_state, run_error, 'a) act"

subsection \<open>The session and the event stream\<close>

definition next_effect :: "nat run_act" where
  "next_effect s = Some (Inr (st_effects s), s\<lparr>st_effects := st_effects s + 1\<rparr>)"

definition commit :: "run_env \<Rightarrow> unit run_act" where
  "commit env = act_bind next_effect (\<lambda>k s.
     if st_unusable s then Some (Inl PendingRollback, s)
     else if oe_flush_fails env k then Some (Inl FlushFailed, s\<lparr>st_unusable := True\<rparr>)
     else if \<not> flushable (st_work s) then Some (Inl NotSerializable, s\<lparr>st_unusable := True\<rparr>)
     else Some (Inr (), s\<lparr>st_db := st_work s\<rparr>))"

definition publish_event :: "run_env \<Rightarrow> event \<Rightarrow> unit run_act" where
  "publish_event env e = act_bind next_effect (\<lambda>k.
     if oe_publish_fails env k then act_raise PublishFailed
     else act_modify (\<lambda>s. s\<lparr>st_events := st_events s @ [e]\<rparr>))"

definition update_run :: "(analysis_run \<Rightarrow> analysis_run) \<Rightarrow> unit run_act" where
  "update_run f = act_modify (\<lambda>s. s\<lparr>st_work := (st_work s)\<lparr>tb_run := f (tb_run (st_work s))\<rparr>\<rparr>)"

text \<open>Setting a time stamp reads the clock.\<close>

definition stamp_run :: "run_env \<Rightarrow> (int \<Rightarrow> analysis_run \<Rightarrow> analysis_run) \<Rightarrow> unit run_act" where
  "stamp_run env f = act_bind next_effect (\<lambda>k. update_run (f (oe_clock env k)))"

definition update_unit :: "nat \<Rightarrow> (translation_unit_record \<Rightarrow> translation_unit_record) \<Rightarrow> unit run_act" where
  "update_unit i f = act_modify (\<lambda>s. s\<lparr>st_work := (st_work s)\<lparr>tb_units :=
     map (\<lambda>u. if tr_id u = i then f u else u) (tb_units (st_work s))\<rparr>\<rparr>)"

text \<open>Adding a translation unit; its identifier is the number of units so far.\<close>

definition add_unit :: "string \<Rightarrow> compile_env \<Rightarrow> compile_command_entry \<Rightarrow> nat run_act" where
  "add_unit run_id env e s =
     (let i = length (tb_units (st_work s)) in Some (Inr i, s\<lparr>st_work := (st_work s)\<lparr>tb_units := tb_units (st_work s) @
        [\<lparr>tr_id = i, tr_analysis_run_id = run_id, tr_file_path = absolute_file env e,
          tr_working_directory = cc_directory e, tr_compile_flags = cc_arguments e, tr_status = PARSING,
          tr_translation_unit_hash = None, tr_ast_cache_path = None, tr_node_count = 0, tr_parse_duration_ms = 0,
          tr_diagnostics = None, tr_preprocessor = None, tr_error_message = None\<rparr>]\<rparr>\<rparr>))"

subsection \<open>Toolchain profiles and the artifact storage\<close>

text \<open>\<open>json.loads\<close> of a profile; its error is a \<open>ValueError\<close> that nobody handles.\<close>

definition get_profile :: "run_env \<Rightarrow> string \<Rightarrow> py_error + pyval option" where
  "get_profile env profile_id =
     (let profile_path = path_join (oe_profile_dir env) (py_path (profile_id @ ''.json'')) in
      if \<not> path_exists (ce_files (oe_compile env)) profile_path then Inr None
      else (case read_file (ce_files (oe_compile env)) profile_path of
        Inl e \<Rightarrow> Inl e
      | Inr content \<Rightarrow> (case ce_json_loads (oe_compile env) content of
          Inl message \<Rightarrow> Inl ValueError
        | Inr v \<Rightarrow> Inr (Some v))))"

definition target_triple_of :: "pyval option \<Rightarrow> py_error + string" where
  "target_triple_of profile = (case profile of
     None \<Rightarrow> Inr ''''
   | Some v \<Rightarrow> if \<not> truthy v then Inr '''' else (case v of
       PDict d \<Rightarrow> Inr (case map_of d ''target_triple'' of None \<Rightarrow> '''' | Some t \<Rightarrow> py_str t)
     | _ \<Rightarrow> Inl AttributeError))"

definition profile_props :: "pyval option \<Rightarrow> props" where
  "profile_props profile = (case profile of Some (PDict d) \<Rightarrow> d | _ \<Rightarrow> [])"

definition ast_cache_path :: "run_env \<Rightarrow> string \<Rightarrow> string \<Rightarrow> string \<Rightarrow> path run_act" where
  "ast_cache_path env project_id run_id unit_id = act_bind next_effect (\<lambda>k.
     if oe_write_fails env k then act_raise WriteFailed
     else act_return (oe_storage_root env @ [''ast_cache'', project_id, run_id, unit_id @ ''.json'']))"

definition write_ast_artifact :: "run_env \<Rightarrow> path \<Rightarrow> stored_artifact \<Rightarrow> unit run_act" where
  "write_ast_artifact env p payload = act_bind next_effect (\<lambda>k.
     if oe_write_fails env k then act_raise WriteFailed
     else act_modify (\<lambda>s. s\<lparr>st_artifacts := dict_set p payload (st_artifacts s)\<rparr>))"

definition parse_translation_unit :: "run_env \<Rightarrow> parse_request \<Rightarrow> parse_result run_act" where
  "parse_translation_unit env rq = act_bind next_effect (\<lambda>k. act_lift (oe_parse env k rq))"

subsection \<open>One translation unit\<close>

record progress =
  pg_parsed :: nat
  pg_failed :: nat
  pg_artifacts :: "ast_artifact list"
  pg_unit_ids :: "string list"

definition artifact_of :: "string \<Rightarrow> parse_result \<Rightarrow> ast_artifact" where
  "artifact_of file r = \<lparr>ar_nodes = pt_nodes r, ar_preprocessor = pt_preprocessor r, ar_file_path = file,
     ar_diagnostics = pt_diagnostics r\<rparr>"

definition note_parse :: "string \<Rightarrow> nat \<Rightarrow> parse_result \<Rightarrow> progress \<Rightarrow> progress" where
  "note_parse file unit_id r pg =
     (if pt_success r then
        \<lparr>pg_parsed = pg_parsed pg + 1, pg_failed = pg_failed pg,
         pg_artifacts = pg_artifacts pg @ [artifact_of file r], pg_unit_ids = pg_unit_ids pg @ [nat_str unit_id]\<rparr>
      else pg\<lparr>pg_failed := pg_failed pg + 1\<rparr>)"

definition parsed_unit :: "path \<Rightarrow> parse_result \<Rightarrow> translation_unit_record \<Rightarrow> translation_unit_record" where
  "parsed_unit p r u =
     (let u = u\<lparr>tr_translation_unit_hash := Some (pt_translation_unit_hash r), tr_ast_cache_path := Some (path_str p),
                tr_node_count := length (pt_nodes r), tr_parse_duration_ms := pt_parse_duration_ms r,
                tr_diagnostics := Some (pt_diagnostics r), tr_preprocessor := Some (pt_preprocessor r)\<rparr>
      in if pt_success r then u\<lparr>tr_status := UNIT_COMPLETED\<rparr>
         else u\<lparr>tr_status := UNIT_FAILED, tr_error_message := Some (pt_status_message r)\<rparr>)"

definition unit_result_status :: "parse_result \<Rightarrow> translation_unit_status" where
  "unit_result_status r = (if pt_success r then UNIT_COMPLETED else UNIT_FAILED)"

definition analyze_unit ::
    "run_env \<Rightarrow> string \<Rightarrow> string \<Rightarrow> project \<Rightarrow> string \<Rightarrow> compile_command_entry \<Rightarrow> progress \<Rightarrow> progress run_act" where
  "analyze_unit env project_id run_id project triple_name e pg =
     act_bind (add_unit run_id (oe_compile env) e) (\<lambda>i.
     let file = absolute_file (oe_compile env) e; unit_id = nat_str i in
     act_bind (act_seq [commit env, publish_event env (UnitStarted unit_id file)]) (\<lambda>_.
     act_bind (parse_translation_unit env
        \<lparr>pq_file_path = file, pq_working_directory = cc_directory e, pq_compile_flags = cc_arguments e,
         pq_toolchain_profile_id = pj_toolchain_profile_id project, pq_target_triple = triple_name\<rparr>) (\<lambda>r.
     act_bind (ast_cache_path env project_id run_id unit_id) (\<lambda>artifact_path.
     let pg' = note_parse file i r pg in
     act_bind (act_seq
       [write_ast_artifact env artifact_path
          \<lparr>sa_translation_unit_id = unit_id, sa_translation_unit_hash = pt_translation_unit_hash r,
           sa_artifact = artifact_of file r\<rparr>,
        update_unit i (parsed_unit artifact_path r),
        update_run (\<lambda>run. run\<lparr>ru_files_parsed := pg_parsed pg', ru_files_failed := pg_failed pg'\<rparr>),
        commit env,
        publish_event env (UnitParsed unit_id file (translation_unit_status_str (unit_result_status r))
          (length (pt_nodes r)) (pt_parse_duration_ms r))]) (\<lambda>_.
     act_return pg')))))"

definition analyze_units ::
    "run_env \<Rightarrow> string \<Rightarrow> string \<Rightarrow> project \<Rightarrow> string \<Rightarrow> string set \<Rightarrow> compile_command_entry list \<Rightarrow> progress run_act" where
  "analyze_units env project_id run_id project triple_name affected entries = act_fold
     (\<lambda>e pg. if absolute_file (oe_compile env) e \<notin> affected then act_return pg
             else analyze_unit env project_id run_id project triple_name e pg)
     entries \<lparr>pg_parsed = 0, pg_failed = 0, pg_artifacts = [], pg_unit_ids = []\<rparr>"

subsection \<open>The affected files\<close>

definition relative_units :: "compile_env \<Rightarrow> path \<Rightarrow> compile_command_entry list \<Rightarrow> py_error + string list" where
  "relative_units env project_root entries =
     try_map (\<lambda>e. map_sum id path_str (relative_to (py_path (absolute_file env e)) project_root)) entries"

definition previous_index :: "string \<Rightarrow> tables \<Rightarrow> (string, string) dict" where
  "previous_index project_id t = fold (\<lambda>r. dict_set (fe_relative_path r) (fe_content_hash r))
     (filter (\<lambda>r. fe_project_id r = project_id) (tb_index t)) []"

definition affected_files ::
    "run_env \<Rightarrow> string \<Rightarrow> path \<Rightarrow> analysis_run_type \<Rightarrow> string option \<Rightarrow> compile_command_entry list \<Rightarrow> file_index \<Rightarrow>
     string set run_act" where
  "affected_files env project_id project_root run_type base_run_id entries index =
     (if run_type = INCREMENTAL \<and> base_run_id \<noteq> None then
        act_bind (act_get (\<lambda>s. previous_index project_id (st_work s))) (\<lambda>previous.
        act_bind (act_lift (map_sum RunRaised id (relative_units (oe_compile env) project_root entries))) (\<lambda>tus.
        act_bind (act_await (compute_affected_translation_units (oe_order env)
           (compute_changed_files previous index) (index_include_graph index) tus)) (\<lambda>affected.
        act_return ((\<lambda>rel. path_str (ce_resolve (oe_compile env) (path_join project_root (py_path rel)))) ` set affected))))
      else act_return (absolute_file (oe_compile env) ` set entries))"

subsection \<open>The rules\<close>

definition new_dispatcher :: "run_env \<Rightarrow> (registry \<times> worker_pool) option run_act" where
  "new_dispatcher env = (if oe_rules_enabled env then
       act_lift (map_sum RegistryRaised (\<lambda>reg. Some (reg, mk_worker_pool (oe_tu_workers env) (oe_rule_workers env) (oe_rule_timeout env)))
         (create_default_registry (oe_registry env) (oe_standards_root env)))
     else act_return None)"

definition previous_violations :: "string \<Rightarrow> tables \<Rightarrow> previous_violation list" where
  "previous_violations project_id t = map (\<lambda>(fp, rid, file).
     \<lparr>pv_fingerprint = fp, pv_rule_id = rid, pv_file_path = file, pv_status = ''open''\<rparr>)
     (get_previous_fingerprints project_id (tb_violations t))"

text \<open>
  Storing the results: an integrity error comes from a flush.  The partial changes of an upsert
  that finds a fingerprint twice, which a consistent store excludes, are not kept.
\<close>

definition persist :: "run_env \<Rightarrow> string \<Rightarrow> string \<Rightarrow> dispatch_results \<Rightarrow> unit run_act" where
  "persist env run_id project_id results = act_bind next_effect (\<lambda>k s.
     if oe_flush_fails env k then Some (Inl FlushFailed, s\<lparr>st_unusable := True\<rparr>)
     else case persist_results run_id project_id (oe_clock env k) results (tb_violations (st_work s)) of
       Inl err \<Rightarrow> Some (Inl (StoreRaised err), s\<lparr>st_unusable := (st_unusable s \<or> err = IntegrityError)\<rparr>)
     | Inr store \<Rightarrow> Some (Inr (), s\<lparr>st_work := (st_work s)\<lparr>tb_violations := store\<rparr>\<rparr>))"

definition detected :: "dispatched_violation \<Rightarrow> event" where
  "detected v = ViolationDetected (dv_rule_id v) (dv_file_path v) (dv_line_start v) (dv_confidence_score v) (dv_fingerprint v)"

definition run_rules ::
    "run_env \<Rightarrow> string \<Rightarrow> string \<Rightarrow> pyval option \<Rightarrow> (string, string list) dict \<Rightarrow> previous_violation list \<Rightarrow>
     (registry \<times> worker_pool) option \<Rightarrow> progress \<Rightarrow> unit run_act" where
  "run_rules env project_id run_id profile include_graph previous dispatcher pg = (case dispatcher of
     None \<Rightarrow> act_return ()
   | Some (reg, pool) \<Rightarrow>
       if pg_artifacts pg = [] then act_return ()
       else act_bind (publish_event env (RulesStarted (length (pg_artifacts pg)))) (\<lambda>_.
         act_bind (act_await (execute_for_translation_units (oe_depth env) (oe_kinds env) (oe_pool env) reg pool
            (pg_artifacts pg) (pg_unit_ids pg) (profile_props profile) include_graph previous None)) (\<lambda>outcome.
         act_bind (act_lift (map_sum RulesRaised id outcome)) (\<lambda>results.
         act_seq ([persist env run_id project_id results, commit env,
           publish_event env (RulesCompleted (rs_violations_total (dr_statistics results))
             (rs_execution_duration_ms (dr_statistics results)))]
           @ map (\<lambda>v. publish_event env (detected v)) (dr_violations results))))))"

subsection \<open>The end of a run\<close>

definition index_entry :: "string \<Rightarrow> string \<Rightarrow> file_index_node \<Rightarrow> file_index_entry" where
  "index_entry project_id rel nd =
     \<lparr>fe_project_id = project_id, fe_relative_path = rel, fe_absolute_path = fi_absolute_path nd,
      fe_content_hash = fi_content_hash nd, fe_include_edges = fi_include_edges nd\<rparr>"

definition replace_entry :: "string \<Rightarrow> string \<times> file_index_node \<Rightarrow> file_index_entry list \<Rightarrow> file_index_entry list" where
  "replace_entry project_id e rows =
     filter (\<lambda>r. \<not> (fe_project_id r = project_id \<and> fe_relative_path r = fst e)) rows @ [index_entry project_id (fst e) (snd e)]"

definition save_index :: "string \<Rightarrow> file_index \<Rightarrow> unit run_act" where
  "save_index project_id index = act_modify (\<lambda>s. s\<lparr>st_work := (st_work s)\<lparr>tb_index :=
     fold (replace_entry project_id) index (tb_index (st_work s))\<rparr>\<rparr>)"

definition save_manifest :: "string \<Rightarrow> string set \<Rightarrow> nat \<Rightarrow> unit run_act" where
  "save_manifest run_id affected parsed = act_modify (\<lambda>s. s\<lparr>st_work := (st_work s)\<lparr>tb_manifests :=
     tb_manifests (st_work s) @ [\<lparr>im_analysis_run_id = run_id, im_changed_files = JsonList [],
       im_affected_translation_units = PySet affected, im_cache_hits = 0, im_cache_misses = parsed\<rparr>]\<rparr>\<rparr>)"

definition close_client :: "run_env \<Rightarrow> unit run_act" where
  "close_client env = act_bind next_effect (\<lambda>k. if oe_close_fails env k then act_raise CloseFailed else act_return ())"

definition complete_run :: "run_env \<Rightarrow> run_manifest \<Rightarrow> unit run_act" where
  "complete_run env manifest = act_seq
     [stamp_run env (\<lambda>now run. run\<lparr>ru_status := RUN_COMPLETED, ru_completed_at := Some now, ru_manifest := Some manifest\<rparr>),
      commit env, close_client env,
      act_bind (act_get (tb_run \<circ> st_work))
        (\<lambda>run. publish_event env (AnalysisCompleted (ru_files_total run) (ru_files_parsed run) (ru_files_failed run)))]"

definition reject_database :: "run_env \<Rightarrow> string list \<Rightarrow> unit run_act" where
  "reject_database env diagnostics =
     (let message = join_str ''; '' diagnostics in act_seq
       [stamp_run env (\<lambda>now run. run\<lparr>ru_status := RUN_FAILED, ru_error_message := Some message, ru_completed_at := Some now\<rparr>),
        commit env, publish_event env (AnalysisFailed message)])"

definition analyze_database ::
    "run_env \<Rightarrow> string \<Rightarrow> string \<Rightarrow> project \<Rightarrow> analysis_run_type \<Rightarrow> string option \<Rightarrow> path \<Rightarrow>
     compile_commands_validation \<Rightarrow> unit run_act" where
  "analyze_database env project_id run_id project run_type base_run_id commands_path validation =
     (let entries = cv_entries validation; project_root = py_path (pj_root_path project); ce = oe_compile env in
      act_bind (act_lift (map_sum RunRaised id (get_profile env (pj_toolchain_profile_id project)))) (\<lambda>profile.
      act_bind (act_lift (map_sum RunRaised id (target_triple_of profile))) (\<lambda>triple_name.
      act_bind (act_lift (map_sum RunRaised id (build_file_index (ce_sha256 ce) (ce_resolve ce) (ce_files ce) project_root
         (map (\<lambda>e. py_path (absolute_file ce e)) entries)))) (\<lambda>index.
      act_bind (affected_files env project_id project_root run_type base_run_id entries index) (\<lambda>affected.
      act_bind (act_seq [update_run (\<lambda>run. run\<lparr>ru_files_total := card affected\<rparr>), commit env]) (\<lambda>_.
      act_bind (new_dispatcher env) (\<lambda>dispatcher.
      act_bind (act_get (\<lambda>s. previous_violations project_id (st_work s))) (\<lambda>previous.
      act_bind (analyze_units env project_id run_id project triple_name affected entries) (\<lambda>pg.
      act_bind (run_rules env project_id run_id profile (index_include_graph index) previous dispatcher pg) (\<lambda>_.
      act_seq [save_index project_id index,
        if run_type = INCREMENTAL then save_manifest run_id affected (pg_parsed pg) else act_return (),
        complete_run env \<lparr>rm_compile_commands = path_str commands_path,
          rm_toolchain_profile_id = pj_toolchain_profile_id project,
          rm_validation_diagnostics = cv_diagnostics validation,
          rm_duplicates_removed = cv_duplicate_count validation\<rparr>]))))))))))"

definition run_body ::
    "run_env \<Rightarrow> string \<Rightarrow> string \<Rightarrow> project \<Rightarrow> analysis_run_type \<Rightarrow> string option \<Rightarrow> unit run_act" where
  "run_body env project_id run_id project run_type base_run_id =
     act_bind (act_seq
       [stamp_run env (\<lambda>now run. run\<lparr>ru_status := RUNNING, ru_started_at := Some now\<rparr>), commit env,
        publish_event env (AnalysisStarted project_id)]) (\<lambda>_.
     let commands_path = py_path (case pj_compile_commands_path project of None \<Rightarrow> '''' | Some p \<Rightarrow> p) in
     act_bind (act_lift (map_sum RunRaised id (load_compile_commands (oe_compile env) commands_path))) (\<lambda>validation.
     if \<not> cv_is_valid validation then reject_database env (cv_diagnostics validation)
     else analyze_database env project_id run_id project run_type base_run_id commands_path validation))"

definition fail_run :: "run_env \<Rightarrow> run_error \<Rightarrow> unit run_act" where
  "fail_run env err = act_seq
     [stamp_run env (\<lambda>now run. run\<lparr>ru_status := RUN_FAILED, ru_error_message := Some (oe_str env err), ru_completed_at := Some now\<rparr>),
      commit env, publish_event env (AnalysisFailed (oe_str env err))]"

text \<open>A run or a project that is not found is None: nothing happens.\<close>

definition run_analysis ::
    "run_env \<Rightarrow> string \<Rightarrow> string \<Rightarrow> project option \<Rightarrow> analysis_run option \<Rightarrow> analysis_run_type \<Rightarrow> string option \<Rightarrow> unit run_act" where
  "run_analysis env project_id run_id project run run_type base_run_id =
     (if run = None then act_return ()
      else (case project of
        None \<Rightarrow> act_return ()
      | Some pj \<Rightarrow> act_catch (run_body env project_id run_id pj run_type base_run_id) (fail_run env)))"

end
