(* ===== verification/Orchestrator_Props.thy ===== *)
theory Orchestrator_Props
  imports Orchestrator
begin

text \<open>
  What an analysis run guarantees: how it ends and which events tell so, what an incremental run
  leaves behind, what the counters count, and what the saved index is good for.
\<close>

subsection \<open>Invariants of the steps of a run\<close>

definition terminal_event :: "event \<Rightarrow> bool" where
  "terminal_event e = (case e of AnalysisFailed m \<Rightarrow> True | AnalysisCompleted t p f \<Rightarrow> True | _ \<Rightarrow> False)"

lemma terminal_event_simps [simp]:
  "terminal_event (AnalysisFailed m)" "terminal_event (AnalysisCompleted t p f)"
  "\<not> terminal_event (AnalysisStarted x)" "\<not> terminal_event (UnitStarted x y)" "\<not> terminal_event (UnitParsed a b c d i)"
  "\<not> terminal_event (RulesStarted n)" "\<not> terminal_event (RulesCompleted n q)" "\<not> terminal_event (detected v)"
  by (simp_all add: terminal_event_def detected_def)

definition run_status :: "tables \<Rightarrow> analysis_status" where
  "run_status t = ru_status (tb_run t)"

text \<open>An artifact made of an answer of the worker, and the dispatcher of a run.\<close>

definition from_worker :: "run_env \<Rightarrow> ast_artifact \<Rightarrow> bool" where
  "from_worker env a \<longleftrightarrow> (\<exists>k rq r. oe_parse env k rq = Inr r \<and> a = artifact_of (pq_file_path rq) r)"

definition run_dispatcher :: "run_env \<Rightarrow> (registry \<times> worker_pool) option \<Rightarrow> bool" where
  "run_dispatcher env d \<longleftrightarrow> (case d of None \<Rightarrow> True
     | Some (reg, pool) \<Rightarrow> oe_rules_enabled env
         \<and> create_default_registry (oe_registry env) (oe_standards_root env) = Inr reg
         \<and> pool = mk_worker_pool (oe_tu_workers env) (oe_rule_workers env) (oe_rule_timeout env))"

text \<open>The dispatch of a run returns, whatever the worker answered.\<close>

definition dispatch_returns :: "run_env \<Rightarrow> bool" where
  "dispatch_returns env \<longleftrightarrow> (\<forall>reg pool arts ids prof graph prev.
     run_dispatcher env (Some (reg, pool)) \<longrightarrow> list_all (from_worker env) arts \<longrightarrow>
     execute_for_translation_units (oe_depth env) (oe_kinds env) (oe_pool env) reg pool arts ids prof graph prev None \<noteq> None)"

lemma dispatch_returnsD:
  "dispatch_returns env \<Longrightarrow> run_dispatcher env (Some (reg, pool)) \<Longrightarrow> list_all (from_worker env) arts \<Longrightarrow>
   execute_for_translation_units (oe_depth env) (oe_kinds env) (oe_pool env) reg pool arts ids prof graph prev None \<noteq> None"
  unfolding dispatch_returns_def by blast

text \<open>
  An assertion about the state that survives the steps of a run.  It does not depend on the
  numbering of effects, on commits, harmless events and artifacts; then also not on the stored
  violations and the index, or not on the units and the counters, or on neither.
\<close>

locale session_invariant =
  fixes env :: run_env and I :: "run_state \<Rightarrow> bool"
  assumes effect: "I s \<Longrightarrow> I (s\<lparr>st_effects := k\<rparr>)"
    and commits: "I s \<Longrightarrow> \<not> st_unusable s \<Longrightarrow> flushable (st_work s) \<Longrightarrow> I (s\<lparr>st_db := st_work s\<rparr>)"
    and breaks: "I s \<Longrightarrow> I (s\<lparr>st_unusable := True\<rparr>)"
    and publishes: "I s \<Longrightarrow> \<not> terminal_event e \<Longrightarrow> I (s\<lparr>st_events := st_events s @ [e]\<rparr>)"
    and artifacts: "I s \<Longrightarrow> I (s\<lparr>st_artifacts := d\<rparr>)"
begin

lemma keeps_effect [keeps_intros]: "keeps I next_effect"
  by (rule keepsI) (simp add: next_effect_def effect)

lemma keeps_commit [keeps_intros]: "keeps I (commit env)"
  unfolding commit_def by (rule keeps_bind [OF keeps_effect], rule keepsI) (auto intro: commits breaks)

lemma keeps_publish [keeps_intros]: "\<not> terminal_event e \<Longrightarrow> keeps I (publish_event env e)"
  unfolding publish_event_def
  by (intro keeps_intros, rule keepsI) (simp add: act_modify_def publishes)

lemma keeps_write [keeps_intros]: "keeps I (write_ast_artifact env p payload)"
  unfolding write_ast_artifact_def by (intro keeps_intros, rule keepsI) (simp add: act_modify_def artifacts)

lemma keeps_cache_path [keeps_intros]: "keeps I (ast_cache_path env project_id run_id unit_id)"
  unfolding ast_cache_path_def by (intro keeps_intros)

lemma keeps_parse:
  "triple I (parse_translation_unit env rq) (\<lambda>r s. I s \<and> from_worker env (artifact_of (pq_file_path rq) r)) (\<lambda>e. I)"
proof (rule triple_conj_value)
  show "keeps I (parse_translation_unit env rq)"
    unfolding parse_translation_unit_def by (intro keeps_intros)
  show "from_worker env (artifact_of (pq_file_path rq) r)" if "parse_translation_unit env rq s = Some (Inr r, s')" for s r s'
    using that by (auto simp: parse_translation_unit_def act_bind_def next_effect_def act_lift_def from_worker_def)
qed

lemma keeps_affected_files:
  assumes "iterates_sets (oe_order env)"
  shows "keeps I (affected_files env project_id project_root run_type base_run_id entries index)"
proof -
  have "compute_affected_translation_units (oe_order env) changed graph tus \<noteq> None" for changed graph tus
    using affected_units [OF assms] by (metis option.distinct(1))
  then show ?thesis unfolding affected_files_def by (intro keeps_intros keeps_await)
qed

lemma keeps_dispatcher: "triple I (new_dispatcher env) (\<lambda>d s. I s \<and> run_dispatcher env d) (\<lambda>e. I)"
proof (rule triple_conj_value)
  show "keeps I (new_dispatcher env)"
    unfolding new_dispatcher_def by (intro keeps_intros)
  show "run_dispatcher env d" if "new_dispatcher env s = Some (Inr d, s')" for s d s'
    using that by (cases "create_default_registry (oe_registry env) (oe_standards_root env)")
      (auto simp: new_dispatcher_def run_dispatcher_def act_lift_def act_return_def split: if_splits)
qed

end

locale store_invariant = session_invariant +
  assumes stores: "I s \<Longrightarrow> I (s\<lparr>st_work := (st_work s)\<lparr>tb_violations := v\<rparr>\<rparr>)"
    and indexes: "I s \<Longrightarrow> I (s\<lparr>st_work := (st_work s)\<lparr>tb_index := ix\<rparr>\<rparr>)"
begin

lemma keeps_persist [keeps_intros]: "keeps I (persist env run_id project_id results)"
proof -
  have "I (s\<lparr>st_unusable := st_unusable s \<or> b\<rparr>)" if "I s" for s b
  proof -
    have same: "s\<lparr>st_unusable := st_unusable s\<rparr> = s" by (cases s) simp
    have "(st_unusable s \<or> b) = True \<or> (st_unusable s \<or> b) = st_unusable s" by blast
    then show ?thesis using that breaks [of s] same by metis
  qed
  then show ?thesis
    unfolding persist_def
    by (intro keeps_bind keeps_effect, intro keepsI) (auto intro: breaks stores split: sum.splits)
qed

lemma keeps_run_rules:
  assumes "dispatch_returns env" "run_dispatcher env dispatcher" "list_all (from_worker env) (pg_artifacts pg)"
  shows "keeps I (run_rules env project_id run_id profile graph previous dispatcher pg)"
proof (cases dispatcher)
  case (Some rp)
  obtain reg pool where rp: "dispatcher = Some (reg, pool)" using Some by (cases rp) simp
  then show ?thesis
    using dispatch_returnsD [OF assms(1) assms(2) [unfolded rp] assms(3)]
    by (auto simp: run_rules_def list_all_iff intro!: keeps_intros keeps_await keeps_seq)
qed (simp add: run_rules_def keeps_intros)

lemma keeps_save_index [keeps_intros]: "keeps I (save_index project_id index)"
  unfolding save_index_def by (rule keepsI) (simp add: act_modify_def indexes)

end

locale unit_invariant = session_invariant +
  assumes units: "I s \<Longrightarrow> I (s\<lparr>st_work := (st_work s)\<lparr>tb_units := us\<rparr>\<rparr>)"
    and counters: "I s \<Longrightarrow> ru_status run = run_status (st_work s) \<Longrightarrow> I (s\<lparr>st_work := (st_work s)\<lparr>tb_run := run\<rparr>\<rparr>)"
begin

lemma keeps_update_run [keeps_intros]:
  "(\<And>run. ru_status (f run) = ru_status run) \<Longrightarrow> keeps I (update_run f)"
  unfolding update_run_def by (rule keepsI) (simp add: act_modify_def counters run_status_def)

lemma keeps_update_unit [keeps_intros]: "keeps I (update_unit i f)"
  unfolding update_unit_def by (rule keepsI) (simp add: act_modify_def units)

lemma keeps_add_unit [keeps_intros]: "keeps I (add_unit run_id ce e)"
  by (rule keepsI) (simp add: add_unit_def Let_def units)

lemma keeps_analyze_unit:
  assumes "list_all (from_worker env) (pg_artifacts pg)"
  shows "triple I (analyze_unit env project_id run_id project triple_name e pg)
     (\<lambda>pg' s. I s \<and> list_all (from_worker env) (pg_artifacts pg')) (\<lambda>e. I)"
proof -
  have start: "keeps I (act_seq [commit env, publish_event env (UnitStarted unit_id name)])" for unit_id name
    by (intro keeps_seq) (simp add: keeps_intros)
  have finish: "keeps I (act_seq [write_ast_artifact env p payload, update_unit i f,
      update_run (\<lambda>run. run\<lparr>ru_files_parsed := a, ru_files_failed := b\<rparr>), commit env,
      publish_event env (UnitParsed unit_id name status n ms)])" for p payload i f a b unit_id name status n ms
    by (intro keeps_seq) (simp add: keeps_intros)
  show ?thesis
    unfolding analyze_unit_def Let_def
    by (intro triple_bind [OF keeps_triple [OF keeps_add_unit]] triple_bind [OF keeps_triple [OF start]]
        triple_value_bind [OF keeps_parse] triple_bind [OF keeps_triple [OF keeps_cache_path]]
        triple_bind [OF keeps_triple [OF finish]] triple_return) (use assms in \<open>auto simp: note_parse_def\<close>)
qed

lemma keeps_analyze_units:
  "triple I (analyze_units env project_id run_id project triple_name affected entries)
     (\<lambda>pg s. I s \<and> list_all (from_worker env) (pg_artifacts pg)) (\<lambda>e. I)"
proof -
  have skip: "triple (\<lambda>s. I s \<and> list_all (from_worker env) (pg_artifacts pg)) (if b then act_return pg
        else analyze_unit env project_id run_id project triple_name e pg)
      (\<lambda>pg s. I s \<and> list_all (from_worker env) (pg_artifacts pg)) (\<lambda>e. I)" for b e pg
  proof (cases "list_all (from_worker env) (pg_artifacts pg)")
    case True
    then show ?thesis
      using triple_weaken [OF keeps_analyze_unit [OF True, of project_id run_id project triple_name e]]
      by (cases b) (auto intro: triple_return)
  qed (simp add: triple_def)
  show ?thesis
    unfolding analyze_units_def
    by (rule triple_weaken [OF triple_fold [where I = "\<lambda>xs pg s. I s \<and> list_all (from_worker env) (pg_artifacts pg)", OF skip]]) auto
qed

end

locale run_invariant = store_invariant + unit_invariant

subsection \<open>How a run ends\<close>

text \<open>Events were only appended, none of them the end of the run.\<close>

definition open_run :: "event list \<Rightarrow> run_state \<Rightarrow> bool" where
  "open_run before s \<longleftrightarrow> (\<exists>mid. st_events s = before @ mid \<and> list_all (Not \<circ> terminal_event) mid)"

text \<open>
  The last event is the only one that ends the run, and it tells what the committed run says.
\<close>

definition closing_event :: "analysis_run \<Rightarrow> event \<Rightarrow> bool" where
  "closing_event run e \<longleftrightarrow>
     ru_status run = RUN_FAILED \<and> (\<exists>m. e = AnalysisFailed m \<and> ru_error_message run = Some m)
     \<or> ru_status run = RUN_COMPLETED \<and> e = AnalysisCompleted (ru_files_total run) (ru_files_parsed run) (ru_files_failed run)"

definition closed_run :: "event list \<Rightarrow> run_state \<Rightarrow> bool" where
  "closed_run before s \<longleftrightarrow> (\<exists>mid e. st_events s = before @ mid @ [e] \<and> list_all (Not \<circ> terminal_event) mid
     \<and> closing_event (tb_run (st_db s)) e \<and> \<not> st_unusable s)"

interpretation open_run: run_invariant env "open_run before" for env before
  by unfold_locales (fastforce simp: open_run_def)+

lemmas run_step_defs = stamp_run_def act_bind_def next_effect_def update_run_def act_modify_def commit_def
  close_client_def publish_event_def act_get_def act_raise_def act_return_def if_distribR

lemma open_run_start: "open_run (st_events s) s"
  by (simp add: open_run_def)

lemma open_run_cong: "st_events s' = st_events s \<Longrightarrow> open_run before s' = open_run before s"
  by (simp add: open_run_def)

lemma complete_run_closes: "triple (open_run before) (complete_run env manifest) (\<lambda>_. closed_run before) (\<lambda>_. open_run before)"
  by (auto simp: triple_def complete_run_def run_step_defs open_run_def closed_run_def closing_event_def)

lemma reject_database_closes:
  "triple (open_run before) (reject_database env ds) (\<lambda>_. closed_run before) (\<lambda>_. open_run before)"
  by (auto simp: triple_def reject_database_def Let_def run_step_defs open_run_def closed_run_def closing_event_def)

lemma analyze_database_closes:
  assumes "iterates_sets (oe_order env)" "dispatch_returns env"
  shows "triple (open_run before)
     (analyze_database env project_id run_id project run_type base_run_id commands_path validation)
     (\<lambda>_. closed_run before) (\<lambda>_. open_run before)"
proof -
  have manifest: "keeps (open_run before) (if b then save_manifest run_id affected n else act_return ())" for b affected n
    by (intro keepsI) (simp add: save_manifest_def act_modify_def act_return_def open_run_def)
  have finish: "triple (open_run before) (act_seq [save_index project_id index,
        if b then save_manifest run_id affected n else act_return (), complete_run env m])
     (\<lambda>_. closed_run before) (\<lambda>_. open_run before)" for index b affected n m
    by (intro triple_seq_Cons [OF complete_run_closes] triple_seq_Nil
        triple_seq_Cons [OF keeps_triple [OF open_run.keeps_save_index]] triple_seq_Cons [OF keeps_triple [OF manifest]])
  have files: "keeps (open_run before) (act_seq [update_run (\<lambda>run. run\<lparr>ru_files_total := n\<rparr>), commit env])" for n
    by (intro keeps_seq) (simp add: open_run.keeps_update_run open_run.keeps_commit)
  show ?thesis
    unfolding analyze_database_def Let_def
    by (rule triple_bind [OF keeps_triple [OF keeps_lift]] triple_bind [OF keeps_triple [OF keeps_get]]
        triple_bind [OF keeps_triple [OF open_run.keeps_affected_files [OF assms(1)]]]
        triple_value_bind [OF open_run.keeps_dispatcher] triple_value_bind [OF open_run.keeps_analyze_units]
        triple_bind [OF keeps_triple [OF open_run.keeps_run_rules [OF assms(2)]]] finish
        triple_bind [OF keeps_triple [OF files]] | assumption)+
qed

lemma run_body_closes:
  assumes "iterates_sets (oe_order env)" "dispatch_returns env"
  shows "triple (open_run before) (run_body env project_id run_id project run_type base_run_id)
     (\<lambda>_. closed_run before) (\<lambda>_. open_run before)"
proof -
  have start: "triple (open_run before) (act_seq
       [stamp_run env (\<lambda>now run. run\<lparr>ru_status := RUNNING, ru_started_at := Some now\<rparr>), commit env,
        publish_event env (AnalysisStarted project_id)]) (\<lambda>_. open_run before) (\<lambda>_. open_run before)"
  proof (intro keeps_triple keeps_seq)
    have "keeps (open_run before) (stamp_run env (\<lambda>now run. run\<lparr>ru_status := RUNNING, ru_started_at := Some now\<rparr>))"
      by (rule keepsI) (simp add: run_step_defs open_run_def)
    then show "list_all (keeps (open_run before))
       [stamp_run env (\<lambda>now run. run\<lparr>ru_status := RUNNING, ru_started_at := Some now\<rparr>), commit env,
        publish_event env (AnalysisStarted project_id)]"
      by (simp add: open_run.keeps_commit open_run.keeps_publish)
  qed
  show ?thesis
    unfolding run_body_def Let_def
    by (intro triple_bind [OF start] triple_bind [OF keeps_triple] keeps_lift triple_if reject_database_closes
        analyze_database_closes assms)
qed

text \<open>Handling an exception: the run is marked failed unless the session cannot be used.\<close>

definition left_open :: "event list \<Rightarrow> run_state \<Rightarrow> bool" where
  "left_open before s \<longleftrightarrow> open_run before s \<and> (st_unusable s \<or> run_status (st_db s) = RUN_FAILED)"

lemma fail_run_closes:
  "triple (open_run before) (fail_run env err) (\<lambda>_. closed_run before) (\<lambda>_. left_open before)"
  by (auto simp: triple_def fail_run_def run_step_defs open_run_def closed_run_def closing_event_def left_open_def run_status_def)

lemma run_closes:
  assumes "iterates_sets (oe_order env)" "dispatch_returns env"
  shows "triple (open_run before) (run_analysis env project_id run_id (Some project) (Some run) run_type base_run_id)
     (\<lambda>_. closed_run before) (\<lambda>_. left_open before)"
  using triple_catch [OF run_body_closes [OF assms] fail_run_closes] by (simp add: run_analysis_def)


subsection \<open>An example\<close>

definition example_run_env :: run_env where
  "example_run_env =
     \<lparr>oe_compile = example_database\<lparr>ce_files := (\<lambda>p. if p = [''/'', ''p'', ''db''] then Some (File ''json'')
          else if p = [''/'', ''p'', ''a.c''] then Some (File ''int x;'') else None)\<rparr>,
      oe_profile_dir = [''/'', ''profiles''], oe_storage_root = [''/'', ''data''], oe_rules_enabled = False,
      oe_registry = \<lparr>re_files = (\<lambda>p. None), re_safe_load = (\<lambda>t. Inl ParseError), re_modules = (\<lambda>m. None), re_glob = (\<lambda>p. [])\<rparr>,
      oe_standards_root = [''/'', ''standards''], oe_tu_workers = 2, oe_rule_workers = 4, oe_rule_timeout = 5,
      oe_pool = example_pool_env, oe_depth = 5, oe_kinds = [''VarDecl''], oe_order = sorted_list_of_set,
      oe_clock = int, oe_publish_fails = (\<lambda>k. False), oe_flush_fails = (\<lambda>k. False), oe_write_fails = (\<lambda>k. False),
      oe_close_fails = (\<lambda>k. False),
      oe_parse = (\<lambda>k rq. Inr \<lparr>pt_success = True, pt_status_message = [], pt_translation_unit_hash = ''h'',
        pt_parse_duration_ms = 3, pt_nodes = [], pt_diagnostics = [], pt_preprocessor = empty_macro_table\<rparr>),
      oe_str = (\<lambda>e. ''error'')\<rparr>"

definition example_project :: project where
  "example_project = \<lparr>pj_root_path = ''/p'', pj_toolchain_profile_id = ''clang-host'', pj_compile_commands_path = Some ''/p/db''\<rparr>"

definition queued_run :: analysis_run where
  "queued_run = \<lparr>ru_status = QUEUED, ru_files_total = 0, ru_files_parsed = 0, ru_files_failed = 0, ru_error_message = None,
     ru_manifest = None, ru_started_at = None, ru_completed_at = None\<rparr>"

definition queued_tables :: tables where
  "queued_tables = \<lparr>tb_run = queued_run, tb_units = [], tb_index = [], tb_manifests = [], tb_violations = empty_store\<rparr>"

definition queued_state :: run_state where
  "queued_state = \<lparr>st_work = queued_tables, st_db = queued_tables, st_unusable = False, st_events = [], st_artifacts = [], st_effects = 0\<rparr>"

lemma example_dispatch_returns: "dispatch_returns example_run_env"
  by (simp add: dispatch_returns_def run_dispatcher_def example_run_env_def)

lemma example_iterates: "iterates_sets (oe_order example_run_env)"
  by (simp add: example_run_env_def iterates_sets_def)


subsection \<open>Incremental runs\<close>

definition still_running :: "run_state \<Rightarrow> bool" where
  "still_running s \<longleftrightarrow> run_status (st_work s) = RUNNING \<and> run_status (st_db s) \<noteq> RUN_COMPLETED"

definition uncompleted :: "run_state \<Rightarrow> bool" where
  "uncompleted s \<longleftrightarrow> run_status (st_db s) \<noteq> RUN_COMPLETED"

interpretation still_running: run_invariant env still_running for env
  by unfold_locales (auto simp: still_running_def run_status_def)

lemma unflushable_manifest: "\<not> flushable (t\<lparr>tb_manifests := ms @ [m\<lparr>im_affected_translation_units := PySet S\<rparr>]\<rparr>)"
  by (simp add: flushable_def json_serializable_def)

lemma unflushable_completion:
  "\<not> flushable (st_work s) \<Longrightarrow> \<exists>err s'. complete_run env m s = Some (Inl err, s') \<and> st_unusable s' \<and> st_db s' = st_db s"
  by (auto simp: complete_run_def run_step_defs flushable_def)

lemma unusable_failure:
  "st_unusable s \<Longrightarrow> \<exists>s'. fail_run env err s = Some (Inl PendingRollback, s') \<and> st_db s' = st_db s"
  by (auto simp: fail_run_def run_step_defs)

lemma save_manifest_unflushable:
  "\<exists>s'. save_manifest run_id affected n s = Some (Inr (), s') \<and> \<not> flushable (st_work s') \<and> st_db s' = st_db s"
  by (simp add: save_manifest_def act_modify_def flushable_def json_serializable_def)

lemma still_running_uncompleted: "still_running s \<Longrightarrow> uncompleted s"
  by (simp add: still_running_def uncompleted_def)

lemma still_running_keeps: "keeps still_running m \<Longrightarrow> triple still_running m (\<lambda>_. still_running) (\<lambda>_. uncompleted)"
  unfolding keeps_def by (erule triple_weaken) (auto intro: still_running_uncompleted)

lemma still_running_value:
  "triple still_running m (\<lambda>x s. still_running s \<and> V x) (\<lambda>_. still_running) \<Longrightarrow>
   triple still_running m (\<lambda>x s. still_running s \<and> V x) (\<lambda>_. uncompleted)"
  by (erule triple_weaken) (auto intro: still_running_uncompleted)

lemma incremental_tail:
  "triple still_running (act_seq [save_index project_id index, save_manifest run_id affected n, complete_run env m])
     (\<lambda>_. uncompleted) (\<lambda>_. uncompleted)"
proof (rule triple_seq_Cons [OF still_running_keeps [OF still_running.keeps_save_index]])
  show "triple still_running (act_seq [save_manifest run_id affected n, complete_run env m]) (\<lambda>_. uncompleted) (\<lambda>_. uncompleted)"
  proof (rule tripleI)
    fix s :: run_state assume s: "still_running s"
    obtain s1 where s1: "save_manifest run_id affected n s = Some (Inr (), s1)" "\<not> flushable (st_work s1)" "st_db s1 = st_db s"
      using save_manifest_unflushable by blast
    obtain err s2 where "complete_run env m s1 = Some (Inl err, s2)" "st_db s2 = st_db s1"
      using unflushable_completion [OF s1(2)] by blast
    then show "(\<exists>e s'. act_seq [save_manifest run_id affected n, complete_run env m] s = Some (Inl e, s') \<and> uncompleted s')
        \<or> (\<exists>x s'. act_seq [save_manifest run_id affected n, complete_run env m] s = Some (Inr x, s') \<and> uncompleted s')"
      using s s1 by (simp add: act_bind_def still_running_def uncompleted_def)
  qed
qed

lemma incremental_body:
  assumes "iterates_sets (oe_order env)" "dispatch_returns env"
  shows "triple uncompleted (run_body env project_id run_id project INCREMENTAL base_run_id)
     (\<lambda>_. uncompleted) (\<lambda>_. uncompleted)"
proof -
  have files: "keeps still_running (act_seq [update_run (\<lambda>run. run\<lparr>ru_files_total := n\<rparr>), commit env])" for n
    by (intro keeps_seq) (simp add: still_running.keeps_update_run still_running.keeps_commit)
  have database: "triple still_running
     (analyze_database env project_id run_id project INCREMENTAL base_run_id commands_path validation)
     (\<lambda>_. uncompleted) (\<lambda>_. uncompleted)" for commands_path validation
    unfolding analyze_database_def Let_def simp_thms if_True
    by (rule triple_bind [OF still_running_keeps [OF keeps_lift]] triple_bind [OF still_running_keeps [OF keeps_get]]
        triple_bind [OF still_running_keeps [OF still_running.keeps_affected_files [OF assms(1)]]]
        triple_value_bind [OF still_running_value [OF still_running.keeps_dispatcher]]
        triple_value_bind [OF still_running_value [OF still_running.keeps_analyze_units]]
        triple_bind [OF still_running_keeps [OF still_running.keeps_run_rules [OF assms(2)]]] incremental_tail
        triple_bind [OF still_running_keeps [OF files]] | assumption)+
  have start: "triple uncompleted (act_seq
       [stamp_run env (\<lambda>now run. run\<lparr>ru_status := RUNNING, ru_started_at := Some now\<rparr>), commit env,
        publish_event env (AnalysisStarted project_id)]) (\<lambda>_. still_running) (\<lambda>_. uncompleted)"
    by (auto simp: triple_def run_step_defs still_running_def uncompleted_def run_status_def)
  have reject: "triple still_running (reject_database env ds) (\<lambda>_. uncompleted) (\<lambda>_. uncompleted)" for ds
    by (auto simp: triple_def reject_database_def run_step_defs Let_def still_running_def uncompleted_def run_status_def)
  show ?thesis
    unfolding run_body_def Let_def
    by (intro triple_bind [OF start] triple_bind [OF still_running_keeps [OF keeps_lift]] triple_if reject database)
qed

text \<open>
  C31: An incremental run never completes.  Its manifest stores a Python set in a JSON column, so
  the last commit fails in its flush; the handler's own commit is then refused, the exception
  escapes, and the committed run stays as it was: running.
\<close>

theorem incremental_never_completes:
  assumes "iterates_sets (oe_order env)" "dispatch_returns env" "run_status (st_db s) \<noteq> RUN_COMPLETED"
  shows "(\<exists>r s'. run_analysis env project_id run_id (Some project) (Some run) INCREMENTAL base_run_id s = Some (r, s')
      \<and> run_status (st_db s') \<noteq> RUN_COMPLETED)
    \<and> (\<exists>t'. act_catch (act_seq [save_manifest run_id affected n, complete_run env m]) (fail_run env) t
        = Some (Inl PendingRollback, t') \<and> st_db t' = st_db t)"
proof
  have fail: "triple uncompleted (fail_run env err) (\<lambda>_. uncompleted) (\<lambda>_. uncompleted)" for err
    by (auto simp: triple_def fail_run_def run_step_defs uncompleted_def run_status_def)
  have "triple uncompleted (run_analysis env project_id run_id (Some project) (Some run) INCREMENTAL base_run_id)
      (\<lambda>_. uncompleted) (\<lambda>_. uncompleted)"
    using triple_catch [OF incremental_body [OF assms(1,2)] fail] by (simp add: run_analysis_def)
  moreover have "uncompleted s" using assms(3) by (simp add: uncompleted_def)
  ultimately show "\<exists>r s'. run_analysis env project_id run_id (Some project) (Some run) INCREMENTAL base_run_id s = Some (r, s')
      \<and> run_status (st_db s') \<noteq> RUN_COMPLETED"
    by (cases rule: tripleE) (auto simp: uncompleted_def)
next
  obtain t1 where t1: "save_manifest run_id affected n t = Some (Inr (), t1)" "\<not> flushable (st_work t1)" "st_db t1 = st_db t"
    using save_manifest_unflushable by blast
  obtain err t2 where t2: "complete_run env m t1 = Some (Inl err, t2)" "st_unusable t2" "st_db t2 = st_db t1"
    using unflushable_completion [OF t1(2)] by blast
  then show "\<exists>t'. act_catch (act_seq [save_manifest run_id affected n, complete_run env m]) (fail_run env) t
      = Some (Inl PendingRollback, t') \<and> st_db t' = st_db t"
    using t1 unusable_failure [OF t2(2), of env err] by (auto simp: act_catch_def act_bind_def)
qed

theorem incremental_never_completes_witness:
  "(\<exists>r s'. run_analysis example_run_env ''p'' ''r'' (Some example_project) (Some queued_run) INCREMENTAL None queued_state
        = Some (r, s') \<and> run_status (st_db s') \<noteq> RUN_COMPLETED)
    \<and> (\<exists>t'. act_catch (act_seq [save_manifest ''r'' {''/p/a.c''} 1, complete_run example_run_env
          \<lparr>rm_compile_commands = ''/p/db'', rm_toolchain_profile_id = ''clang-host'', rm_validation_diagnostics = [],
           rm_duplicates_removed = 0\<rparr>]) (fail_run example_run_env) queued_state
        = Some (Inl PendingRollback, t') \<and> st_db t' = st_db queued_state)"
  by (rule incremental_never_completes [OF example_iterates example_dispatch_returns])
    (simp add: run_status_def queued_state_def queued_tables_def queued_run_def)

subsection \<open>What a completed run has counted\<close>

interpretation fixed_work: session_invariant env "\<lambda>s. st_work s = t" for env t
  by unfold_locales auto

definition new_unit :: "string \<Rightarrow> compile_env \<Rightarrow> nat \<Rightarrow> compile_command_entry \<Rightarrow> translation_unit_record" where
  "new_unit run_id ce i e = \<lparr>tr_id = i, tr_analysis_run_id = run_id, tr_file_path = absolute_file ce e,
     tr_working_directory = cc_directory e, tr_compile_flags = cc_arguments e, tr_status = PARSING,
     tr_translation_unit_hash = None, tr_ast_cache_path = None, tr_node_count = 0, tr_parse_duration_ms = 0,
     tr_diagnostics = None, tr_preprocessor = None, tr_error_message = None\<rparr>"

text \<open>The tables after one unit was analyzed.\<close>

definition unit_analyzed ::
    "string \<Rightarrow> compile_env \<Rightarrow> compile_command_entry \<Rightarrow> parse_result \<Rightarrow> path \<Rightarrow> progress \<Rightarrow> tables \<Rightarrow> tables" where
  "unit_analyzed run_id ce e r p pg t =
     t\<lparr>tb_units := map (\<lambda>u. if tr_id u = length (tb_units t) then parsed_unit p r u else u)
          (tb_units t @ [new_unit run_id ce (length (tb_units t)) e]),
       tb_run := (tb_run t)\<lparr>ru_files_parsed := pg_parsed pg, ru_files_failed := pg_failed pg\<rparr>\<rparr>"

lemma add_unit_work:
  "triple (\<lambda>s. st_work s = t) (add_unit run_id ce e)
     (\<lambda>i s. st_work s = t\<lparr>tb_units := tb_units t @ [new_unit run_id ce (length (tb_units t)) e]\<rparr> \<and> i = length (tb_units t))
     (\<lambda>e s. True)"
  by (simp add: triple_def add_unit_def Let_def new_unit_def)

lemma fixed_work_keeps: "keeps (\<lambda>s. st_work s = t) m \<Longrightarrow> triple (\<lambda>s. st_work s = t) m (\<lambda>x s. st_work s = t) (\<lambda>e s. True)"
  unfolding keeps_def by (erule triple_weaken) auto

lemma analyze_unit_work:
  "triple (\<lambda>s. st_work s = t) (analyze_unit env project_id run_id project triple_name e pg)
     (\<lambda>pg' s. \<exists>r p k rq. oe_parse env k rq = Inr r
        \<and> pg' = note_parse (absolute_file (oe_compile env) e) (length (tb_units t)) r pg
        \<and> st_work s = unit_analyzed run_id (oe_compile env) e r p pg' t) (\<lambda>e s. True)"
proof -
  let ?t = "t\<lparr>tb_units := tb_units t @ [new_unit run_id (oe_compile env) (length (tb_units t)) e]\<rparr>"
  have start: "keeps (\<lambda>s. st_work s = ?t) (act_seq [commit env, publish_event env (UnitStarted unit_id name)])" for unit_id name
    by (intro keeps_seq) (simp add: fixed_work.keeps_commit fixed_work.keeps_publish)
  have parse: "triple (\<lambda>s. st_work s = ?t) (parse_translation_unit env rq)
      (\<lambda>r s. st_work s = ?t \<and> (\<exists>k rq. oe_parse env k rq = Inr r)) (\<lambda>e s. True)" for rq
    by (auto simp: triple_def parse_translation_unit_def act_bind_def next_effect_def act_lift_def split: sum.splits)
  have finish: "triple (\<lambda>s. st_work s = ?t) (act_seq [write_ast_artifact env p payload,
      update_unit (length (tb_units t)) (parsed_unit p r),
      update_run (\<lambda>run. run\<lparr>ru_files_parsed := pg_parsed pg', ru_files_failed := pg_failed pg'\<rparr>), commit env,
      publish_event env (UnitParsed unit_id name status n ms)])
     (\<lambda>_ s. st_work s = unit_analyzed run_id (oe_compile env) e r p pg' t) (\<lambda>e s. True)" for p payload r pg' unit_id name status n ms
  proof (rule triple_seq_Cons [OF fixed_work_keeps [OF fixed_work.keeps_write]], rule triple_seq_Cons, rule_tac [2] triple_seq_Cons)
    show "triple (\<lambda>s. st_work s = ?t) (update_unit (length (tb_units t)) (parsed_unit p r))
        (\<lambda>_ s. st_work s = ?t\<lparr>tb_units := map (\<lambda>u. if tr_id u = length (tb_units t) then parsed_unit p r u else u)
          (tb_units ?t)\<rparr>) (\<lambda>e s. True)"
      by (simp add: triple_def update_unit_def act_modify_def)
    show "triple (\<lambda>s. st_work s = ?t\<lparr>tb_units := map (\<lambda>u. if tr_id u = length (tb_units t) then parsed_unit p r u else u)
          (tb_units ?t)\<rparr>) (update_run (\<lambda>run. run\<lparr>ru_files_parsed := pg_parsed pg', ru_files_failed := pg_failed pg'\<rparr>))
        (\<lambda>_ s. st_work s = unit_analyzed run_id (oe_compile env) e r p pg' t) (\<lambda>e s. True)"
      by (simp add: triple_def update_run_def act_modify_def unit_analyzed_def)
    show "triple (\<lambda>s. st_work s = unit_analyzed run_id (oe_compile env) e r p pg' t)
        (act_seq [commit env, publish_event env (UnitParsed unit_id name status n ms)])
        (\<lambda>_ s. st_work s = unit_analyzed run_id (oe_compile env) e r p pg' t) (\<lambda>e s. True)"
      by (intro fixed_work_keeps keeps_seq) (simp add: fixed_work.keeps_commit fixed_work.keeps_publish)
  qed
  show ?thesis
    unfolding analyze_unit_def Let_def
    by (intro triple_bind [OF add_unit_work] triple_pure, simp only:)
      (intro triple_bind [OF fixed_work_keeps [OF start]] triple_value_bind [OF parse]
        triple_bind [OF fixed_work_keeps [OF fixed_work.keeps_cache_path]] triple_bind [OF finish] triple_return, blast)
qed

definition with_status :: "translation_unit_status \<Rightarrow> translation_unit_record list \<Rightarrow> translation_unit_record list" where
  "with_status st us = filter (\<lambda>u. tr_status u = st) us"

text \<open>A unit analyzed for an entry, and the units and counters after some entries.\<close>

definition unit_for :: "string \<Rightarrow> compile_env \<Rightarrow> compile_command_entry \<Rightarrow> translation_unit_record \<Rightarrow> bool" where
  "unit_for run_id ce e u \<longleftrightarrow> tr_analysis_run_id u = run_id \<and> tr_file_path u = absolute_file ce e
     \<and> tr_working_directory u = cc_directory e \<and> tr_compile_flags u = cc_arguments e
     \<and> tr_status u \<in> {UNIT_COMPLETED, UNIT_FAILED}"

definition counted ::
    "string \<Rightarrow> compile_env \<Rightarrow> translation_unit_record list \<Rightarrow> compile_command_entry list \<Rightarrow> nat \<Rightarrow> tables \<Rightarrow> bool" where
  "counted run_id ce before es tot t \<longleftrightarrow> (\<exists>us. tb_units t = before @ us \<and> list_all2 (unit_for run_id ce) es us
     \<and> ru_files_total (tb_run t) = tot
     \<and> ru_files_parsed (tb_run t) = length (with_status UNIT_COMPLETED us)
     \<and> ru_files_failed (tb_run t) = length (with_status UNIT_FAILED us))"

definition ids_below :: "translation_unit_record list \<Rightarrow> bool" where
  "ids_below us \<longleftrightarrow> list_all (\<lambda>u. tr_id u < length us) us"

definition counting ::
    "string \<Rightarrow> compile_env \<Rightarrow> translation_unit_record list \<Rightarrow> compile_command_entry list \<Rightarrow> nat \<Rightarrow> progress \<Rightarrow> tables \<Rightarrow> bool" where
  "counting run_id ce before es tot pg t \<longleftrightarrow> counted run_id ce before es tot t \<and> ids_below (tb_units t)
     \<and> pg_parsed pg = ru_files_parsed (tb_run t) \<and> pg_failed pg = ru_files_failed (tb_run t)"

lemma with_status_simps [simp]:
  "with_status st [] = []" "with_status st (us @ vs) = with_status st us @ with_status st vs"
  "with_status st [u] = (if tr_status u = st then [u] else [])"
  by (simp_all add: with_status_def)

lemma parsed_unit_fields [simp]:
  "tr_id (parsed_unit p r u) = tr_id u" "tr_status (parsed_unit p r u) = (if pt_success r then UNIT_COMPLETED else UNIT_FAILED)"
  by (simp_all add: parsed_unit_def Let_def)

lemma parsed_unit_for: "unit_for run_id ce e (parsed_unit p r (new_unit run_id ce i e))"
  by (simp add: unit_for_def parsed_unit_def new_unit_def Let_def)

lemma units_analyzed:
  assumes "ids_below (tb_units t)"
  shows "tb_units (unit_analyzed run_id ce e r p pg t)
    = tb_units t @ [parsed_unit p r (new_unit run_id ce (length (tb_units t)) e)]"
proof -
  have "map (\<lambda>u. if tr_id u = length (tb_units t) then parsed_unit p r u else u) (tb_units t) = tb_units t"
    using assms by (intro map_idI) (auto simp: ids_below_def list_all_iff)
  then show ?thesis by (simp add: unit_analyzed_def new_unit_def)
qed

lemma counting_step:
  assumes "counting run_id ce before es tot pg t"
  shows "counting run_id ce before (es @ [e]) tot (note_parse file i r pg)
     (unit_analyzed run_id ce e r p (note_parse file i r pg) t)"
proof -
  obtain us where us: "tb_units t = before @ us" "list_all2 (unit_for run_id ce) es us" "ru_files_total (tb_run t) = tot"
    "pg_parsed pg = length (with_status UNIT_COMPLETED us)" "pg_failed pg = length (with_status UNIT_FAILED us)"
    "ids_below (tb_units t)"
    using assms by (auto simp: counting_def counted_def)
  let ?u = "parsed_unit p r (new_unit run_id ce (length (tb_units t)) e)"
  have units: "tb_units (unit_analyzed run_id ce e r p (note_parse file i r pg) t) = before @ us @ [?u]"
    using units_analyzed [OF us(6)] us(1) by simp
  have "list_all2 (unit_for run_id ce) (es @ [e]) (us @ [?u])"
    using us(2) parsed_unit_for by (simp add: list_all2_appendI)
  moreover have "ids_below (before @ us @ [?u])"
    using us(1,6) by (auto simp: ids_below_def list_all_iff new_unit_def less_Suc_eq)
  ultimately show ?thesis
    using us(3-5) unfolding counting_def counted_def units
    by (auto simp: unit_analyzed_def note_parse_def intro!: exI [of _ "us @ [?u]"])
qed

lemma analyze_units_counting:
  assumes "\<forall>e \<in> set entries. absolute_file (oe_compile env) e \<in> affected"
  shows "triple (\<lambda>s. counting run_id (oe_compile env) before [] tot
          \<lparr>pg_parsed = 0, pg_failed = 0, pg_artifacts = [], pg_unit_ids = []\<rparr> (st_work s))
     (analyze_units env project_id run_id project triple_name affected entries)
     (\<lambda>pg s. counting run_id (oe_compile env) before entries tot pg (st_work s)) (\<lambda>e s. True)"
proof -
  let ?I = "\<lambda>xs pg (s :: run_state). \<exists>done. entries = done @ xs \<and> counting run_id (oe_compile env) before done tot pg (st_work s)"
  have "triple (?I (e # xs) pg) (if absolute_file (oe_compile env) e \<notin> affected then act_return pg
      else analyze_unit env project_id run_id project triple_name e pg) (?I xs) (\<lambda>e s. True)" for e xs pg
  proof (rule tripleI)
    fix s :: run_state assume "?I (e # xs) pg s"
    then obtain es where es: "entries = es @ e # xs" "counting run_id (oe_compile env) before es tot pg (st_work s)" by blast
    then have "absolute_file (oe_compile env) e \<in> affected" using assms by simp
    moreover have "(\<exists>err s'. analyze_unit env project_id run_id project triple_name e pg s = Some (Inl err, s'))
        \<or> (\<exists>pg' s'. analyze_unit env project_id run_id project triple_name e pg s = Some (Inr pg', s') \<and> ?I xs pg' s')"
      using analyze_unit_work [of "st_work s" env project_id run_id project triple_name e pg] refl [of "st_work s"]
    proof (cases rule: tripleE)
      case (returned pg' s')
      then show ?thesis using counting_step [OF es(2)] es(1) by (intro disjI2) (fastforce intro: exI [of _ "es @ [e]"])
    qed blast
    ultimately show "(\<exists>err s'. (if absolute_file (oe_compile env) e \<notin> affected then act_return pg
          else analyze_unit env project_id run_id project triple_name e pg) s = Some (Inl err, s') \<and> True)
        \<or> (\<exists>pg' s'. (if absolute_file (oe_compile env) e \<notin> affected then act_return pg
          else analyze_unit env project_id run_id project triple_name e pg) s = Some (Inr pg', s') \<and> ?I xs pg' s')"
      by simp
  qed
  from triple_fold [where I = ?I and f = "\<lambda>e pg. if absolute_file (oe_compile env) e \<notin> affected then act_return pg
      else analyze_unit env project_id run_id project triple_name e pg", OF this]
  show ?thesis unfolding analyze_units_def by (rule triple_weaken) auto
qed

definition uncounted :: "translation_unit_record list \<Rightarrow> tables \<Rightarrow> bool" where
  "uncounted before t \<longleftrightarrow> tb_units t = before \<and> ids_below before
     \<and> ru_files_parsed (tb_run t) = 0 \<and> ru_files_failed (tb_run t) = 0"

text \<open>If the committed run is complete, its units and counters belong to the entries.\<close>

definition completed_counts ::
    "string \<Rightarrow> compile_env \<Rightarrow> translation_unit_record list \<Rightarrow> compile_command_entry list \<Rightarrow> run_state \<Rightarrow> bool" where
  "completed_counts run_id ce before es s \<longleftrightarrow> (run_status (st_db s) = RUN_COMPLETED \<longrightarrow>
     counted run_id ce before es (card (absolute_file ce ` set es)) (st_db s))"

interpretation uncounted_run: store_invariant env "\<lambda>s. still_running s \<and> uncounted before (st_work s)" for env before
  by unfold_locales (auto simp: still_running_def run_status_def uncounted_def)

interpretation counted_run: store_invariant env "\<lambda>s. still_running s \<and> counted run_id ce before es tot (st_work s)"
  for env run_id ce before es tot
  by unfold_locales (auto simp: still_running_def run_status_def counted_def)

interpretation counting_run: session_invariant env "\<lambda>s. still_running s \<and> counting run_id ce before es tot pg (st_work s)"
  for env run_id ce before es tot pg
  by unfold_locales (auto simp: still_running_def run_status_def counting_def)

lemma uncompleted_counts: "still_running s \<Longrightarrow> completed_counts run_id ce before es s"
  by (simp add: still_running_def completed_counts_def)

lemma counts_keep:
  "keeps (\<lambda>s. still_running s \<and> P s) m \<Longrightarrow>
   triple (\<lambda>s. still_running s \<and> P s) m (\<lambda>x s. still_running s \<and> P s) (\<lambda>e. completed_counts run_id ce before es)"
  unfolding keeps_def by (erule triple_weaken) (auto intro: uncompleted_counts)

lemma counts_value:
  "triple (\<lambda>s. still_running s \<and> P s) m (\<lambda>x s. (still_running s \<and> P s) \<and> V x) (\<lambda>_ s. still_running s \<and> P s) \<Longrightarrow>
   triple (\<lambda>s. still_running s \<and> P s) m (\<lambda>x s. (still_running s \<and> P s) \<and> V x) (\<lambda>e. completed_counts run_id ce before es)"
  by (erule triple_weaken) (auto intro: uncompleted_counts)

lemma full_tail:
  "triple (\<lambda>s. still_running s \<and> counted run_id ce before es (card (absolute_file ce ` set es)) (st_work s))
     (act_seq [save_index project_id index, act_return (), complete_run env m])
     (\<lambda>_. completed_counts run_id ce before es) (\<lambda>_. completed_counts run_id ce before es)"
proof (rule triple_seq_Cons [OF counts_keep [OF counted_run.keeps_save_index]], rule triple_seq_Cons [OF counts_keep [OF keeps_return]])
  show "triple (\<lambda>s. still_running s \<and> counted run_id ce before es (card (absolute_file ce ` set es)) (st_work s))
      (act_seq [complete_run env m]) (\<lambda>_. completed_counts run_id ce before es) (\<lambda>_. completed_counts run_id ce before es)"
    by (auto simp: triple_def complete_run_def run_step_defs still_running_def completed_counts_def run_status_def counted_def)
qed

lemma full_units:
  assumes "iterates_sets (oe_order env)" and "\<forall>e \<in> set es. absolute_file (oe_compile env) e \<in> affected"
  shows "triple (\<lambda>s. still_running s \<and> counting run_id (oe_compile env) before [] tot
        \<lparr>pg_parsed = 0, pg_failed = 0, pg_artifacts = [], pg_unit_ids = []\<rparr> (st_work s))
     (analyze_units env project_id run_id project triple_name affected es)
     (\<lambda>pg s. (still_running s \<and> counted run_id (oe_compile env) before es tot (st_work s))
        \<and> list_all (from_worker env) (pg_artifacts pg))
     (\<lambda>e. completed_counts run_id (oe_compile env) before es)"
  by (rule triple_weaken [OF triple_both [OF still_running.keeps_analyze_units analyze_units_counting [OF assms(2)]]])
    (auto simp: counting_def intro: uncompleted_counts)

lemma full_database:
  assumes "iterates_sets (oe_order env)" "dispatch_returns env"
  shows "triple (\<lambda>s. still_running s \<and> uncounted before (st_work s))
     (analyze_database env project_id run_id project FULL base_run_id commands_path validation)
     (\<lambda>_. completed_counts run_id (oe_compile env) before (cv_entries validation))
     (\<lambda>_. completed_counts run_id (oe_compile env) before (cv_entries validation))"
proof -
  let ?es = "cv_entries validation" and ?ce = "oe_compile env"
  let ?affected = "absolute_file ?ce ` set ?es"
  have files: "triple (\<lambda>s. still_running s \<and> uncounted before (st_work s))
      (act_seq [update_run (\<lambda>run. run\<lparr>ru_files_total := n\<rparr>), commit env])
      (\<lambda>_ s. still_running s \<and> counting run_id ?ce before [] n
        \<lparr>pg_parsed = 0, pg_failed = 0, pg_artifacts = [], pg_unit_ids = []\<rparr> (st_work s))
      (\<lambda>_. completed_counts run_id ?ce before ?es)" for n
    by (auto simp: triple_def run_step_defs still_running_def completed_counts_def run_status_def uncounted_def
        counting_def counted_def)
  have affected: "affected_files env project_id base FULL base_run_id ?es index = act_return ?affected" for base index
    by (simp add: affected_files_def)
  have tail: "triple (\<lambda>s. still_running s \<and> counted run_id ?ce before ?es (card ?affected) (st_work s))
     (act_seq [save_index project_id index, if FULL = INCREMENTAL then save_manifest run_id A n else act_return (),
        complete_run env m])
     (\<lambda>_. completed_counts run_id ?ce before ?es) (\<lambda>_. completed_counts run_id ?ce before ?es)" for index A n m
    using full_tail by simp
  have units: "\<forall>e \<in> set ?es. absolute_file ?ce e \<in> ?affected" by simp
  show ?thesis
    unfolding analyze_database_def Let_def affected act_bind_return
    by (rule triple_bind [OF files] triple_bind [OF counts_keep [OF keeps_lift]] triple_bind [OF counts_keep [OF keeps_get]]
        triple_value_bind [OF counts_value [OF counting_run.keeps_dispatcher]]
        triple_value_bind [OF full_units [OF assms(1) units]]
        triple_bind [OF counts_keep [OF counted_run.keeps_run_rules [OF assms(2)]]] tail | assumption)+
qed

definition database_counts ::
    "run_env \<Rightarrow> string \<Rightarrow> project \<Rightarrow> translation_unit_record list \<Rightarrow> run_state \<Rightarrow> bool" where
  "database_counts env run_id project before s \<longleftrightarrow> (run_status (st_db s) = RUN_COMPLETED \<longrightarrow>
     (\<exists>v. load_compile_commands (oe_compile env)
            (py_path (case pj_compile_commands_path project of None \<Rightarrow> '''' | Some p \<Rightarrow> p)) = Inr v
        \<and> completed_counts run_id (oe_compile env) before (cv_entries v) s))"

lemma full_run_triple:
  assumes "iterates_sets (oe_order env)" "dispatch_returns env"
  shows "triple (\<lambda>s. uncompleted s \<and> uncounted before (st_work s))
     (run_analysis env project_id run_id (Some project) (Some run) FULL base_run_id)
     (\<lambda>_. database_counts env run_id project before) (\<lambda>_. database_counts env run_id project before)"
proof -
  let ?D = "database_counts env run_id project before"
  let ?path = "py_path (case pj_compile_commands_path project of None \<Rightarrow> '''' | Some p \<Rightarrow> p)"
  have open_D: "still_running s \<Longrightarrow> ?D s" for s
    by (simp add: still_running_def database_counts_def)
  have start: "triple (\<lambda>s. uncompleted s \<and> uncounted before (st_work s)) (act_seq
       [stamp_run env (\<lambda>now run. run\<lparr>ru_status := RUNNING, ru_started_at := Some now\<rparr>), commit env,
        publish_event env (AnalysisStarted project_id)]) (\<lambda>_ s. still_running s \<and> uncounted before (st_work s)) (\<lambda>_. ?D)"
    by (auto simp: triple_def run_step_defs still_running_def uncompleted_def run_status_def uncounted_def database_counts_def)
  have reject: "triple (\<lambda>s. still_running s \<and> uncounted before (st_work s)) (reject_database env ds) (\<lambda>_. ?D) (\<lambda>_. ?D)" for ds
    by (auto simp: triple_def reject_database_def run_step_defs Let_def still_running_def run_status_def database_counts_def)
  have database: "triple (\<lambda>s. still_running s \<and> uncounted before (st_work s))
     (analyze_database env project_id run_id project FULL base_run_id ?path v) (\<lambda>_. ?D) (\<lambda>_. ?D)"
    if "load_compile_commands (oe_compile env) ?path = Inr v" for v
    by (rule triple_weaken [OF full_database [OF assms]]) (use that in \<open>auto simp: database_counts_def\<close>)
  have load: "triple (\<lambda>s. still_running s \<and> uncounted before (st_work s))
      (act_lift (map_sum RunRaised id (load_compile_commands (oe_compile env) ?path)))
      (\<lambda>v s. (still_running s \<and> uncounted before (st_work s)) \<and> load_compile_commands (oe_compile env) ?path = Inr v) (\<lambda>_. ?D)"
    by (cases "load_compile_commands (oe_compile env) ?path") (auto intro!: triple_lift open_D)
  have body: "triple (\<lambda>s. uncompleted s \<and> uncounted before (st_work s))
      (run_body env project_id run_id project FULL base_run_id) (\<lambda>_. ?D) (\<lambda>_. ?D)"
    unfolding run_body_def Let_def
    by (intro triple_bind [OF start] triple_value_bind [OF load] triple_if reject database)
  have "triple ?D (fail_run env err) (\<lambda>_. ?D) (\<lambda>_. ?D)" for err
    by (auto simp: triple_def fail_run_def run_step_defs run_status_def database_counts_def completed_counts_def)
  from triple_catch [OF body this] show ?thesis by (simp add: run_analysis_def)
qed

text \<open>
  C30: When a full run is committed as completed, its database loaded, each of its entries has exactly
  one new translation unit, in their order, that is completed or failed, and the counters count
  these.  The total counts the files, not the entries: two entries of one file make the parsed and
  failed units more than the total.
\<close>

theorem full_run_counts:
  assumes "iterates_sets (oe_order env)" "dispatch_returns env"
    and "run_status (st_db s) \<noteq> RUN_COMPLETED" "uncounted before (st_work s)"
    and "run_analysis env project_id run_id (Some project) (Some run) FULL base_run_id s = Some (r, s')"
    and "run_status (st_db s') = RUN_COMPLETED"
  shows "\<exists>v us. load_compile_commands (oe_compile env)
         (py_path (case pj_compile_commands_path project of None \<Rightarrow> '''' | Some p \<Rightarrow> p)) = Inr v
    \<and> tb_units (st_db s') = before @ us \<and> list_all2 (unit_for run_id (oe_compile env)) (cv_entries v) us
    \<and> ru_files_parsed (tb_run (st_db s')) = length (with_status UNIT_COMPLETED us)
    \<and> ru_files_failed (tb_run (st_db s')) = length (with_status UNIT_FAILED us)
    \<and> ru_files_total (tb_run (st_db s')) = card (absolute_file (oe_compile env) ` set (cv_entries v))
    \<and> ru_files_total (tb_run (st_db s')) \<le> ru_files_parsed (tb_run (st_db s')) + ru_files_failed (tb_run (st_db s'))"
proof -
  have "database_counts env run_id project before s'"
    using full_run_triple [OF assms(1,2), of before project_id run_id project run base_run_id] assms(3-5)
    by (cases r) (auto simp: triple_def uncompleted_def split: option.splits)
  then obtain v us where v: "load_compile_commands (oe_compile env)
         (py_path (case pj_compile_commands_path project of None \<Rightarrow> '''' | Some p \<Rightarrow> p)) = Inr v"
    "tb_units (st_db s') = before @ us" "list_all2 (unit_for run_id (oe_compile env)) (cv_entries v) us"
    "ru_files_parsed (tb_run (st_db s')) = length (with_status UNIT_COMPLETED us)"
    "ru_files_failed (tb_run (st_db s')) = length (with_status UNIT_FAILED us)"
    "ru_files_total (tb_run (st_db s')) = card (absolute_file (oe_compile env) ` set (cv_entries v))"
    using assms(6) unfolding database_counts_def completed_counts_def counted_def by blast
  have "length (with_status UNIT_COMPLETED us) + length (with_status UNIT_FAILED us) = length us"
    using v(3) by (induction rule: list_all2_induct) (auto simp: with_status_def unit_for_def)
  moreover have "card (absolute_file (oe_compile env) ` set (cv_entries v)) \<le> length us"
    using list_all2_lengthD [OF v(3)] by (metis card_image_le card_length finite_set le_trans)
  ultimately show ?thesis using v by (intro exI [of _ v] exI [of _ us]) simp
qed

text \<open>The example's database, index and answers, evaluated.\<close>

definition example_unit :: compile_command_entry where
  "example_unit = \<lparr>cc_file = ''a.c'', cc_directory = ''/p'', cc_arguments = [''cc'', ''-DX=1''], cc_output = Some ''a.o''\<rparr>"

definition example_validation :: compile_commands_validation where
  "example_validation = \<lparr>cv_is_valid = True, cv_source = ''/p/db'', cv_entries = [example_unit],
     cv_diagnostics = [''Entry 1 is missing required fields''], cv_duplicate_count = 1\<rparr>"

lemma example_load:
  "load_compile_commands (oe_compile example_run_env) (py_path ''/p/db'') = Inr example_validation"
  by code_simp

lemma example_file: "absolute_file (oe_compile example_run_env) example_unit = ''/p/a.c''"
  by code_simp

lemma example_profile: "get_profile example_run_env ''clang-host'' = Inr None"
  by code_simp

lemma example_index:
  "build_file_index (ce_sha256 (oe_compile example_run_env)) (ce_resolve (oe_compile example_run_env))
     (ce_files (oe_compile example_run_env)) (py_path ''/p'') [py_path ''/p/a.c'']
   = Inr [(''a.c'', \<lparr>fi_relative_path = ''a.c'', fi_absolute_path = ''/p/a.c'', fi_content_hash = ''int x;'', fi_include_edges = []\<rparr>)]"
proof -
  have "py_path ''/p'' = [''/'', ''p'']" "py_path ''/p/a.c'' = [''/'', ''p'', ''a.c'']" by code_simp+
  then show ?thesis
    by (simp add: build_file_index_def index_file_def relative_to_def hash_file_eq path_str_def roots_def
        dict_set_def example_run_env_def example_database_def)
qed

lemma example_entries: "cv_entries example_validation = [example_unit]" "cv_is_valid example_validation"
  by (simp_all add: example_validation_def)

lemma example_env_simps:
  "oe_publish_fails example_run_env k = False" "oe_flush_fails example_run_env k = False"
  "oe_write_fails example_run_env k = False" "oe_close_fails example_run_env k = False"
  "oe_rules_enabled example_run_env = False" "oe_clock example_run_env = int"
  "oe_parse example_run_env k rq = Inr \<lparr>pt_success = True, pt_status_message = [], pt_translation_unit_hash = ''h'',
        pt_parse_duration_ms = 3, pt_nodes = [], pt_diagnostics = [], pt_preprocessor = empty_macro_table\<rparr>"
  by (simp_all add: example_run_env_def)

lemmas run_defs = run_analysis_def act_catch_def run_body_def analyze_database_def run_step_defs Let_def act_lift_def
  new_dispatcher_def analyze_units_def analyze_unit_def add_unit_def parse_translation_unit_def ast_cache_path_def
  write_ast_artifact_def update_unit_def run_rules_def save_index_def complete_run_def affected_files_def

lemmas example_values = example_load example_file example_profile example_index example_entries example_env_simps

lemma example_run:
  "\<exists>s'. run_analysis example_run_env ''p'' ''r'' (Some example_project) (Some queued_run) FULL None queued_state
     = Some (Inr (), s') \<and> run_status (st_db s') = RUN_COMPLETED"
  by (simp add: run_defs example_values example_project_def target_triple_of_def queued_state_def queued_tables_def
      queued_run_def flushable_def run_status_def)

text \<open>The same project incrementally: everything succeeds, yet the run is left running.\<close>

lemma example_incremental:
  "\<exists>s'. run_analysis example_run_env ''p'' ''r'' (Some example_project) (Some queued_run) INCREMENTAL None queued_state
     = Some (Inl PendingRollback, s') \<and> run_status (st_db s') = RUNNING"
  by (simp add: run_defs example_values example_project_def target_triple_of_def queued_state_def queued_tables_def
      queued_run_def flushable_def run_status_def save_manifest_def json_serializable_def fail_run_def)

theorem full_run_counts_witness:
  "\<exists>s'. run_analysis example_run_env ''p'' ''r'' (Some example_project) (Some queued_run) FULL None queued_state
       = Some (Inr (), s')
    \<and> (\<exists>v us. load_compile_commands (oe_compile example_run_env)
         (py_path (case pj_compile_commands_path example_project of None \<Rightarrow> '''' | Some p \<Rightarrow> p)) = Inr v
    \<and> tb_units (st_db s') = [] @ us \<and> list_all2 (unit_for ''r'' (oe_compile example_run_env)) (cv_entries v) us
    \<and> ru_files_parsed (tb_run (st_db s')) = length (with_status UNIT_COMPLETED us)
    \<and> ru_files_failed (tb_run (st_db s')) = length (with_status UNIT_FAILED us)
    \<and> ru_files_total (tb_run (st_db s')) = card (absolute_file (oe_compile example_run_env) ` set (cv_entries v))
    \<and> ru_files_total (tb_run (st_db s')) \<le> ru_files_parsed (tb_run (st_db s')) + ru_files_failed (tb_run (st_db s')))"
proof -
  have start: "run_status (st_db queued_state) \<noteq> RUN_COMPLETED" "uncounted [] (st_work queued_state)"
    by (simp_all add: run_status_def uncounted_def ids_below_def queued_state_def queued_tables_def queued_run_def)
  obtain s' where run: "run_analysis example_run_env ''p'' ''r'' (Some example_project) (Some queued_run) FULL None queued_state
      = Some (Inr (), s')" "run_status (st_db s') = RUN_COMPLETED"
    using example_run by blast
  from full_run_counts [OF example_iterates example_dispatch_returns start run] run(1) show ?thesis
    by (intro exI [of _ s'] conjI)
qed

subsection \<open>The saved index\<close>

definition index_rows :: "string \<Rightarrow> file_index_entry list \<Rightarrow> (string, string) dict" where
  "index_rows project_id rows = fold (\<lambda>r. dict_set (fe_relative_path r) (fe_content_hash r))
     (filter (\<lambda>r. fe_project_id r = project_id) rows) []"

lemma fold_rows_other:
  "map_of d k = map_of d' k \<Longrightarrow> k \<noteq> rel \<Longrightarrow>
   map_of (fold (\<lambda>r. dict_set (fe_relative_path r) (fe_content_hash r)) (filter (\<lambda>r. fe_relative_path r \<noteq> rel) rows) d) k
     = map_of (fold (\<lambda>r. dict_set (fe_relative_path r) (fe_content_hash r)) rows d') k"
proof (induction rows arbitrary: d d')
  case (Cons r rows)
  show ?case
  proof (cases "fe_relative_path r = rel")
    case True
    have "map_of d k = map_of (dict_set rel (fe_content_hash r) d') k" using Cons.prems by simp
    from Cons.IH [OF this Cons.prems(2)] True show ?thesis by simp
  next
    case False
    have "map_of (dict_set (fe_relative_path r) (fe_content_hash r) d) k
        = map_of (dict_set (fe_relative_path r) (fe_content_hash r) d') k" using Cons.prems by simp
    from Cons.IH [OF this Cons.prems(2)] False show ?thesis by simp
  qed
qed simp

lemma index_rows_replace:
  "map_of (index_rows project_id (replace_entry project_id (rel, nd) rows))
     = (map_of (index_rows project_id rows))(rel \<mapsto> fi_content_hash nd)"
proof
  fix k
  let ?own = "filter (\<lambda>r. fe_project_id r = project_id) rows"
  have own: "filter (\<lambda>r. fe_project_id r = project_id) (replace_entry project_id (rel, nd) rows)
      = filter (\<lambda>r. fe_relative_path r \<noteq> rel) ?own @ [index_entry project_id rel nd]"
    by (auto simp: replace_entry_def index_entry_def conj_commute intro: filter_cong)
  show "map_of (index_rows project_id (replace_entry project_id (rel, nd) rows)) k
      = ((map_of (index_rows project_id rows))(rel \<mapsto> fi_content_hash nd)) k"
    unfolding index_rows_def own
    using fold_rows_other [of "[]" k "[]" rel ?own]
    by (simp add: index_entry_def)
qed

lemma index_rows_save:
  "distinct (dict_keys index) \<Longrightarrow> map_of (index_rows project_id (fold (replace_entry project_id) index rows)) k
     = (case map_of index k of Some nd \<Rightarrow> Some (fi_content_hash nd) | None \<Rightarrow> map_of (index_rows project_id rows) k)"
proof (induction index arbitrary: rows)
  case (Cons e index)
  obtain rel nd where e: "e = (rel, nd)" by (cases e)
  have "map_of index rel = None" using Cons.prems by (simp add: e dict_keys_def map_of_eq_None_iff)
  then show ?case
    using Cons by (auto simp: e dict_keys_def index_rows_replace split: option.splits)
qed simp

text \<open>
  C32: The index a run saves records every indexed file, so that of unchanged files none counts as
  changed in the next run.  The rows of files that vanished from the database are kept, however, and
  these files count as changed in every later run.
\<close>

theorem saved_index_exact:
  assumes "distinct (dict_keys index)"
  shows "\<exists>s'. save_index project_id index s = Some (Inr (), s') \<and>
     set (compute_changed_files (previous_index project_id (st_work s')) index)
       = set (dict_keys (previous_index project_id (st_work s))) - set (dict_keys index)"
proof -
  have previous: "previous_index project_id t = index_rows project_id (tb_index t)" for t
    by (simp add: previous_index_def index_rows_def)
  have "rel \<in> set (compute_changed_files (index_rows project_id (fold (replace_entry project_id) index rows)) index)
     \<longleftrightarrow> rel \<in> set (dict_keys (index_rows project_id rows)) \<and> rel \<notin> set (dict_keys index)" for rel rows
    unfolding compute_changed_files_set [OF assms] index_rows_save [OF assms]
    using map_of_None_dict_keys [of index rel] map_of_None_dict_keys [of "index_rows project_id rows" rel]
    by (cases "map_of index rel") auto
  then show ?thesis
    by (simp add: save_index_def act_modify_def previous set_eq_iff)
qed

text \<open>A row of a file that is no longer indexed.\<close>

definition stale_state :: run_state where
  "stale_state = queued_state\<lparr>st_work := queued_tables\<lparr>tb_index :=
     [\<lparr>fe_project_id = ''p'', fe_relative_path = ''old.c'', fe_absolute_path = ''/p/old.c'', fe_content_hash = ''x'',
       fe_include_edges = []\<rparr>]\<rparr>\<rparr>"

theorem saved_index_exact_witness:
  "\<exists>s'. save_index ''p'' [(''a.c'', \<lparr>fi_relative_path = ''a.c'', fi_absolute_path = ''/p/a.c'', fi_content_hash = ''h'',
         fi_include_edges = []\<rparr>)] stale_state = Some (Inr (), s') \<and>
     set (compute_changed_files (previous_index ''p'' (st_work s')) [(''a.c'', \<lparr>fi_relative_path = ''a.c'',
         fi_absolute_path = ''/p/a.c'', fi_content_hash = ''h'', fi_include_edges = []\<rparr>)]) = {''old.c''}"
  using saved_index_exact [of "[(''a.c'', \<lparr>fi_relative_path = ''a.c'', fi_absolute_path = ''/p/a.c'', fi_content_hash = ''h'',
      fi_include_edges = []\<rparr>)]" "''p''" stale_state]
  by (simp add: dict_keys_def previous_index_def stale_state_def dict_set_def)

end
