(* ===== verification/Rules_Run.thy ===== *)
theory Rules_Run
  imports Orchestrator_Props
begin

text \<open>
  The composition of a run with the dispatcher: a full run whose units are parsed and that has a
  rule to execute cannot complete, since every dispatch ends with the attribute error.
\<close>

subsection \<open>What the dispatcher is given\<close>

definition dispatchable :: "run_env \<Rightarrow> progress \<Rightarrow> bool" where
  "dispatchable env pg \<longleftrightarrow> list_all (from_worker env) (pg_artifacts pg) \<and> pg_artifacts pg \<noteq> []
     \<and> length (pg_artifacts pg) = length (pg_unit_ids pg) \<and> distinct (pg_unit_ids pg)"

text \<open>Identifiers are those of earlier units.\<close>

definition own_ids :: "progress \<Rightarrow> tables \<Rightarrow> bool" where
  "own_ids pg t \<longleftrightarrow> length (pg_artifacts pg) = length (pg_unit_ids pg) \<and> distinct (pg_unit_ids pg)
     \<and> set (pg_unit_ids pg) \<subseteq> nat_str ` {..<length (tb_units t)}"

definition parses_all :: "run_env \<Rightarrow> bool" where
  "parses_all env \<longleftrightarrow> (\<forall>k rq r. oe_parse env k rq = Inr r \<longrightarrow> pt_success r)"

lemma own_ids_step:
  assumes "own_ids pg t" and "pt_success r"
  shows "own_ids (note_parse file (length (tb_units t)) r pg) (unit_analyzed run_id ce e r p (note_parse file (length (tb_units t)) r pg) t)"
    and "pg_artifacts (note_parse file i r pg) \<noteq> []"
proof -
  have "nat_str (length (tb_units t)) \<notin> nat_str ` {..<length (tb_units t)}"
    using nat_str_inject by (auto simp: inj_on_def)
  then have "nat_str (length (tb_units t)) \<notin> set (pg_unit_ids pg)"
    using assms(1) by (auto simp: own_ids_def)
  then show "own_ids (note_parse file (length (tb_units t)) r pg)
      (unit_analyzed run_id ce e r p (note_parse file (length (tb_units t)) r pg) t)"
    using assms by (auto simp: own_ids_def note_parse_def unit_analyzed_def lessThan_Suc)
  show "pg_artifacts (note_parse file i r pg) \<noteq> []"
    using assms(2) by (simp add: note_parse_def)
qed

lemma units_dispatchable:
  assumes "\<forall>e \<in> set entries. absolute_file (oe_compile env) e \<in> affected" "parses_all env" "entries \<noteq> []"
  shows "triple (\<lambda>s. True) (analyze_units env project_id run_id project triple_name affected entries)
     (\<lambda>pg s. own_ids pg (st_work s) \<and> pg_artifacts pg \<noteq> []) (\<lambda>e s. True)"
proof -
  let ?I = "\<lambda>xs pg (s :: run_state). \<exists>es. entries = es @ xs \<and> own_ids pg (st_work s) \<and> (es \<noteq> [] \<longrightarrow> pg_artifacts pg \<noteq> [])"
  have "triple (?I (e # xs) pg) (if absolute_file (oe_compile env) e \<notin> affected then act_return pg
      else analyze_unit env project_id run_id project triple_name e pg) (?I xs) (\<lambda>e s. True)" for e xs pg
  proof (rule tripleI)
    fix s :: run_state assume "?I (e # xs) pg s"
    then obtain es where es: "entries = es @ e # xs" "own_ids pg (st_work s)" by blast
    then have "absolute_file (oe_compile env) e \<in> affected" using assms(1) by simp
    moreover have "(\<exists>err s'. analyze_unit env project_id run_id project triple_name e pg s = Some (Inl err, s'))
        \<or> (\<exists>pg' s'. analyze_unit env project_id run_id project triple_name e pg s = Some (Inr pg', s') \<and> ?I xs pg' s')"
      using analyze_unit_work [of "st_work s" env project_id run_id project triple_name e pg] refl [of "st_work s"]
    proof (cases rule: tripleE)
      case (returned pg' s')
      then obtain r p k rq where r: "oe_parse env k rq = Inr r"
        "pg' = note_parse (absolute_file (oe_compile env) e) (length (tb_units (st_work s))) r pg"
        "st_work s' = unit_analyzed run_id (oe_compile env) e r p pg' (st_work s)" by blast
      then have "pt_success r" using assms(2) by (auto simp: parses_all_def)
      from own_ids_step [OF es(2) this] show ?thesis
        using es(1) r returned(1) by (intro disjI2) (fastforce intro: exI [of _ "es @ [e]"])
    qed blast
    ultimately show "(\<exists>err s'. (if absolute_file (oe_compile env) e \<notin> affected then act_return pg
          else analyze_unit env project_id run_id project triple_name e pg) s = Some (Inl err, s') \<and> True)
        \<or> (\<exists>pg' s'. (if absolute_file (oe_compile env) e \<notin> affected then act_return pg
          else analyze_unit env project_id run_id project triple_name e pg) s = Some (Inr pg', s') \<and> ?I xs pg' s')"
      by simp
  qed
  from triple_fold [where I = ?I and f = "\<lambda>e pg. if absolute_file (oe_compile env) e \<notin> affected then act_return pg
      else analyze_unit env project_id run_id project triple_name e pg", OF this]
  show ?thesis unfolding analyze_units_def by (rule triple_weaken) (use assms(3) in \<open>auto simp: own_ids_def\<close>)
qed

subsection \<open>Nothing is stored\<close>

text \<open>A run that is not complete, with the violations that were stored before it.\<close>

definition untouched :: "violation_store \<Rightarrow> run_state \<Rightarrow> bool" where
  "untouched V s \<longleftrightarrow> run_status (st_db s) \<noteq> RUN_COMPLETED \<and> tb_violations (st_db s) = V \<and> tb_violations (st_work s) = V"

definition untouched_running :: "violation_store \<Rightarrow> run_state \<Rightarrow> bool" where
  "untouched_running V s \<longleftrightarrow> untouched V s \<and> run_status (st_work s) = RUNNING"

interpretation untouched_running: unit_invariant env "untouched_running V" for env V
  by unfold_locales (auto simp: untouched_running_def untouched_def run_status_def)

lemma untouched_keep:
  "keeps (untouched_running V) m \<Longrightarrow> triple (untouched_running V) m (\<lambda>_. untouched_running V) (\<lambda>_. untouched V)"
  unfolding keeps_def by (erule triple_weaken) (auto simp: untouched_running_def)

lemma untouched_value:
  "triple (untouched_running V) m (\<lambda>x s. untouched_running V s \<and> W x) (\<lambda>_. untouched_running V) \<Longrightarrow>
   triple (untouched_running V) m (\<lambda>x s. untouched_running V s \<and> W x) (\<lambda>_. untouched V)"
  by (erule triple_weaken) (auto simp: untouched_running_def)

text \<open>Every dispatch of the run raises.\<close>

definition dispatch_raises_always :: "run_env \<Rightarrow> registry \<Rightarrow> worker_pool \<Rightarrow> bool" where
  "dispatch_raises_always env reg pool \<longleftrightarrow> (\<forall>pg prof graph prev. dispatchable env pg \<longrightarrow>
     execute_for_translation_units (oe_depth env) (oe_kinds env) (oe_pool env) reg pool (pg_artifacts pg) (pg_unit_ids pg)
       prof graph prev None = Some (Inl (DispatchRaised AttributeError)))"

lemma run_rules_raises:
  assumes "dispatch_raises_always env reg pool" "dispatchable env pg"
  shows "triple (untouched_running V) (run_rules env project_id run_id profile graph previous (Some (reg, pool)) pg)
     (\<lambda>_ _. False) (\<lambda>_. untouched V)"
proof -
  have raise: "execute_for_translation_units (oe_depth env) (oe_kinds env) (oe_pool env) reg pool (pg_artifacts pg) (pg_unit_ids pg)
       (profile_props profile) graph previous None = Some (Inl (DispatchRaised AttributeError))"
    using assms unfolding dispatch_raises_always_def by blast
  have rest: "triple (untouched_running V) (act_bind (act_await (execute_for_translation_units (oe_depth env) (oe_kinds env)
       (oe_pool env) reg pool (pg_artifacts pg) (pg_unit_ids pg) (profile_props profile) graph previous None))
      (\<lambda>outcome. act_bind (act_lift (map_sum RulesRaised id outcome)) f)) (\<lambda>_ _. False) (\<lambda>_. untouched V)" for f :: "dispatch_results \<Rightarrow> unit run_act"
    unfolding raise by (simp add: triple_def act_bind_def act_await_def act_lift_def untouched_running_def)
  have some: "pg_artifacts pg \<noteq> []" using assms(2) by (simp add: dispatchable_def)
  show ?thesis
    unfolding run_rules_def option.case prod.case if_not_P [OF some]
    by (rule triple_bind [OF untouched_keep [OF untouched_running.keeps_publish] rest]) simp
qed

lemma rules_database:
  assumes "iterates_sets (oe_order env)" "parses_all env" "run_dispatcher env (Some (reg, pool))"
    and "dispatch_raises_always env reg pool" "cv_entries validation \<noteq> []"
  shows "triple (untouched_running V)
     (analyze_database env project_id run_id project FULL base_run_id commands_path validation)
     (\<lambda>_. untouched V) (\<lambda>_. untouched V)"
proof -
  let ?es = "cv_entries validation" and ?ce = "oe_compile env"
  let ?affected = "absolute_file ?ce ` set ?es"
  have affected: "affected_files env project_id base FULL base_run_id ?es index = act_return ?affected" for base index
    by (simp add: affected_files_def)
  have files: "keeps (untouched_running V) (act_seq [update_run (\<lambda>run. run\<lparr>ru_files_total := n\<rparr>), commit env])" for n
    by (intro keeps_seq) (simp add: untouched_running.keeps_update_run untouched_running.keeps_commit)
  have dispatcher: "triple (untouched_running V) (new_dispatcher env)
      (\<lambda>d s. untouched_running V s \<and> d = Some (reg, pool)) (\<lambda>_. untouched V)"
    using assms(3) untouched_running.keeps_dispatcher
    by (auto simp: new_dispatcher_def run_dispatcher_def triple_def act_lift_def untouched_running_def)
  have affects: "\<forall>e \<in> set ?es. absolute_file ?ce e \<in> ?affected" by simp
  have units: "triple (untouched_running V) (analyze_units env project_id run_id project triple_name ?affected ?es)
      (\<lambda>pg s. untouched_running V s \<and> dispatchable env pg) (\<lambda>_. untouched V)" for triple_name
    by (rule triple_weaken [OF triple_both [OF untouched_running.keeps_analyze_units
            units_dispatchable [OF affects assms(2,5), of project_id run_id project triple_name]]])
      (auto simp: untouched_running_def dispatchable_def own_ids_def)
  have rules: "triple (untouched_running V)
      (act_bind (run_rules env project_id run_id profile graph previous (Some (reg, pool)) pg) f)
      (\<lambda>_. untouched V) (\<lambda>_. untouched V)" if "dispatchable env pg" for profile graph previous pg and f :: "unit \<Rightarrow> unit run_act"
    by (rule triple_bind [OF run_rules_raises [OF assms(4) that]]) (simp add: triple_def)
  show ?thesis
    unfolding analyze_database_def Let_def affected act_bind_return
    by (rule triple_bind [OF untouched_keep [OF keeps_lift]] triple_bind [OF untouched_keep [OF keeps_get]]
        triple_bind [OF untouched_keep [OF files]] triple_value_bind [OF dispatcher]
        triple_value_bind [OF units] | simp only: | erule rules)+
qed

lemma rules_run:
  assumes "iterates_sets (oe_order env)" "parses_all env" "run_dispatcher env (Some (reg, pool))"
    and "dispatch_raises_always env reg pool"
  shows "triple (untouched V) (run_analysis env project_id run_id (Some project) (Some run) FULL base_run_id)
     (\<lambda>_. untouched V) (\<lambda>_. untouched V)"
proof -
  have start: "triple (untouched V) (act_seq
       [stamp_run env (\<lambda>now run. run\<lparr>ru_status := RUNNING, ru_started_at := Some now\<rparr>), commit env,
        publish_event env (AnalysisStarted project_id)]) (\<lambda>_. untouched_running V) (\<lambda>_. untouched V)"
    by (auto simp: triple_def run_step_defs untouched_running_def untouched_def run_status_def)
  have reject: "triple (untouched_running V) (reject_database env ds) (\<lambda>_. untouched V) (\<lambda>_. untouched V)" for ds
    by (auto simp: triple_def reject_database_def run_step_defs Let_def untouched_running_def untouched_def run_status_def)
  have load: "triple (untouched_running V) (act_lift (map_sum RunRaised id (load_compile_commands (oe_compile env) p)))
      (\<lambda>v s. untouched_running V s \<and> (cv_is_valid v \<longrightarrow> cv_entries v \<noteq> [])) (\<lambda>_. untouched V)" for p
    using valid_has_entries
    by (cases "load_compile_commands (oe_compile env) p") (auto intro!: triple_lift simp: untouched_running_def)
  have body: "triple (untouched V) (run_body env project_id run_id project FULL base_run_id) (\<lambda>_. untouched V) (\<lambda>_. untouched V)"
    unfolding run_body_def Let_def
    by (intro triple_bind [OF start] triple_value_bind [OF load] triple_if reject rules_database [OF assms]) simp
  have "triple (untouched V) (fail_run env err) (\<lambda>_. untouched V) (\<lambda>_. untouched V)" for err
    by (auto simp: triple_def fail_run_def run_step_defs untouched_def run_status_def)
  from triple_catch [OF body this] show ?thesis by (simp add: run_analysis_def)
qed

subsection \<open>A run with rules\<close>

text \<open>Linking the parsed units and executing the rules on them returns.\<close>

definition rules_return :: "run_env \<Rightarrow> registry \<Rightarrow> worker_pool \<Rightarrow> bool" where
  "rules_return env reg pool \<longleftrightarrow> (\<forall>pg prof graph prev. dispatchable env pg \<longrightarrow>
     (\<exists>linkage. build_linkage (oe_kinds env)
         (map (\<lambda>(a, tu). (tu, ar_file_path a, mk_graph (ar_nodes a))) (zip (pg_artifacts pg) (pg_unit_ids pg))) = Some linkage
      \<and> (\<forall>job \<in> set (dispatch_jobs (select_rules reg None) prof graph prev linkage (zip (pg_artifacts pg) (pg_unit_ids pg))).
           \<forall>r \<in> set (select_rules reg None). rule_attempts (oe_depth env) (wl_engine pool) (tj_context job) r \<noteq> None)))"

text \<open>No cancellation, and every order of completion is a permutation.\<close>

definition fair_pool :: "pool_environment \<Rightarrow> bool" where
  "fair_pool pe \<longleftrightarrow> (\<forall>job. \<not> pe_set_at_start pe job) \<and> (\<forall>i. \<not> pe_set_at_completion pe i)
     \<and> (\<forall>w. mset (rn_complete (pe_run pe) w) = mset w) \<and> (\<forall>js. mset (pe_complete pe js) = mset js)"

lemma dispatch_raises_in_run:
  assumes "run_dispatcher env (Some (reg, pool))" "0 < oe_tu_workers env" "0 < oe_rule_workers env"
    and "fair_pool (oe_pool env)" "rg_plugins reg \<noteq> []" "rules_return env reg pool"
  shows "dispatch_raises_always env reg pool"
  unfolding dispatch_raises_always_def
proof (intro allI impI)
  fix pg prof graph prev
  assume pg: "dispatchable env pg"
  have created: "create_default_registry (oe_registry env) (oe_standards_root env) = Inr reg"
    and pool: "pool = mk_worker_pool (oe_tu_workers env) (oe_rule_workers env) (oe_rule_timeout env)"
    using assms(1) by (simp_all add: run_dispatcher_def)
  have ok: "registry_ok reg"
    using created discover_ok [OF empty_registry_ok, of "oe_registry env" "oe_standards_root env"]
    by (auto simp: create_default_registry_def split: prod.splits option.splits)
  have rules: "select_rules reg None \<noteq> []"
    using assms(5) by (simp add: select_rules_def)
  obtain linkage where linkage: "build_linkage (oe_kinds env)
         (map (\<lambda>(a, tu). (tu, ar_file_path a, mk_graph (ar_nodes a))) (zip (pg_artifacts pg) (pg_unit_ids pg))) = Some linkage"
    "\<And>job r. job \<in> set (dispatch_jobs (select_rules reg None) prof graph prev linkage (zip (pg_artifacts pg) (pg_unit_ids pg))) \<Longrightarrow>
       r \<in> set (select_rules reg None) \<Longrightarrow> rule_attempts (oe_depth env) (wl_engine pool) (tj_context job) r \<noteq> None"
    using assms(6) pg unfolding rules_return_def by meson
  show "execute_for_translation_units (oe_depth env) (oe_kinds env) (oe_pool env) reg pool (pg_artifacts pg) (pg_unit_ids pg)
       prof graph prev None = Some (Inl (DispatchRaised AttributeError))"
    by (rule dispatch_raises [OF ok rules _ _ _ linkage(1) _ _ _ _ _ _ _ linkage(2)])
      (use pg assms(2-4) in \<open>auto simp: dispatchable_def pool mk_worker_pool_def fair_pool_def\<close>)
qed

text \<open>
  With the rule engine enabled and a rule registered, a full run whose translation units are
  parsed never completes and stores no violation: the dispatch of the rules ends with an attribute
  error after all of them have run.
\<close>

theorem rules_fail_run:
  assumes "iterates_sets (oe_order env)" "parses_all env" "run_dispatcher env (Some (reg, pool))"
    and "0 < oe_tu_workers env" "0 < oe_rule_workers env" "fair_pool (oe_pool env)"
    and "rg_plugins reg \<noteq> []" "rules_return env reg pool"
    and "st_work s = st_db s" "run_status (st_db s) \<noteq> RUN_COMPLETED"
  shows "\<exists>r s'. run_analysis env project_id run_id (Some project) (Some run) FULL base_run_id s = Some (r, s')
    \<and> run_status (st_db s') \<noteq> RUN_COMPLETED \<and> tb_violations (st_db s') = tb_violations (st_db s)"
proof -
  have "untouched (tb_violations (st_db s)) s" using assms(9,10) by (simp add: untouched_def)
  with rules_run [OF assms(1-3) dispatch_raises_in_run [OF assms(3-8)]] show ?thesis
    by (cases rule: tripleE) (auto simp: untouched_def)
qed

subsection \<open>An example with one rule\<close>

definition rule_registry_env :: registry_env where
  "rule_registry_env = \<lparr>re_files = (\<lambda>p. Some (if p = [''m''] then File ''yaml'' else Directory)),
     re_safe_load = (\<lambda>t. Inr (PDict [(''standard'', PStr ''s''),
       (''rules'', PList [PDict [(''rule_id'', PStr ''broken''), (''module'', PStr ''m''), (''class_name'', PStr ''Broken'')]])])),
     re_modules = (\<lambda>m. Some [(''Broken'', Inr broken_rule)]), re_glob = (\<lambda>p. [[''m'']])\<rparr>"

definition rules_env :: run_env where
  "rules_env = example_run_env\<lparr>oe_rules_enabled := True, oe_registry := rule_registry_env\<rparr>"

definition rule_registry :: registry where
  "rule_registry = broken_registry\<lparr>rg_manifest_versions := [(PStr ''s'', PStr ''0.0.0'')]\<rparr>"

lemma rules_dispatcher: "run_dispatcher rules_env (Some (rule_registry, mk_worker_pool 2 4 5))"
proof -
  have id: "md_rule_id (rp_metadata broken_rule) = ''broken''" by code_simp
  have "create_default_registry rule_registry_env [''/'', ''standards''] = Inr rule_registry"
    by (simp add: create_default_registry_def discover_def rule_registry_env_def path_exists_def load_standard_def
        read_file_def load_manifest_def Let_def prop_get_def check_extends_def version_conflict_def
        register_manifest_entry_def empty_registry_def register_plugin_def import_plugin_def key_in_def id
        rule_registry_def broken_registry_def dict_set_def)
  then show ?thesis by (simp add: run_dispatcher_def rules_env_def example_run_env_def)
qed

lemma link_empty_units: "list_all (\<lambda>u. snd (snd u) = mk_graph []) us \<Longrightarrow> build_call_graph us = Some []"
proof -
  have step: "opt_fold (\<lambda>(tu, f, g) cg. opt_fold (call_step g) (nodes_by_kind g ''FunctionDecl'') cg) us cg = Some cg"
    if "list_all (\<lambda>u. snd (snd u) = mk_graph []) us" for us :: "unit_graph list" and cg
    using that by (induction us) (auto simp: nodes_by_kind_def mk_graph_def all_nodes_def)
  then show "list_all (\<lambda>u. snd (snd u) = mk_graph []) us \<Longrightarrow> build_call_graph us = Some []"
    by (simp add: build_call_graph_def)
qed

lemma rules_answer: "rules_return rules_env rule_registry (mk_worker_pool 2 4 5)"
  unfolding rules_return_def
proof (intro allI impI)
  fix pg prof graph prev
  assume "dispatchable rules_env pg"
  then have "list_all (\<lambda>a. ar_nodes a = []) (pg_artifacts pg)"
    by (auto simp: dispatchable_def list_all_iff from_worker_def rules_env_def example_run_env_def artifact_of_def)
  then have "list_all (\<lambda>u. snd (snd u) = mk_graph [])
      (map (\<lambda>(a, tu). (tu, ar_file_path a, mk_graph (ar_nodes a))) (zip (pg_artifacts pg) (pg_unit_ids pg)))"
    by (auto simp: list_all_iff dest: set_zip_leftD)
  from link_empty_units [OF this] show "\<exists>linkage. build_linkage (oe_kinds rules_env)
         (map (\<lambda>(a, tu). (tu, ar_file_path a, mk_graph (ar_nodes a))) (zip (pg_artifacts pg) (pg_unit_ids pg))) = Some linkage
      \<and> (\<forall>job \<in> set (dispatch_jobs (select_rules rule_registry None) prof graph prev linkage (zip (pg_artifacts pg) (pg_unit_ids pg))).
           \<forall>r \<in> set (select_rules rule_registry None).
             rule_attempts (oe_depth rules_env) (wl_engine (mk_worker_pool 2 4 5)) (tj_context job) r \<noteq> None)"
    by (simp add: build_linkage_def select_rules_def rule_registry_def broken_registry_def broken_rule_def raising_rule_def
        rule_attempts_def rule_detect_def attempt_loop_const Let_def)
qed

theorem rules_fail_run_witness:
  "\<exists>r s'. run_analysis rules_env ''p'' ''r'' (Some example_project) (Some queued_run) FULL None queued_state = Some (r, s')
    \<and> run_status (st_db s') \<noteq> RUN_COMPLETED \<and> tb_violations (st_db s') = tb_violations (st_db queued_state)"
  by (rule rules_fail_run [OF _ _ rules_dispatcher _ _ _ _ rules_answer])
    (simp_all add: rules_env_def example_run_env_def iterates_sets_def parses_all_def fair_pool_def example_pool_env_def
      example_env_permutes rule_registry_def broken_registry_def queued_state_def queued_tables_def queued_run_def run_status_def)

text \<open>The registry of the example is a case of what loading keeps.\<close>

theorem discover_keeps_registry_witness:
  "registry_ok (snd (discover rule_registry_env [''/'', ''standards''] empty_registry))
    \<and> (\<exists>added. extends_by empty_registry added (snd (discover rule_registry_env [''/'', ''standards''] empty_registry)))"
  using discover_keeps_registry [OF empty_registry_ok, of rule_registry_env "[''/'', ''standards'']"]
  by (cases "discover rule_registry_env [''/'', ''standards''] empty_registry") auto

end
