(* ===== verification/Installed_Run.thy ===== *)
theory Installed_Run
  imports Rules_Run Catalogue_Props
begin

text \<open>
  The composition of a run with the rule catalogue: on an installation with the two manifests,
  whose worker answers with parsed ASTs, linking the units and executing all 152 rules returns,
  so that nothing but the dispatcher's statistics stands between a run and its completion.
\<close>

subsection \<open>Linking parsed units\<close>

text \<open>The names a list of nodes can put into the call graph.\<close>

definition names_in :: "ast_node list \<Rightarrow> string set" where
  "names_in nodes = (\<lambda>n. sem_str n ''name'') ` {n \<in> set nodes. node_kind n = ''FunctionDecl''}
     \<union> (\<lambda>n. sem_str n ''callee'') ` {n \<in> set nodes. node_kind n = ''CallExpr''}"

lemma append_new_set [simp]: "set (append_new c cs) = insert c (set cs)"
  by (auto simp: append_new_def)

lemma fold_append_new_set [simp]: "set (fold append_new xs cs) = set xs \<union> set cs"
  by (induction xs arbitrary: cs) auto

lemma call_names_set: "set (call_graph_names (dict_set k v d)) \<subseteq> insert k (set v) \<union> set (call_graph_names d)"
  using set_dict_set_subset [of k v d] by (force simp: call_graph_names_def dict_keys_def)

lemma call_names_get: "set (dict_get_default [] cg name) \<subseteq> set (call_graph_names cg)"
  using callees_in_names [of cg name] by (simp add: callees_in_def)

lemma callees_of_names:
  assumes "ranked (mk_graph nodes) height" "callees_of (mk_graph nodes) f = Some cs"
  shows "set cs \<subseteq> names_in nodes"
proof -
  let ?g = "mk_graph nodes"
  obtain ds where ds: "descendants ?g (node_id f) = Some ds" using descendants_total [OF assms(1)] by blast
  have "set ds \<subseteq> set nodes"
    using set_descendants [OF assms(1) ds] g_get_in_nodes [OF ranked_ok [OF assms(1)]] by auto
  moreover have "set (fold (\<lambda>n cs. if node_kind n \<noteq> ''CallExpr'' then cs
      else let callee = sem_str n ''callee'' in if callee \<noteq> [] then append_new callee cs else cs) xs cs)
      \<subseteq> names_in nodes" if "set xs \<subseteq> set nodes" "set cs \<subseteq> names_in nodes" for xs cs
    using that by (induction xs arbitrary: cs) (auto simp: Let_def names_in_def)
  from this [of ds "[]"] calculation show ?thesis using assms(2) by (simp add: callees_of_def ds)
qed

lemma call_step_names:
  assumes "ranked (mk_graph nodes) height" "call_step (mk_graph nodes) f cg = Some cg'"
    and "f \<in> set nodes" "node_kind f = ''FunctionDecl''" "names_in nodes \<subseteq> N" "set (call_graph_names cg) \<subseteq> N"
  shows "set (call_graph_names cg') \<subseteq> N"
proof -
  have f: "sem_str f ''name'' \<in> N" using assms(3-5) by (auto simp: names_in_def)
  have cs: "set cs \<subseteq> N" if "callees_of (mk_graph nodes) f = Some cs" for cs
    using callees_of_names [OF assms(1) that] assms(5) by blast
  show ?thesis
  proof (cases "cg' = cg")
    case False
    then obtain cs where "callees_of (mk_graph nodes) f = Some cs"
      "cg' = dict_set (sem_str f ''name'') (fold append_new cs (dict_get_default [] cg (sem_str f ''name''))) cg"
      using assms(2) by (auto simp: call_step_def Let_def split: if_splits bind_splits)
    moreover from cs [OF this(1)] have "set (fold append_new cs (dict_get_default [] cg (sem_str f ''name''))) \<subseteq> N"
      using call_names_get [of cg "sem_str f ''name''"] assms(6) by auto
    ultimately show ?thesis
      using call_names_set [of "sem_str f ''name''" _ cg] f assms(6) by blast
  qed (use assms(6) in simp)
qed

text \<open>A worker whose answers are parsed ASTs with few function names.\<close>

definition parsed_unit_graph :: "nat \<Rightarrow> string set \<Rightarrow> ast_node list \<Rightarrow> bool" where
  "parsed_unit_graph limit N nodes \<longleftrightarrow> parsed_graph (mk_graph nodes) limit \<and> names_in nodes \<subseteq> N"

lemma call_step_returns:
  assumes "parsed_graph g limit"
  shows "call_step g f cg \<noteq> None"
  unfolding call_step_def callees_of_def Let_def by (intro returns; rule assms)

lemma build_linkage_names:
  assumes "list_all (\<lambda>(tu, file, g). \<exists>nodes. g = mk_graph nodes \<and> parsed_unit_graph limit N nodes) units"
  shows "\<exists>d. build_linkage kinds units = Some d \<and> set (call_graph_names (ld_call_graph d)) \<subseteq> N"
proof -
  let ?unit = "\<lambda>(tu, file, g) cg. opt_fold (call_step g) (nodes_by_kind g ''FunctionDecl'') cg"
  have ok: "\<exists>nodes. g = mk_graph nodes \<and> parsed_unit_graph limit N nodes" if "(tu, f, g) \<in> set units" for tu f g
    using assms that by (auto simp: list_all_iff)
  have "?unit u cg \<noteq> None" if u: "u \<in> set units" for u cg
  proof -
    obtain tu f g where g: "u = (tu, f, g)" by (cases u)
    then have "parsed_graph g limit" using ok u by (auto simp: parsed_unit_graph_def)
    from opt_fold_returns [OF call_step_returns [OF this]] show ?thesis by (simp add: g del: not_None_eq)
  qed
  then have "build_call_graph units \<noteq> None" unfolding build_call_graph_def by (rule opt_fold_returns)
  then obtain cg where cg: "build_call_graph units = Some cg" by blast
  have "set (call_graph_names cg) \<subseteq> N"
    using cg unfolding build_call_graph_def
  proof (rule opt_fold_inv [where I = "\<lambda>cg. set (call_graph_names cg) \<subseteq> N"])
    fix u cg cg'
    assume u: "u \<in> set units" "set (call_graph_names cg) \<subseteq> N" "?unit u cg = Some cg'"
    obtain tu f g where g: "u = (tu, f, g)" by (cases u)
    from ok u(1) obtain nodes where n: "g = mk_graph nodes" "parsed_unit_graph limit N nodes" unfolding g by blast
    obtain height where r: "ranked (mk_graph nodes) height" using parsed_ranked n(2) unfolding parsed_unit_graph_def by blast
    have "opt_fold (call_step g) (nodes_by_kind g ''FunctionDecl'') cg = Some cg'" using u(3) by (simp add: g)
    then show "set (call_graph_names cg') \<subseteq> N"
    proof (rule opt_fold_inv [where I = "\<lambda>cg. set (call_graph_names cg) \<subseteq> N"])
      show "set (call_graph_names cg) \<subseteq> N" by (rule u(2))
    next
      fix f c c'
      assume "f \<in> set (nodes_by_kind g ''FunctionDecl'')" "set (call_graph_names c) \<subseteq> N" "call_step g f c = Some c'"
      with call_step_names [OF r, of f c c' N] n show "set (call_graph_names c') \<subseteq> N"
        by (simp add: all_nodes_def parsed_unit_graph_def)
    qed
  qed (simp add: call_graph_names_def)
  with cg show ?thesis by (simp add: build_linkage_def)
qed

subsection \<open>A run with all rules\<close>

definition worker_parses :: "run_env \<Rightarrow> string set \<Rightarrow> bool" where
  "worker_parses env N \<longleftrightarrow> finite N \<and> card N \<le> oe_depth env
     \<and> (\<forall>k rq r. oe_parse env k rq = Inr r \<longrightarrow> parsed_unit_graph (oe_depth env) N (pt_nodes r))"

lemma from_worker_parsed:
  assumes "worker_parses env N" "from_worker env a"
  shows "parsed_unit_graph (oe_depth env) N (ar_nodes a)"
  using assms by (auto simp: worker_parses_def from_worker_def artifact_of_def)

lemma attempts_return: "rule_detect d r ctx \<noteq> None \<Longrightarrow> rule_attempts d cfg ctx r \<noteq> None"
  by (auto simp: rule_attempts_def attempt_loop_const split: sum.splits)

lemma installed_rules_return:
  assumes "worker_parses env N" and "set (select_rules reg None) \<subseteq> set catalogue_plugins"
  shows "rules_return env reg pool"
  unfolding rules_return_def
proof (intro allI impI)
  fix pg prof graph prev
  assume pg: "dispatchable env pg"
  let ?pairs = "zip (pg_artifacts pg) (pg_unit_ids pg)"
  have worker: "parsed_unit_graph (oe_depth env) N (ar_nodes a)" if "(a, tu) \<in> set ?pairs" for a tu
  proof -
    have "a \<in> set (pg_artifacts pg)" using that by (rule set_zip_leftD)
    then have "from_worker env a" using pg by (simp add: dispatchable_def list_all_iff)
    then show ?thesis by (rule from_worker_parsed [OF assms(1)])
  qed
  then have "list_all (\<lambda>(tu, file, g). \<exists>nodes. g = mk_graph nodes \<and> parsed_unit_graph (oe_depth env) N nodes)
      (map (\<lambda>(a, tu). (tu, ar_file_path a, mk_graph (ar_nodes a))) ?pairs)"
    by (auto simp: list_all_iff)
  from build_linkage_names [OF this, of "oe_kinds env"] obtain d where
    d: "build_linkage (oe_kinds env) (map (\<lambda>(a, tu). (tu, ar_file_path a, mk_graph (ar_nodes a))) ?pairs) = Some d"
      "set (call_graph_names (ld_call_graph d)) \<subseteq> N" by blast
  have "card (set (call_graph_names (ld_call_graph d))) \<le> oe_depth env"
    using card_mono [OF _ d(2)] assms(1) by (auto simp: worker_parses_def)
  then have "analyzable (oe_depth env) (tj_context job)"
    if "job \<in> set (dispatch_jobs (select_rules reg None) prof graph prev d ?pairs)" for job
    using that worker by (auto simp: dispatch_jobs_def build_translation_unit_job_def from_ast_artifact_def
        analyzable_def parsed_unit_graph_def)
  then have "rule_attempts (oe_depth env) (wl_engine pool) (tj_context job) r \<noteq> None"
    if "job \<in> set (dispatch_jobs (select_rules reg None) prof graph prev d ?pairs)" "r \<in> set (select_rules reg None)" for job r
    using that assms(2) attempts_return [OF detect_returns [OF catalogue_finds]] by blast
  with d(1) show "\<exists>linkage. build_linkage (oe_kinds env)
         (map (\<lambda>(a, tu). (tu, ar_file_path a, mk_graph (ar_nodes a))) ?pairs) = Some linkage
      \<and> (\<forall>job \<in> set (dispatch_jobs (select_rules reg None) prof graph prev linkage ?pairs).
           \<forall>r \<in> set (select_rules reg None). rule_attempts (oe_depth env) (wl_engine pool) (tj_context job) r \<noteq> None)"
    by blast
qed

text \<open>
  C2: On an installation with the rule engine enabled, a full run whose units are parsed never
  completes and stores no violation, although every one of the 152 rules returns on every unit:
  building the statistics of the dispatch raises an attribute error.
\<close>

theorem installed_run_fails:
  assumes "installed_at (oe_registry env) (oe_standards_root env)" "oe_rules_enabled env"
    and "worker_parses env N" "parses_all env" "iterates_sets (oe_order env)"
    and "0 < oe_tu_workers env" "0 < oe_rule_workers env" "fair_pool (oe_pool env)"
    and "st_work s = st_db s" "run_status (st_db s) \<noteq> RUN_COMPLETED"
  shows "\<exists>r s'. run_analysis env project_id run_id (Some project) (Some run) FULL base_run_id s = Some (r, s')
    \<and> run_status (st_db s') \<noteq> RUN_COMPLETED \<and> tb_violations (st_db s') = tb_violations (st_db s)"
proof -
  obtain reg where reg: "create_default_registry (oe_registry env) (oe_standards_root env) = Inr reg"
    "length (select_rules reg None) = 152" "set (select_rules reg None) \<subseteq> set catalogue_plugins"
    using default_registry [OF assms(1)] by blast
  let ?pool = "mk_worker_pool (oe_tu_workers env) (oe_rule_workers env) (oe_rule_timeout env)"
  have "run_dispatcher env (Some (reg, ?pool))" using reg(1) assms(2) by (simp add: run_dispatcher_def)
  moreover have "rg_plugins reg \<noteq> []" using reg(2) by (auto simp: select_rules_def)
  ultimately show ?thesis
    using rules_fail_run [OF assms(5,4) _ assms(6-8) _ installed_rules_return [OF assms(3) reg(3)] assms(9,10)] by blast
qed

text \<open>An installation whose worker answers with a function that returns.\<close>

definition installed_env :: run_env where
  "installed_env = example_run_env\<lparr>oe_rules_enabled := True, oe_registry := example_install, oe_standards_root := [''s''],
     oe_parse := (\<lambda>k rq. Inr \<lparr>pt_success = True, pt_status_message = [], pt_translation_unit_hash = ''h'',
        pt_parse_duration_ms = 3, pt_nodes = calls_nodes, pt_diagnostics = [], pt_preprocessor = empty_macro_table\<rparr>)\<rparr>"

lemma installed_worker: "worker_parses installed_env {''f''}"
proof -
  have "names_in calls_nodes = {''f''}" by code_simp
  moreover have "parsed_graph (mk_graph calls_nodes) 5"
    using calls_analyzable by (simp add: analyzable_def calls_context_def from_ast_artifact_def)
  ultimately show ?thesis
    by (simp add: worker_parses_def installed_env_def parsed_unit_graph_def example_run_env_def)
qed

theorem installed_run_fails_witness:
  "\<exists>r s'. run_analysis installed_env ''p'' ''r'' (Some example_project) (Some queued_run) FULL None queued_state = Some (r, s')
    \<and> run_status (st_db s') \<noteq> RUN_COMPLETED \<and> tb_violations (st_db s') = tb_violations (st_db queued_state)"
  by (rule installed_run_fails [OF _ _ installed_worker])
    (simp_all add: installed_env_def example_run_env_def installed_at_def example_install_def path_exists_def
      iterates_sets_def parses_all_def fair_pool_def example_pool_env_def example_env_permutes queued_state_def
      queued_tables_def queued_run_def run_status_def)

end
