(* ===== verification/Conformance.thy ===== *)
theory Conformance
  imports Rounding Engine
begin

text \<open>
  The conformance harness (\<open>conformance.py\<close>), which runs a rule on labelled cases and measures it,
  and the gate that turns the measures into a decision (\<open>rule_enablement.py\<close>).
\<close>

subsection \<open>Cases and metrics\<close>

record conformance_case =
  cs_case_id :: string
  cs_kind :: string
  cs_artifact :: ast_artifact
  cs_expects_violation :: bool
  cs_cross_tu_linkage :: "linkage_data option"

record rule_conformance_suite =
  su_rule_id :: string
  su_cases :: "conformance_case list"

record case_outcome =
  co_case_id :: string
  co_kind :: string
  co_expected :: bool
  co_actual :: bool
  co_correct :: bool

record conformance_metrics =
  cm_rule_id :: string
  cm_total_cases :: nat
  cm_true_positives :: nat
  cm_false_positives :: nat
  cm_true_negatives :: nat
  cm_false_negatives :: nat
  cm_outcomes :: "case_outcome list"

definition ratio :: "nat \<Rightarrow> nat \<Rightarrow> rat \<Rightarrow> rat" where
  "ratio numerator denominator otherwise = (if denominator \<noteq> 0 then of_nat numerator / of_nat denominator else otherwise)"

definition precision :: "conformance_metrics \<Rightarrow> rat" where
  "precision m = ratio (cm_true_positives m) (cm_true_positives m + cm_false_positives m) 1"

definition recall :: "conformance_metrics \<Rightarrow> rat" where
  "recall m = ratio (cm_true_positives m) (cm_true_positives m + cm_false_negatives m) 1"

definition false_positive_rate :: "conformance_metrics \<Rightarrow> rat" where
  "false_positive_rate m = ratio (cm_false_positives m) (cm_false_positives m + cm_true_negatives m) 0"

record metrics_dict =
  cd_rule_id :: string
  cd_total_cases :: nat
  cd_precision :: rat
  cd_recall :: rat
  cd_false_positive_rate :: rat
  cd_counts :: "nat \<times> nat \<times> nat \<times> nat"

definition metrics_as_dict :: "conformance_metrics \<Rightarrow> metrics_dict" where
  "metrics_as_dict m =
     \<lparr>cd_rule_id = cm_rule_id m, cd_total_cases = cm_total_cases m,
      cd_precision = round_digits 3 (precision m), cd_recall = round_digits 3 (recall m),
      cd_false_positive_rate = round_digits 3 (false_positive_rate m),
      cd_counts = (cm_true_positives m, cm_false_positives m, cm_true_negatives m, cm_false_negatives m)\<rparr>"

subsection \<open>The runner\<close>

record tally =
  ta_tp :: nat
  ta_fp :: nat
  ta_tn :: nat
  ta_fn :: nat
  ta_outcomes :: "case_outcome list"

definition case_context :: "conformance_case \<Rightarrow> rule_context" where
  "case_context c = from_ast_artifact (cs_artifact c) (cs_case_id c) [] None [] [] (cs_cross_tu_linkage c)"

definition count_case :: "conformance_case \<Rightarrow> bool \<Rightarrow> tally \<Rightarrow> tally" where
  "count_case c fired t =
     (let t = (if cs_expects_violation c \<and> fired then t\<lparr>ta_tp := ta_tp t + 1\<rparr>
               else if cs_expects_violation c \<and> \<not> fired then t\<lparr>ta_fn := ta_fn t + 1\<rparr>
               else if \<not> cs_expects_violation c \<and> fired then t\<lparr>ta_fp := ta_fp t + 1\<rparr>
               else t\<lparr>ta_tn := ta_tn t + 1\<rparr>)
      in t\<lparr>ta_outcomes := ta_outcomes t @
        [\<lparr>co_case_id = cs_case_id c, co_kind = cs_kind c, co_expected = cs_expects_violation c,
          co_actual = fired, co_correct = (cs_expects_violation c = fired)\<rparr>]\<rparr>)"

fun run_cases :: "nat \<Rightarrow> rule_plugin \<Rightarrow> conformance_case list \<Rightarrow> tally \<Rightarrow> (py_error + tally) option" where
  "run_cases depth plugin [] t = Some (Inr t)"
| "run_cases depth plugin (c # cs) t = do {
     detected \<leftarrow> rule_detect depth plugin (case_context c);
     (case detected of
        Inl e \<Rightarrow> Some (Inl e)
      | Inr violations \<Rightarrow> run_cases depth plugin cs (count_case c (violations \<noteq> []) t)) }"

definition empty_tally :: tally where
  "empty_tally = \<lparr>ta_tp = 0, ta_fp = 0, ta_tn = 0, ta_fn = 0, ta_outcomes = []\<rparr>"

definition metrics_of_tally :: "rule_conformance_suite \<Rightarrow> tally \<Rightarrow> conformance_metrics" where
  "metrics_of_tally suite t =
     \<lparr>cm_rule_id = su_rule_id suite, cm_total_cases = length (su_cases suite),
      cm_true_positives = ta_tp t, cm_false_positives = ta_fp t,
      cm_true_negatives = ta_tn t, cm_false_negatives = ta_fn t, cm_outcomes = ta_outcomes t\<rparr>"

definition run_suite :: "nat \<Rightarrow> rule_plugin \<Rightarrow> rule_conformance_suite \<Rightarrow> (py_error + conformance_metrics) option" where
  "run_suite depth plugin suite =
     map_option (map_sum id (metrics_of_tally suite)) (run_cases depth plugin (su_cases suite) empty_tally)"

fun run_all :: "nat \<Rightarrow> (string, rule_plugin) dict \<Rightarrow> rule_conformance_suite list \<Rightarrow> conformance_metrics list \<Rightarrow>
    (py_error + conformance_metrics list) option" where
  "run_all depth plugins [] results = Some (Inr results)"
| "run_all depth plugins (s # ss) results = (case map_of plugins (su_rule_id s) of
     None \<Rightarrow> run_all depth plugins ss results
   | Some plugin \<Rightarrow> do {
       outcome \<leftarrow> run_suite depth plugin s;
       (case outcome of Inl e \<Rightarrow> Some (Inl e) | Inr m \<Rightarrow> run_all depth plugins ss (results @ [m])) })"

subsection \<open>The enablement gate\<close>

definition required_case_kinds :: "string set" where
  "required_case_kinds = {''positive'', ''negative'', ''edge'', ''macro'', ''embedded''}"

definition minimum_case_kinds :: "string set" where
  "minimum_case_kinds = {''positive'', ''negative''}"

record confidence_thresholds =
  th_min_precision :: rat
  th_min_recall :: rat
  th_max_false_positive_rate :: rat

definition default_thresholds :: confidence_thresholds where
  "default_thresholds = \<lparr>th_min_precision = dec2 85, th_min_recall = dec2 75, th_max_false_positive_rate = dec2 15\<rparr>"

record rule_enablement_decision =
  en_rule_id :: string
  en_conformance_complete :: bool
  en_missing_case_kinds :: "string list"
  en_precision :: rat
  en_recall :: rat
  en_false_positive_rate :: rat
  en_total_cases :: nat
  en_enabled_by_default :: bool
  en_experimental :: bool
  en_legacy_partial_conformance :: bool
  en_reason :: string

definition decision_as_dict :: "rule_enablement_decision \<Rightarrow> rule_enablement_decision" where
  "decision_as_dict d = d\<lparr>en_precision := round_digits 3 (en_precision d), en_recall := round_digits 3 (en_recall d),
     en_false_positive_rate := round_digits 3 (en_false_positive_rate d)\<rparr>"

definition present_kinds :: "rule_conformance_suite \<Rightarrow> string set" where
  "present_kinds suite = cs_kind ` set (su_cases suite)"

definition missing_kinds :: "rule_conformance_suite \<Rightarrow> string list" where
  "missing_kinds suite = sorted_list_of_set (required_case_kinds - present_kinds suite)"

definition conformance_completeness :: "rule_conformance_suite \<Rightarrow> bool \<times> string list" where
  "conformance_completeness suite = (missing_kinds suite = [], missing_kinds suite)"

definition has_minimum_coverage :: "rule_conformance_suite \<Rightarrow> bool" where
  "has_minimum_coverage suite \<longleftrightarrow> minimum_case_kinds \<subseteq> present_kinds suite"

definition kinds_repr :: "string list \<Rightarrow> string" where
  "kinds_repr ks = py_repr (PList (map PStr ks))"

definition decision_of ::
    "rule_conformance_suite \<Rightarrow> conformance_metrics \<Rightarrow> bool \<Rightarrow> string list \<Rightarrow> bool \<times> bool \<times> bool \<Rightarrow> string \<Rightarrow>
     rule_enablement_decision" where
  "decision_of suite m is_complete missing flags reason =
     \<lparr>en_rule_id = su_rule_id suite, en_conformance_complete = is_complete, en_missing_case_kinds = missing,
      en_precision = precision m, en_recall = recall m, en_false_positive_rate = false_positive_rate m,
      en_total_cases = cm_total_cases m, en_enabled_by_default = fst flags, en_experimental = fst (snd flags),
      en_legacy_partial_conformance = snd (snd flags), en_reason = reason\<rparr>"

definition low_confidence :: "confidence_thresholds \<Rightarrow> conformance_metrics \<Rightarrow> bool" where
  "low_confidence th m \<longleftrightarrow> precision m < th_min_precision th \<or> recall m < th_min_recall th
     \<or> false_positive_rate m > th_max_false_positive_rate th"

definition evaluate_rule ::
    "rule_conformance_suite \<Rightarrow> conformance_metrics \<Rightarrow> confidence_thresholds \<Rightarrow> rule_enablement_decision" where
  "evaluate_rule suite m th = (case conformance_completeness suite of (is_complete, missing) \<Rightarrow>
     if \<not> is_complete \<and> \<not> has_minimum_coverage suite then
       decision_of suite m False missing (False, False, False)
         (''disabled: no tests at all for required case kinds '' @ kinds_repr missing)
     else if \<not> is_complete then
       decision_of suite m False missing (True, True, True)
         (''experimental (legacy partial conformance): missing case kinds '' @ kinds_repr missing
           @ ''; enabled but flagged until macro/embedded/edge coverage is added'')
     else if low_confidence th m then
       decision_of suite m True [] (True, True, False)
         (''experimental: below confidence thresholds (precision='' @ fixed_two (precision m)
           @ '', recall='' @ fixed_two (recall m) @ '', fpr='' @ fixed_two (false_positive_rate m) @ '')'')
     else decision_of suite m True [] (True, False, False)
         ''enabled: full conformance coverage and within confidence thresholds'')"

definition unmeasured :: "string \<Rightarrow> rule_enablement_decision" where
  "unmeasured rid =
     \<lparr>en_rule_id = rid, en_conformance_complete = False, en_missing_case_kinds = sorted_list_of_set required_case_kinds,
      en_precision = 0, en_recall = 0, en_false_positive_rate = 1, en_total_cases = 0, en_enabled_by_default = False,
      en_experimental = False, en_legacy_partial_conformance = False,
      en_reason = ''disabled: no conformance metrics available''\<rparr>"

definition evaluate_all ::
    "(string, rule_conformance_suite) dict \<Rightarrow> (string, conformance_metrics) dict \<Rightarrow> confidence_thresholds \<Rightarrow>
     rule_enablement_decision list" where
  "evaluate_all suites metrics_by_id th =
     map (\<lambda>(rid, suite). case map_of metrics_by_id rid of None \<Rightarrow> unmeasured rid | Some m \<Rightarrow> evaluate_rule suite m th) suites"

record enablement_report =
  er_total_rules :: nat
  er_enabled_count :: nat
  er_experimental_count :: nat
  er_disabled_count :: nat
  er_legacy_partial_count :: nat
  er_enabled_rule_ids :: "string list"
  er_experimental_rule_ids :: "string list"
  er_disabled_rule_ids :: "string list"
  er_legacy_partial_rule_ids :: "string list"

definition enablement_summary :: "rule_enablement_decision list \<Rightarrow> enablement_report" where
  "enablement_summary ds =
     (let enabled = filter (\<lambda>d. en_enabled_by_default d \<and> \<not> en_experimental d) ds;
          experimental = filter en_experimental ds;
          disabled = filter (\<lambda>d. \<not> en_enabled_by_default d) ds;
          legacy_partial = filter en_legacy_partial_conformance ds
      in \<lparr>er_total_rules = length ds, er_enabled_count = length enabled, er_experimental_count = length experimental,
          er_disabled_count = length disabled, er_legacy_partial_count = length legacy_partial,
          er_enabled_rule_ids = sort (map en_rule_id enabled), er_experimental_rule_ids = sort (map en_rule_id experimental),
          er_disabled_rule_ids = sort (map en_rule_id disabled),
          er_legacy_partial_rule_ids = sort (map en_rule_id legacy_partial)\<rparr>)"

subsection \<open>What the runner counts\<close>

definition fires :: "nat \<Rightarrow> rule_plugin \<Rightarrow> conformance_case \<Rightarrow> bool" where
  "fires depth plugin c \<longleftrightarrow> rule_detect depth plugin (case_context c) \<noteq> Some (Inr [])"

definition outcome_of :: "(conformance_case \<Rightarrow> bool) \<Rightarrow> conformance_case \<Rightarrow> case_outcome" where
  "outcome_of fired c = \<lparr>co_case_id = cs_case_id c, co_kind = cs_kind c, co_expected = cs_expects_violation c,
     co_actual = fired c, co_correct = (cs_expects_violation c = fired c)\<rparr>"

definition tally_of :: "(conformance_case \<Rightarrow> bool) \<Rightarrow> conformance_case list \<Rightarrow> tally" where
  "tally_of fired cs =
     \<lparr>ta_tp = length (filter (\<lambda>c. cs_expects_violation c \<and> fired c) cs),
      ta_fp = length (filter (\<lambda>c. \<not> cs_expects_violation c \<and> fired c) cs),
      ta_tn = length (filter (\<lambda>c. \<not> cs_expects_violation c \<and> \<not> fired c) cs),
      ta_fn = length (filter (\<lambda>c. cs_expects_violation c \<and> \<not> fired c) cs),
      ta_outcomes = map (outcome_of fired) cs\<rparr>"

lemma count_case_tally: "count_case c (fired c) (tally_of fired cs) = tally_of fired (cs @ [c])"
  by (simp add: count_case_def tally_of_def outcome_of_def Let_def)

lemma run_cases_tally:
  assumes "run_cases depth plugin cs (tally_of (fires depth plugin) done_cases) = Some (Inr t)"
  shows "t = tally_of (fires depth plugin) (done_cases @ cs)"
  using assms
proof (induction cs arbitrary: done_cases)
  case (Cons c cs)
  obtain vs where vs: "rule_detect depth plugin (case_context c) = Some (Inr vs)"
    "run_cases depth plugin cs (count_case c (vs \<noteq> []) (tally_of (fires depth plugin) done_cases)) = Some (Inr t)"
    using Cons.prems by (auto split: bind_splits sum.splits)
  have "(vs \<noteq> []) = fires depth plugin c" using vs(1) by (simp add: fires_def)
  with vs(2) Cons.IH [of "done_cases @ [c]"] show ?case by (simp add: count_case_tally)
qed simp

lemma run_suite_tally:
  assumes "run_suite depth plugin suite = Some (Inr m)"
  shows "m = metrics_of_tally suite (tally_of (fires depth plugin) (su_cases suite))"
proof -
  have empty: "empty_tally = tally_of (fires depth plugin) []" by (simp add: empty_tally_def tally_of_def)
  obtain t where t: "run_cases depth plugin (su_cases suite) empty_tally = Some (Inr t)" "m = metrics_of_tally suite t"
    using assms unfolding run_suite_def
    by (cases "run_cases depth plugin (su_cases suite) empty_tally"; cases "the (run_cases depth plugin (su_cases suite) empty_tally)")
      auto
  then show ?thesis using run_cases_tally [of depth plugin "su_cases suite" "[]" t] by (simp add: empty)
qed

lemma length_filter_split: "length (filter (\<lambda>x. P x \<and> Q x) xs) + length (filter (\<lambda>x. P x \<and> \<not> Q x) xs) = length (filter P xs)"
  by (induction xs) auto

text \<open>
  The metrics of a suite count its cases: each of them once, split by what it expects and by whether
  the rule reports anything; the cases that are decided as expected are the true ones.
\<close>

theorem metrics_count_cases:
  assumes "run_suite depth plugin suite = Some (Inr m)"
  shows "cm_true_positives m + cm_false_negatives m = length (filter cs_expects_violation (su_cases suite))
    \<and> cm_false_positives m + cm_true_negatives m = length (filter (Not \<circ> cs_expects_violation) (su_cases suite))
    \<and> cm_true_positives m + cm_false_positives m = length (filter (fires depth plugin) (su_cases suite))
    \<and> cm_total_cases m = cm_true_positives m + cm_false_positives m + cm_true_negatives m + cm_false_negatives m
    \<and> length (filter co_correct (cm_outcomes m)) = cm_true_positives m + cm_true_negatives m
    \<and> cm_outcomes m = map (outcome_of (fires depth plugin)) (su_cases suite)"
proof -
  let ?f = "fires depth plugin" and ?cs = "su_cases suite"
  have correct: "length (filter co_correct (map (outcome_of ?f) cs))
      = length (filter (\<lambda>c. cs_expects_violation c \<and> ?f c) cs) + length (filter (\<lambda>c. \<not> cs_expects_violation c \<and> \<not> ?f c) cs)" for cs
    by (induction cs) (auto simp: outcome_of_def)
  have fired: "length (filter (\<lambda>c. cs_expects_violation c \<and> ?f c) cs) + length (filter (\<lambda>c. \<not> cs_expects_violation c \<and> ?f c) cs)
      = length (filter ?f cs)" for cs
    by (induction cs) auto
  have all: "length (filter P cs) + length (filter (Not \<circ> P) cs) = length cs" for P :: "conformance_case \<Rightarrow> bool" and cs
    by (induction cs) auto
  show ?thesis
    unfolding run_suite_tally [OF assms] metrics_of_tally_def tally_of_def
    using length_filter_split [of cs_expects_violation ?f ?cs] length_filter_split [of "Not \<circ> cs_expects_violation" ?f ?cs]
      all [of cs_expects_violation ?cs] fired [of ?cs] correct [of ?cs] by (simp add: comp_def)
qed

subsection \<open>What the gate decides\<close>

lemma missing_kinds_set [simp]: "set (missing_kinds suite) = required_case_kinds - present_kinds suite"
  by (simp add: missing_kinds_def required_case_kinds_def)

lemma missing_kinds_Nil: "missing_kinds suite = [] \<longleftrightarrow> required_case_kinds \<subseteq> present_kinds suite"
  using missing_kinds_set [of suite] by (metis Diff_eq_empty_iff set_empty)

lemma evaluate_fields:
  "en_enabled_by_default (evaluate_rule suite m th) \<longleftrightarrow> missing_kinds suite = [] \<or> has_minimum_coverage suite"
  "en_conformance_complete (evaluate_rule suite m th) \<longleftrightarrow> missing_kinds suite = []"
  "en_legacy_partial_conformance (evaluate_rule suite m th) \<longleftrightarrow> missing_kinds suite \<noteq> [] \<and> has_minimum_coverage suite"
  "en_experimental (evaluate_rule suite m th) \<longleftrightarrow>
     (if missing_kinds suite = [] then low_confidence th m else has_minimum_coverage suite)"
  "en_missing_case_kinds (evaluate_rule suite m th) = missing_kinds suite"
  by (simp_all add: evaluate_rule_def conformance_completeness_def decision_of_def)

text \<open>
  The decision on a rule: it is enabled exactly if its suite has a positive and a negative case, and
  an enabled rule is experimental exactly if a required kind of case is missing or a measure is
  outside its threshold.
\<close>

theorem enablement_exact:
  fixes suite m th
  defines "d \<equiv> evaluate_rule suite m th" and "kinds \<equiv> cs_kind ` set (su_cases suite)"
  shows "(en_enabled_by_default d \<longleftrightarrow> {''positive'', ''negative''} \<subseteq> kinds)
   \<and> (en_conformance_complete d \<longleftrightarrow> {''positive'', ''negative'', ''edge'', ''macro'', ''embedded''} \<subseteq> kinds)
   \<and> (en_experimental d \<longleftrightarrow> en_enabled_by_default d \<and> (\<not> en_conformance_complete d \<or> low_confidence th m))
   \<and> set (en_missing_case_kinds d) = {''positive'', ''negative'', ''edge'', ''macro'', ''embedded''} - kinds"
proof -
  have min: "has_minimum_coverage suite \<longleftrightarrow> {''positive'', ''negative''} \<subseteq> kinds"
    by (simp add: has_minimum_coverage_def minimum_case_kinds_def present_kinds_def kinds_def)
  have all: "missing_kinds suite = [] \<longleftrightarrow> required_case_kinds \<subseteq> kinds"
    by (simp add: missing_kinds_Nil present_kinds_def kinds_def)
  have "minimum_case_kinds \<subseteq> required_case_kinds" by (auto simp: minimum_case_kinds_def required_case_kinds_def)
  then have more: "missing_kinds suite = [] \<Longrightarrow> has_minimum_coverage suite"
    by (auto simp: missing_kinds_Nil has_minimum_coverage_def)
  have kinds: "missing_kinds suite = [] \<longleftrightarrow> {''positive'', ''negative'', ''edge'', ''macro'', ''embedded''} \<subseteq> kinds"
    "set (missing_kinds suite) = {''positive'', ''negative'', ''edge'', ''macro'', ''embedded''} - kinds"
    using all by (simp_all only: missing_kinds_set required_case_kinds_def present_kinds_def kinds_def)
  have "missing_kinds suite = [] \<or> has_minimum_coverage suite \<longleftrightarrow> has_minimum_coverage suite" using more by blast
  then show ?thesis
    unfolding d_def evaluate_fields min [symmetric] kinds [symmetric] by (simp only: simp_thms) (use more in auto)
qed

lemma experimental_enabled: "d \<in> set (evaluate_all suites ms th) \<Longrightarrow> en_experimental d \<Longrightarrow> en_enabled_by_default d"
  by (auto simp: evaluate_all_def evaluate_rule_def unmeasured_def decision_of_def split: option.splits prod.splits if_splits)

lemma three_groups: "(\<And>x. x \<in> set xs \<Longrightarrow> Q x \<Longrightarrow> P x) \<Longrightarrow>
  length (filter (\<lambda>x. P x \<and> \<not> Q x) xs) + length (filter Q xs) + length (filter (\<lambda>x. \<not> P x) xs) = length xs"
  by (induction xs) auto

text \<open>The summary of the decisions splits the rules into enabled, experimental and disabled ones.\<close>

theorem summary_partitions:
  "er_enabled_count (enablement_summary (evaluate_all suites ms th))
   + er_experimental_count (enablement_summary (evaluate_all suites ms th))
   + er_disabled_count (enablement_summary (evaluate_all suites ms th)) = length suites"
proof -
  have "length (evaluate_all suites ms th) = length suites" by (simp add: evaluate_all_def)
  with three_groups [of "evaluate_all suites ms th" en_experimental en_enabled_by_default, OF experimental_enabled]
  show ?thesis by (simp add: enablement_summary_def Let_def)
qed

text \<open>
  The kind of a case is not tied to what it expects: a rule that never reports anything passes
  the gate with a suite of all five kinds in which no case expects a violation.
\<close>

theorem silent_rule_enabled:
  assumes "run_suite depth plugin suite = Some (Inr m)" and "required_case_kinds \<subseteq> present_kinds suite"
    and "list_all (\<lambda>c. \<not> cs_expects_violation c \<and> \<not> fires depth plugin c) (su_cases suite)"
  shows "en_enabled_by_default (evaluate_rule suite m default_thresholds)
    \<and> \<not> en_experimental (evaluate_rule suite m default_thresholds)"
proof -
  have "ta_tp (tally_of (fires depth plugin) (su_cases suite)) = 0" "ta_fp (tally_of (fires depth plugin) (su_cases suite)) = 0"
    "ta_fn (tally_of (fires depth plugin) (su_cases suite)) = 0"
    using assms(3) by (auto simp: tally_of_def list_all_iff)
  then have "precision m = 1" "recall m = 1" "false_positive_rate m = 0"
    by (simp_all add: run_suite_tally [OF assms(1)] metrics_of_tally_def precision_def recall_def false_positive_rate_def ratio_def)
  then have "\<not> low_confidence default_thresholds m"
    by (simp add: low_confidence_def default_thresholds_def dec2_def)
  moreover have "missing_kinds suite = []" using assms(2) by (simp add: missing_kinds_Nil)
  ultimately show ?thesis by (simp add: evaluate_fields)
qed

end
