(* ===== verification/Spec2Isabelle.thy ===== *)
theory Spec2Isabelle
  imports Cfg_Flow Dataflow_Props Alias Structure Pack_Control Pack_Types Pack_Expr Call_Cycles Engine Analysis_Cache
    Pack_Decl Pack_Linkage Pack_Preprocessor Pack_Library Catalogue Incremental Review Compile_Db Installed_Run
    Conformance
begin

text \<open>
  A verification library for the MISRA C analysis platform: the Python rule engine under
  \<open>src/rule-engine/src/misra_platform_rules\<close> and the Python backend under
  \<open>src/backend/src/misra_platform\<close>.

  The clang worker sends one serialized AST per translation unit; the rule engine wraps it in
  an \<open>AstGraph\<close>, analyzers derive control-flow graphs, data-flow facts, alias facts,
  essential types, symbols and linkage from it, and rule packs query those.
\<close>

end
